(* ===== verification/Prelude.thy ===== *)
theory Prelude
  imports Main "HOL-Library.Word"
begin

text \<open>
  Shared vocabulary of the development: the machine integers and error codes the C code
  uses, C strings as byte lists, the C library's string helpers, and the generic lemmas
  the component theories have in common.

  Integers keep their C width where it can be observed: \<open>uint8_t\<close> is \<open>u8\<close>, \<open>uint16_t\<close> is
  \<open>u16\<close>, \<open>uint32_t\<close> and \<open>unsigned int\<close> are \<open>u32\<close>. Plain \<open>char\<close> is unsigned on the
  RISC-V target the project is configured for (\<open>CONFIG_IDF_TARGET="esp32c3"\<close>), so it is
  \<open>u8\<close> too. A C \<open>int\<close> whose values stay far from the ends of its range is \<open>int\<close>.
\<close>

type_synonym u8 = "8 word"
type_synonym u16 = "16 word"
type_synonym u32 = "32 word"

named_theorems frame_simps \<open>fields an operation leaves alone\<close>
named_theorems op_defs \<open>definitions of the straight-line operations\<close>

subsection \<open>Error codes\<close>

text \<open>
  \<open>esp_err_t\<close> is a C \<open>int\<close>; the platform may return any code, the application and the
  libraries return the named ones (values of \<open>esp_err.h\<close>).
\<close>

type_synonym esp_err = int

abbreviation (input) ESP_OK :: esp_err where "ESP_OK \<equiv> 0"
abbreviation (input) ESP_FAIL :: esp_err where "ESP_FAIL \<equiv> - 1"
abbreviation (input) ESP_ERR_NO_MEM :: esp_err where "ESP_ERR_NO_MEM \<equiv> 257"
abbreviation (input) ESP_ERR_INVALID_ARG :: esp_err where "ESP_ERR_INVALID_ARG \<equiv> 258"
abbreviation (input) ESP_ERR_INVALID_STATE :: esp_err where "ESP_ERR_INVALID_STATE \<equiv> 259"
abbreviation (input) ESP_ERR_NOT_FOUND :: esp_err where "ESP_ERR_NOT_FOUND \<equiv> 261"

text \<open>FreeRTOS' \<open>pdTRUE\<close> and \<open>pdPASS\<close>.\<close>

abbreviation (input) pdTRUE :: int where "pdTRUE \<equiv> 1"

subsection \<open>Small facts on machine words\<close>

lemma nat_int_minus [simp]: "nat (int a - int b) = a - b"
  by arith

lemma nat_int_Suc [simp]: "nat (int n + 1) = Suc n"
  by arith

lemma u8_less_256: "unat (x :: u8) < 256"
  by (rule order.strict_trans2 [OF unsigned_less]) simp

lemma u8_uint_bounds: "0 \<le> uint (x :: u8)" "uint (x :: u8) < 256"
  by simp (rule order.strict_trans2 [OF unsigned_less], simp)

lemma unat_minus_le: "b \<le> a \<Longrightarrow> unat (a - b) = unat a - unat (b :: 'a::len word)"
  by (simp add: unat_sub)

lemma unat_plus_small:
  "unat a + unat b < 2 ^ LENGTH('a) \<Longrightarrow> unat (a + b) = unat a + unat (b :: 'a::len word)"
  by (simp add: unat_word_ariths)

subsection \<open>Lists of bytes and strings\<close>

text \<open>C strings are lists of characters without the terminating zero byte.\<close>

definition strlcpy :: "string \<Rightarrow> nat \<Rightarrow> string" where
  \<comment> \<open>what \<open>strlcpy(dst, src, n)\<close> leaves in \<open>dst\<close>: at most \<open>n - 1\<close> characters\<close>
  "strlcpy src n = take (n - 1) src"

definition snprintf :: "nat \<Rightarrow> string \<Rightarrow> string" where
  \<comment> \<open>what \<open>snprintf(dst, n, ...)\<close> leaves in \<open>dst\<close> for a formatted text\<close>
  "snprintf n txt = take (n - 1) txt"

definition strncmp_eq :: "string \<Rightarrow> string \<Rightarrow> nat \<Rightarrow> bool" where
  \<comment> \<open>\<open>strncmp(a, b, n) == 0\<close>\<close>
  "strncmp_eq a b n \<longleftrightarrow> take n a = take n b"

lemma length_strlcpy: "0 < n \<Longrightarrow> length (strlcpy s n) < n"
  by (simp add: strlcpy_def)

lemma strlcpy_id: "length s < n \<Longrightarrow> strlcpy s n = s"
  by (simp add: strlcpy_def)

lemma snprintf_id: "length s < n \<Longrightarrow> snprintf n s = s"
  by (simp add: snprintf_def)

lemma strncmp_eq_refl [simp]: "strncmp_eq a a n"
  by (simp add: strncmp_eq_def)

lemma strncmp_eq_short:
  "length a \<le> n \<Longrightarrow> length b \<le> n \<Longrightarrow> strncmp_eq a b n \<longleftrightarrow> a = b"
  by (simp add: strncmp_eq_def)

definition c_string :: "string \<Rightarrow> string" where
  \<comment> \<open>the string in an array of characters: what comes before the first zero\<close>
  "c_string t = takeWhile (\<lambda>c. c \<noteq> CHR 0x00) t"

definition hex_digit :: "nat \<Rightarrow> char" where
  "hex_digit d = ''0123456789abcdef'' ! d"

definition hex2 :: "u8 \<Rightarrow> string" where
  \<comment> \<open>\<open>%02x\<close>\<close>
  "hex2 b = [hex_digit (unat b div 16), hex_digit (unat b mod 16)]"

lemma length_hex2 [simp]: "length (hex2 b) = 2"
  by (simp add: hex2_def)

fun dec_nat :: "nat \<Rightarrow> string" where
  "dec_nat n = (if n < 10 then [hex_digit n] else dec_nat (n div 10) @ [hex_digit (n mod 10)])"

declare dec_nat.simps [simp del]

definition dec_int :: "int \<Rightarrow> string" where
  \<comment> \<open>\<open>%d\<close>\<close>
  "dec_int i = (if i < 0 then ''-'' @ dec_nat (nat (- i)) else dec_nat (nat i))"

lemma dec_nat_nonempty: "dec_nat n \<noteq> []"
  by (subst dec_nat.simps) simp

lemma dec_int_nonempty: "dec_int i \<noteq> []"
  by (simp add: dec_int_def dec_nat_nonempty)

text \<open>
  \<open>snprintf\<close>'s \<open>"%.5f"\<close> of an IEEE single, given by its bits: the exact value rounded to five
  decimals, ties to even, as the C library of the target prints it.
\<close>

definition round_half_even :: "nat \<Rightarrow> nat \<Rightarrow> nat" where
  "round_half_even n d =
     (let q = n div d; r = n mod d
      in if d < 2 * r \<or> (2 * r = d \<and> odd q) then q + 1 else q)"

definition pad5 :: "nat \<Rightarrow> string" where
  "pad5 n = map (\<lambda>d. hex_digit (n div 10 ^ d mod 10)) [4, 3, 2, 1, 0]"

definition fmt_float :: "u32 \<Rightarrow> string" where
  "fmt_float b =
     (let neg = (unat b div 2 ^ 31 = 1);
          ex = unat b div 2 ^ 23 mod 256;
          frac = unat b mod 2 ^ 23;
          mant = (if ex = 0 then frac else 2 ^ 23 + frac);
          e = (if ex = 0 then 1 else ex);
          q = (if 150 \<le> e then mant * 2 ^ (e - 150) * 100000
               else round_half_even (mant * 100000) (2 ^ (150 - e)))
      in (if neg then ''-'' else []) @
         (if ex = 255 then (if frac = 0 then ''inf'' else ''nan'')
          else dec_nat (q div 100000) @ ''.'' @ pad5 (q mod 100000)))"

lemma fmt_float_nonempty: "fmt_float b \<noteq> []"
  by (simp add: fmt_float_def Let_def dec_nat_nonempty)

subsection \<open>Search in keyed lists\<close>

text \<open>
  The libraries keep their objects in chains and look them up by name: the first element
  with the key, found by walking the chain.
\<close>

lemma find_Some_in: "List.find P xs = Some x \<Longrightarrow> x \<in> set xs \<and> P x"
  by (auto simp: find_Some_iff)

lemma find_key_distinct:
  assumes "distinct (map k xs)" "x \<in> set xs"
  shows "List.find (\<lambda>y. k y = k x) xs = Some x"
  using assms by (induction xs) (auto simp: image_iff)

lemma find_append_new:
  "List.find P xs = None \<Longrightarrow> List.find P (xs @ ys) = List.find P ys"
  by (induction xs) auto

lemma find_append_old:
  "List.find P xs = Some x \<Longrightarrow> List.find P (xs @ ys) = Some x"
  by (induction xs) auto

end
