(* ===== verification/Platform.thy ===== *)
theory Platform
  imports Prelude
begin

text \<open>
  The boundary between the program and the SDK it calls (ESP-IDF drivers, FreeRTOS, the
  Wi-Fi and provisioning stacks). None of that code is in the repository, so it is the
  environment of the model: every call the program makes is an \<open>effect\<close> appended to
  \<open>trace\<close>, in program order and with its arguments, and every value the SDK hands back is
  taken from the stream \<open>inputs\<close>, an argument of every run. Whether an allocation succeeds
  comes from the stream \<open>mem_ok\<close>. Theorems quantify over these streams unless they name
  one, so they hold for every behaviour of the SDK.
  Console output (\<open>printf\<close>, \<open>ESP_LOGx\<close>) is not part of the model.
\<close>

datatype gpio_intr =
  GPIO_INTR_DISABLE | GPIO_INTR_POSEDGE | GPIO_INTR_NEGEDGE | GPIO_INTR_ANYEDGE
  | GPIO_INTR_LOW_LEVEL | GPIO_INTR_HIGH_LEVEL

datatype gpio_mode = GPIO_MODE_INPUT | GPIO_MODE_OUTPUT | GPIO_MODE_INPUT_OUTPUT

datatype gpio_call =
  GpioConfig nat gpio_intr gpio_mode bool bool \<comment> \<open>pin, interrupt, mode, pull-down, pull-up\<close>
  | GpioHoldDis nat
  | GpioHoldEn nat
  | GpioSetLevel nat int
  | GpioGetLevel nat
  | GpioSetIntrType nat gpio_intr
  | GpioInstallIsrService int
  | GpioIsrHandlerAdd nat string
  | GpioWakeupEnable nat gpio_intr
  | SleepEnableGpioWakeup

datatype timer_id =
  Button1Timer | Button2Timer | Button3Timer | LedTimer | WakeupIoStart | WakeupIoStop
  | WifiReconnect | RmakerReconnect

text \<open>A timer handle variable is \<open>None\<close> while it is \<open>NULL\<close>.\<close>

datatype timer_call =
  TimerCreate timer_id string \<comment> \<open>the handle written and the callback\<close>
  | TimerStop "timer_id option"
  | TimerStartOnce "timer_id option" int \<comment> \<open>microseconds\<close>
  | TimerStartPeriodic "timer_id option" int
  | TimerGetTime

datatype uart_call =
  UartWrite "u8 list"
  | UartWaitTxDone int
  | UartRead int int \<comment> \<open>length and ticks to wait\<close>
  | UartFlushInput
  | UartQueueReset
  | UartGetBufferedLen
  | UartPatternPopPos
  | UartInstall string \<comment> \<open>a configuration call of the driver\<close> "int list"

datatype os_call =
  Delay int \<comment> \<open>milliseconds\<close>
  | TaskCreate string int int \<comment> \<open>function, stack, priority\<close>
  | TaskDelete string
  | PmLockAcquire
  | PmLockRelease
  | PmConfigure int int bool
  | PmLockCreate
  | NvsFlashInit
  | NvsFlashErase
  | NvsFlashDeinit
  | Abort
  | Restart
  | RtosTimerCreate string int \<comment> \<open>a FreeRTOS timer: name and period in ms\<close>
  | RtosTimerStart string
  | RtosTimerReset string
  | RtosTimerDelete string
  | QueueCreate nat
  | QueueSend
  | QueueDelete
  | XTimerCreate nat int \<comment> \<open>the timer of a schedule: its object and the period in ticks\<close>
  | XTimerStop nat
  | XTimerChangePeriod nat int
  | XTimerDelete nat
  | EventGroupCreate
  | EventGroupWaitBits
  | EventGroupSetBits
  | EventGroupDelete

datatype net_call =
  WifiConnect
  | WifiStart
  | WifiStop
  | WifiRestore
  | WifiSetMaxTxPower int
  | WifiGetMaxTxPower
  | WifiCall string "int list" \<comment> \<open>a configuration call of the Wi-Fi or provisioning stack\<close>
  | ProvSetMfg "u8 list"
  | ProvStart string \<comment> \<open>the advertised service name\<close>
  | MqttReconnect
  | MqttIsConnected
  | MqttPublish string string
  | MqttSubscribe string
  | MqttUnsubscribe string
  | MqttInit
  | MqttConnect
  | MqttDisconnect
  | MqttClientCall string \<comment> \<open>a call of the SDK's MQTT client\<close>
  | MqttClientInit string string \<comment> \<open>host and client id\<close>
  | MqttClientSubscribe string int \<comment> \<open>topic and quality of service\<close>
  | MqttClientUnsubscribe string
  | MqttClientPublish string string int
  | OtaBegin string int \<comment> \<open>URL and size of the transmit buffer\<close>
  | OtaCall string \<comment> \<open>another call of the SDK's OTA functions\<close>
  | SntpEnabled
  | SntpInit
  | SntpStop
  | SntpSetServer string
  | SntpSetCb string
  | EventPost string int
  | EventRegister string string string \<comment> \<open>base, id, handler\<close>
  | EventUnregister string string string
  | NvsOpen string
  | NvsGetBlob string
  | NvsSetBlob string string
  | NvsSetVal string int int \<comment> \<open>a scalar value: key, type tag, payload\<close>
  | NvsCommit
  | NvsClose

datatype effect =
  Gpio gpio_call | Timer timer_call | Uart uart_call | Os os_call | Net net_call
  | App string "int list" \<comment> \<open>a call of a library function modelled elsewhere\<close>

record plat =
  trace :: "effect list"
  inputs :: "int list"
  mem_ok :: "bool list"

definition emit :: "effect \<Rightarrow> 'a plat_scheme \<Rightarrow> 'a plat_scheme" where
  "emit e s = s\<lparr>trace := trace s @ [e]\<rparr>"

definition emits :: "effect list \<Rightarrow> 'a plat_scheme \<Rightarrow> 'a plat_scheme" where
  "emits es s = s\<lparr>trace := trace s @ es\<rparr>"

text \<open>The next answer of the SDK; an exhausted stream answers 0.\<close>

definition ask :: "'a plat_scheme \<Rightarrow> int \<times> 'a plat_scheme" where
  "ask s = (case inputs s of [] \<Rightarrow> (0, s) | x # xs \<Rightarrow> (x, s\<lparr>inputs := xs\<rparr>))"

text \<open>A call that answers: the effect is recorded and the next input is its result.\<close>

definition call :: "effect \<Rightarrow> 'a plat_scheme \<Rightarrow> int \<times> 'a plat_scheme" where
  "call e s = ask (emit e s)"

text \<open>Whether the next \<open>calloc\<close> or \<open>strdup\<close> succeeds; an exhausted stream succeeds.\<close>

definition alloc :: "'a plat_scheme \<Rightarrow> bool \<times> 'a plat_scheme" where
  "alloc s = (case mem_ok s of [] \<Rightarrow> (True, s) | b # bs \<Rightarrow> (b, s\<lparr>mem_ok := bs\<rparr>))"

subsection \<open>What the boundary leaves alone\<close>

lemma trace_emit [simp]: "trace (emit e s) = trace s @ [e]"
  by (simp add: emit_def)

lemma trace_emits [simp]: "trace (emits es s) = trace s @ es"
  by (simp add: emits_def)

lemma inputs_emit [simp]: "inputs (emit e s) = inputs s" "inputs (emits es s) = inputs s"
  by (simp_all add: emit_def emits_def)

lemma mem_ok_emit [simp]: "mem_ok (emit e s) = mem_ok s" "mem_ok (emits es s) = mem_ok s"
  by (simp_all add: emit_def emits_def)

lemma more_emit [simp]: "plat.more (emit e s) = plat.more s" "plat.more (emits es s) = plat.more s"
  by (simp_all add: emit_def emits_def)

lemma trace_ask [simp]: "trace (snd (ask s)) = trace s"
  by (simp add: ask_def split: list.split)

lemma more_ask [simp]: "plat.more (snd (ask s)) = plat.more s"
  by (simp add: ask_def split: list.split)

lemma trace_call [simp]: "trace (snd (call e s)) = trace s @ [e]"
  by (simp add: call_def)

lemma more_call [simp]: "plat.more (snd (call e s)) = plat.more s"
  by (simp add: call_def)

lemma trace_alloc [simp]: "trace (snd (alloc s)) = trace s"
  by (simp add: alloc_def split: list.split)

lemma more_alloc [simp]: "plat.more (snd (alloc s)) = plat.more s"
  by (simp add: alloc_def split: list.split)

lemma inputs_alloc [simp]: "inputs (snd (alloc s)) = inputs s"
  by (simp add: alloc_def split: list.split)

lemma ask_Cons [simp]: "inputs s = x # xs \<Longrightarrow> ask s = (x, s\<lparr>inputs := xs\<rparr>)"
  by (simp add: ask_def)

lemma ask_Nil [simp]: "inputs s = [] \<Longrightarrow> ask s = (0, s)"
  by (simp add: ask_def)

lemma alloc_Nil [simp]: "mem_ok s = [] \<Longrightarrow> alloc s = (True, s)"
  by (simp add: alloc_def)

lemma alloc_Cons [simp]: "mem_ok s = b # bs \<Longrightarrow> alloc s = (b, s\<lparr>mem_ok := bs\<rparr>)"
  by (simp add: alloc_def)

text \<open>The same for a call whose result has a name.\<close>

lemma call_trace: "call e s = (r, t) \<Longrightarrow> trace t = trace s @ [e]"
  using trace_call [of e s] by simp

lemma alloc_trace: "alloc s = (b, t) \<Longrightarrow> trace t = trace s"
  using trace_alloc [of s] by simp

end
