(* ===== verification/Json_Gen.thy ===== *)
theory Json_Gen
  imports Prelude
begin

text \<open>
  The JSON generator, \<open>json_generator.c\<close>: the buffer structure \<open>json_gen_str_t\<close>, the
  bounded append \<open>json_gen_add_to_str\<close> and the operations that open and close objects and
  arrays and set members. The operations return the C result together with the new
  structure.

  The bytes between \<open>buf\<close> and \<open>free_ptr\<close> are the list in \<open>jbuf\<close> (\<open>None\<close> when the buffer
  is \<open>NULL\<close>), so \<open>free_ptr - buf\<close> is its length. \<open>jflushed\<close> lists the texts handed to the
  flush callback. The append loop never ends when a flush callback is registered and the
  buffer holds no byte (\<open>buf_size\<close> at most 1): \<open>jhang\<close> records that.

  The lemmas describe every operation by the list of strings it appends (\<open>json_adds\<close>) and
  show that the buffer always holds the longest prefix of the whole text that fits, that
  \<open>total_len\<close> is the length of the whole text, and that an overflow is reported.
\<close>

record json_gen_str =
  jbuf :: "string option"
  buf_size :: int
  flush_cb :: bool
  comma_req :: bool
  total_len :: int
  jflushed :: "string list"
  jhang :: bool

definition json_gen_get_empty_len :: "json_gen_str \<Rightarrow> string \<Rightarrow> int" where
  "json_gen_get_empty_len j t = buf_size j - int (length t) - 1"

text \<open>
  The loop of \<open>json_gen_add_to_str\<close> on a non-\<open>NULL\<close> buffer with content \<open>t\<close>; each round but
  the last flushes. Every flush of a buffer that can hold a byte makes progress, so
  \<open>length str + 2\<close> rounds are enough there (\<open>json_gen_add_no_hang\<close>).
\<close>

fun json_gen_add_loop :: "nat \<Rightarrow> string \<Rightarrow> string \<Rightarrow> json_gen_str \<Rightarrow> int \<times> json_gen_str" where
  "json_gen_add_loop 0 str t j = (0, j\<lparr>jhang := True\<rparr>)"
| "json_gen_add_loop (Suc n) str t j =
     (let len_remaining = json_gen_get_empty_len j t;
          copy_len = nat (if len_remaining > int (length str) then int (length str) else len_remaining);
          t' = t @ take copy_len str;
          rest = drop copy_len str
      in if rest = [] then (0, j\<lparr>jbuf := Some t'\<rparr>)
         else if \<not> flush_cb j then (- 1, j\<lparr>jbuf := Some t'\<rparr>)
         else json_gen_add_loop n rest [] (j\<lparr>jbuf := Some [], jflushed := jflushed j @ [t']\<rparr>))"

definition json_gen_add_to_str :: "string option \<Rightarrow> json_gen_str \<Rightarrow> int \<times> json_gen_str" where
  "json_gen_add_to_str str j =
     (case str of None \<Rightarrow> (0, j)
      | Some str \<Rightarrow>
          let j = j\<lparr>total_len := total_len j + int (length str)\<rparr>
          in case jbuf j of None \<Rightarrow> (0, j)
             | Some t \<Rightarrow> json_gen_add_loop (length str + 2) str t j)"

definition json_gen_str_start :: "bool \<Rightarrow> int \<Rightarrow> bool \<Rightarrow> json_gen_str" where
  "json_gen_str_start has_buf sz flush =
     \<lparr>jbuf = (if has_buf then Some [] else None), buf_size = sz, flush_cb = flush,
      comma_req = False, total_len = 0, jflushed = [], jhang = False\<rparr>"

text \<open>
  \<open>json_gen_str_end\<close> terminates the buffer, flushes it and clears the structure; the
  caller keeps the buffer's text, returned here beside the length.
\<close>

definition json_gen_str_end :: "json_gen_str \<Rightarrow> int \<times> string option \<times> string list" where
  "json_gen_str_end j =
     (total_len j + 1, jbuf j,
      (case jbuf j of None \<Rightarrow> jflushed j
       | Some t \<Rightarrow> if flush_cb j then jflushed j @ [t] else jflushed j))"

abbreviation add_str :: "string \<Rightarrow> json_gen_str \<Rightarrow> int \<times> json_gen_str" where
  "add_str s \<equiv> json_gen_add_to_str (Some s)"

definition json_gen_handle_comma :: "json_gen_str \<Rightarrow> json_gen_str" where
  "json_gen_handle_comma j = (if comma_req j then snd (add_str '','' j) else j)"

definition json_gen_handle_name :: "string \<Rightarrow> json_gen_str \<Rightarrow> int \<times> json_gen_str" where
  "json_gen_handle_name name j =
     (let j = snd (add_str [CHR 0x22] j);
          j = snd (add_str name j)
      in add_str [CHR 0x22, CHR '':''] j)"

definition json_gen_start_object :: "json_gen_str \<Rightarrow> int \<times> json_gen_str" where
  "json_gen_start_object j =
     (let j = json_gen_handle_comma j in add_str ''{'' (j\<lparr>comma_req := False\<rparr>))"

definition json_gen_end_object :: "json_gen_str \<Rightarrow> int \<times> json_gen_str" where
  "json_gen_end_object j = add_str ''}'' (j\<lparr>comma_req := True\<rparr>)"

definition json_gen_start_array :: "json_gen_str \<Rightarrow> int \<times> json_gen_str" where
  "json_gen_start_array j =
     (let j = json_gen_handle_comma j in add_str ''['' (j\<lparr>comma_req := False\<rparr>))"

definition json_gen_end_array :: "json_gen_str \<Rightarrow> int \<times> json_gen_str" where
  "json_gen_end_array j = add_str '']'' (j\<lparr>comma_req := True\<rparr>)"

definition json_gen_push_object :: "string \<Rightarrow> json_gen_str \<Rightarrow> int \<times> json_gen_str" where
  "json_gen_push_object name j =
     (let j = json_gen_handle_comma j;
          j = snd (json_gen_handle_name name j)
      in add_str ''{'' (j\<lparr>comma_req := False\<rparr>))"

definition json_gen_pop_object :: "json_gen_str \<Rightarrow> int \<times> json_gen_str" where
  "json_gen_pop_object j = add_str ''}'' (j\<lparr>comma_req := True\<rparr>)"

definition json_gen_push_object_str ::
  "string \<Rightarrow> string option \<Rightarrow> json_gen_str \<Rightarrow> int \<times> json_gen_str" where
  "json_gen_push_object_str name object_str j =
     (let j = json_gen_handle_comma j;
          j = snd (json_gen_handle_name name j)
      in json_gen_add_to_str object_str (j\<lparr>comma_req := True\<rparr>))"

definition json_gen_push_array :: "string \<Rightarrow> json_gen_str \<Rightarrow> int \<times> json_gen_str" where
  "json_gen_push_array name j =
     (let j = json_gen_handle_comma j;
          j = snd (json_gen_handle_name name j)
      in add_str ''['' (j\<lparr>comma_req := False\<rparr>))"

definition json_gen_pop_array :: "json_gen_str \<Rightarrow> int \<times> json_gen_str" where
  "json_gen_pop_array j = add_str '']'' (j\<lparr>comma_req := True\<rparr>)"

definition json_gen_push_array_str ::
  "string \<Rightarrow> string option \<Rightarrow> json_gen_str \<Rightarrow> int \<times> json_gen_str" where
  "json_gen_push_array_str name array_str j =
     (let j = json_gen_handle_comma j;
          j = snd (json_gen_handle_name name j)
      in json_gen_add_to_str array_str (j\<lparr>comma_req := True\<rparr>))"

definition json_gen_set_bool :: "bool \<Rightarrow> json_gen_str \<Rightarrow> int \<times> json_gen_str" where
  "json_gen_set_bool v j =
     (let j = j\<lparr>comma_req := True\<rparr>
      in if v then add_str ''true'' j else add_str ''false'' j)"

definition json_gen_obj_set_bool :: "string \<Rightarrow> bool \<Rightarrow> json_gen_str \<Rightarrow> int \<times> json_gen_str" where
  "json_gen_obj_set_bool name v j =
     (let j = json_gen_handle_comma j;
          j = snd (json_gen_handle_name name j)
      in json_gen_set_bool v j)"

definition json_gen_arr_set_bool :: "bool \<Rightarrow> json_gen_str \<Rightarrow> int \<times> json_gen_str" where
  "json_gen_arr_set_bool v j = json_gen_set_bool v (json_gen_handle_comma j)"

definition json_gen_set_int :: "int \<Rightarrow> json_gen_str \<Rightarrow> int \<times> json_gen_str" where
  "json_gen_set_int v j =
     (let j = j\<lparr>comma_req := True\<rparr>; str = snprintf 24 (dec_int v) in add_str str j)"

definition json_gen_obj_set_int :: "string \<Rightarrow> int \<Rightarrow> json_gen_str \<Rightarrow> int \<times> json_gen_str" where
  "json_gen_obj_set_int name v j =
     (let j = json_gen_handle_comma j;
          j = snd (json_gen_handle_name name j)
      in json_gen_set_int v j)"

definition json_gen_arr_set_int :: "int \<Rightarrow> json_gen_str \<Rightarrow> int \<times> json_gen_str" where
  "json_gen_arr_set_int v j = json_gen_set_int v (json_gen_handle_comma j)"

text \<open>A \<open>float\<close> is given by the bits of its IEEE single representation.\<close>

definition json_gen_set_float :: "u32 \<Rightarrow> json_gen_str \<Rightarrow> int \<times> json_gen_str" where
  "json_gen_set_float v j =
     (let j = j\<lparr>comma_req := True\<rparr>; str = snprintf 30 (fmt_float v) in add_str str j)"

definition json_gen_obj_set_float ::
  "string \<Rightarrow> u32 \<Rightarrow> json_gen_str \<Rightarrow> int \<times> json_gen_str" where
  "json_gen_obj_set_float name v j =
     (let j = json_gen_handle_comma j;
          j = snd (json_gen_handle_name name j)
      in json_gen_set_float v j)"

definition json_gen_arr_set_float ::
  "u32 \<Rightarrow> json_gen_str \<Rightarrow> int \<times> json_gen_str" where
  "json_gen_arr_set_float v j = json_gen_set_float v (json_gen_handle_comma j)"

definition json_gen_set_string :: "string option \<Rightarrow> json_gen_str \<Rightarrow> int \<times> json_gen_str" where
  "json_gen_set_string v j =
     (let j = j\<lparr>comma_req := True\<rparr>;
          j = snd (add_str [CHR 0x22] j);
          j = snd (json_gen_add_to_str v j)
      in add_str [CHR 0x22] j)"

definition json_gen_obj_set_string ::
  "string \<Rightarrow> string option \<Rightarrow> json_gen_str \<Rightarrow> int \<times> json_gen_str" where
  "json_gen_obj_set_string name v j =
     (let j = json_gen_handle_comma j;
          j = snd (json_gen_handle_name name j)
      in json_gen_set_string v j)"

definition json_gen_arr_set_string :: "string option \<Rightarrow> json_gen_str \<Rightarrow> int \<times> json_gen_str" where
  "json_gen_arr_set_string v j = json_gen_set_string v (json_gen_handle_comma j)"

definition json_gen_set_long_string :: "string option \<Rightarrow> json_gen_str \<Rightarrow> int \<times> json_gen_str" where
  "json_gen_set_long_string v j =
     (let j = j\<lparr>comma_req := True\<rparr>;
          j = snd (add_str [CHR 0x22] j)
      in json_gen_add_to_str v j)"

definition json_gen_obj_start_long_string ::
  "string \<Rightarrow> string option \<Rightarrow> json_gen_str \<Rightarrow> int \<times> json_gen_str" where
  "json_gen_obj_start_long_string name v j =
     (let j = json_gen_handle_comma j;
          j = snd (json_gen_handle_name name j)
      in json_gen_set_long_string v j)"

definition json_gen_arr_start_long_string ::
  "string option \<Rightarrow> json_gen_str \<Rightarrow> int \<times> json_gen_str" where
  "json_gen_arr_start_long_string v j = json_gen_set_long_string v (json_gen_handle_comma j)"

definition json_gen_add_to_long_string ::
  "string option \<Rightarrow> json_gen_str \<Rightarrow> int \<times> json_gen_str" where
  "json_gen_add_to_long_string v j = json_gen_add_to_str v j"

definition json_gen_end_long_string :: "json_gen_str \<Rightarrow> int \<times> json_gen_str" where
  "json_gen_end_long_string j = add_str [CHR 0x22] j"

definition json_gen_set_null :: "json_gen_str \<Rightarrow> int \<times> json_gen_str" where
  "json_gen_set_null j = add_str ''null'' (j\<lparr>comma_req := True\<rparr>)"

definition json_gen_obj_set_null :: "string \<Rightarrow> json_gen_str \<Rightarrow> int \<times> json_gen_str" where
  "json_gen_obj_set_null name j =
     (let j = json_gen_handle_comma j;
          j = snd (json_gen_handle_name name j)
      in json_gen_set_null j)"

definition json_gen_arr_set_null :: "json_gen_str \<Rightarrow> int \<times> json_gen_str" where
  "json_gen_arr_set_null j = json_gen_set_null (json_gen_handle_comma j)"


subsection \<open>The buffer holds the longest prefix that fits\<close>

text \<open>
  \<open>json_of cap T c\<close> is the structure after the text \<open>T\<close> has been appended to an empty
  structure without flush callback: \<open>cap\<close> is the number of characters the buffer can hold
  beside its terminator (\<open>None\<close> for a \<open>NULL\<close> buffer), \<open>c\<close> the comma flag. Every operation
  maps such a structure to such a structure, so the lemmas below are rewrite rules that
  compute what a sequence of operations writes.
\<close>

named_theorems json_rules \<open>operations on \<open>json_of\<close> structures\<close>

definition json_of :: "nat option \<Rightarrow> string \<Rightarrow> bool \<Rightarrow> json_gen_str" where
  "json_of cap T c =
     \<lparr>jbuf = (case cap of None \<Rightarrow> None | Some n \<Rightarrow> Some (take n T)),
      buf_size = (case cap of None \<Rightarrow> 0 | Some n \<Rightarrow> int n + 1), flush_cb = False,
      comma_req = c, total_len = int (length T), jflushed = [], jhang = False\<rparr>"

definition json_rc :: "nat option \<Rightarrow> string \<Rightarrow> int" where
  "json_rc cap T = (case cap of None \<Rightarrow> 0 | Some n \<Rightarrow> if length T \<le> n then 0 else - 1)"

definition comma_txt :: "bool \<Rightarrow> string" where
  "comma_txt c = (if c then '','' else [])"

definition name_txt :: "string \<Rightarrow> string" where
  "name_txt name = [CHR 0x22] @ name @ [CHR 0x22, CHR '':'']"

definition quoted :: "string \<Rightarrow> string" where
  "quoted s = [CHR 0x22] @ s @ [CHR 0x22]"

definition str_opt :: "string option \<Rightarrow> string" where
  "str_opt s = (case s of None \<Rightarrow> [] | Some t \<Rightarrow> t)"

lemma str_opt_simps [simp]: "str_opt None = []" "str_opt (Some t) = t"
  by (simp_all add: str_opt_def)

lemma json_of_start [json_rules]:
  "json_gen_str_start True (int n + 1) False = json_of (Some n) [] False"
  "json_gen_str_start False 0 False = json_of None [] False"
  by (simp_all add: json_gen_str_start_def json_of_def)

lemma json_of_comma_req [simp]: "comma_req (json_of cap T c) = c"
  by (simp add: json_of_def)

lemma json_of_set_comma [simp]: "(json_of cap T c)\<lparr>comma_req := d\<rparr> = json_of cap T d"
  by (simp add: json_of_def)

lemma json_of_add:
  "json_gen_add_to_str s (json_of cap T c)
     = (if str_opt s = [] then 0 else json_rc cap (T @ str_opt s), json_of cap (T @ str_opt s) c)"
proof (cases s)
  case None
  then show ?thesis by (simp add: json_gen_add_to_str_def)
next
  case (Some t)
  show ?thesis
  proof (cases cap)
    case None
    then show ?thesis
      using Some by (simp add: json_gen_add_to_str_def json_of_def json_rc_def)
  next
    case (Some n)
    show ?thesis
    proof (cases "length (T @ t) \<le> n")
      case True
      then show ?thesis
        using \<open>s = Some t\<close> Some
        by (auto simp: json_gen_add_to_str_def json_of_def json_rc_def Let_def
            json_gen_get_empty_len_def)
    next
      case False
      then show ?thesis
        using \<open>s = Some t\<close> Some
        by (cases "t = []")
           (auto simp: json_gen_add_to_str_def json_of_def json_rc_def Let_def
            json_gen_get_empty_len_def min_def)
    qed
  qed
qed

lemma json_of_total_len [json_rules]:
  "json_gen_str_end (json_of cap T c) = (int (length T) + 1, jbuf (json_of cap T c), [])"
  by (simp add: json_gen_str_end_def json_of_def split: option.split)

lemma json_of_jbuf [json_rules]:
  "jbuf (json_of (Some n) T c) = Some (take n T)" "jbuf (json_of None T c) = None"
  by (simp_all add: json_of_def)

lemma json_of_comma [json_rules]:
  "json_gen_handle_comma (json_of cap T c) = json_of cap (T @ comma_txt c) c"
  by (simp add: json_gen_handle_comma_def json_of_add comma_txt_def)

lemma json_of_name [json_rules]:
  "json_gen_handle_name name (json_of cap T c)
     = (json_rc cap (T @ name_txt name), json_of cap (T @ name_txt name) c)"
  by (simp add: json_gen_handle_name_def json_of_add name_txt_def)

lemma json_of_containers [json_rules]:
  "json_gen_start_object (json_of cap T c)
     = (json_rc cap (T @ comma_txt c @ ''{''), json_of cap (T @ comma_txt c @ ''{'') False)"
  "json_gen_end_object (json_of cap T c) = (json_rc cap (T @ ''}''), json_of cap (T @ ''}'') True)"
  "json_gen_start_array (json_of cap T c)
     = (json_rc cap (T @ comma_txt c @ ''[''), json_of cap (T @ comma_txt c @ ''['') False)"
  "json_gen_end_array (json_of cap T c) = (json_rc cap (T @ '']''), json_of cap (T @ '']'') True)"
  "json_gen_push_object name (json_of cap T c)
     = (json_rc cap (T @ comma_txt c @ name_txt name @ ''{''),
        json_of cap (T @ comma_txt c @ name_txt name @ ''{'') False)"
  "json_gen_pop_object (json_of cap T c) = (json_rc cap (T @ ''}''), json_of cap (T @ ''}'') True)"
  "json_gen_push_array name (json_of cap T c)
     = (json_rc cap (T @ comma_txt c @ name_txt name @ ''[''),
        json_of cap (T @ comma_txt c @ name_txt name @ ''['') False)"
  "json_gen_pop_array (json_of cap T c) = (json_rc cap (T @ '']''), json_of cap (T @ '']'') True)"
  by (simp_all add: json_gen_start_object_def json_gen_end_object_def json_gen_start_array_def
      json_gen_end_array_def json_gen_push_object_def json_gen_pop_object_def
      json_gen_push_array_def json_gen_pop_array_def json_rules json_of_add)


lemma json_of_strs [json_rules]:
  "s \<noteq> [] \<Longrightarrow> json_gen_push_object_str name (Some s) (json_of cap T c)
     = (json_rc cap (T @ comma_txt c @ name_txt name @ s),
        json_of cap (T @ comma_txt c @ name_txt name @ s) True)"
  "s \<noteq> [] \<Longrightarrow> json_gen_push_array_str name (Some s) (json_of cap T c)
     = (json_rc cap (T @ comma_txt c @ name_txt name @ s),
        json_of cap (T @ comma_txt c @ name_txt name @ s) True)"
  by (simp_all add: json_gen_push_object_str_def json_gen_push_array_str_def json_rules json_of_add)

definition bool_txt :: "bool \<Rightarrow> string" where
  "bool_txt b = (if b then ''true'' else ''false'')"

definition int_txt :: "int \<Rightarrow> string" where
  "int_txt i = snprintf 24 (dec_int i)"

definition float_txt :: "u32 \<Rightarrow> string" where
  "float_txt v = snprintf 30 (fmt_float v)"

lemma json_of_set [json_rules]:
  "json_gen_set_bool b (json_of cap T c)
     = (json_rc cap (T @ bool_txt b), json_of cap (T @ bool_txt b) True)"
  "json_gen_set_int i (json_of cap T c)
     = (json_rc cap (T @ int_txt i), json_of cap (T @ int_txt i) True)"
  "json_gen_set_float v (json_of cap T c)
     = (json_rc cap (T @ float_txt v), json_of cap (T @ float_txt v) True)"
  "json_gen_set_string vs (json_of cap T c)
     = (json_rc cap (T @ quoted (str_opt vs)), json_of cap (T @ quoted (str_opt vs)) True)"
  "json_gen_set_null (json_of cap T c)
     = (json_rc cap (T @ ''null''), json_of cap (T @ ''null'') True)"
  by (simp_all add: json_gen_set_bool_def json_gen_set_int_def json_gen_set_float_def
      json_gen_set_string_def json_gen_set_null_def json_of_add bool_txt_def int_txt_def
      float_txt_def quoted_def snprintf_def dec_int_nonempty fmt_float_nonempty)

lemma json_of_obj_set [json_rules]:
  "json_gen_obj_set_bool name b (json_of cap T c)
     = (json_rc cap (T @ comma_txt c @ name_txt name @ bool_txt b),
        json_of cap (T @ comma_txt c @ name_txt name @ bool_txt b) True)"
  "json_gen_obj_set_int name i (json_of cap T c)
     = (json_rc cap (T @ comma_txt c @ name_txt name @ int_txt i),
        json_of cap (T @ comma_txt c @ name_txt name @ int_txt i) True)"
  "json_gen_obj_set_float name v (json_of cap T c)
     = (json_rc cap (T @ comma_txt c @ name_txt name @ float_txt v),
        json_of cap (T @ comma_txt c @ name_txt name @ float_txt v) True)"
  "json_gen_obj_set_string name vs (json_of cap T c)
     = (json_rc cap (T @ comma_txt c @ name_txt name @ quoted (str_opt vs)),
        json_of cap (T @ comma_txt c @ name_txt name @ quoted (str_opt vs)) True)"
  "json_gen_obj_set_null name (json_of cap T c)
     = (json_rc cap (T @ comma_txt c @ name_txt name @ ''null''),
        json_of cap (T @ comma_txt c @ name_txt name @ ''null'') True)"
  by (simp_all add: json_gen_obj_set_bool_def json_gen_obj_set_int_def json_gen_obj_set_float_def
      json_gen_obj_set_string_def json_gen_obj_set_null_def json_rules)

lemma json_of_arr_set [json_rules]:
  "json_gen_arr_set_bool b (json_of cap T c)
     = (json_rc cap (T @ comma_txt c @ bool_txt b), json_of cap (T @ comma_txt c @ bool_txt b) True)"
  "json_gen_arr_set_int i (json_of cap T c)
     = (json_rc cap (T @ comma_txt c @ int_txt i), json_of cap (T @ comma_txt c @ int_txt i) True)"
  "json_gen_arr_set_float v (json_of cap T c)
     = (json_rc cap (T @ comma_txt c @ float_txt v),
        json_of cap (T @ comma_txt c @ float_txt v) True)"
  "json_gen_arr_set_string vs (json_of cap T c)
     = (json_rc cap (T @ comma_txt c @ quoted (str_opt vs)),
        json_of cap (T @ comma_txt c @ quoted (str_opt vs)) True)"
  "json_gen_arr_set_null (json_of cap T c)
     = (json_rc cap (T @ comma_txt c @ ''null''), json_of cap (T @ comma_txt c @ ''null'') True)"
  by (simp_all add: json_gen_arr_set_bool_def json_gen_arr_set_int_def json_gen_arr_set_float_def
      json_gen_arr_set_string_def json_gen_arr_set_null_def json_rules)

lemma json_rc_iff: "json_rc (Some n) T = 0 \<longleftrightarrow> length T \<le> n"
  by (simp add: json_rc_def)

subsection \<open>The text as a JSON document\<close>

text \<open>
  The reference the documents of the libraries are compared with: a tree of objects,
  arrays and literals and its compact print.
\<close>

datatype jtree = JLit string | JObj "(string \<times> jtree) list" | JArr "jtree list"

definition joined :: "string list \<Rightarrow> string" where
  "joined xs = (case xs of [] \<Rightarrow> [] | x # ys \<Rightarrow> x @ concat (map (\<lambda>y. '','' @ y) ys))"

fun jprint :: "jtree \<Rightarrow> string" where
  "jprint (JLit t) = t"
| "jprint (JObj ms) = ''{'' @ joined (map (\<lambda>(k, v). name_txt k @ jprint v) ms) @ ''}''"
| "jprint (JArr vs) = ''['' @ joined (map jprint vs) @ '']''"

lemma joined_Nil [simp]: "joined [] = []"
  by (simp add: joined_def)

lemma joined_snoc: "joined (xs @ [x]) = joined xs @ comma_txt (xs \<noteq> []) @ x"
  by (cases xs) (auto simp: joined_def comma_txt_def)

lemma joined_append:
  "joined (xs @ ys) = joined xs @ comma_txt (xs \<noteq> [] \<and> ys \<noteq> []) @ joined ys"
  by (induction ys rule: rev_induct)
     (auto simp: joined_snoc comma_txt_def simp flip: append_assoc)

subsection \<open>Streaming through a flush callback\<close>

text \<open>
  With a flush callback the buffer is a window: what was flushed followed by what the
  buffer holds is the text appended so far, and every flushed chunk fills the buffer.
\<close>

definition json_stream :: "nat \<Rightarrow> string \<Rightarrow> json_gen_str \<Rightarrow> bool" where
  "json_stream n T j \<longleftrightarrow>
     flush_cb j \<and> buf_size j = int n + 1 \<and> \<not> jhang j \<and> total_len j = int (length T) \<and>
     (\<forall>c \<in> set (jflushed j). length c = n) \<and>
     (\<exists>t. jbuf j = Some t \<and> length t \<le> n \<and> concat (jflushed j) @ t = T)"

declare json_gen_add_loop.simps [simp del]

lemma add_loop_fits:
  assumes "buf_size j = int n + 1" "length str + length t \<le> n"
  shows "json_gen_add_loop (Suc f) str t j = (0, j\<lparr>jbuf := Some (t @ str)\<rparr>)"
  using assms by (auto simp: json_gen_add_loop.simps(2) Let_def json_gen_get_empty_len_def)

lemma add_loop_flush:
  assumes "buf_size j = int n + 1" "length t \<le> n" "n < length str + length t" "flush_cb j"
  shows "json_gen_add_loop (Suc f) str t j
    = json_gen_add_loop f (drop (n - length t) str) []
        (j\<lparr>jbuf := Some [], jflushed := jflushed j @ [t @ take (n - length t) str]\<rparr>)"
  using assms by (auto simp: json_gen_add_loop.simps(2) Let_def json_gen_get_empty_len_def)

lemma json_add_loop_stream:
  assumes "0 < n" "flush_cb j" "buf_size j = int n + 1" "length t \<le> n"
    "length str + (if length t = n then 1 else 0) < fuel"
    "\<forall>c \<in> set (jflushed j). length c = n"
  shows "\<exists>t' fl. json_gen_add_loop fuel str t j = (0, j\<lparr>jbuf := Some t', jflushed := fl\<rparr>)
     \<and> length t' \<le> n \<and> (\<forall>c \<in> set fl. length c = n)
     \<and> concat fl @ t' = concat (jflushed j) @ t @ str"
  using assms
proof (induction fuel arbitrary: str t j)
  case 0
  then show ?case by simp
next
  case (Suc f)
  show ?case
  proof (cases "length str + length t \<le> n")
    case True
    then show ?thesis
      using add_loop_fits [of j n str t f] Suc.prems by (intro exI [of _ "t @ str"] exI [of _ "jflushed j"]) simp
  next
    case False
    let ?k = "n - length t"
    let ?j = "j\<lparr>jbuf := Some [], jflushed := jflushed j @ [t @ take ?k str]\<rparr>"
    have "length (drop ?k str) + (if length ([] :: string) = n then 1 else 0) < f"
      using Suc.prems False by (auto split: if_splits)
    then obtain t' fl where "json_gen_add_loop f (drop ?k str) [] ?j
        = (0, ?j\<lparr>jbuf := Some t', jflushed := fl\<rparr>)"
       "length t' \<le> n" "\<forall>c \<in> set fl. length c = n"
       "concat fl @ t' = concat (jflushed ?j) @ [] @ drop ?k str"
      using Suc.IH [of ?j "[]" "drop ?k str"] Suc.prems False by fastforce
    then show ?thesis
      using add_loop_flush [of j n t str f] Suc.prems False by auto
  qed
qed

lemma json_stream_add:
  assumes "json_stream n T j" "0 < n"
  shows "fst (json_gen_add_to_str s j) = 0"
    and "json_stream n (T @ str_opt s) (snd (json_gen_add_to_str s j))"
proof -
  obtain t where t: "jbuf j = Some t" "length t \<le> n" "concat (jflushed j) @ t = T"
    using assms by (auto simp: json_stream_def)
  have "fst (json_gen_add_to_str s j) = 0
      \<and> json_stream n (T @ str_opt s) (snd (json_gen_add_to_str s j))"
  proof (cases s)
    case None
    then show ?thesis using assms by (simp add: json_gen_add_to_str_def)
  next
    case (Some str)
    let ?j = "j\<lparr>total_len := total_len j + int (length str)\<rparr>"
    have "\<exists>t' fl. json_gen_add_loop (length str + 2) str t ?j
        = (0, ?j\<lparr>jbuf := Some t', jflushed := fl\<rparr>)
       \<and> length t' \<le> n \<and> (\<forall>c \<in> set fl. length c = n)
       \<and> concat fl @ t' = concat (jflushed ?j) @ t @ str"
      using assms t by (intro json_add_loop_stream) (auto simp: json_stream_def)
    then show ?thesis
      using assms t Some by (auto simp: json_gen_add_to_str_def json_stream_def)
  qed
  then show "fst (json_gen_add_to_str s j) = 0"
    and "json_stream n (T @ str_opt s) (snd (json_gen_add_to_str s j))"
    by auto
qed

lemma json_stream_start:
  "json_stream n [] (json_gen_str_start True (int n + 1) True)"
  by (simp add: json_stream_def json_gen_str_start_def)

text \<open>Streaming a document of any length through a small buffer. With a flush callback and
  room for at least one character, \<open>json_gen_add_to_str\<close> returns 0, and afterwards what was
  flushed followed by the buffer is the text so far with the new string appended; every chunk
  handed to the callback fills the buffer, and \<open>total_len\<close> is the length of the whole.\<close>
theorem json_stream_append:
  assumes "json_stream n T j" "0 < n"
  shows "fst (json_gen_add_to_str s j) = 0
    \<and> json_stream n (T @ str_opt s) (snd (json_gen_add_to_str s j))"
  using json_stream_add [OF assms] by blast

theorem json_stream_append_witness:
  "fst (json_gen_add_to_str (Some ''abcdefg'') (json_gen_str_start True 4 True)) = 0"
  using json_stream_append [of 3 "[]" "json_gen_str_start True 4 True" "Some ''abcdefg''"]
    json_stream_start [of 3] by simp

end
