(* ===== verification/Rm_State.thy ===== *)
theory Rm_State
  imports Platform Json_Gen
begin

text \<open>
  The state of the RainMaker library: the structures of \<open>esp_rmaker_internal.h\<close> and
  \<open>esp_rmaker_core.h\<close> and the static variables of the files under
  \<open>esp_rainmaker/src/core\<close>.

  Parameters, devices and nodes are heap objects named by a handle; a \<open>NULL\<close> handle is
  \<open>None\<close>. A chain linked through \<open>next\<close> is the list of its elements' handles in the owner
  (an element is in at most one chain, the library has no operation that shares one). An
  attribute chain is the list of its (name, value) pairs. Objects are allocated with the
  next free reference; the model does not reuse references, so a freed object is one that
  nothing refers to.
\<close>

datatype param_val =
  VInvalid
  | VBool bool
  | VInt int
  | VFloat u32 \<comment> \<open>the bits of the IEEE single\<close>
  | VStr "string option"
  | VObj "string option"
  | VArr "string option"

datatype rm_val_type =
  RMAKER_VAL_TYPE_INVALID | RMAKER_VAL_TYPE_BOOLEAN | RMAKER_VAL_TYPE_INTEGER
  | RMAKER_VAL_TYPE_FLOAT | RMAKER_VAL_TYPE_STRING | RMAKER_VAL_TYPE_OBJECT
  | RMAKER_VAL_TYPE_ARRAY

fun val_type :: "param_val \<Rightarrow> rm_val_type" where
  "val_type VInvalid = RMAKER_VAL_TYPE_INVALID"
| "val_type (VBool b) = RMAKER_VAL_TYPE_BOOLEAN"
| "val_type (VInt i) = RMAKER_VAL_TYPE_INTEGER"
| "val_type (VFloat f) = RMAKER_VAL_TYPE_FLOAT"
| "val_type (VStr s) = RMAKER_VAL_TYPE_STRING"
| "val_type (VObj s) = RMAKER_VAL_TYPE_OBJECT"
| "val_type (VArr s) = RMAKER_VAL_TYPE_ARRAY"

fun val_str :: "param_val \<Rightarrow> string option" where
  "val_str (VStr s) = s"
| "val_str (VObj s) = s"
| "val_str (VArr s) = s"
| "val_str _ = None"

fun with_str :: "param_val \<Rightarrow> string option \<Rightarrow> param_val" where
  \<comment> \<open>the same type tag with another string pointer\<close>
  "with_str (VStr _) s = VStr s"
| "with_str (VObj _) s = VObj s"
| "with_str (VArr _) s = VArr s"
| "with_str v _ = v"

definition is_str_type :: "rm_val_type \<Rightarrow> bool" where
  \<comment> \<open>the types whose value is a heap string\<close>
  "is_str_type t \<longleftrightarrow> t = RMAKER_VAL_TYPE_STRING \<or> t = RMAKER_VAL_TYPE_OBJECT
     \<or> t = RMAKER_VAL_TYPE_ARRAY"

datatype req_src =
  ESP_RMAKER_REQ_SRC_INIT | ESP_RMAKER_REQ_SRC_CLOUD | ESP_RMAKER_REQ_SRC_SCHEDULE
  | ESP_RMAKER_REQ_SRC_LOCAL

datatype rm_phase =
  ESP_RMAKER_STATE_DEINIT | ESP_RMAKER_STATE_INIT_DONE | ESP_RMAKER_STATE_STARTING
  | ESP_RMAKER_STATE_STARTED | ESP_RMAKER_STATE_STOP_REQUESTED

text \<open>\<open>PROP_FLAG_WRITE\<close>, \<open>PROP_FLAG_READ\<close>, \<open>PROP_FLAG_TIME_SERIES\<close>, \<open>PROP_FLAG_PERSIST\<close> are
  the bits 0 to 3 of \<open>prop_flags\<close>.\<close>

record rm_param =
  p_name :: string
  p_type :: "string option"
  p_flags :: u8
  prop_flags :: u8
  p_ui_type :: "string option"
  p_val :: param_val
  p_bounds :: "(param_val \<times> param_val \<times> param_val) option"
  p_strs :: "string list option"
  p_parent :: "nat option"

record rm_device =
  d_name :: string
  d_type :: "string option"
  d_subtype :: "string option"
  write_cb :: "string option" \<comment> \<open>the name of the callback function\<close>
  read_cb :: "string option"
  priv_data :: "int list" \<comment> \<open>the record \<open>priv_data\<close> points to\<close>
  is_service :: bool
  d_attrs :: "(string \<times> string) list"
  d_params :: "nat list"
  d_primary :: "nat option"
  d_parent :: "nat option"

record node_info =
  ni_name :: "string option"
  ni_type :: "string option"
  ni_fw_version :: "string option"
  ni_model :: "string option"

record rm_node =
  n_id :: "string option"
  n_info :: "node_info option"
  n_attrs :: "(string \<times> string) list"
  n_devices :: "nat list"

record rm_priv =
  pr_node_id :: "string option"
  pr_node :: "nat option"
  enable_time_sync :: bool
  pr_state :: rm_phase
  mqtt_connected :: bool
  need_claim :: bool
  claim_data :: bool \<comment> \<open>the pointers are not \<open>NULL\<close>\<close>
  mqtt_conn_params :: bool

text \<open>Answers of the NVS read calls.\<close>

datatype nvs_ans = NvsErr int | NvsStr string | NvsVal param_val

text \<open>
  The library's state. \<open>mqtt_publish_set\<close> and \<open>mqtt_subscribe_set\<close> tell whether the
  function pointers of \<open>g_mqtt_config\<close> are set.
\<close>

record rm = plat +
  pheap :: "nat \<Rightarrow> rm_param"
  dheap :: "nat \<Rightarrow> rm_device"
  nheap :: "nat \<Rightarrow> rm_node"
  next_ref :: nat
  nvs_in :: "nvs_ans list"
  priv :: "rm_priv option"
  node_created :: bool
  max_node_params_size :: nat
  node_params_buf :: "string option"
  publish_topic :: string
  params_mqtt_init_done :: bool
  mqtt_publish_set :: bool
  mqtt_subscribe_set :: bool

definition param0 :: rm_param where
  "param0 = \<lparr>p_name = [], p_type = None, p_flags = 0, prop_flags = 0, p_ui_type = None,
     p_val = VInvalid, p_bounds = None, p_strs = None, p_parent = None\<rparr>"

definition device0 :: rm_device where
  "device0 = \<lparr>d_name = [], d_type = None, d_subtype = None, write_cb = None, read_cb = None,
     priv_data = [], is_service = False, d_attrs = [], d_params = [], d_primary = None,
     d_parent = None\<rparr>"

definition node0 :: rm_node where
  "node0 = \<lparr>n_id = None, n_info = None, n_attrs = [], n_devices = []\<rparr>"

text \<open>Update of one object; the field-update functions are the record package's.\<close>

definition upd_param :: "nat \<Rightarrow> (rm_param \<Rightarrow> rm_param) \<Rightarrow> 'a rm_scheme \<Rightarrow> 'a rm_scheme" where
  "upd_param p f s = s\<lparr>pheap := (pheap s)(p := f (pheap s p))\<rparr>"

definition upd_device :: "nat \<Rightarrow> (rm_device \<Rightarrow> rm_device) \<Rightarrow> 'a rm_scheme \<Rightarrow> 'a rm_scheme" where
  "upd_device d f s = s\<lparr>dheap := (dheap s)(d := f (dheap s d))\<rparr>"

definition upd_node :: "nat \<Rightarrow> (rm_node \<Rightarrow> rm_node) \<Rightarrow> 'a rm_scheme \<Rightarrow> 'a rm_scheme" where
  "upd_node n f s = s\<lparr>nheap := (nheap s)(n := f (nheap s n))\<rparr>"

text \<open>The next answer of an NVS read; an exhausted stream answers \<open>ESP_ERR_NVS_NOT_FOUND\<close>.\<close>

definition nvs_read :: "'a rm_scheme \<Rightarrow> nvs_ans \<times> 'a rm_scheme" where
  "nvs_read s = (case nvs_in s of [] \<Rightarrow> (NvsErr 4354, s) | a # as \<Rightarrow> (a, s\<lparr>nvs_in := as\<rparr>))"

definition esp_rmaker_get_state :: "'a rm_scheme \<Rightarrow> rm_phase" where
  "esp_rmaker_get_state s =
     (case priv s of Some p \<Rightarrow> pr_state p | None \<Rightarrow> ESP_RMAKER_STATE_DEINIT)"

definition esp_rmaker_get_node_id :: "'a rm_scheme \<Rightarrow> string option" where
  "esp_rmaker_get_node_id s = (case priv s of Some p \<Rightarrow> pr_node_id p | None \<Rightarrow> None)"

definition esp_rmaker_get_node :: "'a rm_scheme \<Rightarrow> nat option" where
  "esp_rmaker_get_node s = (case priv s of None \<Rightarrow> None | Some p \<Rightarrow> pr_node p)"

definition esp_rmaker_node_get_first_device :: "nat option \<Rightarrow> 'a rm_scheme \<Rightarrow> nat list" where
  \<comment> \<open>the chain that starts at the first device\<close>
  "esp_rmaker_node_get_first_device node s =
     (case node of None \<Rightarrow> [] | Some n \<Rightarrow> n_devices (nheap s n))"

definition esp_rmaker_mqtt_publish ::
  "string \<Rightarrow> string \<Rightarrow> 'a rm_scheme \<Rightarrow> esp_err \<times> 'a rm_scheme" where
  "esp_rmaker_mqtt_publish topic payload s =
     (if mqtt_publish_set s then call (Net (MqttPublish topic payload)) s else (ESP_OK, s))"

definition esp_rmaker_mqtt_subscribe ::
  "string \<Rightarrow> 'a rm_scheme \<Rightarrow> esp_err \<times> 'a rm_scheme" where
  "esp_rmaker_mqtt_subscribe topic s =
     (if mqtt_subscribe_set s then call (Net (MqttSubscribe topic)) s else (ESP_OK, s))"

text \<open>\<open>snprintf("node/%s/%s")\<close>; a \<open>NULL\<close> string prints as \<open>(null)\<close>.\<close>

definition node_topic :: "nat \<Rightarrow> string \<Rightarrow> 'a rm_scheme \<Rightarrow> string" where
  "node_topic n suffix s =
     snprintf n (''node/'' @
       (case esp_rmaker_get_node_id s of None \<Rightarrow> ''(null)'' | Some i \<Rightarrow> i) @ ''/'' @ suffix)"

subsection \<open>Reading back\<close>

lemma pheap_upd [simp]:
  "pheap (upd_param p f s) = (pheap s)(p := f (pheap s p))"
  "pheap (upd_device d g s) = pheap s" "pheap (upd_node n h s) = pheap s"
  by (simp_all add: upd_param_def upd_device_def upd_node_def)

lemma dheap_upd [simp]:
  "dheap (upd_device d g s) = (dheap s)(d := g (dheap s d))"
  "dheap (upd_param p f s) = dheap s" "dheap (upd_node n h s) = dheap s"
  by (simp_all add: upd_param_def upd_device_def upd_node_def)

lemma nheap_upd [simp]:
  "nheap (upd_node n h s) = (nheap s)(n := h (nheap s n))"
  "nheap (upd_param p f s) = nheap s" "nheap (upd_device d g s) = nheap s"
  by (simp_all add: upd_param_def upd_device_def upd_node_def)

lemma upd_param_fields [simp]:
  "trace (upd_param p f s) = trace s" "inputs (upd_param p f s) = inputs s"
  "mem_ok (upd_param p f s) = mem_ok s" "next_ref (upd_param p f s) = next_ref s"
  "nvs_in (upd_param p f s) = nvs_in s" "priv (upd_param p f s) = priv s"
  "node_created (upd_param p f s) = node_created s" "max_node_params_size (upd_param p f s) = max_node_params_size s"
  "node_params_buf (upd_param p f s) = node_params_buf s" "publish_topic (upd_param p f s) = publish_topic s"
  "params_mqtt_init_done (upd_param p f s) = params_mqtt_init_done s" "mqtt_publish_set (upd_param p f s) = mqtt_publish_set s"
  "mqtt_subscribe_set (upd_param p f s) = mqtt_subscribe_set s"
  by (simp_all add: upd_param_def)

lemma upd_device_fields [simp]:
  "trace (upd_device d g s) = trace s" "inputs (upd_device d g s) = inputs s"
  "mem_ok (upd_device d g s) = mem_ok s" "next_ref (upd_device d g s) = next_ref s"
  "nvs_in (upd_device d g s) = nvs_in s" "priv (upd_device d g s) = priv s"
  "node_created (upd_device d g s) = node_created s" "max_node_params_size (upd_device d g s) = max_node_params_size s"
  "node_params_buf (upd_device d g s) = node_params_buf s" "publish_topic (upd_device d g s) = publish_topic s"
  "params_mqtt_init_done (upd_device d g s) = params_mqtt_init_done s" "mqtt_publish_set (upd_device d g s) = mqtt_publish_set s"
  "mqtt_subscribe_set (upd_device d g s) = mqtt_subscribe_set s"
  by (simp_all add: upd_device_def)

lemma upd_node_fields [simp]:
  "trace (upd_node n h s) = trace s" "inputs (upd_node n h s) = inputs s"
  "mem_ok (upd_node n h s) = mem_ok s" "next_ref (upd_node n h s) = next_ref s"
  "nvs_in (upd_node n h s) = nvs_in s" "priv (upd_node n h s) = priv s"
  "node_created (upd_node n h s) = node_created s" "max_node_params_size (upd_node n h s) = max_node_params_size s"
  "node_params_buf (upd_node n h s) = node_params_buf s" "publish_topic (upd_node n h s) = publish_topic s"
  "params_mqtt_init_done (upd_node n h s) = params_mqtt_init_done s" "mqtt_publish_set (upd_node n h s) = mqtt_publish_set s"
  "mqtt_subscribe_set (upd_node n h s) = mqtt_subscribe_set s"
  by (simp_all add: upd_node_def)

lemma val_type_with_str [simp]: "val_type (with_str v s) = val_type v"
  by (cases v) auto

lemma val_str_with_str [simp]: "is_str_type (val_type v) \<Longrightarrow> val_str (with_str v s) = s"
  by (cases v) (auto simp: is_str_type_def)

text \<open>No SDK call touches the library's own state.\<close>

lemma rm_emit [simp]:
  "pheap (emit e s) = pheap s" "dheap (emit e s) = dheap s"
  "nheap (emit e s) = nheap s" "next_ref (emit e s) = next_ref s"
  "nvs_in (emit e s) = nvs_in s" "priv (emit e s) = priv s"
  "node_created (emit e s) = node_created s" "max_node_params_size (emit e s) = max_node_params_size s"
  "node_params_buf (emit e s) = node_params_buf s" "publish_topic (emit e s) = publish_topic s"
  "params_mqtt_init_done (emit e s) = params_mqtt_init_done s" "mqtt_publish_set (emit e s) = mqtt_publish_set s"
  "mqtt_subscribe_set (emit e s) = mqtt_subscribe_set s"
  by (simp_all add: emit_def)

lemma rm_emits [simp]:
  "pheap (emits es s) = pheap s" "dheap (emits es s) = dheap s"
  "nheap (emits es s) = nheap s" "next_ref (emits es s) = next_ref s"
  "nvs_in (emits es s) = nvs_in s" "priv (emits es s) = priv s"
  "node_created (emits es s) = node_created s" "max_node_params_size (emits es s) = max_node_params_size s"
  "node_params_buf (emits es s) = node_params_buf s" "publish_topic (emits es s) = publish_topic s"
  "params_mqtt_init_done (emits es s) = params_mqtt_init_done s" "mqtt_publish_set (emits es s) = mqtt_publish_set s"
  "mqtt_subscribe_set (emits es s) = mqtt_subscribe_set s"
  by (simp_all add: emits_def)

lemma rm_ask [simp]:
  "pheap (snd (ask s)) = pheap s" "dheap (snd (ask s)) = dheap s"
  "nheap (snd (ask s)) = nheap s" "next_ref (snd (ask s)) = next_ref s"
  "nvs_in (snd (ask s)) = nvs_in s" "priv (snd (ask s)) = priv s"
  "node_created (snd (ask s)) = node_created s" "max_node_params_size (snd (ask s)) = max_node_params_size s"
  "node_params_buf (snd (ask s)) = node_params_buf s" "publish_topic (snd (ask s)) = publish_topic s"
  "params_mqtt_init_done (snd (ask s)) = params_mqtt_init_done s" "mqtt_publish_set (snd (ask s)) = mqtt_publish_set s"
  "mqtt_subscribe_set (snd (ask s)) = mqtt_subscribe_set s"
  by (simp_all add: ask_def split: list.split)

lemma rm_alloc [simp]:
  "pheap (snd (alloc s)) = pheap s" "dheap (snd (alloc s)) = dheap s"
  "nheap (snd (alloc s)) = nheap s" "next_ref (snd (alloc s)) = next_ref s"
  "nvs_in (snd (alloc s)) = nvs_in s" "priv (snd (alloc s)) = priv s"
  "node_created (snd (alloc s)) = node_created s" "max_node_params_size (snd (alloc s)) = max_node_params_size s"
  "node_params_buf (snd (alloc s)) = node_params_buf s" "publish_topic (snd (alloc s)) = publish_topic s"
  "params_mqtt_init_done (snd (alloc s)) = params_mqtt_init_done s" "mqtt_publish_set (snd (alloc s)) = mqtt_publish_set s"
  "mqtt_subscribe_set (snd (alloc s)) = mqtt_subscribe_set s"
  by (simp_all add: alloc_def split: list.split)

lemma rm_call [simp]:
  "pheap (snd (call e s)) = pheap s" "dheap (snd (call e s)) = dheap s"
  "nheap (snd (call e s)) = nheap s" "next_ref (snd (call e s)) = next_ref s"
  "nvs_in (snd (call e s)) = nvs_in s" "priv (snd (call e s)) = priv s"
  "node_created (snd (call e s)) = node_created s" "max_node_params_size (snd (call e s)) = max_node_params_size s"
  "node_params_buf (snd (call e s)) = node_params_buf s" "publish_topic (snd (call e s)) = publish_topic s"
  "params_mqtt_init_done (snd (call e s)) = params_mqtt_init_done s" "mqtt_publish_set (snd (call e s)) = mqtt_publish_set s"
  "mqtt_subscribe_set (snd (call e s)) = mqtt_subscribe_set s"
  by (simp_all add: call_def)

lemma node_topic_upd [simp]:
  "node_topic n x (upd_param p f s) = node_topic n x s"
  "node_topic n x (upd_device d g s) = node_topic n x s"
  by (simp_all add: node_topic_def esp_rmaker_get_node_id_def)

text \<open>The statics at boot: \<open>CONFIG_ESP_RMAKER_MAX_PARAM_DATA_SIZE\<close> is 1024.\<close>

definition rm_init :: rm where
  "rm_init = \<lparr>trace = [], inputs = [], mem_ok = [],
     pheap = (\<lambda>_. param0), dheap = (\<lambda>_. device0), nheap = (\<lambda>_. node0), next_ref = 0,
     nvs_in = [], priv = None, node_created = False, max_node_params_size = 1024,
     node_params_buf = None, publish_topic = [], params_mqtt_init_done = False,
     mqtt_publish_set = False, mqtt_subscribe_set = False\<rparr>"

text \<open>
  A running library with one device of two parameters, the concrete state of the witnesses:
  node 0 with device 1, \<open>Light\<close>, and its parameters 2, \<open>Power\<close>, and 3, \<open>Brightness\<close>.
\<close>

definition ex_power :: rm_param where
  "ex_power = param0\<lparr>p_name := ''Power'', p_type := Some ''esp.param.power'', prop_flags := 3,
     p_val := VBool True, p_parent := Some 1\<rparr>"

definition ex_bright :: rm_param where
  "ex_bright = param0\<lparr>p_name := ''Brightness'', p_type := Some ''esp.param.brightness'',
     prop_flags := 3, p_val := VInt 7, p_parent := Some 1\<rparr>"

definition ex_dev :: rm_device where
  "ex_dev = device0\<lparr>d_name := ''Light'', d_params := [2, 3], d_primary := Some 2,
     d_parent := Some 0, write_cb := Some ''write_cb''\<rparr>"

definition ex_rm :: rm where
  "ex_rm = rm_init\<lparr>pheap := ((\<lambda>_. param0)(2 := ex_power))(3 := ex_bright),
     dheap := (\<lambda>_. device0)(1 := ex_dev),
     nheap := (\<lambda>_. node0)(0 := node0\<lparr>n_id := Some ''n1'', n_devices := [1]\<rparr>),
     next_ref := 4,
     priv := Some \<lparr>pr_node_id = Some ''n1'', pr_node = Some 0, enable_time_sync = False,
       pr_state = ESP_RMAKER_STATE_STARTED, mqtt_connected = True, need_claim = False,
       claim_data = False, mqtt_conn_params = True\<rparr>,
     params_mqtt_init_done := True, mqtt_publish_set := True\<rparr>"

lemmas ex_defs = ex_rm_def ex_dev_def ex_power_def ex_bright_def rm_init_def param0_def
  device0_def node0_def

end
