(* ===== verification/Json_Parser.thy ===== *)
theory Json_Parser
  imports Prelude
begin

text \<open>
  The JSON reader, \<open>json_parser.c\<close>: a context over the text and the token array of the
  tokenizer \<open>jsmn\<close>, with a current container, and the accessors that look a key or an index
  up in it and convert the value.

  A context is modelled by the text, the tokens and the index of the current token. An
  accessor returns \<open>Some\<close> with what it writes through its pointer for \<open>OS_SUCCESS\<close> and
  \<open>None\<close> for \<open>-OS_FAIL\<close>. The two calls of the tokenizer are arguments of \<open>json_parse_start\<close>; \<open>Jsmn\<close>
  supplies them.

  The lemmas show that on the tokens of a document (\<open>enc\<close>, the layout \<open>jsmn\<close> documents:
  preorder, a key token of size 1 before each member's value) skipping an element lands on
  its last token, that a lookup finds the first member with the key, and that entering and
  leaving a container restores the context.
\<close>

datatype jsmntype = JSMN_UNDEFINED | JSMN_OBJECT | JSMN_ARRAY | JSMN_STRING | JSMN_PRIMITIVE

record json_tok =
  tk_type :: jsmntype
  tk_start :: int
  tk_end :: int
  tk_size :: int
  tk_parent :: int

record jparse_ctx =
  js :: string
  tokens :: "json_tok list"
  cur :: nat

definition substr :: "string \<Rightarrow> json_tok \<Rightarrow> string" where
  \<comment> \<open>the characters from \<open>start\<close> up to \<open>end\<close>\<close>
  "substr t tok = take (nat (tk_end tok - tk_start tok)) (drop (nat (tk_start tok)) t)"

definition token_matches_str :: "jparse_ctx \<Rightarrow> json_tok \<Rightarrow> string \<Rightarrow> bool" where
  "token_matches_str ctx tok str \<longleftrightarrow>
     take (length str) (drop (nat (tk_start tok)) (js ctx)) = str
     \<and> int (length str) = tk_end tok - tk_start tok"

text \<open>
  The recursion of \<open>json_skip_elem\<close> is as deep as the document is nested, so the number of
  tokens is enough fuel (\<open>skip_enc\<close>). \<open>None\<close> is a read past the token array.
\<close>

fun json_skip_elem :: "nat \<Rightarrow> json_tok list \<Rightarrow> nat \<Rightarrow> nat option"
and skip_loop :: "nat \<Rightarrow> json_tok list \<Rightarrow> nat \<Rightarrow> nat \<Rightarrow> nat option" where
  "json_skip_elem 0 ts i = None"
| "json_skip_elem (Suc f) ts i =
     (if i < length ts then skip_loop f ts (nat (tk_size (ts ! i))) i else None)"
| "skip_loop f ts 0 c = Some c"
| "skip_loop f ts (Suc k) c =
     (case json_skip_elem f ts (c + 1) of None \<Rightarrow> None | Some c' \<Rightarrow> skip_loop f ts k c')"

definition skip_elem :: "jparse_ctx \<Rightarrow> nat \<Rightarrow> nat option" where
  "skip_elem ctx i = json_skip_elem (length (tokens ctx) + 1) (tokens ctx) i"

text \<open>\<open>strtoul\<close> of a 32-bit \<open>unsigned long\<close>: the value and the number of characters read.\<close>

definition is_digit :: "char \<Rightarrow> bool" where
  "is_digit c \<longleftrightarrow> 48 \<le> (of_char c :: nat) \<and> (of_char c :: nat) \<le> 57"

definition is_space :: "char \<Rightarrow> bool" where
  "is_space c \<longleftrightarrow> (of_char c :: nat) = 32 \<or> (9 \<le> (of_char c :: nat) \<and> (of_char c :: nat) \<le> 13)"

definition digits_val :: "string \<Rightarrow> nat" where
  "digits_val ds = foldl (\<lambda>n c. n * 10 + (of_char c - 48)) 0 ds"

definition strtoul :: "nat \<Rightarrow> string \<Rightarrow> nat \<times> nat" where
  "strtoul bits t =
     (let ws = takeWhile is_space t;
          r = drop (length ws) t;
          neg = (case r of [] \<Rightarrow> False | c # _ \<Rightarrow> c = CHR ''-'');
          sg = (case r of [] \<Rightarrow> 0 | c # _ \<Rightarrow> if c = CHR ''-'' \<or> c = CHR ''+'' then 1 else 0);
          ds = takeWhile is_digit (drop sg r);
          v = digits_val ds
      in if ds = [] then (0, 0)
         else (if 2 ^ bits \<le> v then 2 ^ bits - 1
               else if neg then (2 ^ bits - v) mod 2 ^ bits else v,
               length ws + sg + length ds))"

definition json_tok_to_bool :: "jparse_ctx \<Rightarrow> json_tok \<Rightarrow> bool option" where
  "json_tok_to_bool ctx tok =
     (if token_matches_str ctx tok ''true'' \<or> token_matches_str ctx tok ''1'' then Some True
      else if token_matches_str ctx tok ''false'' \<or> token_matches_str ctx tok ''0''
      then Some False else None)"

definition json_tok_to_int :: "jparse_ctx \<Rightarrow> json_tok \<Rightarrow> int option" where
  "json_tok_to_int ctx tok =
     (let (v, n) = strtoul 32 (drop (nat (tk_start tok)) (js ctx))
      in if tk_start tok + int n = tk_end tok then Some (sint (word_of_nat v :: u32)) else None)"

definition json_tok_to_int64 :: "jparse_ctx \<Rightarrow> json_tok \<Rightarrow> int option" where
  "json_tok_to_int64 ctx tok =
     (let (v, n) = strtoul 64 (drop (nat (tk_start tok)) (js ctx))
      in if tk_start tok + int n = tk_end tok then Some (sint (word_of_nat v :: 64 word)) else None)"

text \<open>\<open>strtof\<close> is an argument: the value's bits and the number of characters read.\<close>

definition json_tok_to_float ::
  "(string \<Rightarrow> u32 \<times> nat) \<Rightarrow> jparse_ctx \<Rightarrow> json_tok \<Rightarrow> u32 option" where
  "json_tok_to_float strtof ctx tok =
     (let (v, n) = strtof (drop (nat (tk_start tok)) (js ctx))
      in if tk_start tok + int n = tk_end tok then Some v else None)"

definition json_tok_to_string :: "jparse_ctx \<Rightarrow> json_tok \<Rightarrow> int \<Rightarrow> string option" where
  "json_tok_to_string ctx tok sz =
     (if tk_end tok - tk_start tok > sz - 1 then None else Some (substr (js ctx) tok))"

subsection \<open>Objects\<close>

fun obj_search_loop :: "jparse_ctx \<Rightarrow> nat \<Rightarrow> nat \<Rightarrow> string \<Rightarrow> nat option" where
  "obj_search_loop ctx 0 i key = None"
| "obj_search_loop ctx (Suc n) i key =
     (let t = i + 1
      in if length (tokens ctx) \<le> t then None
         else if token_matches_str ctx (tokens ctx ! t) key then Some t
         else case skip_elem ctx t of None \<Rightarrow> None | Some t' \<Rightarrow> obj_search_loop ctx n t' key)"

definition json_obj_search :: "jparse_ctx \<Rightarrow> string \<Rightarrow> nat option" where
  "json_obj_search ctx key =
     (let tok = tokens ctx ! cur ctx
      in if tk_size tok \<le> 0 then None
         else if tk_type tok \<noteq> JSMN_OBJECT then None
         else obj_search_loop ctx (nat (tk_size tok)) (cur ctx) key)"

definition json_obj_get_val_tok :: "jparse_ctx \<Rightarrow> string \<Rightarrow> jsmntype \<Rightarrow> nat option" where
  "json_obj_get_val_tok ctx name ty =
     (case json_obj_search ctx name of None \<Rightarrow> None
      | Some i \<Rightarrow> let t = i + 1
          in if length (tokens ctx) \<le> t \<or> tk_type (tokens ctx ! t) \<noteq> ty then None else Some t)"

definition json_obj_get_array :: "jparse_ctx \<Rightarrow> string \<Rightarrow> (int \<times> jparse_ctx) option" where
  "json_obj_get_array ctx name =
     (case json_obj_get_val_tok ctx name JSMN_ARRAY of None \<Rightarrow> None
      | Some t \<Rightarrow> Some (tk_size (tokens ctx ! t), ctx\<lparr>cur := t\<rparr>))"

text \<open>The parent of the current token; \<open>None\<close> below the root.\<close>

definition to_parent :: "jparse_ctx \<Rightarrow> jparse_ctx option" where
  "to_parent ctx =
     (let p = tk_parent (tokens ctx ! cur ctx) in if p < 0 then None else Some (ctx\<lparr>cur := nat p\<rparr>))"

definition json_obj_leave_array :: "jparse_ctx \<Rightarrow> jparse_ctx option" where
  "json_obj_leave_array ctx =
     (case to_parent ctx of None \<Rightarrow> None | Some ctx \<Rightarrow> to_parent ctx)"

definition json_obj_get_object :: "jparse_ctx \<Rightarrow> string \<Rightarrow> jparse_ctx option" where
  "json_obj_get_object ctx name =
     (case json_obj_get_val_tok ctx name JSMN_OBJECT of None \<Rightarrow> None
      | Some t \<Rightarrow> Some (ctx\<lparr>cur := t\<rparr>))"

definition json_obj_leave_object :: "jparse_ctx \<Rightarrow> jparse_ctx option" where
  "json_obj_leave_object ctx =
     (case to_parent ctx of None \<Rightarrow> None | Some ctx \<Rightarrow> to_parent ctx)"

definition json_obj_get_bool :: "jparse_ctx \<Rightarrow> string \<Rightarrow> bool option" where
  "json_obj_get_bool ctx name =
     (case json_obj_get_val_tok ctx name JSMN_PRIMITIVE of None \<Rightarrow> None
      | Some t \<Rightarrow> json_tok_to_bool ctx (tokens ctx ! t))"

definition json_obj_get_int :: "jparse_ctx \<Rightarrow> string \<Rightarrow> int option" where
  "json_obj_get_int ctx name =
     (case json_obj_get_val_tok ctx name JSMN_PRIMITIVE of None \<Rightarrow> None
      | Some t \<Rightarrow> json_tok_to_int ctx (tokens ctx ! t))"

definition json_obj_get_int64 :: "jparse_ctx \<Rightarrow> string \<Rightarrow> int option" where
  "json_obj_get_int64 ctx name =
     (case json_obj_get_val_tok ctx name JSMN_PRIMITIVE of None \<Rightarrow> None
      | Some t \<Rightarrow> json_tok_to_int64 ctx (tokens ctx ! t))"

definition json_obj_get_float ::
  "(string \<Rightarrow> u32 \<times> nat) \<Rightarrow> jparse_ctx \<Rightarrow> string \<Rightarrow> u32 option" where
  "json_obj_get_float strtof ctx name =
     (case json_obj_get_val_tok ctx name JSMN_PRIMITIVE of None \<Rightarrow> None
      | Some t \<Rightarrow> json_tok_to_float strtof ctx (tokens ctx ! t))"

definition json_obj_get_string :: "jparse_ctx \<Rightarrow> string \<Rightarrow> int \<Rightarrow> string option" where
  "json_obj_get_string ctx name sz =
     (case json_obj_get_val_tok ctx name JSMN_STRING of None \<Rightarrow> None
      | Some t \<Rightarrow> json_tok_to_string ctx (tokens ctx ! t) sz)"

definition tok_len :: "jparse_ctx \<Rightarrow> string \<Rightarrow> jsmntype \<Rightarrow> int option" where
  "tok_len ctx name ty =
     (case json_obj_get_val_tok ctx name ty of None \<Rightarrow> None
      | Some t \<Rightarrow> Some (tk_end (tokens ctx ! t) - tk_start (tokens ctx ! t)))"

definition json_obj_get_strlen :: "jparse_ctx \<Rightarrow> string \<Rightarrow> int option" where
  "json_obj_get_strlen ctx name = tok_len ctx name JSMN_STRING"

definition json_obj_get_object_str :: "jparse_ctx \<Rightarrow> string \<Rightarrow> int \<Rightarrow> string option" where
  "json_obj_get_object_str ctx name sz =
     (case json_obj_get_val_tok ctx name JSMN_OBJECT of None \<Rightarrow> None
      | Some t \<Rightarrow> json_tok_to_string ctx (tokens ctx ! t) sz)"

definition json_obj_get_object_strlen :: "jparse_ctx \<Rightarrow> string \<Rightarrow> int option" where
  "json_obj_get_object_strlen ctx name = tok_len ctx name JSMN_OBJECT"

definition json_obj_get_array_str :: "jparse_ctx \<Rightarrow> string \<Rightarrow> int \<Rightarrow> string option" where
  "json_obj_get_array_str ctx name sz =
     (case json_obj_get_val_tok ctx name JSMN_ARRAY of None \<Rightarrow> None
      | Some t \<Rightarrow> json_tok_to_string ctx (tokens ctx ! t) sz)"

definition json_obj_get_array_strlen :: "jparse_ctx \<Rightarrow> string \<Rightarrow> int option" where
  "json_obj_get_array_strlen ctx name = tok_len ctx name JSMN_ARRAY"

subsection \<open>Arrays\<close>

fun arr_walk :: "jparse_ctx \<Rightarrow> nat \<Rightarrow> nat \<Rightarrow> nat option" where
  "arr_walk ctx 0 t = Some t"
| "arr_walk ctx (Suc n) t =
     (case skip_elem ctx t of None \<Rightarrow> None | Some t' \<Rightarrow> arr_walk ctx n (t' + 1))"

definition json_arr_search :: "jparse_ctx \<Rightarrow> nat \<Rightarrow> nat option" where
  "json_arr_search ctx idx =
     (let tok = tokens ctx ! cur ctx
      in if tk_type tok \<noteq> JSMN_ARRAY \<or> tk_size tok \<le> 0 then None
         else if int idx > tk_size tok - 1 then None
         else arr_walk ctx idx (cur ctx + 1))"

definition json_arr_get_val_tok :: "jparse_ctx \<Rightarrow> nat \<Rightarrow> jsmntype \<Rightarrow> nat option" where
  "json_arr_get_val_tok ctx idx ty =
     (case json_arr_search ctx idx of None \<Rightarrow> None
      | Some t \<Rightarrow> if length (tokens ctx) \<le> t \<or> tk_type (tokens ctx ! t) \<noteq> ty then None else Some t)"

definition json_arr_get_array :: "jparse_ctx \<Rightarrow> nat \<Rightarrow> jparse_ctx option" where
  "json_arr_get_array ctx idx =
     (case json_arr_get_val_tok ctx idx JSMN_ARRAY of None \<Rightarrow> None
      | Some t \<Rightarrow> Some (ctx\<lparr>cur := t\<rparr>))"

definition json_arr_leave_array :: "jparse_ctx \<Rightarrow> jparse_ctx option" where
  "json_arr_leave_array ctx = to_parent ctx"

definition json_arr_get_object :: "jparse_ctx \<Rightarrow> nat \<Rightarrow> jparse_ctx option" where
  "json_arr_get_object ctx idx =
     (case json_arr_get_val_tok ctx idx JSMN_OBJECT of None \<Rightarrow> None
      | Some t \<Rightarrow> Some (ctx\<lparr>cur := t\<rparr>))"

definition json_arr_leave_object :: "jparse_ctx \<Rightarrow> jparse_ctx option" where
  "json_arr_leave_object ctx = to_parent ctx"

definition json_arr_get_bool :: "jparse_ctx \<Rightarrow> nat \<Rightarrow> bool option" where
  "json_arr_get_bool ctx idx =
     (case json_arr_get_val_tok ctx idx JSMN_PRIMITIVE of None \<Rightarrow> None
      | Some t \<Rightarrow> json_tok_to_bool ctx (tokens ctx ! t))"

definition json_arr_get_int :: "jparse_ctx \<Rightarrow> nat \<Rightarrow> int option" where
  "json_arr_get_int ctx idx =
     (case json_arr_get_val_tok ctx idx JSMN_PRIMITIVE of None \<Rightarrow> None
      | Some t \<Rightarrow> json_tok_to_int ctx (tokens ctx ! t))"

definition json_arr_get_int64 :: "jparse_ctx \<Rightarrow> nat \<Rightarrow> int option" where
  "json_arr_get_int64 ctx idx =
     (case json_arr_get_val_tok ctx idx JSMN_PRIMITIVE of None \<Rightarrow> None
      | Some t \<Rightarrow> json_tok_to_int64 ctx (tokens ctx ! t))"

definition json_arr_get_float ::
  "(string \<Rightarrow> u32 \<times> nat) \<Rightarrow> jparse_ctx \<Rightarrow> nat \<Rightarrow> u32 option" where
  "json_arr_get_float strtof ctx idx =
     (case json_arr_get_val_tok ctx idx JSMN_PRIMITIVE of None \<Rightarrow> None
      | Some t \<Rightarrow> json_tok_to_float strtof ctx (tokens ctx ! t))"

definition json_arr_get_string :: "jparse_ctx \<Rightarrow> nat \<Rightarrow> int \<Rightarrow> string option" where
  "json_arr_get_string ctx idx sz =
     (case json_arr_get_val_tok ctx idx JSMN_STRING of None \<Rightarrow> None
      | Some t \<Rightarrow> json_tok_to_string ctx (tokens ctx ! t) sz)"

definition json_arr_get_strlen :: "jparse_ctx \<Rightarrow> nat \<Rightarrow> int option" where
  "json_arr_get_strlen ctx idx =
     (case json_arr_get_val_tok ctx idx JSMN_STRING of None \<Rightarrow> None
      | Some t \<Rightarrow> Some (tk_end (tokens ctx ! t) - tk_start (tokens ctx ! t)))"

text \<open>
  The tokenizer \<open>jsmn\<close> gives the number of tokens it returns without a token array and,
  with an array of that many, the tokens it filled in or an error (\<open>None\<close>). \<open>mem\<close> is
  whether the array could be allocated.
\<close>

definition json_parse_start ::
  "(string \<Rightarrow> int) \<Rightarrow> (string \<Rightarrow> nat \<Rightarrow> json_tok list option) \<Rightarrow> bool \<Rightarrow> string \<Rightarrow> jparse_ctx option"
  where
  "json_parse_start jsmn_count jsmn_fill mem t =
     (let n = jsmn_count t
      in if n \<le> 0 then None
         else if \<not> mem then None
         else case jsmn_fill t (nat n) of None \<Rightarrow> None
              | Some ts \<Rightarrow> Some \<lparr>js = t, tokens = ts, cur = 0\<rparr>)"


subsection \<open>The tokens of a document\<close>

text \<open>
  \<open>jdoc\<close> is a document with the positions of its texts; \<open>enc par i d\<close> is its token list
  when it starts at index \<open>i\<close> below the token \<open>par\<close>.
\<close>

datatype jdoc =
  DPrim int int | DStr int int
  | DObj int int "((int \<times> int) \<times> jdoc) list"
  | DArr int int "jdoc list"

definition mk_tok :: "jsmntype \<Rightarrow> int \<Rightarrow> int \<Rightarrow> nat \<Rightarrow> int \<Rightarrow> json_tok" where
  "mk_tok ty s e n par =
     \<lparr>tk_type = ty, tk_start = s, tk_end = e, tk_size = int n, tk_parent = par\<rparr>"

lemma mk_tok_simps [simp]:
  "tk_type (mk_tok ty s e n par) = ty" "tk_start (mk_tok ty s e n par) = s"
  "tk_end (mk_tok ty s e n par) = e" "tk_size (mk_tok ty s e n par) = int n"
  "tk_parent (mk_tok ty s e n par) = par"
  by (simp_all add: mk_tok_def)

fun enc :: "int \<Rightarrow> nat \<Rightarrow> jdoc \<Rightarrow> json_tok list"
and enc_members :: "nat \<Rightarrow> nat \<Rightarrow> ((int \<times> int) \<times> jdoc) list \<Rightarrow> json_tok list"
and enc_elems :: "nat \<Rightarrow> nat \<Rightarrow> jdoc list \<Rightarrow> json_tok list" where
  "enc par i (DPrim s e) = [mk_tok JSMN_PRIMITIVE s e 0 par]"
| "enc par i (DStr s e) = [mk_tok JSMN_STRING s e 0 par]"
| "enc par i (DObj s e ms) = mk_tok JSMN_OBJECT s e (length ms) par # enc_members i (i + 1) ms"
| "enc par i (DArr s e vs) = mk_tok JSMN_ARRAY s e (length vs) par # enc_elems i (i + 1) vs"
| "enc_members ob i [] = []"
| "enc_members ob i (((s, e), v) # ms) =
     mk_tok JSMN_STRING s e 1 (int ob) # enc (int i) (i + 1) v
     @ enc_members ob (i + 1 + length (enc (int i) (i + 1) v)) ms"
| "enc_elems ar i [] = []"
| "enc_elems ar i (v # vs) =
     enc (int ar) i v @ enc_elems ar (i + length (enc (int ar) i v)) vs"

lemma enc_nonempty [simp]: "enc par i d \<noteq> []"
  by (cases d) auto

lemma enc_pos: "0 < length (enc par i d)"
  by simp

lemma skip_members_step:
  assumes "ts = pre @ mk_tok JSMN_STRING s e 1 p # w @ rest" "w \<noteq> []"
    and val: "\<And>pre post f. length w \<le> f \<Longrightarrow>
      json_skip_elem f (pre @ w @ post) (length pre) = Some (length pre + length w - 1)"
    and "Suc (length w) \<le> f"
  shows "json_skip_elem f ts (length pre) = Some (length pre + length w)"
proof -
  obtain g where g: "f = Suc g" using assms by (cases f) auto
  have "json_skip_elem g ts (Suc (length pre)) = Some (length pre + length w)"
    using val [of g "pre @ [mk_tok JSMN_STRING s e 1 p]" rest] assms g by simp
  then show ?thesis using assms(1) g by simp
qed

lemma skip_enc_all:
  "length (enc par i d) \<le> f \<Longrightarrow>
     json_skip_elem f (pre @ enc par i d @ post) (length pre)
       = Some (length pre + length (enc par i d) - 1)"
  "length (enc_members ob i ms) \<le> f \<Longrightarrow> Suc c = length pre \<Longrightarrow>
     skip_loop f (pre @ enc_members ob i ms @ post) (length ms) c
       = Some (c + length (enc_members ob i ms))"
  "length (enc_elems ar i vs) \<le> f \<Longrightarrow> Suc c = length pre \<Longrightarrow>
     skip_loop f (pre @ enc_elems ar i vs @ post) (length vs) c
       = Some (c + length (enc_elems ar i vs))"
proof (induction par i d and ob i ms and ar i vs arbitrary: f pre post and f pre post c and f pre post c
    rule: enc_enc_members_enc_elems.induct)
  case (1 par i s e)
  then show ?case by (cases f) auto
next
  case (2 par i s e)
  then show ?case by (cases f) auto
next
  case (3 par i s e ms)
  then obtain g where g: "f = Suc g" by (cases f) auto
  show ?case
    using 3(1)[of g "length pre" "pre @ [mk_tok JSMN_OBJECT s e (length ms) par]" post] 3(2) g
    by simp
next
  case (4 par i s e vs)
  then obtain g where g: "f = Suc g" by (cases f) auto
  show ?case
    using 4(1)[of g "length pre" "pre @ [mk_tok JSMN_ARRAY s e (length vs) par]" post] 4(2) g
    by simp
next
  case (5 ob i)
  then show ?case by simp
next
  case (6 ob i s e v ms)
  let ?w = "enc (int i) (i + 1) v"
  let ?r = "enc_members ob (i + 1 + length ?w) ms"
  let ?ts = "pre @ enc_members ob i (((s, e), v) # ms) @ post"
  have "json_skip_elem f ?ts (length pre) = Some (length pre + length ?w)"
    by (rule skip_members_step [where w = ?w and rest = "?r @ post"]) (use 6 in auto)
  moreover have "skip_loop f ?ts (length ms) (length pre + length ?w)
      = Some (length pre + length ?w + length ?r)"
    using 6(3)[of f "length pre + length ?w" "pre @ mk_tok JSMN_STRING s e 1 (int ob) # ?w" post] 6(4)
    by simp
  ultimately show ?case using 6(5) by simp
next
  case (7 ar i)
  then show ?case by simp
next
  case (8 ar i v vs)
  let ?w = "enc (int ar) i v"
  let ?r = "enc_elems ar (i + length ?w) vs"
  let ?ts = "pre @ enc_elems ar i (v # vs) @ post"
  obtain m where m: "length ?w = Suc m" using enc_pos [of "int ar" i v] by (cases "length ?w") auto
  have "json_skip_elem f ?ts (length pre) = Some (length pre + length ?w - 1)"
    using 8(1)[of f pre "?r @ post"] 8(4) by simp
  moreover have "skip_loop f ?ts (length vs) (length pre + length ?w - 1)
      = Some (length pre + length ?w - 1 + length ?r)"
    using 8(3)[of f "length pre + length ?w - 1" "pre @ ?w" post] 8(4) m by simp
  ultimately show ?case using 8(5) m by simp
qed

lemma skip_enc:
  assumes "tokens ctx = pre @ enc par i d @ post" "k = length pre"
  shows "skip_elem ctx k = Some (k + length (enc par i d) - 1)"
  using assms skip_enc_all(1) [of par i d "length (tokens ctx) + 1" pre post]
  by (simp add: skip_elem_def del: json_skip_elem.simps)

subsection \<open>Lookup in an object\<close>

text \<open>The position of the first member with the key: members, their first index.\<close>

fun first_key :: "string \<Rightarrow> nat \<Rightarrow> string \<Rightarrow> ((int \<times> int) \<times> jdoc) list \<Rightarrow> (nat \<times> jdoc) option" where
  "first_key t i key [] = None"
| "first_key t i key (((s, e), v) # ms) =
     (if take (length key) (drop (nat s) t) = key \<and> int (length key) = e - s then Some (i, v)
      else first_key t (i + 1 + length (enc (int i) (i + 1) v)) key ms)"

lemma obj_search_members:
  assumes "tokens ctx = pre @ enc_members ob i ms @ post" "Suc c = length pre" "i = length pre"
  shows "obj_search_loop ctx (length ms) c key = map_option fst (first_key (js ctx) i key ms)"
  using assms
proof (induction ms arbitrary: pre i c)
  case Nil
  then show ?case by simp
next
  case (Cons m ms)
  obtain s e v where m: "m = ((s, e), v)" by (cases m) auto
  let ?w = "enc (int i) (i + 1) v"
  let ?k = "mk_tok JSMN_STRING s e 1 (int ob)"
  have ts: "tokens ctx = pre @ ?k # ?w @ enc_members ob (i + 1 + length ?w) ms @ post"
    using Cons.prems m by simp
  have key: "tokens ctx ! Suc c = ?k" using ts Cons.prems by simp
  have skip: "skip_elem ctx (Suc c) = Some (Suc c + length ?w)"
  proof -
    have "json_skip_elem (length (tokens ctx) + 1) (tokens ctx) (length pre) = Some (length pre + length ?w)"
      using ts by (intro skip_members_step [where w = ?w and rest = "enc_members ob (i + 1 + length ?w) ms @ post"])
        (use skip_enc_all(1) [of "int i" "i + 1" v] in auto)
    then show ?thesis using Cons.prems by (simp add: skip_elem_def del: json_skip_elem.simps)
  qed
  have "obj_search_loop ctx (length ms) (Suc c + length ?w) key
      = map_option fst (first_key (js ctx) (i + 1 + length ?w) key ms)"
    using Cons.IH [of "pre @ ?k # ?w" "i + 1 + length ?w" "Suc c + length ?w"] ts Cons.prems by simp
  moreover have "Suc c < length (tokens ctx)" "Suc c = i"
    using ts Cons.prems by simp_all
  ultimately show ?case
    using key skip m by (simp add: token_matches_str_def)
qed

text \<open>Where the found member is: its key token, then the tokens of its value.\<close>

lemma first_key_tokens:
  assumes "ts = pre @ enc_members ob i ms @ post" "i = length pre"
    "first_key t i key ms = Some (k, v)"
  shows "\<exists>pre' s e post'. ts = pre' @ mk_tok JSMN_STRING s e 1 (int ob) # enc (int k) (k + 1) v @ post'
     \<and> length pre' = k"
  using assms
proof (induction ms arbitrary: pre i)
  case Nil
  then show ?case by simp
next
  case (Cons m ms)
  obtain s e w where m: "m = ((s, e), w)" by (cases m) auto
  let ?w = "enc (int i) (i + 1) w"
  show ?case
  proof (cases "take (length key) (drop (nat s) t) = key \<and> int (length key) = e - s")
    case True
    then show ?thesis using Cons.prems m by auto
  next
    case False
    then show ?thesis
      using Cons.prems m
      by (intro Cons.IH [of "pre @ mk_tok JSMN_STRING s e 1 (int ob) # ?w" "i + 1 + length ?w"]) auto
  qed
qed

text \<open>A context whose current token is the object \<open>d\<close> of the document.\<close>

definition at_doc :: "jparse_ctx \<Rightarrow> jdoc \<Rightarrow> bool" where
  "at_doc ctx d \<longleftrightarrow> (\<exists>pre par post. tokens ctx = pre @ enc par (cur ctx) d @ post \<and> length pre = cur ctx)"

fun doc_type :: "jdoc \<Rightarrow> jsmntype" where
  "doc_type (DPrim s e) = JSMN_PRIMITIVE"
| "doc_type (DStr s e) = JSMN_STRING"
| "doc_type (DObj s e ms) = JSMN_OBJECT"
| "doc_type (DArr s e vs) = JSMN_ARRAY"

fun doc_span :: "jdoc \<Rightarrow> int \<times> int" where
  "doc_span (DPrim s e) = (s, e)"
| "doc_span (DStr s e) = (s, e)"
| "doc_span (DObj s e ms) = (s, e)"
| "doc_span (DArr s e vs) = (s, e)"

lemma enc_hd:
  "tk_type (enc par i d ! 0) = doc_type d" "tk_parent (enc par i d ! 0) = par"
  "(tk_start (enc par i d ! 0), tk_end (enc par i d ! 0)) = doc_span d"
  by (cases d; simp)+

lemma json_obj_search_doc:
  assumes "at_doc ctx (DObj s e ms)"
  shows "json_obj_search ctx key = map_option fst (first_key (js ctx) (cur ctx + 1) key ms)"
proof -
  obtain pre par post where ts: "tokens ctx = pre @ enc par (cur ctx) (DObj s e ms) @ post"
    "length pre = cur ctx"
    using assms by (auto simp: at_doc_def)
  then have tok: "tokens ctx ! cur ctx = mk_tok JSMN_OBJECT s e (length ms) par"
    by (metis append_Cons enc.simps(3) nth_append_length)
  let ?pre = "pre @ [mk_tok JSMN_OBJECT s e (length ms) par]"
  have "obj_search_loop ctx (length ms) (cur ctx) key
      = map_option fst (first_key (js ctx) (cur ctx + 1) key ms)"
    using ts by (intro obj_search_members [of ctx ?pre "cur ctx" "cur ctx + 1" ms post]) auto
  then show ?thesis
    using tok by (cases "ms = []") (simp_all add: json_obj_search_def del: obj_search_loop.simps)
qed

lemma json_obj_get_val_doc:
  assumes "at_doc ctx (DObj s e ms)"
  shows "json_obj_get_val_tok ctx key ty =
    (case first_key (js ctx) (cur ctx + 1) key ms of None \<Rightarrow> None
     | Some (k, v) \<Rightarrow> if doc_type v = ty then Some (k + 1) else None)"
    and "first_key (js ctx) (cur ctx + 1) key ms = Some (k, v) \<Longrightarrow>
      at_doc (ctx\<lparr>cur := k + 1\<rparr>) v \<and> tk_parent (tokens ctx ! (k + 1)) = int k
      \<and> tk_parent (tokens ctx ! k) = int (cur ctx)
      \<and> (tk_start (tokens ctx ! (k + 1)), tk_end (tokens ctx ! (k + 1))) = doc_span v
      \<and> tk_type (tokens ctx ! (k + 1)) = doc_type v \<and> k + 1 < length (tokens ctx)"
proof -
  obtain pre par post where ts: "tokens ctx = pre @ enc par (cur ctx) (DObj s e ms) @ post"
    "length pre = cur ctx"
    using assms by (auto simp: at_doc_def)
  let ?pre = "pre @ [mk_tok JSMN_OBJECT s e (length ms) par]"
  have at: "at_doc (ctx\<lparr>cur := k + 1\<rparr>) v \<and> tk_parent (tokens ctx ! (k + 1)) = int k
      \<and> tk_parent (tokens ctx ! k) = int (cur ctx)
      \<and> (tk_start (tokens ctx ! (k + 1)), tk_end (tokens ctx ! (k + 1))) = doc_span v
      \<and> tk_type (tokens ctx ! (k + 1)) = doc_type v \<and> k + 1 < length (tokens ctx)"
    if fk: "first_key (js ctx) (cur ctx + 1) key ms = Some (k, v)" for k v
  proof -
    obtain pre' s' e' post' where p: "tokens ctx
        = pre' @ mk_tok JSMN_STRING s' e' 1 (int (cur ctx)) # enc (int k) (k + 1) v @ post'"
      "length pre' = k"
      using first_key_tokens [of "tokens ctx" ?pre "cur ctx" "cur ctx + 1" ms post "js ctx" key k v]
        ts fk by auto
    let ?w = "enc (int k) (k + 1) v"
    have "tokens ctx ! (k + 1) = ?w ! 0"
      using p enc_pos [of "int k" "k + 1" v] by (simp add: nth_append)
    moreover have "at_doc (ctx\<lparr>cur := k + 1\<rparr>) v"
      unfolding at_doc_def
      using p by (intro exI [of _ "pre' @ [mk_tok JSMN_STRING s' e' 1 (int (cur ctx))]"]) auto
    moreover have "tokens ctx ! k = mk_tok JSMN_STRING s' e' 1 (int (cur ctx))"
      using p by (simp add: nth_append)
    moreover have "k + 1 < length (tokens ctx)"
      using p enc_pos [of "int k" "k + 1" v] by simp
    ultimately show ?thesis by (simp add: enc_hd)
  qed
  show "first_key (js ctx) (cur ctx + 1) key ms = Some (k, v) \<Longrightarrow>
      at_doc (ctx\<lparr>cur := k + 1\<rparr>) v \<and> tk_parent (tokens ctx ! (k + 1)) = int k
      \<and> tk_parent (tokens ctx ! k) = int (cur ctx)
      \<and> (tk_start (tokens ctx ! (k + 1)), tk_end (tokens ctx ! (k + 1))) = doc_span v
      \<and> tk_type (tokens ctx ! (k + 1)) = doc_type v \<and> k + 1 < length (tokens ctx)"
    by (rule at)
  show "json_obj_get_val_tok ctx key ty =
    (case first_key (js ctx) (cur ctx + 1) key ms of None \<Rightarrow> None
     | Some (k, v) \<Rightarrow> if doc_type v = ty then Some (k + 1) else None)"
    using assms at by (auto simp: json_obj_get_val_tok_def json_obj_search_doc Let_def split: option.splits)
qed

lemma enter_leave_doc:
  assumes "at_doc ctx (DObj s e ms)" "json_obj_get_object ctx key = Some ctx'"
  shows "json_obj_leave_object ctx' = Some ctx"
  using assms json_obj_get_val_doc(2) [OF assms(1), of key]
  by (auto simp: json_obj_get_object_def json_obj_get_val_doc(1) json_obj_leave_object_def
      to_parent_def Let_def split: option.splits prod.splits if_splits)

lemma enter_doc:
  assumes "at_doc ctx (DObj s e ms)" "json_obj_get_object ctx key = Some ctx'"
  shows "\<exists>s' e' ms'. at_doc ctx' (DObj s' e' ms')"
proof -
  obtain k v where "first_key (js ctx) (cur ctx + 1) key ms = Some (k, v)"
    "doc_type v = JSMN_OBJECT" "ctx' = ctx\<lparr>cur := k + 1\<rparr>"
    using assms by (auto simp: json_obj_get_object_def json_obj_get_val_doc(1)
      split: option.splits prod.splits if_splits)
  moreover obtain s' e' ms' where "v = DObj s' e' ms'"
    using \<open>doc_type v = JSMN_OBJECT\<close> by (cases v) auto
  ultimately show ?thesis
    using json_obj_get_val_doc(2) [OF assms(1)] by blast
qed

subsection \<open>Properties\<close>

text \<open>Lookup of a key. On the tokens of an object, \<open>json_obj_get_val_tok\<close> finds the value
  of the first member with the key, wherever the members before it end and however deeply they
  are nested, and answers \<open>NULL\<close> when there is none or its value has another type.\<close>
theorem json_lookup_first_member:
  assumes "at_doc ctx (DObj s e ms)"
  shows "json_obj_get_val_tok ctx key ty =
    (case first_key (js ctx) (cur ctx + 1) key ms of None \<Rightarrow> None
     | Some (k, v) \<Rightarrow> if doc_type v = ty then Some (k + 1) else None)"
  using assms by (rule json_obj_get_val_doc(1))

text \<open>Entering a member object makes it the current object of the context, and leaving it
  restores the context, so that the next lookup starts from the enclosing object again.\<close>
theorem json_enter_leave:
  assumes "at_doc ctx (DObj s e ms)" "json_obj_get_object ctx key = Some ctx'"
  shows "(\<exists>s' e' ms'. at_doc ctx' (DObj s' e' ms')) \<and> json_obj_leave_object ctx' = Some ctx"
  using enter_doc [OF assms] enter_leave_doc [OF assms] by blast

subsection \<open>An example document\<close>

definition ex_json :: string where
  "ex_json = ''{\"a\":{\"b\":1},\"c\":\"x\"}''"

definition ex_members :: "((int \<times> int) \<times> jdoc) list" where
  "ex_members = [((2, 3), DObj 5 12 [((7, 8), DPrim 10 11)]), ((14, 15), DStr 18 19)]"

definition ex_ctx :: jparse_ctx where
  "ex_ctx = \<lparr>js = ex_json, tokens = enc (- 1) 0 (DObj 0 21 ex_members), cur = 0\<rparr>"

lemma ex_ctx_at: "at_doc ex_ctx (DObj 0 21 ex_members)"
  by (auto simp: at_doc_def ex_ctx_def intro!: exI [of _ "[]"])

theorem json_lookup_first_member_witness:
  "json_obj_get_val_tok ex_ctx ''c'' JSMN_STRING = Some 6
   \<and> json_obj_get_string ex_ctx ''c'' 2 = Some ''x''"
proof -
  have "json_obj_get_val_tok ex_ctx ''c'' JSMN_STRING = Some 6"
    using json_lookup_first_member [OF ex_ctx_at, of "''c''" JSMN_STRING]
    by (simp add: ex_ctx_def ex_members_def ex_json_def)
  then show ?thesis
    by (simp add: json_obj_get_string_def json_tok_to_string_def substr_def ex_ctx_def
        ex_members_def ex_json_def)
qed

theorem json_enter_leave_witness:
  "\<exists>c. json_obj_get_object ex_ctx ''a'' = Some c \<and> json_obj_get_int c ''b'' = Some 1
     \<and> json_obj_leave_object c = Some ex_ctx"
proof -
  have g: "json_obj_get_object ex_ctx ''a'' = Some (ex_ctx\<lparr>cur := 2\<rparr>)"
    by (simp add: json_obj_get_object_def json_obj_get_val_tok_def json_obj_search_def ex_ctx_def
        ex_members_def ex_json_def token_matches_str_def numeral_2_eq_2)
  have "json_obj_get_int (ex_ctx\<lparr>cur := 2\<rparr>) ''b'' = Some 1"
    by (simp add: json_obj_get_int_def json_obj_get_val_tok_def json_obj_search_def ex_ctx_def
        ex_members_def ex_json_def token_matches_str_def json_tok_to_int_def strtoul_def
        is_space_def is_digit_def digits_val_def)
  then show ?thesis
    using json_enter_leave [OF ex_ctx_at g] g by blast
qed

end
