(* ===== verification/Rm_Param.thy ===== *)
theory Rm_Param
  imports Rm_State Json_Parser
begin

text \<open>
  Parameters: \<open>esp_rmaker_param.c\<close>, and the two value printers of
  \<open>esp_rmaker_node_config.c\<close> it uses. An operation takes the C arguments and the state and
  returns the C result and the new state. What the C code reaches through a function
  pointer is an argument: the write callback of a device (\<open>invoke\<close>) and
  \<open>app_wifi_init_end\<close>, the application's hook in the report of the node state.
\<close>

definition ESP_RMAKER_PARAM_NAME :: string where
  "ESP_RMAKER_PARAM_NAME = ''esp.param.name''"

definition RMAKER_PARAM_FLAG_VALUE_CHANGE :: u8 where
  "RMAKER_PARAM_FLAG_VALUE_CHANGE = 1"

definition RMAKER_PARAM_FLAG_VALUE_NOTIFY :: u8 where
  "RMAKER_PARAM_FLAG_VALUE_NOTIFY = 2"

definition RMAKER_PARAMS_SIZE_MARGIN :: nat where
  "RMAKER_PARAMS_SIZE_MARGIN = 50"

definition prop_bit :: "nat \<Rightarrow> u8 \<Rightarrow> bool" where
  "prop_bit n f = bit f n"

abbreviation (input) PROP_FLAG_PERSIST :: nat where "PROP_FLAG_PERSIST \<equiv> 3"

definition esp_rmaker_device_cb_src_to_str :: "req_src \<Rightarrow> string" where
  "esp_rmaker_device_cb_src_to_str src =
     (case src of ESP_RMAKER_REQ_SRC_INIT \<Rightarrow> ''Init'' | ESP_RMAKER_REQ_SRC_CLOUD \<Rightarrow> ''Cloud''
      | ESP_RMAKER_REQ_SRC_SCHEDULE \<Rightarrow> ''Schedule'' | ESP_RMAKER_REQ_SRC_LOCAL \<Rightarrow> ''Local'')"

definition esp_rmaker_bool :: "bool \<Rightarrow> param_val" where "esp_rmaker_bool v = VBool v"
definition esp_rmaker_int :: "int \<Rightarrow> param_val" where "esp_rmaker_int v = VInt v"
definition esp_rmaker_float :: "u32 \<Rightarrow> param_val" where "esp_rmaker_float v = VFloat v"
definition esp_rmaker_str :: "string option \<Rightarrow> param_val" where "esp_rmaker_str v = VStr v"
definition esp_rmaker_obj :: "string option \<Rightarrow> param_val" where "esp_rmaker_obj v = VObj v"
definition esp_rmaker_array :: "string option \<Rightarrow> param_val" where "esp_rmaker_array v = VArr v"

subsection \<open>Printing values\<close>

definition esp_rmaker_report_value ::
  "param_val option \<Rightarrow> string \<Rightarrow> json_gen_str \<Rightarrow> json_gen_str" where
  "esp_rmaker_report_value v key j =
     (case v of None \<Rightarrow> snd (json_gen_obj_set_null key j)
      | Some v \<Rightarrow>
         (case v of VBool b \<Rightarrow> snd (json_gen_obj_set_bool key b j)
          | VInt i \<Rightarrow> snd (json_gen_obj_set_int key i j)
          | VFloat f \<Rightarrow> snd (json_gen_obj_set_float key f j)
          | VStr t \<Rightarrow> snd (json_gen_obj_set_string key t j)
          | VObj t \<Rightarrow> snd (json_gen_push_object_str key t j)
          | VArr t \<Rightarrow> snd (json_gen_push_array_str key t j)
          | VInvalid \<Rightarrow> j))"

fun data_type_name :: "rm_val_type \<Rightarrow> string" where
  "data_type_name RMAKER_VAL_TYPE_BOOLEAN = ''bool''"
| "data_type_name RMAKER_VAL_TYPE_INTEGER = ''int''"
| "data_type_name RMAKER_VAL_TYPE_FLOAT = ''float''"
| "data_type_name RMAKER_VAL_TYPE_STRING = ''string''"
| "data_type_name RMAKER_VAL_TYPE_OBJECT = ''object''"
| "data_type_name RMAKER_VAL_TYPE_ARRAY = ''array''"
| "data_type_name RMAKER_VAL_TYPE_INVALID = ''invalid''"

definition esp_rmaker_report_data_type :: "rm_val_type \<Rightarrow> json_gen_str \<Rightarrow> json_gen_str" where
  "esp_rmaker_report_data_type t j =
     snd (json_gen_obj_set_string ''data_type'' (Some (data_type_name t)) j)"

subsection \<open>The document of all parameters\<close>

text \<open>The inner loop of \<open>esp_rmaker_populate_params\<close>; the flag is \<open>device_added\<close>.\<close>

fun populate_device :: "u8 \<Rightarrow> string \<Rightarrow> rm_param list \<Rightarrow> bool \<Rightarrow> json_gen_str \<Rightarrow> bool \<times> json_gen_str"
where
  "populate_device flags dname [] added j = (added, j)"
| "populate_device flags dname (p # ps) added j =
     (if flags = 0 \<or> and (p_flags p) flags \<noteq> 0 then
        let j = (if added then j else snd (json_gen_push_object dname j));
            j = esp_rmaker_report_value (Some (p_val p)) (p_name p) j
        in populate_device flags dname ps True j
      else populate_device flags dname ps added j)"

fun populate_devices :: "u8 \<Rightarrow> 'a rm_scheme \<Rightarrow> nat list \<Rightarrow> json_gen_str \<Rightarrow> json_gen_str" where
  "populate_devices flags s [] j = j"
| "populate_devices flags s (d # ds) j =
     (let dev = dheap s d;
          (added, j) = populate_device flags (d_name dev) (map (pheap s) (d_params dev)) False j;
          j = (if added then snd (json_gen_pop_object j) else j)
      in populate_devices flags s ds j)"

definition clear_flags :: "u8 \<Rightarrow> nat list \<Rightarrow> 'a rm_scheme \<Rightarrow> 'a rm_scheme" where
  "clear_flags flags ps s =
     fold (\<lambda>p. upd_param p (\<lambda>r. r\<lparr>p_flags := and (p_flags r) (not flags)\<rparr>)) ps s"

definition node_devices :: "'a rm_scheme \<Rightarrow> nat list" where
  "node_devices s = esp_rmaker_node_get_first_device (esp_rmaker_get_node s) s"

definition node_params :: "'a rm_scheme \<Rightarrow> nat list" where
  "node_params s = concat (map (\<lambda>d. d_params (dheap s d)) (node_devices s))"

text \<open>
  The buffer is given by its length, \<open>None\<close> for \<open>NULL\<close> (with length 0). The result is the
  error, the new \<open>*buf_len\<close>, the buffer's text and the state.
\<close>

definition esp_rmaker_populate_params ::
  "nat option \<Rightarrow> u8 \<Rightarrow> bool \<Rightarrow> 'a rm_scheme \<Rightarrow> esp_err \<times> nat \<times> string option \<times> 'a rm_scheme" where
  "esp_rmaker_populate_params buf flags reset_flags s =
     (let j = json_gen_str_start (buf \<noteq> None) (case buf of None \<Rightarrow> 0 | Some n \<Rightarrow> int n) False;
          j = snd (json_gen_start_object j);
          j = populate_devices flags s (node_devices s) j;
          (r, j) = json_gen_end_object j;
          err = (if r < 0 then ESP_ERR_NO_MEM else ESP_OK);
          s = (if err = ESP_OK \<and> reset_flags then clear_flags flags (node_params s) s else s);
          (len, txt, _) = json_gen_str_end j
      in (err, nat len, txt, s))"

definition esp_rmaker_get_node_params :: "'a rm_scheme \<Rightarrow> string option \<times> 'a rm_scheme" where
  "esp_rmaker_get_node_params s =
     (let (err, req_size, _, s) = esp_rmaker_populate_params None 0 False s
      in if err \<noteq> ESP_OK then (None, s)
         else let req_size = req_size + RMAKER_PARAMS_SIZE_MARGIN;
                  (ok, s) = alloc s
              in if \<not> ok then (None, s)
                 else let (err, _, txt, s) = esp_rmaker_populate_params (Some req_size) 0 False s
                      in if err \<noteq> ESP_OK then (None, s) else (txt, s))"

definition esp_rmaker_allocate_and_populate_params ::
  "u8 \<Rightarrow> bool \<Rightarrow> 'a rm_scheme \<Rightarrow> esp_err \<times> 'a rm_scheme" where
  "esp_rmaker_allocate_and_populate_params flags reset_flags s =
     (let (ok, s) = (if node_params_buf s = None
            then let (ok, s) = alloc s
                 in (ok, if ok then s\<lparr>node_params_buf := Some []\<rparr> else s)
            else (True, s))
      in if \<not> ok then (ESP_ERR_NO_MEM, s)
         else let (err, req_size, txt, s) =
                    esp_rmaker_populate_params (Some (max_node_params_size s)) flags reset_flags s;
                  s = s\<lparr>node_params_buf := txt\<rparr>
              in if err \<noteq> ESP_ERR_NO_MEM then (err, s)
                 else let s = s\<lparr>max_node_params_size := req_size + RMAKER_PARAMS_SIZE_MARGIN\<rparr>;
                          (ok, s) = alloc s
                      in if \<not> ok then (ESP_ERR_NO_MEM, s\<lparr>node_params_buf := None\<rparr>)
                         else let (err, _, txt, s) = esp_rmaker_populate_params
                                    (Some (max_node_params_size s)) flags reset_flags s
                              in (err, s\<lparr>node_params_buf := txt\<rparr>))"

definition buf_text :: "'a rm_scheme \<Rightarrow> string" where
  "buf_text s = str_opt (node_params_buf s)"

text \<open>Publish the buffer under \<open>publish_topic\<close>, or log that MQTT is not up.\<close>

definition publish_params :: "'a rm_scheme \<Rightarrow> 'a rm_scheme" where
  "publish_params s =
     (if params_mqtt_init_done s
      then snd (esp_rmaker_mqtt_publish (publish_topic s) (buf_text s) s) else s)"

definition esp_rmaker_report_param_internal :: "u8 \<Rightarrow> 'a rm_scheme \<Rightarrow> esp_err \<times> 'a rm_scheme" where
  "esp_rmaker_report_param_internal flags s =
     (let (err, s) = esp_rmaker_allocate_and_populate_params flags True s
      in if err \<noteq> ESP_OK then (err, s)
         else if 10 < length (buf_text s) then
           if flags = RMAKER_PARAM_FLAG_VALUE_CHANGE then
             (ESP_OK, publish_params (s\<lparr>publish_topic := node_topic 64 ''params/local'' s\<rparr>))
           else if flags = RMAKER_PARAM_FLAG_VALUE_NOTIFY then
             (ESP_OK, publish_params (s\<lparr>publish_topic := node_topic 64 ''alert'' s\<rparr>))
           else (ESP_FAIL, s)
         else (ESP_OK, s))"

definition esp_rmaker_report_node_state ::
  "('a rm_scheme \<Rightarrow> 'a rm_scheme) \<Rightarrow> 'a rm_scheme \<Rightarrow> esp_err \<times> 'a rm_scheme" where
  "esp_rmaker_report_node_state app_wifi_init_end s =
     (let (err, s) = esp_rmaker_allocate_and_populate_params 0 False s
      in if err \<noteq> ESP_OK then (err, s)
         else if 10 < length (buf_text s) then
           (ESP_OK, publish_params (app_wifi_init_end
              (s\<lparr>publish_topic := node_topic 64 ''params/local/init'' s\<rparr>)))
         else (ESP_OK, s))"

subsection \<open>Stored values\<close>

definition val_payload :: "param_val \<Rightarrow> int \<times> int" where
  \<comment> \<open>the type tag and the union of a scalar value, the bytes of the stored struct\<close>
  "val_payload v = (case v of VBool b \<Rightarrow> (1, if b then 1 else 0) | VInt i \<Rightarrow> (2, i)
      | VFloat f \<Rightarrow> (3, uint f) | _ \<Rightarrow> (0, 0))"

definition esp_rmaker_param_get_stored_value ::
  "nat option \<Rightarrow> param_val \<Rightarrow> 'a rm_scheme \<Rightarrow> esp_err \<times> param_val \<times> 'a rm_scheme" where
  \<comment> \<open>the value passed in is what \<open>*val\<close> holds before\<close>
  "esp_rmaker_param_get_stored_value param val s =
     (case param of None \<Rightarrow> (ESP_FAIL, val, s)
      | Some p \<Rightarrow>
        (case p_parent (pheap s p) of None \<Rightarrow> (ESP_FAIL, val, s)
         | Some d \<Rightarrow>
           let (err, s) = call (Net (NvsOpen (d_name (dheap s d)))) s
           in if err \<noteq> ESP_OK then (err, val, s)
              else if is_str_type (val_type (p_val (pheap s p))) then
                let str_val = (\<lambda>t s. let (ok, s) = alloc s
                      in if ok then (ESP_OK, with_str (p_val (pheap s p)) (Some t), s)
                         else (ESP_ERR_NO_MEM, val, s));
                    (a, s) = nvs_read s;
                    (err, v, s) =
                      (case a of NvsStr t \<Rightarrow> str_val t s
                       | NvsVal _ \<Rightarrow> (ESP_FAIL, val, s)
                       | NvsErr e \<Rightarrow>
                           let (a, s) = nvs_read s
                           in case a of NvsStr t \<Rightarrow> str_val t s | NvsErr e \<Rightarrow> (e, val, s)
                              | NvsVal _ \<Rightarrow> (ESP_FAIL, val, s))
                in (err, v, emit (Net NvsClose) s)
              else
                let (a, s) = nvs_read s;
                    (err, v) = (case a of NvsVal v \<Rightarrow> (ESP_OK, v) | NvsErr e \<Rightarrow> (e, val)
                      | NvsStr _ \<Rightarrow> (ESP_FAIL, val))
                in (err, v, emit (Net NvsClose) s)))"

definition esp_rmaker_param_store_value :: "nat option \<Rightarrow> 'a rm_scheme \<Rightarrow> esp_err \<times> 'a rm_scheme" where
  "esp_rmaker_param_store_value param s =
     (case param of None \<Rightarrow> (ESP_FAIL, s)
      | Some p \<Rightarrow>
        (case p_parent (pheap s p) of None \<Rightarrow> (ESP_FAIL, s)
         | Some d \<Rightarrow>
           let (err, s) = call (Net (NvsOpen (d_name (dheap s d)))) s
           in if err \<noteq> ESP_OK then (err, s)
              else
                let v = p_val (pheap s p);
                    (err, s) =
                      (if is_str_type (val_type v) then
                         (case val_str v of
                            Some t \<Rightarrow> let (err, s) = call (Net (NvsSetBlob (p_name (pheap s p)) t)) s
                                      in (err, emit (Net NvsCommit) s)
                          | None \<Rightarrow> (ESP_OK, s))
                       else
                         let (tag, pl) = val_payload v;
                             (err, s) = call (Net (NvsSetVal (p_name (pheap s p)) tag pl)) s
                         in (err, emit (Net NvsCommit) s))
                in (err, emit (Net NvsClose) s)))"

subsection \<open>Life cycle\<close>

definition esp_rmaker_param_get_val :: "nat option \<Rightarrow> 'a rm_scheme \<Rightarrow> param_val option" where
  "esp_rmaker_param_get_val param s = map_option (\<lambda>p. p_val (pheap s p)) param"

text \<open>A freed structure is blank in the model.\<close>

definition esp_rmaker_param_delete :: "nat option \<Rightarrow> 'a rm_scheme \<Rightarrow> esp_err \<times> 'a rm_scheme" where
  "esp_rmaker_param_delete param s =
     (case param of None \<Rightarrow> (ESP_ERR_INVALID_ARG, s)
      | Some p \<Rightarrow> (ESP_OK, upd_param p (\<lambda>_. param0) s))"

text \<open>Allocation of a blank parameter: the reference, if the memory is there.\<close>

definition new_param :: "'a rm_scheme \<Rightarrow> nat option \<times> 'a rm_scheme" where
  "new_param s =
     (let (ok, s) = alloc s
      in if ok then (Some (next_ref s),
           upd_param (next_ref s) (\<lambda>_. param0) (s\<lparr>next_ref := next_ref s + 1\<rparr>))
         else (None, s))"

definition esp_rmaker_param_create ::
  "string option \<Rightarrow> string option \<Rightarrow> param_val \<Rightarrow> u8 \<Rightarrow> 'a rm_scheme \<Rightarrow> nat option \<times> 'a rm_scheme"
  where
  "esp_rmaker_param_create param_name type val properties s =
     (case param_name of None \<Rightarrow> (None, s)
      | Some name \<Rightarrow>
        let (r, s) = new_param s
        in case r of None \<Rightarrow> (None, s)
           | Some p \<Rightarrow>
             let (ok, s) = alloc s
             in if \<not> ok then (None, snd (esp_rmaker_param_delete (Some p) s))
                else
                  let s = upd_param p (\<lambda>r. r\<lparr>p_name := name\<rparr>) s;
                      (ok, s) = (case type of None \<Rightarrow> (True, s)
                        | Some t \<Rightarrow> let (ok, s) = alloc s
                            in (ok, if ok then upd_param p (\<lambda>r. r\<lparr>p_type := Some t\<rparr>) s else s))
                  in if \<not> ok then (None, snd (esp_rmaker_param_delete (Some p) s))
                     else
                       let (v, s) = (if is_str_type (val_type val) then
                               (case val_str val of None \<Rightarrow> (with_str val None, s)
                                | Some t \<Rightarrow> let (ok, s) = alloc s
                                    in (with_str val (if ok then Some t else None), s))
                             else (val, s))
                       in (Some p, upd_param p (\<lambda>r. r\<lparr>p_val := v, prop_flags := properties\<rparr>) s))"

definition esp_rmaker_param_add_bounds ::
  "nat option \<Rightarrow> param_val \<Rightarrow> param_val \<Rightarrow> param_val \<Rightarrow> 'a rm_scheme \<Rightarrow> esp_err \<times> 'a rm_scheme" where
  "esp_rmaker_param_add_bounds param mn mx step s =
     (case param of None \<Rightarrow> (ESP_ERR_INVALID_ARG, s)
      | Some p \<Rightarrow>
        let ty = val_type (p_val (pheap s p))
        in if ty \<noteq> RMAKER_VAL_TYPE_INTEGER \<and> ty \<noteq> RMAKER_VAL_TYPE_FLOAT then (ESP_ERR_INVALID_ARG, s)
           else if val_type mn \<noteq> ty \<or> val_type mx \<noteq> ty \<or> val_type step \<noteq> ty
           then (ESP_ERR_INVALID_ARG, s)
           else let (ok, s) = alloc s
                in if \<not> ok then (ESP_ERR_NO_MEM, s)
                   else (ESP_OK, upd_param p (\<lambda>r. r\<lparr>p_bounds := Some (mn, mx, step)\<rparr>) s))"

definition esp_rmaker_param_add_valid_str_list ::
  "nat option \<Rightarrow> string list \<Rightarrow> 'a rm_scheme \<Rightarrow> esp_err \<times> 'a rm_scheme" where
  \<comment> \<open>the first \<open>count\<close> entries of \<open>strs\<close>\<close>
  "esp_rmaker_param_add_valid_str_list param strs s =
     (case param of None \<Rightarrow> (ESP_ERR_INVALID_ARG, s)
      | Some p \<Rightarrow>
        if val_type (p_val (pheap s p)) \<noteq> RMAKER_VAL_TYPE_STRING then (ESP_ERR_INVALID_ARG, s)
        else let (ok, s) = alloc s
             in if \<not> ok then (ESP_ERR_NO_MEM, s)
                else (ESP_OK, upd_param p (\<lambda>r. r\<lparr>p_strs := Some strs\<rparr>) s))"

definition esp_rmaker_param_add_array_max_count ::
  "nat option \<Rightarrow> int \<Rightarrow> 'a rm_scheme \<Rightarrow> esp_err \<times> 'a rm_scheme" where
  "esp_rmaker_param_add_array_max_count param count s =
     (case param of None \<Rightarrow> (ESP_ERR_INVALID_ARG, s)
      | Some p \<Rightarrow>
        if val_type (p_val (pheap s p)) \<noteq> RMAKER_VAL_TYPE_ARRAY then (ESP_ERR_INVALID_ARG, s)
        else let (ok, s) = alloc s
             in if \<not> ok then (ESP_ERR_NO_MEM, s)
                else (ESP_OK, upd_param p
                  (\<lambda>r. r\<lparr>p_bounds := Some (VInvalid, esp_rmaker_int count, VInvalid)\<rparr>) s))"

definition esp_rmaker_param_add_ui_type ::
  "nat option \<Rightarrow> string option \<Rightarrow> 'a rm_scheme \<Rightarrow> esp_err \<times> 'a rm_scheme" where
  "esp_rmaker_param_add_ui_type param ui_type s =
     (case (param, ui_type) of
        (Some p, Some t) \<Rightarrow>
          let (ok, s) = alloc s
          in if ok then (ESP_OK, upd_param p (\<lambda>r. r\<lparr>p_ui_type := Some t\<rparr>) s)
             else (ESP_ERR_NO_MEM, upd_param p (\<lambda>r. r\<lparr>p_ui_type := None\<rparr>) s)
      | _ \<Rightarrow> (ESP_ERR_INVALID_ARG, s))"

subsection \<open>Update and report\<close>

definition esp_rmaker_param_update ::
  "nat option \<Rightarrow> param_val \<Rightarrow> 'a rm_scheme \<Rightarrow> esp_err \<times> 'a rm_scheme" where
  "esp_rmaker_param_update param val s =
     (case param of None \<Rightarrow> (ESP_ERR_INVALID_ARG, s)
      | Some p \<Rightarrow>
        let old = p_val (pheap s p)
        in if val_type old \<noteq> val_type val then (ESP_ERR_INVALID_ARG, s)
           else
             let (ok, v, s) =
                   (if is_str_type (val_type old) then
                      (case val_str val of None \<Rightarrow> (True, with_str old None, s)
                       | Some t \<Rightarrow> let (ok, s) = alloc s in (ok, with_str old (Some t), s))
                    else (True, val, s))
             in if \<not> ok then (ESP_FAIL, s)
                else if val_type old = RMAKER_VAL_TYPE_INVALID then (ESP_ERR_INVALID_ARG, s)
                else
                  let s = upd_param p (\<lambda>r. r\<lparr>p_val := v\<rparr>) s
                  in (ESP_OK, if prop_bit PROP_FLAG_PERSIST (prop_flags (pheap s p))
                        then snd (esp_rmaker_param_store_value (Some p) s) else s))"

definition esp_rmaker_param_report :: "nat option \<Rightarrow> 'a rm_scheme \<Rightarrow> esp_err \<times> 'a rm_scheme" where
  "esp_rmaker_param_report param s =
     (case param of None \<Rightarrow> (ESP_ERR_INVALID_ARG, s)
      | Some p \<Rightarrow> esp_rmaker_report_param_internal RMAKER_PARAM_FLAG_VALUE_CHANGE
          (upd_param p (\<lambda>r. r\<lparr>p_flags := or (p_flags r) RMAKER_PARAM_FLAG_VALUE_CHANGE\<rparr>) s))"

definition esp_rmaker_param_notify :: "nat option \<Rightarrow> 'a rm_scheme \<Rightarrow> esp_err \<times> 'a rm_scheme" where
  "esp_rmaker_param_notify param s =
     (case param of None \<Rightarrow> (ESP_ERR_INVALID_ARG, s)
      | Some p \<Rightarrow>
        let s = upd_param p (\<lambda>r. r\<lparr>p_flags := or (p_flags r)
                  (or RMAKER_PARAM_FLAG_VALUE_CHANGE RMAKER_PARAM_FLAG_VALUE_NOTIFY)\<rparr>) s;
            (_, s) = esp_rmaker_report_param_internal RMAKER_PARAM_FLAG_VALUE_NOTIFY s
        in esp_rmaker_report_param_internal RMAKER_PARAM_FLAG_VALUE_CHANGE s)"

definition esp_rmaker_param_update_and_report ::
  "nat option \<Rightarrow> param_val \<Rightarrow> 'a rm_scheme \<Rightarrow> esp_err \<times> 'a rm_scheme" where
  "esp_rmaker_param_update_and_report param val s =
     (let (err, s) = esp_rmaker_param_update param val s
      in if err = ESP_OK \<and> esp_rmaker_get_state s = ESP_RMAKER_STATE_STARTED
         then esp_rmaker_param_report param s else (err, s))"

definition esp_rmaker_param_update_and_notify ::
  "nat option \<Rightarrow> param_val \<Rightarrow> 'a rm_scheme \<Rightarrow> esp_err \<times> 'a rm_scheme" where
  "esp_rmaker_param_update_and_notify param val s =
     (let (err, s) = esp_rmaker_param_update param val s
      in if err = ESP_OK \<and> esp_rmaker_get_state s = ESP_RMAKER_STATE_STARTED
         then esp_rmaker_param_notify param s else (err, s))"

definition esp_rmaker_param_get_name :: "nat option \<Rightarrow> 'a rm_scheme \<Rightarrow> string option" where
  "esp_rmaker_param_get_name param s = map_option (\<lambda>p. p_name (pheap s p)) param"

definition esp_rmaker_param_get_type :: "nat option \<Rightarrow> 'a rm_scheme \<Rightarrow> string option" where
  "esp_rmaker_param_get_type param s =
     (case param of None \<Rightarrow> None | Some p \<Rightarrow> p_type (pheap s p))"

definition esp_rmaker_raise_alert :: "string \<Rightarrow> 'a rm_scheme \<Rightarrow> esp_err \<times> 'a rm_scheme" where
  "esp_rmaker_raise_alert alert_str s =
     (let msg = strlcpy alert_str 101;
          buf = snprintf 125 (''{'' @ quoted ''esp.alert.str'' @ '':'' @ quoted msg @ ''}'');
          s = s\<lparr>publish_topic := node_topic 64 ''alert'' s\<rparr>
      in esp_rmaker_mqtt_publish (publish_topic s) buf s)"

subsection \<open>Writes from the cloud\<close>

text \<open>
  What \<open>esp_rmaker_device_set_params\<close> reads for one parameter: \<open>None\<close> when a string could
  not be allocated, \<open>Some None\<close> when the object has no value of the parameter's type.
\<close>

definition read_new_val ::
  "(string \<Rightarrow> u32 \<times> nat) \<Rightarrow> jparse_ctx \<Rightarrow> rm_param \<Rightarrow> 'a rm_scheme
     \<Rightarrow> param_val option option \<times> 'a rm_scheme" where
  "read_new_val strtof jptr param s =
     (let name = p_name param;
          text_val = (\<lambda>len get. case len of None \<Rightarrow> (Some None, s)
            | Some n \<Rightarrow> let (ok, s) = alloc s
                in if \<not> ok then (None, s)
                   else (Some (Some (with_str (p_val param)
                     (Some (str_opt (get jptr name (n + 1)))))), s))
      in case val_type (p_val param) of
           RMAKER_VAL_TYPE_BOOLEAN \<Rightarrow> (Some (map_option VBool (json_obj_get_bool jptr name)), s)
         | RMAKER_VAL_TYPE_INTEGER \<Rightarrow> (Some (map_option VInt (json_obj_get_int jptr name)), s)
         | RMAKER_VAL_TYPE_FLOAT \<Rightarrow>
             (Some (map_option VFloat (json_obj_get_float strtof jptr name)), s)
         | RMAKER_VAL_TYPE_STRING \<Rightarrow> text_val (json_obj_get_strlen jptr name) json_obj_get_string
         | RMAKER_VAL_TYPE_OBJECT \<Rightarrow>
             text_val (json_obj_get_object_strlen jptr name) json_obj_get_object_str
         | RMAKER_VAL_TYPE_ARRAY \<Rightarrow>
             text_val (json_obj_get_array_strlen jptr name) json_obj_get_array_str
         | RMAKER_VAL_TYPE_INVALID \<Rightarrow> (Some None, s))"

type_synonym 's write_fn = "string \<Rightarrow> nat \<Rightarrow> nat \<Rightarrow> param_val \<Rightarrow> req_src \<Rightarrow> 's \<Rightarrow> esp_err \<times> 's"

text \<open>
  \<open>invoke cb device param val src\<close> runs the write callback named \<open>cb\<close>. The callbacks of the
  repository add no parameter to the device, so the chain walked is the one at the start.
\<close>

fun esp_rmaker_device_set_params ::
  "(string \<Rightarrow> u32 \<times> nat) \<Rightarrow> ('a rm_scheme) write_fn \<Rightarrow> nat \<Rightarrow> nat list \<Rightarrow> jparse_ctx \<Rightarrow> req_src
     \<Rightarrow> 'a rm_scheme \<Rightarrow> esp_err \<times> 'a rm_scheme" where
  "esp_rmaker_device_set_params strtof invoke d [] jptr src s = (ESP_OK, s)"
| "esp_rmaker_device_set_params strtof invoke d (p # ps) jptr src s =
     (let (r, s) = read_new_val strtof jptr (pheap s p) s
      in case r of None \<Rightarrow> (ESP_ERR_NO_MEM, s)
         | Some None \<Rightarrow> esp_rmaker_device_set_params strtof invoke d ps jptr src s
         | Some (Some v) \<Rightarrow>
             let s = (if p_type (pheap s p) = Some ESP_RMAKER_PARAM_NAME
                      then snd (esp_rmaker_param_update_and_report (Some p) v s)
                      else case write_cb (dheap s d) of None \<Rightarrow> s
                           | Some cb \<Rightarrow> snd (invoke cb d p v src s))
             in esp_rmaker_device_set_params strtof invoke d ps jptr src s)"

fun set_params_devices ::
  "(string \<Rightarrow> u32 \<times> nat) \<Rightarrow> ('a rm_scheme) write_fn \<Rightarrow> nat list \<Rightarrow> jparse_ctx \<Rightarrow> req_src
     \<Rightarrow> 'a rm_scheme \<Rightarrow> 'a rm_scheme" where
  "set_params_devices strtof invoke [] jctx src s = s"
| "set_params_devices strtof invoke (d # ds) jctx src s =
     (case json_obj_get_object jctx (d_name (dheap s d)) of
        None \<Rightarrow> set_params_devices strtof invoke ds jctx src s
      | Some jptr \<Rightarrow>
          let (_, s) = esp_rmaker_device_set_params strtof invoke d (d_params (dheap s d)) jptr src s;
              jctx = (case json_obj_leave_object jptr of None \<Rightarrow> jptr | Some j \<Rightarrow> j)
          in set_params_devices strtof invoke ds jctx src s)"

text \<open>The parsed request is \<open>json_parse_start\<close>'s result.\<close>

definition esp_rmaker_handle_set_params ::
  "(string \<Rightarrow> u32 \<times> nat) \<Rightarrow> ('a rm_scheme) write_fn \<Rightarrow> jparse_ctx option \<Rightarrow> req_src
     \<Rightarrow> 'a rm_scheme \<Rightarrow> esp_err \<times> 'a rm_scheme" where
  "esp_rmaker_handle_set_params strtof invoke parsed src s =
     (case parsed of None \<Rightarrow> (ESP_FAIL, s)
      | Some jctx \<Rightarrow> (ESP_OK, set_params_devices strtof invoke (node_devices s) jctx src s))"

definition esp_rmaker_set_params_callback ::
  "(string \<Rightarrow> u32 \<times> nat) \<Rightarrow> ('a rm_scheme) write_fn \<Rightarrow> jparse_ctx option \<Rightarrow> 'a rm_scheme \<Rightarrow> 'a rm_scheme"
  where
  "esp_rmaker_set_params_callback strtof invoke parsed s =
     snd (esp_rmaker_handle_set_params strtof invoke parsed ESP_RMAKER_REQ_SRC_CLOUD s)"

definition esp_rmaker_register_for_set_params :: "'a rm_scheme \<Rightarrow> esp_err \<times> 'a rm_scheme" where
  "esp_rmaker_register_for_set_params s =
     (let (err, s) = esp_rmaker_mqtt_subscribe (node_topic 100 ''params/remote'' s) s
      in (if err \<noteq> ESP_OK then ESP_FAIL else ESP_OK, s))"

definition esp_rmaker_params_mqtt_init ::
  "('a rm_scheme \<Rightarrow> 'a rm_scheme) \<Rightarrow> 'a rm_scheme \<Rightarrow> esp_err \<times> 'a rm_scheme" where
  "esp_rmaker_params_mqtt_init app_wifi_init_end s =
     (let (err, s) = esp_rmaker_register_for_set_params s
      in if err = ESP_OK
         then (err, snd (esp_rmaker_report_node_state app_wifi_init_end
                (s\<lparr>params_mqtt_init_done := True\<rparr>)))
         else (err, s))"

subsection \<open>The text of the parameter document\<close>

text \<open>
  Inside an object with the members \<open>ms\<close> printed so far the generator is in the state
  \<open>json_in cap T ms\<close>, where \<open>T\<close> is the text up to the opening brace.
\<close>

definition member_txt :: "string \<times> jtree \<Rightarrow> string" where
  "member_txt m = name_txt (fst m) @ jprint (snd m)"

definition json_in :: "nat option \<Rightarrow> string \<Rightarrow> (string \<times> jtree) list \<Rightarrow> json_gen_str" where
  "json_in cap T ms = json_of cap (T @ joined (map member_txt ms)) (ms \<noteq> [])"

lemma json_in_Nil: "json_of cap T False = json_in cap T []"
  by (simp add: json_in_def)

lemma json_in_snoc:
  "json_of cap (T @ joined (map member_txt ms) @ comma_txt (ms \<noteq> []) @ name_txt k @ jprint v) True
     = json_in cap T (ms @ [(k, v)])"
  by (simp add: json_in_def joined_snoc member_txt_def)

lemma jprint_JObj: "jprint (JObj ms) = ''{'' @ joined (map member_txt ms) @ ''}''"
proof -
  have "(\<lambda>(k, v). name_txt k @ jprint v) = member_txt"
    by (auto simp: member_txt_def)
  then show ?thesis by simp
qed

fun val_text :: "param_val \<Rightarrow> string" where
  "val_text (VBool b) = bool_txt b"
| "val_text (VInt i) = int_txt i"
| "val_text (VFloat f) = float_txt f"
| "val_text (VStr t) = quoted (str_opt t)"
| "val_text (VObj t) = str_opt t"
| "val_text (VArr t) = str_opt t"
| "val_text VInvalid = []"

definition val_member :: "string \<Rightarrow> param_val \<Rightarrow> (string \<times> jtree) list" where
  "val_member key v = (if v = VInvalid then [] else [(key, JLit (val_text v))])"

lemma push_str_json_of:
  "snd (json_gen_push_object_str name s (json_of cap T c))
     = json_of cap (T @ comma_txt c @ name_txt name @ str_opt s) True"
  "snd (json_gen_push_array_str name s (json_of cap T c))
     = json_of cap (T @ comma_txt c @ name_txt name @ str_opt s) True"
  by (simp_all add: json_gen_push_object_str_def json_gen_push_array_str_def json_rules json_of_add)

lemma report_value_in:
  "esp_rmaker_report_value (Some v) key (json_in cap T ms) = json_in cap T (ms @ val_member key v)"
  by (cases v)
     (simp_all add: esp_rmaker_report_value_def val_member_def json_rules push_str_json_of
       json_in_def joined_snoc member_txt_def)

definition selected :: "u8 \<Rightarrow> rm_param \<Rightarrow> bool" where
  "selected flags p \<longleftrightarrow> flags = 0 \<or> and (p_flags p) flags \<noteq> 0"

definition param_members :: "u8 \<Rightarrow> rm_param list \<Rightarrow> (string \<times> jtree) list" where
  "param_members flags ps = concat (map (\<lambda>p. val_member (p_name p) (p_val p)) (filter (selected flags) ps))"

lemma populate_device_added:
  "populate_device flags dname ps True (json_in cap T ms)
     = (True, json_in cap T (ms @ param_members flags ps))"
proof (induction ps arbitrary: ms)
  case Nil
  then show ?case by (simp add: param_members_def)
next
  case (Cons p ps)
  show ?case
    using Cons.IH [of ms] Cons.IH [of "ms @ val_member (p_name p) (p_val p)"]
    by (simp add: report_value_in selected_def param_members_def Let_def)
qed

lemma populate_device_fresh:
  "populate_device flags dname ps False (json_in cap T ms)
     = (if filter (selected flags) ps = [] then (False, json_in cap T ms)
        else (True, json_in cap (T @ joined (map member_txt ms) @ comma_txt (ms \<noteq> [])
               @ name_txt dname @ ''{'') (param_members flags ps)))"
proof (induction ps)
  case Nil
  then show ?case by simp
next
  case (Cons p ps)
  have push: "snd (json_gen_push_object dname (json_in cap T ms))
     = json_in cap (T @ joined (map member_txt ms) @ comma_txt (ms \<noteq> []) @ name_txt dname @ ''{'') []"
    by (simp add: json_in_def json_rules)
  show ?case
  proof (cases "selected flags p")
    case True
    then have "populate_device flags dname (p # ps) False (json_in cap T ms)
      = populate_device flags dname ps True (esp_rmaker_report_value (Some (p_val p)) (p_name p)
          (snd (json_gen_push_object dname (json_in cap T ms))))"
      by (simp add: selected_def)
    also have "\<dots> = (True, json_in cap (T @ joined (map member_txt ms) @ comma_txt (ms \<noteq> [])
        @ name_txt dname @ ''{'') (val_member (p_name p) (p_val p) @ param_members flags ps))"
      by (simp add: push report_value_in populate_device_added)
    finally show ?thesis using True by (simp add: param_members_def)
  next
    case False
    then show ?thesis using Cons.IH by (simp add: selected_def param_members_def)
  qed
qed

definition device_members :: "u8 \<Rightarrow> 'a rm_scheme \<Rightarrow> nat \<Rightarrow> (string \<times> jtree) list" where
  "device_members flags s d =
     (let ps = map (pheap s) (d_params (dheap s d))
      in if filter (selected flags) ps = [] then []
         else [(d_name (dheap s d), JObj (param_members flags ps))])"

definition params_doc :: "u8 \<Rightarrow> 'a rm_scheme \<Rightarrow> jtree" where
  "params_doc flags s = JObj (concat (map (device_members flags s) (node_devices s)))"

lemma pop_object_in:
  "snd (json_gen_pop_object (json_in cap (T @ joined (map member_txt ms) @ comma_txt (ms \<noteq> [])
       @ name_txt k @ ''{'') ks)) = json_in cap T (ms @ [(k, JObj ks)])"
  by (simp add: json_in_def json_rules joined_snoc member_txt_def jprint_JObj del: jprint.simps)

lemma populate_devices_in:
  "populate_devices flags s ds (json_in cap T ms)
     = json_in cap T (ms @ concat (map (device_members flags s) ds))"
proof (induction ds arbitrary: ms)
  case Nil
  then show ?case by simp
next
  case (Cons d ds)
  have "populate_devices flags s (d # ds) (json_in cap T ms)
      = populate_devices flags s ds (json_in cap T (ms @ device_members flags s d))"
    by (simp add: populate_device_fresh device_members_def Let_def pop_object_in)
  then show ?case by (simp add: Cons.IH)
qed

lemma populate_params_eq:
  "esp_rmaker_populate_params (map_option Suc cap) flags rst s =
     (let T = jprint (params_doc flags s);
          err = (if json_rc cap T < 0 then ESP_ERR_NO_MEM else ESP_OK)
      in (err, length T + 1, map_option (\<lambda>n. take n T) cap,
          if err = ESP_OK \<and> rst then clear_flags flags (node_params s) s else s))"
proof -
  let ?T = "jprint (params_doc flags s)"
  have start: "json_gen_str_start (map_option Suc cap \<noteq> None)
      (case map_option Suc cap of None \<Rightarrow> 0 | Some n \<Rightarrow> int n) False = json_of cap [] False"
    by (cases cap) (simp_all add: json_rules add.commute flip: json_of_start)
  have doc: "populate_devices flags s (node_devices s) (snd (json_gen_start_object (json_of cap [] False)))
      = json_in cap ''{'' (concat (map (device_members flags s) (node_devices s)))"
    using populate_devices_in [of flags s "node_devices s" cap "''{''" "[]"]
    by (simp add: json_of_containers comma_txt_def flip: json_in_Nil)
  have fin: "json_gen_end_object (json_in cap ''{'' (concat (map (device_members flags s) (node_devices s))))
      = (json_rc cap ?T, json_of cap ?T True)"
    by (simp add: json_in_def json_rules params_doc_def jprint_JObj del: jprint.simps)
  show ?thesis
    unfolding esp_rmaker_populate_params_def Let_def start doc fin
    by (cases cap) (simp_all add: json_rules Let_def)
qed

subsection \<open>Reports\<close>

text \<open>What the documents depend on.\<close>

lemma params_doc_cong:
  assumes "pheap s' = pheap s" "dheap s' = dheap s" "nheap s' = nheap s" "priv s' = priv s"
  shows "params_doc flags s' = params_doc flags s" "node_params s' = node_params s"
    "node_devices s' = node_devices s"
proof -
  show nd: "node_devices s' = node_devices s"
    using assms by (simp add: node_devices_def esp_rmaker_node_get_first_device_def
        esp_rmaker_get_node_def split: option.split)
  have "device_members flags s' = device_members flags s"
    by (rule ext) (simp add: device_members_def assms Let_def)
  then show "params_doc flags s' = params_doc flags s"
    by (simp add: params_doc_def nd)
  show "node_params s' = node_params s"
    using assms nd by (simp add: node_params_def)
qed

lemma node_params_upd_param [simp]: "node_params (upd_param p f s) = node_params s"
  by (simp add: node_params_def node_devices_def esp_rmaker_node_get_first_device_def
      esp_rmaker_get_node_def split: option.split)

lemma clear_flags_frame:
  "clear_flags flags ps s = s\<lparr>pheap := pheap (clear_flags flags ps s)\<rparr>"
proof (induction ps arbitrary: s)
  case Nil
  then show ?case by (simp add: clear_flags_def)
next
  case (Cons p ps)
  let ?s = "upd_param p (\<lambda>r. r\<lparr>p_flags := and (p_flags r) (not flags)\<rparr>) s"
  have "clear_flags flags (p # ps) s = clear_flags flags ps ?s"
    by (simp add: clear_flags_def)
  also have "\<dots> = ?s\<lparr>pheap := pheap (clear_flags flags ps ?s)\<rparr>"
    by (rule Cons.IH)
  finally show ?case by (simp add: upd_param_def clear_flags_def)
qed

lemma clear_flags_pheap:
  "pheap (clear_flags flags ps s) q =
     (if q \<in> set ps then (pheap s q)\<lparr>p_flags := and (p_flags (pheap s q)) (not flags)\<rparr> else pheap s q)"
proof (induction ps arbitrary: s)
  case Nil
  then show ?case by (simp add: clear_flags_def)
next
  case (Cons p ps)
  let ?s = "upd_param p (\<lambda>r. r\<lparr>p_flags := and (p_flags r) (not flags)\<rparr>) s"
  have "clear_flags flags (p # ps) s = clear_flags flags ps ?s"
    by (simp add: clear_flags_def)
  then show ?case
    by (simp add: Cons.IH and.assoc)
qed

lemma clear_flags_fields [simp]:
  "dheap (clear_flags flags ps s) = dheap s" "nheap (clear_flags flags ps s) = nheap s"
  "priv (clear_flags flags ps s) = priv s" "trace (clear_flags flags ps s) = trace s"
  "mem_ok (clear_flags flags ps s) = mem_ok s"
  "inputs (clear_flags flags ps s) = inputs s"
  "max_node_params_size (clear_flags flags ps s) = max_node_params_size s"
  "node_params_buf (clear_flags flags ps s) = node_params_buf s"
  "params_mqtt_init_done (clear_flags flags ps s) = params_mqtt_init_done s"
  "mqtt_publish_set (clear_flags flags ps s) = mqtt_publish_set s"
  "publish_topic (clear_flags flags ps s) = publish_topic s"
  by (subst clear_flags_frame, simp)+

lemma populate_some_eq:
  assumes "0 < n"
  shows "esp_rmaker_populate_params (Some n) flags rst s =
     (let T = jprint (params_doc flags s)
      in if length T < n
         then (ESP_OK, length T + 1, Some T,
               if rst then clear_flags flags (node_params s) s else s)
         else (ESP_ERR_NO_MEM, length T + 1, Some (take (n - 1) T), s))"
proof -
  obtain m where "n = Suc m" using assms by (cases n) auto
  then show ?thesis
    using populate_params_eq [of "Some m" flags rst s] by (auto simp: json_rc_def Let_def)
qed

lemma alloc_buf_params:
  assumes "mem_ok s = []" "0 < max_node_params_size s"
  shows "\<exists>n. esp_rmaker_allocate_and_populate_params flags rst s
     = (ESP_OK, (if rst then clear_flags flags (node_params s) s else s)
          \<lparr>node_params_buf := Some (jprint (params_doc flags s)), max_node_params_size := n\<rparr>)
     \<and> max_node_params_size s \<le> n"
proof -
  let ?T = "jprint (params_doc flags s)"
  let ?n = "if length ?T < max_node_params_size s then max_node_params_size s else length ?T + 1 + 50"
  have doc: "params_doc flags (s\<lparr>node_params_buf := b\<rparr>) = params_doc flags s"
    "params_doc flags (s\<lparr>node_params_buf := b, max_node_params_size := k\<rparr>) = params_doc flags s"
    "node_params (s\<lparr>node_params_buf := b\<rparr>) = node_params s"
    "node_params (s\<lparr>node_params_buf := b, max_node_params_size := k\<rparr>) = node_params s" for b k
    by (rule params_doc_cong; simp)+
  have cf: "clear_flags flags ps (s\<lparr>node_params_buf := b\<rparr>) = (clear_flags flags ps s)\<lparr>node_params_buf := b\<rparr>"
    "clear_flags flags ps (s\<lparr>node_params_buf := b, max_node_params_size := k\<rparr>)
       = (clear_flags flags ps s)\<lparr>node_params_buf := b, max_node_params_size := k\<rparr>" for ps b k
    by (subst (1 2) clear_flags_frame; simp add: clear_flags_pheap fun_eq_iff)+
  show ?thesis
    by (rule exI [of _ ?n])
       (use assms in \<open>auto simp: esp_rmaker_allocate_and_populate_params_def Let_def populate_some_eq
          doc cf RMAKER_PARAMS_SIZE_MARGIN_def\<close>)
qed

lemma publish_params_fields [simp]:
  "pheap (publish_params s) = pheap s" "dheap (publish_params s) = dheap s"
  "trace (publish_params s) = trace s @ (if params_mqtt_init_done s \<and> mqtt_publish_set s
     then [Net (MqttPublish (publish_topic s) (buf_text s))] else [])"
  by (simp_all add: publish_params_def esp_rmaker_mqtt_publish_def)

lemma report_change:
  assumes "mem_ok s = []" "0 < max_node_params_size s"
    "esp_rmaker_report_param_internal RMAKER_PARAM_FLAG_VALUE_CHANGE s = (err, s')"
  shows "err = ESP_OK"
    and "pheap s' = pheap (clear_flags RMAKER_PARAM_FLAG_VALUE_CHANGE (node_params s) s)"
    and "trace s' = trace s @
      (let T = jprint (params_doc RMAKER_PARAM_FLAG_VALUE_CHANGE s)
       in if 10 < length T \<and> params_mqtt_init_done s \<and> mqtt_publish_set s
          then [Net (MqttPublish (node_topic 64 ''params/local'' s) T)] else [])"
proof -
  let ?f = RMAKER_PARAM_FLAG_VALUE_CHANGE
  let ?T = "jprint (params_doc ?f s)"
  obtain n where ap: "esp_rmaker_allocate_and_populate_params ?f True s
      = (ESP_OK, (clear_flags ?f (node_params s) s)
           \<lparr>node_params_buf := Some ?T, max_node_params_size := n\<rparr>)"
    using alloc_buf_params [OF assms(1,2), of ?f True] by auto
  have top: "node_topic k x (t\<lparr>node_params_buf := b, max_node_params_size := m\<rparr>) = node_topic k x t"
    "node_topic k x (clear_flags f ps t) = node_topic k x t" for k x b m f ps and t :: "'a rm_scheme"
    by (simp_all add: node_topic_def esp_rmaker_get_node_id_def)
  show "err = ESP_OK"
    "pheap s' = pheap (clear_flags ?f (node_params s) s)"
    "trace s' = trace s @ (let T = ?T
       in if 10 < length T \<and> params_mqtt_init_done s \<and> mqtt_publish_set s
          then [Net (MqttPublish (node_topic 64 ''params/local'' s) T)] else [])"
    using assms(3) by (auto simp: esp_rmaker_report_param_internal_def ap buf_text_def Let_def top
        split: if_splits)
qed

lemma store_value_heaps [simp]:
  "pheap (snd (esp_rmaker_param_store_value p s)) = pheap s"
  "dheap (snd (esp_rmaker_param_store_value p s)) = dheap s"
  "nheap (snd (esp_rmaker_param_store_value p s)) = nheap s"
  "priv (snd (esp_rmaker_param_store_value p s)) = priv s"
  by (auto simp: esp_rmaker_param_store_value_def Let_def case_prod_beta
      split: option.split)

lemma nvs_read_fields [simp]:
  "pheap (snd (nvs_read s)) = pheap s" "dheap (snd (nvs_read s)) = dheap s"
  "nheap (snd (nvs_read s)) = nheap s" "priv (snd (nvs_read s)) = priv s"
  "trace (snd (nvs_read s)) = trace s"
  by (simp_all add: nvs_read_def split: list.split)

lemma get_stored_value_heaps:
  assumes "esp_rmaker_param_get_stored_value q v s = (err, v', s')"
  shows "pheap s' = pheap s \<and> dheap s' = dheap s \<and> nheap s' = nheap s \<and> priv s' = priv s"
  using assms
  by (auto simp: esp_rmaker_param_get_stored_value_def Let_def case_prod_beta
      split: option.splits if_splits nvs_ans.splits)

lemma with_str_self: "val_type v = val_type w \<Longrightarrow> is_str_type (val_type w) \<Longrightarrow> with_str w (val_str v) = v"
  by (cases v; cases w) (auto simp: is_str_type_def)

lemma param_update_cases:
  assumes "esp_rmaker_param_update (Some p) v s = (err, s')"
  shows "(err = ESP_OK \<and> val_type v = val_type (p_val (pheap s p))
      \<and> pheap s' = (pheap s)(p := (pheap s p)\<lparr>p_val := v\<rparr>))
    \<or> (err \<noteq> ESP_OK \<and> pheap s' = pheap s)"
proof (cases "val_type (p_val (pheap s p)) = val_type v")
  case False
  then show ?thesis using assms by (simp add: esp_rmaker_param_update_def)
next
  case True
  note ty = this
  show ?thesis
  proof (cases "is_str_type (val_type v)")
    case False
    then show ?thesis
      using assms ty by (simp add: esp_rmaker_param_update_def Let_def split: if_splits) auto
  next
    case True
    then have w: "with_str (p_val (pheap s p)) (val_str v) = v"
      and ni: "val_type v \<noteq> RMAKER_VAL_TYPE_INVALID"
      using ty by (auto simp: with_str_self is_str_type_def)
    show ?thesis
    proof (cases "val_str v")
      case None
      then show ?thesis
        using assms ty True w ni
        by (simp add: esp_rmaker_param_update_def Let_def split: if_splits) auto
    next
      case (Some t)
      then show ?thesis
        using assms ty True w ni
        by (simp add: esp_rmaker_param_update_def Let_def case_prod_beta split: if_splits) auto
    qed
  qed
qed

subsection \<open>Properties\<close>

text \<open>C4. The parameter document. Given a buffer, \<open>esp_rmaker_populate_params\<close> writes the
  compact JSON of the selected parameters, one object per device that has one, and clears the
  flags when asked; if the buffer cannot hold it, the result is \<open>ESP_ERR_NO_MEM\<close>, no flag is
  touched, and either way \<open>*buf_len\<close> becomes the size that is needed.\<close>
theorem populate_params_text:
  assumes "0 < n"
  shows "esp_rmaker_populate_params (Some n) flags rst s =
     (let T = jprint (params_doc flags s)
      in if length T < n
         then (ESP_OK, length T + 1, Some T,
               if rst then clear_flags flags (node_params s) s else s)
         else (ESP_ERR_NO_MEM, length T + 1, Some (take (n - 1) T), s))"
  using assms by (rule populate_some_eq)

text \<open>C25. Reporting a parameter. When memory is available, \<open>esp_rmaker_param_report\<close> returns
  \<open>ESP_OK\<close>, publishes once, under the node's \<open>params/local\<close> topic, the JSON of every parameter
  flagged as changed with the reported one among them (nothing before MQTT is up or when the
  text is a stub of at most 10 characters), and clears exactly the change flag, of exactly
  the node's parameters.\<close>
theorem param_report_publishes:
  assumes "mem_ok s = []" "0 < max_node_params_size s"
    "esp_rmaker_param_report (Some p) s = (err, s')"
  shows "err = ESP_OK \<and>
    (let s1 = upd_param p (\<lambda>r. r\<lparr>p_flags := or (p_flags r) 1\<rparr>) s;
         T = jprint (params_doc 1 s1)
     in trace s' = trace s @ (if 10 < length T \<and> params_mqtt_init_done s \<and> mqtt_publish_set s
            then [Net (MqttPublish (node_topic 64 ''params/local'' s) T)] else [])
        \<and> (\<forall>q. pheap s' q = (if q \<in> set (node_params s)
              then (pheap s1 q)\<lparr>p_flags := and (p_flags (pheap s1 q)) (not 1)\<rparr> else pheap s1 q)))"
proof -
  let ?f = RMAKER_PARAM_FLAG_VALUE_CHANGE
  let ?s1 = "upd_param p (\<lambda>r. r\<lparr>p_flags := or (p_flags r) ?f\<rparr>) s"
  have run: "esp_rmaker_report_param_internal ?f ?s1 = (err, s')"
    using assms(3) by (simp add: esp_rmaker_param_report_def)
  have pre: "mem_ok ?s1 = []" "0 < max_node_params_size ?s1"
    using assms by simp_all
  have same: "trace ?s1 = trace s" "params_mqtt_init_done ?s1 = params_mqtt_init_done s"
    "mqtt_publish_set ?s1 = mqtt_publish_set s" "node_params ?s1 = node_params s"
    by simp_all
  show ?thesis
    using report_change [OF pre run]
    by (simp add: Let_def same clear_flags_pheap RMAKER_PARAM_FLAG_VALUE_CHANGE_def
        cong: if_cong)
qed

text \<open>C27. Updating a parameter never changes its type: on \<open>ESP_OK\<close> the parameter holds
  exactly the new value, of the type it had, on an error no parameter changes, and no other
  parameter ever does.\<close>
theorem param_update_typed:
  assumes "esp_rmaker_param_update (Some p) v s = (err, s')"
  shows "val_type (p_val (pheap s' p)) = val_type (p_val (pheap s p))
    \<and> (if err = ESP_OK then p_val (pheap s' p) = v else pheap s' = pheap s)
    \<and> (\<forall>q. q \<noteq> p \<longrightarrow> pheap s' q = pheap s q)"
  using param_update_cases [OF assms] by auto

subsection \<open>The properties on the example state\<close>

lemma ex_node [simp]:
  "node_devices ex_rm = [1]" "node_params ex_rm = [2, 3]"
  by (simp_all add: node_devices_def node_params_def esp_rmaker_node_get_first_device_def
      esp_rmaker_get_node_def ex_defs)

lemma ex_doc: "jprint (params_doc 0 ex_rm) = ''{\"Light\":{\"Power\":true,\"Brightness\":7}}''"
  by (simp add: params_doc_def device_members_def param_members_def selected_def val_member_def
      ex_defs name_txt_def bool_txt_def int_txt_def snprintf_def dec_int_def dec_nat.simps
      hex_digit_def joined_def node_devices_def esp_rmaker_node_get_first_device_def
      esp_rmaker_get_node_def Let_def del: ex_node)

theorem populate_params_text_witness:
  "esp_rmaker_populate_params (Some 20) 0 False ex_rm
     = (ESP_ERR_NO_MEM, 40, Some ''{\"Light\":{\"Power\":t'', ex_rm)"
  using populate_params_text [of 20 0 False ex_rm] by (simp add: ex_doc)

theorem param_report_publishes_witness:
  "fst (esp_rmaker_param_report (Some 3) ex_rm) = ESP_OK"
  using param_report_publishes [of ex_rm 3 "fst (esp_rmaker_param_report (Some 3) ex_rm)"
      "snd (esp_rmaker_param_report (Some 3) ex_rm)"]
  by (simp add: ex_defs)

theorem param_update_typed_witness:
  "p_val (pheap (snd (esp_rmaker_param_update (Some 3) (VInt 9) ex_rm)) 3) = VInt 9"
  using param_update_typed [of 3 "VInt 9" ex_rm "fst (esp_rmaker_param_update (Some 3) (VInt 9) ex_rm)"
      "snd (esp_rmaker_param_update (Some 3) (VInt 9) ex_rm)"]
  by (simp add: esp_rmaker_param_update_def ex_defs is_str_type_def Let_def)

end
