(* ===== verification/Keyed_Chain.thy ===== *)
theory Keyed_Chain
  imports Prelude
begin

text \<open>
  The interface of the chains the RainMaker library keeps its objects in: elements with a
  key, appended unless their key is taken, and looked up by key. Parameters of a device,
  devices of a node, attributes of a device and schedules are such chains; each of those
  theories interprets the locale with the operations of its model.
\<close>

locale keyed_chain =
  fixes key :: "'e \<Rightarrow> 'k"
    and add :: "'e \<Rightarrow> 'e list \<Rightarrow> 'e list option"
    and lookup :: "'k \<Rightarrow> 'e list \<Rightarrow> 'e option"
  assumes add_taken: "key e \<in> key ` set xs \<Longrightarrow> add e xs = None"
    and add_new: "key e \<notin> key ` set xs \<Longrightarrow> add e xs = Some (xs @ [e])"
    and lookup_find: "lookup k xs = List.find (\<lambda>e. key e = k) xs"
begin

lemma add_Some: "add e xs = Some ys \<longleftrightarrow> key e \<notin> key ` set xs \<and> ys = xs @ [e]"
  using add_taken add_new by (cases "key e \<in> key ` set xs") auto

lemma add_keeps_distinct:
  "distinct (map key xs) \<Longrightarrow> add e xs = Some ys \<Longrightarrow> distinct (map key ys)"
  by (auto simp: add_Some)

lemma lookup_added: "add e xs = Some ys \<Longrightarrow> lookup (key e) ys = Some e"
proof -
  assume "add e xs = Some ys"
  then have "List.find (\<lambda>x. key x = key e) xs = None" "ys = xs @ [e]"
    by (auto simp: add_Some find_None_iff image_iff eq_commute [of "key e"])
  then show "lookup (key e) ys = Some e"
    by (simp add: lookup_find find_append_new)
qed

lemma lookup_after_add: "add e xs = Some ys \<Longrightarrow> k \<noteq> key e \<Longrightarrow> lookup k ys = lookup k xs"
  by (cases "List.find (\<lambda>e. key e = k) xs")
     (auto simp: add_Some lookup_find find_append_new find_append_old)

lemma lookup_member: "distinct (map key xs) \<Longrightarrow> e \<in> set xs \<Longrightarrow> lookup (key e) xs = Some e"
  by (simp add: lookup_find find_key_distinct)

lemma lookup_None: "lookup k xs = None \<longleftrightarrow> k \<notin> key ` set xs"
  by (auto simp: lookup_find find_None_iff)

lemma lookup_Some: "lookup k xs = Some e \<Longrightarrow> e \<in> set xs \<and> key e = k"
  by (auto simp: lookup_find dest: find_Some_in)

lemma add_iff_lookup: "add e xs = None \<longleftrightarrow> lookup (key e) xs \<noteq> None"
  using add_taken add_new by (cases "key e \<in> key ` set xs") (auto simp: lookup_None)

end

end
