(* ===== verification/Rm_Device.thy ===== *)
theory Rm_Device
  imports Rm_Param Keyed_Chain
begin

text \<open>
  Devices and services: \<open>esp_rmaker_device.c\<close>. The parameter chain of a device and its
  attribute chain interpret \<open>keyed_chain\<close>.
\<close>

subsection \<open>Creation and deletion\<close>

fun delete_params :: "nat list \<Rightarrow> 'a rm_scheme \<Rightarrow> 'a rm_scheme" where
  "delete_params [] s = s"
| "delete_params (p # ps) s = delete_params ps (snd (esp_rmaker_param_delete (Some p) s))"

text \<open>
  The code frees the attributes, the parameters and the strings of the device, but not the
  device structure; what it points to is gone, so the structure is blank in the model.
\<close>

definition esp_rmaker_device_delete :: "nat option \<Rightarrow> 'a rm_scheme \<Rightarrow> esp_err \<times> 'a rm_scheme" where
  "esp_rmaker_device_delete device s =
     (case device of None \<Rightarrow> (ESP_ERR_INVALID_ARG, s)
      | Some d \<Rightarrow>
        if d_parent (dheap s d) \<noteq> None then (ESP_ERR_INVALID_STATE, s)
        else (ESP_OK, upd_device d (\<lambda>_. device0) (delete_params (d_params (dheap s d)) s)))"

definition esp_rmaker_device_create_internal ::
  "string option \<Rightarrow> string option \<Rightarrow> int list \<Rightarrow> bool \<Rightarrow> 'a rm_scheme \<Rightarrow> nat option \<times> 'a rm_scheme" where
  "esp_rmaker_device_create_internal name type pd service s =
     (case name of None \<Rightarrow> (None, s)
      | Some nm \<Rightarrow>
        let (ok, s) = alloc s
        in if \<not> ok then (None, s)
           else
             let d = next_ref s;
                 s = upd_device d (\<lambda>_. device0) (s\<lparr>next_ref := d + 1\<rparr>);
                 (ok, s) = alloc s
             in if \<not> ok then (None, snd (esp_rmaker_device_delete (Some d) s))
                else
                  let s = upd_device d (\<lambda>r. r\<lparr>d_name := nm\<rparr>) s;
                      (ok, s) = (case type of None \<Rightarrow> (True, s)
                        | Some t \<Rightarrow> let (ok, s) = alloc s
                            in (ok, if ok then upd_device d (\<lambda>r. r\<lparr>d_type := Some t\<rparr>) s else s))
                  in if \<not> ok then (None, snd (esp_rmaker_device_delete (Some d) s))
                     else (Some d, upd_device d (\<lambda>r. r\<lparr>priv_data := pd, is_service := service\<rparr>) s))"

definition esp_rmaker_device_create ::
  "string option \<Rightarrow> string option \<Rightarrow> int list \<Rightarrow> 'a rm_scheme \<Rightarrow> nat option \<times> 'a rm_scheme" where
  "esp_rmaker_device_create name type pd s = esp_rmaker_device_create_internal name type pd False s"

definition esp_rmaker_service_create ::
  "string option \<Rightarrow> string option \<Rightarrow> int list \<Rightarrow> 'a rm_scheme \<Rightarrow> nat option \<times> 'a rm_scheme" where
  "esp_rmaker_service_create name type pd s = esp_rmaker_device_create_internal name type pd True s"

subsection \<open>Parameters\<close>

definition param_key :: "'a rm_scheme \<Rightarrow> nat \<Rightarrow> string" where
  "param_key s p = p_name (pheap s p)"

text \<open>The walk of \<open>esp_rmaker_device_add_param\<close>: \<open>None\<close> when the name is taken.\<close>

fun param_chain_add :: "'a rm_scheme \<Rightarrow> nat \<Rightarrow> nat list \<Rightarrow> nat list option" where
  "param_chain_add s new [] = Some [new]"
| "param_chain_add s new (p # ps) =
     (if p_name (pheap s p) = p_name (pheap s new) then None
      else map_option ((#) p) (param_chain_add s new ps))"

definition esp_rmaker_device_add_param ::
  "('a rm_scheme) write_fn \<Rightarrow> nat option \<Rightarrow> nat option \<Rightarrow> 'a rm_scheme \<Rightarrow> esp_err \<times> 'a rm_scheme" where
  "esp_rmaker_device_add_param invoke device param s =
     (case (device, param) of
        (Some d, Some p) \<Rightarrow>
          (case param_chain_add s p (d_params (dheap s d)) of
             None \<Rightarrow> (ESP_ERR_INVALID_ARG, s)
           | Some ps \<Rightarrow>
             let s = upd_param p (\<lambda>r. r\<lparr>p_parent := Some d\<rparr>) s;
                 s = upd_device d (\<lambda>r. r\<lparr>d_params := ps\<rparr>) s
             in if \<not> prop_bit PROP_FLAG_PERSIST (prop_flags (pheap s p)) then (ESP_OK, s)
                else
                  let (err, stored_val, s) =
                        esp_rmaker_param_get_stored_value (Some p) (p_val (pheap s p)) s
                  in if err \<noteq> ESP_OK then (ESP_OK, snd (esp_rmaker_param_store_value (Some p) s))
                     else
                       let s = upd_param p (\<lambda>r. r\<lparr>p_val := stored_val\<rparr>) s
                       in case write_cb (dheap s d) of None \<Rightarrow> (ESP_OK, s)
                          | Some cb \<Rightarrow>
                              if p_type (pheap s p) = Some ESP_RMAKER_PARAM_NAME then (ESP_OK, s)
                              else (ESP_OK, snd (invoke cb d p stored_val ESP_RMAKER_REQ_SRC_INIT s)))
      | _ \<Rightarrow> (ESP_ERR_INVALID_ARG, s))"

subsection \<open>Attributes, subtype, primary parameter, callbacks\<close>

fun attr_chain_add :: "string \<times> string \<Rightarrow> (string \<times> string) list \<Rightarrow> (string \<times> string) list option" where
  "attr_chain_add new [] = Some [new]"
| "attr_chain_add new (a # as) =
     (if fst new = fst a then None else map_option ((#) a) (attr_chain_add new as))"

definition esp_rmaker_device_add_attribute ::
  "nat option \<Rightarrow> string option \<Rightarrow> string option \<Rightarrow> 'a rm_scheme \<Rightarrow> esp_err \<times> 'a rm_scheme" where
  "esp_rmaker_device_add_attribute device attr_name val s =
     (case (device, attr_name, val) of
        (Some d, Some nm, Some v) \<Rightarrow>
          if is_service (dheap s d) then (ESP_ERR_INVALID_ARG, s)
          else (case attr_chain_add (nm, v) (d_attrs (dheap s d)) of
                  None \<Rightarrow> (ESP_ERR_INVALID_ARG, s)
                | Some as \<Rightarrow>
                    let (ok, s) = alloc s
                    in if \<not> ok then (ESP_ERR_NO_MEM, s)
                       else let (ok1, s) = alloc s; (ok2, s) = alloc s
                            in if \<not> ok1 \<or> \<not> ok2 then (ESP_ERR_NO_MEM, s)
                               else (ESP_OK, upd_device d (\<lambda>r. r\<lparr>d_attrs := as\<rparr>) s))
      | _ \<Rightarrow> (ESP_ERR_INVALID_ARG, s))"

definition esp_rmaker_device_add_subtype ::
  "nat option \<Rightarrow> string option \<Rightarrow> 'a rm_scheme \<Rightarrow> esp_err \<times> 'a rm_scheme" where
  "esp_rmaker_device_add_subtype device subtype s =
     (case (device, subtype) of
        (Some d, Some t) \<Rightarrow>
          let (ok, s) = alloc s
          in if ok then (ESP_OK, upd_device d (\<lambda>r. r\<lparr>d_subtype := Some t\<rparr>) s)
             else (ESP_ERR_NO_MEM, upd_device d (\<lambda>r. r\<lparr>d_subtype := None\<rparr>) s)
      | _ \<Rightarrow> (ESP_ERR_INVALID_ARG, s))"

definition esp_rmaker_device_assign_primary_param ::
  "nat option \<Rightarrow> nat option \<Rightarrow> 'a rm_scheme \<Rightarrow> esp_err \<times> 'a rm_scheme" where
  "esp_rmaker_device_assign_primary_param device param s =
     (case (device, param) of
        (Some d, Some p) \<Rightarrow> (ESP_OK, upd_device d (\<lambda>r. r\<lparr>d_primary := Some p\<rparr>) s)
      | _ \<Rightarrow> (ESP_ERR_INVALID_ARG, s))"

definition esp_rmaker_device_add_cb ::
  "nat option \<Rightarrow> string option \<Rightarrow> string option \<Rightarrow> 'a rm_scheme \<Rightarrow> esp_err \<times> 'a rm_scheme" where
  "esp_rmaker_device_add_cb device wcb rcb s =
     (case device of None \<Rightarrow> (ESP_ERR_INVALID_ARG, s)
      | Some d \<Rightarrow> (ESP_OK, upd_device d (\<lambda>r. r\<lparr>write_cb := wcb, read_cb := rcb\<rparr>) s))"

definition esp_rmaker_device_get_name :: "nat option \<Rightarrow> 'a rm_scheme \<Rightarrow> string option" where
  "esp_rmaker_device_get_name device s = map_option (\<lambda>d. d_name (dheap s d)) device"

definition esp_rmaker_device_get_type :: "nat option \<Rightarrow> 'a rm_scheme \<Rightarrow> string option" where
  "esp_rmaker_device_get_type device s =
     (case device of None \<Rightarrow> None | Some d \<Rightarrow> d_type (dheap s d))"

text \<open>
  The walk of \<open>esp_rmaker_device_get_param_by_type\<close> passes a parameter's type to \<open>strcmp\<close>
  unchecked: the outer \<open>None\<close> is the crash on a parameter without a type.
\<close>

fun find_by_type :: "'a rm_scheme \<Rightarrow> string \<Rightarrow> nat list \<Rightarrow> nat option option" where
  "find_by_type s ty [] = Some None"
| "find_by_type s ty (p # ps) =
     (case p_type (pheap s p) of None \<Rightarrow> None
      | Some t \<Rightarrow> if t = ty then Some (Some p) else find_by_type s ty ps)"

definition esp_rmaker_device_get_param_by_type ::
  "nat option \<Rightarrow> string option \<Rightarrow> 'a rm_scheme \<Rightarrow> nat option option" where
  "esp_rmaker_device_get_param_by_type device param_type s =
     (case (device, param_type) of
        (Some d, Some ty) \<Rightarrow> find_by_type s ty (d_params (dheap s d))
      | _ \<Rightarrow> Some None)"

fun find_by_name :: "'a rm_scheme \<Rightarrow> string \<Rightarrow> nat list \<Rightarrow> nat option" where
  "find_by_name s nm [] = None"
| "find_by_name s nm (p # ps) = (if p_name (pheap s p) = nm then Some p else find_by_name s nm ps)"

definition esp_rmaker_device_get_param_by_name ::
  "nat option \<Rightarrow> string option \<Rightarrow> 'a rm_scheme \<Rightarrow> nat option" where
  "esp_rmaker_device_get_param_by_name device param_name s =
     (case (device, param_name) of
        (Some d, Some nm) \<Rightarrow> find_by_name s nm (d_params (dheap s d))
      | _ \<Rightarrow> None)"

subsection \<open>The chains meet the interface\<close>

lemma param_chain_add_eq:
  "param_chain_add s new ps =
     (if param_key s new \<in> param_key s ` set ps then None else Some (ps @ [new]))"
  by (induction ps) (auto simp: param_key_def)

lemma find_by_name_eq: "find_by_name s nm ps = List.find (\<lambda>p. param_key s p = nm) ps"
  by (induction ps) (auto simp: param_key_def)

lemma attr_chain_add_eq:
  "attr_chain_add a as = (if fst a \<in> fst ` set as then None else Some (as @ [a]))"
  by (induction as) auto

interpretation params: keyed_chain "param_key s" "param_chain_add s" "find_by_name s"
  for s :: "'a rm_scheme"
  by unfold_locales (auto simp: param_chain_add_eq find_by_name_eq)

interpretation attrs: keyed_chain "fst :: string \<times> string \<Rightarrow> string" attr_chain_add
  "\<lambda>k. List.find (\<lambda>e. fst e = k)"
  by unfold_locales (auto simp: attr_chain_add_eq)

subsection \<open>Unique names\<close>

text \<open>
  What is asked of a write callback: it does not rename parameters and does not change which
  parameters a device has.
\<close>

definition keeps_chains :: "('a rm_scheme) write_fn \<Rightarrow> bool" where
  "keeps_chains invoke \<longleftrightarrow> (\<forall>cb d p v src s.
     (\<forall>q. p_name (pheap (snd (invoke cb d p v src s)) q) = p_name (pheap s q))
     \<and> (\<forall>e. d_params (dheap (snd (invoke cb d p v src s)) e) = d_params (dheap s e)))"

lemma add_param_chain:
  assumes "keeps_chains invoke"
    and "esp_rmaker_device_add_param invoke (Some d) (Some p) s = (err, s')"
  shows "(\<forall>q. p_name (pheap s' q) = p_name (pheap s q)) \<and>
    (case param_chain_add s p (d_params (dheap s d)) of
       None \<Rightarrow> err = ESP_ERR_INVALID_ARG \<and> s' = s
     | Some ps \<Rightarrow> err = ESP_OK \<and> d_params (dheap s' d) = ps
         \<and> (\<forall>e. e \<noteq> d \<longrightarrow> d_params (dheap s' e) = d_params (dheap s e)))"
proof (cases "param_chain_add s p (d_params (dheap s d))")
  case None
  then show ?thesis using assms by (auto simp: esp_rmaker_device_add_param_def)
next
  case (Some ps)
  define t where "t = upd_device d (\<lambda>r. r\<lparr>d_params := ps\<rparr>) (upd_param p (\<lambda>r. r\<lparr>p_parent := Some d\<rparr>) s)"
  have t: "\<forall>q. p_name (pheap t q) = p_name (pheap s q)" "d_params (dheap t d) = ps"
    "\<forall>e. e \<noteq> d \<longrightarrow> d_params (dheap t e) = d_params (dheap s e)"
    by (simp_all add: t_def)
  obtain e v u where g: "esp_rmaker_param_get_stored_value (Some p) (p_val (pheap t p)) t = (e, v, u)"
    by (metis prod_cases3)
  then have u: "pheap u = pheap t" "dheap u = dheap t"
    using get_stored_value_heaps by blast+
  define w where "w = upd_param p (\<lambda>r. r\<lparr>p_val := v\<rparr>) u"
  have w: "\<forall>q. p_name (pheap w q) = p_name (pheap t q)" "dheap w = dheap t"
    by (simp_all add: w_def u)
  have run: "esp_rmaker_device_add_param invoke (Some d) (Some p) s =
     (if \<not> prop_bit PROP_FLAG_PERSIST (prop_flags (pheap t p)) then (ESP_OK, t)
      else if e \<noteq> ESP_OK then (ESP_OK, snd (esp_rmaker_param_store_value (Some p) u))
      else case write_cb (dheap w d) of None \<Rightarrow> (ESP_OK, w)
           | Some cb \<Rightarrow> if p_type (pheap w p) = Some ESP_RMAKER_PARAM_NAME then (ESP_OK, w)
               else (ESP_OK, snd (invoke cb d p v ESP_RMAKER_REQ_SRC_INIT w)))"
    using Some g by (simp add: esp_rmaker_device_add_param_def Let_def t_def w_def cong: option.case_cong if_cong)
  show ?thesis
    using assms run t u w Some
    by (auto simp: keeps_chains_def split: if_splits option.splits)
qed

text \<open>Names stay unique within a device. Whatever the persistent storage answers,
  \<open>esp_rmaker_device_add_param\<close> refuses a parameter whose name the device already has, leaving
  everything as it was, and otherwise appends it: the names stay distinct, the new parameter is
  the one found under its name, and every other lookup by name is unchanged.\<close>
theorem device_add_param_unique:
  assumes "keeps_chains invoke"
    and "distinct (map (param_key s) (d_params (dheap s d)))"
    and "esp_rmaker_device_add_param invoke (Some d) (Some p) s = (err, s')"
  shows "distinct (map (param_key s') (d_params (dheap s' d))) \<and>
    (if esp_rmaker_device_get_param_by_name (Some d) (Some (param_key s p)) s \<noteq> None
     then err = ESP_ERR_INVALID_ARG \<and> s' = s
     else err = ESP_OK
       \<and> esp_rmaker_device_get_param_by_name (Some d) (Some (param_key s p)) s' = Some p
       \<and> (\<forall>nm. nm \<noteq> param_key s p \<longrightarrow>
           esp_rmaker_device_get_param_by_name (Some d) (Some nm) s'
             = esp_rmaker_device_get_param_by_name (Some d) (Some nm) s))"
proof -
  note ch = add_param_chain [OF assms(1,3)]
  have key: "param_key s' = param_key s"
    using ch by (simp add: param_key_def fun_eq_iff)
  then have find: "find_by_name s' = find_by_name s"
    by (simp add: find_by_name_eq fun_eq_iff)
  show ?thesis
  proof (cases "param_chain_add s p (d_params (dheap s d))")
    case None
    then have "find_by_name s (param_key s p) (d_params (dheap s d)) \<noteq> None"
      by (simp add: params.add_iff_lookup)
    then show ?thesis
      using ch None assms(2) by (auto simp: esp_rmaker_device_get_param_by_name_def key)
  next
    case (Some ps)
    then have "find_by_name s (param_key s p) (d_params (dheap s d)) = None"
      using params.add_iff_lookup [of s p "d_params (dheap s d)"] by auto
    then show ?thesis
      using ch assms(2) Some params.add_keeps_distinct [OF assms(2) Some]
        params.lookup_added [OF Some] params.lookup_after_add [OF Some]
      by (simp add: esp_rmaker_device_get_param_by_name_def key find)
  qed
qed

definition ex_hue :: rm_param where
  "ex_hue = param0\<lparr>p_name := ''Hue'', p_type := Some ''esp.param.hue'', prop_flags := 11,
     p_val := VInt 180\<rparr>"

definition ex_rm2 :: rm where
  "ex_rm2 = ex_rm\<lparr>pheap := (pheap ex_rm)(4 := ex_hue), next_ref := 5, nvs_in := [NvsVal (VInt 20)]\<rparr>"

theorem device_add_param_unique_witness:
  "esp_rmaker_device_get_param_by_name (Some 1) (Some ''Hue'')
     (snd (esp_rmaker_device_add_param (\<lambda>_ _ _ _ _ s. (ESP_OK, s)) (Some 1) (Some 4) ex_rm2)) = Some 4"
proof -
  let ?i = "(\<lambda>_ _ _ _ _ s. (ESP_OK, s)) :: rm write_fn"
  have "keeps_chains ?i" by (simp add: keeps_chains_def)
  moreover have "distinct (map (param_key ex_rm2) (d_params (dheap ex_rm2 1)))"
    by (simp add: ex_rm2_def ex_defs param_key_def)
  moreover have "esp_rmaker_device_get_param_by_name (Some 1) (Some (param_key ex_rm2 4)) ex_rm2 = None"
    "param_key ex_rm2 4 = ''Hue''"
    by (simp_all add: esp_rmaker_device_get_param_by_name_def param_key_def ex_rm2_def ex_defs ex_hue_def)
  ultimately show ?thesis
    using device_add_param_unique [of ?i ex_rm2 1 4, OF _ _ prod.collapse [symmetric]] by simp
qed

end
