(* ===== verification/Rm_Node.thy ===== *)
theory Rm_Node
  imports Rm_Device
begin

text \<open>
  The node: \<open>esp_rmaker_node.c\<close>. The device chain of a node interprets \<open>keyed_chain\<close>; its
  attribute chain does not, because the walk of \<open>esp_rmaker_node_add_attribute\<close> stops before
  the last attribute (\<open>node_attr_last_unchecked\<close>).
\<close>

definition esp_rmaker_attribute_delete :: "(string \<times> string) option \<Rightarrow> esp_err" where
  "esp_rmaker_attribute_delete attr = (case attr of None \<Rightarrow> ESP_ERR_INVALID_ARG | Some _ \<Rightarrow> ESP_OK)"

fun delete_devices :: "nat list \<Rightarrow> 'a rm_scheme \<Rightarrow> 'a rm_scheme" where
  "delete_devices [] s = s"
| "delete_devices (d # ds) s =
     (let s = upd_device d (\<lambda>r. r\<lparr>d_parent := None\<rparr>) s
      in delete_devices ds (snd (esp_rmaker_device_delete (Some d) s)))"

text \<open>The node structure itself is not freed; its info block is.\<close>

definition esp_rmaker_node_delete :: "nat option \<Rightarrow> 'a rm_scheme \<Rightarrow> esp_err \<times> 'a rm_scheme" where
  "esp_rmaker_node_delete node s =
     (case node of None \<Rightarrow> (ESP_ERR_INVALID_ARG, s)
      | Some n \<Rightarrow> (ESP_OK, upd_node n (\<lambda>_. node0) (delete_devices (n_devices (nheap s n)) s)))"

text \<open>\<open>strdup\<close> of a string: \<open>None\<close> when there is no memory.\<close>

definition strdup :: "string \<Rightarrow> 'a rm_scheme \<Rightarrow> string option \<times> 'a rm_scheme" where
  "strdup t s = (let (ok, s) = alloc s in (if ok then Some t else None, s))"

text \<open>\<open>app_desc\<close> is \<open>esp_ota_get_app_description\<close>'s version and project name.\<close>

definition esp_rmaker_node_create ::
  "string \<times> string \<Rightarrow> string option \<Rightarrow> string option \<Rightarrow> 'a rm_scheme \<Rightarrow> nat option \<times> 'a rm_scheme" where
  "esp_rmaker_node_create app_desc name type s =
     (if node_created s then (None, s)
      else case (name, type) of
        (Some nm, Some ty) \<Rightarrow>
          let (ok, s) = alloc s
          in if \<not> ok then (None, s)
             else
               let n = next_ref s;
                   s = upd_node n (\<lambda>_. node0\<lparr>n_id := esp_rmaker_get_node_id s\<rparr>)
                         (s\<lparr>next_ref := n + 1\<rparr>)
               in if esp_rmaker_get_node_id s = None
                  then (None, snd (esp_rmaker_node_delete (Some n) s))
                  else
                    let (ok, s) = alloc s
                    in if \<not> ok then (None, snd (esp_rmaker_node_delete (Some n) s))
                       else
                         let (a, s) = strdup nm s; (b, s) = strdup ty s;
                             (c, s) = strdup (fst app_desc) s; (d, s) = strdup (snd app_desc) s;
                             s = upd_node n (\<lambda>r. r\<lparr>n_info := Some \<lparr>ni_name = a, ni_type = b,
                                   ni_fw_version = c, ni_model = d\<rparr>\<rparr>) s
                         in if a = None \<or> b = None \<or> c = None \<or> d = None
                            then (None, snd (esp_rmaker_node_delete (Some n) s))
                            else (Some n, s\<lparr>node_created := True\<rparr>)
      | _ \<Rightarrow> (None, s))"

definition esp_rmaker_node_get_info :: "nat option \<Rightarrow> 'a rm_scheme \<Rightarrow> node_info option" where
  "esp_rmaker_node_get_info node s = (case node of None \<Rightarrow> None | Some n \<Rightarrow> n_info (nheap s n))"

definition set_info :: "nat \<Rightarrow> (node_info \<Rightarrow> node_info) \<Rightarrow> 'a rm_scheme \<Rightarrow> 'a rm_scheme" where
  "set_info n f s = upd_node n (\<lambda>r. r\<lparr>n_info := map_option f (n_info r)\<rparr>) s"

definition esp_rmaker_node_add_fw_version ::
  "nat option \<Rightarrow> string option \<Rightarrow> 'a rm_scheme \<Rightarrow> esp_err \<times> 'a rm_scheme" where
  "esp_rmaker_node_add_fw_version node fw_version s =
     (case (node, fw_version) of
        (Some n, Some t) \<Rightarrow>
          if esp_rmaker_node_get_info node s = None then (ESP_ERR_INVALID_ARG, s)
          else let (r, s) = strdup t s
               in (ESP_OK, set_info n (\<lambda>i. i\<lparr>ni_fw_version := r\<rparr>) s)
      | _ \<Rightarrow> (ESP_ERR_INVALID_ARG, s))"

definition esp_rmaker_node_add_model ::
  "nat option \<Rightarrow> string option \<Rightarrow> 'a rm_scheme \<Rightarrow> esp_err \<times> 'a rm_scheme" where
  "esp_rmaker_node_add_model node model s =
     (case (node, model) of
        (Some n, Some t) \<Rightarrow>
          if esp_rmaker_node_get_info node s = None then (ESP_ERR_INVALID_ARG, s)
          else let (r, s) = strdup t s in (ESP_OK, set_info n (\<lambda>i. i\<lparr>ni_model := r\<rparr>) s)
      | _ \<Rightarrow> (ESP_ERR_INVALID_ARG, s))"

text \<open>The loop \<open>while (attr && attr->next)\<close>: whether it meets the name.\<close>

fun node_attr_taken :: "string \<Rightarrow> (string \<times> string) list \<Rightarrow> bool" where
  "node_attr_taken nm [] = False"
| "node_attr_taken nm [a] = False"
| "node_attr_taken nm (a # b # as) = (if fst a = nm then True else node_attr_taken nm (b # as))"

definition esp_rmaker_node_add_attribute ::
  "nat option \<Rightarrow> string option \<Rightarrow> string option \<Rightarrow> 'a rm_scheme \<Rightarrow> esp_err \<times> 'a rm_scheme" where
  "esp_rmaker_node_add_attribute node attr_name val s =
     (case (node, attr_name, val) of
        (Some n, Some nm, Some v) \<Rightarrow>
          if node_attr_taken nm (n_attrs (nheap s n)) then (ESP_FAIL, s)
          else let (ok, s) = alloc s
               in if \<not> ok then (ESP_ERR_NO_MEM, s)
                  else let (a, s) = strdup nm s; (b, s) = strdup v s
                       in if a = None \<or> b = None then (ESP_ERR_NO_MEM, s)
                          else (ESP_OK, upd_node n (\<lambda>r. r\<lparr>n_attrs := n_attrs r @ [(nm, v)]\<rparr>) s)
      | _ \<Rightarrow> (ESP_ERR_INVALID_ARG, s))"

subsection \<open>Devices of a node\<close>

definition device_key :: "'a rm_scheme \<Rightarrow> nat \<Rightarrow> string" where
  "device_key s d = d_name (dheap s d)"

fun device_chain_add :: "'a rm_scheme \<Rightarrow> nat \<Rightarrow> nat list \<Rightarrow> nat list option" where
  "device_chain_add s new [] = Some [new]"
| "device_chain_add s new (d # ds) =
     (if d_name (dheap s d) = d_name (dheap s new) then None
      else map_option ((#) d) (device_chain_add s new ds))"

definition esp_rmaker_node_add_device ::
  "nat option \<Rightarrow> nat option \<Rightarrow> 'a rm_scheme \<Rightarrow> esp_err \<times> 'a rm_scheme" where
  "esp_rmaker_node_add_device node device s =
     (case (node, device) of
        (Some n, Some d) \<Rightarrow>
          (case device_chain_add s d (n_devices (nheap s n)) of
             None \<Rightarrow> (ESP_ERR_INVALID_ARG, s)
           | Some ds \<Rightarrow>
               (ESP_OK, upd_device d (\<lambda>r. r\<lparr>d_parent := Some n\<rparr>)
                  (upd_node n (\<lambda>r. r\<lparr>n_devices := ds\<rparr>) s)))
      | _ \<Rightarrow> (ESP_ERR_INVALID_ARG, s))"

definition esp_rmaker_node_remove_device ::
  "nat option \<Rightarrow> nat option \<Rightarrow> 'a rm_scheme \<Rightarrow> esp_err \<times> 'a rm_scheme" where
  "esp_rmaker_node_remove_device node device s =
     (case (node, device) of
        (Some n, Some d) \<Rightarrow>
          if d \<notin> set (n_devices (nheap s n)) then (ESP_ERR_INVALID_ARG, s)
          else (ESP_OK, upd_device d (\<lambda>r. r\<lparr>d_parent := None\<rparr>)
                 (upd_node n (\<lambda>r. r\<lparr>n_devices := remove1 d (n_devices r)\<rparr>) s))
      | _ \<Rightarrow> (ESP_ERR_INVALID_ARG, s))"

fun find_device :: "'a rm_scheme \<Rightarrow> string \<Rightarrow> nat list \<Rightarrow> nat option" where
  "find_device s nm [] = None"
| "find_device s nm (d # ds) = (if d_name (dheap s d) = nm then Some d else find_device s nm ds)"

definition esp_rmaker_node_get_device_by_name ::
  "nat option \<Rightarrow> string option \<Rightarrow> 'a rm_scheme \<Rightarrow> nat option" where
  "esp_rmaker_node_get_device_by_name node device_name s =
     (case (node, device_name) of
        (Some n, Some nm) \<Rightarrow> find_device s nm (n_devices (nheap s n))
      | _ \<Rightarrow> None)"

definition esp_rmaker_node_get_first_attribute :: "nat option \<Rightarrow> 'a rm_scheme \<Rightarrow> (string \<times> string) list" where
  "esp_rmaker_node_get_first_attribute node s =
     (case node of None \<Rightarrow> [] | Some n \<Rightarrow> n_attrs (nheap s n))"

definition esp_rmaker_node_get_id :: "nat option \<Rightarrow> 'a rm_scheme \<Rightarrow> string option" where
  "esp_rmaker_node_get_id node s = (case node of None \<Rightarrow> None | Some n \<Rightarrow> n_id (nheap s n))"

subsection \<open>The device chain meets the interface\<close>

lemma device_chain_add_eq:
  "device_chain_add s new ds =
     (if device_key s new \<in> device_key s ` set ds then None else Some (ds @ [new]))"
  by (induction ds) (auto simp: device_key_def)

lemma find_device_eq: "find_device s nm ds = List.find (\<lambda>d. device_key s d = nm) ds"
  by (induction ds) (auto simp: device_key_def)

interpretation devices: keyed_chain "device_key s" "device_chain_add s" "find_device s"
  for s :: "'a rm_scheme"
  by unfold_locales (auto simp: device_chain_add_eq find_device_eq)

text \<open>The node's attribute walk: only the attributes before the last are compared.\<close>

lemma node_attr_last_unchecked: "node_attr_taken nm as \<longleftrightarrow> nm \<in> fst ` set (butlast as)"
  by (induction nm as rule: node_attr_taken.induct) auto

text \<open>
  The chain of a node is well formed: its names are distinct, every device in it has the
  node as parent, and no other device has.
\<close>

definition node_wf :: "nat \<Rightarrow> 'a rm_scheme \<Rightarrow> bool" where
  "node_wf n s \<longleftrightarrow> distinct (map (device_key s) (n_devices (nheap s n)))
     \<and> (\<forall>d. d_parent (dheap s d) = Some n \<longleftrightarrow> d \<in> set (n_devices (nheap s n)))"

lemma node_wf_distinct: "node_wf n s \<Longrightarrow> distinct (n_devices (nheap s n))"
  by (simp add: node_wf_def distinct_map)

lemma device_key_upd_parent [simp]:
  "device_key (upd_device d (\<lambda>r. r\<lparr>d_parent := x\<rparr>) s) = device_key s"
  "device_key (upd_node n h s) = device_key s"
  by (simp_all add: device_key_def fun_eq_iff)

lemma add_device_wf:
  assumes "node_wf n s" "esp_rmaker_node_add_device (Some n) (Some d) s = (err, s')"
  shows "node_wf n s'"
proof (cases "device_chain_add s d (n_devices (nheap s n))")
  case None
  then show ?thesis using assms by (simp add: esp_rmaker_node_add_device_def)
next
  case (Some ds)
  have "distinct (map (device_key s) ds)"
    using assms devices.add_keeps_distinct [OF _ Some] by (simp add: node_wf_def)
  moreover have "ds = n_devices (nheap s n) @ [d]"
    using Some by (simp add: devices.add_Some)
  ultimately show ?thesis
    using assms Some by (auto simp: esp_rmaker_node_add_device_def node_wf_def)
qed

lemma remove_device_wf:
  assumes "node_wf n s" "esp_rmaker_node_remove_device (Some n) (Some d) s = (err, s')"
  shows "node_wf n s'"
proof (cases "d \<in> set (n_devices (nheap s n))")
  case True
  then show ?thesis
    using assms node_wf_distinct [OF assms(1)]
    by (auto simp: esp_rmaker_node_remove_device_def node_wf_def distinct_map
        intro: inj_on_subset split: if_splits)
next
  case False
  then show ?thesis using assms by (simp add: esp_rmaker_node_remove_device_def)
qed

subsection \<open>Properties\<close>

text \<open>Adding a device. On a well-formed node (distinct names, parents and chain agree)
  \<open>esp_rmaker_node_add_device\<close> refuses a name that is in use and changes nothing; otherwise the
  node stays well formed, the device is found under its name, every other name finds what it
  found before, and the device cannot be deleted while it is part of the node.\<close>
theorem node_add_device_spec:
  assumes "node_wf n s" "esp_rmaker_node_add_device (Some n) (Some d) s = (err, s')"
  shows "node_wf n s' \<and>
    (if esp_rmaker_node_get_device_by_name (Some n) (Some (device_key s d)) s \<noteq> None
     then err = ESP_ERR_INVALID_ARG \<and> s' = s
     else err = ESP_OK
       \<and> esp_rmaker_node_get_device_by_name (Some n) (Some (device_key s d)) s' = Some d
       \<and> (\<forall>nm. nm \<noteq> device_key s d \<longrightarrow>
            esp_rmaker_node_get_device_by_name (Some n) (Some nm) s'
              = esp_rmaker_node_get_device_by_name (Some n) (Some nm) s)
       \<and> esp_rmaker_device_delete (Some d) s' = (ESP_ERR_INVALID_STATE, s'))"
proof (cases "device_chain_add s d (n_devices (nheap s n))")
  case None
  then show ?thesis
    using assms devices.add_iff_lookup [of s d "n_devices (nheap s n)"]
    by (simp add: esp_rmaker_node_add_device_def esp_rmaker_node_get_device_by_name_def)
next
  case (Some ds)
  then have free: "find_device s (device_key s d) (n_devices (nheap s n)) = None"
    using devices.add_iff_lookup [of s d "n_devices (nheap s n)"] by auto
  have run: "err = ESP_OK" "s' = upd_device d (\<lambda>r. r\<lparr>d_parent := Some n\<rparr>)
      (upd_node n (\<lambda>r. r\<lparr>n_devices := ds\<rparr>) s)"
    using assms(2) Some by (simp_all add: esp_rmaker_node_add_device_def)
  have find: "find_device s' = find_device s"
    by (simp add: find_device_eq fun_eq_iff run)
  show ?thesis
    using add_device_wf [OF assms] run find free devices.lookup_added [OF Some]
      devices.lookup_after_add [OF Some]
    by (simp add: esp_rmaker_node_get_device_by_name_def esp_rmaker_device_delete_def)
qed

text \<open>Removing a device. \<open>esp_rmaker_node_remove_device\<close> answers
  \<open>ESP_ERR_INVALID_ARG\<close> and changes nothing for a device that is not in the node; otherwise the
  node stays well formed, the name is free again, the other names find what they found before,
  and adding the device again succeeds.\<close>
theorem node_remove_device_spec:
  assumes "node_wf n s" "esp_rmaker_node_remove_device (Some n) (Some d) s = (err, s')"
  shows "node_wf n s' \<and>
    (if d \<notin> set (n_devices (nheap s n)) then err = ESP_ERR_INVALID_ARG \<and> s' = s
     else err = ESP_OK
       \<and> esp_rmaker_node_get_device_by_name (Some n) (Some (device_key s d)) s' = None
       \<and> (\<forall>nm. nm \<noteq> device_key s d \<longrightarrow>
            esp_rmaker_node_get_device_by_name (Some n) (Some nm) s'
              = esp_rmaker_node_get_device_by_name (Some n) (Some nm) s)
       \<and> fst (esp_rmaker_node_add_device (Some n) (Some d) s') = ESP_OK)"
proof (cases "d \<in> set (n_devices (nheap s n))")
  case False
  then show ?thesis using assms by (simp add: esp_rmaker_node_remove_device_def)
next
  case True
  let ?ds = "n_devices (nheap s n)"
  have run: "err = ESP_OK" "s' = upd_device d (\<lambda>r. r\<lparr>d_parent := None\<rparr>)
      (upd_node n (\<lambda>r. r\<lparr>n_devices := remove1 d (n_devices r)\<rparr>) s)"
    using assms(2) True by (simp_all add: esp_rmaker_node_remove_device_def)
  have dist: "distinct ?ds" "inj_on (device_key s) (set ?ds)"
    using assms(1) by (simp_all add: node_wf_def distinct_map)
  have key: "device_key s' = device_key s"
    by (simp add: run)
  have free: "device_key s d \<notin> device_key s ` set (remove1 d ?ds)"
    using dist True by (auto simp: inj_on_def)
  have others: "find_device s nm (remove1 d ds) = find_device s nm ds"
    if "nm \<noteq> device_key s d" for nm ds
    using that by (induction ds) (auto simp: device_key_def)
  have find: "find_device s' = find_device s"
    by (simp add: find_device_eq fun_eq_iff run)
  have "device_chain_add s' d (n_devices (nheap s' n)) = Some (remove1 d ?ds @ [d])"
    using free key by (simp add: device_chain_add_eq run)
  then show ?thesis
    using remove_device_wf [OF assms] run find free others True
    by (simp add: esp_rmaker_node_get_device_by_name_def devices.lookup_None
        esp_rmaker_node_add_device_def)
qed

definition ex_rm3 :: rm where
  "ex_rm3 = ex_rm\<lparr>dheap := (dheap ex_rm)(5 := device0\<lparr>d_name := ''Fan''\<rparr>), next_ref := 6\<rparr>"

lemma ex_rm3_wf: "node_wf 0 ex_rm3"
  by (auto simp: node_wf_def ex_rm3_def ex_defs device_key_def)

theorem node_add_device_spec_witness:
  "fst (esp_rmaker_node_add_device (Some 0) (Some 5) ex_rm3) = ESP_OK"
  using node_add_device_spec [OF ex_rm3_wf prod.collapse [symmetric], of 5]
  by (simp add: esp_rmaker_node_get_device_by_name_def ex_rm3_def ex_defs device_key_def)

theorem node_remove_device_spec_witness:
  "esp_rmaker_node_get_device_by_name (Some 0) (Some ''Light'')
     (snd (esp_rmaker_node_remove_device (Some 0) (Some 1) ex_rm3)) = None"
proof -
  have "device_key ex_rm3 1 = ''Light''" "1 \<in> set (n_devices (nheap ex_rm3 0))"
    by (simp_all add: ex_rm3_def ex_defs device_key_def)
  then show ?thesis
    using node_remove_device_spec [OF ex_rm3_wf prod.collapse [symmetric], of 1] by simp
qed

end
