(* ===== verification/Rm_Standard.thy ===== *)
theory Rm_Standard
  imports Rm_Node
begin

text \<open>
  The standard parameters, devices and services: the constructors of
  \<open>esp_rmaker_standard_params.c\<close>, \<open>esp_rmaker_standard_devices.c\<close> and
  \<open>esp_rmaker_standard_services.c\<close>, each the calls its C function makes, in order.
  The property flags are \<open>WRITE = 1\<close>, \<open>READ = 2\<close>, \<open>TIME_SERIES = 4\<close>, \<open>PERSIST = 8\<close>.
\<close>

subsection \<open>Parameters\<close>

text \<open>The common shape: create, and when that worked add a UI type and integer bounds.\<close>

definition bounded_param ::
  "string option \<Rightarrow> string \<Rightarrow> int \<Rightarrow> string \<Rightarrow> int \<Rightarrow> int \<Rightarrow> int \<Rightarrow> 'a rm_scheme \<Rightarrow> nat option \<times> 'a rm_scheme"
  where
  "bounded_param param_name ty val ui mn mx step s =
     (let (param, s) = esp_rmaker_param_create param_name (Some ty) (esp_rmaker_int val) 3 s
      in if param = None then (None, s)
         else let (_, s) = esp_rmaker_param_add_ui_type param (Some ui) s;
                  (_, s) = esp_rmaker_param_add_bounds param (esp_rmaker_int mn) (esp_rmaker_int mx)
                             (esp_rmaker_int step) s
              in (param, s))"

definition esp_rmaker_name_param_create ::
  "string option \<Rightarrow> string option \<Rightarrow> 'a rm_scheme \<Rightarrow> nat option \<times> 'a rm_scheme" where
  "esp_rmaker_name_param_create param_name val s =
     esp_rmaker_param_create param_name (Some ESP_RMAKER_PARAM_NAME) (esp_rmaker_str val) 11 s"

definition esp_rmaker_power_param_create ::
  "string option \<Rightarrow> bool \<Rightarrow> 'a rm_scheme \<Rightarrow> nat option \<times> 'a rm_scheme" where
  "esp_rmaker_power_param_create param_name val s =
     (let (param, s) = esp_rmaker_param_create param_name (Some ''esp.param.power'')
            (esp_rmaker_bool val) 3 s
      in if param = None then (None, s)
         else let (_, s) = esp_rmaker_param_add_ui_type param (Some ''esp.ui.toggle'') s
              in (param, s))"

definition esp_rmaker_brightness_param_create ::
  "string option \<Rightarrow> int \<Rightarrow> 'a rm_scheme \<Rightarrow> nat option \<times> 'a rm_scheme" where
  "esp_rmaker_brightness_param_create param_name val s =
     bounded_param param_name ''esp.param.brightness'' val ''esp.ui.slider'' 0 100 1 s"

definition esp_rmaker_hue_param_create ::
  "string option \<Rightarrow> int \<Rightarrow> 'a rm_scheme \<Rightarrow> nat option \<times> 'a rm_scheme" where
  "esp_rmaker_hue_param_create param_name val s =
     bounded_param param_name ''esp.param.hue'' val ''esp.ui.hue-slider'' 0 360 1 s"

definition esp_rmaker_saturation_param_create ::
  "string option \<Rightarrow> int \<Rightarrow> 'a rm_scheme \<Rightarrow> nat option \<times> 'a rm_scheme" where
  "esp_rmaker_saturation_param_create param_name val s =
     bounded_param param_name ''esp.param.saturation'' val ''esp.ui.slider'' 0 100 1 s"

definition esp_rmaker_intensity_param_create ::
  "string option \<Rightarrow> int \<Rightarrow> 'a rm_scheme \<Rightarrow> nat option \<times> 'a rm_scheme" where
  "esp_rmaker_intensity_param_create param_name val s =
     bounded_param param_name ''esp.param.intensity'' val ''esp.ui.slider'' 0 100 1 s"

definition esp_rmaker_cct_param_create ::
  "string option \<Rightarrow> int \<Rightarrow> 'a rm_scheme \<Rightarrow> nat option \<times> 'a rm_scheme" where
  "esp_rmaker_cct_param_create param_name val s =
     bounded_param param_name ''esp.param.cct'' val ''esp.ui.slider'' 2700 6500 100 s"

definition esp_rmaker_direction_param_create ::
  "string option \<Rightarrow> int \<Rightarrow> 'a rm_scheme \<Rightarrow> nat option \<times> 'a rm_scheme" where
  "esp_rmaker_direction_param_create param_name val s =
     bounded_param param_name ''esp.param.direction'' val ''esp.ui.dropdown'' 0 1 1 s"

definition esp_rmaker_speed_param_create ::
  "string option \<Rightarrow> int \<Rightarrow> 'a rm_scheme \<Rightarrow> nat option \<times> 'a rm_scheme" where
  "esp_rmaker_speed_param_create param_name val s =
     bounded_param param_name ''esp.param.speed'' val ''esp.ui.slider'' 0 5 1 s"

definition esp_rmaker_temperature_param_create ::
  "string option \<Rightarrow> u32 \<Rightarrow> 'a rm_scheme \<Rightarrow> nat option \<times> 'a rm_scheme" where
  "esp_rmaker_temperature_param_create param_name val s =
     esp_rmaker_param_create param_name (Some ''esp.param.temperature'') (esp_rmaker_float val) 2 s"

definition esp_rmaker_ota_status_param_create ::
  "string option \<Rightarrow> 'a rm_scheme \<Rightarrow> nat option \<times> 'a rm_scheme" where
  "esp_rmaker_ota_status_param_create param_name s =
     esp_rmaker_param_create param_name (Some ''esp.param.ota_status'') (esp_rmaker_str (Some [])) 2 s"

definition esp_rmaker_ota_info_param_create ::
  "string option \<Rightarrow> 'a rm_scheme \<Rightarrow> nat option \<times> 'a rm_scheme" where
  "esp_rmaker_ota_info_param_create param_name s =
     esp_rmaker_param_create param_name (Some ''esp.param.ota_info'') (esp_rmaker_str (Some [])) 2 s"

definition esp_rmaker_ota_url_param_create ::
  "string option \<Rightarrow> 'a rm_scheme \<Rightarrow> nat option \<times> 'a rm_scheme" where
  "esp_rmaker_ota_url_param_create param_name s =
     esp_rmaker_param_create param_name (Some ''esp.param.ota_url'') (esp_rmaker_str (Some [])) 1 s"

definition esp_rmaker_timezone_param_create ::
  "string option \<Rightarrow> string option \<Rightarrow> 'a rm_scheme \<Rightarrow> nat option \<times> 'a rm_scheme" where
  "esp_rmaker_timezone_param_create param_name val s =
     esp_rmaker_param_create param_name (Some ''esp.param.tz'') (esp_rmaker_str val) 3 s"

definition esp_rmaker_timezone_posix_param_create ::
  "string option \<Rightarrow> string option \<Rightarrow> 'a rm_scheme \<Rightarrow> nat option \<times> 'a rm_scheme" where
  "esp_rmaker_timezone_posix_param_create param_name val s =
     esp_rmaker_param_create param_name (Some ''esp.param.tz_posix'') (esp_rmaker_str val) 3 s"

definition esp_rmaker_schedules_param_create ::
  "string option \<Rightarrow> int \<Rightarrow> 'a rm_scheme \<Rightarrow> nat option \<times> 'a rm_scheme" where
  "esp_rmaker_schedules_param_create param_name max_schedules s =
     (let (param, s) = esp_rmaker_param_create param_name (Some ''esp.param.schedules'')
            (esp_rmaker_array (Some ''[]'')) 11 s;
          (_, s) = esp_rmaker_param_add_array_max_count param max_schedules s
      in (param, s))"

definition esp_rmaker_reboot_param_create ::
  "string option \<Rightarrow> 'a rm_scheme \<Rightarrow> nat option \<times> 'a rm_scheme" where
  "esp_rmaker_reboot_param_create param_name s =
     esp_rmaker_param_create param_name (Some ''esp.param.reboot'') (esp_rmaker_bool False) 3 s"

definition esp_rmaker_factory_reset_param_create ::
  "string option \<Rightarrow> 'a rm_scheme \<Rightarrow> nat option \<times> 'a rm_scheme" where
  "esp_rmaker_factory_reset_param_create param_name s =
     esp_rmaker_param_create param_name (Some ''esp.param.factory-reset'') (esp_rmaker_bool False) 3 s"

definition esp_rmaker_wifi_reset_param_create ::
  "string option \<Rightarrow> 'a rm_scheme \<Rightarrow> nat option \<times> 'a rm_scheme" where
  "esp_rmaker_wifi_reset_param_create param_name s =
     esp_rmaker_param_create param_name (Some ''esp.param.wifi-reset'') (esp_rmaker_bool False) 3 s"

subsection \<open>Devices\<close>

text \<open>Add a parameter that a constructor returned.\<close>

definition add_created ::
  "('a rm_scheme) write_fn \<Rightarrow> nat option \<Rightarrow> nat option \<times> 'a rm_scheme \<Rightarrow> 'a rm_scheme" where
  "add_created invoke device r = snd (esp_rmaker_device_add_param invoke device (fst r) (snd r))"

text \<open>
  A device with its name parameter and a primary one; the first two constructors differ in
  the type only. The device has no write callback yet, so adding cannot invoke one.
\<close>

definition std_device ::
  "('a rm_scheme) write_fn \<Rightarrow> string \<Rightarrow> ('a rm_scheme \<Rightarrow> nat option \<times> 'a rm_scheme) \<Rightarrow> string option
     \<Rightarrow> int list \<Rightarrow> 'a rm_scheme \<Rightarrow> nat option \<times> 'a rm_scheme" where
  "std_device invoke ty mk_primary dev_name pd s =
     (let (device, s) = esp_rmaker_device_create dev_name (Some ty) pd s
      in if device = None then (None, s)
         else let s = add_created invoke device (esp_rmaker_name_param_create (Some ''Name'') dev_name s);
                  (primary, s) = mk_primary s;
                  (_, s) = esp_rmaker_device_add_param invoke device primary s;
                  (_, s) = esp_rmaker_device_assign_primary_param device primary s
              in (device, s))"

definition esp_rmaker_switch_device_create ::
  "('a rm_scheme) write_fn \<Rightarrow> string option \<Rightarrow> int list \<Rightarrow> bool \<Rightarrow> 'a rm_scheme \<Rightarrow> nat option \<times> 'a rm_scheme" where
  "esp_rmaker_switch_device_create invoke dev_name pd pw s =
     std_device invoke ''esp.device.switch''
       (esp_rmaker_power_param_create (Some ''Power'') pw) dev_name pd s"

definition esp_rmaker_lightbulb_device_create ::
  "('a rm_scheme) write_fn \<Rightarrow> string option \<Rightarrow> int list \<Rightarrow> bool \<Rightarrow> 'a rm_scheme \<Rightarrow> nat option \<times> 'a rm_scheme" where
  "esp_rmaker_lightbulb_device_create invoke dev_name pd pw s =
     std_device invoke ''esp.device.lightbulb''
       (esp_rmaker_power_param_create (Some ''Power'') pw) dev_name pd s"

definition esp_rmaker_fan_device_create ::
  "('a rm_scheme) write_fn \<Rightarrow> string option \<Rightarrow> int list \<Rightarrow> bool \<Rightarrow> 'a rm_scheme \<Rightarrow> nat option \<times> 'a rm_scheme" where
  "esp_rmaker_fan_device_create invoke dev_name pd pw s =
     std_device invoke ''esp.device.fan''
       (esp_rmaker_power_param_create (Some ''Power'') pw) dev_name pd s"

definition esp_rmaker_temp_sensor_device_create ::
  "('a rm_scheme) write_fn \<Rightarrow> string option \<Rightarrow> int list \<Rightarrow> u32 \<Rightarrow> 'a rm_scheme \<Rightarrow> nat option \<times> 'a rm_scheme" where
  "esp_rmaker_temp_sensor_device_create invoke dev_name pd temperature s =
     std_device invoke ''esp.device.temperature-sensor''
       (esp_rmaker_temperature_param_create (Some ''Temperature'') temperature) dev_name pd s"

subsection \<open>Services\<close>

definition esp_rmaker_ota_service_create ::
  "('a rm_scheme) write_fn \<Rightarrow> string option \<Rightarrow> int list \<Rightarrow> 'a rm_scheme \<Rightarrow> nat option \<times> 'a rm_scheme" where
  "esp_rmaker_ota_service_create invoke serv_name pd s =
     (let (service, s) = esp_rmaker_service_create serv_name (Some ''esp.service.ota'') pd s
      in if service = None then (None, s)
         else let s = add_created invoke service (esp_rmaker_ota_status_param_create (Some ''Status'') s);
                  s = add_created invoke service (esp_rmaker_ota_info_param_create (Some ''Info'') s);
                  s = add_created invoke service (esp_rmaker_ota_url_param_create (Some ''URL'') s)
              in (service, s))"

definition esp_rmaker_time_service_create ::
  "('a rm_scheme) write_fn \<Rightarrow> string option \<Rightarrow> string option \<Rightarrow> string option \<Rightarrow> int list
     \<Rightarrow> 'a rm_scheme \<Rightarrow> nat option \<times> 'a rm_scheme" where
  "esp_rmaker_time_service_create invoke serv_name timezone timezone_posix pd s =
     (let (service, s) = esp_rmaker_service_create serv_name (Some ''esp.service.time'') pd s
      in if service = None then (None, s)
         else let s = add_created invoke service
                        (esp_rmaker_timezone_param_create (Some ''TZ'') timezone s);
                  s = add_created invoke service
                        (esp_rmaker_timezone_posix_param_create (Some ''TZ-POSIX'') timezone_posix s)
              in (service, s))"

definition esp_rmaker_create_schedule_service ::
  "('a rm_scheme) write_fn \<Rightarrow> string option \<Rightarrow> string option \<Rightarrow> string option \<Rightarrow> int \<Rightarrow> int list
     \<Rightarrow> 'a rm_scheme \<Rightarrow> nat option \<times> 'a rm_scheme" where
  "esp_rmaker_create_schedule_service invoke serv_name wcb rcb max_schedules pd s =
     (let (service, s) = esp_rmaker_service_create serv_name (Some ''esp.service.schedule'') pd s
      in if service = None then (None, s)
         else let (_, s) = esp_rmaker_device_add_cb service wcb rcb s;
                  s = add_created invoke service
                        (esp_rmaker_schedules_param_create (Some ''Schedules'') max_schedules s)
              in (service, s))"

definition esp_rmaker_create_system_service ::
  "string option \<Rightarrow> int list \<Rightarrow> 'a rm_scheme \<Rightarrow> nat option \<times> 'a rm_scheme" where
  "esp_rmaker_create_system_service serv_name pd s =
     esp_rmaker_service_create serv_name (Some ''esp.service.system'') pd s"

end
