(* ===== verification/Rm_Reset.thy ===== *)
theory Rm_Reset
  imports Rm_Standard
begin

text \<open>
  Reboot and reset: \<open>rmaker_common/src/utils.c\<close>, and the system service of
  \<open>esp_rmaker_system_service.c\<close> that exposes it to the cloud.

  \<open>reboot_timer\<close> tells whether the handle is set; \<open>reset_timer\<close> is the callback of the
  reset timer and the reboot delay its id points to (\<open>None\<close> for a \<open>NULL\<close> id). A timer is
  created if the heap has room for it; starting one is answered by the SDK. A call of
  \<open>esp_restart\<close> is recorded, what would follow it on the device does not happen.
\<close>

datatype reset_kind = Wifi_Reset | Factory_Reset

record lib = rm +
  reboot_timer :: bool
  reset_timer :: "(reset_kind \<times> int option) option"

abbreviation common_event :: "int \<Rightarrow> effect" where
  "common_event n \<equiv> Net (EventPost ''RMAKER_COMMON_EVENT'' n)"

definition esp_rmaker_reboot_cb :: "'a lib_scheme \<Rightarrow> 'a lib_scheme" where
  "esp_rmaker_reboot_cb s =
     (let s = emit (Os (RtosTimerDelete ''rmaker_reboot_tm'')) s;
          s = s\<lparr>reboot_timer := False\<rparr>
      in emit (Os Restart) s)"

definition esp_rmaker_reboot :: "int \<Rightarrow> 'a lib_scheme \<Rightarrow> esp_err \<times> 'a lib_scheme" where
  "esp_rmaker_reboot seconds s =
     (if seconds = 0 then (ESP_OK, emit (Os Restart) (emit (common_event 0) s))
      else if reboot_timer s then (ESP_FAIL, s)
      else
        let s = emit (Os (RtosTimerCreate ''rmaker_reboot_tm'' (seconds * 1000))) s;
            (ok, s) = alloc s
        in if \<not> ok then (ESP_ERR_NO_MEM, s)
           else
             let (r, s) = call (Os (RtosTimerStart ''rmaker_reboot_tm'')) (s\<lparr>reboot_timer := True\<rparr>)
             in if r \<noteq> pdTRUE
                then (ESP_FAIL, (emit (Os (RtosTimerDelete ''rmaker_reboot_tm'')) s)\<lparr>reboot_timer := False\<rparr>)
                else (ESP_OK, emit (common_event 0) s))"

definition esp_rmaker_wifi_reset_now :: "int \<Rightarrow> 'a lib_scheme \<Rightarrow> esp_err \<times> 'a lib_scheme" where
  "esp_rmaker_wifi_reset_now reboot_seconds s =
     (let s = emit (Net WifiRestore) s
      in (ESP_OK, if 0 \<le> reboot_seconds then snd (esp_rmaker_reboot reboot_seconds s) else s))"

definition esp_rmaker_factory_reset_now :: "int \<Rightarrow> 'a lib_scheme \<Rightarrow> esp_err \<times> 'a lib_scheme" where
  "esp_rmaker_factory_reset_now reboot_seconds s =
     (let s = emit (Os NvsFlashErase) (emit (Os NvsFlashDeinit) s)
      in (ESP_OK, if 0 \<le> reboot_seconds then snd (esp_rmaker_reboot reboot_seconds s) else s))"

definition esp_rmaker_wifi_reset_cb :: "'a lib_scheme \<Rightarrow> 'a lib_scheme" where
  "esp_rmaker_wifi_reset_cb s =
     (let delay = (case reset_timer s of Some (_, Some d) \<Rightarrow> d | _ \<Rightarrow> 0);
          (_, s) = esp_rmaker_wifi_reset_now delay s
      in (emit (Os (RtosTimerDelete ''rmaker_reset_tm'')) s)\<lparr>reset_timer := None\<rparr>)"

definition esp_rmaker_factory_reset_cb :: "'a lib_scheme \<Rightarrow> 'a lib_scheme" where
  "esp_rmaker_factory_reset_cb s =
     (let delay = (case reset_timer s of Some (_, Some d) \<Rightarrow> d | _ \<Rightarrow> 0);
          (_, s) = esp_rmaker_factory_reset_now delay s
      in (emit (Os (RtosTimerDelete ''rmaker_reset_tm'')) s)\<lparr>reset_timer := None\<rparr>)"

definition esp_rmaker_start_reset_timer ::
  "int \<Rightarrow> int \<Rightarrow> reset_kind \<Rightarrow> 'a lib_scheme \<Rightarrow> esp_err \<times> 'a lib_scheme" where
  "esp_rmaker_start_reset_timer reset_seconds reboot_seconds cb s =
     (if reset_timer s \<noteq> None then (ESP_FAIL, s)
      else
        let (has_delay, s) = alloc s;
            s = emit (Os (RtosTimerCreate ''rmaker_reset_tm'' (reset_seconds * 1000))) s;
            (ok, s) = alloc s
        in if \<not> ok then (ESP_ERR_NO_MEM, s)
           else
             let s = s\<lparr>reset_timer := Some (cb, if has_delay then Some reboot_seconds else None)\<rparr>;
                 (r, s) = call (Os (RtosTimerStart ''rmaker_reset_tm'')) s
             in if r \<noteq> pdTRUE
                then (ESP_FAIL, (emit (Os (RtosTimerDelete ''rmaker_reset_tm'')) s)\<lparr>reset_timer := None\<rparr>)
                else (ESP_OK, s))"

definition esp_rmaker_wifi_reset :: "int \<Rightarrow> int \<Rightarrow> 'a lib_scheme \<Rightarrow> esp_err \<times> 'a lib_scheme" where
  "esp_rmaker_wifi_reset reset_seconds reboot_seconds s =
     (let (err, s) = (if reset_seconds = 0 then esp_rmaker_wifi_reset_now reboot_seconds s
            else esp_rmaker_start_reset_timer reset_seconds reboot_seconds Wifi_Reset s)
      in (ESP_OK, if err = ESP_OK then emit (common_event 1) s else s))"

definition esp_rmaker_factory_reset :: "int \<Rightarrow> int \<Rightarrow> 'a lib_scheme \<Rightarrow> esp_err \<times> 'a lib_scheme" where
  "esp_rmaker_factory_reset reset_seconds reboot_seconds s =
     (let (err, s) = (if reset_seconds = 0 then esp_rmaker_factory_reset_now reboot_seconds s
            else esp_rmaker_start_reset_timer reset_seconds reboot_seconds Factory_Reset s)
      in (ESP_OK, if err = ESP_OK then emit (common_event 2) s else s))"

subsection \<open>The system service\<close>

text \<open>\<open>esp_rmaker_system_serv_config_t\<close> is the list of its fields: flags, reboot seconds, reset
  seconds, reset-reboot seconds.\<close>

definition cfg :: "int list \<Rightarrow> nat \<Rightarrow> int" where
  "cfg c n = (if n < length c then c ! n else 0)"

definition val_b :: "param_val \<Rightarrow> bool" where
  \<comment> \<open>the \<open>b\<close> member of the union\<close>
  "val_b v = (case v of VBool b \<Rightarrow> b | VInt i \<Rightarrow> i mod 256 \<noteq> 0 | VFloat f \<Rightarrow> and f 255 \<noteq> 0
      | VStr t \<Rightarrow> t \<noteq> None | VObj t \<Rightarrow> t \<noteq> None | VArr t \<Rightarrow> t \<noteq> None | VInvalid \<Rightarrow> False)"

definition esp_rmaker_system_serv_write_cb ::
  "nat \<Rightarrow> nat \<Rightarrow> param_val \<Rightarrow> req_src \<Rightarrow> 'a lib_scheme \<Rightarrow> esp_err \<times> 'a lib_scheme" where
  "esp_rmaker_system_serv_write_cb device param val src s =
     (let config = priv_data (dheap s device);
          ty = p_type (pheap s param);
          r = (if ty = Some ''esp.param.reboot'' then
                 Some (if val_b val then esp_rmaker_reboot (cfg config 1) s else (ESP_OK, s))
               else if ty = Some ''esp.param.factory-reset'' then
                 Some (if val_b val then esp_rmaker_factory_reset (cfg config 2) (cfg config 3) s
                       else (ESP_OK, s))
               else if ty = Some ''esp.param.wifi-reset'' then
                 Some (if val_b val then esp_rmaker_wifi_reset (cfg config 2) (cfg config 3) s
                       else (ESP_OK, s))
               else None)
      in case r of None \<Rightarrow> (ESP_FAIL, s)
         | Some (err, s) \<Rightarrow>
             (err, if err = ESP_OK then snd (esp_rmaker_param_update_and_report (Some param) val s) else s))"

definition esp_rmaker_system_service_enable ::
  "('a lib_scheme) write_fn \<Rightarrow> int list \<Rightarrow> 'a lib_scheme \<Rightarrow> esp_err \<times> 'a lib_scheme" where
  "esp_rmaker_system_service_enable invoke config s =
     (let has = (\<lambda>n. bit (cfg config 0) n)
      in if \<not> has 0 \<and> \<not> has 1 \<and> \<not> has 2 then (ESP_ERR_INVALID_ARG, s)
         else
           let (ok, s) = alloc s
           in if \<not> ok then (ESP_ERR_NO_MEM, s)
              else
                let (service, s) = esp_rmaker_create_system_service (Some ''System'') config s
                in if service = None then (ESP_ERR_NO_MEM, s)
                   else
                     let (_, s) = esp_rmaker_device_add_cb service
                           (Some ''esp_rmaker_system_serv_write_cb'') None s;
                         s = (if has 0 then add_created invoke service
                               (esp_rmaker_reboot_param_create (Some ''Reboot'') s) else s);
                         s = (if has 1 then add_created invoke service
                               (esp_rmaker_factory_reset_param_create (Some ''Factory-Reset'') s) else s);
                         s = (if has 2 then add_created invoke service
                               (esp_rmaker_wifi_reset_param_create (Some ''Wi-Fi-Reset'') s) else s);
                         (err, s) = esp_rmaker_node_add_device (esp_rmaker_get_node s) service s
                     in if err = ESP_OK then (err, s)
                        else (err, snd (esp_rmaker_device_delete service s)))"

subsection \<open>Timers\<close>

text \<open>The number of live timers of a name: creations that were started minus deletions.\<close>

definition starts :: "string \<Rightarrow> effect list \<Rightarrow> int" where
  "starts nm es = int (length (filter (\<lambda>e. e = Os (RtosTimerStart nm)) es))
     - int (length (filter (\<lambda>e. e = Os (RtosTimerDelete nm)) es))"

lemma starts_append [simp]: "starts nm (xs @ ys) = starts nm xs + starts nm ys"
  by (simp add: starts_def)

lemma starts_Nil [simp]: "starts nm [] = 0"
  by (simp add: starts_def)

definition reset_inv :: "'a lib_scheme \<Rightarrow> bool" where
  "reset_inv s \<longleftrightarrow> starts ''rmaker_reboot_tm'' (trace s) = (if reboot_timer s then 1 else 0)
     \<and> starts ''rmaker_reset_tm'' (trace s) = (if reset_timer s \<noteq> None then 1 else 0)"

lemma lib_fields [simp]:
  "reboot_timer (emit e s) = reboot_timer s" "reset_timer (emit e s) = reset_timer s"
  "reboot_timer (snd (call e s)) = reboot_timer s" "reset_timer (snd (call e s)) = reset_timer s"
  "reboot_timer (snd (alloc s)) = reboot_timer s" "reset_timer (snd (alloc s)) = reset_timer s"
  by (simp_all add: emit_def call_def ask_def alloc_def split: list.split)

lemma starts_one:
  "starts nm (e # es) = (if e = Os (RtosTimerStart nm) then 1 else 0)
     - (if e = Os (RtosTimerDelete nm) then 1 else 0) + starts nm es"
  by (simp add: starts_def)

lemma lib_call: "call e s = (r, t) \<Longrightarrow> reboot_timer t = reboot_timer s \<and> reset_timer t = reset_timer s"
  using lib_fields(3,4) [of e s] by simp

lemma lib_alloc: "alloc s = (b, t) \<Longrightarrow> reboot_timer t = reboot_timer s \<and> reset_timer t = reset_timer s"
  using lib_fields(5,6) [of s] by simp

lemmas env_facts = call_trace alloc_trace lib_call lib_alloc

lemma reboot_inv:
  assumes "reset_inv s" "esp_rmaker_reboot secs s = (err, s')"
  shows "reset_inv s' \<and> reset_timer s' = reset_timer s
    \<and> starts ''rmaker_reset_tm'' (trace s') = starts ''rmaker_reset_tm'' (trace s)"
proof (cases "secs = 0 \<or> reboot_timer s")
  case True
  then show ?thesis
    using assms by (auto simp: esp_rmaker_reboot_def reset_inv_def starts_one split: if_splits)
next
  case False
  define s1 where "s1 = emit (Os (RtosTimerCreate ''rmaker_reboot_tm'' (secs * 1000))) s"
  obtain ok s2 where al: "alloc s1 = (ok, s2)" by fastforce
  obtain r s3 where st: "call (Os (RtosTimerStart ''rmaker_reboot_tm'')) (s2\<lparr>reboot_timer := True\<rparr>) = (r, s3)"
    by fastforce
  have run: "(err, s') = (if \<not> ok then (ESP_ERR_NO_MEM, s2)
      else if r \<noteq> 1 then
        (ESP_FAIL, (emit (Os (RtosTimerDelete ''rmaker_reboot_tm'')) s3)\<lparr>reboot_timer := False\<rparr>)
      else (ESP_OK, emit (common_event 0) s3))"
    using assms(2) False al st by (simp add: esp_rmaker_reboot_def Let_def s1_def cong: if_cong)
  show ?thesis
    using run assms(1) False env_facts(2,4) [OF al] env_facts(1,3) [OF st]
    by (auto simp: reset_inv_def s1_def starts_one split: if_splits)
qed

lemma reset_inv_emit:
  "reset_inv s \<Longrightarrow> (\<And>nm. e \<noteq> Os (RtosTimerStart nm)) \<Longrightarrow> (\<And>nm. e \<noteq> Os (RtosTimerDelete nm))
     \<Longrightarrow> reset_inv (emit e s)"
  by (simp add: reset_inv_def starts_one)

lemma reset_now_inv:
  assumes "reset_inv s"
  shows "reset_inv (snd (esp_rmaker_wifi_reset_now secs s))"
    "reset_inv (snd (esp_rmaker_factory_reset_now secs s))"
    "reset_timer (snd (esp_rmaker_wifi_reset_now secs s)) = reset_timer s"
    "reset_timer (snd (esp_rmaker_factory_reset_now secs s)) = reset_timer s"
proof -
  have e: "reset_inv (emit (Net WifiRestore) s)"
    "reset_inv (emit (Os NvsFlashErase) (emit (Os NvsFlashDeinit) s))"
    using assms by (simp_all add: reset_inv_emit)
  note r = reboot_inv [OF e(1) prod.collapse [symmetric], of secs]
    reboot_inv [OF e(2) prod.collapse [symmetric], of secs]
  show "reset_inv (snd (esp_rmaker_wifi_reset_now secs s))"
    "reset_inv (snd (esp_rmaker_factory_reset_now secs s))"
    "reset_timer (snd (esp_rmaker_wifi_reset_now secs s)) = reset_timer s"
    "reset_timer (snd (esp_rmaker_factory_reset_now secs s)) = reset_timer s"
    using e r by (simp_all add: esp_rmaker_wifi_reset_now_def esp_rmaker_factory_reset_now_def Let_def)
qed

lemma start_reset_inv:
  assumes "reset_inv s" "esp_rmaker_start_reset_timer a b k s = (err, s')"
  shows "reset_inv s' \<and> (reset_timer s \<noteq> None \<longrightarrow> err = ESP_FAIL \<and> s' = s)"
proof (cases "reset_timer s = None")
  case False
  then show ?thesis using assms by (simp add: esp_rmaker_start_reset_timer_def)
next
  case True
  obtain hd s1 where a1: "alloc s = (hd, s1)" by fastforce
  define s2 where "s2 = emit (Os (RtosTimerCreate ''rmaker_reset_tm'' (a * 1000))) s1"
  obtain ok s3 where a2: "alloc s2 = (ok, s3)" by fastforce
  define s4 where "s4 = s3\<lparr>reset_timer := Some (k, if hd then Some b else None)\<rparr>"
  obtain r s5 where st: "call (Os (RtosTimerStart ''rmaker_reset_tm'')) s4 = (r, s5)"
    by fastforce
  have run: "(err, s') = (if \<not> ok then (ESP_ERR_NO_MEM, s3)
      else if r \<noteq> 1 then
        (ESP_FAIL, (emit (Os (RtosTimerDelete ''rmaker_reset_tm'')) s5)\<lparr>reset_timer := None\<rparr>)
      else (ESP_OK, s5))"
    using assms(2) True a1 a2 st
    by (simp add: esp_rmaker_start_reset_timer_def Let_def s2_def s4_def cong: if_cong)
  have "trace s4 = trace s @ [Os (RtosTimerCreate ''rmaker_reset_tm'' (a * 1000))]"
    "reboot_timer s4 = reboot_timer s"
    using env_facts(2,4) [OF a1] env_facts(2,4) [OF a2] by (simp_all add: s4_def s2_def)
  then show ?thesis
    using run assms(1) True env_facts(2,4) [OF a1] env_facts(2,4) [OF a2] env_facts(1,3) [OF st]
    by (auto simp: reset_inv_def s2_def s4_def starts_one split: if_splits)
qed

lemma reset_cb_inv:
  assumes "reset_inv s" "reset_timer s \<noteq> None"
  shows "reset_inv (esp_rmaker_wifi_reset_cb s)" "reset_inv (esp_rmaker_factory_reset_cb s)"
    "reset_timer (esp_rmaker_wifi_reset_cb s) = None"
    "reset_timer (esp_rmaker_factory_reset_cb s) = None"
  using reset_now_inv [OF assms(1)] assms(2)
  by (simp_all add: esp_rmaker_wifi_reset_cb_def esp_rmaker_factory_reset_cb_def Let_def
      case_prod_beta reset_inv_def starts_one)

lemma reboot_cb_inv:
  "reset_inv s \<Longrightarrow> reboot_timer s \<Longrightarrow> reset_inv (esp_rmaker_reboot_cb s)"
  by (simp add: esp_rmaker_reboot_cb_def reset_inv_def starts_one Let_def)

subsection \<open>Property\<close>

text \<open>One reset at a time. \<open>reset_inv\<close>, that the number of live reboot and reset timers is
  one or zero and agrees with the handles, is kept by both reset entry points for all delays and
  all answers of the SDK, and by the timers' callbacks when they fire; while a reset timer is
  live another delayed reset changes nothing and posts no event, and after its callback there
  is none.\<close>
theorem reset_single_instance:
  assumes "reset_inv s"
  shows "reset_inv (snd (esp_rmaker_wifi_reset a b s))
    \<and> reset_inv (snd (esp_rmaker_factory_reset a b s))
    \<and> (reset_timer s \<noteq> None \<and> a \<noteq> 0 \<longrightarrow>
        snd (esp_rmaker_wifi_reset a b s) = s \<and> snd (esp_rmaker_factory_reset a b s) = s)
    \<and> (reset_timer s \<noteq> None \<longrightarrow>
        reset_inv (esp_rmaker_wifi_reset_cb s) \<and> reset_timer (esp_rmaker_wifi_reset_cb s) = None
        \<and> reset_inv (esp_rmaker_factory_reset_cb s) \<and> reset_timer (esp_rmaker_factory_reset_cb s) = None)
    \<and> (reboot_timer s \<longrightarrow> reset_inv (esp_rmaker_reboot_cb s))"
proof -
  have w: "reset_inv (snd (esp_rmaker_wifi_reset a b s))"
    using assms reset_now_inv(1) [OF assms, of b]
      start_reset_inv [OF assms prod.collapse [symmetric], of a b Wifi_Reset]
    by (simp add: esp_rmaker_wifi_reset_def case_prod_beta Let_def reset_inv_emit)
  have f: "reset_inv (snd (esp_rmaker_factory_reset a b s))"
    using assms reset_now_inv(2) [OF assms, of b]
      start_reset_inv [OF assms prod.collapse [symmetric], of a b Factory_Reset]
    by (simp add: esp_rmaker_factory_reset_def case_prod_beta Let_def reset_inv_emit)
  show ?thesis
    using w f reset_cb_inv [OF assms] reboot_cb_inv [OF assms]
    by (auto simp: esp_rmaker_wifi_reset_def esp_rmaker_factory_reset_def
        esp_rmaker_start_reset_timer_def)
qed

definition ex_lib :: lib where
  "ex_lib = rm.extend ex_rm (lib.fields False None)"

theorem reset_single_instance_witness:
  "reset_inv (snd (esp_rmaker_wifi_reset 3 2 ex_lib))"
proof -
  have "reset_inv ex_lib"
    by (simp add: reset_inv_def ex_lib_def ex_defs rm.defs lib.defs)
  then show ?thesis
    using reset_single_instance [of ex_lib 3 2] by blast
qed

end
