(* ===== verification/Rm_Frame.thy ===== *)
theory Rm_Frame
  imports Rm_Reset
begin

text \<open>
  What a call of the parameter API leaves alone: everything its caller keeps beside the
  library's state (\<open>rm.more\<close>), and the devices and their chains.
\<close>

lemma more_env [frame_simps]:
  "rm.more (emit e s) = rm.more s" "rm.more (snd (call e s)) = rm.more s"
  "rm.more (snd (alloc s)) = rm.more s" "rm.more (upd_param p f s) = rm.more s"
  "rm.more (upd_device d g s) = rm.more s"
  by (simp_all add: emit_def call_def ask_def alloc_def upd_param_def upd_device_def split: list.split)

lemma more_clear_flags [frame_simps]: "rm.more (clear_flags f ps s) = rm.more s"
  by (subst clear_flags_frame) simp

lemma more_publish [frame_simps]:
  "rm.more (snd (esp_rmaker_mqtt_publish t d s)) = rm.more s"
  "rm.more (publish_params s) = rm.more s"
  by (simp_all add: esp_rmaker_mqtt_publish_def publish_params_def frame_simps)

lemma more_store [frame_simps]: "rm.more (snd (esp_rmaker_param_store_value p s)) = rm.more s"
  by (auto simp: esp_rmaker_param_store_value_def Let_def case_prod_beta frame_simps
      split: option.split)

lemma populate_state:
  "(\<exists>e l t. esp_rmaker_populate_params b f r s = (e, l, t, s))
   \<or> (\<exists>e l t. esp_rmaker_populate_params b f r s = (e, l, t, clear_flags f (node_params s) s))"
  by (auto simp: esp_rmaker_populate_params_def Let_def case_prod_beta)

text \<open>A parameter apart from its report flags.\<close>

definition sans_flags :: "'a rm_scheme \<Rightarrow> nat \<Rightarrow> rm_param" where
  "sans_flags s q = (pheap s q)\<lparr>p_flags := 0\<rparr>"

lemma sans_flags_env [frame_simps]:
  "sans_flags (emit e s) = sans_flags s" "sans_flags (snd (call e s)) = sans_flags s"
  "sans_flags (snd (alloc s)) = sans_flags s"
  "sans_flags (clear_flags f ps s) = sans_flags s"
  "sans_flags (publish_params s) = sans_flags s"
  by (simp_all add: sans_flags_def fun_eq_iff clear_flags_pheap)

lemma sans_flags_upd [frame_simps]:
  "sans_flags (upd_param p (\<lambda>r. r\<lparr>p_flags := g r\<rparr>) s) = sans_flags s"
  by (simp add: sans_flags_def fun_eq_iff)

lemma sans_flags_upd_buf [frame_simps]:
  "sans_flags (s\<lparr>node_params_buf := b\<rparr>) = sans_flags s"
  "sans_flags (s\<lparr>node_params_buf := b, max_node_params_size := k\<rparr>) = sans_flags s"
  "sans_flags (s\<lparr>publish_topic := t\<rparr>) = sans_flags s"
  by (simp_all add: sans_flags_def fun_eq_iff)

lemma sans_flags_cong: "pheap s' = pheap s \<Longrightarrow> sans_flags s' = sans_flags s"
  by (simp add: sans_flags_def fun_eq_iff)

lemma sans_flagsD:
  assumes "sans_flags s' = sans_flags s"
  shows "p_val (pheap s' q) = p_val (pheap s q)" "p_name (pheap s' q) = p_name (pheap s q)"
    "p_type (pheap s' q) = p_type (pheap s q)"
proof -
  have "(pheap s' q)\<lparr>p_flags := 0\<rparr> = (pheap s q)\<lparr>p_flags := 0\<rparr>"
    using fun_cong [OF assms, of q] by (simp add: sans_flags_def)
  then show "p_val (pheap s' q) = p_val (pheap s q)" "p_name (pheap s' q) = p_name (pheap s q)"
    "p_type (pheap s' q) = p_type (pheap s q)"
    by (metis rm_param.select_convs(6) rm_param.update_convs(3) rm_param.surjective,
        metis rm_param.select_convs(1) rm_param.update_convs(3) rm_param.surjective,
        metis rm_param.select_convs(2) rm_param.update_convs(3) rm_param.surjective)
qed

lemma alloc_populate_frame:
  assumes "esp_rmaker_allocate_and_populate_params f r s = (err, s')"
  shows "rm.more s' = rm.more s \<and> dheap s' = dheap s \<and> sans_flags s' = sans_flags s
    \<and> trace s' = trace s"
proof -
  obtain ok s1 where a: "(if node_params_buf s = None
      then let (ok, s) = alloc s in (ok, if ok then s\<lparr>node_params_buf := Some []\<rparr> else s)
      else (True, s)) = (ok, s1)"
    by fastforce
  have m1: "rm.more s1 = rm.more s \<and> dheap s1 = dheap s \<and> sans_flags s1 = sans_flags s
      \<and> trace s1 = trace s"
    using a by (auto simp: case_prod_beta frame_simps sans_flags_upd_buf split: if_splits)
  obtain e l t s2 where p: "esp_rmaker_populate_params (Some (max_node_params_size s1)) f r s1 = (e, l, t, s2)"
    by (metis prod_cases4)
  have m2: "rm.more s2 = rm.more s1 \<and> dheap s2 = dheap s1 \<and> sans_flags s2 = sans_flags s1
      \<and> trace s2 = trace s1"
    using populate_state [of "Some (max_node_params_size s1)" f r s1] p
    by (auto simp: frame_simps)
  define s3 where "s3 = s2\<lparr>node_params_buf := t, max_node_params_size := l + RMAKER_PARAMS_SIZE_MARGIN\<rparr>"
  obtain ok2 s4 where a2: "alloc s3 = (ok2, s4)" by fastforce
  have m4: "rm.more s4 = rm.more s2 \<and> dheap s4 = dheap s2 \<and> sans_flags s4 = sans_flags s2
      \<and> trace s4 = trace s2"
    using a2 more_env(3) [of s3] rm_alloc(2) [of s3] sans_flags_env(3) [of s3] trace_alloc [of s3]
    by (simp add: s3_def sans_flags_upd_buf)
  obtain e' l' t' s5 where p2: "esp_rmaker_populate_params (Some (max_node_params_size s4)) f r s4 = (e', l', t', s5)"
    by (metis prod_cases4)
  have m5: "rm.more s5 = rm.more s4 \<and> dheap s5 = dheap s4 \<and> sans_flags s5 = sans_flags s4
      \<and> trace s5 = trace s4"
    using populate_state [of "Some (max_node_params_size s4)" f r s4] p2
    by (auto simp: frame_simps)
  have "(err, s') = (if \<not> ok then (ESP_ERR_NO_MEM, s1)
      else if e \<noteq> ESP_ERR_NO_MEM then (e, s2\<lparr>node_params_buf := t\<rparr>)
      else if \<not> ok2 then (ESP_ERR_NO_MEM, s4\<lparr>node_params_buf := None\<rparr>)
      else (e', s5\<lparr>node_params_buf := t'\<rparr>))"
    using assms
    unfolding esp_rmaker_allocate_and_populate_params_def a
    using p a2 p2 by (simp add: Let_def s3_def cong: if_cong)
  then show ?thesis
    using m1 m2 m4 m5 by (auto simp: sans_flags_upd_buf split: if_splits)
qed

lemma report_frame [frame_simps]:
  "rm.more (snd (esp_rmaker_report_param_internal f s)) = rm.more s"
  "dheap (snd (esp_rmaker_report_param_internal f s)) = dheap s"
  "sans_flags (snd (esp_rmaker_report_param_internal f s)) = sans_flags s"
  using alloc_populate_frame [OF prod.collapse [symmetric], of f True s]
  by (auto simp: esp_rmaker_report_param_internal_def Let_def case_prod_beta frame_simps)

text \<open>All that a report adds to the trace is publications and storage calls.\<close>

fun api_call :: "effect \<Rightarrow> bool" where
  "api_call (Net (MqttPublish t d)) = True"
| "api_call (Net (NvsOpen k)) = True"
| "api_call (Net (NvsGetBlob k)) = True"
| "api_call (Net (NvsSetBlob k v)) = True"
| "api_call (Net (NvsSetVal k t v)) = True"
| "api_call (Net NvsCommit) = True"
| "api_call (Net NvsClose) = True"
| "api_call _ = False"

definition other_part :: "effect list \<Rightarrow> effect list" where
  "other_part es = filter (\<lambda>e. \<not> api_call e) es"

lemma other_part_simps [simp]:
  "other_part [] = []" "other_part (xs @ ys) = other_part xs @ other_part ys"
  "other_part (e # es) = (if api_call e then other_part es else e # other_part es)"
  by (simp_all add: other_part_def)

lemma trace_upd_param [simp]: "trace (upd_param p f s) = trace s"
  by (simp add: upd_param_def)

lemma store_other [frame_simps]:
  "other_part (trace (snd (esp_rmaker_param_store_value p s))) = other_part (trace s)"
  by (auto simp: esp_rmaker_param_store_value_def Let_def case_prod_beta split: option.split)

lemma publish_other [frame_simps]:
  "other_part (trace (publish_params s)) = other_part (trace s)"
  by (simp add: publish_params_def esp_rmaker_mqtt_publish_def)

lemma report_other [frame_simps]:
  "other_part (trace (snd (esp_rmaker_report_param_internal f s))) = other_part (trace s)"
  using alloc_populate_frame [OF prod.collapse [symmetric], of f True s]
  by (auto simp: esp_rmaker_report_param_internal_def Let_def case_prod_beta frame_simps)

lemma update_and_report_other [frame_simps]:
  "other_part (trace (snd (esp_rmaker_param_update p v s))) = other_part (trace s)"
  "other_part (trace (snd (esp_rmaker_param_report p s))) = other_part (trace s)"
  "other_part (trace (snd (esp_rmaker_param_update_and_report p v s))) = other_part (trace s)"
proof -
  show u: "other_part (trace (snd (esp_rmaker_param_update p v s))) = other_part (trace s)" for s :: "'a rm_scheme"
    by (auto simp: esp_rmaker_param_update_def Let_def case_prod_beta frame_simps split: option.split)
  show r: "other_part (trace (snd (esp_rmaker_param_report p s))) = other_part (trace s)" for s :: "'a rm_scheme"
    by (auto simp: esp_rmaker_param_report_def frame_simps split: option.split)
  show "other_part (trace (snd (esp_rmaker_param_update_and_report p v s))) = other_part (trace s)"
    using u r by (auto simp: esp_rmaker_param_update_and_report_def Let_def case_prod_beta)
qed

text \<open>So the calls that stay on the chip are unchanged.\<close>

fun is_net :: "effect \<Rightarrow> bool" where
  "is_net (Net _) = True"
| "is_net _ = False"

definition local_part :: "effect list \<Rightarrow> effect list" where
  "local_part es = filter (\<lambda>e. \<not> is_net e) es"

lemma local_part_simps [simp]:
  "local_part [] = []" "local_part (xs @ ys) = local_part xs @ local_part ys"
  "local_part (e # es) = (if is_net e then local_part es else e # local_part es)"
  by (simp_all add: local_part_def)

lemma local_part_other: "other_part es = other_part fs \<Longrightarrow> local_part es = local_part fs"
proof -
  have "api_call e \<Longrightarrow> is_net e" for e by (cases e rule: api_call.cases) simp_all
  then have "local_part es = filter (\<lambda>e. \<not> is_net e) (other_part es)" for es
    by (auto simp: local_part_def other_part_def intro: filter_cong)
  then show "other_part es = other_part fs \<Longrightarrow> local_part es = local_part fs" by simp
qed

lemmas update_and_report_local [frame_simps] = update_and_report_other [THEN local_part_other]

lemma update_frame [frame_simps]:
  "rm.more (snd (esp_rmaker_param_update p v s)) = rm.more s"
  "dheap (snd (esp_rmaker_param_update p v s)) = dheap s"
  by (auto simp: esp_rmaker_param_update_def Let_def case_prod_beta frame_simps
      split: option.split)

lemma param_report_frame [frame_simps]:
  "rm.more (snd (esp_rmaker_param_report p s)) = rm.more s"
  "dheap (snd (esp_rmaker_param_report p s)) = dheap s"
  "sans_flags (snd (esp_rmaker_param_report p s)) = sans_flags s"
  by (auto simp: esp_rmaker_param_report_def frame_simps split: option.split)

lemma update_and_report_frame [frame_simps]:
  "rm.more (snd (esp_rmaker_param_update_and_report p v s)) = rm.more s"
  "dheap (snd (esp_rmaker_param_update_and_report p v s)) = dheap s"
  by (auto simp: esp_rmaker_param_update_and_report_def Let_def case_prod_beta frame_simps)

text \<open>A scalar value of the parameter's type is always stored.\<close>

lemma update_and_report_val:
  assumes "val_type v = val_type (p_val (pheap s p))" "\<not> is_str_type (val_type v)" "v \<noteq> VInvalid"
    "esp_rmaker_param_update_and_report (Some p) v s = (err, s')"
  shows "p_val (pheap s' p) = v"
proof -
  obtain e s1 where u: "esp_rmaker_param_update (Some p) v s = (e, s1)" by fastforce
  have ni: "val_type v \<noteq> RMAKER_VAL_TYPE_INVALID" using assms(3) by (cases v) auto
  have "e = ESP_OK"
    using u assms(1,2) ni
    by (auto simp: esp_rmaker_param_update_def Let_def split: if_splits)
  then have "p_val (pheap s1 p) = v"
    using param_update_cases [OF u] by auto
  moreover have "s' = s1 \<or> s' = snd (esp_rmaker_param_report (Some p) s1)"
    using assms(4) u by (auto simp: esp_rmaker_param_update_and_report_def split: if_splits)
  ultimately show ?thesis
    using sans_flagsD(1) [OF param_report_frame(3) [of "Some p" s1], of p] by auto
qed

end
