(* ===== verification/Rm_Work_Queue.thy ===== *)
theory Rm_Work_Queue
  imports Platform "HOL-Library.Multiset"
begin

text \<open>
  The work queue: \<open>rmaker_common/src/work_queue.c\<close>. Work is a function with its private data;
  it is run by one task, in the order in which it was added.

  The FreeRTOS queue is not in the repository: its operations are an argument of the model,
  \<open>queue_ops\<close>, and \<open>fifo_queue\<close> states what its documentation promises. What a work function
  does is an argument too. The delay between two rounds of the task is the point at which
  other code runs, so one round is one step.
\<close>

type_synonym work = "string \<times> int list" \<comment> \<open>\<open>work_fn\<close> and \<open>priv_data\<close>\<close>

datatype wq_state =
  WORK_QUEUE_STATE_DEINIT | WORK_QUEUE_STATE_INIT_DONE | WORK_QUEUE_STATE_RUNNING
  | WORK_QUEUE_STATE_STOP_REQUESTED

record 'q queue_ops =
  xQueueCreate :: "nat \<Rightarrow> 'q"
  xQueueSend :: "'q \<Rightarrow> work \<Rightarrow> 'q option" \<comment> \<open>\<open>None\<close> if the queue is full\<close>
  xQueueReceive :: "'q \<Rightarrow> (work \<times> 'q) option" \<comment> \<open>\<open>None\<close> if the queue is empty\<close>

record 'q wq = plat +
  work_queue :: "'q option"
  queue_state :: wq_state

definition ESP_RMAKER_TASK_QUEUE_SIZE :: nat where
  "ESP_RMAKER_TASK_QUEUE_SIZE = 8"

text \<open>Receiving from a \<open>NULL\<close> queue fails an assertion of FreeRTOS.\<close>

partial_function (option) esp_rmaker_handle_work_queue ::
  "'q queue_ops \<Rightarrow> (work \<Rightarrow> ('q, 'a) wq_scheme \<Rightarrow> ('q, 'a) wq_scheme) \<Rightarrow>
   ('q, 'a) wq_scheme \<Rightarrow> ('q, 'a) wq_scheme option" where
  "esp_rmaker_handle_work_queue ops run s =
     (case work_queue s of
        None \<Rightarrow> Some (emit (Os Abort) s)
      | Some q \<Rightarrow>
          (case xQueueReceive ops q of
             None \<Rightarrow> Some s
           | Some (w, q') \<Rightarrow>
               esp_rmaker_handle_work_queue ops run (run w (s\<lparr>work_queue := Some q'\<rparr>))))"

text \<open>One round of the task; the flag tells whether the task goes on.\<close>

definition esp_rmaker_work_queue_task ::
  "'q queue_ops \<Rightarrow> (work \<Rightarrow> ('q, 'a) wq_scheme \<Rightarrow> ('q, 'a) wq_scheme) \<Rightarrow>
   ('q, 'a) wq_scheme \<Rightarrow> (bool \<times> ('q, 'a) wq_scheme) option" where
  "esp_rmaker_work_queue_task ops run s =
     (if queue_state s \<noteq> WORK_QUEUE_STATE_STOP_REQUESTED then
        map_option (\<lambda>s. (True, emit (Os (Delay 2000)) s)) (esp_rmaker_handle_work_queue ops run s)
      else
        let s = s\<lparr>queue_state := WORK_QUEUE_STATE_INIT_DONE\<rparr>
        in Some (False, emit (Os (TaskDelete ''esp_rmaker_work_queue_task'')) s))"

definition esp_rmaker_work_queue_add_task ::
  "'q queue_ops \<Rightarrow> work \<Rightarrow> ('q, 'a) wq_scheme \<Rightarrow> esp_err \<times> ('q, 'a) wq_scheme" where
  "esp_rmaker_work_queue_add_task ops w s =
     (case work_queue s of
        None \<Rightarrow> (ESP_ERR_INVALID_STATE, s)
      | Some q \<Rightarrow>
          (case xQueueSend ops q w of
             Some q' \<Rightarrow> (ESP_OK, s\<lparr>work_queue := Some q'\<rparr>)
           | None \<Rightarrow> (ESP_FAIL, s)))"

definition esp_rmaker_work_queue_init ::
  "'q queue_ops \<Rightarrow> ('q, 'a) wq_scheme \<Rightarrow> esp_err \<times> ('q, 'a) wq_scheme" where
  "esp_rmaker_work_queue_init ops s =
     (if queue_state s \<noteq> WORK_QUEUE_STATE_DEINIT then (ESP_OK, s)
      else
        let (ok, s) = alloc (emit (Os (QueueCreate ESP_RMAKER_TASK_QUEUE_SIZE)) s);
            s = s\<lparr>work_queue :=
              (if ok then Some (xQueueCreate ops ESP_RMAKER_TASK_QUEUE_SIZE) else None)\<rparr>
        in if work_queue s = None then (ESP_FAIL, s)
           else (ESP_OK, s\<lparr>queue_state := WORK_QUEUE_STATE_INIT_DONE\<rparr>))"

definition esp_rmaker_work_queue_deinit :: "('q, 'a) wq_scheme \<Rightarrow> esp_err \<times> ('q, 'a) wq_scheme" where
  "esp_rmaker_work_queue_deinit s =
     (if queue_state s = WORK_QUEUE_STATE_DEINIT then (ESP_OK, s)
      else if queue_state s \<noteq> WORK_QUEUE_STATE_INIT_DONE then (ESP_ERR_INVALID_STATE, s)
      else (ESP_OK, (emit (Os QueueDelete) s)\<lparr>work_queue := None,
             queue_state := WORK_QUEUE_STATE_DEINIT\<rparr>))"

definition esp_rmaker_work_queue_start :: "('q, 'a) wq_scheme \<Rightarrow> esp_err \<times> ('q, 'a) wq_scheme" where
  "esp_rmaker_work_queue_start s =
     (if queue_state s = WORK_QUEUE_STATE_RUNNING then (ESP_OK, s)
      else if queue_state s \<noteq> WORK_QUEUE_STATE_INIT_DONE then (ESP_ERR_INVALID_STATE, s)
      else
        let (ok, s) = alloc s
        in if \<not> ok then (ESP_FAIL, s)
           else (ESP_OK, (emit (Os (TaskCreate ''esp_rmaker_work_queue_task'' 4096 5)) s)
                  \<lparr>queue_state := WORK_QUEUE_STATE_RUNNING\<rparr>))"

definition esp_rmaker_work_queue_stop :: "('q, 'a) wq_scheme \<Rightarrow> esp_err \<times> ('q, 'a) wq_scheme" where
  "esp_rmaker_work_queue_stop s =
     (if queue_state s = WORK_QUEUE_STATE_RUNNING
      then (ESP_OK, s\<lparr>queue_state := WORK_QUEUE_STATE_STOP_REQUESTED\<rparr>) else (ESP_OK, s))"

subsection \<open>The queue's documented behaviour\<close>

text \<open>
  \<open>contents\<close> and \<open>cap\<close> observe a queue. Sending to a queue that is not full appends,
  receiving takes the oldest entry.
\<close>

definition fifo_queue :: "'q queue_ops \<Rightarrow> ('q \<Rightarrow> work list) \<Rightarrow> ('q \<Rightarrow> nat) \<Rightarrow> bool" where
  "fifo_queue ops contents cap \<longleftrightarrow>
     (\<forall>n. contents (xQueueCreate ops n) = [] \<and> cap (xQueueCreate ops n) = n)
   \<and> (\<forall>q w. case xQueueSend ops q w of
          None \<Rightarrow> cap q \<le> length (contents q)
        | Some q' \<Rightarrow> length (contents q) < cap q \<and> contents q' = contents q @ [w] \<and> cap q' = cap q)
   \<and> (\<forall>q. case xQueueReceive ops q of
          None \<Rightarrow> contents q = []
        | Some (w, q') \<Rightarrow> contents q = w # contents q' \<and> cap q' = cap q)"

text \<open>A queue that is a list with its capacity.\<close>

definition list_queue :: "(nat \<times> work list) queue_ops" where
  "list_queue = \<lparr>
     xQueueCreate = (\<lambda>n. (n, [])),
     xQueueSend = (\<lambda>(n, ws) w. if length ws < n then Some (n, ws @ [w]) else None),
     xQueueReceive = (\<lambda>(n, ws). case ws of [] \<Rightarrow> None | w # ws \<Rightarrow> Some (w, n, ws))\<rparr>"

lemma list_queue_fifo: "fifo_queue list_queue snd fst"
  by (auto simp: fifo_queue_def list_queue_def split: list.splits)

lemma fifo_create:
  "fifo_queue ops contents cap \<Longrightarrow> contents (xQueueCreate ops n) = []"
  "fifo_queue ops contents cap \<Longrightarrow> cap (xQueueCreate ops n) = n"
  by (simp_all add: fifo_queue_def)

lemma fifo_send:
  assumes "fifo_queue ops contents cap"
  shows "case xQueueSend ops q w of None \<Rightarrow> cap q \<le> length (contents q)
    | Some q' \<Rightarrow> length (contents q) < cap q \<and> contents q' = contents q @ [w] \<and> cap q' = cap q"
  using assms unfolding fifo_queue_def by blast

lemma fifo_receive:
  assumes "fifo_queue ops contents cap"
  shows "case xQueueReceive ops q of None \<Rightarrow> contents q = []
    | Some (w, q') \<Rightarrow> contents q = w # contents q' \<and> cap q' = cap q"
  using assms unfolding fifo_queue_def by blast

subsection \<open>The abstract work queue\<close>

text \<open>
  What the component promises: a list of at most eight entries that exists between
  initialisation and deinitialisation, and a state. The platform's answer tells whether the
  queue or the task could be created.
\<close>

datatype wq_op = WqAdd work | WqInit | WqDeinit | WqStart | WqStop

type_synonym wq_spec = "wq_state \<times> work list option"

fun spec_op :: "wq_op \<Rightarrow> bool \<Rightarrow> wq_spec \<Rightarrow> esp_err \<times> wq_spec" where
  "spec_op (WqAdd w) ok (st, None) = (ESP_ERR_INVALID_STATE, st, None)"
| "spec_op (WqAdd w) ok (st, Some ws) =
     (if length ws < 8 then (ESP_OK, st, Some (ws @ [w])) else (ESP_FAIL, st, Some ws))"
| "spec_op WqInit ok (st, ws) =
     (if st \<noteq> WORK_QUEUE_STATE_DEINIT then (ESP_OK, st, ws)
      else if ok then (ESP_OK, WORK_QUEUE_STATE_INIT_DONE, Some []) else (ESP_FAIL, st, None))"
| "spec_op WqDeinit ok (st, ws) =
     (case st of WORK_QUEUE_STATE_DEINIT \<Rightarrow> (ESP_OK, st, ws)
      | WORK_QUEUE_STATE_INIT_DONE \<Rightarrow> (ESP_OK, WORK_QUEUE_STATE_DEINIT, None)
      | _ \<Rightarrow> (ESP_ERR_INVALID_STATE, st, ws))"
| "spec_op WqStart ok (st, ws) =
     (case st of WORK_QUEUE_STATE_RUNNING \<Rightarrow> (ESP_OK, st, ws)
      | WORK_QUEUE_STATE_INIT_DONE \<Rightarrow>
          if ok then (ESP_OK, WORK_QUEUE_STATE_RUNNING, ws) else (ESP_FAIL, st, ws)
      | _ \<Rightarrow> (ESP_ERR_INVALID_STATE, st, ws))"
| "spec_op WqStop ok (st, ws) =
     (ESP_OK, if st = WORK_QUEUE_STATE_RUNNING then WORK_QUEUE_STATE_STOP_REQUESTED else st, ws)"

fun wq_do :: "'q queue_ops \<Rightarrow> wq_op \<Rightarrow> ('q, 'a) wq_scheme \<Rightarrow> esp_err \<times> ('q, 'a) wq_scheme" where
  "wq_do ops (WqAdd w) s = esp_rmaker_work_queue_add_task ops w s"
| "wq_do ops WqInit s = esp_rmaker_work_queue_init ops s"
| "wq_do ops WqDeinit s = esp_rmaker_work_queue_deinit s"
| "wq_do ops WqStart s = esp_rmaker_work_queue_start s"
| "wq_do ops WqStop s = esp_rmaker_work_queue_stop s"

definition wq_abs :: "('q \<Rightarrow> work list) \<Rightarrow> ('q, 'a) wq_scheme \<Rightarrow> wq_spec" where
  "wq_abs contents s = (queue_state s, map_option contents (work_queue s))"

definition wq_ok :: "('q \<Rightarrow> nat) \<Rightarrow> ('q, 'a) wq_scheme \<Rightarrow> bool" where
  \<comment> \<open>the queue exists exactly while the component is initialised, with its size\<close>
  "wq_ok cap s \<longleftrightarrow> (work_queue s = None \<longleftrightarrow> queue_state s = WORK_QUEUE_STATE_DEINIT)
     \<and> (\<forall>q. work_queue s = Some q \<longrightarrow> cap q = ESP_RMAKER_TASK_QUEUE_SIZE)"

text \<open>The platform's answer that an operation reads.\<close>

definition answer :: "('q, 'a) wq_scheme \<Rightarrow> bool" where
  "answer s = (mem_ok s = [] \<or> hd (mem_ok s))"

lemma wq_fields [simp]:
  "work_queue (emit e s) = work_queue (s :: ('q, 'a) wq_scheme)"
  "queue_state (emit e s) = queue_state s"
  "work_queue (snd (alloc s)) = work_queue s"
  "queue_state (snd (alloc s)) = queue_state s"
  by (simp_all add: emit_def alloc_def split: list.split)

lemma fst_alloc: "fst (alloc s) = (mem_ok s = [] \<or> hd (mem_ok s))"
  by (simp add: alloc_def split: list.split)

lemmas wq_defs = wq_abs_def wq_ok_def answer_def fst_alloc ESP_RMAKER_TASK_QUEUE_SIZE_def
  esp_rmaker_work_queue_add_task_def esp_rmaker_work_queue_init_def
  esp_rmaker_work_queue_deinit_def esp_rmaker_work_queue_start_def
  esp_rmaker_work_queue_stop_def

lemma wq_add_refines:
  assumes "fifo_queue ops contents cap" "wq_ok cap s"
  shows "map_prod id (wq_abs contents) (wq_do ops (WqAdd w) s) =
      spec_op (WqAdd w) (answer s) (wq_abs contents s)
    \<and> wq_ok cap (snd (wq_do ops (WqAdd w) s))"
proof (cases "work_queue s")
  case None
  then show ?thesis using assms(2) by (simp add: wq_defs)
next
  case (Some q)
  have c: "cap q = 8" using Some assms(2) by (simp add: wq_ok_def ESP_RMAKER_TASK_QUEUE_SIZE_def)
  show ?thesis
  proof (cases "xQueueSend ops q w")
    case None
    then show ?thesis
      using fifo_send [OF assms(1), of q w] None Some assms(2) c by (simp add: wq_defs)
  next
    case (Some q')
    then show ?thesis
      using fifo_send [OF assms(1), of q w] Some \<open>work_queue s = Some q\<close> assms(2) c
      by (simp add: wq_defs)
  qed
qed

lemma wq_op_refines:
  assumes "fifo_queue ops contents cap" "wq_ok cap s"
  shows "map_prod id (wq_abs contents) (wq_do ops c s) = spec_op c (answer s) (wq_abs contents s)
    \<and> wq_ok cap (snd (wq_do ops c s))"
proof (cases c)
  case (WqAdd w)
  then show ?thesis using wq_add_refines [OF assms] by simp
next
  case WqInit
  then show ?thesis
    using fifo_create [OF assms(1)] assms(2) by (auto simp: wq_defs Let_def split_def)
next
  case WqDeinit
  then show ?thesis using assms(2) by (cases "queue_state s") (auto simp: wq_defs)
next
  case WqStart
  then show ?thesis
    using assms(2) by (cases "queue_state s") (auto simp: wq_defs Let_def split_def)
next
  case WqStop
  then show ?thesis using assms(2) by (auto simp: wq_defs)
qed

text \<open>Runs: the results of a sequence of operations, with the platform's answers of each.\<close>

fun wq_run :: "'q queue_ops \<Rightarrow> (wq_op \<times> bool) list \<Rightarrow> ('q, 'a) wq_scheme \<Rightarrow>
    esp_err list \<times> ('q, 'a) wq_scheme" where
  "wq_run ops [] s = ([], s)"
| "wq_run ops ((c, ok) # cs) s =
     (let (r, s) = wq_do ops c (s\<lparr>mem_ok := [ok]\<rparr>); (rs, s) = wq_run ops cs s in (r # rs, s))"

fun spec_run :: "(wq_op \<times> bool) list \<Rightarrow> wq_spec \<Rightarrow> esp_err list \<times> wq_spec" where
  "spec_run [] a = ([], a)"
| "spec_run ((c, ok) # cs) a =
     (let (r, a) = spec_op c ok a; (rs, a) = spec_run cs a in (r # rs, a))"

lemma wq_set_answers [simp]:
  "answer (s\<lparr>mem_ok := [ok]\<rparr>) = ok"
  "wq_abs contents (s\<lparr>mem_ok := [ok]\<rparr>) = wq_abs contents s"
  "wq_ok cap (s\<lparr>mem_ok := [ok]\<rparr>) = wq_ok cap s"
  by (simp_all add: answer_def wq_abs_def wq_ok_def)

lemma wq_run_refines:
  assumes "fifo_queue ops contents cap" "wq_ok cap s"
  shows "map_prod id (wq_abs contents) (wq_run ops cs s) = spec_run cs (wq_abs contents s)"
  using assms(2)
proof (induction cs arbitrary: s)
  case (Cons co cs)
  obtain c ok where co: "co = (c, ok)" by (cases co)
  obtain r t where rt: "wq_do ops c (s\<lparr>mem_ok := [ok]\<rparr>) = (r, t)" by (cases "wq_do ops c (s\<lparr>mem_ok := [ok]\<rparr>)")
  have ok: "wq_ok cap t" "spec_op c ok (wq_abs contents s) = (r, wq_abs contents t)"
    using wq_op_refines [OF assms(1), of "s\<lparr>mem_ok := [ok]\<rparr>" c] Cons.prems rt by auto
  show ?case
    using Cons.IH [OF ok(1)] ok(2)
    by (cases "wq_run ops cs t"; cases "spec_run cs (wq_abs contents t)") (auto simp: co rt)
qed simp

text \<open>C20. The work queue refines its abstract specification. From the uninitialised state, every
  sequence of operations of \<open>work_queue.c\<close>, with any success or failure of the platform's
  creation calls, returns the codes of a first-in first-out list of at most eight entries and
  leaves a state that stands for it.\<close>
theorem work_queue_refines:
  assumes "fifo_queue ops contents cap" "work_queue s = None"
    "queue_state s = WORK_QUEUE_STATE_DEINIT"
  shows "map_prod id (wq_abs contents) (wq_run ops cs s) =
    spec_run cs (WORK_QUEUE_STATE_DEINIT, None)"
  using wq_run_refines [OF assms(1), of s cs] assms(2,3) by (simp add: wq_abs_def wq_ok_def)

subsection \<open>The task runs all the work\<close>

text \<open>
  A work function may add work, as long as some rank of the entries decreases; the ranks of the
  queue's contents then decrease as a multiset.
\<close>

definition adds_lower ::
  "('q \<Rightarrow> work list) \<Rightarrow> (work \<Rightarrow> nat) \<Rightarrow> (work \<Rightarrow> ('q, 'a) wq_scheme \<Rightarrow> ('q, 'a) wq_scheme) \<Rightarrow> bool" where
  "adds_lower contents rank run \<longleftrightarrow> (\<forall>w s q. work_queue s = Some q \<longrightarrow>
     (\<exists>q' ws. work_queue (run w s) = Some q' \<and> contents q' = contents q @ ws
        \<and> (\<forall>v \<in> set ws. rank v < rank w)))"

definition logs_work ::
  "(('q, 'a) wq_scheme \<Rightarrow> work list) \<Rightarrow> (work \<Rightarrow> ('q, 'a) wq_scheme \<Rightarrow> ('q, 'a) wq_scheme) \<Rightarrow> bool" where
  \<comment> \<open>\<open>hist\<close> observes the work functions that have run\<close>
  "logs_work hist run \<longleftrightarrow> (\<forall>w s q. hist (run w s) = hist s @ [w]
     \<and> hist (s\<lparr>work_queue := q\<rparr>) = hist s)"

lemma ranks_decrease:
  assumes "\<forall>v \<in> set ws. rank v < (rank w :: nat)"
  shows "(mset (map rank (rest @ ws)), mset (map rank (w # rest))) \<in> mult less_than"
  using assms one_step_implies_mult
    [of "{#rank w#}" "mset (map rank ws)" less_than "mset (map rank rest)"] by auto

text \<open>C31. The work queue's task runs all the work and in order. If the work that a work function
  adds always has a smaller rank, \<open>esp_rmaker_handle_work_queue\<close> returns; the queue is empty
  then, and the entries it held were run first and in the order they were added.\<close>
theorem work_queue_drains:
  assumes "fifo_queue ops contents cap" "adds_lower contents rank run" "logs_work hist run"
    "work_queue s = Some q"
  shows "\<exists>t q' later. esp_rmaker_handle_work_queue ops run s = Some t \<and> work_queue t = Some q'
    \<and> contents q' = [] \<and> hist t = hist s @ contents q @ later"
  using assms(4)
proof (induction "mset (map rank (contents q))" arbitrary: s q
    rule: wf_induct_rule [OF wf_mult [OF wf_less_than]])
  case 1
  show ?case
  proof (cases "xQueueReceive ops q")
    case None
    then have "contents q = []" using fifo_receive [OF assms(1), of q] by simp
    moreover have "esp_rmaker_handle_work_queue ops run s = Some s"
      using None 1(2) by (subst esp_rmaker_handle_work_queue.simps) simp
    ultimately show ?thesis using 1(2) by simp
  next
    case (Some r)
    then obtain w q1 where r: "xQueueReceive ops q = Some (w, q1)" by (cases r) auto
    define u where "u = run w (s\<lparr>work_queue := Some q1\<rparr>)"
    have c: "contents q = w # contents q1" using fifo_receive [OF assms(1), of q] r by simp
    obtain q2 ws where q2: "work_queue u = Some q2" "contents q2 = contents q1 @ ws"
        "\<forall>v \<in> set ws. rank v < rank w"
      using assms(2) unfolding adds_lower_def u_def
      by (metis (no_types) wq.select_convs(1) wq.surjective wq.update_convs(1))
    have "(mset (map rank (contents q2)), mset (map rank (contents q))) \<in> mult less_than"
      unfolding c q2(2) by (rule ranks_decrease [OF q2(3)])
    from 1(1) [OF this q2(1)] obtain t q' later where t:
      "esp_rmaker_handle_work_queue ops run u = Some t" "work_queue t = Some q'"
      "contents q' = []" "hist t = hist u @ contents q2 @ later" by blast
    have "esp_rmaker_handle_work_queue ops run s = Some t"
      using t(1) r 1(2) by (subst esp_rmaker_handle_work_queue.simps) (simp add: u_def)
    moreover have "hist u = hist s @ [w]" using assms(3) by (cases w) (simp add: logs_work_def u_def)
    ultimately show ?thesis using t(2-4) c q2(2) by auto
  qed
qed

subsection \<open>One task and a queue that outlives it\<close>

definition tasks_alive :: "('q, 'a) wq_scheme \<Rightarrow> int" where
  \<comment> \<open>tasks created less tasks deleted\<close>
  "tasks_alive s =
     int (count_list (trace s) (Os (TaskCreate ''esp_rmaker_work_queue_task'' 4096 5)))
     - int (count_list (trace s) (Os (TaskDelete ''esp_rmaker_work_queue_task'')))"

text \<open>
  A work function reaches the queue through the operations of the component only: it leaves it
  as some sequence of them would. It runs in the task, so the task does not end meanwhile.
\<close>

definition wq_view :: "('q, 'a) wq_scheme \<Rightarrow> 'q option \<times> wq_state \<times> int \<times> bool" where
  "wq_view s = (work_queue s, queue_state s, tasks_alive s, Os Abort \<in> set (trace s))"

definition uses_operations ::
  "'q queue_ops \<Rightarrow> (work \<Rightarrow> ('q, 'a) wq_scheme \<Rightarrow> ('q, 'a) wq_scheme) \<Rightarrow> bool" where
  "uses_operations ops run \<longleftrightarrow>
     (\<forall>w s. \<exists>cs. wq_view (run w s) = wq_view (snd (wq_run ops cs s)))"

inductive wq_reach ::
  "'q queue_ops \<Rightarrow> (work \<Rightarrow> ('q, 'a) wq_scheme \<Rightarrow> ('q, 'a) wq_scheme) \<Rightarrow> ('q, 'a) wq_scheme \<Rightarrow> bool"
  for ops run where
  wq_boot: "work_queue s = None \<Longrightarrow> queue_state s = WORK_QUEUE_STATE_DEINIT \<Longrightarrow> trace s = [] \<Longrightarrow>
    wq_reach ops run s"
| wq_call: "wq_reach ops run s \<Longrightarrow> wq_reach ops run (snd (wq_do ops c (s\<lparr>mem_ok := [ok]\<rparr>)))"
| wq_round: "wq_reach ops run s \<Longrightarrow> 0 < tasks_alive s \<Longrightarrow>
    esp_rmaker_work_queue_task ops run s = Some (go, t) \<Longrightarrow> wq_reach ops run t"

definition wq_life :: "('q, 'a) wq_scheme \<Rightarrow> bool" where
  "wq_life s \<longleftrightarrow>
     tasks_alive s = (if queue_state s \<in> {WORK_QUEUE_STATE_RUNNING, WORK_QUEUE_STATE_STOP_REQUESTED}
        then 1 else 0)
   \<and> (work_queue s = None \<longleftrightarrow> queue_state s = WORK_QUEUE_STATE_DEINIT)
   \<and> Os Abort \<notin> set (trace s)"

lemma wq_life_view: "wq_view s = wq_view t \<Longrightarrow> wq_life s = wq_life t"
  by (simp add: wq_life_def wq_view_def)

lemma tasks_alive_simps [simp]:
  "tasks_alive (snd (alloc s)) = tasks_alive (s :: ('q, 'a) wq_scheme)"
  "tasks_alive (s\<lparr>work_queue := q\<rparr>) = tasks_alive s"
  "tasks_alive (s\<lparr>queue_state := st\<rparr>) = tasks_alive s"
  "tasks_alive (s\<lparr>mem_ok := m\<rparr>) = tasks_alive s"
  "tasks_alive (emit e s) = tasks_alive s +
     (if e = Os (TaskCreate ''esp_rmaker_work_queue_task'' 4096 5) then 1
      else if e = Os (TaskDelete ''esp_rmaker_work_queue_task'') then - 1 else 0)"
  by (simp_all add: tasks_alive_def)

lemma wq_do_life: "wq_life s \<Longrightarrow> wq_life (snd (wq_do ops c s))"
proof (cases c)
  case (WqAdd w)
  assume "wq_life s"
  then show ?thesis
    using WqAdd by (auto simp: wq_life_def esp_rmaker_work_queue_add_task_def split: option.split)
qed (auto simp: wq_life_def wq_defs Let_def split_def)

lemma wq_life_answers [simp]: "wq_life (s\<lparr>mem_ok := m\<rparr>) = wq_life s"
  by (simp add: wq_life_def)

lemma wq_run_life: "wq_life s \<Longrightarrow> wq_life (snd (wq_run ops cs s))"
proof (induction cs arbitrary: s)
  case (Cons co cs)
  obtain c ok where co: "co = (c, ok)" by (cases co)
  have "wq_life (snd (wq_do ops c (s\<lparr>mem_ok := [ok]\<rparr>)))"
    by (intro wq_do_life) (simp add: Cons.prems)
  then show ?case using Cons.IH by (simp add: co split_def Let_def)
qed simp

lemma wq_do_alive: "tasks_alive s \<le> tasks_alive (snd (wq_do ops c s))"
  by (cases c) (auto simp: wq_defs Let_def split_def split: option.split)

lemma wq_run_alive: "tasks_alive s \<le> tasks_alive (snd (wq_run ops cs s))"
proof (induction cs arbitrary: s)
  case (Cons co cs)
  obtain c ok where co: "co = (c, ok)" by (cases co)
  have "tasks_alive s \<le> tasks_alive (snd (wq_do ops c (s\<lparr>mem_ok := [ok]\<rparr>)))"
    using wq_do_alive [of "s\<lparr>mem_ok := [ok]\<rparr>" ops c] by simp
  also have "\<dots> \<le> tasks_alive (snd (wq_run ops cs (snd (wq_do ops c (s\<lparr>mem_ok := [ok]\<rparr>)))))"
    by (rule Cons.IH)
  finally show ?case by (simp add: co split_def Let_def)
qed simp

definition wq_live :: "('q, 'a) wq_scheme \<Rightarrow> bool" where
  "wq_live s \<longleftrightarrow> wq_life s \<and> 0 < tasks_alive s"

lemma wq_live_queue: "wq_live s \<Longrightarrow> work_queue s \<noteq> None"
  by (auto simp: wq_live_def wq_life_def split: if_splits)

lemma wq_live_receive [simp]: "work_queue s = Some q \<Longrightarrow> wq_live (s\<lparr>work_queue := Some q'\<rparr>) = wq_live s"
  by (simp add: wq_live_def wq_life_def)

lemma work_live:
  assumes "uses_operations ops run" "wq_live s"
  shows "wq_live (run w s)"
proof -
  obtain cs where cs: "wq_view (run w s) = wq_view (snd (wq_run ops cs s))"
    using assms(1) unfolding uses_operations_def by blast
  have "tasks_alive (run w s) = tasks_alive (snd (wq_run ops cs s))"
    using cs by (simp add: wq_view_def)
  then show ?thesis
    using assms(2) wq_life_view [OF cs] wq_run_life [of s ops cs] wq_run_alive [of s ops cs]
    by (simp add: wq_live_def)
qed

lemma drain_live:
  assumes "esp_rmaker_handle_work_queue ops run s = Some t"
  shows "uses_operations ops run \<longrightarrow> wq_live s \<longrightarrow> wq_live t"
proof (rule esp_rmaker_handle_work_queue.raw_induct
    [of "\<lambda>ops run s t. uses_operations ops run \<longrightarrow> wq_live s \<longrightarrow> wq_live t", OF _ assms])
  fix rec ops run s t
  assume IH: "\<And>ops run s t. rec ops run s = Some t \<Longrightarrow>
      uses_operations ops run \<longrightarrow> wq_live s \<longrightarrow> wq_live t"
    and body: "(case work_queue s of None \<Rightarrow> Some (emit (Os Abort) s)
      | Some q \<Rightarrow> (case xQueueReceive ops q of None \<Rightarrow> Some s
           | Some (w, q') \<Rightarrow> rec ops run (run w (s\<lparr>work_queue := Some q'\<rparr>)))) = Some t"
  show "uses_operations ops run \<longrightarrow> wq_live s \<longrightarrow> wq_live t"
  proof (intro impI)
    assume u: "uses_operations ops run" and live: "wq_live s"
    obtain q where q: "work_queue s = Some q" using wq_live_queue [OF live] by blast
    show "wq_live t"
    proof (cases "xQueueReceive ops q")
      case None
      then show ?thesis using body q live by simp
    next
      case (Some r)
      obtain w q' where "r = (w, q')" by (cases r)
      then have "rec ops run (run w (s\<lparr>work_queue := Some q'\<rparr>)) = Some t"
        using body q Some by simp
      moreover have "wq_live (run w (s\<lparr>work_queue := Some q'\<rparr>))"
        by (intro work_live [OF u]) (simp add: q live)
      ultimately show ?thesis using IH u by blast
    qed
  qed
qed

lemma task_round_life:
  assumes "esp_rmaker_work_queue_task ops run s = Some (go, t)" "uses_operations ops run"
    "wq_life s" "0 < tasks_alive s"
  shows "wq_life t"
proof (cases "queue_state s = WORK_QUEUE_STATE_STOP_REQUESTED")
  case True
  then show ?thesis using assms by (auto simp: esp_rmaker_work_queue_task_def wq_life_def)
next
  case False
  then obtain u where u: "esp_rmaker_handle_work_queue ops run s = Some u"
      "t = emit (Os (Delay 2000)) u"
    using assms(1) by (auto simp: esp_rmaker_work_queue_task_def)
  have "wq_live u" using drain_live [OF u(1)] assms(2-4) by (simp add: wq_live_def)
  then show ?thesis by (simp add: wq_live_def wq_life_def u(2))
qed

text \<open>At most one task serves the work queue, and the queue outlives it. In every reachable
  state a task is alive exactly while the state is running or stop-requested, there is a queue
  exactly while the component is initialised (so the task never receives from a deleted queue),
  provided work functions reach the queue through the component's operations only.\<close>
theorem work_queue_lifecycle:
  assumes "wq_reach ops run s" "uses_operations ops run"
  shows "tasks_alive s =
      (if queue_state s \<in> {WORK_QUEUE_STATE_RUNNING, WORK_QUEUE_STATE_STOP_REQUESTED} then 1 else 0)
    \<and> (work_queue s = None \<longleftrightarrow> queue_state s = WORK_QUEUE_STATE_DEINIT)
    \<and> Os Abort \<notin> set (trace s)"
proof -
  have "wq_life s"
    using assms(1)
  proof (induction rule: wq_reach.induct)
    case (wq_boot s)
    then show ?case by (simp add: wq_life_def tasks_alive_def)
  next
    case (wq_call s c ok)
    then show ?case by (intro wq_do_life) simp
  next
    case (wq_round s go t)
    then show ?case using task_round_life [OF wq_round(3) assms(2)] by simp
  qed
  then show ?thesis by (simp add: wq_life_def)
qed

text \<open>An example: an entry \<open>f n\<close> adds \<open>f (n - 1)\<close> while \<open>n\<close> is positive.\<close>

definition ex_run :: "work \<Rightarrow> (nat \<times> work list, 'a) wq_scheme \<Rightarrow> (nat \<times> work list, 'a) wq_scheme" where
  "ex_run w s = (let s = emit (App (fst w) (snd w)) s
     in case snd w of
          [n] \<Rightarrow> if 0 < n then snd (esp_rmaker_work_queue_add_task list_queue (fst w, [n - 1]) s) else s
        | _ \<Rightarrow> s)"

definition ex_hist :: "(nat \<times> work list, 'a) wq_scheme \<Rightarrow> work list" where
  "ex_hist s = List.map_filter (\<lambda>e. case e of App f xs \<Rightarrow> Some (f, xs) | _ \<Rightarrow> None) (trace s)"

definition ex_rank :: "work \<Rightarrow> nat" where
  "ex_rank w = (case snd w of [n] \<Rightarrow> nat n | _ \<Rightarrow> 0)"

definition ex_wq :: "(nat \<times> work list) wq" where
  "ex_wq = \<lparr>trace = [], inputs = [], mem_ok = [],
     work_queue = Some (8, [(''report'', [1]), (''map'', [])]),
     queue_state = WORK_QUEUE_STATE_RUNNING\<rparr>"

lemma add_task_queue:
  "work_queue s = Some (n, vs) \<Longrightarrow>
     snd (esp_rmaker_work_queue_add_task list_queue w s) =
       (if length vs < n then s\<lparr>work_queue := Some (n, vs @ [w])\<rparr> else s)"
  by (simp add: esp_rmaker_work_queue_add_task_def list_queue_def)

lemma ex_adds_lower: "adds_lower snd ex_rank ex_run"
  by (auto simp: adds_lower_def ex_run_def ex_rank_def add_task_queue Let_def split: list.splits)

lemma trace_add_task [simp]:
  "trace (snd (esp_rmaker_work_queue_add_task ops w s)) = trace s"
  by (simp add: esp_rmaker_work_queue_add_task_def split: option.split)

lemma ex_logs_work: "logs_work ex_hist ex_run"
  by (auto simp: logs_work_def ex_run_def ex_hist_def Let_def List.map_filter_def split: list.splits)

theorem work_queue_refines_witness:
  "map_prod id (wq_abs snd) (wq_run list_queue
      [(WqAdd (''report'', []), True), (WqInit, True), (WqAdd (''report'', []), True), (WqStart, False)]
      (ex_wq\<lparr>work_queue := None, queue_state := WORK_QUEUE_STATE_DEINIT\<rparr>))
   = ([ESP_ERR_INVALID_STATE, ESP_OK, ESP_OK, ESP_FAIL],
      WORK_QUEUE_STATE_INIT_DONE, Some [(''report'', [])])"
  by (subst work_queue_refines [OF list_queue_fifo]) (simp_all add: ex_wq_def)

theorem work_queue_drains_witness:
  "\<exists>t q' later. esp_rmaker_handle_work_queue list_queue ex_run ex_wq = Some t
    \<and> work_queue t = Some q' \<and> snd q' = []
    \<and> ex_hist t = ex_hist ex_wq @ [(''report'', [1]), (''map'', [])] @ later"
  using work_queue_drains [OF list_queue_fifo ex_adds_lower ex_logs_work, of ex_wq]
  by (simp add: ex_wq_def)

lemma wq_view_App [simp]: "wq_view (emit (App f xs) s) = wq_view s"
  by (simp add: wq_view_def)

lemma ex_uses_operations: "uses_operations list_queue ex_run"
  unfolding uses_operations_def
proof (intro allI)
  fix w and s :: "(nat \<times> work list, 'a) wq_scheme"
  have idle: "wq_view (emit (App (fst w) (snd w)) s) = wq_view (snd (wq_run list_queue [] s))" by simp
  have add: "wq_view (snd (esp_rmaker_work_queue_add_task list_queue v (emit (App (fst w) (snd w)) s)))
      = wq_view (snd (wq_run list_queue [(WqAdd v, True)] s))" for v
    by (auto simp: wq_view_def tasks_alive_def esp_rmaker_work_queue_add_task_def Let_def split_def
        split: option.split)
  show "\<exists>cs. wq_view (ex_run w s) = wq_view (snd (wq_run list_queue cs s))"
    using idle add by (auto simp: ex_run_def Let_def simp del: wq_view_App wq_run.simps split: list.split)
qed

definition ex_boot :: "(nat \<times> work list) wq" where
  "ex_boot = \<lparr>trace = [], inputs = [], mem_ok = [], work_queue = None,
     queue_state = WORK_QUEUE_STATE_DEINIT\<rparr>"

theorem work_queue_lifecycle_witness:
  "tasks_alive (snd (wq_do list_queue WqStop ((snd (wq_do list_queue WqStart
     ((snd (wq_do list_queue WqInit (ex_boot\<lparr>mem_ok := [True]\<rparr>)))\<lparr>mem_ok := [True]\<rparr>)))\<lparr>mem_ok := [True]\<rparr>))) = 1"
proof -
  define s where "s = snd (wq_do list_queue WqStop ((snd (wq_do list_queue WqStart
     ((snd (wq_do list_queue WqInit (ex_boot\<lparr>mem_ok := [True]\<rparr>)))\<lparr>mem_ok := [True]\<rparr>)))\<lparr>mem_ok := [True]\<rparr>))"
  have "wq_reach list_queue ex_run s"
    unfolding s_def by (intro wq_call wq_boot) (simp_all add: ex_boot_def)
  then have "tasks_alive s =
      (if queue_state s \<in> {WORK_QUEUE_STATE_RUNNING, WORK_QUEUE_STATE_STOP_REQUESTED} then 1 else 0)"
    using work_queue_lifecycle [OF _ ex_uses_operations] by blast
  moreover have "queue_state s = WORK_QUEUE_STATE_STOP_REQUESTED"
    by (simp add: s_def ex_boot_def list_queue_def wq_defs alloc_def emit_def)
  ultimately show ?thesis by (simp add: s_def)
qed

end
