(* ===== verification/Rm_Core_State.thy ===== *)
theory Rm_Core_State
  imports Rm_Reset Rm_Work_Queue
begin

text \<open>
  The rest of the library's static variables, on top of the objects of \<open>Rm_State\<close> and the
  timers of \<open>Rm_Reset\<close>: the work queue, the user mapping, the time, the schedules of
  \<open>esp_rmaker_schedule.c\<close> with the engine \<open>esp_schedule.c\<close> they run on, and the OTA.

  Schedules of both layers are heap objects, named by references like parameters. The work
  queue is kept as its abstract value, which \<open>work_queue_refines\<close> justifies.
\<close>

subsection \<open>The schedule engine\<close>

datatype esp_schedule_type =
  ESP_SCHEDULE_TYPE_INVALID | ESP_SCHEDULE_TYPE_DAYS_OF_WEEK | ESP_SCHEDULE_TYPE_DATE
  | ESP_SCHEDULE_TYPE_RELATIVE

record esp_trigger =
  et_type :: esp_schedule_type
  et_hours :: u8
  et_minutes :: u8
  et_repeat_days :: u8
  et_day :: u8
  et_repeat_months :: u16
  et_year :: u16
  et_every_year :: bool
  et_relative_seconds :: int
  et_next_utc :: int \<comment> \<open>\<open>next_scheduled_time_utc\<close>\<close>

text \<open>\<open>esp_schedule_config_t\<close>; a callback is the name of the function or \<open>None\<close>.\<close>

record esp_config =
  ec_name :: string
  ec_trigger :: esp_trigger
  ec_trigger_cb :: "string option"
  ec_timestamp_cb :: "string option"
  ec_priv :: int

text \<open>\<open>es_timer\<close> tells whether the timer handle is set.\<close>

record esp_sched =
  es_name :: string
  es_trigger :: esp_trigger
  es_time_diff :: u32 \<comment> \<open>\<open>next_scheduled_time_diff\<close>\<close>
  es_timer :: bool
  es_trigger_cb :: "string option"
  es_timestamp_cb :: "string option"
  es_priv :: int

definition esp_trigger0 :: esp_trigger where
  "esp_trigger0 = \<lparr>et_type = ESP_SCHEDULE_TYPE_INVALID, et_hours = 0, et_minutes = 0,
     et_repeat_days = 0, et_day = 0, et_repeat_months = 0, et_year = 0, et_every_year = False,
     et_relative_seconds = 0, et_next_utc = 0\<rparr>"

definition esp_config0 :: esp_config where
  "esp_config0 = \<lparr>ec_name = [], ec_trigger = esp_trigger0, ec_trigger_cb = None,
     ec_timestamp_cb = None, ec_priv = 0\<rparr>"

definition esp_sched0 :: esp_sched where
  "esp_sched0 = \<lparr>es_name = [], es_trigger = esp_trigger0, es_time_diff = 0, es_timer = False,
     es_trigger_cb = None, es_timestamp_cb = None, es_priv = 0\<rparr>"

subsection \<open>The RainMaker schedules\<close>

datatype trigger_type =
  TRIGGER_TYPE_INVALID | TRIGGER_TYPE_DAYS_OF_WEEK | TRIGGER_TYPE_DATE | TRIGGER_TYPE_RELATIVE

record rm_trigger =
  rt_type :: trigger_type
  rt_relative_seconds :: u16
  rt_minutes :: u16
  rt_repeat_days :: u8
  rt_day :: u8
  rt_repeat_months :: u16
  rt_year :: u16
  rt_every_year :: bool
  rt_next :: int \<comment> \<open>\<open>next_timestamp\<close>, 64 bits\<close>

record rm_sched =
  rs_name :: string
  rs_id :: string
  rs_info :: "string option"
  rs_index :: int
  rs_flags :: u32
  rs_enabled :: bool
  rs_handle :: "nat option"
  rs_action :: "string option"
  rs_action_len :: int
  rs_trigger :: rm_trigger

datatype time_sync_state = TIME_SYNC_NOT_STARTED | TIME_SYNC_STARTED | TIME_SYNC_DONE

record sched_priv =
  schedule_list :: "nat list"
  total_schedules :: int
  sched_index :: int
  schedule_service :: "nat option"
  time_sync_timer :: bool
  sync_state :: time_sync_state

definition rm_trigger0 :: rm_trigger where
  "rm_trigger0 = \<lparr>rt_type = TRIGGER_TYPE_INVALID, rt_relative_seconds = 0, rt_minutes = 0,
     rt_repeat_days = 0, rt_day = 0, rt_repeat_months = 0, rt_year = 0, rt_every_year = False,
     rt_next = 0\<rparr>"

definition rm_sched0 :: rm_sched where
  "rm_sched0 = \<lparr>rs_name = [], rs_id = [], rs_info = None, rs_index = 0, rs_flags = 0,
     rs_enabled = False, rs_handle = None, rs_action = None, rs_action_len = 0, rs_trigger = rm_trigger0\<rparr>"

subsection \<open>User mapping and OTA\<close>

datatype user_mapping_state =
  ESP_RMAKER_USER_MAPPING_RESET | ESP_RMAKER_USER_MAPPING_STARTED | ESP_RMAKER_USER_MAPPING_DONE

text \<open>\<open>um_ref\<close> is the address of the structure: queued work keeps a pointer to it.\<close>

record um_data =
  um_ref :: nat
  um_user_id :: string
  um_secret_key :: string
  um_msg_id :: int

datatype ota_status =
  OTA_STATUS_IN_PROGRESS | OTA_STATUS_SUCCESS | OTA_STATUS_FAILED | OTA_STATUS_DELAYED

datatype ota_type = OTA_USING_PARAMS | OTA_USING_TOPICS

text \<open>\<open>transient_priv\<close> points to the service or to the identifier of the job.\<close>

datatype ota_transient = OtaService nat | OtaJob string

text \<open>
  \<open>esp_rmaker_ota_t\<close>; the callback is the name of the function. \<open>priv\<close> is only passed on to a
  callback of the application, the program sets none.
\<close>

record rm_ota =
  ota_type :: ota_type
  ota_cb :: string
  server_cert :: string
  ota_url :: "string option"
  ota_filesize :: int
  ota_in_progress :: bool
  last_reported_status :: "ota_status option"
  transient_priv :: "ota_transient option"

subsection \<open>The state\<close>

record core = lib +
  work :: wq_spec
  storage_init_done :: bool
  mqtt_setup_done :: bool
  wifi_event_group :: bool
  user_mapping_data :: "um_data option"
  user_mapping_state :: user_mapping_state
  time_init_done :: bool
  env_tz :: "string option" \<comment> \<open>the environment variable \<open>TZ\<close>\<close>
  es_heap :: "nat \<Rightarrow> esp_sched"
  rs_heap :: "nat \<Rightarrow> rm_sched"
  schedule_priv_data :: "sched_priv option"
  ota :: "rm_ota option"
  ota_init_done :: bool

text \<open>A call of the work queue: only its creation calls read an answer of the platform.\<close>

definition wq_asks :: "wq_op \<Rightarrow> wq_spec \<Rightarrow> bool" where
  "wq_asks c w \<longleftrightarrow> (c = WqInit \<and> fst w = WORK_QUEUE_STATE_DEINIT)
     \<or> (c = WqStart \<and> fst w = WORK_QUEUE_STATE_INIT_DONE)"

definition wq_call :: "wq_op \<Rightarrow> 'a core_scheme \<Rightarrow> esp_err \<times> 'a core_scheme" where
  "wq_call c s =
     (let (ok, s) = (if wq_asks c (work s) then alloc s else (True, s));
          (err, w) = spec_op c ok (work s)
      in (err, s\<lparr>work := w\<rparr>))"

subsection \<open>What the boundary leaves alone\<close>

lemma core_emit [simp]:
  "work (emit e s) = work s" "storage_init_done (emit e s) = storage_init_done s"
  "mqtt_setup_done (emit e s) = mqtt_setup_done s" "wifi_event_group (emit e s) = wifi_event_group s"
  "user_mapping_data (emit e s) = user_mapping_data s"
  "user_mapping_state (emit e s) = user_mapping_state s"
  "time_init_done (emit e s) = time_init_done s" "env_tz (emit e s) = env_tz s"
  "es_heap (emit e s) = es_heap s" "rs_heap (emit e s) = rs_heap s"
  "schedule_priv_data (emit e s) = schedule_priv_data s" "ota (emit e s) = ota s"
  "ota_init_done (emit e s) = ota_init_done s"
  by (simp_all add: emit_def)

lemma core_ask [simp]:
  "work (snd (ask s)) = work s" "storage_init_done (snd (ask s)) = storage_init_done s"
  "mqtt_setup_done (snd (ask s)) = mqtt_setup_done s" "wifi_event_group (snd (ask s)) = wifi_event_group s"
  "user_mapping_data (snd (ask s)) = user_mapping_data s"
  "user_mapping_state (snd (ask s)) = user_mapping_state s"
  "time_init_done (snd (ask s)) = time_init_done s" "env_tz (snd (ask s)) = env_tz s"
  "es_heap (snd (ask s)) = es_heap s" "rs_heap (snd (ask s)) = rs_heap s"
  "schedule_priv_data (snd (ask s)) = schedule_priv_data s" "ota (snd (ask s)) = ota s"
  "ota_init_done (snd (ask s)) = ota_init_done s"
  by (simp_all add: ask_def split: list.split)

lemma core_alloc [simp]:
  "work (snd (alloc s)) = work s" "storage_init_done (snd (alloc s)) = storage_init_done s"
  "mqtt_setup_done (snd (alloc s)) = mqtt_setup_done s" "wifi_event_group (snd (alloc s)) = wifi_event_group s"
  "user_mapping_data (snd (alloc s)) = user_mapping_data s"
  "user_mapping_state (snd (alloc s)) = user_mapping_state s"
  "time_init_done (snd (alloc s)) = time_init_done s" "env_tz (snd (alloc s)) = env_tz s"
  "es_heap (snd (alloc s)) = es_heap s" "rs_heap (snd (alloc s)) = rs_heap s"
  "schedule_priv_data (snd (alloc s)) = schedule_priv_data s" "ota (snd (alloc s)) = ota s"
  "ota_init_done (snd (alloc s)) = ota_init_done s"
  by (simp_all add: alloc_def split: list.split)

lemma core_call [simp]:
  "work (snd (call e s)) = work s" "storage_init_done (snd (call e s)) = storage_init_done s"
  "mqtt_setup_done (snd (call e s)) = mqtt_setup_done s" "wifi_event_group (snd (call e s)) = wifi_event_group s"
  "user_mapping_data (snd (call e s)) = user_mapping_data s"
  "user_mapping_state (snd (call e s)) = user_mapping_state s"
  "time_init_done (snd (call e s)) = time_init_done s" "env_tz (snd (call e s)) = env_tz s"
  "es_heap (snd (call e s)) = es_heap s" "rs_heap (snd (call e s)) = rs_heap s"
  "schedule_priv_data (snd (call e s)) = schedule_priv_data s" "ota (snd (call e s)) = ota s"
  "ota_init_done (snd (call e s)) = ota_init_done s"
  by (simp_all add: call_def)

lemma core_nvs_read [simp]:
  "trace (snd (nvs_read s)) = trace s" "work (snd (nvs_read s)) = work s"
  "env_tz (snd (nvs_read s)) = env_tz s" "time_init_done (snd (nvs_read s)) = time_init_done s"
  by (simp_all add: nvs_read_def split: list.split)

text \<open>The concrete state of the witnesses: the running library of \<open>ex_rm\<close>.\<close>

definition ex_core :: core where
  "ex_core = rm.extend ex_rm
     \<lparr>reboot_timer = False, reset_timer = None,
      work = (WORK_QUEUE_STATE_RUNNING, Some []), storage_init_done = True,
      mqtt_setup_done = True, wifi_event_group = False, user_mapping_data = None,
      user_mapping_state = ESP_RMAKER_USER_MAPPING_DONE, time_init_done = True, env_tz = None,
      es_heap = (\<lambda>_. esp_sched0), rs_heap = (\<lambda>_. rm_sched0), schedule_priv_data = None,
      ota = None, ota_init_done = False\<rparr>"

end
