(* ===== verification/App_State.thy ===== *)
theory App_State
  imports Rm_Core_State
begin

text \<open>
  The state of the application, \<open>projects/single_live_wire_switch\<close>: the global and static
  variables of its files, under their C names, on top of the state of the RainMaker library,
  so that the application's functions call the library's. \<open>char\<close> is unsigned on the target,
  so the brightness percentages are bytes.
\<close>

type_synonym cmd = u8

text \<open>The commands of \<open>app_uart.h\<close>.\<close>

definition OnOffCMD :: cmd where "OnOffCMD = 0x00"
definition BriNowCMD :: cmd where "BriNowCMD = 0x01"
definition BriMaxCMD :: cmd where "BriMaxCMD = 0x02"
definition BriMinCMD :: cmd where "BriMinCMD = 0x03"
definition CChargingCMD :: cmd where "CChargingCMD = 0x04"
definition WIFIRESETCMD :: cmd where "WIFIRESETCMD = 0x05"
definition WIFIINITENDCMD :: cmd where "WIFIINITENDCMD = 0x06"
definition WIFIINITSTARTCMD :: cmd where "WIFIINITSTARTCMD = 0x07"
definition UART_SEND_ALLOW :: cmd where "UART_SEND_ALLOW = 0xcc"
definition UART_ACCEPT_END :: cmd where "UART_ACCEPT_END = 0xdd"
definition ERRORCMD :: cmd where "ERRORCMD = 0xff"

lemmas cmd_defs = OnOffCMD_def BriNowCMD_def BriMaxCMD_def BriMinCMD_def CChargingCMD_def
  WIFIRESETCMD_def WIFIINITENDCMD_def WIFIINITSTARTCMD_def UART_SEND_ALLOW_def
  UART_ACCEPT_END_def ERRORCMD_def

text \<open>The reconnect strategy of \<open>app_event.c\<close>.\<close>

datatype connect_phase = WIFI_CONNECT_PHASE_0 | WIFI_CONNECT_PHASE_1 | WIFI_CONNECT_PHASE_2

record phase_ctx =
  connect_cnt :: int
  connect_max :: int
  connect_timeout :: int \<comment> \<open>seconds\<close>

record strategy =
  is_connected :: bool
  cur_phase :: connect_phase
  phase :: "connect_phase \<Rightarrow> phase_ctx"

text \<open>The buttons of \<open>app_button.c\<close>; \<open>button_delay_time\<close> is the static of the first ISR.\<close>

record buttons =
  button1_intr_type :: gpio_intr
  button2_intr_type :: gpio_intr
  button3_intr_type :: gpio_intr
  Bright_Press_End_Flag :: int
  button_delay_time :: int
  dim_add_key_val :: int
  dim_sub_key_val :: int
  dim_add_key_val_temp :: int
  dim_sub_key_val_temp :: int

text \<open>
  \<open>timers\<close> holds the timers whose handle variable is not \<open>NULL\<close>; \<open>lock_held\<close> is
  \<open>lock_status == 1\<close> and \<open>s_pm_cpu_lock\<close> that the lock's handle is not \<open>NULL\<close>.
\<close>

record app = core +
  Bri_Status :: u16
  Bri_Min_Pct :: u8
  Bri_Max_Pct :: u8
  Bri_Now_Pct :: u8
  ucSendBuff :: "u8 list"
  ucSendFlag :: bool
  ucSendTaskHandle_Flag :: bool
  ucRxTaskHandle_Flag :: bool
  wakeup_io_intr_type :: gpio_intr
  s_wifi_init_end_flag :: bool
  s_pm_cpu_lock :: bool
  lock_held :: bool
  timers :: "timer_id set"
  strat :: strategy
  btns :: buttons
  switch_device :: "nat option"
  ADC_CHECK_OK :: bool
  g_prov_timer :: bool

definition handle :: "timer_id \<Rightarrow> 'a app_scheme \<Rightarrow> timer_id option" where
  "handle t s = (if t \<in> timers s then Some t else None)"

text \<open>\<open>esp_timer_create(&args, &t)\<close>: the handle is written when the call succeeds.\<close>

definition timer_create :: "timer_id \<Rightarrow> string \<Rightarrow> 'a app_scheme \<Rightarrow> esp_err \<times> 'a app_scheme" where
  "timer_create t cb s =
     (let (err, s) = call (Timer (TimerCreate t cb)) s
      in (err, if err = ESP_OK then s\<lparr>timers := insert t (timers s)\<rparr> else s))"

definition timer_stop :: "timer_id \<Rightarrow> 'a app_scheme \<Rightarrow> 'a app_scheme" where
  "timer_stop t s = emit (Timer (TimerStop (handle t s))) s"

definition timer_once :: "timer_id \<Rightarrow> int \<Rightarrow> 'a app_scheme \<Rightarrow> 'a app_scheme" where
  "timer_once t us s = emit (Timer (TimerStartOnce (handle t s) us)) s"

definition timer_periodic :: "timer_id \<Rightarrow> int \<Rightarrow> 'a app_scheme \<Rightarrow> 'a app_scheme" where
  "timer_periodic t us s = emit (Timer (TimerStartPeriodic (handle t s) us)) s"

text \<open>
  \<open>ESP_ERROR_CHECK\<close> aborts on an error. The abort is recorded; a run that continues past it
  in the model does not happen on the device.
\<close>

definition error_check :: "esp_err \<Rightarrow> 'a app_scheme \<Rightarrow> 'a app_scheme" where
  "error_check err s = (if err \<noteq> ESP_OK then emit (Os Abort) s else s)"

definition vTaskDelay :: "int \<Rightarrow> 'a app_scheme \<Rightarrow> 'a app_scheme" where
  "vTaskDelay ms s = emit (Os (Delay ms)) s"

definition gpio_write :: "nat \<Rightarrow> int \<Rightarrow> 'a app_scheme \<Rightarrow> 'a app_scheme" where
  \<comment> \<open>release the hold of a pin, set its level, hold it again\<close>
  "gpio_write pin level s =
     emits [Gpio (GpioHoldDis pin), Gpio (GpioSetLevel pin level), Gpio (GpioHoldEn pin)] s"

definition phases0 :: "connect_phase \<Rightarrow> phase_ctx" where
  "phases0 _ = \<lparr>connect_cnt = 0, connect_max = 0, connect_timeout = 0\<rparr>"

text \<open>The initial values of the variables.\<close>

definition app_init :: app where
  "app_init = rm.extend rm_init
     \<lparr>reboot_timer = False, reset_timer = None,
      work = (WORK_QUEUE_STATE_DEINIT, None), storage_init_done = False,
      mqtt_setup_done = False, wifi_event_group = False, user_mapping_data = None,
      user_mapping_state = ESP_RMAKER_USER_MAPPING_RESET, time_init_done = False, env_tz = None,
      es_heap = (\<lambda>_. esp_sched0), rs_heap = (\<lambda>_. rm_sched0), schedule_priv_data = None,
      ota = None, ota_init_done = False,
      Bri_Status = 0, Bri_Min_Pct = 0, Bri_Max_Pct = 100, Bri_Now_Pct = 50,
      ucSendBuff = [0xaa, 0x55, 0, 0, 0], ucSendFlag = False, ucSendTaskHandle_Flag = False,
      ucRxTaskHandle_Flag = False, wakeup_io_intr_type = GPIO_INTR_HIGH_LEVEL,
      s_wifi_init_end_flag = False, s_pm_cpu_lock = False, lock_held = False, timers = {},
      strat = \<lparr>is_connected = False, cur_phase = WIFI_CONNECT_PHASE_0, phase = phases0\<rparr>,
      btns = \<lparr>button1_intr_type = GPIO_INTR_HIGH_LEVEL, button2_intr_type = GPIO_INTR_HIGH_LEVEL,
        button3_intr_type = GPIO_INTR_HIGH_LEVEL, Bright_Press_End_Flag = 1,
        button_delay_time = - 3000000, dim_add_key_val = 0, dim_sub_key_val = 0,
        dim_add_key_val_temp = 0, dim_sub_key_val_temp = 0\<rparr>,
      switch_device = None, ADC_CHECK_OK = False, g_prov_timer = False\<rparr>"

text \<open>No SDK call touches the application's own state.\<close>

lemma app_emit [simp]:
  "Bri_Status (emit e s) = Bri_Status s" "Bri_Min_Pct (emit e s) = Bri_Min_Pct s"
  "Bri_Max_Pct (emit e s) = Bri_Max_Pct s" "Bri_Now_Pct (emit e s) = Bri_Now_Pct s"
  "ucSendBuff (emit e s) = ucSendBuff s" "ucSendFlag (emit e s) = ucSendFlag s"
  "ucSendTaskHandle_Flag (emit e s) = ucSendTaskHandle_Flag s" "ucRxTaskHandle_Flag (emit e s) = ucRxTaskHandle_Flag s"
  "wakeup_io_intr_type (emit e s) = wakeup_io_intr_type s" "s_wifi_init_end_flag (emit e s) = s_wifi_init_end_flag s"
  "s_pm_cpu_lock (emit e s) = s_pm_cpu_lock s" "lock_held (emit e s) = lock_held s"
  "timers (emit e s) = timers s" "strat (emit e s) = strat s"
  "btns (emit e s) = btns s" "switch_device (emit e s) = switch_device s"
  "ADC_CHECK_OK (emit e s) = ADC_CHECK_OK s" "g_prov_timer (emit e s) = g_prov_timer s"
  by (simp_all add: emit_def)

lemma app_emits [simp]:
  "Bri_Status (emits es s) = Bri_Status s" "Bri_Min_Pct (emits es s) = Bri_Min_Pct s"
  "Bri_Max_Pct (emits es s) = Bri_Max_Pct s" "Bri_Now_Pct (emits es s) = Bri_Now_Pct s"
  "ucSendBuff (emits es s) = ucSendBuff s" "ucSendFlag (emits es s) = ucSendFlag s"
  "ucSendTaskHandle_Flag (emits es s) = ucSendTaskHandle_Flag s" "ucRxTaskHandle_Flag (emits es s) = ucRxTaskHandle_Flag s"
  "wakeup_io_intr_type (emits es s) = wakeup_io_intr_type s" "s_wifi_init_end_flag (emits es s) = s_wifi_init_end_flag s"
  "s_pm_cpu_lock (emits es s) = s_pm_cpu_lock s" "lock_held (emits es s) = lock_held s"
  "timers (emits es s) = timers s" "strat (emits es s) = strat s"
  "btns (emits es s) = btns s" "switch_device (emits es s) = switch_device s"
  "ADC_CHECK_OK (emits es s) = ADC_CHECK_OK s" "g_prov_timer (emits es s) = g_prov_timer s"
  by (simp_all add: emits_def)

lemma app_ask [simp]:
  "Bri_Status (snd (ask s)) = Bri_Status s" "Bri_Min_Pct (snd (ask s)) = Bri_Min_Pct s"
  "Bri_Max_Pct (snd (ask s)) = Bri_Max_Pct s" "Bri_Now_Pct (snd (ask s)) = Bri_Now_Pct s"
  "ucSendBuff (snd (ask s)) = ucSendBuff s" "ucSendFlag (snd (ask s)) = ucSendFlag s"
  "ucSendTaskHandle_Flag (snd (ask s)) = ucSendTaskHandle_Flag s" "ucRxTaskHandle_Flag (snd (ask s)) = ucRxTaskHandle_Flag s"
  "wakeup_io_intr_type (snd (ask s)) = wakeup_io_intr_type s" "s_wifi_init_end_flag (snd (ask s)) = s_wifi_init_end_flag s"
  "s_pm_cpu_lock (snd (ask s)) = s_pm_cpu_lock s" "lock_held (snd (ask s)) = lock_held s"
  "timers (snd (ask s)) = timers s" "strat (snd (ask s)) = strat s"
  "btns (snd (ask s)) = btns s" "switch_device (snd (ask s)) = switch_device s"
  "ADC_CHECK_OK (snd (ask s)) = ADC_CHECK_OK s" "g_prov_timer (snd (ask s)) = g_prov_timer s"
  by (simp_all add: ask_def split: list.split)

lemma app_call [simp]:
  "Bri_Status (snd (call e s)) = Bri_Status s" "Bri_Min_Pct (snd (call e s)) = Bri_Min_Pct s"
  "Bri_Max_Pct (snd (call e s)) = Bri_Max_Pct s" "Bri_Now_Pct (snd (call e s)) = Bri_Now_Pct s"
  "ucSendBuff (snd (call e s)) = ucSendBuff s" "ucSendFlag (snd (call e s)) = ucSendFlag s"
  "ucSendTaskHandle_Flag (snd (call e s)) = ucSendTaskHandle_Flag s" "ucRxTaskHandle_Flag (snd (call e s)) = ucRxTaskHandle_Flag s"
  "wakeup_io_intr_type (snd (call e s)) = wakeup_io_intr_type s" "s_wifi_init_end_flag (snd (call e s)) = s_wifi_init_end_flag s"
  "s_pm_cpu_lock (snd (call e s)) = s_pm_cpu_lock s" "lock_held (snd (call e s)) = lock_held s"
  "timers (snd (call e s)) = timers s" "strat (snd (call e s)) = strat s"
  "btns (snd (call e s)) = btns s" "switch_device (snd (call e s)) = switch_device s"
  "ADC_CHECK_OK (snd (call e s)) = ADC_CHECK_OK s" "g_prov_timer (snd (call e s)) = g_prov_timer s"
  by (simp_all add: call_def)

end
