(* ===== verification/App_Power.thy ===== *)
theory App_Power
  imports App_State
begin

text \<open>
  The power lock of \<open>app_main.c\<close>: \<open>stop_power_save\<close> and \<open>start_power_save\<close> acquire and release
  a power-management lock at most once each, whatever the order and number of the calls, and
  \<open>app_pm_config\<close> creates it.
\<close>

definition stop_power_save :: "'a app_scheme \<Rightarrow> 'a app_scheme" where
  "stop_power_save s =
     (if s_pm_cpu_lock s \<and> \<not> lock_held s then
        let s = s\<lparr>lock_held := True\<rparr>; (err, s) = call (Os PmLockAcquire) s in error_check err s
      else s)"

definition start_power_save :: "'a app_scheme \<Rightarrow> 'a app_scheme" where
  "start_power_save s =
     (if s_pm_cpu_lock s \<and> lock_held s then
        let s = s\<lparr>lock_held := False\<rparr>; (err, s) = call (Os PmLockRelease) s in error_check err s
      else s)"

text \<open>\<open>CONFIG_PM_ENABLE\<close> and \<open>CONFIG_FREERTOS_USE_TICKLESS_IDLE\<close> are set, 160 and 40 MHz.\<close>

definition app_pm_config :: "'a app_scheme \<Rightarrow> esp_err \<times> 'a app_scheme" where
  "app_pm_config s =
     (let (err, s) = call (Os (PmConfigure 160 40 True)) s;
          s = error_check err s;
          (err, s) = call (Os PmLockCreate) s;
          s = (if err = ESP_OK then s\<lparr>s_pm_cpu_lock := True\<rparr> else s)
      in (ESP_OK, s))"

subsection \<open>The lock is balanced\<close>

definition lock_count :: "effect list \<Rightarrow> int" where
  "lock_count es = int (length (filter (\<lambda>e. e = Os PmLockAcquire) es))
     - int (length (filter (\<lambda>e. e = Os PmLockRelease) es))"

lemma lock_count_simps [simp]:
  "lock_count [] = 0"
  "lock_count (e # es) = (if e = Os PmLockAcquire then 1 else 0)
     - (if e = Os PmLockRelease then 1 else 0) + lock_count es"
  "lock_count (xs @ ys) = lock_count xs + lock_count ys"
  by (simp_all add: lock_count_def)

definition power_inv :: "'a app_scheme \<Rightarrow> bool" where
  "power_inv s \<longleftrightarrow> lock_count (trace s) = (if lock_held s then 1 else 0)
     \<and> (lock_held s \<longrightarrow> s_pm_cpu_lock s)"

lemma error_check_fields [simp]:
  "lock_held (error_check e s) = lock_held s" "s_pm_cpu_lock (error_check e s) = s_pm_cpu_lock s"
  "lock_count (trace (error_check e s)) = lock_count (trace s)"
  by (simp_all add: error_check_def)

lemma stop_power_save_inv: "power_inv s \<Longrightarrow> power_inv (stop_power_save s)"
  by (simp add: power_inv_def stop_power_save_def case_prod_beta Let_def)

lemma start_power_save_inv: "power_inv s \<Longrightarrow> power_inv (start_power_save s)"
  by (simp add: power_inv_def start_power_save_def case_prod_beta Let_def)

lemma stop_power_save_held [simp]:
  "lock_held (stop_power_save s) = (s_pm_cpu_lock s \<or> lock_held s)"
  "s_pm_cpu_lock (stop_power_save s) = s_pm_cpu_lock s"
  by (auto simp: stop_power_save_def case_prod_beta Let_def)

lemma start_power_save_held [simp]:
  "lock_held (start_power_save s) = (lock_held s \<and> \<not> s_pm_cpu_lock s)"
  "s_pm_cpu_lock (start_power_save s) = s_pm_cpu_lock s"
  by (auto simp: start_power_save_def case_prod_beta Let_def)

text \<open>Any run of the two calls.\<close>

inductive power_run :: "app \<Rightarrow> app \<Rightarrow> bool" where
  power_refl: "power_run s s"
| power_stop: "power_run s t \<Longrightarrow> power_run s (stop_power_save t)"
| power_start: "power_run s t \<Longrightarrow> power_run s (start_power_save t)"

inductive_cases power_runE: "power_run s t"

lemma power_run_inv: "power_run s t \<Longrightarrow> power_inv s \<Longrightarrow> power_inv t \<and> s_pm_cpu_lock t = s_pm_cpu_lock s"
  by (induction rule: power_run.induct) (auto intro: stop_power_save_inv start_power_save_inv)

text \<open>The power lock stays balanced. After any sequence of \<open>stop_power_save\<close> and
  \<open>start_power_save\<close> calls, whatever the lock functions answer, the lock has been acquired as
  often as released, plus once if and only if \<open>lock_status\<close> says it is held; a following
  \<open>start_power_save\<close> always leaves it released.\<close>
theorem power_lock_balanced:
  assumes "power_run s t" "power_inv s"
  shows "lock_count (trace t) = (if lock_held t then 1 else 0)
    \<and> lock_count (trace (start_power_save t)) = 0 \<and> \<not> lock_held (start_power_save t)"
  using power_run_inv [OF assms] start_power_save_inv [of t] by (auto simp: power_inv_def)

theorem power_lock_balanced_witness:
  "lock_count (trace (start_power_save (stop_power_save (app_init\<lparr>s_pm_cpu_lock := True\<rparr>)))) = 0"
proof -
  let ?s = "app_init\<lparr>s_pm_cpu_lock := True\<rparr>"
  have "power_inv ?s"
    by (simp add: power_inv_def app_init_def rm_init_def rm.defs)
  then show ?thesis
    using power_lock_balanced [OF power_stop [OF power_refl], of ?s] by blast
qed

end
