(* ===== verification/App_Led.thy ===== *)
theory App_Led
  imports App_Power
begin

text \<open>
  The indicator LED: \<open>app_led.c\<close>. The LED is on GPIO 2 and lit by level 0. Besides blinking,
  \<open>single_fire_led_blink_on\<close> and \<open>single_fire_led_blink_off\<close> clear and set the flag
  \<open>s_wifi_init_end_flag\<close> of \<open>app_main.c\<close>.
\<close>

definition PROVISION_LED :: nat where "PROVISION_LED = 2"

definition single_fire_led_on :: "'a app_scheme \<Rightarrow> 'a app_scheme" where
  "single_fire_led_on s = gpio_write PROVISION_LED 0 s"

definition single_fire_led_off :: "'a app_scheme \<Rightarrow> 'a app_scheme" where
  "single_fire_led_off s = gpio_write PROVISION_LED 1 s"

definition device_led_timer_callback :: "'a app_scheme \<Rightarrow> 'a app_scheme" where
  "device_led_timer_callback s =
     (let s = emit (Gpio (GpioHoldDis PROVISION_LED)) s;
          (level, s) = call (Gpio (GpioGetLevel PROVISION_LED)) s;
          s = emit (Gpio (GpioSetLevel PROVISION_LED (if level \<noteq> 0 then 0 else 1))) s
      in emit (Gpio (GpioHoldEn PROVISION_LED)) s)"

definition single_fire_led_blink_on :: "'a app_scheme \<Rightarrow> 'a app_scheme" where
  "single_fire_led_blink_on s =
     timer_periodic LedTimer 1500000 (timer_stop LedTimer (s\<lparr>s_wifi_init_end_flag := False\<rparr>))"

definition single_fire_led_blink_on_adc :: "'a app_scheme \<Rightarrow> 'a app_scheme" where
  "single_fire_led_blink_on_adc s = timer_periodic LedTimer 400000 (timer_stop LedTimer s)"

definition single_fire_led_blink_off_adc :: "'a app_scheme \<Rightarrow> 'a app_scheme" where
  "single_fire_led_blink_off_adc s = single_fire_led_off (timer_stop LedTimer s)"

definition single_fire_led_blink_off :: "'a app_scheme \<Rightarrow> 'a app_scheme" where
  "single_fire_led_blink_off s =
     single_fire_led_off (timer_stop LedTimer (s\<lparr>s_wifi_init_end_flag := True\<rparr>))"

definition app_led_init :: "'a app_scheme \<Rightarrow> 'a app_scheme" where
  "app_led_init s =
     (let s = emit (Gpio (GpioConfig PROVISION_LED GPIO_INTR_DISABLE GPIO_MODE_INPUT_OUTPUT False False)) s;
          s = gpio_write PROVISION_LED 1 s;
          (_, s) = timer_create LedTimer ''device_led_timer_callback'' s
      in single_fire_led_blink_on_adc s)"

end
