(* ===== verification/App_Bri.thy ===== *)
theory App_Bri
  imports App_Led
begin

text \<open>
  The dimmer: \<open>bri_ctrl.c\<close>, and the function of \<open>app_uart.c\<close> it sends its commands with,
  \<open>send_bri_ctrl_info\<close>: it fills the send buffer, raises the send flag and creates the send
  task unless there is one. The two functions of \<open>app_button.c\<close> that guard the dim timer are
  here because \<open>Close_The_Lights\<close> calls one of them.
\<close>

subsection \<open>The command buffer\<close>

definition put_frame :: "cmd \<Rightarrow> u8 \<Rightarrow> u8 list \<Rightarrow> u8 list" where
  "put_frame cmd dat b =
     (let b = b[2 := cmd]; b = b[3 := dat] in b[4 := b ! 0 + b ! 1 + b ! 2 + b ! 3])"

text \<open>A whole call; \<open>req_step\<close> of \<open>App_World\<close> cuts it at every access to the shared variables.\<close>

definition send_bri_ctrl_info :: "cmd \<Rightarrow> u8 \<Rightarrow> 'a app_scheme \<Rightarrow> 'a app_scheme" where
  "send_bri_ctrl_info cmd dat s =
     (let s = s\<lparr>ucSendBuff := put_frame cmd dat (ucSendBuff s), ucSendFlag := True\<rparr>
      in if ucSendTaskHandle_Flag s then s
         else let (r, s) = call (Os (TaskCreate ''send_uart_info_task'' 4096 12)) s
              in if r \<noteq> pdTRUE then s else s\<lparr>ucSendTaskHandle_Flag := True\<rparr>)"

definition upd_btns :: "(buttons \<Rightarrow> buttons) \<Rightarrow> 'a app_scheme \<Rightarrow> 'a app_scheme" where
  "upd_btns f s = s\<lparr>btns := f (btns s)\<rparr>"

definition BUTTON_1 :: nat where "BUTTON_1 = 8"
definition BUTTON_2 :: nat where "BUTTON_2 = 5"
definition BUTTON_3 :: nat where "BUTTON_3 = 4"

definition start_button_check :: "'a app_scheme \<Rightarrow> 'a app_scheme" where
  "start_button_check s =
     (let (a, s) = call (Gpio (GpioGetLevel BUTTON_2)) s;
          s = upd_btns (\<lambda>b. b\<lparr>dim_add_key_val_temp := a\<rparr>) s;
          (c, s) = call (Gpio (GpioGetLevel BUTTON_3)) s
      in upd_btns (\<lambda>b. b\<lparr>dim_sub_key_val_temp := c\<rparr>) s)"

definition stop_button_check :: "'a app_scheme \<Rightarrow> 'a app_scheme" where
  "stop_button_check s = (if Button2Timer \<in> timers s then timer_stop Button2Timer s else s)"

subsection \<open>Brightness\<close>

definition Set_Bri_Status :: "u16 \<Rightarrow> 'a app_scheme \<Rightarrow> 'a app_scheme" where
  "Set_Bri_Status status s = s\<lparr>Bri_Status := status\<rparr>"

definition Get_Bri_Status :: "'a app_scheme \<Rightarrow> u16" where
  "Get_Bri_Status s = Bri_Status s"

definition Get_Btight_Pct :: "'a app_scheme \<Rightarrow> u32" where
  "Get_Btight_Pct s = ucast (Bri_Now_Pct s)"

definition Set_Btight_Pct :: "u32 \<Rightarrow> 'a app_scheme \<Rightarrow> 'a app_scheme" where
  "Set_Btight_Pct Pct s =
     (if ucast (Bri_Max_Pct s) < Pct \<or> ucast (Bri_Min_Pct s) > Pct then s
      else let s = s\<lparr>Bri_Now_Pct := ucast Pct\<rparr> in send_bri_ctrl_info BriNowCMD (Bri_Now_Pct s) s)"

definition Set_Btight_Min_Pct :: "u32 \<Rightarrow> 'a app_scheme \<Rightarrow> 'a app_scheme" where
  "Set_Btight_Min_Pct pct s =
     (if 100 < pct then s
      else
        let s = s\<lparr>Bri_Min_Pct := ucast pct\<rparr>;
            s = (if Bri_Now_Pct s < Bri_Min_Pct s
                 then let s = s\<lparr>Bri_Now_Pct := Bri_Min_Pct s\<rparr>
                      in send_bri_ctrl_info BriNowCMD (Bri_Now_Pct s) s
                 else s)
        in send_bri_ctrl_info BriMinCMD (Bri_Now_Pct s) s)"

definition Set_Btight_Max_Pct :: "u32 \<Rightarrow> 'a app_scheme \<Rightarrow> 'a app_scheme" where
  "Set_Btight_Max_Pct pct s =
     (if 100 < pct then s
      else
        let s = s\<lparr>Bri_Max_Pct := ucast pct\<rparr>;
            s = (if Bri_Now_Pct s > Bri_Max_Pct s
                 then let s = s\<lparr>Bri_Now_Pct := Bri_Max_Pct s\<rparr>
                      in vTaskDelay 1 (send_bri_ctrl_info BriNowCMD (Bri_Now_Pct s) s)
                 else s)
        in vTaskDelay 1 (send_bri_ctrl_info BriMaxCMD (Bri_Now_Pct s) s))"

definition Get_Btight_Min_Pct :: "'a app_scheme \<Rightarrow> u32" where
  "Get_Btight_Min_Pct s = ucast (Bri_Min_Pct s)"

definition Get_Btight_Max_Pct :: "'a app_scheme \<Rightarrow> u32" where
  "Get_Btight_Max_Pct s = ucast (Bri_Max_Pct s)"

definition Bright_Sub_Short_Press :: "'a app_scheme \<Rightarrow> 'a app_scheme" where
  "Bright_Sub_Short_Press s =
     (let s = s\<lparr>Bri_Now_Pct := Bri_Now_Pct s - 10\<rparr>;
          s = (if Bri_Now_Pct s < Bri_Min_Pct s \<or> Bri_Now_Pct s > 101
               then s\<lparr>Bri_Now_Pct := Bri_Min_Pct s\<rparr> else s)
      in send_bri_ctrl_info BriNowCMD (Bri_Now_Pct s) s)"

definition Bright_Sub_Long_Press :: "'a app_scheme \<Rightarrow> 'a app_scheme" where
  "Bright_Sub_Long_Press s =
     (if Bri_Now_Pct s > Bri_Min_Pct s
      then let s = s\<lparr>Bri_Now_Pct := Bri_Now_Pct s - 1\<rparr>
           in send_bri_ctrl_info BriNowCMD (Bri_Now_Pct s) s
      else s)"

definition Bright_Add_Short_Press :: "'a app_scheme \<Rightarrow> 'a app_scheme" where
  "Bright_Add_Short_Press s =
     (let s = s\<lparr>Bri_Now_Pct := Bri_Now_Pct s + 10\<rparr>;
          s = (if Bri_Now_Pct s > Bri_Max_Pct s then s\<lparr>Bri_Now_Pct := Bri_Max_Pct s\<rparr> else s)
      in send_bri_ctrl_info BriNowCMD (Bri_Now_Pct s) s)"

definition Bright_Add_Long_Press :: "'a app_scheme \<Rightarrow> 'a app_scheme" where
  "Bright_Add_Long_Press s =
     (if Bri_Now_Pct s < Bri_Max_Pct s
      then let s = s\<lparr>Bri_Now_Pct := Bri_Now_Pct s + 1\<rparr>
           in send_bri_ctrl_info BriNowCMD (Bri_Now_Pct s) s
      else s)"

subsection \<open>On and off\<close>

definition sys_check :: "'a app_scheme \<Rightarrow> 'a app_scheme" where
  "sys_check s = (if Bri_Status s = 0 then start_power_save s else s)"

definition Open_The_Lights :: "'a app_scheme \<Rightarrow> 'a app_scheme" where
  "Open_The_Lights s =
     (let s = s\<lparr>Bri_Status := 1\<rparr> in send_bri_ctrl_info OnOffCMD (ucast (Bri_Status s)) s)"

definition Close_The_Lights :: "'a app_scheme \<Rightarrow> 'a app_scheme" where
  "Close_The_Lights s =
     (let s = s\<lparr>Bri_Status := 0\<rparr>; s = stop_button_check s
      in send_bri_ctrl_info OnOffCMD (ucast (Bri_Status s)) s)"

definition Toggle_The_Lights :: "'a app_scheme \<Rightarrow> 'a app_scheme" where
  "Toggle_The_Lights s = (if Bri_Status s \<noteq> 0 then Close_The_Lights s else Open_The_Lights s)"

definition dimmer_rmaker_init :: "'a app_scheme \<Rightarrow> 'a app_scheme" where
  "dimmer_rmaker_init s = (if Bri_Status s \<noteq> 0 then Open_The_Lights s else Close_The_Lights s)"

subsection \<open>What sending leaves alone\<close>

lemma put_frame_length [simp]: "length (put_frame c d b) = length b"
  by (simp add: put_frame_def Let_def)

lemma put_frame_eq:
  "length b = 5 \<Longrightarrow> put_frame c d b = [b ! 0, b ! 1, c, d, b ! 0 + b ! 1 + c + d]"
  by (rule nth_equalityI)
     (auto simp: put_frame_def Let_def nth_list_update less_Suc_eq numeral_eq_Suc)

lemma send_fields [simp]:
  "Bri_Status (send_bri_ctrl_info c d s) = Bri_Status s"
  "Bri_Min_Pct (send_bri_ctrl_info c d s) = Bri_Min_Pct s"
  "Bri_Max_Pct (send_bri_ctrl_info c d s) = Bri_Max_Pct s"
  "Bri_Now_Pct (send_bri_ctrl_info c d s) = Bri_Now_Pct s"
  "ucSendBuff (send_bri_ctrl_info c d s) = put_frame c d (ucSendBuff s)"
  "ucSendFlag (send_bri_ctrl_info c d s)"
  "lock_held (send_bri_ctrl_info c d s) = lock_held s"
  "s_pm_cpu_lock (send_bri_ctrl_info c d s) = s_pm_cpu_lock s"
  "s_wifi_init_end_flag (send_bri_ctrl_info c d s) = s_wifi_init_end_flag s"
  "btns (send_bri_ctrl_info c d s) = btns s"
  "strat (send_bri_ctrl_info c d s) = strat s"
  "ucRxTaskHandle_Flag (send_bri_ctrl_info c d s) = ucRxTaskHandle_Flag s"
  by (simp_all add: send_bri_ctrl_info_def case_prod_beta Let_def)

lemma bri_trace_helpers [simp]:
  "Bri_Min_Pct (vTaskDelay n s) = Bri_Min_Pct s" "Bri_Max_Pct (vTaskDelay n s) = Bri_Max_Pct s"
  "Bri_Now_Pct (vTaskDelay n s) = Bri_Now_Pct s" "Bri_Status (vTaskDelay n s) = Bri_Status s"
  "Bri_Min_Pct (stop_button_check s) = Bri_Min_Pct s"
  "Bri_Max_Pct (stop_button_check s) = Bri_Max_Pct s"
  "Bri_Now_Pct (stop_button_check s) = Bri_Now_Pct s"
  "Bri_Status (stop_button_check s) = Bri_Status s"
  "ucSendBuff (stop_button_check s) = ucSendBuff s"
  "ucSendBuff (vTaskDelay n s) = ucSendBuff s"
  by (simp_all add: vTaskDelay_def stop_button_check_def timer_stop_def)

subsection \<open>The percentages\<close>

definition pct_ok :: "'a app_scheme \<Rightarrow> bool" where
  "pct_ok s \<longleftrightarrow> Bri_Min_Pct s \<le> 100 \<and> Bri_Now_Pct s \<le> 100 \<and> Bri_Max_Pct s \<le> 100"

definition pct_range :: "'a app_scheme \<Rightarrow> bool" where
  "pct_range s \<longleftrightarrow> Bri_Min_Pct s \<le> Bri_Now_Pct s \<and> Bri_Now_Pct s \<le> Bri_Max_Pct s
     \<and> Bri_Max_Pct s \<le> 100"

lemma pct_range_ok: "pct_range s \<Longrightarrow> pct_ok s"
  unfolding pct_range_def pct_ok_def by (meson order.trans)

text \<open>The operations the buttons, the cloud and the UART perform on the dimmer.\<close>

datatype bri_op =
  SetPct u32 | SetMin u32 | SetMax u32 | SubShort | SubLong | AddShort | AddLong
  | Open | Close | Toggle | DimmerInit

fun bri_do :: "bri_op \<Rightarrow> 'a app_scheme \<Rightarrow> 'a app_scheme" where
  "bri_do (SetPct p) s = Set_Btight_Pct p s"
| "bri_do (SetMin p) s = Set_Btight_Min_Pct p s"
| "bri_do (SetMax p) s = Set_Btight_Max_Pct p s"
| "bri_do SubShort s = Bright_Sub_Short_Press s"
| "bri_do SubLong s = Bright_Sub_Long_Press s"
| "bri_do AddShort s = Bright_Add_Short_Press s"
| "bri_do AddLong s = Bright_Add_Long_Press s"
| "bri_do Open s = Open_The_Lights s"
| "bri_do Close s = Close_The_Lights s"
| "bri_do Toggle s = Toggle_The_Lights s"
| "bri_do DimmerInit s = dimmer_rmaker_init s"

fun_cases bri_doE: "bri_do op s = t"

text \<open>The new percentages of each operation, in plain arithmetic.\<close>

lemma u8_le_100: "(x :: u8) \<le> 100 \<longleftrightarrow> unat x \<le> 100"
  by (simp add: word_le_nat_alt)

lemma set_pct_now:
  "Bri_Now_Pct (Set_Btight_Pct p s) =
     (if ucast (Bri_Max_Pct s) < p \<or> ucast (Bri_Min_Pct s) > p then Bri_Now_Pct s else ucast p)"
  by (simp add: Set_Btight_Pct_def Let_def)

lemma ucast_u32_u8:
  assumes "(p :: u32) \<le> ucast (m :: u8)"
  shows "unat (ucast p :: u8) = unat p" "(ucast p :: u8) \<le> m"
proof -
  have le: "unat p \<le> unat m"
    using assms u8_less_256 [of m] by (simp add: word_le_nat_alt unsigned_ucast_eq take_bit_nat_eq_self)
  then have "unat p < 2 ^ 8" using u8_less_256 [of m] by simp
  then show eq: "unat (ucast p :: u8) = unat p"
    by (simp add: unsigned_ucast_eq take_bit_nat_eq_self)
  show "(ucast p :: u8) \<le> m"
    using le eq by (simp add: word_le_nat_alt)
qed

lemma ucast_100: "(p :: u32) \<le> 100 \<Longrightarrow> (ucast p :: u8) \<le> 100"
  using ucast_u32_u8(2) [of p 100] by simp

lemma sub_short_now:
  assumes "pct_range s"
  shows "unat (Bri_Now_Pct (Bright_Sub_Short_Press s))
    = max (unat (Bri_Min_Pct s)) (unat (Bri_Now_Pct s) - 10)"
proof -
  let ?n = "Bri_Now_Pct s" and ?m = "Bri_Min_Pct s"
  have r: "unat ?m \<le> unat ?n" "unat ?n \<le> 100"
    using assms by (auto simp: pct_range_def word_le_nat_alt intro: order.trans)
  show ?thesis
  proof (cases "10 \<le> unat ?n")
    case True
    then have "unat (?n - 10) = unat ?n - 10"
      by (simp add: unat_sub word_le_nat_alt)
    then show ?thesis
      using r by (auto simp: Bright_Sub_Short_Press_def Let_def word_less_nat_alt max_def)
  next
    case False
    then have "unat (?n - 10) = unat ?n + 246"
      by (simp add: unat_sub_if' word_le_nat_alt)
    then show ?thesis
      using r False by (auto simp: Bright_Sub_Short_Press_def Let_def word_less_nat_alt max_def)
  qed
qed

lemma add_short_now:
  assumes "pct_range s"
  shows "unat (Bri_Now_Pct (Bright_Add_Short_Press s))
    = min (unat (Bri_Max_Pct s)) (unat (Bri_Now_Pct s) + 10)"
proof -
  let ?n = "Bri_Now_Pct s"
  have r: "unat ?n \<le> unat (Bri_Max_Pct s)" "unat (Bri_Max_Pct s) \<le> 100"
    using assms by (auto simp: pct_range_def word_le_nat_alt)
  then have "unat (?n + 10) = unat ?n + 10"
    by (simp add: unat_word_ariths)
  then show ?thesis
    using r by (auto simp: Bright_Add_Short_Press_def Let_def word_less_nat_alt min_def)
qed

lemma pct_limits [simp]:
  "Bri_Min_Pct (Set_Btight_Pct p s) = Bri_Min_Pct s" "Bri_Max_Pct (Set_Btight_Pct p s) = Bri_Max_Pct s"
  "Bri_Min_Pct (Bright_Sub_Short_Press s) = Bri_Min_Pct s"
  "Bri_Max_Pct (Bright_Sub_Short_Press s) = Bri_Max_Pct s"
  "Bri_Min_Pct (Bright_Add_Short_Press s) = Bri_Min_Pct s"
  "Bri_Max_Pct (Bright_Add_Short_Press s) = Bri_Max_Pct s"
  "Bri_Min_Pct (Bright_Sub_Long_Press s) = Bri_Min_Pct s"
  "Bri_Max_Pct (Bright_Sub_Long_Press s) = Bri_Max_Pct s"
  "Bri_Min_Pct (Bright_Add_Long_Press s) = Bri_Min_Pct s"
  "Bri_Max_Pct (Bright_Add_Long_Press s) = Bri_Max_Pct s"
  by (simp_all add: Set_Btight_Pct_def Bright_Sub_Short_Press_def Bright_Add_Short_Press_def
      Bright_Sub_Long_Press_def Bright_Add_Long_Press_def Let_def)

lemma lights_pct [simp]:
  "Bri_Min_Pct (Open_The_Lights s) = Bri_Min_Pct s" "Bri_Max_Pct (Open_The_Lights s) = Bri_Max_Pct s"
  "Bri_Now_Pct (Open_The_Lights s) = Bri_Now_Pct s"
  "Bri_Min_Pct (Close_The_Lights s) = Bri_Min_Pct s" "Bri_Max_Pct (Close_The_Lights s) = Bri_Max_Pct s"
  "Bri_Now_Pct (Close_The_Lights s) = Bri_Now_Pct s"
  "Bri_Status (Open_The_Lights s) = 1" "Bri_Status (Close_The_Lights s) = 0"
  by (simp_all add: Open_The_Lights_def Close_The_Lights_def Let_def)

lemma set_min_eq:
  "Bri_Min_Pct (Set_Btight_Min_Pct p s) = (if 100 < p then Bri_Min_Pct s else ucast p)"
  "Bri_Max_Pct (Set_Btight_Min_Pct p s) = Bri_Max_Pct s"
  "Bri_Now_Pct (Set_Btight_Min_Pct p s)
     = (if 100 < p then Bri_Now_Pct s else max (Bri_Now_Pct s) (ucast p))"
  by (auto simp: Set_Btight_Min_Pct_def Let_def max_def)

lemma set_max_eq:
  "Bri_Min_Pct (Set_Btight_Max_Pct p s) = Bri_Min_Pct s"
  "Bri_Max_Pct (Set_Btight_Max_Pct p s) = (if 100 < p then Bri_Max_Pct s else ucast p)"
  "Bri_Now_Pct (Set_Btight_Max_Pct p s)
     = (if 100 < p then Bri_Now_Pct s else min (Bri_Now_Pct s) (ucast p))"
  by (auto simp: Set_Btight_Max_Pct_def Let_def min_def)

lemma dec_u8: "(m :: u8) < n \<Longrightarrow> m \<le> n - 1 \<and> n - 1 \<le> n"
proof -
  assume "m < n"
  then have "unat (n - 1) = unat n - 1" "unat m < unat n"
    by (auto simp: word_less_nat_alt unat_sub word_le_nat_alt)
  then show ?thesis by (simp add: word_le_nat_alt)
qed

lemma inc_u8: "(n :: u8) < m \<Longrightarrow> n + 1 \<le> m \<and> n \<le> n + 1"
proof -
  assume "n < m"
  then have "unat n < unat m" by (simp add: word_less_nat_alt)
  moreover then have "unat (n + 1) = unat n + 1"
    using u8_less_256 [of m] by (simp add: unat_word_ariths)
  ultimately show ?thesis by (simp add: word_le_nat_alt)
qed

lemma long_press_now:
  "Bri_Now_Pct (Bright_Sub_Long_Press s)
     = (if Bri_Now_Pct s > Bri_Min_Pct s then Bri_Now_Pct s - 1 else Bri_Now_Pct s)"
  "Bri_Now_Pct (Bright_Add_Long_Press s)
     = (if Bri_Now_Pct s < Bri_Max_Pct s then Bri_Now_Pct s + 1 else Bri_Now_Pct s)"
  by (simp_all add: Bright_Sub_Long_Press_def Bright_Add_Long_Press_def Let_def)

lemma sub_short_le_100:
  assumes "pct_ok s"
  shows "Bri_Now_Pct (Bright_Sub_Short_Press s) \<le> 100"
proof (cases "10 \<le> unat (Bri_Now_Pct s)")
  case True
  then have "unat (Bri_Now_Pct s - 10) = unat (Bri_Now_Pct s) - 10"
    by (simp add: unat_sub word_le_nat_alt)
  then show ?thesis
    using assms by (auto simp: Bright_Sub_Short_Press_def Let_def pct_ok_def word_le_nat_alt)
next
  case False
  then have "unat (Bri_Now_Pct s - 10) = unat (Bri_Now_Pct s) + 246"
    by (simp add: unat_sub_if' word_le_nat_alt)
  then show ?thesis
    using assms by (auto simp: Bright_Sub_Short_Press_def Let_def pct_ok_def word_le_nat_alt
        word_less_nat_alt)
qed

lemma add_short_le_max: "Bri_Now_Pct (Bright_Add_Short_Press s) \<le> Bri_Max_Pct s"
  by (auto simp: Bright_Add_Short_Press_def Let_def not_less)

lemma set_pct_between:
  assumes "Bri_Now_Pct (Set_Btight_Pct p s) \<noteq> Bri_Now_Pct s"
  shows "Bri_Min_Pct s \<le> Bri_Now_Pct (Set_Btight_Pct p s)"
    "Bri_Now_Pct (Set_Btight_Pct p s) \<le> Bri_Max_Pct s"
proof -
  have p: "p \<le> ucast (Bri_Max_Pct s)" "ucast (Bri_Min_Pct s) \<le> p"
    and now: "Bri_Now_Pct (Set_Btight_Pct p s) = ucast p"
    using assms by (auto simp: set_pct_now not_less split: if_splits)
  have "unat (Bri_Min_Pct s) \<le> unat p"
    using p(2) u8_less_256 [of "Bri_Min_Pct s"]
    by (simp add: word_le_nat_alt unsigned_ucast_eq take_bit_nat_eq_self)
  then show "Bri_Min_Pct s \<le> Bri_Now_Pct (Set_Btight_Pct p s)"
    using ucast_u32_u8(1) [OF p(1)] now by (simp add: word_le_nat_alt)
  show "Bri_Now_Pct (Set_Btight_Pct p s) \<le> Bri_Max_Pct s"
    using ucast_u32_u8(2) [OF p(1)] now by simp
qed

lemma bri_do_ok: "pct_ok s \<Longrightarrow> pct_ok (bri_do op s)"
proof (cases op)
  case (SetPct p)
  assume "pct_ok s"
  then show ?thesis
    using SetPct set_pct_between(2) [of p s]
    by (cases "Bri_Now_Pct (Set_Btight_Pct p s) = Bri_Now_Pct s")
       (auto simp: pct_ok_def intro: order.trans)
next
  case (SetMin p)
  assume "pct_ok s"
  then show ?thesis
    using SetMin ucast_100 [of p] by (auto simp: pct_ok_def set_min_eq max_def not_less)
next
  case (SetMax p)
  assume "pct_ok s"
  then show ?thesis
    using SetMax ucast_100 [of p] by (auto simp: pct_ok_def set_max_eq min_def not_less)
next
  case SubLong
  assume "pct_ok s"
  then show ?thesis
    using SubLong dec_u8 [of "Bri_Min_Pct s" "Bri_Now_Pct s"]
    by (auto simp: pct_ok_def long_press_now intro: order.trans)
next
  case AddLong
  assume "pct_ok s"
  then show ?thesis
    using AddLong inc_u8 [of "Bri_Now_Pct s" "Bri_Max_Pct s"]
    by (auto simp: pct_ok_def long_press_now intro: order.trans)
next
  case AddShort
  assume "pct_ok s"
  then show ?thesis
    using AddShort add_short_le_max [of s] by (auto simp: pct_ok_def intro: order.trans)
qed (auto simp: sub_short_le_100 pct_ok_def Toggle_The_Lights_def dimmer_rmaker_init_def)

text \<open>A limit change that keeps the minimum at or below the maximum, or is refused.\<close>

fun limits_ordered :: "bri_op \<Rightarrow> 'a app_scheme \<Rightarrow> bool" where
  "limits_ordered (SetMin p) s = (100 < p \<or> (ucast p :: u8) \<le> Bri_Max_Pct s)"
| "limits_ordered (SetMax p) s = (100 < p \<or> Bri_Min_Pct s \<le> ucast p)"
| "limits_ordered _ s = True"

lemma bri_do_range:
  assumes "pct_range s" "limits_ordered op s"
  shows "pct_range (bri_do op s)"
proof (cases op)
  case (SetPct p)
  then show ?thesis
    using assms set_pct_between [of p s]
    by (cases "Bri_Now_Pct (Set_Btight_Pct p s) = Bri_Now_Pct s") (auto simp: pct_range_def)
next
  case (SetMin p)
  then show ?thesis
    using assms ucast_100 [of p] by (auto simp: pct_range_def set_min_eq)
next
  case (SetMax p)
  then show ?thesis
    using assms ucast_100 [of p] by (auto simp: pct_range_def set_max_eq not_less intro: order.trans)
next
  case SubLong
  then show ?thesis
    using assms dec_u8 [of "Bri_Min_Pct s" "Bri_Now_Pct s"]
    by (auto simp: pct_range_def long_press_now intro: order.trans)
next
  case AddLong
  then show ?thesis
    using assms inc_u8 [of "Bri_Now_Pct s" "Bri_Max_Pct s"]
    by (auto simp: pct_range_def long_press_now intro: order.trans)
next
  case SubShort
  then show ?thesis
    using assms sub_short_now [OF assms(1)] by (auto simp: pct_range_def word_le_nat_alt)
next
  case AddShort
  then show ?thesis
    using assms add_short_now [OF assms(1)] by (auto simp: pct_range_def word_le_nat_alt)
qed (use assms in \<open>auto simp: pct_range_def Toggle_The_Lights_def dimmer_rmaker_init_def\<close>)

subsection \<open>Properties\<close>

text \<open>The percentages stay percentages. After any sequence of dimmer operations from the
  initial state, whatever the tasks and the SDK answer, the current brightness and both limits
  are at most 100, although they are bytes that wrap around.\<close>
theorem bri_percent_invariant:
  "let s = fold bri_do ops (app_init\<lparr>inputs := answers\<rparr>)
   in Bri_Min_Pct s \<le> 100 \<and> Bri_Now_Pct s \<le> 100 \<and> Bri_Max_Pct s \<le> 100"
proof -
  have "pct_ok (fold bri_do ops s)" if "pct_ok s" for s :: app
    using that by (induction ops arbitrary: s) (auto intro: bri_do_ok)
  moreover have "pct_ok (app_init\<lparr>inputs := answers\<rparr>)"
    by (simp add: pct_ok_def app_init_def rm.defs)
  ultimately show ?thesis by (simp add: pct_ok_def Let_def)
qed

text \<open>The brightness stays between the limits. An operation keeps
  minimum \<open>\<le>\<close> current \<open>\<le>\<close> maximum \<open>\<le>\<close> 100 unless it is a limit change that crosses the other
  limit, and a short press moves the brightness by 10, clamped to the limits.\<close>
theorem bri_stays_in_range:
  assumes "pct_range (s :: app)" "limits_ordered op s"
  shows "pct_range (bri_do op s)
    \<and> unat (Bri_Now_Pct (Bright_Sub_Short_Press s))
        = max (unat (Bri_Min_Pct s)) (unat (Bri_Now_Pct s) - 10)
    \<and> unat (Bri_Now_Pct (Bright_Add_Short_Press s))
        = min (unat (Bri_Max_Pct s)) (unat (Bri_Now_Pct s) + 10)"
  using bri_do_range [OF assms] sub_short_now [OF assms(1)] add_short_now [OF assms(1)] by blast

theorem bri_stays_in_range_witness:
  "unat (Bri_Now_Pct (Bright_Sub_Short_Press (app_init\<lparr>Bri_Now_Pct := 7, Bri_Min_Pct := 3\<rparr>))) = 3"
proof -
  let ?s = "app_init\<lparr>Bri_Now_Pct := 7, Bri_Min_Pct := 3\<rparr>"
  have "pct_range ?s" "limits_ordered Toggle ?s"
    by (simp_all add: pct_range_def app_init_def rm.defs)
  from bri_stays_in_range [OF this] show ?thesis
    by (simp add: app_init_def rm.defs)
qed

text \<open>Crossing limits. Setting the minimum to a percentage above the maximum is accepted and
  leaves the brightness above the maximum, after which every request from the cloud to set a
  brightness is refused.\<close>
theorem set_min_can_cross_max:
  assumes "ucast (Bri_Max_Pct s) < p" "p \<le> 100" "pct_range s"
  shows "Bri_Max_Pct (Set_Btight_Min_Pct p s) < Bri_Now_Pct (Set_Btight_Min_Pct p s)
    \<and> Set_Btight_Pct q (Set_Btight_Min_Pct p s) = Set_Btight_Min_Pct p s"
proof -
  let ?t = "Set_Btight_Min_Pct p s"
  have p8: "unat (ucast p :: u8) = unat p"
    using assms(2) ucast_u32_u8(1) [of p 100] by simp
  have lt: "unat (Bri_Max_Pct s) < unat p"
    using assms(1) u8_less_256 [of "Bri_Max_Pct s"]
    by (simp add: word_less_nat_alt unsigned_ucast_eq take_bit_nat_eq_self)
  have now: "Bri_Now_Pct ?t = ucast p" "Bri_Min_Pct ?t = ucast p" "Bri_Max_Pct ?t = Bri_Max_Pct s"
    using assms lt p8
    by (auto simp: set_min_eq pct_range_def max_def word_le_nat_alt word_less_nat_alt)
  have up: "unat (ucast (ucast p :: u8) :: u32) = unat p"
    "unat (ucast (Bri_Max_Pct s) :: u32) = unat (Bri_Max_Pct s)"
    using p8 u8_less_256 [of "ucast p"] u8_less_256 [of "Bri_Max_Pct s"]
    by (subst unsigned_ucast_eq, simp add: take_bit_nat_eq_self)+
  have "ucast (Bri_Max_Pct s) < q \<or> q < ucast (ucast p :: u8)"
  proof (rule ccontr)
    assume "\<not> ?thesis"
    then have "unat q \<le> unat (Bri_Max_Pct s)" "unat p \<le> unat q"
      unfolding not_less de_Morgan_disj word_le_nat_alt up by blast+
    then show False using lt by simp
  qed
  then have "Set_Btight_Pct q ?t = ?t"
    by (simp add: Set_Btight_Pct_def now)
  then show ?thesis
    using now lt p8 by (simp add: word_less_nat_alt)
qed

theorem set_min_can_cross_max_witness:
  "Bri_Max_Pct (Set_Btight_Min_Pct 60 (app_init\<lparr>Bri_Max_Pct := 50\<rparr>))
     < Bri_Now_Pct (Set_Btight_Min_Pct 60 (app_init\<lparr>Bri_Max_Pct := 50\<rparr>))"
proof -
  let ?s = "app_init\<lparr>Bri_Max_Pct := 50\<rparr>"
  have "ucast (Bri_Max_Pct ?s) < (60 :: u32)" "(60 :: u32) \<le> 100" "pct_range ?s"
    by (simp_all add: pct_range_def app_init_def rm.defs)
  from set_min_can_cross_max [OF this] show ?thesis by blast
qed

text \<open>Toggling. \<open>Toggle_The_Lights\<close> sends the new state and inverts it: from off to 1 and
  from any non-zero state to 0, so that two toggles from a state of 0 or 1 restore it, and the
  percentages are untouched.\<close>
theorem toggle_inverts:
  assumes "length (ucSendBuff s) = 5"
  shows "Bri_Status (Toggle_The_Lights s) = (if Bri_Status s = 0 then 1 else 0)
    \<and> (Bri_Status s \<le> 1 \<longrightarrow> Bri_Status (Toggle_The_Lights (Toggle_The_Lights s)) = Bri_Status s)
    \<and> take 2 (drop 2 (ucSendBuff (Toggle_The_Lights s))) = [OnOffCMD, if Bri_Status s = 0 then 1 else 0]
    \<and> Bri_Now_Pct (Toggle_The_Lights s) = Bri_Now_Pct s"
proof -
  have one: "(x :: u16) \<le> 1 \<Longrightarrow> x \<noteq> 0 \<Longrightarrow> x = 1" for x
    by (metis word_le_less_eq word_less_1)
  have buf: "ucSendBuff (Toggle_The_Lights s)
      = put_frame OnOffCMD (if Bri_Status s = 0 then 1 else 0) (ucSendBuff s)"
    by (simp add: Toggle_The_Lights_def Open_The_Lights_def Close_The_Lights_def Let_def)
  have frame: "take 2 (drop 2 (ucSendBuff (Toggle_The_Lights s)))
      = [OnOffCMD, if Bri_Status s = 0 then 1 else 0]"
    by (simp add: buf put_frame_eq assms)
  show ?thesis
    using one [of "Bri_Status s"] frame by (auto simp: Toggle_The_Lights_def)
qed

theorem toggle_inverts_witness:
  "Bri_Status (Toggle_The_Lights (Toggle_The_Lights (app_init\<lparr>Bri_Status := 1\<rparr>))) = 1"
  using toggle_inverts [of "app_init\<lparr>Bri_Status := 1\<rparr>"] by (simp add: app_init_def rm.defs)

end
