(* ===== verification/App_Rainmaker.thy ===== *)
theory App_Rainmaker
  imports App_Bri Rm_Frame
begin

text \<open>
  The application's side of RainMaker: the write callback of the light device, the reports of
  what the wall panel did, the MQTT reconnect timer and the event handler of
  \<open>app_rainmaker.c\<close>. \<open>wifi_is_connected\<close> is \<open>app_event.c\<close>'s.
\<close>

definition wifi_is_connected :: "'a app_scheme \<Rightarrow> bool" where
  "wifi_is_connected s = is_connected (strat s)"

text \<open>
  The \<open>i\<close> member of the value union; a string pointer read as an integer (the parameters the
  callback reads it for are integers) is not modelled.
\<close>

definition val_i :: "param_val \<Rightarrow> int" where
  "val_i v = (case v of VInt i \<Rightarrow> i | VBool b \<Rightarrow> if b then 1 else 0 | VFloat f \<Rightarrow> sint f | _ \<Rightarrow> 0)"

definition power_param :: "'a app_scheme \<Rightarrow> nat option" where
  "power_param s = esp_rmaker_device_get_param_by_name (switch_device s) (Some ''Power'') s"

definition brightness_param :: "'a app_scheme \<Rightarrow> nat option" where
  "brightness_param s = esp_rmaker_device_get_param_by_name (switch_device s) (Some ''Brightness'') s"

definition app_write_cb ::
  "nat \<Rightarrow> nat \<Rightarrow> param_val \<Rightarrow> req_src \<Rightarrow> 'a app_scheme \<Rightarrow> esp_err \<times> 'a app_scheme" where
  "app_write_cb device param val src s =
     (if p_name (pheap s param) = ''Power'' then
        let s = (if val_b val then Open_The_Lights s else Close_The_Lights s);
            (_, s) = esp_rmaker_param_update_and_report (power_param s)
                       (esp_rmaker_bool (Get_Bri_Status s \<noteq> 0)) s
        in (ESP_OK, s)
      else if p_name (pheap s param) = ''Brightness'' then
        (if Get_Bri_Status s \<noteq> 0 then
           let s = Set_Btight_Pct (word_of_int (val_i val)) s;
               (_, s) = esp_rmaker_param_update_and_report (brightness_param s)
                          (esp_rmaker_int (uint (Get_Btight_Pct s))) s
           in (ESP_OK, s)
         else (ESP_OK, s))
      else
        let (_, s) = esp_rmaker_param_update_and_report (Some param) val s in (ESP_OK, s))"

definition esp_rmaker_update :: "cmd \<Rightarrow> u32 \<Rightarrow> 'a app_scheme \<Rightarrow> 'a app_scheme" where
  "esp_rmaker_update cmd_tyed dat s =
     (if cmd_tyed = OnOffCMD then
        snd (esp_rmaker_param_update_and_report (power_param s) (esp_rmaker_bool (dat \<noteq> 0)) s)
      else if cmd_tyed = BriNowCMD then
        snd (esp_rmaker_param_update_and_report (brightness_param s) (esp_rmaker_int (sint dat)) s)
      else s)"

definition app_rainmaker_update_relay_state :: "int \<Rightarrow> int \<Rightarrow> esp_err" where
  "app_rainmaker_update_relay_state chan state = - 1"

subsection \<open>The MQTT reconnect timer\<close>

definition rmaker_reconnect_timer_callback :: "'a app_scheme \<Rightarrow> 'a app_scheme" where
  "rmaker_reconnect_timer_callback s =
     (let (c, s) = call (Net MqttIsConnected) s
      in if c \<noteq> 0 \<or> \<not> wifi_is_connected s then s else emit (Net MqttReconnect) s)"

definition app_rainmaker_reconnect_timer_start :: "'a app_scheme \<Rightarrow> 'a app_scheme" where
  "app_rainmaker_reconnect_timer_start s =
     (let s = (if RmakerReconnect \<in> timers s then s
               else snd (timer_create RmakerReconnect ''rmaker_reconnect_timer_callback'' s))
      in timer_once RmakerReconnect 60000000 s)"

definition app_rainmaker_reconnect_timer_stop :: "'a app_scheme \<Rightarrow> 'a app_scheme" where
  "app_rainmaker_reconnect_timer_stop s =
     (if RmakerReconnect \<in> timers s then timer_stop RmakerReconnect s else s)"

subsection \<open>Events\<close>

text \<open>
  The events of \<open>RMAKER_EVENT\<close> are only logged. \<open>CONFIG_ESP_RMAKER_MQTT_DISABLE_AUTO_RECONNECT\<close>
  is set, so the connect and disconnect branches are compiled in.
\<close>

datatype rm_event =
  RmakerEvent int
  | RMAKER_EVENT_REBOOT | RMAKER_EVENT_WIFI_RESET | RMAKER_EVENT_FACTORY_RESET
  | RMAKER_MQTT_EVENT_CONNECTED | RMAKER_MQTT_EVENT_DISCONNECTED | RMAKER_MQTT_EVENT_PUBLISHED
  | OtherEvent

fun rm_event_handler :: "rm_event \<Rightarrow> 'a app_scheme \<Rightarrow> 'a app_scheme" where
  "rm_event_handler RMAKER_MQTT_EVENT_CONNECTED s =
     (let (enabled, s) = call (Net SntpEnabled) s
      in if enabled \<noteq> 0 then emit (Net SntpInit) s else s)"
| "rm_event_handler RMAKER_MQTT_EVENT_DISCONNECTED s =
     (if wifi_is_connected s
      then app_rainmaker_reconnect_timer_start (emit (Net SntpStop) s) else s)"
| "rm_event_handler _ s = s"

subsection \<open>Frames\<close>

text \<open>The library leaves the application's variables alone, and the dimmer the library's heaps.\<close>

lemma app_more_cong:
  fixes s t :: "'a app_scheme"
  assumes "rm.more s = rm.more t"
  shows "Bri_Status s = Bri_Status t" "Bri_Min_Pct s = Bri_Min_Pct t"
    "Bri_Max_Pct s = Bri_Max_Pct t" "Bri_Now_Pct s = Bri_Now_Pct t"
    "ucSendBuff s = ucSendBuff t" "ucSendFlag s = ucSendFlag t"
    "ucSendTaskHandle_Flag s = ucSendTaskHandle_Flag t"
    "ucRxTaskHandle_Flag s = ucRxTaskHandle_Flag t" "lock_held s = lock_held t"
    "s_pm_cpu_lock s = s_pm_cpu_lock t" "s_wifi_init_end_flag s = s_wifi_init_end_flag t"
    "timers s = timers t" "strat s = strat t" "btns s = btns t" "switch_device s = switch_device t"
    "wakeup_io_intr_type s = wakeup_io_intr_type t"
  using assms by (cases s; cases t; simp)+

lemmas report_app [frame_simps] = app_more_cong [OF update_and_report_frame(1)]

lemma heaps_send [simp]:
  "pheap (send_bri_ctrl_info c d s) = pheap s" "dheap (send_bri_ctrl_info c d s) = dheap s"
  "switch_device (send_bri_ctrl_info c d s) = switch_device s"
  by (simp_all add: send_bri_ctrl_info_def case_prod_beta Let_def)

lemma heaps_lights [simp]:
  "pheap (Open_The_Lights s) = pheap s" "dheap (Open_The_Lights s) = dheap s"
  "switch_device (Open_The_Lights s) = switch_device s"
  "pheap (Close_The_Lights s) = pheap s" "dheap (Close_The_Lights s) = dheap s"
  "switch_device (Close_The_Lights s) = switch_device s"
  "pheap (Set_Btight_Pct p s) = pheap s" "dheap (Set_Btight_Pct p s) = dheap s"
  "switch_device (Set_Btight_Pct p s) = switch_device s"
  by (simp_all add: Open_The_Lights_def Close_The_Lights_def Set_Btight_Pct_def
      stop_button_check_def timer_stop_def Let_def)

lemma lights_buff [simp]:
  "ucSendBuff (Open_The_Lights s) = put_frame OnOffCMD 1 (ucSendBuff s)"
  "ucSendBuff (Close_The_Lights s) = put_frame OnOffCMD 0 (ucSendBuff s)"
  "ucSendFlag (Open_The_Lights s)" "ucSendFlag (Close_The_Lights s)"
  by (simp_all add: Open_The_Lights_def Close_The_Lights_def Let_def)

lemma find_by_name_cong: "pheap t = pheap s \<Longrightarrow> find_by_name t nm ps = find_by_name s nm ps"
  by (induction ps) auto

lemma by_name_cong:
  assumes "pheap t = pheap s" "dheap t = dheap s"
  shows "esp_rmaker_device_get_param_by_name d nm t = esp_rmaker_device_get_param_by_name d nm s"
  using assms
  by (auto simp: esp_rmaker_device_get_param_by_name_def find_by_name_cong [OF assms(1)]
      split: option.split)

lemma params_lights [simp]:
  "power_param (Open_The_Lights s) = power_param s" "power_param (Close_The_Lights s) = power_param s"
  "brightness_param (Set_Btight_Pct p s) = brightness_param s"
  by (simp_all add: power_param_def brightness_param_def
      by_name_cong [OF heaps_lights(1,2)] by_name_cong [OF heaps_lights(4,5)]
      by_name_cong [OF heaps_lights(7,8)])

subsection \<open>Publications\<close>

text \<open>What has been published so far.\<close>

fun publish_of :: "effect \<Rightarrow> (string \<times> string) option" where
  "publish_of (Net (MqttPublish topic txt)) = Some (topic, txt)"
| "publish_of _ = None"

definition published :: "'a plat_scheme \<Rightarrow> (string \<times> string) list" where
  "published s = List.map_filter publish_of (trace s)"

lemma published_emit [simp]:
  "publish_of e = None \<Longrightarrow> published (emit e s) = published s"
  "publish_of e = None \<Longrightarrow> published (snd (call e s)) = published s"
  by (simp_all add: published_def List.map_filter_def)

lemma published_append:
  "trace s' = trace s @ es \<Longrightarrow> published s' = published s @ List.map_filter publish_of es"
  by (simp add: published_def List.map_filter_def)

lemma mem_ok_call [simp]: "mem_ok (snd (call e s)) = mem_ok s"
  by (simp add: call_def ask_def split: list.split)

lemma published_upd [simp]:
  "published (s\<lparr>Bri_Status := x\<rparr>) = published s" "published (s\<lparr>ucSendBuff := b\<rparr>) = published s"
  "published (s\<lparr>ucSendFlag := f\<rparr>) = published s"
  "published (s\<lparr>ucSendTaskHandle_Flag := f\<rparr>) = published s"
  by (simp_all add: published_def)

lemma published_upd_param [simp]: "published (upd_param p g s) = published s"
  by (simp add: published_def)

lemma published_send [simp]: "published (send_bri_ctrl_info c d s) = published s"
  by (simp add: send_bri_ctrl_info_def case_prod_beta Let_def)

lemma published_stop [simp]: "published (stop_button_check s) = published s"
  by (simp add: stop_button_check_def timer_stop_def)

lemma published_lights [simp]:
  "published (Open_The_Lights s) = published s" "published (Close_The_Lights s) = published s"
  by (simp_all only: Open_The_Lights_def Close_The_Lights_def Let_def published_send published_stop
      published_upd)

lemma send_rm [simp]:
  "nheap (send_bri_ctrl_info c d s) = nheap s" "priv (send_bri_ctrl_info c d s) = priv s"
  "mem_ok (send_bri_ctrl_info c d s) = mem_ok s"
  "max_node_params_size (send_bri_ctrl_info c d s) = max_node_params_size s"
  "params_mqtt_init_done (send_bri_ctrl_info c d s) = params_mqtt_init_done s"
  "mqtt_publish_set (send_bri_ctrl_info c d s) = mqtt_publish_set s"
  by (simp_all add: send_bri_ctrl_info_def case_prod_beta Let_def)

lemma lights_rm [simp]:
  "nheap (Open_The_Lights s) = nheap s" "nheap (Close_The_Lights s) = nheap s"
  "priv (Open_The_Lights s) = priv s" "priv (Close_The_Lights s) = priv s"
  "mem_ok (Open_The_Lights s) = mem_ok s" "mem_ok (Close_The_Lights s) = mem_ok s"
  "max_node_params_size (Open_The_Lights s) = max_node_params_size s"
  "max_node_params_size (Close_The_Lights s) = max_node_params_size s"
  "params_mqtt_init_done (Open_The_Lights s) = params_mqtt_init_done s"
  "params_mqtt_init_done (Close_The_Lights s) = params_mqtt_init_done s"
  "mqtt_publish_set (Open_The_Lights s) = mqtt_publish_set s"
  "mqtt_publish_set (Close_The_Lights s) = mqtt_publish_set s"
  by (simp_all add: Open_The_Lights_def Close_The_Lights_def stop_button_check_def timer_stop_def Let_def)

text \<open>Storing a value publishes nothing and keeps what a report depends on.\<close>

lemma store_report [simp]:
  "published (snd (esp_rmaker_param_store_value p s)) = published s"
  "mem_ok (snd (esp_rmaker_param_store_value p s)) = mem_ok s"
  "max_node_params_size (snd (esp_rmaker_param_store_value p s)) = max_node_params_size s"
  "params_mqtt_init_done (snd (esp_rmaker_param_store_value p s)) = params_mqtt_init_done s"
  "mqtt_publish_set (snd (esp_rmaker_param_store_value p s)) = mqtt_publish_set s"
  by (auto simp: esp_rmaker_param_store_value_def Let_def case_prod_beta
      split: option.split)

text \<open>Updating and reporting a scalar parameter on a started node.\<close>

lemma update_and_report_publishes:
  assumes "val_type v = val_type (p_val (pheap s p))" "\<not> is_str_type (val_type v)" "v \<noteq> VInvalid"
    "mem_ok s = []" "0 < max_node_params_size s" "esp_rmaker_get_state s = ESP_RMAKER_STATE_STARTED"
    "esp_rmaker_param_update_and_report (Some p) v s = (err, s')"
    "s1 = upd_param p (\<lambda>r. r\<lparr>p_val := v, p_flags := or (p_flags r) 1\<rparr>) s"
    "T = jprint (params_doc 1 s1)"
  shows "published s' = published s @
      (if 10 < length T \<and> params_mqtt_init_done s \<and> mqtt_publish_set s
       then [(node_topic 64 ''params/local'' s, T)] else [])"
    and "pheap s' = pheap (clear_flags 1 (node_params s) s1)"
proof -
  let ?f = RMAKER_PARAM_FLAG_VALUE_CHANGE
  obtain e t where u: "esp_rmaker_param_update (Some p) v s = (e, t)" by fastforce
  have ni: "val_type v \<noteq> RMAKER_VAL_TYPE_INVALID" using assms(3) by (cases v) auto
  have e: "e = ESP_OK" and t: "t = (let w = upd_param p (\<lambda>r. r\<lparr>p_val := v\<rparr>) s
      in if prop_bit PROP_FLAG_PERSIST (prop_flags (pheap w p))
         then snd (esp_rmaker_param_store_value (Some p) w) else w)"
    using u assms(1,2) ni by (auto simp: esp_rmaker_param_update_def Let_def split: if_splits)
  define t1 where "t1 = upd_param p (\<lambda>r. r\<lparr>p_flags := or (p_flags r) ?f\<rparr>) t"
  have keep: "mem_ok t1 = []" "0 < max_node_params_size t1" "pheap t1 = pheap s1" "dheap t1 = dheap s1"
    "nheap t1 = nheap s1" "priv t1 = priv s1" "published t1 = published s"
    "params_mqtt_init_done t1 = params_mqtt_init_done s" "mqtt_publish_set t1 = mqtt_publish_set s"
    using assms(4,5) by (auto simp: t1_def t assms(8) Let_def RMAKER_PARAM_FLAG_VALUE_CHANGE_def
        fun_eq_iff)
  note doc = params_doc_cong [OF keep(3-6)]
  have st: "esp_rmaker_get_state t = ESP_RMAKER_STATE_STARTED"
    using assms(6) by (simp add: esp_rmaker_get_state_def t Let_def)
  have r: "esp_rmaker_report_param_internal ?f t1 = (err, s')"
    using assms(7) st by (simp add: esp_rmaker_param_update_and_report_def u e esp_rmaker_param_report_def t1_def)
  note rep = report_change [OF keep(1,2) r]
  have top: "node_topic 64 ''params/local'' t1 = node_topic 64 ''params/local'' s"
    using keep(6) by (simp add: node_topic_def esp_rmaker_get_node_id_def assms(8))
  show "published s' = published s @
      (if 10 < length T \<and> params_mqtt_init_done s \<and> mqtt_publish_set s
       then [(node_topic 64 ''params/local'' s, T)] else [])"
    using published_append [OF rep(3)] keep(7-9) doc top
    by (simp add: assms(9) RMAKER_PARAM_FLAG_VALUE_CHANGE_def List.map_filter_def Let_def)
  have "node_params t1 = node_params s" using doc(2) by (simp add: assms(8))
  then show "pheap s' = pheap (clear_flags 1 (node_params s) s1)"
    using rep(2) keep(3) by (simp add: fun_eq_iff clear_flags_pheap RMAKER_PARAM_FLAG_VALUE_CHANGE_def)
qed


subsection \<open>Properties\<close>

text \<open>C22. A power request from the cloud. \<open>write_cb\<close> for the parameter \<open>Power\<close> sets the light's
  state to the requested value, puts the matching on/off command in the send buffer and raises
  the send flag, leaves the reported parameter equal to the light's state, and keeps the
  brightness. On a started node with memory available it reports: it publishes once, under the
  node's \<open>params/local\<close> topic, the JSON of the parameters flagged as changed, to which it adds
  \<open>Power\<close> with its new value (nothing before MQTT is up or when the text is a stub of at most 10
  characters), and clears exactly the change flag, of exactly the node's parameters.\<close>
theorem write_cb_power:
  assumes "p_name (pheap s param) = ''Power''" "power_param s = Some q"
    "val_type (p_val (pheap s q)) = RMAKER_VAL_TYPE_BOOLEAN" "length (ucSendBuff s) = 5"
    "app_write_cb d param val src s = (err, s')"
  shows "err = ESP_OK \<and> Bri_Status s' = (if val_b val then 1 else 0)
    \<and> p_val (pheap s' q) = VBool (val_b val)
    \<and> ucSendFlag s' \<and> ucSendBuff s' ! 2 = OnOffCMD \<and> ucSendBuff s' ! 3 = (if val_b val then 1 else 0)
    \<and> Bri_Now_Pct s' = Bri_Now_Pct s
    \<and> (mem_ok s = [] \<and> 0 < max_node_params_size s \<and> esp_rmaker_get_state s = ESP_RMAKER_STATE_STARTED \<longrightarrow>
        (let s1 = upd_param q (\<lambda>r. r\<lparr>p_val := VBool (val_b val), p_flags := or (p_flags r) 1\<rparr>) s;
             T = jprint (params_doc 1 s1)
         in published s' = published s @
              (if 10 < length T \<and> params_mqtt_init_done s \<and> mqtt_publish_set s
               then [(node_topic 64 ''params/local'' s, T)] else [])
            \<and> (\<forall>p. pheap s' p = (if p \<in> set (node_params s)
                 then (pheap s1 p)\<lparr>p_flags := and (p_flags (pheap s1 p)) (not 1)\<rparr> else pheap s1 p))))"
proof -
  define t where "t = (if val_b val then Open_The_Lights s else Close_The_Lights s)"
  have q: "power_param t = Some q" and ty: "val_type (p_val (pheap t q)) = RMAKER_VAL_TYPE_BOOLEAN"
    and st: "Bri_Status t = (if val_b val then 1 else 0)"
    and buf: "ucSendBuff t = put_frame OnOffCMD (if val_b val then 1 else 0) (ucSendBuff s)"
    and fl: "ucSendFlag t" and now: "Bri_Now_Pct t = Bri_Now_Pct s"
    using assms(2,3) by (simp_all add: t_def)
  have same: "pheap t = pheap s" "dheap t = dheap s" "nheap t = nheap s" "priv t = priv s" "published t = published s"
    "mem_ok t = mem_ok s" "max_node_params_size t = max_node_params_size s"
    "params_mqtt_init_done t = params_mqtt_init_done s" "mqtt_publish_set t = mqtt_publish_set s"
    by (simp_all add: t_def)
  have s': "s' = snd (esp_rmaker_param_update_and_report (Some q) (VBool (val_b val)) t)"
    and err: "err = ESP_OK"
    using assms(1,5) q st by (auto simp: app_write_cb_def Let_def t_def Get_Bri_Status_def
        esp_rmaker_bool_def case_prod_beta split: if_splits)
  then obtain e where e: "esp_rmaker_param_update_and_report (Some q) (VBool (val_b val)) t = (e, s')"
    by (metis prod.collapse)
  have v: "p_val (pheap s' q) = VBool (val_b val)"
    using ty by (intro update_and_report_val [OF _ _ _ e]) (simp_all add: is_str_type_def)
  have f: "rm.more s' = rm.more t" using update_and_report_frame(1) [of "Some q" _ t] e
    by (metis snd_conv)
  let ?g = "\<lambda>r. r\<lparr>p_val := VBool (val_b val), p_flags := or (p_flags r) 1\<rparr>"
  have "params_doc 1 (upd_param q ?g t) = params_doc 1 (upd_param q ?g s)" "node_params t = node_params s"
    by (intro params_doc_cong; simp add: same)+
  then have rep: "mem_ok s = [] \<Longrightarrow> 0 < max_node_params_size s \<Longrightarrow> esp_rmaker_get_state s = ESP_RMAKER_STATE_STARTED
      \<Longrightarrow> published s' = published s @ (let T = jprint (params_doc 1 (upd_param q ?g s))
         in if 10 < length T \<and> params_mqtt_init_done s \<and> mqtt_publish_set s
            then [(node_topic 64 ''params/local'' s, T)] else [])
        \<and> pheap s' = pheap (clear_flags 1 (node_params s) (upd_param q ?g s))"
    using update_and_report_publishes [OF _ _ _ _ _ _ e refl refl] ty
    by (simp add: same esp_rmaker_get_state_def node_topic_def esp_rmaker_get_node_id_def
        is_str_type_def Let_def clear_flags_pheap fun_eq_iff)
  show ?thesis
    using v err st buf fl now assms(4) app_more_cong [OF f] rep
    by (simp add: put_frame_eq Let_def clear_flags_pheap)
qed

text \<open>A brightness request from the cloud. \<open>write_cb\<close> for the parameter \<open>Brightness\<close> does
  nothing while the light is off. While it is on, the brightness becomes the requested value if
  that lies between the limits and otherwise stays, and the reported parameter is the brightness
  that is in effect.\<close>
theorem write_cb_brightness:
  assumes "p_name (pheap s param) = ''Brightness''" "brightness_param s = Some q"
    "val_type (p_val (pheap s q)) = RMAKER_VAL_TYPE_INTEGER"
    "app_write_cb d param val src s = (err, s')"
  shows "err = ESP_OK \<and> (Bri_Status s = 0 \<longrightarrow> s' = s)
    \<and> (Bri_Status s \<noteq> 0 \<longrightarrow>
        p_val (pheap s' q) = VInt (uint (Bri_Now_Pct s'))
        \<and> uint (Bri_Now_Pct s') =
           (let p = val_i val mod 2 ^ 32
            in if uint (Bri_Min_Pct s) \<le> p \<and> p \<le> uint (Bri_Max_Pct s) then p else uint (Bri_Now_Pct s)))"
proof (cases "Bri_Status s = 0")
  case True
  then show ?thesis
    using assms(1,4) by (simp add: app_write_cb_def Get_Bri_Status_def)
next
  case False
  define p :: u32 where "p = word_of_int (val_i val)"
  define t where "t = Set_Btight_Pct p s"
  have q: "brightness_param t = Some q" and ty: "val_type (p_val (pheap t q)) = RMAKER_VAL_TYPE_INTEGER"
    using assms(2,3) by (simp_all add: t_def)
  have s': "s' = snd (esp_rmaker_param_update_and_report (Some q) (VInt (uint (Get_Btight_Pct t))) t)"
    and err: "err = ESP_OK"
    using assms(1,4) q False by (auto simp: app_write_cb_def Let_def t_def p_def Get_Bri_Status_def
        esp_rmaker_int_def case_prod_beta split: if_splits)
  then obtain e where e: "esp_rmaker_param_update_and_report (Some q) (VInt (uint (Get_Btight_Pct t))) t = (e, s')"
    by (metis prod.collapse)
  have g: "uint (Get_Btight_Pct t) = uint (Bri_Now_Pct t)"
    using u8_uint_bounds [of "Bri_Now_Pct t"]
    by (simp add: Get_Btight_Pct_def unsigned_ucast_eq take_bit_int_eq_self)
  have v: "p_val (pheap s' q) = VInt (uint (Bri_Now_Pct t))"
    using ty g by (intro update_and_report_val [OF _ _ _ e[unfolded g]]) (simp_all add: is_str_type_def)
  have f: "rm.more s' = rm.more t" using update_and_report_frame(1) [of "Some q" _ t] e
    by (metis snd_conv)
  have up: "uint p = val_i val mod 2 ^ 32"
    by (simp add: p_def uint_word_of_int)
  have wide: "uint (ucast (x :: u8) :: u32) = uint x" for x
    using u8_uint_bounds [of x] by (simp add: unsigned_ucast_eq take_bit_int_eq_self)
  have now: "uint (Bri_Now_Pct t) = (let p = val_i val mod 2 ^ 32
            in if uint (Bri_Min_Pct s) \<le> p \<and> p \<le> uint (Bri_Max_Pct s) then p else uint (Bri_Now_Pct s))"
  proof (cases "ucast (Bri_Max_Pct s) < p \<or> ucast (Bri_Min_Pct s) > p")
    case True
    then show ?thesis
      unfolding up [symmetric] by (auto simp: t_def set_pct_now Let_def word_less_def wide)
  next
    case in_range: False
    then have le: "p \<le> ucast (Bri_Max_Pct s)" by (simp add: not_less)
    have "uint (ucast p :: u8) = uint p"
      using ucast_u32_u8(1) [OF le] by (metis uint_nat)
    then show ?thesis
      using in_range unfolding up [symmetric]
      by (auto simp: t_def set_pct_now Let_def word_less_def wide)
  qed
  show ?thesis
    using v err now False app_more_cong(4) [OF f] by simp
qed

text \<open>The example node of the library, with the application's variables.\<close>

definition ex_app :: app where
  "ex_app = app_init\<lparr>pheap := pheap ex_rm, dheap := dheap ex_rm, nheap := nheap ex_rm,
     next_ref := next_ref ex_rm, priv := priv ex_rm, params_mqtt_init_done := True,
     mqtt_publish_set := True, switch_device := Some 1\<rparr>"

lemma ex_app_params:
  "power_param ex_app = Some 2" "brightness_param ex_app = Some 3"
  "p_name (pheap ex_app 2) = ''Power''" "p_name (pheap ex_app 3) = ''Brightness''"
  "val_type (p_val (pheap ex_app 2)) = RMAKER_VAL_TYPE_BOOLEAN"
  "val_type (p_val (pheap ex_app 3)) = RMAKER_VAL_TYPE_INTEGER"
  "length (ucSendBuff ex_app) = 5"
  by (simp_all add: power_param_def brightness_param_def esp_rmaker_device_get_param_by_name_def
      ex_app_def ex_defs app_init_def rm.defs)

lemma ex_power_doc:
  "jprint (params_doc 1 (upd_param 2 (\<lambda>r. r\<lparr>p_val := VBool True, p_flags := or (p_flags r) 1\<rparr>) ex_app))
     = ''{\"Light\":{\"Power\":true}}''"
  by (simp add: params_doc_def device_members_def param_members_def selected_def val_member_def
      ex_app_def app_init_def ex_defs rm.defs name_txt_def bool_txt_def joined_def node_devices_def
      esp_rmaker_node_get_first_device_def esp_rmaker_get_node_def Let_def)

theorem write_cb_power_witness:
  "let s' = snd (app_write_cb 1 2 (VBool True) ESP_RMAKER_REQ_SRC_CLOUD ex_app)
   in Bri_Status s' = 1
    \<and> published s' = [(''node/n1/params/local'', ''{\"Light\":{\"Power\":true}}'')]"
proof -
  have "mem_ok ex_app = []" "0 < max_node_params_size ex_app" "published ex_app = []"
    "esp_rmaker_get_state ex_app = ESP_RMAKER_STATE_STARTED" "params_mqtt_init_done ex_app"
    "mqtt_publish_set ex_app" "node_topic 64 ''params/local'' ex_app = ''node/n1/params/local''"
    by (simp_all add: ex_app_def app_init_def rm.defs ex_defs esp_rmaker_get_state_def published_def
        List.map_filter_def node_topic_def esp_rmaker_get_node_id_def snprintf_def)
  then show ?thesis
    using write_cb_power [OF ex_app_params(3,1,5,7) prod.collapse [symmetric], of 1 "VBool True"
        ESP_RMAKER_REQ_SRC_CLOUD] ex_power_doc
    by (simp add: val_b_def Let_def)
qed

theorem write_cb_brightness_witness:
  "uint (Bri_Now_Pct (snd (app_write_cb 1 3 (VInt 30) ESP_RMAKER_REQ_SRC_CLOUD
     (ex_app\<lparr>Bri_Status := 1\<rparr>)))) = 30"
proof -
  let ?s = "ex_app\<lparr>Bri_Status := 1\<rparr>"
  have "brightness_param ?s = Some 3" "p_name (pheap ?s 3) = ''Brightness''"
    "val_type (p_val (pheap ?s 3)) = RMAKER_VAL_TYPE_INTEGER"
    using ex_app_params by_name_cong [of ?s ex_app]
    by (simp_all add: brightness_param_def)
  note w = write_cb_brightness [OF this(2,1,3) prod.collapse [symmetric], of 1 "VInt 30"
      ESP_RMAKER_REQ_SRC_CLOUD]
  have "Bri_Status ?s = 1" "Bri_Min_Pct ?s = 0" "Bri_Max_Pct ?s = 100"
    by (simp_all add: ex_app_def app_init_def rm.defs)
  then show ?thesis
    using w by (simp add: val_i_def Let_def)
qed

end
