(* ===== verification/App_Event.thy ===== *)
theory App_Event
  imports App_Rainmaker
begin

text \<open>
  The Wi-Fi connection strategy: \<open>app_event.c\<close>. Connection attempts are made in three phases,
  3 at once, then 12 that are 300 s apart, then 3 that are 80 s apart, then the second phase
  again; a connection resets the strategy. \<open>wifi_is_connected\<close> is in \<open>App_Rainmaker\<close>.
\<close>

definition PHASE_1_DURATION :: int where "PHASE_1_DURATION = 3600"
definition PHASE_1_TIMEOUT :: int where "PHASE_1_TIMEOUT = 300"
definition PHASE_2_TIMEOUT :: int where "PHASE_2_TIMEOUT = 80"

lemmas phase_defs = PHASE_1_DURATION_def PHASE_1_TIMEOUT_def PHASE_2_TIMEOUT_def

text \<open>The codes are those of the SDK's \<open>wifi_err_reason_t\<close>.\<close>

definition wifi_reason :: "(int \<times> string) list" where
  "wifi_reason =
     [(0, ''other reason''), (1, ''unspecified''), (2, ''auth expire''), (3, ''auth leave''),
      (4, ''assoc expire''), (5, ''assoc too many''), (6, ''not authed''), (7, ''not assoced''),
      (8, ''assoc leave''), (9, ''assoc not authed''), (200, ''beacon timeout''),
      (201, ''no ap found''), (202, ''auth fail''), (203, ''assoc fail''),
      (204, ''hanshake timeout''), (10, ''bad Power Capability, disassoc''),
      (11, ''bad Supported Channels, disassoc''), (13, ''invalid IE''), (14, ''MIC failure''),
      (15, ''4-way keying handshake timeout''), (16, ''Group key handshake''),
      (17, ''IE in 4-way differs''), (18, ''invalid group cipher''),
      (19, ''invalid pairwise cipher''), (20, ''invalid AKMP''),
      (21, ''unsupported RSN IE version''), (22, ''invalid RSN IE capability''),
      (23, ''802.1x auth failed''), (24, ''cipher suite rejected'')]"

fun reason_search :: "int \<Rightarrow> (int \<times> string) list \<Rightarrow> string option" where
  "reason_search err [] = None"
| "reason_search err ((e, r) # rs) = (if err = e then Some r else reason_search err rs)"

definition wifi_disconnect_reason_to_str :: "int \<Rightarrow> string" where
  "wifi_disconnect_reason_to_str err =
     (case reason_search err wifi_reason of Some r \<Rightarrow> r | None \<Rightarrow> snd (wifi_reason ! 0))"

subsection \<open>The strategy\<close>

definition wifi_reconnect_timer_callback :: "'a app_scheme \<Rightarrow> 'a app_scheme" where
  "wifi_reconnect_timer_callback s = emit (Net WifiConnect) s"

definition init_phases :: "connect_phase \<Rightarrow> phase_ctx" where
  "init_phases ph = (case ph of
       WIFI_CONNECT_PHASE_0 \<Rightarrow> \<lparr>connect_cnt = 0, connect_max = 3, connect_timeout = 0\<rparr>
     | WIFI_CONNECT_PHASE_1 \<Rightarrow> \<lparr>connect_cnt = 0, connect_max = PHASE_1_DURATION div PHASE_1_TIMEOUT,
         connect_timeout = PHASE_1_TIMEOUT\<rparr>
     | WIFI_CONNECT_PHASE_2 \<Rightarrow> \<lparr>connect_cnt = 0, connect_max = 3, connect_timeout = PHASE_2_TIMEOUT\<rparr>)"

definition wifi_custom_connect_strategy_init :: "'a app_scheme \<Rightarrow> 'a app_scheme" where
  "wifi_custom_connect_strategy_init s =
     (let s = s\<lparr>strat := (strat s)\<lparr>is_connected := False, cur_phase := WIFI_CONNECT_PHASE_0\<rparr>\<rparr>;
          (err, s) = timer_create WifiReconnect ''wifi_reconnect_timer_callback'' s;
          s = error_check err s
      in s\<lparr>strat := (strat s)\<lparr>phase := init_phases\<rparr>\<rparr>)"

fun next_phase :: "connect_phase \<Rightarrow> connect_phase" where
  "next_phase WIFI_CONNECT_PHASE_0 = WIFI_CONNECT_PHASE_1"
| "next_phase WIFI_CONNECT_PHASE_1 = WIFI_CONNECT_PHASE_2"
| "next_phase WIFI_CONNECT_PHASE_2 = WIFI_CONNECT_PHASE_1"

text \<open>The three cases of the switch differ in the next phase only.\<close>

definition count_failure :: "strategy \<Rightarrow> strategy" where
  "count_failure p =
     (let ph = cur_phase p; c = phase p ph; cnt = connect_cnt c + 1
      in if cnt \<ge> connect_max c
         then p\<lparr>phase := (phase p)(ph := c\<lparr>connect_cnt := 0\<rparr>), cur_phase := next_phase ph\<rparr>
         else p\<lparr>phase := (phase p)(ph := c\<lparr>connect_cnt := cnt\<rparr>)\<rparr>)"

definition wifi_custom_connect_fail :: "'a app_scheme \<Rightarrow> 'a app_scheme" where
  "wifi_custom_connect_fail s =
     (let s = s\<lparr>strat := count_failure ((strat s)\<lparr>is_connected := False\<rparr>)\<rparr>;
          s = app_rainmaker_reconnect_timer_stop s;
          p = strat s
      in timer_once WifiReconnect (connect_timeout (phase p (cur_phase p)) * 1000 * 1000) s)"

definition reset_counts :: "strategy \<Rightarrow> strategy" where
  "reset_counts p = p\<lparr>phase := (\<lambda>ph. (phase p ph)\<lparr>connect_cnt := 0\<rparr>)\<rparr>"

definition wifi_custom_connect_success :: "'a app_scheme \<Rightarrow> 'a app_scheme" where
  "wifi_custom_connect_success s =
     (let s = s\<lparr>strat := reset_counts ((strat s)\<lparr>is_connected := True, cur_phase := WIFI_CONNECT_PHASE_0\<rparr>)\<rparr>;
          s = timer_stop WifiReconnect s
      in app_rainmaker_reconnect_timer_start s)"

subsection \<open>Events\<close>

datatype wifi_event =
  WIFI_EVENT_STA_START | WIFI_EVENT_STA_DISCONNECTED int | WIFI_EVENT_STA_CONNECTED | WifiOther

datatype ip_event = IP_EVENT_STA_GOT_IP | IpOther

datatype net_event = WIFI_EVENT wifi_event | IP_EVENT ip_event | OtherBase

definition handle_wifi_events :: "wifi_event \<Rightarrow> 'a app_scheme \<Rightarrow> 'a app_scheme" where
  "handle_wifi_events ev s = (case ev of
       WIFI_EVENT_STA_START \<Rightarrow>
         let s = emit (Net (WifiSetMaxTxPower 44)) s; (_, s) = call (Net WifiGetMaxTxPower) s
         in emit (Net WifiConnect) s
     | WIFI_EVENT_STA_DISCONNECTED reason \<Rightarrow>
         single_fire_led_blink_on (wifi_custom_connect_fail s)
     | _ \<Rightarrow> s)"

definition handle_ip_events :: "ip_event \<Rightarrow> 'a app_scheme \<Rightarrow> 'a app_scheme" where
  "handle_ip_events ev s = (case ev of
       IP_EVENT_STA_GOT_IP \<Rightarrow> wifi_custom_connect_success s
     | IpOther \<Rightarrow> s)"

definition network_event_handler :: "net_event \<Rightarrow> 'a app_scheme \<Rightarrow> 'a app_scheme" where
  "network_event_handler ev s = (case ev of
       WIFI_EVENT e \<Rightarrow> handle_wifi_events e s
     | IP_EVENT e \<Rightarrow> handle_ip_events e s
     | OtherBase \<Rightarrow> s)"

definition app_event_register_init :: "'a app_scheme \<Rightarrow> 'a app_scheme" where
  "app_event_register_init s =
     (let s = wifi_custom_connect_strategy_init s
      in emits [Net (EventRegister ''WIFI_EVENT'' ''ESP_EVENT_ANY_ID'' ''network_event_handler''),
           Net (EventRegister ''IP_EVENT'' ''IP_EVENT_STA_GOT_IP'' ''network_event_handler'')] s)"

text \<open>The states the events lead to: any sequence of them after the initialisation.\<close>

inductive net_reach :: "app \<Rightarrow> bool" where
  net_init: "net_reach (app_event_register_init s)"
| net_event: "net_reach s \<Longrightarrow> net_reach (network_event_handler ev s)"

inductive_cases net_reachE: "net_reach s"

subsection \<open>The counters\<close>

lemma strat_timers [simp]:
  "strat (timer_once t n s) = strat s" "strat (timer_stop t s) = strat s"
  "strat (timer_periodic t n s) = strat s" "strat (snd (timer_create t cb s)) = strat s"
  "strat (app_rainmaker_reconnect_timer_start s) = strat s"
  "strat (app_rainmaker_reconnect_timer_stop s) = strat s"
  "strat (error_check e s) = strat s"
  by (simp_all add: timer_once_def timer_stop_def timer_periodic_def timer_create_def
      error_check_def app_rainmaker_reconnect_timer_start_def
      app_rainmaker_reconnect_timer_stop_def case_prod_beta Let_def)

lemma strat_fail: "strat (wifi_custom_connect_fail s) = count_failure ((strat s)\<lparr>is_connected := False\<rparr>)"
  by (simp add: wifi_custom_connect_fail_def Let_def)

lemma strat_success: "strat (wifi_custom_connect_success s)
   = reset_counts ((strat s)\<lparr>is_connected := True, cur_phase := WIFI_CONNECT_PHASE_0\<rparr>)"
  by (simp add: wifi_custom_connect_success_def Let_def)

lemma strat_blink [simp]: "strat (single_fire_led_blink_on s) = strat s"
  by (simp add: single_fire_led_blink_on_def)

definition strat_ok :: "strategy \<Rightarrow> bool" where
  "strat_ok p \<longleftrightarrow> (\<forall>ph. connect_max (phase p ph) = connect_max (init_phases ph)
     \<and> connect_timeout (phase p ph) = connect_timeout (init_phases ph)
     \<and> 0 \<le> connect_cnt (phase p ph) \<and> connect_cnt (phase p ph) < connect_max (phase p ph)
     \<and> (ph \<noteq> cur_phase p \<longrightarrow> connect_cnt (phase p ph) = 0))"

lemma init_phases_pos: "0 < connect_max (init_phases ph)" "connect_cnt (init_phases ph) = 0"
  by (simp_all add: init_phases_def phase_defs split: connect_phase.split)

lemma strat_ok_init: "strat_ok (p\<lparr>phase := init_phases\<rparr>)"
  by (simp add: strat_ok_def init_phases_pos)

lemma strat_ok_count: "strat_ok p \<Longrightarrow> strat_ok (count_failure p)"
  by (auto simp: strat_ok_def count_failure_def Let_def init_phases_pos)

lemma strat_ok_reset: "strat_ok p \<Longrightarrow> strat_ok (reset_counts p)"
  by (simp add: strat_ok_def reset_counts_def init_phases_pos)

lemma strat_ok_fields: "strat_ok (p\<lparr>is_connected := b\<rparr>) = strat_ok p"
  by (simp add: strat_ok_def)

lemma strat_ok_reset0: "strat_ok p \<Longrightarrow> strat_ok (reset_counts (p\<lparr>is_connected := b, cur_phase := ph\<rparr>))"
  by (simp add: strat_ok_def reset_counts_def init_phases_pos)

lemma net_reach_ok: "net_reach s \<Longrightarrow> strat_ok (strat s)"
proof (induction rule: net_reach.induct)
  case (net_init s)
  then show ?case
    by (simp add: app_event_register_init_def wifi_custom_connect_strategy_init_def
        strat_ok_init case_prod_beta Let_def)
next
  case (net_event s ev)
  then show ?case
    by (simp add: network_event_handler_def handle_wifi_events_def handle_ip_events_def
        strat_fail strat_success strat_ok_count strat_ok_fields strat_ok_reset0 case_prod_beta Let_def
        split: net_event.split wifi_event.split ip_event.split)
qed

subsection \<open>The schedule of the attempts\<close>

text \<open>The place of a strategy in the cycle of 3 + 12 + 3 attempts.\<close>

definition place :: "strategy \<Rightarrow> int" where
  "place p = connect_cnt (phase p (cur_phase p)) + (case cur_phase p of
       WIFI_CONNECT_PHASE_0 \<Rightarrow> 0 | WIFI_CONNECT_PHASE_1 \<Rightarrow> 3 | WIFI_CONNECT_PHASE_2 \<Rightarrow> 15)"

definition place_after :: "nat \<Rightarrow> int" where
  "place_after n = (if n < 3 then int n else 3 + int ((n - 3) mod 15))"

definition retry_delay :: "nat \<Rightarrow> int" where
  \<comment> \<open>microseconds between the \<open>n\<close>-th failure in a row and the next attempt\<close>
  "retry_delay n = (if n < 3 then 0 else if (n - 3) mod 15 < 12 then 300 else 80) * 1000 * 1000"

lemma phases_max:
  "connect_max (init_phases WIFI_CONNECT_PHASE_0) = 3"
  "connect_max (init_phases WIFI_CONNECT_PHASE_1) = 12"
  "connect_max (init_phases WIFI_CONNECT_PHASE_2) = 3"
  "connect_timeout (init_phases WIFI_CONNECT_PHASE_0) = 0"
  "connect_timeout (init_phases WIFI_CONNECT_PHASE_1) = 300"
  "connect_timeout (init_phases WIFI_CONNECT_PHASE_2) = 80"
  by (simp_all add: init_phases_def phase_defs)

lemma strat_okD:
  assumes "strat_ok p"
  shows "connect_max (phase p ph) = connect_max (init_phases ph)"
    "connect_timeout (phase p ph) = connect_timeout (init_phases ph)"
    "0 \<le> connect_cnt (phase p ph)" "connect_cnt (phase p ph) < connect_max (init_phases ph)"
    "ph \<noteq> cur_phase p \<Longrightarrow> connect_cnt (phase p ph) = 0"
proof -
  note a = assms [unfolded strat_ok_def, rule_format, of ph]
  show "connect_max (phase p ph) = connect_max (init_phases ph)"
    "connect_timeout (phase p ph) = connect_timeout (init_phases ph)"
    "0 \<le> connect_cnt (phase p ph)" "connect_cnt (phase p ph) < connect_max (init_phases ph)"
    "ph \<noteq> cur_phase p \<Longrightarrow> connect_cnt (phase p ph) = 0"
    using a by simp_all
qed

lemma place_count:
  assumes "strat_ok p"
  shows "place (count_failure p) = (if place p = 17 then 3 else place p + 1)"
  using strat_okD(1,3,4) [OF assms, of "cur_phase p"] strat_okD(5) [OF assms]
  by (cases "cur_phase p") (auto simp: place_def count_failure_def Let_def phases_max)

lemma place_timeout:
  assumes "strat_ok p"
  shows "connect_timeout (phase p (cur_phase p)) =
    (if place p < 3 then 0 else if place p < 15 then 300 else 80)"
  using strat_okD(2,3,4) [OF assms, of "cur_phase p"]
  by (cases "cur_phase p") (auto simp: place_def phases_max)

lemma place_after_Suc: "place_after (Suc n) = (if place_after n = 17 then 3 else place_after n + 1)"
proof (cases "n < 3")
  case True
  then show ?thesis by (auto simp: place_after_def)
next
  case False
  then have "Suc n - 3 = Suc (n - 3)" by simp
  then have "(Suc n - 3) mod 15 = (if (n - 3) mod 15 = 14 then 0 else Suc ((n - 3) mod 15))"
    by (simp add: mod_Suc)
  then show ?thesis using False by (simp add: place_after_def)
qed

lemma place_after_delay:
  "(if place_after n < 3 then 0 else if place_after n < 15 then 300 else 80) * 1000 * 1000
     = retry_delay n"
  by (simp add: place_after_def retry_delay_def)

text \<open>The delays of the reconnect timer that a trace starts.\<close>

fun wifi_delay :: "effect \<Rightarrow> int list" where
  "wifi_delay (Timer (TimerStartOnce (Some WifiReconnect) us)) = [us]"
| "wifi_delay _ = []"

definition wifi_delays :: "effect list \<Rightarrow> int list" where
  "wifi_delays es = concat (map wifi_delay es)"

lemma wifi_delays_simps [simp]:
  "wifi_delays [] = []" "wifi_delays (e # es) = wifi_delay e @ wifi_delays es"
  "wifi_delays (xs @ ys) = wifi_delays xs @ wifi_delays ys"
  by (simp_all add: wifi_delays_def)

abbreviation disconnected :: "int \<Rightarrow> net_event" where
  "disconnected r \<equiv> WIFI_EVENT (WIFI_EVENT_STA_DISCONNECTED r)"

lemma timers_helpers [simp]:
  "timers (timer_once t n s) = timers s" "timers (timer_stop t s) = timers s"
  "timers (timer_periodic t n s) = timers s"
  "timers (app_rainmaker_reconnect_timer_stop s) = timers s"
  by (simp_all add: timer_once_def timer_stop_def timer_periodic_def
      app_rainmaker_reconnect_timer_stop_def)

lemma failure_step:
  fixes r :: int and s :: "'a app_scheme"
  assumes "strat_ok (strat s)" "WifiReconnect \<in> timers s"
    and t: "t = network_event_handler (disconnected r) s"
  shows "strat_ok (strat t)" "WifiReconnect \<in> timers t"
    "place (strat t) = (if place (strat s) = 17 then 3 else place (strat s) + 1)"
    "wifi_delays (trace t) = wifi_delays (trace s) @
       [(if place (strat t) < 3 then 0 else if place (strat t) < 15 then 300 else 80) * 1000 * 1000]"
proof -
  have st: "strat t = count_failure ((strat s)\<lparr>is_connected := False\<rparr>)"
    by (simp add: t network_event_handler_def handle_wifi_events_def strat_fail)
  have ok: "strat_ok ((strat s)\<lparr>is_connected := False\<rparr>)"
    using assms(1) by (simp add: strat_ok_fields)
  show okt: "strat_ok (strat t)" using ok by (simp add: st strat_ok_count)
  show "WifiReconnect \<in> timers t"
    using assms(2) by (simp add: t network_event_handler_def handle_wifi_events_def
        single_fire_led_blink_on_def wifi_custom_connect_fail_def Let_def)
  have "place ((strat s)\<lparr>is_connected := False\<rparr>) = place (strat s)"
    by (simp add: place_def)
  then show "place (strat t) = (if place (strat s) = 17 then 3 else place (strat s) + 1)"
    using place_count [OF ok] by (simp add: st)
  have "wifi_delays (trace t) = wifi_delays (trace s) @
      [connect_timeout (phase (strat t) (cur_phase (strat t))) * 1000 * 1000]"
    using assms(2)
    by (auto simp: st t network_event_handler_def handle_wifi_events_def
        single_fire_led_blink_on_def wifi_custom_connect_fail_def Let_def timer_once_def
        timer_stop_def timer_periodic_def app_rainmaker_reconnect_timer_stop_def handle_def)
  then show "wifi_delays (trace t) = wifi_delays (trace s) @
       [(if place (strat t) < 3 then 0 else if place (strat t) < 15 then 300 else 80) * 1000 * 1000]"
    using place_timeout [OF okt] by simp
qed

lemma failure_run:
  assumes "strat_ok (strat s)" "WifiReconnect \<in> timers s" "place (strat s) = place_after n"
  shows "wifi_delays (trace (fold (\<lambda>r. network_event_handler (disconnected r)) rs s))
      = wifi_delays (trace s) @ map retry_delay [Suc n..<Suc n + length rs]"
  using assms
proof (induction rs arbitrary: s n)
  case (Cons r rs)
  note f = failure_step [OF Cons.prems(1,2) refl, of r]
  let ?t = "network_event_handler (disconnected r) s"
  have pl: "place (strat ?t) = place_after (Suc n)"
    using f(3) Cons.prems(3) by (simp add: place_after_Suc)
  have "wifi_delays (trace ?t) = wifi_delays (trace s) @ [retry_delay (Suc n)]"
    using f(4) by (simp only: pl place_after_delay)
  moreover have "[Suc n..<Suc n + length (r # rs)]
      = Suc n # [Suc (Suc n)..<Suc (Suc n) + length rs]"
    by (simp add: upt_rec)
  ultimately show ?case
    using Cons.IH [OF f(1,2) pl] by simp
qed simp

text \<open>C18. The reconnect schedule. Once the event handlers are registered, whatever happened
  before, a connection followed by any number of disconnects (for any reasons) waits before the
  attempts exactly the schedule's delays: none for the first two, 300 s for the next twelve,
  80 s for three more, and so on in a cycle of fifteen. The phase counters stay below their
  limits and only the current phase's can be non-zero.\<close>
theorem reconnect_schedule:
  assumes "net_reach s" "WifiReconnect \<in> timers s"
  shows "(let t = network_event_handler (IP_EVENT IP_EVENT_STA_GOT_IP) s
      in wifi_is_connected t \<and>
         wifi_delays (trace (fold (\<lambda>r. network_event_handler (disconnected r)) rs t))
           = wifi_delays (trace s) @ map retry_delay [1..<Suc (length rs)])
    \<and> (\<forall>ph. 0 \<le> connect_cnt (phase (strat s) ph)
        \<and> connect_cnt (phase (strat s) ph) < connect_max (phase (strat s) ph)
        \<and> (ph = cur_phase (strat s) \<or> connect_cnt (phase (strat s) ph) = 0))"
proof -
  let ?t = "network_event_handler (IP_EVENT IP_EVENT_STA_GOT_IP) s"
  have ok: "strat_ok (strat s)" by (rule net_reach_ok [OF assms(1)])
  have st: "strat ?t = reset_counts ((strat s)\<lparr>is_connected := True, cur_phase := WIFI_CONNECT_PHASE_0\<rparr>)"
    by (simp add: network_event_handler_def handle_ip_events_def strat_success)
  have okt: "strat_ok (strat ?t)" using ok by (simp add: st strat_ok_reset0)
  have tm: "WifiReconnect \<in> timers ?t"
    using assms(2) by (simp add: network_event_handler_def handle_ip_events_def
        wifi_custom_connect_success_def app_rainmaker_reconnect_timer_start_def timer_create_def
        case_prod_beta Let_def)
  have pl: "place (strat ?t) = place_after 0"
    by (simp add: st place_def reset_counts_def place_after_def)
  have tr: "wifi_delays (trace ?t) = wifi_delays (trace s)"
    by (auto simp: network_event_handler_def handle_ip_events_def
        wifi_custom_connect_success_def app_rainmaker_reconnect_timer_start_def timer_create_def
        timer_stop_def timer_once_def handle_def case_prod_beta Let_def)
  have con: "wifi_is_connected ?t" by (simp add: wifi_is_connected_def st reset_counts_def)
  have "wifi_delays (trace (fold (\<lambda>r. network_event_handler (disconnected r)) rs ?t))
           = wifi_delays (trace s) @ map retry_delay [1..<Suc (length rs)]"
    using failure_run [OF okt tm pl, of rs] tr by simp
  moreover have "\<forall>ph. 0 \<le> connect_cnt (phase (strat s) ph)
        \<and> connect_cnt (phase (strat s) ph) < connect_max (phase (strat s) ph)
        \<and> (ph = cur_phase (strat s) \<or> connect_cnt (phase (strat s) ph) = 0)"
    using strat_okD [OF ok] by metis
  ultimately show ?thesis using con by (simp add: Let_def)
qed

theorem reconnect_schedule_witness:
  "wifi_delays (trace (fold (\<lambda>r. network_event_handler (disconnected r)) [8, 201, 201]
      (network_event_handler (IP_EVENT IP_EVENT_STA_GOT_IP) (app_event_register_init app_init))))
    = [0, 0, 300000000]"
proof -
  let ?s = "app_event_register_init app_init"
  have tm: "WifiReconnect \<in> timers ?s" "wifi_delays (trace ?s) = []"
    by (simp_all add: app_event_register_init_def wifi_custom_connect_strategy_init_def
        timer_create_def error_check_def call_def app_init_def rm.defs rm_init_def)
  have "map retry_delay [1..<Suc (length [8::int, 201, 201])] = [0, 0, 300000000]"
    by (simp add: retry_delay_def upt_rec)
  then show ?thesis
    using reconnect_schedule [OF net_init tm(1), of "[8, 201, 201]"] tm(2)
    by (simp only: Let_def append_Nil)
qed

end
