(* ===== verification/App_Uart.thy ===== *)
theory App_Uart
  imports App_Event
begin

text \<open>
  The UART link to the dimmer's microcontroller: \<open>app_uart.c\<close> (\<open>send_bri_ctrl_info\<close> is in
  \<open>App_Bri\<close>, \<open>wakeup_io_intr_type\<close>, the flags and the send buffer in \<open>App_State\<close>).

  The send task is cut at the points where other tasks or interrupts can change what it
  reads: \<open>send_pc\<close> names them and \<open>send_step\<close> runs the code up to the next one. The waits
  inside the wake-up pulses touch only the pin and are not points of their own, and the last
  two statements of the task are one step. \<open>App_World\<close> cuts the task and the requests further, at every
  access to the variables they share. \<open>re_wkup_mcu_flag\<close> is written and never read, so it
  is left out.
\<close>

definition SendHead1 :: u8 where "SendHead1 = 0xaa"
definition SendHead2 :: u8 where "SendHead2 = 0x55"
definition ReceivedHead1 :: u8 where "ReceivedHead1 = 0x55"
definition ReceivedHead2 :: u8 where "ReceivedHead2 = 0xaa"
definition MCU_WAJEUP_IO :: nat where "MCU_WAJEUP_IO = 6"

lemmas head_defs = SendHead1_def SendHead2_def ReceivedHead1_def ReceivedHead2_def

definition uart_send :: "u8 list \<Rightarrow> 'a app_scheme \<Rightarrow> 'a app_scheme" where
  \<comment> \<open>\<open>uart_write_bytes\<close> then \<open>uart_wait_tx_done\<close>\<close>
  "uart_send b s = emits [Uart (UartWrite b), Uart (UartWaitTxDone 100)] s"

definition short_frame :: "u8 \<Rightarrow> u8 \<Rightarrow> u8 list" where
  \<comment> \<open>the local \<open>SendBuff\<close>: head, command, argument, sum\<close>
  "short_frame cmd dat = [SendHead1, SendHead2, cmd, dat, SendHead1 + SendHead2 + cmd + dat]"

subsection \<open>The wake-up pin\<close>

definition wakeup_mcu_info_config :: "'a app_scheme \<Rightarrow> 'a app_scheme" where
  "wakeup_mcu_info_config s =
     (let s = emit (Gpio (GpioConfig MCU_WAJEUP_IO GPIO_INTR_DISABLE GPIO_MODE_OUTPUT True False)) s;
          s = vTaskDelay 10 s;
          s = gpio_write MCU_WAJEUP_IO 1 s;
          s = vTaskDelay 2 s
      in emit (Gpio (GpioHoldDis MCU_WAJEUP_IO)) s)"

definition wakeup_mcu_info :: "'a app_scheme \<Rightarrow> 'a app_scheme" where
  "wakeup_mcu_info s =
     (let s = gpio_write MCU_WAJEUP_IO 1 s; s = vTaskDelay 2 s
      in emit (Gpio (GpioHoldDis MCU_WAJEUP_IO)) s)"

definition wait_for_mcu_info_config :: "nat \<Rightarrow> 'a app_scheme \<Rightarrow> esp_err \<times> 'a app_scheme" where
  "wait_for_mcu_info_config gpio_num s =
     call (Gpio (GpioConfig gpio_num GPIO_INTR_POSEDGE GPIO_MODE_INPUT True False)) s"

definition wakeup_io_intr_init :: "'a app_scheme \<Rightarrow> esp_err \<times> 'a app_scheme" where
  "wakeup_io_intr_init s =
     (let (_, s) = wait_for_mcu_info_config MCU_WAJEUP_IO s;
          (level, s) = call (Gpio (GpioGetLevel MCU_WAJEUP_IO)) s;
          s = (if level = 0 then s\<lparr>wakeup_io_intr_type := GPIO_INTR_POSEDGE\<rparr> else s);
          s = emits [Gpio (GpioHoldEn MCU_WAJEUP_IO), Gpio (GpioInstallIsrService 0),
            Gpio (GpioIsrHandlerAdd MCU_WAJEUP_IO ''wakeup_io_isr_handler''),
            Gpio (GpioWakeupEnable MCU_WAJEUP_IO GPIO_INTR_HIGH_LEVEL)] s
      in call (Gpio SleepEnableGpioWakeup) s)"

text \<open>The interrupt: the two levels alternate, and \<open>ucRxTaskHandle_Flag\<close> follows the pin.\<close>

definition wakeup_io_isr_handler :: "'a app_scheme \<Rightarrow> 'a app_scheme" where
  "wakeup_io_isr_handler s =
     (if wakeup_io_intr_type s = GPIO_INTR_LOW_LEVEL then
        let s = s\<lparr>wakeup_io_intr_type := GPIO_INTR_HIGH_LEVEL\<rparr>;
            s = emit (Gpio (GpioSetIntrType MCU_WAJEUP_IO GPIO_INTR_HIGH_LEVEL)) s;
            s = s\<lparr>ucRxTaskHandle_Flag := False\<rparr>
        in timer_once WakeupIoStart 1000 (timer_stop WakeupIoStart s)
      else if wakeup_io_intr_type s = GPIO_INTR_HIGH_LEVEL then
        let s = s\<lparr>wakeup_io_intr_type := GPIO_INTR_LOW_LEVEL\<rparr>;
            s = emit (Gpio (GpioSetIntrType MCU_WAJEUP_IO GPIO_INTR_LOW_LEVEL)) s;
            s = s\<lparr>ucRxTaskHandle_Flag := True\<rparr>
        in timer_once WakeupIoStop 1000 (timer_stop WakeupIoStop s)
      else
        emit (Gpio (GpioSetIntrType MCU_WAJEUP_IO GPIO_INTR_HIGH_LEVEL))
          (s\<lparr>wakeup_io_intr_type := GPIO_INTR_HIGH_LEVEL\<rparr>))"

definition wakeup_io_stop_power_timer_callback :: "'a app_scheme \<Rightarrow> 'a app_scheme" where
  "wakeup_io_stop_power_timer_callback s =
     uart_send (short_frame UART_SEND_ALLOW 1) (stop_power_save s)"

definition wakeup_io_start_power_timer_callback :: "'a app_scheme \<Rightarrow> 'a app_scheme" where
  "wakeup_io_start_power_timer_callback s =
     start_power_save (uart_send (short_frame UART_ACCEPT_END 1) s)"

subsection \<open>The send task\<close>

definition wakes_mcu :: "cmd \<Rightarrow> bool" where
  "wakes_mcu c \<longleftrightarrow> OnOffCMD = c \<or> WIFIINITSTARTCMD = c \<or> WIFIINITENDCMD = c"

datatype send_pc =
  SCopy              \<comment> \<open>the top of the loop, line 76\<close>
| STake "u8 list"    \<comment> \<open>the buffer is copied, line 78\<close>
| SRxWait "u8 list"  \<comment> \<open>line 90\<close>
| SWrite "u8 list"   \<comment> \<open>line 95\<close>
| SDrain "u8 list"   \<comment> \<open>the frame is written, line 105\<close>
| SReport "u8 list"  \<comment> \<open>line 108\<close>
| SClear             \<comment> \<open>line 120\<close>
| SCheck             \<comment> \<open>line 124\<close>
| SExit              \<comment> \<open>line 131\<close>

fun send_step :: "send_pc \<Rightarrow> 'a app_scheme \<Rightarrow> send_pc option \<times> 'a app_scheme" where
  "send_step SCopy s = (Some (STake (ucSendBuff s)), s)"
| "send_step (STake b) s =
     (let s = s\<lparr>ucSendFlag := False\<rparr>
      in if b ! 0 \<noteq> SendHead1 \<or> b ! 1 \<noteq> SendHead2 then (Some SExit, s) else (Some (SRxWait b), s))"
| "send_step (SRxWait b) s =
     (if ucRxTaskHandle_Flag s then (Some (SRxWait b), vTaskDelay 10 s) else (Some (SWrite b), s))"
| "send_step (SWrite b) s =
     (let s = (if wakes_mcu (b ! 2) then wakeup_mcu_info (wakeup_mcu_info_config s) else s);
          s = stop_power_save s
      in (Some (SDrain b), emit (Uart (UartWrite b)) s))"
| "send_step (SDrain b) s =
     (Some (SReport b), start_power_save (emit (Uart (UartWaitTxDone 100)) s))"
| "send_step (SReport b) s =
     (let s = (if wakes_mcu (b ! 2) then snd (wait_for_mcu_info_config MCU_WAJEUP_IO s) else s)
      in (Some SClear, if s_wifi_init_end_flag s then esp_rmaker_update (b ! 2) (ucast (b ! 3)) s else s))"
| "send_step SClear s = (Some SCheck, vTaskDelay 100 (s\<lparr>ucSendFlag := False\<rparr>))"
| "send_step SCheck s =
     (if \<not> ucSendFlag s then (Some SExit, s\<lparr>ucSendBuff := (ucSendBuff s)[2 := ERRORCMD]\<rparr>)
      else (Some SCopy, s))"
| "send_step SExit s =
     (None, emit (Os (TaskDelete ''send_uart_info_task'')) (s\<lparr>ucSendTaskHandle_Flag := False\<rparr>))"

text \<open>The task left to itself for a number of steps.\<close>

fun send_run :: "nat \<Rightarrow> send_pc option \<times> 'a app_scheme \<Rightarrow> send_pc option \<times> 'a app_scheme" where
  "send_run 0 w = w"
| "send_run (Suc n) w = (case w of (None, s) \<Rightarrow> w | (Some pc, s) \<Rightarrow> send_run n (send_step pc s))"

definition wifi_start_init :: "'a app_scheme \<Rightarrow> 'a app_scheme" where
  "wifi_start_init s = send_bri_ctrl_info WIFIINITSTARTCMD 1 (s\<lparr>ucRxTaskHandle_Flag := False\<rparr>)"

subsection \<open>Receiving\<close>

definition ack :: "cmd \<Rightarrow> 'a app_scheme \<Rightarrow> 'a app_scheme" where
  \<comment> \<open>the sequence the three commands share: lock, write the answer, unlock, clear the flag\<close>
  "ack cmd s =
     (start_power_save (uart_send (short_frame UART_ACCEPT_END cmd) (stop_power_save s)))
       \<lparr>ucRxTaskHandle_Flag := False\<rparr>"

definition rx_command :: "cmd \<Rightarrow> u8 \<Rightarrow> 'a app_scheme \<Rightarrow> 'a app_scheme" where
  "rx_command cmd dat s =
     (if cmd = OnOffCMD then
        (if ucast dat \<noteq> Get_Bri_Status s then
           let s = ack cmd (Set_Bri_Status (ucast dat) s)
           in if s_wifi_init_end_flag s
              then esp_rmaker_update cmd (if dat \<noteq> 0 then 1 else 0) s else s
         else start_power_save s)
      else if cmd = BriNowCMD then
        (if ucast dat \<noteq> Get_Btight_Pct s then
           let s = ack cmd s
           in if dat \<le> 100 then
                let s = Set_Btight_Pct (ucast dat) s
                in if s_wifi_init_end_flag s then esp_rmaker_update cmd (ucast dat) s else s
              else s
         else start_power_save s)
      else if cmd = WIFIRESETCMD then snd (esp_rmaker_factory_reset 0 2 (ack cmd s))
      else s)"

function uart_scan :: "u8 list \<Rightarrow> nat \<Rightarrow> nat \<Rightarrow> 'a app_scheme \<Rightarrow> 'a app_scheme" where
  "uart_scan str num i s =
     (if i + 4 < num then
        if ReceivedHead1 = str ! i \<and> ReceivedHead2 = str ! (i + 1)
        then uart_scan str num (i + 4) (rx_command (str ! (i + 2)) (str ! (i + 3)) s)
        else uart_scan str num (i + 1) s
      else s)"
  by pat_completeness auto
termination by (relation "measure (\<lambda>(str, num, i, s). num - i)") auto

declare uart_scan.simps [simp del]

definition uart_deal_with :: "u8 list \<Rightarrow> u8 \<Rightarrow> 'a app_scheme \<Rightarrow> 'a app_scheme" where
  "uart_deal_with str num s = uart_scan str (unat num) 0 s"

text \<open>One round of \<open>uart_event_task\<close>: the bytes of a data event are what the driver has.\<close>

datatype uart_event =
  UART_DATA "u8 list" | UART_FIFO_OVF | UART_BUFFER_FULL | UART_BREAK | UART_PARITY_ERR
  | UART_FRAME_ERR | UART_PATTERN_DET | UartOther int

definition uart_event_task :: "uart_event \<Rightarrow> 'a app_scheme \<Rightarrow> 'a app_scheme" where
  "uart_event_task ev s = (case ev of
       UART_DATA rx \<Rightarrow>
         uart_deal_with (rx @ replicate (1024 - length rx) 0) (of_nat (length rx))
           (emit (Uart (UartRead (int (length rx)) (- 1))) s)
     | UART_FIFO_OVF \<Rightarrow> emits [Uart UartFlushInput, Uart UartQueueReset] s
     | UART_BUFFER_FULL \<Rightarrow> emits [Uart UartFlushInput, Uart UartQueueReset] s
     | UART_PATTERN_DET \<Rightarrow>
         let s = emit (Uart UartGetBufferedLen) s;
             (pos, s) = call (Uart UartPatternPopPos) s
         in if pos = - 1 then emit (Uart UartFlushInput) s
            else emits [Uart (UartRead pos 10), Uart (UartRead 3 10)] s
     | _ \<Rightarrow> s)"

definition bri_ctrl_uart_init :: "'a app_scheme \<Rightarrow> 'a app_scheme" where
  "bri_ctrl_uart_init s =
     (let s = emits [Uart (UartInstall ''uart_driver_install'' [1024, 0, 40, 0]),
                Uart (UartInstall ''uart_param_config'' [9600, 8, 0, 1, 0]),
                Uart (UartInstall ''uart_set_pin'' [10, 7]),
                Uart (UartInstall ''uart_enable_pattern_det_baud_intr'' [43, 3, 9, 0, 0]),
                Uart (UartInstall ''uart_pattern_queue_reset'' [20]),
                Os (TaskCreate ''uart_event_task'' 4096 12)] s;
          (_, s) = timer_create WakeupIoStop ''wakeup_io_stop_power_timer_callback'' s;
          (_, s) = timer_create WakeupIoStart ''wakeup_io_start_power_timer_callback'' s
      in snd (wakeup_io_intr_init s))"

text \<open>\<open>bri_ctrl.c\<close>'s initialisation, which opens the link.\<close>

definition Bri_Ctrl_Init :: "'a app_scheme \<Rightarrow> 'a app_scheme" where
  "Bri_Ctrl_Init s = bri_ctrl_uart_init (s\<lparr>Bri_Status := 0\<rparr>)"

end
