(* ===== verification/App_Link.thy ===== *)
theory App_Link
  imports App_Uart
begin

text \<open>
  The frames of the UART link: what has been written to the wire, what makes a
  frame valid, and how received frames are handled. The
  interleaving of requests and send tasks is in \<open>App_World\<close>, delivery in \<open>App_Deliver\<close>.
\<close>

subsection \<open>Frames on the wire\<close>

definition frame_ok :: "u8 list \<Rightarrow> bool" where
  "frame_ok b \<longleftrightarrow> length b = 5 \<and> b ! 0 = SendHead1 \<and> b ! 1 = SendHead2
     \<and> b ! 4 = b ! 0 + b ! 1 + b ! 2 + b ! 3"

definition head_ok :: "u8 list \<Rightarrow> bool" where
  "head_ok b \<longleftrightarrow> length b = 5 \<and> b ! 0 = SendHead1 \<and> b ! 1 = SendHead2"

fun frame_of :: "effect \<Rightarrow> u8 list option" where
  "frame_of (Uart (UartWrite b)) = Some b"
| "frame_of _ = None"

definition sent :: "'a app_scheme \<Rightarrow> u8 list list" where
  \<comment> \<open>the frames written to the UART so far\<close>
  "sent s = List.map_filter frame_of (trace s)"

lemma map_filter_local: "List.map_filter frame_of (local_part es) = List.map_filter frame_of es"
proof (induction es)
  case (Cons e es)
  then show ?case
    by (cases e rule: is_net.cases) (auto simp: List.map_filter_def split: option.splits)
qed (simp add: List.map_filter_def)

lemma sent_cong: "local_part (trace t) = local_part (trace s) \<Longrightarrow> sent t = sent s"
  unfolding sent_def by (metis map_filter_local)

lemma sent_emit:
  "sent (emit e s) = sent s @ (case frame_of e of None \<Rightarrow> [] | Some b \<Rightarrow> [b])"
  by (simp add: sent_def List.map_filter_def split: option.split)

lemma sent_emits: "sent (emits es s) = sent s @ List.map_filter frame_of es"
  by (simp add: sent_def List.map_filter_def)

lemma sent_ask [simp]: "sent (snd (ask s)) = sent s"
  by (simp add: sent_def)

lemma sent_call: "sent (snd (call e s)) = sent (emit e s)"
  by (simp add: call_def)

lemma sent_upd [simp]:
  "sent (s\<lparr>ucSendFlag := f\<rparr>) = sent s" "sent (s\<lparr>ucSendBuff := b\<rparr>) = sent s"
  "sent (s\<lparr>ucSendTaskHandle_Flag := f\<rparr>) = sent s" "sent (s\<lparr>ucRxTaskHandle_Flag := f\<rparr>) = sent s"
  "sent (s\<lparr>lock_held := f\<rparr>) = sent s" "sent (s\<lparr>Bri_Status := x\<rparr>) = sent s"
  "sent (s\<lparr>Bri_Now_Pct := y\<rparr>) = sent s" "sent (s\<lparr>wakeup_io_intr_type := ty\<rparr>) = sent s"
  "sent (s\<lparr>Bri_Min_Pct := y\<rparr>) = sent s" "sent (s\<lparr>Bri_Max_Pct := y\<rparr>) = sent s"
  "sent (s\<lparr>btns := bs\<rparr>) = sent s" "sent (s\<lparr>strat := st\<rparr>) = sent s"
  by (simp_all add: sent_def)

lemma sent_power [simp]: "sent (stop_power_save s) = sent s" "sent (start_power_save s) = sent s"
  by (auto simp: stop_power_save_def start_power_save_def error_check_def case_prod_beta Let_def
      sent_emit sent_call)

lemma sent_request [simp]: "sent (send_bri_ctrl_info c d s) = sent s"
  by (simp add: send_bri_ctrl_info_def case_prod_beta Let_def sent_call sent_emit)

lemma sent_update [simp]: "sent (esp_rmaker_update c d s) = sent s"
  by (simp add: esp_rmaker_update_def sent_cong [OF update_and_report_local(3)])

lemma short_frame_ok: "frame_ok (short_frame c d)"
  by (simp add: frame_ok_def short_frame_def)

lemma put_frame_ok: "head_ok b \<Longrightarrow> frame_ok (put_frame c d b)"
  by (simp add: frame_ok_def head_ok_def put_frame_eq)

lemma frame_head: "frame_ok b \<Longrightarrow> head_ok b"
  by (simp add: frame_ok_def head_ok_def)

subsection \<open>Received frames\<close>

fun rx_frame :: "cmd \<times> u8 \<times> u8 \<Rightarrow> u8 list" where
  "rx_frame (c, d, k) = [ReceivedHead1, ReceivedHead2, c, d, k]"

lemma heads_differ: "ReceivedHead1 \<noteq> ReceivedHead2" "ReceivedHead2 \<noteq> ReceivedHead1"
  by (simp_all add: head_defs)

lemma length_rx_frames: "length (concat (map rx_frame fs)) = 5 * length fs"
  by (induction fs) auto

lemma uart_scan_frames:
  fixes s :: "'a app_scheme"
  assumes "str = pre @ concat (map rx_frame fs) @ post" "num = length pre + 5 * length fs"
  shows "uart_scan str num (length pre) s = fold (\<lambda>(c, d, k). rx_command c d) fs s"
  using assms
proof (induction fs arbitrary: pre s)
  case Nil
  then show ?case by (simp add: uart_scan.simps)
next
  case (Cons f fs)
  obtain c d k where f: "f = (c, d, k)" by (metis prod_cases3)
  let ?i = "length pre"
  have str: "str = pre @ [ReceivedHead1, ReceivedHead2, c, d, k] @ concat (map rx_frame fs) @ post"
    using Cons.prems(1) by (simp add: f)
  have nths: "str ! ?i = ReceivedHead1" "str ! (?i + 1) = ReceivedHead2" "str ! (?i + 2) = c"
      "str ! (?i + 3) = d" "str ! (?i + 4) = k"
    by (simp_all add: str nth_append)
  have step: "uart_scan str num ?i s = uart_scan str num (?i + 4) (rx_command c d s)"
    using Cons.prems(2) nths by (subst uart_scan.simps) simp
  have "uart_scan str num (?i + 4) t = fold (\<lambda>(c, d, k). rx_command c d) fs t" for t :: "'a app_scheme"
  proof (cases fs)
    case Nil
    then show ?thesis using Cons.prems(2) by (simp add: uart_scan.simps)
  next
    case more: (Cons g gs)
    obtain c' d' k' where g: "g = (c', d', k')" by (metis prod_cases3)
    have "str ! (?i + 5) = ReceivedHead1"
      by (simp add: str more g nth_append)
    then have "uart_scan str num (?i + 4) t = uart_scan str num (?i + 5) t"
      using Cons.prems(2) more by (subst uart_scan.simps) (simp add: heads_differ add.commute)
    moreover have "uart_scan str num (length (pre @ rx_frame f)) t
        = fold (\<lambda>(c, d, k). rx_command c d) fs t"
      by (intro Cons.IH) (use Cons.prems(2) str in \<open>simp_all add: f\<close>)
    moreover have "length (pre @ rx_frame f) = ?i + 5" by (simp add: f)
    ultimately show ?thesis by (simp only:)
  qed
  then show ?case by (simp add: step f)
qed

text \<open>C26. Received frames. Any number of frames that arrive together (at most 51, what the 8-bit
  length can count) are each handled once and in order, whatever their checksum bytes are:
  the last byte of a frame is never looked at.\<close>
theorem rx_frames_in_order:
  assumes "5 * length fs < 256"
  shows "uart_deal_with (concat (map rx_frame fs) @ post) (of_nat (5 * length fs)) s
    = fold (\<lambda>(c, d, k). rx_command c d) fs s"
proof -
  have "unat (of_nat (5 * length fs) :: u8) = 5 * length fs"
    unfolding unat_of_nat using assms by simp
  then show ?thesis
    using uart_scan_frames [of "concat (map rx_frame fs) @ post" "[]" fs post "5 * length fs" s]
    by (simp add: uart_deal_with_def del: of_nat_mult)
qed

theorem rx_frames_in_order_witness:
  "Bri_Status (uart_deal_with (concat (map rx_frame [(OnOffCMD, 1, 0), (0x20, 7, 9)]) @ []) 10 app_init) = 1"
  using rx_frames_in_order [of "[(OnOffCMD, 1, 0), (0x20, 7, 9)]" "[]" app_init]
  by (simp add: rx_command_def cmd_defs ack_def uart_send_def Set_Bri_Status_def Get_Bri_Status_def
      app_init_def rm.defs stop_power_save_def start_power_save_def)

end
