(* ===== verification/App_World.thy ===== *)
theory App_World
  imports App_Link
begin

text \<open>
  The link under interleaving, down to single accesses to the variables the tasks share. A call of
  \<open>send_bri_ctrl_info\<close> is cut at every statement that reads or writes the buffer or a flag, and so is
  the send task, whose copy of the buffer is cut at every byte; any number of calls and of send
  tasks are under way at once. Everything else that runs (interrupts, timers, the receive task, the
  cloud's callback, the dimmer's operations between their requests) reaches the link by requests
  and by whole frames of its own only: that is the contract \<open>link_client\<close>.
\<close>

subsection \<open>The contract\<close>

definition link_view :: "'a app_scheme \<Rightarrow> u8 list \<times> bool \<times> u8 list list" where
  "link_view s = (ucSendBuff s, ucSendTaskHandle_Flag s, sent s)"

text \<open>The frames that other parts than the send task write: the two answers to the dimmer.\<close>

definition own_frame :: "u8 list \<Rightarrow> bool" where
  "own_frame f \<longleftrightarrow> length f = 5 \<and> f ! 2 \<in> {UART_SEND_ALLOW, UART_ACCEPT_END} \<and> f = short_frame (f ! 2) (f ! 3)"

lemma own_short: "c \<in> {UART_SEND_ALLOW, UART_ACCEPT_END} \<Longrightarrow> own_frame (short_frame c d)"
  by (auto simp: own_frame_def short_frame_def)

lemma own_frame_ok: "own_frame f \<Longrightarrow> frame_ok f"
  by (metis own_frame_def short_frame_ok)

text \<open>Code that does not make a request: it may write such frames and change all the rest.\<close>

definition link_quiet :: "'a app_scheme \<Rightarrow> 'a app_scheme \<Rightarrow> bool" where
  "link_quiet s t \<longleftrightarrow> ucSendBuff t = ucSendBuff s \<and> ucSendTaskHandle_Flag t = ucSendTaskHandle_Flag s
     \<and> take (length (sent s)) (sent t) = sent s \<and> (\<forall>f \<in> set (drop (length (sent s)) (sent t)). own_frame f)"

text \<open>A piece of code as far as the link is concerned: quiet stretches and requests in any order.\<close>

inductive link_path :: "'a app_scheme \<Rightarrow> 'a app_scheme \<Rightarrow> bool" for s where
  path_refl: "link_path s s"
| path_quiet: "link_path s t \<Longrightarrow> link_quiet t u \<Longrightarrow> link_path s u"
| path_request [simp]: "link_path s t \<Longrightarrow> link_path s (send_bri_ctrl_info c d t)"

lemma link_quiet_view: "link_view t = link_view s \<Longrightarrow> link_quiet s t"
  by (simp add: link_view_def link_quiet_def)

lemma link_path_view: "link_view u = link_view t \<Longrightarrow> link_path s u \<longleftrightarrow> link_path s t"
  using path_quiet link_quiet_view by (metis (no_types))

lemma link_quiet_sends:
  assumes "ucSendBuff t = ucSendBuff s" "ucSendTaskHandle_Flag t = ucSendTaskHandle_Flag s"
    "sent t = sent s @ fs" "\<forall>f \<in> set fs. own_frame f"
  shows "link_quiet s t"
  using assms by (simp add: link_quiet_def)

lemma link_quietD:
  assumes "link_quiet s t"
  shows "ucSendBuff t = ucSendBuff s" "ucSendTaskHandle_Flag t = ucSendTaskHandle_Flag s"
    "\<exists>fs. sent t = sent s @ fs \<and> (\<forall>f \<in> set fs. own_frame f)"
  using assms by (simp_all add: link_quiet_def) (metis append_take_drop_id)

subsection \<open>Parts that do not touch the link\<close>

lemma link_view_upd [simp]:
  "link_view (s\<lparr>Bri_Status := x\<rparr>) = link_view s" "link_view (s\<lparr>Bri_Now_Pct := y\<rparr>) = link_view s"
  "link_view (s\<lparr>Bri_Min_Pct := y\<rparr>) = link_view s" "link_view (s\<lparr>Bri_Max_Pct := y\<rparr>) = link_view s"
  "link_view (s\<lparr>ucRxTaskHandle_Flag := f\<rparr>) = link_view s"
  "link_view (s\<lparr>wakeup_io_intr_type := ty\<rparr>) = link_view s"
  by (simp_all add: link_view_def)

lemma link_view_emit [simp]:
  "frame_of e = None \<Longrightarrow> link_view (emit e s) = link_view s"
  "List.map_filter frame_of es = [] \<Longrightarrow> link_view (emits es s) = link_view s"
  "frame_of e = None \<Longrightarrow> link_view (snd (call e s)) = link_view s"
  by (simp_all add: link_view_def sent_emit sent_emits sent_call)

lemma link_view_power [simp]:
  "link_view (stop_power_save s) = link_view s" "link_view (start_power_save s) = link_view s"
proof -
  have "ucSendBuff (stop_power_save s) = ucSendBuff s" "ucSendBuff (start_power_save s) = ucSendBuff s"
    "ucSendTaskHandle_Flag (stop_power_save s) = ucSendTaskHandle_Flag s"
    "ucSendTaskHandle_Flag (start_power_save s) = ucSendTaskHandle_Flag s"
    by (auto simp: stop_power_save_def start_power_save_def error_check_def case_prod_beta Let_def)
  then show "link_view (stop_power_save s) = link_view s" "link_view (start_power_save s) = link_view s"
    by (simp_all add: link_view_def)
qed

lemma link_view_timers [simp]:
  "link_view (timer_once t n s) = link_view s" "link_view (timer_stop t s) = link_view s"
  "link_view (vTaskDelay n s) = link_view s" "link_view (stop_button_check s) = link_view s"
  by (simp_all add: timer_once_def timer_stop_def vTaskDelay_def stop_button_check_def)

lemma link_view_report [simp]:
  "link_view (snd (esp_rmaker_param_update_and_report p v s)) = link_view s"
  by (simp add: link_view_def sent_cong [OF update_and_report_local(3)] report_app)

lemma link_view_update [simp]: "link_view (esp_rmaker_update c d s) = link_view s"
  by (simp add: esp_rmaker_update_def)

lemma app_alloc [simp]:
  "ucSendBuff (snd (alloc s)) = ucSendBuff s"
  "ucSendTaskHandle_Flag (snd (alloc s)) = ucSendTaskHandle_Flag s"
  "sent (snd (alloc s)) = sent s"
  by (simp_all add: alloc_def sent_def split: list.split)

lemma link_view_alloc [simp]: "link_view (snd (alloc s)) = link_view s"
  by (simp add: link_view_def)

lemma link_view_lib_upd [simp]:
  "link_view (s\<lparr>reboot_timer := x\<rparr>) = link_view s" "link_view (s\<lparr>reset_timer := y\<rparr>) = link_view s"
  by (simp_all add: link_view_def sent_def)

lemma link_view_reset [simp]: "link_view (snd (esp_rmaker_factory_reset 0 n s)) = link_view s"
proof -
  have r: "link_view (snd (esp_rmaker_reboot n s)) = link_view s" for s :: "'a app_scheme"
    by (simp add: esp_rmaker_reboot_def Let_def case_prod_beta)
  show ?thesis
    by (simp add: esp_rmaker_factory_reset_def esp_rmaker_factory_reset_now_def r Let_def case_prod_beta)
qed

lemmas path_frames [simp] = link_view_upd [THEN link_path_view] link_view_emit [THEN link_path_view]
  link_view_power [THEN link_path_view] link_view_timers [THEN link_path_view]
  link_view_report [THEN link_path_view] link_view_update [THEN link_path_view]
  link_view_reset [THEN link_path_view]

subsection \<open>Parts that use it\<close>

lemma path_send_frame: "link_path v s \<Longrightarrow> own_frame f \<Longrightarrow> link_path v (uart_send f s)"
  by (rule path_quiet, assumption, rule link_quiet_sends [where fs = "[f]"])
     (simp_all add: uart_send_def sent_emits List.map_filter_def)

lemma path_ack: "link_path v s \<Longrightarrow> link_path v (ack c s)"
  by (simp add: ack_def path_send_frame own_short)

lemma path_set_pct: "link_path v s \<Longrightarrow> link_path v (Set_Btight_Pct p s)"
  by (simp add: Set_Btight_Pct_def Let_def)

lemma path_lights:
  "link_path v s \<Longrightarrow> link_path v (Open_The_Lights s)" "link_path v s \<Longrightarrow> link_path v (Close_The_Lights s)"
  by (simp_all add: Open_The_Lights_def Close_The_Lights_def Let_def)

lemma path_bri_do: "link_path v s \<Longrightarrow> link_path v (bri_do op s)"
  by (cases op) (simp_all add: path_set_pct path_lights Set_Btight_Min_Pct_def
      Set_Btight_Max_Pct_def Bright_Sub_Short_Press_def Bright_Add_Short_Press_def
      Bright_Sub_Long_Press_def Bright_Add_Long_Press_def Toggle_The_Lights_def
      dimmer_rmaker_init_def Let_def)

lemma path_rx_command: "link_path v s \<Longrightarrow> link_path v (rx_command c d s)"
  by (simp add: rx_command_def path_ack path_set_pct Set_Bri_Status_def Let_def)

lemma path_uart_scan: "link_path v s \<Longrightarrow> link_path v (uart_scan str num i s)"
proof (induction str num i s rule: uart_scan.induct)
  case (1 str num i s)
  then show ?case
    by (subst uart_scan.simps) (simp add: path_rx_command)
qed

lemma path_uart_event: "link_path v s \<Longrightarrow> link_path v (uart_event_task ev s)"
  by (cases ev) (simp_all add: uart_event_task_def uart_deal_with_def path_uart_scan case_prod_beta
      List.map_filter_def Let_def)

lemma path_cloud: "link_path v s \<Longrightarrow> link_path v (snd (app_write_cb d p val src s))"
  by (simp add: app_write_cb_def path_lights path_set_pct case_prod_beta Let_def)

lemma path_isr:
  "link_path v s \<Longrightarrow> link_path v (wakeup_io_isr_handler s)"
  "link_path v s \<Longrightarrow> link_path v (wakeup_io_stop_power_timer_callback s)"
  "link_path v s \<Longrightarrow> link_path v (wakeup_io_start_power_timer_callback s)"
  by (simp_all add: wakeup_io_isr_handler_def wakeup_io_stop_power_timer_callback_def
      wakeup_io_start_power_timer_callback_def path_send_frame own_short Let_def)

lemma path_wifi_start: "link_path v s \<Longrightarrow> link_path v (wifi_start_init s)"
  by (simp add: wifi_start_init_def)

subsection \<open>A request, statement by statement\<close>

datatype req_pc =
  RCmd           \<comment> \<open>line 146: the command is stored\<close>
| RDat           \<comment> \<open>line 147: the argument is stored\<close>
| RSum nat u8    \<comment> \<open>line 148: so many bytes are summed up; after four the sum is stored\<close>
| RFlag          \<comment> \<open>line 149\<close>
| RTest          \<comment> \<open>line 165\<close>
| RCreate        \<comment> \<open>line 167; FreeRTOS sets \<open>ucSendTaskHandle\<close> before the new task can run\<close>
| RHandle        \<comment> \<open>line 171\<close>

text \<open>The next point (\<open>None\<close>: the call has returned), the state, and whether a task was created.\<close>

fun req_step :: "req_pc \<Rightarrow> cmd \<Rightarrow> u8 \<Rightarrow> 'a app_scheme \<Rightarrow> req_pc option \<times> 'a app_scheme \<times> bool" where
  "req_step RCmd c d s = (Some RDat, s\<lparr>ucSendBuff := (ucSendBuff s)[2 := c]\<rparr>, False)"
| "req_step RDat c d s = (Some (RSum 0 0), s\<lparr>ucSendBuff := (ucSendBuff s)[3 := d]\<rparr>, False)"
| "req_step (RSum i x) c d s =
     (if i < 4 then (Some (RSum (Suc i) (x + ucSendBuff s ! i)), s, False)
      else (Some RFlag, s\<lparr>ucSendBuff := (ucSendBuff s)[4 := x]\<rparr>, False))"
| "req_step RFlag c d s = (Some RTest, s\<lparr>ucSendFlag := True\<rparr>, False)"
| "req_step RTest c d s = (if \<not> ucSendTaskHandle_Flag s then Some RCreate else None, s, False)"
| "req_step RCreate c d s =
     (let (r, s) = call (Os (TaskCreate ''send_uart_info_task'' 4096 12)) s
      in if r \<noteq> pdTRUE then (None, s, False) else (Some RHandle, s, True))"
| "req_step RHandle c d s = (None, s\<lparr>ucSendTaskHandle_Flag := True\<rparr>, False)"

subsection \<open>The send task, access by access\<close>

datatype task_pc =
  Copying "u8 list"  \<comment> \<open>line 76, with the bytes copied so far\<close>
| At send_pc         \<comment> \<open>a point of \<open>send_step\<close> behind the copy\<close>
| Marking            \<comment> \<open>line 126, behind the test of line 124\<close>
| Deleting           \<comment> \<open>line 133\<close>

fun task_step :: "task_pc \<Rightarrow> 'a app_scheme \<Rightarrow> task_pc \<times> 'a app_scheme" where
  "task_step (Copying acc) s =
     (let acc = acc @ [ucSendBuff s ! length acc]
      in (if length acc = 5 then At (STake acc) else Copying acc, s))"
| "task_step (At SCopy) s = (Copying [], s)"
| "task_step (At SCheck) s = (if \<not> ucSendFlag s then Marking else Copying [], s)"
| "task_step Marking s = (At SExit, s\<lparr>ucSendBuff := (ucSendBuff s)[2 := ERRORCMD]\<rparr>)"
| "task_step (At SExit) s = (Deleting, s\<lparr>ucSendTaskHandle_Flag := False\<rparr>)"
| "task_step (At pc) s = (case send_step pc s of (None, s) \<Rightarrow> (Deleting, s) | (Some q, s) \<Rightarrow> (At q, s))"
| "task_step Deleting s = (Deleting, s)"

subsection \<open>The interleaving\<close>

text \<open>
  \<open>tasks\<close> are the send tasks in the order of their creation, \<open>None\<close> when deleted; \<open>ucSendTaskHandle\<close>
  names the last of them. \<open>reqs\<close> are the calls of \<open>send_bri_ctrl_info\<close> so far, \<open>None\<close> when returned.
\<close>

record link_world =
  app_of :: app
  tasks :: "task_pc option list"
  reqs :: "(cmd \<times> u8 \<times> req_pc option) list"

text \<open>
  Line 133 deletes the task that was created last. A task that is not the last would delete another one and
  then return from its function, which FreeRTOS ends with an abort: it takes no step here.
\<close>

definition run_task :: "nat \<Rightarrow> link_world \<Rightarrow> link_world" where
  "run_task i w =
     (if i < length (tasks w) then
        (case tasks w ! i of
           None \<Rightarrow> w
         | Some Deleting \<Rightarrow>
             if Suc i = length (tasks w)
             then w\<lparr>tasks := (tasks w)[i := None],
                    app_of := emit (Os (TaskDelete ''send_uart_info_task'')) (app_of w)\<rparr>
             else w
         | Some p \<Rightarrow> let (q, s) = task_step p (app_of w) in w\<lparr>tasks := (tasks w)[i := Some q], app_of := s\<rparr>)
      else w)"

definition run_req :: "nat \<Rightarrow> link_world \<Rightarrow> link_world" where
  "run_req j w =
     (if j < length (reqs w) then
        (case reqs w ! j of
           (c, d, None) \<Rightarrow> w
         | (c, d, Some r) \<Rightarrow>
             let (q, s, new) = req_step r c d (app_of w)
             in w\<lparr>reqs := (reqs w)[j := (c, d, q)], app_of := s,
                  tasks := tasks w @ (if new then [Some (Copying [])] else [])\<rparr>)
      else w)"

definition new_req :: "cmd \<Rightarrow> u8 \<Rightarrow> link_world \<Rightarrow> link_world" where
  "new_req c d w = w\<lparr>reqs := reqs w @ [(c, d, Some RCmd)]\<rparr>"

inductive link_step :: "link_world \<Rightarrow> link_world \<Rightarrow> bool" where
  step_task: "link_step w (run_task i w)"
| step_req: "link_step w (run_req j w)"
| step_new: "link_step w (new_req c d w)"
| step_other: "link_quiet (app_of w) t \<Longrightarrow> link_step w (w\<lparr>app_of := t\<rparr>)"

inductive_cases link_stepE: "link_step w w'"
inductive_simps link_step_simps: "link_step w (w\<lparr>app_of := t\<rparr>)"

definition world0 :: "int list \<Rightarrow> link_world" where
  "world0 answers = \<lparr>app_of = app_init\<lparr>inputs := answers\<rparr>, tasks = [], reqs = []\<rparr>"

text \<open>
  Where the frame can be damaged: two requests between their first store and the end of line 167,
  such a request and a task between two of its accesses to the buffer, or two tasks that still use it.
\<close>

fun writing :: "req_pc option \<Rightarrow> bool" where
  "writing None = False" | "writing (Some RCmd) = False" | "writing (Some RHandle) = False"
| "writing (Some _) = True"

fun live :: "task_pc option \<Rightarrow> bool" where
  "live None = False" | "live (Some (At SExit)) = False" | "live (Some Deleting) = False"
| "live (Some _) = True"

fun touching :: "task_pc option \<Rightarrow> bool" where
  "touching (Some (Copying _)) = True" | "touching (Some Marking) = True" | "touching _ = False"

definition req_at :: "link_world \<Rightarrow> nat \<Rightarrow> req_pc option" where
  "req_at w j = snd (snd (reqs w ! j))"

fun twice :: "('b \<Rightarrow> bool) \<Rightarrow> 'b list \<Rightarrow> bool" where
  "twice P [] = False"
| "twice P (x # xs) = (P x \<and> list_ex P xs \<or> twice P xs)"

definition clash :: "link_world \<Rightarrow> bool" where
  "clash w \<longleftrightarrow> twice writing (map (snd \<circ> snd) (reqs w)) \<or> twice live (tasks w)
     \<or> list_ex writing (map (snd \<circ> snd) (reqs w)) \<and> list_ex touching (tasks w)"

definition calm_step :: "link_world \<Rightarrow> link_world \<Rightarrow> bool" where
  "calm_step w w' \<longleftrightarrow> link_step w w' \<and> \<not> clash w'"

subsection \<open>Undisturbed runs\<close>

text \<open>A call that nothing disturbs is \<open>send_bri_ctrl_info\<close>.\<close>

lemma req_move:
  assumes "req_step r c d s = (q, s', new)"
  shows "link_step \<lparr>app_of = s, tasks = ts, reqs = rs @ [(c, d, Some r)]\<rparr>
    \<lparr>app_of = s', tasks = ts @ (if new then [Some (Copying [])] else []), reqs = rs @ [(c, d, q)]\<rparr>"
  using step_req [of "\<lparr>app_of = s, tasks = ts, reqs = rs @ [(c, d, Some r)]\<rparr>" "length rs"] assms
  by (simp add: run_req_def)

lemma req_end:
  "\<exists>us. link_step\<^sup>*\<^sup>* \<lparr>app_of = s, tasks = ts, reqs = rs @ [(c, d, Some RTest)]\<rparr>
     \<lparr>app_of = (if ucSendTaskHandle_Flag s then s
        else let (r, s) = call (Os (TaskCreate ''send_uart_info_task'' 4096 12)) s
             in if r \<noteq> pdTRUE then s else s\<lparr>ucSendTaskHandle_Flag := True\<rparr>),
      tasks = ts @ us, reqs = rs @ [(c, d, None)]\<rparr>"
proof (cases "ucSendTaskHandle_Flag s")
  case True
  then show ?thesis
    using req_move [of RTest c d s None s False ts rs] by (intro exI [of _ "[]"] r_into_rtranclp) simp
next
  case False
  obtain r t where call: "call (Os (TaskCreate ''send_uart_info_task'' 4096 12)) s = (r, t)" by fastforce
  have test: "link_step \<lparr>app_of = s, tasks = ts, reqs = rs @ [(c, d, Some RTest)]\<rparr>
      \<lparr>app_of = s, tasks = ts, reqs = rs @ [(c, d, Some RCreate)]\<rparr>"
    using req_move [of RTest c d s "Some RCreate" s False ts rs] False by simp
  show ?thesis
  proof (cases "r = pdTRUE")
    case False
    then have "link_step \<lparr>app_of = s, tasks = ts, reqs = rs @ [(c, d, Some RCreate)]\<rparr>
        \<lparr>app_of = t, tasks = ts, reqs = rs @ [(c, d, None)]\<rparr>"
      using req_move [of RCreate c d s None t False ts rs] call by simp
    then show ?thesis
      using test False \<open>\<not> ucSendTaskHandle_Flag s\<close> call
      by (intro exI [of _ "[]"]) (simp add: rtranclp.rtrancl_into_rtrancl [OF r_into_rtranclp])
  next
    case True
    then have "link_step \<lparr>app_of = s, tasks = ts, reqs = rs @ [(c, d, Some RCreate)]\<rparr>
        \<lparr>app_of = t, tasks = ts @ [Some (Copying [])], reqs = rs @ [(c, d, Some RHandle)]\<rparr>"
      using req_move [of RCreate c d s "Some RHandle" t True ts rs] call by simp
    moreover have "link_step \<lparr>app_of = t, tasks = ts @ [Some (Copying [])], reqs = rs @ [(c, d, Some RHandle)]\<rparr>
        \<lparr>app_of = t\<lparr>ucSendTaskHandle_Flag := True\<rparr>, tasks = ts @ [Some (Copying [])], reqs = rs @ [(c, d, None)]\<rparr>"
      using req_move [of RHandle c d t None "t\<lparr>ucSendTaskHandle_Flag := True\<rparr>" False] by simp
    ultimately have "link_step\<^sup>*\<^sup>* \<lparr>app_of = s, tasks = ts, reqs = rs @ [(c, d, Some RTest)]\<rparr>
        \<lparr>app_of = t\<lparr>ucSendTaskHandle_Flag := True\<rparr>, tasks = ts @ [Some (Copying [])], reqs = rs @ [(c, d, None)]\<rparr>"
      using test by (meson converse_rtranclp_into_rtranclp r_into_rtranclp)
    then show ?thesis
      using True \<open>\<not> ucSendTaskHandle_Flag s\<close> call by (intro exI [of _ "[Some (Copying [])]"]) simp
  qed
qed

lemma req_stores:
  "link_step\<^sup>*\<^sup>* \<lparr>app_of = s, tasks = ts, reqs = rs @ [(c, d, Some RCmd)]\<rparr>
     \<lparr>app_of = s\<lparr>ucSendBuff := put_frame c d (ucSendBuff s), ucSendFlag := True\<rparr>, tasks = ts,
      reqs = rs @ [(c, d, Some RTest)]\<rparr>"
proof -
  let ?w = "\<lambda>b r. \<lparr>app_of = s\<lparr>ucSendBuff := b\<rparr>, tasks = ts, reqs = rs @ [(c, d, Some r)]\<rparr>"
  let ?b = "(ucSendBuff s)[2 := c, 3 := d]"
  have sum: "link_step (?w ?b (RSum i x)) (?w ?b (RSum (Suc i) (x + ?b ! i)))" if "i < 4" for i x
    using req_move [of "RSum i x" c d "s\<lparr>ucSendBuff := ?b\<rparr>" _ _ False ts rs] that by simp
  have "link_step (?w ?b (RSum 0 0)) (?w ?b (RSum 1 (?b ! 0)))"
    "link_step (?w ?b (RSum 1 (?b ! 0))) (?w ?b (RSum 2 (?b ! 0 + ?b ! 1)))"
    "link_step (?w ?b (RSum 2 (?b ! 0 + ?b ! 1))) (?w ?b (RSum 3 (?b ! 0 + ?b ! 1 + ?b ! 2)))"
    "link_step (?w ?b (RSum 3 (?b ! 0 + ?b ! 1 + ?b ! 2))) (?w ?b (RSum 4 (?b ! 0 + ?b ! 1 + ?b ! 2 + ?b ! 3)))"
    using sum [of 0 0] sum [of 1 "?b ! 0"] sum [of 2 "?b ! 0 + ?b ! 1"] sum [of 3 "?b ! 0 + ?b ! 1 + ?b ! 2"]
    by (simp_all add: eval_nat_numeral)
  then have "link_step\<^sup>*\<^sup>* (?w ?b (RSum 0 0)) (?w ?b (RSum 4 (?b ! 0 + ?b ! 1 + ?b ! 2 + ?b ! 3)))"
    by (meson converse_rtranclp_into_rtranclp r_into_rtranclp)
  moreover have "link_step (?w (ucSendBuff s) RCmd) (?w ((ucSendBuff s)[2 := c]) RDat)"
    using req_move [of RCmd c d s _ _ False ts rs] by simp
  moreover have "link_step (?w ((ucSendBuff s)[2 := c]) RDat) (?w ?b (RSum 0 0))"
    using req_move [of RDat c d "s\<lparr>ucSendBuff := (ucSendBuff s)[2 := c]\<rparr>" _ _ False ts rs] by simp
  moreover have "link_step (?w ?b (RSum 4 (?b ! 0 + ?b ! 1 + ?b ! 2 + ?b ! 3)))
      (?w (put_frame c d (ucSendBuff s)) RFlag)"
    using req_move [of "RSum 4 x" c d "s\<lparr>ucSendBuff := ?b\<rparr>" _ _ False ts rs for x]
    by (simp add: put_frame_def Let_def)
  moreover have "link_step (?w (put_frame c d (ucSendBuff s)) RFlag)
      \<lparr>app_of = s\<lparr>ucSendBuff := put_frame c d (ucSendBuff s), ucSendFlag := True\<rparr>, tasks = ts,
        reqs = rs @ [(c, d, Some RTest)]\<rparr>"
    using req_move [of RFlag c d "s\<lparr>ucSendBuff := put_frame c d (ucSendBuff s)\<rparr>" _ _ False ts rs] by simp
  ultimately have "link_step\<^sup>*\<^sup>* (?w (ucSendBuff s) RCmd)
      \<lparr>app_of = s\<lparr>ucSendBuff := put_frame c d (ucSendBuff s), ucSendFlag := True\<rparr>, tasks = ts,
        reqs = rs @ [(c, d, Some RTest)]\<rparr>"
    by (meson converse_rtranclp_into_rtranclp r_into_rtranclp rtranclp_trans)
  then show ?thesis by simp
qed

lemma request_uncut:
  "\<exists>us. link_step\<^sup>*\<^sup>* w \<lparr>app_of = send_bri_ctrl_info c d (app_of w), tasks = tasks w @ us,
     reqs = reqs w @ [(c, d, None)]\<rparr>"
proof -
  have "link_step w \<lparr>app_of = app_of w, tasks = tasks w, reqs = reqs w @ [(c, d, Some RCmd)]\<rparr>"
  proof -
    have "new_req c d w = \<lparr>app_of = app_of w, tasks = tasks w, reqs = reqs w @ [(c, d, Some RCmd)]\<rparr>"
      by (simp add: new_req_def)
    then show ?thesis using step_new [of w c d] by (simp only:)
  qed
  note converse_rtranclp_into_rtranclp [OF this req_stores]
  moreover obtain us where "link_step\<^sup>*\<^sup>* \<lparr>app_of = (app_of w)\<lparr>ucSendBuff := put_frame c d (ucSendBuff (app_of w)),
        ucSendFlag := True\<rparr>, tasks = tasks w, reqs = reqs w @ [(c, d, Some RTest)]\<rparr>
      \<lparr>app_of = send_bri_ctrl_info c d (app_of w), tasks = tasks w @ us, reqs = reqs w @ [(c, d, None)]\<rparr>"
    using req_end [of "(app_of w)\<lparr>ucSendBuff := put_frame c d (ucSendBuff (app_of w)), ucSendFlag := True\<rparr>"
        "tasks w" "reqs w" c d] by (auto simp: send_bri_ctrl_info_def Let_def)
  ultimately show ?thesis by (meson rtranclp_trans)
qed

text \<open>A send task that nothing disturbs takes the steps of \<open>send_step\<close>.\<close>

fun task_run :: "nat \<Rightarrow> task_pc \<times> 'a app_scheme \<Rightarrow> task_pc \<times> 'a app_scheme" where
  "task_run 0 x = x"
| "task_run (Suc n) (p, s) = task_run n (task_step p s)"

lemma task_uncut:
  "length (ucSendBuff s) = 5 \<Longrightarrow> task_run 5 (Copying [], s) = (At (STake (ucSendBuff s)), s)"
  "task_run (if ucSendFlag s then 1 else 2) (At SCheck, s)
     = (case send_step SCheck s of (pc, t) \<Rightarrow> (if pc = Some SCopy then Copying [] else At SExit, t))"
  "pc \<noteq> SCopy \<Longrightarrow> pc \<noteq> SCheck \<Longrightarrow> pc \<noteq> SExit \<Longrightarrow> send_step pc s = (Some q, t) \<Longrightarrow> task_step (At pc) s = (At q, t)"
proof -
  assume l: "length (ucSendBuff s) = 5"
  have "[ucSendBuff s ! 0, ucSendBuff s ! 1, ucSendBuff s ! 2, ucSendBuff s ! 3, ucSendBuff s ! 4] = ucSendBuff s"
    using l by (intro nth_equalityI) (auto simp: less_Suc_eq numeral_eq_Suc)
  then show "task_run 5 (Copying [], s) = (At (STake (ucSendBuff s)), s)"
    using l by (simp add: eval_nat_numeral Let_def)
qed (cases pc; auto simp: numeral_2_eq_2)+

subsection \<open>The interface\<close>

locale link_client =
  fixes step :: "app \<Rightarrow> app"
  assumes contract: "link_path s (step s)"
begin

text \<open>The part runs in the world, also without a disturbance.\<close>

lemma runs: "\<exists>us rs. link_step\<^sup>*\<^sup>* w \<lparr>app_of = step (app_of w), tasks = tasks w @ us, reqs = reqs w @ rs\<rparr>"
proof -
  have "\<exists>us rs. link_step\<^sup>*\<^sup>* w \<lparr>app_of = t, tasks = tasks w @ us, reqs = reqs w @ rs\<rparr>"
    if "link_path (app_of w) t" for t
    using that
  proof (induction rule: link_path.induct)
    case path_refl
    have "w = \<lparr>app_of = app_of w, tasks = tasks w @ [], reqs = reqs w @ []\<rparr>" by simp
    then show ?case by (metis rtranclp.rtrancl_refl)
  next
    case (path_quiet t u)
    then obtain us rs where r: "link_step\<^sup>*\<^sup>* w \<lparr>app_of = t, tasks = tasks w @ us, reqs = reqs w @ rs\<rparr>" by blast
    have "link_step \<lparr>app_of = t, tasks = tasks w @ us, reqs = reqs w @ rs\<rparr>
        \<lparr>app_of = u, tasks = tasks w @ us, reqs = reqs w @ rs\<rparr>"
      using step_other [of "\<lparr>app_of = t, tasks = tasks w @ us, reqs = reqs w @ rs\<rparr>" u] path_quiet by simp
    then show ?case using r by (meson rtranclp.rtrancl_into_rtrancl)
  next
    case (path_request t c d)
    then obtain us rs where r: "link_step\<^sup>*\<^sup>* w \<lparr>app_of = t, tasks = tasks w @ us, reqs = reqs w @ rs\<rparr>" by blast
    obtain us' where "link_step\<^sup>*\<^sup>* \<lparr>app_of = t, tasks = tasks w @ us, reqs = reqs w @ rs\<rparr>
        \<lparr>app_of = send_bri_ctrl_info c d t, tasks = tasks w @ us @ us', reqs = reqs w @ rs @ [(c, d, None)]\<rparr>"
      using request_uncut [of "\<lparr>app_of = t, tasks = tasks w @ us, reqs = reqs w @ rs\<rparr>" c d] by auto
    then show ?case using r by (meson rtranclp_trans)
  qed
  then show ?thesis using contract by blast
qed

end

text \<open>The parts of the program that share the link keep the contract.\<close>

interpretation request: link_client "send_bri_ctrl_info c d" for c d
  by unfold_locales (simp add: path_refl)

interpretation dimmer: link_client "bri_do op" for op
  by unfold_locales (rule path_bri_do [OF path_refl])

interpretation interrupt: link_client wakeup_io_isr_handler
  by unfold_locales (rule path_isr(1) [OF path_refl])

interpretation stop_timer: link_client wakeup_io_stop_power_timer_callback
  by unfold_locales (rule path_isr(2) [OF path_refl])

interpretation start_timer: link_client wakeup_io_start_power_timer_callback
  by unfold_locales (rule path_isr(3) [OF path_refl])

interpretation receiver: link_client "uart_event_task ev" for ev
  by unfold_locales (rule path_uart_event [OF path_refl])

interpretation cloud: link_client "\<lambda>s. snd (app_write_cb d p val src s)" for d p val src
  by unfold_locales (rule path_cloud [OF path_refl])

interpretation wifi_start: link_client wifi_start_init
  by unfold_locales (rule path_wifi_start [OF path_refl])

subsection \<open>What the steps change\<close>

lemma send_step_view:
  "link_view (esp_rmaker_update c d s) = link_view s"
  "link_view (wakeup_mcu_info (wakeup_mcu_info_config s)) = link_view s"
  "link_view (snd (wait_for_mcu_info_config n s)) = link_view s"
  by (simp_all add: wakeup_mcu_info_def wakeup_mcu_info_config_def wait_for_mcu_info_config_def
      gpio_write_def List.map_filter_def Let_def)

lemma link_viewD:
  assumes "link_view t = link_view s"
  shows "ucSendBuff t = ucSendBuff s" "ucSendTaskHandle_Flag t = ucSendTaskHandle_Flag s"
    "sent t = sent s"
  using assms by (simp_all add: link_view_def)

lemma link_view_flag [simp]: "link_view (s\<lparr>ucSendFlag := f\<rparr>) = link_view s"
  by (simp add: link_view_def)

fun pc_buf :: "send_pc \<Rightarrow> u8 list option" where
  "pc_buf (STake b) = Some b" | "pc_buf (SRxWait b) = Some b" | "pc_buf (SWrite b) = Some b"
| "pc_buf (SDrain b) = Some b" | "pc_buf (SReport b) = Some b" | "pc_buf _ = None"

fun written :: "task_pc \<Rightarrow> u8 list list" where
  "written (At (SWrite b)) = [b]" | "written _ = []"

text \<open>A step behind the copy keeps the buffer, and the copy it has.\<close>

lemma task_at_step:
  assumes "task_step (At pc) s = (q, t)"
  shows "ucSendBuff t = ucSendBuff s \<and> sent t = sent s @ written (At pc)
    \<and> (q = Copying [] \<or> q = Marking \<or> q = Deleting
       \<or> (\<exists>pc'. q = At pc' \<and> (\<forall>b. pc_buf pc' = Some b \<longrightarrow> pc_buf pc = Some b)))
    \<and> (live (Some q) \<longrightarrow> live (Some (At pc)))"
proof (cases pc)
  case (SWrite b)
  define u where "u = stop_power_save
    (if wakes_mcu (b ! 2) then wakeup_mcu_info (wakeup_mcu_info_config s) else s)"
  have u: "link_view u = link_view s" by (simp add: u_def send_step_view)
  have t: "q = At (SDrain b)" "t = emit (Uart (UartWrite b)) u"
    using assms SWrite by (auto simp: Let_def u_def)
  then show ?thesis using SWrite link_viewD [OF u] by (simp add: sent_emit)
next
  case (SReport b)
  then have "link_view t = link_view s" "q = At SClear"
    using assms by (auto simp: send_step_view Let_def)
  then show ?thesis using SReport link_viewD [of t s] by simp
next
  case (SDrain b)
  then have "link_view t = link_view s" "q = At (SReport b)"
    using assms by auto
  then show ?thesis using SDrain link_viewD [of t s] by simp
next
  case SClear
  then have "link_view t = link_view s" "q = At SCheck"
    using assms by auto
  then show ?thesis using SClear link_viewD [of t s] by simp
qed (use assms in \<open>auto simp: Let_def vTaskDelay_def sent_emit split: if_splits\<close>)

lemma run_task_cases:
  obtains (same) "run_task i w = w"
  | (move) p q s where "i < length (tasks w)" "tasks w ! i = Some p" "p \<noteq> Deleting"
      "task_step p (app_of w) = (q, s)" "run_task i w = w\<lparr>tasks := (tasks w)[i := Some q], app_of := s\<rparr>"
  | (gone) "i < length (tasks w)" "run_task i w
      = w\<lparr>tasks := (tasks w)[i := None], app_of := emit (Os (TaskDelete ''send_uart_info_task'')) (app_of w)\<rparr>"
proof (cases "i < length (tasks w)")
  case True
  show thesis
  proof (cases "tasks w ! i")
    case None
    then show thesis using True same by (simp add: run_task_def)
  next
    case (Some p)
    show thesis
    proof (cases "p = Deleting")
      case d: True
      then show thesis
        using True Some same gone by (cases "Suc i = length (tasks w)") (simp_all add: run_task_def)
    next
      case False
      obtain q s where "task_step p (app_of w) = (q, s)" by fastforce
      then show thesis
        using True Some False move [of p q s] by (cases p) (simp_all add: run_task_def)
    qed
  qed
qed (use same in \<open>simp add: run_task_def\<close>)

lemma run_req_cases:
  obtains (same) "run_req j w = w"
  | (move) c d r q s new where "j < length (reqs w)" "reqs w ! j = (c, d, Some r)"
      "req_step r c d (app_of w) = (q, s, new)"
      "run_req j w = w\<lparr>reqs := (reqs w)[j := (c, d, q)], app_of := s,
         tasks := tasks w @ (if new then [Some (Copying [])] else [])\<rparr>"
proof (cases "j < length (reqs w)")
  case True
  obtain c d r where r: "reqs w ! j = (c, d, r)" by (metis prod_cases3)
  show thesis
  proof (cases r)
    case None
    then show thesis using True r same by (simp add: run_req_def)
  next
    case (Some x)
    obtain q s new where "req_step x c d (app_of w) = (q, s, new)" by (metis prod_cases3)
    then show thesis using True r Some move [of c d x q s new] by (simp add: run_req_def)
  qed
qed (use same in \<open>simp add: run_req_def\<close>)

subsection \<open>Heads, commands and arguments\<close>

definition cmds_of :: "link_world \<Rightarrow> cmd set" where
  \<comment> \<open>the commands that were requested, and the one that the task puts in the buffer\<close>
  "cmds_of w = insert ERRORCMD (set (map fst (reqs w)))"

definition args_of :: "link_world \<Rightarrow> u8 set" where
  "args_of w = set (map (fst \<circ> snd) (reqs w))"

definition bytes_ok :: "cmd set \<Rightarrow> u8 set \<Rightarrow> u8 list \<Rightarrow> bool" where
  "bytes_ok C A b \<longleftrightarrow> (0 < length b \<longrightarrow> b ! 0 = SendHead1) \<and> (1 < length b \<longrightarrow> b ! 1 = SendHead2)
     \<and> (2 < length b \<longrightarrow> b ! 2 \<in> C) \<and> (3 < length b \<longrightarrow> b ! 3 \<in> A)"

fun stage :: "req_pc option \<Rightarrow> nat" where
  "stage (Some RCmd) = 0" | "stage (Some RDat) = 1" | "stage _ = 2"

definition reached :: "link_world \<Rightarrow> nat \<Rightarrow> bool" where
  \<comment> \<open>some call has stored its command (1), its argument (2)\<close>
  "reached w k \<longleftrightarrow> (\<exists>j < length (reqs w). k \<le> stage (req_at w j))"

fun task_ok :: "cmd set \<Rightarrow> u8 set \<Rightarrow> task_pc option \<Rightarrow> bool" where
  "task_ok C A (Some (Copying acc)) \<longleftrightarrow> length acc < 5 \<and> bytes_ok C A acc"
| "task_ok C A (Some (At pc)) \<longleftrightarrow> (\<forall>b. pc_buf pc = Some b \<longrightarrow> length b = 5 \<and> bytes_ok C A b)"
| "task_ok C A _ \<longleftrightarrow> True"

definition frames_ok :: "cmd set \<Rightarrow> u8 set \<Rightarrow> u8 list list \<Rightarrow> bool" where
  "frames_ok C A fs \<longleftrightarrow> (\<forall>f \<in> set fs. own_frame f \<or> length f = 5 \<and> bytes_ok C A f)"

definition wire_inv :: "link_world \<Rightarrow> bool" where
  "wire_inv w \<longleftrightarrow> head_ok (ucSendBuff (app_of w))
     \<and> (reached w 1 \<longrightarrow> ucSendBuff (app_of w) ! 2 \<in> cmds_of w)
     \<and> (reached w 2 \<longrightarrow> ucSendBuff (app_of w) ! 3 \<in> args_of w)
     \<and> (tasks w \<noteq> [] \<longrightarrow> reached w 2)
     \<and> list_all (task_ok (cmds_of w) (args_of w)) (tasks w)
     \<and> frames_ok (cmds_of w) (args_of w) (sent (app_of w))"

lemma wire_invI:
  assumes "head_ok (ucSendBuff s)" "reached \<lparr>app_of = s, tasks = ts, reqs = rs\<rparr> 1 \<Longrightarrow> ucSendBuff s ! 2 \<in> C"
    "reached \<lparr>app_of = s, tasks = ts, reqs = rs\<rparr> 2 \<Longrightarrow> ucSendBuff s ! 3 \<in> A"
    "ts \<noteq> [] \<Longrightarrow> reached \<lparr>app_of = s, tasks = ts, reqs = rs\<rparr> 2" "list_all (task_ok C A) ts" "frames_ok C A (sent s)"
    "C = insert ERRORCMD (set (map fst rs))" "A = set (map (fst \<circ> snd) rs)"
  shows "wire_inv \<lparr>app_of = s, tasks = ts, reqs = rs\<rparr>"
  using assms by (simp add: wire_inv_def cmds_of_def args_of_def)

lemma wire_invD:
  assumes "wire_inv w"
  shows "head_ok (ucSendBuff (app_of w))" "reached w 1 \<Longrightarrow> ucSendBuff (app_of w) ! 2 \<in> cmds_of w"
    "reached w 2 \<Longrightarrow> ucSendBuff (app_of w) ! 3 \<in> args_of w" "tasks w \<noteq> [] \<Longrightarrow> reached w 2"
    "list_all (task_ok (cmds_of w) (args_of w)) (tasks w)" "frames_ok (cmds_of w) (args_of w) (sent (app_of w))"
  using assms by (simp_all add: wire_inv_def)

lemma bytes_ok_mono: "bytes_ok C A b \<Longrightarrow> C \<subseteq> C' \<Longrightarrow> A \<subseteq> A' \<Longrightarrow> bytes_ok C' A' b"
  by (auto simp: bytes_ok_def)

lemma task_ok_mono: "task_ok C A p \<Longrightarrow> C \<subseteq> C' \<Longrightarrow> A \<subseteq> A' \<Longrightarrow> task_ok C' A' p"
  by (cases "(C, A, p)" rule: task_ok.cases) (auto intro: bytes_ok_mono)

lemma frames_ok_mono: "frames_ok C A fs \<Longrightarrow> C \<subseteq> C' \<Longrightarrow> A \<subseteq> A' \<Longrightarrow> frames_ok C' A' fs"
  using bytes_ok_mono by (auto simp: frames_ok_def)

lemma frames_ok_append: "frames_ok C A (fs @ gs) \<longleftrightarrow> frames_ok C A fs \<and> frames_ok C A gs"
  by (auto simp: frames_ok_def)

lemma list_all_update: "list_all P xs \<Longrightarrow> P y \<Longrightarrow> list_all P (xs[i := y])"
  by (auto simp: list_all_iff dest: set_update_subset_insert [THEN subsetD])

lemma reached_mono: "reached w 2 \<Longrightarrow> reached w 1"
  by (auto simp: reached_def)

lemma reached_reqs: "reqs w' = reqs w \<Longrightarrow> reached w' k = reached w k"
  by (simp add: reached_def req_at_def)

text \<open>When only a task or the rest of the program moves.\<close>

lemma wire_inv_keep:
  assumes "wire_inv w" "ucSendBuff s = ucSendBuff (app_of w)" "sent s = sent (app_of w) @ fs"
    "frames_ok (cmds_of w) (args_of w) fs" "list_all (task_ok (cmds_of w) (args_of w)) ts"
    "ts = [] \<longleftrightarrow> tasks w = []"
  shows "wire_inv \<lparr>app_of = s, tasks = ts, reqs = reqs w\<rparr>"
  using assms wire_invD [OF assms(1)]
  by (intro wire_invI [where C = "cmds_of w" and A = "args_of w"])
     (simp_all add: reached_reqs [of "\<lparr>app_of = s, tasks = ts, reqs = reqs w\<rparr>" w] frames_ok_append cmds_of_def args_of_def)

lemma world_eta: "w = \<lparr>app_of = app_of w, tasks = tasks w, reqs = reqs w\<rparr>"
  by simp

lemma wire_inv_quiet:
  assumes "wire_inv w" "link_quiet (app_of w) t"
  shows "wire_inv (w\<lparr>app_of := t\<rparr>)"
proof -
  obtain fs where "sent t = sent (app_of w) @ fs" "\<forall>f \<in> set fs. own_frame f" using link_quietD(3) [OF assms(2)] by blast
  then have "wire_inv \<lparr>app_of = t, tasks = tasks w, reqs = reqs w\<rparr>"
    using assms(1) wire_invD(5) [OF assms(1)] link_quietD(1) [OF assms(2)]
    by (intro wire_inv_keep [where fs = fs]) (auto simp: frames_ok_def)
  moreover have "w\<lparr>app_of := t\<rparr> = \<lparr>app_of = t, tasks = tasks w, reqs = reqs w\<rparr>" by simp
  ultimately show ?thesis by (simp only:)
qed

lemma wire_inv_new:
  assumes "wire_inv w"
  shows "wire_inv (new_req c d w)"
proof -
  let ?rs = "reqs w @ [(c, d, Some RCmd)]"
  let ?w = "\<lparr>app_of = app_of w, tasks = tasks w, reqs = ?rs\<rparr>"
  have m: "cmds_of w \<subseteq> cmds_of ?w" "args_of w \<subseteq> args_of ?w" by (auto simp: cmds_of_def args_of_def)
  have r: "reached ?w k \<longleftrightarrow> reached w k" if "0 < k" for k
    using that by (auto simp: reached_def req_at_def nth_append less_Suc_eq)
  note D = wire_invD [OF assms]
  have "list_all (task_ok (cmds_of ?w) (args_of ?w)) (tasks w)"
    using D(5) task_ok_mono [OF _ m] by (auto simp: list_all_iff)
  then have "wire_inv ?w"
    using D m frames_ok_mono [OF D(6) m] r [of 1] r [of 2] by (auto simp: wire_inv_def)
  moreover have "new_req c d w = ?w" by (simp add: new_req_def)
  ultimately show ?thesis by (simp only:)
qed

lemma bytes_ok_snoc:
  assumes "bytes_ok C A acc" "bytes_ok C A b" "length b = 5" "length acc < 5"
  shows "bytes_ok C A (acc @ [b ! length acc])"
proof -
  consider "length acc = 0" | "length acc = 1" | "length acc = 2" | "length acc = 3" | "length acc = 4"
    using assms(4) by linarith
  then show ?thesis
    using assms(1-3) by cases (auto simp: bytes_ok_def nth_append)
qed

lemma wire_inv_task:
  assumes "wire_inv w"
  shows "wire_inv (run_task i w)"
proof (cases rule: run_task_cases [of i w])
  case same
  then show ?thesis using assms by simp
next
  case gone
  have "list_all (task_ok (cmds_of w) (args_of w)) ((tasks w)[i := None])"
    using wire_invD(5) [OF assms] by (simp add: list_all_update)
  then have "wire_inv \<lparr>app_of = emit (Os (TaskDelete ''send_uart_info_task'')) (app_of w), tasks = (tasks w)[i := None], reqs = reqs w\<rparr>"
    using assms by (intro wire_inv_keep [where fs = "[]"]) (simp_all add: sent_emit frames_ok_def)
  moreover have "run_task i w = \<lparr>app_of = emit (Os (TaskDelete ''send_uart_info_task'')) (app_of w),
      tasks = (tasks w)[i := None], reqs = reqs w\<rparr>" by (simp add: gone(2))
  ultimately show ?thesis by (simp only:)
next
  case (move p q s)
  let ?C = "cmds_of w" and ?A = "args_of w" and ?b = "ucSendBuff (app_of w)"
  note D = wire_invD [OF assms]
  have ne: "tasks w \<noteq> []" using move(1) by auto
  have rd: "reached w 2" "reached w 1" using D(4) ne reached_mono by auto
  have p: "task_ok ?C ?A (Some p)" using D(5) move(1,2) by (metis list_all_length)
  have w': "run_task i w = \<lparr>app_of = s, tasks = (tasks w)[i := Some q], reqs = reqs w\<rparr>" by (simp add: move(5))
  have keep: "wire_inv (run_task i w)"
    if q: "task_ok ?C ?A (Some q)" and s: "ucSendBuff s = ?b" "sent s = sent (app_of w) @ written p"
  proof -
    have "frames_ok ?C ?A (written p)" using p by (cases p rule: written.cases) (auto simp: frames_ok_def)
    then show ?thesis
      unfolding w' using assms s q D(5) by (intro wire_inv_keep [where fs = "written p"]) (simp_all add: list_all_update)
  qed
  show ?thesis
  proof (cases p)
    case (Copying acc)
    have b: "bytes_ok ?C ?A ?b" "length ?b = 5" using D(1-3) rd by (simp_all add: bytes_ok_def head_ok_def)
    have a: "bytes_ok ?C ?A acc" "length acc < 5" using p Copying by simp_all
    have "bytes_ok ?C ?A (acc @ [?b ! length acc])" by (rule bytes_ok_snoc [OF a(1) b a(2)])
    then show ?thesis
      using move(4) a(2) Copying by (intro keep) (auto simp: Let_def split: if_splits)
  next
    case (At pc)
    then have st: "ucSendBuff s = ?b" "sent s = sent (app_of w) @ written p"
      "q = Copying [] \<or> q = Marking \<or> q = Deleting
       \<or> (\<exists>pc'. q = At pc' \<and> (\<forall>b. pc_buf pc' = Some b \<longrightarrow> pc_buf pc = Some b))"
      using task_at_step [of pc "app_of w" q s] move(4) by simp_all
    have "task_ok ?C ?A (Some q)" using st(3) p At by (auto simp: bytes_ok_def)
    then show ?thesis using st(1,2) by (intro keep)
  next
    case Marking
    then have q: "q = At SExit" "s = (app_of w)\<lparr>ucSendBuff := ?b[2 := ERRORCMD]\<rparr>" using move(4) by auto
    have "head_ok (?b[2 := ERRORCMD])" "ERRORCMD \<in> ?C" "?b ! 3 \<in> ?A" "length ?b = 5"
      using D(1,3) rd by (simp_all add: head_ok_def cmds_of_def)
    moreover have "reached \<lparr>app_of = s, tasks = (tasks w)[i := Some q], reqs = reqs w\<rparr> 2"
      using rd(1) by (simp add: reached_def req_at_def)
    moreover have "list_all (task_ok ?C ?A) ((tasks w)[i := Some q])" using D(5) by (simp add: q list_all_update)
    ultimately have "wire_inv \<lparr>app_of = s, tasks = (tasks w)[i := Some q], reqs = reqs w\<rparr>"
      using D(6) by (intro wire_invI [where C = ?C and A = ?A]) (simp_all add: q cmds_of_def args_of_def)
    then show ?thesis by (simp only: w')
  qed (use move(3) in simp)
qed

lemma wire_inv_req:
  assumes "wire_inv w"
  shows "wire_inv (run_req j w)"
proof (cases rule: run_req_cases [of j w])
  case same
  then show ?thesis using assms by simp
next
  case (move c d r q s new)
  let ?C = "cmds_of w" and ?A = "args_of w" and ?b = "ucSendBuff (app_of w)"
  let ?rs = "(reqs w)[j := (c, d, q)]" and ?ts = "tasks w @ (if new then [Some (Copying [])] else [])"
  let ?w = "\<lparr>app_of = s, tasks = ?ts, reqs = ?rs\<rparr>"
  note D = wire_invD [OF assms]
  have w': "run_req j w = ?w" by (simp add: move(4))
  have rs: "map fst ?rs = map fst (reqs w)" "map (fst \<circ> snd) ?rs = map (fst \<circ> snd) (reqs w)"
    using move(1,2) by (simp_all add: map_update list_update_same_conv)
  have own: "c \<in> ?C" "d \<in> ?A"
    using move(1,2) nth_mem [of j "reqs w"] by (force simp: cmds_of_def args_of_def)+
  have rq: "req_at ?w k = (if k = j then q else req_at w k)" if "k < length (reqs w)" for k
    using that by (simp add: req_at_def)
  have was: "req_at w j = Some r" using move(2) by (simp add: req_at_def)
  have bwd: "reached w k" if "reached ?w k" "stage q < k" for k
    using that rq by (auto simp: reached_def split: if_splits)
  have fwd: "reached ?w k" if "reached w k" "stage (Some r) \<le> stage q" for k
  proof -
    from that(1) obtain m where m: "m < length (reqs w)" "k \<le> stage (req_at w m)" by (auto simp: reached_def)
    then have "k \<le> stage (req_at ?w m)" using rq [of m] was that(2) by auto
    then show ?thesis using m(1) by (auto simp: reached_def)
  qed
  have self: "reached w (stage (Some r))" "reached ?w (stage q)" using was rq [of j] move(1) by (auto simp: reached_def)
  have ts: "list_all (task_ok ?C ?A) ?ts" using D(5) by (simp add: bytes_ok_def)
  have step: "wire_inv ?w"
    if "head_ok (ucSendBuff s)" "reached ?w 1 \<Longrightarrow> ucSendBuff s ! 2 \<in> ?C" "reached ?w 2 \<Longrightarrow> ucSendBuff s ! 3 \<in> ?A"
      "?ts \<noteq> [] \<Longrightarrow> reached ?w 2" "sent s = sent (app_of w)"
    using that ts D(6) rs by (intro wire_invI [where C = ?C and A = ?A]) (simp_all only: cmds_of_def args_of_def simp_thms)
  have "wire_inv ?w"
  proof (cases "stage (Some r) = 2")
    case True
    have rd: "reached w 2" "reached w 1" using self(1) True reached_mono by auto
    have st: "stage q = 2 \<and> head_ok (ucSendBuff s) \<and> ucSendBuff s ! 2 = ?b ! 2 \<and> ucSendBuff s ! 3 = ?b ! 3
        \<and> sent s = sent (app_of w)"
      using True move(3) D(1)
      by (cases r) (auto simp: head_ok_def Let_def sent_call sent_emit split: if_splits prod.splits dest!: arg_cong [of _ _ snd])
    then show ?thesis using D(2,3) rd self(2) by (intro step) auto
  next
    case False
    then consider "r = RCmd" | "r = RDat" by (cases r) auto
    then show ?thesis
    proof cases
      case 1
      then have q: "q = Some RDat" "s = (app_of w)\<lparr>ucSendBuff := ?b[2 := c]\<rparr>" "\<not> new" using move(3) by auto
      have b: "reached ?w 2 \<Longrightarrow> reached w 2" using bwd [of 2] q(1) by simp
      have o: "reached w 2 \<Longrightarrow> reached ?w 2" using fwd [of 2] q(1) 1 by simp
      show ?thesis
        using D(1,3,4) own b o q by (intro step) (auto simp: head_ok_def)
    next
      case 2
      then have q: "q = Some (RSum 0 0)" "s = (app_of w)\<lparr>ucSendBuff := ?b[3 := d]\<rparr>" "\<not> new" using move(3) by auto
      have "reached w 1" "reached ?w 2" using self 2 q(1) by simp_all
      then show ?thesis
        using D(1,2) own q by (intro step) (auto simp: head_ok_def)
    qed
  qed
  then show ?thesis by (simp only: w')
qed

lemma wire_inv_step: "link_step w w' \<Longrightarrow> wire_inv w \<Longrightarrow> wire_inv w'"
  by (elim link_stepE) (simp_all only: wire_inv_task wire_inv_req wire_inv_new wire_inv_quiet)

subsection \<open>Whole frames\<close>

text \<open>Without a clash every frame is one that a single request has put together.\<close>

fun task_calm :: "u8 list \<Rightarrow> task_pc option \<Rightarrow> bool" where
  "task_calm b (Some (Copying acc)) \<longleftrightarrow> length acc < 5 \<and> acc = take (length acc) b"
| "task_calm b (Some (At pc)) \<longleftrightarrow> (\<forall>x. pc_buf pc = Some x \<longrightarrow> frame_ok x)"
| "task_calm b _ \<longleftrightarrow> True"

fun req_calm :: "u8 list \<Rightarrow> req_pc option \<Rightarrow> bool" where
  "req_calm b (Some (RSum i x)) \<longleftrightarrow> i \<le> 4 \<and> x = sum_list (take i b)"
| "req_calm b (Some RFlag) \<longleftrightarrow> frame_ok b"
| "req_calm b (Some RTest) \<longleftrightarrow> frame_ok b"
| "req_calm b (Some RCreate) \<longleftrightarrow> frame_ok b"
| "req_calm b _ \<longleftrightarrow> True"

definition calm_inv :: "link_world \<Rightarrow> bool" where
  "calm_inv w \<longleftrightarrow> \<not> clash w \<and> head_ok (ucSendBuff (app_of w)) \<and> (\<forall>f \<in> set (sent (app_of w)). frame_ok f)
     \<and> (\<forall>i < length (tasks w). task_calm (ucSendBuff (app_of w)) (tasks w ! i))
     \<and> (\<forall>j < length (reqs w). req_calm (ucSendBuff (app_of w)) (req_at w j))
     \<and> ((\<exists>i < length (tasks w). live (tasks w ! i)) \<longrightarrow> (\<forall>j < length (reqs w). \<not> writing (req_at w j))
        \<longrightarrow> frame_ok (ucSendBuff (app_of w)))"

lemma twice_nth: "\<not> twice P xs \<Longrightarrow> i < length xs \<Longrightarrow> j < length xs \<Longrightarrow> P (xs ! i) \<Longrightarrow> P (xs ! j) \<Longrightarrow> i = j"
proof (induction xs arbitrary: i j)
  case (Cons x xs)
  then show ?case by (cases i; cases j) (auto simp: list_ex_length)
qed simp

lemma clashD:
  assumes "\<not> clash w"
  shows "j < length (reqs w) \<Longrightarrow> k < length (reqs w) \<Longrightarrow> writing (req_at w j) \<Longrightarrow> writing (req_at w k) \<Longrightarrow> j = k"
    and "i < length (tasks w) \<Longrightarrow> m < length (tasks w) \<Longrightarrow> live (tasks w ! i) \<Longrightarrow> live (tasks w ! m) \<Longrightarrow> i = m"
    and "j < length (reqs w) \<Longrightarrow> i < length (tasks w) \<Longrightarrow> writing (req_at w j) \<Longrightarrow> \<not> touching (tasks w ! i)"
  using assms twice_nth [of writing "map (snd \<circ> snd) (reqs w)" j k] twice_nth [of live "tasks w" i m]
  by (auto simp: clash_def req_at_def list_ex_length)

lemma not_writing_calm: "\<not> writing r \<Longrightarrow> req_calm b r"
  by (cases r rule: writing.cases) simp_all

lemma not_touching_calm: "\<not> touching p \<Longrightarrow> task_calm b p \<longleftrightarrow> task_calm b' p"
  by (cases "(b, p)" rule: task_calm.cases) simp_all

lemma touching_live: "touching p \<Longrightarrow> live p"
  by (cases p rule: touching.cases) simp_all

lemma calm_invD:
  assumes "calm_inv w"
  shows "\<not> clash w" "head_ok (ucSendBuff (app_of w))" "\<forall>f \<in> set (sent (app_of w)). frame_ok f"
    "i < length (tasks w) \<Longrightarrow> task_calm (ucSendBuff (app_of w)) (tasks w ! i)"
    "j < length (reqs w) \<Longrightarrow> req_calm (ucSendBuff (app_of w)) (req_at w j)"
    "i < length (tasks w) \<Longrightarrow> live (tasks w ! i) \<Longrightarrow> \<forall>j < length (reqs w). \<not> writing (req_at w j)
       \<Longrightarrow> frame_ok (ucSendBuff (app_of w))"
  using assms by (auto simp: calm_inv_def)

lemma calm_task:
  assumes "calm_inv w" "\<not> clash (run_task i w)"
  shows "calm_inv (run_task i w)"
proof (cases rule: run_task_cases [of i w])
  case same
  then show ?thesis using assms by simp
next
  case gone
  let ?w = "run_task i w"
  note D = calm_invD [OF assms(1)]
  have rq: "req_at ?w j = req_at w j" for j by (simp add: gone(2) req_at_def)
  have t: "tasks ?w ! k = (if k = i then None else tasks w ! k)" "length (tasks ?w) = length (tasks w)"
    if "k < length (tasks w)" for k
    using that by (simp_all add: gone(2))
  have f: "app_of ?w = emit (Os (TaskDelete ''send_uart_info_task'')) (app_of w)" "reqs ?w = reqs w"
    "length (tasks ?w) = length (tasks w)"
    by (simp_all add: gone(2))
  have "task_calm (ucSendBuff (app_of w)) (tasks ?w ! k)" if "k < length (tasks w)" for k
    using D(4) [of k] t(1) [of k] that by (cases "k = i") simp_all
  moreover have "frame_ok (ucSendBuff (app_of w))"
    if "k < length (tasks w)" "live (tasks ?w ! k)" "\<forall>j < length (reqs w). \<not> writing (req_at w j)" for k
    using D(6) [of k] t(1) [of k] that by (cases "k = i") simp_all
  ultimately show ?thesis
    using D(2,3,5) assms(2) unfolding calm_inv_def f rq by (auto simp: sent_emit)
next
  case (move p q s)
  let ?w = "run_task i w" and ?b = "ucSendBuff (app_of w)"
  note D = calm_invD [OF assms(1)]
  have rq: "req_at ?w j = req_at w j" for j by (simp add: move(5) req_at_def)
  have t: "tasks ?w ! k = (if k = i then Some q else tasks w ! k)" if "k < length (tasks w)" for k
    using that by (simp add: move(5))
  have f: "app_of ?w = s" "reqs ?w = reqs w" "length (tasks ?w) = length (tasks w)"
    by (simp_all add: move(5))
  have quiet: "frame_ok ?b" if "touching (Some p)"
  proof -
    have "\<forall>j < length (reqs w). \<not> writing (req_at w j)"
      using clashD(3) [OF D(1) _ move(1)] that move(2) by auto
    then show ?thesis using D(6) [OF move(1)] touching_live [OF that] move(2) by simp
  qed
  have keep: ?thesis
    if k: "ucSendBuff s = ?b" "\<forall>f \<in> set (sent s). frame_ok f" "task_calm ?b (Some q)"
      "live (Some q) \<Longrightarrow> live (Some p)"
  proof -
    have "task_calm ?b (tasks ?w ! m)" if "m < length (tasks w)" for m
      using D(4) [of m] t [of m] that k(3) by (cases "m = i") simp_all
    moreover have "frame_ok ?b"
      if "m < length (tasks w)" "live (tasks ?w ! m)" "\<forall>j < length (reqs w). \<not> writing (req_at w j)" for m
      using D(6) [of m] t [of m] that k(4) move(2) by (cases "m = i") simp_all
    ultimately show ?thesis
      using D(2,5) k(1,2) assms(2) unfolding calm_inv_def f rq by auto
  qed
  show ?thesis
  proof (cases p)
    case (Copying acc)
    have fr: "frame_ok ?b" using quiet Copying by simp
    then have l: "length ?b = 5" by (simp add: frame_ok_def)
    have a: "length acc < 5" "acc = take (length acc) ?b" using D(4) [OF move(1)] move(2) Copying by simp_all
    define acc' where "acc' = acc @ [?b ! length acc]"
    have a': "acc' = take (length acc') ?b" "length acc' = Suc (length acc)"
      using a l by (simp_all add: acc'_def take_Suc_conv_app_nth flip: a(2))
    have "s = app_of w" "q = (if length acc' = 5 then At (STake acc') else Copying acc')"
      using move(4) Copying by (auto simp: Let_def acc'_def)
    then show ?thesis
      using D(3) fr a a' l Copying by (intro keep) (auto split: if_splits)
  next
    case (At pc)
    then have st: "ucSendBuff s = ?b" "sent s = sent (app_of w) @ written p"
      "q = Copying [] \<or> q = Marking \<or> q = Deleting
       \<or> (\<exists>pc'. q = At pc' \<and> (\<forall>b. pc_buf pc' = Some b \<longrightarrow> pc_buf pc = Some b))"
      "live (Some q) \<longrightarrow> live (Some p)"
      using task_at_step [of pc "app_of w" q s] move(4) by simp_all
    have p: "task_calm ?b (Some p)" using D(4) [OF move(1)] move(2) by simp
    have "\<forall>f \<in> set (written p). frame_ok f" using p by (cases p rule: written.cases) auto
    then have "\<forall>f \<in> set (sent s). frame_ok f" using D(3) st(2) by auto
    moreover have "task_calm ?b (Some q)" using st(3) p At by auto
    ultimately show ?thesis using st(1,4) by (intro keep) simp_all
  next
    case Marking
    then have q: "q = At SExit" "s = (app_of w)\<lparr>ucSendBuff := ?b[2 := ERRORCMD]\<rparr>" using move(4) by auto
    have mine: "live (tasks w ! i)" "touching (tasks w ! i)" using move(2) Marking by simp_all
    have dead: "\<not> live (tasks ?w ! m)" if "m < length (tasks w)" for m
      using clashD(2) [OF D(1) move(1) that mine(1)] t [OF that] q(1) by (cases "m = i") auto
    have "\<not> writing (req_at w j)" if "j < length (reqs w)" for j
      using clashD(3) [OF D(1) that move(1)] mine(2) by auto
    then have "req_calm (ucSendBuff s) (req_at w j)" if "j < length (reqs w)" for j
      using that not_writing_calm by blast
    moreover have "task_calm (ucSendBuff s) (tasks ?w ! m)" if "m < length (tasks w)" for m
    proof -
      have "\<not> touching (tasks ?w ! m)" using dead [OF that] touching_live by blast
      moreover have "task_calm ?b (tasks ?w ! m)"
        using D(4) [OF that] t [OF that] q(1) by (cases "m = i") simp_all
      ultimately show ?thesis using not_touching_calm by blast
    qed
    ultimately show ?thesis
      using D(2,3) assms(2) dead unfolding calm_inv_def f rq by (auto simp: q(2) head_ok_def)
  qed (use move(3) in simp)
qed

lemma sum_list_take_Suc: "i < length b \<Longrightarrow> sum_list (take i b) + b ! i = sum_list (take (Suc i) b)" for b :: "u8 list"
  by (simp add: take_Suc_conv_app_nth)

lemma summed_frame:
  assumes "head_ok b"
  shows "frame_ok (b[4 := sum_list (take 4 b)])"
proof -
  have "take 4 b = [b ! 0, b ! 1, b ! 2, b ! 3]"
    using assms by (intro nth_equalityI) (auto simp: head_ok_def less_Suc_eq numeral_eq_Suc)
  then show ?thesis using assms by (simp add: frame_ok_def head_ok_def add.assoc)
qed

lemma calm_req:
  assumes "calm_inv w" "\<not> clash (run_req j w)"
  shows "calm_inv (run_req j w)"
proof (cases rule: run_req_cases [of j w])
  case same
  then show ?thesis using assms by simp
next
  case (move c d r q s new)
  let ?w = "run_req j w" and ?b = "ucSendBuff (app_of w)"
  note D = calm_invD [OF assms(1)]
  have rq: "req_at ?w k = (if k = j then q else req_at w k)" if "k < length (reqs w)" for k
    using that by (simp add: req_at_def move(4))
  have was: "req_at w j = Some r" using move(2) by (simp add: req_at_def)
  have f: "app_of ?w = s" "length (reqs ?w) = length (reqs w)"
    "tasks ?w = tasks w @ (if new then [Some (Copying [])] else [])"
    by (simp_all add: move(4))
  have own: "req_calm ?b (Some r)" using D(5) [OF move(1)] was by simp
  text \<open>The steps that change the buffer: this call is the only writer, and no task touches it.\<close>
  have store: ?thesis
    if k: "writing q" "\<not> new" "head_ok (ucSendBuff s)" "sent s = sent (app_of w)" "req_calm (ucSendBuff s) q"
  proof -
    have wj: "writing (req_at ?w j)" using rq [OF move(1)] k(1) by simp
    have others: "\<not> writing (req_at ?w m)" if "m < length (reqs w)" "m \<noteq> j" for m
      using clashD(1) [OF assms(2), of j m] wj that move(1) f(2) by auto
    have "req_calm (ucSendBuff s) (req_at ?w m)" if "m < length (reqs w)" for m
      using rq [OF that] others [OF that] not_writing_calm k(5) by (cases "m = j") auto
    moreover have "task_calm (ucSendBuff s) (tasks w ! i)" if "i < length (tasks w)" for i
    proof -
      have "\<not> touching (tasks w ! i)"
        using clashD(3) [OF assms(2), of j i] wj that move(1) f(2,3) k(2) by auto
      then show ?thesis using D(4) [OF that] not_touching_calm by blast
    qed
    moreover have "\<exists>m < length (reqs w). writing (req_at ?w m)" using wj move(1) by blast
    ultimately show ?thesis
      using D(3) assms(2) k(2-4) unfolding calm_inv_def f by auto
  qed
  text \<open>The steps that keep the buffer.\<close>
  have keep: ?thesis
    if k: "ucSendBuff s = ?b" "sent s = sent (app_of w)" "req_calm ?b q" "new \<or> \<not> writing q \<and> writing (Some r) \<Longrightarrow> frame_ok ?b"
  proof -
    have "req_calm ?b (req_at ?w m)" if "m < length (reqs w)" for m
      using rq [OF that] D(5) [OF that] k(3) by (cases "m = j") auto
    moreover have "task_calm ?b (tasks ?w ! i)" if "i < length (tasks ?w)" for i
      using D(4) [of i] that by (cases "i < length (tasks w)") (auto simp: f(3) nth_append split: if_splits)
    moreover have "frame_ok ?b"
      if m: "i < length (tasks ?w)" "live (tasks ?w ! i)" "\<forall>m < length (reqs w). \<not> writing (req_at ?w m)" for i
    proof (cases "new \<or> writing (Some r)")
      case True
      then show ?thesis using k(4) m(3) rq [OF move(1)] move(1) by auto
    next
      case False
      then have "\<forall>m < length (reqs w). \<not> writing (req_at w m)" using m(3) rq was by (metis)
      then show ?thesis using D(6) [of i] m False by (simp add: f(3))
    qed
    ultimately show ?thesis
      using D(2,3) assms(2) k(1,2) unfolding calm_inv_def f(1,2) by auto
  qed
  show ?thesis
  proof (cases r)
    case RCmd
    then show ?thesis using move(3) D(2) by (intro store) (auto simp: head_ok_def)
  next
    case RDat
    then show ?thesis using move(3) D(2) by (intro store) (auto simp: head_ok_def)
  next
    case (RSum i x)
    show ?thesis
    proof (cases "i < 4")
      case True
      have "i < length ?b" using True D(2) by (simp add: head_ok_def)
      then show ?thesis
        using True RSum move(3) own sum_list_take_Suc [of i ?b] by (intro keep) auto
    next
      case False
      then have "i = 4" "x = sum_list (take 4 ?b)" using own RSum by auto
      then have q: "q = Some RFlag" "\<not> new" "s = (app_of w)\<lparr>ucSendBuff := ?b[4 := sum_list (take 4 ?b)]\<rparr>"
        using RSum move(3) by auto
      have "frame_ok (ucSendBuff s)" using summed_frame [OF D(2)] q(3) by simp
      then show ?thesis using q frame_head by (intro store) auto
    qed
  next
    case RFlag
    then show ?thesis using move(3) own by (intro keep) auto
  next
    case RTest
    then show ?thesis using move(3) own by (intro keep) (auto split: if_splits)
  next
    case RCreate
    have "s = snd (call (Os (TaskCreate ''send_uart_info_task'' 4096 12)) (app_of w))"
      "q = None \<or> q = Some RHandle"
      using move(3) RCreate by (auto simp: Let_def split: prod.splits if_splits)
    then show ?thesis using own RCreate by (intro keep) (auto simp: sent_call sent_emit)
  next
    case RHandle
    then show ?thesis using move(3) by (intro keep) auto
  qed
qed

lemma calm_new:
  assumes "calm_inv w" "\<not> clash (new_req c d w)"
  shows "calm_inv (new_req c d w)"
proof -
  let ?w = "new_req c d w"
  note D = calm_invD [OF assms(1)]
  have rq: "req_at ?w k = (if k = length (reqs w) then Some RCmd else req_at w k)" if "k < Suc (length (reqs w))" for k
    using that by (simp add: req_at_def new_req_def nth_append)
  have f: "app_of ?w = app_of w" "tasks ?w = tasks w" "length (reqs ?w) = Suc (length (reqs w))"
    by (simp_all add: new_req_def)
  have "req_calm (ucSendBuff (app_of w)) (req_at ?w k)" if "k < Suc (length (reqs w))" for k
    using rq [OF that] D(5) [of k] that by (cases "k = length (reqs w)") simp_all
  moreover have "frame_ok (ucSendBuff (app_of w))"
    if "i < length (tasks w)" "live (tasks w ! i)" "\<forall>k < Suc (length (reqs w)). \<not> writing (req_at ?w k)" for i
  proof -
    have "\<not> writing (req_at w k)" if k: "k < length (reqs w)" for k
      using k rq [of k] \<open>\<forall>k < Suc (length (reqs w)). \<not> writing (req_at ?w k)\<close>
      by (metis less_SucI nat_neq_iff)
    then show ?thesis using D(6) that(1,2) by blast
  qed
  ultimately show ?thesis using D(2-4) assms(2) unfolding calm_inv_def f by auto
qed

lemma calm_quiet:
  assumes "calm_inv w" "link_quiet (app_of w) t" "\<not> clash (w\<lparr>app_of := t\<rparr>)"
  shows "calm_inv (w\<lparr>app_of := t\<rparr>)"
proof -
  obtain fs where "sent t = sent (app_of w) @ fs" "\<forall>f \<in> set fs. frame_ok f"
    using link_quietD(3) [OF assms(2)] own_frame_ok by blast
  moreover have "req_at (w\<lparr>app_of := t\<rparr>) = req_at w" by (simp add: req_at_def fun_eq_iff)
  ultimately show ?thesis
    using assms(1,3) link_quietD(1) [OF assms(2)] unfolding calm_inv_def by auto
qed

lemma calm_inv_step: "calm_step w w' \<Longrightarrow> calm_inv w \<Longrightarrow> calm_inv w'"
  unfolding calm_step_def
  by (elim conjE link_stepE) (auto intro: calm_task calm_req calm_new calm_quiet)

subsection \<open>The property\<close>

lemma wire_inv0: "wire_inv (world0 answers)"
  by (simp add: wire_inv_def world0_def reached_def frames_ok_def head_ok_def head_defs sent_def
      List.map_filter_def app_init_def rm_init_def rm.defs)

lemma calm_inv0: "calm_inv (world0 answers)"
  by (simp add: calm_inv_def clash_def world0_def head_ok_def head_defs sent_def
      List.map_filter_def app_init_def rm_init_def rm.defs)

lemma frame_cases:
  assumes "length f = 5"
  shows "f = [f ! 0, f ! 1, f ! 2, f ! 3, f ! 4]"
  using assms by (intro nth_equalityI) (auto simp: less_Suc_eq numeral_eq_Suc)

text \<open>C5. What goes out on the link. However requests, send tasks, the interrupt, the timers, the
  receive task, the dimmer and the cloud are interleaved from the initial state, down to the
  single bytes of the shared buffer, whatever the SDK answers and whatever bytes arrive:
  everything written to the UART is five bytes with the right head, and either one of the two fixed
  answers, checksum included, or a command (or the error command of line 126) and an argument that were
  requested, though they may come from two different requests. If moreover no two requests overlap between
  their first store and the creation of the task, no send task reads or marks the buffer in between, and
  there are never two send tasks using it, then every frame has the right checksum.\<close>
theorem uart_frames_complete:
  assumes "link_step\<^sup>*\<^sup>* (world0 answers) w" "f \<in> set (sent (app_of w))"
  shows "\<exists>c d k. f = [0xaa, 0x55, c, d, k]
    \<and> (c \<in> {UART_SEND_ALLOW, UART_ACCEPT_END} \<and> k = 0xaa + 0x55 + c + d \<or> c \<in> cmds_of w \<and> d \<in> args_of w)
    \<and> (calm_step\<^sup>*\<^sup>* (world0 answers) w \<longrightarrow> k = 0xaa + 0x55 + c + d)"
proof -
  have "wire_inv w"
    using assms(1) by (induction rule: rtranclp_induct) (simp_all add: wire_inv0 wire_inv_step)
  then have f: "own_frame f \<or> length f = 5 \<and> bytes_ok (cmds_of w) (args_of w) f"
    using assms(2) by (auto simp: wire_inv_def frames_ok_def)
  have calm: "frame_ok f" if "calm_step\<^sup>*\<^sup>* (world0 answers) w"
  proof -
    have "calm_inv w"
      using that by (induction rule: rtranclp_induct) (simp_all add: calm_inv0 calm_inv_step)
    then show ?thesis using assms(2) by (simp add: calm_inv_def)
  qed
  have l: "length f = 5" "f ! 0 = 0xaa" "f ! 1 = 0x55"
    using f own_frame_ok [of f] by (auto simp: frame_ok_def bytes_ok_def head_defs)
  have "f ! 2 \<in> {UART_SEND_ALLOW, UART_ACCEPT_END} \<and> f ! 4 = 0xaa + 0x55 + f ! 2 + f ! 3
      \<or> f ! 2 \<in> cmds_of w \<and> f ! 3 \<in> args_of w"
    using f own_frame_ok [of f] by (auto simp: own_frame_def frame_ok_def bytes_ok_def head_defs)
  then show ?thesis
    using calm l frame_cases [OF l(1)] by (intro exI [of _ "f ! 2"] exI [of _ "f ! 3"] exI [of _ "f ! 4"])
      (auto simp: frame_ok_def head_defs)
qed

subsection \<open>Runs\<close>

datatype link_act = TaskAct nat | ReqAct nat | NewAct cmd u8

fun link_do :: "link_act \<Rightarrow> link_world \<Rightarrow> link_world" where
  "link_do (TaskAct i) w = run_task i w"
| "link_do (ReqAct j) w = run_req j w"
| "link_do (NewAct c d) w = new_req c d w"

fun calm_run :: "link_act list \<Rightarrow> link_world \<Rightarrow> link_world option" where
  "calm_run [] w = (if clash w then None else Some w)"
| "calm_run (a # as) w = (if clash w then None else calm_run as (link_do a w))"

lemma link_do_step: "link_step w (link_do a w)"
  by (cases a) (simp_all add: link_step.intros(1-3))

lemma fold_run: "link_step\<^sup>*\<^sup>* w (fold link_do as w)"
  by (induction as arbitrary: w) (auto intro: converse_rtranclp_into_rtranclp link_do_step)

lemma calm_run_steps: "calm_run as w = Some w' \<Longrightarrow> calm_step\<^sup>*\<^sup>* w w'"
proof (induction as arbitrary: w)
  case (Cons a as)
  then have run: "calm_run as (link_do a w) = Some w'" by (simp split: if_splits)
  then have "\<not> clash (link_do a w)" by (cases as) (simp_all split: if_splits)
  then have "calm_step w (link_do a w)" by (simp add: calm_step_def link_do_step)
  then show ?case using Cons.IH [OF run] by (rule converse_rtranclp_into_rtranclp)
qed (simp split: if_splits)

lemma calm_link: "calm_step\<^sup>*\<^sup>* w w' \<Longrightarrow> link_step\<^sup>*\<^sup>* w w'"
  by (erule rtranclp_mono [THEN predicate2D, rotated]) (auto simp: calm_step_def)

text \<open>
  A frame can be damaged. A first request has been sent and its task pauses; a second one has raised the
  flag; a third one has stored its command and is interrupted by the task, which copies the new command
  with the argument and the checksum of the second request, and sends that.
\<close>

lemma torn_frame_sent:
  "\<exists>w. link_step\<^sup>*\<^sup>* (world0 [1]) w \<and> [0xaa, 0x55, OnOffCMD, 7, 0xaa + 0x55 + BriNowCMD + 7] \<in> set (sent (app_of w))"
proof -
  let ?as = "NewAct OnOffCMD 1 # replicate 11 (ReqAct 0) @ replicate 11 (TaskAct 0)
    @ NewAct BriNowCMD 7 # replicate 9 (ReqAct 1) @ NewAct OnOffCMD 0 # ReqAct 2 # replicate 9 (TaskAct 0)"
  have "[0xaa, 0x55, OnOffCMD, 7, 0xaa + 0x55 + BriNowCMD + 7] \<in> set (sent (app_of (fold link_do ?as (world0 [1]))))"
    by code_simp
  then show ?thesis using fold_run by blast
qed

theorem uart_frames_complete_witness:
  "\<exists>w f. calm_step\<^sup>*\<^sup>* (world0 [1]) w \<and> sent (app_of w) = [f] \<and> f ! 4 = 0xaa + 0x55 + f ! 2 + f ! 3"
proof -
  let ?as = "NewAct OnOffCMD 1 # replicate 10 (ReqAct 0) @ replicate 8 (TaskAct 0) @ [ReqAct 0]"
  have "map_option (\<lambda>w. sent (app_of w)) (calm_run ?as (world0 [1])) = Some [[0xaa, 0x55, 0, 1, 0]]"
    by code_simp
  then obtain w where w: "calm_run ?as (world0 [1]) = Some w" "sent (app_of w) = [[0xaa, 0x55, 0, 1, 0]]" by auto
  note c = calm_run_steps [OF w(1)]
  show ?thesis
    using uart_frames_complete [OF calm_link [OF c], of "[0xaa, 0x55, 0, 1, 0]"] c w(2) by auto
qed

end
