(* ===== verification/App_Deliver.thy ===== *)
theory App_Deliver
  imports App_World
begin

text \<open>
  Delivery over the UART link: what becomes of one undisturbed request when the send task is then
  left to itself, by the point of \<open>send_step\<close> the task has reached when the request comes. (What a
  disturbed request can do is in \<open>App_World\<close>, which also shows that undisturbed calls and tasks are
  \<open>send_bri_ctrl_info\<close> and \<open>send_step\<close>.)
\<close>

text \<open>A new task is at its first statement.\<close>

definition spawned :: "send_pc option \<Rightarrow> 'a app_scheme \<Rightarrow> 'a app_scheme \<Rightarrow> send_pc option" where
  "spawned pc s t =
     (if \<not> ucSendTaskHandle_Flag s \<and> ucSendTaskHandle_Flag t then Some SCopy else pc)"

text \<open>What the task still writes from a point on, when nothing else happens.\<close>

fun still_to_write :: "send_pc \<Rightarrow> u8 list list" where
  "still_to_write (STake b) = [b]"
| "still_to_write (SRxWait b) = [b]"
| "still_to_write (SWrite b) = [b]"
| "still_to_write _ = []"

fun past_copy :: "send_pc \<Rightarrow> bool" where
  \<comment> \<open>line 76 has been executed and line 120 is still to come\<close>
  "past_copy SCopy = False" | "past_copy SCheck = False" | "past_copy SExit = False"
| "past_copy _ = True"

fun not_held :: "send_pc \<Rightarrow> 'a app_scheme \<Rightarrow> bool" where
  \<comment> \<open>the tests that are still to come, lines 80 to 90, do not hold the frame back: its head is
     right and the dimmer is not sending\<close>
  "not_held (STake b) s \<longleftrightarrow> head_ok b \<and> \<not> ucRxTaskHandle_Flag s"
| "not_held (SRxWait b) s \<longleftrightarrow> \<not> ucRxTaskHandle_Flag s"
| "not_held _ s \<longleftrightarrow> True"

definition finished :: "u8 list list \<Rightarrow> send_pc option \<times> 'a app_scheme \<Rightarrow> bool" where
  "finished fs w \<longleftrightarrow> fst w = None \<and> sent (snd w) = fs \<and> \<not> ucSendFlag (snd w)
     \<and> \<not> ucSendTaskHandle_Flag (snd w)"

lemma send_run_Some: "send_run (Suc n) (Some pc, s) = send_run n (send_step pc s)"
  by simp

lemma send_run_None [simp]: "send_run n (None, u) = (None, u)"
  by (cases n) simp_all

lemma send_run_more: "fst (send_run n w) = None \<Longrightarrow> send_run (Suc n) w = send_run n w"
proof (induction n arbitrary: w)
  case 0
  then show ?case by (cases w) simp
next
  case (Suc n)
  show ?case
  proof (cases "fst w")
    case None
    then show ?thesis by (cases w) simp
  next
    case (Some pc)
    then have w: "w = (Some pc, snd w)" by (metis prod.collapse)
    have "fst (send_run n (send_step pc (snd w))) = None"
      using Suc.prems w by (metis send_run_Some)
    from Suc.IH [OF this] show ?thesis using w by (metis send_run_Some)
  qed
qed

lemma finish_clear: "finished (sent s) (send_run (Suc (Suc (Suc n))) (Some SClear, s))"
  by (simp add: finished_def vTaskDelay_def sent_emit)

lemma finish_report: "finished (sent s) (send_run (Suc (Suc (Suc (Suc n)))) (Some (SReport b), s))"
proof -
  obtain u where u: "send_step (SReport b) s = (Some SClear, u)" by (simp add: Let_def)
  then have "link_view u = link_view s" by (auto simp: send_step_view Let_def)
  then show ?thesis
    unfolding send_run_Some [of _ "SReport b"] u
    using finish_clear [of u n] link_viewD(3) [of u s] by simp
qed

lemma finish_drain:
  "finished (sent s) (send_run (Suc (Suc (Suc (Suc (Suc n))))) (Some (SDrain b), s))"
proof -
  obtain u where u: "send_step (SDrain b) s = (Some (SReport b), u)" "sent u = sent s"
    by (simp add: sent_emit)
  then show ?thesis
    unfolding send_run_Some [of _ "SDrain b"] u(1) using finish_report [of u n b] by simp
qed

lemma finish_write:
  "finished (sent s @ [b]) (send_run (Suc (Suc (Suc (Suc (Suc (Suc n)))))) (Some (SWrite b), s))"
proof -
  define t where "t = stop_power_save
    (if wakes_mcu (b ! 2) then wakeup_mcu_info (wakeup_mcu_info_config s) else s)"
  have t: "sent t = sent s"
    using link_viewD(3) [of t s] by (simp add: t_def send_step_view)
  have "send_step (SWrite b) s = (Some (SDrain b), emit (Uart (UartWrite b)) t)"
    by (simp add: Let_def t_def)
  then show ?thesis
    unfolding send_run_Some [of _ "SWrite b"]
    using finish_drain [of "emit (Uart (UartWrite b)) t" n b] t by (simp add: sent_emit)
qed

lemma finish_mono: "finished fs (send_run n w) \<Longrightarrow> n \<le> m \<Longrightarrow> finished fs (send_run m w)"
proof (induction m)
  case (Suc m)
  show ?case
  proof (cases "n = Suc m")
    case False
    then have m: "finished fs (send_run m w)" using Suc by simp
    then have "send_run (Suc m) w = send_run m w" by (intro send_run_more) (simp add: finished_def)
    then show ?thesis using m by simp
  qed (use Suc.prems in simp)
qed simp

lemmas finish_steps = finish_write [of _ _ 0, THEN finish_mono] finish_drain [of _ 0, THEN finish_mono]
  finish_report [of _ 0, THEN finish_mono] finish_clear [of _ 0, THEN finish_mono]

lemma finish_late:
  assumes "past_copy pc" "not_held pc s"
  shows "finished (sent s @ still_to_write pc) (send_run 8 (Some pc, s))"
proof (cases pc)
  case (STake b)
  have "send_run 8 (Some (STake b), s) = send_run 6 (Some (SWrite b), s\<lparr>ucSendFlag := False\<rparr>)"
    using assms STake by (simp add: eval_nat_numeral head_ok_def)
  then show ?thesis using finish_steps(1) [where s = "s\<lparr>ucSendFlag := False\<rparr>" and b = b and m = 6] STake by simp
next
  case (SRxWait b)
  have "send_run 8 (Some (SRxWait b), s) = send_run 7 (Some (SWrite b), s)"
    using assms SRxWait by (simp add: eval_nat_numeral)
  then show ?thesis using finish_steps(1) [where s = s and b = b and m = 7] SRxWait by simp
qed (use assms finish_steps [where s = s and m = 8] in simp_all)

lemma finish_copy:
  assumes "head_ok (ucSendBuff s)" "\<not> ucRxTaskHandle_Flag s"
  shows "finished (sent s @ [ucSendBuff s]) (send_run 9 (Some SCopy, s))"
proof -
  have "send_run 9 (Some SCopy, s) = send_run 8 (Some (STake (ucSendBuff s)), s)"
    by (simp add: eval_nat_numeral del: send_step.simps(2-9))
  then show ?thesis using finish_late [of "STake (ucSendBuff s)" s] assms by simp
qed

text \<open>C19. A command is delivered. If the send task does not exist and the request creates it, or
  the task is in its final 100 ms pause (line 122), and the dimmer is not sending, then the task
  writes the requested command and argument as its next and only frame and ends, with both
  flags down.\<close>
theorem request_delivered:
  assumes "head_ok (ucSendBuff s)" "\<not> ucRxTaskHandle_Flag s"
    "(pc = None \<and> \<not> ucSendTaskHandle_Flag s
        \<and> ucSendTaskHandle_Flag (send_bri_ctrl_info c d s)) \<or> (pc = Some SCheck \<and> ucSendTaskHandle_Flag s)"
  shows "finished (sent s @ [[0xaa, 0x55, c, d, 0xaa + 0x55 + c + d]])
    (send_run 10 (spawned pc s (send_bri_ctrl_info c d s), send_bri_ctrl_info c d s))"
proof -
  let ?t = "send_bri_ctrl_info c d s"
  have buf: "ucSendBuff ?t = [0xaa, 0x55, c, d, 0xaa + 0x55 + c + d]" "head_ok (ucSendBuff ?t)"
    using assms(1) frame_head [OF put_frame_ok [of "ucSendBuff s" c d]]
    by (simp_all add: head_ok_def put_frame_eq head_defs)
  have rx: "\<not> ucRxTaskHandle_Flag ?t" using assms(2) by simp
  note fin = finish_copy [OF buf(2) rx]
  show ?thesis
  proof (cases "pc = None")
    case True
    then have "spawned pc s ?t = Some SCopy" using assms(3) by (simp add: spawned_def)
    moreover have "send_run (Suc 9) (Some SCopy, ?t) = send_run 9 (Some SCopy, ?t)"
      using fin by (intro send_run_more) (simp add: finished_def)
    ultimately show ?thesis using fin buf(1) by simp
  next
    case False
    then have "spawned pc s ?t = Some SCheck" using assms(3) by (auto simp: spawned_def)
    moreover have "send_run (Suc 9) (Some SCheck, ?t) = send_run 9 (Some SCopy, ?t)"
      unfolding send_run_Some by simp
    ultimately show ?thesis using fin buf(1) by simp
  qed
qed

text \<open>C38. A command is lost. A request made, as a whole, at any point of the send task between copying
  the buffer (line 76) and its second \<open>ucSendFlag = 0\<close> (line 120), when nothing holds the copied
  frame back, has no effect: the task writes exactly the frames it writes without the request
  and ends, and the request's flag is gone.\<close>
theorem late_request_lost:
  assumes "past_copy pc" "not_held pc s" "ucSendTaskHandle_Flag s"
  shows "finished (sent s @ still_to_write pc) (send_run 8 (Some pc, s))
    \<and> finished (sent s @ still_to_write pc)
        (send_run 8 (spawned (Some pc) s (send_bri_ctrl_info c d s), send_bri_ctrl_info c d s))"
proof -
  have "not_held pc (send_bri_ctrl_info c d s)" using assms(2) by (cases pc) simp_all
  then show ?thesis
    using finish_late [OF assms(1,2)] finish_late [OF assms(1), of "send_bri_ctrl_info c d s"]
      assms(3) by (simp add: spawned_def)
qed

theorem request_delivered_witness:
  "sent (snd (send_run 10 (Some SCopy, send_bri_ctrl_info OnOffCMD 1 (app_init\<lparr>inputs := [1]\<rparr>))))
     = [[0xaa, 0x55, 0, 1, 0]]"
proof -
  let ?s = "app_init\<lparr>inputs := [1]\<rparr>"
  have pre: "head_ok (ucSendBuff ?s)" "\<not> ucRxTaskHandle_Flag ?s" "\<not> ucSendTaskHandle_Flag ?s"
    "sent ?s = []"
    by (simp_all add: head_ok_def head_defs sent_def List.map_filter_def app_init_def rm_init_def rm.defs)
  have flag: "ucSendTaskHandle_Flag (send_bri_ctrl_info OnOffCMD 1 ?s)"
    by (simp add: send_bri_ctrl_info_def app_init_def rm.defs Let_def call_def emit_def ask_def)
  show ?thesis
    using request_delivered [OF pre(1,2), of None OnOffCMD 1] pre(3,4) flag
    by (simp add: finished_def spawned_def cmd_defs)
qed

theorem late_request_lost_witness:
  "sent (snd (send_run 8 (Some (STake [0xaa, 0x55, 0, 1, 0]),
     send_bri_ctrl_info OnOffCMD 0 (app_init\<lparr>ucSendTaskHandle_Flag := True\<rparr>)))) = [[0xaa, 0x55, 0, 1, 0]]"
proof -
  let ?s = "app_init\<lparr>ucSendTaskHandle_Flag := True\<rparr>"
  have "sent ?s = []" "ucSendTaskHandle_Flag ?s" "\<not> ucRxTaskHandle_Flag ?s"
    "head_ok [0xaa, 0x55, 0, 1, 0]"
    by (simp_all add: sent_def List.map_filter_def app_init_def rm_init_def rm.defs head_ok_def head_defs)
  then show ?thesis
    using late_request_lost [of "STake [0xaa, 0x55, 0, 1, 0]" ?s OnOffCMD 0]
    by (simp add: finished_def spawned_def)
qed

end
