(* ===== verification/App_Button.thy ===== *)
theory App_Button
  imports App_World
begin

text \<open>
  The wall buttons: \<open>app_button.c\<close> (\<open>start_button_check\<close> and \<open>stop_button_check\<close> are in
  \<open>App_Bri\<close>). Button 1 toggles the light when released after 50 ms to 3 s and resets the device
  when held for 5 s; buttons 2 and 3 dim. Times are the microseconds of \<open>esp_timer_get_time\<close>.
\<close>

definition BUTTON_DELAY_MIN_CONFIG :: int where "BUTTON_DELAY_MIN_CONFIG = 50000"
definition BUTTON_DELAY_MAX_CONFIG :: int where "BUTTON_DELAY_MAX_CONFIG = 3000000"
definition QCLOUD_NETWORK_CONFIG :: int where "QCLOUD_NETWORK_CONFIG = 5000000"
definition REBOOT_DELAY :: int where "REBOOT_DELAY = 2"

definition esp_timer_get_time :: "'a app_scheme \<Rightarrow> int \<times> 'a app_scheme" where
  "esp_timer_get_time s = call (Timer TimerGetTime) s"

definition set_delay_time :: "'a app_scheme \<Rightarrow> 'a app_scheme" where
  "set_delay_time s =
     (let (t, s) = esp_timer_get_time s in upd_btns (\<lambda>b. b\<lparr>button_delay_time := t\<rparr>) s)"

definition single_fire_button1_isr :: "'a app_scheme \<Rightarrow> 'a app_scheme" where
  "single_fire_button1_isr s =
     (if button1_intr_type (btns s) = GPIO_INTR_LOW_LEVEL then
        let s = upd_btns (\<lambda>b. b\<lparr>button1_intr_type := GPIO_INTR_HIGH_LEVEL\<rparr>) s;
            s = emit (Gpio (GpioSetIntrType BUTTON_1 GPIO_INTR_HIGH_LEVEL)) s;
            s = timer_once Button1Timer QCLOUD_NETWORK_CONFIG s
        in set_delay_time s
      else if button1_intr_type (btns s) = GPIO_INTR_HIGH_LEVEL then
        let s = timer_stop Button1Timer s;
            (t1, s) = esp_timer_get_time s;
            (ok, s) = (if t1 > button_delay_time (btns s) + BUTTON_DELAY_MIN_CONFIG
              then let (t2, s) = esp_timer_get_time s
                   in (t2 < button_delay_time (btns s) + BUTTON_DELAY_MAX_CONFIG, s)
              else (False, s));
            s = set_delay_time (if ok then Toggle_The_Lights s else s);
            s = upd_btns (\<lambda>b. b\<lparr>button1_intr_type := GPIO_INTR_LOW_LEVEL\<rparr>) s
        in emit (Gpio (GpioSetIntrType BUTTON_1 GPIO_INTR_LOW_LEVEL)) s
      else
        emit (Gpio (GpioSetIntrType BUTTON_1 GPIO_INTR_HIGH_LEVEL))
          (upd_btns (\<lambda>b. b\<lparr>button1_intr_type := GPIO_INTR_HIGH_LEVEL\<rparr>) s))"

definition read_dim_keys :: "'a app_scheme \<Rightarrow> 'a app_scheme" where
  \<comment> \<open>the two level reads the dim interrupts and the dim timer begin with\<close>
  "read_dim_keys s =
     (let (a, s) = call (Gpio (GpioGetLevel BUTTON_2)) s;
          s = upd_btns (\<lambda>b. b\<lparr>dim_add_key_val := a\<rparr>) s;
          (c, s) = call (Gpio (GpioGetLevel BUTTON_3)) s
      in upd_btns (\<lambda>b. b\<lparr>dim_sub_key_val := c\<rparr>) s)"

text \<open>The next level to wait for: any type but \<open>HIGH_LEVEL\<close> becomes \<open>HIGH_LEVEL\<close>.\<close>

definition flip_level :: "gpio_intr \<Rightarrow> gpio_intr" where
  "flip_level ty = (if ty = GPIO_INTR_LOW_LEVEL then GPIO_INTR_HIGH_LEVEL
     else if ty = GPIO_INTR_HIGH_LEVEL then GPIO_INTR_LOW_LEVEL else GPIO_INTR_HIGH_LEVEL)"

definition single_fire_button2_isr :: "'a app_scheme \<Rightarrow> 'a app_scheme" where
  "single_fire_button2_isr s =
     (let s = (if Bright_Press_End_Flag (btns s) = 1 then
                 let s = upd_btns (\<lambda>b. b\<lparr>Bright_Press_End_Flag := 0\<rparr>) s;
                     s = read_dim_keys s;
                     b = btns s;
                     s = (if dim_add_key_val b \<noteq> dim_sub_key_val b
                            \<and> dim_add_key_val b \<noteq> dim_add_key_val_temp b \<and> Bri_Status s = 1
                          then upd_btns (\<lambda>b. b\<lparr>dim_add_key_val_temp := dim_add_key_val b\<rparr>)
                                 (Bright_Add_Long_Press s)
                          else s)
                 in upd_btns (\<lambda>b. b\<lparr>Bright_Press_End_Flag := 1\<rparr>) s
               else s);
          ty = flip_level (button2_intr_type (btns s))
      in emit (Gpio (GpioSetIntrType BUTTON_2 ty)) (upd_btns (\<lambda>b. b\<lparr>button2_intr_type := ty\<rparr>) s))"

definition single_fire_button3_isr :: "'a app_scheme \<Rightarrow> 'a app_scheme" where
  "single_fire_button3_isr s =
     (let s = (if Bright_Press_End_Flag (btns s) = 1 then
                 let s = upd_btns (\<lambda>b. b\<lparr>Bright_Press_End_Flag := 0\<rparr>) s;
                     s = read_dim_keys s;
                     b = btns s;
                     s = (if dim_add_key_val b \<noteq> dim_sub_key_val b
                            \<and> dim_sub_key_val b \<noteq> dim_sub_key_val_temp b \<and> Bri_Status s = 1
                          then upd_btns (\<lambda>b. b\<lparr>dim_sub_key_val_temp := dim_sub_key_val b\<rparr>)
                                 (Bright_Sub_Long_Press s)
                          else s)
                 in upd_btns (\<lambda>b. b\<lparr>Bright_Press_End_Flag := 1\<rparr>) s
               else s);
          ty = flip_level (button3_intr_type (btns s))
      in emit (Gpio (GpioSetIntrType BUTTON_3 ty)) (upd_btns (\<lambda>b. b\<lparr>button3_intr_type := ty\<rparr>) s))"

definition single_fire_button_config :: "nat \<Rightarrow> 'a app_scheme \<Rightarrow> esp_err \<times> 'a app_scheme" where
  "single_fire_button_config gpio_num s =
     call (Gpio (GpioConfig gpio_num GPIO_INTR_NEGEDGE GPIO_MODE_INPUT False True)) s"

definition single_fire_button23_config :: "nat \<Rightarrow> 'a app_scheme \<Rightarrow> esp_err \<times> 'a app_scheme" where
  "single_fire_button23_config gpio_num s =
     call (Gpio (GpioConfig gpio_num GPIO_INTR_DISABLE GPIO_MODE_INPUT False True)) s"

definition button_long_timer_callback :: "'a app_scheme \<Rightarrow> 'a app_scheme" where
  "button_long_timer_callback s =
     snd (esp_rmaker_factory_reset 0 REBOOT_DELAY (single_fire_led_blink_on s))"

definition button2_long_timer_callback :: "'a app_scheme \<Rightarrow> 'a app_scheme" where
  "button2_long_timer_callback s =
     (if Bri_Status s = 1 then
        let s = read_dim_keys s;
            b = btns s;
            s = (if dim_add_key_val b \<noteq> dim_add_key_val_temp b then
                   if dim_add_key_val b \<noteq> dim_sub_key_val b then Bright_Add_Long_Press s
                   else Bright_Sub_Long_Press s
                 else s)
        in upd_btns (\<lambda>b. b\<lparr>dim_add_key_val_temp := dim_add_key_val b\<rparr>) s
      else if Button2Timer \<in> timers s then timer_stop Button2Timer s else s)"

definition app_button_init :: "'a app_scheme \<Rightarrow> esp_err \<times> 'a app_scheme" where
  "app_button_init s =
     (let (_, s) = timer_create Button1Timer ''button_long_timer_callback'' s;
          (_, s) = single_fire_button_config BUTTON_1 s;
          (_, s) = single_fire_button23_config BUTTON_2 s;
          (_, s) = single_fire_button23_config BUTTON_3 s;
          (level, s) = call (Gpio (GpioGetLevel BUTTON_1)) s;
          s = (if level = 0 then upd_btns (\<lambda>b. b\<lparr>button1_intr_type := GPIO_INTR_NEGEDGE\<rparr>) s else s);
          s = emits [Gpio (GpioHoldEn BUTTON_1), Gpio (GpioHoldEn BUTTON_2), Gpio (GpioHoldEn BUTTON_3),
            Gpio (GpioInstallIsrService 0),
            Gpio (GpioIsrHandlerAdd BUTTON_1 ''single_fire_button1_isr''),
            Gpio (GpioIsrHandlerAdd BUTTON_2 ''single_fire_button2_isr''),
            Gpio (GpioIsrHandlerAdd BUTTON_3 ''single_fire_button3_isr''),
            Gpio (GpioWakeupEnable BUTTON_1 GPIO_INTR_LOW_LEVEL),
            Gpio (GpioWakeupEnable BUTTON_2 GPIO_INTR_LOW_LEVEL),
            Gpio (GpioWakeupEnable BUTTON_3 GPIO_INTR_LOW_LEVEL)] s;
          (ret, s) = call (Gpio SleepEnableGpioWakeup) s;
          (a, s) = call (Gpio (GpioGetLevel BUTTON_2)) s;
          s = upd_btns (\<lambda>b. b\<lparr>dim_add_key_val_temp := a\<rparr>) s;
          (c, s) = call (Gpio (GpioGetLevel BUTTON_3)) s;
          s = upd_btns (\<lambda>b. b\<lparr>dim_sub_key_val_temp := c\<rparr>) s
      in (ret, s))"

subsection \<open>Frames\<close>

lemma upd_btns_fields [simp]:
  "Bri_Status (upd_btns f s) = Bri_Status s" "Bri_Now_Pct (upd_btns f s) = Bri_Now_Pct s"
  "Bri_Min_Pct (upd_btns f s) = Bri_Min_Pct s" "Bri_Max_Pct (upd_btns f s) = Bri_Max_Pct s"
  "btns (upd_btns f s) = f (btns s)" "trace (upd_btns f s) = trace s"
  "inputs (upd_btns f s) = inputs s" "link_view (upd_btns f s) = link_view s"
  by (simp_all add: upd_btns_def link_view_def)

lemma btn_helpers [simp]:
  "Bri_Status (timer_once t n s) = Bri_Status s" "Bri_Status (timer_stop t s) = Bri_Status s"
  "Bri_Now_Pct (timer_once t n s) = Bri_Now_Pct s" "Bri_Now_Pct (timer_stop t s) = Bri_Now_Pct s"
  "Bri_Min_Pct (timer_once t n s) = Bri_Min_Pct s" "Bri_Min_Pct (timer_stop t s) = Bri_Min_Pct s"
  "Bri_Max_Pct (timer_once t n s) = Bri_Max_Pct s" "Bri_Max_Pct (timer_stop t s) = Bri_Max_Pct s"
  "btns (timer_once t n s) = btns s" "btns (timer_stop t s) = btns s"
  "inputs (timer_once t n s) = inputs s" "inputs (timer_stop t s) = inputs s"
  "Bri_Status (set_delay_time s) = Bri_Status s" "Bri_Now_Pct (set_delay_time s) = Bri_Now_Pct s"
  "Bri_Min_Pct (set_delay_time s) = Bri_Min_Pct s" "Bri_Max_Pct (set_delay_time s) = Bri_Max_Pct s"
  "link_view (set_delay_time s) = link_view s"
  "Bri_Status (read_dim_keys s) = Bri_Status s" "Bri_Now_Pct (read_dim_keys s) = Bri_Now_Pct s"
  "Bri_Min_Pct (read_dim_keys s) = Bri_Min_Pct s" "Bri_Max_Pct (read_dim_keys s) = Bri_Max_Pct s"
  "link_view (read_dim_keys s) = link_view s"
  by (simp_all add: timer_once_def timer_stop_def set_delay_time_def read_dim_keys_def
      esp_timer_get_time_def case_prod_beta Let_def)

text \<open>The interrupts share the UART link within its contract.\<close>

lemmas path_buttons [simp] = upd_btns_fields(8) [THEN link_path_view]
  btn_helpers(17) [THEN link_path_view] btn_helpers(22) [THEN link_path_view]

lemma toggle_path: "link_path v s \<Longrightarrow> link_path v (Toggle_The_Lights s)"
  using path_bri_do [of v s Toggle] by simp

lemma long_press_path:
  "link_path v s \<Longrightarrow> link_path v (Bright_Add_Long_Press s)"
  "link_path v s \<Longrightarrow> link_path v (Bright_Sub_Long_Press s)"
  using path_bri_do [of v s AddLong] path_bri_do [of v s SubLong] by simp_all

interpretation button1: link_client single_fire_button1_isr
  by unfold_locales (simp add: single_fire_button1_isr_def esp_timer_get_time_def toggle_path
      path_refl case_prod_beta Let_def)

interpretation button2: link_client single_fire_button2_isr
  by unfold_locales (simp add: single_fire_button2_isr_def long_press_path path_refl Let_def)

interpretation button3: link_client single_fire_button3_isr
  by unfold_locales (simp add: single_fire_button3_isr_def long_press_path path_refl Let_def)

subsection \<open>Properties\<close>

lemma pct_range_helpers [simp]:
  "pct_range (emit e s) = pct_range s" "pct_range (upd_btns f s) = pct_range s"
  "pct_range (timer_once t n s) = pct_range s" "pct_range (timer_stop t s) = pct_range s"
  "pct_range (set_delay_time s) = pct_range s" "pct_range (read_dim_keys s) = pct_range s"
  "pct_range (snd (call e s)) = pct_range s"
  by (simp_all add: pct_range_def)

lemma pct_range_ops:
  "pct_range s \<Longrightarrow> pct_range (Toggle_The_Lights s)"
  "pct_range s \<Longrightarrow> pct_range (Bright_Add_Long_Press s)"
  "pct_range s \<Longrightarrow> pct_range (Bright_Sub_Long_Press s)"
  using bri_do_range [of s Toggle] bri_do_range [of s AddLong] bri_do_range [of s SubLong] by simp_all

datatype button_event = Button1 | Button2 | Button3 | DimTimer

fun button_do :: "button_event \<Rightarrow> 'a app_scheme \<Rightarrow> 'a app_scheme" where
  "button_do Button1 s = single_fire_button1_isr s"
| "button_do Button2 s = single_fire_button2_isr s"
| "button_do Button3 s = single_fire_button3_isr s"
| "button_do DimTimer s = button2_long_timer_callback s"

lemma button_do_range: "pct_range s \<Longrightarrow> pct_range (button_do ev s)"
  by (cases ev) (simp_all add: single_fire_button1_isr_def single_fire_button2_isr_def
      single_fire_button3_isr_def button2_long_timer_callback_def esp_timer_get_time_def
      pct_range_ops case_prod_beta Let_def)

lemma button_do_limits:
  "Bri_Min_Pct (button_do ev s) = Bri_Min_Pct s \<and> Bri_Max_Pct (button_do ev s) = Bri_Max_Pct s"
  by (cases ev) (simp_all add: single_fire_button1_isr_def single_fire_button2_isr_def
      single_fire_button3_isr_def button2_long_timer_callback_def esp_timer_get_time_def
      Toggle_The_Lights_def case_prod_beta Let_def)

text \<open>Pressing and releasing button 1. From a released button, the press and release
  interrupts toggle the light if and only if the release comes more than 50 ms and less than 3 s
  after the press; both re-arm the interrupt for the next press, and the 5 s reset timer is
  started by the press and stopped by the release.\<close>
theorem button1_press_release:
  assumes "button1_intr_type (btns s) = GPIO_INTR_LOW_LEVEL" "inputs s = t0 # t1 # t2 # ts"
  defines "u \<equiv> single_fire_button1_isr (single_fire_button1_isr s)"
  shows "Bri_Status u = (if t0 + 50000 < t1 \<and> t2 < t0 + 3000000
        then (if Bri_Status s = 0 then 1 else 0) else Bri_Status s)
    \<and> button1_intr_type (btns u) = GPIO_INTR_LOW_LEVEL
    \<and> take 4 (drop (length (trace s)) (trace u)) =
        [Gpio (GpioSetIntrType BUTTON_1 GPIO_INTR_HIGH_LEVEL),
         Timer (TimerStartOnce (handle Button1Timer s) 5000000), Timer TimerGetTime,
         Timer (TimerStop (handle Button1Timer s))]"
proof -
  define p where "p = single_fire_button1_isr s"
  have p: "Bri_Status p = Bri_Status s" "button1_intr_type (btns p) = GPIO_INTR_HIGH_LEVEL"
    "button_delay_time (btns p) = t0" "inputs p = t1 # t2 # ts" "timers p = timers s"
    "trace p = trace s @ [Gpio (GpioSetIntrType BUTTON_1 GPIO_INTR_HIGH_LEVEL),
         Timer (TimerStartOnce (handle Button1Timer s) 5000000), Timer TimerGetTime]"
    using assms(1,2)
    by (simp_all add: p_def single_fire_button1_isr_def set_delay_time_def esp_timer_get_time_def
        call_def upd_btns_def timer_once_def QCLOUD_NETWORK_CONFIG_def handle_def Let_def)
  define q where "q = timer_stop Button1Timer p"
  have q: "Bri_Status q = Bri_Status s" "button_delay_time (btns q) = t0" "inputs q = t1 # t2 # ts"
    "trace q = trace p @ [Timer (TimerStop (handle Button1Timer s))]"
    using p by (simp_all add: q_def timer_stop_def handle_def)
  define ok where "ok \<longleftrightarrow> t0 + 50000 < t1 \<and> t2 < t0 + 3000000"
  define r where "r = (if t0 + 50000 < t1 then (emit (Timer TimerGetTime)
    ((emit (Timer TimerGetTime) q)\<lparr>inputs := t2 # ts\<rparr>))\<lparr>inputs := ts\<rparr>
    else (emit (Timer TimerGetTime) q)\<lparr>inputs := t2 # ts\<rparr>)"
  have r: "Bri_Status r = Bri_Status s"
    "\<exists>es. trace r = trace q @ es"
    using q(1) by (auto simp: r_def)
  have u: "u = emit (Gpio (GpioSetIntrType BUTTON_1 GPIO_INTR_LOW_LEVEL))
      (upd_btns (\<lambda>b. b\<lparr>button1_intr_type := GPIO_INTR_LOW_LEVEL\<rparr>)
        (set_delay_time (if ok then Toggle_The_Lights r else r)))"
  proof -
    have t1: "esp_timer_get_time q = (t1, (emit (Timer TimerGetTime) q)\<lparr>inputs := t2 # ts\<rparr>)"
      using q(3) by (simp add: esp_timer_get_time_def call_def)
    have t2: "esp_timer_get_time ((emit (Timer TimerGetTime) q)\<lparr>inputs := t2 # ts\<rparr>)
      = (t2, (emit (Timer TimerGetTime) ((emit (Timer TimerGetTime) q)\<lparr>inputs := t2 # ts\<rparr>))\<lparr>inputs := ts\<rparr>)"
      by (simp add: esp_timer_get_time_def call_def)
    have "u = single_fire_button1_isr p" by (simp add: u_def p_def)
    then show ?thesis
      using p(2) q(2)
      by (subst (asm) single_fire_button1_isr_def)
         (simp add: q_def [symmetric] t1 t2 Let_def ok_def r_def
           BUTTON_DELAY_MIN_CONFIG_def BUTTON_DELAY_MAX_CONFIG_def)
  qed
  have tog: "\<exists>es. trace (Toggle_The_Lights r) = trace r @ es"
    by (auto simp: Toggle_The_Lights_def Open_The_Lights_def Close_The_Lights_def
        send_bri_ctrl_info_def stop_button_check_def timer_stop_def case_prod_beta Let_def)
  have "\<exists>es. trace u = trace q @ es"
    using tog r(2) by (auto simp: u set_delay_time_def esp_timer_get_time_def case_prod_beta Let_def)
  then obtain es where es: "trace u = trace q @ es" by blast
  show ?thesis
    using r(1) es q(4) p(6) by (auto simp: u ok_def Toggle_The_Lights_def)
qed

text \<open>The buttons keep the brightness between the limits. Any sequence of button interrupts
  and dim timer ticks, whatever levels and times they read, keeps
  minimum \<open>\<le>\<close> brightness \<open>\<le>\<close> maximum and leaves the limits alone.\<close>
theorem buttons_keep_range:
  assumes "pct_range s"
  shows "let t = fold button_do evs s in
      Bri_Min_Pct t \<le> Bri_Now_Pct t \<and> Bri_Now_Pct t \<le> Bri_Max_Pct t
      \<and> Bri_Min_Pct t = Bri_Min_Pct s \<and> Bri_Max_Pct t = Bri_Max_Pct s"
proof -
  have "pct_range (fold button_do evs s) \<and> Bri_Min_Pct (fold button_do evs s) = Bri_Min_Pct s
      \<and> Bri_Max_Pct (fold button_do evs s) = Bri_Max_Pct s"
    using assms
    by (induction evs arbitrary: s) (simp_all add: button_do_range button_do_limits)
  then show ?thesis unfolding pct_range_def Let_def by metis
qed

theorem button1_press_release_witness:
  "Bri_Status (single_fire_button1_isr (single_fire_button1_isr
     (app_init\<lparr>inputs := [1000000, 1200000, 1200005, 1200007],
        btns := (btns app_init)\<lparr>button1_intr_type := GPIO_INTR_LOW_LEVEL\<rparr>\<rparr>))) = 1"
  using button1_press_release [of "app_init\<lparr>inputs := [1000000, 1200000, 1200005, 1200007],
        btns := (btns app_init)\<lparr>button1_intr_type := GPIO_INTR_LOW_LEVEL\<rparr>\<rparr>"
      1000000 1200000 1200005 "[1200007]"]
  by (simp add: app_init_def rm.defs)

theorem buttons_keep_range_witness:
  "Bri_Now_Pct (fold button_do [Button2, Button1, DimTimer] (app_init\<lparr>inputs := [1, 0]\<rparr>)) \<le> 100"
proof -
  have "pct_range (app_init\<lparr>inputs := [1, 0]\<rparr>)" "Bri_Max_Pct (app_init\<lparr>inputs := [1, 0]\<rparr>) = 100"
    by (simp_all add: pct_range_def app_init_def rm.defs)
  then show ?thesis
    using buttons_keep_range [of "app_init\<lparr>inputs := [1, 0]\<rparr>" "[Button2, Button1, DimTimer]"]
    by (auto simp: Let_def)
qed

end
