(* ===== verification/App_Adc.thy ===== *)
theory App_Adc
  imports App_Button
begin

text \<open>
  The supply monitor: \<open>ic2_ctrl.c\<close>. The task averages 100 samples a round and stops the Wi-Fi
  when the supply is low; three rounds of a high supply start it again. \<open>ic2_cnt\<close> is the
  task's local variable, an argument of a round. The thresholds are in ADC units.
\<close>

definition GET_ADC_TIMES :: nat where "GET_ADC_TIMES = 100"

definition Is_ADC_CHECK_OK :: "'a app_scheme \<Rightarrow> int" where
  "Is_ADC_CHECK_OK s = (if ADC_CHECK_OK s then 1 else 0)"

fun adc_sum :: "nat \<Rightarrow> u32 \<Rightarrow> 'a app_scheme \<Rightarrow> u32 \<times> 'a app_scheme" where
  "adc_sum 0 acc s = (acc, s)"
| "adc_sum (Suc n) acc s =
     (let (raw, s) = call (App ''adc1_get_raw'' [3]) s in adc_sum n (acc + word_of_int raw) s)"

definition adc_react :: "u16 \<Rightarrow> int \<Rightarrow> 'a app_scheme \<Rightarrow> int \<times> 'a app_scheme" where
  "adc_react reading ic2_cnt s =
     (if 2189 < reading \<and> ic2_cnt = 0 then (ic2_cnt, vTaskDelay 120000 s)
      else if 2330 < reading then
        let s = (if ic2_cnt = 1 then single_fire_led_blink_off_adc (emit (Net WifiStart) s) else s)
        in (ic2_cnt - 1, vTaskDelay 30000 s)
      else if reading < 2189 then
        let s = (if ic2_cnt = 0 then single_fire_led_blink_on_adc (emit (Net WifiStop) s) else s)
        in (3, vTaskDelay 30000 s)
      else (ic2_cnt, s))"

definition single_read_round :: "int \<times> 'a app_scheme \<Rightarrow> int \<times> 'a app_scheme" where
  "single_read_round w =
     (let (ic2_cnt, s) = w;
          (total, s) = adc_sum GET_ADC_TIMES 0 s
      in adc_react (ucast (total div word_of_nat GET_ADC_TIMES)) ic2_cnt s)"

definition single_read_init :: "'a app_scheme \<Rightarrow> int \<times> 'a app_scheme" where
  \<comment> \<open>up to the loop\<close>
  "single_read_init s =
     (let s = emits [App ''adc1_config_width'' [], App ''adc1_config_channel_atten'' [3, 3]] s
      in (0, (vTaskDelay 1000 s)\<lparr>ADC_CHECK_OK := True\<rparr>))"

definition adc_cheak :: "'a app_scheme \<Rightarrow> 'a app_scheme" where
  "adc_cheak s = emit (Os (TaskCreate ''single_read_adc_task'' 2048 5)) s"

subsection \<open>Wi-Fi on and off\<close>

definition wifi_stops :: "effect list \<Rightarrow> int" where
  "wifi_stops es = int (length (filter (\<lambda>e. e = Net WifiStop) es))
     - int (length (filter (\<lambda>e. e = Net WifiStart) es))"

lemma wifi_stops_simps [simp]:
  "wifi_stops [] = 0" "wifi_stops (xs @ ys) = wifi_stops xs + wifi_stops ys"
  "wifi_stops (e # es) = (if e = Net WifiStop then 1 else 0) - (if e = Net WifiStart then 1 else 0)
     + wifi_stops es"
  by (simp_all add: wifi_stops_def)

lemma adc_sum_trace: "wifi_stops (trace (snd (adc_sum n acc s))) = wifi_stops (trace s)"
  by (induction n arbitrary: acc s) (simp_all add: case_prod_beta Let_def)

definition adc_inv :: "int \<Rightarrow> int \<times> 'a app_scheme \<Rightarrow> bool" where
  "adc_inv k w \<longleftrightarrow> 0 \<le> fst w \<and> fst w \<le> 3
     \<and> wifi_stops (trace (snd w)) = k + (if fst w = 0 then 0 else 1)"

lemma led_adc_trace [simp]:
  "wifi_stops (trace (single_fire_led_blink_on_adc s)) = wifi_stops (trace s)"
  "wifi_stops (trace (single_fire_led_blink_off_adc s)) = wifi_stops (trace s)"
  "wifi_stops (trace (vTaskDelay n s)) = wifi_stops (trace s)"
  by (simp_all add: single_fire_led_blink_on_adc_def single_fire_led_blink_off_adc_def
      timer_periodic_def timer_stop_def single_fire_led_off_def gpio_write_def vTaskDelay_def)

lemma adc_react_inv:
  assumes "adc_inv k (c, s)"
  shows "adc_inv k (adc_react r c s)"
proof -
  have "2330 < r \<Longrightarrow> 2189 < r" by (erule order.strict_trans [rotated]) simp
  then show ?thesis
    using assms by (auto simp: adc_inv_def adc_react_def Let_def)
qed

lemma adc_round_inv: "adc_inv k w \<Longrightarrow> adc_inv k (single_read_round w)"
proof (cases w)
  case (Pair c s)
  assume "adc_inv k w"
  then have "adc_inv k (c, snd (adc_sum GET_ADC_TIMES 0 s))"
    using adc_sum_trace [of GET_ADC_TIMES 0 s] by (simp add: Pair adc_inv_def)
  then show ?thesis
    by (simp add: Pair single_read_round_def adc_react_inv case_prod_beta Let_def)
qed

text \<open>The Wi-Fi is stopped and started in turn. After any number of rounds of the supply
  monitor, whatever the samples, the counter is between 0 and 3 and the Wi-Fi has been stopped
  once more than it has been started if the counter is positive, and as often if it is 0.\<close>
theorem adc_wifi_alternates:
  "let w = (single_read_round ^^ n) (single_read_init s)
   in 0 \<le> fst w \<and> fst w \<le> 3
     \<and> wifi_stops (trace (snd w)) = wifi_stops (trace s) + (if fst w = 0 then 0 else 1)"
proof -
  have "adc_inv (wifi_stops (trace s)) (single_read_init s)"
    by (simp add: adc_inv_def single_read_init_def Let_def)
  then have "adc_inv (wifi_stops (trace s)) ((single_read_round ^^ n) (single_read_init s))"
    by (induction n) (simp_all add: adc_round_inv)
  then show ?thesis by (simp add: adc_inv_def Let_def)
qed

text \<open>The supply level the rounds after a stop see.\<close>

fun adc_rounds :: "u16 list \<Rightarrow> int \<times> 'a app_scheme \<Rightarrow> int \<times> 'a app_scheme" where
  "adc_rounds [] w = w"
| "adc_rounds (r # rs) w = adc_rounds rs (adc_react r (fst w) (snd w))"

text \<open>The Wi-Fi comes back only after three high readings. After a low reading, readings that
  bring the counter back to 0 include at least three above 2330; and a reading between the
  thresholds (2189 to 2330) while the Wi-Fi is stopped changes nothing at all: the round ends
  without a delay, so the task runs again at once.\<close>
theorem adc_restart_hysteresis:
  assumes "r0 < 2189" "fst (adc_rounds rs (adc_react r0 c s)) = 0"
  shows "3 \<le> length (filter (\<lambda>r. 2330 < r) rs)
    \<and> (2189 \<le> r \<and> r \<le> 2330 \<and> d \<noteq> 0 \<longrightarrow> adc_react r d s = (d, s))"
proof -
  have "fst w \<le> 3 \<Longrightarrow> 0 \<le> fst w \<Longrightarrow> fst (adc_rounds rs w) = 0
      \<Longrightarrow> fst w \<le> int (length (filter (\<lambda>r. 2330 < r) rs))" for w :: "int \<times> 'a app_scheme"
  proof (induction rs arbitrary: w)
    case (Cons r rs)
    let ?v = "adc_react r (fst w) (snd w)"
    have v: "fst ?v = (if 2330 < r \<and> fst w \<noteq> 0 then fst w - 1
        else if r < 2189 then 3 else fst w)"
      by (auto simp: adc_react_def Let_def not_less word_le_nat_alt word_less_nat_alt)
    have "fst (adc_rounds rs ?v) = 0" using Cons.prems(3) by simp
    then have "fst ?v \<le> int (length (filter (\<lambda>r. 2330 < r) rs))"
      using Cons.prems(1,2) v by (intro Cons.IH) auto
    then show ?case using Cons.prems v by (auto split: if_splits)
  qed simp
  note count = this
  have low: "\<not> 2189 < r0" "\<not> 2330 < r0"
    using assms(1) by (auto simp: word_less_nat_alt)
  have "fst (adc_react r0 c s) = 3"
    using assms(1) low by (simp add: adc_react_def Let_def)
  then have "3 \<le> length (filter (\<lambda>r. 2330 < r) rs)"
    using count [of "adc_react r0 c s"] assms(2) by simp
  moreover have "adc_react r d s = (d, s)" if "2189 \<le> r" "r \<le> 2330" "d \<noteq> 0"
    using that by (auto simp: adc_react_def not_less dest: leD)
  ultimately show ?thesis by blast
qed

theorem adc_restart_hysteresis_witness:
  "adc_react 2200 2 app_init = (2, app_init)"
proof -
  have "fst (adc_rounds [2400, 2400, 2400] (adc_react 2000 0 app_init)) = 0"
    by (simp add: adc_react_def Let_def)
  then show ?thesis
    using adc_restart_hysteresis [of 2000 "[2400, 2400, 2400]" 0 app_init 2200 2] by simp
qed

end
