(* ===== verification/App_Wifi.thy ===== *)
theory App_Wifi
  imports App_Adc
begin

text \<open>
  Wi-Fi start and provisioning: \<open>app_wifi.c\<close>, and the reset button of \<open>app_reset.c\<close>. The two
  indicator callbacks are weak and empty; logs are not modelled. \<open>g_prov_timer\<close> tells whether
  the handle is set.
\<close>

record app_wifi_prov_config =
  mfg :: "u8 list"
  broadcast_prefix :: string
  prov_timeout :: u8
  enable_prov :: bool

definition TIMER_UNIT_1_MIN :: int where "TIMER_UNIT_1_MIN = 60000"

abbreviation wifi_call :: "string \<Rightarrow> int list \<Rightarrow> effect" where
  "wifi_call f args \<equiv> Net (WifiCall f args)"

text \<open>\<open>CONFIG_EXAMPLE_WIFI_LISTEN_INTERVAL\<close> is 10; \<open>WIFI_PS_MAX_MODEM\<close> is 2.\<close>

definition app_wifi_sta_ps_config :: "'a app_scheme \<Rightarrow> esp_err \<times> 'a app_scheme" where
  "app_wifi_sta_ps_config s =
     (let (err, s) = call (wifi_call ''esp_wifi_get_config'' []) s;
          s = error_check err s;
          (err, s) = call (wifi_call ''esp_wifi_set_config'' [10]) s;
          s = error_check err s;
          s = emit (wifi_call ''scan_set_pas_duration'' [280]) s
      in call (wifi_call ''esp_wifi_set_ps'' [2]) s)"

subsection \<open>The provisioning timer\<close>

abbreviation prov_timer :: string where "prov_timer \<equiv> ''prov timeout timer''"

definition app_wifi_prov_timer_reset :: "'a app_scheme \<Rightarrow> 'a app_scheme" where
  "app_wifi_prov_timer_reset s =
     (if g_prov_timer s then emit (Os (RtosTimerReset prov_timer)) s else s)"

definition app_wifi_prov_timer_expiry_get :: "'a app_scheme \<Rightarrow> int \<times> 'a app_scheme" where
  "app_wifi_prov_timer_expiry_get s =
     (if g_prov_timer s then call (App ''xTimerGetExpiryTime'' []) s else (0, s))"

definition app_wifi_prov_timer_stop :: "'a app_scheme \<Rightarrow> 'a app_scheme" where
  "app_wifi_prov_timer_stop s =
     (if g_prov_timer s then (emit (Os (RtosTimerDelete prov_timer)) s)\<lparr>g_prov_timer := False\<rparr> else s)"

definition app_wifi_prov_stop :: "'a app_scheme \<Rightarrow> 'a app_scheme" where
  "app_wifi_prov_stop s = emit (wifi_call ''wifi_prov_mgr_stop_provisioning'' []) s"

definition prov_timeout_timer_cb :: "'a app_scheme \<Rightarrow> 'a app_scheme" where
  "prov_timeout_timer_cb s = app_wifi_prov_timer_stop (app_wifi_prov_stop s)"

definition app_wifi_start_timer :: "u16 \<Rightarrow> 'a app_scheme \<Rightarrow> esp_err \<times> 'a app_scheme" where
  "app_wifi_start_timer timeout s =
     (if timeout = 0 then (ESP_OK, s)
      else
        let s = emit (Os (RtosTimerCreate prov_timer (uint timeout * TIMER_UNIT_1_MIN))) s;
            (ok, s) = alloc s
        in (ESP_OK, emit (Os (RtosTimerStart prov_timer)) (s\<lparr>g_prov_timer := ok\<rparr>)))"

datatype prov_event =
  WIFI_PROV_START | WIFI_PROV_CRED_RECV | WIFI_PROV_CRED_FAIL | WIFI_PROV_CRED_SUCCESS
  | WIFI_PROV_END | ProvOther | NotProv

definition prov_event_handler :: "prov_event \<Rightarrow> 'a app_scheme \<Rightarrow> 'a app_scheme" where
  "prov_event_handler ev s =
     (if ev = NotProv then s
      else
        let s = app_wifi_prov_timer_reset s
        in case ev of
             WIFI_PROV_CRED_FAIL \<Rightarrow> emit (wifi_call ''wifi_prov_mgr_reset_sm_state_on_failure'' []) s
           | WIFI_PROV_END \<Rightarrow> emit (wifi_call ''wifi_prov_mgr_deinit'' []) (app_wifi_prov_timer_stop s)
           | _ \<Rightarrow> s)"

subsection \<open>The service name\<close>

fun ask_bytes :: "nat \<Rightarrow> 'a app_scheme \<Rightarrow> u8 list \<times> 'a app_scheme" where
  "ask_bytes 0 s = ([], s)"
| "ask_bytes (Suc n) s =
     (let (b, s) = ask s; (bs, s) = ask_bytes n s in (word_of_int b # bs, s))"

text \<open>The result is the error and the bytes; they are valid when the error is \<open>ESP_OK\<close>. The SDK's
  answers are the result of the open call, the result and length of the size query, the bytes.\<close>

definition read_random_bytes_from_nvs :: "'a app_scheme \<Rightarrow> esp_err \<times> u8 list \<times> 'a app_scheme" where
  "read_random_bytes_from_nvs s =
     (let (err, s) = call (Net (NvsOpen ''rmaker_creds'')) s
      in if err \<noteq> ESP_OK then (ESP_FAIL, [], s)
         else
           let (err, s) = call (App ''nvs_get_blob'' [0]) s; (len, s) = ask s
           in if err \<noteq> ESP_OK then (ESP_ERR_NOT_FOUND, [], emit (Net NvsClose) s)
              else
                let (ok, s) = alloc s
                in if ok then
                     let s = emit (App ''nvs_get_blob'' [len]) s; (bs, s) = ask_bytes (nat len) s
                     in (ESP_OK, bs, emit (Net NvsClose) s)
                   else (ESP_ERR_NO_MEM, [], emit (Net NvsClose) s))"

definition service_name :: "string \<Rightarrow> nat \<Rightarrow> u8 list \<Rightarrow> string" where
  \<comment> \<open>\<open>snprintf(service_name, max, "%s_%02x%02x%02x", ...)\<close>\<close>
  "service_name prefix mx bs = snprintf mx (prefix @ ''_'' @ hex2 (bs ! 0) @ hex2 (bs ! 1) @ hex2 (bs ! 2))"

definition get_device_service_name :: "string \<Rightarrow> nat \<Rightarrow> 'a app_scheme \<Rightarrow> string \<times> 'a app_scheme" where
  "get_device_service_name prefix mx s =
     (let (err, bs, s) = read_random_bytes_from_nvs s
      in if err \<noteq> ESP_OK \<or> length bs < 3 then
           let (mac, s) = ask_bytes 6 (emit (wifi_call ''esp_wifi_get_mac'' []) s)
           in (service_name prefix mx (drop 3 mac), s)
         else (service_name prefix mx (drop (length bs - 3) bs), s))"

subsection \<open>Start\<close>

definition wifi_init_sta :: "'a app_scheme \<Rightarrow> 'a app_scheme" where
  "wifi_init_sta s =
     (let (err, s) = call (wifi_call ''esp_wifi_set_mode'' [1]) s;
          s = error_check err s;
          (err, s) = app_wifi_sta_ps_config s;
          s = error_check err s;
          (err, s) = call (Net WifiStart) s
      in error_check err s)"

definition app_wifi_init :: "'a app_scheme \<Rightarrow> 'a app_scheme" where
  "app_wifi_init s =
     (let s = emits [wifi_call ''esp_netif_init'' [], wifi_call ''esp_event_loop_create_default'' [],
                Net (EventRegister ''WIFI_PROV_EVENT'' ''ESP_EVENT_ANY_ID'' ''prov_event_handler'')] s;
          s = app_event_register_init s
      in emits [wifi_call ''esp_netif_create_default_wifi_sta'' [], wifi_call ''esp_wifi_init'' []] s)"

definition app_wifi_start :: "app_wifi_prov_config \<Rightarrow> 'a app_scheme \<Rightarrow> esp_err \<times> 'a app_scheme" where
  "app_wifi_start config s =
     (let s = emit (wifi_call ''wifi_prov_mgr_init'' []) s;
          (provisioned, s) = call (wifi_call ''wifi_prov_mgr_is_provisioned'' []) s
      in if provisioned = 0 then
           if enable_prov config then
             let s = emit (Net (ProvSetMfg (mfg config))) s;
                 (name, s) = get_device_service_name (broadcast_prefix config) 12 s;
                 s = emit (Net (ProvStart name)) s
             in (ESP_OK, snd (app_wifi_start_timer (ucast (prov_timeout config)) s))
           else (ESP_FAIL, s)
         else (ESP_OK, wifi_init_sta (emit (wifi_call ''wifi_prov_mgr_deinit'' []) s)))"

subsection \<open>The reset button\<close>

definition wifi_reset_trigger :: "'a app_scheme \<Rightarrow> 'a app_scheme" where
  "wifi_reset_trigger s = snd (esp_rmaker_wifi_reset 0 2 s)"

definition factory_reset_trigger :: "'a app_scheme \<Rightarrow> 'a app_scheme" where
  "factory_reset_trigger s = snd (esp_rmaker_factory_reset 0 2 s)"

definition app_reset_button_register ::
  "int option \<Rightarrow> u8 \<Rightarrow> u8 \<Rightarrow> 'a app_scheme \<Rightarrow> esp_err \<times> 'a app_scheme" where
  "app_reset_button_register btn_handle wifi_reset_timeout factory_reset_timeout s =
     (if btn_handle = None then (ESP_ERR_INVALID_ARG, s)
      else
        let reg = (\<lambda>t release press s. emits [App (''on_release:'' @ release) [uint t],
                     App (''on_press:'' @ press) [uint t]] s);
            s = (if wifi_reset_timeout \<noteq> 0
                 then reg wifi_reset_timeout ''wifi_reset_trigger'' ''wifi_reset_indicate'' s else s);
            s = (if factory_reset_timeout \<noteq> 0
                 then reg factory_reset_timeout ''factory_reset_trigger'' ''factory_reset_indicate'' s else s)
        in (ESP_OK, s))"

subsection \<open>Properties\<close>

lemma ask_bytes_length [simp]: "length (fst (ask_bytes n s)) = n"
  by (induction n arbitrary: s) (simp_all add: case_prod_beta Let_def)

lemma service_name_fits:
  assumes "length prefix + 8 \<le> mx"
  shows "service_name prefix mx [a, b, c] = prefix @ ''_'' @ hex2 a @ hex2 b @ hex2 c"
proof -
  have "length (prefix @ ''_'' @ hex2 a @ hex2 b @ hex2 c) < mx" using assms by simp
  from snprintf_id [OF this] show ?thesis by (simp add: service_name_def)
qed

lemma three: "length xs = 3 \<Longrightarrow> \<exists>a b c. xs = [a, b, c]"
  by (auto simp: length_Suc_conv numeral_eq_Suc)

text \<open>The advertised name. Whatever the storage and the driver answer, a prefix of at most four
  characters gives a service name that fits the 12-byte buffer whole: the prefix, an underscore
  and six hex digits of three bytes, so it is never cut.\<close>
theorem service_name_whole:
  assumes "length prefix \<le> 4" "get_device_service_name prefix 12 s = (name, t)"
  shows "(\<exists>a b c. name = prefix @ ''_'' @ hex2 a @ hex2 b @ hex2 c) \<and> length name < 12"
proof -
  obtain err bs u where r: "read_random_bytes_from_nvs s = (err, bs, u)" by (metis prod_cases3)
  obtain xs where "name = service_name prefix 12 xs" "length xs = 3"
  proof (cases "err \<noteq> ESP_OK \<or> length bs < 3")
    case True
    then show ?thesis
      using assms(2) that [of "drop 3 (fst (ask_bytes 6 (emit (wifi_call ''esp_wifi_get_mac'' []) u)))"]
      by (auto simp: get_device_service_name_def r case_prod_beta)
  next
    case False
    then show ?thesis
      using assms(2) that [of "drop (length bs - 3) bs"]
      by (auto simp: get_device_service_name_def r)
  qed
  then obtain a b c where "name = service_name prefix 12 [a, b, c]" using three by blast
  then have "name = prefix @ ''_'' @ hex2 a @ hex2 b @ hex2 c"
    using assms(1) service_name_fits [of prefix 12 a b c] by simp
  then show ?thesis using assms(1) by auto
qed

theorem service_name_whole_witness:
  "length (fst (get_device_service_name ''Nova'' 12 app_init)) < 12"
  using service_name_whole [OF _ prod.collapse [symmetric], of "''Nova''" app_init] by simp

text \<open>The life of the provisioning timer: events, its expiry, and the timer query.\<close>

datatype prov_op = ProvEvent prov_event | ProvTimeout | ProvExpiryGet

fun prov_do :: "prov_op \<Rightarrow> 'a app_scheme \<Rightarrow> 'a app_scheme" where
  "prov_do (ProvEvent ev) s = prov_event_handler ev s"
| "prov_do ProvTimeout s = prov_timeout_timer_cb s"
| "prov_do ProvExpiryGet s = snd (app_wifi_prov_timer_expiry_get s)"

definition prov_inv :: "int \<Rightarrow> 'a app_scheme \<Rightarrow> bool" where
  "prov_inv k s \<longleftrightarrow> starts prov_timer (trace s) = k + (if g_prov_timer s then 1 else 0)"

lemma prov_do_inv: "prov_inv k s \<Longrightarrow> prov_inv k (prov_do op s)"
proof (cases op)
  case (ProvEvent ev)
  assume "prov_inv k s"
  then show ?thesis
    by (cases ev) (simp_all add: ProvEvent prov_inv_def prov_event_handler_def
        app_wifi_prov_timer_reset_def app_wifi_prov_timer_stop_def starts_one Let_def)
qed (simp_all add: prov_inv_def prov_timeout_timer_cb_def app_wifi_prov_timer_stop_def
    app_wifi_prov_stop_def app_wifi_prov_timer_expiry_get_def starts_one case_prod_beta)

text \<open>The provisioning timer is deleted once. After the timer has been started with a non-zero
  timeout and a successful allocation, any sequence of provisioning events, expiries and queries
  deletes it at most once, and exactly once as soon as provisioning has ended or timed out.\<close>
theorem prov_timer_deleted_once:
  assumes "timeout \<noteq> 0" "mem_ok s = []" "snd (app_wifi_start_timer timeout s) = t"
  shows "starts prov_timer (trace (fold prov_do ops t)) - starts prov_timer (trace s) \<in> {0, 1}
    \<and> (ProvTimeout \<in> set ops \<or> ProvEvent WIFI_PROV_END \<in> set ops \<longrightarrow>
        starts prov_timer (trace (fold prov_do ops t)) = starts prov_timer (trace s))"
proof -
  let ?k = "starts prov_timer (trace s)"
  have i: "prov_inv ?k t"
    using assms by (auto simp: prov_inv_def app_wifi_start_timer_def starts_one Let_def)
  have inv: "prov_inv k u \<Longrightarrow> prov_inv k (fold prov_do ops u)" for k and u :: "'a app_scheme"
    by (induction ops arbitrary: u) (simp_all add: prov_do_inv)
  have off: "\<not> g_prov_timer u \<Longrightarrow> \<not> g_prov_timer (prov_do op u)" for op and u :: "'a app_scheme"
    by (cases op)
       (auto simp: prov_event_handler_def prov_timeout_timer_cb_def app_wifi_prov_timer_stop_def
         app_wifi_prov_stop_def app_wifi_prov_timer_expiry_get_def app_wifi_prov_timer_reset_def Let_def
         split: prov_event.split)
  have off': "\<not> g_prov_timer u \<Longrightarrow> \<not> g_prov_timer (fold prov_do ops u)" for ops and u :: "'a app_scheme"
    by (induction ops arbitrary: u) (simp_all add: off)
  have ends: "op = ProvTimeout \<or> op = ProvEvent WIFI_PROV_END \<Longrightarrow> \<not> g_prov_timer (prov_do op u)"
    for op and u :: "'a app_scheme"
    by (auto simp: prov_timeout_timer_cb_def app_wifi_prov_timer_stop_def prov_event_handler_def
        Let_def split: if_splits)
  have "ProvTimeout \<in> set ops \<or> ProvEvent WIFI_PROV_END \<in> set ops
      \<Longrightarrow> \<not> g_prov_timer (fold prov_do ops u)" for u :: "'a app_scheme"
  proof (induction ops arbitrary: u)
    case (Cons op ops)
    show ?case
      using Cons ends [where op = op and u = u] off' [where ops = ops and u = "prov_do op u"] by auto
  qed simp
  then show ?thesis
    using inv [OF i] by (auto simp: prov_inv_def)
qed

theorem prov_timer_deleted_once_witness:
  "starts prov_timer (trace (fold prov_do [ProvEvent WIFI_PROV_START, ProvTimeout,
      ProvEvent WIFI_PROV_END] (snd (app_wifi_start_timer 1 app_init)))) = 0"
proof -
  have "mem_ok app_init = []" "starts prov_timer (trace app_init) = 0"
    by (simp_all add: app_init_def rm_init_def rm.defs starts_def)
  then show ?thesis
    using prov_timer_deleted_once [of 1 app_init _
      "[ProvEvent WIFI_PROV_START, ProvTimeout, ProvEvent WIFI_PROV_END]"] by simp
qed

end
