(* ===== verification/Rm_Node_Config.thy ===== *)
theory Rm_Node_Config
  imports Rm_Standard
begin

text \<open>
  The node configuration: \<open>esp_rmaker_node_config.c\<close> (its two value printers are in
  \<open>Rm_Param\<close>). The document describes the node, its attributes and its devices and services
  with their parameters; it is generated twice, first without a buffer to learn its length.
  A registered node always has its info structure; without one the C code would crash.
\<close>

definition ESP_RMAKER_CONFIG_VERSION :: string where
  "ESP_RMAKER_CONFIG_VERSION = ''2020-03-20''"

definition set_str :: "string \<Rightarrow> string option \<Rightarrow> json_gen_str \<Rightarrow> json_gen_str" where
  "set_str k v j = snd (json_gen_obj_set_string k v j)"

definition esp_rmaker_report_info :: "'a rm_scheme \<Rightarrow> json_gen_str \<Rightarrow> json_gen_str" where
  "esp_rmaker_report_info s j =
     (let info = (case esp_rmaker_node_get_info (esp_rmaker_get_node s) s of Some i \<Rightarrow> i
         | None \<Rightarrow> \<lparr>ni_name = None, ni_type = None, ni_fw_version = None, ni_model = None\<rparr>);
          j = set_str ''node_id'' (esp_rmaker_get_node_id s) j;
          j = set_str ''config_version'' (Some ESP_RMAKER_CONFIG_VERSION) j;
          j = snd (json_gen_push_object ''info'' j);
          j = set_str ''name'' (ni_name info) j;
          j = set_str ''fw_version'' (ni_fw_version info) j;
          j = set_str ''type'' (ni_type info) j;
          j = set_str ''model'' (ni_model info) j
      in snd (json_gen_pop_object j))"

definition esp_rmaker_report_attribute :: "string \<times> string \<Rightarrow> json_gen_str \<Rightarrow> json_gen_str" where
  "esp_rmaker_report_attribute attr j =
     (let j = snd (json_gen_start_object j);
          j = set_str ''name'' (Some (fst attr)) j;
          j = set_str ''value'' (Some (snd attr)) j
      in snd (json_gen_end_object j))"

definition report_attributes :: "(string \<times> string) list \<Rightarrow> json_gen_str \<Rightarrow> json_gen_str" where
  \<comment> \<open>the array of an attribute chain that is not empty\<close>
  "report_attributes attrs j =
     snd (json_gen_pop_array (fold esp_rmaker_report_attribute attrs
       (snd (json_gen_push_array ''attributes'' j))))"

definition esp_rmaker_report_node_attributes :: "'a rm_scheme \<Rightarrow> json_gen_str \<Rightarrow> json_gen_str" where
  "esp_rmaker_report_node_attributes s j =
     (let attrs = esp_rmaker_node_get_first_attribute (esp_rmaker_get_node s) s
      in if attrs = [] then j else report_attributes attrs j)"

text \<open>The \<open>i\<close> member of the step's union is not zero.\<close>

definition step_given :: "param_val \<Rightarrow> bool" where
  "step_given v = (case v of VInt i \<Rightarrow> i \<noteq> 0 | VFloat f \<Rightarrow> f \<noteq> 0 | VBool b \<Rightarrow> b
     | VInvalid \<Rightarrow> False | _ \<Rightarrow> val_str v \<noteq> None)"

definition report_properties :: "u8 \<Rightarrow> json_gen_str \<Rightarrow> json_gen_str" where
  "report_properties flags j =
     (let j = snd (json_gen_push_array ''properties'' j);
          j = (if prop_bit 1 flags then snd (json_gen_arr_set_string (Some ''read'') j) else j);
          j = (if prop_bit 0 flags then snd (json_gen_arr_set_string (Some ''write'') j) else j);
          j = (if prop_bit 2 flags then snd (json_gen_arr_set_string (Some ''time_series'') j) else j)
      in snd (json_gen_pop_array j))"

definition report_bounds :: "param_val \<times> param_val \<times> param_val \<Rightarrow> json_gen_str \<Rightarrow> json_gen_str" where
  "report_bounds b j =
     (case b of (mn, mx, st) \<Rightarrow>
        let j = snd (json_gen_push_object ''bounds'' j);
            j = esp_rmaker_report_value (Some mn) ''min'' j;
            j = esp_rmaker_report_value (Some mx) ''max'' j;
            j = (if step_given st then esp_rmaker_report_value (Some st) ''step'' j else j)
        in snd (json_gen_pop_object j))"

definition report_strs :: "string list \<Rightarrow> json_gen_str \<Rightarrow> json_gen_str" where
  "report_strs strs j =
     snd (json_gen_pop_array (fold (\<lambda>t j. snd (json_gen_arr_set_string (Some t) j)) strs
       (snd (json_gen_push_array ''valid_strs'' j))))"

definition esp_rmaker_report_param_config :: "rm_param \<Rightarrow> json_gen_str \<Rightarrow> json_gen_str" where
  "esp_rmaker_report_param_config p j =
     (let j = snd (json_gen_start_object j);
          j = set_str ''name'' (Some (p_name p)) j;
          j = (if p_type p \<noteq> None then set_str ''type'' (p_type p) j else j);
          j = esp_rmaker_report_data_type (val_type (p_val p)) j;
          j = report_properties (prop_flags p) j;
          j = (case p_bounds p of None \<Rightarrow> j | Some b \<Rightarrow> report_bounds b j);
          j = (case p_strs p of None \<Rightarrow> j | Some strs \<Rightarrow> report_strs strs j);
          j = (if p_ui_type p \<noteq> None then set_str ''ui_type'' (p_ui_type p) j else j)
      in snd (json_gen_end_object j))"

definition report_device :: "'a rm_scheme \<Rightarrow> rm_device \<Rightarrow> json_gen_str \<Rightarrow> json_gen_str" where
  "report_device s dev j =
     (let j = snd (json_gen_start_object j);
          j = set_str ''name'' (Some (d_name dev)) j;
          j = (if d_type dev \<noteq> None then set_str ''type'' (d_type dev) j else j);
          j = (if d_subtype dev \<noteq> None then set_str ''subtype'' (d_subtype dev) j else j);
          j = (if d_attrs dev \<noteq> [] then report_attributes (d_attrs dev) j else j);
          j = (case d_primary dev of None \<Rightarrow> j
               | Some p \<Rightarrow> set_str ''primary'' (Some (p_name (pheap s p))) j);
          j = (if d_params dev \<noteq> [] then
                 snd (json_gen_pop_array (fold (\<lambda>p. esp_rmaker_report_param_config (pheap s p))
                   (d_params dev) (snd (json_gen_push_array ''params'' j))))
               else j)
      in snd (json_gen_end_object j))"

definition esp_rmaker_report_devices_or_services ::
  "'a rm_scheme \<Rightarrow> string \<Rightarrow> json_gen_str \<Rightarrow> json_gen_str" where
  "esp_rmaker_report_devices_or_services s key j =
     (let ds = node_devices s; want = (key = ''services'')
      in if ds = [] then j
         else snd (json_gen_pop_array
           (fold (\<lambda>d j. if is_service (dheap s d) = want then report_device s (dheap s d) j else j)
              ds (snd (json_gen_push_array key j)))))"

text \<open>The result is the C result and the buffer's text.\<close>

definition esp_rmaker_get_node_config_into :: "nat option \<Rightarrow> 'a rm_scheme \<Rightarrow> int \<times> string option" where
  "esp_rmaker_get_node_config_into buf s =
     (let j = json_gen_str_start (buf \<noteq> None) (case buf of None \<Rightarrow> 0 | Some n \<Rightarrow> int n) False;
          j = snd (json_gen_start_object j);
          j = esp_rmaker_report_info s j;
          j = esp_rmaker_report_node_attributes s j;
          j = esp_rmaker_report_devices_or_services s ''devices'' j;
          j = esp_rmaker_report_devices_or_services s ''services'' j;
          (r, j) = json_gen_end_object j;
          (len, txt, _) = json_gen_str_end j
      in if r < 0 then (- 1, txt) else (len, txt))"

definition esp_rmaker_get_node_config :: "'a rm_scheme \<Rightarrow> string option \<times> 'a rm_scheme" where
  "esp_rmaker_get_node_config s =
     (let (req_size, _) = esp_rmaker_get_node_config_into None s
      in if req_size < 0 then (None, s)
         else let (ok, s) = alloc s
              in if \<not> ok then (None, s)
                 else let (r, txt) = esp_rmaker_get_node_config_into (Some (nat req_size)) s
                      in if r < 0 then (None, s) else (txt, s))"

definition esp_rmaker_report_node_config :: "'a rm_scheme \<Rightarrow> esp_err \<times> 'a rm_scheme" where
  "esp_rmaker_report_node_config s =
     (let (payload, s) = esp_rmaker_get_node_config s
      in case payload of None \<Rightarrow> (ESP_FAIL, s)
         | Some t \<Rightarrow> esp_rmaker_mqtt_publish (node_topic 100 ''config'' s) t s)"

subsection \<open>The reference document\<close>

abbreviation lit :: "string option \<Rightarrow> jtree" where
  "lit v \<equiv> JLit (quoted (str_opt v))"

definition opt_member :: "string \<Rightarrow> string option \<Rightarrow> (string \<times> jtree) list" where
  "opt_member k v = (if v = None then [] else [(k, lit v)])"

definition attr_doc :: "string \<times> string \<Rightarrow> jtree" where
  "attr_doc a = JObj [(''name'', lit (Some (fst a))), (''value'', lit (Some (snd a)))]"

definition param_doc :: "rm_param \<Rightarrow> jtree" where
  "param_doc p = JObj
     ([(''name'', lit (Some (p_name p)))] @ opt_member ''type'' (p_type p)
      @ [(''data_type'', lit (Some (data_type_name (val_type (p_val p))))),
         (''properties'', JArr ((if prop_bit 1 (prop_flags p) then [lit (Some ''read'')] else [])
            @ (if prop_bit 0 (prop_flags p) then [lit (Some ''write'')] else [])
            @ (if prop_bit 2 (prop_flags p) then [lit (Some ''time_series'')] else [])))]
      @ (case p_bounds p of None \<Rightarrow> [] | Some (mn, mx, st) \<Rightarrow>
           [(''bounds'', JObj (val_member ''min'' mn @ val_member ''max'' mx
              @ (if step_given st then val_member ''step'' st else [])))])
      @ (case p_strs p of None \<Rightarrow> [] | Some strs \<Rightarrow>
           [(''valid_strs'', JArr (map (\<lambda>t. lit (Some t)) strs))])
      @ opt_member ''ui_type'' (p_ui_type p))"

definition device_doc :: "'a rm_scheme \<Rightarrow> rm_device \<Rightarrow> jtree" where
  "device_doc s dev = JObj
     ([(''name'', lit (Some (d_name dev)))] @ opt_member ''type'' (d_type dev)
      @ opt_member ''subtype'' (d_subtype dev)
      @ (if d_attrs dev = [] then [] else [(''attributes'', JArr (map attr_doc (d_attrs dev)))])
      @ (case d_primary dev of None \<Rightarrow> [] | Some p \<Rightarrow> [(''primary'', lit (Some (p_name (pheap s p))))])
      @ (if d_params dev = [] then []
         else [(''params'', JArr (map (\<lambda>p. param_doc (pheap s p)) (d_params dev)))]))"

definition kind_doc :: "'a rm_scheme \<Rightarrow> string \<Rightarrow> (string \<times> jtree) list" where
  "kind_doc s key =
     (if node_devices s = [] then []
      else [(key, JArr (map (\<lambda>d. device_doc s (dheap s d))
              (filter (\<lambda>d. is_service (dheap s d) = (key = ''services'')) (node_devices s))))])"

definition config_doc :: "'a rm_scheme \<Rightarrow> jtree" where
  "config_doc s =
     (let info = (case esp_rmaker_node_get_info (esp_rmaker_get_node s) s of Some i \<Rightarrow> i
         | None \<Rightarrow> \<lparr>ni_name = None, ni_type = None, ni_fw_version = None, ni_model = None\<rparr>);
          attrs = esp_rmaker_node_get_first_attribute (esp_rmaker_get_node s) s
      in JObj
       ([(''node_id'', lit (esp_rmaker_get_node_id s)),
         (''config_version'', lit (Some ESP_RMAKER_CONFIG_VERSION)),
         (''info'', JObj [(''name'', lit (ni_name info)), (''fw_version'', lit (ni_fw_version info)),
            (''type'', lit (ni_type info)), (''model'', lit (ni_model info))])]
        @ (if attrs = [] then [] else [(''attributes'', JArr (map attr_doc attrs))])
        @ kind_doc s ''devices'' @ kind_doc s ''services''))"

subsection \<open>The generator prints the reference\<close>

text \<open>Inside an array with the elements \<open>vs\<close> printed so far.\<close>

definition json_arr :: "nat option \<Rightarrow> string \<Rightarrow> jtree list \<Rightarrow> json_gen_str" where
  "json_arr cap T vs = json_of cap (T @ joined (map jprint vs)) (vs \<noteq> [])"

named_theorems doc_rules \<open>operations inside objects and arrays\<close>

definition member_at :: "string \<Rightarrow> (string \<times> jtree) list \<Rightarrow> string \<Rightarrow> string" where
  \<comment> \<open>the text in front of the value of the next member of an object\<close>
  "member_at T ms k = T @ joined (map member_txt ms) @ comma_txt (ms \<noteq> []) @ name_txt k"

definition elem_at :: "string \<Rightarrow> jtree list \<Rightarrow> string" where
  "elem_at T vs = T @ joined (map jprint vs) @ comma_txt (vs \<noteq> [])"

lemma set_str_in [doc_rules]: "set_str k v (json_in cap T ms) = json_in cap T (ms @ [(k, lit v)])"
  by (simp add: set_str_def json_in_def json_rules joined_snoc member_txt_def)

lemma data_type_in [doc_rules]:
  "esp_rmaker_report_data_type t (json_in cap T ms)
     = json_in cap T (ms @ [(''data_type'', lit (Some (data_type_name t)))])"
  using set_str_in [of "''data_type''" "Some (data_type_name t)" cap T ms]
  by (simp add: esp_rmaker_report_data_type_def set_str_def)

lemma push_in [doc_rules]:
  "snd (json_gen_push_object k (json_in cap T ms)) = json_in cap (member_at T ms k @ ''{'') []"
  "snd (json_gen_push_array k (json_in cap T ms)) = json_arr cap (member_at T ms k @ ''['') []"
  by (simp_all add: json_in_def json_arr_def member_at_def json_rules)

lemma pop_in [doc_rules]:
  "snd (json_gen_pop_object (json_in cap (member_at T ms k @ ''{'') ks))
     = json_in cap T (ms @ [(k, JObj ks)])"
  "snd (json_gen_pop_array (json_arr cap (member_at T ms k @ ''['') vs))
     = json_in cap T (ms @ [(k, JArr vs)])"
  by (simp_all add: json_in_def json_arr_def member_at_def json_rules joined_snoc member_txt_def
      jprint_JObj del: jprint.simps(2))

lemma start_in [doc_rules]:
  "snd (json_gen_start_object (json_arr cap T vs)) = json_in cap (elem_at T vs @ ''{'') []"
  by (simp add: json_in_def json_arr_def elem_at_def json_rules)

lemma end_in [doc_rules]:
  "snd (json_gen_end_object (json_in cap (elem_at T vs @ ''{'') ms)) = json_arr cap T (vs @ [JObj ms])"
  by (simp add: json_in_def json_arr_def elem_at_def json_rules joined_snoc jprint_JObj
      del: jprint.simps(2))

lemma arr_string_in [doc_rules]:
  "snd (json_gen_arr_set_string v (json_arr cap T vs)) = json_arr cap T (vs @ [lit v])"
  by (simp add: json_arr_def json_rules joined_snoc)

lemma attribute_in [doc_rules]:
  "esp_rmaker_report_attribute a (json_arr cap T vs) = json_arr cap T (vs @ [attr_doc a])"
  by (simp add: esp_rmaker_report_attribute_def doc_rules attr_doc_def)

lemma fold_arr:
  assumes "\<And>x vs. f x (json_arr cap T vs) = json_arr cap T (vs @ [g x])"
  shows "fold f xs (json_arr cap T vs) = json_arr cap T (vs @ map g xs)"
  by (induction xs arbitrary: vs) (simp_all add: assms)

lemma attributes_in [doc_rules]:
  "report_attributes as (json_in cap T ms)
     = json_in cap T (ms @ [(''attributes'', JArr (map attr_doc as))])"
  using fold_arr [of esp_rmaker_report_attribute cap _ attr_doc as "[]"]
  by (simp add: report_attributes_def doc_rules)

lemma properties_in [doc_rules]:
  "report_properties flags (json_in cap T ms) = json_in cap T (ms @ [(''properties'',
     JArr ((if prop_bit 1 flags then [lit (Some ''read'')] else [])
        @ (if prop_bit 0 flags then [lit (Some ''write'')] else [])
        @ (if prop_bit 2 flags then [lit (Some ''time_series'')] else [])))])"
  by (simp add: report_properties_def doc_rules Let_def)

lemma bounds_in [doc_rules]:
  "report_bounds (mn, mx, st) (json_in cap T ms)
     = json_in cap T (ms @ [(''bounds'', JObj (val_member ''min'' mn @ val_member ''max'' mx
         @ (if step_given st then val_member ''step'' st else [])))])"
  by (simp add: report_bounds_def doc_rules report_value_in Let_def)

lemma strs_in [doc_rules]:
  "report_strs strs (json_in cap T ms)
     = json_in cap T (ms @ [(''valid_strs'', JArr (map (\<lambda>t. lit (Some t)) strs))])"
  using fold_arr [of "\<lambda>t j. snd (json_gen_arr_set_string (Some t) j)" cap _ "\<lambda>t. lit (Some t)" strs "[]"]
  by (simp add: report_strs_def doc_rules)

lemma opt_in:
  "(if v \<noteq> None then json_in cap T (ms @ [(k, lit v)]) else json_in cap T ms)
     = json_in cap T (ms @ opt_member k v)"
  by (simp add: opt_member_def)

lemma param_config_in [doc_rules]:
  "esp_rmaker_report_param_config p (json_arr cap T vs) = json_arr cap T (vs @ [param_doc p])"
proof -
  have b: "(case p_bounds p of None \<Rightarrow> json_in cap U ms | Some b \<Rightarrow> report_bounds b (json_in cap U ms))
      = json_in cap U (ms @ (case p_bounds p of None \<Rightarrow> [] | Some (mn, mx, st) \<Rightarrow>
           [(''bounds'', JObj (val_member ''min'' mn @ val_member ''max'' mx
              @ (if step_given st then val_member ''step'' st else [])))]))" for U ms
    by (cases "p_bounds p") (auto simp: bounds_in)
  have t: "(case p_strs p of None \<Rightarrow> json_in cap U ms | Some strs \<Rightarrow> report_strs strs (json_in cap U ms))
      = json_in cap U (ms @ (case p_strs p of None \<Rightarrow> [] | Some strs \<Rightarrow>
           [(''valid_strs'', JArr (map (\<lambda>t. lit (Some t)) strs))]))" for U ms
    by (cases "p_strs p") (auto simp: strs_in)
  show ?thesis
    unfolding esp_rmaker_report_param_config_def Let_def start_in set_str_in opt_in data_type_in
      properties_in b t end_in param_doc_def
    by simp
qed

lemma params_in:
  "snd (json_gen_pop_array (fold (\<lambda>p. esp_rmaker_report_param_config (pheap s p)) ps
      (snd (json_gen_push_array ''params'' (json_in cap T ms)))))
   = json_in cap T (ms @ [(''params'', JArr (map (\<lambda>p. param_doc (pheap s p)) ps))])"
  using fold_arr [of "\<lambda>p. esp_rmaker_report_param_config (pheap s p)" cap _
      "\<lambda>p. param_doc (pheap s p)" ps "[]"]
  by (simp add: doc_rules)

lemma device_in [doc_rules]:
  "report_device s dev (json_arr cap T vs) = json_arr cap T (vs @ [device_doc s dev])"
proof -
  have a: "(if d_attrs dev \<noteq> [] then report_attributes (d_attrs dev) (json_in cap U ms) else json_in cap U ms)
      = json_in cap U (ms @ (if d_attrs dev = [] then []
          else [(''attributes'', JArr (map attr_doc (d_attrs dev)))]))" for U ms
    by (simp add: attributes_in)
  have p: "(case d_primary dev of None \<Rightarrow> json_in cap U ms
        | Some p \<Rightarrow> json_in cap U (ms @ [(''primary'', lit (Some (p_name (pheap s p))))]))
      = json_in cap U (ms @ (case d_primary dev of None \<Rightarrow> []
        | Some p \<Rightarrow> [(''primary'', lit (Some (p_name (pheap s p))))]))" for U ms
    by (cases "d_primary dev") (simp_all add: set_str_in)
  have q: "(if d_params dev \<noteq> [] then
        snd (json_gen_pop_array (fold (\<lambda>p. esp_rmaker_report_param_config (pheap s p))
                   (d_params dev) (snd (json_gen_push_array ''params'' (json_in cap U ms)))))
      else json_in cap U ms)
    = json_in cap U (ms @ (if d_params dev = [] then []
        else [(''params'', JArr (map (\<lambda>p. param_doc (pheap s p)) (d_params dev)))]))" for U ms
    by (simp add: params_in)
  show ?thesis
    unfolding report_device_def Let_def start_in set_str_in opt_in a p q end_in device_doc_def
    by simp
qed

lemma devices_fold:
  "fold (\<lambda>d j. if is_service (dheap s d) = want then report_device s (dheap s d) j else j) ds
      (json_arr cap T vs)
    = json_arr cap T (vs @ map (\<lambda>d. device_doc s (dheap s d)) (filter (\<lambda>d. is_service (dheap s d) = want) ds))"
  by (induction ds arbitrary: vs) (simp_all add: device_in)

lemma devices_in [doc_rules]:
  "esp_rmaker_report_devices_or_services s key (json_in cap T ms) = json_in cap T (ms @ kind_doc s key)"
  by (simp add: esp_rmaker_report_devices_or_services_def kind_doc_def devices_fold push_in pop_in
      Let_def)

lemma node_attributes_in [doc_rules]:
  "esp_rmaker_report_node_attributes s (json_in cap T ms)
     = json_in cap T (ms @ (let attrs = esp_rmaker_node_get_first_attribute (esp_rmaker_get_node s) s
         in if attrs = [] then [] else [(''attributes'', JArr (map attr_doc attrs))]))"
  by (simp add: esp_rmaker_report_node_attributes_def attributes_in Let_def)

lemma node_config_into_eq:
  "esp_rmaker_get_node_config_into (map_option Suc cap) s =
     (let T = jprint (config_doc s)
      in (if json_rc cap T < 0 then - 1 else int (length T) + 1, map_option (\<lambda>n. take n T) cap))"
proof -
  let ?T = "jprint (config_doc s)"
  have start: "json_gen_str_start (map_option Suc cap \<noteq> None)
      (case map_option Suc cap of None \<Rightarrow> 0 | Some n \<Rightarrow> int n) False = json_of cap [] False"
    by (cases cap) (simp_all add: json_rules add.commute flip: json_of_start)
  have open_obj: "snd (json_gen_start_object (json_of cap [] False)) = json_in cap ''{'' []"
    by (simp add: json_of_containers comma_txt_def flip: json_in_Nil)
  obtain ms where ms: "config_doc s = JObj ms"
      "esp_rmaker_report_devices_or_services s ''services''
        (esp_rmaker_report_devices_or_services s ''devices''
          (esp_rmaker_report_node_attributes s (esp_rmaker_report_info s (json_in cap ''{'' []))))
       = json_in cap ''{'' ms"
    by (simp add: config_doc_def esp_rmaker_report_info_def doc_rules Let_def)
  have fin: "json_gen_end_object (json_in cap ''{'' ms) = (json_rc cap ?T, json_of cap ?T True)"
    by (simp add: json_in_def json_rules ms(1) jprint_JObj del: jprint.simps(2))
  show ?thesis
    unfolding esp_rmaker_get_node_config_into_def Let_def start open_obj ms(2) fin
    by (cases cap) (simp_all add: json_rules Let_def)
qed

lemma config_doc_alloc [simp]: "config_doc (snd (alloc s)) = config_doc s"
proof -
  have f: "esp_rmaker_get_node (snd (alloc s)) = esp_rmaker_get_node s"
    "nheap (snd (alloc s)) = nheap s" "dheap (snd (alloc s)) = dheap s" "pheap (snd (alloc s)) = pheap s"
    "esp_rmaker_get_node_id (snd (alloc s)) = esp_rmaker_get_node_id s"
    by (simp_all add: esp_rmaker_get_node_def esp_rmaker_get_node_id_def)
  have d: "device_doc (snd (alloc s)) = device_doc s"
    by (simp add: device_doc_def f fun_eq_iff cong: option.case_cong)
  have nd: "node_devices (snd (alloc s)) = node_devices s"
    by (simp add: node_devices_def esp_rmaker_node_get_first_device_def f split: option.split)
  have k: "kind_doc (snd (alloc s)) key = kind_doc s key" for key
    by (simp add: kind_doc_def d nd f)
  show ?thesis
    by (simp add: config_doc_def k f esp_rmaker_node_get_info_def
        esp_rmaker_node_get_first_attribute_def cong: option.case_cong)
qed

lemma get_node_config_eq:
  "esp_rmaker_get_node_config s =
     (if fst (alloc s) then Some (jprint (config_doc s)) else None, snd (alloc s))"
proof -
  let ?T = "jprint (config_doc s)"
  have fit: "esp_rmaker_get_node_config_into (Some (nat (int (length ?T) + 1))) (snd (alloc s))
      = (int (length ?T) + 1, Some ?T)"
    using node_config_into_eq [of "Some (length ?T)" "snd (alloc s)"]
    by (simp add: json_rc_def Let_def)
  have none: "esp_rmaker_get_node_config_into None s = (int (length ?T) + 1, None)"
    using node_config_into_eq [of None s] by (simp add: json_rc_def Let_def)
  show ?thesis
    unfolding esp_rmaker_get_node_config_def none Let_def
    using fit by (simp add: case_prod_beta)
qed

text \<open>C24. The node configuration. \<open>esp_rmaker_report_node_config\<close> publishes exactly the document
  of the node (its id, the configuration version, its info, attributes, devices and services with
  all their parameters), in a buffer that is just large enough, on the node's config topic; if
  there is no memory for the buffer it reports \<open>ESP_FAIL\<close> and publishes nothing.\<close>
theorem node_config_published:
  assumes "mqtt_publish_set s"
  shows "esp_rmaker_report_node_config s =
    (if fst (alloc s)
     then call (Net (MqttPublish (node_topic 100 ''config'' s) (jprint (config_doc s)))) (snd (alloc s))
     else (ESP_FAIL, snd (alloc s)))"
proof -
  have "mqtt_publish_set (snd (alloc s))" using assms by simp
  moreover have "node_topic 100 ''config'' (snd (alloc s)) = node_topic 100 ''config'' s"
    by (simp add: node_topic_def esp_rmaker_get_node_id_def)
  ultimately show ?thesis
    by (simp add: esp_rmaker_report_node_config_def get_node_config_eq esp_rmaker_mqtt_publish_def)
qed

theorem node_config_published_witness:
  "trace (snd (esp_rmaker_report_node_config ex_rm))
     = [Net (MqttPublish ''node/n1/config'' (jprint (config_doc ex_rm)))]"
proof -
  have ok: "mqtt_publish_set ex_rm" "alloc ex_rm = (True, ex_rm)" "trace ex_rm = []"
    "node_topic 100 ''config'' ex_rm = ''node/n1/config''"
    by (simp_all add: ex_defs node_topic_def esp_rmaker_get_node_id_def snprintf_def)
  show ?thesis
    using node_config_published [OF ok(1)] by (simp add: ok)
qed

end
