(* ===== verification/Rm_Timezone.thy ===== *)
theory Rm_Timezone
  imports Rm_Tz_Table "HOL-Library.List_Lexorder"
begin

text \<open>
  What the time zone lookup finds: the comparison is a lexicographic order of normalised names,
  the table is strictly sorted for it, so the binary search is exact.
\<close>

subsection \<open>What the comparison compares\<close>

text \<open>
  The order of the comparison: the first character, then the others without underscores, in
  lower case, compared lexicographically.
\<close>

definition low :: "char \<Rightarrow> nat" where "low c = of_char (lower c)"

fun tz_key :: "string \<Rightarrow> nat list" where
  "tz_key [] = []"
| "tz_key (c # cs) = map low (c # filter (\<lambda>d. d \<noteq> CHR ''_'') cs)"

lemma low_eq: "low c = low d \<longleftrightarrow> lower c = lower d"
  by (simp add: low_def)

lemma low_pos:
  assumes "c \<noteq> CHR 0x00"
  shows "0 < low c"
proof -
  define n :: nat where "n = of_char c"
  have "char_of n = c" by (simp add: n_def)
  moreover have "char_of (0 :: nat) = CHR 0x00" by (simp add: char_of_def)
  ultimately have "n \<noteq> 0" using assms by metis
  moreover have "low c = (if 65 \<le> n \<and> n \<le> 90 then n + 32 else n)"
    by (auto simp: low_def lower_def n_def [symmetric])
  ultimately show ?thesis by simp
qed

lemma low_nul: "low (CHR 0x00) = 0"
  by (simp add: low_def lower_def)

lemma tz_key_next: "tz_key (next_char (c # cs)) = map low (filter (\<lambda>d. d \<noteq> CHR ''_'') cs)"
proof (cases "dropWhile (\<lambda>d. d = CHR ''_'') cs")
  case Nil
  then have "filter (\<lambda>d. d \<noteq> CHR ''_'') cs = []"
    by (simp add: filter_empty_conv dropWhile_eq_Nil_conv)
  then show ?thesis by (simp only: next_char_def list.sel Nil tz_key.simps list.map)
next
  case (Cons d ds)
  then have "filter (\<lambda>d. d \<noteq> CHR ''_'') cs = d # filter (\<lambda>d. d \<noteq> CHR ''_'') ds"
  proof (induction cs)
    case (Cons e es)
    then show ?case by (cases "e = CHR ''_''") auto
  qed simp
  then show ?thesis using Cons by (simp add: next_char_def)
qed

lemma tz_key_step: "tz_key (c # cs) = low c # tz_key (next_char (c # cs))"
  by (simp add: tz_key_next)

lemma no_nul_next: "no_nul p \<Longrightarrow> no_nul (next_char p)"
proof -
  have "no_nul cs \<Longrightarrow> no_nul (dropWhile (\<lambda>c. c = CHR ''_'') cs)" for cs
    by (induction cs) auto
  then show "no_nul p \<Longrightarrow> no_nul (next_char p)" by (cases p) (simp_all add: next_char_def)
qed

lemma tz_cmp_key:
  assumes "no_nul t" "no_nul u"
  shows "(tz_cmp_loop t u = 0 \<longleftrightarrow> tz_key t = tz_key u) \<and> (tz_cmp_loop t u < 0 \<longleftrightarrow> tz_key t < tz_key u)"
  using assms
proof (induction t u rule: tz_cmp_loop.induct)
  case (1 t u)
  show ?case
  proof (cases t)
    case Nil
    then have "tz_cmp_loop t u = - int (low (chr0 u))"
      by (subst tz_cmp_loop.simps) (simp add: low_def [symmetric] chr0_def low_nul)
    then show ?thesis
      using Nil 1(3) low_pos [of "chr0 u"] low_nul
      by (cases u) (auto simp: chr0_def)
  next
    case (Cons c cs)
    show ?thesis
    proof (cases u)
      case Nil
      have "0 < low c" by (intro low_pos) (use 1(2) Cons in auto)
      moreover have "tz_cmp_loop t u = int (low c)"
        using Cons Nil calculation
        by (subst tz_cmp_loop.simps) (auto simp: chr0_def low_nul low_eq [symmetric] low_def [symmetric])
      ultimately show ?thesis using Cons Nil by simp
    next
      case (Cons d ds)
      show ?thesis
      proof (cases "lower c = lower d")
        case True
        have "tz_cmp_loop t u = tz_cmp_loop (next_char t) (next_char u)"
          using True \<open>t = c # cs\<close> Cons by (subst tz_cmp_loop.simps) (simp add: chr0_def)
        moreover note 1(1) [OF _ no_nul_next [OF 1(2)] no_nul_next [OF 1(3)]]
        ultimately show ?thesis
          using True \<open>t = c # cs\<close> Cons
          by (simp add: chr0_def tz_key_step low_eq [symmetric] del: tz_key.simps)
      next
        case False
        have "tz_cmp_loop t u = int (low c) - int (low d)"
          using False \<open>t = c # cs\<close> Cons by (subst tz_cmp_loop.simps) (simp add: chr0_def low_def)
        moreover have "low c \<noteq> low d" using False by (simp add: low_eq)
        ultimately show ?thesis using \<open>t = c # cs\<close> Cons by auto
      qed
    qed
  qed
qed

subsection \<open>The search\<close>

definition tz_lookup :: "(string \<times> string) list \<Rightarrow> string \<Rightarrow> string option" where
  \<comment> \<open>the entry with the name's key, found by looking at all of them\<close>
  "tz_lookup tzs name = map_option snd (List.find (\<lambda>e. tz_key (fst e) = tz_key name) tzs)"

definition keys_sorted :: "(string \<times> string) list \<Rightarrow> bool" where
  "keys_sorted tzs \<longleftrightarrow> (\<forall>i j. i < j \<longrightarrow> j < length tzs \<longrightarrow> tz_key (fst (tzs ! i)) < tz_key (fst (tzs ! j)))"

lemma tz_sorted_keys:
  assumes "tz_sorted tzs" "\<forall>e \<in> set tzs. no_nul (fst e)"
  shows "sorted_wrt (\<lambda>x y. tz_key (fst x) < tz_key (fst y)) tzs"
  using assms
proof (induction tzs rule: tz_sorted.induct)
  case (1 x y zs)
  have xy: "tz_key (fst x) < tz_key (fst y)"
    using 1(2,3) tz_cmp_key [of "fst x" "fst y"] by simp
  have "sorted_wrt (\<lambda>x y. tz_key (fst x) < tz_key (fst y)) (y # zs)"
    using 1 by simp
  then show ?case using xy by (auto intro: order.strict_trans)
qed auto

lemma keys_sorted_table: "keys_sorted esp_rmaker_tz_db_tzs"
  using tz_sorted_keys [OF tz_table_sorted] tz_no_nul
  by (auto simp: keys_sorted_def sorted_wrt_iff_nth_less)

lemma tz_search_spec:
  assumes "keys_sorted tzs" "\<forall>e \<in> set tzs. no_nul (fst e)" "no_nul name" "hi \<le> length tzs"
  shows "tz_search tzs (Some name) lo hi = Some p \<longleftrightarrow>
    (\<exists>i. lo \<le> i \<and> i < hi \<and> tz_key (fst (tzs ! i)) = tz_key name \<and> snd (tzs ! i) = p)"
  using assms
proof (induction tzs "Some name" lo hi rule: tz_search.induct)
  case (1 tzs lo hi)
  show ?case
  proof (cases "lo < hi")
    case False
    then show ?thesis by (subst tz_search.simps) auto
  next
    case True
    define mid where "mid = (lo + hi) div 2"
    have m: "lo \<le> mid" "mid < hi" "mid < length tzs" using True 1(6) by (auto simp: mid_def)
    define k where "k = tz_key (fst (tzs ! mid))"
    have "no_nul (fst (tzs ! mid))" using 1(4) m(3) by simp
    then have cmp: "tz_cmp_loop name (fst (tzs ! mid)) = 0 \<longleftrightarrow> tz_key name = k"
      "tz_cmp_loop name (fst (tzs ! mid)) < 0 \<longleftrightarrow> tz_key name < k"
      using tz_cmp_key [OF 1(5)] by (simp_all add: k_def)
    have below: "i < mid \<Longrightarrow> tz_key (fst (tzs ! i)) < k" for i
      using 1(3) m(3) by (simp add: keys_sorted_def k_def)
    have above: "mid < i \<Longrightarrow> i < hi \<Longrightarrow> k < tz_key (fst (tzs ! i))" for i
      using 1(3,6) by (simp add: keys_sorted_def k_def)
    have unf: "tz_search tzs (Some name) lo hi =
      (if tz_key name = k then Some (snd (tzs ! mid))
       else if tz_key name < k then tz_search tzs (Some name) lo mid
       else tz_search tzs (Some name) (mid + 1) hi)"
      using True cmp by (subst tz_search.simps) (simp add: tz_name_cmp_def Let_def mid_def)
    consider "tz_key name = k" | "tz_key name < k" | "k < tz_key name" by fastforce
    then show ?thesis
    proof cases
      case a: 1
      have "i = mid" if "lo \<le> i" "i < hi" "tz_key (fst (tzs ! i)) = k" for i
        using that below [of i] above [of i] by (metis less_irrefl linorder_neqE_nat)
      then show ?thesis using a m unf by (auto simp: k_def)
    next
      case b: 2
      have "tz_search tzs (Some name) lo mid = Some p \<longleftrightarrow>
          (\<exists>i. lo \<le> i \<and> i < mid \<and> tz_key (fst (tzs ! i)) = tz_key name \<and> snd (tzs ! i) = p)"
        using True b cmp 1(3-5) m by (intro 1(1)) (auto simp: tz_name_cmp_def mid_def)
      moreover have "i < mid" if "i < hi" "tz_key (fst (tzs ! i)) = tz_key name" for i
        using that b above [of i] by (metis k_def less_asym' linorder_neqE_nat less_irrefl)
      ultimately show ?thesis using b m unf by auto
    next
      case c: 3
      have "tz_search tzs (Some name) (mid + 1) hi = Some p \<longleftrightarrow>
          (\<exists>i. mid + 1 \<le> i \<and> i < hi \<and> tz_key (fst (tzs ! i)) = tz_key name \<and> snd (tzs ! i) = p)"
        using True c cmp 1(3-6) m by (intro 1(2)) (auto simp: tz_name_cmp_def mid_def)
      moreover have "mid + 1 \<le> i" if "tz_key (fst (tzs ! i)) = tz_key name" for i
        using that c below [of i] by (metis Suc_eq_plus1 Suc_leI k_def less_asym' linorder_neqE_nat less_irrefl)
      moreover have "lo \<le> i" if "mid + 1 \<le> i" for i using that m(1) by simp
      moreover have "tz_search tzs (Some name) lo hi = tz_search tzs (Some name) (mid + 1) hi"
        using c unf by auto
      ultimately show ?thesis by metis
    qed
  qed
qed

lemma keys_unique:
  assumes "keys_sorted tzs" "i < length tzs" "j < length tzs"
    "tz_key (fst (tzs ! i)) = tz_key (fst (tzs ! j))"
  shows "i = j"
  using assms by (metis keys_sorted_def less_irrefl linorder_neqE_nat)

lemma tz_lookup_iff:
  assumes "keys_sorted tzs"
  shows "tz_lookup tzs name = Some p \<longleftrightarrow>
    (\<exists>i. i < length tzs \<and> tz_key (fst (tzs ! i)) = tz_key name \<and> snd (tzs ! i) = p)"
proof
  assume "tz_lookup tzs name = Some p"
  then obtain e where e: "List.find (\<lambda>e. tz_key (fst e) = tz_key name) tzs = Some e" "snd e = p"
    by (auto simp: tz_lookup_def)
  then obtain i where "i < length tzs" "tz_key (fst (tzs ! i)) = tz_key name" "e = tzs ! i"
    by (auto simp: find_Some_iff)
  then show "\<exists>i. i < length tzs \<and> tz_key (fst (tzs ! i)) = tz_key name \<and> snd (tzs ! i) = p"
    using e(2) by blast
next
  assume "\<exists>i. i < length tzs \<and> tz_key (fst (tzs ! i)) = tz_key name \<and> snd (tzs ! i) = p"
  then obtain i where i: "i < length tzs" "tz_key (fst (tzs ! i)) = tz_key name" "snd (tzs ! i) = p"
    by blast
  have "tz_key (fst (tzs ! j)) \<noteq> tz_key name" if "j < i" for j
    using keys_unique [OF assms, of j i] i that by fastforce
  then have "List.find (\<lambda>e. tz_key (fst e) = tz_key name) tzs = Some (tzs ! i)"
    unfolding find_Some_iff using i by blast
  then show "tz_lookup tzs name = Some p" using i(3) by (simp add: tz_lookup_def)
qed

lemma tz_get_iff:
  assumes "no_nul nm"
  shows "esp_rmaker_tz_db_get_posix_str (Some nm) = Some p \<longleftrightarrow>
    (\<exists>i. i < length esp_rmaker_tz_db_tzs
       \<and> tz_key (fst (esp_rmaker_tz_db_tzs ! i)) = tz_key nm \<and> snd (esp_rmaker_tz_db_tzs ! i) = p)"
  using tz_search_spec [OF keys_sorted_table _ assms, of "length esp_rmaker_tz_db_tzs" 0 p] tz_no_nul
  by (simp add: esp_rmaker_tz_db_get_posix_str_def)

lemma tz_get_eq:
  assumes "no_nul nm"
  shows "esp_rmaker_tz_db_get_posix_str (Some nm) = tz_lookup esp_rmaker_tz_db_tzs nm"
proof -
  have "esp_rmaker_tz_db_get_posix_str (Some nm) = Some p
      \<longleftrightarrow> tz_lookup esp_rmaker_tz_db_tzs nm = Some p" for p
    by (simp only: tz_get_iff [OF assms] tz_lookup_iff [OF keys_sorted_table])
  then show ?thesis by (metis option.exhaust)
qed

text \<open>The time zone lookup is exact. For every zone name, the binary search returns the POSIX
  string of the entry whose name is the same up to case and underscores behind the first
  character, and \<open>NULL\<close> if there is none; so every zone of the table is found under its own
  name, and a \<open>NULL\<close> name is not found.\<close>
theorem tz_lookup_exact:
  assumes "no_nul name"
  shows "esp_rmaker_tz_db_get_posix_str (Some name) = tz_lookup esp_rmaker_tz_db_tzs name
    \<and> (\<forall>e \<in> set esp_rmaker_tz_db_tzs. esp_rmaker_tz_db_get_posix_str (Some (fst e)) = Some (snd e))
    \<and> esp_rmaker_tz_db_get_posix_str None = None"
proof -
  have "esp_rmaker_tz_db_get_posix_str (Some (fst e)) = Some (snd e)"
    if "e \<in> set esp_rmaker_tz_db_tzs" for e
    using tz_get_iff [OF tz_no_nul [OF that]] that by (metis in_set_conv_nth)
  moreover have "tz_search tzs None lo hi = None" for tzs lo hi
    by (induction tzs "None :: string option" lo hi rule: tz_search.induct)
       (subst tz_search.simps, auto simp: tz_name_cmp_def Let_def)
  ultimately show ?thesis using tz_get_eq [OF assms] by (auto simp: esp_rmaker_tz_db_get_posix_str_def)
qed

lemma shanghai_entry: "(''Asia/Shanghai'', ''CST-8'') \<in> set esp_rmaker_tz_db_tzs"
proof -
  have "(''Asia/Shanghai'', ''CST-8'') \<in> set tz_db_3"
    unfolding tz_db_3_def by (simp only: list.set insert_iff simp_thms)
  then show ?thesis by (simp add: esp_rmaker_tz_db_tzs_def)
qed

lemma shanghai_lookup:
  assumes "tz_key ''Asia/Shanghai'' = tz_key name"
  shows "tz_lookup esp_rmaker_tz_db_tzs name = Some ''CST-8''"
proof -
  obtain i where "i < length esp_rmaker_tz_db_tzs"
      "esp_rmaker_tz_db_tzs ! i = (''Asia/Shanghai'', ''CST-8'')"
    using shanghai_entry by (metis in_set_conv_nth)
  then show ?thesis using assms
    by (subst tz_lookup_iff [OF keys_sorted_table]) (metis fst_conv snd_conv)
qed

theorem tz_lookup_exact_witness:
  "esp_rmaker_tz_db_get_posix_str (Some ''asia/shang_HAI'') = Some ''CST-8''"
proof -
  have "no_nul ''asia/shang_HAI''" by simp
  moreover have "tz_lookup esp_rmaker_tz_db_tzs ''asia/shang_HAI'' = Some ''CST-8''"
    by (intro shanghai_lookup) (simp add: low_def lower_def)
  ultimately show ?thesis using tz_lookup_exact by simp
qed

end
