(* ===== verification/Rm_Mapping.thy ===== *)
theory Rm_Mapping
  imports Rm_Core_State Rm_Node_Config
begin

text \<open>
  What the core starts with: factory data (\<open>rmaker_common/src/factory.c\<close>), the connection
  parameters made from it (\<open>esp_rmaker_client_data.c\<close>), the MQTT entry points that start and end
  the connection (\<open>esp_rmaker_mqtt.c\<close>), and the mapping of the node to a user
  (\<open>esp_rmaker_user_mapping.c\<close>; \<open>CONFIG_ESP_RMAKER_USER_ID_CHECK\<close> is off).
  Protobuf messages are given unpacked.
\<close>

subsection \<open>Factory data\<close>

definition esp_rmaker_factory_init :: "'a core_scheme \<Rightarrow> esp_err \<times> 'a core_scheme" where
  "esp_rmaker_factory_init s =
     (if storage_init_done s then (ESP_OK, s)
      else
        let (err, s) = call (App ''nvs_flash_init_partition'' []) s
        in (err, if err = ESP_OK then s\<lparr>storage_init_done := True\<rparr> else s))"

definition esp_rmaker_factory_get :: "string \<Rightarrow> 'a core_scheme \<Rightarrow> string option \<times> 'a core_scheme" where
  "esp_rmaker_factory_get key s =
     (let (err, s) = call (Net (NvsOpen ''rmaker_creds'')) s
      in if err \<noteq> ESP_OK then (None, s)
         else
           let (a, s) = nvs_read (emit (Net (NvsGetBlob key)) s);
               (v, s) = (case a of
                   NvsStr t \<Rightarrow> let (ok, s) = alloc s in (if ok then Some t else None, s)
                 | _ \<Rightarrow> (None, s))
           in (v, emit (Net NvsClose) s))"

definition esp_rmaker_factory_set :: "string \<Rightarrow> string \<Rightarrow> 'a core_scheme \<Rightarrow> esp_err \<times> 'a core_scheme" where
  "esp_rmaker_factory_set key v s =
     (let (err, s) = call (Net (NvsOpen ''rmaker_creds'')) s
      in if err \<noteq> ESP_OK then (ESP_FAIL, s)
         else
           let (err, s) = call (Net (NvsSetBlob key v)) s
           in if err \<noteq> ESP_OK then (ESP_FAIL, emit (Net NvsClose) s)
              else (ESP_OK, emit (Net NvsClose) (emit (Net NvsCommit) s)))"

subsection \<open>Connection parameters\<close>

definition esp_rmaker_get_mqtt_host :: "'a core_scheme \<Rightarrow> string option \<times> 'a core_scheme" where
  "esp_rmaker_get_mqtt_host s =
     (let (host, s) = esp_rmaker_factory_get ''mqtt_host'' s
      in case host of Some h \<Rightarrow> (Some h, s)
         | None \<Rightarrow> strdup ''a1p72mufdu6064-ats.iot.us-east-1.amazonaws.com'' s)"

definition esp_rmaker_get_client_cert :: "'a core_scheme \<Rightarrow> string option \<times> 'a core_scheme" where
  "esp_rmaker_get_client_cert s = esp_rmaker_factory_get ''client_cert'' s"

definition esp_rmaker_get_client_key :: "'a core_scheme \<Rightarrow> string option \<times> 'a core_scheme" where
  "esp_rmaker_get_client_key s = esp_rmaker_factory_get ''client_key'' s"

definition esp_rmaker_get_client_csr :: "'a core_scheme \<Rightarrow> string option \<times> 'a core_scheme" where
  "esp_rmaker_get_client_csr s = esp_rmaker_factory_get ''csr'' s"

text \<open>
  The parameters are key, certificate, host and client id; the root certificate is linked in.
  The result of the first \<open>calloc\<close> is not checked, so the program crashes when it fails.
\<close>

definition esp_rmaker_get_mqtt_conn_params ::
  "'a core_scheme \<Rightarrow> (string \<times> string \<times> string \<times> string option) option \<times> 'a core_scheme" where
  "esp_rmaker_get_mqtt_conn_params s =
     (let (ok, s) = alloc s
      in if \<not> ok then (None, emit (Os Abort) s)
         else
           let (key, s) = esp_rmaker_get_client_key s
           in case key of None \<Rightarrow> (None, s)
              | Some k \<Rightarrow>
                  let (cert, s) = esp_rmaker_get_client_cert s
                  in case cert of None \<Rightarrow> (None, s)
                     | Some c \<Rightarrow>
                         let (host, s) = esp_rmaker_get_mqtt_host s
                         in case host of None \<Rightarrow> (None, s)
                            | Some h \<Rightarrow> (Some (k, c, h, esp_rmaker_get_node_id s), s))"

subsection \<open>The MQTT connection\<close>

text \<open>
  \<open>esp_rmaker_mqtt_glue_setup\<close> sets every function pointer of \<open>g_mqtt_config\<close>; without it none
  is set.
\<close>

definition esp_rmaker_mqtt_glue_setup :: "'a core_scheme \<Rightarrow> 'a core_scheme" where
  "esp_rmaker_mqtt_glue_setup s =
     s\<lparr>mqtt_setup_done := True, mqtt_publish_set := True, mqtt_subscribe_set := True\<rparr>"

definition esp_rmaker_mqtt_init :: "'a core_scheme \<Rightarrow> esp_err \<times> 'a core_scheme" where
  "esp_rmaker_mqtt_init s =
     (let s = (if \<not> mqtt_setup_done s then esp_rmaker_mqtt_glue_setup s else s)
      in call (Net MqttInit) s)"

definition esp_rmaker_mqtt_connect :: "'a core_scheme \<Rightarrow> esp_err \<times> 'a core_scheme" where
  "esp_rmaker_mqtt_connect s =
     (if mqtt_setup_done s then call (Net MqttConnect) s else (ESP_OK, s))"

definition esp_rmaker_mqtt_disconnect :: "'a core_scheme \<Rightarrow> esp_err \<times> 'a core_scheme" where
  "esp_rmaker_mqtt_disconnect s =
     (if mqtt_setup_done s then call (Net MqttDisconnect) s else (ESP_OK, s))"

subsection \<open>User mapping\<close>

abbreviation rmaker_event :: "int \<Rightarrow> effect" where
  "rmaker_event n \<equiv> Net (EventPost ''RMAKER_EVENT'' n)"

abbreviation mapping_handler :: string where
  "mapping_handler \<equiv> ''esp_rmaker_user_mapping_event_handler''"

definition esp_rmaker_user_mapping_cleanup_data :: "'a core_scheme \<Rightarrow> 'a core_scheme" where
  "esp_rmaker_user_mapping_cleanup_data s = s\<lparr>user_mapping_data := None\<rparr>"

definition esp_rmaker_user_mapping_endpoint_create :: "'a core_scheme \<Rightarrow> esp_err \<times> 'a core_scheme" where
  "esp_rmaker_user_mapping_endpoint_create s =
     call (Net (WifiCall ''wifi_prov_mgr_endpoint_create'' [])) s"

definition esp_rmaker_user_mapping_endpoint_register :: "'a core_scheme \<Rightarrow> esp_err \<times> 'a core_scheme" where
  "esp_rmaker_user_mapping_endpoint_register s =
     call (Net (WifiCall ''wifi_prov_mgr_endpoint_register'' [])) s"

text \<open>The events the handler is registered for. A published message without mapping data would
  read through a \<open>NULL\<close> pointer.\<close>

datatype mapping_event = WIFI_PROV_INIT | WIFI_PROV_START | MQTT_PUBLISHED int

definition esp_rmaker_user_mapping_event_handler :: "mapping_event \<Rightarrow> 'a core_scheme \<Rightarrow> 'a core_scheme" where
  "esp_rmaker_user_mapping_event_handler ev s =
     (case ev of
        WIFI_PROV_INIT \<Rightarrow> snd (esp_rmaker_user_mapping_endpoint_create s)
      | WIFI_PROV_START \<Rightarrow> snd (esp_rmaker_user_mapping_endpoint_register s)
      | MQTT_PUBLISHED msg_id \<Rightarrow>
          (case user_mapping_data s of
             None \<Rightarrow> emit (Os Abort) s
           | Some d \<Rightarrow>
               if msg_id = um_msg_id d then
                 let s = s\<lparr>user_mapping_state := ESP_RMAKER_USER_MAPPING_DONE\<rparr>;
                     s = emit (rmaker_event 5) s;
                     s = esp_rmaker_user_mapping_cleanup_data s
                 in emit (Net (EventUnregister ''RMAKER_COMMON_EVENT'' ''MQTT_PUBLISHED'' mapping_handler)) s
               else s))"

definition esp_rmaker_user_mapping_prov_init :: "'a core_scheme \<Rightarrow> esp_err \<times> 'a core_scheme" where
  "esp_rmaker_user_mapping_prov_init s =
     (let (ret, s) = call (Net (EventRegister ''WIFI_PROV_EVENT'' ''INIT'' mapping_handler)) s
      in if ret \<noteq> ESP_OK then (ret, s)
         else call (Net (EventRegister ''WIFI_PROV_EVENT'' ''START'' mapping_handler)) s)"

definition esp_rmaker_user_mapping_prov_deinit :: "'a core_scheme \<Rightarrow> 'a core_scheme" where
  "esp_rmaker_user_mapping_prov_deinit s =
     emits [Net (EventUnregister ''WIFI_PROV_EVENT'' ''INIT'' mapping_handler),
            Net (EventUnregister ''WIFI_PROV_EVENT'' ''START'' mapping_handler)] s"

definition esp_rmaker_user_node_mapping_init :: "'a core_scheme \<Rightarrow> 'a core_scheme" where
  "esp_rmaker_user_node_mapping_init s = s\<lparr>user_mapping_state := ESP_RMAKER_USER_MAPPING_DONE\<rparr>"

definition esp_rmaker_user_mapping_detect_reset :: "string \<Rightarrow> bool" where
  "esp_rmaker_user_mapping_detect_reset user_id = False"

definition mapping_payload :: "um_data \<Rightarrow> 'a core_scheme \<Rightarrow> string" where
  \<comment> \<open>what is left in \<open>publish_payload[200]\<close>\<close>
  "mapping_payload d s =
     (let j = json_gen_str_start True 200 False;
          j = snd (json_gen_start_object j);
          j = set_str ''node_id'' (esp_rmaker_get_node_id s) j;
          j = set_str ''user_id'' (Some (um_user_id d)) j;
          j = set_str ''secret_key'' (Some (um_secret_key d)) j;
          j = (if user_mapping_state s \<noteq> ESP_RMAKER_USER_MAPPING_DONE
               then snd (json_gen_obj_set_bool ''reset'' True j) else j);
          j = snd (json_gen_end_object j);
          (_, txt, _) = json_gen_str_end j
      in str_opt txt)"

text \<open>
  The work function. Its pointer is the data's address; if the data has been freed since, the
  function reads and writes freed memory, which the model records.
\<close>

definition esp_rmaker_user_mapping_cb :: "nat \<Rightarrow> 'a core_scheme \<Rightarrow> 'a core_scheme" where
  "esp_rmaker_user_mapping_cb ref s =
     (let s = emit (Net (EventRegister ''RMAKER_COMMON_EVENT'' ''MQTT_PUBLISHED'' mapping_handler)) s
      in case user_mapping_data s of
           Some d \<Rightarrow>
             if um_ref d = ref then
               let (err, s) = esp_rmaker_mqtt_publish (node_topic 100 ''user/mapping'' s)
                                (mapping_payload d s) s
               in if err = ESP_OK \<and> mqtt_publish_set s then
                    let (msg_id, s) = ask s
                    in s\<lparr>user_mapping_data := Some (d\<lparr>um_msg_id := msg_id\<rparr>)\<rparr>
                  else s
             else emit (App ''use_after_free'' [int ref]) s
         | None \<Rightarrow> emit (App ''use_after_free'' [int ref]) s)"

definition esp_rmaker_start_user_node_mapping ::
  "string \<Rightarrow> string \<Rightarrow> 'a core_scheme \<Rightarrow> esp_err \<times> 'a core_scheme" where
  "esp_rmaker_start_user_node_mapping user_id secret_key s =
     (let s = (if user_mapping_data s \<noteq> None then esp_rmaker_user_mapping_cleanup_data s else s);
          (ok1, s) = alloc s
      in if \<not> ok1 then (ESP_FAIL, s)
         else
           let (uid, s) = strdup user_id s
           in case uid of None \<Rightarrow> (ESP_FAIL, esp_rmaker_user_mapping_cleanup_data s)
              | Some u \<Rightarrow>
                  let (key, s) = strdup secret_key s
                  in case key of None \<Rightarrow> (ESP_FAIL, esp_rmaker_user_mapping_cleanup_data s)
                     | Some k \<Rightarrow>
                         let r = next_ref s;
                             s = s\<lparr>next_ref := r + 1, user_mapping_data :=
                               Some \<lparr>um_ref = r, um_user_id = u, um_secret_key = k, um_msg_id = 0\<rparr>\<rparr>;
                             s = s\<lparr>user_mapping_state :=
                               (if esp_rmaker_user_mapping_detect_reset user_id
                                then ESP_RMAKER_USER_MAPPING_STARTED else ESP_RMAKER_USER_MAPPING_DONE)\<rparr>;
                             (err, s) = wq_call (WqAdd (''esp_rmaker_user_mapping_cb'', [int r])) s
                         in if err \<noteq> ESP_OK then (ESP_FAIL, esp_rmaker_user_mapping_cleanup_data s)
                            else (ESP_OK, esp_rmaker_user_mapping_prov_deinit s))"

text \<open>
  The provisioning endpoint: \<open>None\<close> is a message that does not unpack; a message is whether it is
  the set-mapping command, and the command's user id and key if the payload is one. The response
  is the status and the node id.
\<close>

datatype mapping_status = MappingSuccess | MappingInvalidParam

definition esp_rmaker_user_mapping_handler ::
  "(bool \<times> (string \<times> string) option) option \<Rightarrow> 'a core_scheme
     \<Rightarrow> esp_err \<times> (mapping_status \<times> string option) option \<times> 'a core_scheme" where
  "esp_rmaker_user_mapping_handler msg s =
     (case msg of
        None \<Rightarrow> (ESP_FAIL, None, s)
      | Some (False, _) \<Rightarrow> (ESP_OK, None, s)
      | Some (True, None) \<Rightarrow> (ESP_OK, Some (MappingInvalidParam, None), s)
      | Some (True, Some (user_id, secret_key)) \<Rightarrow>
          let (err, s) = esp_rmaker_start_user_node_mapping user_id secret_key s
          in if err \<noteq> ESP_OK then (ESP_OK, Some (MappingInvalidParam, None), s)
             else (ESP_OK, Some (MappingSuccess, esp_rmaker_get_node_id s), s))"

end
