(* ===== verification/Rm_Time.thy ===== *)
theory Rm_Time
  imports Rm_Core_State Rm_Timezone
begin

text \<open>
  Time: \<open>rmaker_common/src/time.c\<close> and the time service \<open>esp_rmaker_time_service.c\<close>. The clock is
  the platform's: every call of \<open>time()\<close> reads the next answer. The environment variable \<open>TZ\<close>
  is part of the state. The functions that print the local time are console output only.
\<close>

definition REF_TIME :: int where
  "REF_TIME = 1546300800"

definition time_get_nvs :: "string \<Rightarrow> 'a core_scheme \<Rightarrow> string option \<times> 'a core_scheme" where
  "time_get_nvs key s =
     (let (err, s) = call (Net (NvsOpen ''rmaker_time'')) s
      in if err \<noteq> ESP_OK then (None, s)
         else
           let (a, s) = nvs_read (emit (Net (NvsGetBlob key)) s);
               (v, s) = (case a of
                   NvsStr t \<Rightarrow> let (ok, s) = alloc s in (if ok then Some t else None, s)
                 | _ \<Rightarrow> (None, s))
           in (v, emit (Net NvsClose) s))"

definition time_set_nvs :: "string \<Rightarrow> string \<Rightarrow> 'a core_scheme \<Rightarrow> esp_err \<times> 'a core_scheme" where
  "time_set_nvs key v s =
     (let (err, s) = call (Net (NvsOpen ''rmaker_time'')) s
      in if err \<noteq> ESP_OK then (err, s)
         else
           let (err, s) = call (Net (NvsSetBlob key v)) s
           in (err, emit (Net NvsClose) (emit (Net NvsCommit) s)))"

definition esp_rmaker_time_get_timezone_posix :: "'a core_scheme \<Rightarrow> string option \<times> 'a core_scheme" where
  "esp_rmaker_time_get_timezone_posix s = time_get_nvs ''tz_posix'' s"

definition esp_rmaker_time_get_timezone :: "'a core_scheme \<Rightarrow> string option \<times> 'a core_scheme" where
  "esp_rmaker_time_get_timezone s = time_get_nvs ''tz'' s"

definition esp_rmaker_time_set_timezone_posix :: "string \<Rightarrow> 'a core_scheme \<Rightarrow> esp_err \<times> 'a core_scheme" where
  "esp_rmaker_time_set_timezone_posix tz_posix s =
     (let (err, s) = time_set_nvs ''tz_posix'' tz_posix s
      in (err, if err = ESP_OK then s\<lparr>env_tz := Some tz_posix\<rparr> else s))"

definition esp_rmaker_time_set_timezone :: "string option \<Rightarrow> 'a core_scheme \<Rightarrow> esp_err \<times> 'a core_scheme" where
  "esp_rmaker_time_set_timezone tz s =
     (case (esp_rmaker_tz_db_get_posix_str tz, tz) of
        (Some tz_posix, Some name) \<Rightarrow>
          let (err, s) = esp_rmaker_time_set_timezone_posix tz_posix s
          in if err = ESP_OK then time_set_nvs ''tz'' name s else (err, s)
      | _ \<Rightarrow> (ESP_ERR_INVALID_ARG, s))"

definition ESP_RMAKER_DEF_TZ :: string where
  "ESP_RMAKER_DEF_TZ = ''Asia/Shanghai''"

definition esp_rmaker_timezone_enable :: "'a core_scheme \<Rightarrow> esp_err \<times> 'a core_scheme" where
  "esp_rmaker_timezone_enable s =
     (let (tz_posix, s) = esp_rmaker_time_get_timezone_posix s
      in case tz_posix of
           Some tz \<Rightarrow> (ESP_OK, s\<lparr>env_tz := Some tz\<rparr>)
         | None \<Rightarrow>
             if 0 < length ESP_RMAKER_DEF_TZ then
               (case esp_rmaker_tz_db_get_posix_str (Some ESP_RMAKER_DEF_TZ) of
                  Some tz_def \<Rightarrow> (ESP_OK, s\<lparr>env_tz := Some tz_def\<rparr>)
                | None \<Rightarrow> (ESP_ERR_INVALID_ARG, s))
             else (ESP_OK, s))"

text \<open>\<open>esp_rmaker_time_config_t\<close>: the server and the callback, each possibly \<open>NULL\<close>.\<close>

type_synonym time_config = "string option \<times> string option"

definition esp_rmaker_time_sync_init :: "time_config option \<Rightarrow> 'a core_scheme \<Rightarrow> esp_err \<times> 'a core_scheme" where
  "esp_rmaker_time_sync_init config s =
     (let (enabled, s) = call (Net SntpEnabled) s
      in if enabled \<noteq> 0 then (ESP_OK, s\<lparr>time_init_done := True\<rparr>)
         else
           let server = (case config of Some (Some name, _) \<Rightarrow> name | _ \<Rightarrow> ''pool.ntp.org'');
               cb = (case config of Some (_, Some f) \<Rightarrow> f | _ \<Rightarrow> ''esp_rmaker_time_sync_cb'');
               s = emits [App ''sntp_setoperatingmode'' [0], Net (SntpSetServer server),
                          Net SntpInit, Net (SntpSetCb cb)] s;
               (_, s) = esp_rmaker_timezone_enable s
           in (ESP_OK, s\<lparr>time_init_done := True\<rparr>))"

definition esp_rmaker_time_check :: "'a core_scheme \<Rightarrow> bool \<times> 'a core_scheme" where
  "esp_rmaker_time_check s = (let (now, s) = ask s in (REF_TIME < now, s))"

text \<open>A tick is a millisecond (\<open>CONFIG_FREERTOS_HZ\<close> is 1000).\<close>

definition DEFAULT_TICKS :: u32 where
  "DEFAULT_TICKS = 2000"

lemma wait_decreases:
  "0 < ticks \<Longrightarrow> unat (ticks - (if ticks < DEFAULT_TICKS then ticks else DEFAULT_TICKS)) < unat ticks"
  by (auto simp: DEFAULT_TICKS_def unat_minus_le word_less_nat_alt word_le_nat_alt)

function wait_for_time :: "u32 \<Rightarrow> 'a core_scheme \<Rightarrow> 'a core_scheme" where
  "wait_for_time ticks_remaining s =
     (if 0 < ticks_remaining then
        let (ok, s) = esp_rmaker_time_check s
        in if ok then s
           else
             let ticks = (if ticks_remaining < DEFAULT_TICKS then ticks_remaining else DEFAULT_TICKS)
             in wait_for_time (ticks_remaining - ticks) (emit (Os (Delay (uint ticks))) s)
      else s)"
  by pat_completeness auto
termination
  by (relation "measure (\<lambda>(ticks, s). unat ticks)") (simp, auto simp only: in_measure split_def fst_conv wait_decreases)

declare wait_for_time.simps [simp del]

definition esp_rmaker_time_wait_for_sync :: "u32 \<Rightarrow> 'a core_scheme \<Rightarrow> esp_err \<times> 'a core_scheme" where
  "esp_rmaker_time_wait_for_sync ticks_to_wait s =
     (let (ok, s) = esp_rmaker_time_check (wait_for_time ticks_to_wait s)
      in (if ok then ESP_OK else ESP_FAIL, s))"

subsection \<open>The time service\<close>

text \<open>A string value's pointer; \<open>strlen\<close> of a \<open>NULL\<close> one crashes.\<close>

definition esp_rmaker_time_service_cb ::
  "nat \<Rightarrow> nat \<Rightarrow> param_val \<Rightarrow> req_src \<Rightarrow> 'a core_scheme \<Rightarrow> esp_err \<times> 'a core_scheme" where
  "esp_rmaker_time_service_cb device param val src s =
     (let ty = esp_rmaker_param_get_type (Some param) s;
          (err, s) =
            (if ty = Some ''esp.param.tz'' then
               let (err, s) = esp_rmaker_time_set_timezone (val_str val) s
               in if err = ESP_OK then
                    let (tz_posix, s) = esp_rmaker_time_get_timezone_posix s
                    in case tz_posix of
                         None \<Rightarrow> (err, s)
                       | Some tz \<Rightarrow>
                           (case esp_rmaker_device_get_param_by_type (Some device)
                                   (Some ''esp.param.tz_posix'') s of
                              None \<Rightarrow> (err, emit (Os Abort) s)
                            | Some p \<Rightarrow> (err, snd (esp_rmaker_param_update_and_report p
                                (esp_rmaker_str (Some tz)) s)))
                  else (err, s)
             else if ty = Some ''esp.param.tz_posix'' then
               (case val_str val of
                  Some tz \<Rightarrow> esp_rmaker_time_set_timezone_posix tz s
                | None \<Rightarrow> (ESP_FAIL, emit (Os Abort) s))
             else (ESP_FAIL, s))
      in (err, if err = ESP_OK then snd (esp_rmaker_param_update_and_report (Some param) val s) else s))"

definition esp_rmaker_time_add_service ::
  "('a core_scheme) write_fn \<Rightarrow> string option \<Rightarrow> string option \<Rightarrow> 'a core_scheme \<Rightarrow> esp_err \<times> 'a core_scheme" where
  "esp_rmaker_time_add_service invoke tz tz_posix s =
     (let (service, s) = esp_rmaker_time_service_create invoke (Some ''Time'') tz tz_posix [] s
      in if service = None then (ESP_FAIL, s)
         else
           let (_, s) = esp_rmaker_device_add_cb service (Some ''esp_rmaker_time_service_cb'') None s;
               (err, s) = esp_rmaker_node_add_device (esp_rmaker_get_node s) service s
           in if err = ESP_OK then (err, s)
              else (err, snd (esp_rmaker_device_delete service s)))"

definition esp_rmaker_timezone_service_enable ::
  "('a core_scheme) write_fn \<Rightarrow> 'a core_scheme \<Rightarrow> esp_err \<times> 'a core_scheme" where
  "esp_rmaker_timezone_service_enable invoke s =
     (let (tz_posix, s) = esp_rmaker_time_get_timezone_posix s;
          (tz, s) = esp_rmaker_time_get_timezone s
      in esp_rmaker_time_add_service invoke tz tz_posix s)"

subsection \<open>Waiting for the clock\<close>

fun waited :: "effect list \<Rightarrow> int" where
  \<comment> \<open>the milliseconds of all delays\<close>
  "waited [] = 0"
| "waited (Os (Delay d) # es) = d + waited es"
| "waited (_ # es) = waited es"

lemma waited_append [simp]: "waited (es @ fs) = waited es + waited fs"
  by (induction es rule: waited.induct) auto

definition rounds :: "u32 \<Rightarrow> nat" where
  \<comment> \<open>the number of delays that fill a number of ticks\<close>
  "rounds ticks = (unat ticks + 1999) div 2000"

lemma rounds_step:
  fixes ticks :: u32
  assumes "0 < ticks" "d = (if ticks < DEFAULT_TICKS then ticks else DEFAULT_TICKS)"
  shows "rounds ticks = Suc (rounds (ticks - d)) \<and> uint ticks = uint d + uint (ticks - d)
    \<and> uint d = min 2000 (uint ticks)"
proof (cases "ticks < 2000")
  case True
  then have "unat ticks < 2000" "0 < unat ticks"
    using assms(1) by (simp_all add: word_less_nat_alt)
  then show ?thesis using True assms(2)
    by (simp add: rounds_def DEFAULT_TICKS_def min_def word_less_def div_eq_dividend_iff)
next
  case False
  then have le: "2000 \<le> ticks" by simp
  then have "unat (ticks - 2000) = unat ticks - 2000" "2000 \<le> unat ticks"
    by (simp_all add: unat_minus_le word_le_nat_alt)
  moreover have "uint (ticks - 2000) = uint ticks - 2000"
    using le by (simp add: uint_minus_simple_alt)
  moreover have "2000 \<le> uint ticks" using le by (simp add: word_le_def)
  ultimately show ?thesis using False assms(2)
    by (simp add: rounds_def DEFAULT_TICKS_def)
qed

lemma time_check_Cons:
  "inputs s = now # rest \<Longrightarrow> esp_rmaker_time_check s = (REF_TIME < now, s\<lparr>inputs := rest\<rparr>)"
  by (simp add: esp_rmaker_time_check_def)

lemma wait_zero: "wait_for_time 0 s = s"
  by (subst wait_for_time.simps) simp

lemma wait_for_time_eq:
  assumes "inputs s = bads @ goods" "\<forall>t \<in> set bads. t \<le> REF_TIME" "\<forall>t \<in> set goods. REF_TIME < t"
    "goods \<noteq> []"
  shows "waited (trace (wait_for_time ticks s)) =
      waited (trace s) + min (2000 * int (length bads)) (uint ticks)
    \<and> inputs (wait_for_time ticks s) =
      (if length bads < rounds ticks then tl goods else drop (rounds ticks) bads @ goods)"
  using assms(1,2)
proof (induction bads arbitrary: s ticks)
  case Nil
  obtain g gs where g: "goods = g # gs" using assms(4) by (cases goods) auto
  show ?case
  proof (cases "0 < ticks")
    case True
    then have "0 < rounds ticks"
      using rounds_step [OF True refl] by simp
    moreover have "wait_for_time ticks s = s\<lparr>inputs := gs\<rparr>"
      using True Nil g assms(3) by (subst wait_for_time.simps) (simp add: time_check_Cons)
    ultimately show ?thesis using g by simp
  next
    case False
    then have "ticks = 0" by (simp add: word_gt_0)
    then show ?thesis using Nil by (simp add: wait_zero rounds_def)
  qed
next
  case (Cons b bs)
  show ?case
  proof (cases "0 < ticks")
    case True
    define d where "d = (if ticks < DEFAULT_TICKS then ticks else DEFAULT_TICKS)"
    define u where "u = emit (Os (Delay (uint d))) (s\<lparr>inputs := bs @ goods\<rparr>)"
    have r: "rounds ticks = Suc (rounds (ticks - d))" "uint ticks = uint d + uint (ticks - d)"
      "uint d = min 2000 (uint ticks)"
      using rounds_step [OF True d_def] by blast+
    have check: "esp_rmaker_time_check s = (False, s\<lparr>inputs := bs @ goods\<rparr>)"
      using Cons(2,3) by (simp add: time_check_Cons)
    have w: "wait_for_time ticks s = wait_for_time (ticks - d) u"
      using True check by (subst wait_for_time.simps) (simp only: if_True if_False Let_def prod.case d_def u_def)
    have "waited (trace (wait_for_time (ticks - d) u)) =
        waited (trace u) + min (2000 * int (length bs)) (uint (ticks - d))
      \<and> inputs (wait_for_time (ticks - d) u) =
        (if length bs < rounds (ticks - d) then tl goods else drop (rounds (ticks - d)) bs @ goods)"
      using Cons(3) by (intro Cons.IH) (simp_all add: u_def)
    moreover have "waited (trace u) = waited (trace s) + uint d" by (simp add: u_def)
    moreover have "uint d + min (2000 * int (length bs)) (uint (ticks - d)) =
        min (2000 * int (length (b # bs))) (uint ticks)"
      using r(2,3) uint_ge_0 [of "ticks - d"] by (auto simp: min_def)
    ultimately show ?thesis unfolding w r(1) by simp
  next
    case False
    then have "ticks = 0" by (simp add: word_gt_0)
    then show ?thesis using Cons(2) by (simp add: wait_zero rounds_def)
  qed
qed

text \<open>Waiting for the clock ends. If the clock passes 2019 after some number of readings,
  \<open>esp_rmaker_time_wait_for_sync\<close> returns whether that is within the readings that fit into the
  ticks it was given (one every 2000 ticks, and one after the last delay), and it waits exactly
  as long: 2000 ticks for every failed reading, and never more than it was given.\<close>
theorem time_wait_bounded:
  assumes "inputs s = bads @ goods" "\<forall>t \<in> set bads. t \<le> REF_TIME" "\<forall>t \<in> set goods. REF_TIME < t"
    "2 \<le> length goods"
  shows "fst (esp_rmaker_time_wait_for_sync ticks s) =
      (if length bads \<le> (unat ticks + 1999) div 2000 then ESP_OK else ESP_FAIL)
    \<and> waited (trace (snd (esp_rmaker_time_wait_for_sync ticks s))) =
      waited (trace s) + min (2000 * int (length bads)) (uint ticks)"
proof -
  obtain g1 g2 gs where g: "goods = g1 # g2 # gs"
    using assms(4) by (cases goods; cases "tl goods") auto
  define w where "w = wait_for_time ticks s"
  have w: "waited (trace w) = waited (trace s) + min (2000 * int (length bads)) (uint ticks)"
    "inputs w = (if length bads < rounds ticks then tl goods else drop (rounds ticks) bads @ goods)"
    using wait_for_time_eq [OF assms(1-3), of ticks] g by (simp_all add: w_def)
  have "fst (esp_rmaker_time_check w) = (length bads \<le> rounds ticks)"
  proof (cases "length bads \<le> rounds ticks")
    case True
    then have "inputs w = (if length bads < rounds ticks then g2 # gs else g1 # g2 # gs)"
      using w(2) g by simp
    then show ?thesis using True g assms(3) by (auto simp: time_check_Cons split: if_splits)
  next
    case False
    then obtain b bs where b: "drop (rounds ticks) bads = b # bs" by (cases "drop (rounds ticks) bads") auto
    then have "b \<in> set bads" by (metis in_set_dropD list.set_intros(1))
    then show ?thesis using False b w(2) assms(2) by (force simp: time_check_Cons)
  qed
  moreover have "trace (snd (esp_rmaker_time_check w)) = trace w"
    by (simp add: esp_rmaker_time_check_def split_def Let_def)
  ultimately show ?thesis
    using w(1)
    by (simp add: esp_rmaker_time_wait_for_sync_def w_def [symmetric] split_def Let_def rounds_def)
qed

subsection \<open>Setting the time zone\<close>

definition nvs_write :: "string \<Rightarrow> string \<Rightarrow> effect list" where
  "nvs_write key v =
     [Net (NvsOpen ''rmaker_time''), Net (NvsSetBlob key v), Net NvsCommit, Net NvsClose]"

lemma time_set_nvs_env [simp]: "env_tz (snd (time_set_nvs key v s)) = env_tz s"
  by (simp add: time_set_nvs_def split_def Let_def)

lemma time_set_nvs_ok:
  "fst (time_set_nvs key v s) = ESP_OK \<Longrightarrow>
     trace (snd (time_set_nvs key v s)) = trace s @ nvs_write key v"
  by (auto simp: time_set_nvs_def nvs_write_def split_def Let_def split: if_splits)

lemma time_set_nvs_extends: "\<exists>es. trace (snd (time_set_nvs key v s)) = trace s @ es"
  by (auto simp: time_set_nvs_def split_def Let_def)

text \<open>Setting the time zone by its name. An unknown name is refused and nothing changes. A
  known one is in effect as its POSIX string, which is stored before the environment changes and
  followed by the name; success means that both are stored, and after a failed first write the
  environment is the old one.\<close>
theorem time_set_timezone_spec:
  assumes "no_nul tz"
  shows "case tz_lookup esp_rmaker_tz_db_tzs tz of
      None \<Rightarrow> esp_rmaker_time_set_timezone (Some tz) s = (ESP_ERR_INVALID_ARG, s)
    | Some p \<Rightarrow>
        (let (err, t) = esp_rmaker_time_set_timezone (Some tz) s
         in (err = ESP_OK \<longrightarrow> env_tz t = Some p
               \<and> trace t = trace s @ nvs_write ''tz_posix'' p @ nvs_write ''tz'' tz)
          \<and> (env_tz t = env_tz s \<or> (env_tz t = Some p
               \<and> (\<exists>es. trace t = trace s @ nvs_write ''tz_posix'' p @ es))))"
proof (cases "tz_lookup esp_rmaker_tz_db_tzs tz")
  case None
  then show ?thesis
    using tz_get_eq [OF assms] by (simp add: esp_rmaker_time_set_timezone_def)
next
  case (Some p)
  obtain e1 u where u: "time_set_nvs ''tz_posix'' p s = (e1, u)" by fastforce
  define v where "v = u\<lparr>env_tz := Some p\<rparr>"
  obtain e2 t where t: "time_set_nvs ''tz'' tz v = (e2, t)" by fastforce
  have set: "esp_rmaker_time_set_timezone (Some tz) s = (if e1 = ESP_OK then (e2, t) else (e1, u))"
    using Some tz_get_eq [OF assms] u t
    by (simp add: esp_rmaker_time_set_timezone_def esp_rmaker_time_set_timezone_posix_def v_def)
  have "env_tz u = env_tz s" using time_set_nvs_env [of "''tz_posix''" p s] u by (metis snd_conv)
  then have first: "e1 = ESP_OK \<Longrightarrow> trace v = trace s @ nvs_write ''tz_posix'' p" "env_tz u = env_tz s"
    using time_set_nvs_ok [of "''tz_posix''" p s] u
    by (simp_all add: v_def)
  have "env_tz t = env_tz v" using time_set_nvs_env [of "''tz''" tz v] t by (metis snd_conv)
  then have second: "e2 = ESP_OK \<Longrightarrow> trace t = trace v @ nvs_write ''tz'' tz" "env_tz t = Some p"
    "\<exists>es. trace t = trace v @ es"
    using time_set_nvs_ok [of "''tz''" tz v] time_set_nvs_extends [of "''tz''" tz v] t by (simp_all add: v_def)
  show ?thesis using Some set first second by auto
qed

theorem time_set_timezone_spec_witness:
  "env_tz (snd (esp_rmaker_time_set_timezone (Some ''asia/shanghai'') ex_core)) = Some ''CST-8''"
proof -
  have look: "tz_lookup esp_rmaker_tz_db_tzs ''asia/shanghai'' = Some ''CST-8''"
    by (subst shanghai_lookup) (simp_all add: low_def lower_def)
  have "fst (esp_rmaker_time_set_timezone (Some ''asia/shanghai'') ex_core) = ESP_OK"
    using look tz_get_eq [of "''asia/shanghai''"]
    by (simp add: esp_rmaker_time_set_timezone_def esp_rmaker_time_set_timezone_posix_def
        time_set_nvs_def ex_core_def ex_defs rm.defs call_def emit_def)
  then show ?thesis
    using time_set_timezone_spec [of "''asia/shanghai''" ex_core] look by (auto simp: split_def Let_def)
qed

theorem time_wait_bounded_witness:
  "fst (esp_rmaker_time_wait_for_sync 5000 (ex_core\<lparr>inputs := [0, 2, 1600000000, 1600000002]\<rparr>)) = ESP_OK
   \<and> waited (trace (snd (esp_rmaker_time_wait_for_sync 5000
       (ex_core\<lparr>inputs := [0, 2, 1600000000, 1600000002]\<rparr>)))) = 4000"
  using time_wait_bounded [of "ex_core\<lparr>inputs := [0, 2, 1600000000, 1600000002]\<rparr>" "[0, 2]"
      "[1600000000, 1600000002]" 5000]
  by (simp add: REF_TIME_def ex_core_def ex_defs rm.defs)

end
