(* ===== verification/Rm_Core.thy ===== *)
theory Rm_Core
  imports Rm_Mapping Rm_Time
begin

text \<open>
  The core of the RainMaker agent: \<open>esp_rmaker_core.c\<close>, its initialisation, the agent's task and
  deinitialisation. Assisted claiming is on; local control and self claiming are off and the
  wait for the clock is not compiled (\<open>CONFIG_MBEDTLS_HAVE_TIME_DATE\<close> is off). Claiming itself
  is an effect whose result the platform answers. The task is one function; while it waits for
  the Wi-Fi, nothing else changes the fields it uses.
\<close>

definition upd_priv :: "(rm_priv \<Rightarrow> rm_priv) \<Rightarrow> 'a core_scheme \<Rightarrow> 'a core_scheme" where
  "upd_priv f s = s\<lparr>priv := map_option f (priv s)\<rparr>"

definition priv_has :: "(rm_priv \<Rightarrow> bool) \<Rightarrow> 'a core_scheme \<Rightarrow> bool" where
  "priv_has f s = (case priv s of None \<Rightarrow> False | Some p \<Rightarrow> f p)"

abbreviation core_handler :: string where
  "core_handler \<equiv> ''esp_rmaker_event_handler''"

abbreviation got_ip_register :: effect where
  "got_ip_register \<equiv> Net (EventRegister ''IP_EVENT'' ''STA_GOT_IP'' core_handler)"

abbreviation got_ip_unregister :: effect where
  "got_ip_unregister \<equiv> Net (EventUnregister ''IP_EVENT'' ''STA_GOT_IP'' core_handler)"

definition hex2_upper :: "u8 \<Rightarrow> string" where
  \<comment> \<open>\<open>%02X\<close>\<close>
  "hex2_upper b = map (\<lambda>d. ''0123456789ABCDEF'' ! d) [unat b div 16, unat b mod 16]"

fun ask_mac :: "nat \<Rightarrow> 'a core_scheme \<Rightarrow> u8 list \<times> 'a core_scheme" where
  "ask_mac 0 s = ([], s)"
| "ask_mac (Suc n) s = (let (b, s) = ask s; (bs, s) = ask_mac n s in (word_of_int b # bs, s))"

definition esp_rmaker_populate_node_id :: "bool \<Rightarrow> 'a core_scheme \<Rightarrow> string option \<times> 'a core_scheme" where
  "esp_rmaker_populate_node_id use_claiming s =
     (let (node_id, s) = esp_rmaker_factory_get ''node_id'' s
      in if node_id = None \<and> use_claiming then
           let (err, s) = call (Net (WifiCall ''esp_wifi_get_mac'' [])) s
           in if err \<noteq> ESP_OK then (None, s)
              else
                let (mac, s) = ask_mac 6 s;
                    (ok, s) = alloc s
                in if \<not> ok then (None, emit (Os Abort) s)
                   else (Some (snprintf 13 (concat (map hex2_upper mac))), s)
         else (node_id, s))"

definition esp_rmaker_change_node_id :: "string \<Rightarrow> 'a core_scheme \<Rightarrow> esp_err \<times> 'a core_scheme" where
  "esp_rmaker_change_node_id node_id s =
     (if priv s = None then (ESP_ERR_INVALID_STATE, s)
      else
        let (new, s) = strdup node_id s
        in case new of None \<Rightarrow> (ESP_ERR_NO_MEM, s)
           | Some i \<Rightarrow>
               let s = upd_priv (\<lambda>p. p\<lparr>pr_node_id := Some i\<rparr>) s
               in case esp_rmaker_get_node s of
                    None \<Rightarrow> (ESP_FAIL, emit (Os Abort) s)
                  | Some n \<Rightarrow> (ESP_OK, upd_node n (\<lambda>r. r\<lparr>n_id := Some i\<rparr>) s))"

text \<open>\<open>app_wifi_init_end\<close> is the application's function that \<open>esp_rmaker_report_node_state\<close> calls.\<close>

datatype core_event = IP_EVENT_STA_GOT_IP | RMAKER_EVENT_USER_NODE_MAPPING_DONE

definition esp_rmaker_event_handler ::
  "('a core_scheme \<Rightarrow> 'a core_scheme) \<Rightarrow> core_event \<Rightarrow> 'a core_scheme \<Rightarrow> 'a core_scheme" where
  "esp_rmaker_event_handler app_wifi_init_end ev s =
     (case ev of
        IP_EVENT_STA_GOT_IP \<Rightarrow>
          (if wifi_event_group s then emit (Os EventGroupSetBits) s else s)
      | RMAKER_EVENT_USER_NODE_MAPPING_DONE \<Rightarrow>
          let (_, s) = esp_rmaker_params_mqtt_init app_wifi_init_end s
          in emit (Net (EventUnregister ''RMAKER_EVENT'' ''USER_NODE_MAPPING_DONE'' core_handler)) s)"

subsection \<open>Initialisation and its reversal\<close>

definition esp_rmaker_deinit_priv_data :: "'a core_scheme \<Rightarrow> 'a core_scheme" where
  "esp_rmaker_deinit_priv_data s =
     (let (_, s) = wq_call WqDeinit s;
          s = esp_rmaker_user_mapping_prov_deinit s
      in if priv_has claim_data s then emit (App ''esp_rmaker_claim_data_free'' []) s else s)"

definition drop_priv :: "'a core_scheme \<Rightarrow> 'a core_scheme" where
  \<comment> \<open>the three failure exits of \<open>esp_rmaker_init\<close>\<close>
  "drop_priv s = (esp_rmaker_deinit_priv_data s)\<lparr>priv := None\<rparr>"

definition esp_rmaker_node_deinit :: "nat option \<Rightarrow> 'a core_scheme \<Rightarrow> esp_err \<times> 'a core_scheme" where
  "esp_rmaker_node_deinit node s =
     (if priv s = None then (ESP_ERR_INVALID_ARG, s)
      else if esp_rmaker_get_state s \<noteq> ESP_RMAKER_STATE_INIT_DONE then (ESP_ERR_INVALID_STATE, s)
      else
        let (_, s) = esp_rmaker_node_delete node s;
            s = upd_priv (\<lambda>p. p\<lparr>pr_node := None\<rparr>) s
        in (ESP_OK, drop_priv s))"

definition esp_rmaker_mqtt_conn_params_init :: "bool \<Rightarrow> 'a core_scheme \<Rightarrow> esp_err \<times> 'a core_scheme" where
  "esp_rmaker_mqtt_conn_params_init use_claiming s =
     (let (params, s) = esp_rmaker_get_mqtt_conn_params s;
          s = upd_priv (\<lambda>p. p\<lparr>mqtt_conn_params := (params \<noteq> None)\<rparr>) s
      in if params \<noteq> None then (ESP_OK, s)
         else if use_claiming then
           let (data, s) = call (App ''esp_rmaker_assisted_claim_init'' []) s;
               s = upd_priv (\<lambda>p. p\<lparr>claim_data := (data \<noteq> 0)\<rparr>) s
           in if data = 0 then (ESP_FAIL, s)
              else (ESP_OK, upd_priv (\<lambda>p. p\<lparr>need_claim := True\<rparr>) s)
         else (ESP_FAIL, s))"

definition new_priv :: rm_priv where
  "new_priv = \<lparr>pr_node_id = None, pr_node = None, enable_time_sync = False,
     pr_state = ESP_RMAKER_STATE_DEINIT, mqtt_connected = False, need_claim = False,
     claim_data = False, mqtt_conn_params = False\<rparr>"

text \<open>\<open>esp_rmaker_init\<close> from the creation of the work queue on.\<close>

definition init_services :: "bool \<Rightarrow> bool \<Rightarrow> 'a core_scheme \<Rightarrow> esp_err \<times> 'a core_scheme" where
  "init_services time_sync use_claiming s =
     (let (err, s) = wq_call WqInit s
      in if err \<noteq> ESP_OK then (ESP_ERR_NO_MEM, drop_priv s)
         else
           let (err, s) = esp_rmaker_user_mapping_prov_init s
           in if err \<noteq> ESP_OK then (ESP_FAIL, drop_priv s)
              else
                let (err, s) = esp_rmaker_mqtt_conn_params_init use_claiming s
                in if err \<noteq> ESP_OK then (ESP_FAIL, drop_priv s)
                   else
                     let (err, s) = (if priv_has need_claim s
                           then (ESP_OK, s) else esp_rmaker_mqtt_init s)
                     in if err \<noteq> ESP_OK then (ESP_FAIL, drop_priv s)
                        else
                          let s = esp_rmaker_user_node_mapping_init s;
                              s = upd_priv (\<lambda>p. p\<lparr>enable_time_sync := time_sync\<rparr>) s;
                              s = emit (rmaker_event 1) s;
                              s = upd_priv (\<lambda>p. p\<lparr>pr_state := ESP_RMAKER_STATE_INIT_DONE\<rparr>) s;
                              (_, s) = wq_call (WqAdd (''esp_rmaker_task'', [])) s
                          in (ESP_OK, s))"

text \<open>The configuration is \<open>enable_time_sync\<close>.\<close>

definition esp_rmaker_init :: "bool option \<Rightarrow> bool \<Rightarrow> 'a core_scheme \<Rightarrow> esp_err \<times> 'a core_scheme" where
  "esp_rmaker_init config use_claiming s =
     (if priv s \<noteq> None then (ESP_ERR_INVALID_STATE, s)
      else case config of None \<Rightarrow> (ESP_ERR_INVALID_ARG, s)
      | Some time_sync \<Rightarrow>
          let (err, s) = esp_rmaker_factory_init s
          in if err \<noteq> ESP_OK then (ESP_FAIL, s)
             else
               let (ok, s) = alloc s
               in if \<not> ok then (ESP_ERR_NO_MEM, s)
                  else
                    let s = s\<lparr>priv := Some new_priv\<rparr>;
                        (node_id, s) = esp_rmaker_populate_node_id use_claiming s;
                        s = upd_priv (\<lambda>p. p\<lparr>pr_node_id := node_id\<rparr>) s
                    in if node_id = None then (ESP_ERR_NO_MEM, drop_priv s)
                       else init_services time_sync use_claiming s)"

definition esp_rmaker_register_node :: "nat option \<Rightarrow> 'a core_scheme \<Rightarrow> esp_err \<times> 'a core_scheme" where
  "esp_rmaker_register_node node s =
     (if priv s = None then (ESP_ERR_INVALID_STATE, s)
      else if esp_rmaker_get_node s \<noteq> None then (ESP_ERR_INVALID_STATE, s)
      else if node = None then (ESP_ERR_INVALID_ARG, s)
      else (ESP_OK, upd_priv (\<lambda>p. p\<lparr>pr_node := node\<rparr>) s))"

definition esp_rmaker_node_init ::
  "string \<times> string \<Rightarrow> bool option \<Rightarrow> string option \<Rightarrow> string option \<Rightarrow> 'a core_scheme
     \<Rightarrow> nat option \<times> 'a core_scheme" where
  "esp_rmaker_node_init app_desc config name type s =
     (let (err, s) = esp_rmaker_init config True s
      in if err \<noteq> ESP_OK then (None, s)
         else
           let (node, s) = esp_rmaker_node_create app_desc name type s
           in if node = None then (None, s)
              else
                let (err, s) = esp_rmaker_register_node node s
                in if err \<noteq> ESP_OK then (None, s) else (node, s))"

subsection \<open>Start and stop\<close>

definition esp_rmaker_start :: "'a core_scheme \<Rightarrow> esp_err \<times> 'a core_scheme" where
  "esp_rmaker_start s =
     (if priv s = None then (ESP_ERR_INVALID_STATE, s)
      else
        let s = (if priv_has enable_time_sync s then snd (esp_rmaker_time_sync_init None s) else s);
            (err, s) = wq_call WqStart s
        in (if err \<noteq> ESP_OK then ESP_FAIL else ESP_OK, s))"

definition esp_rmaker_stop :: "'a core_scheme \<Rightarrow> esp_err \<times> 'a core_scheme" where
  "esp_rmaker_stop s =
     (if priv s = None then (ESP_ERR_INVALID_STATE, s)
      else (ESP_OK, upd_priv (\<lambda>p. p\<lparr>pr_state := ESP_RMAKER_STATE_STOP_REQUESTED\<rparr>) s))"

definition esp_rmaker_report_node_config_and_state ::
  "('a core_scheme \<Rightarrow> 'a core_scheme) \<Rightarrow> 'a core_scheme \<Rightarrow> esp_err \<times> 'a core_scheme" where
  "esp_rmaker_report_node_config_and_state app_wifi_init_end s =
     (let (err, s) = esp_rmaker_report_node_config s
      in if err \<noteq> ESP_OK then (ESP_FAIL, s)
         else if user_mapping_state s = ESP_RMAKER_USER_MAPPING_DONE then
           let (err, s) = esp_rmaker_report_node_state app_wifi_init_end s
           in (if err \<noteq> ESP_OK then ESP_FAIL else ESP_OK, s)
         else (ESP_OK, s))"

definition esp_rmaker_report_node_details :: "'a core_scheme \<Rightarrow> esp_err \<times> 'a core_scheme" where
  "esp_rmaker_report_node_details s =
     wq_call (WqAdd (''__esp_rmaker_report_node_config_and_state'', [])) s"

subsection \<open>The agent's task\<close>

text \<open>The parts of \<open>esp_rmaker_task\<close> up to its label; an error leaves for the label.\<close>

definition task_claim :: "'a core_scheme \<Rightarrow> esp_err \<times> 'a core_scheme" where
  "task_claim s =
     (if \<not> priv_has need_claim s then (ESP_OK, s)
      else
        let (ap, s) = call (Net (WifiCall ''esp_wifi_sta_get_ap_info'' [])) s
        in if ap = ESP_OK then (ESP_FAIL, emit got_ip_unregister s)
           else
             let s = emit (rmaker_event 2) s;
                 (err, s) = call (App ''esp_rmaker_assisted_claim_perform'' []) s
             in if err \<noteq> ESP_OK
                then (err, emit got_ip_unregister (emit (rmaker_event 4) s))
                else
                  let s = upd_priv (\<lambda>p. p\<lparr>claim_data := False\<rparr>) s
                  in (ESP_OK, emit (rmaker_event 3) s))"

definition task_wait_wifi :: "'a core_scheme \<Rightarrow> 'a core_scheme" where
  "task_wait_wifi s =
     (let (ap, s) = call (Net (WifiCall ''esp_wifi_sta_get_ap_info'' [])) s;
          s = (if ap \<noteq> ESP_OK then emit (Os EventGroupWaitBits) s else s)
      in emit got_ip_unregister s)"

definition task_claimed_params :: "'a core_scheme \<Rightarrow> esp_err \<times> 'a core_scheme" where
  "task_claimed_params s =
     (if \<not> priv_has need_claim s then (ESP_OK, s)
      else
        let (params, s) = esp_rmaker_get_mqtt_conn_params s;
            s = upd_priv (\<lambda>p. p\<lparr>mqtt_conn_params := (params \<noteq> None)\<rparr>) s
        in if params = None then (ESP_FAIL, s)
           else
             let (err, s) = esp_rmaker_mqtt_init s
             in if err \<noteq> ESP_OK then (err, s)
                else (ESP_OK, upd_priv (\<lambda>p. p\<lparr>need_claim := False\<rparr>) s))"

definition task_connected ::
  "('a core_scheme \<Rightarrow> 'a core_scheme) \<Rightarrow> 'a core_scheme \<Rightarrow> esp_err \<times> 'a core_scheme" where
  "task_connected app_wifi_init_end s =
     (let (err, s) = esp_rmaker_report_node_config s
      in if err \<noteq> ESP_OK then (err, s)
         else if user_mapping_state s = ESP_RMAKER_USER_MAPPING_DONE
         then esp_rmaker_params_mqtt_init app_wifi_init_end s
         else
           let s = (if user_mapping_state s \<noteq> ESP_RMAKER_USER_MAPPING_STARTED
                 then snd (esp_rmaker_start_user_node_mapping ''esp-rmaker'' ''failed'' s) else s)
           in call (Net (EventRegister ''RMAKER_EVENT'' ''USER_NODE_MAPPING_DONE'' core_handler)) s)"

definition task_body ::
  "('a core_scheme \<Rightarrow> 'a core_scheme) \<Rightarrow> 'a core_scheme \<Rightarrow> esp_err \<times> 'a core_scheme" where
  "task_body app_wifi_init_end s =
     (let s = upd_priv (\<lambda>p. p\<lparr>pr_state := ESP_RMAKER_STATE_STARTING\<rparr>) s;
          (ok, s) = alloc (emit (Os EventGroupCreate) s);
          s = s\<lparr>wifi_event_group := ok\<rparr>
      in if \<not> ok then (ESP_FAIL, s)
         else
           let (err, s) = call got_ip_register s
           in if err \<noteq> ESP_OK then (err, s)
              else
                let (err, s) = task_claim s
                in if err \<noteq> ESP_OK then (err, s)
                   else
                     let (err, s) = task_claimed_params (task_wait_wifi s)
                     in if err \<noteq> ESP_OK then (err, s)
                        else
                          let (err, s) = esp_rmaker_mqtt_connect s
                          in if err \<noteq> ESP_OK then (err, s)
                             else task_connected app_wifi_init_end
                               (upd_priv (\<lambda>p. p\<lparr>mqtt_connected := True,
                                  pr_state := ESP_RMAKER_STATE_STARTED\<rparr>) s))"

definition task_end :: "esp_err \<Rightarrow> 'a core_scheme \<Rightarrow> 'a core_scheme" where
  "task_end err s =
     (let s = (if wifi_event_group s then emit (Os EventGroupDelete) s else s);
          s = s\<lparr>wifi_event_group := False\<rparr>
      in if err = ESP_OK then s
         else
           let s = (if priv_has mqtt_connected s
                 then upd_priv (\<lambda>p. p\<lparr>mqtt_connected := False\<rparr>) (snd (esp_rmaker_mqtt_disconnect s)) else s)
           in upd_priv (\<lambda>p. p\<lparr>pr_state := ESP_RMAKER_STATE_INIT_DONE\<rparr>) s)"

definition esp_rmaker_task ::
  "('a core_scheme \<Rightarrow> 'a core_scheme) \<Rightarrow> 'a core_scheme \<Rightarrow> 'a core_scheme" where
  "esp_rmaker_task app_wifi_init_end s =
     (if priv s = None then s
      else let (err, s) = task_body app_wifi_init_end s in task_end err s)"

end
