(* ===== verification/Rm_Agent.thy ===== *)
theory Rm_Agent
  imports Rm_Core Rm_Frame
begin

text \<open>
  What the agent guarantees: initialisation is all or nothing, the task ends connected or back in
  the initialised state, and what happens when the node cannot be created or the user mapping is
  requested twice.
\<close>

subsection \<open>What the parts of initialisation leave alone\<close>

text \<open>
  The agent's own state: the private data, the task's event group, the work queue, and whether
  a node has ever been created.
\<close>

definition agent :: "'a core_scheme \<Rightarrow> rm_priv option \<times> bool \<times> wq_spec \<times> bool" where
  "agent s = (priv s, wifi_event_group s, work s, node_created s)"

lemma agent_iff:
  "agent t = agent s \<longleftrightarrow> priv t = priv s \<and> wifi_event_group t = wifi_event_group s \<and> work t = work s
     \<and> node_created t = node_created s"
  by (simp add: agent_def)

lemma agent_env [frame_simps]:
  "agent (emit e s) = agent s" "agent (emits es s) = agent s" "agent (snd (call e s)) = agent s"
  "agent (snd (ask s)) = agent s" "agent (snd (alloc s)) = agent s"
  "agent (snd (nvs_read s)) = agent s" "agent (snd (strdup t s)) = agent s"
  by (simp_all add: agent_def emit_def emits_def call_def ask_def alloc_def nvs_read_def strdup_def
      split_def Let_def split: list.split)

lemma agent_factory_get [frame_simps]: "agent (snd (esp_rmaker_factory_get k s)) = agent s"
  by (simp add: esp_rmaker_factory_get_def split_def Let_def frame_simps split: nvs_ans.split)

lemma agent_host [frame_simps]: "agent (snd (esp_rmaker_get_mqtt_host s)) = agent s"
  by (simp add: esp_rmaker_get_mqtt_host_def split_def Let_def frame_simps split: option.split)

lemma agent_conn_params [frame_simps]: "agent (snd (esp_rmaker_get_mqtt_conn_params s)) = agent s"
  by (simp add: esp_rmaker_get_mqtt_conn_params_def esp_rmaker_get_client_key_def
      esp_rmaker_get_client_cert_def split_def Let_def frame_simps split: option.split)

lemma agent_mqtt [frame_simps]:
  "agent (snd (esp_rmaker_mqtt_init s)) = agent s"
  "agent (snd (esp_rmaker_mqtt_connect s)) = agent s"
  "agent (snd (esp_rmaker_mqtt_disconnect s)) = agent s"
  by (simp_all add: esp_rmaker_mqtt_init_def esp_rmaker_mqtt_glue_setup_def esp_rmaker_mqtt_connect_def
      esp_rmaker_mqtt_disconnect_def Let_def agent_def)

lemma agent_rm_mqtt [frame_simps]:
  "agent (snd (esp_rmaker_mqtt_publish t d s)) = agent s"
  "agent (snd (esp_rmaker_mqtt_subscribe t s)) = agent s"
  by (simp_all add: esp_rmaker_mqtt_publish_def esp_rmaker_mqtt_subscribe_def frame_simps)

lemma agent_prov [frame_simps]:
  "agent (snd (esp_rmaker_user_mapping_prov_init s)) = agent s"
  "agent (esp_rmaker_user_mapping_prov_deinit s) = agent s"
  "agent (esp_rmaker_user_node_mapping_init s) = agent s"
  by (simp_all add: esp_rmaker_user_mapping_prov_init_def esp_rmaker_user_mapping_prov_deinit_def
      esp_rmaker_user_node_mapping_init_def split_def Let_def frame_simps)
     (simp_all add: agent_def)

lemma agent_factory_init [frame_simps]: "agent (snd (esp_rmaker_factory_init s)) = agent s"
  by (simp add: esp_rmaker_factory_init_def split_def Let_def frame_simps) (simp add: agent_def)

lemma agent_ask_mac [frame_simps]: "agent (snd (ask_mac n s)) = agent s"
  by (induction n arbitrary: s) (simp_all add: split_def Let_def frame_simps)

lemma agent_node_id [frame_simps]: "agent (snd (esp_rmaker_populate_node_id u s)) = agent s"
  by (simp add: esp_rmaker_populate_node_id_def split_def Let_def frame_simps)

lemma agent_clear_flags [frame_simps]: "agent (clear_flags f ps s) = agent s"
  by (subst clear_flags_frame) (simp add: agent_def)

lemma agent_upd_buf [frame_simps]:
  "agent (s\<lparr>node_params_buf := b\<rparr>) = agent s"
  "agent (s\<lparr>max_node_params_size := k\<rparr>) = agent s"
  "agent (s\<lparr>publish_topic := t\<rparr>) = agent s"
  "agent (s\<lparr>params_mqtt_init_done := d\<rparr>) = agent s"
  "agent (s\<lparr>user_mapping_data := m\<rparr>) = agent s"
  "agent (s\<lparr>user_mapping_state := u\<rparr>) = agent s"
  "agent (s\<lparr>next_ref := r\<rparr>) = agent s"
  by (simp_all add: agent_def)

lemma agent_populate:
  "esp_rmaker_populate_params b f r s = (e, l, t, s') \<Longrightarrow> agent s' = agent s"
  using populate_state [of b f r s] by (auto simp: frame_simps)

lemma agent_alloc_populate [frame_simps]:
  "agent (snd (esp_rmaker_allocate_and_populate_params f r s)) = agent s"
proof -
  have p: "agent (snd (snd (snd (esp_rmaker_populate_params b f r u)))) = agent u" for b and u :: "'a core_scheme"
    by (cases "esp_rmaker_populate_params b f r u") (simp add: agent_populate)
  show ?thesis
    by (simp add: esp_rmaker_allocate_and_populate_params_def split_def Let_def frame_simps p)
qed

lemma agent_get_config [frame_simps]: "agent (snd (esp_rmaker_get_node_config s)) = agent s"
  by (simp add: esp_rmaker_get_node_config_def split_def Let_def frame_simps)

lemma agent_report_config [frame_simps]: "agent (snd (esp_rmaker_report_node_config s)) = agent s"
  by (simp add: esp_rmaker_report_node_config_def split_def Let_def frame_simps split: option.split)

lemma agent_publish_params [frame_simps]: "agent (publish_params s) = agent s"
  by (simp add: publish_params_def frame_simps)

lemma agent_report_state [frame_simps]:
  "(\<And>u. agent (f u) = agent u) \<Longrightarrow> agent (snd (esp_rmaker_report_node_state f s)) = agent s"
  by (simp add: esp_rmaker_report_node_state_def split_def Let_def frame_simps)

lemma agent_params_mqtt [frame_simps]:
  "(\<And>u. agent (f u) = agent u) \<Longrightarrow> agent (snd (esp_rmaker_params_mqtt_init f s)) = agent s"
  by (simp add: esp_rmaker_params_mqtt_init_def esp_rmaker_register_for_set_params_def
      split_def Let_def frame_simps)

lemma agent_upd_priv [frame_simps]:
  "agent (upd_priv f s) = (map_option f (priv s), wifi_event_group s, work s, node_created s)"
  by (simp add: agent_def upd_priv_def)

lemma upd_priv_fields [simp]:
  "priv (upd_priv f s) = map_option f (priv s)" "wifi_event_group (upd_priv f s) = wifi_event_group s"
  "work (upd_priv f s) = work s" "trace (upd_priv f s) = trace s"
  "user_mapping_state (upd_priv f s) = user_mapping_state s"
  "node_created (upd_priv f s) = node_created s"
  by (simp_all add: upd_priv_def)

lemma agentD:
  assumes "agent t = agent s"
  shows "priv t = priv s" "wifi_event_group t = wifi_event_group s" "work t = work s"
    "node_created t = node_created s"
  using assms by (simp_all add: agent_iff)

lemmas agent_facts = agent_env agent_factory_get agent_host agent_conn_params agent_mqtt
  agent_rm_mqtt agent_prov agent_factory_init agent_node_id agent_alloc_populate
  agent_report_config
lemmas agent_priv [simp] = agent_facts [THEN agentD(1)]
lemmas agent_group [simp] = agent_facts [THEN agentD(2)]
lemmas agent_work [simp] = agent_facts [THEN agentD(3)]
lemmas agent_created [simp] = agent_facts [THEN agentD(4)]

lemma start_mapping_keeps [simp]:
  "priv (snd (esp_rmaker_start_user_node_mapping u k s)) = priv s"
  "wifi_event_group (snd (esp_rmaker_start_user_node_mapping u k s)) = wifi_event_group s"
  by (simp_all add: esp_rmaker_start_user_node_mapping_def esp_rmaker_user_mapping_cleanup_data_def
      wq_call_def wq_asks_def split_def Let_def split: option.split)

subsection \<open>Initialisation is all or nothing\<close>

lemma wq_call_fields [simp]:
  "priv (snd (wq_call c s)) = priv s" "wifi_event_group (snd (wq_call c s)) = wifi_event_group s"
  "user_mapping_state (snd (wq_call c s)) = user_mapping_state s"
  "node_created (snd (wq_call c s)) = node_created s"
  by (simp_all add: wq_call_def split_def Let_def)

lemma wq_call_work:
  "work (snd (wq_call WqDeinit s)) = snd (spec_op WqDeinit True (work s))"
  "work (snd (wq_call (WqAdd w) s)) = snd (spec_op (WqAdd w) True (work s))"
  by (simp_all add: wq_call_def wq_asks_def split_def Let_def)

lemma wq_call_init:
  assumes "work s = (WORK_QUEUE_STATE_DEINIT, None)"
  shows "fst (wq_call WqInit s) = ESP_OK \<and> work (snd (wq_call WqInit s)) = (WORK_QUEUE_STATE_INIT_DONE, Some [])
    \<or> fst (wq_call WqInit s) = ESP_FAIL \<and> work (snd (wq_call WqInit s)) = (WORK_QUEUE_STATE_DEINIT, None)"
  using assms by (simp add: wq_call_def split_def Let_def)

lemma drop_priv_fields:
  assumes "work s \<in> {(WORK_QUEUE_STATE_DEINIT, None), (WORK_QUEUE_STATE_INIT_DONE, Some ws)}"
  shows "priv (drop_priv s) = None \<and> work (drop_priv s) = (WORK_QUEUE_STATE_DEINIT, None)"
  using assms
  by (auto simp: drop_priv_def esp_rmaker_deinit_priv_data_def split_def Let_def wq_call_work)

lemma mapping_state_env [simp]:
  "user_mapping_state (snd (esp_rmaker_user_mapping_prov_init s)) = user_mapping_state s"
  by (simp add: esp_rmaker_user_mapping_prov_init_def split_def Let_def)

lemma conn_params_init_fields [simp]:
  "work (snd (esp_rmaker_mqtt_conn_params_init uc s)) = work s"
  by (simp add: esp_rmaker_mqtt_conn_params_init_def split_def Let_def)

lemma conn_params_init_ok:
  assumes "fst (esp_rmaker_mqtt_conn_params_init uc s) = ESP_OK" "priv s = Some p"
    "\<not> need_claim p" "\<not> claim_data p"
  shows "\<exists>q. priv (snd (esp_rmaker_mqtt_conn_params_init uc s)) = Some q
    \<and> pr_node_id q = pr_node_id p \<and> pr_node q = pr_node p \<and> mqtt_connected q = mqtt_connected p
    \<and> need_claim q = (\<not> mqtt_conn_params q) \<and> claim_data q = need_claim q \<and> (need_claim q \<longrightarrow> uc)"
  using assms
  by (auto simp: esp_rmaker_mqtt_conn_params_init_def split_def Let_def split: if_splits)

definition initialised :: "bool \<Rightarrow> 'a core_scheme \<Rightarrow> bool" where
  \<comment> \<open>the state after a successful \<open>esp_rmaker_init\<close>\<close>
  "initialised time_sync s \<longleftrightarrow> (\<exists>p. priv s = Some p \<and> pr_state p = ESP_RMAKER_STATE_INIT_DONE
     \<and> pr_node_id p \<noteq> None \<and> pr_node p = None \<and> \<not> mqtt_connected p \<and> enable_time_sync p = time_sync
     \<and> need_claim p = (\<not> mqtt_conn_params p) \<and> claim_data p = need_claim p)
   \<and> work s = (WORK_QUEUE_STATE_INIT_DONE, Some [(''esp_rmaker_task'', [])])
   \<and> user_mapping_state s = ESP_RMAKER_USER_MAPPING_DONE"

definition untouched :: "'a core_scheme \<Rightarrow> bool" where
  "untouched s \<longleftrightarrow> priv s = None \<and> work s = (WORK_QUEUE_STATE_DEINIT, None)"

lemma untouched_drop:
  "work s = (WORK_QUEUE_STATE_DEINIT, None) \<Longrightarrow> untouched (drop_priv s)"
  "work s = (WORK_QUEUE_STATE_INIT_DONE, Some ws) \<Longrightarrow> untouched (drop_priv s)"
  using drop_priv_fields [of s ws] by (auto simp: untouched_def)

lemma init_services_outcome:
  assumes "work s = (WORK_QUEUE_STATE_DEINIT, None)" "priv s = Some (new_priv\<lparr>pr_node_id := Some i\<rparr>)"
  shows "if fst (init_services ts uc s) = ESP_OK then initialised ts (snd (init_services ts uc s))
    else untouched (snd (init_services ts uc s))"
proof -
  obtain e1 s1 where s1: "wq_call WqInit s = (e1, s1)" by fastforce
  obtain e2 s2 where s2: "esp_rmaker_user_mapping_prov_init s1 = (e2, s2)" by fastforce
  obtain e3 s3 where s3: "esp_rmaker_mqtt_conn_params_init uc s2 = (e3, s3)" by fastforce
  obtain e4 s4 where s4: "(if priv_has need_claim s3 then (ESP_OK, s3) else esp_rmaker_mqtt_init s3) = (e4, s4)"
    by fastforce
  note steps = init_services_def s1 s2 s3 s4
  have w1: "priv s1 = priv s" using s1 by (metis snd_conv wq_call_fields(1))
  have a2: "priv s2 = priv s" "work s2 = work s1"
    using agent_prov(1) [of s1] s2 w1 by (metis agentD snd_conv)+
  have a3: "work s3 = work s1" using conn_params_init_fields [of uc s2] s3 a2 by (metis snd_conv)
  have a4: "work s4 = work s1" "priv s4 = priv s3"
    using agent_mqtt(1) [of s3] s4 a3 by (metis agentD snd_conv)+
  show ?thesis
  proof (cases "e1 = ESP_OK")
    case False
    then have "work s1 = (WORK_QUEUE_STATE_DEINIT, None)" using wq_call_init [OF assms(1)] s1 by auto
    then show ?thesis using False untouched_drop(1) by (simp add: steps)
  next
    case True
    then have w: "work s1 = (WORK_QUEUE_STATE_INIT_DONE, Some [])" using wq_call_init [OF assms(1)] s1 by auto
    show ?thesis
    proof (cases "e2 = ESP_OK \<and> e3 = ESP_OK \<and> e4 = ESP_OK")
      case False
      then show ?thesis using True w a2 a3 a4 untouched_drop(2) by (auto simp: steps)
    next
      case ok: True
      obtain q where q: "priv s3 = Some q" "pr_node_id q = Some i" "pr_node q = None" "\<not> mqtt_connected q"
          "need_claim q = (\<not> mqtt_conn_params q)" "claim_data q = need_claim q"
        using conn_params_init_ok [of uc s2] s3 ok a2 assms(2) by (auto simp: new_priv_def)
      have "init_services ts uc s = (ESP_OK, snd (wq_call (WqAdd (''esp_rmaker_task'', []))
          (upd_priv (\<lambda>p. p\<lparr>pr_state := ESP_RMAKER_STATE_INIT_DONE\<rparr>) (emit (rmaker_event 1)
            (upd_priv (\<lambda>p. p\<lparr>enable_time_sync := ts\<rparr>) (esp_rmaker_user_node_mapping_init s4))))))"
        using True ok by (simp add: steps case_prod_beta)
      then show ?thesis
        using q w a4 by (simp add: initialised_def esp_rmaker_user_node_mapping_init_def wq_call_work)
    qed
  qed
qed

lemma init_outcome:
  assumes "untouched s"
  shows "if fst (esp_rmaker_init (Some time_sync) use_claiming s) = ESP_OK
    then initialised time_sync (snd (esp_rmaker_init (Some time_sync) use_claiming s))
    else untouched (snd (esp_rmaker_init (Some time_sync) use_claiming s))"
proof -
  obtain e1 s1 where s1: "esp_rmaker_factory_init s = (e1, s1)" by fastforce
  obtain ok s2 where s2: "alloc s1 = (ok, s2)" by fastforce
  define s3 where "s3 = s2\<lparr>priv := Some new_priv\<rparr>"
  obtain i s4 where s4: "esp_rmaker_populate_node_id use_claiming s3 = (i, s4)" by fastforce
  define s5 where "s5 = upd_priv (\<lambda>p. p\<lparr>pr_node_id := i\<rparr>) s4"
  have "agent s1 = agent s" "agent s2 = agent s1" "agent s4 = agent s3"
    using agent_factory_init [of s] agent_env(5) [of s1] agent_node_id [of use_claiming s3] s1 s2 s4
    by (metis snd_conv)+
  then have w: "untouched s1" "untouched s2" "work s5 = (WORK_QUEUE_STATE_DEINIT, None)"
    "priv s5 = Some (new_priv\<lparr>pr_node_id := i\<rparr>)"
    using assms by (auto simp: untouched_def agent_iff s3_def s5_def)
  have init: "esp_rmaker_init (Some time_sync) use_claiming s =
    (if e1 \<noteq> ESP_OK then (ESP_FAIL, s1) else if \<not> ok then (ESP_ERR_NO_MEM, s2)
     else if i = None then (ESP_ERR_NO_MEM, drop_priv s5) else init_services time_sync use_claiming s5)"
    using assms
    by (cases i) (simp_all add: esp_rmaker_init_def s1 s2 s3_def [symmetric] s4 s5_def untouched_def)
  show ?thesis
    unfolding init using w untouched_drop(1) [OF w(3)] init_services_outcome [OF w(3)] by auto
qed

text \<open>C8. Initialisation is all or nothing. Whatever the platform answers, \<open>esp_rmaker_init\<close> on an
  agent that is not initialised either succeeds, with a node id, with connection parameters or a
  pending claim (exactly one of the two) and with the agent's task as the first entry of the new
  work queue, or it leaves neither private data nor a work queue behind.\<close>
theorem agent_init_all_or_nothing:
  assumes "untouched s"
  shows "if fst (esp_rmaker_init (Some time_sync) use_claiming s) = ESP_OK
    then initialised time_sync (snd (esp_rmaker_init (Some time_sync) use_claiming s))
    else untouched (snd (esp_rmaker_init (Some time_sync) use_claiming s))"
  by (rule init_outcome [OF assms])

subsection \<open>How the task ends\<close>

definition still :: "rm_priv \<Rightarrow> 'a core_scheme \<Rightarrow> bool" where
  \<comment> \<open>private data that differ from \<open>p\<close> in the claim and parameter fields only\<close>
  "still p s \<longleftrightarrow> (\<exists>q. priv s = Some q \<and> mqtt_connected q = mqtt_connected p \<and> pr_state q = pr_state p)"

lemma task_claim_still:
  assumes "priv s = Some p"
  shows "still p (snd (task_claim s))"
  using assms by (auto simp: task_claim_def still_def split_def Let_def)

lemma task_wait_agent [frame_simps]: "agent (task_wait_wifi s) = agent s"
  by (simp add: task_wait_wifi_def split_def Let_def frame_simps)

lemma task_claimed_still:
  assumes "still p s"
  shows "still p (snd (task_claimed_params s))
    \<and> (fst (task_claimed_params s) = ESP_OK \<longrightarrow> \<not> priv_has need_claim (snd (task_claimed_params s)))"
  using assms
  by (auto simp: task_claimed_params_def still_def priv_has_def split_def Let_def split: if_splits)

lemma task_connected_priv:
  assumes "\<And>u. agent (f u) = agent u"
  shows "priv (snd (task_connected f s)) = priv s"
proof -
  have "priv (snd (esp_rmaker_params_mqtt_init f u)) = priv u" for u
    by (rule agentD(1) [OF agent_params_mqtt [OF assms]])
  then show ?thesis by (simp add: task_connected_def split_def Let_def)
qed

definition settled :: "'a core_scheme \<Rightarrow> bool" where
  "settled s \<longleftrightarrow> \<not> wifi_event_group s \<and> (\<exists>q. priv s = Some q
     \<and> (if mqtt_connected q then pr_state q = ESP_RMAKER_STATE_STARTED \<and> \<not> need_claim q
        else pr_state q = ESP_RMAKER_STATE_INIT_DONE))"

lemma task_body_outcome:
  assumes "\<And>u. agent (f u) = agent u" "priv s = Some p" "task_body f s = (err, t)"
  shows "\<exists>q. priv t = Some q \<and> (err = ESP_OK \<longrightarrow> mqtt_connected q
    \<and> pr_state q = ESP_RMAKER_STATE_STARTED \<and> \<not> need_claim q)"
proof -
  define p' where "p' = p\<lparr>pr_state := ESP_RMAKER_STATE_STARTING\<rparr>"
  define s0 where "s0 = upd_priv (\<lambda>p. p\<lparr>pr_state := ESP_RMAKER_STATE_STARTING\<rparr>) s"
  obtain ok s1 where s1: "alloc (emit (Os EventGroupCreate) s0) = (ok, s1)" by fastforce
  define s2 where "s2 = s1\<lparr>wifi_event_group := ok\<rparr>"
  obtain e3 s3 where s3: "call got_ip_register s2 = (e3, s3)" by fastforce
  obtain e4 s4 where s4: "task_claim s3 = (e4, s4)" by fastforce
  obtain e5 s5 where s5: "task_claimed_params (task_wait_wifi s4) = (e5, s5)" by fastforce
  obtain e6 s6 where s6: "esp_rmaker_mqtt_connect s5 = (e6, s6)" by fastforce
  define s7 where "s7 = upd_priv (\<lambda>p. p\<lparr>mqtt_connected := True, pr_state := ESP_RMAKER_STATE_STARTED\<rparr>) s6"
  have body: "(err, t) = (if \<not> ok then (ESP_FAIL, s2) else if e3 \<noteq> ESP_OK then (e3, s3)
     else if e4 \<noteq> ESP_OK then (e4, s4) else if e5 \<noteq> ESP_OK then (e5, s5)
     else if e6 \<noteq> ESP_OK then (e6, s6) else task_connected f s7)"
    using assms(3) s1 s3 s4 s5 s6 by (simp add: task_body_def Let_def s0_def s2_def s7_def split: if_splits)
  have "agent s1 = agent s0" using s1 agent_env(1) [of "Os EventGroupCreate" s0]
      agent_env(5) [of "emit (Os EventGroupCreate) s0"] by (metis snd_conv)
  then have q2: "priv s2 = Some p'" using assms(2) by (simp add: s2_def s0_def p'_def agent_iff)
  have q3: "priv s3 = Some p'" using q2 s3 agent_env(3) [of got_ip_register s2] by (metis agentD(1) snd_conv)
  have q4: "still p' s4" using task_claim_still [OF q3] s4 by (metis snd_conv)
  have q4': "still p' (task_wait_wifi s4)"
    using q4 agentD(1) [OF task_wait_agent [of s4]] by (simp add: still_def)
  have q5: "still p' s5 \<and> (e5 = ESP_OK \<longrightarrow> \<not> priv_has need_claim s5)"
    using task_claimed_still [OF q4'] s5 by (metis fst_conv snd_conv)
  have "priv s6 = priv s5" using agent_mqtt(2) [of s5] s6 by (metis agentD(1) snd_conv)
  then obtain q where q7: "still p' s6" "priv s7 = Some q" "mqtt_connected q"
      "pr_state q = ESP_RMAKER_STATE_STARTED" "e5 = ESP_OK \<longrightarrow> \<not> need_claim q"
    using q5 by (auto simp: still_def s7_def priv_has_def)
  obtain e8 s8 where s8: "task_connected f s7 = (e8, s8)" by fastforce
  then have "priv s8 = Some q"
    using task_connected_priv [OF assms(1), of s7] q7(2) by simp
  then show ?thesis
    using body s8 q2 q3 q4 q5 q7 by (auto simp: still_def split: if_splits)
qed

text \<open>C23. How the agent's task ends. Whatever the platform answers, after \<open>esp_rmaker_task\<close> the event
  group is gone and the agent is either connected, in the started state and with no claim pending,
  or not connected and back in the initialised state, from which it can be deinitialised.\<close>
theorem agent_task_settles:
  assumes "priv s \<noteq> None" "\<forall>u. agent (app_wifi_init_end u) = agent u"
  shows "settled (esp_rmaker_task app_wifi_init_end s)"
proof -
  obtain err t where t: "task_body app_wifi_init_end s = (err, t)" by fastforce
  obtain p where "priv s = Some p" using assms(1) by blast
  then obtain q where q: "priv t = Some q" "err = ESP_OK \<longrightarrow> mqtt_connected q
      \<and> pr_state q = ESP_RMAKER_STATE_STARTED \<and> \<not> need_claim q"
    using task_body_outcome [OF _ _ t] assms(2) by blast
  have "esp_rmaker_task app_wifi_init_end s = task_end err t"
    using assms(1) t by (auto simp: esp_rmaker_task_def)
  then show ?thesis
    using q by (auto simp: settled_def task_end_def priv_has_def Let_def)
qed

subsection \<open>Deinitialisation is final\<close>

lemma drop_priv_created: "node_created (drop_priv s) = node_created s"
  by (simp add: drop_priv_def esp_rmaker_deinit_priv_data_def split_def Let_def)

lemma init_created: "node_created (snd (esp_rmaker_init c u s)) = node_created s"
proof -
  have "node_created (snd (init_services ts u t)) = node_created t" for ts and t :: "'a core_scheme"
    by (simp add: init_services_def esp_rmaker_mqtt_conn_params_init_def drop_priv_created split_def Let_def)
  then show ?thesis
    by (simp add: esp_rmaker_init_def drop_priv_created split_def Let_def split: option.split)
qed

lemma conn_params_init_priv:
  "(priv (snd (esp_rmaker_mqtt_conn_params_init u s)) = None) = (priv s = None)"
  by (simp add: esp_rmaker_mqtt_conn_params_init_def split_def Let_def)

lemma init_services_priv:
  assumes "fst (init_services ts u s) = ESP_OK" "priv s \<noteq> None"
  shows "priv (snd (init_services ts u s)) \<noteq> None"
proof -
  obtain e1 s1 where s1: "wq_call WqInit s = (e1, s1)" by fastforce
  obtain e2 s2 where s2: "esp_rmaker_user_mapping_prov_init s1 = (e2, s2)" by fastforce
  obtain e3 s3 where s3: "esp_rmaker_mqtt_conn_params_init u s2 = (e3, s3)" by fastforce
  obtain e4 s4 where s4: "(if priv_has need_claim s3 then (ESP_OK, s3) else esp_rmaker_mqtt_init s3) = (e4, s4)"
    by fastforce
  have "priv s1 = priv s" "priv s2 = priv s1" "priv s4 = priv s3"
    using wq_call_fields(1) [of WqInit s] s1 agent_prov(1) [of s1] s2 agent_mqtt(1) [of s3] s4
    by (metis agentD(1) snd_conv)+
  moreover have "(priv s3 = None) = (priv s2 = None)"
    using conn_params_init_priv [of u s2] s3 by simp
  ultimately have "priv s4 \<noteq> None" using assms(2) by simp
  then show ?thesis
    using assms(1)
    by (simp add: init_services_def s1 s2 s3 s4 esp_rmaker_user_node_mapping_init_def case_prod_beta
        split: if_splits)
qed

lemma init_ok_priv:
  assumes "fst (esp_rmaker_init c u s) = ESP_OK"
  shows "priv (snd (esp_rmaker_init c u s)) \<noteq> None"
proof -
  obtain s1 e1 where s1: "esp_rmaker_factory_init s = (e1, s1)" by fastforce
  obtain ok s2 where s2: "alloc s1 = (ok, s2)" by fastforce
  obtain i s4 where s4: "esp_rmaker_populate_node_id u (s2\<lparr>priv := Some new_priv\<rparr>) = (i, s4)" by fastforce
  define s5 where "s5 = upd_priv (\<lambda>p. p\<lparr>pr_node_id := i\<rparr>) s4"
  have "priv s4 = Some new_priv"
    using agent_node_id [of u "s2\<lparr>priv := Some new_priv\<rparr>"] s4 by (auto simp: agent_iff)
  then have "priv s5 \<noteq> None" by (simp add: s5_def)
  moreover obtain ts where "esp_rmaker_init c u s = init_services ts u s5"
    using assms by (auto simp: esp_rmaker_init_def s1 s2 s4 s5_def Let_def split: option.splits if_splits)
  ultimately show ?thesis using assms init_services_priv [of ts u s5] by simp
qed

lemma init_again: "priv s \<noteq> None \<Longrightarrow> esp_rmaker_node_init d c n t s = (None, s)"
  by (simp add: esp_rmaker_node_init_def esp_rmaker_init_def)

lemma node_init_created:
  assumes "node_created s"
  shows "esp_rmaker_node_init d c n t s = (None, snd (esp_rmaker_init c True s))"
  using assms init_created [of c True s]
  by (simp add: esp_rmaker_node_init_def esp_rmaker_node_create_def split_def Let_def)

lemma delete_created: "node_created (snd (esp_rmaker_node_delete n s)) = node_created s"
proof -
  have p: "node_created (delete_params ps u) = node_created u" for ps and u :: "'a rm_scheme"
    by (induction ps u rule: delete_params.induct)
       (simp_all add: esp_rmaker_param_delete_def upd_param_def Let_def)
  have "node_created (snd (esp_rmaker_device_delete d u)) = node_created u" for d and u :: "'a rm_scheme"
    by (simp add: esp_rmaker_device_delete_def upd_device_def p Let_def split: option.split)
  then have "node_created (delete_devices ds u) = node_created u" for ds and u :: "'a rm_scheme"
    by (induction ds u rule: delete_devices.induct) (simp_all add: upd_device_def Let_def)
  then show ?thesis by (simp add: esp_rmaker_node_delete_def upd_node_def split: option.split)
qed

text \<open>Deinitialisation is final. After a successful \<open>esp_rmaker_node_deinit\<close> of an agent whose
  node was created, \<open>esp_rmaker_node_init\<close> returns \<open>NULL\<close> for all arguments; and where its first
  step succeeded, it leaves an initialised agent behind that nobody has a handle of, so that every
  further call changes nothing.\<close>
theorem node_deinit_final:
  assumes "node_created s" "esp_rmaker_node_deinit node s = (ESP_OK, t)"
  shows "fst (esp_rmaker_node_init d c n ty t) = None
    \<and> (fst (esp_rmaker_init c True t) = ESP_OK \<longrightarrow>
        (\<forall>d' c' n' ty'. esp_rmaker_node_init d' c' n' ty' (snd (esp_rmaker_node_init d c n ty t))
           = (None, snd (esp_rmaker_node_init d c n ty t))))"
proof -
  have "node_created t"
    using assms delete_created [of node s]
    by (auto simp: esp_rmaker_node_deinit_def drop_priv_created split_def Let_def split: if_splits)
  then have e: "esp_rmaker_node_init d c n ty t = (None, snd (esp_rmaker_init c True t))"
    by (rule node_init_created)
  show ?thesis
    unfolding e fst_conv snd_conv by (blast intro: init_again [OF init_ok_priv])
qed

subsection \<open>Two mapping requests before the work queue runs\<close>

lemma start_mapping_ok:
  assumes "esp_rmaker_start_user_node_mapping u k s = (ESP_OK, t)"
  shows "next_ref t = next_ref s + 1 \<and> (\<exists>d ws. user_mapping_data t = Some d \<and> um_ref d = next_ref s
    \<and> um_user_id d = u \<and> um_secret_key d = k
    \<and> snd (work s) = Some ws
    \<and> snd (work t) = Some (ws @ [(''esp_rmaker_user_mapping_cb'', [int (next_ref s)])]))"
proof (cases "snd (work s)")
  case None
  then show ?thesis
    using assms by (cases "work s") (auto simp: esp_rmaker_start_user_node_mapping_def wq_call_def
        wq_asks_def esp_rmaker_user_mapping_cleanup_data_def split_def Let_def
        split: option.splits if_splits)
next
  case (Some ws)
  then show ?thesis
    using assms by (cases "work s") (auto simp: esp_rmaker_start_user_node_mapping_def wq_call_def
        wq_asks_def esp_rmaker_user_mapping_cleanup_data_def esp_rmaker_user_mapping_prov_deinit_def
        strdup_def emits_def split_def Let_def split: option.splits if_splits)
qed

text \<open>A second mapping request invalidates the first one's queued work. If two requests are
  accepted before the work queue runs (it does not while the agent's task waits for the Wi-Fi),
  the queue holds both work functions, and the one queued by the first request finds its data
  freed.\<close>
theorem mapping_restart_dangles:
  assumes "esp_rmaker_start_user_node_mapping u1 k1 s = (ESP_OK, s1)"
    "esp_rmaker_start_user_node_mapping u2 k2 s1 = (ESP_OK, s2)"
  shows "\<exists>ws r. snd (work s2) = Some (ws @ [(''esp_rmaker_user_mapping_cb'', [int r]),
      (''esp_rmaker_user_mapping_cb'', [int (r + 1)])])
    \<and> App ''use_after_free'' [int r] \<in> set (trace (esp_rmaker_user_mapping_cb r s2))"
proof -
  obtain ws where ws: "snd (work s1) = Some (ws @ [(''esp_rmaker_user_mapping_cb'', [int (next_ref s)])])"
    using start_mapping_ok [OF assms(1)] by blast
  have "next_ref s1 = next_ref s + 1" using start_mapping_ok [OF assms(1)] by blast
  moreover obtain d where "user_mapping_data s2 = Some d" "um_ref d = next_ref s1"
      "snd (work s2) = Some ((ws @ [(''esp_rmaker_user_mapping_cb'', [int (next_ref s)])])
         @ [(''esp_rmaker_user_mapping_cb'', [int (next_ref s1)])])"
    using start_mapping_ok [OF assms(2)] ws by auto
  ultimately show ?thesis
    by (intro exI [of _ ws] exI [of _ "next_ref s"]) (simp add: esp_rmaker_user_mapping_cb_def)
qed

subsection \<open>Concrete runs\<close>

text \<open>A device with factory data that boots.\<close>

definition ex_boot_core :: core where
  "ex_boot_core = ex_core\<lparr>priv := None, work := (WORK_QUEUE_STATE_DEINIT, None), next_ref := 0,
     nvs_in := [NvsStr ''n1'', NvsStr ''key'', NvsStr ''cert'', NvsStr ''host'']\<rparr>"

lemmas ex_core_defs = ex_boot_core_def ex_core_def ex_rm_def rm_init_def rm.defs

lemma ex_init_ok: "fst (esp_rmaker_init (Some False) True ex_boot_core) = ESP_OK"
  by (simp add: esp_rmaker_init_def init_services_def esp_rmaker_factory_init_def
      esp_rmaker_populate_node_id_def esp_rmaker_factory_get_def esp_rmaker_mqtt_conn_params_init_def
      esp_rmaker_get_mqtt_conn_params_def esp_rmaker_get_client_key_def esp_rmaker_get_client_cert_def
      esp_rmaker_get_mqtt_host_def esp_rmaker_user_mapping_prov_init_def esp_rmaker_mqtt_init_def
      wq_call_def wq_asks_def priv_has_def upd_priv_def new_priv_def nvs_read_def
      esp_rmaker_user_node_mapping_init_def ex_core_defs call_def emit_def)

theorem agent_init_all_or_nothing_witness:
  "initialised False (snd (esp_rmaker_init (Some False) True ex_boot_core))"
  using agent_init_all_or_nothing [of ex_boot_core False True] ex_init_ok
  by (simp add: untouched_def ex_core_defs)

theorem agent_task_settles_witness:
  "settled (esp_rmaker_task (emit (App ''app_wifi_init_end'' [])) ex_core)"
  by (rule agent_task_settles) (simp_all add: ex_core_defs frame_simps)

theorem node_deinit_final_witness:
  "\<exists>t. esp_rmaker_node_deinit (Some 0) (upd_priv (\<lambda>p. p\<lparr>pr_state := ESP_RMAKER_STATE_INIT_DONE\<rparr>)
        (ex_core\<lparr>node_created := True\<rparr>)) = (ESP_OK, t)
     \<and> fst (esp_rmaker_node_init ([], []) (Some False) (Some ''a'') (Some ''b'') t) = None"
proof -
  define s where "s = upd_priv (\<lambda>p. p\<lparr>pr_state := ESP_RMAKER_STATE_INIT_DONE\<rparr>)
    (ex_core\<lparr>node_created := True\<rparr>)"
  have "fst (esp_rmaker_node_deinit (Some 0) s) = ESP_OK"
    by (simp add: s_def esp_rmaker_node_deinit_def esp_rmaker_get_state_def ex_core_defs split_def Let_def)
  then obtain t where t: "esp_rmaker_node_deinit (Some 0) s = (ESP_OK, t)" by (metis prod.collapse)
  moreover have "node_created s" by (simp add: s_def)
  ultimately show ?thesis using node_deinit_final by (fold s_def) blast
qed

theorem mapping_restart_dangles_witness:
  "\<exists>s1 s2 ws r. esp_rmaker_start_user_node_mapping ''ann'' ''k1'' ex_core = (ESP_OK, s1)
     \<and> esp_rmaker_start_user_node_mapping ''ann'' ''k2'' s1 = (ESP_OK, s2)
     \<and> snd (work s2) = Some (ws @ [(''esp_rmaker_user_mapping_cb'', [int r]),
         (''esp_rmaker_user_mapping_cb'', [int (r + 1)])])
     \<and> App ''use_after_free'' [int r] \<in> set (trace (esp_rmaker_user_mapping_cb r s2))"
proof -
  define s1 where "s1 = snd (esp_rmaker_start_user_node_mapping ''ann'' ''k1'' ex_core)"
  define s2 where "s2 = snd (esp_rmaker_start_user_node_mapping ''ann'' ''k2'' s1)"
  have "fst (esp_rmaker_start_user_node_mapping ''ann'' ''k1'' ex_core) = ESP_OK"
    "fst (esp_rmaker_start_user_node_mapping ''ann'' ''k2'' s1) = ESP_OK"
    by (simp_all add: s1_def esp_rmaker_start_user_node_mapping_def wq_call_def wq_asks_def
        esp_rmaker_user_mapping_cleanup_data_def esp_rmaker_user_mapping_prov_deinit_def emits_def
        strdup_def ex_core_defs)
  then have s: "esp_rmaker_start_user_node_mapping ''ann'' ''k1'' ex_core = (ESP_OK, s1)"
    "esp_rmaker_start_user_node_mapping ''ann'' ''k2'' s1 = (ESP_OK, s2)"
    by (simp_all add: s1_def s2_def prod_eq_iff)
  show ?thesis using mapping_restart_dangles [OF s] s by blast
qed

end
