(* ===== verification/C_Time.thy ===== *)
theory C_Time
  imports Prelude
begin

text \<open>
  The calendar of the C library, as far as the schedules use it: \<open>struct tm\<close>, \<open>localtime_r\<close>,
  \<open>mktime\<close>, \<open>ffs\<close> and \<open>fls\<close>. The time zone in effect decides what the two conversions do, so they
  come as a pair that is an argument of the model; \<open>zone\<close> is the pair for a zone without
  daylight saving, such as the default one of the project, at times after 1970.
\<close>

record tm =
  tm_sec :: int
  tm_min :: int
  tm_hour :: int
  tm_mday :: int
  tm_mon :: int \<comment> \<open>0 to 11\<close>
  tm_year :: int \<comment> \<open>since 1900\<close>
  tm_wday :: int \<comment> \<open>Sunday is 0\<close>
  tm_isdst :: int

text \<open>\<open>mktime\<close> also normalises its argument.\<close>

record libc =
  localtime_r :: "int \<Rightarrow> tm"
  mktime :: "tm \<Rightarrow> tm \<times> int"

subsection \<open>Bit searches\<close>

definition ffs :: "'a::len word \<Rightarrow> nat" where
  \<comment> \<open>the position of the lowest bit that is set, counted from 1; 0 if there is none\<close>
  "ffs w = (case List.find (bit w) [0..<LENGTH('a)] of None \<Rightarrow> 0 | Some i \<Rightarrow> i + 1)"

definition fls :: "'a::len word \<Rightarrow> nat" where
  \<comment> \<open>the position of the highest bit that is set\<close>
  "fls w = (case List.find (bit w) (rev [0..<LENGTH('a)]) of None \<Rightarrow> 0 | Some i \<Rightarrow> i + 1)"

lemma ffs_Suc: "ffs (w :: 'a::len word) = Suc i \<longleftrightarrow> bit w i \<and> (\<forall>j < i. \<not> bit w j)"
proof
  assume "ffs w = Suc i"
  then have "List.find (bit w) [0..<LENGTH('a)] = Some i"
    by (auto simp: ffs_def split: option.splits)
  then show "bit w i \<and> (\<forall>j < i. \<not> bit w j)"
    by (auto simp: find_Some_iff)
next
  assume b: "bit w i \<and> (\<forall>j < i. \<not> bit w j)"
  then have "i < LENGTH('a)" using bit_imp_le_length by blast
  then have "List.find (bit w) [0..<LENGTH('a)] = Some i"
    using b by (auto simp: find_Some_iff intro!: exI [of _ i])
  then show "ffs w = Suc i" by (simp add: ffs_def)
qed

lemma ffs_ex: "bit (w :: 'a::len word) j \<Longrightarrow> \<exists>i \<le> j. ffs w = Suc i"
proof -
  assume b: "bit w j"
  define i where "i = (LEAST i. bit w i)"
  have "bit w i" "i \<le> j" "\<And>k. k < i \<Longrightarrow> \<not> bit w k"
    using b by (auto simp: i_def intro: LeastI Least_le dest: not_less_Least)
  then show ?thesis using ffs_Suc [of w i] by blast
qed

lemma ffs_zero: "ffs (0 :: 'a::len word) = 0"
  by (auto simp: ffs_def find_None_iff split: option.split dest!: find_Some_in)

subsection \<open>The calendar\<close>

definition leap :: "int \<Rightarrow> bool" where
  "leap y \<longleftrightarrow> y mod 4 = 0 \<and> (y mod 100 \<noteq> 0 \<or> y mod 400 = 0)"

definition year_days :: "int \<Rightarrow> int" where
  "year_days y = (if leap y then 366 else 365)"

definition month_days :: "int \<Rightarrow> int list" where
  "month_days y = [31, if leap y then 29 else 28, 31, 30, 31, 30, 31, 31, 30, 31, 30, 31]"

definition days_before_year :: "int \<Rightarrow> int" where
  \<comment> \<open>days from 1970-01-01 to the first day of a year\<close>
  "days_before_year y = 365 * (y - 1970) + ((y - 1) div 4 - (y - 1) div 100 + (y - 1) div 400 - 477)"

definition day_number :: "int \<Rightarrow> int \<Rightarrow> int \<Rightarrow> int" where
  \<comment> \<open>days since 1970-01-01, for a month counted from 0 and a day that may be out of range\<close>
  "day_number y m d =
     (let y = y + m div 12; m = m mod 12
      in days_before_year y + sum_list (take (nat m) (month_days y)) + (d - 1))"

function find_year :: "int \<Rightarrow> int \<Rightarrow> int \<times> int" where
  "find_year y n = (if year_days y \<le> n then find_year (y + 1) (n - year_days y) else (y, n))"
  by pat_completeness auto
termination
  by (relation "measure (\<lambda>(y, n). nat n)") (auto simp: year_days_def split: if_splits)

declare find_year.simps [simp del]

fun find_month :: "int list \<Rightarrow> int \<Rightarrow> int \<times> int" where
  \<comment> \<open>the month and the day of the month, both from 0\<close>
  "find_month [] d = (0, d)"
| "find_month (l # ls) d =
     (if d < l then (0, d) else let (m, r) = find_month ls (d - l) in (m + 1, r))"

definition tm_of :: "int \<Rightarrow> tm" where
  \<comment> \<open>of the seconds since 1970-01-01 00:00:00 local time\<close>
  "tm_of t =
     (let days = t div 86400; secs = t mod 86400;
          (y, yday) = find_year 1970 days; (m, d) = find_month (month_days y) yday
      in \<lparr>tm_sec = secs mod 60, tm_min = secs div 60 mod 60, tm_hour = secs div 3600,
          tm_mday = d + 1, tm_mon = m, tm_year = y - 1900, tm_wday = (days + 4) mod 7, tm_isdst = 0\<rparr>)"

definition seconds_of :: "tm \<Rightarrow> int" where
  "seconds_of t = day_number (tm_year t + 1900) (tm_mon t) (tm_mday t) * 86400
     + tm_hour t * 3600 + tm_min t * 60 + tm_sec t"

definition zone :: "int \<Rightarrow> libc" where
  \<comment> \<open>the offset is local time less UTC\<close>
  "zone off = \<lparr>localtime_r = (\<lambda>t. tm_of (t + off)),
     mktime = (\<lambda>t. (tm_of (seconds_of t), seconds_of t - off))\<rparr>"

subsection \<open>The conversions are inverse\<close>

lemma div_step:
  fixes y k :: int
  assumes "0 < k"
  shows "y div k = (y - 1) div k + (if y mod k = 0 then 1 else 0)"
proof -
  have y: "y = k * (y div k) + y mod k" "0 \<le> y mod k" "y mod k < k" using assms by simp_all
  show ?thesis
  proof (cases "y mod k = 0")
    case True
    have "(y - 1) div k = y div k - 1"
      using y True assms by (intro int_div_pos_eq [where r = "k - 1"]) (simp_all add: algebra_simps)
    then show ?thesis using True by simp
  next
    case False
    have "(y - 1) div k = y div k"
      using y False by (intro int_div_pos_eq [where r = "y mod k - 1"]) simp_all
    then show ?thesis using False by simp
  qed
qed

lemma leap_cases:
  "(c \<longrightarrow> b) \<Longrightarrow> (b \<longrightarrow> a) \<Longrightarrow>
     (d :: int) + 365 + (if a then 1 else 0) - (if b then 1 else 0) + (if c then 1 else 0)
       = d + (if a \<and> (\<not> b \<or> c) then 366 else 365)"
  by (cases a; cases b; cases c) simp_all

lemma days_before_next: "days_before_year (y + 1) = days_before_year y + year_days y"
proof -
  have imp: "y mod 400 = 0 \<longrightarrow> y mod 100 = 0" "y mod 100 = 0 \<longrightarrow> y mod 4 = 0"
    using dvd_trans [of 100 400 y] dvd_trans [of 4 100 y] by (simp_all add: mod_eq_0_iff_dvd)
  have "days_before_year (y + 1) = 365 * (y + 1 - 1970) + (y div 4 - y div 100 + y div 400 - 477)"
    unfolding days_before_year_def by simp
  also have "\<dots> = days_before_year y + 365 + (if y mod 4 = 0 then 1 else 0)
      - (if y mod 100 = 0 then 1 else 0) + (if y mod 400 = 0 then 1 else 0)"
    unfolding days_before_year_def div_step [of 4 y, simplified] div_step [of 100 y, simplified]
      div_step [of 400 y, simplified] by (simp add: algebra_simps split del: if_split)
  also have "\<dots> = days_before_year y + year_days y"
    unfolding year_days_def leap_def by (rule leap_cases [OF imp])
  finally show ?thesis .
qed

lemma find_year_days:
  "0 \<le> n \<Longrightarrow> find_year y n = (z, r) \<Longrightarrow>
     days_before_year z + r = days_before_year y + n \<and> 0 \<le> r \<and> r < year_days z \<and> y \<le> z"
proof (induction y n rule: find_year.induct)
  case (1 y n)
  show ?case
  proof (cases "year_days y \<le> n")
    case True
    then have "days_before_year z + r = days_before_year (y + 1) + (n - year_days y) \<and> 0 \<le> r
        \<and> r < year_days z \<and> y + 1 \<le> z"
      using 1 by (simp add: find_year.simps [of y n])
    then show ?thesis by (simp add: days_before_next)
  next
    case False
    then show ?thesis using 1(2,3) by (auto simp: find_year.simps [of y n])
  qed
qed

lemma find_month_days:
  "0 \<le> d \<Longrightarrow> d < sum_list ls \<Longrightarrow> find_month ls d = (m, r) \<Longrightarrow>
     sum_list (take (nat m) ls) + r = d \<and> 0 \<le> m \<and> m < int (length ls) \<and> 0 \<le> r"
proof (induction ls arbitrary: d m)
  case (Cons l ls)
  show ?case
  proof (cases "d < l")
    case True
    then show ?thesis using Cons.prems by auto
  next
    case False
    then obtain m' where m': "find_month ls (d - l) = (m', r)" "m = m' + 1"
      using Cons.prems(3) by (auto split: prod.splits)
    then have "sum_list (take (nat m') ls) + r = d - l \<and> 0 \<le> m' \<and> m' < int (length ls) \<and> 0 \<le> r"
      using Cons.IH [of "d - l" m'] Cons.prems False by simp
    then show ?thesis using m'(2) by (auto simp: nat_add_distrib)
  qed
qed simp

lemma sum_month_days: "sum_list (month_days y) = year_days y" "length (month_days y) = 12"
  by (simp_all add: month_days_def year_days_def)

lemma date_of_days:
  assumes "0 \<le> n" "find_year 1970 n = (y, yday)" "find_month (month_days y) yday = (m, d)"
  shows "day_number y m (d + 1) = n"
proof -
  have y: "days_before_year y + yday = n" "0 \<le> yday" "yday < year_days y"
    using find_year_days [OF assms(1,2)] by (simp_all add: days_before_year_def)
  have "sum_list (take (nat m) (month_days y)) + d = yday \<and> 0 \<le> m \<and> m < 12"
    using find_month_days [OF _ _ assms(3)] y sum_month_days [of y] by simp
  then show ?thesis using y(1) by (simp add: day_number_def)
qed

lemma clock_parts: "s div 3600 * 3600 + s div 60 mod 60 * 60 + s mod 60 = (s :: int)"
proof -
  have "s div 3600 = s div 60 div 60" using zdiv_zmult2_eq [of 60 s 60] by simp
  then show ?thesis using div_mult_mod_eq [of s 60] div_mult_mod_eq [of "s div 60" 60] by linarith
qed

lemma tm_of_fields:
  assumes "0 \<le> t"
  shows "day_number (tm_year (tm_of t) + 1900) (tm_mon (tm_of t)) (tm_mday (tm_of t)) = t div 86400"
    "tm_hour (tm_of t) * 3600 + tm_min (tm_of t) * 60 + tm_sec (tm_of t) = t mod 86400"
    "tm_wday (tm_of t) = (t div 86400 + 4) mod 7" "tm_isdst (tm_of t) = 0"
proof -
  obtain y yday where y: "find_year 1970 (t div 86400) = (y, yday)" by fastforce
  obtain m d where m: "find_month (month_days y) yday = (m, d)" by fastforce
  have "0 \<le> t div 86400" using assms by (simp add: pos_imp_zdiv_nonneg_iff)
  then show "day_number (tm_year (tm_of t) + 1900) (tm_mon (tm_of t)) (tm_mday (tm_of t)) = t div 86400"
    using date_of_days [OF _ y m] by (simp add: tm_of_def Let_def y m)
  show "tm_hour (tm_of t) * 3600 + tm_min (tm_of t) * 60 + tm_sec (tm_of t) = t mod 86400"
    by (simp only: tm_of_def Let_def y m prod.case tm.select_convs clock_parts)
  show "tm_wday (tm_of t) = (t div 86400 + 4) mod 7" "tm_isdst (tm_of t) = 0"
    by (simp_all add: tm_of_def Let_def y m)
qed

lemma tm_of_clock:
  "tm_hour (tm_of t) = t mod 86400 div 3600" "tm_min (tm_of t) = t mod 86400 div 60 mod 60"
  "tm_sec (tm_of t) = t mod 86400 mod 60"
  by (simp_all add: tm_of_def Let_def split_def)

lemma seconds_of_tm_of: "0 \<le> t \<Longrightarrow> seconds_of (tm_of t) = t"
  unfolding seconds_of_def
  using tm_of_fields(1,2) [of t] div_mult_mod_eq [of t 86400] by linarith

lemma seconds_of_clock:
  assumes "0 \<le> t"
  shows "seconds_of ((tm_of t)\<lparr>tm_sec := s, tm_min := m, tm_hour := h\<rparr>) =
    t div 86400 * 86400 + h * 3600 + m * 60 + s"
  using tm_of_fields(1) [OF assms] by (simp add: seconds_of_def)

lemma seconds_of_add:
  assumes "0 \<le> t"
  shows "seconds_of ((tm_of t)\<lparr>tm_sec := tm_sec (tm_of t) + k\<rparr>) = t + k"
  using seconds_of_tm_of [OF assms] by (simp add: seconds_of_def)

lemma days_before_year_nonneg: "1970 \<le> y \<Longrightarrow> 0 \<le> days_before_year y"
proof (induction y rule: int_ge_induct)
  case base
  show ?case by (simp add: days_before_year_def)
next
  case (step y)
  then show ?case by (simp add: days_before_next year_days_def)
qed

lemma month_days_nonneg: "0 \<le> sum_list (take n (month_days y))"
proof -
  have "\<forall>x \<in> set (take n (month_days y)). 0 \<le> x"
    using set_take_subset [of n "month_days y"] by (auto simp: month_days_def split: if_splits)
  then show ?thesis by (simp add: sum_list_nonneg)
qed

lemma seconds_of_nonneg:
  assumes "70 \<le> tm_year t" "0 \<le> tm_mon t" "1 \<le> tm_mday t" "0 \<le> tm_hour t" "0 \<le> tm_min t" "0 \<le> tm_sec t"
  shows "0 \<le> seconds_of t"
proof -
  have "0 \<le> tm_mon t div 12" using assms(2) by (simp add: pos_imp_zdiv_nonneg_iff)
  then have "0 \<le> days_before_year (tm_year t + 1900 + tm_mon t div 12)"
    using assms(1) by (intro days_before_year_nonneg) linarith
  then have "0 \<le> day_number (tm_year t + 1900) (tm_mon t) (tm_mday t)"
    using month_days_nonneg assms(3) by (simp add: day_number_def Let_def)
  then show ?thesis using assms(4-6) by (simp add: seconds_of_def)
qed

lemma tm_of_date:
  assumes "0 \<le> t"
  shows "70 \<le> tm_year (tm_of t)" "0 \<le> tm_mon (tm_of t)" "tm_mon (tm_of t) < 12" "1 \<le> tm_mday (tm_of t)"
proof -
  obtain y yday where y: "find_year 1970 (t div 86400) = (y, yday)" by fastforce
  obtain m d where m: "find_month (month_days y) yday = (m, d)" by fastforce
  have t: "0 \<le> t div 86400" using assms by (simp add: pos_imp_zdiv_nonneg_iff)
  have yd: "0 \<le> yday \<and> yday < year_days y \<and> 1970 \<le> y" using find_year_days [OF t y] by simp
  then have md: "0 \<le> m \<and> m < 12 \<and> 0 \<le> d"
    using find_month_days [OF _ _ m] sum_month_days [of y] by simp
  show "70 \<le> tm_year (tm_of t)" "0 \<le> tm_mon (tm_of t)" "tm_mon (tm_of t) < 12" "1 \<le> tm_mday (tm_of t)"
    using yd md by (simp_all add: tm_of_def Let_def y m)
qed

end
