(* ===== verification/Esp_Schedule.thy ===== *)
theory Esp_Schedule
  imports Rm_Core_State C_Time
begin

text \<open>
  The schedule engine: \<open>esp_schedule/src/esp_schedule.c\<close>. Its storage in NVS is never enabled
  by the program (\<open>esp_schedule_init(false, ...)\<close> is the only call), so \<open>esp_schedule_nvs_add\<close>
  and \<open>esp_schedule_nvs_remove\<close> return at once and are left out here; \<open>Esp_Schedule_Nvs\<close> has
  the operations with the storage and shows that they are these when it is off.

  The C library's time zone, \<open>lc\<close>, and what the callbacks do, \<open>cbs\<close>, are arguments of the
  model; the clock is the platform's, \<open>time()\<close> reads its next answer. A tick of FreeRTOS is a
  millisecond (\<open>CONFIG_FREERTOS_HZ=1000\<close>). A timer operation on a handle that is \<open>NULL\<close> fails
  an assertion of FreeRTOS.
\<close>

record 'a es_callbacks =
  trigger_fn :: "string \<Rightarrow> nat \<Rightarrow> int \<Rightarrow> 'a core_scheme \<Rightarrow> 'a core_scheme"
  timestamp_fn :: "string \<Rightarrow> nat \<Rightarrow> u32 \<Rightarrow> int \<Rightarrow> 'a core_scheme \<Rightarrow> 'a core_scheme"

definition SECONDS_TILL_2020 :: int where
  "SECONDS_TILL_2020 = (2020 - 1970) * 365 * 24 * 3600"

definition SECONDS_IN_DAY :: int where
  "SECONDS_IN_DAY = 60 * 60 * 24"

definition upd_es :: "nat \<Rightarrow> (esp_sched \<Rightarrow> esp_sched) \<Rightarrow> 'a core_scheme \<Rightarrow> 'a core_scheme" where
  "upd_es h f s = s\<lparr>es_heap := (es_heap s)(h := f (es_heap s h))\<rparr>"

definition upd_trigger :: "nat \<Rightarrow> (esp_trigger \<Rightarrow> esp_trigger) \<Rightarrow> 'a core_scheme \<Rightarrow> 'a core_scheme" where
  "upd_trigger h f = upd_es h (es_trigger_update f)"

subsection \<open>The next occurrence\<close>

definition current_seconds_of :: "tm \<Rightarrow> int" where
  "current_seconds_of t = (tm_hour t * 60 + tm_min t) * 60 + tm_sec t"

definition schedule_seconds_of :: "tm \<Rightarrow> int" where
  "schedule_seconds_of t = (tm_hour t * 60 + tm_min t) * 60"

definition esp_schedule_get_no_of_days :: "esp_trigger \<Rightarrow> tm \<Rightarrow> tm \<Rightarrow> int" where
  \<comment> \<open>Monday is day 0; \<open>rd\<close> is \<open>repeat_days\<close> promoted to \<open>int\<close>\<close>
  "esp_schedule_get_no_of_days tr current_time schedule_time =
     (let today = nat ((tm_wday current_time + 7 - 1) mod 7);
          today_bit = push_bit today 1 :: u32;
          rd = ucast (et_repeat_days tr) :: u32;
          current_seconds = current_seconds_of current_time;
          schedule_seconds = schedule_seconds_of schedule_time
      in if et_repeat_days tr = 0 then (if current_seconds < schedule_seconds then 0 else 1)
         else if and rd today_bit \<noteq> 0 \<and> current_seconds < schedule_seconds then 0
         else if today_bit < and rd (xor today_bit 0xFF) then
           int (ffs (and rd (push_bit (today + 1) 0xFF))) - 1 - int today
         else
           let next_day = int (ffs rd) - 1
           in if next_day = int today then 7 else 7 - int today + next_day)"

definition esp_schedule_get_next_month :: "esp_trigger \<Rightarrow> tm \<Rightarrow> tm \<Rightarrow> u8" where
  "esp_schedule_get_next_month tr current_time schedule_time =
     (let current_seconds = current_seconds_of current_time;
          schedule_seconds = schedule_seconds_of schedule_time;
          current_month = word_of_int (tm_mon current_time + 1) :: u8;
          current_month_bit = push_bit (unat current_month - 1) 1 :: u16;
          rm = ucast (et_repeat_months tr) :: u32;
          day = uint (et_day tr);
          year = uint (et_year tr)
      in if et_repeat_months tr = 0 then
           (if day = tm_mday current_time then
              (if current_seconds < schedule_seconds then current_month else current_month + 1)
            else if tm_mday current_time < day then current_month
            else current_month + 1)
         else if tm_year current_time + 1900 < year then word_of_nat (ffs rm)
         else if and (ucast current_month_bit) rm \<noteq> 0
             \<and> (day = tm_mday current_time \<and> current_seconds < schedule_seconds
                 \<or> tm_mday current_time < day) then current_month
         else if ucast current_month_bit < and rm (xor (ucast current_month_bit) 0xFFFF) then
           word_of_nat (ffs (and rm (push_bit (unat current_month) 0xFFFF)))
         else if \<not> et_every_year tr \<and> year \<le> tm_year current_time + 1900 then 0
         else word_of_nat (ffs rm) + 12)"

definition esp_schedule_get_next_year :: "esp_trigger \<Rightarrow> tm \<Rightarrow> u16" where
  "esp_schedule_get_next_year tr current_time =
     (let current_year = word_of_int (tm_year current_time + 1900) :: u16
      in if current_year < et_year tr then et_year tr else current_year)"

text \<open>The day, for a weekly schedule, and the date, for a schedule by date.\<close>

definition adjust_date :: "esp_trigger \<Rightarrow> tm \<Rightarrow> tm \<Rightarrow> tm" where
  "adjust_date tr current_time t =
     (let mon = uint (esp_schedule_get_next_month tr current_time t) - 1;
          year = uint (esp_schedule_get_next_year tr current_time) - 1900;
          mon = (if mon < 0 then tm_mon current_time + 1 else mon)
      in t\<lparr>tm_mday := uint (et_day tr), tm_mon := (if 12 \<le> mon then mon mod 12 else mon),
           tm_year := (if 12 \<le> mon then year + mon div 12 else year)\<rparr>)"

definition adjust_day :: "esp_trigger \<Rightarrow> tm \<Rightarrow> tm \<Rightarrow> tm" where
  "adjust_day tr current_time t =
     (case et_type tr of
        ESP_SCHEDULE_TYPE_DAYS_OF_WEEK \<Rightarrow>
          t\<lparr>tm_sec := tm_sec t + esp_schedule_get_no_of_days tr current_time t * SECONDS_IN_DAY\<rparr>
      | ESP_SCHEDULE_TYPE_DATE \<Rightarrow> adjust_date tr current_time t
      | _ \<Rightarrow> t)"

definition dst_adjust :: "tm \<Rightarrow> tm \<Rightarrow> int" where
  "dst_adjust current_time schedule_time =
     (if tm_isdst current_time = 0 \<and> tm_isdst schedule_time \<noteq> 0 then - 3600
      else if tm_isdst current_time \<noteq> 0 \<and> tm_isdst schedule_time = 0 then 3600 else 0)"

text \<open>
  The difference is a \<open>double\<close> converted to \<open>int32_t\<close> and returned as \<open>uint32_t\<close>; the function
  also gives the new \<open>next_scheduled_time_utc\<close>. The time \<open>now\<close> is the clock's answer.
\<close>

definition next_time_diff :: "libc \<Rightarrow> esp_trigger \<Rightarrow> int \<Rightarrow> u32 \<times> int" where
  "next_time_diff lc tr now =
     (if et_type tr = ESP_SCHEDULE_TYPE_RELATIVE then
        let (target, time_diff) =
              (if 0 < et_next_utc tr then (et_next_utc tr, et_next_utc tr - now)
               else (now + et_relative_seconds tr, et_relative_seconds tr))
        in (word_of_int time_diff, snd (mktime lc (localtime_r lc target)))
      else
        let current_time = localtime_r lc now;
            t = (localtime_r lc now)\<lparr>tm_sec := 0, tm_min := uint (et_minutes tr),
                  tm_hour := uint (et_hours tr)\<rparr>;
            t = fst (mktime lc t);
            t = fst (mktime lc (adjust_day tr current_time t));
            t = fst (mktime lc (t\<lparr>tm_sec := tm_sec t + dst_adjust current_time t\<rparr>));
            target = snd (mktime lc t);
            time_diff = target - snd (mktime lc current_time)
        in (word_of_int time_diff, snd (mktime lc (fst (mktime lc t)))))"

definition esp_schedule_get_next_schedule_time_diff ::
  "libc \<Rightarrow> nat \<Rightarrow> 'a core_scheme \<Rightarrow> u32 \<times> 'a core_scheme" where
  "esp_schedule_get_next_schedule_time_diff lc h s =
     (let (now, s) = ask s;
          (time_diff, next) = next_time_diff lc (es_trigger (es_heap s h)) now
      in (time_diff, upd_trigger h (et_next_utc_update (\<lambda>_. next)) s))"

definition expired_at :: "libc \<Rightarrow> esp_trigger \<Rightarrow> int \<Rightarrow> bool" where
  "expired_at lc tr now =
     (let passed = (0 < et_next_utc tr \<and> et_next_utc tr \<le> now)
      in case et_type tr of
           ESP_SCHEDULE_TYPE_RELATIVE \<Rightarrow> passed
         | ESP_SCHEDULE_TYPE_DAYS_OF_WEEK \<Rightarrow> et_repeat_days tr = 0 \<and> passed
         | ESP_SCHEDULE_TYPE_DATE \<Rightarrow>
             if et_repeat_months tr = 0 then passed
             else if et_every_year tr then False
             else
               snd (mktime lc ((localtime_r lc now)\<lparr>tm_sec := 0, tm_min := uint (et_minutes tr),
                 tm_hour := uint (et_hours tr), tm_mday := uint (et_day tr),
                 tm_mon := int (fls (et_repeat_months tr)) - 1,
                 tm_year := uint (et_year tr) - 1900\<rparr>)) < now
         | _ \<Rightarrow> False)"

definition esp_schedule_is_expired :: "libc \<Rightarrow> nat \<Rightarrow> 'a core_scheme \<Rightarrow> bool \<times> 'a core_scheme" where
  "esp_schedule_is_expired lc h s =
     (let (now, s) = ask s in (expired_at lc (es_trigger (es_heap s h)) now, s))"

subsection \<open>The timer\<close>

definition x_timer :: "nat \<Rightarrow> os_call \<Rightarrow> 'a core_scheme \<Rightarrow> 'a core_scheme" where
  "x_timer h c s = (if es_timer (es_heap s h) then emit (Os c) s else emit (Os Abort) s)"

definition esp_schedule_stop_timer :: "nat \<Rightarrow> 'a core_scheme \<Rightarrow> 'a core_scheme" where
  "esp_schedule_stop_timer h s = x_timer h (XTimerStop h) s"

definition timer_period :: "u32 \<Rightarrow> int" where
  "timer_period diff = uint (diff * 1000 div 1)"

definition esp_schedule_start_timer ::
  "libc \<Rightarrow> 'a es_callbacks \<Rightarrow> nat \<Rightarrow> 'a core_scheme \<Rightarrow> 'a core_scheme" where
  "esp_schedule_start_timer lc cbs h s =
     (let (current_time, s) = ask s
      in if current_time < SECONDS_TILL_2020 then s
         else
           let (diff, s) = esp_schedule_get_next_schedule_time_diff lc h s;
               s = upd_es h (es_time_diff_update (\<lambda>_. diff)) s;
               e = es_heap s h;
               s = (case es_timestamp_cb e of None \<Rightarrow> s
                    | Some f \<Rightarrow> timestamp_fn cbs f h (word_of_int (et_next_utc (es_trigger e))) (es_priv e) s);
               s = x_timer h (XTimerStop h) s
           in x_timer h (XTimerChangePeriod h (timer_period (es_time_diff (es_heap s h)))) s)"

definition esp_schedule_common_timer_cb ::
  "libc \<Rightarrow> 'a es_callbacks \<Rightarrow> nat option \<Rightarrow> 'a core_scheme \<Rightarrow> 'a core_scheme" where
  "esp_schedule_common_timer_cb lc cbs timer_id s =
     (case timer_id of None \<Rightarrow> s
      | Some h \<Rightarrow>
          let e = es_heap s h;
              s = (case es_trigger_cb e of None \<Rightarrow> s | Some f \<Rightarrow> trigger_fn cbs f h (es_priv e) s);
              (expired, s) = esp_schedule_is_expired lc h s
          in if expired then s else esp_schedule_start_timer lc cbs h s)"

definition esp_schedule_delete_timer :: "nat \<Rightarrow> 'a core_scheme \<Rightarrow> 'a core_scheme" where
  "esp_schedule_delete_timer h s = x_timer h (XTimerDelete h) s"

definition esp_schedule_create_timer :: "nat \<Rightarrow> 'a core_scheme \<Rightarrow> 'a core_scheme" where
  "esp_schedule_create_timer h s =
     (let (ok, s) = alloc (emit (Os (XTimerCreate h 1)) s)
      in upd_es h (es_timer_update (\<lambda>_. ok)) s)"

subsection \<open>The operations\<close>

definition esp_schedule_get ::
  "nat option \<Rightarrow> esp_config option \<Rightarrow> 'a core_scheme \<Rightarrow> esp_err \<times> esp_config option" where
  "esp_schedule_get handle schedule_config s =
     (case (schedule_config, handle) of
        (Some c, Some h) \<Rightarrow>
          let e = es_heap s h; tr = es_trigger e;
              t = (ec_trigger c)\<lparr>et_type := et_type tr, et_hours := et_hours tr, et_minutes := et_minutes tr\<rparr>;
              t = (case et_type tr of
                     ESP_SCHEDULE_TYPE_DAYS_OF_WEEK \<Rightarrow> t\<lparr>et_repeat_days := et_repeat_days tr\<rparr>
                   | ESP_SCHEDULE_TYPE_DATE \<Rightarrow> t\<lparr>et_day := et_day tr,
                       et_repeat_months := et_repeat_months tr, et_year := et_year tr,
                       et_every_year := et_every_year tr\<rparr>
                   | _ \<Rightarrow> t)
          in (ESP_OK, Some \<lparr>ec_name = es_name e, ec_trigger = t, ec_trigger_cb = es_trigger_cb e,
                ec_timestamp_cb = es_timestamp_cb e, ec_priv = es_priv e\<rparr>)
      | _ \<Rightarrow> (ESP_ERR_INVALID_ARG, schedule_config))"

definition esp_schedule_enable ::
  "libc \<Rightarrow> 'a es_callbacks \<Rightarrow> nat option \<Rightarrow> 'a core_scheme \<Rightarrow> esp_err \<times> 'a core_scheme" where
  "esp_schedule_enable lc cbs handle s =
     (case handle of None \<Rightarrow> (ESP_ERR_INVALID_ARG, s)
      | Some h \<Rightarrow> (ESP_OK, esp_schedule_start_timer lc cbs h s))"

definition esp_schedule_disable :: "nat option \<Rightarrow> 'a core_scheme \<Rightarrow> esp_err \<times> 'a core_scheme" where
  "esp_schedule_disable handle s =
     (case handle of None \<Rightarrow> (ESP_ERR_INVALID_ARG, s)
      | Some h \<Rightarrow> (ESP_OK, upd_trigger h (et_next_utc_update (\<lambda>_. 0)) (esp_schedule_stop_timer h s)))"

definition set_trigger :: "esp_trigger \<Rightarrow> esp_trigger \<Rightarrow> esp_trigger" where
  \<comment> \<open>the fields of the configuration that \<open>esp_schedule_set\<close> copies into an old trigger\<close>
  "set_trigger c t =
     (let t = t\<lparr>et_type := et_type c\<rparr>
      in if et_type t = ESP_SCHEDULE_TYPE_RELATIVE then
           t\<lparr>et_relative_seconds := et_relative_seconds c, et_next_utc := et_next_utc c\<rparr>
         else
           let t = t\<lparr>et_hours := et_hours c, et_minutes := et_minutes c\<rparr>
           in case et_type t of
                ESP_SCHEDULE_TYPE_DAYS_OF_WEEK \<Rightarrow> t\<lparr>et_repeat_days := et_repeat_days c\<rparr>
              | ESP_SCHEDULE_TYPE_DATE \<Rightarrow> t\<lparr>et_day := et_day c, et_repeat_months := et_repeat_months c,
                  et_year := et_year c, et_every_year := et_every_year c\<rparr>
              | _ \<Rightarrow> t)"

definition esp_schedule_set :: "nat \<Rightarrow> esp_config \<Rightarrow> 'a core_scheme \<Rightarrow> esp_err \<times> 'a core_scheme" where
  "esp_schedule_set h c s =
     (ESP_OK, upd_es h (\<lambda>e. e\<lparr>es_trigger := set_trigger (ec_trigger c) (es_trigger e),
        es_trigger_cb := ec_trigger_cb c, es_timestamp_cb := ec_timestamp_cb c,
        es_priv := ec_priv c\<rparr>) s)"

definition MAX_SCHEDULE_NAME_LEN :: nat where
  "MAX_SCHEDULE_NAME_LEN = 16"

definition esp_schedule_edit ::
  "nat option \<Rightarrow> esp_config option \<Rightarrow> 'a core_scheme \<Rightarrow> esp_err \<times> 'a core_scheme" where
  "esp_schedule_edit handle schedule_config s =
     (case (handle, schedule_config) of
        (Some h, Some c) \<Rightarrow>
          if \<not> strncmp_eq (es_name (es_heap s h)) (ec_name c) (MAX_SCHEDULE_NAME_LEN + 1)
          then (ESP_FAIL, s)
          else
            let s = (if et_type (es_trigger (es_heap s h)) = ESP_SCHEDULE_TYPE_RELATIVE
                     then upd_trigger h (et_next_utc_update (\<lambda>_. 0)) s else s);
                (_, s) = esp_schedule_set h c s
            in (ESP_OK, s)
      | _ \<Rightarrow> (ESP_ERR_INVALID_ARG, s))"

definition esp_schedule_delete :: "nat option \<Rightarrow> 'a core_scheme \<Rightarrow> esp_err \<times> 'a core_scheme" where
  "esp_schedule_delete handle s =
     (case handle of None \<Rightarrow> (ESP_ERR_INVALID_ARG, s)
      | Some h \<Rightarrow>
          (ESP_OK, if es_timer (es_heap s h)
                   then esp_schedule_delete_timer h (esp_schedule_stop_timer h s) else s))"

definition esp_schedule_create :: "esp_config option \<Rightarrow> 'a core_scheme \<Rightarrow> nat option \<times> 'a core_scheme" where
  "esp_schedule_create schedule_config s =
     (case schedule_config of None \<Rightarrow> (None, s)
      | Some c \<Rightarrow>
          if length (ec_name c) \<le> 0 then (None, s)
          else
            let (ok, s) = alloc s
            in if \<not> ok then (None, s)
               else
                 let h = next_ref s;
                     s = s\<lparr>next_ref := h + 1, es_heap := (es_heap s)
                       (h := esp_sched0\<lparr>es_name := strlcpy (ec_name c) (MAX_SCHEDULE_NAME_LEN + 1)\<rparr>)\<rparr>;
                     (_, s) = esp_schedule_set h c s
                 in (Some h, esp_schedule_create_timer h s))"

text \<open>With \<open>enable_nvs\<close> off, the only case of the program.\<close>

definition esp_schedule_init :: "'a core_scheme \<Rightarrow> 'a core_scheme" where
  "esp_schedule_init s =
     (let (enabled, s) = call (Net SntpEnabled) s
      in if enabled = 0 then
           emits [App ''sntp_setoperatingmode'' [0], Net (SntpSetServer ''pool.ntp.org''), Net SntpInit] s
         else s)"

subsection \<open>The next day of a weekly schedule\<close>

lemma above_bit_iff:
  fixes w m :: "'a::len word"
  assumes "\<And>j. bit w j \<Longrightarrow> bit m j" "k < LENGTH('a)"
  shows "push_bit k 1 < and w (xor (push_bit k 1) m) \<longleftrightarrow> (\<exists>j > k. bit w j)"
proof -
  define v where "v = and w (xor (push_bit k 1) m)"
  have v: "bit v j \<longleftrightarrow> bit w j \<and> j \<noteq> k" for j
    using assms by (auto simp: v_def bit_simps)
  have one: "uint (push_bit k 1 :: 'a word) = 2 ^ k"
    using assms(2) by (simp add: push_bit_eq_mult uint_2p word_gt_0 exp_eq_zero_iff)
  show ?thesis
  proof (cases "\<exists>j > k. bit w j")
    case True
    then obtain j where j: "k < j" "bit v j" using v by auto
    then have "odd (uint v div 2 ^ j)"
      using bit_imp_le_length by (auto simp: bit_uint_iff bit_iff_odd [symmetric])
    then have "2 ^ j \<le> uint v"
      by (metis div_pos_pos_trivial even_zero linorder_not_less uint_ge_0)
    moreover have "(2 :: int) ^ k < 2 ^ j" using j(1) by simp
    ultimately have "push_bit k 1 < v" unfolding word_less_def one by linarith
    then show ?thesis using True by (simp add: v_def)
  next
    case False
    then have "take_bit k v = v"
      using v by (intro bit_eqI) (auto simp: bit_take_bit_iff, meson linorder_neqE_nat)
    then have "uint v < 2 ^ k"
      by (metis take_bit_int_less_exp unsigned_take_bit_eq)
    then have "\<not> push_bit k 1 < v" unfolding word_less_def one by linarith
    then show ?thesis using False by (simp add: v_def)
  qed
qed

text \<open>The first set bit above position \<open>k\<close>, for a word with its bits below 8.\<close>

lemma ffs_above:
  fixes w m :: "'a::len word"
  assumes "bit w j" "k < j" "\<And>i. bit w i \<Longrightarrow> k < i \<Longrightarrow> bit m (i - Suc k)"
  obtains i where "ffs (and w (push_bit (k + 1) m)) = Suc i" "k < i" "i \<le> j" "bit w i"
    "\<And>n. k < n \<Longrightarrow> n < i \<Longrightarrow> \<not> bit w n"
proof -
  define v where "v = and w (push_bit (k + 1) m)"
  have v: "bit v n \<longleftrightarrow> bit w n \<and> k < n" for n
    using assms(3) [of n] by (auto simp: v_def bit_and_iff bit_push_bit_iff Suc_le_eq dest: bit_imp_le_length
        simp del: push_bit_Suc)
  then obtain i where i: "i \<le> j" "ffs v = Suc i" using ffs_ex [of v j] assms(1,2) by blast
  have "bit v i \<and> (\<forall>n < i. \<not> bit v n)" using i(2) by (simp add: ffs_Suc)
  then show ?thesis using that i v unfolding v_def by blast
qed

definition weekday :: "int \<Rightarrow> nat" where
  \<comment> \<open>of a day counted from 1970-01-01, a Thursday; Monday is 0\<close>
  "weekday d = nat ((d + 3) mod 7)"

lemma u8_bits_7: "w < 128 \<Longrightarrow> bit (w :: u8) j \<Longrightarrow> j < 7"
proof (rule ccontr)
  assume w: "w < 128" "bit w j" "\<not> j < 7"
  then have "odd (uint w div 2 ^ j)" using bit_imp_le_length [OF w(2)] by (simp add: bit_uint_iff bit_iff_odd [symmetric])
  moreover have "uint w < 2 ^ 7" using w(1) by (simp add: word_less_def)
  then have "uint w < 2 ^ j" using power_increasing [of 7 j "2 :: int"] w(3) by linarith
  ultimately show False by (simp add: div_pos_pos_trivial)
qed

text \<open>
  \<open>esp_schedule_get_no_of_days\<close> returns the number of days to the first selected day on which
  the time of day is still to come.
\<close>

definition day_open :: "esp_trigger \<Rightarrow> nat \<Rightarrow> bool \<Rightarrow> nat \<Rightarrow> bool" where
  "day_open tr today later n \<longleftrightarrow> bit (et_repeat_days tr) ((today + n) mod 7) \<and> (n = 0 \<longrightarrow> later)"

lemma byte_bits: "j < 8 \<Longrightarrow> bit (0xFF :: u32) j"
proof -
  have "\<forall>j \<in> {..< 8}. bit (0xFF :: u32) j" by (simp add: lessThan_nat_numeral lessThan_Suc numeral_eq_Suc)
  then show "j < 8 \<Longrightarrow> ?thesis" by blast
qed

lemma bit_test: "k < LENGTH('a) \<Longrightarrow> and w (push_bit k 1) \<noteq> 0 \<longleftrightarrow> bit (w :: 'a::len word) k"
  by (simp add: push_bit_eq_mult and_exp_eq_0_iff_not_bit)

lemma no_of_days_least:
  assumes "et_repeat_days tr \<noteq> 0" "et_repeat_days tr < 128"
    "nat ((tm_wday now + 7 - 1) mod 7) = today"
    "later \<longleftrightarrow> current_seconds_of now < schedule_seconds_of t"
  obtains n where "esp_schedule_get_no_of_days tr now t = int n" "n \<le> 7" "day_open tr today later n"
    "\<And>m. m < n \<Longrightarrow> \<not> day_open tr today later m"
proof -
  let ?r = "et_repeat_days tr"
  define rd where "rd = (ucast ?r :: u32)"
  have today: "today < 7" using assms(3) by (metis nat_less_iff pos_mod_bound pos_mod_sign zero_less_numeral of_nat_numeral)
  have bits: "bit rd j \<longleftrightarrow> bit ?r j" for j
    using u8_bits_7 [OF assms(2), of j] by (auto simp: rd_def bit_ucast_iff)
  have small: "bit ?r j \<Longrightarrow> j < 7" for j using u8_bits_7 [OF assms(2)] by blast
  have "bit rd j \<Longrightarrow> bit (0xFF :: u32) j" for j
    using small [of j] bits by (intro byte_bits) simp
  then have above: "push_bit today 1 < and rd (xor (push_bit today 1) 0xFF) \<longleftrightarrow> (\<exists>j > today. bit ?r j)"
    using today bits by (subst above_bit_iff) auto
  have here: "and rd (push_bit today 1) \<noteq> 0 \<longleftrightarrow> bit ?r today"
    using bit_test [of today rd] bits today by simp
  define later_days where "later_days = and rd (push_bit (today + 1) 0xFF)"
  have code: "esp_schedule_get_no_of_days tr now t =
      (if bit ?r today \<and> later then 0
       else if \<exists>j > today. bit ?r j then int (ffs later_days) - 1 - int today
       else if int (ffs rd) - 1 = int today then 7 else 7 - int today + (int (ffs rd) - 1))"
    unfolding esp_schedule_get_no_of_days_def Let_def assms(3) rd_def [symmetric]
      assms(4) [symmetric] here above later_days_def using assms(1) by (simp only: if_False)
  show thesis
  proof (cases "bit ?r today \<and> later")
    case True
    then show thesis using that [of 0] today by (simp add: code day_open_def)
  next
    case notnow: False
    show thesis
    proof (cases "\<exists>j > today. bit ?r j")
      case True
      then obtain j where j: "bit rd j" "today < j" using bits by blast
      have "bit rd i \<Longrightarrow> today < i \<Longrightarrow> bit (0xFF :: u32) (i - Suc today)" for i
        using small [of i] bits by (intro byte_bits) simp
      from ffs_above [OF j this] obtain i where i: "ffs later_days = Suc i" "today < i" "bit rd i"
          "\<And>n. today < n \<Longrightarrow> n < i \<Longrightarrow> \<not> bit rd n"
        unfolding later_days_def by blast
      have i7: "i < 7" using i(3) bits small by blast
      have "esp_schedule_get_no_of_days tr now t = int (i - today)"
        using notnow True i(1,2) by (simp add: code)
      moreover have "day_open tr today later (i - today)"
        using i(2,3) i7 by (simp add: day_open_def bits)
      moreover have "\<not> day_open tr today later m" if "m < i - today" for m
        using i(4) [of "today + m"] that i7 notnow bits by (cases "m = 0") (auto simp: day_open_def)
      ultimately show thesis using that [of "i - today"] i7 by simp
    next
      case False
      obtain j where "bit ?r j" using assms(1) by (metis bit_eqI bit_0_eq bot_apply bot_bool_def)
      then obtain i where i: "ffs rd = Suc i" using ffs_ex [of rd j] bits by blast
      then have least: "bit ?r i" "\<And>n. n < i \<Longrightarrow> \<not> bit ?r n" by (auto simp: ffs_Suc bits)
      have le: "i \<le> today" using False least(1) not_le by blast
      have "esp_schedule_get_no_of_days tr now t = int (7 - today + i)"
        using notnow False i le today by (auto simp: code)
      moreover have "(today + (7 - today + i)) mod 7 = i" using le today by simp
      then have "day_open tr today later (7 - today + i)"
        using least(1) today by (simp add: day_open_def)
      moreover have "\<not> day_open tr today later m" if m: "m < 7 - today + i" for m
      proof (cases "today + m < 7")
        case True
        then show ?thesis using notnow False by (cases "m = 0") (auto simp: day_open_def)
      next
        case high: False
        then have "(today + m) mod 7 = today + m - 7" using le m today by (simp add: mod_if)
        moreover have "today + m - 7 < i" using m today high by linarith
        ultimately show ?thesis using least(2) by (simp add: day_open_def)
      qed
      ultimately show thesis using that [of "7 - today + i"] le today by simp
    qed
  qed
qed

subsection \<open>The next time of a weekly schedule\<close>

definition time_of_day :: "esp_trigger \<Rightarrow> int" where
  "time_of_day tr = uint (et_hours tr) * 3600 + uint (et_minutes tr) * 60"

text \<open>The instants at which a weekly schedule is due, by the local clock.\<close>

definition due_weekly :: "esp_trigger \<Rightarrow> int \<Rightarrow> int \<Rightarrow> bool" where
  "due_weekly tr off t \<longleftrightarrow>
     (t + off) mod 86400 = time_of_day tr
     \<and> bit (et_repeat_days tr) (weekday ((t + off) div 86400))"

definition weekly :: "esp_trigger \<Rightarrow> bool" where
  "weekly tr \<longleftrightarrow> et_type tr = ESP_SCHEDULE_TYPE_DAYS_OF_WEEK \<and> et_repeat_days tr \<noteq> 0
     \<and> et_repeat_days tr < 128 \<and> et_hours tr < 24 \<and> et_minutes tr < 60"

lemma weekday_less: "weekday d < 7"
  by (simp add: weekday_def nat_less_iff)

lemma weekday_add: "weekday (d + int n) = (weekday d + n) mod 7"
proof -
  have "int (weekday d) = (d + 3) mod 7" by (simp add: weekday_def)
  then have "int ((weekday d + n) mod 7) = ((d + 3) mod 7 + int n) mod 7"
    by (simp only: of_nat_mod of_nat_add of_nat_numeral)
  also have "\<dots> = (d + int n + 3) mod 7" by (simp only: mod_add_left_eq) (simp add: ac_simps)
  finally have "int ((weekday d + n) mod 7) = int (weekday (d + int n))" by (simp add: weekday_def)
  then show ?thesis by (simp only: of_nat_eq_iff)
qed

lemma tm_of_weekday:
  assumes "0 \<le> t"
  shows "nat ((tm_wday (tm_of t) + 7 - 1) mod 7) = weekday (t div 86400)"
proof -
  have "((t div 86400 + 4) mod 7 + 7 - 1) mod 7 = ((t div 86400 + 4) mod 7 + 6) mod 7"
    by (rule arg_cong [where f = "\<lambda>x. x mod 7"]) simp
  also have "\<dots> = (t div 86400 + 3 + 7) mod 7" by (simp only: mod_add_left_eq) (simp add: ac_simps)
  also have "\<dots> = (t div 86400 + 3) mod 7" by (rule mod_add_self2)
  finally show ?thesis unfolding tm_of_fields(3) [OF assms] weekday_def by (rule arg_cong)
qed

lemma day_split: "0 \<le> c \<Longrightarrow> c < 86400 \<Longrightarrow> (d * 86400 + c) div 86400 = (d :: int)"
  "0 \<le> c \<Longrightarrow> c < 86400 \<Longrightarrow> (d * 86400 + c) mod 86400 = (c :: int)"
  by (simp_all add: div_add1_eq [of "d * 86400"] mod_add_left_eq div_pos_pos_trivial)

lemma clock_seconds:
  "current_seconds_of (tm_of t) = t mod 86400"
  "t mod 60 = 0 \<Longrightarrow> schedule_seconds_of (tm_of t) = t mod 86400"
proof -
  have e: "(h * 60 + m) * 60 = h * 3600 + m * 60" for h m :: int by simp
  show "current_seconds_of (tm_of t) = t mod 86400"
    unfolding current_seconds_of_def tm_of_clock e by (rule clock_parts)
  have "t mod 86400 mod 60 = t mod 60" by (simp add: mod_mod_cancel)
  then show "t mod 60 = 0 \<Longrightarrow> schedule_seconds_of (tm_of t) = t mod 86400"
    using clock_parts [of "t mod 86400"] unfolding schedule_seconds_of_def tm_of_clock e by linarith
qed

lemma clock_range:
  assumes "et_hours tr < 24" "et_minutes tr < 60"
  shows "0 \<le> time_of_day tr" "time_of_day tr < 86400"
proof -
  have "uint (et_hours tr) \<le> 23" "uint (et_minutes tr) \<le> 59"
    using assms by (simp_all add: word_less_def)
  then show "0 \<le> time_of_day tr" "time_of_day tr < 86400"
    unfolding time_of_day_def using uint_ge_0 [of "et_hours tr"] uint_ge_0 [of "et_minutes tr"] by linarith+
qed

text \<open>The schedule's time on the day of the local time \<open>u\<close>, as the code computes it first.\<close>

lemma today_time:
  assumes "et_hours tr < 24" "et_minutes tr < 60" "0 \<le> u"
  defines "v \<equiv> u div 86400 * 86400 + time_of_day tr"
  shows "seconds_of ((tm_of u)\<lparr>tm_sec := 0, tm_min := uint (et_minutes tr), tm_hour := uint (et_hours tr)\<rparr>) = v"
    "0 \<le> v" "v div 86400 = u div 86400" "v mod 86400 = time_of_day tr" "v mod 60 = 0"
    "schedule_seconds_of (tm_of v) = time_of_day tr"
proof -
  note T = clock_range [OF assms(1,2)]
  have u: "0 \<le> u div 86400" using assms(3) by (simp add: pos_imp_zdiv_nonneg_iff)
  show "seconds_of ((tm_of u)\<lparr>tm_sec := 0, tm_min := uint (et_minutes tr), tm_hour := uint (et_hours tr)\<rparr>) = v"
    using seconds_of_clock [OF assms(3), where s = 0 and m = "uint (et_minutes tr)" and h = "uint (et_hours tr)"]
    by (simp add: v_def time_of_day_def add.assoc)
  show v: "0 \<le> v" "v div 86400 = u div 86400" "v mod 86400 = time_of_day tr"
    using day_split [OF T] T u by (simp_all add: v_def)
  have "v = 60 * (u div 86400 * 1440 + uint (et_hours tr) * 60 + uint (et_minutes tr))"
    by (simp add: v_def time_of_day_def)
  then show m: "v mod 60 = 0" by simp
  show "schedule_seconds_of (tm_of v) = time_of_day tr" using clock_seconds(2) [OF m] v(3) by simp
qed

lemma zone_normal: "0 \<le> u \<Longrightarrow> mktime (zone off) (tm_of u) = (tm_of u, u - off)"
  using seconds_of_tm_of [of u] by (simp add: zone_def)

lemma no_dst: "0 \<le> u \<Longrightarrow> 0 \<le> v \<Longrightarrow> dst_adjust (tm_of u) (tm_of v) = 0"
  using tm_of_fields(4) [of u] tm_of_fields(4) [of v] by (simp add: dst_adjust_def)

text \<open>In a zone without daylight saving the result is the adjusted day's time.\<close>

lemma next_time_diff_zone:
  assumes "et_type tr \<noteq> ESP_SCHEDULE_TYPE_RELATIVE" "et_hours tr < 24" "et_minutes tr < 60" "0 \<le> now + off"
    and "r = seconds_of (adjust_day tr (tm_of (now + off))
      (tm_of ((now + off) div 86400 * 86400 + time_of_day tr)))" "0 \<le> r"
  shows "next_time_diff (zone off) tr now = (word_of_int (r - off - now), r - off)"
proof -
  define u where "u = now + off"
  note today = today_time [OF assms(2,3), of u]
  have first: "mktime (zone off) ((localtime_r (zone off) now)\<lparr>tm_sec := 0,
      tm_min := uint (et_minutes tr), tm_hour := uint (et_hours tr)\<rparr>)
      = (tm_of (u div 86400 * 86400 + time_of_day tr), u div 86400 * 86400 + time_of_day tr - off)"
    using today(1) assms(4) by (simp add: zone_def u_def)
  have adj: "fst (mktime (zone off) (adjust_day tr (tm_of u)
      (tm_of (u div 86400 * 86400 + time_of_day tr)))) = tm_of r"
    using assms(5) by (simp add: zone_def u_def)
  have "next_time_diff (zone off) tr now = (word_of_int (r - off - (u - off)), r - off)"
    using assms(1,4,6) first adj no_dst [of u r] zone_normal [of u off] zone_normal [of r off]
    by (simp add: next_time_diff_def Let_def u_def [symmetric]) (simp add: zone_def u_def)
  then show ?thesis by (simp add: u_def)
qed

lemma weekly_next:
  assumes "weekly tr" "0 \<le> now + off"
  obtains n where "next_time_diff (zone off) tr now =
      (word_of_int (n - now), n)" "now < n" "n \<le> now + 604800" "due_weekly tr off n"
    "\<And>t. now < t \<Longrightarrow> t < n \<Longrightarrow> \<not> due_weekly tr off t"
proof -
  define L where "L = now + off"
  define D where "D = L div 86400"
  define T where "T = time_of_day tr"
  have w: "et_type tr = ESP_SCHEDULE_TYPE_DAYS_OF_WEEK" "et_hours tr < 24" "et_minutes tr < 60"
    using assms(1) by (simp_all add: weekly_def)
  have L: "0 \<le> L" "L = D * 86400 + L mod 86400" "0 \<le> L mod 86400" "L mod 86400 < 86400"
    using assms(2) by (simp_all add: L_def D_def)
  note T = clock_range [OF w(2,3), folded T_def]
  define S where "S = D * 86400 + T"
  note S = today_time [OF w(2,3) L(1), folded D_def T_def, folded S_def]
  obtain n where n: "esp_schedule_get_no_of_days tr (tm_of L) (tm_of S) = int n" "n \<le> 7"
      "day_open tr (weekday D) (L mod 86400 < T) n"
      "\<And>m. m < n \<Longrightarrow> \<not> day_open tr (weekday D) (L mod 86400 < T) m"
    using assms(1) tm_of_weekday [OF L(1)] clock_seconds(1) [of L] S(6)
    by (auto simp: weekly_def D_def [symmetric] elim!: no_of_days_least
        [where now = "tm_of L" and t = "tm_of S" and today = "weekday D" and later = "L mod 86400 < T"])
  define R where "R = S + int n * 86400"
  have "R = (D + int n) * 86400 + T" by (simp add: R_def S_def algebra_simps)
  then have R: "0 \<le> R" "R div 86400 = D + int n" "R mod 86400 = T"
    using S(2) T day_split [of T "D + int n"] by (simp_all add: R_def)
  have bounds: "L < R" "R \<le> L + 604800"
  proof -
    have "n = 7 \<Longrightarrow> T \<le> L mod 86400"
      using n(3) n(4) [of 0] weekday_less [of D] by (auto simp: day_open_def not_less)
    moreover have "n = 0 \<Longrightarrow> L mod 86400 < T" using n(3) by (simp add: day_open_def)
    moreover have "n = 0 \<or> 1 \<le> int n \<and> int n \<le> 6 \<or> n = 7" using n(2) by linarith
    ultimately show "L < R" "R \<le> L + 604800" using L T by (auto simp: R_def S_def)
  qed
  have "R = seconds_of (adjust_day tr (tm_of L) (tm_of S))"
    using seconds_of_add [OF S(2), of "int n * SECONDS_IN_DAY"] w(1) n(1)
    by (simp add: adjust_day_def R_def SECONDS_IN_DAY_def)
  then have diff: "next_time_diff (zone off) tr now = (word_of_int (R - off - now), R - off)"
    using w assms(2) R(1) by (intro next_time_diff_zone) (simp_all add: L_def D_def S_def T_def)
  show thesis
  proof (rule that [OF diff])
    show "now < R - off" "R - off \<le> now + 604800"
      using bounds by (simp_all add: L_def)
    show "due_weekly tr off (R - off)"
      using n(3) R(2,3) by (simp add: due_weekly_def T_def [symmetric] day_open_def weekday_add)
    show "\<not> due_weekly tr off t" if "now < t" "t < R - off" for t
    proof
      assume due: "due_weekly tr off t"
      define m where "m = (t + off) div 86400 - D"
      have t: "t + off = (D + m) * 86400 + T"
        using due div_mult_mod_eq [of "t + off" 86400] by (simp add: due_weekly_def T_def [symmetric] m_def)
      have m: "0 \<le> m" "m < int n" "m = 0 \<longrightarrow> L mod 86400 < T"
        using that t L T by (auto simp: R_def S_def L_def)
      then obtain k where k: "m = int k" by (metis nonneg_int_cases)
      have "(t + off) div 86400 = D + int k" by (simp add: m_def flip: k)
      then have "day_open tr (weekday D) (L mod 86400 < T) k"
        using due m(3) k by (auto simp: due_weekly_def day_open_def weekday_add)
      then show False using n(4) m(2) k by simp
    qed
  qed
qed

subsection \<open>The next month of a schedule by date\<close>

lemma u16_bits_12: "w < 4096 \<Longrightarrow> bit (w :: u16) j \<Longrightarrow> j < 12"
proof (rule ccontr)
  assume w: "w < 4096" "bit w j" "\<not> j < 12"
  then have "odd (uint w div 2 ^ j)" using bit_imp_le_length [OF w(2)] by (simp add: bit_uint_iff bit_iff_odd [symmetric])
  moreover have "uint w < 2 ^ 12" using w(1) by (simp add: word_less_def)
  then have "uint w < 2 ^ j" using power_increasing [of 12 j "2 :: int"] w(3) by linarith
  ultimately show False by (simp add: div_pos_pos_trivial)
qed

lemma half_bits: "j < 16 \<Longrightarrow> bit (0xFFFF :: u32) j"
proof -
  have "\<forall>j \<in> {..< 16}. bit (0xFFFF :: u32) j" by (simp add: lessThan_nat_numeral lessThan_Suc numeral_eq_Suc)
  then show "j < 16 \<Longrightarrow> ?thesis" by blast
qed

text \<open>The \<open>n\<close>-th month from the current one is open if it is selected and, if it is the current
  month itself, the day and the time are still to come.\<close>

definition month_open :: "esp_trigger \<Rightarrow> tm \<Rightarrow> tm \<Rightarrow> nat \<Rightarrow> bool" where
  "month_open tr cu t n \<longleftrightarrow>
     bit (et_repeat_months tr) ((nat (tm_mon cu) + n) mod 12)
     \<and> (n = 0 \<longrightarrow> tm_mday cu < uint (et_day tr)
          \<or> tm_mday cu = uint (et_day tr) \<and> current_seconds_of cu < schedule_seconds_of t)"

lemma small_byte: "n < 256 \<Longrightarrow> uint (word_of_nat n :: u8) = int n"
  by (simp add: unsigned_of_nat take_bit_nat_eq_self)

lemma next_month_least:
  assumes "et_repeat_months tr \<noteq> 0" "et_repeat_months tr < 4096" "0 \<le> tm_mon cu" "tm_mon cu < 12"
    "uint (et_year tr) \<le> tm_year cu + 1900"
    "et_every_year tr \<or> (\<exists>n. tm_mon cu + int n < 12 \<and> month_open tr cu t n)"
  obtains n where "uint (esp_schedule_get_next_month tr cu t) = tm_mon cu + 1 + int n"
    "n \<le> 12" "month_open tr cu t n" "\<And>m. m < n \<Longrightarrow> \<not> month_open tr cu t m"
proof -
  let ?r = "et_repeat_months tr"
  define rm where "rm = (ucast ?r :: u32)"
  define c where "c = nat (tm_mon cu)"
  define later where "later \<longleftrightarrow> uint (et_day tr) = tm_mday cu \<and> current_seconds_of cu < schedule_seconds_of t
    \<or> tm_mday cu < uint (et_day tr)"
  have c: "c < 12" "tm_mon cu = int c" using assms(3,4) by (simp_all add: c_def)
  have open_iff: "month_open tr cu t n \<longleftrightarrow> bit ?r ((c + n) mod 12) \<and> (n = 0 \<longrightarrow> later)" for n
    by (auto simp: month_open_def later_def c_def)
  have bits: "bit rm j \<longleftrightarrow> bit ?r j" for j
    using u16_bits_12 [OF assms(2), of j] by (auto simp: rm_def bit_ucast_iff)
  have small: "bit ?r j \<Longrightarrow> j < 12" for j using u16_bits_12 [OF assms(2)] by blast
  define month where "month = (word_of_int (tm_mon cu + 1) :: u8)"
  have "uint month = take_bit 8 (int c + 1)"
    by (simp only: month_def uint_word_of_int c(2) take_bit_eq_mod) simp
  also have "\<dots> = int c + 1" using c(1) by (intro take_bit_int_eq_self) simp_all
  finally have month: "uint month = int c + 1" "unat month = c + 1"
    by (simp, simp add: nat_add_distrib flip: nat_uint_eq)
  have mbit: "ucast (push_bit (c + 1 - 1) 1 :: u16) = (push_bit c 1 :: u32)"
    using c(1) by (intro bit_eqI) (auto simp: month bit_ucast_iff bit_exp_iff)
  have "bit rm j \<Longrightarrow> bit (0xFFFF :: u32) j" for j
    using small [of j] bits by (intro half_bits) simp
  then have above: "push_bit c 1 < and rm (xor (push_bit c 1) 0xFFFF) \<longleftrightarrow> (\<exists>j > c. bit ?r j)"
    using c(1) bits by (subst above_bit_iff) auto
  have here: "and (push_bit c 1) rm \<noteq> 0 \<longleftrightarrow> bit ?r c"
    using bit_test [of c rm] bits c(1) by (simp add: and.commute)
  define rest where "rest = and rm (push_bit (c + 1) 0xFFFF)"
  have code: "esp_schedule_get_next_month tr cu t =
      (if bit ?r c \<and> later then month
       else if \<exists>j > c. bit ?r j then word_of_nat (ffs rest)
       else if \<not> et_every_year tr \<and> uint (et_year tr) \<le> tm_year cu + 1900 then 0
       else word_of_nat (ffs rm) + 12)"
    unfolding esp_schedule_get_next_month_def Let_def month_def [symmetric] rm_def [symmetric]
      mbit here above month(2) rest_def later_def
    using assms(1,5) by (simp only: if_False not_less [symmetric] simp_thms)
  show thesis
  proof (cases "bit ?r c \<and> later")
    case True
    then show thesis using that [of 0] c by (simp add: code month open_iff)
  next
    case notnow: False
    show thesis
    proof (cases "\<exists>j > c. bit ?r j")
      case True
      then obtain j where j: "bit rm j" "c < j" using bits by blast
      have "bit rm i \<Longrightarrow> c < i \<Longrightarrow> bit (0xFFFF :: u32) (i - Suc c)" for i
        using small [of i] bits by (intro half_bits) simp
      from ffs_above [OF j this] obtain i where i: "ffs rest = Suc i" "c < i" "bit rm i"
          "\<And>n. c < n \<Longrightarrow> n < i \<Longrightarrow> \<not> bit rm n"
        unfolding rest_def by blast
      have i12: "i < 12" using i(3) bits small by blast
      have "uint (esp_schedule_get_next_month tr cu t) = tm_mon cu + 1 + int (i - c)"
        using notnow True i(1,2) i12 c small_byte [of "i + 1"] by (auto simp: code)
      moreover have "month_open tr cu t (i - c)" using i(2,3) i12 by (simp add: open_iff bits)
      moreover have "\<not> month_open tr cu t m" if "m < i - c" for m
        using i(4) [of "c + m"] that i12 notnow bits by (cases "m = 0") (auto simp: open_iff)
      ultimately show thesis using that [of "i - c"] i12 by simp
    next
      case False
      have none: "\<not> month_open tr cu t m" if "c + m < 12" for m
        using that notnow False by (cases "m = 0") (auto simp: open_iff)
      then have every: "et_every_year tr" using assms(6) c by auto
      obtain j where "bit ?r j" using assms(1) by (metis bit_eqI bit_0_eq bot_apply bot_bool_def)
      then obtain i where i: "ffs rm = Suc i" using ffs_ex [of rm j] bits by blast
      then have least: "bit ?r i" "\<And>n. n < i \<Longrightarrow> \<not> bit ?r n" by (auto simp: ffs_Suc bits)
      have le: "i \<le> c" using False least(1) not_le by blast
      have "uint (esp_schedule_get_next_month tr cu t) = tm_mon cu + 1 + int (12 - c + i)"
        using notnow False every i le c small_byte [of "i + 13"] by (auto simp: code ac_simps)
      moreover have "(c + (12 - c + i)) mod 12 = i" using le c(1) by simp
      then have "month_open tr cu t (12 - c + i)" using least(1) c(1) by (simp add: open_iff)
      moreover have "\<not> month_open tr cu t m" if m: "m < 12 - c + i" for m
      proof (cases "c + m < 12")
        case True
        then show ?thesis by (rule none)
      next
        case high: False
        then have "(c + m) mod 12 = c + m - 12" using le m c(1) by (simp add: mod_if)
        moreover have "c + m - 12 < i" using m c(1) high by linarith
        ultimately show ?thesis using least(2) by (simp add: open_iff)
      qed
      ultimately show thesis using that [of "12 - c + i"] le c by simp
    qed
  qed
qed

subsection \<open>The next time of a schedule by date\<close>

definition yearly :: "esp_trigger \<Rightarrow> bool" where
  "yearly tr \<longleftrightarrow> et_type tr = ESP_SCHEDULE_TYPE_DATE \<and> et_repeat_months tr \<noteq> 0
     \<and> et_repeat_months tr < 4096 \<and> et_every_year tr \<and> 1 \<le> et_day tr
     \<and> et_hours tr < 24 \<and> et_minutes tr < 60"

definition date_open :: "esp_trigger \<Rightarrow> int \<Rightarrow> nat \<Rightarrow> bool" where
  \<comment> \<open>the \<open>n\<close>-th month from the one of the local time \<open>u\<close>\<close>
  "date_open tr u n \<longleftrightarrow>
     bit (et_repeat_months tr) ((nat (tm_mon (tm_of u)) + n) mod 12)
     \<and> (n = 0 \<longrightarrow> tm_mday (tm_of u) < uint (et_day tr)
          \<or> tm_mday (tm_of u) = uint (et_day tr) \<and> u mod 86400 < time_of_day tr)"

definition date_time :: "esp_trigger \<Rightarrow> int \<Rightarrow> nat \<Rightarrow> int" where
  \<comment> \<open>the schedule's local time in that month\<close>
  "date_time tr u n = day_number (tm_year (tm_of u) + 1900) (tm_mon (tm_of u) + int n) (uint (et_day tr)) * 86400
     + time_of_day tr"

lemma month_shift: "day_number y m d = day_number (y + m div 12) (m mod 12) d"
  by (simp add: day_number_def Let_def)

lemma date_next:
  assumes "yearly tr" "0 \<le> now + off" "uint (et_year tr) \<le> tm_year (tm_of (now + off)) + 1900"
    "tm_year (tm_of (now + off)) + 1900 < 65536"
  obtains n where "next_time_diff (zone off) tr now =
      (word_of_int (date_time tr (now + off) n - off - now), date_time tr (now + off) n - off)"
    "n \<le> 12" "date_open tr (now + off) n" "\<And>m. m < n \<Longrightarrow> \<not> date_open tr (now + off) m"
proof -
  define u where "u = now + off"
  define S where "S = u div 86400 * 86400 + time_of_day tr"
  have y: "et_type tr = ESP_SCHEDULE_TYPE_DATE" "et_repeat_months tr \<noteq> 0" "et_repeat_months tr < 4096"
      "et_every_year tr" "1 \<le> et_day tr" "et_hours tr < 24" "et_minutes tr < 60"
    using assms(1) by (simp_all add: yearly_def)
  have u: "0 \<le> u" using assms(2) by (simp add: u_def)
  note S = today_time [OF y(6,7) u, folded S_def]
  note date = tm_of_date [OF u]
  have same: "month_open tr (tm_of u) (tm_of S) m = date_open tr u m" for m
    using S(6) clock_seconds(1) [of u] by (auto simp: month_open_def date_open_def)
  obtain n where n: "uint (esp_schedule_get_next_month tr (tm_of u) (tm_of S)) = tm_mon (tm_of u) + 1 + int n"
      "n \<le> 12" "date_open tr u n" "\<And>m. m < n \<Longrightarrow> \<not> date_open tr u m"
    using next_month_least [OF y(2,3) date(2,3)] y(4) assms(3) same by (metis u_def)
  have year: "uint (esp_schedule_get_next_year tr (tm_of u)) = tm_year (tm_of u) + 1900"
  proof -
    have "uint (word_of_int (tm_year (tm_of u) + 1900) :: u16) = tm_year (tm_of u) + 1900"
      using assms(4) date(1) by (subst uint_word_of_int) (simp only: u_def, intro mod_pos_pos_trivial, simp_all)
    then show ?thesis
      using assms(3) by (simp add: esp_schedule_get_next_year_def Let_def word_less_def u_def)
  qed
  define M where "M = tm_mon (tm_of u) + int n"
  have M: "0 \<le> M" using date(2) by (simp add: M_def)
  define t where "t = adjust_day tr (tm_of u) (tm_of S)"
  have t: "tm_mday t = uint (et_day tr)" "tm_mon t = M mod 12" "tm_year t = tm_year (tm_of u) + M div 12"
      "tm_hour t = tm_hour (tm_of S)" "tm_min t = tm_min (tm_of S)" "tm_sec t = tm_sec (tm_of S)"
    using M y(1) n(1) year
    by (auto simp: t_def adjust_day_def adjust_date_def Let_def M_def mod_pos_pos_trivial div_pos_pos_trivial)
  have "tm_hour (tm_of S) * 3600 + tm_min (tm_of S) * 60 + tm_sec (tm_of S) = time_of_day tr"
    using tm_of_fields(2) [OF S(2)] S(4) by simp
  then have r: "seconds_of t = date_time tr u n"
    unfolding seconds_of_def date_time_def t month_shift [of "tm_year (tm_of u) + 1900" "tm_mon (tm_of u) + int n"]
    by (simp add: M_def add.commute add.left_commute)
  have "0 \<le> tm_hour (tm_of S)" "0 \<le> tm_min (tm_of S)" "0 \<le> tm_sec (tm_of S)"
    by (simp_all add: tm_of_clock pos_imp_zdiv_nonneg_iff)
  moreover have "1 \<le> uint (et_day tr)" using y(5) by (simp add: word_le_def)
  ultimately have "0 \<le> seconds_of t"
    using M date(1) by (intro seconds_of_nonneg) (simp_all add: t pos_imp_zdiv_nonneg_iff)
  then have "next_time_diff (zone off) tr now =
      (word_of_int (date_time tr u n - off - now), date_time tr u n - off)"
    using y assms(2) r by (intro next_time_diff_zone) (simp_all add: u_def [symmetric] S_def [symmetric] t_def)
  then show thesis using that n by (simp add: u_def)
qed

subsection \<open>Starting the timer\<close>

text \<open>
  What the engine needs of the callback it is given: it leaves the engine's schedules and the
  platform alone.
\<close>

locale timestamp_client =
  fixes cbs :: "'a es_callbacks"
  assumes es_heap_timestamp: "es_heap (timestamp_fn cbs f h n p s) = es_heap s"
    and trace_timestamp: "trace (timestamp_fn cbs f h n p s) = trace s"
begin

lemma start_timer_early:
  "inputs s = a # xs \<Longrightarrow> a < SECONDS_TILL_2020 \<Longrightarrow>
     esp_schedule_start_timer lc cbs h s = s\<lparr>inputs := xs\<rparr>"
  by (simp add: esp_schedule_start_timer_def)

lemma start_timer:
  assumes "inputs s = a # b # xs" "SECONDS_TILL_2020 \<le> a" "es_timer (es_heap s h)"
    "next_time_diff lc (es_trigger (es_heap s h)) b = (d, n)"
  shows "trace (esp_schedule_start_timer lc cbs h s) =
      trace s @ [Os (XTimerStop h), Os (XTimerChangePeriod h (timer_period d))]"
    "es_heap (esp_schedule_start_timer lc cbs h s) =
      (es_heap s)(h := es_trigger_update (et_next_utc_update (\<lambda>_. n)) (es_heap s h)\<lparr>es_time_diff := d\<rparr>)"
  using assms
  by (simp_all add: esp_schedule_start_timer_def esp_schedule_get_next_schedule_time_diff_def Let_def
      upd_trigger_def upd_es_def x_timer_def es_heap_timestamp trace_timestamp split: option.split)

end

lemma timer_period_mod: "timer_period (word_of_int d) = 1000 * d mod 2 ^ 32"
proof -
  have "(word_of_int d * 1000 :: u32) = word_of_int (1000 * d)" by (simp add: mult.commute)
  then show ?thesis by (simp only: timer_period_def div_by_1 uint_word_of_int) simp
qed

end
