(* ===== verification/Rm_Schedule.thy ===== *)
theory Rm_Schedule
  imports Esp_Schedule Rm_Time Rm_Standard Rm_Node
begin

text \<open>
  The schedules of the RainMaker node: \<open>esp_rmaker_schedule.c\<close>, on top of the engine in
  \<open>Esp_Schedule\<close>. The schedules are the list of their references, in the order of the chain;
  freeing one leaves it unreferenced. \<open>schedule_priv_data\<close> is allocated by
  \<open>esp_rmaker_schedule_enable\<close>, before anything here can run.

  Arguments of the model: the time zone \<open>lc\<close>, \<open>parse\<close>, which is \<open>json_parse_start\<close> with the
  tokenizer's functions, \<open>strtof\<close>, and \<open>invoke\<close>, which runs a write callback by its name.
\<close>

definition MAX_ID_LEN :: nat where "MAX_ID_LEN = 8"
definition MAX_NAME_LEN :: nat where "MAX_NAME_LEN = 32"
definition MAX_INFO_LEN :: nat where "MAX_INFO_LEN = 128"
definition MAX_OPERATION_LEN :: nat where "MAX_OPERATION_LEN = 10"
definition TIME_SYNC_DELAY :: int where "TIME_SYNC_DELAY = 10"
definition MAX_SCHEDULES :: int where "MAX_SCHEDULES = 10"

datatype schedule_operation =
  OPERATION_INVALID | OPERATION_ADD | OPERATION_EDIT | OPERATION_REMOVE | OPERATION_ENABLE
  | OPERATION_DISABLE

definition sched_priv0 :: sched_priv where
  \<comment> \<open>what \<open>calloc\<close> returns\<close>
  "sched_priv0 = \<lparr>schedule_list = [], total_schedules = 0, sched_index = 0, schedule_service = None,
     time_sync_timer = False, sync_state = TIME_SYNC_NOT_STARTED\<rparr>"

definition sched_data :: "'a core_scheme \<Rightarrow> sched_priv" where
  "sched_data s = (case schedule_priv_data s of None \<Rightarrow> sched_priv0 | Some d \<Rightarrow> d)"

definition upd_sched_data :: "(sched_priv \<Rightarrow> sched_priv) \<Rightarrow> 'a core_scheme \<Rightarrow> 'a core_scheme" where
  "upd_sched_data f s = s\<lparr>schedule_priv_data := map_option f (schedule_priv_data s)\<rparr>"

definition upd_rs :: "nat \<Rightarrow> (rm_sched \<Rightarrow> rm_sched) \<Rightarrow> 'a core_scheme \<Rightarrow> 'a core_scheme" where
  "upd_rs r f s = s\<lparr>rs_heap := (rs_heap s)(r := f (rs_heap s r))\<rparr>"

subsection \<open>The list\<close>

definition same_id :: "'a core_scheme \<Rightarrow> string \<Rightarrow> nat \<Rightarrow> bool" where
  "same_id s i r \<longleftrightarrow> strncmp_eq i (rs_id (rs_heap s r)) (MAX_ID_LEN + 1)"

definition esp_rmaker_schedule_get_schedule_from_id :: "string \<Rightarrow> 'a core_scheme \<Rightarrow> nat option" where
  "esp_rmaker_schedule_get_schedule_from_id i s = List.find (same_id s i) (schedule_list (sched_data s))"

definition esp_rmaker_schedule_get_schedule_from_index :: "int \<Rightarrow> 'a core_scheme \<Rightarrow> nat option" where
  "esp_rmaker_schedule_get_schedule_from_index index s =
     List.find (\<lambda>r. rs_index (rs_heap s r) = index) (schedule_list (sched_data s))"

definition esp_rmaker_schedule_add_to_list :: "nat option \<Rightarrow> 'a core_scheme \<Rightarrow> esp_err \<times> 'a core_scheme" where
  "esp_rmaker_schedule_add_to_list schedule s =
     (case schedule of None \<Rightarrow> (ESP_ERR_INVALID_ARG, s)
      | Some r \<Rightarrow>
          if esp_rmaker_schedule_get_schedule_from_id (rs_id (rs_heap s r)) s \<noteq> None then (ESP_FAIL, s)
          else (ESP_OK, upd_sched_data (\<lambda>d. d\<lparr>schedule_list := schedule_list d @ [r],
                 total_schedules := total_schedules d + 1\<rparr>) s))"

fun remove_first :: "('r \<Rightarrow> bool) \<Rightarrow> 'r list \<Rightarrow> 'r list" where
  \<comment> \<open>the first element found is unlinked\<close>
  "remove_first P [] = []"
| "remove_first P (r # rs) = (if P r then rs else r # remove_first P rs)"

definition esp_rmaker_schedule_remove_from_list :: "nat option \<Rightarrow> 'a core_scheme \<Rightarrow> esp_err \<times> 'a core_scheme" where
  "esp_rmaker_schedule_remove_from_list schedule s =
     (case schedule of None \<Rightarrow> (ESP_ERR_INVALID_ARG, s)
      | Some r \<Rightarrow>
          let i = rs_id (rs_heap s r)
          in if List.find (same_id s i) (schedule_list (sched_data s)) = None then (ESP_ERR_NOT_FOUND, s)
             else (ESP_OK, upd_sched_data (\<lambda>d. d\<lparr>schedule_list := remove_first (same_id s i) (schedule_list d),
                    total_schedules := total_schedules d - 1\<rparr>) s))"

subsection \<open>Expiry and the action\<close>

definition rm_expired_at :: "libc \<Rightarrow> rm_trigger \<Rightarrow> int \<Rightarrow> bool" where
  "rm_expired_at lc tr now =
     (let passed = (0 < rt_next tr \<and> rt_next tr \<le> now)
      in case rt_type tr of
           TRIGGER_TYPE_RELATIVE \<Rightarrow> passed
         | TRIGGER_TYPE_DAYS_OF_WEEK \<Rightarrow> rt_repeat_days tr = 0 \<and> passed
         | TRIGGER_TYPE_DATE \<Rightarrow>
             if rt_repeat_months tr = 0 then passed
             else if rt_every_year tr then False
             else
               snd (mktime lc ((localtime_r lc now)\<lparr>tm_sec := 0, tm_min := uint (rt_minutes tr),
                 tm_hour := 0, tm_mday := uint (rt_day tr),
                 tm_mon := int (fls (rt_repeat_months tr)) - 1,
                 tm_year := uint (rt_year tr) - 1900\<rparr>)) < now
         | _ \<Rightarrow> False)"

definition esp_rmaker_schedule_is_expired :: "libc \<Rightarrow> nat \<Rightarrow> 'a core_scheme \<Rightarrow> bool \<times> 'a core_scheme" where
  "esp_rmaker_schedule_is_expired lc r s =
     (let (now, s) = ask s in (rm_expired_at lc (rs_trigger (rs_heap s r)) now, s))"

text \<open>With no action the length is 0 and parsing it fails, unless the allocation failed after the
  length had been set: then the \<open>NULL\<close> pointer is read.\<close>

definition esp_rmaker_schedule_process_action ::
  "(string \<Rightarrow> jparse_ctx option) \<Rightarrow> (string \<Rightarrow> u32 \<times> nat) \<Rightarrow> ('a core_scheme) write_fn \<Rightarrow> nat
     \<Rightarrow> 'a core_scheme \<Rightarrow> esp_err \<times> 'a core_scheme" where
  "esp_rmaker_schedule_process_action parse strtof invoke r s =
     (case rs_action (rs_heap s r) of
        Some a \<Rightarrow> esp_rmaker_handle_set_params strtof invoke (parse a) ESP_RMAKER_REQ_SRC_SCHEDULE s
      | None \<Rightarrow> if 0 < rs_action_len (rs_heap s r) then (ESP_FAIL, emit (Os Abort) s) else (ESP_FAIL, s))"

subsection \<open>The callbacks of the engine\<close>

abbreviation trigger_cb_name :: string where
  "trigger_cb_name \<equiv> ''esp_rmaker_schedule_trigger_common_cb''"

abbreviation timestamp_cb_name :: string where
  "timestamp_cb_name \<equiv> ''esp_rmaker_schedule_timestamp_common_cb''"

definition esp_rmaker_schedule_trigger_common_cb :: "nat \<Rightarrow> int \<Rightarrow> 'a core_scheme \<Rightarrow> 'a core_scheme" where
  "esp_rmaker_schedule_trigger_common_cb handle p s =
     snd (wq_call (WqAdd (''esp_rmaker_schedule_trigger_work_cb'', [p])) s)"

definition esp_rmaker_schedule_timestamp_common_cb ::
  "nat \<Rightarrow> u32 \<Rightarrow> int \<Rightarrow> 'a core_scheme \<Rightarrow> 'a core_scheme" where
  "esp_rmaker_schedule_timestamp_common_cb handle next_timestamp p s =
     (case esp_rmaker_schedule_get_schedule_from_index p s of None \<Rightarrow> s
      | Some r \<Rightarrow> upd_rs r (rs_trigger_update (rt_next_update (\<lambda>_. uint next_timestamp))) s)"

definition rm_callbacks :: "'a es_callbacks" where
  "rm_callbacks = \<lparr>
     trigger_fn = (\<lambda>f h p s. if f = trigger_cb_name then esp_rmaker_schedule_trigger_common_cb h p s else s),
     timestamp_fn = (\<lambda>f h n p s.
       if f = timestamp_cb_name then esp_rmaker_schedule_timestamp_common_cb h n p s else s)\<rparr>"

subsection \<open>Reporting\<close>

definition int_of_int64 :: "int \<Rightarrow> int" where
  \<comment> \<open>the conversion to \<open>int\<close> of an argument\<close>
  "int_of_int64 i = sint (word_of_int i :: u32)"

definition trigger_json :: "rm_trigger \<Rightarrow> json_gen_str \<Rightarrow> json_gen_str" where
  "trigger_json tr j =
     (if rt_type tr = TRIGGER_TYPE_RELATIVE then
        let j = snd (json_gen_obj_set_int ''rsec'' (uint (rt_relative_seconds tr)) j)
        in snd (json_gen_obj_set_int ''ts'' (int_of_int64 (rt_next tr)) j)
      else
        let j = snd (json_gen_obj_set_int ''m'' (uint (rt_minutes tr)) j)
        in case rt_type tr of
             TRIGGER_TYPE_DAYS_OF_WEEK \<Rightarrow>
               let j = snd (json_gen_obj_set_int ''d'' (uint (rt_repeat_days tr)) j)
               in if rt_repeat_days tr = 0
                  then snd (json_gen_obj_set_int ''ts'' (int_of_int64 (rt_next tr)) j) else j
           | TRIGGER_TYPE_DATE \<Rightarrow>
               let j = snd (json_gen_obj_set_int ''dd'' (uint (rt_day tr)) j);
                   j = snd (json_gen_obj_set_int ''mm'' (uint (rt_repeat_months tr)) j);
                   j = snd (json_gen_obj_set_int ''yy'' (uint (rt_year tr)) j);
                   j = snd (json_gen_obj_set_int ''r'' (if rt_every_year tr then 1 else 0) j)
               in if rt_repeat_months tr = 0
                  then snd (json_gen_obj_set_int ''ts'' (int_of_int64 (rt_next tr)) j) else j
           | _ \<Rightarrow> j)"

definition schedule_json :: "rm_sched \<Rightarrow> json_gen_str \<Rightarrow> json_gen_str" where
  "schedule_json r j =
     (let j = snd (json_gen_start_object j);
          j = snd (json_gen_obj_set_string ''name'' (Some (rs_name r)) j);
          j = snd (json_gen_obj_set_string ''id'' (Some (rs_id r)) j);
          j = snd (json_gen_obj_set_bool ''enabled'' (rs_enabled r) j);
          j = (if rs_info r \<noteq> None then snd (json_gen_obj_set_string ''info'' (rs_info r) j) else j);
          j = (if rs_flags r \<noteq> 0 then snd (json_gen_obj_set_int ''flags'' (sint (rs_flags r)) j) else j);
          j = snd (json_gen_push_object_str ''action'' (rs_action r) j);
          j = snd (json_gen_push_array ''triggers'' j);
          j = snd (json_gen_start_object j);
          j = trigger_json (rs_trigger r) j;
          j = snd (json_gen_end_object j);
          j = snd (json_gen_pop_array j)
      in snd (json_gen_end_object j))"

text \<open>The result, the size that is written back and the buffer.\<close>

definition schedule_get_params :: "bool \<Rightarrow> int \<Rightarrow> 'a core_scheme \<Rightarrow> esp_err \<times> int \<times> string option" where
  "schedule_get_params buf sz s =
     (let j = snd (json_gen_start_array (json_gen_str_start buf sz False));
          j = fold (\<lambda>r. schedule_json (rs_heap s r)) (schedule_list (sched_data s)) j;
          (rc, j) = json_gen_end_array j;
          err = (if rc < 0 then ESP_ERR_NO_MEM else ESP_OK);
          (size, txt, _) = json_gen_str_end j
      in (err, size, txt))"

definition esp_rmaker_schedule_get_params :: "'a core_scheme \<Rightarrow> string option \<times> 'a core_scheme" where
  "esp_rmaker_schedule_get_params s =
     (let (err, req_size, _) = schedule_get_params False 0 s
      in if err \<noteq> ESP_OK then (None, s)
         else
           let (ok, s) = alloc s
           in if \<not> ok then (None, s)
              else
                let (err, _, data) = schedule_get_params True req_size s
                in if err \<noteq> ESP_OK then (None, s) else (data, s))"

definition esp_rmaker_schedule_report_params :: "'a core_scheme \<Rightarrow> esp_err \<times> 'a core_scheme" where
  "esp_rmaker_schedule_report_params s =
     (let (data, s) = esp_rmaker_schedule_get_params s
      in case esp_rmaker_device_get_param_by_type (schedule_service (sched_data s))
               (Some ''esp.param.schedules'') s of
           None \<Rightarrow> (ESP_FAIL, emit (Os Abort) s)
         | Some param \<Rightarrow> (ESP_OK, snd (esp_rmaker_param_update_and_report param (VArr data) s)))"

subsection \<open>Operations on a schedule\<close>

text \<open>\<open>schedule_config\<close> is all zero before the call.\<close>

definition esp_rmaker_schedule_prepare_config :: "rm_sched \<Rightarrow> esp_config" where
  "esp_rmaker_schedule_prepare_config r =
     (let tr = rs_trigger r;
          c = esp_config0;
          c = (if rt_type tr = TRIGGER_TYPE_RELATIVE then
                 c\<lparr>ec_trigger := (ec_trigger c)\<lparr>et_next_utc := rt_next tr,
                     et_relative_seconds := uint (rt_relative_seconds tr),
                     et_type := ESP_SCHEDULE_TYPE_RELATIVE\<rparr>,
                   ec_trigger_cb := Some trigger_cb_name, ec_timestamp_cb := Some timestamp_cb_name\<rparr>
               else
                 let c = c\<lparr>ec_trigger := (ec_trigger c)\<lparr>et_hours := word_of_int (uint (rt_minutes tr) div 60),
                             et_minutes := word_of_int (uint (rt_minutes tr) mod 60)\<rparr>,
                           ec_trigger_cb := Some trigger_cb_name\<rparr>
                 in case rt_type tr of
                      TRIGGER_TYPE_DAYS_OF_WEEK \<Rightarrow>
                        c\<lparr>ec_trigger := (ec_trigger c)\<lparr>et_type := ESP_SCHEDULE_TYPE_DAYS_OF_WEEK,
                            et_repeat_days := rt_repeat_days tr\<rparr>,
                          ec_timestamp_cb := (if rt_repeat_days tr = 0 then Some timestamp_cb_name else None)\<rparr>
                    | TRIGGER_TYPE_DATE \<Rightarrow>
                        c\<lparr>ec_trigger := (ec_trigger c)\<lparr>et_type := ESP_SCHEDULE_TYPE_DATE,
                            et_day := rt_day tr, et_repeat_months := rt_repeat_months tr,
                            et_year := rt_year tr, et_every_year := rt_every_year tr\<rparr>,
                          ec_timestamp_cb := (if rt_repeat_months tr = 0 then Some timestamp_cb_name else None)\<rparr>
                    | _ \<Rightarrow> c)
      in c\<lparr>ec_name := strlcpy (rs_id r) (MAX_SCHEDULE_NAME_LEN + 1), ec_priv := rs_index r\<rparr>)"

definition esp_rmaker_schedule_add :: "nat \<Rightarrow> 'a core_scheme \<Rightarrow> esp_err \<times> 'a core_scheme" where
  "esp_rmaker_schedule_add r s =
     (let (h, s) = esp_schedule_create (Some (esp_rmaker_schedule_prepare_config (rs_heap s r))) s;
          s = upd_rs r (rs_handle_update (\<lambda>_. h)) s
      in (if h = None then ESP_FAIL else ESP_OK, s))"

definition esp_rmaker_schedule_operation_add :: "nat \<Rightarrow> 'a core_scheme \<Rightarrow> esp_err \<times> 'a core_scheme" where
  "esp_rmaker_schedule_operation_add r s =
     (let (ret, s) = esp_rmaker_schedule_add r s
      in if ret \<noteq> ESP_OK then (ret, s) else esp_rmaker_schedule_add_to_list (Some r) s)"

definition esp_rmaker_schedule_operation_disable :: "nat \<Rightarrow> 'a core_scheme \<Rightarrow> esp_err \<times> 'a core_scheme" where
  "esp_rmaker_schedule_operation_disable r s =
     (let (ret, s) = esp_schedule_disable (rs_handle (rs_heap s r)) s;
          s = upd_rs r (rs_trigger_update (rt_next_update (\<lambda>_. 0))) s
      in (ret, upd_rs r (rs_enabled_update (\<lambda>_. False)) s))"

definition esp_rmaker_schedule_timesync_timer_init :: "'a core_scheme \<Rightarrow> esp_err \<times> 'a core_scheme" where
  "esp_rmaker_schedule_timesync_timer_init s =
     (let (ok, s) = alloc (emit (Os (RtosTimerCreate ''esp_rmaker_schedule'' (TIME_SYNC_DELAY * 1000))) s);
          s = upd_sched_data (time_sync_timer_update (\<lambda>_. ok)) s
      in (if ok then ESP_OK else ESP_FAIL, s))"

text \<open>A call on a \<open>NULL\<close> timer fails an assertion of FreeRTOS.\<close>

definition sync_timer_call :: "os_call \<Rightarrow> 'a core_scheme \<Rightarrow> 'a core_scheme" where
  "sync_timer_call c s = emit (Os (if time_sync_timer (sched_data s) then c else Abort)) s"

definition esp_rmaker_schedule_timesync_timer_deinit :: "'a core_scheme \<Rightarrow> esp_err \<times> 'a core_scheme" where
  "esp_rmaker_schedule_timesync_timer_deinit s =
     (ESP_OK, upd_sched_data (time_sync_timer_update (\<lambda>_. False))
        (sync_timer_call (RtosTimerDelete ''esp_rmaker_schedule'') s))"

definition esp_rmaker_schedule_timesync_timer_start :: "'a core_scheme \<Rightarrow> esp_err \<times> 'a core_scheme" where
  "esp_rmaker_schedule_timesync_timer_start s =
     (ESP_OK, sync_timer_call (RtosTimerStart ''esp_rmaker_schedule'') s)"

definition enable_now :: "libc \<Rightarrow> nat \<Rightarrow> 'a core_scheme \<Rightarrow> esp_err \<times> 'a core_scheme" where
  \<comment> \<open>the rest of \<open>operation_enable\<close>, once the time is known\<close>
  "enable_now lc r s =
     (let (expired, s) = esp_rmaker_schedule_is_expired lc r s
      in if expired then
           let (_, s) = esp_rmaker_schedule_operation_disable r s;
               (_, s) = esp_rmaker_schedule_report_params s
           in (ESP_OK, s)
         else esp_schedule_enable lc rm_callbacks (rs_handle (rs_heap s r)) s)"

definition esp_rmaker_schedule_operation_enable :: "libc \<Rightarrow> nat \<Rightarrow> 'a core_scheme \<Rightarrow> esp_err \<times> 'a core_scheme" where
  "esp_rmaker_schedule_operation_enable lc r s =
     (let s = upd_rs r (rs_enabled_update (\<lambda>_. True)) s
      in case sync_state (sched_data s) of
           TIME_SYNC_NOT_STARTED \<Rightarrow>
             let (synced, s) = esp_rmaker_time_check s
             in if \<not> synced then
                  let (_, s) = esp_rmaker_schedule_timesync_timer_init s;
                      (_, s) = esp_rmaker_schedule_timesync_timer_start s
                  in (ESP_FAIL, upd_sched_data (sync_state_update (\<lambda>_. TIME_SYNC_STARTED)) s)
                else enable_now lc r (upd_sched_data (sync_state_update (\<lambda>_. TIME_SYNC_DONE)) s)
         | TIME_SYNC_STARTED \<Rightarrow> (ESP_FAIL, s)
         | TIME_SYNC_DONE \<Rightarrow> enable_now lc r s)"

definition esp_rmaker_schedule_operation_edit :: "libc \<Rightarrow> nat \<Rightarrow> 'a core_scheme \<Rightarrow> esp_err \<times> 'a core_scheme" where
  "esp_rmaker_schedule_operation_edit lc r s =
     (let (ret, s) = esp_schedule_edit (rs_handle (rs_heap s r))
            (Some (esp_rmaker_schedule_prepare_config (rs_heap s r))) s
      in (ret, if rs_enabled (rs_heap s r) then
                 let (_, s) = esp_rmaker_schedule_operation_disable r s;
                     (_, s) = esp_rmaker_schedule_operation_enable lc r s
                 in s
               else s))"

definition esp_rmaker_schedule_remove :: "nat \<Rightarrow> 'a core_scheme \<Rightarrow> esp_err \<times> 'a core_scheme" where
  "esp_rmaker_schedule_remove r s = esp_schedule_delete (rs_handle (rs_heap s r)) s"

definition esp_rmaker_schedule_operation_remove :: "nat \<Rightarrow> 'a core_scheme \<Rightarrow> esp_err \<times> 'a core_scheme" where
  "esp_rmaker_schedule_operation_remove r s =
     (let (ret, s) = esp_rmaker_schedule_remove_from_list (Some r) s
      in if ret \<noteq> ESP_OK then (ret, s) else esp_rmaker_schedule_remove r s)"

subsection \<open>Work and timer callbacks\<close>

definition esp_rmaker_schedule_trigger_work_cb ::
  "libc \<Rightarrow> (string \<Rightarrow> jparse_ctx option) \<Rightarrow> (string \<Rightarrow> u32 \<times> nat) \<Rightarrow> ('a core_scheme) write_fn \<Rightarrow> int
     \<Rightarrow> 'a core_scheme \<Rightarrow> 'a core_scheme" where
  "esp_rmaker_schedule_trigger_work_cb lc parse strtof invoke index s =
     (case esp_rmaker_schedule_get_schedule_from_index index s of None \<Rightarrow> s
      | Some r \<Rightarrow>
          let (_, s) = esp_rmaker_schedule_process_action parse strtof invoke r s;
              (expired, s) = esp_rmaker_schedule_is_expired lc r s
          in if expired then
               let (_, s) = esp_rmaker_schedule_operation_disable r s;
                   (_, s) = esp_rmaker_schedule_report_params s
               in s
             else s)"

definition enable_if_enabled :: "libc \<Rightarrow> nat \<Rightarrow> 'a core_scheme \<Rightarrow> 'a core_scheme" where
  "enable_if_enabled lc r s =
     (if rs_enabled (rs_heap s r) then snd (esp_rmaker_schedule_operation_enable lc r s) else s)"

definition esp_rmaker_schedule_timesync_timer_work_cb :: "libc \<Rightarrow> 'a core_scheme \<Rightarrow> 'a core_scheme" where
  "esp_rmaker_schedule_timesync_timer_work_cb lc s =
     (let (synced, s) = esp_rmaker_time_check s
      in if \<not> synced then snd (esp_rmaker_schedule_timesync_timer_start s)
         else
           let (_, s) = esp_rmaker_schedule_timesync_timer_deinit s;
               s = upd_sched_data (sync_state_update (\<lambda>_. TIME_SYNC_DONE)) s
           in fold (enable_if_enabled lc) (schedule_list (sched_data s)) s)"

definition esp_rmaker_schedule_timesync_timer_cb :: "'a core_scheme \<Rightarrow> 'a core_scheme" where
  "esp_rmaker_schedule_timesync_timer_cb s =
     snd (wq_call (WqAdd (''esp_rmaker_schedule_timesync_timer_work_cb'', [])) s)"

subsection \<open>Parsing\<close>

definition esp_rmaker_schedule_get_operation_from_str :: "string option \<Rightarrow> schedule_operation" where
  "esp_rmaker_schedule_get_operation_from_str operation =
     (case operation of None \<Rightarrow> OPERATION_INVALID
      | Some t \<Rightarrow>
          if strncmp_eq t ''add'' (length t) then OPERATION_ADD
          else if strncmp_eq t ''edit'' (length t) then OPERATION_EDIT
          else if strncmp_eq t ''remove'' (length t) then OPERATION_REMOVE
          else if strncmp_eq t ''enable'' (length t) then OPERATION_ENABLE
          else if strncmp_eq t ''disable'' (length t) then OPERATION_DISABLE
          else OPERATION_INVALID)"

definition get_string_or :: "string \<Rightarrow> jparse_ctx \<Rightarrow> string \<Rightarrow> nat \<Rightarrow> string" where
  \<comment> \<open>a buffer of \<open>n + 1\<close> bytes with the text \<open>d\<close> keeps it when the lookup fails\<close>
  "get_string_or d jctx key n =
     (case json_obj_get_string jctx key (int n + 1) of None \<Rightarrow> d | Some t \<Rightarrow> t)"

definition esp_rmaker_schedule_parse_operation ::
  "jparse_ctx \<Rightarrow> string \<Rightarrow> 'a core_scheme \<Rightarrow> schedule_operation" where
  "esp_rmaker_schedule_parse_operation jctx i s =
     (let operation_str = get_string_or [] jctx ''operation'' MAX_OPERATION_LEN
      in if length operation_str \<le> 0 then OPERATION_INVALID
         else
           let operation = esp_rmaker_schedule_get_operation_from_str (Some operation_str)
           in if operation = OPERATION_EDIT \<and> esp_rmaker_schedule_get_schedule_from_id i s = None
              then OPERATION_ADD else operation)"

definition esp_rmaker_schedule_parse_action ::
  "jparse_ctx \<Rightarrow> nat \<Rightarrow> 'a core_scheme \<Rightarrow> esp_err \<times> 'a core_scheme" where
  "esp_rmaker_schedule_parse_action jctx r s =
     (let data_len = (case json_obj_get_object_strlen jctx ''action'' of None \<Rightarrow> 0 | Some n \<Rightarrow> n)
      in if data_len \<le> 0 then (ESP_OK, s)
         else
           let s = upd_rs r (\<lambda>x. x\<lparr>rs_action_len := data_len + 1, rs_action := None\<rparr>) s;
               (ok, s) = alloc s
           in if \<not> ok then (ESP_ERR_NO_MEM, s)
              else
                let t = (case json_obj_get_object_str jctx ''action'' (data_len + 1) of None \<Rightarrow> [] | Some t \<Rightarrow> t)
                in (ESP_OK, upd_rs r (rs_action_update (\<lambda>_. Some t)) s))"

definition int_or :: "int \<Rightarrow> int option \<Rightarrow> int" where
  "int_or d v = (case v of None \<Rightarrow> d | Some i \<Rightarrow> i)"

text \<open>The object of the first trigger gives the new trigger.\<close>

definition read_trigger :: "jparse_ctx \<Rightarrow> rm_trigger" where
  "read_trigger jctx =
     (let timestamp = int_or 0 (json_obj_get_int64 jctx ''ts'');
          rsec = json_obj_get_int jctx ''rsec'';
          t = rm_trigger0\<lparr>rt_next := timestamp\<rparr>
      in case rsec of
           Some relative_seconds \<Rightarrow>
             t\<lparr>rt_type := TRIGGER_TYPE_RELATIVE, rt_relative_seconds := word_of_int relative_seconds\<rparr>
         | None \<Rightarrow>
             let minutes = int_or 0 (json_obj_get_int jctx ''m'');
                 d = json_obj_get_int jctx ''d'';
                 t = t\<lparr>rt_minutes := word_of_int minutes, rt_repeat_days := word_of_int (int_or 0 d),
                       rt_type := (if d \<noteq> None then TRIGGER_TYPE_DAYS_OF_WEEK else TRIGGER_TYPE_INVALID)\<rparr>
             in case json_obj_get_int jctx ''dd'' of
                  None \<Rightarrow> t
                | Some day \<Rightarrow>
                    t\<lparr>rt_type := TRIGGER_TYPE_DATE, rt_day := word_of_int day,
                      rt_repeat_months := word_of_int (int_or 0 (json_obj_get_int jctx ''mm'')),
                      rt_year := word_of_int (int_or 0 (json_obj_get_int jctx ''yy'')),
                      rt_every_year := (case json_obj_get_bool jctx ''r'' of None \<Rightarrow> False | Some b \<Rightarrow> b)\<rparr>)"

text \<open>A step of the context that fails leaves it where it was.\<close>

definition or_stay :: "jparse_ctx \<Rightarrow> jparse_ctx option \<Rightarrow> jparse_ctx" where
  "or_stay jctx c = (case c of None \<Rightarrow> jctx | Some c \<Rightarrow> c)"

definition esp_rmaker_schedule_parse_trigger ::
  "jparse_ctx \<Rightarrow> rm_trigger \<Rightarrow> jparse_ctx \<times> rm_trigger" where
  "esp_rmaker_schedule_parse_trigger jctx trigger =
     (case json_obj_get_array jctx ''triggers'' of
        None \<Rightarrow> (jctx, trigger)
      | Some (total_triggers, a) \<Rightarrow>
          if total_triggers \<le> 0 then (or_stay a (json_obj_leave_array a), trigger)
          else
            let (t, a) = (case json_arr_get_object a 0 of
                    None \<Rightarrow> (rm_trigger0, a)
                  | Some b \<Rightarrow> (read_trigger b, or_stay b (json_arr_leave_object b)))
            in (or_stay a (json_obj_leave_array a), t))"

definition esp_rmaker_schedule_parse_info_and_flags ::
  "jparse_ctx \<Rightarrow> nat \<Rightarrow> 'a core_scheme \<Rightarrow> 'a core_scheme" where
  "esp_rmaker_schedule_parse_info_and_flags jctx r s =
     (let s = (case json_obj_get_string jctx ''info'' (int MAX_INFO_LEN + 1) of
            None \<Rightarrow> s
          | Some t \<Rightarrow>
              let s = upd_rs r (rs_info_update (\<lambda>_. None)) s
              in if 0 < length t then
                   let (ok, s) = alloc s
                   in upd_rs r (rs_info_update (\<lambda>_. if ok then Some t else None)) s
                 else s)
      in case json_obj_get_int jctx ''flags'' of None \<Rightarrow> s
         | Some fl \<Rightarrow> upd_rs r (rs_flags_update (\<lambda>_. word_of_int fl)) s)"

definition esp_rmaker_schedule_find_or_create ::
  "jparse_ctx \<Rightarrow> string \<Rightarrow> schedule_operation \<Rightarrow> 'a core_scheme \<Rightarrow> nat option \<times> 'a core_scheme" where
  "esp_rmaker_schedule_find_or_create jctx i operation s =
     (let found = esp_rmaker_schedule_get_schedule_from_id i s;
          name = get_string_or [] jctx ''name'' MAX_NAME_LEN
      in if operation = OPERATION_ADD then
           (if found \<noteq> None then (None, s)
            else if length name \<le> 0 then (None, s)
            else
              let (ok, s) = alloc s
              in if \<not> ok then (None, s)
                 else
                   let r = next_ref s;
                       s = s\<lparr>next_ref := r + 1, rs_heap := (rs_heap s)(r :=
                             rm_sched0\<lparr>rs_id := strlcpy i (MAX_ID_LEN + 1),
                               rs_name := strlcpy name (MAX_NAME_LEN + 1),
                               rs_index := sched_index (sched_data s)\<rparr>)\<rparr>
                   in (Some r, upd_sched_data (\<lambda>d. d\<lparr>sched_index := sched_index d + 1\<rparr>) s))
         else
           case found of None \<Rightarrow> (None, s)
           | Some r \<Rightarrow>
               (Some r, if operation = OPERATION_EDIT \<and> 0 < length name
                  then upd_rs r (rs_name_update (\<lambda>_. strlcpy name (MAX_NAME_LEN + 1))) s else s))"

definition esp_rmaker_schedule_perform_operation ::
  "libc \<Rightarrow> nat \<Rightarrow> schedule_operation \<Rightarrow> bool \<Rightarrow> 'a core_scheme \<Rightarrow> esp_err \<times> 'a core_scheme" where
  "esp_rmaker_schedule_perform_operation lc r operation enabled s =
     (case operation of
        OPERATION_ADD \<Rightarrow>
          if total_schedules (sched_data s) < MAX_SCHEDULES then
            let (_, s) = esp_rmaker_schedule_operation_add r s
            in (ESP_OK, if enabled then snd (esp_rmaker_schedule_operation_enable lc r s) else s)
          else (ESP_FAIL, s)
      | OPERATION_EDIT \<Rightarrow> (ESP_OK, snd (esp_rmaker_schedule_operation_edit lc r s))
      | OPERATION_REMOVE \<Rightarrow> (ESP_OK, snd (esp_rmaker_schedule_operation_remove r s))
      | OPERATION_ENABLE \<Rightarrow> (ESP_OK, snd (esp_rmaker_schedule_operation_enable lc r s))
      | OPERATION_DISABLE \<Rightarrow> (ESP_OK, snd (esp_rmaker_schedule_operation_disable r s))
      | OPERATION_INVALID \<Rightarrow> (ESP_FAIL, s))"

text \<open>
  One element of the array: the context is at its object. \<open>i\<close> and \<open>enabled\<close> are the variables
  of the enclosing function, which outlive the element.
\<close>

definition parse_element ::
  "libc \<Rightarrow> req_src \<Rightarrow> jparse_ctx \<Rightarrow> string \<Rightarrow> bool \<Rightarrow> 'a core_scheme
     \<Rightarrow> jparse_ctx \<times> string \<times> bool \<times> 'a core_scheme" where
  "parse_element lc src jctx i enabled s =
     (let i = get_string_or i jctx ''id'' MAX_ID_LEN
      in if length i \<le> 0 then (jctx, i, enabled, s)
         else
           let operation = (if src = ESP_RMAKER_REQ_SRC_INIT then OPERATION_ADD
                            else esp_rmaker_schedule_parse_operation jctx i s)
           in if operation = OPERATION_INVALID then (jctx, i, enabled, s)
              else
                case esp_rmaker_schedule_find_or_create jctx i operation s of
                  (None, s) \<Rightarrow> (jctx, i, enabled, s)
                | (Some r, s) \<Rightarrow>
                    if operation = OPERATION_ADD \<or> operation = OPERATION_EDIT then
                      let enabled =
                            (if operation = OPERATION_ADD then
                               if src = ESP_RMAKER_REQ_SRC_INIT
                               then (case json_obj_get_bool jctx ''enabled'' of None \<Rightarrow> enabled | Some b \<Rightarrow> b)
                               else True
                             else enabled);
                          (_, s) = esp_rmaker_schedule_parse_action jctx r s;
                          (jctx, t) = esp_rmaker_schedule_parse_trigger jctx (rs_trigger (rs_heap s r));
                          s = upd_rs r (rs_trigger_update (\<lambda>_. t)) s;
                          s = esp_rmaker_schedule_parse_info_and_flags jctx r s;
                          (_, s) = esp_rmaker_schedule_perform_operation lc r operation enabled s
                      in (jctx, i, enabled, s)
                    else
                      let (_, s) = esp_rmaker_schedule_perform_operation lc r operation enabled s
                      in (jctx, i, enabled, s))"

text \<open>
  The loop over the array. On the tokens of a document it leaves after the last element, and
  there are more tokens than elements, so their number is enough fuel
  (\<open>parse_elements_fuel\<close>).
\<close>

fun parse_elements ::
  "nat \<Rightarrow> libc \<Rightarrow> req_src \<Rightarrow> nat \<Rightarrow> jparse_ctx \<Rightarrow> string \<Rightarrow> bool \<Rightarrow> 'a core_scheme \<Rightarrow> 'a core_scheme" where
  "parse_elements 0 lc src current jctx i enabled s = s"
| "parse_elements (Suc f) lc src current jctx i enabled s =
     (case json_arr_get_object jctx current of None \<Rightarrow> s
      | Some ob \<Rightarrow>
          let (ob, i, enabled, s) = parse_element lc src ob i enabled s
          in parse_elements f lc src (current + 1) (or_stay ob (json_arr_leave_object ob)) i enabled s)"

definition esp_rmaker_schedule_parse_json ::
  "libc \<Rightarrow> (string \<Rightarrow> jparse_ctx option) \<Rightarrow> string \<Rightarrow> req_src \<Rightarrow> 'a core_scheme \<Rightarrow> esp_err \<times> 'a core_scheme" where
  "esp_rmaker_schedule_parse_json lc parse data src s =
     (case parse data of None \<Rightarrow> (ESP_FAIL, s)
      | Some jctx \<Rightarrow> (ESP_OK, parse_elements (length (tokens jctx)) lc src 0 jctx [] True s))"

text \<open>The write callback of the service; \<open>strcmp\<close> and \<open>strlen\<close> crash on \<open>NULL\<close>.\<close>

definition schedule_write_cb ::
  "libc \<Rightarrow> (string \<Rightarrow> jparse_ctx option) \<Rightarrow> nat \<Rightarrow> nat \<Rightarrow> param_val \<Rightarrow> req_src \<Rightarrow> 'a core_scheme
     \<Rightarrow> esp_err \<times> 'a core_scheme" where
  "schedule_write_cb lc parse device param val src s =
     (case esp_rmaker_param_get_type (Some param) s of
        None \<Rightarrow> (ESP_FAIL, emit (Os Abort) s)
      | Some ty \<Rightarrow>
          if ty \<noteq> ''esp.param.schedules'' then (ESP_ERR_INVALID_ARG, s)
          else case val_str val of
                 None \<Rightarrow> (ESP_FAIL, emit (Os Abort) s)
               | Some t \<Rightarrow>
                   if length t \<le> 0 then (ESP_ERR_INVALID_ARG, s)
                   else
                     let (_, s) = esp_rmaker_schedule_parse_json lc parse t src s
                     in (ESP_OK, if src \<noteq> ESP_RMAKER_REQ_SRC_INIT
                                 then snd (esp_rmaker_schedule_report_params s) else s))"

definition esp_rmaker_schedule_enable ::
  "('a core_scheme) write_fn \<Rightarrow> 'a core_scheme \<Rightarrow> esp_err \<times> 'a core_scheme" where
  "esp_rmaker_schedule_enable invoke s =
     (let (ok, s) = alloc s
      in if \<not> ok then (ESP_ERR_NO_MEM, s\<lparr>schedule_priv_data := None\<rparr>)
         else
           let s = s\<lparr>schedule_priv_data := Some sched_priv0\<rparr>;
               (_, s) = esp_rmaker_time_sync_init None s;
               s = esp_schedule_init s;
               (service, s) = esp_rmaker_create_schedule_service invoke (Some ''Schedule'')
                 (Some ''schedule_write_cb'') None MAX_SCHEDULES [] s;
               s = upd_sched_data (schedule_service_update (\<lambda>_. service)) s
           in if service = None then (ESP_FAIL, s)
              else esp_rmaker_node_add_device (esp_rmaker_get_node s) service s)"

subsection \<open>The fuel of the loop\<close>

definition tokens_ok :: "jparse_ctx \<Rightarrow> bool" where
  \<comment> \<open>what the tokenizer promises: sizes count tokens, and parents are tokens\<close>
  "tokens_ok c \<longleftrightarrow> cur c < length (tokens c)
     \<and> (\<forall>t \<in> set (tokens c). tk_size t \<le> int (length (tokens c)) \<and> tk_parent t < int (length (tokens c)))"

definition walks_to :: "jparse_ctx \<Rightarrow> jparse_ctx \<Rightarrow> bool" where
  \<comment> \<open>the context has moved within its tokens\<close>
  "walks_to c d \<longleftrightarrow> tokens d = tokens c \<and> cur d < length (tokens c)"

lemma walks_to_ok: "tokens_ok c \<Longrightarrow> walks_to c d \<Longrightarrow> tokens_ok d"
  by (simp add: tokens_ok_def walks_to_def)

lemma walks_to_refl: "tokens_ok c \<Longrightarrow> walks_to c c"
  by (simp add: tokens_ok_def walks_to_def)

lemma walks_to_trans: "walks_to c d \<Longrightarrow> walks_to d e \<Longrightarrow> walks_to c e"
  by (simp add: walks_to_def)

lemma to_parent_walks: "tokens_ok c \<Longrightarrow> to_parent c = Some d \<Longrightarrow> walks_to c d"
proof -
  assume c: "tokens_ok c" and d: "to_parent c = Some d"
  have "tk_parent (tokens c ! cur c) < int (length (tokens c))"
    using c nth_mem unfolding tokens_ok_def by blast
  then show "walks_to c d"
    using d by (auto simp: to_parent_def walks_to_def Let_def split: if_splits)
qed

lemma leave_object_walks: "tokens_ok c \<Longrightarrow> walks_to c (or_stay c (json_arr_leave_object c))"
  using to_parent_walks [of c]
  by (auto simp: or_stay_def json_arr_leave_object_def walks_to_refl split: option.splits)

lemma leave_array_walks: "tokens_ok c \<Longrightarrow> walks_to c (or_stay c (json_obj_leave_array c))"
proof (cases "json_obj_leave_array c")
  case None
  then show "tokens_ok c \<Longrightarrow> ?thesis" by (simp add: or_stay_def walks_to_refl)
next
  case (Some e)
  then obtain d where "to_parent c = Some d" "to_parent d = Some e"
    by (auto simp: json_obj_leave_array_def split: option.splits)
  then show "tokens_ok c \<Longrightarrow> ?thesis"
    using Some to_parent_walks walks_to_ok walks_to_trans by (simp add: or_stay_def) blast
qed

lemma get_array_walks: "json_obj_get_array c name = Some (n, d) \<Longrightarrow> walks_to c d"
  by (auto simp: json_obj_get_array_def json_obj_get_val_tok_def walks_to_def Let_def
      split: option.splits if_splits)

lemma arr_get_object_walks: "json_arr_get_object c n = Some d \<Longrightarrow> walks_to c d"
  by (auto simp: json_arr_get_object_def json_arr_get_val_tok_def walks_to_def
      split: option.splits if_splits)

lemma parse_trigger_walks:
  assumes "tokens_ok c"
  shows "walks_to c (fst (esp_rmaker_schedule_parse_trigger c t))"
proof (cases "json_obj_get_array c ''triggers''")
  case None
  then show ?thesis using assms by (simp add: esp_rmaker_schedule_parse_trigger_def walks_to_refl)
next
  case (Some p)
  obtain n a where p: "p = (n, a)" by force
  have a: "walks_to c a" using Some p get_array_walks by blast
  then have aok: "tokens_ok a" using assms walks_to_ok by blast
  have up: "walks_to c (or_stay b (json_obj_leave_array b))" if "walks_to c b" for b
    using walks_to_trans [OF that leave_array_walks [OF walks_to_ok [OF assms that]]] .
  have inner: "walks_to c (or_stay b (json_arr_leave_object b))" if "json_arr_get_object a 0 = Some b" for b
    using walks_to_trans [OF walks_to_trans [OF a arr_get_object_walks [OF that]]
      leave_object_walks [OF walks_to_ok [OF aok arr_get_object_walks [OF that]]]] .
  show ?thesis using Some p a inner
    by (auto simp: esp_rmaker_schedule_parse_trigger_def up split: option.splits)
qed

lemma parse_element_walks:
  "tokens_ok c \<Longrightarrow> walks_to c (fst (parse_element lc src c i enabled s))"
proof -
  assume c: "tokens_ok c"
  then show ?thesis
    by (simp add: parse_element_def Let_def split_beta walks_to_refl parse_trigger_walks split: option.split)
qed

lemma arr_object_bound:
  "tokens_ok c \<Longrightarrow> json_arr_get_object c n = Some d \<Longrightarrow> n < length (tokens c)"
proof -
  assume c: "tokens_ok c" and d: "json_arr_get_object c n = Some d"
  have "tk_size (tokens c ! cur c) \<le> int (length (tokens c))"
    using c nth_mem unfolding tokens_ok_def by blast
  then show "n < length (tokens c)"
    using d by (auto simp: json_arr_get_object_def json_arr_get_val_tok_def json_arr_search_def Let_def
        split: option.splits if_splits)
qed

lemma parse_elements_fuel:
  "tokens_ok c \<Longrightarrow> length (tokens c) \<le> n + f
     \<Longrightarrow> parse_elements (f + k) lc src n c i enabled s = parse_elements f lc src n c i enabled s"
proof (induction f arbitrary: n c i enabled s)
  case 0
  then have "json_arr_get_object c n = None" using arr_object_bound by fastforce
  then show ?case by (cases k) simp_all
next
  case (Suc f)
  show ?case
  proof (cases "json_arr_get_object c n")
    case None
    then show ?thesis by simp
  next
    case (Some ob)
    obtain ob' i' e' s' where e: "parse_element lc src ob i enabled s = (ob', i', e', s')"
      by (metis prod_cases4)
    have "walks_to c ob'"
      using Some Suc.prems(1) e arr_get_object_walks walks_to_ok walks_to_trans parse_element_walks
      by (metis fst_conv)
    then have "walks_to c (or_stay ob' (json_arr_leave_object ob'))"
      using Suc.prems(1) walks_to_ok walks_to_trans leave_object_walks by blast
    then show ?thesis using Some e Suc.IH Suc.prems walks_to_ok
      by (simp add: walks_to_def)
  qed
qed

end
