(* ===== verification/Rm_Schedule_Inv.thy ===== *)
theory Rm_Schedule_Inv
  imports Rm_Schedule Rm_Frame
begin

text \<open>
  The list of schedules stays well formed, whatever the cloud sends: identifiers are unique,
  the counter is the length of the list and at most the limit, and every schedule has its own
  object in the engine, named by its identifier.
\<close>

subsection \<open>What the invariant sees\<close>

definition rs_key :: "rm_sched \<Rightarrow> string \<times> int \<times> nat option" where
  "rs_key x = (rs_id x, rs_index x, rs_handle x)"

definition es_key :: "esp_sched \<Rightarrow> string \<times> int" where
  "es_key e = (es_name e, es_priv e)"

definition sched_key :: "sched_priv \<Rightarrow> nat list \<times> int \<times> int" where
  "sched_key d = (schedule_list d, total_schedules d, sched_index d)"

definition wf_view ::
  "'a core_scheme \<Rightarrow> (nat list \<times> int \<times> int) option \<times> (nat \<Rightarrow> string \<times> int \<times> nat option)
     \<times> (nat \<Rightarrow> string \<times> int) \<times> nat" where
  "wf_view s = (map_option sched_key (schedule_priv_data s), rs_key \<circ> rs_heap s, es_key \<circ> es_heap s,
     next_ref s)"

lemma core_more_cong:
  fixes s t :: "'a core_scheme"
  assumes "rm.more s = rm.more t"
  shows "schedule_priv_data s = schedule_priv_data t" "rs_heap s = rs_heap t" "es_heap s = es_heap t"
  using assms by (cases s; cases t; simp)+

lemma view_more:
  "rm.more s = rm.more t \<Longrightarrow> next_ref s = next_ref t \<Longrightarrow> wf_view s = wf_view t"
  using core_more_cong [of s t] by (simp add: wf_view_def)

lemma view_env [frame_simps]:
  "wf_view (emit e s) = wf_view s" "wf_view (snd (ask s)) = wf_view s"
  "wf_view (snd (alloc s)) = wf_view s" "wf_view (snd (call e s)) = wf_view s"
  by (simp_all add: wf_view_def)

lemma view_upd_rs: "(\<And>x. rs_key (f x) = rs_key x) \<Longrightarrow> wf_view (upd_rs r f s) = wf_view s"
  by (auto simp: wf_view_def upd_rs_def)

lemma view_rs_fields [frame_simps]:
  "wf_view (upd_rs r (rs_enabled_update g) s) = wf_view s"
  "wf_view (upd_rs r (rs_trigger_update h) s) = wf_view s"
  "wf_view (upd_rs r (rs_action_update k) s) = wf_view s"
  "wf_view (upd_rs r (rs_info_update k) s) = wf_view s"
  "wf_view (upd_rs r (rs_flags_update l) s) = wf_view s"
  "wf_view (upd_rs r (rs_name_update m) s) = wf_view s"
  "wf_view (upd_rs r (\<lambda>x. x\<lparr>rs_action_len := n, rs_action := a\<rparr>) s) = wf_view s"
  by (rule view_upd_rs; simp add: rs_key_def)+

lemma view_upd_es: "(\<And>e. es_key (f e) = es_key e) \<Longrightarrow> wf_view (upd_es h f s) = wf_view s"
  by (auto simp: wf_view_def upd_es_def)

lemma view_es_fields [frame_simps]:
  "wf_view (upd_trigger h f s) = wf_view s"
  "wf_view (upd_es h (es_time_diff_update g) s) = wf_view s"
  "wf_view (upd_es h (es_timer_update k) s) = wf_view s"
  by (auto simp: upd_trigger_def es_key_def intro!: view_upd_es)

lemma view_sched_data [frame_simps]:
  "wf_view (upd_sched_data (time_sync_timer_update f) s) = wf_view s"
  "wf_view (upd_sched_data (sync_state_update g) s) = wf_view s"
  "wf_view (upd_sched_data (schedule_service_update h) s) = wf_view s"
  by (simp_all add: wf_view_def upd_sched_data_def option.map_comp comp_def sched_key_def [abs_def])

lemma view_x_timer [frame_simps]: "wf_view (x_timer h c s) = wf_view s"
  by (simp add: x_timer_def frame_simps)

lemma view_work [frame_simps]: "wf_view (s\<lparr>work := w\<rparr>) = wf_view s"
  by (simp add: wf_view_def)

lemma view_wq [frame_simps]: "wf_view (snd (wq_call c s)) = wf_view s"
  by (simp add: wq_call_def Let_def case_prod_beta frame_simps)

lemma view_timestamp [frame_simps]:
  "wf_view (timestamp_fn rm_callbacks f h n p s) = wf_view s"
  "wf_view (trigger_fn rm_callbacks f h p s) = wf_view s"
  by (simp_all add: rm_callbacks_def esp_rmaker_schedule_timestamp_common_cb_def
      esp_rmaker_schedule_trigger_common_cb_def frame_simps split: option.split)

lemma view_start_timer [frame_simps]:
  "wf_view (esp_schedule_start_timer lc rm_callbacks h s) = wf_view s"
  by (simp add: esp_schedule_start_timer_def esp_schedule_get_next_schedule_time_diff_def Let_def
      case_prod_beta frame_simps split: option.split)

lemma view_engine [frame_simps]:
  "wf_view (snd (esp_schedule_enable lc rm_callbacks i s)) = wf_view s"
  "wf_view (snd (esp_schedule_disable i s)) = wf_view s"
  "wf_view (snd (esp_schedule_delete i s)) = wf_view s"
  "wf_view (snd (esp_schedule_is_expired lc h s)) = wf_view s"
  "wf_view (esp_schedule_common_timer_cb lc rm_callbacks i s) = wf_view s"
  by (simp_all add: esp_schedule_enable_def esp_schedule_disable_def esp_schedule_delete_def
      esp_schedule_is_expired_def esp_schedule_common_timer_cb_def esp_schedule_stop_timer_def
      esp_schedule_delete_timer_def Let_def case_prod_beta frame_simps split: option.split)

lemma next_ref_clear [simp]: "next_ref (clear_flags f ps s) = next_ref s"
  by (subst clear_flags_frame) simp

lemma next_ref_populate [simp]:
  "next_ref (snd (snd (snd (esp_rmaker_populate_params b f r s)))) = next_ref s"
  by (simp add: esp_rmaker_populate_params_def Let_def case_prod_beta)

lemma next_ref_report [frame_simps]:
  "next_ref (snd (esp_rmaker_param_update_and_report p v s)) = next_ref s"
proof -
  have a: "next_ref (snd (esp_rmaker_allocate_and_populate_params f r t)) = next_ref t"
    for f r and t :: "'a rm_scheme"
    by (simp add: esp_rmaker_allocate_and_populate_params_def Let_def case_prod_beta)
  have p: "next_ref (publish_params t) = next_ref t" for t :: "'a rm_scheme"
    by (simp add: publish_params_def esp_rmaker_mqtt_publish_def)
  have i: "next_ref (snd (esp_rmaker_report_param_internal f t)) = next_ref t" for f and t :: "'a rm_scheme"
    by (simp add: esp_rmaker_report_param_internal_def Let_def case_prod_beta a p)
  have st: "next_ref (snd (esp_rmaker_param_store_value q t)) = next_ref t" for q and t :: "'a rm_scheme"
    by (simp add: esp_rmaker_param_store_value_def Let_def case_prod_beta split: option.split)
  have u: "next_ref (snd (esp_rmaker_param_update q v t)) = next_ref t" for q and t :: "'a rm_scheme"
    by (simp add: esp_rmaker_param_update_def Let_def case_prod_beta st split: option.split)
  show ?thesis
    by (simp add: esp_rmaker_param_update_and_report_def esp_rmaker_param_report_def Let_def
        case_prod_beta i u split: option.split)
qed

lemma view_report [frame_simps]:
  "wf_view (snd (esp_rmaker_schedule_report_params s)) = wf_view s"
proof -
  have g: "wf_view (snd (esp_rmaker_schedule_get_params s)) = wf_view s"
    by (auto simp: esp_rmaker_schedule_get_params_def Let_def case_prod_beta frame_simps)
  have u: "wf_view (snd (esp_rmaker_param_update_and_report p v t)) = wf_view t" for p v and t :: "'a core_scheme"
    by (intro view_more update_and_report_frame(1) next_ref_report)
  show ?thesis
    by (simp add: esp_rmaker_schedule_report_params_def Let_def case_prod_beta g u frame_simps
        split: option.split)
qed

lemma view_enable [frame_simps]:
  "wf_view (snd (esp_rmaker_schedule_operation_disable r s)) = wf_view s"
  "wf_view (snd (esp_rmaker_schedule_is_expired lc r s)) = wf_view s"
  "wf_view (snd (enable_now lc r s)) = wf_view s"
  "wf_view (snd (esp_rmaker_schedule_operation_enable lc r s)) = wf_view s"
proof -
  show d: "wf_view (snd (esp_rmaker_schedule_operation_disable r s)) = wf_view s" for s :: "'a core_scheme"
    by (simp add: esp_rmaker_schedule_operation_disable_def Let_def case_prod_beta frame_simps)
  show x: "wf_view (snd (esp_rmaker_schedule_is_expired lc r s)) = wf_view s" for s :: "'a core_scheme"
    by (simp add: esp_rmaker_schedule_is_expired_def Let_def case_prod_beta frame_simps)
  show n: "wf_view (snd (enable_now lc r s)) = wf_view s" for s :: "'a core_scheme"
    by (simp add: enable_now_def Let_def case_prod_beta frame_simps d x)
  show "wf_view (snd (esp_rmaker_schedule_operation_enable lc r s)) = wf_view s"
    by (simp add: esp_rmaker_schedule_operation_enable_def esp_rmaker_time_check_def
        esp_rmaker_schedule_timesync_timer_init_def esp_rmaker_schedule_timesync_timer_start_def
        sync_timer_call_def Let_def case_prod_beta frame_simps n split: time_sync_state.split)
qed

subsection \<open>The invariant\<close>

definition rs_ok :: "'a core_scheme \<Rightarrow> nat \<Rightarrow> bool" where
  "rs_ok s r \<longleftrightarrow>
     rs_id (rs_heap s r) \<noteq> [] \<and> length (rs_id (rs_heap s r)) \<le> MAX_ID_LEN
     \<and> rs_index (rs_heap s r) < sched_index (sched_data s) \<and> r < next_ref s
     \<and> (\<exists>h < next_ref s. rs_handle (rs_heap s r) = Some h
          \<and> es_name (es_heap s h) = rs_id (rs_heap s r) \<and> es_priv (es_heap s h) = rs_index (rs_heap s r))"

definition sched_wf :: "'a core_scheme \<Rightarrow> bool" where
  "sched_wf s \<longleftrightarrow> schedule_priv_data s \<noteq> None
     \<and> distinct (map (\<lambda>r. rs_id (rs_heap s r)) (schedule_list (sched_data s)))
     \<and> distinct (map (\<lambda>r. rs_index (rs_heap s r)) (schedule_list (sched_data s)))
     \<and> distinct (map (\<lambda>r. rs_handle (rs_heap s r)) (schedule_list (sched_data s)))
     \<and> total_schedules (sched_data s) = int (length (schedule_list (sched_data s)))
     \<and> total_schedules (sched_data s) \<le> MAX_SCHEDULES
     \<and> (\<forall>r \<in> set (schedule_list (sched_data s)). rs_ok s r)"

lemma wf_viewD:
  assumes "wf_view s = wf_view t"
  shows "schedule_priv_data s = None \<longleftrightarrow> schedule_priv_data t = None"
    "schedule_list (sched_data s) = schedule_list (sched_data t)"
    "total_schedules (sched_data s) = total_schedules (sched_data t)"
    "sched_index (sched_data s) = sched_index (sched_data t)"
    "rs_id (rs_heap s r) = rs_id (rs_heap t r)" "rs_index (rs_heap s r) = rs_index (rs_heap t r)"
    "rs_handle (rs_heap s r) = rs_handle (rs_heap t r)"
    "es_name (es_heap s h) = es_name (es_heap t h)" "es_priv (es_heap s h) = es_priv (es_heap t h)"
    "next_ref s = next_ref t"
proof -
  have p: "map_option sched_key (schedule_priv_data s) = map_option sched_key (schedule_priv_data t)"
    and r: "rs_key (rs_heap s r) = rs_key (rs_heap t r)" and e: "es_key (es_heap s h) = es_key (es_heap t h)"
    using assms by (simp_all add: wf_view_def fun_eq_iff)
  show "schedule_priv_data s = None \<longleftrightarrow> schedule_priv_data t = None"
    using p by (cases "schedule_priv_data s"; cases "schedule_priv_data t") simp_all
  show "schedule_list (sched_data s) = schedule_list (sched_data t)"
    "total_schedules (sched_data s) = total_schedules (sched_data t)"
    "sched_index (sched_data s) = sched_index (sched_data t)"
    using p by (auto simp: sched_data_def sched_key_def split: option.splits)
  show "rs_id (rs_heap s r) = rs_id (rs_heap t r)" "rs_index (rs_heap s r) = rs_index (rs_heap t r)"
    "rs_handle (rs_heap s r) = rs_handle (rs_heap t r)"
    using r by (simp_all add: rs_key_def)
  show "es_name (es_heap s h) = es_name (es_heap t h)" "es_priv (es_heap s h) = es_priv (es_heap t h)"
    using e by (simp_all add: es_key_def)
  show "next_ref s = next_ref t" using assms by (simp add: wf_view_def)
qed

lemma sched_wf_cong: "wf_view s = wf_view t \<Longrightarrow> sched_wf s \<longleftrightarrow> sched_wf t"
  using wf_viewD [of s t] by (simp add: sched_wf_def rs_ok_def cong: map_cong)

text \<open>Identifiers fit, so comparing them with \<open>strncmp\<close> is comparing them.\<close>

lemma same_id_iff:
  "rs_ok s r \<Longrightarrow> length i \<le> MAX_ID_LEN \<Longrightarrow> same_id s i r \<longleftrightarrow> i = rs_id (rs_heap s r)"
  by (simp add: same_id_def rs_ok_def strncmp_eq_short)

lemma found_id:
  assumes "sched_wf s" "esp_rmaker_schedule_get_schedule_from_id i s = Some r" "length i \<le> MAX_ID_LEN"
  shows "r \<in> set (schedule_list (sched_data s))" "rs_id (rs_heap s r) = i"
proof -
  show r: "r \<in> set (schedule_list (sched_data s))"
    using assms(2) by (auto simp: esp_rmaker_schedule_get_schedule_from_id_def find_Some_iff)
  then have "rs_ok s r" using assms(1) by (simp add: sched_wf_def)
  moreover have "same_id s i r"
    using assms(2) by (auto simp: esp_rmaker_schedule_get_schedule_from_id_def find_Some_iff)
  ultimately show "rs_id (rs_heap s r) = i" using same_id_iff assms(3) by blast
qed

lemma not_found_id:
  assumes "sched_wf s" "esp_rmaker_schedule_get_schedule_from_id i s = None" "length i \<le> MAX_ID_LEN"
    "r \<in> set (schedule_list (sched_data s))"
  shows "rs_id (rs_heap s r) \<noteq> i"
proof -
  have "rs_ok s r" using assms(1,4) by (simp add: sched_wf_def)
  moreover have "\<not> same_id s i r"
    using assms(2,4) by (auto simp: esp_rmaker_schedule_get_schedule_from_id_def find_None_iff)
  ultimately show ?thesis using same_id_iff assms(3) by blast
qed

subsection \<open>The operations keep it\<close>

lemma sched_wf_mono:
  assumes "sched_wf s" "schedule_priv_data t \<noteq> None" "schedule_list (sched_data t) = schedule_list (sched_data s)"
    "total_schedules (sched_data t) = total_schedules (sched_data s)"
    "sched_index (sched_data s) \<le> sched_index (sched_data t)" "next_ref s \<le> next_ref t"
    "\<And>r. r \<in> set (schedule_list (sched_data s)) \<Longrightarrow> rs_key (rs_heap t r) = rs_key (rs_heap s r)"
    "\<And>h. h < next_ref s \<Longrightarrow> es_key (es_heap t h) = es_key (es_heap s h)"
  shows "sched_wf t"
proof -
  let ?L = "schedule_list (sched_data s)"
  have k: "rs_id (rs_heap t r) = rs_id (rs_heap s r)" "rs_index (rs_heap t r) = rs_index (rs_heap s r)"
      "rs_handle (rs_heap t r) = rs_handle (rs_heap s r)" if "r \<in> set ?L" for r
    using assms(7) [OF that] by (simp_all add: rs_key_def)
  have e: "es_name (es_heap t h) = es_name (es_heap s h)" "es_priv (es_heap t h) = es_priv (es_heap s h)"
    if "h < next_ref s" for h
    using assms(8) [OF that] by (simp_all add: es_key_def)
  have "rs_ok t r" if r: "r \<in> set ?L" for r
  proof -
    have "rs_ok s r" using assms(1) r by (simp add: sched_wf_def)
    then obtain h where "h < next_ref s" "rs_handle (rs_heap s r) = Some h"
        "es_name (es_heap s h) = rs_id (rs_heap s r)" "es_priv (es_heap s h) = rs_index (rs_heap s r)"
      and o: "rs_id (rs_heap s r) \<noteq> []" "length (rs_id (rs_heap s r)) \<le> MAX_ID_LEN"
        "rs_index (rs_heap s r) < sched_index (sched_data s)" "r < next_ref s"
      by (auto simp: rs_ok_def)
    then show ?thesis using k [OF r] e [of h] assms(5,6) by (auto simp: rs_ok_def)
  qed
  moreover have m: "map (\<lambda>r. rs_id (rs_heap t r)) ?L = map (\<lambda>r. rs_id (rs_heap s r)) ?L"
      "map (\<lambda>r. rs_index (rs_heap t r)) ?L = map (\<lambda>r. rs_index (rs_heap s r)) ?L"
      "map (\<lambda>r. rs_handle (rs_heap t r)) ?L = map (\<lambda>r. rs_handle (rs_heap s r)) ?L"
    using k by simp_all
  ultimately show ?thesis
    using assms(1,2) unfolding sched_wf_def assms(3,4) m by blast
qed

text \<open>A schedule that has been created but not yet added.\<close>

definition pending :: "'a core_scheme \<Rightarrow> nat \<Rightarrow> bool" where
  "pending s r \<longleftrightarrow>
     rs_id (rs_heap s r) \<noteq> [] \<and> length (rs_id (rs_heap s r)) \<le> MAX_ID_LEN
     \<and> rs_index (rs_heap s r) < sched_index (sched_data s) \<and> r < next_ref s
     \<and> (\<forall>q \<in> set (schedule_list (sched_data s)). q \<noteq> r \<and> rs_index (rs_heap s q) \<noteq> rs_index (rs_heap s r)
          \<and> rs_id (rs_heap s q) \<noteq> rs_id (rs_heap s r))"

lemma pending_cong: "wf_view s = wf_view t \<Longrightarrow> pending s r \<longleftrightarrow> pending t r"
  using wf_viewD [of s t] by (simp add: pending_def)

text \<open>What \<open>esp_schedule_create\<close> does: a new object with the configuration's name and private
  data, or nothing.\<close>

lemma create_cases:
  assumes "esp_schedule_create (Some c) s = (h, t)" "ec_name c \<noteq> []"
  shows "h = None \<and> wf_view t = wf_view s \<or>
    h = Some (next_ref s) \<and> next_ref t = next_ref s + 1 \<and> rs_heap t = rs_heap s
      \<and> schedule_priv_data t = schedule_priv_data s
      \<and> es_key (es_heap t (next_ref s)) = (strlcpy (ec_name c) (MAX_SCHEDULE_NAME_LEN + 1), ec_priv c)
      \<and> (\<forall>k. k \<noteq> next_ref s \<longrightarrow> es_heap t k = es_heap s k)"
  using assms
  by (auto simp: esp_schedule_create_def esp_schedule_create_timer_def esp_schedule_set_def Let_def
      case_prod_beta upd_es_def es_key_def frame_simps split: if_splits)

lemma config_key:
  "length (rs_id x) \<le> MAX_ID_LEN \<Longrightarrow> ec_name (esp_rmaker_schedule_prepare_config x) = rs_id x"
  "ec_priv (esp_rmaker_schedule_prepare_config x) = rs_index x"
  by (simp_all add: esp_rmaker_schedule_prepare_config_def Let_def strlcpy_def MAX_SCHEDULE_NAME_LEN_def
      MAX_ID_LEN_def)

lemma add_to_list_wf:
  assumes "sched_wf s" "pending s r" "total_schedules (sched_data s) < MAX_SCHEDULES"
    "rs_handle (rs_heap s r) = Some h" "h < next_ref s"
    "es_key (es_heap s h) = (rs_id (rs_heap s r), rs_index (rs_heap s r))"
    "\<And>q. q \<in> set (schedule_list (sched_data s)) \<Longrightarrow> rs_handle (rs_heap s q) \<noteq> Some h"
  shows "sched_wf (snd (esp_rmaker_schedule_add_to_list (Some r) s))"
proof (cases "esp_rmaker_schedule_get_schedule_from_id (rs_id (rs_heap s r)) s = None")
  case False
  then show ?thesis using assms(1) by (simp add: esp_rmaker_schedule_add_to_list_def)
next
  case True
  define t where "t = upd_sched_data (\<lambda>d. d\<lparr>schedule_list := schedule_list d @ [r],
      total_schedules := total_schedules d + 1\<rparr>) s"
  obtain d where d: "schedule_priv_data s = Some d" using assms(1) by (auto simp: sched_wf_def)
  have t: "schedule_priv_data t \<noteq> None" "schedule_list (sched_data t) = schedule_list (sched_data s) @ [r]"
      "total_schedules (sched_data t) = total_schedules (sched_data s) + 1"
      "sched_index (sched_data t) = sched_index (sched_data s)" "rs_heap t = rs_heap s" "es_heap t = es_heap s"
      "next_ref t = next_ref s"
    using d by (simp_all add: t_def upd_sched_data_def sched_data_def)
  have ok: "rs_ok t q \<longleftrightarrow> rs_ok s q" for q by (simp add: rs_ok_def t)
  have "rs_ok s r" using assms(2,4-6) by (simp add: rs_ok_def pending_def es_key_def)
  moreover have "rs_id (rs_heap s r) \<notin> (\<lambda>r. rs_id (rs_heap s r)) ` set (schedule_list (sched_data s))"
      "rs_index (rs_heap s r) \<notin> (\<lambda>r. rs_index (rs_heap s r)) ` set (schedule_list (sched_data s))"
      "rs_handle (rs_heap s r) \<notin> (\<lambda>r. rs_handle (rs_heap s r)) ` set (schedule_list (sched_data s))"
    using assms(2,4,7) by (auto simp: pending_def) (metis+)
  ultimately have "sched_wf t"
    using assms(1,3) ok by (simp add: sched_wf_def t)
  then show ?thesis using True by (simp add: esp_rmaker_schedule_add_to_list_def t_def)
qed

lemma handle_small:
  "sched_wf s \<Longrightarrow> q \<in> set (schedule_list (sched_data s)) \<Longrightarrow> rs_handle (rs_heap s q) \<noteq> Some (next_ref s)"
  by (force simp: sched_wf_def rs_ok_def)

lemma operation_add_wf:
  assumes "sched_wf s" "pending s r" "total_schedules (sched_data s) < MAX_SCHEDULES"
  shows "sched_wf (snd (esp_rmaker_schedule_operation_add r s))"
proof -
  let ?c = "esp_rmaker_schedule_prepare_config (rs_heap s r)"
  obtain h u where u: "esp_schedule_create (Some ?c) s = (h, u)" by fastforce
  have len: "length (rs_id (rs_heap s r)) \<le> MAX_ID_LEN" "ec_name ?c \<noteq> []"
    using assms(2) config_key(1) [of "rs_heap s r"] by (simp_all add: pending_def)
  define v where "v = upd_rs r (rs_handle_update (\<lambda>_. h)) u"
  have add: "esp_rmaker_schedule_add r s = (if h = None then ESP_FAIL else ESP_OK, v)"
    by (simp add: esp_rmaker_schedule_add_def u v_def)
  from create_cases [OF u len(2)] show ?thesis
  proof
    assume n: "h = None \<and> wf_view u = wf_view s"
    note view = wf_viewD [OF conjunct2 [OF n]]
    have "sched_wf v"
      using assms(1,2) view(1-4,10) view(5-7) view(8,9)
      by (intro sched_wf_mono [of s v]) (auto simp: v_def upd_rs_def sched_data_def rs_key_def es_key_def pending_def sched_wf_def)
    then show ?thesis using n by (simp add: esp_rmaker_schedule_operation_add_def add)
  next
    assume y: "h = Some (next_ref s) \<and> next_ref u = next_ref s + 1 \<and> rs_heap u = rs_heap s
      \<and> schedule_priv_data u = schedule_priv_data s
      \<and> es_key (es_heap u (next_ref s)) = (strlcpy (ec_name ?c) (MAX_SCHEDULE_NAME_LEN + 1), ec_priv ?c)
      \<and> (\<forall>k. k \<noteq> next_ref s \<longrightarrow> es_heap u k = es_heap s k)"
    have v: "schedule_priv_data v = schedule_priv_data s" "sched_data v = sched_data s"
        "next_ref v = next_ref s + 1" "es_heap v = es_heap u"
        "rs_heap v = (rs_heap s)(r := (rs_heap s r)\<lparr>rs_handle := Some (next_ref s)\<rparr>)"
      using y by (simp_all add: v_def upd_rs_def sched_data_def)
    have "sched_wf v"
      using assms(1,2) v y
      by (intro sched_wf_mono [OF assms(1)]) (auto simp: pending_def sched_wf_def)
    moreover have "pending v r"
      using assms(2) v by (auto simp: pending_def)
    moreover have "es_key (es_heap v (next_ref s)) = (rs_id (rs_heap v r), rs_index (rs_heap v r))"
      using y len(1) by (simp add: v config_key strlcpy_def MAX_SCHEDULE_NAME_LEN_def MAX_ID_LEN_def)
    moreover have "rs_handle (rs_heap v q) \<noteq> Some (next_ref s)" if "q \<in> set (schedule_list (sched_data v))" for q
      using handle_small [OF assms(1)] that assms(2) by (auto simp: v pending_def)
    ultimately have "sched_wf (snd (esp_rmaker_schedule_add_to_list (Some r) v))"
      using assms(3) by (intro add_to_list_wf [where h = "next_ref s"]) (simp_all add: v)
    then show ?thesis using y by (simp add: esp_rmaker_schedule_operation_add_def add)
  qed
qed

lemma remove_first_split:
  "List.find P xs \<noteq> None \<Longrightarrow> \<exists>ys x zs. xs = ys @ x # zs \<and> remove_first P xs = ys @ zs"
proof (induction xs)
  case (Cons a xs)
  show ?case
  proof (cases "P a")
    case True
    then show ?thesis by (intro exI [of _ "[]"]) auto
  next
    case False
    then obtain ys x zs where "xs = ys @ x # zs" "remove_first P xs = ys @ zs"
      using Cons by auto
    then show ?thesis using False by (intro exI [of _ "a # ys"]) auto
  qed
qed simp

lemma operation_remove_wf:
  assumes "sched_wf s"
  shows "sched_wf (snd (esp_rmaker_schedule_operation_remove r s))"
proof -
  let ?P = "same_id s (rs_id (rs_heap s r))"
  have l: "sched_wf (snd (esp_rmaker_schedule_remove_from_list (Some r) s))"
  proof (cases "List.find ?P (schedule_list (sched_data s)) = None")
    case True
    then show ?thesis using assms by (simp add: esp_rmaker_schedule_remove_from_list_def Let_def)
  next
    case False
    define t where "t = upd_sched_data (\<lambda>d. d\<lparr>schedule_list := remove_first ?P (schedule_list d),
        total_schedules := total_schedules d - 1\<rparr>) s"
    obtain ys x zs where sp: "schedule_list (sched_data s) = ys @ x # zs"
        "remove_first ?P (schedule_list (sched_data s)) = ys @ zs"
      using remove_first_split [OF False] by blast
    obtain d where d: "schedule_priv_data s = Some d" using assms by (auto simp: sched_wf_def)
    have t: "schedule_priv_data t \<noteq> None" "schedule_list (sched_data t) = ys @ zs"
        "total_schedules (sched_data t) = total_schedules (sched_data s) - 1"
        "sched_index (sched_data t) = sched_index (sched_data s)" "rs_heap t = rs_heap s" "es_heap t = es_heap s"
        "next_ref t = next_ref s"
      using d sp by (simp_all add: t_def upd_sched_data_def sched_data_def)
    have "rs_ok t q \<longleftrightarrow> rs_ok s q" for q by (simp add: rs_ok_def t)
    then have "sched_wf t" using assms by (simp add: sched_wf_def t sp(1))
    then show ?thesis
      using False by (auto simp: esp_rmaker_schedule_remove_from_list_def Let_def t_def)
  qed
  have e: "wf_view (snd (esp_rmaker_schedule_remove r u)) = wf_view u" for u :: "'a core_scheme"
    by (simp add: esp_rmaker_schedule_remove_def frame_simps)
  then show ?thesis
    using l by (simp add: esp_rmaker_schedule_operation_remove_def Let_def case_prod_beta sched_wf_cong [OF e])
qed

lemma operation_edit_view:
  assumes "sched_wf s" "r \<in> set (schedule_list (sched_data s))"
  shows "wf_view (snd (esp_rmaker_schedule_operation_edit lc r s)) = wf_view s"
proof -
  let ?c = "esp_rmaker_schedule_prepare_config (rs_heap s r)"
  obtain h where h: "rs_handle (rs_heap s r) = Some h" "es_priv (es_heap s h) = rs_index (rs_heap s r)"
    using assms by (auto simp: sched_wf_def rs_ok_def)
  have set_view: "wf_view (snd (esp_schedule_set h ?c t)) = wf_view t"
    if "es_priv (es_heap t h) = rs_index (rs_heap s r)" for t :: "'a core_scheme"
    using that by (auto simp: esp_schedule_set_def wf_view_def upd_es_def es_key_def config_key(2))
  have "es_priv (es_heap (upd_trigger h f s) h) = rs_index (rs_heap s r)" for f
    using h(2) by (simp add: upd_trigger_def upd_es_def)
  then have "wf_view (snd (esp_schedule_edit (Some h) (Some ?c) s)) = wf_view s"
    using set_view h(2) by (simp add: esp_schedule_edit_def Let_def case_prod_beta frame_simps)
  then show ?thesis
    by (simp add: esp_rmaker_schedule_operation_edit_def Let_def case_prod_beta h(1) frame_simps)
qed

lemma parse_views [frame_simps]:
  "wf_view (snd (esp_rmaker_schedule_parse_action jctx r s)) = wf_view s"
  "wf_view (esp_rmaker_schedule_parse_info_and_flags jctx r s) = wf_view s"
proof -
  show "wf_view (snd (esp_rmaker_schedule_parse_action jctx r s)) = wf_view s"
    by (simp add: esp_rmaker_schedule_parse_action_def Let_def case_prod_beta frame_simps)
  show "wf_view (esp_rmaker_schedule_parse_info_and_flags jctx r s) = wf_view s"
    by (simp add: esp_rmaker_schedule_parse_info_and_flags_def Let_def case_prod_beta frame_simps
        split: option.split)
qed

lemma get_string_or_length:
  assumes "length d \<le> n"
  shows "length (get_string_or d jctx key n) \<le> n"
proof (cases "json_obj_get_string jctx key (int n + 1)")
  case (Some t)
  then obtain k where "json_tok_to_string jctx (tokens jctx ! k) (int n + 1) = Some t"
    by (auto simp: json_obj_get_string_def split: option.splits)
  then have "length t \<le> n" by (auto simp: json_tok_to_string_def substr_def split: if_splits)
  then show ?thesis by (simp add: get_string_or_def Some)
qed (simp add: get_string_or_def assms)

lemma find_or_create_wf:
  assumes "sched_wf s" "i \<noteq> []" "length i \<le> MAX_ID_LEN"
    "esp_rmaker_schedule_find_or_create jctx i op s = (f, t)"
  shows "sched_wf t" "f = Some r \<Longrightarrow> if op = OPERATION_ADD then pending t r else r \<in> set (schedule_list (sched_data t))"
proof -
  let ?found = "esp_rmaker_schedule_get_schedule_from_id i s"
  have add: "sched_wf t \<and> (f = Some r \<longrightarrow> pending t r)" if op: "op = OPERATION_ADD"
  proof (cases "?found \<noteq> None \<or> get_string_or [] jctx ''name'' MAX_NAME_LEN = [] \<or> \<not> fst (alloc s)")
    case True
    then have "f = None \<and> wf_view t = wf_view s"
      using assms(4) op
      by (auto simp: esp_rmaker_schedule_find_or_create_def Let_def case_prod_beta frame_simps split: if_splits)
    then show ?thesis using sched_wf_cong [of t s] assms(1) by simp
  next
    case False
    define u where "u = snd (alloc s)"
    have u: "wf_view u = wf_view s" by (simp add: u_def frame_simps)
    note view = wf_viewD [OF u]
    have wu: "sched_wf u" using sched_wf_cong [OF u] assms(1) by simp
    then obtain d where d: "schedule_priv_data u = Some d" by (auto simp: sched_wf_def)
    define x where "x = rm_sched0\<lparr>rs_id := strlcpy i (MAX_ID_LEN + 1), rs_name :=
        strlcpy (get_string_or [] jctx ''name'' MAX_NAME_LEN) (MAX_NAME_LEN + 1), rs_index := sched_index (sched_data u)\<rparr>"
    have t: "f = Some (next_ref u)" "t = upd_sched_data (\<lambda>d. d\<lparr>sched_index := sched_index d + 1\<rparr>)
        (u\<lparr>next_ref := next_ref u + 1, rs_heap := (rs_heap u)(next_ref u := x)\<rparr>)"
      using False assms(4) op
      by (auto simp: esp_rmaker_schedule_find_or_create_def Let_def case_prod_beta u_def x_def sched_data_def)
    have tf: "schedule_priv_data t \<noteq> None" "schedule_list (sched_data t) = schedule_list (sched_data u)"
        "total_schedules (sched_data t) = total_schedules (sched_data u)"
        "sched_index (sched_data t) = sched_index (sched_data u) + 1" "next_ref t = next_ref u + 1"
        "es_heap t = es_heap u" "rs_heap t = (rs_heap u)(next_ref u := x)"
      using d by (simp_all add: t(2) upd_sched_data_def sched_data_def)
    have small: "q \<in> set (schedule_list (sched_data u)) \<Longrightarrow>
        q < next_ref u \<and> rs_index (rs_heap u q) < sched_index (sched_data u)" for q
      using wu by (simp add: sched_wf_def rs_ok_def)
    have "sched_wf t" by (rule sched_wf_mono [OF wu]) (use small in \<open>auto simp: tf\<close>)
    moreover have "pending t (next_ref u)"
    proof -
      have id: "rs_id x = i" using assms(3) by (simp add: x_def strlcpy_id)
      have "rs_id (rs_heap u q) \<noteq> i" if "q \<in> set (schedule_list (sched_data u))" for q
        using not_found_id [OF assms(1) _ assms(3)] False that view(2,5) by simp
      moreover have "rs_index x = sched_index (sched_data u)" by (simp add: x_def)
      ultimately show ?thesis
        using small assms(2,3) id by (fastforce simp: pending_def tf)
    qed
    ultimately show ?thesis using t(1) by auto
  qed
  have other: "wf_view t = wf_view s \<and> (f = Some r \<longrightarrow> ?found = Some r)" if "op \<noteq> OPERATION_ADD"
    using assms(4) that
    by (auto simp: esp_rmaker_schedule_find_or_create_def Let_def frame_simps split: option.splits if_splits)
  show "sched_wf t"
    using add other sched_wf_cong assms(1) by (cases "op = OPERATION_ADD") auto
  show "f = Some r \<Longrightarrow> if op = OPERATION_ADD then pending t r else r \<in> set (schedule_list (sched_data t))"
    using add other found_id(1) [OF assms(1) _ assms(3)] wf_viewD(2) [of t s] by auto
qed

lemma perform_wf:
  assumes "sched_wf s" "if op = OPERATION_ADD then pending s r else r \<in> set (schedule_list (sched_data s))"
  shows "sched_wf (snd (esp_rmaker_schedule_perform_operation lc r op enabled s))"
proof (cases op)
  case OPERATION_ADD
  have "sched_wf (snd (esp_rmaker_schedule_operation_add r s))"
    if "total_schedules (sched_data s) < MAX_SCHEDULES"
    using operation_add_wf [OF assms(1) _ that] assms(2) OPERATION_ADD by simp
  moreover have "sched_wf (snd (esp_rmaker_schedule_operation_enable lc r t)) \<longleftrightarrow> sched_wf t" for t :: "'a core_scheme"
    by (intro sched_wf_cong view_enable)
  ultimately show ?thesis
    using OPERATION_ADD assms(1) by (simp add: esp_rmaker_schedule_perform_operation_def Let_def case_prod_beta)
next
  case OPERATION_EDIT
  then show ?thesis
    using assms sched_wf_cong [OF operation_edit_view [OF assms(1), of r lc]]
    by (simp add: esp_rmaker_schedule_perform_operation_def)
next
  case OPERATION_REMOVE
  then show ?thesis
    using operation_remove_wf [OF assms(1)] by (simp add: esp_rmaker_schedule_perform_operation_def)
next
  case OPERATION_ENABLE
  then show ?thesis
    using assms(1) by (simp add: esp_rmaker_schedule_perform_operation_def sched_wf_cong [OF view_enable(4)])
next
  case OPERATION_DISABLE
  then show ?thesis
    using assms(1) by (simp add: esp_rmaker_schedule_perform_operation_def sched_wf_cong [OF view_enable(1)])
qed (simp add: esp_rmaker_schedule_perform_operation_def assms(1))

lemma parse_element_wf:
  assumes "parse_element lc src jctx i enabled s = (jctx', i', enabled', t)" "sched_wf s" "length i \<le> MAX_ID_LEN"
  shows "sched_wf t \<and> length i' \<le> MAX_ID_LEN"
proof -
  define j where "j = get_string_or i jctx ''id'' MAX_ID_LEN"
  define op where "op = (if src = ESP_RMAKER_REQ_SRC_INIT then OPERATION_ADD
      else esp_rmaker_schedule_parse_operation jctx j s)"
  have j: "length j \<le> MAX_ID_LEN" using get_string_or_length [OF assms(3)] by (simp add: j_def)
  show ?thesis
  proof (cases "j = [] \<or> op = OPERATION_INVALID")
    case True
    then have "t = s \<and> i' = j"
      using assms(1) by (auto simp: parse_element_def Let_def j_def op_def split: if_splits)
    then show ?thesis using assms(2) j by simp
  next
    case False
    obtain f u where u: "esp_rmaker_schedule_find_or_create jctx j op s = (f, u)" by fastforce
    note foc = find_or_create_wf [OF assms(2) _ j u]
    show ?thesis
    proof (cases f)
      case None
      then have "t = u \<and> i' = j"
        using assms(1) False u unfolding parse_element_def Let_def j_def [symmetric] op_def [symmetric] by simp
      then show ?thesis using foc(1) False j by simp
    next
      case (Some r)
      have *: "\<exists>v e. wf_view v = wf_view u \<and> t = snd (esp_rmaker_schedule_perform_operation lc r op e v) \<and> i' = j"
      proof (cases "op = OPERATION_ADD \<or> op = OPERATION_EDIT")
        case True
        define v1 where "v1 = snd (esp_rmaker_schedule_parse_action jctx r u)"
        define v where "v = esp_rmaker_schedule_parse_info_and_flags
            (fst (esp_rmaker_schedule_parse_trigger jctx (rs_trigger (rs_heap v1 r)))) r
            (upd_rs r (rs_trigger_update (\<lambda>_. snd (esp_rmaker_schedule_parse_trigger jctx (rs_trigger (rs_heap v1 r))))) v1)"
        have "t = snd (esp_rmaker_schedule_perform_operation lc r op
            (if op = OPERATION_ADD then if src = ESP_RMAKER_REQ_SRC_INIT
               then (case json_obj_get_bool jctx ''enabled'' of None \<Rightarrow> enabled | Some b \<Rightarrow> b) else True
             else enabled) v) \<and> i' = j"
          using assms(1) False u Some True
          unfolding parse_element_def Let_def j_def [symmetric] op_def [symmetric] v_def v1_def
          by (auto simp: case_prod_beta)
        moreover have "wf_view v = wf_view u" by (simp add: v_def v1_def frame_simps)
        ultimately show ?thesis by blast
      next
        case F2: False
        then have "t = snd (esp_rmaker_schedule_perform_operation lc r op enabled u) \<and> i' = j"
          using assms(1) False u Some
          unfolding parse_element_def Let_def j_def [symmetric] op_def [symmetric]
          by (auto simp: case_prod_beta)
        then show ?thesis by blast
      qed
      then obtain v e where v: "wf_view v = wf_view u" "t = snd (esp_rmaker_schedule_perform_operation lc r op e v)"
          "i' = j"
        by blast
      have "sched_wf t"
        unfolding v(2)
      proof (rule perform_wf)
        show "sched_wf v" using sched_wf_cong [OF v(1)] foc(1) False by simp
        show "if op = OPERATION_ADD then pending v r else r \<in> set (schedule_list (sched_data v))"
          using foc(2) [OF _ Some] False pending_cong [OF v(1)] wf_viewD(2) [OF v(1)] by (auto split: if_splits)
      qed
      then show ?thesis using v(3) j by simp
    qed
  qed
qed

lemma parse_elements_wf:
  "sched_wf s \<Longrightarrow> length i \<le> MAX_ID_LEN \<Longrightarrow> sched_wf (parse_elements f lc src n jctx i enabled s)"
proof (induction f arbitrary: n jctx i enabled s)
  case (Suc f)
  show ?case
  proof (cases "json_arr_get_object jctx n")
    case (Some ob)
    obtain ob' i' e' t where p: "parse_element lc src ob i enabled s = (ob', i', e', t)"
      by (metis prod_cases4)
    then have "sched_wf t \<and> length i' \<le> MAX_ID_LEN" using parse_element_wf Suc.prems by blast
    then show ?thesis using Suc.IH by (simp add: Some p)
  qed (simp add: Suc.prems)
qed simp

lemma parse_json_wf:
  "sched_wf s \<Longrightarrow> sched_wf (snd (esp_rmaker_schedule_parse_json lc parse data src s))"
  by (simp add: esp_rmaker_schedule_parse_json_def parse_elements_wf split: option.split)

subsection \<open>Whatever runs\<close>

text \<open>A callback that an action may reach keeps the list well formed; \<open>schedule_write_cb\<close>,
  which is one of them, does.\<close>

definition invoke_keeps :: "('a core_scheme) write_fn \<Rightarrow> bool" where
  "invoke_keeps invoke \<longleftrightarrow> (\<forall>cb d p v src s. sched_wf s \<longrightarrow> sched_wf (snd (invoke cb d p v src s)))"

lemma view_update_and_report:
  "wf_view (snd (esp_rmaker_param_update_and_report p v (s :: 'a core_scheme))) = wf_view s"
  by (intro view_more update_and_report_frame(1) next_ref_report)

lemmas wf_same = sched_wf_cong [OF view_env(1)] sched_wf_cong [OF view_report]
  sched_wf_cong [OF view_enable(1)] sched_wf_cong [OF view_enable(2)] sched_wf_cong [OF view_update_and_report]

lemma write_cb_wf: "sched_wf s \<Longrightarrow> sched_wf (snd (schedule_write_cb lc parse d p v src s))"
  by (auto simp: schedule_write_cb_def Let_def case_prod_beta wf_same parse_json_wf split: option.split)

lemma view_read: "wf_view (snd (read_new_val strtof jptr p s)) = wf_view s"
  by (auto simp: read_new_val_def Let_def case_prod_beta frame_simps split: rm_val_type.split option.split)

lemma device_set_params_wf:
  "invoke_keeps invoke \<Longrightarrow> sched_wf s \<Longrightarrow>
     sched_wf (snd (esp_rmaker_device_set_params strtof invoke d ps jptr src s))"
proof (induction ps arbitrary: s)
  case (Cons p ps)
  obtain r u where r: "read_new_val strtof jptr (pheap s p) s = (r, u)" by fastforce
  have u: "sched_wf u" using view_read [of strtof jptr "pheap s p" s] r sched_wf_cong [of u s] Cons.prems(2) by simp
  have w: "sched_wf (if p_type (pheap u p) = Some ESP_RMAKER_PARAM_NAME
      then snd (esp_rmaker_param_update_and_report (Some p) v u)
      else case write_cb (dheap u d) of None \<Rightarrow> u | Some cb \<Rightarrow> snd (invoke cb d p v src u))" for v
    using u Cons.prems(1) by (auto simp: invoke_keeps_def wf_same split: option.split)
  show ?case
    using Cons.IH [OF Cons.prems(1)] u w by (auto simp: r Let_def split: option.split)
qed simp

lemma set_params_wf:
  "invoke_keeps invoke \<Longrightarrow> sched_wf s \<Longrightarrow> sched_wf (set_params_devices strtof invoke ds jctx src s)"
proof (induction ds arbitrary: jctx s)
  case (Cons d ds)
  show ?case
    using Cons.IH [OF Cons.prems(1)] Cons.prems device_set_params_wf [OF Cons.prems]
    by (simp add: Let_def case_prod_beta split: option.split)
qed simp

lemma trigger_work_wf:
  assumes "invoke_keeps invoke" "sched_wf s"
  shows "sched_wf (esp_rmaker_schedule_trigger_work_cb lc parse strtof invoke index s)"
proof -
  have "sched_wf (snd (esp_rmaker_schedule_process_action parse strtof invoke r s))" for r
    using assms by (auto simp: esp_rmaker_schedule_process_action_def esp_rmaker_handle_set_params_def
        wf_same set_params_wf split: option.split)
  then show ?thesis
    using assms(2)
    by (auto simp: esp_rmaker_schedule_trigger_work_cb_def Let_def case_prod_beta wf_same split: option.split)
qed

lemma sync_work_wf:
  assumes "sched_wf s"
  shows "sched_wf (esp_rmaker_schedule_timesync_timer_work_cb lc s)"
proof -
  have "wf_view (enable_if_enabled lc r t) = wf_view t" for r and t :: "'a core_scheme"
    by (simp add: enable_if_enabled_def frame_simps)
  then have "wf_view (fold (enable_if_enabled lc) rs t) = wf_view t" for rs and t :: "'a core_scheme"
    by (induction rs arbitrary: t) simp_all
  then have "wf_view (esp_rmaker_schedule_timesync_timer_work_cb lc s) = wf_view s"
    by (simp add: esp_rmaker_schedule_timesync_timer_work_cb_def esp_rmaker_time_check_def
        esp_rmaker_schedule_timesync_timer_start_def esp_rmaker_schedule_timesync_timer_deinit_def
        sync_timer_call_def Let_def case_prod_beta frame_simps)
  then show ?thesis using sched_wf_cong assms by blast
qed

lemma find_distinct:
  "distinct (map f xs) \<Longrightarrow> x \<in> set xs \<Longrightarrow> List.find (\<lambda>y. f y = f x) xs = Some x"
  by (induction xs) (auto simp: image_iff)

lemma sched_wf_facts:
  assumes "sched_wf s"
  shows "distinct (map (\<lambda>r. rs_id (rs_heap s r)) (schedule_list (sched_data s)))
    \<and> distinct (map (\<lambda>r. rs_handle (rs_heap s r)) (schedule_list (sched_data s)))
    \<and> total_schedules (sched_data s) = int (length (schedule_list (sched_data s)))
    \<and> length (schedule_list (sched_data s)) \<le> 10
    \<and> (\<forall>r \<in> set (schedule_list (sched_data s)). \<exists>h. rs_handle (rs_heap s r) = Some h
         \<and> rs_id (rs_heap s r) \<noteq> [] \<and> es_name (es_heap s h) = rs_id (rs_heap s r)
         \<and> esp_rmaker_schedule_get_schedule_from_index (es_priv (es_heap s h)) s = Some r)"
proof -
  have "\<exists>h. rs_handle (rs_heap s r) = Some h \<and> rs_id (rs_heap s r) \<noteq> []
      \<and> es_name (es_heap s h) = rs_id (rs_heap s r)
      \<and> esp_rmaker_schedule_get_schedule_from_index (es_priv (es_heap s h)) s = Some r"
    if r: "r \<in> set (schedule_list (sched_data s))" for r
  proof -
    have "rs_ok s r" "distinct (map (\<lambda>r. rs_index (rs_heap s r)) (schedule_list (sched_data s)))"
      using assms r by (simp_all add: sched_wf_def)
    then show ?thesis
      using find_distinct [of "\<lambda>r. rs_index (rs_heap s r)" _ r] r
      by (auto simp: rs_ok_def esp_rmaker_schedule_get_schedule_from_index_def)
  qed
  then show ?thesis using assms by (simp add: sched_wf_def MAX_SCHEDULES_def)
qed

inductive sched_reach ::
  "libc \<Rightarrow> (string \<Rightarrow> jparse_ctx option) \<Rightarrow> (string \<Rightarrow> u32 \<times> nat) \<Rightarrow> ('a core_scheme) write_fn
     \<Rightarrow> 'a core_scheme \<Rightarrow> bool" for lc parse strtof invoke where
  sr_start: "schedule_priv_data s = Some sched_priv0 \<Longrightarrow> sched_reach lc parse strtof invoke s"
| sr_write: "sched_reach lc parse strtof invoke s \<Longrightarrow>
    sched_reach lc parse strtof invoke (snd (schedule_write_cb lc parse d p v src s))"
| sr_work: "sched_reach lc parse strtof invoke s \<Longrightarrow>
    sched_reach lc parse strtof invoke (esp_rmaker_schedule_trigger_work_cb lc parse strtof invoke index s)"
| sr_sync: "sched_reach lc parse strtof invoke s \<Longrightarrow>
    sched_reach lc parse strtof invoke (esp_rmaker_schedule_timesync_timer_work_cb lc s)"
| sr_timer: "sched_reach lc parse strtof invoke s \<Longrightarrow>
    sched_reach lc parse strtof invoke (esp_schedule_common_timer_cb lc rm_callbacks timer_id s)"
| sr_other: "sched_reach lc parse strtof invoke s \<Longrightarrow> wf_view t = wf_view s \<Longrightarrow>
    sched_reach lc parse strtof invoke t"

text \<open>C1. The schedules of a node stay consistent, whatever the cloud writes to the service and
  whichever timers and work run, in any order: identifiers are unique, the count is the length of
  the list and never above 10, and every schedule has an object of its own in the engine that
  carries its identifier and its index. So an edit never fails for a name mismatch, and a
  callback finds the schedule it belongs to. The callbacks an action may reach are assumed to
  keep the list; the service's own write callback does.\<close>
theorem schedules_stay_consistent:
  assumes "sched_reach lc parse strtof invoke s" "invoke_keeps invoke"
  shows "distinct (map (\<lambda>r. rs_id (rs_heap s r)) (schedule_list (sched_data s)))
    \<and> distinct (map (\<lambda>r. rs_handle (rs_heap s r)) (schedule_list (sched_data s)))
    \<and> total_schedules (sched_data s) = int (length (schedule_list (sched_data s)))
    \<and> length (schedule_list (sched_data s)) \<le> 10
    \<and> (\<forall>r \<in> set (schedule_list (sched_data s)). \<exists>h. rs_handle (rs_heap s r) = Some h
         \<and> rs_id (rs_heap s r) \<noteq> [] \<and> es_name (es_heap s h) = rs_id (rs_heap s r)
         \<and> esp_rmaker_schedule_get_schedule_from_index (es_priv (es_heap s h)) s = Some r)"
proof -
  have "sched_wf s"
    using assms(1)
  proof (induction rule: sched_reach.induct)
    case (sr_start s)
    then show ?case by (simp add: sched_wf_def sched_data_def sched_priv0_def MAX_SCHEDULES_def)
  next
    case (sr_work s index)
    then show ?case by (intro trigger_work_wf assms(2))
  next
    case (sr_timer s timer_id)
    then show ?case by (simp add: sched_wf_cong [OF view_engine(5)])
  next
    case (sr_other s t)
    then show ?case using sched_wf_cong by blast
  qed (simp_all add: write_cb_wf sync_work_wf)
  then show ?thesis by (rule sched_wf_facts)
qed

subsection \<open>An example\<close>

definition ex_add_json :: string where
  "ex_add_json = ''[{\"id\":\"A\",\"operation\":\"add\",\"name\":\"n\",\"triggers\":[{\"m\":60,\"d\":1}]}]''"

definition ex_add_doc :: jdoc where
  "ex_add_doc = DArr 0 69 [DObj 1 68 [((3, 5), DStr 8 9), ((12, 21), DStr 24 27), ((30, 34), DStr 37 38),
     ((41, 49), DArr 51 67 [DObj 52 66 [((54, 55), DPrim 57 59), ((61, 62), DPrim 64 65)]])]]"

definition ex_at :: "nat \<Rightarrow> jparse_ctx" where
  "ex_at i = \<lparr>js = ex_add_json, tokens = enc (- 1) 0 ex_add_doc, cur = i\<rparr>"

definition ex_parse :: "string \<Rightarrow> jparse_ctx option" where
  "ex_parse t = (if t = ex_add_json then Some (ex_at 0) else None)"

definition ex_service :: core where
  "ex_service = ex_core\<lparr>schedule_priv_data := Some (sched_priv0\<lparr>sync_state := TIME_SYNC_DONE\<rparr>),
     pheap := (pheap ex_core)(3 := (pheap ex_core 3)\<lparr>p_type := Some ''esp.param.schedules''\<rparr>),
     inputs := [1700000000, 1700000000, 1700000000]\<rparr>"

lemma ex_invoke_keeps:
  "invoke_keeps (\<lambda>cb d p v src s. schedule_write_cb (zone 28800) ex_parse d p v src s)"
  by (simp add: invoke_keeps_def write_cb_wf)

theorem schedules_stay_consistent_witness:
  "let s = snd (schedule_write_cb (zone 28800) ex_parse 1 3 (VArr (Some ex_add_json)) ESP_RMAKER_REQ_SRC_CLOUD
        ex_service)
   in distinct (map (\<lambda>r. rs_id (rs_heap s r)) (schedule_list (sched_data s)))
    \<and> length (schedule_list (sched_data s)) \<le> 10"
proof -
  let ?invoke = "\<lambda>cb d p v src s. schedule_write_cb (zone 28800) ex_parse d p v src s"
  have "sched_reach (zone 28800) ex_parse (\<lambda>_. (0, 0)) ?invoke
      (snd (schedule_write_cb (zone 28800) ex_parse 1 3 (VArr (Some ex_add_json)) ESP_RMAKER_REQ_SRC_CLOUD ex_service))"
    by (intro sr_write sr_other [OF sr_start [of "ex_service\<lparr>schedule_priv_data := Some sched_priv0\<rparr>"]])
      (simp_all add: ex_service_def wf_view_def sched_key_def sched_priv0_def)
  from schedules_stay_consistent [OF this ex_invoke_keeps] show ?thesis by (simp add: Let_def)
qed

end
