(* ===== verification/Rm_Schedule_Time.thy ===== *)
theory Rm_Schedule_Time
  imports Rm_Schedule
begin

text \<open>
  When the timer of a schedule goes off: adding an enabled schedule, down to the period given to
  the FreeRTOS timer. The interpretation shows that the callbacks \<open>esp_rmaker_schedule.c\<close>
  registers are what the engine needs of them.
\<close>

interpretation rm_client: timestamp_client rm_callbacks
  by unfold_locales
    (auto simp: rm_callbacks_def esp_rmaker_schedule_timestamp_common_cb_def upd_rs_def
      esp_rmaker_schedule_get_schedule_from_index_def split: option.split)

text \<open>A new schedule, its list not full and the time known.\<close>

definition can_add :: "'a core_scheme \<Rightarrow> nat \<Rightarrow> bool" where
  "can_add s r \<longleftrightarrow>
     schedule_priv_data s \<noteq> None \<and> total_schedules (sched_data s) < MAX_SCHEDULES
     \<and> sync_state (sched_data s) = TIME_SYNC_DONE
     \<and> rs_id (rs_heap s r) \<noteq> [] \<and> length (rs_id (rs_heap s r)) \<le> MAX_ID_LEN
     \<and> esp_rmaker_schedule_get_schedule_from_id (rs_id (rs_heap s r)) s = None"

definition engine_trigger :: "rm_sched \<Rightarrow> esp_trigger" where
  \<comment> \<open>the trigger the engine gets\<close>
  "engine_trigger x = set_trigger (ec_trigger (esp_rmaker_schedule_prepare_config x)) esp_trigger0"

text \<open>The state after the addition and before the timer is started.\<close>

lemma operation_add_trace:
  assumes "can_add s r" "mem_ok s = []"
    "esp_rmaker_schedule_operation_add r s = (err, t)"
  shows "err = ESP_OK" "trace t = trace s @ [Os (XTimerCreate (next_ref s) 1)]" "inputs t = inputs s"
    "rs_handle (rs_heap t r) = Some (next_ref s)"
    "rs_trigger (rs_heap t r) = rs_trigger (rs_heap s r)"
    "es_timer (es_heap t (next_ref s))" "es_trigger (es_heap t (next_ref s)) = engine_trigger (rs_heap s r)"
    "schedule_list (sched_data t) = schedule_list (sched_data s) @ [r]"
    "sync_state (sched_data t) = TIME_SYNC_DONE"
proof -
  let ?x = "rs_heap s r" and ?h = "next_ref s"
  let ?c = "esp_rmaker_schedule_prepare_config ?x"
  obtain d where d: "schedule_priv_data s = Some d" using assms(1) by (auto simp: can_add_def)
  have name: "ec_name ?c \<noteq> []"
    using assms(1) by (simp add: can_add_def esp_rmaker_schedule_prepare_config_def Let_def strlcpy_def
        MAX_SCHEDULE_NAME_LEN_def)
  define e where "e = \<lparr>es_name = strlcpy (ec_name ?c) (MAX_SCHEDULE_NAME_LEN + 1),
      es_trigger = engine_trigger ?x, es_time_diff = 0, es_timer = True, es_trigger_cb = ec_trigger_cb ?c,
      es_timestamp_cb = ec_timestamp_cb ?c, es_priv = ec_priv ?c\<rparr>"
  have create: "esp_schedule_create (Some ?c) s = (Some ?h, emit (Os (XTimerCreate ?h 1))
      (s\<lparr>next_ref := ?h + 1, es_heap := (es_heap s)(?h := e)\<rparr>))"
    using name assms(2)
    by (simp add: esp_schedule_create_def esp_schedule_set_def esp_schedule_create_timer_def Let_def
        upd_es_def alloc_def emit_def esp_sched0_def e_def engine_trigger_def)
  define u where "u = upd_rs r (rs_handle_update (\<lambda>_. Some ?h)) (emit (Os (XTimerCreate ?h 1))
      (s\<lparr>next_ref := ?h + 1, es_heap := (es_heap s)(?h := e)\<rparr>))"
  have u: "esp_rmaker_schedule_add r s = (ESP_OK, u)"
    by (simp add: esp_rmaker_schedule_add_def create u_def)
  have uf: "rs_heap u = (rs_heap s)(r := ?x\<lparr>rs_handle := Some ?h\<rparr>)" "sched_data u = sched_data s"
      "schedule_priv_data u = Some d" "trace u = trace s @ [Os (XTimerCreate ?h 1)]" "inputs u = inputs s"
      "es_heap u = (es_heap s)(?h := e)"
    using d by (simp_all add: u_def upd_rs_def sched_data_def)
  have "same_id u i = same_id s i" for i
    by (auto simp: same_id_def uf fun_eq_iff)
  then have "esp_rmaker_schedule_get_schedule_from_id (rs_id (rs_heap u r)) u = None"
    using assms(1) by (simp add: esp_rmaker_schedule_get_schedule_from_id_def uf can_add_def)
  then have t: "err = ESP_OK \<and> t = upd_sched_data (\<lambda>d. d\<lparr>schedule_list := schedule_list d @ [r],
      total_schedules := total_schedules d + 1\<rparr>) u"
    using assms(3) u by (simp add: esp_rmaker_schedule_operation_add_def esp_rmaker_schedule_add_to_list_def)
  have tf: "rs_heap t = rs_heap u" "es_heap t = es_heap u" "trace t = trace u" "inputs t = inputs u"
      "schedule_list (sched_data t) = schedule_list (sched_data s) @ [r]"
      "sync_state (sched_data t) = sync_state (sched_data s)"
    using t uf(2,3) d by (simp_all add: upd_sched_data_def sched_data_def)
  show "err = ESP_OK" using t by simp
  show "trace t = trace s @ [Os (XTimerCreate ?h 1)]" "inputs t = inputs s"
    "rs_handle (rs_heap t r) = Some ?h" "rs_trigger (rs_heap t r) = rs_trigger (rs_heap s r)"
    "es_timer (es_heap t ?h)" "es_trigger (es_heap t ?h) = engine_trigger ?x"
    "schedule_list (sched_data t) = schedule_list (sched_data s) @ [r]"
    "sync_state (sched_data t) = TIME_SYNC_DONE"
    using assms(1) by (simp_all add: tf uf e_def can_add_def)
qed

text \<open>A schedule that cannot expire yet is enabled in the engine.\<close>

lemma add_enabled:
  assumes "can_add s r" "mem_ok s = []" "inputs s = a # b # c # xs" "SECONDS_TILL_2020 \<le> b"
    "\<not> rm_expired_at lc (rs_trigger (rs_heap s r)) a"
    "next_time_diff lc (engine_trigger (rs_heap s r)) c = (d, n)"
    "esp_rmaker_schedule_perform_operation lc r OPERATION_ADD True s = (err, t)"
  shows "err = ESP_OK"
    "trace t = trace s @ [Os (XTimerCreate (next_ref s) 1), Os (XTimerStop (next_ref s)),
       Os (XTimerChangePeriod (next_ref s) (timer_period d))]"
    "et_next_utc (es_trigger (es_heap t (next_ref s))) = n"
proof -
  let ?h = "next_ref s"
  obtain e u where u: "esp_rmaker_schedule_operation_add r s = (e, u)" by fastforce
  note add = operation_add_trace [OF assms(1,2) u]
  define v where "v = (upd_rs r (rs_enabled_update (\<lambda>_. True)) u)\<lparr>inputs := b # c # xs\<rparr>"
  have en: "esp_rmaker_schedule_operation_enable lc r u = (ESP_OK, esp_schedule_start_timer lc rm_callbacks ?h v)"
    using assms(3,5) add(3-5,9)
    by (simp add: esp_rmaker_schedule_operation_enable_def enable_now_def esp_rmaker_schedule_is_expired_def
        esp_schedule_enable_def Let_def v_def upd_rs_def ask_def sched_data_def)
  have t: "err = ESP_OK \<and> t = esp_schedule_start_timer lc rm_callbacks ?h v"
    using assms(1,7) u en by (auto simp: esp_rmaker_schedule_perform_operation_def can_add_def)
  have v: "inputs v = b # c # xs" "es_heap v = es_heap u" "trace v = trace u"
    by (simp_all add: v_def upd_rs_def)
  note start = rm_client.start_timer [OF v(1) assms(4), of ?h lc d n]
  show "err = ESP_OK" using t by simp
  show "trace t = trace s @ [Os (XTimerCreate ?h 1), Os (XTimerStop ?h), Os (XTimerChangePeriod ?h (timer_period d))]"
    using start(1) add(2,6,7) assms(6) t v by simp
  show "et_next_utc (es_trigger (es_heap t ?h)) = n"
    using start(2) add(6,7) assms(6) t v by simp
qed

lemma minutes_split:
  fixes m :: u16
  assumes "m < 1440"
  shows "uint (word_of_int (uint m div 60) :: u8) = uint m div 60"
    "uint (word_of_int (uint m mod 60) :: u8) = uint m mod 60" "uint m div 60 < 24"
proof -
  have m: "0 \<le> uint m" "uint m < 1440" using assms by (simp_all add: word_less_def)
  show d: "uint m div 60 < 24" using m by (simp add: div_less_iff_less_mult)
  have "0 \<le> uint m div 60" using m by (simp add: pos_imp_zdiv_nonneg_iff)
  then show "uint (word_of_int (uint m div 60) :: u8) = uint m div 60"
    using d by (simp add: uint_word_of_int)
  have "0 \<le> uint m mod 60" "uint m mod 60 < 60" by simp_all
  then show "uint (word_of_int (uint m mod 60) :: u8) = uint m mod 60"
    by (subst uint_word_of_int) (intro mod_pos_pos_trivial; simp)
qed

lemma engine_weekly:
  assumes "rt_type (rs_trigger x) = TRIGGER_TYPE_DAYS_OF_WEEK" "rt_repeat_days (rs_trigger x) \<noteq> 0"
    "rt_repeat_days (rs_trigger x) < 128" "rt_minutes (rs_trigger x) < 1440"
  shows "weekly (engine_trigger x)" "time_of_day (engine_trigger x) = uint (rt_minutes (rs_trigger x)) * 60"
    "et_repeat_days (engine_trigger x) = rt_repeat_days (rs_trigger x)"
proof -
  let ?m = "rt_minutes (rs_trigger x)"
  note m = minutes_split [OF assms(4)]
  have e: "et_type (engine_trigger x) = ESP_SCHEDULE_TYPE_DAYS_OF_WEEK"
    "et_repeat_days (engine_trigger x) = rt_repeat_days (rs_trigger x)"
    "et_hours (engine_trigger x) = word_of_int (uint ?m div 60)"
    "et_minutes (engine_trigger x) = word_of_int (uint ?m mod 60)"
    using assms(1) by (simp_all add: engine_trigger_def esp_rmaker_schedule_prepare_config_def Let_def
        set_trigger_def esp_config0_def)
  show "et_repeat_days (engine_trigger x) = rt_repeat_days (rs_trigger x)" by (rule e)
  show "weekly (engine_trigger x)"
    using assms(2,3) m unfolding weekly_def e word_less_def by simp
  show "time_of_day (engine_trigger x) = uint ?m * 60"
    unfolding time_of_day_def e m using div_mult_mod_eq [of "uint ?m" 60] by linarith
qed

lemma engine_yearly:
  assumes "rt_type (rs_trigger x) = TRIGGER_TYPE_DATE" "rt_repeat_months (rs_trigger x) \<noteq> 0"
    "rt_repeat_months (rs_trigger x) < 4096" "rt_every_year (rs_trigger x)" "1 \<le> rt_day (rs_trigger x)"
    "rt_minutes (rs_trigger x) < 1440"
  shows "yearly (engine_trigger x)" "time_of_day (engine_trigger x) = uint (rt_minutes (rs_trigger x)) * 60"
    "et_repeat_months (engine_trigger x) = rt_repeat_months (rs_trigger x)"
    "et_day (engine_trigger x) = rt_day (rs_trigger x)" "et_year (engine_trigger x) = rt_year (rs_trigger x)"
proof -
  let ?m = "rt_minutes (rs_trigger x)"
  note m = minutes_split [OF assms(6)]
  have e: "et_type (engine_trigger x) = ESP_SCHEDULE_TYPE_DATE"
    "et_repeat_months (engine_trigger x) = rt_repeat_months (rs_trigger x)"
    "et_day (engine_trigger x) = rt_day (rs_trigger x)" "et_year (engine_trigger x) = rt_year (rs_trigger x)"
    "et_every_year (engine_trigger x) = rt_every_year (rs_trigger x)"
    "et_hours (engine_trigger x) = word_of_int (uint ?m div 60)"
    "et_minutes (engine_trigger x) = word_of_int (uint ?m mod 60)"
    using assms(1) by (simp_all add: engine_trigger_def esp_rmaker_schedule_prepare_config_def Let_def
        set_trigger_def esp_config0_def)
  show "et_repeat_months (engine_trigger x) = rt_repeat_months (rs_trigger x)"
    "et_day (engine_trigger x) = rt_day (rs_trigger x)" "et_year (engine_trigger x) = rt_year (rs_trigger x)"
    by (rule e)+
  show "yearly (engine_trigger x)"
    using assms(2-5) m unfolding yearly_def e word_less_def by simp
  show "time_of_day (engine_trigger x) = uint ?m * 60"
    unfolding time_of_day_def e m using div_mult_mod_eq [of "uint ?m" 60] by linarith
qed

text \<open>When a weekly schedule of the node is due, by the local clock: at its minute of the day, on
  a day of the week that it selects (bit 0 is Monday).\<close>

definition due_at :: "rm_trigger \<Rightarrow> int \<Rightarrow> int \<Rightarrow> bool" where
  "due_at tr off t \<longleftrightarrow> (t + off) mod 86400 = uint (rt_minutes tr) * 60
     \<and> bit (rt_repeat_days tr) (weekday ((t + off) div 86400))"

text \<open>C6. A weekly schedule goes off exactly when it should. When a schedule that selects at least
  one day of the week is added while the time is known, its timer is set to go off at the first
  instant after now at which the local clock shows its minute on one of its days: it misses none
  and adds none. The period, at most a week, is exact: neither the product with 1000 nor the
  32-bit difference wraps. The time zone is any fixed offset from UTC.\<close>
theorem weekly_schedule_armed:
  assumes "can_add s r" "mem_ok s = []" "inputs s = a # b # now # xs" "SECONDS_TILL_2020 \<le> b" "0 \<le> now + off"
    and "rt_type (rs_trigger (rs_heap s r)) = TRIGGER_TYPE_DAYS_OF_WEEK"
    "rt_repeat_days (rs_trigger (rs_heap s r)) \<noteq> 0" "rt_repeat_days (rs_trigger (rs_heap s r)) < 128"
    "rt_minutes (rs_trigger (rs_heap s r)) < 1440"
  shows "\<exists>n. trace (snd (esp_rmaker_schedule_perform_operation (zone off) r OPERATION_ADD True s)) =
      trace s @ [Os (XTimerCreate (next_ref s) 1), Os (XTimerStop (next_ref s)),
        Os (XTimerChangePeriod (next_ref s) (1000 * (n - now)))]
    \<and> now < n \<and> n \<le> now + 7 * 24 * 3600 \<and> due_at (rs_trigger (rs_heap s r)) off n
    \<and> (\<forall>t. now < t \<and> t < n \<longrightarrow> \<not> due_at (rs_trigger (rs_heap s r)) off t)"
proof -
  note e = engine_weekly [OF assms(6-9)]
  obtain n where n: "next_time_diff (zone off) (engine_trigger (rs_heap s r)) now = (word_of_int (n - now), n)"
      "now < n" "n \<le> now + 604800" "due_weekly (engine_trigger (rs_heap s r)) off n"
      "\<And>t. now < t \<Longrightarrow> t < n \<Longrightarrow> \<not> due_weekly (engine_trigger (rs_heap s r)) off t"
    using weekly_next [OF e(1) assms(5)] by blast
  have due: "due_weekly (engine_trigger (rs_heap s r)) off = due_at (rs_trigger (rs_heap s r)) off"
    by (simp add: fun_eq_iff due_weekly_def due_at_def e)
  have "\<not> rm_expired_at (zone off) (rs_trigger (rs_heap s r)) a"
    using assms(6,7) by (simp add: rm_expired_at_def Let_def)
  from add_enabled(2) [OF assms(1-4) this n(1) prod.collapse [symmetric]]
  have "trace (snd (esp_rmaker_schedule_perform_operation (zone off) r OPERATION_ADD True s)) =
      trace s @ [Os (XTimerCreate (next_ref s) 1), Os (XTimerStop (next_ref s)),
        Os (XTimerChangePeriod (next_ref s) (1000 * (n - now) mod 2 ^ 32))]"
    unfolding timer_period_mod .
  moreover have "1000 * (n - now) mod 2 ^ 32 = 1000 * (n - now)"
    using n(2,3) by (intro mod_pos_pos_trivial) simp_all
  ultimately show ?thesis using n(2-5) unfolding due by (intro exI [of _ n]) simp
qed

text \<open>C29. A schedule by date that repeats every year waits for the right month, but its timer may
  go off early. The next time it remembers is its time of day on its day of the first selected
  month that is still to come (the current month counts while the day and the time are to come).
  The timer's period, however, is that difference times 1000 modulo \<open>2 ^ 32\<close>: it is exact up to
  4294967 seconds, not quite 50 days, and wrong beyond.\<close>
theorem yearly_schedule_timer:
  assumes "can_add s r" "mem_ok s = []" "inputs s = a # b # now # xs" "SECONDS_TILL_2020 \<le> b" "0 \<le> now + off"
    and "rt_type (rs_trigger (rs_heap s r)) = TRIGGER_TYPE_DATE"
    "rt_repeat_months (rs_trigger (rs_heap s r)) \<noteq> 0" "rt_repeat_months (rs_trigger (rs_heap s r)) < 4096"
    "rt_every_year (rs_trigger (rs_heap s r))" "1 \<le> rt_day (rs_trigger (rs_heap s r))"
    "rt_minutes (rs_trigger (rs_heap s r)) < 1440"
    and "uint (rt_year (rs_trigger (rs_heap s r))) \<le> tm_year (tm_of (now + off)) + 1900"
    "tm_year (tm_of (now + off)) + 1900 < 65536"
    and "esp_rmaker_schedule_perform_operation (zone off) r OPERATION_ADD True s = (err, t)"
  shows "\<exists>n p. et_next_utc (es_trigger (es_heap t (next_ref s))) =
        date_time (engine_trigger (rs_heap s r)) (now + off) n - off
    \<and> n \<le> 12 \<and> date_open (engine_trigger (rs_heap s r)) (now + off) n
    \<and> (\<forall>m < n. \<not> date_open (engine_trigger (rs_heap s r)) (now + off) m)
    \<and> trace t = trace s @ [Os (XTimerCreate (next_ref s) 1), Os (XTimerStop (next_ref s)),
        Os (XTimerChangePeriod (next_ref s) p)]
    \<and> (p = 1000 * (et_next_utc (es_trigger (es_heap t (next_ref s))) - now) \<longleftrightarrow>
        0 \<le> et_next_utc (es_trigger (es_heap t (next_ref s))) - now
        \<and> et_next_utc (es_trigger (es_heap t (next_ref s))) - now \<le> 4294967)"
proof -
  let ?e = "engine_trigger (rs_heap s r)"
  note e = engine_yearly [OF assms(6-11)]
  have y: "uint (et_year ?e) \<le> tm_year (tm_of (now + off)) + 1900" using assms(12) e(5) by simp
  obtain n where n: "next_time_diff (zone off) ?e now =
      (word_of_int (date_time ?e (now + off) n - off - now), date_time ?e (now + off) n - off)"
      "n \<le> 12" "date_open ?e (now + off) n" "\<And>m. m < n \<Longrightarrow> \<not> date_open ?e (now + off) m"
    using date_next [OF e(1) assms(5) y assms(13)] by blast
  have "\<not> rm_expired_at (zone off) (rs_trigger (rs_heap s r)) a"
    using assms(6,7,9) by (simp add: rm_expired_at_def Let_def)
  note armed = add_enabled [OF assms(1-4) this n(1) assms(14)]
  define d where "d = date_time ?e (now + off) n - off - now"
  have "1000 * d mod 2 ^ 32 = 1000 * d \<longleftrightarrow> 0 \<le> d \<and> d \<le> 4294967"
  proof
    assume "1000 * d mod 2 ^ 32 = 1000 * d"
    then have "0 \<le> 1000 * d" "1000 * d < 2 ^ 32"
      by (metis pos_mod_sign zero_less_numeral zero_less_power, metis pos_mod_bound zero_less_numeral zero_less_power)
    then show "0 \<le> d \<and> d \<le> 4294967" by simp
  next
    assume "0 \<le> d \<and> d \<le> 4294967"
    then show "1000 * d mod 2 ^ 32 = 1000 * d" by (intro mod_pos_pos_trivial) simp_all
  qed
  then show ?thesis
    using n(2-4) armed(2,3) unfolding d_def timer_period_mod
    by (intro exI [of _ n] exI [of _ "1000 * (date_time ?e (now + off) n - off - now) mod 2 ^ 32"]) simp
qed

text \<open>A schedule that is to go off once.\<close>

definition one_time :: "esp_trigger \<Rightarrow> bool" where
  "one_time tr \<longleftrightarrow> et_type tr = ESP_SCHEDULE_TYPE_RELATIVE
     \<or> et_type tr = ESP_SCHEDULE_TYPE_DAYS_OF_WEEK \<and> et_repeat_days tr = 0
     \<or> et_type tr = ESP_SCHEDULE_TYPE_DATE \<and> et_repeat_months tr = 0"

text \<open>C30. A one-time schedule fires once. When the timer of a schedule without repetition goes off,
  not before the time it was set for, its action is queued exactly once, with the index that
  finds the schedule, and the timer is not started again.\<close>
theorem one_time_fires_once:
  assumes "one_time (es_trigger (es_heap s h))" "es_trigger_cb (es_heap s h) = Some trigger_cb_name"
    "work s = (q, Some ws)" "length ws < 8" "inputs s = now # xs"
    "0 < et_next_utc (es_trigger (es_heap s h))" "et_next_utc (es_trigger (es_heap s h)) \<le> now"
  shows "work (esp_schedule_common_timer_cb lc rm_callbacks (Some h) s) =
      (q, Some (ws @ [(''esp_rmaker_schedule_trigger_work_cb'', [es_priv (es_heap s h)])]))
    \<and> trace (esp_schedule_common_timer_cb lc rm_callbacks (Some h) s) = trace s"
proof -
  define w where "w = (''esp_rmaker_schedule_trigger_work_cb'', [es_priv (es_heap s h)])"
  have add: "snd (wq_call (WqAdd w) s) = s\<lparr>work := (q, Some (ws @ [w]))\<rparr>"
    using assms(3,4) by (simp add: wq_call_def wq_asks_def Let_def ESP_RMAKER_TASK_QUEUE_SIZE_def)
  have "expired_at lc (es_trigger (es_heap s h)) now"
    using assms(1,6,7) by (auto simp: one_time_def expired_at_def Let_def)
  then have "esp_schedule_common_timer_cb lc rm_callbacks (Some h) s =
      s\<lparr>work := (q, Some (ws @ [w])), inputs := xs\<rparr>"
    using assms(2,5) add
    by (simp add: esp_schedule_common_timer_cb_def rm_callbacks_def esp_rmaker_schedule_trigger_common_cb_def
        esp_schedule_is_expired_def ask_def Let_def w_def)
  then show ?thesis by (simp add: w_def)
qed

subsection \<open>Examples\<close>

text \<open>On 14 November 2023, 22:13:20 UTC, in China: every Monday at 8:00, and every year on
  1 March at 7:30.\<close>

definition ex_weekly :: rm_sched where
  "ex_weekly = rm_sched0\<lparr>rs_id := ''A'', rs_name := ''Wake'', rs_trigger :=
     rm_trigger0\<lparr>rt_type := TRIGGER_TYPE_DAYS_OF_WEEK, rt_minutes := 480, rt_repeat_days := 1\<rparr>\<rparr>"

definition ex_yearly :: rm_sched where
  "ex_yearly = rm_sched0\<lparr>rs_id := ''B'', rs_name := ''Spring'', rs_trigger :=
     rm_trigger0\<lparr>rt_type := TRIGGER_TYPE_DATE, rt_minutes := 450, rt_day := 1, rt_repeat_months := 4,
       rt_every_year := True\<rparr>\<rparr>"

definition ex_sched_core :: "rm_sched \<Rightarrow> core" where
  "ex_sched_core x = ex_core\<lparr>schedule_priv_data := Some (sched_priv0\<lparr>sched_index := 1, sync_state := TIME_SYNC_DONE\<rparr>),
     rs_heap := (\<lambda>_. rm_sched0)(7 := x), next_ref := 8, inputs := [1700000000, 1700000000, 1700000000]\<rparr>"

lemma ex_sched_core_simps:
  "rs_heap (ex_sched_core x) 7 = x" "mem_ok (ex_sched_core x) = []"
  "inputs (ex_sched_core x) = [1700000000, 1700000000, 1700000000]" "next_ref (ex_sched_core x) = 8"
  "rs_id x \<noteq> [] \<Longrightarrow> length (rs_id x) \<le> 8 \<Longrightarrow> can_add (ex_sched_core x) 7"
  by (simp_all add: ex_sched_core_def ex_core_def ex_rm_def rm_init_def rm.defs can_add_def sched_data_def sched_priv0_def
      MAX_SCHEDULES_def MAX_ID_LEN_def esp_rmaker_schedule_get_schedule_from_id_def)

theorem weekly_schedule_armed_witness:
  "\<exists>n. trace (snd (esp_rmaker_schedule_perform_operation (zone 28800) 7 OPERATION_ADD True
        (ex_sched_core ex_weekly))) = trace (ex_sched_core ex_weekly) @
        [Os (XTimerCreate 8 1), Os (XTimerStop 8), Os (XTimerChangePeriod 8 (1000 * (n - 1700000000)))]
    \<and> 1700000000 < n \<and> n \<le> 1700000000 + 7 * 24 * 3600 \<and> due_at (rs_trigger ex_weekly) 28800 n
    \<and> (\<forall>t. 1700000000 < t \<and> t < n \<longrightarrow> \<not> due_at (rs_trigger ex_weekly) 28800 t)"
proof -
  have w: "rt_type (rs_trigger ex_weekly) = TRIGGER_TYPE_DAYS_OF_WEEK" "rt_repeat_days (rs_trigger ex_weekly) = 1"
      "rt_minutes (rs_trigger ex_weekly) = 480" "rs_id ex_weekly = ''A''"
    by (simp_all add: ex_weekly_def)
  show ?thesis
    using weekly_schedule_armed [of "ex_sched_core ex_weekly" 7 1700000000 1700000000 1700000000 "[]" 28800]
      ex_sched_core_simps [of ex_weekly] w by (simp add: SECONDS_TILL_2020_def)
qed

lemma ex_today: "tm_mon (tm_of 1700028800) = 10" "tm_year (tm_of 1700028800) = 123"
  by (simp_all add: tm_of_def find_year.simps year_days_def leap_def month_days_def Let_def)

lemma ex_march: "n \<le> 12 \<Longrightarrow> bit (4 :: u16) ((10 + n) mod 12) \<Longrightarrow> n = 4"
proof -
  have "\<forall>n \<in> set [0..<13]. bit (4 :: u16) ((10 + n) mod 12) \<longrightarrow> n = 4" by (simp add: upt_rec)
  then show "n \<le> 12 \<Longrightarrow> bit (4 :: u16) ((10 + n) mod 12) \<Longrightarrow> n = 4" by simp
qed

text \<open>The timer of the yearly schedule is set to go off after some 7 days instead of 107.\<close>

theorem yearly_schedule_timer_witness:
  "\<exists>p. trace (snd (esp_rmaker_schedule_perform_operation (zone 28800) 7 OPERATION_ADD True
        (ex_sched_core ex_yearly))) = trace (ex_sched_core ex_yearly) @
        [Os (XTimerCreate 8 1), Os (XTimerStop 8), Os (XTimerChangePeriod 8 p)]
    \<and> p \<noteq> 1000 * (1709249400 - 1700000000)"
proof -
  let ?s = "ex_sched_core ex_yearly" and ?e = "engine_trigger ex_yearly"
  let ?t = "snd (esp_rmaker_schedule_perform_operation (zone 28800) 7 OPERATION_ADD True ?s)"
  have w: "rt_type (rs_trigger ex_yearly) = TRIGGER_TYPE_DATE" "rt_repeat_months (rs_trigger ex_yearly) = 4"
      "rt_every_year (rs_trigger ex_yearly)" "rt_day (rs_trigger ex_yearly) = 1"
      "rt_minutes (rs_trigger ex_yearly) = 450" "rt_year (rs_trigger ex_yearly) = 0" "rs_id ex_yearly = ''B''"
    by (simp_all add: ex_yearly_def rm_trigger0_def)
  have c: "can_add ?s 7" "mem_ok ?s = []" "inputs ?s = [1700000000, 1700000000, 1700000000]"
      "next_ref ?s = 8" "rs_heap ?s 7 = ex_yearly"
    using ex_sched_core_simps [of ex_yearly] w(7) by simp_all
  have h: "SECONDS_TILL_2020 \<le> 1700000000" "0 \<le> 1700000000 + (28800 :: int)"
      "rt_repeat_months (rs_trigger ex_yearly) \<noteq> 0" "rt_repeat_months (rs_trigger ex_yearly) < 4096"
      "1 \<le> rt_day (rs_trigger ex_yearly)" "rt_minutes (rs_trigger ex_yearly) < 1440"
      "uint (rt_year (rs_trigger ex_yearly)) \<le> tm_year (tm_of (1700000000 + 28800)) + 1900"
      "tm_year (tm_of (1700000000 + 28800)) + 1900 < 65536"
    using ex_today by (simp_all add: SECONDS_TILL_2020_def w)
  obtain n p where n: "et_next_utc (es_trigger (es_heap ?t 8)) = date_time ?e (1700000000 + 28800) n - 28800"
      "n \<le> 12" "date_open ?e (1700000000 + 28800) n"
    and p: "trace ?t = trace ?s @ [Os (XTimerCreate 8 1), Os (XTimerStop 8), Os (XTimerChangePeriod 8 p)]"
      "p = 1000 * (et_next_utc (es_trigger (es_heap ?t 8)) - 1700000000) \<longleftrightarrow>
        0 \<le> et_next_utc (es_trigger (es_heap ?t 8)) - 1700000000
        \<and> et_next_utc (es_trigger (es_heap ?t 8)) - 1700000000 \<le> 4294967"
    using yearly_schedule_timer [of ?s 7, unfolded c(4,5), OF c(1-3) h(1,2) w(1) h(3,4) w(3) h(5-8)
        prod.collapse [symmetric]] by blast
  note e = engine_yearly [OF w(1) h(3,4) w(3) h(5,6)]
  have "bit (4 :: u16) ((10 + n) mod 12)" using n(3) by (simp add: date_open_def ex_today e(3) w(2))
  then have "n = 4" using n(2) ex_march by blast
  then have "et_next_utc (es_trigger (es_heap ?t 8)) = 1709249400"
    by (simp add: n(1) date_time_def e(2,4) w ex_today day_number_def days_before_year_def month_days_def leap_def)
  then show ?thesis using p by (intro exI [of _ p]) simp
qed

theorem one_time_fires_once_witness:
  "work (esp_schedule_common_timer_cb (zone 28800) rm_callbacks (Some 8)
     ((ex_sched_core ex_weekly)\<lparr>es_heap := (\<lambda>_. esp_sched0)(8 := esp_sched0\<lparr>es_trigger :=
        esp_trigger0\<lparr>et_type := ESP_SCHEDULE_TYPE_RELATIVE, et_next_utc := 1700000000\<rparr>,
        es_trigger_cb := Some trigger_cb_name, es_priv := 5\<rparr>)\<rparr>)) =
   (WORK_QUEUE_STATE_RUNNING, Some [(''esp_rmaker_schedule_trigger_work_cb'', [5])])"
proof -
  let ?s = "(ex_sched_core ex_weekly)\<lparr>es_heap := (\<lambda>_. esp_sched0)(8 := esp_sched0\<lparr>es_trigger :=
        esp_trigger0\<lparr>et_type := ESP_SCHEDULE_TYPE_RELATIVE, et_next_utc := 1700000000\<rparr>,
        es_trigger_cb := Some trigger_cb_name, es_priv := 5\<rparr>)\<rparr>"
  have w: "work ?s = (WORK_QUEUE_STATE_RUNNING, Some [])"
    by (simp add: ex_sched_core_def ex_core_def rm.defs)
  then show ?thesis
    using one_time_fires_once [of ?s 8 WORK_QUEUE_STATE_RUNNING "[]" 1700000000 "[1700000000, 1700000000]" "zone 28800"]
      ex_sched_core_simps(3) by (simp add: one_time_def)
qed

end
