(* ===== verification/Rm_Schedule_Json.thy ===== *)
theory Rm_Schedule_Json
  imports Rm_Schedule Rm_Node_Config
begin

text \<open>
  The document the node reports for its schedules, against a reference: the tree
  \<open>schedules_doc\<close> and its compact print.
\<close>

definition int_member :: "string \<Rightarrow> int \<Rightarrow> string \<times> jtree" where
  "int_member k i = (k, JLit (int_txt i))"

definition trigger_members :: "rm_trigger \<Rightarrow> (string \<times> jtree) list" where
  "trigger_members tr =
     (case rt_type tr of
        TRIGGER_TYPE_RELATIVE \<Rightarrow>
          [int_member ''rsec'' (uint (rt_relative_seconds tr)), int_member ''ts'' (int_of_int64 (rt_next tr))]
      | TRIGGER_TYPE_DAYS_OF_WEEK \<Rightarrow>
          [int_member ''m'' (uint (rt_minutes tr)), int_member ''d'' (uint (rt_repeat_days tr))]
          @ (if rt_repeat_days tr = 0 then [int_member ''ts'' (int_of_int64 (rt_next tr))] else [])
      | TRIGGER_TYPE_DATE \<Rightarrow>
          [int_member ''m'' (uint (rt_minutes tr)), int_member ''dd'' (uint (rt_day tr)),
           int_member ''mm'' (uint (rt_repeat_months tr)), int_member ''yy'' (uint (rt_year tr)),
           int_member ''r'' (if rt_every_year tr then 1 else 0)]
          @ (if rt_repeat_months tr = 0 then [int_member ''ts'' (int_of_int64 (rt_next tr))] else [])
      | TRIGGER_TYPE_INVALID \<Rightarrow> [int_member ''m'' (uint (rt_minutes tr))])"

definition sched_doc :: "rm_sched \<Rightarrow> jtree" where
  "sched_doc r = JObj ([(''name'', lit (Some (rs_name r))), (''id'', lit (Some (rs_id r))),
       (''enabled'', JLit (bool_txt (rs_enabled r)))]
     @ (if rs_info r \<noteq> None then [(''info'', lit (rs_info r))] else [])
     @ (if rs_flags r \<noteq> 0 then [int_member ''flags'' (sint (rs_flags r))] else [])
     @ [(''action'', JLit (str_opt (rs_action r))),
        (''triggers'', JArr [JObj (trigger_members (rs_trigger r))])])"

definition schedules_doc :: "'a core_scheme \<Rightarrow> jtree" where
  "schedules_doc s = JArr (map (\<lambda>r. sched_doc (rs_heap s r)) (schedule_list (sched_data s)))"

named_theorems sched_rules \<open>what the operations add to the current object\<close>

lemma set_in [sched_rules]:
  "snd (json_gen_obj_set_int k i (json_in cap T ms)) = json_in cap T (ms @ [int_member k i])"
  "snd (json_gen_obj_set_bool k b (json_in cap T ms)) = json_in cap T (ms @ [(k, JLit (bool_txt b))])"
  "snd (json_gen_obj_set_string k v (json_in cap T ms)) = json_in cap T (ms @ [(k, lit v)])"
  "snd (json_gen_push_object_str k v (json_in cap T ms)) = json_in cap T (ms @ [(k, JLit (str_opt v))])"
  by (simp_all add: json_in_def json_rules joined_snoc member_txt_def int_member_def
      json_gen_push_object_str_def json_of_add)

lemma trigger_in [sched_rules]:
  "trigger_json tr (json_in cap T ms) = json_in cap T (ms @ trigger_members tr)"
  by (cases "rt_type tr") (simp_all add: trigger_json_def trigger_members_def Let_def sched_rules)

lemma schedule_in: "schedule_json r (json_arr cap T vs) = json_arr cap T (vs @ [sched_doc r])"
  by (simp add: schedule_json_def Let_def sched_rules doc_rules sched_doc_def)

lemma schedule_get_params_eq:
  "schedule_get_params (cap \<noteq> None) (case cap of None \<Rightarrow> 0 | Some n \<Rightarrow> int n + 1) s =
     (let T = jprint (schedules_doc s)
      in (if json_rc cap T < 0 then ESP_ERR_NO_MEM else ESP_OK, int (length T) + 1,
          map_option (\<lambda>n. take n T) cap))"
proof -
  let ?L = "schedule_list (sched_data s)" and ?T = "jprint (schedules_doc s)"
  have start: "snd (json_gen_start_array (json_gen_str_start (cap \<noteq> None)
      (case cap of None \<Rightarrow> 0 | Some n \<Rightarrow> int n + 1) False)) = json_arr cap ''['' []"
    by (cases cap) (simp_all add: json_rules json_arr_def comma_txt_def)
  have loop: "fold (\<lambda>r. schedule_json (rs_heap s r)) ?L (json_arr cap ''['' [])
      = json_arr cap ''['' (map (\<lambda>r. sched_doc (rs_heap s r)) ?L)"
    using fold_arr [of "\<lambda>r. schedule_json (rs_heap s r)" cap "''[''" "\<lambda>r. sched_doc (rs_heap s r)" ?L "[]"]
    by (simp add: schedule_in)
  have fin: "json_gen_end_array (json_arr cap ''['' (map (\<lambda>r. sched_doc (rs_heap s r)) ?L))
      = (json_rc cap ?T, json_of cap ?T True)"
    by (simp add: json_arr_def json_rules schedules_doc_def)
  show ?thesis
    unfolding schedule_get_params_def Let_def start loop fin
    by (cases cap) (simp_all add: json_rules Let_def)
qed

lemma schedule_params_text:
  "esp_rmaker_schedule_get_params s =
     (if fst (alloc s) then Some (jprint (schedules_doc s)) else None, snd (alloc s))"
proof -
  let ?T = "jprint (schedules_doc s)"
  have same: "schedules_doc (snd (alloc s)) = schedules_doc s"
    by (simp add: schedules_doc_def sched_data_def)
  have "schedule_get_params False 0 s = (ESP_OK, int (length ?T) + 1, None)"
    using schedule_get_params_eq [of None s] by (simp add: json_rc_def Let_def)
  moreover have "schedule_get_params True (int (length ?T) + 1) (snd (alloc s)) = (ESP_OK, int (length ?T) + 1, Some ?T)"
    using schedule_get_params_eq [of "Some (length ?T)" "snd (alloc s)"] by (simp add: json_rc_def Let_def same)
  ultimately show ?thesis
    by (simp add: esp_rmaker_schedule_get_params_def case_prod_beta)
qed

text \<open>C28. The node reports its schedules as they are. The document built by the two passes of
  \<open>esp_rmaker_schedule_get_params\<close> is the print of the reference tree, however long it is: every
  schedule in the order of the list, with its trigger's members by type. The buffer of the second
  pass is exactly as long as the first pass computes; only a failed allocation gives none. (A
  schedule that was added without an action is printed with an \<open>action\<close> member that has no
  value, which is not a JSON text.)\<close>
theorem schedules_reported:
  "esp_rmaker_schedule_get_params s =
     (if fst (alloc s) then Some (jprint (schedules_doc s)) else None, snd (alloc s))"
  by (rule schedule_params_text)

text \<open>The member without a value, in the text.\<close>

lemma action_without_value:
  assumes "rs_action r = None"
  shows "\<exists>us vs. jprint (sched_doc r) = us @ name_txt ''action'' @ '','' @ name_txt ''triggers'' @ vs"
proof -
  define ms where "ms = [(''name'', lit (Some (rs_name r))), (''id'', lit (Some (rs_id r))),
       (''enabled'', JLit (bool_txt (rs_enabled r)))]
     @ (if rs_info r \<noteq> None then [(''info'', lit (rs_info r))] else [])
     @ (if rs_flags r \<noteq> 0 then [int_member ''flags'' (sint (rs_flags r))] else [])"
  have d: "sched_doc r = JObj (ms @ [(''action'', JLit []), (''triggers'', JArr [JObj (trigger_members (rs_trigger r))])])"
    by (simp add: sched_doc_def ms_def assms)
  have "ms \<noteq> []" by (simp add: ms_def)
  then have "joined (map member_txt (ms @ [(''action'', JLit []), (''triggers'', v)])) =
      joined (map member_txt ms) @ '','' @ name_txt ''action'' @ '','' @ name_txt ''triggers'' @ jprint v" for v
    by (simp add: joined_append member_txt_def comma_txt_def) (simp add: joined_def)
  then show ?thesis
    unfolding d jprint_JObj
    by (intro exI [of _ "''{'' @ joined (map member_txt ms) @ '',''"] exI) simp
qed

end
