(* ===== verification/Rm_Ota.thy ===== *)
theory Rm_Ota
  imports Rm_Core
begin

text \<open>
  Firmware updates over the air: \<open>esp_rmaker_ota.c\<close> and both ways a request can arrive,
  \<open>esp_rmaker_ota_using_params.c\<close> and \<open>esp_rmaker_ota_using_topics.c\<close>. At most one
  \<open>esp_rmaker_ota_t\<close> is alive (\<open>ota_init_done\<close>), so the object is the field \<open>ota\<close> of the state
  and a pointer to it is not \<open>NULL\<close> while the field is set.

  The functions of the SDK's OTA library are effects with answers. The descriptions of the
  running and of the received image, \<open>esp_err_to_name\<close>, the application's OTA callbacks and the
  JSON tokenizer are arguments of the model. Rollback is off; autofetch is on with the period 0,
  so its timer is never created.
\<close>

record ota_env =
  running_desc :: "string \<times> string"
    \<comment> \<open>version and project name in \<open>running_app_info\<close>; if its description cannot be read, what was on the stack\<close>
  img_desc :: "string \<times> string" \<comment> \<open>of the received image\<close>
  err_name :: "int \<Rightarrow> string"

definition OTA_REBOOT_TIMER_SEC :: int where "OTA_REBOOT_TIMER_SEC = 10"
definition DEF_HTTP_TX_BUFFER_SIZE :: int where "DEF_HTTP_TX_BUFFER_SIZE = 1024"

abbreviation (input) ESP_ERR_HTTPS_OTA_IN_PROGRESS :: esp_err where
  "ESP_ERR_HTTPS_OTA_IN_PROGRESS \<equiv> 36865"

abbreviation (input) ESP_ERR_OTA_VALIDATE_FAILED :: esp_err where
  "ESP_ERR_OTA_VALIDATE_FAILED \<equiv> 5379"

definition upd_ota :: "(rm_ota \<Rightarrow> rm_ota) \<Rightarrow> 'a core_scheme \<Rightarrow> 'a core_scheme" where
  "upd_ota f s = s\<lparr>ota := map_option f (ota s)\<rparr>"

fun esp_rmaker_ota_status_to_string :: "ota_status \<Rightarrow> string" where
  "esp_rmaker_ota_status_to_string OTA_STATUS_IN_PROGRESS = ''in-progress''"
| "esp_rmaker_ota_status_to_string OTA_STATUS_SUCCESS = ''success''"
| "esp_rmaker_ota_status_to_string OTA_STATUS_FAILED = ''failed''"
| "esp_rmaker_ota_status_to_string OTA_STATUS_DELAYED = ''delayed''"

subsection \<open>Reporting\<close>

text \<open>A parameter of the service without a type would be read through a \<open>NULL\<close> pointer.\<close>

definition esp_rmaker_ota_report_status_using_params ::
  "ota_status \<Rightarrow> string \<Rightarrow> 'a core_scheme \<Rightarrow> esp_err \<times> 'a core_scheme" where
  "esp_rmaker_ota_report_status_using_params status info s =
     (case ota s of None \<Rightarrow> (ESP_FAIL, s)
      | Some ob \<Rightarrow>
          let device = (case transient_priv ob of Some (OtaService d) \<Rightarrow> Some d | _ \<Rightarrow> None)
          in case (esp_rmaker_device_get_param_by_type device (Some ''esp.param.ota_info'') s,
                   esp_rmaker_device_get_param_by_type device (Some ''esp.param.ota_status'') s) of
               (Some info_param, Some status_param) \<Rightarrow>
                 let (_, s) = esp_rmaker_param_update_and_report info_param (esp_rmaker_str (Some info)) s;
                     (_, s) = esp_rmaker_param_update_and_report status_param
                       (esp_rmaker_str (Some (esp_rmaker_ota_status_to_string status))) s
                 in (ESP_OK, s)
             | _ \<Rightarrow> (ESP_FAIL, emit (Os Abort) s))"

definition ota_status_payload :: "rm_ota \<Rightarrow> ota_status \<Rightarrow> string \<Rightarrow> string" where
  \<comment> \<open>what is left in \<open>publish_payload[200]\<close>\<close>
  "ota_status_payload ob status info =
     (let j = json_gen_str_start True 200 False;
          j = snd (json_gen_start_object j);
          j = (case transient_priv ob of Some (OtaJob i) \<Rightarrow> set_str ''ota_job_id'' (Some i) j | _ \<Rightarrow> j);
          j = set_str ''status'' (Some (esp_rmaker_ota_status_to_string status)) j;
          j = set_str ''additional_info'' (Some info) j;
          j = snd (json_gen_end_object j);
          (_, txt, _) = json_gen_str_end j
      in str_opt txt)"

definition esp_rmaker_ota_report_status_using_topics ::
  "ota_status \<Rightarrow> string \<Rightarrow> 'a core_scheme \<Rightarrow> esp_err \<times> 'a core_scheme" where
  "esp_rmaker_ota_report_status_using_topics status info s =
     (case ota s of None \<Rightarrow> (ESP_FAIL, s)
      | Some ob \<Rightarrow>
          let (err, s) = esp_rmaker_mqtt_publish (node_topic 100 ''otastatus'' s)
                           (ota_status_payload ob status info) s
          in (if err \<noteq> ESP_OK then ESP_FAIL else ESP_OK, s))"

definition esp_rmaker_ota_report_status ::
  "ota_status \<Rightarrow> string \<Rightarrow> 'a core_scheme \<Rightarrow> esp_err \<times> 'a core_scheme" where
  "esp_rmaker_ota_report_status status info s =
     (case ota s of None \<Rightarrow> (ESP_FAIL, s)
      | Some ob \<Rightarrow>
          let (err, s) = (case ota_type ob of
                OTA_USING_PARAMS \<Rightarrow> esp_rmaker_ota_report_status_using_params status info s
              | OTA_USING_TOPICS \<Rightarrow> esp_rmaker_ota_report_status_using_topics status info s)
          in (err, if err = ESP_OK then upd_ota (last_reported_status_update (\<lambda>_. Some status)) s else s))"

subsection \<open>The download\<close>

definition validate_image_header :: "ota_env \<Rightarrow> 'a core_scheme \<Rightarrow> esp_err \<times> 'a core_scheme" where
  \<comment> \<open>the pairs hold whole arrays, as \<open>memcmp\<close> compares them\<close>
  "validate_image_header env s =
     (let s = emit (Net (OtaCall ''esp_ota_get_partition_description'')) s
      in if fst (img_desc env) = fst (running_desc env) then
           (ESP_FAIL, snd (esp_rmaker_ota_report_status OTA_STATUS_FAILED ''Same version received'' s))
         else if snd (img_desc env) \<noteq> snd (running_desc env) then
           (ESP_FAIL, snd (esp_rmaker_ota_report_status OTA_STATUS_FAILED ''Project Name mismatch'' s))
         else (ESP_OK, s))"

text \<open>
  The loop over \<open>esp_https_ota_perform\<close>. It goes on as long as the library answers that it is in
  progress; a stream of answers that ends, ends it.
\<close>

function ota_perform :: "'a core_scheme \<Rightarrow> esp_err \<times> 'a core_scheme" where
  "ota_perform s =
     (let (err, t) = call (Net (OtaCall ''esp_https_ota_perform'')) s
      in if err = ESP_ERR_HTTPS_OTA_IN_PROGRESS then ota_perform t else (err, t))"
  by pat_completeness auto
termination
proof (relation "measure (\<lambda>s. length (inputs s))")
  show "wf (measure (\<lambda>s. length (inputs s)))" by simp
  fix s :: "'a core_scheme" and x err t
  assume "x = call (Net (OtaCall ''esp_https_ota_perform'')) s" "(err, t) = x"
    "err = ESP_ERR_HTTPS_OTA_IN_PROGRESS"
  then show "(t, s) \<in> measure (\<lambda>s. length (inputs s))"
    by (auto simp: call_def ask_def split: list.splits)
qed

declare ota_perform.simps [simp del]

text \<open>From the description of the image up to the label \<open>ota_end\<close>.\<close>

definition ota_transfer :: "ota_env \<Rightarrow> 'a core_scheme \<Rightarrow> esp_err \<times> 'a core_scheme" where
  "ota_transfer env s =
     (let (err, s) = call (Net (OtaCall ''esp_https_ota_get_img_desc'')) s
      in if err \<noteq> ESP_OK then
           (err, snd (esp_rmaker_ota_report_status OTA_STATUS_FAILED ''Failed to read image decription'' s))
         else
           let (err, s) = validate_image_header env s
           in if err \<noteq> ESP_OK then (err, s)
              else
                let (_, s) = esp_rmaker_ota_report_status OTA_STATUS_IN_PROGRESS
                               ''Downloading Firmware Image'' s;
                    (err, s) = ota_perform s;
                    s = (if err \<noteq> ESP_OK then
                           snd (esp_rmaker_ota_report_status OTA_STATUS_FAILED
                             (snprintf 40 (''OTA failed: Error '' @ err_name env err)) s)
                         else s);
                    (received, s) = call (Net (OtaCall ''esp_https_ota_is_complete_data_received'')) s
                in (err, if received = 0 then s
                         else snd (esp_rmaker_ota_report_status OTA_STATUS_IN_PROGRESS
                           ''Firmware Image download complete'' s)))"

abbreviation set_ps :: "int \<Rightarrow> effect" where
  "set_ps ps \<equiv> Net (WifiCall ''esp_wifi_set_ps'' [ps])"

definition esp_rmaker_ota_default_cb ::
  "ota_env \<Rightarrow> string option \<Rightarrow> 'a core_scheme \<Rightarrow> esp_err \<times> 'a core_scheme" where
  "esp_rmaker_ota_default_cb env url s =
     (case url of None \<Rightarrow> (ESP_FAIL, s)
      | Some u \<Rightarrow>
          let buffer_size_tx = (if DEF_HTTP_TX_BUFFER_SIZE < int (length u) then int (length u) + 128
                                else DEF_HTTP_TX_BUFFER_SIZE);
              (_, s) = esp_rmaker_ota_report_status OTA_STATUS_IN_PROGRESS ''Starting OTA Upgrade'' s;
              (err, s) = call (Net (OtaBegin u buffer_size_tx)) s
          in if err \<noteq> ESP_OK then
               (ESP_FAIL, snd (esp_rmaker_ota_report_status OTA_STATUS_FAILED
                  ''ESP HTTPS OTA Begin failed'' s))
             else
               let (ps_type, s) = call (Net (WifiCall ''esp_wifi_get_ps'' [])) s;
                   (err, s) = ota_transfer env (emit (set_ps 0) s);
                   (ota_finish_err, s) = call (Net (OtaCall ''esp_https_ota_finish'')) (emit (set_ps ps_type) s)
               in if err = ESP_OK \<and> ota_finish_err = ESP_OK then
                    let (_, s) = esp_rmaker_ota_report_status OTA_STATUS_SUCCESS
                                   ''OTA Upgrade finished successfully'' s
                    in (ESP_OK, snd (esp_rmaker_reboot OTA_REBOOT_TIMER_SEC s))
                  else
                    (ESP_FAIL, if ota_finish_err = ESP_ERR_OTA_VALIDATE_FAILED then
                       snd (esp_rmaker_ota_report_status OTA_STATUS_FAILED ''Image validation failed'' s)
                     else s))"

subsection \<open>Requests\<close>

definition esp_rmaker_ota_finish_using_params :: "'a core_scheme \<Rightarrow> 'a core_scheme" where
  "esp_rmaker_ota_finish_using_params =
     upd_ota (\<lambda>ob. ob\<lparr>ota_url := None, ota_filesize := 0, transient_priv := None, ota_in_progress := False\<rparr>)"

definition esp_rmaker_ota_finish_using_topics :: "'a core_scheme \<Rightarrow> 'a core_scheme" where
  "esp_rmaker_ota_finish_using_topics =
     upd_ota (\<lambda>ob. ob\<lparr>ota_url := None, ota_filesize := 0, transient_priv := None, ota_in_progress := False\<rparr>)"

text \<open>The callback is found by its name; \<open>app_cb\<close> stands for the callbacks of the application.\<close>

definition run_ota_cb ::
  "ota_env \<Rightarrow> (string \<Rightarrow> 'a core_scheme \<Rightarrow> 'a core_scheme) \<Rightarrow> rm_ota \<Rightarrow> 'a core_scheme \<Rightarrow> 'a core_scheme" where
  "run_ota_cb env app_cb ob s =
     (if ota_cb ob = ''esp_rmaker_ota_default_cb'' then snd (esp_rmaker_ota_default_cb env (ota_url ob) s)
      else app_cb (ota_cb ob) s)"

definition esp_rmaker_ota_common_cb ::
  "ota_env \<Rightarrow> (string \<Rightarrow> 'a core_scheme \<Rightarrow> 'a core_scheme) \<Rightarrow> 'a core_scheme \<Rightarrow> 'a core_scheme" where
  "esp_rmaker_ota_common_cb env app_cb s =
     (case ota s of None \<Rightarrow> s
      | Some ob \<Rightarrow>
          let s = (if ota_url ob = None then s else run_ota_cb env app_cb ob s)
          in case ota_type ob of
               OTA_USING_PARAMS \<Rightarrow> esp_rmaker_ota_finish_using_params s
             | OTA_USING_TOPICS \<Rightarrow> esp_rmaker_ota_finish_using_topics s)"

abbreviation ota_work :: work where
  "ota_work \<equiv> (''esp_rmaker_ota_common_cb'', [])"

text \<open>The write callback of the service; a string value may be \<open>NULL\<close>, which \<open>strdup\<close> reads.\<close>

definition esp_rmaker_ota_service_cb ::
  "nat \<Rightarrow> nat \<Rightarrow> param_val \<Rightarrow> req_src \<Rightarrow> 'a core_scheme \<Rightarrow> esp_err \<times> 'a core_scheme" where
  "esp_rmaker_ota_service_cb device param val src s =
     (case ota s of None \<Rightarrow> (ESP_FAIL, s)
      | Some ob \<Rightarrow>
          if ota_in_progress ob then (ESP_FAIL, s)
          else case esp_rmaker_param_get_type (Some param) s of
            None \<Rightarrow> (ESP_FAIL, emit (Os Abort) s)
          | Some ty \<Rightarrow>
              if ty \<noteq> ''esp.param.ota_url'' then (ESP_FAIL, s)
              else
                let s = upd_ota (ota_url_update (\<lambda>_. None)) s
                in case val_str val of
                     None \<Rightarrow> (ESP_FAIL, emit (Os Abort) s)
                   | Some u \<Rightarrow>
                       let (ok, s) = alloc s
                       in if \<not> ok then (ESP_FAIL, s)
                          else
                            let s = upd_ota (\<lambda>ob. ob\<lparr>ota_url := Some u, ota_filesize := 0,
                                      ota_in_progress := True, transient_priv := Some (OtaService device)\<rparr>) s;
                                (err, s) = wq_call (WqAdd ota_work) s
                            in if err \<noteq> ESP_OK then (ESP_FAIL, esp_rmaker_ota_finish_using_params s)
                               else (ESP_OK, s))"

definition esp_rmaker_ota_enable_using_params ::
  "('a core_scheme) write_fn \<Rightarrow> 'a core_scheme \<Rightarrow> esp_err \<times> 'a core_scheme" where
  "esp_rmaker_ota_enable_using_params invoke s =
     (let (service, s) = esp_rmaker_ota_service_create invoke (Some ''OTA'') [] s
      in if service = None then (ESP_FAIL, s)
         else
           let (_, s) = esp_rmaker_device_add_cb service (Some ''esp_rmaker_ota_service_cb'') None s
           in esp_rmaker_node_add_device (esp_rmaker_get_node s) service s)"

text \<open>The handler of the topic. A failure before the work is queued is reported.\<close>

definition ota_give_up :: "string \<Rightarrow> 'a core_scheme \<Rightarrow> 'a core_scheme" where
  \<comment> \<open>a failed report and the label \<open>end\<close>\<close>
  "ota_give_up info s = esp_rmaker_ota_finish_using_topics
     (snd (esp_rmaker_ota_report_status OTA_STATUS_FAILED info s))"

definition ota_take_url :: "jparse_ctx \<Rightarrow> 'a core_scheme \<Rightarrow> 'a core_scheme" where
  \<comment> \<open>the rest of the handler, once the job is known\<close>
  "ota_take_url jctx s =
     (case json_obj_get_strlen jctx ''url'' of
        None \<Rightarrow> ota_give_up ''Aborted. URL not found in JSON'' s
      | Some len \<Rightarrow>
          let (ok, s) = alloc s
          in if \<not> ok then ota_give_up ''Aborted. URL memory allocation failed'' s
             else
               let url = str_opt (json_obj_get_string jctx ''url'' (len + 1));
                   filesize = (case json_obj_get_int jctx ''file_size'' of None \<Rightarrow> 0 | Some n \<Rightarrow> n);
                   s = upd_ota (\<lambda>ob. ob\<lparr>ota_url := Some url, ota_filesize := filesize,
                         ota_in_progress := True\<rparr>) s;
                   (err, s) = wq_call (WqAdd ota_work) s
               in if err \<noteq> ESP_OK then esp_rmaker_ota_finish_using_topics s else s)"

definition ota_take_job :: "jparse_ctx \<Rightarrow> 'a core_scheme \<Rightarrow> 'a core_scheme" where
  "ota_take_job jctx s =
     (case json_obj_get_strlen jctx ''ota_job_id'' of
        None \<Rightarrow> ota_give_up ''Aborted. OTA Updated ID not found in JSON'' s
      | Some len \<Rightarrow>
          let (ok, s) = alloc s
          in if \<not> ok then ota_give_up ''Aborted. OTA Updated ID memory allocation failed'' s
             else
               let job = str_opt (json_obj_get_string jctx ''ota_job_id'' (len + 1))
               in ota_take_url jctx (upd_ota (transient_priv_update (\<lambda>_. Some (OtaJob job))) s))"

definition ota_url_handler ::
  "(string \<Rightarrow> jparse_ctx option) \<Rightarrow> string \<Rightarrow> 'a core_scheme \<Rightarrow> 'a core_scheme" where
  "ota_url_handler parse payload s =
     (case ota s of None \<Rightarrow> s
      | Some ob \<Rightarrow>
          if ota_in_progress ob then s
          else
            let s = upd_ota (ota_in_progress_update (\<lambda>_. True)) s
            in (case parse payload of
                  None \<Rightarrow> upd_ota (ota_in_progress_update (\<lambda>_. False))
                    (snd (esp_rmaker_ota_report_status OTA_STATUS_FAILED ''Aborted. JSON Payload error'' s))
                | Some jctx \<Rightarrow> ota_take_job jctx s))"

definition esp_rmaker_mqtt_unsubscribe :: "string \<Rightarrow> 'a core_scheme \<Rightarrow> esp_err \<times> 'a core_scheme" where
  "esp_rmaker_mqtt_unsubscribe topic s =
     (if mqtt_setup_done s then call (Net (MqttUnsubscribe topic)) s else (ESP_OK, s))"

definition esp_rmaker_ota_fetch :: "'a core_scheme \<Rightarrow> 'a core_scheme" where
  "esp_rmaker_ota_fetch s =
     (case esp_rmaker_node_get_info (esp_rmaker_get_node s) s of None \<Rightarrow> s
      | Some info \<Rightarrow>
          let j = json_gen_str_start True 150 False;
              j = snd (json_gen_start_object j);
              j = set_str ''node_id'' (esp_rmaker_get_node_id s) j;
              j = set_str ''fw_version'' (ni_fw_version info) j;
              j = snd (json_gen_end_object j);
              (_, txt, _) = json_gen_str_end j
          in snd (esp_rmaker_mqtt_publish (node_topic 100 ''otafetch'' s) (str_opt txt) s))"

definition esp_rmaker_ota_subscribe :: "'a core_scheme \<Rightarrow> esp_err \<times> 'a core_scheme" where
  "esp_rmaker_ota_subscribe s =
     (let topic = node_topic 100 ''otaurl'' s;
          (_, s) = esp_rmaker_mqtt_unsubscribe topic s
      in esp_rmaker_mqtt_subscribe topic s)"

definition esp_rmaker_ota_work_fn :: "'a core_scheme \<Rightarrow> 'a core_scheme" where
  "esp_rmaker_ota_work_fn s = esp_rmaker_ota_fetch (snd (esp_rmaker_ota_subscribe s))"

definition esp_rmaker_ota_enable_using_topics :: "'a core_scheme \<Rightarrow> esp_err \<times> 'a core_scheme" where
  "esp_rmaker_ota_enable_using_topics s = wq_call (WqAdd (''esp_rmaker_ota_work_fn'', [])) s"

text \<open>\<open>esp_rmaker_ota_config_t\<close>: the callback, whether a diagnostic function is set, the
  certificate. A rollback that succeeds restarts the device.\<close>

record ota_config =
  oc_cb :: "string option"
  oc_diag :: bool
  oc_cert :: string

definition ota_first_boot :: "ota_config \<Rightarrow> 'a core_scheme \<Rightarrow> 'a core_scheme" where
  \<comment> \<open>the check of a new image at its first start\<close>
  "ota_first_boot c s =
     (let (err, s) = call (Net (OtaCall ''esp_ota_get_state_partition'')) s
      in if err \<noteq> ESP_OK then s
         else
           let (ota_state, s) = ask s
           in if ota_state \<noteq> 1 then s
              else
                let (diagnostic, s) = (if oc_diag c then call (App ''ota_diag'' []) s else (1, s))
                in if diagnostic \<noteq> 0
                   then emit (Net (OtaCall ''esp_ota_mark_app_valid_cancel_rollback'')) s
                   else emit (Net (OtaCall ''esp_ota_mark_app_invalid_rollback_and_reboot'')) s)"

definition esp_rmaker_ota_enable ::
  "('a core_scheme) write_fn \<Rightarrow> ota_config option \<Rightarrow> ota_type \<Rightarrow> 'a core_scheme \<Rightarrow> esp_err \<times> 'a core_scheme" where
  "esp_rmaker_ota_enable invoke config type s =
     (case config of None \<Rightarrow> (ESP_ERR_INVALID_ARG, s)
      | Some c \<Rightarrow>
          if ota_init_done s then (ESP_FAIL, s)
          else
            let (ok, s) = alloc s
            in if \<not> ok then (ESP_ERR_NO_MEM, s)
               else
                 let s = ota_first_boot c s;
                     s = s\<lparr>ota := Some \<lparr>ota_type = type,
                           ota_cb = (case oc_cb c of Some f \<Rightarrow> f | None \<Rightarrow> ''esp_rmaker_ota_default_cb''),
                           server_cert = oc_cert c, ota_url = None, ota_filesize = 0,
                           ota_in_progress = False, last_reported_status = None, transient_priv = None\<rparr>\<rparr>;
                     (err, s) = (case type of
                         OTA_USING_PARAMS \<Rightarrow> esp_rmaker_ota_enable_using_params invoke s
                       | OTA_USING_TOPICS \<Rightarrow> esp_rmaker_ota_enable_using_topics s)
                 in (err, if err = ESP_OK then s\<lparr>ota_init_done := True\<rparr> else s\<lparr>ota := None\<rparr>))"

end
