(* ===== verification/Rm_Ota_Inv.thy ===== *)
theory Rm_Ota_Inv
  imports Rm_Ota Rm_Frame
begin

text \<open>
  What firmware updates guarantee: one request at a time, whatever arrives while an update is
  queued or running, and the outcome of the default callback for every behaviour of the SDK.
\<close>

subsection \<open>What a report leaves alone\<close>

definition ota_key :: "rm_ota \<Rightarrow> ota_type \<times> string option \<times> bool \<times> ota_transient option" where
  "ota_key ob = (ota_type ob, ota_url ob, ota_in_progress ob, transient_priv ob)"

definition ota_view ::
  "'a core_scheme \<Rightarrow> (ota_type \<times> string option \<times> bool \<times> ota_transient option) option \<times> wq_spec" where
  "ota_view s = (map_option ota_key (ota s), work s)"

lemma ota_more_cong:
  fixes s t :: "'a core_scheme"
  assumes "rm.more s = rm.more t"
  shows "ota_view s = ota_view t"
  using assms by (cases s; cases t) (simp add: ota_view_def)

lemma ota_view_env [frame_simps]:
  "ota_view (emit e s) = ota_view s" "ota_view (snd (ask s)) = ota_view s"
  "ota_view (snd (alloc s)) = ota_view s" "ota_view (snd (call e s)) = ota_view s"
  by (simp_all add: ota_view_def)

lemma ota_view_param [frame_simps]:
  "ota_view (snd (esp_rmaker_param_update_and_report p v (s :: 'a core_scheme))) = ota_view s"
  by (rule ota_more_cong) (rule update_and_report_frame(1))

lemma ota_view_publish [frame_simps]:
  "ota_view (snd (esp_rmaker_mqtt_publish t d (s :: 'a core_scheme))) = ota_view s"
  by (rule ota_more_cong) (rule more_publish(1))

lemma ota_view_upd: "(\<And>ob. ota_key (f ob) = ota_key ob) \<Longrightarrow> ota_view (upd_ota f s) = ota_view s"
  by (cases "ota s") (simp_all add: ota_view_def upd_ota_def)

lemma ota_view_report [frame_simps]:
  "ota_view (snd (esp_rmaker_ota_report_status st info s)) = ota_view s"
proof -
  have "ota_view (snd (esp_rmaker_ota_report_status_using_params st info s)) = ota_view s" for s :: "'a core_scheme"
    by (simp add: esp_rmaker_ota_report_status_using_params_def Let_def case_prod_beta frame_simps
        split: option.split)
  moreover have "ota_view (snd (esp_rmaker_ota_report_status_using_topics st info s)) = ota_view s" for s :: "'a core_scheme"
    by (simp add: esp_rmaker_ota_report_status_using_topics_def Let_def case_prod_beta frame_simps
        split: option.split)
  ultimately show ?thesis
    by (simp add: esp_rmaker_ota_report_status_def Let_def case_prod_beta ota_view_upd ota_key_def
        split: option.split ota_type.split)
qed

subsection \<open>One request at a time\<close>

definition ota_queued :: "'a core_scheme \<Rightarrow> nat" where
  \<comment> \<open>the updates in the work queue\<close>
  "ota_queued s = (case snd (work s) of None \<Rightarrow> 0 | Some ws \<Rightarrow> length (filter (\<lambda>w. w = ota_work) ws))"

definition ota_busy :: "'a core_scheme \<Rightarrow> bool" where
  "ota_busy s \<longleftrightarrow> (case ota s of None \<Rightarrow> False | Some ob \<Rightarrow> ota_in_progress ob)"

definition ota_finish :: "'a core_scheme \<Rightarrow> 'a core_scheme" where
  "ota_finish s =
     (case ota s of None \<Rightarrow> s
      | Some ob \<Rightarrow> (case ota_type ob of OTA_USING_PARAMS \<Rightarrow> esp_rmaker_ota_finish_using_params s
          | OTA_USING_TOPICS \<Rightarrow> esp_rmaker_ota_finish_using_topics s))"

text \<open>
  The steps that reach the OTA once it is enabled, with the flag that the task of the work queue
  runs an update. Requests arrive in another task, so also while it runs. \<open>other\<close> is any other
  activity, among it what the update itself does (\<open>update_is_other\<close>): it may queue and run other
  work, and it leaves the request alone.
\<close>

inductive ota_reach :: "(string \<Rightarrow> jparse_ctx option) \<Rightarrow> bool \<Rightarrow> 'a core_scheme \<Rightarrow> bool"
  for parse :: "string \<Rightarrow> jparse_ctx option" where
  enabled: "ota s \<noteq> None \<Longrightarrow> \<not> ota_busy s \<Longrightarrow> ota_queued s = 0 \<Longrightarrow> ota_reach parse False s"
| request_param: "ota_reach parse r s \<Longrightarrow> ota_reach parse r (snd (esp_rmaker_ota_service_cb d p v src s))"
| request_topic: "ota_reach parse r s \<Longrightarrow> ota_reach parse r (ota_url_handler parse payload s)"
| begin_update: "ota_reach parse False s \<Longrightarrow> work s = (q, Some (ota_work # ws))
    \<Longrightarrow> ota_reach parse True (s\<lparr>work := (q, Some ws)\<rparr>)"
| end_update: "ota_reach parse True s \<Longrightarrow> ota_reach parse False (ota_finish s)"
| other: "ota_reach parse r s \<Longrightarrow> ota_queued t = ota_queued s
    \<Longrightarrow> map_option ota_key (ota t) = map_option ota_key (ota s) \<Longrightarrow> ota_reach parse r t"


lemma begin_is_common_cb:
  "esp_rmaker_ota_common_cb env app_cb s =
     (case ota s of None \<Rightarrow> s
      | Some ob \<Rightarrow> let t = (if ota_url ob = None then s else run_ota_cb env app_cb ob s)
          in if ota_type ob = OTA_USING_PARAMS then esp_rmaker_ota_finish_using_params t
             else esp_rmaker_ota_finish_using_topics t)"
  by (simp add: esp_rmaker_ota_common_cb_def Let_def split: option.split ota_type.split)

lemma ota_view_perform [frame_simps]: "ota_view (snd (ota_perform s)) = ota_view s"
proof (induction s rule: ota_perform.induct)
  case (1 s)
  obtain err t where c: "call (Net (OtaCall ''esp_https_ota_perform'')) s = (err, t)" by fastforce
  then have "ota_view t = ota_view s" using ota_view_env(4) [of "Net (OtaCall ''esp_https_ota_perform'')" s] by simp
  then show ?case using c 1 by (subst ota_perform.simps) simp
qed

lemma ota_view_reboot [frame_simps]: "ota_view (snd (esp_rmaker_reboot n s)) = ota_view s"
proof -
  have "ota_view (u\<lparr>reboot_timer := b\<rparr>) = ota_view u" for u :: "'a core_scheme" and b
    by (simp add: ota_view_def)
  then show ?thesis
    by (simp add: esp_rmaker_reboot_def Let_def case_prod_beta frame_simps)
qed

definition ota_inv :: "bool \<Rightarrow> 'a core_scheme \<Rightarrow> bool" where
  \<comment> \<open>the flag counts the requests: in the queue, or taken out of it and running\<close>
  "ota_inv r s \<longleftrightarrow> (case ota s of None \<Rightarrow> False
     | Some ob \<Rightarrow> ota_queued s + of_bool r = of_bool (ota_in_progress ob)
         \<and> (ota_in_progress ob \<longrightarrow> ota_url ob \<noteq> None))"

lemma ota_inv_idle_key:
  assumes "ota_inv r s" "ota_queued t = ota_queued s" "map_option ota_key (ota t) = map_option ota_key (ota s)"
  shows "ota_inv r t"
  using assms by (cases "ota s"; cases "ota t") (auto simp: ota_inv_def ota_key_def)

lemma ota_inv_view: "ota_inv r s \<Longrightarrow> ota_view t = ota_view s \<Longrightarrow> ota_inv r t"
  by (rule ota_inv_idle_key) (simp_all add: ota_view_def ota_queued_def)

text \<open>A request that is given up leaves the object idle, with nothing queued.\<close>

lemma ota_queued_upd [simp]: "ota_queued (upd_ota f s) = ota_queued s"
  by (simp add: ota_queued_def upd_ota_def)

lemma ota_upd [simp]: "ota (upd_ota f s) = map_option f (ota s)" "work (upd_ota f s) = work s"
  by (simp_all add: upd_ota_def)

lemma ota_queued_view: "ota_view t = ota_view s \<Longrightarrow> ota_queued t = ota_queued s"
  by (simp add: ota_view_def ota_queued_def)

lemma ota_view_some:
  "ota_view t = ota_view s \<Longrightarrow> ota s = Some ob \<Longrightarrow>
     \<exists>ob'. ota t = Some ob' \<and> ota_in_progress ob' = ota_in_progress ob \<and> ota_url ob' = ota_url ob"
  by (cases "ota t") (auto simp: ota_view_def ota_key_def)

lemma ota_inv_finish:
  "ota s \<noteq> None \<Longrightarrow> ota_queued s = 0 \<Longrightarrow> ota_inv False (esp_rmaker_ota_finish_using_params s)"
  "ota s \<noteq> None \<Longrightarrow> ota_queued s = 0 \<Longrightarrow> ota_inv False (esp_rmaker_ota_finish_using_topics s)"
  by (auto simp: ota_inv_def esp_rmaker_ota_finish_using_params_def esp_rmaker_ota_finish_using_topics_def)

lemma ota_inv_give_up:
  assumes "ota s \<noteq> None" "ota_queued s = 0"
  shows "ota_inv False (ota_give_up info s)"
  unfolding ota_give_up_def
proof (rule ota_inv_finish(2))
  let ?t = "snd (esp_rmaker_ota_report_status OTA_STATUS_FAILED info s)"
  show "ota ?t \<noteq> None" using assms(1) ota_view_some [OF ota_view_report [of _ info s]] by fastforce
  show "ota_queued ?t = 0" using assms(2) ota_queued_view [OF ota_view_report [of _ info s]] by simp
qed

text \<open>Queueing: the object that is marked busy gets its one entry, or is cleared again.\<close>

lemma ota_queue_add:
  assumes "wq_call (WqAdd ota_work) s = (err, t)"
  shows "ota t = ota s" "ota_queued t = ota_queued s + of_bool (err = ESP_OK)"
proof -
  obtain q ws where w: "work s = (q, ws)" by fastforce
  show "ota t = ota s"
    using assms w by (cases ws) (auto simp: wq_call_def wq_asks_def split: if_splits)
  show "ota_queued t = ota_queued s + of_bool (err = ESP_OK)"
    using assms w by (cases ws) (auto simp: wq_call_def wq_asks_def ota_queued_def split: if_splits)
qed

lemma ota_inv_submit:
  assumes "wq_call (WqAdd ota_work) s = (err, t)" "ota s = Some ob" "ota_in_progress ob"
    "ota_url ob \<noteq> None" "ota_queued s = 0" "finish = esp_rmaker_ota_finish_using_params \<or> finish = esp_rmaker_ota_finish_using_topics"
  shows "ota_inv False (if err \<noteq> ESP_OK then finish t else t)"
proof (cases "err = ESP_OK")
  case True
  then show ?thesis using assms(2-5) ota_queue_add [OF assms(1)] by (simp add: ota_inv_def)
next
  case False
  then show ?thesis using assms(2,5,6) ota_queue_add [OF assms(1)] ota_inv_finish [of t] by auto
qed

lemma ota_alloc_view: "alloc s = (ok, t) \<Longrightarrow> ota_view t = ota_view (s :: 'a core_scheme)"
  using ota_view_env(3) [of s] by simp

lemma ota_service_inv:
  assumes "ota_inv r s"
  shows "ota_inv r (snd (esp_rmaker_ota_service_cb d p v src s))"
proof (cases "ota s")
  case None
  then show ?thesis using assms by (simp add: ota_inv_def)
next
  case (Some ob)
  show ?thesis
  proof (cases "ota_in_progress ob")
    case True
    then show ?thesis using Some assms by (simp add: esp_rmaker_ota_service_cb_def)
  next
    case idle: False
    then have r: "\<not> r" "ota_queued s = 0" using Some assms by (auto simp: ota_inv_def)
    show ?thesis
    proof (cases "esp_rmaker_param_get_type (Some p) s = Some ''esp.param.ota_url''")
      case False
      then show ?thesis
        using Some idle assms ota_inv_view [OF assms ota_view_env(1)]
        by (auto simp: esp_rmaker_ota_service_cb_def split: option.split)
    next
      case ty: True
      let ?s1 = "upd_ota (ota_url_update (\<lambda>_. None)) s"
      have i1: "ota_inv False ?s1" using Some idle r by (simp add: ota_inv_def)
      show ?thesis
      proof (cases "val_str v")
        case None
        then show ?thesis
          using Some idle ty r ota_inv_view [OF i1 ota_view_env(1)]
          by (simp add: esp_rmaker_ota_service_cb_def Let_def)
      next
        case (Some u)
        obtain ok s2 where a: "alloc ?s1 = (ok, s2)" by fastforce
        note v2 = ota_alloc_view [OF a]
        show ?thesis
        proof (cases ok)
          case False
          then show ?thesis
            using \<open>ota s = Some ob\<close> idle ty r Some a ota_inv_view [OF i1 v2]
            by (simp add: esp_rmaker_ota_service_cb_def Let_def)
        next
          case True
          let ?f = "\<lambda>ob. ob\<lparr>ota_url := Some u, ota_filesize := 0,
                      ota_in_progress := True, transient_priv := Some (OtaService d)\<rparr>"
          obtain err t where w: "wq_call (WqAdd ota_work) (upd_ota ?f s2) = (err, t)" by fastforce
          obtain ob2 where o2: "ota s2 = Some ob2"
            using ota_view_some [OF v2] \<open>ota s = Some ob\<close> by fastforce
          have "ota_queued s2 = 0" using ota_queued_view [OF v2] r by simp
          then have "ota_inv False (if err \<noteq> ESP_OK then esp_rmaker_ota_finish_using_params t else t)"
            using o2 by (intro ota_inv_submit [OF w, where ob = "?f ob2"]) simp_all
          then show ?thesis
            using \<open>ota s = Some ob\<close> idle ty r Some a True w
            by (auto simp: esp_rmaker_ota_service_cb_def Let_def split: if_splits)
        qed
      qed
    qed
  qed
qed

lemma ota_take_url_inv:
  assumes "ota s \<noteq> None" "ota_queued s = 0"
  shows "ota_inv False (ota_take_url jctx s)"
proof (cases "json_obj_get_strlen jctx ''url''")
  case None
  then show ?thesis using ota_inv_give_up [OF assms] by (simp add: ota_take_url_def)
next
  case (Some len)
  obtain ok s2 where a: "alloc s = (ok, s2)" by fastforce
  note v2 = ota_alloc_view [OF a]
  obtain ob2 where o2: "ota s2 = Some ob2" using ota_view_some [OF v2] assms(1) by fastforce
  have q2: "ota_queued s2 = 0" using ota_queued_view [OF v2] assms(2) by simp
  show ?thesis
  proof (cases ok)
    case False
    then show ?thesis using Some a o2 q2 ota_inv_give_up [of s2] by (simp add: ota_take_url_def)
  next
    case True
    let ?f = "\<lambda>ob. ob\<lparr>ota_url := Some (str_opt (json_obj_get_string jctx ''url'' (len + 1))),
      ota_filesize := (case json_obj_get_int jctx ''file_size'' of None \<Rightarrow> 0 | Some n \<Rightarrow> n),
      ota_in_progress := True\<rparr>"
    obtain err t where w: "wq_call (WqAdd ota_work) (upd_ota ?f s2) = (err, t)" by fastforce
    have "ota_inv False (if err \<noteq> ESP_OK then esp_rmaker_ota_finish_using_topics t else t)"
      using o2 q2 by (intro ota_inv_submit [OF w, where ob = "?f ob2"]) simp_all
    then show ?thesis using Some a True w by (simp add: ota_take_url_def Let_def)
  qed
qed

lemma ota_take_job_inv:
  assumes "ota s \<noteq> None" "ota_queued s = 0"
  shows "ota_inv False (ota_take_job jctx s)"
proof (cases "json_obj_get_strlen jctx ''ota_job_id''")
  case None
  then show ?thesis using ota_inv_give_up [OF assms] by (simp add: ota_take_job_def)
next
  case (Some len)
  obtain ok s2 where a: "alloc s = (ok, s2)" by fastforce
  note v2 = ota_alloc_view [OF a]
  have "ota s2 \<noteq> None" using ota_view_some [OF v2] assms(1) by fastforce
  moreover have "ota_queued s2 = 0" using ota_queued_view [OF v2] assms(2) by simp
  ultimately show ?thesis
    using Some a ota_inv_give_up [of s2] by (auto simp: ota_take_job_def Let_def intro: ota_take_url_inv)
qed

lemma ota_url_handler_inv:
  assumes "ota_inv r s"
  shows "ota_inv r (ota_url_handler parse payload s)"
proof (cases "ota s")
  case None
  then show ?thesis using assms by (simp add: ota_inv_def)
next
  case (Some ob)
  show ?thesis
  proof (cases "ota_in_progress ob")
    case True
    then show ?thesis using Some assms by (simp add: ota_url_handler_def)
  next
    case False
    then have r: "\<not> r" "ota_queued s = 0" using Some assms by (auto simp: ota_inv_def)
    let ?s = "upd_ota (ota_in_progress_update (\<lambda>_. True)) s"
    let ?t = "snd (esp_rmaker_ota_report_status OTA_STATUS_FAILED ''Aborted. JSON Payload error'' ?s)"
    have v: "ota_view ?t = ota_view ?s" by (rule ota_view_report)
    obtain ob2 where "ota ?t = Some ob2" using ota_view_some [OF v] Some by fastforce
    moreover have "ota_queued ?t = 0" using ota_queued_view [OF v] r by simp
    ultimately have "ota_inv False (upd_ota (ota_in_progress_update (\<lambda>_. False)) ?t)"
      by (simp add: ota_inv_def)
    then show ?thesis
      using Some False r ota_take_job_inv [of ?s]
      by (auto simp: ota_url_handler_def Let_def split: option.split)
  qed
qed

lemma ota_reach_inv: "ota_reach parse r s \<Longrightarrow> ota_inv r s"
proof (induction rule: ota_reach.induct)
  case (enabled s)
  then show ?case by (auto simp: ota_inv_def ota_busy_def)
next
  case (begin_update s q ws)
  then show ?case
    by (cases "ota s") (auto simp: ota_inv_def ota_queued_def of_bool_def split: if_splits)
next
  case (end_update s)
  then show ?case
    by (auto simp: ota_inv_def ota_finish_def esp_rmaker_ota_finish_using_params_def
        esp_rmaker_ota_finish_using_topics_def of_bool_def split: option.splits ota_type.splits if_splits)
qed (auto intro: ota_service_inv ota_url_handler_inv ota_inv_idle_key)

subsection \<open>The default callback\<close>

text \<open>The trace without what a report adds to it, and the last report.\<close>

definition sdk_part :: "effect list \<Rightarrow> effect list" where
  "sdk_part es = filter (\<lambda>e. \<not> api_call e \<and> e \<noteq> Os Abort) es"

lemma sdk_part_simps [simp]:
  "sdk_part [] = []" "sdk_part (xs @ ys) = sdk_part xs @ sdk_part ys"
  "sdk_part (e # es) = (if api_call e \<or> e = Os Abort then sdk_part es else e # sdk_part es)"
  by (simp_all add: sdk_part_def)

lemma sdk_part_other: "other_part es = other_part fs \<Longrightarrow> sdk_part es = sdk_part fs"
proof -
  have "sdk_part es = filter (\<lambda>e. e \<noteq> Os Abort) (other_part es)" for es
    by (auto simp: sdk_part_def other_part_def intro: filter_cong)
  then show "other_part es = other_part fs \<Longrightarrow> sdk_part es = sdk_part fs" by simp
qed

definition last_report :: "'a core_scheme \<Rightarrow> ota_status option" where
  "last_report s = (case ota s of None \<Rightarrow> None | Some ob \<Rightarrow> last_reported_status ob)"

lemma last_report_more: "rm.more s = rm.more t \<Longrightarrow> last_report s = last_report (t :: 'a core_scheme)"
  by (cases s; cases t) (simp add: last_report_def)

lemma report_parts:
  fixes s :: "'a core_scheme"
  assumes "f = esp_rmaker_ota_report_status_using_params \<or> f = esp_rmaker_ota_report_status_using_topics"
  shows "sdk_part (trace (snd (f st info s))) = sdk_part (trace s)"
    "last_report (snd (f st info s)) = last_report s"
proof -
  note [simp] = update_and_report_other [THEN sdk_part_other] last_report_more [OF update_and_report_frame(1)]
    last_report_more [OF more_publish(1)]
  have [simp]: "last_report (emit e s) = last_report s" for e and s :: "'a core_scheme"
    by (simp add: last_report_def)
  have [simp]: "sdk_part (trace (snd (esp_rmaker_mqtt_publish t d s))) = sdk_part (trace s)" for t d and s :: "'a core_scheme"
    by (simp add: esp_rmaker_mqtt_publish_def)
  show "sdk_part (trace (snd (f st info s))) = sdk_part (trace s)"
    using assms by (auto simp: esp_rmaker_ota_report_status_using_params_def Let_def
        esp_rmaker_ota_report_status_using_topics_def case_prod_beta split: option.split)
  show "last_report (snd (f st info s)) = last_report s"
    using assms by (auto simp: esp_rmaker_ota_report_status_using_params_def Let_def
        esp_rmaker_ota_report_status_using_topics_def case_prod_beta split: option.split)
qed

lemma report_sdk [simp]:
  "sdk_part (trace (snd (esp_rmaker_ota_report_status st info s))) = sdk_part (trace s)"
  by (simp add: esp_rmaker_ota_report_status_def case_prod_beta report_parts upd_ota_def
      split: option.split ota_type.split)

lemma report_last:
  "last_report (snd (esp_rmaker_ota_report_status st info s)) \<in> {last_report s, Some st, None}"
proof -
  have "last_report (upd_ota (last_reported_status_update (\<lambda>_. Some st)) t) \<in> {Some st, None}" for t :: "'a core_scheme"
    by (simp add: last_report_def split: option.split)
  then show ?thesis
    by (simp add: esp_rmaker_ota_report_status_def case_prod_beta report_parts
        split: option.split ota_type.split)
qed

text \<open>A stretch of the update in which nothing succeeds yet: the calls it makes, the request kept.\<close>

definition ota_stretch :: "'a core_scheme \<Rightarrow> effect list \<Rightarrow> 'a core_scheme \<Rightarrow> bool" where
  "ota_stretch s es t \<longleftrightarrow> ota_view t = ota_view s \<and> sdk_part (trace t) = sdk_part (trace s) @ es
     \<and> (last_report t = last_report s \<or> last_report t \<noteq> Some OTA_STATUS_SUCCESS)"

lemma ota_stretch_trans: "ota_stretch s es t \<Longrightarrow> ota_stretch t fs u \<Longrightarrow> ota_stretch s (es @ fs) u"
  by (auto simp: ota_stretch_def)

lemma ota_stretch_refl: "ota_stretch s [] s"
  by (simp add: ota_stretch_def)

lemma ota_stretch_report:
  "st \<noteq> OTA_STATUS_SUCCESS \<Longrightarrow> ota_stretch s [] (snd (esp_rmaker_ota_report_status st info s))"
  using report_last [of st info s] by (auto simp: ota_stretch_def ota_view_report)

lemma ota_stretch_emit: "\<not> api_call e \<Longrightarrow> e \<noteq> Os Abort \<Longrightarrow> ota_stretch s [e] (emit e s)"
  by (simp add: ota_stretch_def ota_view_env last_report_def)

lemma ota_stretch_call:
  "\<not> api_call e \<Longrightarrow> e \<noteq> Os Abort \<Longrightarrow> call e s = (r, t) \<Longrightarrow> ota_stretch s [e] t"
  using ota_view_env(4) [of e s] trace_call [of e s] core_call(12) [of e s]
  by (simp add: ota_stretch_def last_report_def)

lemma ota_stretch_perform:
  "ota_perform s = (r, t) \<Longrightarrow> \<exists>k. ota_stretch s (replicate (Suc k) (Net (OtaCall ''esp_https_ota_perform''))) t"
proof (induction s arbitrary: r t rule: ota_perform.induct)
  case (1 s)
  obtain err u where c: "call (Net (OtaCall ''esp_https_ota_perform'')) s = (err, u)" by fastforce
  note q = ota_stretch_call [OF _ _ c, simplified]
  show ?case
  proof (cases "err = ESP_ERR_HTTPS_OTA_IN_PROGRESS")
    case True
    then have "ota_perform u = (r, t)" using 1(2) c by (subst (asm) ota_perform.simps) simp
    then obtain k where "ota_stretch u (replicate (Suc k) (Net (OtaCall ''esp_https_ota_perform''))) t"
      using 1(1) [OF refl c [symmetric]] True by blast
    then have "ota_stretch s (replicate (Suc (Suc k)) (Net (OtaCall ''esp_https_ota_perform''))) t"
      using ota_stretch_trans [OF q] by fastforce
    then show ?thesis by blast
  next
    case False
    then have "t = u" using 1(2) c by (subst (asm) ota_perform.simps) simp
    then show ?thesis using q by (intro exI [of _ 0]) simp
  qed
qed

abbreviation ota_fn :: "string \<Rightarrow> effect" where
  "ota_fn f \<equiv> Net (OtaCall f)"

text \<open>What can happen between the description of the image and the end of the transfer.\<close>

definition transfer_calls :: "effect list \<Rightarrow> bool" where
  "transfer_calls es \<longleftrightarrow> es = [] \<or> es = [ota_fn ''esp_ota_get_partition_description'']
     \<or> (\<exists>k. es = ota_fn ''esp_ota_get_partition_description''
              # replicate (Suc k) (ota_fn ''esp_https_ota_perform'')
              @ [ota_fn ''esp_https_ota_is_complete_data_received''])"

lemma validate_stretch:
  assumes "validate_image_header env s = (err, t)"
  shows "ota_stretch s [ota_fn ''esp_ota_get_partition_description''] t
    \<and> (err = ESP_OK \<longrightarrow> fst (img_desc env) \<noteq> fst (running_desc env) \<and> snd (img_desc env) = snd (running_desc env))"
proof -
  let ?u = "emit (ota_fn ''esp_ota_get_partition_description'') s"
  have u: "ota_stretch s [ota_fn ''esp_ota_get_partition_description''] ?u"
    by (rule ota_stretch_emit) simp_all
  have "ota_stretch s [ota_fn ''esp_ota_get_partition_description'']
      (snd (esp_rmaker_ota_report_status OTA_STATUS_FAILED info ?u))" for info
    using ota_stretch_trans [OF u ota_stretch_report] by fastforce
  then show ?thesis
    using assms u by (auto simp: validate_image_header_def Let_def split: if_splits)
qed

lemma transfer_stretch:
  assumes "ota_transfer env s = (err, t)"
  shows "\<exists>es. ota_stretch s (ota_fn ''esp_https_ota_get_img_desc'' # es) t \<and> transfer_calls es
    \<and> (err = ESP_OK \<longrightarrow> ota_fn ''esp_https_ota_perform'' \<in> set es
        \<and> fst (img_desc env) \<noteq> fst (running_desc env) \<and> snd (img_desc env) = snd (running_desc env))"
proof -
  obtain e1 s1 where c1: "call (ota_fn ''esp_https_ota_get_img_desc'') s = (e1, s1)" by fastforce
  note q1 = ota_stretch_call [OF _ _ c1, simplified]
  obtain e2 s2 where c2: "validate_image_header env s1 = (e2, s2)" by fastforce
  note q2 = ota_stretch_trans [OF q1 conjunct1 [OF validate_stretch [OF c2]], simplified]
  define s3 where "s3 = snd (esp_rmaker_ota_report_status OTA_STATUS_IN_PROGRESS ''Downloading Firmware Image'' s2)"
  have q3: "ota_stretch s2 [] s3" unfolding s3_def by (rule ota_stretch_report) simp
  obtain e4 s4 where c4: "ota_perform s3 = (e4, s4)" by fastforce
  obtain k where q4: "ota_stretch s3 (replicate (Suc k) (ota_fn ''esp_https_ota_perform'')) s4"
    using ota_stretch_perform [OF c4] by blast
  define s5 where "s5 = (if e4 \<noteq> ESP_OK then snd (esp_rmaker_ota_report_status OTA_STATUS_FAILED
      (snprintf 40 (''OTA failed: Error '' @ err_name env e4)) s4) else s4)"
  have q5: "ota_stretch s4 [] s5" unfolding s5_def using ota_stretch_report ota_stretch_refl by auto
  obtain e6 s6 where c6: "call (ota_fn ''esp_https_ota_is_complete_data_received'') s5 = (e6, s6)" by fastforce
  note q6 = ota_stretch_call [OF _ _ c6, simplified]
  define s7 where "s7 = (if e6 = 0 then s6 else snd (esp_rmaker_ota_report_status OTA_STATUS_IN_PROGRESS
      ''Firmware Image download complete'' s6))"
  have q7: "ota_stretch s6 [] s7" unfolding s7_def using ota_stretch_report ota_stretch_refl by auto
  note full = ota_stretch_trans [OF q2 ota_stretch_trans [OF q3 ota_stretch_trans [OF q4
      ota_stretch_trans [OF q5 ota_stretch_trans [OF q6 q7]]]], simplified]
  show ?thesis
  proof (cases "e1 = ESP_OK \<and> e2 = ESP_OK")
    case True
    then have "t = s7" "err = e4"
      using assms c1 c2 c4 c6
      by (simp_all add: ota_transfer_def Let_def case_prod_beta s3_def [symmetric] s5_def s7_def split: if_splits)
    then show ?thesis
      using full True conjunct2 [OF validate_stretch [OF c2]]
      by (intro exI [of _ "ota_fn ''esp_ota_get_partition_description''
            # replicate (Suc k) (ota_fn ''esp_https_ota_perform'')
            @ [ota_fn ''esp_https_ota_is_complete_data_received'']"]) (auto simp: transfer_calls_def)
  next
    case False
    have "ota_stretch s1 [] (snd (esp_rmaker_ota_report_status OTA_STATUS_FAILED info s1))" for info
      by (rule ota_stretch_report) simp
    note r1 = ota_stretch_trans [OF q1 this]
    show ?thesis
    proof (cases "e1 = ESP_OK")
      case True
      then show ?thesis
        using assms c1 c2 False q2
        by (intro exI [of _ "[ota_fn ''esp_ota_get_partition_description'']"])
          (auto simp: ota_transfer_def transfer_calls_def)
    next
      case False
      then show ?thesis
        using assms c1 r1
        by (intro exI [of _ "[]"]) (auto simp: ota_transfer_def transfer_calls_def)
    qed
  qed
qed

text \<open>A reboot starts no other update and touches no radio.\<close>

lemma reboot_sdk:
  "\<exists>fs. sdk_part (trace (snd (esp_rmaker_reboot n s))) = sdk_part (trace s) @ fs
     \<and> (\<forall>e \<in> set fs. e = common_event 0 \<or> (\<exists>c. e = Os c))"
  by (auto simp: esp_rmaker_reboot_def Let_def case_prod_beta)

definition wifi_get_ps :: effect where "wifi_get_ps = Net (WifiCall ''esp_wifi_get_ps'' [])"

definition update_calls :: "effect list \<Rightarrow> bool" where
  \<comment> \<open>nothing after a failed start, or one transfer with the power saving switched off around it\<close>
  "update_calls es \<longleftrightarrow> es = [] \<or> (\<exists>ps mid. transfer_calls mid
     \<and> es = [wifi_get_ps, set_ps 0, ota_fn ''esp_https_ota_get_img_desc''] @ mid
            @ [set_ps ps, ota_fn ''esp_https_ota_finish''])"

lemma default_cb_parts:
  assumes "esp_rmaker_ota_default_cb env (Some url) s = (r, t)"
  shows "ota_view t = ota_view s \<and> (\<exists>n es fs. sdk_part (trace t) = sdk_part (trace s) @ [Net (OtaBegin url n)] @ es @ fs
      \<and> int (length url) \<le> n \<and> update_calls es \<and> (\<forall>e \<in> set fs. e = common_event 0 \<or> (\<exists>c. e = Os c))
      \<and> (r = ESP_OK \<and> ota_fn ''esp_https_ota_perform'' \<in> set es
           \<and> fst (img_desc env) \<noteq> fst (running_desc env) \<and> snd (img_desc env) = snd (running_desc env)
         \<or> r = ESP_FAIL \<and> fs = [] \<and> (last_report t = last_report s \<or> last_report t \<noteq> Some OTA_STATUS_SUCCESS)))"
proof -
  define n where "n = (if DEF_HTTP_TX_BUFFER_SIZE < int (length url) then int (length url) + 128 else DEF_HTTP_TX_BUFFER_SIZE)"
  have n: "int (length url) \<le> n" by (simp add: n_def)
  define s1 where "s1 = snd (esp_rmaker_ota_report_status OTA_STATUS_IN_PROGRESS ''Starting OTA Upgrade'' s)"
  have q1: "ota_stretch s [] s1" unfolding s1_def by (rule ota_stretch_report) simp
  obtain e2 s2 where c2: "call (Net (OtaBegin url n)) s1 = (e2, s2)" by fastforce
  note q2 = ota_stretch_trans [OF q1 ota_stretch_call [OF _ _ c2], simplified]
  define f where "f = snd (esp_rmaker_ota_report_status OTA_STATUS_FAILED ''ESP HTTPS OTA Begin failed'' s2)"
  have "ota_stretch s2 [] f" unfolding f_def by (rule ota_stretch_report) simp
  note qf = ota_stretch_trans [OF q2 this, simplified]
  obtain ps s3 where c3: "call wifi_get_ps s2 = (ps, s3)" by fastforce
  have q3: "ota_stretch s2 [wifi_get_ps] s3"
    by (rule ota_stretch_call [OF _ _ c3]) (simp_all add: wifi_get_ps_def)
  obtain e4 s4 where c4: "ota_transfer env (emit (set_ps 0) s3) = (e4, s4)" by fastforce
  obtain mid where q4: "ota_stretch (emit (set_ps 0) s3) (ota_fn ''esp_https_ota_get_img_desc'' # mid) s4"
    and mid: "transfer_calls mid" and ok: "e4 = ESP_OK \<Longrightarrow> ota_fn ''esp_https_ota_perform'' \<in> set mid
        \<and> fst (img_desc env) \<noteq> fst (running_desc env) \<and> snd (img_desc env) = snd (running_desc env)"
    using transfer_stretch [OF c4] by blast
  obtain e5 s5 where c5: "call (ota_fn ''esp_https_ota_finish'') (emit (set_ps ps) s4) = (e5, s5)" by fastforce
  define es where "es = [wifi_get_ps, set_ps 0, ota_fn ''esp_https_ota_get_img_desc''] @ mid
            @ [set_ps ps, ota_fn ''esp_https_ota_finish'']"
  have es: "update_calls es" using mid by (auto simp: update_calls_def es_def)
  have q5: "ota_stretch s (Net (OtaBegin url n) # es) s5"
    using ota_stretch_trans [OF q2 ota_stretch_trans [OF q3 ota_stretch_trans [OF
      ota_stretch_emit [of "set_ps 0" s3] ota_stretch_trans [OF q4 ota_stretch_trans [OF
      ota_stretch_emit [of "set_ps ps" s4] ota_stretch_call [OF _ _ c5]]]]]]
    by (simp add: es_def)
  note defs = esp_rmaker_ota_default_cb_def Let_def n_def [symmetric] s1_def [symmetric] case_prod_beta
    wifi_get_ps_def [symmetric]
  consider (refused) "e2 \<noteq> ESP_OK" | (bad) "e2 = ESP_OK" "\<not> (e4 = ESP_OK \<and> e5 = ESP_OK)"
    | (good) "e2 = ESP_OK" "e4 = ESP_OK" "e5 = ESP_OK" by blast
  then show ?thesis
  proof cases
    case refused
    then have "r = ESP_FAIL" "t = f" using assms c2 by (simp_all add: defs f_def)
    then show ?thesis
      using qf n by (intro conjI exI [of _ n] exI [of _ "[]"]) (auto simp: ota_stretch_def update_calls_def)
  next
    case bad
    define g where "g = (if e5 = ESP_ERR_OTA_VALIDATE_FAILED
      then snd (esp_rmaker_ota_report_status OTA_STATUS_FAILED ''Image validation failed'' s5) else s5)"
    have "ota_stretch s5 [] g" unfolding g_def using ota_stretch_report ota_stretch_refl by auto
    note qg = ota_stretch_trans [OF q5 this, simplified]
    have "r = ESP_FAIL" "t = g" using assms c2 c3 c4 c5 bad by (auto simp: defs g_def)
    then show ?thesis
      using qg n es
      by (intro conjI exI [of _ n] exI [of _ es] exI [of _ "[]"]) (auto simp: ota_stretch_def)
  next
    case good
    define g where "g = snd (esp_rmaker_ota_report_status OTA_STATUS_SUCCESS ''OTA Upgrade finished successfully'' s5)"
    have g: "ota_view g = ota_view s5" "sdk_part (trace g) = sdk_part (trace s5)"
      by (simp_all add: g_def ota_view_report)
    obtain fs where fs: "sdk_part (trace (snd (esp_rmaker_reboot OTA_REBOOT_TIMER_SEC g))) = sdk_part (trace g) @ fs"
      "\<forall>e \<in> set fs. e = common_event 0 \<or> (\<exists>c. e = Os c)" using reboot_sdk by blast
    have "r = ESP_OK" "t = snd (esp_rmaker_reboot OTA_REBOOT_TIMER_SEC g)"
      using assms c2 c3 c4 c5 good by (simp_all add: defs g_def)
    then show ?thesis
      using q5 n es fs g ok [OF good(2)]
      by (intro conjI exI [of _ n] exI [of _ es] exI [of _ fs])
        (auto simp: ota_stretch_def ota_view_reboot es_def)
  qed
qed

text \<open>The update itself is an \<open>other\<close> step: it keeps the request and queues nothing.\<close>

lemma update_is_other: "ota_view (snd (esp_rmaker_ota_default_cb env url s)) = ota_view s"
  using default_cb_parts [OF prod.collapse [symmetric], of env _ s]
  by (cases url) (simp add: esp_rmaker_ota_default_cb_def, blast)

subsection \<open>Properties\<close>

text \<open>C11. One update at a time. However requests (as writes of the service or as messages of the
  topic, in any number and at any time), the start and the end of updates and other activity
  follow each other: the request counted as in progress is exactly one entry of the work queue or
  one update that runs, with its URL kept, and while there is one every further request is refused
  and changes nothing.\<close>

theorem ota_one_at_a_time:
  assumes "ota_reach parse running s"
  shows "\<exists>ob. ota s = Some ob
    \<and> ota_queued s + of_bool running = of_bool (ota_in_progress ob)
    \<and> (ota_in_progress ob \<longrightarrow> ota_url ob \<noteq> None
         \<and> (\<forall>d p v src. esp_rmaker_ota_service_cb d p v src s = (ESP_FAIL, s))
         \<and> (\<forall>payload. ota_url_handler parse payload s = s))"
proof (cases "ota s")
  case None
  then show ?thesis using ota_reach_inv [OF assms] by (simp add: ota_inv_def)
next
  case (Some ob)
  then show ?thesis
    using ota_reach_inv [OF assms]
    by (simp add: ota_inv_def esp_rmaker_ota_service_cb_def ota_url_handler_def)
qed

text \<open>A device with the OTA enabled and a request of the service.\<close>

definition ex_ota :: "ota_type \<Rightarrow> rm_ota" where
  "ex_ota ty = \<lparr>ota_type = ty, ota_cb = ''esp_rmaker_ota_default_cb'', server_cert = [],
     ota_url = None, ota_filesize = 0, ota_in_progress = False, last_reported_status = None,
     transient_priv = None\<rparr>"

definition ex_requested :: core where
  "ex_requested = snd (esp_rmaker_ota_service_cb 7 2 (VStr (Some ''https://a'')) ESP_RMAKER_REQ_SRC_CLOUD
     (upd_param 2 (\<lambda>r. r\<lparr>p_type := Some ''esp.param.ota_url''\<rparr>)
       (ex_core\<lparr>ota := Some (ex_ota OTA_USING_PARAMS)\<rparr>)))"

lemma ex_requested_queued: "ota_queued ex_requested = 1"
  by (simp add: ex_requested_def ex_ota_def ex_core_def ex_defs esp_rmaker_ota_service_cb_def
      esp_rmaker_param_get_type_def upd_param_def upd_ota_def rm.defs alloc_def wq_call_def wq_asks_def
      ota_queued_def)

lemma ota_one_at_a_time_witness:
  "snd (work ex_requested) = Some [ota_work]
   \<and> esp_rmaker_ota_service_cb 7 2 (VStr (Some ''https://b'')) ESP_RMAKER_REQ_SRC_CLOUD ex_requested
     = (ESP_FAIL, ex_requested)"
proof -
  have "ota_reach (\<lambda>_. None) False ex_requested"
    unfolding ex_requested_def
    by (intro ota_reach.request_param ota_reach.enabled)
      (simp_all add: ex_ota_def ex_core_def ota_busy_def ota_queued_def upd_param_def rm.defs)
  from ota_one_at_a_time [OF this] ex_requested_queued
  have "esp_rmaker_ota_service_cb 7 2 (VStr (Some ''https://b'')) ESP_RMAKER_REQ_SRC_CLOUD ex_requested
     = (ESP_FAIL, ex_requested)" by (auto simp: of_bool_def split: if_splits)
  moreover have "snd (work ex_requested) = Some [ota_work]"
    by (simp add: ex_requested_def ex_ota_def ex_core_def ex_defs esp_rmaker_ota_service_cb_def
      esp_rmaker_param_get_type_def upd_param_def upd_ota_def rm.defs alloc_def wq_call_def wq_asks_def)
  ultimately show ?thesis by blast
qed

text \<open>C12. The default callback, for every behaviour of the SDK (its answers, any number of rounds
  of the download, failed reports). It returns success or failure. It calls the OTA library in
  one fixed order: after a failed start nothing more, otherwise one transfer with the Wi-Fi power
  saving switched off before and one value set again after it on every path, and the library is
  always closed. Success needs a download and an image of another version of the same project;
  only then a restart is prepared, and only then the new last report can be success.\<close>

theorem ota_download_outcome:
  assumes "esp_rmaker_ota_default_cb env (Some url) s = (r, t)"
  shows "(r = ESP_OK \<or> r = ESP_FAIL)
    \<and> (\<exists>n es fs. sdk_part (trace t) = sdk_part (trace s) @ [Net (OtaBegin url n)] @ es @ fs
        \<and> int (length url) \<le> n \<and> update_calls es
        \<and> (\<forall>e \<in> set fs. e = common_event 0 \<or> (\<exists>c. e = Os c))
        \<and> (r = ESP_OK \<longrightarrow> ota_fn ''esp_https_ota_perform'' \<in> set es)
        \<and> (r = ESP_FAIL \<longrightarrow> fs = []))
    \<and> (r = ESP_OK \<longrightarrow> fst (img_desc env) \<noteq> fst (running_desc env)
                   \<and> snd (img_desc env) = snd (running_desc env))
    \<and> (r = ESP_FAIL \<longrightarrow> last_report t = last_report s \<or> last_report t \<noteq> Some OTA_STATUS_SUCCESS)"
proof -
  from default_cb_parts [OF assms] show ?thesis by (elim conjE exE disjE) fastforce+
qed

text \<open>A download in two rounds, with the power saving at 2 before; then a failed start.\<close>

definition ex_env :: ota_env where
  "ex_env = \<lparr>running_desc = (''1.0'', ''p''), img_desc = (''1.1'', ''p''), err_name = (\<lambda>_. [])\<rparr>"

lemma ota_download_outcome_witness:
  "let s = ex_core\<lparr>ota := Some (ex_ota OTA_USING_TOPICS),
        inputs := [0, 0, 2, 0, 0, ESP_ERR_HTTPS_OTA_IN_PROGRESS, 0, 1, 0, 0, 0, 1]\<rparr>;
      t = snd (esp_rmaker_ota_default_cb ex_env (Some ''u'') s)
   in fst (esp_rmaker_ota_default_cb ex_env (Some ''u'') s) = ESP_OK
      \<and> set_ps 2 \<in> set (trace t) \<and> reboot_timer t \<and> last_report t = Some OTA_STATUS_SUCCESS
      \<and> fst (img_desc ex_env) \<noteq> fst (running_desc ex_env)"
proof -
  define s where "s = ex_core\<lparr>ota := Some (ex_ota OTA_USING_TOPICS),
        inputs := [0, 0, 2, 0, 0, ESP_ERR_HTTPS_OTA_IN_PROGRESS, 0, 1, 0, 0, 0, 1]\<rparr>"
  define x where "x = esp_rmaker_ota_default_cb ex_env (Some ''u'') s"
  have "fst x = ESP_OK \<and> set_ps 2 \<in> set (trace (snd x)) \<and> reboot_timer (snd x)
      \<and> last_report (snd x) = Some OTA_STATUS_SUCCESS"
    unfolding x_def s_def by code_simp
  moreover have "esp_rmaker_ota_default_cb ex_env (Some ''u'') s = (fst x, snd x)" by (simp add: x_def)
  note ota_download_outcome [OF this]
  ultimately show ?thesis by (simp add: s_def [symmetric] x_def [symmetric] Let_def)
qed

end
