(* ===== verification/Mqtt_Glue.thy ===== *)
theory Mqtt_Glue
  imports Platform "HOL-Library.Multiset"
begin

text \<open>
  The glue between the library and the SDK's MQTT client, \<open>esp-mqtt-glue.c\<close>: the table of
  subscriptions, the dispatch of messages and the reassembly of messages that are longer than the
  client's buffer. The client is the environment: its calls are effects with answers, and its
  events are arguments of \<open>mqtt_event_handler\<close>.

  A callback is the name of a function; \<open>cbs\<close> gives what a call of it does, which may be
  anything, also a change of the table. The static variable \<open>long_data\<close> is local to the handler,
  so it is passed beside the state.
\<close>

subsection \<open>State\<close>

definition MAX_MQTT_SUBSCRIPTIONS :: nat where "MAX_MQTT_SUBSCRIPTIONS = 5"

record subscription =
  sub_topic :: string
  sub_cb :: string
  sub_priv :: "nat option"

text \<open>\<open>esp_rmaker_mqtt_conn_params_t\<close>.\<close>

record conn_params =
  cp_mqtt_host :: string
  cp_client_id :: string
  cp_client_cert :: string
  cp_client_key :: string
  cp_server_cert :: string

record glue_data =
  mqtt_client :: int \<comment> \<open>the handle\<close>
  gd_conn_params :: conn_params
  subscriptions :: "subscription option list"

record glue = plat +
  mqtt_data :: "glue_data option"
  mqtt_event_group :: bool

record long_data =
  ld_data :: string \<comment> \<open>the whole buffer\<close>
  ld_topic :: string

text \<open>
  \<open>esp_mqtt_event_t\<close>. The topic of a data event is missing in all fragments but the first; it and
  the data are given with their lengths.
\<close>

record data_event =
  ev_topic :: "string option"
  ev_data :: string
  ev_total :: nat
  ev_offset :: nat

datatype mqtt_event =
  MQTT_EVENT_CONNECTED | MQTT_EVENT_DISCONNECTED | MQTT_EVENT_SUBSCRIBED int
  | MQTT_EVENT_UNSUBSCRIBED int | MQTT_EVENT_PUBLISHED int | MQTT_EVENT_DATA data_event
  | MQTT_EVENT_ERROR | MQTT_EVENT_OTHER int

abbreviation glue_event :: "int \<Rightarrow> effect" where
  "glue_event n \<equiv> Net (EventPost ''RMAKER_COMMON_EVENT'' n)"

definition slot :: "'a glue_scheme \<Rightarrow> nat \<Rightarrow> subscription option" where
  "slot s i = (case mqtt_data s of None \<Rightarrow> None
     | Some d \<Rightarrow> if i < length (subscriptions d) then subscriptions d ! i else None)"

definition set_slot :: "nat \<Rightarrow> subscription option \<Rightarrow> 'a glue_scheme \<Rightarrow> 'a glue_scheme" where
  "set_slot i x s = s\<lparr>mqtt_data := map_option (subscriptions_update (\<lambda>xs. xs[i := x])) (mqtt_data s)\<rparr>"

subsection \<open>Subscriptions\<close>

type_synonym 'a callbacks =
  "string \<Rightarrow> string \<Rightarrow> string \<Rightarrow> nat option \<Rightarrow> 'a glue_scheme \<Rightarrow> 'a glue_scheme"

definition dispatch_slot :: "'a callbacks \<Rightarrow> string \<Rightarrow> string \<Rightarrow> nat \<Rightarrow> 'a glue_scheme \<Rightarrow> 'a glue_scheme" where
  "dispatch_slot cbs topic data i s =
     (case slot s i of None \<Rightarrow> s
      | Some x \<Rightarrow> if topic = sub_topic x then cbs (sub_cb x) (sub_topic x) data (sub_priv x) s else s)"

text \<open>Every slot is read when its turn comes, so a callback can change what follows.\<close>

definition esp_mqtt_glue_subscribe_callback ::
  "'a callbacks \<Rightarrow> string \<Rightarrow> string \<Rightarrow> 'a glue_scheme \<Rightarrow> 'a glue_scheme" where
  "esp_mqtt_glue_subscribe_callback cbs topic data s =
     fold (dispatch_slot cbs topic data) [0..<MAX_MQTT_SUBSCRIPTIONS] s"

definition esp_mqtt_glue_subscribe ::
  "string option \<Rightarrow> string option \<Rightarrow> int \<Rightarrow> nat option \<Rightarrow> 'a glue_scheme \<Rightarrow> esp_err \<times> 'a glue_scheme" where
  "esp_mqtt_glue_subscribe topic cb qos priv_data s =
     (case (mqtt_data s, topic, cb) of
        (Some d, Some t, Some f) \<Rightarrow>
          (case List.find (\<lambda>i. slot s i = None) [0..<MAX_MQTT_SUBSCRIPTIONS] of
             None \<Rightarrow> (ESP_FAIL, s)
           | Some i \<Rightarrow>
               let (ok, s) = alloc s
               in if \<not> ok then (ESP_FAIL, s)
                  else
                    let (ok, s) = alloc s
                    in if \<not> ok then (ESP_FAIL, s)
                       else
                         let (ret, s) = call (Net (MqttClientSubscribe t qos)) s
                         in if ret < 0 then (ESP_FAIL, s)
                            else (ESP_OK, set_slot i
                              (Some \<lparr>sub_topic = t, sub_cb = f, sub_priv = priv_data\<rparr>) s))
      | _ \<Rightarrow> (ESP_FAIL, s))"

definition esp_mqtt_glue_unsubscribe :: "string option \<Rightarrow> 'a glue_scheme \<Rightarrow> esp_err \<times> 'a glue_scheme" where
  "esp_mqtt_glue_unsubscribe topic s =
     (case (mqtt_data s, topic) of
        (Some d, Some t) \<Rightarrow>
          let s = emit (Net (MqttClientUnsubscribe t)) s
          in (case List.find (\<lambda>i. case slot s i of None \<Rightarrow> False
                     | Some x \<Rightarrow> strncmp_eq t (sub_topic x) (length t)) [0..<MAX_MQTT_SUBSCRIPTIONS] of
                None \<Rightarrow> (ESP_FAIL, s)
              | Some i \<Rightarrow> (ESP_OK, set_slot i None s))
      | _ \<Rightarrow> (ESP_FAIL, s))"

definition esp_mqtt_glue_publish ::
  "string option \<Rightarrow> string option \<Rightarrow> int \<Rightarrow> 'a glue_scheme \<Rightarrow> (esp_err \<times> int option) \<times> 'a glue_scheme" where
  \<comment> \<open>with what is written to \<open>msg_id\<close>\<close>
  "esp_mqtt_glue_publish topic data qos s =
     (case (mqtt_data s, topic, data) of
        (Some d, Some t, Some x) \<Rightarrow>
          let (ret, s) = call (Net (MqttClientPublish t x qos)) s
          in if ret < 0 then ((ESP_FAIL, None), s) else ((ESP_OK, Some ret), s)
      | _ \<Rightarrow> ((ESP_FAIL, None), s))"

subsection \<open>Messages in fragments\<close>

text \<open>The three allocations for a new message; a failure frees what there is.\<close>

definition new_long_data :: "string \<Rightarrow> nat \<Rightarrow> 'a glue_scheme \<Rightarrow> long_data option \<times> 'a glue_scheme" where
  "new_long_data topic len s =
     (let (ok, s) = alloc s
      in if \<not> ok then (None, s)
         else
           let (ok, s) = alloc s
           in if \<not> ok then (None, s)
              else
                let (ok, s) = alloc s
                in if \<not> ok then (None, s)
                   else (Some \<lparr>ld_data = replicate len (CHR 0x00), ld_topic = c_string topic\<rparr>, s))"

text \<open>\<open>memcpy\<close> does not look at the size of the buffer; a write past its end has no meaning in C
  and is \<open>Abort\<close> here.\<close>

definition esp_mqtt_glue_manage_long_data ::
  "'a callbacks \<Rightarrow> long_data option \<Rightarrow> data_event \<Rightarrow> 'a glue_scheme \<Rightarrow> long_data option \<times> 'a glue_scheme" where
  "esp_mqtt_glue_manage_long_data cbs ld ev s =
     (let (ld, s) = (case ev_topic ev of None \<Rightarrow> (ld, s) | Some t \<Rightarrow> new_long_data t (ev_total ev) s)
      in case ld of None \<Rightarrow> (None, s)
         | Some l \<Rightarrow>
             let last = ev_offset ev + length (ev_data ev)
             in if length (ld_data l) < last then (Some l, emit (Os Abort) s)
                else
                  let buf = take (ev_offset ev) (ld_data l) @ ev_data ev @ drop last (ld_data l)
                  in if last = ev_total ev
                     then (None, esp_mqtt_glue_subscribe_callback cbs (ld_topic l) (take (ev_total ev) buf) s)
                     else (Some (l\<lparr>ld_data := buf\<rparr>), s))"

definition resubscribe_slot :: "nat \<Rightarrow> 'a glue_scheme \<Rightarrow> 'a glue_scheme" where
  "resubscribe_slot i s =
     (case slot s i of None \<Rightarrow> s | Some x \<Rightarrow> emit (Net (MqttClientSubscribe (sub_topic x) 1)) s)"

text \<open>A topic that is \<open>NULL\<close> comes with the length 0.\<close>

fun mqtt_event_handler ::
  "'a callbacks \<Rightarrow> mqtt_event \<Rightarrow> long_data option \<times> 'a glue_scheme \<Rightarrow> long_data option \<times> 'a glue_scheme" where
  "mqtt_event_handler cbs MQTT_EVENT_CONNECTED (ld, s) =
     (ld, emit (glue_event 3) (emit (Os EventGroupSetBits)
            (fold resubscribe_slot [0..<MAX_MQTT_SUBSCRIPTIONS] s)))"
| "mqtt_event_handler cbs MQTT_EVENT_DISCONNECTED (ld, s) = (ld, emit (glue_event 4) s)"
| "mqtt_event_handler cbs (MQTT_EVENT_PUBLISHED msg_id) (ld, s) = (ld, emit (glue_event 5) s)"
| "mqtt_event_handler cbs (MQTT_EVENT_DATA ev) (ld, s) =
     (if length (ev_data ev) = ev_total ev
      then (None, esp_mqtt_glue_subscribe_callback cbs
                    (case ev_topic ev of None \<Rightarrow> [] | Some t \<Rightarrow> t) (ev_data ev) s)
      else esp_mqtt_glue_manage_long_data cbs ld ev s)"
| "mqtt_event_handler cbs _ (ld, s) = (ld, s)"

subsection \<open>Connection\<close>

definition esp_mqtt_glue_connect :: "'a glue_scheme \<Rightarrow> esp_err \<times> 'a glue_scheme" where
  "esp_mqtt_glue_connect s =
     (case mqtt_data s of None \<Rightarrow> (ESP_FAIL, s)
      | Some d \<Rightarrow>
          let (ok, s) = alloc (emit (Os EventGroupCreate) s);
              s = s\<lparr>mqtt_event_group := ok\<rparr>;
              (ret, s) = call (Net (MqttClientCall ''esp_mqtt_client_start'')) s
          in if ret \<noteq> ESP_OK then (ret, s) else (ESP_OK, emit (Os EventGroupWaitBits) s))"

definition unsubscribe_slot :: "nat \<Rightarrow> 'a glue_scheme \<Rightarrow> 'a glue_scheme" where
  "unsubscribe_slot i s =
     (case slot s i of None \<Rightarrow> s | Some x \<Rightarrow> snd (esp_mqtt_glue_unsubscribe (Some (sub_topic x)) s))"

definition esp_mqtt_glue_unsubscribe_all :: "'a glue_scheme \<Rightarrow> 'a glue_scheme" where
  "esp_mqtt_glue_unsubscribe_all s =
     (if mqtt_data s = None then s else fold unsubscribe_slot [0..<MAX_MQTT_SUBSCRIPTIONS] s)"

definition esp_mqtt_glue_disconnect :: "'a glue_scheme \<Rightarrow> esp_err \<times> 'a glue_scheme" where
  "esp_mqtt_glue_disconnect s =
     (if mqtt_data s = None then (ESP_FAIL, s)
      else call (Net (MqttClientCall ''esp_mqtt_client_stop'')) (esp_mqtt_glue_unsubscribe_all s))"

definition esp_mqtt_glue_reconnect :: "'a glue_scheme \<Rightarrow> esp_err \<times> 'a glue_scheme" where
  "esp_mqtt_glue_reconnect s =
     (if mqtt_data s = None then (ESP_FAIL, s)
      else
        let (err, s) = call (Net (MqttClientCall ''esp_mqtt_client_reconnect'')) s
        in (err, if err \<noteq> ESP_OK then emit (Net (MqttClientCall ''esp_mqtt_client_start'')) s else s))"

definition esp_mqtt_glue_is_connected :: "'a glue_scheme \<Rightarrow> int \<times> 'a glue_scheme" where
  "esp_mqtt_glue_is_connected s =
     (if mqtt_data s = None then (0, s)
      else call (Net (MqttClientCall ''esp_mqtt_client_is_connected'')) s)"

definition esp_rmaker_mqtt_reconnect :: "'a glue_scheme \<Rightarrow> esp_err \<times> 'a glue_scheme" where
  "esp_rmaker_mqtt_reconnect s = esp_mqtt_glue_reconnect s"

definition esp_rmaker_mqtt_is_connected :: "'a glue_scheme \<Rightarrow> int \<times> 'a glue_scheme" where
  "esp_rmaker_mqtt_is_connected s = esp_mqtt_glue_is_connected s"

definition esp_mqtt_glue_init :: "conn_params option \<Rightarrow> 'a glue_scheme \<Rightarrow> esp_err \<times> 'a glue_scheme" where
  "esp_mqtt_glue_init conn s =
     (if mqtt_data s \<noteq> None then (ESP_OK, s)
      else case conn of None \<Rightarrow> (ESP_FAIL, s)
      | Some p \<Rightarrow>
          let (ok, s) = alloc s
          in if \<not> ok then (ESP_ERR_NO_MEM, s)
             else
               let (client, s) = call (Net (MqttClientInit (cp_mqtt_host p) (cp_client_id p))) s
               in (ESP_OK, s\<lparr>mqtt_data := Some \<lparr>mqtt_client = client, gd_conn_params = p,
                     subscriptions = replicate MAX_MQTT_SUBSCRIPTIONS None\<rparr>\<rparr>))"

subsection \<open>Reassembly\<close>

text \<open>A message as the client hands it over when its buffer holds only a part: the topic comes
  with the first fragment only.\<close>

fun more_fragments :: "nat \<Rightarrow> nat \<Rightarrow> string list \<Rightarrow> mqtt_event list" where
  "more_fragments len off [] = []"
| "more_fragments len off (c # cs) =
     MQTT_EVENT_DATA \<lparr>ev_topic = None, ev_data = c, ev_total = len, ev_offset = off\<rparr>
     # more_fragments len (off + length c) cs"

definition long_message :: "string \<Rightarrow> string \<Rightarrow> string list \<Rightarrow> mqtt_event list" where
  "long_message topic c cs = (let len = length (concat (c # cs))
     in MQTT_EVENT_DATA \<lparr>ev_topic = Some topic, ev_data = c, ev_total = len, ev_offset = 0\<rparr>
        # more_fragments len (length c) cs)"

definition three_allocs :: "'a glue_scheme \<Rightarrow> bool" where
  \<comment> \<open>the next three allocations succeed\<close>
  "three_allocs s \<longleftrightarrow> set (take 3 (mem_ok s)) \<subseteq> {True}"

lemma new_long_data_cases:
  "new_long_data topic len s =
     (if three_allocs s
      then (Some \<lparr>ld_data = replicate len (CHR 0x00), ld_topic = c_string topic\<rparr>,
            s\<lparr>mem_ok := drop 3 (mem_ok s)\<rparr>)
      else (None, s\<lparr>mem_ok := tl (dropWhile id (mem_ok s))\<rparr>))"
proof -
  have s: "s\<lparr>mem_ok := []\<rparr> = s" if "mem_ok s = []" using that by (cases s) simp
  consider "mem_ok s = []" | a where "mem_ok s = [a]" | a b where "mem_ok s = [a, b]"
    | a b c ms where "mem_ok s = a # b # c # ms"
    by (cases "mem_ok s"; cases "tl (mem_ok s)"; cases "tl (tl (mem_ok s))") auto
  then show ?thesis
    by cases (auto simp: new_long_data_def three_allocs_def s)
qed

lemma length_le_concat: "c \<in> set cs \<Longrightarrow> length c \<le> length (concat cs)"
  by (induction cs) auto

lemma more_fragments_dropped:
  assumes "\<forall>c \<in> set cs. length c < len"
  shows "fold (mqtt_event_handler cbs) (more_fragments len off cs) (None, s) = (None, s)"
  using assms by (induction cs arbitrary: off) (auto simp: esp_mqtt_glue_manage_long_data_def)

text \<open>One more fragment at the place where the received part ends.\<close>

lemma fragment_step:
  assumes "c \<noteq> []" "got \<noteq> []" "len = length got + length c + k"
  shows "mqtt_event_handler cbs
      (MQTT_EVENT_DATA \<lparr>ev_topic = None, ev_data = c, ev_total = len, ev_offset = length got\<rparr>)
      (Some \<lparr>ld_data = got @ replicate (length c + k) (CHR 0x00), ld_topic = t\<rparr>, s)
    = (if k = 0 then (None, esp_mqtt_glue_subscribe_callback cbs t (got @ c) s)
       else (Some \<lparr>ld_data = (got @ c) @ replicate k (CHR 0x00), ld_topic = t\<rparr>, s))"
  using assms by (simp add: esp_mqtt_glue_manage_long_data_def Let_def drop_replicate)

lemma more_fragments_delivered:
  assumes "cs \<noteq> []" "[] \<notin> set cs" "got \<noteq> []" "len = length got + length (concat cs)"
  shows "fold (mqtt_event_handler cbs) (more_fragments len (length got) cs)
      (Some \<lparr>ld_data = got @ replicate (length (concat cs)) (CHR 0x00), ld_topic = t\<rparr>, s)
    = (None, esp_mqtt_glue_subscribe_callback cbs t (got @ concat cs) s)"
  using assms
proof (induction cs arbitrary: got)
  case Nil
  then show ?case by simp
next
  case (Cons c cs)
  have c: "c \<noteq> []" and len: "len = length got + length c + length (concat cs)"
    using Cons.prems by auto
  note step = fragment_step [OF c Cons.prems(3) len, of cbs t s]
  have buf: "length (concat (c # cs)) = length c + length (concat cs)" by simp
  show ?case
  proof (cases "cs = []")
    case True
    then show ?thesis using step by simp
  next
    case False
    then have "length (concat cs) \<noteq> 0" using Cons.prems(2) by (cases cs) auto
    moreover have "fold (mqtt_event_handler cbs) (more_fragments len (length (got @ c)) cs)
      (Some \<lparr>ld_data = (got @ c) @ replicate (length (concat cs)) (CHR 0x00), ld_topic = t\<rparr>, s)
      = (None, esp_mqtt_glue_subscribe_callback cbs t ((got @ c) @ concat cs) s)"
      using Cons.prems False by (intro Cons.IH) auto
    ultimately show ?thesis
      unfolding buf more_fragments.simps fold_simps step by auto
  qed
qed

text \<open>C15. A message that arrives in any number of fragments (two or more, none of them empty) is
  handed to the subscriptions of its topic once, as a whole and in order, exactly like a message
  that arrives in one event, whatever a broken message before it left behind; no write passes the
  end of the buffer. If one of the three allocations for it fails, the whole message is dropped
  and nothing else happens.\<close>

theorem long_message_delivered:
  assumes "cs \<noteq> []" "[] \<notin> set (c # cs)" "CHR 0x00 \<notin> set topic"
  shows "fold (mqtt_event_handler cbs) (long_message topic c cs) (ld, s)
      = (None, if three_allocs s
               then esp_mqtt_glue_subscribe_callback cbs topic (concat (c # cs))
                      (s\<lparr>mem_ok := drop 3 (mem_ok s)\<rparr>)
               else s\<lparr>mem_ok := tl (dropWhile id (mem_ok s))\<rparr>)
    \<and> mqtt_event_handler cbs (MQTT_EVENT_DATA \<lparr>ev_topic = Some topic, ev_data = concat (c # cs),
          ev_total = length (concat (c # cs)), ev_offset = 0\<rparr>) (ld, s)
      = (None, esp_mqtt_glue_subscribe_callback cbs topic (concat (c # cs)) s)"
proof -
  let ?len = "length (concat (c # cs))"
  have t: "c_string topic = topic" using assms(3) by (auto simp: c_string_def takeWhile_eq_all_conv)
  have c: "c \<noteq> []" "concat cs \<noteq> []" using assms(1,2) by (cases cs; auto)+
  have small: "length d < ?len" if "d \<in> set cs" for d
    using c(1) length_le_concat [OF that] by (cases c) auto
  have "fold (mqtt_event_handler cbs) (long_message topic c cs) (ld, s)
      = (None, if three_allocs s
               then esp_mqtt_glue_subscribe_callback cbs topic (concat (c # cs))
                      (s\<lparr>mem_ok := drop 3 (mem_ok s)\<rparr>)
               else s\<lparr>mem_ok := tl (dropWhile id (mem_ok s))\<rparr>)"
  proof (cases "three_allocs s")
    case True
    have "fold (mqtt_event_handler cbs) (more_fragments ?len (length c) cs)
        (Some \<lparr>ld_data = c @ replicate (length (concat cs)) (CHR 0x00), ld_topic = topic\<rparr>,
         s\<lparr>mem_ok := drop 3 (mem_ok s)\<rparr>)
      = (None, esp_mqtt_glue_subscribe_callback cbs topic (c @ concat cs) (s\<lparr>mem_ok := drop 3 (mem_ok s)\<rparr>))"
      using assms c by (intro more_fragments_delivered) auto
    moreover have "mqtt_event_handler cbs
        (MQTT_EVENT_DATA \<lparr>ev_topic = Some topic, ev_data = c, ev_total = ?len, ev_offset = 0\<rparr>) (ld, s)
      = (Some \<lparr>ld_data = c @ replicate (length (concat cs)) (CHR 0x00), ld_topic = topic\<rparr>,
         s\<lparr>mem_ok := drop 3 (mem_ok s)\<rparr>)"
      using True c(2) t
      by (auto simp: esp_mqtt_glue_manage_long_data_def new_long_data_cases drop_replicate Let_def)
    ultimately show ?thesis
      using True unfolding long_message_def Let_def fold_simps by simp
  next
    case False
    have "fold (mqtt_event_handler cbs) (more_fragments ?len (length c) cs) (None, u) = (None, u)" for u
      using small by (intro more_fragments_dropped) blast
    moreover have "mqtt_event_handler cbs
        (MQTT_EVENT_DATA \<lparr>ev_topic = Some topic, ev_data = c, ev_total = ?len, ev_offset = 0\<rparr>) (ld, s)
      = (None, s\<lparr>mem_ok := tl (dropWhile id (mem_ok s))\<rparr>)"
      using False c(2)
      by (auto simp: esp_mqtt_glue_manage_long_data_def new_long_data_cases)
    ultimately show ?thesis
      using False unfolding long_message_def Let_def fold_simps by auto
  qed
  then show ?thesis by simp
qed

subsection \<open>The table of subscriptions\<close>

definition glue_ok :: "'a glue_scheme \<Rightarrow> bool" where
  \<comment> \<open>initialised, with all slots\<close>
  "glue_ok s \<longleftrightarrow> (\<exists>d. mqtt_data s = Some d \<and> length (subscriptions d) = MAX_MQTT_SUBSCRIPTIONS)"

definition table :: "'a glue_scheme \<Rightarrow> subscription multiset" where
  "table s = (case mqtt_data s of None \<Rightarrow> {#}
     | Some d \<Rightarrow> image_mset the (filter_mset (\<lambda>x. x \<noteq> None) (mset (subscriptions d))))"

lemma mqtt_data_env [simp]:
  "mqtt_data (emit e s) = mqtt_data s" "mqtt_data (snd (ask s)) = mqtt_data s"
  "mqtt_data (snd (alloc s)) = mqtt_data s" "mqtt_data (snd (call e s)) = mqtt_data s"
  by (simp_all add: emit_def call_def ask_def alloc_def split: list.split)

lemma table_cong:
  "mqtt_data t = mqtt_data s \<Longrightarrow> table t = table s \<and> glue_ok t = glue_ok s \<and> slot t = slot s"
  by (simp add: table_def glue_ok_def slot_def fun_eq_iff)

lemma slot_env [simp]: "slot (emit e s) = slot s" "table (emit e s) = table s" "glue_ok (emit e s) = glue_ok s"
  using table_cong [of "emit e s" s] by simp_all

lemma set_slot_ok [simp]: "glue_ok (set_slot i x s) = glue_ok s"
  by (auto simp: glue_ok_def set_slot_def)

lemma slot_set_slot:
  "glue_ok s \<Longrightarrow> i < MAX_MQTT_SUBSCRIPTIONS \<Longrightarrow> slot (set_slot i x s) j = (if j = i then x else slot s j)"
  by (auto simp: glue_ok_def set_slot_def slot_def)

lemma set_slot_table:
  assumes "glue_ok s" "i < MAX_MQTT_SUBSCRIPTIONS"
  shows "slot s i = None \<Longrightarrow> table (set_slot i (Some x) s) = add_mset x (table s)"
    "slot s i = Some x \<Longrightarrow> x \<in># table s \<and> table (set_slot i None s) = table s - {#x#}"
proof -
  obtain d where d: "mqtt_data s = Some d" "length (subscriptions d) = MAX_MQTT_SUBSCRIPTIONS"
    using assms(1) by (auto simp: glue_ok_def)
  then have i: "i < length (subscriptions d)" using assms(2) by simp
  show "table (set_slot i (Some x) s) = add_mset x (table s)" if "slot s i = None"
    using that d i by (simp add: table_def set_slot_def slot_def mset_update)
  show "x \<in># table s \<and> table (set_slot i None s) = table s - {#x#}" if x: "slot s i = Some x"
  proof -
    let ?M = "filter_mset (\<lambda>x. x \<noteq> None) (mset (subscriptions d))"
    have m: "Some x \<in># ?M" using x d i nth_mem [OF i] by (simp add: slot_def)
    then have "image_mset the (?M - {#Some x#}) = image_mset the ?M - {#x#}"
      by (simp add: image_mset_Diff)
    moreover have "x \<in># image_mset the ?M" using m by force
    ultimately show ?thesis
      using x d i by (simp add: table_def set_slot_def slot_def mset_update)
  qed
qed

lemma table_full:
  assumes "glue_ok s"
  shows "size (table s) \<le> MAX_MQTT_SUBSCRIPTIONS"
    "(\<forall>i < MAX_MQTT_SUBSCRIPTIONS. slot s i \<noteq> None) \<longleftrightarrow> size (table s) = MAX_MQTT_SUBSCRIPTIONS"
proof -
  obtain d where d: "mqtt_data s = Some d" "length (subscriptions d) = MAX_MQTT_SUBSCRIPTIONS"
    using assms by (auto simp: glue_ok_def)
  have n: "size (table s) = length (filter (\<lambda>x. x \<noteq> None) (subscriptions d))"
    using d by (simp add: table_def flip: mset_filter)
  then show "size (table s) \<le> MAX_MQTT_SUBSCRIPTIONS" using d(2) by simp (metis length_filter_le)
  have "(\<forall>i < MAX_MQTT_SUBSCRIPTIONS. slot s i \<noteq> None) \<longleftrightarrow> (\<forall>x \<in> set (subscriptions d). x \<noteq> None)"
    using d by (auto simp: slot_def all_set_conv_all_nth)
  also have "\<dots> \<longleftrightarrow> length (filter (\<lambda>x. x \<noteq> None) (subscriptions d)) = length (subscriptions d)"
    by (auto simp: filter_True dest: length_filter_less)
  finally show "(\<forall>i < MAX_MQTT_SUBSCRIPTIONS. slot s i \<noteq> None) \<longleftrightarrow> size (table s) = MAX_MQTT_SUBSCRIPTIONS"
    using n d(2) by simp
qed

lemma table_member:
  assumes "glue_ok s"
  shows "x \<in># table s \<longleftrightarrow> (\<exists>i < MAX_MQTT_SUBSCRIPTIONS. slot s i = Some x)"
proof -
  obtain d where d: "mqtt_data s = Some d" "length (subscriptions d) = MAX_MQTT_SUBSCRIPTIONS"
    using assms by (auto simp: glue_ok_def)
  have "x \<in># table s \<longleftrightarrow> Some x \<in> set (subscriptions d)"
    using d by (force simp: table_def)
  then show ?thesis using d by (auto simp: slot_def in_set_conv_nth)
qed

text \<open>The search of a slot.\<close>

lemma find_slot:
  "List.find P [0..<n] = Some i \<Longrightarrow> i < n \<and> P i \<and> (\<forall>j < i. \<not> P j)"
  "List.find P [0..<n] = None \<Longrightarrow> i < n \<Longrightarrow> \<not> P i"
  by (auto simp: find_Some_iff find_None_iff)

lemma subscribe_cases:
  assumes "glue_ok s" "esp_mqtt_glue_subscribe (Some t) (Some f) qos p s = (err, s')"
  shows "glue_ok s' \<and> (err = ESP_OK \<and> size (table s) < MAX_MQTT_SUBSCRIPTIONS
      \<and> table s' = add_mset \<lparr>sub_topic = t, sub_cb = f, sub_priv = p\<rparr> (table s)
    \<or> err = ESP_FAIL \<and> table s' = table s \<and> (size (table s) = MAX_MQTT_SUBSCRIPTIONS \<longrightarrow> s' = s))"
proof -
  obtain d where d: "mqtt_data s = Some d" using assms(1) by (auto simp: glue_ok_def)
  show ?thesis
  proof (cases "List.find (\<lambda>i. slot s i = None) [0..<MAX_MQTT_SUBSCRIPTIONS]")
    case None
    then show ?thesis using assms d by (simp add: esp_mqtt_glue_subscribe_def)
  next
    case (Some i)
    note i = find_slot(1) [OF Some]
    have lt: "size (table s) < MAX_MQTT_SUBSCRIPTIONS"
      using table_full [OF assms(1)] i by (meson order_neq_le_trans)
    obtain a s1 where a: "alloc s = (a, s1)" by fastforce
    obtain b s2 where b: "alloc s1 = (b, s2)" by fastforce
    obtain r s3 where c: "call (Net (MqttClientSubscribe t qos)) s2 = (r, s3)" by fastforce
    have m: "mqtt_data s1 = mqtt_data s" "mqtt_data s2 = mqtt_data s" "mqtt_data s3 = mqtt_data s"
      using mqtt_data_env(3) [of s] mqtt_data_env(3) [of s1]
        mqtt_data_env(4) [of "Net (MqttClientSubscribe t qos)" s2] a b c by simp_all
    note k = table_cong [OF m(1)] table_cong [OF m(2)] table_cong [OF m(3)]
    have "table (set_slot i (Some x) s3) = add_mset x (table s)" for x
      using set_slot_table(1) [of s3 i x] k i assms(1) by simp
    then show ?thesis
      using assms d Some a b c k lt
      by (auto simp: esp_mqtt_glue_subscribe_def Let_def split: if_splits)
  qed
qed

lemma unsubscribe_cases:
  assumes "glue_ok s" "esp_mqtt_glue_unsubscribe (Some t) s = (err, s')"
  shows "glue_ok s' \<and> (err = ESP_OK \<and> (\<exists>x \<in># table s. take (length t) (sub_topic x) = t \<and> table s' = table s - {#x#})
    \<or> err = ESP_FAIL \<and> table s' = table s \<and> (\<forall>x \<in># table s. take (length t) (sub_topic x) \<noteq> t))"
proof -
  obtain d where d: "mqtt_data s = Some d" using assms(1) by (auto simp: glue_ok_def)
  let ?P = "\<lambda>i. case slot s i of None \<Rightarrow> False | Some x \<Rightarrow> strncmp_eq t (sub_topic x) (length t)"
  let ?u = "emit (Net (MqttClientUnsubscribe t)) s"
  show ?thesis
  proof (cases "List.find ?P [0..<MAX_MQTT_SUBSCRIPTIONS]")
    case None
    then have "err = ESP_FAIL" "s' = ?u" using assms d by (simp_all add: esp_mqtt_glue_unsubscribe_def)
    moreover have "take (length t) (sub_topic x) \<noteq> t" if "x \<in># table s" for x
      using that find_slot(2) [OF None] by (fastforce simp: table_member [OF assms(1)] strncmp_eq_def)
    ultimately show ?thesis using assms(1) by simp
  next
    case (Some i)
    note i = find_slot(1) [OF Some]
    then obtain x where x: "slot s i = Some x" "take (length t) (sub_topic x) = t"
      by (auto simp: strncmp_eq_def split: option.splits)
    have "err = ESP_OK" "s' = set_slot i None ?u" using assms d Some by (simp_all add: esp_mqtt_glue_unsubscribe_def)
    then show ?thesis using set_slot_table(2) [of ?u i x] x i assms(1) by auto
  qed
qed

lemma unsubscribe_slot_below:
  assumes "glue_ok s" "i < MAX_MQTT_SUBSCRIPTIONS" "\<forall>j < i. slot s j = None"
  shows "glue_ok (unsubscribe_slot i s) \<and> (\<forall>j < Suc i. slot (unsubscribe_slot i s) j = None)"
proof (cases "slot s i")
  case None
  then show ?thesis using assms by (auto simp: unsubscribe_slot_def less_Suc_eq)
next
  case (Some x)
  obtain d where d: "mqtt_data s = Some d" using assms(1) by (auto simp: glue_ok_def)
  let ?P = "\<lambda>i. case slot s i of None \<Rightarrow> False
    | Some y \<Rightarrow> strncmp_eq (sub_topic x) (sub_topic y) (length (sub_topic x))"
  have "List.find ?P [0..<MAX_MQTT_SUBSCRIPTIONS] = Some i"
    using assms Some by (force simp: find_Some_iff)
  then have "unsubscribe_slot i s = set_slot i None (emit (Net (MqttClientUnsubscribe (sub_topic x))) s)"
    using Some d by (simp add: unsubscribe_slot_def esp_mqtt_glue_unsubscribe_def)
  then show ?thesis using assms by (auto simp: slot_set_slot less_Suc_eq)
qed

lemma unsubscribe_all_empty:
  assumes "glue_ok s"
  shows "glue_ok (esp_mqtt_glue_unsubscribe_all s) \<and> table (esp_mqtt_glue_unsubscribe_all s) = {#}"
proof -
  have "glue_ok (fold unsubscribe_slot [0..<n] s) \<and> (\<forall>j < n. slot (fold unsubscribe_slot [0..<n] s) j = None)"
    if "n \<le> MAX_MQTT_SUBSCRIPTIONS" for n
    using that
  proof (induction n)
    case 0
    then show ?case using assms by simp
  next
    case (Suc n)
    then show ?case using unsubscribe_slot_below [of "fold unsubscribe_slot [0..<n] s" n] by simp
  qed
  from this [of MAX_MQTT_SUBSCRIPTIONS]
  have "glue_ok (esp_mqtt_glue_unsubscribe_all s)"
    "\<forall>j < MAX_MQTT_SUBSCRIPTIONS. slot (esp_mqtt_glue_unsubscribe_all s) j = None"
    using assms by (auto simp: esp_mqtt_glue_unsubscribe_all_def glue_ok_def)
  then show ?thesis
    using table_member [of "esp_mqtt_glue_unsubscribe_all s"] by (metis multiset_nonemptyE option.simps(3))
qed

text \<open>The table refines a bounded multiset of subscriptions. A subscription adds itself, or
  fails and leaves the table alone; a full table of five refuses it without a call of the client.
  Removing a topic removes one subscription whose topic begins with it (not necessarily the same
  topic), or fails if there is none. A disconnection empties the table.\<close>

theorem glue_table_refines:
  assumes "glue_ok s"
  shows "(esp_mqtt_glue_subscribe (Some t) (Some f) qos p s = (err, s') \<longrightarrow>
        glue_ok s' \<and> (err = ESP_OK \<and> size (table s) < 5
            \<and> table s' = add_mset \<lparr>sub_topic = t, sub_cb = f, sub_priv = p\<rparr> (table s)
          \<or> err = ESP_FAIL \<and> table s' = table s \<and> (size (table s) = 5 \<longrightarrow> s' = s)))
    \<and> (esp_mqtt_glue_unsubscribe (Some t) s = (err, s') \<longrightarrow>
        glue_ok s' \<and> (err = ESP_OK \<and> (\<exists>x \<in># table s. take (length t) (sub_topic x) = t \<and> table s' = table s - {#x#})
          \<or> err = ESP_FAIL \<and> table s' = table s \<and> (\<forall>x \<in># table s. take (length t) (sub_topic x) \<noteq> t)))
    \<and> (esp_mqtt_glue_disconnect s = (err, s') \<longrightarrow> glue_ok s' \<and> table s' = {#})
    \<and> size (table s) \<le> 5"
proof (intro conjI impI)
  show "glue_ok s'" "table s' = {#}" if "esp_mqtt_glue_disconnect s = (err, s')"
  proof -
    have "mqtt_data s \<noteq> None" using assms by (auto simp: glue_ok_def)
    then have "s' = snd (call (Net (MqttClientCall ''esp_mqtt_client_stop'')) (esp_mqtt_glue_unsubscribe_all s))"
      using that unfolding esp_mqtt_glue_disconnect_def by (metis snd_conv)
    then have "mqtt_data s' = mqtt_data (esp_mqtt_glue_unsubscribe_all s)" by simp
    from table_cong [OF this] unsubscribe_all_empty [OF assms] show "glue_ok s'" "table s' = {#}" by simp_all
  qed
qed (use subscribe_cases [OF assms] unsubscribe_cases [OF assms] table_full(1) [OF assms]
     in \<open>auto simp: MAX_MQTT_SUBSCRIPTIONS_def\<close>)

subsection \<open>Witnesses\<close>

definition ex_glue :: glue where
  \<comment> \<open>one subscription, of the topic \<open>ta\<close>, in the second slot\<close>
  "ex_glue = \<lparr>trace = [], inputs = [], mem_ok = [],
     mqtt_data = Some \<lparr>mqtt_client = 1,
       gd_conn_params = \<lparr>cp_mqtt_host = ''h'', cp_client_id = ''n'', cp_client_cert = [], cp_client_key = [],
         cp_server_cert = []\<rparr>,
       subscriptions = [None, Some \<lparr>sub_topic = ''ta'', sub_cb = ''f'', sub_priv = None\<rparr>, None, None, None]\<rparr>,
     mqtt_event_group = True\<rparr>"

definition ex_log :: "unit callbacks" where
  "ex_log f t d p s = emit (App (f @ '' '' @ t @ '' '' @ d) []) s"

lemma long_message_delivered_witness:
  "trace (snd (fold (mqtt_event_handler ex_log) (long_message ''ta'' ''ab'' [''c'', ''de'']) (None, ex_glue)))
     = [App ''f ta abcde'' []]"
proof -
  have "fold (mqtt_event_handler ex_log) (long_message ''ta'' ''ab'' [''c'', ''de'']) (None, ex_glue)
      = (None, esp_mqtt_glue_subscribe_callback ex_log ''ta'' ''abcde'' ex_glue)"
    using long_message_delivered [of "[''c'', ''de'']" "''ab''" "''ta''" ex_log None ex_glue]
    by (simp add: three_allocs_def ex_glue_def)
  moreover have "trace (esp_mqtt_glue_subscribe_callback ex_log ''ta'' ''abcde'' ex_glue) = [App ''f ta abcde'' []]"
    by code_simp
  ultimately show ?thesis by simp
qed

text \<open>Removing \<open>t\<close>, which nobody subscribed to, removes the subscription of \<open>ta\<close>.\<close>

lemma glue_table_refines_witness:
  "esp_mqtt_glue_unsubscribe (Some ''t'') ex_glue = (ESP_OK, snd (esp_mqtt_glue_unsubscribe (Some ''t'') ex_glue))
   \<and> table (snd (esp_mqtt_glue_unsubscribe (Some ''t'') ex_glue)) = {#}"
proof -
  have ok: "glue_ok ex_glue" by (simp add: glue_ok_def ex_glue_def MAX_MQTT_SUBSCRIPTIONS_def)
  have t: "table ex_glue = {#\<lparr>sub_topic = ''ta'', sub_cb = ''f'', sub_priv = None\<rparr>#}"
    by (simp add: table_def ex_glue_def)
  from glue_table_refines [OF ok, of "''t''" _ _ _ "fst (esp_mqtt_glue_unsubscribe (Some ''t'') ex_glue)"
      "snd (esp_mqtt_glue_unsubscribe (Some ''t'') ex_glue)"]
  show ?thesis by (auto simp: t prod_eq_iff)
qed

end
