(* ===== verification/Rm_Claim.thy ===== *)
theory Rm_Claim
  imports Rm_Core
begin

text \<open>
  Assisted claiming, \<open>esp_rmaker_claim.c\<close> with \<open>CONFIG_ESP_RMAKER_ASSISTED_CLAIM\<close>: a phone that
  provisions the device carries the messages between the device and the claiming service. The
  device creates a key, answers the start of the claim, takes the node identifier, hands out a
  certificate request in fragments and takes the certificate, also in fragments.

  The cryptography (\<open>mbedtls\<close>) answers calls, and the texts it makes are in \<open>claim_env\<close>, with the
  JSON tokenizer and the unpacking of protobuf messages. Commands and responses are given
  unpacked. \<open>payload\<close> is kept as the array it is, because what is left in it matters; an access
  outside an array has no meaning in C and is marked \<open>Abort\<close> in the trace. What a fragment
  written outside \<open>payload\<close> makes of the claim is \<open>ce_wild\<close>, which is not restricted: the state
  and the request lie in front of the array in memory. The arrays' sizes are those of
  \<open>esp_rmaker_claim.h\<close>. The functions that handle a command always return \<open>ESP_OK\<close>, which their
  caller ignores; they give the response instead.
\<close>

subsection \<open>Data\<close>

definition MAX_CSR_SIZE :: nat where "MAX_CSR_SIZE = 1024"
definition MAX_PAYLOAD_SIZE :: nat where "MAX_PAYLOAD_SIZE = 3072"
definition CLAIM_FRAGMENT_SIZE :: u32 where "CLAIM_FRAGMENT_SIZE = 200"
definition ESP_RMAKER_RANDOM_NUMBER_LEN :: nat where "ESP_RMAKER_RANDOM_NUMBER_LEN = 64"

text \<open>The states are compared with \<open><\<close>; the value 0 of a fresh structure is \<open>CLAIM_STATE_ZERO\<close>.\<close>

datatype claim_state =
  CLAIM_STATE_ZERO | RMAKER_CLAIM_STATE_PK_GENERATED | RMAKER_CLAIM_STATE_INIT
  | RMAKER_CLAIM_STATE_INIT_DONE | RMAKER_CLAIM_STATE_CSR_GENERATED | RMAKER_CLAIM_STATE_VERIFY
  | RMAKER_CLAIM_STATE_VERIFY_DONE

fun claim_value :: "claim_state \<Rightarrow> nat" where
  "claim_value CLAIM_STATE_ZERO = 0"
| "claim_value RMAKER_CLAIM_STATE_PK_GENERATED = 1"
| "claim_value RMAKER_CLAIM_STATE_INIT = 2"
| "claim_value RMAKER_CLAIM_STATE_INIT_DONE = 3"
| "claim_value RMAKER_CLAIM_STATE_CSR_GENERATED = 4"
| "claim_value RMAKER_CLAIM_STATE_VERIFY = 5"
| "claim_value RMAKER_CLAIM_STATE_VERIFY_DONE = 6"

lemma claim_value_inj: "claim_value a = claim_value b \<Longrightarrow> a = b"
  by (cases a; cases b) simp_all

instantiation claim_state :: linorder
begin

definition less_eq_claim_state :: "claim_state \<Rightarrow> claim_state \<Rightarrow> bool" where
  "less_eq_claim_state a b \<longleftrightarrow> claim_value a \<le> claim_value b"

definition less_claim_state :: "claim_state \<Rightarrow> claim_state \<Rightarrow> bool" where
  "less_claim_state a b \<longleftrightarrow> claim_value a < claim_value b"

instance
  by standard (auto simp: less_eq_claim_state_def less_claim_state_def intro: claim_value_inj)

end

record claim =
  cl_state :: claim_state
  cl_csr :: string
  cl_payload :: string \<comment> \<open>the whole array\<close>
  cl_offset :: u32
  cl_len :: u32
  cl_key :: bool \<comment> \<open>a key is set up\<close>

definition claim0 :: claim where
  "claim0 = \<lparr>cl_state = CLAIM_STATE_ZERO, cl_csr = [], cl_payload = replicate MAX_PAYLOAD_SIZE (CHR 0x00),
     cl_offset = 0, cl_len = 0, cl_key = False\<rparr>"

record payload_buf =
  pb_offset :: u32
  pb_data :: string
  pb_totallen :: u32

datatype claim_payload = NOT_SET | CMD_PAYLOAD "payload_buf option" | RESP_PAYLOAD

record claim_command =
  cc_msg :: int
  cc_payload :: claim_payload

datatype claim_status =
  Claim_Success | Claim_Fail | Claim_InvalidParam | Claim_InvalidState | Claim_NoMemory

record claim_response =
  cr_msg :: int
  cr_status :: claim_status
  cr_buf :: payload_buf

record claim_env =
  csr_pem :: "string \<Rightarrow> string" \<comment> \<open>for a subject name\<close>
  key_pem :: string
  ce_parse :: "string \<Rightarrow> jparse_ctx option"
  ce_unpack :: "string \<Rightarrow> claim_command option"
  ce_wild :: "payload_buf \<Rightarrow> claim \<Rightarrow> claim" \<comment> \<open>the claim after a write outside \<open>payload\<close>\<close>

text \<open>The static variables: the event group and whether its bit is set.\<close>

record claim_lib = core +
  claim_event_group :: "bool option"

subsection \<open>The array\<close>

definition array_of :: "string \<Rightarrow> string" where
  \<comment> \<open>the zeroed array with a string at its start\<close>
  "array_of t = take MAX_PAYLOAD_SIZE (t @ replicate MAX_PAYLOAD_SIZE (CHR 0x00))"

definition put_string :: "string \<Rightarrow> string \<Rightarrow> string" where
  \<comment> \<open>a string and its zero over the start of an array\<close>
  "put_string t a = t @ CHR 0x00 # drop (Suc (length t)) a"

definition put_at :: "nat \<Rightarrow> string \<Rightarrow> string \<Rightarrow> string" where
  "put_at i t a = take i a @ t @ drop (i + length t) a"

definition payload_text :: "claim \<Rightarrow> string option" where
  \<comment> \<open>the string in it; without a zero, \<open>strlen\<close> leaves the array\<close>
  "payload_text c = (if CHR 0x00 \<in> set (cl_payload c) then Some (c_string (cl_payload c)) else None)"

subsection \<open>New lines\<close>

definition escape_chars :: "string \<Rightarrow> string" where
  "escape_chars t = concat (map (\<lambda>c. if c = CHR 0x0A then [CHR 0x5C, CHR ''n''] else [c]) t)"

text \<open>In front of \<open>csr\<close> lies the state, whose last byte is 0: an empty \<open>csr\<close> is left alone.\<close>

definition escape_new_line :: "claim \<Rightarrow> 'a plat_scheme \<Rightarrow> claim \<times> 'a plat_scheme" where
  "escape_new_line c s =
     (let str = (if cl_csr c \<noteq> [] \<and> last (cl_csr c) = CHR 0x0A then butlast (cl_csr c) else cl_csr c);
          t = escape_chars str;
          c = c\<lparr>cl_payload := array_of t, cl_csr := t\<rparr>
      in (c, if MAX_CSR_SIZE \<le> length t \<or> MAX_PAYLOAD_SIZE \<le> length t then emit (Os Abort) s else s))"

text \<open>
  The array with the text and its zero; \<open>None\<close> if the loop reads past the array. The text is
  rewritten in place, behind what is read.
\<close>

fun unescape_chars :: "string \<Rightarrow> string option" where
  "unescape_chars [] = None"
| "unescape_chars (c # r) =
     (if c = CHR 0x00 then Some []
      else if c = CHR 0x5C then
        (case r of [] \<Rightarrow> None
         | d # r' \<Rightarrow>
             if d = CHR ''n'' then
               (case r' of [] \<Rightarrow> None
                | e # r'' \<Rightarrow> map_option (\<lambda>t. CHR 0x0A # e # t) (unescape_chars r''))
             else map_option (\<lambda>t. d # t) (unescape_chars r'))
      else map_option (\<lambda>t. c # t) (unescape_chars r))"

definition unescape_new_line :: "string \<Rightarrow> string option" where
  "unescape_new_line a = map_option c_string (unescape_chars a)"

subsection \<open>Key and request\<close>

definition crypto :: "string \<Rightarrow> effect" where
  "crypto f = App f []"

definition esp_rmaker_claim_generate_csr ::
  "claim_env \<Rightarrow> string option \<Rightarrow> claim \<Rightarrow> 'a plat_scheme \<Rightarrow> esp_err \<times> claim \<times> 'a plat_scheme" where
  "esp_rmaker_claim_generate_csr env common_name c s =
     (case common_name of None \<Rightarrow> (ESP_ERR_INVALID_ARG, c, s)
      | Some name \<Rightarrow>
          let (ret, s) = call (crypto ''mbedtls_ctr_drbg_seed'') s
          in if ret \<noteq> 0 then (ret, c, s)
             else
               let subject = snprintf 50 (''CN='' @ name);
                   (ret, s) = call (crypto ''mbedtls_x509write_csr_set_subject_name'') s
               in if ret \<noteq> 0 then (ret, c, s)
                  else
                    let (ret, s) = call (crypto ''mbedtls_x509write_csr_pem'') s
                    in if ret < 0 then (ret, c\<lparr>cl_csr := []\<rparr>, s)
                       else (ret, c\<lparr>cl_csr := csr_pem env subject,
                                   cl_state := RMAKER_CLAIM_STATE_CSR_GENERATED\<rparr>, s))"

definition esp_rmaker_claim_generate_key ::
  "claim_env \<Rightarrow> claim \<Rightarrow> 'a plat_scheme \<Rightarrow> esp_err \<times> claim \<times> 'a plat_scheme" where
  "esp_rmaker_claim_generate_key env c s =
     (let c = c\<lparr>cl_key := False, cl_payload := array_of []\<rparr>;
          (ret, s) = call (crypto ''mbedtls_ctr_drbg_seed'') s
      in if ret \<noteq> 0 then (ret, c, s)
         else
           let (ret, s) = call (crypto ''mbedtls_pk_setup'') s
           in if ret \<noteq> 0 then (ret, c, s)
              else
                let (ret, s) = call (crypto ''mbedtls_rsa_gen_key'') s
                in if ret \<noteq> 0 then (ret, c, s)
                   else
                     let c = c\<lparr>cl_state := RMAKER_CLAIM_STATE_PK_GENERATED, cl_key := True\<rparr>;
                         (ret, s) = call (crypto ''mbedtls_pk_write_key_pem'') s
                     in if ret \<noteq> 0 then (ret, c\<lparr>cl_key := False\<rparr>, s)
                        else (ret, c\<lparr>cl_payload := array_of (key_pem env)\<rparr>, s))"

definition handle_claim_verify_response ::
  "claim_env \<Rightarrow> claim \<Rightarrow> 'a core_scheme \<Rightarrow> esp_err \<times> 'a core_scheme" where
  "handle_claim_verify_response env c s =
     (case payload_text c of None \<Rightarrow> (ESP_FAIL, emit (Os Abort) s)
      | Some t \<Rightarrow>
          (case ce_parse env t of None \<Rightarrow> (ESP_FAIL, s)
           | Some jctx \<Rightarrow>
               (case json_obj_get_strlen jctx ''certificate'' of None \<Rightarrow> (ESP_FAIL, s)
                | Some len \<Rightarrow>
                    let (ok, s) = alloc s
                    in if \<not> ok then (ESP_ERR_NO_MEM, s)
                       else
                         let txt = str_opt (json_obj_get_string jctx ''certificate'' (len + 1));
                             certificate = txt @ replicate (nat len + 1 - length txt) (CHR 0x00)
                         in (case unescape_new_line certificate of
                               None \<Rightarrow> (ESP_FAIL, emit (Os Abort) s)
                             | Some x \<Rightarrow> esp_rmaker_factory_set ''client_cert'' x s))))"

definition generate_claim_init_request ::
  "claim \<Rightarrow> 'a core_scheme \<Rightarrow> esp_err \<times> claim \<times> 'a core_scheme" where
  "generate_claim_init_request c s =
     (if cl_state c < RMAKER_CLAIM_STATE_PK_GENERATED then (ESP_ERR_INVALID_STATE, c, s)
      else
        let (err, s) = call (Net (WifiCall ''esp_wifi_get_mac'' [])) s
        in if err \<noteq> ESP_OK then (err, c, s)
           else
             let (mac, s) = ask_mac 6 s;
                 t = snprintf MAX_PAYLOAD_SIZE (''{\"mac_addr\":\"'' @ concat (map hex2_upper mac)
                       @ ''\",\"platform\":\"esp32c3\"}'')
             in (ESP_OK, c\<lparr>cl_payload := put_string t (cl_payload c),
                           cl_len := word_of_nat (length t), cl_offset := 0\<rparr>, s))"

definition esp_rmaker_claim_data_free :: "claim option \<Rightarrow> 'a core_scheme \<Rightarrow> 'a core_scheme" where
  "esp_rmaker_claim_data_free c s =
     (if c = None then s else emit (crypto ''mbedtls_pk_free'') s)"

text \<open>The task that makes the request runs while its caller waits for it.\<close>

definition esp_rmaker_claim_csr_task ::
  "claim_env \<Rightarrow> claim \<Rightarrow> 'a core_scheme \<Rightarrow> claim \<times> 'a core_scheme" where
  "esp_rmaker_claim_csr_task env c s =
     (let (_, c, s) = esp_rmaker_claim_generate_csr env (esp_rmaker_get_node_id s) c s
      in (c, emit (Os (TaskDelete ''claim_csr_task'')) (emit (Os EventGroupSetBits) s)))"

definition wait_for_csr :: "claim_env \<Rightarrow> claim \<Rightarrow> 'a core_scheme \<Rightarrow> esp_err \<times> claim \<times> 'a core_scheme" where
  \<comment> \<open>\<open>_esp_rmaker_claim_generate_csr\<close>\<close>
  "wait_for_csr env c s =
     (let (ok, s) = alloc (emit (Os EventGroupCreate) s)
      in if \<not> ok then (ESP_ERR_NO_MEM, c, s)
         else
           let (r, s) = call (Os (TaskCreate ''esp_rmaker_claim_csr_task'' 10240 6)) s
           in if r \<noteq> pdTRUE then (ESP_ERR_NO_MEM, c, emit (Os EventGroupDelete) s)
              else
                let (c, s) = esp_rmaker_claim_csr_task env c s;
                    s = emit (Os EventGroupWaitBits) s
                in (if cl_state c = RMAKER_CLAIM_STATE_CSR_GENERATED then ESP_OK else ESP_FAIL, c, s))"

definition csr_document :: "string \<Rightarrow> string" where
  "csr_document csr =
     (let j = json_gen_str_start True (int MAX_PAYLOAD_SIZE) False;
          j = snd (json_gen_start_object j);
          j = set_str ''csr'' (Some csr) j;
          j = snd (json_gen_end_object j);
          (_, txt, _) = json_gen_str_end j
      in str_opt txt)"

definition handle_assisted_claim_init_response ::
  "claim_env \<Rightarrow> claim \<Rightarrow> 'a core_scheme \<Rightarrow> esp_err \<times> claim \<times> 'a core_scheme" where
  "handle_assisted_claim_init_response env c s =
     (case payload_text c of None \<Rightarrow> (ESP_FAIL, c, emit (Os Abort) s)
      | Some t \<Rightarrow>
          (case ce_parse env t of None \<Rightarrow> (ESP_FAIL, c, s)
           | Some jctx \<Rightarrow>
               (case json_obj_get_string jctx ''node_id'' 64 of None \<Rightarrow> (ESP_FAIL, c, s)
                | Some node_id \<Rightarrow>
                    let (_, s) = esp_rmaker_factory_set ''node_id'' node_id s;
                        (_, s) = esp_rmaker_change_node_id node_id s;
                        (err, c, s) = wait_for_csr env c s
                    in if err \<noteq> ESP_OK then (err, c, s)
                       else
                         let (c, s) = escape_new_line c s;
                             doc = csr_document (cl_csr c)
                         in (ESP_OK, c\<lparr>cl_payload := put_string doc (cl_payload c),
                                       cl_len := word_of_nat (length doc), cl_offset := 0\<rparr>, s))))"

subsection \<open>Commands\<close>

definition with_status :: "claim_status \<Rightarrow> claim_response \<Rightarrow> claim_response" where
  "with_status st r = r\<lparr>cr_status := st\<rparr>"

definition esp_rmaker_assisted_claim_handle_start ::
  "claim_response \<Rightarrow> claim \<Rightarrow> 'a core_scheme \<Rightarrow> claim_response \<times> claim \<times> 'a core_scheme" where
  "esp_rmaker_assisted_claim_handle_start r c s =
     (if cl_state c < RMAKER_CLAIM_STATE_PK_GENERATED then (with_status Claim_InvalidState r, c, s)
      else
        let (err, c, s) = generate_claim_init_request c s
        in if err \<noteq> ESP_OK then (r, c, s)
           else (r\<lparr>cr_buf := \<lparr>pb_offset = 0, pb_data = take (unat (cl_len c)) (cl_payload c),
                     pb_totallen = cl_len c\<rparr>, cr_status := Claim_Success\<rparr>,
                 c\<lparr>cl_state := RMAKER_CLAIM_STATE_INIT\<rparr>, s))"

text \<open>The sum of length and offset is computed with 32 bits.\<close>

definition esp_rmaker_assisted_claim_validate_data ::
  "payload_buf option \<Rightarrow> claim_response \<Rightarrow> string option \<times> claim_response" where
  "esp_rmaker_assisted_claim_validate_data recv r =
     (case recv of None \<Rightarrow> (None, with_status Claim_InvalidParam r)
      | Some b \<Rightarrow>
          if pb_totallen b < word_of_nat (length (pb_data b)) + pb_offset b
          then (None, with_status Claim_InvalidParam r)
          else if MAX_PAYLOAD_SIZE \<le> length (pb_data b) then (None, with_status Claim_NoMemory r)
          else (Some (pb_data b), r))"

text \<open>What \<open>handle_init\<close> does in every case at last: the next fragment of the request.\<close>

definition next_fragment :: "claim_response \<Rightarrow> claim \<Rightarrow> claim_response \<times> claim" where
  "next_fragment r c =
     (let left = cl_len c - cl_offset c;
          n = (if CLAIM_FRAGMENT_SIZE < left then CLAIM_FRAGMENT_SIZE else left);
          buf = \<lparr>pb_offset = cl_offset c, pb_data = take (unat n) (drop (unat (cl_offset c)) (cl_payload c)),
                 pb_totallen = cl_len c\<rparr>;
          c = c\<lparr>cl_offset := cl_offset c + n\<rparr>
      in (r\<lparr>cr_buf := buf, cr_status := Claim_Success\<rparr>,
          if cl_offset c = cl_len c then c\<lparr>cl_state := RMAKER_CLAIM_STATE_VERIFY\<rparr> else c))"

definition esp_rmaker_assisted_claim_handle_init ::
  "claim_env \<Rightarrow> claim_payload \<Rightarrow> claim_response \<Rightarrow> claim \<Rightarrow> 'a core_scheme
    \<Rightarrow> claim_response \<times> claim \<times> 'a core_scheme" where
  "esp_rmaker_assisted_claim_handle_init env p r c s =
     (if cl_state c < RMAKER_CLAIM_STATE_INIT then (with_status Claim_InvalidState r, c, s)
      else if cl_state c = RMAKER_CLAIM_STATE_INIT_DONE then
        let (r, c) = next_fragment r c in (r, c, s)
      else
        (case p of
           CMD_PAYLOAD recv \<Rightarrow>
             (case esp_rmaker_assisted_claim_validate_data recv r of
                (None, r) \<Rightarrow> (r, c, s)
              | (Some d, r) \<Rightarrow>
                  if recv = None \<or> word_of_nat (length d) \<noteq> pb_totallen (the recv)
                  then (with_status Claim_InvalidParam r, c, s)
                  else
                    let (err, c, s) = handle_assisted_claim_init_response env (c\<lparr>cl_payload := array_of d\<rparr>) s
                    in if err \<noteq> ESP_OK then (with_status Claim_InvalidParam r, c, s)
                       else
                         let (r, c) = next_fragment r (c\<lparr>cl_state := RMAKER_CLAIM_STATE_INIT_DONE\<rparr>)
                         in (r, c, s))
         | _ \<Rightarrow> (with_status Claim_InvalidParam r, c, s)))"

text \<open>
  The fragment of a received certificate, put where its offset says. Outside the array the write
  may change every field of the claim, its state included.
\<close>

definition take_fragment ::
  "claim_env \<Rightarrow> payload_buf \<Rightarrow> claim \<Rightarrow> 'a plat_scheme \<Rightarrow> claim \<times> 'a plat_scheme" where
  "take_fragment env b c s =
     (let c = (if pb_offset b = 0 then c\<lparr>cl_payload := array_of [], cl_offset := 0, cl_len := 0\<rparr> else c);
          c = c\<lparr>cl_offset := pb_offset b\<rparr>;
          i = unat (cl_offset c);
          out = MAX_PAYLOAD_SIZE < i + length (pb_data b);
          c = (if out then ce_wild env b c else c\<lparr>cl_payload := put_at i (pb_data b) (cl_payload c)\<rparr>)
      in (c\<lparr>cl_len := cl_len c + word_of_nat (length (pb_data b))\<rparr>,
          if out then emit (Os Abort) s else s))"

definition esp_rmaker_assisted_claim_handle_verify ::
  "claim_env \<Rightarrow> claim_payload \<Rightarrow> claim_response \<Rightarrow> claim \<Rightarrow> 'a claim_lib_scheme
    \<Rightarrow> claim_response \<times> claim \<times> 'a claim_lib_scheme" where
  "esp_rmaker_assisted_claim_handle_verify env p r c s =
     (if cl_state c < RMAKER_CLAIM_STATE_VERIFY then (with_status Claim_InvalidState r, c, s)
      else
        (case p of
           CMD_PAYLOAD recv \<Rightarrow>
             (case (recv, esp_rmaker_assisted_claim_validate_data recv r) of
                (Some b, Some d, r) \<Rightarrow>
                  let (c, s) = take_fragment env b c s
                  in if pb_offset b + word_of_nat (length d) = pb_totallen b then
                       let (err, s) = handle_claim_verify_response env c s
                       in if err = ESP_OK then
                            (with_status Claim_Success r, c\<lparr>cl_state := RMAKER_CLAIM_STATE_VERIFY_DONE\<rparr>,
                             if claim_event_group s = None then s
                             else (emit (Os EventGroupSetBits) s)\<lparr>claim_event_group := Some True\<rparr>)
                          else (with_status Claim_InvalidParam r, c, s)
                     else (with_status Claim_Success r, c, s)
              | (_, _, r) \<Rightarrow> (r, c, s))
         | _ \<Rightarrow> (with_status Claim_InvalidParam r, c, s)))"

definition claim_abort :: "claim \<Rightarrow> claim" where
  "claim_abort c = c\<lparr>cl_payload := array_of [], cl_len := 0, cl_offset := 0,
     cl_state := RMAKER_CLAIM_STATE_PK_GENERATED\<rparr>"

definition claim_dispatch ::
  "claim_env \<Rightarrow> claim_command \<Rightarrow> claim \<Rightarrow> 'a claim_lib_scheme \<Rightarrow> claim_response \<times> claim \<times> 'a claim_lib_scheme" where
  \<comment> \<open>from the initial response to the end of the \<open>switch\<close>\<close>
  "claim_dispatch env cmd c s =
     (let r = \<lparr>cr_msg = cc_msg cmd + 1, cr_status = Claim_Fail,
               cr_buf = \<lparr>pb_offset = 0, pb_data = [], pb_totallen = 0\<rparr>\<rparr>
      in if cc_msg cmd = 0 then esp_rmaker_assisted_claim_handle_start r c s
         else if cc_msg cmd = 2 then esp_rmaker_assisted_claim_handle_init env (cc_payload cmd) r c s
         else if cc_msg cmd = 4 then esp_rmaker_assisted_claim_handle_verify env (cc_payload cmd) r c s
         else if cc_msg cmd = 6 then (with_status Claim_Success r, claim_abort c, s)
         else (r, c, s))"

definition esp_rmaker_claiming_handler ::
  "claim_env \<Rightarrow> string \<Rightarrow> claim option \<Rightarrow> 'a claim_lib_scheme
    \<Rightarrow> (esp_err \<times> claim_response option) \<times> claim option \<times> 'a claim_lib_scheme" where
  "esp_rmaker_claiming_handler env inbuf cl s =
     (case cl of None \<Rightarrow> ((ESP_ERR_INVALID_STATE, None), None, s)
      | Some c \<Rightarrow>
          (case ce_unpack env inbuf of None \<Rightarrow> ((ESP_ERR_INVALID_ARG, None), Some c, s)
           | Some cmd \<Rightarrow>
               let (r, c, s) = claim_dispatch env cmd c s
               in ((ESP_OK, Some r), Some c, s)))"

subsection \<open>The end point\<close>

datatype claim_prov_event = WIFI_PROV_INIT | WIFI_PROV_START | WIFI_PROV_OTHER int

fun claim_event_handler :: "claim_prov_event \<Rightarrow> 'a plat_scheme \<Rightarrow> 'a plat_scheme" where
  "claim_event_handler WIFI_PROV_INIT s =
     emit (Net (WifiCall ''wifi_prov_mgr_endpoint_create'' []))
       (emit (Net (WifiCall ''wifi_prov_mgr_set_app_info'' [])) s)"
| "claim_event_handler WIFI_PROV_START s = emit (Net (WifiCall ''wifi_prov_mgr_endpoint_register'' [])) s"
| "claim_event_handler _ s = s"

subsection \<open>Initialisation\<close>

text \<open>\<open>__esp_rmaker_claim_init\<close>.\<close>

definition claim_use_stored_key :: "claim \<Rightarrow> 'a core_scheme \<Rightarrow> claim \<times> 'a core_scheme" where
  "claim_use_stored_key c s =
     (let (key, s) = esp_rmaker_get_client_key s
      in if key = None then (c, s)
         else
           let (r, s) = call (crypto ''mbedtls_pk_parse_key'') s
           in (if r = 0 then c\<lparr>cl_key := True, cl_state := RMAKER_CLAIM_STATE_PK_GENERATED\<rparr>
               else c\<lparr>cl_key := False\<rparr>, s))"

definition claim_random_bytes :: "'a core_scheme \<Rightarrow> esp_err \<times> 'a core_scheme" where
  "claim_random_bytes s =
     (let (stored, s) = esp_rmaker_factory_get ''random'' s
      in if stored \<noteq> None then (ESP_OK, s)
         else
           let (bytes, s) = ask_mac ESP_RMAKER_RANDOM_NUMBER_LEN s
           in esp_rmaker_factory_set ''random'' (map (char_of \<circ> unat) bytes) s)"

definition claim_init_data :: "claim_env \<Rightarrow> claim \<Rightarrow> 'a core_scheme \<Rightarrow> esp_err \<times> claim \<times> 'a core_scheme" where
  "claim_init_data env c s =
     (let (c, s) = claim_use_stored_key c s;
          (err, c, s) =
            (if cl_state c = RMAKER_CLAIM_STATE_PK_GENERATED then (ESP_OK, c, s)
             else
               let (err, c, s) = esp_rmaker_claim_generate_key env c s
               in if err \<noteq> ESP_OK then (err, c, s)
                  else
                    let (err, s) = esp_rmaker_factory_set ''client_key'' (c_string (cl_payload c)) s
                    in (err, c, s))
      in if err \<noteq> ESP_OK then (err, c, s)
         else let (err, s) = claim_random_bytes s in (err, c, s))"

text \<open>
  The task. Without memory it returns, which FreeRTOS does not allow, and sets no bit, so
  its creator waits for ever: there is no result.
\<close>

definition esp_rmaker_claim_task :: "claim_env \<Rightarrow> 'a core_scheme \<Rightarrow> (claim option \<times> 'a core_scheme) option" where
  "esp_rmaker_claim_task env s =
     (let (ok, s) = alloc s
      in if \<not> ok then None
         else
           let (err, c, s) = claim_init_data env claim0 s;
               (res, s) = (if err \<noteq> ESP_OK then (None, esp_rmaker_claim_data_free (Some c) s) else (Some c, s))
           in Some (res, emit (Os (TaskDelete ''claim_task'')) (emit (Os EventGroupSetBits) s)))"

text \<open>\<open>claim_init_done\<close> is never set, so the test for a second initialisation never succeeds.\<close>

definition esp_rmaker_claim_init ::
  "claim_env \<Rightarrow> 'a claim_lib_scheme \<Rightarrow> (claim option \<times> 'a claim_lib_scheme) option" where
  "esp_rmaker_claim_init env s =
     (let (ok, s) = alloc (emit (Os EventGroupCreate) s)
      in if \<not> ok then Some (None, s\<lparr>claim_event_group := None\<rparr>)
         else
           let (r, s) = call (Os (TaskCreate ''esp_rmaker_claim_task'' 10240 0)) (s\<lparr>claim_event_group := Some False\<rparr>)
           in if r \<noteq> pdTRUE then Some (None, emit (Os EventGroupDelete) s)
              else map_option (\<lambda>(c, s). (c, (emit (Os EventGroupDelete)
                     (emit (Os EventGroupWaitBits) s))\<lparr>claim_event_group := None\<rparr>))
                   (esp_rmaker_claim_task env s))"

abbreviation claim_handler_name :: string where "claim_handler_name \<equiv> ''esp_rmaker_claim event_handler''"

definition esp_rmaker_assisted_claim_init ::
  "claim_env \<Rightarrow> 'a claim_lib_scheme \<Rightarrow> (claim option \<times> 'a claim_lib_scheme) option" where
  "esp_rmaker_assisted_claim_init env s =
     map_option (\<lambda>(c, s). (c, if c = None then s
       else emit (Net (EventRegister ''WIFI_PROV_EVENT'' ''WIFI_PROV_START'' claim_handler_name))
              (emit (Net (EventRegister ''WIFI_PROV_EVENT'' ''WIFI_PROV_INIT'' claim_handler_name)) s)))
     (esp_rmaker_claim_init env s)"

text \<open>
  The messages that arrive while \<open>esp_rmaker_assisted_claim_perform\<close> waits are an argument. The
  wait ends with the message that sets the bit; if none does there is no result.
\<close>

fun claim_wait ::
  "claim_env \<Rightarrow> string list \<Rightarrow> claim \<Rightarrow> 'a claim_lib_scheme \<Rightarrow> (claim \<times> 'a claim_lib_scheme) option" where
  "claim_wait env [] c s = None"
| "claim_wait env (m # ms) c s =
     (let (_, c', s) = esp_rmaker_claiming_handler env m (Some c) s;
          c = (case c' of Some d \<Rightarrow> d | None \<Rightarrow> c)
      in if claim_event_group s = Some True then Some (c, s) else claim_wait env ms c s)"

definition esp_rmaker_assisted_claim_perform ::
  "claim_env \<Rightarrow> string list \<Rightarrow> claim option \<Rightarrow> 'a claim_lib_scheme \<Rightarrow> (esp_err \<times> 'a claim_lib_scheme) option" where
  "esp_rmaker_assisted_claim_perform env messages cl s =
     (case cl of None \<Rightarrow> Some (ESP_ERR_INVALID_STATE, s)
      | Some c \<Rightarrow>
          let (ok, s) = alloc (emit (Os EventGroupCreate) s)
          in if \<not> ok then Some (ESP_ERR_NO_MEM, s\<lparr>claim_event_group := None\<rparr>)
             else map_option (\<lambda>(c, s).
                 let s = emit (Os EventGroupWaitBits) s;
                     s = emit (Net (EventUnregister ''WIFI_PROV_EVENT'' ''WIFI_PROV_INIT'' claim_handler_name)) s;
                     s = emit (Net (EventUnregister ''WIFI_PROV_EVENT'' ''WIFI_PROV_START'' claim_handler_name)) s;
                     s = emit (Os EventGroupDelete) (esp_rmaker_claim_data_free (Some c) s)
                 in (if cl_state c = RMAKER_CLAIM_STATE_VERIFY_DONE then ESP_OK else ESP_FAIL, s))
               (claim_wait env messages c (s\<lparr>claim_event_group := Some False\<rparr>)))"

end
