(* ===== verification/Rm_Claim_Props.thy ===== *)
theory Rm_Claim_Props
  imports Rm_Claim "HOL-Library.Sublist"
begin

text \<open>
  What claiming guarantees: the order of its steps, the fragments of the certificate request, the
  bounds of a received certificate, and for which texts the new lines survive.
\<close>

subsection \<open>New lines\<close>

fun clean_lines :: "string \<Rightarrow> bool" where
  \<comment> \<open>no empty line and no new line at the end\<close>
  "clean_lines [] = True"
| "clean_lines [c] = (c \<noteq> CHR 0x0A)"
| "clean_lines (c # d # r) = (\<not> (c = CHR 0x0A \<and> d = CHR 0x0A) \<and> clean_lines (d # r))"

lemma clean_lines_Cons:
  "clean_lines (c # t) \<longleftrightarrow> (c = CHR 0x0A \<longrightarrow> t \<noteq> [] \<and> hd t \<noteq> CHR 0x0A) \<and> clean_lines t"
  by (cases t) auto

lemma clean_lines_iff:
  "clean_lines t \<longleftrightarrow> (t = [] \<or> last t \<noteq> CHR 0x0A) \<and> \<not> sublist [CHR 0x0A, CHR 0x0A] t"
proof (induction t rule: clean_lines.induct)
  case (3 c d r)
  have "sublist [CHR 0x0A, CHR 0x0A] (c # d # r)
      \<longleftrightarrow> c = CHR 0x0A \<and> d = CHR 0x0A \<or> sublist [CHR 0x0A, CHR 0x0A] (d # r)"
    by (auto simp: sublist_Cons_right)
  then show ?case using 3 by auto
qed (auto simp: sublist_Cons_right)

lemma escape_chars_simps [simp]:
  "escape_chars [] = []"
  "escape_chars (c # t) = (if c = CHR 0x0A then [CHR 0x5C, CHR ''n''] else [c]) @ escape_chars t"
  by (simp_all add: escape_chars_def)

lemma unescape_no_nul:
  "unescape_chars (a @ [CHR 0x00]) = Some x \<Longrightarrow> CHR 0x00 \<notin> set a \<Longrightarrow> CHR 0x00 \<notin> set x"
proof (induction a arbitrary: x rule: length_induct)
  case (1 a)
  note IH = 1(1) [rule_format]
  consider "a = []" | b r where "a = b # r" "b \<noteq> CHR 0x5C"
    | "a = [CHR 0x5C]" | d r where "a = CHR 0x5C # d # r" "d \<noteq> CHR ''n''"
    | "a = [CHR 0x5C, CHR ''n'']" | e r where "a = CHR 0x5C # CHR ''n'' # e # r"
    by (metis neq_Nil_conv)
  then show ?case
  proof cases
    case (2 b r)
    then show ?thesis using 1(2,3) IH [of r] by auto
  next
    case (4 d r)
    then show ?thesis using 1(2,3) IH [of r] by auto
  next
    case (6 e r)
    then show ?thesis using 1(2,3) IH [of r] by auto
  qed (use 1(2) in simp_all)
qed

lemma unescape_escape:
  assumes "CHR 0x00 \<notin> set t" "CHR 0x5C \<notin> set t"
  shows "unescape_chars (escape_chars t @ [CHR 0x00]) = Some t \<longleftrightarrow> clean_lines t"
  using assms
proof (induction t rule: length_induct)
  case (1 t)
  note IH = 1(1) [rule_format]
  show ?case
  proof (cases t)
    case (Cons c r)
    show ?thesis
    proof (cases "c = CHR 0x0A")
      case False
      then have "unescape_chars (escape_chars r @ [CHR 0x00]) = Some r \<longleftrightarrow> clean_lines r"
        using IH [of r] 1(2,3) Cons by simp
      then show ?thesis using False Cons 1(2,3) by (auto simp: clean_lines_Cons)
    next
      case nl: True
      show ?thesis
      proof (cases r)
        case (Cons d r')
        then have "d \<noteq> CHR 0x00" "d \<noteq> CHR 0x5C"
          and "unescape_chars (escape_chars r' @ [CHR 0x00]) = Some r' \<longleftrightarrow> clean_lines r'"
          using IH [of r'] 1(2,3) \<open>t = c # r\<close> by auto
        then show ?thesis
          using nl \<open>t = c # r\<close> Cons by (auto simp: clean_lines_Cons)
      qed (use nl Cons in simp)
    qed
  qed simp
qed

text \<open>New lines survive the way through the service exactly if there is no empty line and no new
  line at the end: for a text without backslashes, what \<open>unescape_new_line\<close> makes of the text with
  every new line written as a backslash and an \<open>n\<close> is the text itself if and only if it has that
  form. In the other cases it is a different text, or the loop leaves the array.\<close>

theorem newlines_round_trip:
  assumes "CHR 0x00 \<notin> set t" "CHR 0x5C \<notin> set t"
  shows "unescape_new_line (escape_chars t @ [CHR 0x00]) = Some t
    \<longleftrightarrow> (t = [] \<or> last t \<noteq> CHR 0x0A) \<and> \<not> sublist [CHR 0x0A, CHR 0x0A] t"
proof -
  have "CHR 0x00 \<notin> set (escape_chars t)" using assms(1) by (induction t) auto
  then have "c_string x = x" if "unescape_chars (escape_chars t @ [CHR 0x00]) = Some x" for x
    using unescape_no_nul [OF that] by (auto simp: c_string_def takeWhile_eq_all_conv)
  then have "unescape_new_line (escape_chars t @ [CHR 0x00]) = unescape_chars (escape_chars t @ [CHR 0x00])"
    by (cases "unescape_chars (escape_chars t @ [CHR 0x00])") (simp_all add: unescape_new_line_def)
  then show ?thesis using unescape_escape [OF assms] clean_lines_iff [of t] by simp
qed

lemma newlines_round_trip_witness:
  "unescape_new_line (escape_chars [CHR ''a'', CHR 0x0A, CHR ''b''] @ [CHR 0x00])
     = Some [CHR ''a'', CHR 0x0A, CHR ''b'']
   \<and> unescape_new_line (escape_chars [CHR ''a'', CHR 0x0A] @ [CHR 0x00]) \<noteq> Some [CHR ''a'', CHR 0x0A]"
  using newlines_round_trip [of "[CHR ''a'', CHR 0x0A, CHR ''b'']"] newlines_round_trip [of "[CHR ''a'', CHR 0x0A]"]
  by (simp add: sublist_Cons_right)

subsection \<open>The certificate's fragments\<close>

text \<open>C40. Bounds of a received certificate. If the total length is at most the size of the buffer
  and length and offset do not pass 32 bits together, a fragment that is accepted is written
  inside the buffer. But the total length is never checked against the buffer: for every offset
  from the size of the buffer on, there is a fragment of one byte that is accepted and written
  outside; and so is any fragment whose length and offset wrap around to at most its total length.\<close>

theorem claim_fragment_bounds:
  "(\<forall>b. fst (esp_rmaker_assisted_claim_validate_data (Some b) r) = Some (pb_data b)
        \<and> unat (pb_totallen b) \<le> MAX_PAYLOAD_SIZE \<and> length (pb_data b) + unat (pb_offset b) < 2 ^ 32
      \<longrightarrow> snd (take_fragment env b c s) = s)
   \<and> (\<forall>off. MAX_PAYLOAD_SIZE \<le> unat off \<longrightarrow>
        (\<exists>b. pb_offset b = off \<and> length (pb_data b) = 1
          \<and> fst (esp_rmaker_assisted_claim_validate_data (Some b) r) = Some (pb_data b)
          \<and> snd (take_fragment env b c s) = emit (Os Abort) s))
   \<and> (\<forall>b. word_of_nat (length (pb_data b)) + pb_offset b \<le> pb_totallen b
        \<and> length (pb_data b) < MAX_PAYLOAD_SIZE \<and> 2 ^ 32 \<le> length (pb_data b) + unat (pb_offset b)
      \<longrightarrow> fst (esp_rmaker_assisted_claim_validate_data (Some b) r) = Some (pb_data b)
          \<and> snd (take_fragment env b c s) = emit (Os Abort) s)"
proof (intro conjI allI impI; (elim conjE)?)
  fix b :: payload_buf
  assume a: "fst (esp_rmaker_assisted_claim_validate_data (Some b) r) = Some (pb_data b)"
    "unat (pb_totallen b) \<le> MAX_PAYLOAD_SIZE" "length (pb_data b) + unat (pb_offset b) < 2 ^ 32"
  have "word_of_nat (length (pb_data b)) + pb_offset b \<le> pb_totallen b"
    using a(1) by (auto simp: esp_rmaker_assisted_claim_validate_data_def not_less split: if_splits)
  then have "unat (word_of_nat (length (pb_data b)) + pb_offset b) \<le> unat (pb_totallen b)"
    by (simp add: word_le_nat_alt)
  moreover have "unat (word_of_nat (length (pb_data b)) + pb_offset b) = length (pb_data b) + unat (pb_offset b)"
    using a(3) by (simp add: unat_word_ariths unsigned_of_nat take_bit_nat_eq_self)
  ultimately show "snd (take_fragment env b c s) = s" using a(2) by (simp add: take_fragment_def Let_def)
next
  fix off :: u32
  assume off: "MAX_PAYLOAD_SIZE \<le> unat off"
  let ?b = "\<lparr>pb_offset = off, pb_data = ''x'', pb_totallen = 1 + off\<rparr>"
  have "fst (esp_rmaker_assisted_claim_validate_data (Some ?b) r) = Some (pb_data ?b)"
    by (simp add: esp_rmaker_assisted_claim_validate_data_def MAX_PAYLOAD_SIZE_def)
  moreover have "snd (take_fragment env ?b c s) = emit (Os Abort) s"
    using off by (simp add: take_fragment_def Let_def)
  ultimately show "\<exists>b. pb_offset b = off \<and> length (pb_data b) = 1
      \<and> fst (esp_rmaker_assisted_claim_validate_data (Some b) r) = Some (pb_data b)
      \<and> snd (take_fragment env b c s) = emit (Os Abort) s"
    by (intro exI [of _ ?b]) simp
next
  fix b :: payload_buf
  assume a: "word_of_nat (length (pb_data b)) + pb_offset b \<le> pb_totallen b"
    "length (pb_data b) < MAX_PAYLOAD_SIZE" "2 ^ 32 \<le> length (pb_data b) + unat (pb_offset b)"
  then show "fst (esp_rmaker_assisted_claim_validate_data (Some b) r) = Some (pb_data b)"
    by (simp add: esp_rmaker_assisted_claim_validate_data_def not_less)
  show "snd (take_fragment env b c s) = emit (Os Abort) s"
    using a by (simp add: take_fragment_def Let_def MAX_PAYLOAD_SIZE_def)
qed

definition ex_claim_env :: claim_env where
  "ex_claim_env = \<lparr>csr_pem = (\<lambda>_. ''csr''), key_pem = ''key'', ce_parse = (\<lambda>_. None), ce_unpack = (\<lambda>_. None),
     ce_wild = (\<lambda>_ c. c)\<rparr>"

lemma claim_fragment_bounds_witness:
  "\<exists>b. pb_offset b = 4000 \<and> length (pb_data b) = 1
     \<and> snd (take_fragment ex_claim_env b claim0 ex_core) = emit (Os Abort) ex_core"
proof -
  have "MAX_PAYLOAD_SIZE \<le> unat (4000 :: u32)" by (simp add: MAX_PAYLOAD_SIZE_def)
  then show ?thesis
    using claim_fragment_bounds [of _ ex_claim_env claim0 ex_core] by blast
qed

subsection \<open>Sessions\<close>

fun claim_session ::
  "claim_env \<Rightarrow> claim_command list \<Rightarrow> claim \<Rightarrow> 'a claim_lib_scheme
    \<Rightarrow> claim_response list \<times> claim \<times> 'a claim_lib_scheme" where
  \<comment> \<open>commands one after the other, with the responses\<close>
  "claim_session env [] c s = ([], c, s)"
| "claim_session env (m # ms) c s =
     (let (r, c, s) = claim_dispatch env m c s;
          (rs, c, s) = claim_session env ms c s
      in (r # rs, c, s))"

lemma u32_unat_less: "unat (x :: u32) < 2 ^ 32"
  by (rule order.strict_trans2 [OF unsigned_less]) simp

text \<open>The rest of a request, from an offset inside it.\<close>

lemma next_fragment_step:
  assumes "cl_offset c < cl_len c" "unat (cl_len c) \<le> length (cl_payload c)"
  shows "let (r', c') = next_fragment r c; k = min 200 (unat (cl_len c) - unat (cl_offset c))
    in pb_data (cr_buf r') = take k (drop (unat (cl_offset c)) (cl_payload c))
     \<and> pb_offset (cr_buf r') = cl_offset c \<and> pb_totallen (cr_buf r') = cl_len c
     \<and> cr_status r' = Claim_Success
     \<and> unat (cl_offset c') = unat (cl_offset c) + k
     \<and> cl_len c' = cl_len c \<and> cl_payload c' = cl_payload c
     \<and> cl_state c' = (if unat (cl_offset c) + k = unat (cl_len c) then RMAKER_CLAIM_STATE_VERIFY else cl_state c)"
proof -
  define left where "left = cl_len c - cl_offset c"
  have l: "unat left = unat (cl_len c) - unat (cl_offset c)"
    using assms(1) unfolding left_def by (intro unat_minus_le) simp
  define n where "n = (if CLAIM_FRAGMENT_SIZE < left then CLAIM_FRAGMENT_SIZE else left)"
  have n: "unat n = min 200 (unat (cl_len c) - unat (cl_offset c))"
    by (simp add: n_def CLAIM_FRAGMENT_SIZE_def word_less_nat_alt flip: l)
  have lt: "unat (cl_offset c) < unat (cl_len c)" using assms(1) by (simp add: word_less_nat_alt)
  have "unat (cl_offset c) + unat n < 2 ^ 32"
    using n lt u32_unat_less [of "cl_len c"] by simp
  then have o: "unat (cl_offset c + n) = unat (cl_offset c) + unat n"
    by (intro unat_plus_small) simp
  have "cl_offset c + n = cl_len c \<longleftrightarrow> unat (cl_offset c) + unat n = unat (cl_len c)"
    using o by (simp add: word_unat_eq_iff)
  then show ?thesis
    using n o unfolding next_fragment_def Let_def left_def [symmetric] n_def [symmetric] by simp
qed

lemma dispatch_init:
  "cc_msg m = 2 \<Longrightarrow> cl_state c = RMAKER_CLAIM_STATE_INIT_DONE \<Longrightarrow>
     \<exists>r. claim_dispatch env m c s = (case next_fragment r c of (r', c') \<Rightarrow> (r', c', s))"
  by (simp add: claim_dispatch_def esp_rmaker_assisted_claim_handle_init_def less_claim_state_def) blast

text \<open>One command of a session: its fragment, the claim behind it, and the rest of the session.\<close>

lemma session_step:
  assumes "cl_state c = RMAKER_CLAIM_STATE_INIT_DONE" "cl_offset c < cl_len c"
    "unat (cl_len c) \<le> length (cl_payload c)" "cc_msg m = 2"
    and k: "k = min 200 (unat (cl_len c) - unat (cl_offset c))"
  obtains r c' where "pb_data (cr_buf r) = take k (drop (unat (cl_offset c)) (cl_payload c))"
    "pb_offset (cr_buf r) = cl_offset c" "pb_totallen (cr_buf r) = cl_len c" "cr_status r = Claim_Success"
    "unat (cl_offset c') = unat (cl_offset c) + k" "cl_len c' = cl_len c" "cl_payload c' = cl_payload c"
    "cl_state c' = (if unat (cl_offset c) + k = unat (cl_len c) then RMAKER_CLAIM_STATE_VERIFY else cl_state c)"
    "\<And>ms. claim_session env (m # ms) c s
       = (case claim_session env ms c' s of (rs, x) \<Rightarrow> (r # rs, x))"
proof -
  obtain r where d: "claim_dispatch env m c s = (case next_fragment r c of (r', c') \<Rightarrow> (r', c', s))"
    using dispatch_init [of m c env s] assms(1,4) by auto
  obtain r1 c1 where n: "next_fragment r c = (r1, c1)" by fastforce
  show thesis
    using next_fragment_step [OF assms(2,3), of r] n d by (intro that [of r1 c1]) (simp_all add: k Let_def split: prod.split)
qed

text \<open>C16. The certificate request in fragments. Once the request of \<open>n\<close> bytes is ready, \<open>n\<close>
  divided by 200, rounded up, commands of the kind init (whatever they carry) are answered with
  success and with fragments that lie one behind the other and make up the request exactly; with
  the last of them, and not before, the claim waits for the certificate.\<close>

theorem claim_request_fragments:
  assumes "cl_state c = RMAKER_CLAIM_STATE_INIT_DONE" "cl_offset c < cl_len c"
    "unat (cl_len c) \<le> length (cl_payload c)" "\<forall>m \<in> set ms. cc_msg m = 2"
    "length ms = (unat (cl_len c) - unat (cl_offset c) + 199) div 200"
    "claim_session env ms c s = (rs, c', s')"
  shows "concat (map (\<lambda>r. pb_data (cr_buf r)) rs)
      = take (unat (cl_len c) - unat (cl_offset c)) (drop (unat (cl_offset c)) (cl_payload c))
    \<and> map (\<lambda>r. unat (pb_offset (cr_buf r))) rs = map (\<lambda>i. unat (cl_offset c) + 200 * i) [0..<length ms]
    \<and> (\<forall>r \<in> set rs. cr_status r = Claim_Success \<and> pb_totallen (cr_buf r) = cl_len c)
    \<and> cl_state c' = RMAKER_CLAIM_STATE_VERIFY \<and> s' = s
    \<and> (\<forall>k < length ms. cl_state (fst (snd (claim_session env (take k ms) c s))) = RMAKER_CLAIM_STATE_INIT_DONE)"
  using assms
proof (induction ms arbitrary: c rs c' s')
  case Nil
  then show ?case by (simp add: word_less_nat_alt)
next
  case (Cons m ms)
  let ?o = "unat (cl_offset c)" and ?n = "unat (cl_len c)"
  have lt: "?o < ?n" using Cons.prems(2) by (simp add: word_less_nat_alt)
  define k where "k = min 200 (?n - ?o)"
  obtain r1 c1 where f: "pb_data (cr_buf r1) = take k (drop ?o (cl_payload c))" "pb_offset (cr_buf r1) = cl_offset c"
    "pb_totallen (cr_buf r1) = cl_len c" "cr_status r1 = Claim_Success" "unat (cl_offset c1) = ?o + k"
    "cl_len c1 = cl_len c" "cl_payload c1 = cl_payload c"
    "cl_state c1 = (if ?o + k = ?n then RMAKER_CLAIM_STATE_VERIFY else cl_state c)"
    and d: "\<And>ms. claim_session env (m # ms) c s = (case claim_session env ms c1 s of (rs, x) \<Rightarrow> (r1 # rs, x))"
    using session_step [OF Cons.prems(1-3), of m k env s] Cons.prems(4) k_def by auto
  obtain rs2 c2 s2 where t: "claim_session env ms c1 s = (rs2, c2, s2)" by (metis prod_cases3)
  have out: "rs = r1 # rs2" "c' = c2" "s' = s2" using Cons.prems(6) d t by auto
  have first: "claim_session env (take j (m # ms)) c s
      = (case claim_session env (take (j - 1) ms) c1 s of (rs, x) \<Rightarrow> (r1 # rs, x))" if "0 < j" for j
    using that d by (cases j) simp_all
  show ?case
  proof (cases "?n - ?o \<le> 200")
    case True
    then have k: "k = ?n - ?o" by (simp add: k_def)
    then have "length (m # ms) = 1" using Cons.prems(5) lt True by simp
    then have "ms = []" by simp
    then show ?thesis using f k out t lt Cons.prems(1) by simp
  next
    case False
    then have k: "k = 200" by (simp add: k_def)
    have o1: "unat (cl_offset c1) < ?n" "cl_offset c1 < cl_len c1"
      using f(5,6) k False by (simp_all add: word_less_nat_alt)
    have "length (m # ms) = (?n - unat (cl_offset c1) + 200 + 199) div 200"
      using Cons.prems(5) f(5) k False by simp
    then have len: "length ms = (unat (cl_len c1) - unat (cl_offset c1) + 199) div 200"
      using f(6) by simp
    have st: "cl_state c1 = RMAKER_CLAIM_STATE_INIT_DONE" using f(8) k False Cons.prems(1) by simp
    have IH: "concat (map (\<lambda>r. pb_data (cr_buf r)) rs2)
        = take (?n - unat (cl_offset c1)) (drop (unat (cl_offset c1)) (cl_payload c))"
      "map (\<lambda>r. unat (pb_offset (cr_buf r))) rs2 = map (\<lambda>i. unat (cl_offset c1) + 200 * i) [0..<length ms]"
      "\<forall>r \<in> set rs2. cr_status r = Claim_Success \<and> pb_totallen (cr_buf r) = cl_len c"
      "cl_state c2 = RMAKER_CLAIM_STATE_VERIFY" "s2 = s"
      "\<forall>j < length ms. cl_state (fst (snd (claim_session env (take j ms) c1 s))) = RMAKER_CLAIM_STATE_INIT_DONE"
      using Cons.IH [OF st o1(2) _ _ len t] Cons.prems(3,4) f(6,7) by auto
    have "take 200 (drop ?o (cl_payload c)) @ take (?n - (?o + 200)) (drop (?o + 200) (cl_payload c))
        = take (?n - ?o) (drop ?o (cl_payload c))"
      using False take_add [of 200 "?n - (?o + 200)" "drop ?o (cl_payload c)"] by (simp add: add.commute)
    moreover have "map (\<lambda>i. ?o + 200 * i) [0..<Suc (length ms)]
        = ?o # map (\<lambda>i. unat (cl_offset c1) + 200 * i) [0..<length ms]"
      using f(5) k by (simp add: upt_conv_Cons map_Suc_upt [symmetric] del: upt_Suc)
    moreover have "cl_state (fst (snd (claim_session env (take j (m # ms)) c s))) = RMAKER_CLAIM_STATE_INIT_DONE"
      if "j < length (m # ms)" for j
      using that IH(6) first [of j] Cons.prems(1) by (cases j) (auto split: prod.split)
    ultimately show ?thesis using IH f k out by (simp del: upt_Suc)
  qed
qed

text \<open>A request of 450 bytes: three fragments.\<close>

definition ex_request :: claim where
  "ex_request = claim0\<lparr>cl_state := RMAKER_CLAIM_STATE_INIT_DONE, cl_len := 450,
     cl_payload := replicate 450 (CHR ''r'') @ replicate 2622 (CHR 0x00)\<rparr>"

definition ex_claim_lib :: claim_lib where
  "ex_claim_lib = core.extend ex_core \<lparr>claim_event_group = None\<rparr>"

definition ex_init :: claim_command where
  "ex_init = \<lparr>cc_msg = 2, cc_payload = NOT_SET\<rparr>"

lemma claim_request_fragments_witness:
  "let (rs, c, s) = claim_session ex_claim_env (replicate 3 ex_init) ex_request ex_claim_lib
   in concat (map (\<lambda>r. pb_data (cr_buf r)) rs) = replicate 450 (CHR ''r'')
    \<and> map (\<lambda>r. unat (pb_offset (cr_buf r))) rs = [0, 200, 400] \<and> cl_state c = RMAKER_CLAIM_STATE_VERIFY"
proof -
  obtain rs c s where x: "claim_session ex_claim_env (replicate 3 ex_init) ex_request ex_claim_lib = (rs, c, s)"
    by (metis prod_cases3)
  have "cl_state ex_request = RMAKER_CLAIM_STATE_INIT_DONE" "cl_offset ex_request < cl_len ex_request"
    "unat (cl_len ex_request) \<le> length (cl_payload ex_request)" "\<forall>m \<in> set (replicate 3 ex_init). cc_msg m = 2"
    "length (replicate 3 ex_init) = (unat (cl_len ex_request) - unat (cl_offset ex_request) + 199) div 200"
    by (simp_all add: ex_request_def claim0_def ex_init_def)
  note claim_request_fragments [OF this x]
  then show ?thesis
    by (simp add: x) (simp add: ex_request_def claim0_def upt_rec)
qed

subsection \<open>The order of the steps\<close>

definition cert_stored :: "'a plat_scheme \<Rightarrow> bool" where
  "cert_stored s \<longleftrightarrow> (\<exists>v. Net (NvsSetBlob ''client_cert'' v) \<in> set (trace s))"

lemma cert_env [simp]:
  "cert_stored (emit e s) \<longleftrightarrow> cert_stored s \<or> (\<exists>v. e = Net (NvsSetBlob ''client_cert'' v))"
  "cert_stored (snd (call e s)) \<longleftrightarrow> cert_stored s \<or> (\<exists>v. e = Net (NvsSetBlob ''client_cert'' v))"
  "cert_stored (snd (ask s)) \<longleftrightarrow> cert_stored s" "cert_stored (snd (alloc s)) \<longleftrightarrow> cert_stored s"
  by (auto simp: cert_stored_def)

lemma cert_factory_set:
  "k \<noteq> ''client_cert'' \<Longrightarrow> cert_stored (snd (esp_rmaker_factory_set k v s)) \<longleftrightarrow> cert_stored s"
  "fst (esp_rmaker_factory_set ''client_cert'' v s) = ESP_OK
     \<Longrightarrow> cert_stored (snd (esp_rmaker_factory_set ''client_cert'' v s))"
  by (auto simp: esp_rmaker_factory_set_def Let_def case_prod_beta split: if_splits)

lemma cert_ask_mac [simp]: "cert_stored (snd (ask_mac n s)) \<longleftrightarrow> cert_stored s"
  by (induction n arbitrary: s) (simp_all add: Let_def case_prod_beta)

lemma trace_cert: "trace t = trace s \<Longrightarrow> cert_stored t \<longleftrightarrow> cert_stored s"
  by (simp add: cert_stored_def)

lemma cert_change_node_id [simp]: "cert_stored (snd (esp_rmaker_change_node_id i s)) \<longleftrightarrow> cert_stored s"
  by (auto simp: esp_rmaker_change_node_id_def strdup_def Let_def case_prod_beta upd_priv_def upd_node_def
      cert_stored_def split: option.split)

lemma generate_csr_step:
  assumes "esp_rmaker_claim_generate_csr env n c s = (err, c', s')"
  shows "(cert_stored s' \<longleftrightarrow> cert_stored s) \<and> cl_state c' \<in> {cl_state c, RMAKER_CLAIM_STATE_CSR_GENERATED}"
proof -
  have "cert_stored (snd (snd (esp_rmaker_claim_generate_csr env n c s))) \<longleftrightarrow> cert_stored s"
    "cl_state (fst (snd (esp_rmaker_claim_generate_csr env n c s))) \<in> {cl_state c, RMAKER_CLAIM_STATE_CSR_GENERATED}"
    by (auto simp: esp_rmaker_claim_generate_csr_def Let_def case_prod_beta crypto_def split: option.split)
  then show ?thesis using assms by simp
qed

lemma wait_csr_step:
  assumes "wait_for_csr env c s = (err, c', s')"
  shows "(cert_stored s' \<longleftrightarrow> cert_stored s) \<and> cl_state c' \<in> {cl_state c, RMAKER_CLAIM_STATE_CSR_GENERATED}"
proof -
  obtain ok s1 where a: "alloc (emit (Os EventGroupCreate) s) = (ok, s1)" by fastforce
  obtain r s2 where b: "call (Os (TaskCreate ''esp_rmaker_claim_csr_task'' 10240 6)) s1 = (r, s2)" by fastforce
  obtain e c3 s3 where g: "esp_rmaker_claim_generate_csr env (esp_rmaker_get_node_id s2) c s2 = (e, c3, s3)"
    by (metis prod_cases3)
  have "cert_stored s1 \<longleftrightarrow> cert_stored s" "cert_stored s2 \<longleftrightarrow> cert_stored s1"
    using cert_env(4) [of "emit (Os EventGroupCreate) s"]
      cert_env(2) [of "Os (TaskCreate ''esp_rmaker_claim_csr_task'' 10240 6)" s1] a b by simp_all
  then show ?thesis
    using assms a b g generate_csr_step [OF g]
    by (auto simp: wait_for_csr_def esp_rmaker_claim_csr_task_def Let_def split: if_splits)
qed

lemma init_response_step:
  assumes "handle_assisted_claim_init_response env c s = (err, c', s')"
  shows "(cert_stored s' \<longleftrightarrow> cert_stored s) \<and> cl_state c' \<in> {cl_state c, RMAKER_CLAIM_STATE_CSR_GENERATED}"
proof (cases "payload_text c")
  case None
  then show ?thesis using assms by (auto simp: handle_assisted_claim_init_response_def)
next
  case (Some t)
  show ?thesis
  proof (cases "\<exists>jctx node_id. ce_parse env t = Some jctx \<and> json_obj_get_string jctx ''node_id'' 64 = Some node_id")
    case False
    then show ?thesis
      using assms Some by (auto simp: handle_assisted_claim_init_response_def split: option.splits)
  next
    case True
    then obtain jctx node_id where j: "ce_parse env t = Some jctx"
      "json_obj_get_string jctx ''node_id'' 64 = Some node_id" by blast
    define s2 where "s2 = snd (esp_rmaker_change_node_id node_id (snd (esp_rmaker_factory_set ''node_id'' node_id s)))"
    have s2: "cert_stored s2 \<longleftrightarrow> cert_stored s" by (simp add: s2_def cert_factory_set)
    obtain e c3 s3 where w: "wait_for_csr env c s2 = (e, c3, s3)" by (metis prod_cases3)
    have esc: "cl_state (fst (escape_new_line c3 s3)) = cl_state c3"
      "cert_stored (snd (escape_new_line c3 s3)) \<longleftrightarrow> cert_stored s3"
      by (simp_all add: escape_new_line_def Let_def)
    show ?thesis
      using assms Some j w wait_csr_step [OF w] s2 esc
      by (auto simp: handle_assisted_claim_init_response_def Let_def case_prod_beta s2_def [symmetric] split: if_splits)
  qed
qed

lemma next_fragment_state: "cl_state (snd (next_fragment r c)) \<in> {cl_state c, RMAKER_CLAIM_STATE_VERIFY}"
  by (simp add: next_fragment_def Let_def)

lemma verify_response_cert:
  assumes "handle_claim_verify_response env c s = (err, s')"
  shows "err = ESP_OK \<Longrightarrow> cert_stored s'" "cert_stored s \<Longrightarrow> cert_stored s'"
proof -
  have mono: "cert_stored u \<Longrightarrow> cert_stored t" if "esp_rmaker_factory_set k v u = (e, t)" for k v e t and u :: "'a core_scheme"
    using that by (auto simp: esp_rmaker_factory_set_def Let_def case_prod_beta split: if_splits)
  have good: "cert_stored t" if "esp_rmaker_factory_set ''client_cert'' v u = (ESP_OK, t)" for v t and u :: "'a core_scheme"
    using cert_factory_set(2) [of v u] that by simp
  show "err = ESP_OK \<Longrightarrow> cert_stored s'"
    using assms by (auto simp: handle_claim_verify_response_def Let_def case_prod_beta
        split: option.splits if_splits dest: good)
  show "cert_stored s \<Longrightarrow> cert_stored s'"
    using assms by (auto simp: handle_claim_verify_response_def Let_def case_prod_beta
        split: option.splits if_splits dest: mono)
qed

lemma handle_init_step:
  assumes "esp_rmaker_assisted_claim_handle_init env p r c s = (r', c', s')"
  shows "(cert_stored s' \<longleftrightarrow> cert_stored s)
    \<and> (cl_state c < RMAKER_CLAIM_STATE_INIT \<longrightarrow> cl_state c' = cl_state c)
    \<and> (cl_state c' = RMAKER_CLAIM_STATE_VERIFY_DONE \<longrightarrow> cl_state c = RMAKER_CLAIM_STATE_VERIFY_DONE)"
proof -
  have frag: "cl_state (snd (next_fragment r c)) = RMAKER_CLAIM_STATE_VERIFY_DONE
      \<longrightarrow> cl_state c = RMAKER_CLAIM_STATE_VERIFY_DONE" for r c
    using next_fragment_state [of r c] by auto
  consider (early) "cl_state c < RMAKER_CLAIM_STATE_INIT" | (done_) "cl_state c = RMAKER_CLAIM_STATE_INIT_DONE"
    | (take) "\<not> cl_state c < RMAKER_CLAIM_STATE_INIT" "cl_state c \<noteq> RMAKER_CLAIM_STATE_INIT_DONE" by blast
  then show ?thesis
  proof cases
    case early
    then show ?thesis using assms by (simp add: esp_rmaker_assisted_claim_handle_init_def)
  next
    case done_
    then show ?thesis
      using assms frag [of r c]
      by (auto simp: esp_rmaker_assisted_claim_handle_init_def less_claim_state_def case_prod_beta)
  next
    case take
    show ?thesis
    proof (cases "\<exists>recv d r1. p = CMD_PAYLOAD recv \<and> esp_rmaker_assisted_claim_validate_data recv r = (Some d, r1)")
      case False
      then show ?thesis
        using assms take
        by (auto simp: esp_rmaker_assisted_claim_handle_init_def split: claim_payload.splits prod.splits option.splits)
    next
      case True
      then obtain recv d r1 where v: "p = CMD_PAYLOAD recv" "esp_rmaker_assisted_claim_validate_data recv r = (Some d, r1)"
        by blast
      obtain e c2 s2 where h: "handle_assisted_claim_init_response env (c\<lparr>cl_payload := array_of d\<rparr>) s = (e, c2, s2)"
        by (metis prod_cases3)
      show ?thesis
        using assms take v h init_response_step [OF h] frag [of r1 "c2\<lparr>cl_state := RMAKER_CLAIM_STATE_INIT_DONE\<rparr>"]
        by (auto simp: esp_rmaker_assisted_claim_handle_init_def case_prod_beta split: if_splits)
    qed
  qed
qed

text \<open>Commands whose fragment of the certificate lies inside the array.\<close>

fun fits_payload :: "claim_payload \<Rightarrow> bool" where
  "fits_payload (CMD_PAYLOAD (Some b)) \<longleftrightarrow> unat (pb_offset b) + length (pb_data b) \<le> MAX_PAYLOAD_SIZE"
| "fits_payload _ \<longleftrightarrow> True"

lemma handle_verify_step:
  assumes "esp_rmaker_assisted_claim_handle_verify env p r c s = (r', c', s')" "fits_payload p"
  shows "(cl_state c < RMAKER_CLAIM_STATE_VERIFY \<longrightarrow> c' = c \<and> s' = s)
    \<and> cl_state c' \<in> {cl_state c, RMAKER_CLAIM_STATE_VERIFY_DONE}
    \<and> (cert_stored s \<longrightarrow> cert_stored s')
    \<and> (cl_state c' = RMAKER_CLAIM_STATE_VERIFY_DONE \<longrightarrow> cl_state c = RMAKER_CLAIM_STATE_VERIFY_DONE \<or> cert_stored s')"
proof (cases "\<exists>b d r1. \<not> cl_state c < RMAKER_CLAIM_STATE_VERIFY \<and> p = CMD_PAYLOAD (Some b)
    \<and> esp_rmaker_assisted_claim_validate_data (Some b) r = (Some d, r1)")
  case False
  then show ?thesis
    using assms(1) by (auto simp: esp_rmaker_assisted_claim_handle_verify_def
        split: if_splits claim_payload.splits prod.splits option.splits)
next
  case True
  then obtain b d r1 where v: "\<not> cl_state c < RMAKER_CLAIM_STATE_VERIFY" "p = CMD_PAYLOAD (Some b)"
    "esp_rmaker_assisted_claim_validate_data (Some b) r = (Some d, r1)" by blast
  obtain c1 s1 where t: "take_fragment env b c s = (c1, s1)" by fastforce
  then have t1: "cl_state c1 = cl_state c" "cert_stored s1 \<longleftrightarrow> cert_stored s"
    using assms(2) v(2) by (auto simp: take_fragment_def Let_def split: if_splits)
  obtain e s2 where h: "handle_claim_verify_response env c1 s1 = (e, s2)" by fastforce
  have grp: "cert_stored ((emit (Os EventGroupSetBits) s2)\<lparr>claim_event_group := g\<rparr>) \<longleftrightarrow> cert_stored s2" for g
    by (simp add: cert_stored_def)
  show ?thesis
    using assms(1) v t t1 h verify_response_cert [OF h] grp
    by (auto simp: esp_rmaker_assisted_claim_handle_verify_def Let_def split: if_splits)
qed

lemma handle_start_step:
  assumes "esp_rmaker_assisted_claim_handle_start r c s = (r', c', s')"
  shows "(cert_stored s' \<longleftrightarrow> cert_stored s) \<and> cl_state c' \<in> {cl_state c, RMAKER_CLAIM_STATE_INIT}"
proof -
  have "cert_stored (snd (snd (generate_claim_init_request c s))) \<longleftrightarrow> cert_stored s"
    "cl_state (fst (snd (generate_claim_init_request c s))) = cl_state c"
    by (simp_all add: generate_claim_init_request_def Let_def case_prod_beta)
  then show ?thesis
    using assms by (auto simp: esp_rmaker_assisted_claim_handle_start_def Let_def case_prod_beta split: if_splits)
qed

text \<open>The invariant of a session, with the kinds of the messages so far.\<close>

definition claim_order :: "int list \<Rightarrow> claim \<Rightarrow> 'a plat_scheme \<Rightarrow> bool" where
  "claim_order ms c s \<longleftrightarrow> (RMAKER_CLAIM_STATE_INIT \<le> cl_state c \<longrightarrow> subseq [0] ms)
     \<and> (RMAKER_CLAIM_STATE_INIT_DONE \<le> cl_state c \<longrightarrow> subseq [0, 2] ms)
     \<and> (cert_stored s \<longrightarrow> subseq [0, 2, 4] ms)
     \<and> (cl_state c = RMAKER_CLAIM_STATE_VERIFY_DONE \<longrightarrow> cert_stored s)"

lemma subseq_snoc: "subseq xs ms \<Longrightarrow> subseq xs (ms @ [m])" "subseq xs ms \<Longrightarrow> subseq (xs @ [m]) (ms @ [m])"
  by auto

lemma claim_order_step:
  fixes s :: "'a claim_lib_scheme"
  assumes "claim_order ms c s" "claim_dispatch env m c s = (r, c', s')"
    "cc_msg m = 4 \<Longrightarrow> fits_payload (cc_payload m)"
  shows "claim_order (ms @ [cc_msg m]) c' s'"
proof -
  note le = less_eq_claim_state_def less_claim_state_def
  have keep: "claim_order (ms @ [cc_msg m]) d t" if "cl_state d = cl_state c" "cert_stored t \<longleftrightarrow> cert_stored s" for d and t :: "'a claim_lib_scheme"
    using assms(1) that by (auto simp: claim_order_def intro: subseq_snoc)
  consider "cc_msg m = 0" | "cc_msg m = 2" | "cc_msg m = 4" | "cc_msg m = 6" | "cc_msg m \<notin> {0, 2, 4, 6}" by auto
  then show ?thesis
  proof cases
    case 1
    then obtain r0 where h: "esp_rmaker_assisted_claim_handle_start r0 c s = (r, c', s')"
      using assms(2) by (simp add: claim_dispatch_def)
    show ?thesis
      using handle_start_step [OF h] keep [of c' s'] assms(1) 1 subseq_snoc(2) [of "[]" ms 0]
      by (auto simp: claim_order_def le intro: subseq_snoc)
  next
    case 2
    then obtain r0 where h: "esp_rmaker_assisted_claim_handle_init env (cc_payload m) r0 c s = (r, c', s')"
      using assms(2) by (simp add: claim_dispatch_def)
    show ?thesis
    proof (cases "cl_state c < RMAKER_CLAIM_STATE_INIT")
      case True
      then show ?thesis using handle_init_step [OF h] keep [of c' s'] by simp
    next
      case False
      then have "subseq [0] ms" using assms(1) by (simp add: claim_order_def)
      then have "subseq [0, 2] (ms @ [2])" "subseq [0] (ms @ [2])" using subseq_snoc(2) [of "[0]" ms 2] subseq_snoc(1) by auto
      then show ?thesis
        using handle_init_step [OF h] assms(1) 2 by (auto simp: claim_order_def intro: subseq_snoc)
    qed
  next
    case 3
    then obtain r0 where h: "esp_rmaker_assisted_claim_handle_verify env (cc_payload m) r0 c s = (r, c', s')"
      using assms(2) by (simp add: claim_dispatch_def)
    note step = handle_verify_step [OF h assms(3) [OF 3]]
    show ?thesis
    proof (cases "cl_state c < RMAKER_CLAIM_STATE_VERIFY")
      case True
      then show ?thesis using step keep [of c' s'] by simp
    next
      case False
      then have "subseq [0] ms" "subseq [0, 2] ms" using assms(1) by (auto simp: claim_order_def le)
      then have "subseq [0] (ms @ [4])" "subseq [0, 2] (ms @ [4])" "subseq [0, 2, 4] (ms @ [4])"
        using subseq_snoc(2) [of "[0, 2]" ms 4] subseq_snoc(1) by auto
      then show ?thesis
        using step assms(1) 3 by (auto simp: claim_order_def)
    qed
  next
    case 4
    then have "cl_state c' = RMAKER_CLAIM_STATE_PK_GENERATED" "s' = s"
      using assms(2) by (auto simp: claim_dispatch_def claim_abort_def)
    then show ?thesis using assms(1) by (auto simp: claim_order_def le intro: subseq_snoc)
  next
    case 5
    then have "c' = c" "s' = s" using assms(2) by (simp_all add: claim_dispatch_def)
    then show ?thesis using keep by simp
  qed
qed

lemma claim_order_session:
  "claim_session env cmds c s = (rs, c', s') \<Longrightarrow> claim_order ms c s
    \<Longrightarrow> \<forall>m \<in> set cmds. cc_msg m = 4 \<longrightarrow> fits_payload (cc_payload m)
    \<Longrightarrow> claim_order (ms @ map cc_msg cmds) c' s'"
proof (induction cmds arbitrary: ms c s rs c' s')
  case (Cons m cmds)
  obtain r c1 s1 where d: "claim_dispatch env m c s = (r, c1, s1)" by (metis prod_cases3)
  then obtain rs1 where "claim_session env cmds c1 s1 = (rs1, c', s')"
    using Cons.prems(1) by (auto simp: split: prod.splits)
  from Cons.IH [OF this claim_order_step [OF Cons.prems(2) d]] show ?case using Cons.prems(3) by simp
qed simp

text \<open>
  A fragment outside the array can end the claim at once: with an offset of 1028 bytes in front of
  the array, where the state lies on a 32-bit machine, one byte sets the state to its last value.
\<close>

lemma stray_fragment_ends_claim:
  assumes "cl_state c = RMAKER_CLAIM_STATE_VERIFY" "m = \<lparr>cc_msg = 4, cc_payload = CMD_PAYLOAD (Some b)\<rparr>"
    "b = \<lparr>pb_offset = - 1028, pb_data = [CHR 0x06], pb_totallen = - 1\<rparr>"
    "\<And>d. cl_state (ce_wild env b d) = RMAKER_CLAIM_STATE_VERIFY_DONE"
    "claim_dispatch env m c s = (r, c', s')"
  shows "cl_state c' = RMAKER_CLAIM_STATE_VERIFY_DONE \<and> (cert_stored s' \<longleftrightarrow> cert_stored s)"
  using assms
  by (auto simp: claim_dispatch_def esp_rmaker_assisted_claim_handle_verify_def less_claim_state_def
      esp_rmaker_assisted_claim_validate_data_def take_fragment_def Let_def MAX_PAYLOAD_SIZE_def)

text \<open>C17. The steps of a claim have an order that no client can change whose fragments of the
  certificate stay inside the array (which the code does not check). From the state in which a key exists, whatever
  commands arrive in whatever order and with whatever contents otherwise: a certificate is
  written to the storage only if a start, an init and a verify came in this order among them; and the claim
  counts as done only if a certificate was written.\<close>

theorem claim_in_order:
  assumes "cl_state c = RMAKER_CLAIM_STATE_PK_GENERATED" "\<not> cert_stored s"
    "\<forall>m \<in> set cmds. cc_msg m = 4 \<longrightarrow> fits_payload (cc_payload m)"
    "claim_session env cmds c s = (rs, c', s')"
  shows "(cert_stored s' \<longrightarrow> subseq [0, 2, 4] (map cc_msg cmds))
    \<and> (cl_state c' = RMAKER_CLAIM_STATE_VERIFY_DONE \<longrightarrow> cert_stored s')"
proof -
  have "claim_order [] c s"
    using assms(1,2) by (simp add: claim_order_def less_eq_claim_state_def)
  from claim_order_session [OF assms(4) this assms(3)] show ?thesis by (simp add: claim_order_def)
qed

definition ex_verify :: claim_command where
  "ex_verify = \<lparr>cc_msg = 4, cc_payload = CMD_PAYLOAD (Some \<lparr>pb_offset = 0, pb_data = ''{}'', pb_totallen = 2\<rparr>)\<rparr>"

lemma claim_in_order_witness:
  "let c = claim0\<lparr>cl_state := RMAKER_CLAIM_STATE_PK_GENERATED\<rparr>;
       (rs, c', s') = claim_session ex_claim_env [ex_init, ex_verify, ex_init] c ex_claim_lib
   in \<not> cert_stored s' \<and> cl_state c' \<noteq> RMAKER_CLAIM_STATE_VERIFY_DONE"
proof -
  let ?c = "claim0\<lparr>cl_state := RMAKER_CLAIM_STATE_PK_GENERATED\<rparr>"
  obtain rs c' s' where x: "claim_session ex_claim_env [ex_init, ex_verify, ex_init] ?c ex_claim_lib = (rs, c', s')"
    by (metis prod_cases3)
  have "\<not> cert_stored ex_claim_lib"
    by (simp add: cert_stored_def ex_claim_lib_def ex_core_def ex_defs core.defs rm.defs)
  then have "(cert_stored s' \<longrightarrow> subseq [0, 2, 4] (map cc_msg [ex_init, ex_verify, ex_init]))
    \<and> (cl_state c' = RMAKER_CLAIM_STATE_VERIFY_DONE \<longrightarrow> cert_stored s')"
    by (intro claim_in_order [OF _ _ _ x]) (simp_all add: ex_init_def ex_verify_def MAX_PAYLOAD_SIZE_def)
  then show ?thesis using x by (simp add: ex_init_def ex_verify_def) blast
qed

end
