(* ===== verification/App_Main.thy ===== *)
theory App_Main
  imports App_Wifi Rm_Schedule Rm_Ota
begin

text \<open>
  The start of the device: \<open>app_main\<close> of \<open>app_main.c\<close> and \<open>app_rainmaker_init\<close> of
  \<open>app_rainmaker.c\<close>, which put all the components together, and the callbacks by which the library
  calls the application and its own services.

  The definitions are the main task's own statements. The tasks it creates on the way run beside it:
  \<open>esp_rmaker_start\<close> creates the task of the work queue, whose priority is higher than that of the
  main task, so that task takes the agent's work before the main task goes on. The start is
  therefore cut at that call: \<open>app_rainmaker_setup\<close> ends in front of it, \<open>app_after_start\<close> is what
  follows it.

  A run that reaches a call of \<open>abort()\<close> ends there and has no result (\<open>None\<close>); the aborts of
  \<open>ESP_ERROR_CHECK\<close> are recorded as elsewhere (\<open>error_check\<close>).
\<close>

text \<open>What is linked in: the description of the application and the OTA server's certificate; and
  the C library and the tokenizer.\<close>

record boot_env =
  be_app_desc :: "string \<times> string"
  be_ota_cert :: string
  be_libc :: libc
  be_parse :: "string \<Rightarrow> jparse_ctx option"

definition ESP_ERR_NVS_NO_FREE_PAGES :: esp_err where "ESP_ERR_NVS_NO_FREE_PAGES = 4365"
definition ESP_ERR_NVS_NEW_VERSION_FOUND :: esp_err where "ESP_ERR_NVS_NEW_VERSION_FOUND = 4368"

text \<open>The write callbacks of this firmware, by name.\<close>

definition app_invoke :: "boot_env \<Rightarrow> ('a app_scheme) write_fn" where
  "app_invoke env cb d p v src s =
     (if cb = ''write_cb'' then app_write_cb d p v src s
      else if cb = ''schedule_write_cb'' then schedule_write_cb (be_libc env) (be_parse env) d p v src s
      else if cb = ''esp_rmaker_ota_service_cb'' then esp_rmaker_ota_service_cb d p v src s
      else if cb = ''esp_rmaker_time_service_cb'' then esp_rmaker_time_service_cb d p v src s
      else (ESP_OK, s))"

definition app_driver_init :: "'a app_scheme \<Rightarrow> esp_err \<times> 'a app_scheme" where
  "app_driver_init s = (ESP_OK, Bri_Ctrl_Init s)"

definition app_wifi_init_end :: "'a app_scheme \<Rightarrow> 'a app_scheme" where
  "app_wifi_init_end s = send_bri_ctrl_info WIFIINITENDCMD 1 s"

definition swap_16 :: "u16 \<Rightarrow> u16" where
  "swap_16 x = or (drop_bit 8 (and x 0xff00)) (push_bit 8 (and x 0x00ff))"

definition le_bytes :: "u16 \<Rightarrow> u8 list" where
  \<comment> \<open>as it lies in memory\<close>
  "le_bytes x = [ucast x, ucast (drop_bit 8 x)]"

definition fill_mfg_info :: "u8 list" where
  "fill_mfg_info = [0xe5, 0x02] @ map (word_of_nat \<circ> of_char) ''Nova''
     @ le_bytes (swap_16 1) @ le_bytes (swap_16 128) @ [1, 1]"

abbreviation rm_handler_name :: string where "rm_handler_name \<equiv> ''app_rainmaker event_handler''"

definition app_rainmaker_setup :: "boot_env \<Rightarrow> 'a app_scheme \<Rightarrow> 'a app_scheme option" where
  \<comment> \<open>\<open>app_rainmaker_init\<close> up to the call of \<open>esp_rmaker_start\<close>\<close>
  "app_rainmaker_setup env s =
     (let invoke = app_invoke env;
          (err, s) = call (Net (EventRegister ''RMAKER_EVENT'' ''ESP_EVENT_ANY_ID'' rm_handler_name)) s;
          s = error_check err s;
          (err, s) = call (Net (EventRegister ''RMAKER_COMMON_EVENT'' ''RMAKER_MQTT_EVENT_DISCONNECTED''
                       rm_handler_name)) s;
          s = error_check err s;
          (node, s) = esp_rmaker_node_init (be_app_desc env) (Some False)
                        (Some ''ESP RainMaker Device'') (Some ''Lightbulb'') s
      in if node = None then None
         else
           let (device, s) = esp_rmaker_lightbulb_device_create invoke (Some ''Light'') [] False s;
               s = s\<lparr>switch_device := device\<rparr>;
               (_, s) = esp_rmaker_device_add_cb device (Some ''write_cb'') None s;
               (param, s) = esp_rmaker_brightness_param_create (Some ''Brightness'') 25 s;
               (_, s) = esp_rmaker_device_add_param invoke device param s;
               (_, s) = esp_rmaker_node_add_device node device s;
               (_, s) = esp_rmaker_ota_enable invoke
                          (Some \<lparr>oc_cb = None, oc_diag = False, oc_cert = be_ota_cert env\<rparr>) OTA_USING_PARAMS s;
               (_, s) = esp_rmaker_timezone_service_enable invoke s;
               (_, s) = esp_rmaker_schedule_enable invoke s
           in Some s)"

definition app_rainmaker_init :: "boot_env \<Rightarrow> 'a app_scheme \<Rightarrow> (esp_err \<times> 'a app_scheme) option" where
  "app_rainmaker_init env s = map_option esp_rmaker_start (app_rainmaker_setup env s)"

definition nvs_init :: "'a app_scheme \<Rightarrow> 'a app_scheme" where
  \<comment> \<open>with the storage erased once if it cannot be used\<close>
  "nvs_init s =
     (let (err, s) = call (Os NvsFlashInit) s;
          (err, s) =
            (if err = ESP_ERR_NVS_NO_FREE_PAGES \<or> err = ESP_ERR_NVS_NEW_VERSION_FOUND then
               let (e, s) = call (Os NvsFlashErase) s
               in call (Os NvsFlashInit) (error_check e s)
             else (err, s))
      in error_check err s)"

definition app_boot_drivers :: "'a app_scheme \<Rightarrow> 'a app_scheme" where
  \<comment> \<open>\<open>app_main\<close> up to the call of \<open>app_rainmaker_init\<close>\<close>
  "app_boot_drivers s =
     (let s = nvs_init s;
          (_, s) = app_driver_init s;
          (_, s) = app_pm_config s
      in app_wifi_init (wifi_start_init (adc_cheak s)))"

definition app_after_start :: "'a app_scheme \<Rightarrow> 'a app_scheme option" where
  \<comment> \<open>\<open>app_main\<close> behind the call of \<open>app_rainmaker_init\<close>\<close>
  "app_after_start s =
     (let (err, s) = app_wifi_start \<lparr>mfg = fill_mfg_info, broadcast_prefix = ''Nova'',
                       prov_timeout = 1, enable_prov = True\<rparr> s
      in if err \<noteq> ESP_OK then None else Some (s\<lparr>s_wifi_init_end_flag := True\<rparr>))"

definition app_main :: "boot_env \<Rightarrow> 'a app_scheme \<Rightarrow> 'a app_scheme option" where
  "app_main env s =
     (case app_rainmaker_init env (app_boot_drivers s) of None \<Rightarrow> None
      | Some (_, s) \<Rightarrow> app_after_start s)"

end
