(* ===== verification/App_Boot.thy ===== *)
theory App_Boot
  imports App_Main Rm_Agent Rm_Schedule_Inv
begin

text \<open>
  What the start of the device guarantees: whatever the SDK answers and whatever is stored, the
  agent is initialised with a node, and its task waits in the work queue, when the agent is started.
\<close>

subsection \<open>The library leaves the agent alone\<close>

lemma agent_heaps [frame_simps]:
  "agent (upd_param p f s) = agent s" "agent (upd_device d g s) = agent s" "agent (upd_node n h s) = agent s"
  "agent (upd_rs r rf s) = agent s" "agent (upd_es e ef s) = agent s" "agent (upd_trigger e tf s) = agent s"
  "agent (upd_sched_data sf s) = agent s" "agent (x_timer e c s) = agent s"
  by (simp_all add: agent_def upd_param_def upd_device_def upd_node_def upd_rs_def upd_es_def upd_trigger_def
      upd_sched_data_def x_timer_def)

lemma agent_heap_fields [frame_simps]:
  "agent (s\<lparr>pheap := h\<rparr>) = agent s" "agent (s\<lparr>dheap := dh\<rparr>) = agent s" "agent (s\<lparr>nheap := nh\<rparr>) = agent s"
  "agent (s\<lparr>rs_heap := rh\<rparr>) = agent s" "agent (s\<lparr>es_heap := eh\<rparr>) = agent s"
  "agent (s\<lparr>next_ref := r, pheap := h\<rparr>) = agent s" "agent (s\<lparr>next_ref := r, dheap := dh\<rparr>) = agent s"
  "agent (s\<lparr>next_ref := r, rs_heap := rh\<rparr>) = agent s" "agent (s\<lparr>next_ref := r, es_heap := eh\<rparr>) = agent s"
  "agent (s\<lparr>schedule_priv_data := sp\<rparr>) = agent s" "agent (s\<lparr>ota := ob\<rparr>) = agent s"
  "agent (s\<lparr>ota_init_done := b\<rparr>) = agent s" "agent (s\<lparr>time_init_done := b\<rparr>) = agent s"
  "agent (s\<lparr>env_tz := tz\<rparr>) = agent s"
  by (simp_all add: agent_def)

lemma agent_store [frame_simps]: "agent (snd (esp_rmaker_param_store_value p s)) = agent s"
  by (auto simp: esp_rmaker_param_store_value_def Let_def case_prod_beta frame_simps split: option.split)

lemma agent_report_internal [frame_simps]: "agent (snd (esp_rmaker_report_param_internal f s)) = agent s"
  by (simp add: esp_rmaker_report_param_internal_def Let_def case_prod_beta frame_simps)

lemma agent_update [frame_simps]:
  "agent (snd (esp_rmaker_param_update p v s)) = agent s"
  "agent (snd (esp_rmaker_param_report p s)) = agent s"
  "agent (snd (esp_rmaker_param_update_and_report p v s)) = agent s"
proof -
  show u: "agent (snd (esp_rmaker_param_update p v s)) = agent s" for s :: "'a core_scheme"
    by (auto simp: esp_rmaker_param_update_def Let_def case_prod_beta frame_simps split: option.split)
  show r: "agent (snd (esp_rmaker_param_report p s)) = agent s" for s :: "'a core_scheme"
    by (auto simp: esp_rmaker_param_report_def frame_simps split: option.split)
  show "agent (snd (esp_rmaker_param_update_and_report p v s)) = agent s"
    using u r by (auto simp: esp_rmaker_param_update_and_report_def Let_def case_prod_beta)
qed

lemma agent_new_param [frame_simps]:
  "agent (snd (new_param s)) = agent s" "agent (snd (esp_rmaker_param_delete p s)) = agent s"
  by (auto simp: new_param_def esp_rmaker_param_delete_def case_prod_beta Let_def frame_simps split: option.split)

lemma agent_delete_params [frame_simps]: "agent (delete_params ps s) = agent s"
  by (induction ps arbitrary: s) (simp_all add: frame_simps)

lemma agent_stored_value [frame_simps]:
  "agent (snd (snd (esp_rmaker_param_get_stored_value p v s))) = agent s"
  by (auto simp: esp_rmaker_param_get_stored_value_def Let_def case_prod_beta frame_simps
      split: option.split nvs_ans.split)

lemma agent_param_create [frame_simps]:
  "agent (snd (esp_rmaker_param_create n t v f s)) = agent s"
  "agent (snd (esp_rmaker_param_add_ui_type p ui s)) = agent s"
  "agent (snd (esp_rmaker_param_add_bounds p a b c s)) = agent s"
  "agent (snd (esp_rmaker_param_add_array_max_count p k s)) = agent s"
  by (auto simp: esp_rmaker_param_create_def esp_rmaker_param_add_ui_type_def esp_rmaker_param_add_bounds_def
      esp_rmaker_param_add_array_max_count_def Let_def case_prod_beta frame_simps split: option.split)

lemma agent_device_delete [frame_simps]: "agent (snd (esp_rmaker_device_delete d s)) = agent s"
  by (auto simp: esp_rmaker_device_delete_def Let_def case_prod_beta frame_simps split: option.split)

lemma agent_device_create [frame_simps]:
  "agent (snd (esp_rmaker_device_create nm t pd s)) = agent s"
  "agent (snd (esp_rmaker_service_create nm t pd s)) = agent s"
  by (auto simp: esp_rmaker_device_create_def esp_rmaker_service_create_def
      esp_rmaker_device_create_internal_def Let_def case_prod_beta frame_simps split: option.split)

lemma agent_device_ops [frame_simps]:
  "agent (snd (esp_rmaker_device_add_cb d w r s)) = agent s"
  "agent (snd (esp_rmaker_device_assign_primary_param d p s)) = agent s"
  "agent (snd (esp_rmaker_node_add_device node e s)) = agent s"
  by (auto simp: esp_rmaker_device_add_cb_def
      esp_rmaker_device_assign_primary_param_def esp_rmaker_node_add_device_def Let_def case_prod_beta frame_simps
      split: option.split)

subsection \<open>The schedule service leaves it alone\<close>

lemma agent_engine [frame_simps]:
  "agent (esp_schedule_start_timer lc rm_callbacks h s) = agent s"
  "agent (snd (esp_schedule_disable i s)) = agent s"
  "agent (snd (esp_schedule_delete i s)) = agent s"
  "agent (snd (esp_schedule_set h c s)) = agent s"
  "agent (esp_schedule_create_timer h s) = agent s"
  "agent (esp_schedule_init s) = agent s"
proof -
  have ts: "agent (timestamp_fn rm_callbacks f h n p t) = agent t" for f n p and t :: "'a core_scheme"
    by (simp add: rm_callbacks_def esp_rmaker_schedule_timestamp_common_cb_def frame_simps split: option.split)
  show "agent (esp_schedule_start_timer lc rm_callbacks h s) = agent s"
    by (simp add: esp_schedule_start_timer_def esp_schedule_get_next_schedule_time_diff_def Let_def
        case_prod_beta frame_simps ts split: option.split)
qed (simp_all add: esp_schedule_disable_def esp_schedule_delete_def esp_schedule_stop_timer_def
    esp_schedule_delete_timer_def esp_schedule_set_def esp_schedule_create_timer_def esp_schedule_init_def
    Let_def case_prod_beta frame_simps split: option.split)

lemma agent_engine_ops [frame_simps]:
  "agent (snd (esp_schedule_enable lc rm_callbacks i s)) = agent s"
  "agent (snd (esp_schedule_edit i c s)) = agent s"
  "agent (snd (esp_schedule_create c s)) = agent s"
  by (auto simp: esp_schedule_enable_def esp_schedule_edit_def esp_schedule_create_def
      Let_def case_prod_beta frame_simps split: option.split)

lemma agent_sched_report [frame_simps]:
  "agent (snd (esp_rmaker_schedule_get_params s)) = agent s"
  "agent (snd (esp_rmaker_schedule_report_params s)) = agent s"
proof -
  show g: "agent (snd (esp_rmaker_schedule_get_params s)) = agent s" for s :: "'a core_scheme"
    by (auto simp: esp_rmaker_schedule_get_params_def Let_def case_prod_beta frame_simps)
  show "agent (snd (esp_rmaker_schedule_report_params s)) = agent s"
    by (simp add: esp_rmaker_schedule_report_params_def Let_def case_prod_beta g frame_simps split: option.split)
qed

lemma agent_sched_enable [frame_simps]:
  "agent (snd (esp_rmaker_schedule_operation_disable r s)) = agent s"
  "agent (snd (enable_now lc r s)) = agent s"
  "agent (snd (esp_rmaker_schedule_operation_enable lc r s)) = agent s"
proof -
  show d: "agent (snd (esp_rmaker_schedule_operation_disable r s)) = agent s" for s :: "'a core_scheme"
    by (simp add: esp_rmaker_schedule_operation_disable_def Let_def case_prod_beta frame_simps)
  show n: "agent (snd (enable_now lc r s)) = agent s" for s :: "'a core_scheme"
    by (simp add: enable_now_def esp_rmaker_schedule_is_expired_def Let_def case_prod_beta frame_simps d)
  show "agent (snd (esp_rmaker_schedule_operation_enable lc r s)) = agent s"
    by (simp add: esp_rmaker_schedule_operation_enable_def esp_rmaker_time_check_def
        esp_rmaker_schedule_timesync_timer_init_def esp_rmaker_schedule_timesync_timer_start_def
        sync_timer_call_def Let_def case_prod_beta frame_simps n split: time_sync_state.split)
qed

lemma agent_sched_ops [frame_simps]:
  "agent (snd (esp_rmaker_schedule_operation_add r s)) = agent s"
  "agent (snd (esp_rmaker_schedule_operation_edit lc r s)) = agent s"
  "agent (snd (esp_rmaker_schedule_operation_remove r s)) = agent s"
  by (auto simp: esp_rmaker_schedule_operation_add_def esp_rmaker_schedule_add_def
      esp_rmaker_schedule_add_to_list_def esp_rmaker_schedule_operation_edit_def
      esp_rmaker_schedule_operation_remove_def esp_rmaker_schedule_remove_from_list_def
      esp_rmaker_schedule_remove_def Let_def case_prod_beta frame_simps)

lemma agent_sched_perform [frame_simps]:
  "agent (snd (esp_rmaker_schedule_perform_operation lc r operation enabled s)) = agent s"
  by (cases operation)
     (simp_all add: esp_rmaker_schedule_perform_operation_def Let_def case_prod_beta frame_simps)

lemma agent_sched_parse [frame_simps]:
  "agent (snd (esp_rmaker_schedule_parse_action j r s)) = agent s"
  "agent (esp_rmaker_schedule_parse_info_and_flags j r s) = agent s"
  "agent (snd (esp_rmaker_schedule_find_or_create j i op s)) = agent s"
  by (auto simp: esp_rmaker_schedule_parse_action_def esp_rmaker_schedule_parse_info_and_flags_def
      esp_rmaker_schedule_find_or_create_def Let_def case_prod_beta frame_simps split: option.split)

lemma agent_parse_element [frame_simps]:
  "agent (snd (snd (snd (parse_element lc src j i enabled s)))) = agent s"
proof -
  obtain found t where f: "esp_rmaker_schedule_find_or_create j (get_string_or i j ''id'' MAX_ID_LEN)
      (if src = ESP_RMAKER_REQ_SRC_INIT then OPERATION_ADD
       else esp_rmaker_schedule_parse_operation j (get_string_or i j ''id'' MAX_ID_LEN) s) s = (found, t)"
    by fastforce
  then have "agent t = agent s" by (metis agent_sched_parse(3) snd_conv)
  then show ?thesis
    by (auto simp: parse_element_def f Let_def case_prod_beta frame_simps split: option.split)
qed

lemma agent_parse_elements [frame_simps]: "agent (parse_elements f lc src n j i enabled s) = agent s"
  by (induction f arbitrary: n j i enabled s) (simp_all add: case_prod_beta frame_simps split: option.split)

lemma agent_schedule_cb [frame_simps]:
  "agent (snd (schedule_write_cb lc parse d p v src s)) = agent s"
  by (simp add: schedule_write_cb_def esp_rmaker_schedule_parse_json_def Let_def case_prod_beta frame_simps
      split: option.split)

subsection \<open>The time service and the light leave it alone\<close>

lemma agent_time_nvs [frame_simps]:
  "agent (snd (time_get_nvs k s)) = agent s" "agent (snd (time_set_nvs k v s)) = agent s"
  by (simp_all add: time_get_nvs_def time_set_nvs_def Let_def case_prod_beta frame_simps split: nvs_ans.split)

lemma agent_time [frame_simps]:
  "agent (snd (esp_rmaker_time_get_timezone_posix s)) = agent s"
  "agent (snd (esp_rmaker_time_get_timezone s)) = agent s"
  "agent (snd (esp_rmaker_time_set_timezone_posix z s)) = agent s"
  by (simp_all add: esp_rmaker_time_get_timezone_posix_def esp_rmaker_time_get_timezone_def
      esp_rmaker_time_set_timezone_posix_def Let_def case_prod_beta frame_simps)

lemma agent_time_set [frame_simps]:
  "agent (snd (esp_rmaker_time_set_timezone z s)) = agent s"
  "agent (snd (esp_rmaker_timezone_enable s)) = agent s"
  "agent (snd (esp_rmaker_time_sync_init c s)) = agent s"
proof -
  show "agent (snd (esp_rmaker_time_set_timezone z s)) = agent s"
    by (simp add: esp_rmaker_time_set_timezone_def Let_def case_prod_beta frame_simps split: option.split)
  show e: "agent (snd (esp_rmaker_timezone_enable s)) = agent s" for s :: "'a core_scheme"
    by (simp add: esp_rmaker_timezone_enable_def Let_def case_prod_beta frame_simps split: option.split
        del: length_greater_0_conv)
  show "agent (snd (esp_rmaker_time_sync_init c s)) = agent s"
    by (simp add: esp_rmaker_time_sync_init_def Let_def case_prod_beta frame_simps e)
qed

lemma agent_time_cb [frame_simps]:
  "agent (snd (esp_rmaker_time_service_cb d p v src s)) = agent s"
  by (simp add: esp_rmaker_time_service_cb_def Let_def case_prod_beta frame_simps split: option.split)

lemma agent_app_fields [frame_simps]:
  fixes s :: "'a app_scheme"
  shows "agent (s\<lparr>Bri_Status := w\<rparr>) = agent s" "agent (s\<lparr>Bri_Now_Pct := b\<rparr>) = agent s"
    "agent (s\<lparr>Bri_Min_Pct := b\<rparr>) = agent s" "agent (s\<lparr>Bri_Max_Pct := b\<rparr>) = agent s"
    "agent (s\<lparr>ucSendBuff := bs, ucSendFlag := f\<rparr>) = agent s"
    "agent (s\<lparr>ucSendTaskHandle_Flag := f\<rparr>) = agent s" "agent (s\<lparr>switch_device := r\<rparr>) = agent s"
    "agent (s\<lparr>s_pm_cpu_lock := f\<rparr>) = agent s" "agent (s\<lparr>timers := ts\<rparr>) = agent s"
    "agent (s\<lparr>strat := st\<rparr>) = agent s" "agent (s\<lparr>g_prov_timer := f\<rparr>) = agent s"
    "agent (s\<lparr>s_wifi_init_end_flag := f\<rparr>) = agent s" "agent (s\<lparr>wakeup_io_intr_type := it\<rparr>) = agent s"
    "agent (s\<lparr>ucRxTaskHandle_Flag := f\<rparr>) = agent s"
  by (simp_all add: agent_def)

lemma agent_timers [frame_simps]:
  "agent (timer_stop i s) = agent s" "agent (snd (timer_create i cb s)) = agent s"
  "agent (error_check e s) = agent s" "agent (vTaskDelay n s) = agent s"
  by (simp_all add: timer_stop_def timer_create_def error_check_def vTaskDelay_def Let_def case_prod_beta
      frame_simps)

lemma agent_send [frame_simps]: "agent (send_bri_ctrl_info c d s) = agent s"
  by (simp add: send_bri_ctrl_info_def Let_def case_prod_beta frame_simps)

lemma agent_lights [frame_simps]:
  "agent (Open_The_Lights s) = agent s" "agent (Close_The_Lights s) = agent s"
  "agent (Set_Btight_Pct k s) = agent s"
  by (simp_all add: Open_The_Lights_def Close_The_Lights_def Set_Btight_Pct_def stop_button_check_def
      Let_def frame_simps)

lemma agent_write_cb [frame_simps]: "agent (snd (app_write_cb d p v src s)) = agent s"
  by (simp add: app_write_cb_def Let_def case_prod_beta frame_simps)

lemma agent_invoke:
  "cb \<noteq> ''esp_rmaker_ota_service_cb'' \<Longrightarrow> agent (snd (app_invoke env cb d p v src s)) = agent s"
  by (simp add: app_invoke_def frame_simps)

subsection \<open>Devices and services\<close>

text \<open>Adding a parameter reads the storage and may call the device's write callback.\<close>

lemma add_param_outcome:
  "\<exists>u. agent u = agent s \<and> (\<forall>e. write_cb (dheap u e) = write_cb (dheap s e)) \<and>
     (snd (esp_rmaker_device_add_param invoke device param s) = u \<or>
      (\<exists>d p v cb. device = Some d \<and> write_cb (dheap s d) = Some cb \<and>
         snd (esp_rmaker_device_add_param invoke device param s) = snd (invoke cb d p v ESP_RMAKER_REQ_SRC_INIT u)))"
  (is "\<exists>u. ?P u")
proof (cases "\<exists>d p ps. device = Some d \<and> param = Some p \<and> param_chain_add s p (d_params (dheap s d)) = Some ps")
  case False
  then have "snd (esp_rmaker_device_add_param invoke device param s) = s"
    by (auto simp: esp_rmaker_device_add_param_def split: option.splits)
  then have "?P s" by simp
  then show ?thesis by blast
next
  case True
  then obtain d p ps where dp: "device = Some d" "param = Some p"
    and ps: "param_chain_add s p (d_params (dheap s d)) = Some ps" by blast
  define t where "t = upd_device d (\<lambda>r. r\<lparr>d_params := ps\<rparr>) (upd_param p (\<lambda>r. r\<lparr>p_parent := Some d\<rparr>) s)"
  obtain e v u where g: "esp_rmaker_param_get_stored_value (Some p) (p_val (pheap s p)) t = (e, v, u)"
    by (metis prod_cases3)
  have "p_val (pheap t p) = p_val (pheap s p)" by (simp add: t_def)
  then have g': "esp_rmaker_param_get_stored_value (Some p) (p_val (pheap t p)) t = (e, v, u)" using g by simp
  define w where "w = upd_param p (\<lambda>r. r\<lparr>p_val := v\<rparr>) u"
  have "agent t = agent s" "\<forall>e. write_cb (dheap t e) = write_cb (dheap s e)" by (simp_all add: t_def frame_simps)
  moreover have "agent u = agent t" using agent_stored_value g by (metis snd_conv)
  moreover have "dheap u = dheap t" using get_stored_value_heaps g by blast
  moreover have "agent w = agent u" "dheap w = dheap u" by (simp_all add: w_def frame_simps)
  ultimately have k: "agent x = agent s \<and> (\<forall>e. write_cb (dheap x e) = write_cb (dheap s e))"
    if "x \<in> {t, w, snd (esp_rmaker_param_store_value (Some p) u)}" for x
    using that by (auto simp: frame_simps)
  have run: "snd (esp_rmaker_device_add_param invoke device param s) =
     (if \<not> prop_bit PROP_FLAG_PERSIST (prop_flags (pheap s p)) then t
      else if e \<noteq> ESP_OK then snd (esp_rmaker_param_store_value (Some p) u)
      else case write_cb (dheap w d) of None \<Rightarrow> w
        | Some cb \<Rightarrow> if p_type (pheap w p) = Some ESP_RMAKER_PARAM_NAME then w
            else snd (invoke cb d p v ESP_RMAKER_REQ_SRC_INIT w))"
    using ps g g' by (simp add: dp esp_rmaker_device_add_param_def Let_def t_def [symmetric] w_def
        split: option.split)
  show ?thesis
  proof (cases "snd (esp_rmaker_device_add_param invoke device param s)
      \<in> {t, w, snd (esp_rmaker_param_store_value (Some p) u)}")
    case True
    then show ?thesis using k by blast
  next
    case False
    then have "?P w" using run k [of w] dp by (auto split: if_splits option.splits)
    then show ?thesis by blast
  qed
qed

lemma agent_add_param:
  assumes "\<And>d. device = Some d \<Longrightarrow> write_cb (dheap s d) \<noteq> Some ''esp_rmaker_ota_service_cb''"
  shows "agent (snd (esp_rmaker_device_add_param (app_invoke env) device param s)) = agent s"
  using add_param_outcome [of s "app_invoke env" device param] assms agent_invoke by (metis (no_types, lifting))

text \<open>A device without a write callback keeps none while parameters are created and added.\<close>

definition silent :: "nat option \<Rightarrow> 'a rm_scheme \<Rightarrow> bool" where
  "silent device s \<longleftrightarrow> (case device of None \<Rightarrow> True | Some d \<Rightarrow> write_cb (dheap s d) = None)"

lemma dheap_new_param [simp]:
  "dheap (snd (new_param s)) = dheap s" "dheap (snd (esp_rmaker_param_delete p s)) = dheap s"
  by (auto simp: new_param_def esp_rmaker_param_delete_def case_prod_beta Let_def split: option.split)

lemma dheap_param_create [simp]:
  "dheap (snd (esp_rmaker_param_create nm t v f s)) = dheap s"
  "dheap (snd (esp_rmaker_param_add_ui_type p ui s)) = dheap s"
  "dheap (snd (esp_rmaker_param_add_bounds p a b c s)) = dheap s"
  "dheap (snd (esp_rmaker_param_add_array_max_count p k s)) = dheap s"
  by (auto simp: esp_rmaker_param_create_def esp_rmaker_param_add_ui_type_def esp_rmaker_param_add_bounds_def
      esp_rmaker_param_add_array_max_count_def Let_def case_prod_beta split: option.split)

lemmas std_params = esp_rmaker_name_param_create_def esp_rmaker_power_param_create_def bounded_param_def
  esp_rmaker_brightness_param_create_def esp_rmaker_ota_status_param_create_def
  esp_rmaker_ota_info_param_create_def esp_rmaker_ota_url_param_create_def
  esp_rmaker_timezone_param_create_def esp_rmaker_timezone_posix_param_create_def
  esp_rmaker_schedules_param_create_def

lemma std_param_frames [simp]:
  "dheap (snd (esp_rmaker_name_param_create nm v s)) = dheap s"
  "dheap (snd (esp_rmaker_power_param_create nm b s)) = dheap s"
  "dheap (snd (esp_rmaker_brightness_param_create nm i s)) = dheap s"
  "dheap (snd (esp_rmaker_ota_status_param_create nm s)) = dheap s"
  "dheap (snd (esp_rmaker_ota_info_param_create nm s)) = dheap s"
  "dheap (snd (esp_rmaker_ota_url_param_create nm s)) = dheap s"
  "dheap (snd (esp_rmaker_timezone_param_create nm v s)) = dheap s"
  "dheap (snd (esp_rmaker_timezone_posix_param_create nm v s)) = dheap s"
  "dheap (snd (esp_rmaker_schedules_param_create nm i s)) = dheap s"
  by (simp_all add: std_params Let_def case_prod_beta)

lemma agent_std_params [frame_simps]:
  "agent (snd (esp_rmaker_name_param_create nm v s)) = agent s"
  "agent (snd (esp_rmaker_power_param_create nm b s)) = agent s"
  "agent (snd (esp_rmaker_brightness_param_create nm i s)) = agent s"
  "agent (snd (esp_rmaker_ota_status_param_create nm s)) = agent s"
  "agent (snd (esp_rmaker_ota_info_param_create nm s)) = agent s"
  "agent (snd (esp_rmaker_ota_url_param_create nm s)) = agent s"
  "agent (snd (esp_rmaker_timezone_param_create nm v s)) = agent s"
  "agent (snd (esp_rmaker_timezone_posix_param_create nm v s)) = agent s"
  "agent (snd (esp_rmaker_schedules_param_create nm i s)) = agent s"
  by (simp_all add: std_params Let_def case_prod_beta frame_simps)

lemma silent_add_param:
  assumes "silent device s"
  shows "agent (snd (esp_rmaker_device_add_param invoke device param s)) = agent s
    \<and> silent device (snd (esp_rmaker_device_add_param invoke device param s))"
  using add_param_outcome [of s invoke device param] assms by (auto simp: silent_def split: option.splits)

lemma silent_dheap: "dheap t = dheap s \<Longrightarrow> silent device t = silent device s"
  by (simp add: silent_def split: option.split)

lemma silent_add_created:
  assumes "silent device s" "agent (snd r) = agent s" "dheap (snd r) = dheap s"
  shows "agent (add_created invoke device r) = agent s \<and> silent device (add_created invoke device r)"
  using assms silent_add_param [of device "snd r"] silent_dheap [OF assms(3)] by (simp add: add_created_def)

lemma new_device_silent:
  "silent (fst (esp_rmaker_device_create nm ty pd s)) (snd (esp_rmaker_device_create nm ty pd s))"
  "silent (fst (esp_rmaker_service_create nm ty pd s)) (snd (esp_rmaker_service_create nm ty pd s))"
  by (auto simp: silent_def esp_rmaker_device_create_def esp_rmaker_service_create_def device0_def
      esp_rmaker_device_create_internal_def Let_def case_prod_beta split: option.split)

lemma agent_lightbulb [frame_simps]:
  "agent (snd (esp_rmaker_lightbulb_device_create invoke nm pd b s)) = agent s"
proof -
  obtain device s1 where s1: "esp_rmaker_device_create nm (Some ''esp.device.lightbulb'') pd s = (device, s1)"
    by fastforce
  define s2 where "s2 = add_created invoke device (esp_rmaker_name_param_create (Some ''Name'') nm s1)"
  obtain q s3 where s3: "esp_rmaker_power_param_create (Some ''Power'') b s2 = (q, s3)" by fastforce
  have "agent s1 = agent s" "silent device s1"
    using s1 agent_device_create(1) new_device_silent(1) by (metis fst_conv snd_conv)+
  then have k: "agent s2 = agent s" "silent device s2"
    using silent_add_created [of device s1 "esp_rmaker_name_param_create (Some ''Name'') nm s1" invoke]
    by (simp_all add: s2_def frame_simps)
  have "agent s3 = agent s2" "dheap s3 = dheap s2"
    using s3 agent_std_params(2) [of "Some ''Power''" b s2] std_param_frames(2) [of "Some ''Power''" b s2]
    by simp_all
  then have k3: "agent s3 = agent s" "silent device s3" using k silent_dheap by (simp, blast)
  then have "agent (snd (esp_rmaker_device_add_param invoke device q s3)) = agent s"
    using silent_add_param [OF k3(2)] by simp
  then show ?thesis
    using s1 s3 k k3 \<open>agent s1 = agent s\<close>
    by (simp add: esp_rmaker_lightbulb_device_create_def std_device_def Let_def case_prod_beta frame_simps
        s2_def [symmetric])
qed

text \<open>The services add the parameters they create, one after the other, to a silent device.\<close>

definition calm :: "nat option \<Rightarrow> 'a core_scheme \<Rightarrow> 'a core_scheme \<Rightarrow> bool" where
  "calm device s t \<longleftrightarrow> agent t = agent s \<and> silent device t"

lemma calm_add:
  assumes "calm device s t" "agent (snd (mk t)) = agent t" "dheap (snd (mk t)) = dheap t"
  shows "calm device s (add_created invoke device (mk t))"
  using silent_add_created [of device t "mk t" invoke] assms by (simp add: calm_def)

lemma calm_service:
  "calm (fst (esp_rmaker_service_create nm ty pd s)) s (snd (esp_rmaker_service_create nm ty pd s))"
  using new_device_silent(2) [of nm ty pd s] by (simp add: calm_def frame_simps)

lemma agent_services [frame_simps]:
  "agent (snd (esp_rmaker_ota_service_create invoke nm pd s)) = agent s"
  "agent (snd (esp_rmaker_time_service_create invoke nm tz posix pd s)) = agent s"
proof -
  obtain device t where d: "esp_rmaker_service_create nm (Some ''esp.service.ota'') pd s = (device, t)" by fastforce
  have c: "calm device s t" using calm_service [of nm "Some ''esp.service.ota''" pd s] d by simp
  have "calm device s (snd (esp_rmaker_ota_service_create invoke nm pd s))"
    using c by (auto simp: esp_rmaker_ota_service_create_def d Let_def frame_simps intro!: calm_add)
  then show "agent (snd (esp_rmaker_ota_service_create invoke nm pd s)) = agent s" by (simp add: calm_def)
next
  obtain device t where d: "esp_rmaker_service_create nm (Some ''esp.service.time'') pd s = (device, t)" by fastforce
  have c: "calm device s t" using calm_service [of nm "Some ''esp.service.time''" pd s] d by simp
  have "calm device s (snd (esp_rmaker_time_service_create invoke nm tz posix pd s))"
    using c by (auto simp: esp_rmaker_time_service_create_def d Let_def frame_simps intro!: calm_add)
  then show "agent (snd (esp_rmaker_time_service_create invoke nm tz posix pd s)) = agent s" by (simp add: calm_def)
qed

text \<open>The schedule service sets its callback first, so adding its parameter restores the stored schedules.\<close>

lemma agent_schedule_service [frame_simps]:
  assumes "wcb \<noteq> Some ''esp_rmaker_ota_service_cb''"
  shows "agent (snd (esp_rmaker_create_schedule_service (app_invoke env) nm wcb rcb n pd s)) = agent s"
proof -
  obtain device t where d: "esp_rmaker_service_create nm (Some ''esp.service.schedule'') pd s = (device, t)" by fastforce
  have t: "agent t = agent s" using calm_service [of nm "Some ''esp.service.schedule''" pd s] d by (simp add: calm_def)
  define u where "u = snd (esp_rmaker_device_add_cb device wcb rcb t)"
  obtain q w where w: "esp_rmaker_schedules_param_create (Some ''Schedules'') n u = (q, w)" by fastforce
  have "agent u = agent t" by (simp add: u_def frame_simps)
  moreover have "agent w = agent u" "dheap w = dheap u"
    using w agent_std_params(9) [of "Some ''Schedules''" n u] std_param_frames(9) [of "Some ''Schedules''" n u]
    by simp_all
  moreover have "write_cb (dheap u e) = wcb" if "device = Some e" for e
    using that by (simp add: u_def esp_rmaker_device_add_cb_def)
  ultimately have "agent (snd (esp_rmaker_device_add_param (app_invoke env) device q w)) = agent s"
    using assms t agent_add_param [of device w env q] by simp
  then show ?thesis
    using t by (simp add: esp_rmaker_create_schedule_service_def d Let_def case_prod_beta u_def [symmetric] w
        add_created_def)
qed

lemma agent_ota_enable [frame_simps]:
  "agent (snd (esp_rmaker_ota_enable invoke c OTA_USING_PARAMS s)) = agent s"
  by (simp add: esp_rmaker_ota_enable_def esp_rmaker_ota_enable_using_params_def ota_first_boot_def
      Let_def case_prod_beta frame_simps split: option.split)

lemma agent_timezone_enable [frame_simps]:
  "agent (snd (esp_rmaker_timezone_service_enable invoke s)) = agent s"
  by (simp add: esp_rmaker_timezone_service_enable_def esp_rmaker_time_add_service_def Let_def case_prod_beta
      frame_simps)

lemma agent_schedule_enable [frame_simps]:
  "agent (snd (esp_rmaker_schedule_enable (app_invoke env) s)) = agent s"
  by (simp add: esp_rmaker_schedule_enable_def Let_def case_prod_beta frame_simps)

subsection \<open>The start\<close>

lemma agent_drivers [frame_simps]:
  fixes s :: "'a app_scheme"
  shows "agent (nvs_init s) = agent s" "agent (snd (app_driver_init s)) = agent s"
    "agent (snd (app_pm_config s)) = agent s" "agent (adc_cheak s) = agent s"
    "agent (wifi_start_init s) = agent s" "agent (app_wifi_init s) = agent s"
  by (simp_all add: nvs_init_def app_driver_init_def Bri_Ctrl_Init_def bri_ctrl_uart_init_def
      wakeup_io_intr_init_def wait_for_mcu_info_config_def app_pm_config_def adc_cheak_def wifi_start_init_def app_wifi_init_def
      app_event_register_init_def wifi_custom_connect_strategy_init_def Let_def case_prod_beta frame_simps)

lemma agent_wifi_start [frame_simps]:
  fixes s :: "'a app_scheme"
  shows "agent (snd (app_wifi_start c s)) = agent s"
proof -
  have b: "agent (snd (ask_bytes n t)) = agent t" for n and t :: "'a app_scheme"
    by (induction n arbitrary: t) (simp_all add: Let_def case_prod_beta frame_simps)
  have r: "agent (snd (snd (read_random_bytes_from_nvs t))) = agent t" for t :: "'a app_scheme"
    by (simp add: read_random_bytes_from_nvs_def Let_def case_prod_beta frame_simps b)
  have n: "agent (snd (get_device_service_name p m t)) = agent t" for p m and t :: "'a app_scheme"
    by (simp add: get_device_service_name_def Let_def case_prod_beta frame_simps b r)
  show ?thesis
    by (simp add: app_wifi_start_def wifi_init_sta_def app_wifi_sta_ps_config_def app_wifi_start_timer_def
        Let_def case_prod_beta frame_simps n)
qed

definition ready :: "'a core_scheme \<Rightarrow> bool" where
  \<comment> \<open>the agent is initialised, its node exists, and its task is the only work of the
     queue, whose own task does not exist yet\<close>
  "ready s \<longleftrightarrow> node_created s \<and> (\<exists>p. priv s = Some p \<and> pr_state p = ESP_RMAKER_STATE_INIT_DONE
     \<and> pr_node_id p \<noteq> None \<and> pr_node p \<noteq> None \<and> \<not> mqtt_connected p
     \<and> need_claim p = (\<not> mqtt_conn_params p))
   \<and> work s = (WORK_QUEUE_STATE_INIT_DONE, Some [(''esp_rmaker_task'', [])])"

lemma ready_cong: "agent t = agent s \<Longrightarrow> ready t = ready s"
  by (simp add: agent_iff ready_def)

lemma agent_set_created [frame_simps]:
  "agent (s\<lparr>node_created := b\<rparr>) = apsnd (apsnd (apsnd (\<lambda>_. b))) (agent s)"
  by (simp add: agent_def)

lemma node_create_agent:
  assumes "esp_rmaker_node_create desc nm ty s = (Some n, t)"
  shows "agent t = agent (s\<lparr>node_created := True\<rparr>)"
  using assms
  by (auto simp: esp_rmaker_node_create_def Let_def case_prod_beta frame_simps split: if_splits option.splits)

lemma node_init_ready:
  assumes "untouched s" "esp_rmaker_node_init desc (Some ts) nm ty s = (Some n, t)"
  shows "ready t"
proof -
  obtain e1 s1 where s1: "esp_rmaker_init (Some ts) True s = (e1, s1)" by fastforce
  obtain m s2 where s2: "esp_rmaker_node_create desc nm ty s1 = (m, s2)" by fastforce
  have ok: "e1 = ESP_OK" "m = Some n" "t = snd (esp_rmaker_register_node (Some n) s2)"
    using assms(2) by (auto simp: esp_rmaker_node_init_def s1 s2 Let_def case_prod_beta split: if_splits)
  have "initialised ts s1" using init_outcome [OF assms(1), of ts True] s1 ok by simp
  moreover have "priv s2 = priv s1 \<and> work s2 = work s1 \<and> node_created s2"
    using node_create_agent [of desc nm ty s1 n s2] s2 ok by (simp add: agent_iff)
  ultimately show ?thesis
    by (auto simp: ok initialised_def ready_def esp_rmaker_register_node_def esp_rmaker_get_node_def)
qed

text \<open>The state before the agent is initialised, within \<open>app_rainmaker_setup\<close>.\<close>

definition with_handlers :: "'a app_scheme \<Rightarrow> 'a app_scheme" where
  "with_handlers s =
     (let (err, s) = call (Net (EventRegister ''RMAKER_EVENT'' ''ESP_EVENT_ANY_ID'' rm_handler_name)) s;
          s = error_check err s;
          (err, s) = call (Net (EventRegister ''RMAKER_COMMON_EVENT'' ''RMAKER_MQTT_EVENT_DISCONNECTED''
                       rm_handler_name)) s
      in error_check err s)"

abbreviation init_node :: "boot_env \<Rightarrow> 'a app_scheme \<Rightarrow> nat option \<times> 'a app_scheme" where
  "init_node env \<equiv> esp_rmaker_node_init (be_app_desc env) (Some False) (Some ''ESP RainMaker Device'')
     (Some ''Lightbulb'')"

lemma rainmaker_setup_ready:
  assumes "untouched s" "app_rainmaker_setup env s = Some t"
  shows "ready t"
proof -
  define s1 where "s1 = with_handlers s"
  obtain node s2 where s2: "init_node env s1 = (node, s2)" by fastforce
  have "agent s1 = agent s" by (simp add: s1_def with_handlers_def Let_def case_prod_beta frame_simps)
  then have u: "untouched s1" using assms(1) by (simp add: untouched_def agent_iff)
  obtain n where n: "node = Some n"
    using assms(2) s2 by (auto simp: app_rainmaker_setup_def s1_def with_handlers_def Let_def case_prod_beta split: if_splits)
  have r: "ready s2" using node_init_ready [OF u] s2 n by simp
  obtain device s3 where s3: "esp_rmaker_lightbulb_device_create (app_invoke env) (Some ''Light'') [] False s2 = (device, s3)"
    by fastforce
  define s4 where "s4 = snd (esp_rmaker_device_add_cb device (Some ''write_cb'') None (s3\<lparr>switch_device := device\<rparr>))"
  obtain q s5 where s5: "esp_rmaker_brightness_param_create (Some ''Brightness'') 25 s4 = (q, s5)" by fastforce
  define s6 where "s6 = snd (esp_rmaker_device_add_param (app_invoke env) device q s5)"
  have "agent s3 = agent s2" using agent_lightbulb s3 by (metis snd_conv)
  moreover have "agent s4 = agent s3" by (simp add: s4_def frame_simps)
  moreover have "agent s5 = agent s4" "dheap s5 = dheap s4"
    using s5 agent_std_params(3) std_param_frames(3) by (metis snd_conv)+
  moreover have "write_cb (dheap s4 d) = Some ''write_cb''" if "device = Some d" for d
    using that by (simp add: s4_def esp_rmaker_device_add_cb_def)
  ultimately have "agent s6 = agent s2"
    using agent_add_param [of device s5 env q] by (simp add: s6_def)
  moreover define s7 where "s7 = snd (esp_rmaker_schedule_enable (app_invoke env) (snd (esp_rmaker_timezone_service_enable
      (app_invoke env) (snd (esp_rmaker_ota_enable (app_invoke env) (Some \<lparr>oc_cb = None, oc_diag = False,
        oc_cert = be_ota_cert env\<rparr>) OTA_USING_PARAMS (snd (esp_rmaker_node_add_device node device s6)))))))"
  then have "agent s7 = agent s6" by (simp add: frame_simps)
  ultimately have "ready s7" using r ready_cong by (metis (no_types))
  moreover have "t = s7"
    using assms(2) s2 n s3 s5
    by (simp add: app_rainmaker_setup_def s1_def with_handlers_def s4_def s6_def s7_def Let_def case_prod_beta)
  ultimately show ?thesis by simp
qed

lemma agent_boot_drivers [frame_simps]: "agent (app_boot_drivers s) = agent s"
  by (simp add: app_boot_drivers_def Let_def case_prod_beta frame_simps)

lemma agent_after_start: "app_after_start s = Some t \<Longrightarrow> agent t = agent s \<and> s_wifi_init_end_flag t"
  by (auto simp: app_after_start_def Let_def case_prod_beta frame_simps split: if_splits)

text \<open>C39. The start prepares the agent before anything can run it. From the state in which the program
  begins, whatever the SDK answers and whatever the storage holds (the stored schedules are parsed
  and applied on the way): if the main task gets as far as the call of \<open>esp_rmaker_start\<close>, which creates
  the work queue's task, then at that call the agent is initialised, with a node id, its node created and
  registered and connection parameters or a pending claim, and its task is the only entry of the
  work queue, which nothing has taken yet. What the main task does after the call, whatever state
  the call and the tasks it lets run leave, changes nothing of the agent and sets the flag of the
  finished start.\<close>
theorem boot_agent_ready:
  assumes "untouched s" "app_rainmaker_setup env (app_boot_drivers s) = Some u"
  shows "ready u \<and> app_main env s = app_after_start (snd (esp_rmaker_start u))
    \<and> (\<forall>v t. app_after_start v = Some t \<longrightarrow> agent t = agent v \<and> s_wifi_init_end_flag t)"
proof -
  have "untouched (app_boot_drivers s)"
    using assms(1) agent_boot_drivers [of s] by (simp add: untouched_def agent_iff)
  then have "ready u" using rainmaker_setup_ready assms(2) by blast
  then show ?thesis
    using assms(2) agent_after_start by (auto simp: app_main_def app_rainmaker_init_def case_prod_beta)
qed

text \<open>The start gets there when the node could be created.\<close>

lemma setup_ends:
  assumes "fst (init_node env (with_handlers s)) \<noteq> None"
  shows "\<exists>t. app_rainmaker_setup env s = Some t"
  using assms by (auto simp: app_rainmaker_setup_def with_handlers_def Let_def case_prod_beta)

definition ex_boot_env :: boot_env where
  "ex_boot_env = \<lparr>be_app_desc = (''1.0'', ''light''), be_ota_cert = [], be_libc = zone 0, be_parse = (\<lambda>_. None)\<rparr>"

definition ex_boot :: app where
  \<comment> \<open>a device with a node id and its credentials in the storage\<close>
  "ex_boot = app_init\<lparr>nvs_in := [NvsStr ''n1'', NvsStr ''key'', NvsStr ''cert'', NvsStr ''host'']\<rparr>"

theorem boot_agent_ready_witness:
  "\<exists>u. app_rainmaker_setup ex_boot_env (app_boot_drivers ex_boot) = Some u \<and> ready u"
proof -
  have "fst (init_node ex_boot_env (with_handlers (app_boot_drivers ex_boot))) \<noteq> None" by code_simp
  then obtain u where u: "app_rainmaker_setup ex_boot_env (app_boot_drivers ex_boot) = Some u"
    using setup_ends by blast
  have "untouched ex_boot" by code_simp
  then show ?thesis using boot_agent_ready [OF _ u] u by blast
qed

end
