(* ===== verification/Jsmn.thy ===== *)
theory Jsmn
  imports Json_Parser
begin

text \<open>
  The tokenizer of the JSON reader: \<open>jsmn.h\<close>, as \<open>json_parser.c\<close> compiles it, with
  \<open>JSMN_PARENT_LINKS\<close> and \<open>JSMN_STRICT\<close>. It runs twice over the text: with \<open>tokens == NULL\<close>
  it counts, with an array of that many tokens it fills them in.

  \<open>room\<close> is \<open>None\<close> for \<open>tokens == NULL\<close> and otherwise \<open>num_tokens\<close>. The tokens are the list of
  those that have been taken from the array, so \<open>toknext\<close> is its length. An error is \<open>Inl\<close> with
  its code. Positions are not bounded by the width of \<open>int\<close>: a text that long does not fit into
  the memory of the device.
\<close>

abbreviation (input) JSMN_ERROR_NOMEM :: int where "JSMN_ERROR_NOMEM \<equiv> - 1"
abbreviation (input) JSMN_ERROR_INVAL :: int where "JSMN_ERROR_INVAL \<equiv> - 2"
abbreviation (input) JSMN_ERROR_PART :: int where "JSMN_ERROR_PART \<equiv> - 3"

record jsmn_parser =
  ps_pos :: nat
  toksuper :: int
  toks :: "json_tok list"

definition toknext :: "jsmn_parser \<Rightarrow> nat" where
  "toknext p = length (toks p)"

definition jsmn_init :: jsmn_parser where
  "jsmn_init = \<lparr>ps_pos = 0, toksuper = - 1, toks = []\<rparr>"

definition jsmn_fill_token :: "jsmntype \<Rightarrow> int \<Rightarrow> int \<Rightarrow> json_tok \<Rightarrow> json_tok" where
  "jsmn_fill_token type start stop tok =
     tok\<lparr>tk_type := type, tk_start := start, tk_end := stop, tk_size := 0\<rparr>"

text \<open>The type of a new token is what \<open>calloc\<close> left there.\<close>

definition jsmn_alloc_token :: "nat \<Rightarrow> jsmn_parser \<Rightarrow> jsmn_parser option" where
  "jsmn_alloc_token num_tokens p =
     (if num_tokens \<le> toknext p then None
      else Some (p\<lparr>toks := toks p @ [\<lparr>tk_type = JSMN_UNDEFINED, tk_start = - 1, tk_end = - 1,
                                      tk_size = 0, tk_parent = - 1\<rparr>]\<rparr>))"

definition upd_tok :: "nat \<Rightarrow> (json_tok \<Rightarrow> json_tok) \<Rightarrow> jsmn_parser \<Rightarrow> jsmn_parser" where
  "upd_tok i f p = p\<lparr>toks := (toks p)[i := f (toks p ! i)]\<rparr>"

definition ended :: "string \<Rightarrow> nat \<Rightarrow> bool" where
  \<comment> \<open>the condition that ends the loops over the text\<close>
  "ended t i \<longleftrightarrow> \<not> (i < length t \<and> t ! i \<noteq> CHR 0x00)"

subsection \<open>Primitives and strings\<close>

text \<open>The new token of a primitive or a string; it is the last one.\<close>

definition add_leaf :: "nat option \<Rightarrow> jsmntype \<Rightarrow> nat \<Rightarrow> nat \<Rightarrow> jsmn_parser \<Rightarrow> int + jsmn_parser" where
  "add_leaf room type start stop p =
     (case room of None \<Rightarrow> Inr p
      | Some num_tokens \<Rightarrow>
          case jsmn_alloc_token num_tokens p of None \<Rightarrow> Inl JSMN_ERROR_NOMEM
          | Some q \<Rightarrow> Inr (upd_tok (toknext p)
              (\<lambda>t. (jsmn_fill_token type (int start) (int stop) t)\<lparr>tk_parent := toksuper p\<rparr>) q))"

definition prim_end :: "char set" where
  "prim_end = {CHR 0x09, CHR 0x0D, CHR 0x0A, CHR 0x20, CHR '','', CHR '']'', CHR ''}''}"

function prim_scan :: "string \<Rightarrow> nat \<Rightarrow> int + nat" where
  \<comment> \<open>the position of the character that ends the primitive\<close>
  "prim_scan t i =
     (if ended t i then Inl JSMN_ERROR_PART
      else if t ! i \<in> prim_end then Inr i
      else if of_char (t ! i) < (32 :: nat) \<or> (127 :: nat) \<le> of_char (t ! i) then Inl JSMN_ERROR_INVAL
      else prim_scan t (i + 1))"
  by pat_completeness auto
termination by (relation "measure (\<lambda>(t, i). length t - i)") (auto simp: ended_def)

declare prim_scan.simps [simp del]

definition jsmn_parse_primitive :: "nat option \<Rightarrow> string \<Rightarrow> jsmn_parser \<Rightarrow> int + jsmn_parser" where
  "jsmn_parse_primitive room t p =
     (let start = ps_pos p
      in case prim_scan t start of Inl e \<Rightarrow> Inl e
         | Inr i \<Rightarrow>
             (case add_leaf room JSMN_PRIMITIVE start i p of Inl e \<Rightarrow> Inl e
              | Inr q \<Rightarrow> Inr (q\<lparr>ps_pos := i - 1\<rparr>)))"

definition is_hex :: "char \<Rightarrow> bool" where
  "is_hex c \<longleftrightarrow> (let n = of_char c :: nat
     in 48 \<le> n \<and> n \<le> 57 \<or> 65 \<le> n \<and> n \<le> 70 \<or> 97 \<le> n \<and> n \<le> 102)"

fun hex_scan :: "nat \<Rightarrow> string \<Rightarrow> nat \<Rightarrow> nat option" where
  \<comment> \<open>the position after at most \<open>n\<close> hex digits\<close>
  "hex_scan 0 t i = Some i"
| "hex_scan (Suc n) t i =
     (if ended t i then Some i else if is_hex (t ! i) then hex_scan n t (i + 1) else None)"

lemma hex_scan_le: "hex_scan n t i = Some j \<Longrightarrow> i \<le> j \<and> j \<le> i + n"
  by (induction n t i rule: hex_scan.induct) (auto split: if_splits)

definition escapes :: "char set" where
  "escapes = {CHR 0x22, CHR ''/'', CHR 0x5C, CHR ''b'', CHR ''f'', CHR ''r'', CHR ''n'', CHR ''t''}"

function str_scan :: "string \<Rightarrow> nat \<Rightarrow> int + nat" where
  \<comment> \<open>the position of the closing quote\<close>
  "str_scan t i =
     (if ended t i then Inl JSMN_ERROR_PART
      else if t ! i = CHR 0x22 then Inr i
      else if t ! i = CHR 0x5C \<and> i + 1 < length t then
        (if t ! (i + 1) \<in> escapes then str_scan t (i + 2)
         else if t ! (i + 1) = CHR ''u'' then
           (case hex_scan 4 t (i + 2) of None \<Rightarrow> Inl JSMN_ERROR_INVAL | Some j \<Rightarrow> str_scan t j)
         else Inl JSMN_ERROR_INVAL)
      else str_scan t (i + 1))"
  by pat_completeness auto
termination by (relation "measure (\<lambda>(t, i). length t - i)") (auto simp: ended_def dest!: hex_scan_le)

declare str_scan.simps [simp del]

definition jsmn_parse_string :: "nat option \<Rightarrow> string \<Rightarrow> jsmn_parser \<Rightarrow> int + jsmn_parser" where
  "jsmn_parse_string room t p =
     (let start = ps_pos p
      in case str_scan t (start + 1) of Inl e \<Rightarrow> Inl e
         | Inr i \<Rightarrow>
             (case add_leaf room JSMN_STRING (start + 1) i p of Inl e \<Rightarrow> Inl e
              | Inr q \<Rightarrow> Inr (q\<lparr>ps_pos := i\<rparr>)))"

subsection \<open>The loop over the text\<close>

definition is_open :: "json_tok \<Rightarrow> bool" where
  "is_open tok \<longleftrightarrow> tk_start tok \<noteq> - 1 \<and> tk_end tok = - 1"

definition add_child :: "jsmn_parser \<Rightarrow> jsmn_parser" where
  \<comment> \<open>\<open>if (parser->toksuper != -1 ...) tokens[parser->toksuper].size++\<close>\<close>
  "add_child p =
     (if toksuper p \<noteq> - 1 then upd_tok (nat (toksuper p)) (\<lambda>t. t\<lparr>tk_size := tk_size t + 1\<rparr>) p else p)"

definition jsmn_open :: "nat option \<Rightarrow> jsmntype \<Rightarrow> jsmn_parser \<Rightarrow> int + jsmn_parser" where
  \<comment> \<open>an opening bracket\<close>
  "jsmn_open room type p =
     (case room of None \<Rightarrow> Inr p
      | Some num_tokens \<Rightarrow>
          case jsmn_alloc_token num_tokens p of None \<Rightarrow> Inl JSMN_ERROR_NOMEM
          | Some q \<Rightarrow>
              if toksuper p \<noteq> - 1 \<and> tk_type (toks p ! nat (toksuper p)) = JSMN_OBJECT
              then Inl JSMN_ERROR_INVAL
              else
                let i = toknext p;
                    q = (if toksuper q \<noteq> - 1
                         then upd_tok i (\<lambda>t. t\<lparr>tk_parent := toksuper q\<rparr>) (add_child q) else q);
                    q = upd_tok i (\<lambda>t. t\<lparr>tk_type := type, tk_start := int (ps_pos p)\<rparr>) q
                in Inr (q\<lparr>toksuper := int i\<rparr>))"

text \<open>
  The walk of a closing bracket over the parents, from the last token: the outer \<open>None\<close> is that
  the fuel has run out, which does not happen (\<open>jsmn_returns\<close>).
\<close>

fun jsmn_close_walk :: "nat \<Rightarrow> jsmntype \<Rightarrow> nat \<Rightarrow> jsmn_parser \<Rightarrow> (int + jsmn_parser) option" where
  "jsmn_close_walk 0 type i p = None"
| "jsmn_close_walk (Suc f) type i p =
     (let tok = toks p ! i
      in if is_open tok then
           Some (if tk_type tok \<noteq> type then Inl JSMN_ERROR_INVAL
                 else Inr ((upd_tok i (\<lambda>t. t\<lparr>tk_end := int (ps_pos p) + 1\<rparr>) p)\<lparr>toksuper := tk_parent tok\<rparr>))
         else if tk_parent tok = - 1 then
           Some (if tk_type tok \<noteq> type \<or> toksuper p = - 1 then Inl JSMN_ERROR_INVAL else Inr p)
         else jsmn_close_walk f type (nat (tk_parent tok)) p)"

definition jsmn_close :: "nat option \<Rightarrow> jsmntype \<Rightarrow> jsmn_parser \<Rightarrow> (int + jsmn_parser) option" where
  "jsmn_close room type p =
     (if room = None then Some (Inr p)
      else if toknext p < 1 then Some (Inl JSMN_ERROR_INVAL)
      else jsmn_close_walk (toknext p) type (toknext p - 1) p)"

definition jsmn_comma :: "nat option \<Rightarrow> jsmn_parser \<Rightarrow> jsmn_parser" where
  "jsmn_comma room p =
     (if room \<noteq> None \<and> toksuper p \<noteq> - 1
         \<and> tk_type (toks p ! nat (toksuper p)) \<noteq> JSMN_ARRAY
         \<and> tk_type (toks p ! nat (toksuper p)) \<noteq> JSMN_OBJECT
      then p\<lparr>toksuper := tk_parent (toks p ! nat (toksuper p))\<rparr> else p)"

definition counted :: "nat option \<Rightarrow> int \<Rightarrow> int + jsmn_parser \<Rightarrow> int + (int \<times> jsmn_parser)" where
  \<comment> \<open>after a string or a primitive\<close>
  "counted room count r =
     (case r of Inl e \<Rightarrow> Inl e | Inr q \<Rightarrow> Inr (count + 1, if room \<noteq> None then add_child q else q))"

definition prim_start :: "char set" where
  "prim_start = set ''-0123456789tfn''"

definition jsmn_char ::
  "nat option \<Rightarrow> string \<Rightarrow> int \<Rightarrow> jsmn_parser \<Rightarrow> (int + (int \<times> jsmn_parser)) option" where
  \<comment> \<open>the switch\<close>
  "jsmn_char room t count p =
     (let c = t ! ps_pos p
      in if c = CHR ''{'' \<or> c = CHR ''['' then
           Some (map_sum id (Pair (count + 1))
             (jsmn_open room (if c = CHR ''{'' then JSMN_OBJECT else JSMN_ARRAY) p))
         else if c = CHR ''}'' \<or> c = CHR '']'' then
           map_option (map_sum id (Pair count))
             (jsmn_close room (if c = CHR ''}'' then JSMN_OBJECT else JSMN_ARRAY) p)
         else if c = CHR 0x22 then Some (counted room count (jsmn_parse_string room t p))
         else if c \<in> {CHR 0x09, CHR 0x0D, CHR 0x0A, CHR 0x20} then Some (Inr (count, p))
         else if c = CHR '':'' then Some (Inr (count, p\<lparr>toksuper := int (toknext p) - 1\<rparr>))
         else if c = CHR '','' then Some (Inr (count, jsmn_comma room p))
         else if c \<in> prim_start then
           (if room \<noteq> None \<and> toksuper p \<noteq> - 1 \<and>
               (let s = toks p ! nat (toksuper p)
                in tk_type s = JSMN_OBJECT \<or> tk_type s = JSMN_STRING \<and> tk_size s \<noteq> 0)
            then Some (Inl JSMN_ERROR_INVAL)
            else Some (counted room count (jsmn_parse_primitive room t p)))
         else Some (Inl JSMN_ERROR_INVAL))"

text \<open>No case moves the position back.\<close>

lemma prim_scan_le: "prim_scan t i = Inr j \<Longrightarrow> i \<le> j \<and> j < length t \<and> (t ! i \<notin> prim_end \<longrightarrow> i < j)"
proof (induction t i rule: prim_scan.induct)
  case (1 t i)
  then show ?case
    by (subst (asm) (2) prim_scan.simps) (fastforce simp: ended_def split: if_splits)
qed

lemma str_scan_le: "str_scan t i = Inr j \<Longrightarrow> i \<le> j \<and> j < length t \<and> t ! j = CHR 0x22"
proof (induction t i rule: str_scan.induct)
  case (1 t i)
  then show ?case
    by (subst (asm) (4) str_scan.simps) (fastforce simp: ended_def split: if_splits option.splits dest: hex_scan_le)
qed

lemma add_leaf_pos: "add_leaf room type i j p = Inr q \<Longrightarrow> ps_pos q = ps_pos p"
  by (auto simp: add_leaf_def jsmn_alloc_token_def upd_tok_def split: option.splits if_splits)

lemma add_child_pos [simp]: "ps_pos (add_child p) = ps_pos p"
  by (simp add: add_child_def upd_tok_def)

lemma jsmn_open_pos: "jsmn_open room type p = Inr q \<Longrightarrow> ps_pos q = ps_pos p"
  by (auto simp: jsmn_open_def jsmn_alloc_token_def upd_tok_def Let_def split: option.splits if_splits)

lemma close_walk_pos: "jsmn_close_walk f type i p = Some (Inr q) \<Longrightarrow> ps_pos q = ps_pos p"
  by (induction f type i p rule: jsmn_close_walk.induct) (auto simp: upd_tok_def Let_def split: if_splits)

lemma prim_start_end: "c \<in> prim_start \<Longrightarrow> c \<notin> prim_end"
  by (auto simp: prim_start_def prim_end_def)

lemma prim_pos:
  "jsmn_parse_primitive room t p = Inr q \<Longrightarrow> t ! ps_pos p \<in> prim_start \<Longrightarrow> ps_pos p \<le> ps_pos q"
  using prim_scan_le [of t "ps_pos p"] prim_start_end
  by (fastforce simp: jsmn_parse_primitive_def Let_def split: sum.splits)

lemma string_pos: "jsmn_parse_string room t p = Inr q \<Longrightarrow> ps_pos p \<le> ps_pos q"
  using str_scan_le [of t "ps_pos p + 1"]
  by (fastforce simp: jsmn_parse_string_def Let_def split: sum.splits)

lemma jsmn_char_pos: "jsmn_char room t count p = Some (Inr (k, q)) \<Longrightarrow> ps_pos p \<le> ps_pos q"
proof -
  have m: "map_sum id (Pair n) r = Inr (k, q) \<Longrightarrow> r = Inr q" for n and r :: "int + jsmn_parser"
    by (cases r) simp_all
  have c: "counted room count r = Inr (k, q) \<Longrightarrow> \<exists>u. r = Inr u \<and> ps_pos q = ps_pos u" for r
    by (auto simp: counted_def split: sum.splits if_splits)
  show "jsmn_char room t count p = Some (Inr (k, q)) \<Longrightarrow> ?thesis"
    using prim_pos string_pos jsmn_open_pos close_walk_pos
    by (fastforce simp: jsmn_char_def Let_def jsmn_close_def jsmn_comma_def split: if_splits dest!: m c)
qed

function jsmn_loop ::
  "nat option \<Rightarrow> string \<Rightarrow> int \<Rightarrow> jsmn_parser \<Rightarrow> (int + (int \<times> jsmn_parser)) option" where
  "jsmn_loop room t count p =
     (if ended t (ps_pos p) then Some (Inr (count, p))
      else case jsmn_char room t count p of None \<Rightarrow> None | Some (Inl e) \<Rightarrow> Some (Inl e)
           | Some (Inr (k, q)) \<Rightarrow> jsmn_loop room t k (q\<lparr>ps_pos := ps_pos q + 1\<rparr>))"
  by pat_completeness auto
termination
  by (relation "measure (\<lambda>(room, t, count, p). length t - ps_pos p)")
     (auto simp: ended_def dest!: jsmn_char_pos)

declare jsmn_loop.simps [simp del]

text \<open>\<open>jsmn_init\<close> and \<open>jsmn_parse\<close>: the result, and the tokens.\<close>

definition jsmn_parse :: "nat option \<Rightarrow> string \<Rightarrow> (int + (int \<times> json_tok list)) option" where
  "jsmn_parse room t =
     (case jsmn_loop room t 0 jsmn_init of None \<Rightarrow> None | Some (Inl e) \<Rightarrow> Some (Inl e)
      | Some (Inr (count, p)) \<Rightarrow>
          Some (if room \<noteq> None \<and> (\<exists>tok \<in> set (toks p). is_open tok) then Inl JSMN_ERROR_PART
                else Inr (count, toks p)))"

text \<open>The two calls of \<open>json_parse_start\<close>.\<close>

definition jsmn_count :: "string \<Rightarrow> int" where
  "jsmn_count t = (case jsmn_parse None t of Some (Inr (count, _)) \<Rightarrow> count | Some (Inl e) \<Rightarrow> e | None \<Rightarrow> 0)"

definition jsmn_fill :: "string \<Rightarrow> nat \<Rightarrow> json_tok list option" where
  "jsmn_fill t n =
     (case jsmn_parse (Some n) t of Some (Inr (ret, ts)) \<Rightarrow> if ret \<le> 0 then None else Some ts
      | _ \<Rightarrow> None)"

abbreviation parse_text :: "bool \<Rightarrow> string \<Rightarrow> jparse_ctx option" where
  "parse_text \<equiv> json_parse_start jsmn_count jsmn_fill"

subsection \<open>What a step does to the tokens\<close>

text \<open>
  With an array, every step of the loop does one of four things to the tokens and the superior
  token: nothing, one more token below the superior one, the end of the token that a bracket closes,
  or another superior token.
\<close>

definition bump :: "int \<Rightarrow> json_tok list \<Rightarrow> json_tok list" where
  "bump s ts = (if s = - 1 then ts else ts[nat s := (ts ! nat s)\<lparr>tk_size := tk_size (ts ! nat s) + 1\<rparr>])"

lemma length_bump [simp]: "length (bump s ts) = length ts"
  by (simp add: bump_def)

lemma bump_nth:
  "- 1 \<le> s \<Longrightarrow> i < length ts \<Longrightarrow> bump s ts ! i =
     (if s = int i then (ts ! i)\<lparr>tk_size := tk_size (ts ! i) + 1\<rparr> else ts ! i)"
  by (auto simp: bump_def nth_list_update)

lemma bump_append: "- 1 \<le> s \<Longrightarrow> s < int (length ts) \<Longrightarrow> bump s (ts @ us) = bump s ts @ us"
  by (auto simp: bump_def nth_append list_update_append)

definition super_ok :: "jsmn_parser \<Rightarrow> bool" where
  "super_ok p \<longleftrightarrow> - 1 \<le> toksuper p \<and> toksuper p < int (toknext p)"

definition leaf :: "jsmntype \<Rightarrow> nat \<Rightarrow> nat \<Rightarrow> int \<Rightarrow> json_tok" where
  "leaf type start stop s = mk_tok type (int start) (int stop) 0 s"

lemma add_leaf_child:
  assumes "super_ok p" "add_leaf (Some n) type i j p = Inr q"
  shows "toknext p < n \<and> add_child q = p\<lparr>toks := bump (toksuper p) (toks p) @ [leaf type i j (toksuper p)]\<rparr>"
proof -
  have q: "toknext p < n" "q = p\<lparr>toks := toks p @ [leaf type i j (toksuper p)]\<rparr>"
    using assms(2)
    by (auto simp: add_leaf_def jsmn_alloc_token_def upd_tok_def toknext_def jsmn_fill_token_def leaf_def
        mk_tok_def nth_append list_update_append split: option.splits if_splits)
  show ?thesis
    using assms(1) q(1) by (auto simp: q(2) super_ok_def toknext_def add_child_def upd_tok_def bump_def
        nth_append list_update_append)
qed

lemma open_step:
  assumes "super_ok p" "jsmn_open (Some n) type p = Inr q"
  shows "toknext p < n \<and> q = p\<lparr>toks := bump (toksuper p) (toks p)
      @ [mk_tok type (int (ps_pos p)) (- 1) 0 (toksuper p)], toksuper := int (toknext p)\<rparr>"
  using assms
  by (auto simp: jsmn_open_def jsmn_alloc_token_def toknext_def add_child_def upd_tok_def bump_def mk_tok_def
      super_ok_def nth_append list_update_append Let_def split: if_splits)

lemma close_step:
  assumes "jsmn_close_walk f type i p = Some (Inr q)" "i < toknext p"
    "\<And>k. k < toknext p \<Longrightarrow> - 1 \<le> tk_parent (toks p ! k) \<and> tk_parent (toks p ! k) < int k"
  shows "q = p \<or> (\<exists>k < toknext p. is_open (toks p ! k) \<and> tk_type (toks p ! k) = type
     \<and> q = p\<lparr>toks := (toks p)[k := (toks p ! k)\<lparr>tk_end := int (ps_pos p) + 1\<rparr>],
             toksuper := tk_parent (toks p ! k)\<rparr>)"
  using assms
proof (induction f type i p rule: jsmn_close_walk.induct)
  case (2 f type i p)
  show ?case
  proof (cases "is_open (toks p ! i) \<or> tk_parent (toks p ! i) = - 1")
    case True
    then show ?thesis using "2.prems" by (auto simp: Let_def upd_tok_def split: if_splits)
  next
    case False
    have "- 1 \<le> tk_parent (toks p ! i)" "tk_parent (toks p ! i) < int i" using "2.prems"(2,3) by auto
    then have "nat (tk_parent (toks p ! i)) < toknext p" using False "2.prems"(2) by linarith
    then show ?thesis
      using False "2.prems" "2.IH" [OF refl] by (auto simp: Let_def)
  qed
qed simp

lemma close_walk_ends:
  assumes "i < f" "i < toknext p"
    "\<And>k. k < toknext p \<Longrightarrow> - 1 \<le> tk_parent (toks p ! k) \<and> tk_parent (toks p ! k) < int k"
  shows "jsmn_close_walk f type i p \<noteq> None"
  using assms
proof (induction f type i p rule: jsmn_close_walk.induct)
  case (2 f type i p)
  show ?case
  proof (cases "is_open (toks p ! i) \<or> tk_parent (toks p ! i) = - 1")
    case True
    then show ?thesis by (auto simp: Let_def)
  next
    case False
    have "- 1 \<le> tk_parent (toks p ! i)" "tk_parent (toks p ! i) < int i" using "2.prems"(2,3) by auto
    then have "nat (tk_parent (toks p ! i)) < f" "nat (tk_parent (toks p ! i)) < toknext p"
      using False "2.prems"(1,2) by linarith+
    then show ?thesis
      using False "2.prems"(3) "2.IH" [OF refl] by (auto simp: Let_def)
  qed
qed simp

subsection \<open>The invariant\<close>

definition children :: "json_tok list \<Rightarrow> nat \<Rightarrow> int" where
  "children ts i = int (count_list (map tk_parent ts) (int i))"

definition tok_wf :: "nat \<Rightarrow> json_tok list \<Rightarrow> nat \<Rightarrow> bool" where
  "tok_wf len ts i \<longleftrightarrow> - 1 \<le> tk_parent (ts ! i) \<and> tk_parent (ts ! i) < int i
     \<and> tk_size (ts ! i) = children ts i \<and> 0 \<le> tk_start (ts ! i)
     \<and> (if tk_end (ts ! i) = - 1 then tk_type (ts ! i) \<in> {JSMN_OBJECT, JSMN_ARRAY}
        else tk_start (ts ! i) \<le> tk_end (ts ! i) \<and> tk_end (ts ! i) \<le> int len
          \<and> tk_type (ts ! i) \<noteq> JSMN_UNDEFINED)"

definition opened_before :: "nat \<Rightarrow> json_tok list \<Rightarrow> bool" where
  "opened_before q ts \<longleftrightarrow> (\<forall>i < length ts. tk_end (ts ! i) = - 1 \<longrightarrow> tk_start (ts ! i) \<le> int q)"

definition parser_wf :: "nat \<Rightarrow> jsmn_parser \<Rightarrow> bool" where
  "parser_wf len p \<longleftrightarrow> super_ok p \<and> (\<forall>i < toknext p. tok_wf len (toks p) i) \<and> opened_before (ps_pos p) (toks p)"

lemma parents_bump: "- 1 \<le> s \<Longrightarrow> map tk_parent (bump s ts) = map tk_parent ts"
  by (rule nth_equalityI) (simp_all add: bump_nth)

lemma children_bump [simp]: "- 1 \<le> s \<Longrightarrow> children (bump s ts) i = children ts i"
  by (simp add: children_def parents_bump)

lemma children_snoc [simp]: "children (ts @ [k]) i = children ts i + (if tk_parent k = int i then 1 else 0)"
  by (simp add: children_def)

lemma no_children_yet:
  assumes "\<And>j. j < length ts \<Longrightarrow> tk_parent (ts ! j) < int j"
  shows "children ts (length ts) = 0"
proof -
  have "int (length ts) \<notin> set (map tk_parent ts)"
    using assms by (fastforce simp: in_set_conv_nth)
  then show ?thesis by (simp add: children_def count_list_0_iff)
qed

text \<open>One more token below the superior one keeps the invariant.\<close>

lemma add_token_wf:
  assumes "parser_wf len p" "tk_parent k = toksuper p" "tk_size k = 0" "0 \<le> tk_start k" "tk_start k \<le> int q"
    "if tk_end k = - 1 then tk_type k \<in> {JSMN_OBJECT, JSMN_ARRAY}
     else tk_start k \<le> tk_end k \<and> tk_end k \<le> int len \<and> tk_type k \<noteq> JSMN_UNDEFINED"
    "ps_pos p \<le> q" "s = toksuper p \<or> s = int (toknext p)"
  shows "parser_wf len \<lparr>ps_pos = q, toksuper = s, toks = bump (toksuper p) (toks p) @ [k]\<rparr>"
proof -
  have sp: "- 1 \<le> toksuper p" "toksuper p < int (length (toks p))"
    and w: "\<And>i. i < length (toks p) \<Longrightarrow> tok_wf len (toks p) i"
    and b: "opened_before (ps_pos p) (toks p)"
    using assms(1) by (auto simp: parser_wf_def super_ok_def toknext_def)
  let ?ts = "bump (toksuper p) (toks p) @ [k]"
  have par: "tk_parent (toks p ! i) < int i" if "i < length (toks p)" for i
    using w [OF that] by (simp add: tok_wf_def)
  have "tok_wf len ?ts i" if "i < length (toks p)" for i
    using w [OF that] that sp assms(2)
    by (auto simp: tok_wf_def nth_append bump_nth)
  moreover have "tok_wf len ?ts (length (toks p))"
    using assms(2-6) sp no_children_yet [of "toks p", OF par]
    by (auto simp: tok_wf_def nth_append)
  moreover have "opened_before q ?ts"
    using b assms(5,7) sp
    by (fastforce simp: opened_before_def bump_nth nth_append less_Suc_eq)
  ultimately show ?thesis
    using sp assms(8) by (auto simp: parser_wf_def super_ok_def toknext_def less_Suc_eq)
qed

lemma move_wf:
  "parser_wf len p \<Longrightarrow> ps_pos p \<le> q \<Longrightarrow> - 1 \<le> s \<Longrightarrow> s < int (toknext p)
     \<Longrightarrow> parser_wf len (p\<lparr>ps_pos := q, toksuper := s\<rparr>)"
  by (fastforce simp: parser_wf_def super_ok_def toknext_def opened_before_def)

lemma close_wf:
  assumes "parser_wf len p" "ps_pos p < len" "k < toknext p" "is_open (toks p ! k)"
  shows "parser_wf len (p\<lparr>toks := (toks p)[k := (toks p ! k)\<lparr>tk_end := int (ps_pos p) + 1\<rparr>],
     toksuper := tk_parent (toks p ! k)\<rparr>)"
proof -
  let ?k = "(toks p ! k)\<lparr>tk_end := int (ps_pos p) + 1\<rparr>"
  have sp: "k < length (toks p)" and w: "\<And>i. i < length (toks p) \<Longrightarrow> tok_wf len (toks p) i"
    and b: "\<And>i. i < length (toks p) \<Longrightarrow> tk_end (toks p ! i) = - 1 \<Longrightarrow> tk_start (toks p ! i) \<le> int (ps_pos p)"
    using assms(1,3) by (auto simp: parser_wf_def toknext_def opened_before_def)
  have "map tk_parent ((toks p)[k := ?k]) = map tk_parent (toks p)"
    using sp by (intro nth_equalityI) (auto simp: nth_list_update)
  then have c: "children ((toks p)[k := ?k]) i = children (toks p) i" for i by (simp add: children_def)
  have "tok_wf len ((toks p)[k := ?k]) i" if "i < length (toks p)" for i
  proof (cases "i = k")
    case True
    then show ?thesis using w [OF sp] b [OF sp] assms(2,4) sp c
      by (auto simp: tok_wf_def is_open_def)
  next
    case False
    then have "(toks p)[k := ?k] ! i = toks p ! i" by simp
    then show ?thesis using w [OF that] unfolding tok_wf_def c by presburger
  qed
  moreover have "opened_before (ps_pos p) ((toks p)[k := ?k])"
    using b sp by (auto simp: opened_before_def nth_list_update split: if_splits)
  moreover have "- 1 \<le> tk_parent (toks p ! k)" "tk_parent (toks p ! k) < int k"
    using w [OF sp] by (auto simp: tok_wf_def)
  ultimately show ?thesis
    using sp by (auto simp: parser_wf_def super_ok_def toknext_def)
qed

subsection \<open>The tokenizer keeps the invariant and returns\<close>

lemma parse_primitive_step:
  assumes "super_ok p" "jsmn_parse_primitive (Some n) t p = Inr q" "t ! ps_pos p \<in> prim_start"
  shows "\<exists>i. ps_pos p < i \<and> i < length t \<and> toknext p < n
    \<and> add_child q = \<lparr>ps_pos = i - 1, toksuper = toksuper p,
        toks = bump (toksuper p) (toks p) @ [leaf JSMN_PRIMITIVE (ps_pos p) i (toksuper p)]\<rparr>"
proof -
  obtain i u where i: "prim_scan t (ps_pos p) = Inr i" "add_leaf (Some n) JSMN_PRIMITIVE (ps_pos p) i p = Inr u"
      "q = u\<lparr>ps_pos := i - 1\<rparr>"
    using assms(2) by (auto simp: jsmn_parse_primitive_def Let_def split: sum.splits)
  have "add_child q = (add_child u)\<lparr>ps_pos := i - 1\<rparr>" by (simp add: i(3) add_child_def upd_tok_def)
  then show ?thesis
    using add_leaf_child [OF assms(1) i(2)] prim_scan_le [OF i(1)] prim_start_end [OF assms(3)]
    by (cases p) auto
qed

lemma parse_string_step:
  assumes "super_ok p" "jsmn_parse_string (Some n) t p = Inr q"
  shows "\<exists>i. str_scan t (ps_pos p + 1) = Inr i \<and> toknext p < n
    \<and> add_child q = \<lparr>ps_pos = i, toksuper = toksuper p,
        toks = bump (toksuper p) (toks p) @ [leaf JSMN_STRING (ps_pos p + 1) i (toksuper p)]\<rparr>"
proof -
  obtain i u where i: "str_scan t (ps_pos p + 1) = Inr i" "add_leaf (Some n) JSMN_STRING (ps_pos p + 1) i p = Inr u"
      "q = u\<lparr>ps_pos := i\<rparr>"
    using assms(2) by (auto simp: jsmn_parse_string_def Let_def split: sum.splits)
  have "add_child q = (add_child u)\<lparr>ps_pos := i\<rparr>" by (simp add: i(3) add_child_def upd_tok_def)
  then show ?thesis
    using add_leaf_child [OF assms(1) i(2)] i(1) by (cases p) auto
qed

lemma counted_cases:
  "counted (Some n) count r = Inr (k, q) \<Longrightarrow> \<exists>u. r = Inr u \<and> k = count + 1 \<and> q = add_child u"
  by (auto simp: counted_def split: sum.splits)

lemma char_step:
  assumes "parser_wf (length t) p" "\<not> ended t (ps_pos p)" "jsmn_char (Some n) t count p = Some (Inr (k, q))"
  shows "parser_wf (length t) (q\<lparr>ps_pos := ps_pos q + 1\<rparr>) \<and> k - count = int (toknext q) - int (toknext p)
    \<and> (toknext p \<le> n \<longrightarrow> toknext q \<le> n)"
proof -
  have sp: "super_ok p" and pos: "ps_pos p < length t" using assms(1,2) by (auto simp: parser_wf_def ended_def)
  have par: "- 1 \<le> tk_parent (toks p ! i) \<and> tk_parent (toks p ! i) < int i" if "i < toknext p" for i
    using assms(1) that by (auto simp: parser_wf_def tok_wf_def)
  consider (opn) type where "jsmn_open (Some n) type p = Inr q" "k = count + 1" "type = JSMN_OBJECT \<or> type = JSMN_ARRAY"
    | (cls) type where "jsmn_close (Some n) type p = Some (Inr q)" "k = count"
    | (str) u where "jsmn_parse_string (Some n) t p = Inr u" "q = add_child u" "k = count + 1"
    | (prim) u where "jsmn_parse_primitive (Some n) t p = Inr u" "q = add_child u" "k = count + 1"
        "t ! ps_pos p \<in> prim_start"
    | (stay) "q = p" "k = count"
    | (move) s where "q = p\<lparr>toksuper := s\<rparr>" "k = count" "- 1 \<le> s" "s < int (toknext p)"
  proof -
    have comma: "\<exists>s. jsmn_comma (Some n) p = p\<lparr>toksuper := s\<rparr> \<and> - 1 \<le> s \<and> s < int (toknext p)"
    proof (cases "jsmn_comma (Some n) p = p")
      case True
      then show ?thesis using sp by (intro exI [of _ "toksuper p"]) (simp add: super_ok_def)
    next
      case False
      then have s: "toksuper p \<noteq> - 1" "jsmn_comma (Some n) p = p\<lparr>toksuper := tk_parent (toks p ! nat (toksuper p))\<rparr>"
        by (auto simp: jsmn_comma_def split: if_splits)
      then have "nat (toksuper p) < toknext p" using sp by (auto simp: super_ok_def)
      moreover have "0 \<le> toksuper p" using sp s(1) by (simp add: super_ok_def)
      ultimately show ?thesis
        using par [of "nat (toksuper p)"] s(2)
        by (intro exI [of _ "tk_parent (toks p ! nat (toksuper p))"]) auto
    qed
    then obtain s0 where s0: "jsmn_comma (Some n) p = p\<lparr>toksuper := s0\<rparr>" "- 1 \<le> s0" "s0 < int (toknext p)"
      by blast
    have m: "map_sum id (Pair j) r = Inr (k, q) \<longleftrightarrow> r = Inr q \<and> k = j" for j and r :: "int + jsmn_parser"
      by (cases r) auto
    show ?thesis
      using assms(3) that(1-5) that(6) [of s0] that(6) [of "int (toknext p) - 1"] s0 sp
      by (auto simp: jsmn_char_def Let_def m super_ok_def split: if_splits dest!: counted_cases)
  qed
  then show ?thesis
  proof cases
    case opn
    have o: "toknext p < n" "q = p\<lparr>toks := bump (toksuper p) (toks p)
        @ [mk_tok type (int (ps_pos p)) (- 1) 0 (toksuper p)], toksuper := int (toknext p)\<rparr>"
      using open_step [OF sp opn(1)] by auto
    have "parser_wf (length t) \<lparr>ps_pos = ps_pos p + 1, toksuper = int (toknext p), toks = bump (toksuper p) (toks p)
        @ [mk_tok type (int (ps_pos p)) (- 1) 0 (toksuper p)]\<rparr>"
      by (rule add_token_wf [OF assms(1)]) (use opn(3) in auto)
    then show ?thesis using o opn(2) by (cases p) (simp add: toknext_def)
  next
    case cls
    then have "jsmn_close_walk (toknext p) type (toknext p - 1) p = Some (Inr q)" "toknext p - 1 < toknext p"
      by (auto simp: jsmn_close_def split: if_splits)
    from close_step [OF this par] have "parser_wf (length t) q \<and> toknext q = toknext p"
    proof
      assume "q = p"
      then show ?thesis using assms(1) by simp
    next
      assume "\<exists>k<toknext p. is_open (toks p ! k) \<and> tk_type (toks p ! k) = type \<and> q = p
        \<lparr>toks := (toks p)[k := (toks p ! k)\<lparr>tk_end := int (ps_pos p) + 1\<rparr>], toksuper := tk_parent (toks p ! k)\<rparr>"
      then show ?thesis using close_wf [OF assms(1) pos] by (auto simp: toknext_def)
    qed
    then show ?thesis
      using cls(2) move_wf [of "length t" q "ps_pos q + 1" "toksuper q"]
      by (cases q) (auto simp: parser_wf_def super_ok_def)
  next
    case str
    obtain i where i: "str_scan t (ps_pos p + 1) = Inr i" "toknext p < n"
        "q = \<lparr>ps_pos = i, toksuper = toksuper p,
          toks = bump (toksuper p) (toks p) @ [leaf JSMN_STRING (ps_pos p + 1) i (toksuper p)]\<rparr>"
      using parse_string_step [OF sp str(1)] str(2) by auto
    have "parser_wf (length t) \<lparr>ps_pos = i + 1, toksuper = toksuper p,
          toks = bump (toksuper p) (toks p) @ [leaf JSMN_STRING (ps_pos p + 1) i (toksuper p)]\<rparr>"
      by (rule add_token_wf [OF assms(1)]) (use str_scan_le [OF i(1)] in \<open>auto simp: leaf_def\<close>)
    then show ?thesis using i str(3) by (simp add: toknext_def)
  next
    case prim
    obtain i where i: "ps_pos p < i" "i < length t" "toknext p < n"
        "q = \<lparr>ps_pos = i - 1, toksuper = toksuper p,
          toks = bump (toksuper p) (toks p) @ [leaf JSMN_PRIMITIVE (ps_pos p) i (toksuper p)]\<rparr>"
      using parse_primitive_step [OF sp prim(1,4)] prim(2) by auto
    have "parser_wf (length t) \<lparr>ps_pos = i - 1 + 1, toksuper = toksuper p,
          toks = bump (toksuper p) (toks p) @ [leaf JSMN_PRIMITIVE (ps_pos p) i (toksuper p)]\<rparr>"
      by (rule add_token_wf [OF assms(1)]) (use i in \<open>auto simp: leaf_def\<close>)
    then show ?thesis using i prim(3) by (simp add: toknext_def)
  next
    case stay
    then show ?thesis
      using move_wf [OF assms(1), of "ps_pos p + 1" "toksuper p"] sp by (cases p) (simp add: super_ok_def)
  next
    case move
    then show ?thesis using move_wf [OF assms(1), of "ps_pos p + 1" s] by (cases p) (simp add: toknext_def)
  qed
qed

lemma char_returns:
  assumes "parser_wf (length t) p"
  shows "jsmn_char (Some n) t count p \<noteq> None"
proof -
  have "- 1 \<le> tk_parent (toks p ! i) \<and> tk_parent (toks p ! i) < int i" if "i < toknext p" for i
    using assms that by (auto simp: parser_wf_def tok_wf_def)
  then have "jsmn_close (Some n) type p \<noteq> None" for type
    using close_walk_ends [of "toknext p - 1" "toknext p" p type] by (auto simp: jsmn_close_def)
  then show ?thesis by (auto simp: jsmn_char_def Let_def)
qed

lemma loop_wf:
  assumes "parser_wf (length t) p" "toknext p \<le> n"
  shows "jsmn_loop (Some n) t count p \<noteq> None
    \<and> (jsmn_loop (Some n) t count p = Some (Inr (k, q)) \<longrightarrow>
        parser_wf (length t) q \<and> k - count = int (toknext q) - int (toknext p) \<and> toknext q \<le> n)"
  using assms
proof (induction "Some n" t count p rule: jsmn_loop.induct)
  case (1 t count p)
  show ?case
  proof (cases "ended t (ps_pos p)")
    case True
    then show ?thesis using "1.prems" by (auto simp: jsmn_loop.simps)
  next
    case False
    obtain r where r: "jsmn_char (Some n) t count p = Some r" using char_returns [OF "1.prems"(1)] by blast
    show ?thesis
    proof (cases r)
      case (Inl e)
      then show ?thesis using False r by (simp add: jsmn_loop.simps [of _ _ _ p])
    next
      case (Inr kq)
      obtain j u where ju: "kq = (j, u)" by fastforce
      note st = char_step [OF "1.prems"(1) False, of n count j u, unfolded r Inr ju, OF refl]
      have "toknext (u\<lparr>ps_pos := ps_pos u + 1\<rparr>) = toknext u" by (simp add: toknext_def)
      then show ?thesis
        using "1.hyps" [OF False r Inr ju [symmetric]] st "1.prems"(2) False r Inr ju
        by (auto simp: jsmn_loop.simps [of _ _ _ p])
    qed
  qed
qed

lemma init_wf: "parser_wf len jsmn_init"
  by (simp add: parser_wf_def super_ok_def jsmn_init_def toknext_def opened_before_def)

subsection \<open>The two passes\<close>

lemma prim_scan_error: "prim_scan t i = Inl e \<Longrightarrow> e \<in> {JSMN_ERROR_INVAL, JSMN_ERROR_PART}"
proof (induction t i rule: prim_scan.induct)
  case (1 t i)
  then show ?case by (subst (asm) (2) prim_scan.simps) (auto split: if_splits)
qed

lemma str_scan_error: "str_scan t i = Inl e \<Longrightarrow> e \<in> {JSMN_ERROR_INVAL, JSMN_ERROR_PART}"
proof (induction t i rule: str_scan.induct)
  case (1 t i)
  then show ?case by (subst (asm) (4) str_scan.simps) (auto split: if_splits option.splits)
qed

lemma close_walk_error: "jsmn_close_walk f type i p \<noteq> Some (Inl JSMN_ERROR_NOMEM)"
  by (induction f type i p rule: jsmn_close_walk.induct) (auto simp: Let_def)

lemma add_leaf_cases:
  "add_leaf (Some n) type i j p = (if n \<le> toknext p then Inl JSMN_ERROR_NOMEM
     else Inr (p\<lparr>toks := toks p @ [leaf type i j (toksuper p)]\<rparr>))"
  by (auto simp: add_leaf_def jsmn_alloc_token_def upd_tok_def toknext_def jsmn_fill_token_def leaf_def
      mk_tok_def nth_append list_update_append)

lemma char_prim:
  "t ! ps_pos p \<in> prim_start \<Longrightarrow> jsmn_char room t count p =
     (if room \<noteq> None \<and> toksuper p \<noteq> - 1 \<and>
         (let s = toks p ! nat (toksuper p)
          in tk_type s = JSMN_OBJECT \<or> tk_type s = JSMN_STRING \<and> tk_size s \<noteq> 0)
      then Some (Inl JSMN_ERROR_INVAL)
      else Some (counted room count (jsmn_parse_primitive room t p)))"
  by (auto simp: jsmn_char_def prim_start_def)

text \<open>A step without the array goes where the step with it goes, and errs only where that errs.\<close>

lemma char_none:
  assumes "ps_pos p' = ps_pos p" "jsmn_char (Some n) t count p = Some r"
    "r = Inl JSMN_ERROR_NOMEM \<or> (\<exists>kq. r = Inr kq)"
  shows "\<exists>k q'. jsmn_char None t count p' = Some (Inr (k, q'))
    \<and> (case r of Inl e \<Rightarrow> n \<le> toknext p \<and> k = count + 1 | Inr (j, q) \<Rightarrow> j = k \<and> ps_pos q' = ps_pos q)"
proof -
  have leaf_none: "add_leaf None type i j u = Inr u" for type i j u by (simp add: add_leaf_def)
  have err: "jsmn_open (Some n) type p = Inl JSMN_ERROR_NOMEM \<Longrightarrow> n \<le> toknext p" for type
    by (auto simp: jsmn_open_def jsmn_alloc_token_def Let_def split: if_splits)
  have str: "case jsmn_parse_string (Some n) t p of
      Inl e \<Rightarrow> e = JSMN_ERROR_NOMEM \<longrightarrow> n \<le> toknext p \<and> (\<exists>u. jsmn_parse_string None t p' = Inr u)
    | Inr q \<Rightarrow> \<exists>u. jsmn_parse_string None t p' = Inr u \<and> ps_pos u = ps_pos q"
    using assms(1) str_scan_error [of t "ps_pos p + 1"]
    by (auto simp: jsmn_parse_string_def leaf_none add_leaf_cases Let_def split: sum.splits if_splits)
  have prim: "case jsmn_parse_primitive (Some n) t p of
      Inl e \<Rightarrow> e = JSMN_ERROR_NOMEM \<longrightarrow> n \<le> toknext p \<and> (\<exists>u. jsmn_parse_primitive None t p' = Inr u)
    | Inr q \<Rightarrow> \<exists>u. jsmn_parse_primitive None t p' = Inr u \<and> ps_pos u = ps_pos q"
    using assms(1) prim_scan_error [of t "ps_pos p"]
    by (auto simp: jsmn_parse_primitive_def leaf_none add_leaf_cases Let_def split: sum.splits if_splits)
  let ?c = "t ! ps_pos p"
  consider "?c = CHR ''{'' \<or> ?c = CHR ''[''" | "?c = CHR ''}'' \<or> ?c = CHR '']''" | "?c = CHR 0x22"
    | "?c \<in> {CHR 0x09, CHR 0x0D, CHR 0x0A, CHR 0x20, CHR '':'', CHR '',''}" | "?c \<in> prim_start"
    | "r = Inl JSMN_ERROR_INVAL"
    using assms(2) by (auto simp: jsmn_char_def Let_def split: if_splits)
  then show ?thesis
  proof cases
    case 1
    show ?thesis
      using 1 assms(2,3) err jsmn_open_pos
      by (cases "jsmn_open (Some n) (if ?c = CHR ''{'' then JSMN_OBJECT else JSMN_ARRAY) p")
         (auto simp: jsmn_char_def assms(1) jsmn_open_def [of None])
  next
    case 2
    define ty where "ty = (if ?c = CHR ''}'' then JSMN_OBJECT else JSMN_ARRAY)"
    obtain w where w: "jsmn_close (Some n) ty p = Some w" "r = map_sum id (Pair count) w"
      using 2 assms(2) by (auto simp: jsmn_char_def ty_def)
    have "w \<noteq> Inl JSMN_ERROR_NOMEM" "\<And>q. w = Inr q \<Longrightarrow> ps_pos q = ps_pos p"
      using w(1) close_walk_error close_walk_pos by (auto simp: jsmn_close_def split: if_splits)
    then show ?thesis
      using 2 w assms(3) by (cases w) (auto simp: jsmn_char_def assms(1) jsmn_close_def)
  next
    case 3
    then show ?thesis
      using assms(2,3) str by (auto simp: jsmn_char_def assms(1) counted_def split: sum.splits)
  next
    case 4
    then show ?thesis
      using assms(2,3) by (auto simp: jsmn_char_def assms(1) jsmn_comma_def)
  next
    case 5
    then show ?thesis
      using assms(2,3) prim
      by (auto simp: char_prim assms(1) counted_def split: sum.splits if_splits)
  next
    case 6
    then show ?thesis using assms(3) by auto
  qed
qed

lemma counted_none: "counted None count r = (case r of Inl e \<Rightarrow> Inl e | Inr q \<Rightarrow> Inr (count + 1, q))"
  by (simp add: counted_def split: sum.split)

lemma char_none_mono: "jsmn_char None t count p = Some (Inr (k, q)) \<Longrightarrow> count \<le> k"
proof -
  have m: "map_sum id (Pair j) r = Inr (k, q) \<longleftrightarrow> r = Inr q \<and> k = j" for j and r :: "int + jsmn_parser"
    by (cases r) auto
  show "jsmn_char None t count p = Some (Inr (k, q)) \<Longrightarrow> count \<le> k"
    by (auto simp: jsmn_char_def Let_def m counted_none jsmn_close_def split: if_splits sum.splits)
qed

lemma loop_none_mono: "jsmn_loop None t count p = Some (Inr (k, q)) \<Longrightarrow> count \<le> k"
proof (induction "None :: nat option" t count p rule: jsmn_loop.induct)
  case (1 t count p)
  show ?case
  proof (cases "ended t (ps_pos p)")
    case True
    then show ?thesis using "1.prems" by (simp add: jsmn_loop.simps)
  next
    case False
    then obtain j u where ju: "jsmn_char None t count p = Some (Inr (j, u))"
        "jsmn_loop None t j (u\<lparr>ps_pos := ps_pos u + 1\<rparr>) = Some (Inr (k, q))"
      using "1.prems" by (subst (asm) jsmn_loop.simps) (auto split: option.splits sum.splits)
    then show ?thesis
      using char_none_mono [OF ju(1)] "1.hyps" [OF False ju(1) refl refl ju(2)] by simp
  qed
qed

lemma two_passes:
  assumes "parser_wf (length t) p" "ps_pos p' = ps_pos p" "count = int (toknext p)" "toknext p \<le> n"
    "jsmn_loop None t count p' = Some (Inr (int n, u))"
  shows "jsmn_loop (Some n) t count p \<noteq> Some (Inl JSMN_ERROR_NOMEM)
    \<and> (\<forall>k q. jsmn_loop (Some n) t count p = Some (Inr (k, q)) \<longrightarrow> k = int n)"
  using assms
proof (induction "Some n" t count p arbitrary: p' rule: jsmn_loop.induct)
  case (1 t count p)
  show ?case
  proof (cases "ended t (ps_pos p)")
    case True
    then show ?thesis using "1.prems"(2,5) by (simp add: jsmn_loop.simps)
  next
    case False
    obtain r where r: "jsmn_char (Some n) t count p = Some r" using char_returns [OF "1.prems"(1)] by blast
    show ?thesis
    proof (cases "r = Inl JSMN_ERROR_NOMEM \<or> (\<exists>kq. r = Inr kq)")
      case no: False
      then obtain e where "r = Inl e" "e \<noteq> JSMN_ERROR_NOMEM" by (cases r) auto
      then show ?thesis using False r by (simp add: jsmn_loop.simps [of _ _ _ p])
    next
      case yes: True
      obtain k q' where k: "jsmn_char None t count p' = Some (Inr (k, q'))"
        and c: "case r of Inl e \<Rightarrow> n \<le> toknext p \<and> k = count + 1 | Inr (j, q) \<Rightarrow> j = k \<and> ps_pos q' = ps_pos q"
        using char_none [OF "1.prems"(2) r yes] by blast
      have rest: "jsmn_loop None t k (q'\<lparr>ps_pos := ps_pos q' + 1\<rparr>) = Some (Inr (int n, u))"
        using "1.prems"(2,5) False k by (subst (asm) jsmn_loop.simps) simp
      show ?thesis
      proof (cases r)
        case (Inl e)
        then have "n \<le> toknext p" "k = count + 1" using c by auto
        then show ?thesis using loop_none_mono [OF rest] "1.prems"(3) by simp
      next
        case (Inr jq)
        obtain j q where jq: "jq = (j, q)" by fastforce
        have j: "j = k" "ps_pos q' = ps_pos q" using c Inr jq by auto
        have st: "parser_wf (length t) (q\<lparr>ps_pos := ps_pos q + 1\<rparr>)" "j - count = int (toknext q) - int (toknext p)"
            "toknext q \<le> n"
          using char_step [OF "1.prems"(1) False, of n count j q] r Inr jq "1.prems"(4) by auto
        have "toknext (q\<lparr>ps_pos := ps_pos q + 1\<rparr>) = toknext q" by (simp add: toknext_def)
        then have "jsmn_loop (Some n) t j (q\<lparr>ps_pos := ps_pos q + 1\<rparr>) \<noteq> Some (Inl JSMN_ERROR_NOMEM)
          \<and> (\<forall>k v. jsmn_loop (Some n) t j (q\<lparr>ps_pos := ps_pos q + 1\<rparr>) = Some (Inr (k, v)) \<longrightarrow> k = int n)"
          using "1.prems"(3) st j rest
          by (intro "1.hyps" [OF False r Inr jq [symmetric] st(1), of "q'\<lparr>ps_pos := ps_pos q' + 1\<rparr>"]) auto
        then show ?thesis using False r Inr jq by (simp add: jsmn_loop.simps [of _ _ _ p])
      qed
    qed
  qed
qed

subsection \<open>The result\<close>

lemma parse_some:
  "jsmn_parse (Some n) t \<noteq> None
   \<and> (jsmn_parse (Some n) t = Some (Inr (k, ts)) \<longrightarrow> k = int (length ts) \<and> length ts \<le> n
        \<and> (\<forall>i < length ts. tok_wf (length t) ts i \<and> \<not> is_open (ts ! i)))"
proof -
  have z: "toknext jsmn_init \<le> n" "toknext jsmn_init = 0" by (simp_all add: toknext_def jsmn_init_def)
  note l = loop_wf [OF init_wf z(1), of t 0]
  show ?thesis
    using l z(2) by (fastforce simp: jsmn_parse_def parser_wf_def toknext_def split: option.splits sum.splits if_splits)
qed

lemma char_none_error: "jsmn_char None t count p = Some (Inl e) \<Longrightarrow> e < 0"
  using prim_scan_error [of t "ps_pos p" e] str_scan_error [of t "ps_pos p + 1" e]
  by (auto simp: jsmn_char_def Let_def counted_none jsmn_open_def jsmn_close_def jsmn_parse_string_def
      jsmn_parse_primitive_def add_leaf_def split: if_splits sum.splits)

lemma loop_none_result:
  "jsmn_loop None t count p \<noteq> None \<and> (jsmn_loop None t count p = Some (Inl e) \<longrightarrow> e < 0)"
proof (induction "None :: nat option" t count p rule: jsmn_loop.induct)
  case (1 t count p)
  have "jsmn_char None t count p \<noteq> None" by (auto simp: jsmn_char_def jsmn_close_def Let_def)
  then show ?case
    using "1.hyps" char_none_error [of t count p e]
    by (subst (1 2) jsmn_loop.simps) (auto split: sum.split sum.splits)
qed

lemma count_loop: "0 < jsmn_count t \<Longrightarrow> \<exists>u. jsmn_loop None t 0 jsmn_init = Some (Inr (jsmn_count t, u))"
  using loop_none_result [of t 0 jsmn_init]
  by (fastforce simp: jsmn_count_def jsmn_parse_def split: option.splits sum.splits if_splits)

text \<open>
  The two passes agree: an array of as many tokens as were counted is never too small, and filling it
  in returns the same number.
\<close>

lemma two_passes_fill:
  assumes "0 < jsmn_count t"
  shows "jsmn_parse (Some (nat (jsmn_count t))) t \<noteq> Some (Inl JSMN_ERROR_NOMEM)
    \<and> (\<forall>k ts. jsmn_parse (Some (nat (jsmn_count t))) t = Some (Inr (k, ts))
         \<longrightarrow> k = jsmn_count t \<and> int (length ts) = jsmn_count t)"
proof -
  let ?n = "nat (jsmn_count t)"
  obtain u where u: "jsmn_loop None t 0 jsmn_init = Some (Inr (int ?n, u))" using count_loop assms by force
  have "jsmn_loop (Some ?n) t 0 jsmn_init \<noteq> Some (Inl JSMN_ERROR_NOMEM)
      \<and> (\<forall>k q. jsmn_loop (Some ?n) t 0 jsmn_init = Some (Inr (k, q)) \<longrightarrow> k = int ?n)"
    by (rule two_passes [OF init_wf refl _ _ u]) (simp_all add: toknext_def jsmn_init_def)
  then show ?thesis
    using parse_some [of ?n t] assms by (auto simp: jsmn_parse_def split: option.splits sum.splits if_splits)
qed

subsection \<open>Properties\<close>

text \<open>C37. The tokenizer ends on every text. Whatever the text and whether it counts or fills in
  tokens, \<open>jsmn_parse\<close> returns; in particular the walk of a closing bracket over the parent links
  cannot run in a circle.\<close>
theorem jsmn_returns: "\<exists>r. jsmn_parse room t = Some r"
proof (cases room)
  case None
  then show ?thesis
    using loop_none_result [of t 0 jsmn_init] by (auto simp: jsmn_parse_def split: option.split sum.split)
next
  case (Some n)
  then show ?thesis using parse_some [of n t] by blast
qed

text \<open>C7. What the reader works on is sound. If \<open>json_parse_start\<close> accepts a text, its context is at
  the first token and the array is full; and every token lies within the text, is closed, has a
  parent before itself (or none) and a size that is the number of its children. So no accessor
  reads the text out of its bounds and every walk to a parent ends.\<close>
theorem json_tokens_sound:
  assumes "parse_text mem t = Some c" "i < length (tokens c)"
  shows "js c = t \<and> cur c = 0 \<and> int (length (tokens c)) = jsmn_count t
    \<and> 0 \<le> tk_start (tokens c ! i) \<and> tk_start (tokens c ! i) \<le> tk_end (tokens c ! i)
    \<and> tk_end (tokens c ! i) \<le> int (length t)
    \<and> - 1 \<le> tk_parent (tokens c ! i) \<and> tk_parent (tokens c ! i) < int i
    \<and> tk_size (tokens c ! i) = int (card {j. j < length (tokens c) \<and> tk_parent (tokens c ! j) = int i})"
proof -
  have pos: "0 < jsmn_count t" and c: "jsmn_fill t (nat (jsmn_count t)) = Some (tokens c)" "js c = t" "cur c = 0"
    using assms(1) by (auto simp: json_parse_start_def Let_def split: if_splits option.splits)
  obtain k where p: "jsmn_parse (Some (nat (jsmn_count t))) t = Some (Inr (k, tokens c))"
    using c(1) by (auto simp: jsmn_fill_def split: option.splits sum.splits if_splits)
  have w: "tok_wf (length t) (tokens c) i" "\<not> is_open (tokens c ! i)" "int (length (tokens c)) = k"
    using parse_some [of "nat (jsmn_count t)" t k "tokens c"] p assms(2) by auto
  moreover have "children (tokens c) i = int (card {j. j < length (tokens c) \<and> tk_parent (tokens c ! j) = int i})"
    by (simp add: children_def count_list_eq_length_filter length_filter_conv_card eq_commute cong: conj_cong)
  moreover have "k = jsmn_count t"
    using two_passes_fill [OF pos] p by blast
  ultimately show ?thesis
    using c by (auto simp: tok_wf_def is_open_def split: if_splits)
qed

lemma ex_json_parsed: "parse_text True ex_json = Some ex_ctx"
  by code_simp

theorem json_tokens_sound_witness:
  "tk_start (tokens ex_ctx ! 2) = 5 \<and> tk_end (tokens ex_ctx ! 2) \<le> int (length ex_json)
   \<and> tk_parent (tokens ex_ctx ! 2) < 2 \<and> 2 = card {j. j < length (tokens ex_ctx) \<and> tk_parent (tokens ex_ctx ! j) = 0}"
proof -
  have l: "length (tokens ex_ctx) = 7" and s: "tk_size (tokens ex_ctx ! 0) = 2" "tk_start (tokens ex_ctx ! 2) = 5"
    by code_simp+
  show ?thesis
    using json_tokens_sound [OF ex_json_parsed, of 2] json_tokens_sound [OF ex_json_parsed, of 0] l s by simp
qed

text \<open>An object with a key and no value is accepted, and the key is the last token.\<close>

lemma key_without_value:
  "\<exists>c. parse_text True ''{\"a\"}'' = Some c \<and> length (tokens c) = 2 \<and> json_obj_search c ''a'' = Some 1"
proof -
  have "map_option (\<lambda>c. (length (tokens c), json_obj_search c ''a'')) (parse_text True ''{\"a\"}'') = Some (2, Some 1)"
    by code_simp
  then show ?thesis by (auto simp: map_option_case split: option.splits)
qed

text \<open>A closing bracket without an open one is accepted after a colon.\<close>

lemma stray_bracket_accepted: "parse_text True ''{}:}'' \<noteq> None" "parse_text True ''[1,,2]'' \<noteq> None"
  by code_simp+

end
