(* ===== verification/Jsmn_Doc.thy ===== *)
theory Jsmn_Doc
  imports Jsmn
begin

text \<open>
  The tokenizer reads JSON: on a text of the JSON grammar, with white space wherever the grammar
  allows it, the tokens are \<open>enc\<close> of the document, the layout on which the accessors of
  \<open>Json_Parser\<close> are proved to find what was written.
\<close>

subsection \<open>The grammar\<close>

definition spaces :: "string \<Rightarrow> bool" where
  "spaces w \<longleftrightarrow> set w \<subseteq> {CHR 0x09, CHR 0x0D, CHR 0x0A, CHR 0x20}"

definition prim_text :: "string \<Rightarrow> bool" where
  \<comment> \<open>a number, \<open>true\<close>, \<open>false\<close> or \<open>null\<close>, as far as the tokenizer looks at them\<close>
  "prim_text w \<longleftrightarrow> w \<noteq> [] \<and> hd w \<in> prim_start
     \<and> (\<forall>c \<in> set w. c \<notin> prim_end \<and> 32 \<le> (of_char c :: nat) \<and> (of_char c :: nat) < 127)"

fun str_text :: "string \<Rightarrow> bool" where
  \<comment> \<open>the text between the quotes of a string\<close>
  "str_text [] = True"
| "str_text (c # k) =
     (if c = CHR 0x5C then
        (case k of [] \<Rightarrow> False
         | d # u \<Rightarrow> d \<in> escapes \<and> str_text u
             \<or> d = CHR ''u'' \<and> 4 \<le> length u \<and> list_all is_hex (take 4 u) \<and> str_text (drop 4 u))
      else c \<noteq> CHR 0x22 \<and> c \<noteq> CHR 0x00 \<and> str_text k)"

text \<open>\<open>json_value w p d\<close>: the text \<open>w\<close>, at position \<open>p\<close>, is the document \<open>d\<close>.\<close>

inductive json_value :: "string \<Rightarrow> nat \<Rightarrow> jdoc \<Rightarrow> bool"
  and json_members :: "string \<Rightarrow> nat \<Rightarrow> ((int \<times> int) \<times> jdoc) list \<Rightarrow> bool"
  and json_elems :: "string \<Rightarrow> nat \<Rightarrow> jdoc list \<Rightarrow> bool"
where
  value_prim: "prim_text w \<Longrightarrow> json_value w p (DPrim (int p) (int (p + length w)))"
| value_str: "str_text k \<Longrightarrow>
    json_value (CHR 0x22 # k @ [CHR 0x22]) p (DStr (int (p + 1)) (int (p + 1 + length k)))"
| value_obj: "json_members w (p + 1) ms \<Longrightarrow>
    json_value (CHR ''{'' # w @ [CHR ''}'']) p (DObj (int p) (int (p + 2 + length w)) ms)"
| value_arr: "json_elems w (p + 1) vs \<Longrightarrow>
    json_value (CHR ''['' # w @ [CHR '']'']) p (DArr (int p) (int (p + 2 + length w)) vs)"
| members_none: "spaces w \<Longrightarrow> json_members w p []"
| members_last: "spaces w1 \<Longrightarrow> str_text k \<Longrightarrow> spaces w2 \<Longrightarrow> spaces w3 \<Longrightarrow>
    json_value v (p + length w1 + length k + length w2 + length w3 + 3) d \<Longrightarrow> spaces w4 \<Longrightarrow>
    json_members (w1 @ CHR 0x22 # k @ CHR 0x22 # w2 @ CHR '':'' # w3 @ v @ w4) p
      [((int (p + length w1 + 1), int (p + length w1 + 1 + length k)), d)]"
| members_more: "json_members u p [m] \<Longrightarrow> json_members w (p + length u + 1) ms \<Longrightarrow> ms \<noteq> [] \<Longrightarrow>
    json_members (u @ CHR '','' # w) p (m # ms)"
| elems_none: "spaces w \<Longrightarrow> json_elems w p []"
| elems_last: "spaces w1 \<Longrightarrow> json_value v (p + length w1) d \<Longrightarrow> spaces w2 \<Longrightarrow>
    json_elems (w1 @ v @ w2) p [d]"
| elems_more: "json_elems u p [d] \<Longrightarrow> json_elems w (p + length u + 1) ds \<Longrightarrow> ds \<noteq> [] \<Longrightarrow>
    json_elems (u @ CHR '','' # w) p (d # ds)"

subsection \<open>Runs of the loop\<close>

abbreviation at :: "nat \<Rightarrow> int \<Rightarrow> json_tok list \<Rightarrow> jsmn_parser" where
  "at i s ts \<equiv> \<lparr>ps_pos = i, toksuper = s, toks = ts\<rparr>"

definition goes :: "string \<Rightarrow> nat \<Rightarrow> int \<times> jsmn_parser \<Rightarrow> int \<times> jsmn_parser \<Rightarrow> bool" where
  "goes t n x y \<longleftrightarrow> jsmn_loop (Some n) t (fst x) (snd x) = jsmn_loop (Some n) t (fst y) (snd y)"

lemma goes_refl [simp]: "goes t n x x"
  by (simp add: goes_def)

lemma goes_trans [trans]: "goes t n x y \<Longrightarrow> goes t n y z \<Longrightarrow> goes t n x z"
  by (simp add: goes_def)

lemma goes_char:
  assumes "t = a @ c # r" "c \<noteq> CHR 0x00" "jsmn_char (Some n) t k (at (length a) s ts) = Some (Inr (k', q))"
  shows "goes t n (k, at (length a) s ts) (k', q\<lparr>ps_pos := ps_pos q + 1\<rparr>)"
proof -
  have "\<not> ended t (length a)" using assms(1,2) by (simp add: ended_def)
  then show ?thesis
    using assms(3) by (simp add: goes_def jsmn_loop.simps [of _ t k "at (length a) s ts"])
qed

lemma goes_spaces:
  "spaces w \<Longrightarrow> t = a @ w @ r \<Longrightarrow> goes t n (k, at (length a) s ts) (k, at (length a + length w) s ts)"
proof (induction w arbitrary: a)
  case (Cons c w)
  have c: "c \<in> {CHR 0x09, CHR 0x0D, CHR 0x0A, CHR 0x20}" using Cons.prems(1) by (simp add: spaces_def)
  have "goes t n (k, at (length a) s ts) (k, (at (length a) s ts)\<lparr>ps_pos := length a + 1\<rparr>)"
    using goes_char [of t a c "w @ r" n k s ts k "at (length a) s ts"] c Cons.prems(2)
    by (auto simp: jsmn_char_def)
  also have "goes t n (k, (at (length a) s ts)\<lparr>ps_pos := length a + 1\<rparr>) (k, at (length a + 1 + length w) s ts)"
    using Cons.IH [of "a @ [c]"] Cons.prems by (simp add: spaces_def)
  finally show ?case by simp
qed simp

lemma str_scan_text:
  "str_text k \<Longrightarrow> str_scan (a @ k @ CHR 0x22 # r) (length a) = Inr (length a + length k)"
proof (induction k arbitrary: a rule: str_text.induct)
  case 1
  then show ?case by (subst str_scan.simps) (simp add: ended_def)
next
  case (2 c k)
  let ?t = "a @ (c # k) @ CHR 0x22 # r"
  have e: "\<not> ended ?t (length a)" if "c \<noteq> CHR 0x00" using that by (simp add: ended_def)
  show ?case
  proof (cases "c = CHR 0x5C")
    case False
    then have "str_text k" "c \<noteq> CHR 0x22" "c \<noteq> CHR 0x00" using "2.prems" by auto
    then show ?thesis
      using "2.IH"(3) [OF False, of "a @ [c]"] e False
      by (subst str_scan.simps) (simp add: nth_append)
  next
    case True
    then obtain d u where k: "k = d # u" using "2.prems" by (cases k) auto
    show ?thesis
    proof (cases "d \<in> escapes \<and> str_text u")
      case esc: True
      then show ?thesis
        using "2.IH"(1) [OF True k, of "a @ [c, d]"] e True k
        by (subst str_scan.simps) (simp add: nth_append)
    next
      case False
      then have u: "d = CHR ''u''" "4 \<le> length u" "list_all is_hex (take 4 u)" "str_text (drop 4 u)"
        using "2.prems" True k by auto
      obtain h1 h2 h3 h4 v where v: "u = h1 # h2 # h3 # h4 # v"
        using u(2) by (auto simp: numeral_eq_Suc Suc_le_length_iff)
      have n: "is_hex x \<Longrightarrow> x \<noteq> CHR 0x00" for x by (auto simp: is_hex_def Let_def)
      have "hex_scan 4 ?t (length a + 2) = Some (length (a @ [c, d, h1, h2, h3, h4]))"
        using u(3) v k n by (simp add: numeral_eq_Suc nth_append ended_def)
      then show ?thesis
        using "2.IH"(2) [OF True k, of "a @ [c, d, h1, h2, h3, h4]"] e True k u v
        by (subst str_scan.simps) (simp add: nth_append escapes_def)
    qed
  qed
qed

lemma prim_scan_text:
  assumes "\<forall>c \<in> set w. c \<notin> prim_end \<and> 32 \<le> (of_char c :: nat) \<and> (of_char c :: nat) < 127" "x \<in> prim_end"
  shows "prim_scan (a @ w @ x # r) (length a) = Inr (length a + length w)"
  using assms(1)
proof (induction w arbitrary: a)
  case Nil
  then show ?case using assms(2) by (subst prim_scan.simps) (auto simp: ended_def prim_end_def)
next
  case (Cons c w)
  have "c \<noteq> CHR 0x00" using Cons.prems by auto
  then show ?case
    using Cons.prems Cons.IH [of "a @ [c]"] by (subst prim_scan.simps) (auto simp: ended_def nth_append)
qed

subsection \<open>The steps\<close>

definition slot :: "int \<Rightarrow> json_tok list \<Rightarrow> bool" where
  \<comment> \<open>a value may come next: at the top, in an array, or after a key\<close>
  "slot s ts \<longleftrightarrow> s = - 1 \<or> 0 \<le> s \<and> s < int (length ts)
     \<and> (tk_type (ts ! nat s) = JSMN_ARRAY \<or> tk_type (ts ! nat s) = JSMN_STRING \<and> tk_size (ts ! nat s) = 0)"

lemma goes_string:
  assumes "str_text k" "t = a @ CHR 0x22 # k @ CHR 0x22 # r" "- 1 \<le> s" "s < int (length ts)" "length ts < n"
  shows "goes t n (c, at (length a) s ts) (c + 1, at (length a + length k + 2) s
     (bump s ts @ [mk_tok JSMN_STRING (int (length a + 1)) (int (length a + 1 + length k)) 0 s]))"
proof -
  let ?p = "at (length a) s ts"
  have scan: "str_scan t (length a + 1) = Inr (length a + 1 + length k)"
    using str_scan_text [OF assms(1), of "a @ [CHR 0x22]" r] assms(2) by simp
  then obtain q where q: "jsmn_parse_string (Some n) t ?p = Inr q"
    using assms(5) by (simp add: jsmn_parse_string_def add_leaf_cases toknext_def Let_def)
  have "super_ok ?p" using assms(3,4) by (simp add: super_ok_def toknext_def)
  then have "add_child q = at (length a + 1 + length k) s
     (bump s ts @ [mk_tok JSMN_STRING (int (length a + 1)) (int (length a + 1 + length k)) 0 s])"
    using parse_string_step [OF _ q] scan by (auto simp: leaf_def)
  moreover have "jsmn_char (Some n) t c ?p = Some (Inr (c + 1, add_child q))"
    using q assms(2) by (simp add: jsmn_char_def counted_def)
  ultimately show ?thesis
    using goes_char [OF assms(2), of n c s ts "c + 1" "add_child q"] by simp
qed

lemma goes_prim:
  assumes "prim_text w" "t = a @ w @ x # r" "x \<in> prim_end" "slot s ts" "length ts < n"
  shows "goes t n (c, at (length a) s ts) (c + 1, at (length a + length w) s
     (bump s ts @ [mk_tok JSMN_PRIMITIVE (int (length a)) (int (length a + length w)) 0 s]))"
proof -
  let ?p = "at (length a) s ts"
  obtain y w' where y: "w = y # w'" "y \<in> prim_start" "32 \<le> (of_char y :: nat)"
    using assms(1) by (cases w) (auto simp: prim_text_def)
  have pc: "t ! length a \<in> prim_start" using y assms(2) by simp
  have scan: "prim_scan t (length a) = Inr (length a + length w)"
    using prim_scan_text [of w x a r] assms(1-3) by (simp add: prim_text_def)
  then have q: "jsmn_parse_primitive (Some n) t ?p = Inr (at (length a + length w - 1) s
      (ts @ [leaf JSMN_PRIMITIVE (length a) (length a + length w) s]))" (is "_ = Inr ?q")
    using assms(5) by (simp add: jsmn_parse_primitive_def add_leaf_cases toknext_def Let_def)
  have "add_child ?q = at (length a + length w - 1) s
     (bump s ts @ [mk_tok JSMN_PRIMITIVE (int (length a)) (int (length a + length w)) 0 s])"
    using assms(4) bump_append [of s ts] by (auto simp: add_child_def upd_tok_def bump_def leaf_def slot_def)
  moreover have "jsmn_char (Some n) t c ?p = Some (Inr (c + 1, add_child ?q))"
    using q assms(4) by (auto simp: char_prim [where p = ?p, simplified, OF pc] counted_def slot_def Let_def)
  moreover have "y \<noteq> CHR 0x00" using y(3) by auto
  ultimately show ?thesis
    using goes_char [of t a y "w' @ x # r" n c s ts "c + 1" "add_child ?q"] assms(2) y(1) by simp
qed

lemma goes_open:
  assumes "t = a @ b # r" "b = CHR ''{'' \<and> ty = JSMN_OBJECT \<or> b = CHR ''['' \<and> ty = JSMN_ARRAY" "slot s ts"
    "length ts < n"
  shows "goes t n (c, at (length a) s ts) (c + 1, at (length a + 1) (int (length ts))
     (bump s ts @ [mk_tok ty (int (length a)) (- 1) 0 s]))"
proof -
  let ?p = "at (length a) s ts"
  define q where "q = at (length a) (int (length ts)) (bump s ts @ [mk_tok ty (int (length a)) (- 1) 0 s])"
  have sp: "super_ok ?p" using assms(3) by (auto simp: slot_def super_ok_def toknext_def)
  have "\<not> (s \<noteq> - 1 \<and> tk_type (ts ! nat s) = JSMN_OBJECT)" using assms(3) by (auto simp: slot_def)
  then have "\<exists>u. jsmn_open (Some n) ty ?p = Inr u"
    using assms(4) by (simp add: jsmn_open_def jsmn_alloc_token_def toknext_def Let_def)
  then have o: "jsmn_open (Some n) ty ?p = Inr q"
    using open_step [OF sp, of n ty] by (force simp: toknext_def q_def)
  have "jsmn_char (Some n) t c ?p = Some (Inr (c + 1, q))"
    unfolding jsmn_char_def assms(1) using assms(2) o [unfolded assms(1)] by (elim disjE) simp_all
  moreover have "b \<noteq> CHR 0x00" using assms(2) by auto
  ultimately show ?thesis using goes_char [OF assms(1), of n c s ts "c + 1" q] by (simp add: q_def)
qed

lemma goes_colon:
  assumes "t = a @ CHR '':'' # r"
  shows "goes t n (c, at (length a) s ts) (c, at (length a + 1) (int (length ts) - 1) ts)"
  using goes_char [OF assms, of n c s ts c "at (length a) (int (length ts) - 1) ts"] assms
  by (simp add: jsmn_char_def toknext_def)

lemma goes_comma:
  assumes "t = a @ CHR '','' # r" "0 \<le> s" "nat s < length ts"
    "tk_type (ts ! nat s) \<in> {JSMN_OBJECT, JSMN_ARRAY} \<and> s' = s \<or>
     tk_type (ts ! nat s) = JSMN_STRING \<and> s' = tk_parent (ts ! nat s)"
  shows "goes t n (c, at (length a) s ts) (c, at (length a + 1) s' ts)"
proof -
  have "jsmn_comma (Some n) (at (length a) s ts) = at (length a) s' ts"
    using assms(2,4) by (auto simp: jsmn_comma_def)
  then have "jsmn_char (Some n) t c (at (length a) s ts) = Some (Inr (c, at (length a) s' ts))"
    using assms(1) by (simp add: jsmn_char_def)
  then show ?thesis using goes_char [OF assms(1), of n c s ts] by force
qed

text \<open>From the last of the tokens within a container, which are closed, the walk reaches it.\<close>

definition inner :: "nat \<Rightarrow> json_tok list \<Rightarrow> bool" where
  "inner ob us \<longleftrightarrow> (\<forall>j < length us. 0 \<le> tk_end (us ! j)
     \<and> int ob \<le> tk_parent (us ! j) \<and> tk_parent (us ! j) \<le> int (ob + j))"

lemma walk_inner:
  assumes "inner (length pre) us" "j \<le> length us" "j < f" "is_open k"
  shows "jsmn_close_walk f ty (length pre + j) (at i s (pre @ k # us)) =
    Some (if tk_type k \<noteq> ty then Inl JSMN_ERROR_INVAL
          else Inr (at i (tk_parent k) (pre @ k\<lparr>tk_end := int i + 1\<rparr> # us)))"
  using assms(2,3)
proof (induction j arbitrary: f rule: less_induct)
  case (less j)
  obtain g where g: "f = Suc g" using less.prems(2) by (cases f) auto
  show ?case
  proof (cases j)
    case 0
    then show ?thesis using assms(4) by (simp add: g upd_tok_def)
  next
    case (Suc j')
    let ?u = "us ! j'"
    have u: "0 \<le> tk_end ?u" "int (length pre) \<le> tk_parent ?u" "tk_parent ?u \<le> int (length pre + j')"
      using assms(1) less.prems(1) Suc by (auto simp: inner_def)
    then have k: "nat (tk_parent ?u) = length pre + (nat (tk_parent ?u) - length pre)"
      "nat (tk_parent ?u) - length pre < j" using Suc by auto
    have n: "(k # us) ! j = ?u" using Suc by simp
    have "jsmn_close_walk f ty (length pre + j) (at i s (pre @ k # us))
        = jsmn_close_walk g ty (length pre + (nat (tk_parent ?u) - length pre)) (at i s (pre @ k # us))"
      using u k(1) by (simp add: g n is_open_def Let_def)
    also have "\<dots> = Some (if tk_type k \<noteq> ty then Inl JSMN_ERROR_INVAL
          else Inr (at i (tk_parent k) (pre @ k\<lparr>tk_end := int i + 1\<rparr> # us)))"
      by (rule less.IH) (use k less.prems g Suc in auto)
    finally show ?thesis .
  qed
qed

lemma goes_close:
  assumes "t = a @ b # r" "b = CHR ''}'' \<and> ty = JSMN_OBJECT \<or> b = CHR '']'' \<and> ty = JSMN_ARRAY"
    "inner (length pre) us"
  shows "goes t n (c, at (length a) s (pre @ mk_tok ty (int i) (- 1) m par # us))
     (c, at (length a + 1) par (pre @ mk_tok ty (int i) (int (length a + 1)) m par # us))"
proof -
  let ?p = "at (length a) s (pre @ mk_tok ty (int i) (- 1) m par # us)"
  let ?q = "at (length a) par (pre @ mk_tok ty (int i) (int (length a + 1)) m par # us)"
  have "is_open (mk_tok ty (int i) (- 1) m par)" by (simp add: is_open_def)
  then have w: "jsmn_close (Some n) ty ?p = Some (Inr ?q)"
    using walk_inner [OF assms(3), of "length us" "length pre + length us + 1" "mk_tok ty (int i) (- 1) m par"
        ty "length a" s]
    by (simp add: jsmn_close_def toknext_def mk_tok_def)
  have "jsmn_char (Some n) t c ?p = Some (Inr (c, ?q))"
    unfolding jsmn_char_def assms(1) using assms(2) w by (elim disjE) simp_all
  moreover have "b \<noteq> CHR 0x00" using assms(2) by auto
  ultimately show ?thesis using goes_char [OF assms(1), of n c s _ c ?q] by simp
qed

subsection \<open>The tokens of a document, again\<close>

lemma enc_parents:
  "j < length (enc par i d) \<Longrightarrow> j = 0 \<and> tk_parent (enc par i d ! j) = par
     \<or> int i \<le> tk_parent (enc par i d ! j) \<and> tk_parent (enc par i d ! j) < int (i + j)"
  "j < length (enc_members ob i ms) \<Longrightarrow> tk_parent (enc_members ob i ms ! j) = int ob
     \<or> int i \<le> tk_parent (enc_members ob i ms ! j) \<and> tk_parent (enc_members ob i ms ! j) < int (i + j)"
  "j < length (enc_elems ob i vs) \<Longrightarrow> tk_parent (enc_elems ob i vs ! j) = int ob
     \<or> int i \<le> tk_parent (enc_elems ob i vs ! j) \<and> tk_parent (enc_elems ob i vs ! j) < int (i + j)"
proof (induction par i d and ob i ms and ob i vs arbitrary: j and j and j rule: enc_enc_members_enc_elems.induct)
  case (3 par i s e ms)
  then show ?case by (cases j) force+
next
  case (4 par i s e vs)
  then show ?case by (cases j) force+
next
  case (6 ob i s e v ms)
  show ?case
  proof (cases j)
    case (Suc k)
    then show ?thesis
      using 6(1) [of k] 6(3) [of "k - length (enc (int i) (i + 1) v)"] 6(4) by (fastforce simp: nth_append)
  qed simp
next
  case (8 ar i v vs)
  then show ?case
    using 8(1) [of j] 8(3) [of "j - length (enc (int ar) i v)"] 8(4) by (fastforce simp: nth_append)
qed auto

lemma enc_members_more:
  "enc_members ob i (m # ms) = enc_members ob i [m] @ enc_members ob (i + length (enc_members ob i [m])) ms"
  by (cases m; cases "fst m") simp

lemma enc_elems_more:
  "enc_elems ob i (v # vs) = enc_elems ob i [v] @ enc_elems ob (i + length (enc_elems ob i [v])) vs"
  by simp

lemma grammar_ends:
  "json_value w p d \<Longrightarrow> list_all (\<lambda>k. 0 \<le> tk_end k) (enc par i d)"
  "json_members w p ms \<Longrightarrow> list_all (\<lambda>k. 0 \<le> tk_end k) (enc_members ob i ms)"
  "json_elems w p vs \<Longrightarrow> list_all (\<lambda>k. 0 \<le> tk_end k) (enc_elems ob i vs)"
proof (induction arbitrary: par i and ob i and ob i rule: json_value_json_members_json_elems.inducts)
  case (members_more u p m w ms)
  then show ?case by (subst enc_members_more) simp
next
  case (elems_more u p d w ds)
  then show ?case by (subst enc_elems_more) simp
qed auto

lemma inner_members: "json_members w p ms \<Longrightarrow> inner ob (enc_members ob (ob + 1) ms)"
  using grammar_ends(2) [of w p ms ob "ob + 1"] enc_parents(2) [of _ ob "ob + 1" ms]
  by (fastforce simp: inner_def list_all_length)

lemma inner_elems: "json_elems w p vs \<Longrightarrow> inner ob (enc_elems ob (ob + 1) vs)"
  using grammar_ends(3) [of w p vs ob "ob + 1"] enc_parents(3) [of _ ob "ob + 1" vs]
  by (fastforce simp: inner_def list_all_length)

subsection \<open>The run over a document\<close>

definition sep :: "string \<Rightarrow> bool" where
  "sep r \<longleftrightarrow> (\<exists>x r'. r = x # r' \<and> x \<in> prim_end)"

lemma sep_spaces: "spaces w \<Longrightarrow> sep r \<Longrightarrow> sep (w @ r)"
  by (cases w) (auto simp: sep_def spaces_def prim_end_def)

lemma sep_comma [simp]: "sep (CHR '','' # r)" "sep (CHR ''}'' # r)" "sep (CHR '']'' # r)"
  by (simp_all add: sep_def prim_end_def)

abbreviation grown :: "json_tok \<Rightarrow> nat \<Rightarrow> json_tok" where
  "grown k n \<equiv> k\<lparr>tk_size := tk_size k + int n\<rparr>"

lemma bump_at: "bump (int (length pre)) (pre @ k # us) = pre @ grown k 1 # us"
  by (simp add: bump_def)

lemma slot_array: "tk_type k = JSMN_ARRAY \<Longrightarrow> slot (int (length pre)) (pre @ k # us)"
  by (simp add: slot_def)

lemma slot_key: "slot (int (length ts)) (ts @ [mk_tok JSMN_STRING s e 0 q])"
  by (simp add: slot_def)

text \<open>
  Reading a value at a place where one may stand appends its tokens and keeps the superior token;
  reading members or elements appends theirs and lets the container grow by their number.
\<close>

definition reads_value :: "string \<Rightarrow> nat \<Rightarrow> jdoc \<Rightarrow> bool" where
  "reads_value w p d \<longleftrightarrow> (\<forall>t a r s ts n c. t = a @ w @ r \<longrightarrow> length a = p
     \<longrightarrow> sep r \<or> doc_type d \<noteq> JSMN_PRIMITIVE \<longrightarrow> slot s ts
     \<longrightarrow> length ts + length (enc s (length ts) d) \<le> n \<longrightarrow>
     goes t n (c, at p s ts) (c + int (length (enc s (length ts) d)),
       at (p + length w) s (bump s ts @ enc s (length ts) d)))"

definition reads_members :: "string \<Rightarrow> nat \<Rightarrow> ((int \<times> int) \<times> jdoc) list \<Rightarrow> bool" where
  "reads_members w p ms \<longleftrightarrow> (\<forall>t a r pre k us n c. t = a @ w @ r \<longrightarrow> length a = p \<longrightarrow> sep r
     \<longrightarrow> tk_type k = JSMN_OBJECT \<longrightarrow>
     (let ts = pre @ k # us; ob = length pre; em = enc_members ob (length ts) ms
      in length ts + length em \<le> n \<longrightarrow>
         (\<exists>s. goes t n (c, at p (int ob) ts) (c + int (length em),
            at (p + length w) s (pre @ grown k (length ms) # us @ em))
          \<and> (ms \<noteq> [] \<longrightarrow> (let ts' = pre @ grown k (length ms) # us @ em in 0 \<le> s \<and> nat s < length ts'
              \<and> tk_type (ts' ! nat s) = JSMN_STRING \<and> tk_parent (ts' ! nat s) = int ob)))))"

definition reads_elems :: "string \<Rightarrow> nat \<Rightarrow> jdoc list \<Rightarrow> bool" where
  "reads_elems w p vs \<longleftrightarrow> (\<forall>t a r pre k us n c. t = a @ w @ r \<longrightarrow> length a = p \<longrightarrow> sep r
     \<longrightarrow> tk_type k = JSMN_ARRAY \<longrightarrow>
     (let ts = pre @ k # us; ob = length pre; ee = enc_elems ob (length ts) vs
      in length ts + length ee \<le> n \<longrightarrow>
         goes t n (c, at p (int ob) ts) (c + int (length ee),
            at (p + length w) (int ob) (pre @ grown k (length vs) # us @ ee))))"

lemma reads_prim: "prim_text w \<Longrightarrow> reads_value w p (DPrim (int p) (int (p + length w)))"
  unfolding reads_value_def
  using goes_prim [of w _ _ _ _ _ _] by (force simp: sep_def)

lemma reads_str:
  "str_text k \<Longrightarrow> reads_value (CHR 0x22 # k @ [CHR 0x22]) p (DStr (int (p + 1)) (int (p + 1 + length k)))"
  unfolding reads_value_def
  using goes_string by (force simp: slot_def)

lemma container_open_close:
  assumes "t = a @ b # w @ b' # r" "slot s ts" "length ts < n"
    "b = CHR ''{'' \<and> b' = CHR ''}'' \<and> ty = JSMN_OBJECT \<or> b = CHR ''['' \<and> b' = CHR '']'' \<and> ty = JSMN_ARRAY"
    "goes t n (c + 1, at (length a + 1) (int (length ts)) (bump s ts @ mk_tok ty (int (length a)) (- 1) 0 s # []))
       (c', at (length a + 1 + length w) s' (bump s ts @ mk_tok ty (int (length a)) (- 1) m s # em))"
    "inner (length ts) em"
  shows "goes t n (c, at (length a) s ts) (c', at (length a + length w + 2) s
     (bump s ts @ mk_tok ty (int (length a)) (int (length a + 2 + length w)) m s # em))"
proof -
  have "goes t n (c, at (length a) s ts)
      (c + 1, at (length a + 1) (int (length ts)) (bump s ts @ mk_tok ty (int (length a)) (- 1) 0 s # []))"
    using goes_open [of t a b "w @ b' # r" ty s ts n c] assms(1-4) by auto
  also note assms(5)
  also have "goes t n (c', at (length a + 1 + length w) s' (bump s ts @ mk_tok ty (int (length a)) (- 1) m s # em))
      (c', at (length (a @ b # w) + 1) s (bump s ts @ mk_tok ty (int (length a)) (int (length (a @ b # w) + 1)) m s # em))"
    using goes_close [of t "a @ b # w" b' r ty "bump s ts" em n c' s' "length a" m s] assms(1,4,6) by auto
  finally show ?thesis by (simp add: add_ac)
qed

lemma reads_obj:
  assumes "json_members w (p + 1) ms" "reads_members w (p + 1) ms"
  shows "reads_value (CHR ''{'' # w @ [CHR ''}'']) p (DObj (int p) (int (p + 2 + length w)) ms)"
  unfolding reads_value_def
proof (intro allI impI)
  fix t a r s ts n c
  assume t: "t = a @ (CHR ''{'' # w @ [CHR ''}'']) @ r" "length a = p" and sl: "slot s ts"
    and n: "length ts + length (enc s (length ts) (DObj (int p) (int (p + 2 + length w)) ms)) \<le> n"
  let ?em = "enc_members (length ts) (length ts + 1) ms"
  obtain s' where "goes t n (c + 1, at (p + 1) (int (length ts)) (bump s ts @ mk_tok JSMN_OBJECT (int p) (- 1) 0 s # []))
      (c + 1 + int (length ?em), at (p + 1 + length w) s' (bump s ts @ mk_tok JSMN_OBJECT (int p) (- 1) (length ms) s # ?em))"
    using assms(2) [unfolded reads_members_def, rule_format, of t "a @ [CHR ''{'']" "CHR ''}'' # r"
        "mk_tok JSMN_OBJECT (int p) (- 1) 0 s" "bump s ts" "[]" n "c + 1"] t n
    by (auto simp: Let_def mk_tok_def)
  then show "goes t n (c, at p s ts)
      (c + int (length (enc s (length ts) (DObj (int p) (int (p + 2 + length w)) ms))),
       at (p + length (CHR ''{'' # w @ [CHR ''}''])) s
         (bump s ts @ enc s (length ts) (DObj (int p) (int (p + 2 + length w)) ms)))"
    using container_open_close [of t a "CHR ''{''" w "CHR ''}''" r s ts n JSMN_OBJECT c
        "c + 1 + int (length ?em)" s' "length ms" ?em] t n sl inner_members [OF assms(1)]
    by (simp add: add_ac)
qed

lemma reads_arr:
  assumes "json_elems w (p + 1) vs" "reads_elems w (p + 1) vs"
  shows "reads_value (CHR ''['' # w @ [CHR '']'']) p (DArr (int p) (int (p + 2 + length w)) vs)"
  unfolding reads_value_def
proof (intro allI impI)
  fix t a r s ts n c
  assume t: "t = a @ (CHR ''['' # w @ [CHR '']'']) @ r" "length a = p" and sl: "slot s ts"
    and n: "length ts + length (enc s (length ts) (DArr (int p) (int (p + 2 + length w)) vs)) \<le> n"
  let ?em = "enc_elems (length ts) (length ts + 1) vs"
  have "goes t n (c + 1, at (p + 1) (int (length ts)) (bump s ts @ mk_tok JSMN_ARRAY (int p) (- 1) 0 s # []))
      (c + 1 + int (length ?em), at (p + 1 + length w) (int (length ts))
        (bump s ts @ mk_tok JSMN_ARRAY (int p) (- 1) (length vs) s # ?em))"
    using assms(2) [unfolded reads_elems_def, rule_format, of t "a @ [CHR ''['']" "CHR '']'' # r"
        "mk_tok JSMN_ARRAY (int p) (- 1) 0 s" "bump s ts" "[]" n "c + 1"] t n
    by (auto simp: Let_def mk_tok_def)
  then show "goes t n (c, at p s ts)
      (c + int (length (enc s (length ts) (DArr (int p) (int (p + 2 + length w)) vs))),
       at (p + length (CHR ''['' # w @ [CHR '']''])) s
         (bump s ts @ enc s (length ts) (DArr (int p) (int (p + 2 + length w)) vs)))"
    using container_open_close [of t a "CHR ''[''" w "CHR '']''" r s ts n JSMN_ARRAY c
        "c + 1 + int (length ?em)" "int (length ts)" "length vs" ?em] t n sl inner_elems [OF assms(1)]
    by (simp add: add_ac)
qed

lemma reads_no_members: "spaces w \<Longrightarrow> reads_members w p []"
  unfolding reads_members_def Let_def by (fastforce intro: goes_spaces)

lemma reads_no_elems: "spaces w \<Longrightarrow> reads_elems w p []"
  unfolding reads_elems_def using goes_spaces by (auto simp: Let_def)

text \<open>A key, the colon and a value.\<close>

lemma reads_member:
  assumes "spaces w1" "str_text k" "spaces w2" "spaces w3" "spaces w4"
    "reads_value v (p + length w1 + length k + length w2 + length w3 + 3) d"
  shows "reads_members (w1 @ CHR 0x22 # k @ CHR 0x22 # w2 @ CHR '':'' # w3 @ v @ w4) p
      [((int (p + length w1 + 1), int (p + length w1 + 1 + length k)), d)]"
  unfolding reads_members_def Let_def
proof (intro allI impI)
  fix t a r and pre us :: "json_tok list" and kk :: json_tok and n c
  assume t: "t = a @ (w1 @ CHR 0x22 # k @ CHR 0x22 # w2 @ CHR '':'' # w3 @ v @ w4) @ r" "length a = p"
    and sp: "sep r" and kk: "tk_type kk = JSMN_OBJECT"
  let ?ts = "pre @ kk # us"
  let ?ob = "length pre"
  let ?i = "length ?ts"
  let ?m = "((int (p + length w1 + 1), int (p + length w1 + 1 + length k)), d)"
  let ?key = "mk_tok JSMN_STRING (int (p + length w1 + 1)) (int (p + length w1 + 1 + length k))"
  let ?w = "enc (int ?i) (?i + 1) d"
  assume n: "?i + length (enc_members ?ob ?i [?m]) \<le> n"
  let ?q = "p + length w1 + length k + length w2"
  have "goes t n (c, at (length a) (int ?ob) ?ts) (c, at (length a + length w1) (int ?ob) ?ts)"
    by (rule goes_spaces [OF assms(1) t(1) [unfolded append_assoc]])
  also have "goes t n (c, at (length a + length w1) (int ?ob) ?ts)
      (c + 1, at (p + length w1 + length k + 2) (int ?ob) (pre @ grown kk 1 # us @ [?key 0 (int ?ob)]))"
    using goes_string [OF assms(2), of t "a @ w1" _ "int ?ob" ?ts n c] t n by (simp add: bump_at add_ac)
  also have "goes t n (c + 1, at (p + length w1 + length k + 2) (int ?ob) (pre @ grown kk 1 # us @ [?key 0 (int ?ob)]))
      (c + 1, at (?q + 2) (int ?ob) (pre @ grown kk 1 # us @ [?key 0 (int ?ob)]))"
    using goes_spaces [OF assms(3), of t "a @ w1 @ CHR 0x22 # k @ [CHR 0x22]"] t by (simp add: add_ac)
  also have "goes t n (c + 1, at (?q + 2) (int ?ob) (pre @ grown kk 1 # us @ [?key 0 (int ?ob)]))
      (c + 1, at (?q + 3) (int ?i) (pre @ grown kk 1 # us @ [?key 0 (int ?ob)]))"
    using goes_colon [of t "a @ w1 @ CHR 0x22 # k @ CHR 0x22 # w2" "w3 @ v @ w4 @ r" n "c + 1" "int ?ob"
        "pre @ grown kk 1 # us @ [?key 0 (int ?ob)]"] t by (simp add: add_ac numeral_eq_Suc)
  also have "goes t n (c + 1, at (?q + 3) (int ?i) (pre @ grown kk 1 # us @ [?key 0 (int ?ob)]))
      (c + 1, at (?q + length w3 + 3) (int ?i) (pre @ grown kk 1 # us @ [?key 0 (int ?ob)]))"
    using goes_spaces [OF assms(4), of t "a @ w1 @ CHR 0x22 # k @ CHR 0x22 # w2 @ [CHR '':'']"] t
    by (simp add: add_ac numeral_eq_Suc)
  also have "goes t n (c + 1, at (?q + length w3 + 3) (int ?i) (pre @ grown kk 1 # us @ [?key 0 (int ?ob)]))
      (c + 1 + int (length ?w), at (?q + length w3 + 3 + length v) (int ?i)
         (bump (int ?i) (pre @ grown kk 1 # us @ [?key 0 (int ?ob)]) @ ?w))"
    using assms(6) [unfolded reads_value_def, rule_format, of t
        "a @ w1 @ CHR 0x22 # k @ CHR 0x22 # w2 @ CHR '':'' # w3" "w4 @ r" "int ?i"
        "pre @ grown kk 1 # us @ [?key 0 (int ?ob)]" n "c + 1"]
      t n sep_spaces [OF assms(5) sp] slot_key [of "pre @ grown kk 1 # us"]
    by (simp add: add_ac numeral_eq_Suc)
  also have "goes t n (c + 1 + int (length ?w), at (?q + length w3 + 3 + length v) (int ?i)
         (bump (int ?i) (pre @ grown kk 1 # us @ [?key 0 (int ?ob)]) @ ?w))
      (c + 1 + int (length ?w), at (?q + length w3 + 3 + length v + length w4) (int ?i)
         (bump (int ?i) (pre @ grown kk 1 # us @ [?key 0 (int ?ob)]) @ ?w))"
    using goes_spaces [OF assms(5), of t "a @ w1 @ CHR 0x22 # k @ CHR 0x22 # w2 @ CHR '':'' # w3 @ v"] t
    by (simp add: add_ac numeral_eq_Suc)
  finally have g: "goes t n (c, at p (int ?ob) ?ts) (c + 1 + int (length ?w),
      at (?q + length w3 + 3 + length v + length w4) (int ?i)
         (bump (int ?i) (pre @ grown kk 1 # us @ [?key 0 (int ?ob)]) @ ?w))"
    using t(2) by simp
  have b: "bump (int ?i) (pre @ grown kk 1 # us @ [?key 0 (int ?ob)]) @ ?w
      = pre @ grown kk 1 # us @ enc_members ?ob ?i [?m]"
    using bump_at [of "pre @ grown kk 1 # us" "?key 0 (int ?ob)" "[]"] by (simp add: mk_tok_def)
  show "\<exists>s. goes t n (c, at p (int ?ob) ?ts) (c + int (length (enc_members ?ob ?i [?m])),
       at (p + length (w1 @ CHR 0x22 # k @ CHR 0x22 # w2 @ CHR '':'' # w3 @ v @ w4)) s
         (pre @ grown kk (length [?m]) # us @ enc_members ?ob ?i [?m]))
     \<and> ([?m] \<noteq> [] \<longrightarrow> 0 \<le> s \<and> nat s < length (pre @ grown kk (length [?m]) # us @ enc_members ?ob ?i [?m])
        \<and> tk_type ((pre @ grown kk (length [?m]) # us @ enc_members ?ob ?i [?m]) ! nat s) = JSMN_STRING
        \<and> tk_parent ((pre @ grown kk (length [?m]) # us @ enc_members ?ob ?i [?m]) ! nat s) = int ?ob)"
  proof (intro exI conjI impI)
    have nth: "(pre @ grown kk (length [?m]) # us @ enc_members ?ob ?i [?m]) ! nat (int ?i) = ?key 1 (int ?ob)"
      unfolding nat_int using nth_append_length [of "pre @ grown kk 1 # us" "?key 1 (int ?ob)" ?w] by simp
    show "goes t n (c, at p (int ?ob) ?ts) (c + int (length (enc_members ?ob ?i [?m])),
        at (p + length (w1 @ CHR 0x22 # k @ CHR 0x22 # w2 @ CHR '':'' # w3 @ v @ w4)) (int ?i)
          (pre @ grown kk (length [?m]) # us @ enc_members ?ob ?i [?m]))"
      using g [unfolded b] by (simp add: add_ac numeral_eq_Suc)
    show "tk_type ((pre @ grown kk (length [?m]) # us @ enc_members ?ob ?i [?m]) ! nat (int ?i)) = JSMN_STRING"
      "tk_parent ((pre @ grown kk (length [?m]) # us @ enc_members ?ob ?i [?m]) ! nat (int ?i)) = int ?ob"
      unfolding nth by simp_all
  qed simp_all
qed

lemma reads_more_members:
  assumes "reads_members u p [m]" "reads_members w (p + length u + 1) ms" "ms \<noteq> []"
  shows "reads_members (u @ CHR '','' # w) p (m # ms)"
  unfolding reads_members_def Let_def
proof (intro allI impI)
  fix t a r and pre us :: "json_tok list" and kk :: json_tok and n c
  assume t: "t = a @ (u @ CHR '','' # w) @ r" "length a = p" and sp: "sep r" and kk: "tk_type kk = JSMN_OBJECT"
  let ?ob = "length pre"
  let ?ts = "pre @ kk # us"
  let ?e1 = "enc_members ?ob (length ?ts) [m]"
  let ?ts1 = "pre @ grown kk 1 # us @ ?e1"
  let ?e2 = "enc_members ?ob (length ?ts1) ms"
  let ?ts2 = "pre @ grown kk (length (m # ms)) # us @ enc_members ?ob (length ?ts) (m # ms)"
  assume n: "length ?ts + length (enc_members ?ob (length ?ts) (m # ms)) \<le> n"
  have e: "enc_members ?ob (length ?ts) (m # ms) = ?e1 @ ?e2"
    using enc_members_more [of ?ob "length ?ts" m ms] by (simp add: add_ac)
  obtain s where s: "goes t n (c, at p (int ?ob) ?ts) (c + int (length ?e1), at (p + length u) s ?ts1)"
    "0 \<le> s" "nat s < length ?ts1" "tk_type (?ts1 ! nat s) = JSMN_STRING" "tk_parent (?ts1 ! nat s) = int ?ob"
    using assms(1) [unfolded reads_members_def Let_def, rule_format, of t a "CHR '','' # w @ r" kk pre us n c]
      t kk n e by auto
  have comma: "goes t n (c + int (length ?e1), at (p + length u) s ?ts1)
      (c + int (length ?e1), at (p + length u + 1) (int ?ob) ?ts1)"
    using goes_comma [of t "a @ u" "w @ r" s ?ts1 "int ?ob" n] t s by simp
  obtain s' where s': "goes t n (c + int (length ?e1), at (p + length u + 1) (int ?ob) ?ts1)
      (c + int (length ?e1) + int (length ?e2), at (p + length u + 1 + length w) s' ?ts2)"
    "0 \<le> s'" "nat s' < length ?ts2" "tk_type (?ts2 ! nat s') = JSMN_STRING" "tk_parent (?ts2 ! nat s') = int ?ob"
    using assms(2) [unfolded reads_members_def Let_def, rule_format, of t "a @ u @ [CHR '','']" r "grown kk 1" pre
        "us @ ?e1" n "c + int (length ?e1)"] assms(3) t kk n sp e
    by (auto simp: add_ac)
  have "goes t n (c, at p (int ?ob) ?ts) (c + int (length ?e1) + int (length ?e2), at (p + length u + 1 + length w) s' ?ts2)"
    using s(1) comma s'(1) goes_trans by blast
  then show "\<exists>s. goes t n (c, at p (int ?ob) ?ts) (c + int (length (enc_members ?ob (length ?ts) (m # ms))),
      at (p + length (u @ CHR '','' # w)) s ?ts2)
     \<and> (m # ms \<noteq> [] \<longrightarrow> 0 \<le> s \<and> nat s < length ?ts2 \<and> tk_type (?ts2 ! nat s) = JSMN_STRING
        \<and> tk_parent (?ts2 ! nat s) = int ?ob)"
    using s'(2-5) e by (intro exI [of _ s']) (simp add: add_ac)
qed

lemma reads_elem:
  assumes "spaces w1" "reads_value v (p + length w1) d" "spaces w2"
  shows "reads_elems (w1 @ v @ w2) p [d]"
  unfolding reads_elems_def Let_def
proof (intro allI impI)
  fix t a r and pre us :: "json_tok list" and kk :: json_tok and n c
  assume t: "t = a @ (w1 @ v @ w2) @ r" "length a = p" and sp: "sep r" and kk: "tk_type kk = JSMN_ARRAY"
  let ?ob = "length pre"
  let ?ts = "pre @ kk # us"
  let ?w = "enc (int ?ob) (length ?ts) d"
  assume n: "length ?ts + length (enc_elems ?ob (length ?ts) [d]) \<le> n"
  have "goes t n (c, at (length a) (int ?ob) ?ts) (c, at (length a + length w1) (int ?ob) ?ts)"
    by (rule goes_spaces [OF assms(1) t(1) [unfolded append_assoc]])
  also have "goes t n (c, at (length a + length w1) (int ?ob) ?ts)
      (c + int (length ?w), at (length a + length w1 + length v) (int ?ob) (pre @ grown kk 1 # us @ ?w))"
    using assms(2) [unfolded reads_value_def, rule_format, of t "a @ w1" "w2 @ r" "int ?ob" ?ts n c]
      t n sep_spaces [OF assms(3) sp] slot_array [OF kk]
    by (simp add: bump_at)
  also have "goes t n (c + int (length ?w), at (length a + length w1 + length v) (int ?ob) (pre @ grown kk 1 # us @ ?w))
      (c + int (length ?w), at (length a + length w1 + length v + length w2) (int ?ob) (pre @ grown kk 1 # us @ ?w))"
    using goes_spaces [OF assms(3), of t "a @ w1 @ v"] t by (simp add: add_ac)
  finally show "goes t n (c, at p (int ?ob) ?ts) (c + int (length (enc_elems ?ob (length ?ts) [d])),
      at (p + length (w1 @ v @ w2)) (int ?ob) (pre @ grown kk (length [d]) # us @ enc_elems ?ob (length ?ts) [d]))"
    using t(2) by (simp add: add_ac)
qed

lemma reads_more_elems:
  assumes "reads_elems u p [d]" "reads_elems w (p + length u + 1) ds"
  shows "reads_elems (u @ CHR '','' # w) p (d # ds)"
  unfolding reads_elems_def Let_def
proof (intro allI impI)
  fix t a r and pre us :: "json_tok list" and kk :: json_tok and n c
  assume t: "t = a @ (u @ CHR '','' # w) @ r" "length a = p" and sp: "sep r" and kk: "tk_type kk = JSMN_ARRAY"
  let ?ob = "length pre"
  let ?ts = "pre @ kk # us"
  let ?e1 = "enc_elems ?ob (length ?ts) [d]"
  let ?ts1 = "pre @ grown kk 1 # us @ ?e1"
  let ?e2 = "enc_elems ?ob (length ?ts1) ds"
  assume n: "length ?ts + length (enc_elems ?ob (length ?ts) (d # ds)) \<le> n"
  have e: "enc_elems ?ob (length ?ts) (d # ds) = ?e1 @ ?e2" by (simp add: add_ac)
  have "goes t n (c, at p (int ?ob) ?ts) (c + int (length ?e1), at (p + length u) (int ?ob) ?ts1)"
    using assms(1) [unfolded reads_elems_def Let_def, rule_format, of t a "CHR '','' # w @ r" kk pre us n c]
      t kk n e by simp
  also have "goes t n (c + int (length ?e1), at (p + length u) (int ?ob) ?ts1)
      (c + int (length ?e1), at (p + length u + 1) (int ?ob) ?ts1)"
    using goes_comma [of t "a @ u" "w @ r" "int ?ob" ?ts1 "int ?ob" n] t kk by (simp add: nth_append)
  also have "goes t n (c + int (length ?e1), at (p + length u + 1) (int ?ob) ?ts1)
      (c + int (length ?e1) + int (length ?e2), at (p + length u + 1 + length w) (int ?ob)
        (pre @ grown (grown kk 1) (length ds) # (us @ ?e1) @ ?e2))"
    using assms(2) [unfolded reads_elems_def Let_def, rule_format, of t "a @ u @ [CHR '','']" r "grown kk 1" pre
        "us @ ?e1" n "c + int (length ?e1)"] t kk n sp e
    by (simp add: add_ac)
  finally show "goes t n (c, at p (int ?ob) ?ts) (c + int (length (enc_elems ?ob (length ?ts) (d # ds))),
      at (p + length (u @ CHR '','' # w)) (int ?ob)
        (pre @ grown kk (length (d # ds)) # us @ enc_elems ?ob (length ?ts) (d # ds)))"
    by (simp add: add_ac)
qed

lemma reads:
  "json_value w p d \<Longrightarrow> reads_value w p d"
  "json_members w p ms \<Longrightarrow> reads_members w p ms"
  "json_elems w p vs \<Longrightarrow> reads_elems w p vs"
  by (induction rule: json_value_json_members_json_elems.inducts)
    (assumption | rule reads_prim reads_str reads_obj reads_arr reads_no_members reads_no_elems reads_member
       reads_more_members reads_elem reads_more_elems)+

subsection \<open>The whole text\<close>

text \<open>When filling in succeeds, counting gives the same number.\<close>

lemma fill_counts:
  assumes "jsmn_loop (Some n) t c p = Some (Inr (k, q))" "ps_pos p' = ps_pos p"
  shows "\<exists>q'. jsmn_loop None t c p' = Some (Inr (k, q'))"
  using assms
proof (induction "Some n" t c p arbitrary: p' rule: jsmn_loop.induct)
  case (1 t c p)
  show ?case
  proof (cases "ended t (ps_pos p)")
    case True
    then show ?thesis using "1.prems" by (simp add: jsmn_loop.simps)
  next
    case False
    then obtain j u where ju: "jsmn_char (Some n) t c p = Some (Inr (j, u))"
        "jsmn_loop (Some n) t j (u\<lparr>ps_pos := ps_pos u + 1\<rparr>) = Some (Inr (k, q))"
      using "1.prems"(1) by (subst (asm) jsmn_loop.simps) (auto split: option.splits sum.splits)
    then obtain u' where u': "jsmn_char None t c p' = Some (Inr (j, u'))" "ps_pos u' = ps_pos u"
      using char_none [OF "1.prems"(2) ju(1)] by auto
    then have "\<exists>q'. jsmn_loop None t j (u'\<lparr>ps_pos := ps_pos u' + 1\<rparr>) = Some (Inr (k, q'))"
      by (intro "1.hyps" [OF False ju(1) refl refl ju(2)]) simp
    then show ?thesis using False u' "1.prems"(2) by (simp add: jsmn_loop.simps [of _ _ _ p'])
  qed
qed

lemma loop_end: "ended t (ps_pos p) \<Longrightarrow> jsmn_loop room t c p = Some (Inr (c, p))"
  by (subst jsmn_loop.simps) simp

lemma tokens_of_document:
  assumes "spaces w1" "json_value w (length w1) d" "spaces w2" "doc_type d \<noteq> JSMN_PRIMITIVE \<or> w2 \<noteq> []"
    "length (enc (- 1) 0 d) \<le> n"
  shows "\<exists>q. jsmn_loop (Some n) (w1 @ w @ w2) 0 jsmn_init = Some (Inr (int (length (enc (- 1) 0 d)), q))
     \<and> toks q = enc (- 1) 0 d"
proof -
  let ?t = "w1 @ w @ w2"
  let ?e = "enc (- 1) 0 d"
  have sp: "sep w2 \<or> doc_type d \<noteq> JSMN_PRIMITIVE"
    using assms(3,4) by (cases w2) (auto simp: sep_def spaces_def prim_end_def)
  have "goes ?t n (0, at (length ([] :: string)) (- 1) []) (0, at (length ([] :: string) + length w1) (- 1) [])"
    by (rule goes_spaces [OF assms(1)]) simp
  also have "goes ?t n (0, at (length ([] :: string) + length w1) (- 1) [])
      (0 + int (length ?e), at (length (w1 @ w)) (- 1) ?e)"
    using reads(1) [OF assms(2), unfolded reads_value_def, rule_format, of ?t w1 w2 "- 1" "[]" n 0] sp assms(5)
    by (simp add: slot_def bump_def)
  also have "goes ?t n (0 + int (length ?e), at (length (w1 @ w)) (- 1) ?e)
      (0 + int (length ?e), at (length (w1 @ w) + length w2) (- 1) ?e)"
    by (rule goes_spaces [OF assms(3)]) simp
  finally show ?thesis
    using loop_end [of ?t "at (length (w1 @ w) + length w2) (- 1) ?e" "Some n" "int (length ?e)"]
    by (simp add: goes_def jsmn_init_def ended_def)
qed

lemma parse_document:
  assumes "spaces w1" "json_value w (length w1) d" "spaces w2" "doc_type d \<noteq> JSMN_PRIMITIVE \<or> w2 \<noteq> []"
  shows "parse_text True (w1 @ w @ w2) = Some \<lparr>js = w1 @ w @ w2, tokens = enc (- 1) 0 d, cur = 0\<rparr>"
proof -
  let ?t = "w1 @ w @ w2"
  let ?n = "length (enc (- 1) 0 d)"
  obtain q where q: "jsmn_loop (Some ?n) ?t 0 jsmn_init = Some (Inr (int ?n, q))" "toks q = enc (- 1) 0 d"
    using tokens_of_document [OF assms order_refl] by blast
  have "\<not> (\<exists>k \<in> set (enc (- 1) 0 d). is_open k)"
    using grammar_ends(1) [OF assms(2), of "- 1" 0] by (fastforce simp: list_all_iff is_open_def)
  then have "jsmn_fill ?t ?n = Some (enc (- 1) 0 d)"
    using q by (simp add: jsmn_fill_def jsmn_parse_def)
  moreover have "jsmn_count ?t = int ?n"
    using fill_counts [OF q(1) refl] by (auto simp: jsmn_count_def jsmn_parse_def)
  ultimately show ?thesis by (simp add: json_parse_start_def Let_def)
qed

subsection \<open>Properties\<close>

text \<open>C10. The tokenizer reads JSON. On a text of the JSON grammar, with white space before, after and
  wherever the grammar allows it within, \<open>json_parse_start\<close> succeeds and the tokens are those of the
  document: preorder, a key of size 1 before each value, every text at its place, every container with
  the number of its members. (A bare number or literal that ends with the text is excepted: in strict
  mode it is an incomplete text.)\<close>
theorem jsmn_reads_json:
  assumes "spaces w1" "json_value w (length w1) d" "spaces w2" "doc_type d \<noteq> JSMN_PRIMITIVE \<or> w2 \<noteq> []"
  shows "parse_text True (w1 @ w @ w2) = Some \<lparr>js = w1 @ w @ w2, tokens = enc (- 1) 0 d, cur = 0\<rparr>"
  by (rule parse_document [OF assms])

lemma ex_spaced_value: "json_value ''{\"a\": -5 }'' 1 (DObj 1 11 [((3, 4), DPrim 7 9)])"
proof -
  have v: "json_value ''-5'' (2 + length ([] :: string) + length ''a'' + length ([] :: string) + length '' '' + 3) (DPrim 7 9)"
    using value_prim [of "''-5''" 7] by (simp add: prim_text_def prim_start_def prim_end_def)
  have "json_members ([] @ CHR 0x22 # ''a'' @ CHR 0x22 # [] @ CHR '':'' # '' '' @ ''-5'' @ '' '') (1 + 1)
      [((3, 4), DPrim 7 9)]"
    using members_last [OF _ _ _ _ v, of "'' ''"] by (simp add: spaces_def numeral_2_eq_2)
  from value_obj [OF this] show ?thesis by simp
qed

theorem jsmn_reads_json_witness:
  "\<exists>c. parse_text True ('' {\"a\": -5 }'' @ [CHR 0x0A]) = Some c \<and> length (tokens c) = 3
     \<and> tk_start (tokens c ! 2) = 7 \<and> tk_parent (tokens c ! 2) = 1"
  using jsmn_reads_json [of "'' ''" "''{\"a\": -5 }''" _ "[CHR 0x0A]"] ex_spaced_value
  by (simp add: spaces_def)

end
