(* ===== verification/Json_Round.thy ===== *)
theory Json_Round
  imports Jsmn_Doc Json_Gen
begin

text \<open>
  What the JSON generator prints the JSON reader reads. The text of a tree (\<open>jprint\<close>, what the
  operations of \<open>json_generator.c\<close> are proved to append) is a text of the grammar, so the tokenizer
  accepts it; \<open>at_tree\<close> relates a context of the reader to the tree of its current container, and a
  lookup in such a context yields the value of the first member with the key.
\<close>

subsection \<open>Texts within a text\<close>

definition here :: "string \<Rightarrow> nat \<Rightarrow> string \<Rightarrow> bool" where
  "here t p w \<longleftrightarrow> (\<exists>r. drop p t = w @ r)"

lemma here_append: "here t p (u @ v) \<longleftrightarrow> here t p u \<and> here t (p + length u) v"
proof -
  have "drop (p + length u) t = drop (length u) (drop p t)" by (simp add: add.commute)
  then show ?thesis unfolding here_def by (auto simp del: drop_drop)
qed

lemma here_tl: "here t p (c # v) \<Longrightarrow> here t (p + 1) v"
  using here_append [of t p "[c]" v] by simp

lemma here_after: "here t p (u @ c # v) \<Longrightarrow> here t (p + length u + 1) v"
  using here_tl [of t "p + length u" c v] here_append [of t p u "c # v"] by simp

lemma here_take: "here t p w \<Longrightarrow> take (length w) (drop p t) = w"
  by (auto simp: here_def)

lemma here_all [simp]: "here t 0 t"
  by (simp add: here_def)

subsection \<open>Trees and documents\<close>

definition is_json :: "string \<Rightarrow> bool" where
  "is_json w \<longleftrightarrow> (\<forall>p. \<exists>d. json_value w p d)"

inductive printable :: "jtree \<Rightarrow> bool" where
  printable_lit: "is_json w \<Longrightarrow> printable (JLit w)"
| printable_obj: "(\<And>k v. (k, v) \<in> set ms \<Longrightarrow> str_text k \<and> printable v) \<Longrightarrow> printable (JObj ms)"
| printable_arr: "(\<And>v. v \<in> set vs \<Longrightarrow> printable v) \<Longrightarrow> printable (JArr vs)"

text \<open>\<open>tree_doc t v p d\<close>: at position \<open>p\<close> of the text \<open>t\<close> stands the tree \<open>v\<close>, as the document \<open>d\<close>.\<close>

definition key_here :: "string \<Rightarrow> string \<Rightarrow> int \<times> int \<Rightarrow> bool" where
  "key_here t k se \<longleftrightarrow> 0 \<le> fst se \<and> snd se = fst se + int (length k) \<and> here t (nat (fst se)) k"

lemma list_all2_step_mono: "(\<And>x y. P x y \<longrightarrow> Q x y) \<Longrightarrow> list_all2 P xs ys \<longrightarrow> list_all2 Q xs ys"
  by (auto elim: list_all2_mono)

inductive tree_doc :: "string \<Rightarrow> jtree \<Rightarrow> nat \<Rightarrow> jdoc \<Rightarrow> bool" for t where
  tree_lit: "here t p w \<Longrightarrow> json_value w p d \<Longrightarrow> sep (drop (p + length w) t) \<Longrightarrow> tree_doc t (JLit w) p d"
| tree_obj: "here t p (jprint (JObj ms)) \<Longrightarrow>
    list_all2 (\<lambda>m d. key_here t (fst m) (fst d) \<and> (\<exists>q. tree_doc t (snd m) q (snd d))) ms ds
    \<Longrightarrow> tree_doc t (JObj ms) p (DObj (int p) (int (p + length (jprint (JObj ms)))) ds)"
| tree_arr: "here t p (jprint (JArr vs)) \<Longrightarrow> list_all2 (\<lambda>v d. \<exists>q. tree_doc t v q d) vs ds
    \<Longrightarrow> tree_doc t (JArr vs) p (DArr (int p) (int (p + length (jprint (JArr vs)))) ds)"
monos list_all2_step_mono

inductive_cases tree_objE: "tree_doc t (JObj ms) p d"
inductive_cases tree_arrE: "tree_doc t (JArr vs) p d"
inductive_cases tree_litE: "tree_doc t (JLit w) p d"

subsection \<open>The print of a tree is a text of the grammar\<close>

lemma joined_Cons: "joined (x # xs) = x @ (if xs = [] then [] else '','' @ joined xs)"
  by (cases xs) (simp_all add: joined_def)

definition prints :: "string \<Rightarrow> jtree \<Rightarrow> bool" where
  \<comment> \<open>wherever the tree stands in the text, it is a value there\<close>
  "prints t v \<longleftrightarrow> (\<forall>p. here t p (jprint v) \<longrightarrow> sep (drop (p + length (jprint v)) t) \<or> (\<forall>w. v \<noteq> JLit w)
     \<longrightarrow> (\<exists>d. json_value (jprint v) p d \<and> tree_doc t v p d))"

lemma sep_here: "here t p (c # w) \<Longrightarrow> c \<in> prim_end \<Longrightarrow> sep (drop p t)"
  by (auto simp: here_def sep_def)

lemma prints_member:
  assumes "str_text k" "prints t v" "here t p (name_txt k @ jprint v @ c # r)" "c \<in> prim_end"
  shows "\<exists>d. json_members (name_txt k @ jprint v) p [((int (p + 1), int (p + 1 + length k)), d)]
    \<and> key_here t k (int (p + 1), int (p + 1 + length k)) \<and> (\<exists>q. tree_doc t v q d)"
proof -
  let ?q = "p + length k + 3"
  have h: "here t (p + 1) k" "here t ?q (jprint v)" "here t (?q + length (jprint v)) (c # r)"
    using assms(3) unfolding name_txt_def append_assoc here_append by (simp_all add: add_ac numeral_eq_Suc)
  obtain d where d: "json_value (jprint v) ?q d" "tree_doc t v ?q d"
    using assms(2) h(2) sep_here [OF h(3) assms(4)] by (auto simp: prints_def)
  have "json_members ([] @ CHR 0x22 # k @ CHR 0x22 # [] @ CHR '':'' # [] @ jprint v @ []) p
      [((int (p + length ([] :: string) + 1), int (p + length ([] :: string) + 1 + length k)), d)]"
    by (rule members_last) (use assms(1) d(1) in \<open>simp_all add: spaces_def add_ac\<close>)
  then show ?thesis
    using d(2) h(1) by (intro exI [of _ d]) (auto simp: name_txt_def key_here_def nat_add_distrib)
qed

abbreviation member_text :: "string \<times> jtree \<Rightarrow> string" where
  "member_text m \<equiv> name_txt (fst m) @ jprint (snd m)"

lemma prints_members:
  assumes "\<And>k v. (k, v) \<in> set ms \<Longrightarrow> str_text k \<and> prints t v"
    "here t p (joined (map member_text ms) @ ''}'')"
  shows "\<exists>ds. json_members (joined (map member_text ms)) p ds \<and> length ds = length ms
    \<and> list_all2 (\<lambda>m d. key_here t (fst m) (fst d) \<and> (\<exists>q. tree_doc t (snd m) q (snd d))) ms ds"
  using assms
proof (induction ms arbitrary: p)
  case Nil
  then show ?case by (auto intro!: members_none simp: spaces_def)
next
  case (Cons m ms)
  let ?M = "name_txt (fst m) @ jprint (snd m)"
  let ?s = "(int (p + 1), int (p + 1 + length (fst m)))"
  have m: "str_text (fst m)" "prints t (snd m)" using Cons.prems(1) [of "fst m" "snd m"] by auto
  show ?case
  proof (cases "ms = []")
    case True
    then obtain d where "json_members ?M p [(?s, d)]" "key_here t (fst m) ?s" "\<exists>q. tree_doc t (snd m) q d"
      using prints_member [OF m, of p "CHR ''}''" "[]"] Cons.prems(2) by (auto simp: joined_Cons prim_end_def)
    then show ?thesis
      using True by (intro exI [of _ "[(?s, d)]"]) (simp add: joined_Cons)
  next
    case False
    have h: "here t p (?M @ CHR '','' # joined (map member_text ms) @ ''}'')"
      using Cons.prems(2) False by (simp add: joined_Cons)
    then obtain d where d: "json_members ?M p [(?s, d)]" "key_here t (fst m) ?s" "\<exists>q. tree_doc t (snd m) q d"
      using prints_member [OF m, of p "CHR '',''" "joined (map member_text ms) @ ''}''"] by (auto simp: prim_end_def)
    have "here t (p + length ?M + 1) (joined (map member_text ms) @ ''}'')"
      by (rule here_after [OF h])
    then obtain ds where ds: "json_members (joined (map member_text ms)) (p + length ?M + 1) ds" "length ds = length ms"
        "list_all2 (\<lambda>m d. key_here t (fst m) (fst d) \<and> (\<exists>q. tree_doc t (snd m) q (snd d))) ms ds"
      using Cons.IH [of "p + length ?M + 1"] Cons.prems(1) by fastforce
    have "json_members (?M @ CHR '','' # joined (map member_text ms)) p ((?s, d) # ds)"
      by (rule members_more [OF d(1) ds(1)]) (use ds(2) False in auto)
    then show ?thesis
      using False d ds by (intro exI [of _ "(?s, d) # ds"]) (simp add: joined_Cons)
  qed
qed

lemma prints_elems:
  assumes "\<And>v. v \<in> set vs \<Longrightarrow> prints t v" "here t p (joined (map jprint vs) @ '']'')"
  shows "\<exists>ds. json_elems (joined (map jprint vs)) p ds \<and> length ds = length vs
    \<and> list_all2 (\<lambda>v d. \<exists>q. tree_doc t v q d) vs ds"
  using assms
proof (induction vs arbitrary: p)
  case Nil
  then show ?case by (auto intro!: elems_none simp: spaces_def)
next
  case (Cons v vs)
  have one: "\<exists>d. json_elems (jprint v) p [d] \<and> (\<exists>q. tree_doc t v q d)"
    if h: "here t p (jprint v @ c # r)" and c: "c \<in> prim_end" for c r
  proof -
    have v: "here t p (jprint v)" "here t (p + length (jprint v)) (c # r)" using h by (simp_all add: here_append)
    then obtain d where d: "json_value (jprint v) p d" "tree_doc t v p d"
      using Cons.prems(1) [of v] v(1) sep_here [OF v(2) c] by (auto simp: prints_def)
    have "json_elems ([] @ jprint v @ []) p [d]"
      by (rule elems_last) (use d(1) in \<open>simp_all add: spaces_def\<close>)
    then show ?thesis using d(2) by auto
  qed
  show ?case
  proof (cases "vs = []")
    case True
    then obtain d where "json_elems (jprint v) p [d]" "\<exists>q. tree_doc t v q d"
      using one [of "CHR '']''" "[]"] Cons.prems(2) by (auto simp: joined_Cons prim_end_def)
    then show ?thesis using True by (intro exI [of _ "[d]"]) (simp add: joined_Cons)
  next
    case False
    have h: "here t p (jprint v @ CHR '','' # joined (map jprint vs) @ '']'')"
      using Cons.prems(2) False by (simp add: joined_Cons)
    then obtain d where d: "json_elems (jprint v) p [d]" "\<exists>q. tree_doc t v q d"
      using one [of "CHR '',''" "joined (map jprint vs) @ '']''"] by (auto simp: prim_end_def)
    have "here t (p + length (jprint v) + 1) (joined (map jprint vs) @ '']'')"
      by (rule here_after [OF h])
    then obtain ds where ds: "json_elems (joined (map jprint vs)) (p + length (jprint v) + 1) ds"
        "length ds = length vs" "list_all2 (\<lambda>v d. \<exists>q. tree_doc t v q d) vs ds"
      using Cons.IH [of "p + length (jprint v) + 1"] Cons.prems(1) by fastforce
    have "json_elems (jprint v @ CHR '','' # joined (map jprint vs)) p (d # ds)"
      by (rule elems_more [OF d(1) ds(1)]) (use ds(2) False in auto)
    then show ?thesis using False d ds by (intro exI [of _ "d # ds"]) (simp add: joined_Cons)
  qed
qed

lemma jprint_obj: "jprint (JObj ms) = CHR ''{'' # joined (map member_text ms) @ [CHR ''}'']"
proof -
  have "(\<lambda>(k, v). name_txt k @ jprint v) = member_text" by auto
  then show ?thesis by simp
qed

lemma prints_obj:
  assumes "\<And>k v. (k, v) \<in> set ms \<Longrightarrow> str_text k \<and> prints t v"
  shows "prints t (JObj ms)"
  unfolding prints_def
proof (intro allI impI)
  fix p
  assume h: "here t p (jprint (JObj ms))"
  let ?w = "joined (map member_text ms)"
  obtain ds where ds: "json_members ?w (p + 1) ds"
    "list_all2 (\<lambda>m d. key_here t (fst m) (fst d) \<and> (\<exists>q. tree_doc t (snd m) q (snd d))) ms ds"
    using prints_members [OF assms, of ms "p + 1"] here_tl [OF h [unfolded jprint_obj]] by auto
  have "int (p + length (jprint (JObj ms))) = int (p + 2 + length ?w)" by (simp add: jprint_obj del: jprint.simps)
  then show "\<exists>d. json_value (jprint (JObj ms)) p d \<and> tree_doc t (JObj ms) p d"
    using value_obj [OF ds(1)] tree_obj [OF h ds(2)] by (auto simp: jprint_obj simp del: jprint.simps)
qed

lemma prints_arr:
  assumes "\<And>v. v \<in> set vs \<Longrightarrow> prints t v"
  shows "prints t (JArr vs)"
  unfolding prints_def
proof (intro allI impI)
  fix p
  assume h: "here t p (jprint (JArr vs))"
  let ?w = "joined (map jprint vs)"
  have j: "jprint (JArr vs) = CHR ''['' # ?w @ [CHR '']'']" by simp
  obtain ds where ds: "json_elems ?w (p + 1) ds" "list_all2 (\<lambda>v d. \<exists>q. tree_doc t v q d) vs ds"
    using prints_elems [OF assms, of vs "p + 1"] here_tl [OF h [unfolded j]] by auto
  have "int (p + length (jprint (JArr vs))) = int (p + 2 + length ?w)" by simp
  then show "\<exists>d. json_value (jprint (JArr vs)) p d \<and> tree_doc t (JArr vs) p d"
    using value_arr [OF ds(1)] tree_arr [OF h ds(2)] by (auto simp: j simp del: jprint.simps)
qed

lemma printable_prints: "printable v \<Longrightarrow> prints t v"
proof (induction rule: printable.induct)
  case (printable_lit w)
  then show ?case using tree_lit by (fastforce simp: prints_def is_json_def)
next
  case (printable_obj ms)
  then show ?case by (intro prints_obj) blast
next
  case (printable_arr vs)
  then show ?case by (intro prints_arr) blast
qed

lemma printable_is_json: "printable v \<Longrightarrow> \<forall>w. v \<noteq> JLit w \<Longrightarrow> is_json (jprint v)"
  unfolding is_json_def
proof
  fix p
  assume v: "printable v" "\<forall>w. v \<noteq> JLit w"
  have "here (replicate p CHR 0x20 @ jprint v) p (jprint v)" by (simp add: here_def)
  then show "\<exists>d. json_value (jprint v) p d"
    using printable_prints [OF v(1), of "replicate p CHR 0x20 @ jprint v"] v(2) by (auto simp: prints_def)
qed

subsection \<open>Contexts at a tree\<close>

definition at_tree :: "jparse_ctx \<Rightarrow> jtree \<Rightarrow> bool" where
  "at_tree c v \<longleftrightarrow> (\<exists>p d. at_doc c d \<and> tree_doc (js c) v p d)"

lemma parse_tree:
  assumes "printable v" "\<forall>w. v \<noteq> JLit w"
  shows "\<exists>c. parse_text True (jprint v) = Some c \<and> at_tree c v \<and> js c = jprint v \<and> cur c = 0"
proof -
  obtain d where d: "json_value (jprint v) 0 d" "tree_doc (jprint v) v 0 d"
    using printable_prints [OF assms(1), of "jprint v"] assms(2) by (force simp: prints_def)
  have "doc_type d \<noteq> JSMN_PRIMITIVE"
    using d(2) assms(2) by (cases rule: tree_doc.cases) auto
  then have "parse_text True ([] @ jprint v @ []) = Some \<lparr>js = [] @ jprint v @ [], tokens = enc (- 1) 0 d, cur = 0\<rparr>"
    using d(1) by (intro parse_document) (simp_all add: spaces_def)
  moreover have "at_doc \<lparr>js = jprint v, tokens = enc (- 1) 0 d, cur = 0\<rparr> d"
    by (auto simp: at_doc_def intro!: exI [of _ "[]"])
  ultimately show ?thesis using d(2) by (auto simp: at_tree_def)
qed

subsection \<open>Lookups\<close>

abbreviation (input) members_at :: "string \<Rightarrow> (string \<times> jtree) list \<Rightarrow> ((int \<times> int) \<times> jdoc) list \<Rightarrow> bool" where
  "members_at t ms ds \<equiv> list_all2 (\<lambda>m d. key_here t (fst m) (fst d) \<and> (\<exists>q. tree_doc t (snd m) q (snd d))) ms ds"

lemma key_here_iff:
  "key_here t k (s, e) \<Longrightarrow> take (length key) (drop (nat s) t) = key \<and> int (length key) = e - s \<longleftrightarrow> key = k"
  using here_take [of t "nat s" k] by (auto simp: key_here_def)

lemma first_key_tree:
  "members_at t ms ds \<Longrightarrow> case first_key t i key ds of None \<Rightarrow> map_of ms key = None
     | Some (j, d) \<Rightarrow> \<exists>v q. map_of ms key = Some v \<and> tree_doc t v q d"
proof (induction ms ds arbitrary: i rule: list_all2_induct)
  case (Cons m ms d ds)
  obtain s e w where d: "d = ((s, e), w)" by (cases d) auto
  obtain k v where m: "m = (k, v)" by (cases m)
  have kh: "key_here t k (s, e)" using Cons.hyps(1) by (simp add: d m)
  have "first_key t i key (d # ds)
      = (if key = k then Some (i, w) else first_key t (i + 1 + length (enc (int i) (i + 1) w)) key ds)"
    unfolding d first_key.simps key_here_iff [OF kh] by (rule refl)
  then show ?case
    using Cons.hyps(1) Cons.IH [of "i + 1 + length (enc (int i) (i + 1) w)"] by (auto simp: d m simp del: first_key.simps split: option.splits)
qed simp

lemma get_val_tree:
  assumes "at_tree c (JObj ms)"
  shows "case map_of ms key of None \<Rightarrow> \<forall>ty. json_obj_get_val_tok c key ty = None
    | Some v \<Rightarrow> \<exists>k d q. (\<forall>ty. json_obj_get_val_tok c key ty = (if doc_type d = ty then Some (Suc k) else None))
        \<and> tree_doc (js c) v q d \<and> at_doc (c\<lparr>cur := Suc k\<rparr>) d \<and> tk_parent (tokens c ! Suc k) = int k
        \<and> tk_parent (tokens c ! k) = int (cur c)
        \<and> (tk_start (tokens c ! Suc k), tk_end (tokens c ! Suc k)) = doc_span d"
proof -
  obtain p d where d: "at_doc c d" "tree_doc (js c) (JObj ms) p d" using assms by (auto simp: at_tree_def)
  from d(2) obtain s e ds where ds: "d = DObj s e ds" "members_at (js c) ms ds" by (auto elim: tree_objE)
  note l = json_obj_get_val_doc [OF d(1) [unfolded ds(1)]]
  show ?thesis
  proof (cases "first_key (js c) (cur c + 1) key ds")
    case None
    then show ?thesis using first_key_tree [OF ds(2), where i = "cur c + 1" and key = key] l(1) by simp
  next
    case (Some kv)
    obtain k w where kv: "kv = (k, w)" by (cases kv)
    obtain v q where v: "map_of ms key = Some v" "tree_doc (js c) v q w"
      using first_key_tree [OF ds(2), where i = "cur c + 1" and key = key] Some kv by auto
    have "\<And>ty. json_obj_get_val_tok c key ty = (if doc_type w = ty then Some (Suc k) else None)"
      using l(1) Some kv by simp
    then show ?thesis
      using v l(2) [of key k w] Some kv
      by (simp only: option.simps) (intro exI [of _ k] exI [of _ w] exI [of _ q], simp)
  qed
qed

lemma arr_walk_doc:
  assumes "tokens c = pre @ enc_elems ar i ds @ post" "i = length pre" "n < length ds"
  shows "\<exists>k. arr_walk c n i = Some k \<and> at_doc (c\<lparr>cur := k\<rparr>) (ds ! n) \<and> tk_parent (tokens c ! k) = int ar
    \<and> (tk_start (tokens c ! k), tk_end (tokens c ! k)) = doc_span (ds ! n)
    \<and> tk_type (tokens c ! k) = doc_type (ds ! n) \<and> k < length (tokens c)"
  using assms
proof (induction n arbitrary: pre i ds)
  case 0
  then obtain d ds' where ds: "ds = d # ds'" by (cases ds) auto
  let ?e = "enc (int ar) i d"
  have t: "tokens c = pre @ ?e @ enc_elems ar (i + length ?e) ds' @ post" using 0 ds by simp
  then have "tokens c ! i = ?e ! 0" using 0(2) enc_pos [of "int ar" i d] by (simp add: nth_append)
  then show ?case
    using t 0(2) ds enc_pos [of "int ar" i d] by (auto simp: at_doc_def enc_hd)
next
  case (Suc n)
  then obtain d ds' where ds: "ds = d # ds'" by (cases ds) auto
  let ?e = "enc (int ar) i d"
  have t: "tokens c = pre @ ?e @ enc_elems ar (i + length ?e) ds' @ post" using Suc ds by simp
  have "skip_elem c i = Some (i + length ?e - 1)" by (rule skip_enc [OF t Suc(3)])
  then have "arr_walk c (Suc n) i = arr_walk c n (i + length ?e)"
    using enc_pos [of "int ar" i d] by simp
  then show ?case
    using Suc.IH [of "pre @ ?e" "i + length ?e" ds'] t Suc.prems ds by simp
qed

lemma arr_val_doc:
  assumes "at_doc c (DArr s e ds)" "n < length ds"
  shows "\<exists>k. (\<forall>ty. json_arr_get_val_tok c n ty = (if doc_type (ds ! n) = ty then Some k else None))
    \<and> at_doc (c\<lparr>cur := k\<rparr>) (ds ! n) \<and> tk_parent (tokens c ! k) = int (cur c)
    \<and> (tk_start (tokens c ! k), tk_end (tokens c ! k)) = doc_span (ds ! n)"
proof -
  obtain pre par post where t: "tokens c = pre @ enc par (cur c) (DArr s e ds) @ post" "length pre = cur c"
    using assms(1) by (auto simp: at_doc_def)
  let ?h = "mk_tok JSMN_ARRAY s e (length ds) par"
  have h: "tokens c ! cur c = ?h" using t by (metis append_Cons enc.simps(4) nth_append_length)
  have "tokens c = (pre @ [?h]) @ enc_elems (cur c) (cur c + 1) ds @ post" using t(1) by simp
  from arr_walk_doc [OF this _ assms(2)] t(2)
  obtain k where "arr_walk c n (cur c + 1) = Some k" "at_doc (c\<lparr>cur := k\<rparr>) (ds ! n)"
    "tk_parent (tokens c ! k) = int (cur c)" "(tk_start (tokens c ! k), tk_end (tokens c ! k)) = doc_span (ds ! n)"
    "tk_type (tokens c ! k) = doc_type (ds ! n)" "k < length (tokens c)"
    by auto
  then show ?thesis
    using h assms(2) by (intro exI [of _ k]) (auto simp: json_arr_get_val_tok_def json_arr_search_def Let_def)
qed

subsection \<open>Entering and leaving\<close>

lemma tree_doc_type:
  "tree_doc t (JObj ms) p d \<Longrightarrow> doc_type d = JSMN_OBJECT" "tree_doc t (JArr vs) p d \<Longrightarrow> doc_type d = JSMN_ARRAY"
  by (auto elim: tree_objE tree_arrE)

lemma get_object_tree:
  assumes "at_tree c (JObj ms)" "map_of ms key = Some (JObj us)"
  shows "\<exists>k. json_obj_get_object c key = Some (c\<lparr>cur := k\<rparr>) \<and> at_tree (c\<lparr>cur := k\<rparr>) (JObj us)
    \<and> json_obj_leave_object (c\<lparr>cur := k\<rparr>) = Some c"
proof -
  obtain k d q where k: "\<And>ty. json_obj_get_val_tok c key ty = (if doc_type d = ty then Some (Suc k) else None)"
    "tree_doc (js c) (JObj us) q d" "at_doc (c\<lparr>cur := Suc k\<rparr>) d" "tk_parent (tokens c ! Suc k) = int k"
    "tk_parent (tokens c ! k) = int (cur c)"
    using get_val_tree [OF assms(1), of key] assms(2) by auto
  then show ?thesis
    using tree_doc_type(1) [OF k(2)]
    by (intro exI [of _ "Suc k"]) (auto simp: json_obj_get_object_def at_tree_def json_obj_leave_object_def to_parent_def)
qed

lemma arr_size_tree:
  assumes "at_doc c d" "tree_doc (js c) (JArr vs) p d"
  shows "tk_size (tokens c ! cur c) = int (length vs)"
proof -
  obtain s e ds where ds: "d = DArr s e ds" "length ds = length vs"
    using assms(2) by (auto elim!: tree_arrE dest: list_all2_lengthD)
  obtain pre par post where t: "tokens c = pre @ enc par (cur c) (DArr s e ds) @ post" "length pre = cur c"
    using assms(1) ds by (auto simp: at_doc_def)
  have "tokens c ! cur c = mk_tok JSMN_ARRAY s e (length ds) par"
    using t by (metis append_Cons enc.simps(4) nth_append_length)
  then show ?thesis using ds by simp
qed

lemma get_array_tree:
  assumes "at_tree c (JObj ms)" "map_of ms key = Some (JArr vs)"
  shows "\<exists>k. json_obj_get_array c key = Some (int (length vs), c\<lparr>cur := k\<rparr>) \<and> at_tree (c\<lparr>cur := k\<rparr>) (JArr vs)
    \<and> json_obj_leave_array (c\<lparr>cur := k\<rparr>) = Some c"
proof -
  obtain k d q where k: "\<And>ty. json_obj_get_val_tok c key ty = (if doc_type d = ty then Some (Suc k) else None)"
    "tree_doc (js c) (JArr vs) q d" "at_doc (c\<lparr>cur := Suc k\<rparr>) d" "tk_parent (tokens c ! Suc k) = int k"
    "tk_parent (tokens c ! k) = int (cur c)"
    using get_val_tree [OF assms(1), of key] assms(2) by auto
  have "tk_size (tokens c ! Suc k) = int (length vs)"
    using arr_size_tree [OF k(3), of vs q] k(2) by simp
  then show ?thesis
    using k tree_doc_type(2) [OF k(2)]
    by (intro exI [of _ "Suc k"]) (auto simp: json_obj_get_array_def at_tree_def json_obj_leave_array_def to_parent_def Let_def)
qed

lemma arr_get_object_tree:
  assumes "at_tree c (JArr vs)" "n < length vs" "vs ! n = JObj us"
  shows "\<exists>k. json_arr_get_object c n = Some (c\<lparr>cur := k\<rparr>) \<and> at_tree (c\<lparr>cur := k\<rparr>) (JObj us)
    \<and> json_arr_leave_object (c\<lparr>cur := k\<rparr>) = Some c"
proof -
  obtain p d where d: "at_doc c d" "tree_doc (js c) (JArr vs) p d" using assms(1) by (auto simp: at_tree_def)
  from d(2) obtain s e ds where ds: "d = DArr s e ds" "list_all2 (\<lambda>v d. \<exists>q. tree_doc (js c) v q d) vs ds"
    by (auto elim: tree_arrE)
  have n: "n < length ds" using ds(2) assms(2) by (simp add: list_all2_lengthD)
  obtain q where q: "tree_doc (js c) (JObj us) q (ds ! n)"
    using list_all2_nthD [OF ds(2) assms(2)] assms(3) by auto
  show ?thesis
    using arr_val_doc [OF d(1) [unfolded ds(1)] n] q tree_doc_type(1) [OF q]
    by (fastforce simp: json_arr_get_object_def at_tree_def json_arr_leave_object_def to_parent_def Let_def)
qed

subsection \<open>Values\<close>

lemma string_doc:
  assumes "tree_doc t (JLit (quoted x)) q d"
  shows "d = DStr (int (q + 1)) (int (q + 1 + length x)) \<and> here t (q + 1) x"
proof -
  have h: "here t q (CHR 0x22 # x @ [CHR 0x22])" and j: "json_value (CHR 0x22 # x @ [CHR 0x22]) q d"
    using assms by (auto simp: quoted_def elim: tree_litE)
  have x: "here t (q + 1) x" using here_tl [OF h] by (simp add: here_append)
  have n: "\<not> prim_text (CHR 0x22 # x @ [CHR 0x22])" by (simp add: prim_text_def prim_start_def)
  from j show ?thesis
  proof cases
    case value_prim
    then show ?thesis using n by simp
  next
    case value_str
    then show ?thesis using x by simp
  qed blast+
qed

lemma prim_doc:
  assumes "tree_doc t (JLit w) q d" "w \<noteq> []" "hd w \<in> prim_start"
  shows "d = DPrim (int q) (int (q + length w)) \<and> here t q w \<and> sep (drop (q + length w) t)"
proof -
  have "json_value w q d" "here t q w" "sep (drop (q + length w) t)" using assms(1) by (auto elim: tree_litE)
  then show ?thesis using assms(2,3) by cases (auto simp: prim_start_def)
qed

lemma get_string_tree:
  assumes "at_tree c (JObj ms)" "map_of ms key = Some (JLit (quoted x))" "int (length x) < sz"
  shows "json_obj_get_string c key sz = Some x"
proof -
  obtain k d q where k: "\<And>ty. json_obj_get_val_tok c key ty = (if doc_type d = ty then Some (Suc k) else None)"
    "tree_doc (js c) (JLit (quoted x)) q d" "(tk_start (tokens c ! Suc k), tk_end (tokens c ! Suc k)) = doc_span d"
    using get_val_tree [OF assms(1), of key] assms(2) by auto
  then show ?thesis
    using string_doc [OF k(2)] here_take [of "js c" "q + 1" x] assms(3)
    by (simp add: json_obj_get_string_def json_tok_to_string_def substr_def nat_add_distrib)
qed

lemma get_bool_tree:
  assumes "at_tree c (JObj ms)" "map_of ms key = Some (JLit (bool_txt b))"
  shows "json_obj_get_bool c key = Some b"
proof -
  obtain k d q where k: "\<And>ty. json_obj_get_val_tok c key ty = (if doc_type d = ty then Some (Suc k) else None)"
    "tree_doc (js c) (JLit (bool_txt b)) q d" "(tk_start (tokens c ! Suc k), tk_end (tokens c ! Suc k)) = doc_span d"
    using get_val_tree [OF assms(1), of key] assms(2) by auto
  have "d = DPrim (int q) (int (q + length (bool_txt b))) \<and> here (js c) q (bool_txt b)"
    using prim_doc [OF k(2)] by (auto simp: bool_txt_def prim_start_def)
  then show ?thesis
    using k(1,3) here_take [of "js c" q "bool_txt b"]
    by (auto simp: json_obj_get_bool_def json_tok_to_bool_def token_matches_str_def bool_txt_def)
qed

text \<open>Decimal numbers.\<close>

lemma hex_digit_digit: "d < 10 \<Longrightarrow> is_digit (hex_digit d) \<and> (of_char (hex_digit d) :: nat) = 48 + d"
  by (auto simp: hex_digit_def is_digit_def less_Suc_eq numeral_eq_Suc)

lemma dec_nat_digits: "list_all is_digit (dec_nat n) \<and> digits_val (dec_nat n) = n"
proof (induction n rule: dec_nat.induct)
  case (1 n)
  then show ?case
    using hex_digit_digit [of n] hex_digit_digit [of "n mod 10"]
    by (subst (1 2) dec_nat.simps) (auto simp: digits_val_def)
qed

lemma dec_nat_length: "n < 10 ^ Suc k \<Longrightarrow> length (dec_nat n) \<le> Suc k"
proof (induction k arbitrary: n)
  case (Suc k)
  then show ?case by (subst dec_nat.simps) (simp add: less_mult_imp_div_less)
qed (subst dec_nat.simps, simp)

lemma dec_nat_hd: "is_digit (hd (dec_nat n))"
  using dec_nat_digits [of n] dec_nat_nonempty [of n] by (cases "dec_nat n") auto

lemma sep_not_digit: "sep r \<Longrightarrow> takeWhile is_digit r = []"
  by (auto simp: sep_def prim_end_def is_digit_def)

lemma strtoul_dec:
  assumes "sep r" "- (2 ^ 31) \<le> i" "i < 2 ^ 31" "bits = 32 \<or> bits = 64"
  shows "strtoul bits (dec_int i @ r) = (nat (i mod 2 ^ bits), length (dec_int i))"
proof -
  have d: "takeWhile is_digit (dec_nat n @ r) = dec_nat n" for n
    using dec_nat_digits [of n] sep_not_digit [OF assms(1)] by (simp add: takeWhile_append list_all_iff)
  have s: "\<not> is_space (hd (dec_nat n)) \<and> hd (dec_nat n) \<noteq> CHR ''-'' \<and> hd (dec_nat n) \<noteq> CHR ''+''" for n
    using dec_nat_hd [of n] by (auto simp: is_digit_def is_space_def)
  show ?thesis
  proof (cases "i < 0")
    case True
    then have "i mod 2 ^ bits = 2 ^ bits + i"
      using assms(2,4) mod_pos_pos_trivial [of "2 ^ bits + i" "2 ^ bits"] by auto
    moreover have n: "nat (- i) < 2 ^ bits" "2 ^ bits - nat (- i) = nat (2 ^ bits + i)"
      using True assms(2,4) by (auto simp: nat_diff_distrib')
    ultimately show ?thesis
      using True d s dec_nat_digits assms(2) dec_nat_nonempty n
      by (simp add: strtoul_def dec_int_def is_space_def Let_def)
  next
    case False
    obtain x xs where x: "dec_nat (nat i) = x # xs" using dec_nat_nonempty [of "nat i"] by (cases "dec_nat (nat i)") auto
    have "i < 2 ^ bits" using assms(3,4) by auto
    then show ?thesis
      using False d [of "nat i"] s [of "nat i"] x dec_nat_digits [of "nat i"]
      by (simp add: strtoul_def dec_int_def Let_def nat_less_iff)
  qed
qed

lemma int_txt_dec:
  assumes "- (2 ^ 63) \<le> i" "i < 2 ^ 63"
  shows "int_txt i = dec_int i"
proof -
  have "length (dec_nat (nat \<bar>i\<bar>)) \<le> Suc 18"
    using assms by (intro dec_nat_length) (auto simp: nat_less_iff)
  then have "length (dec_int i) \<le> 20" by (auto simp: dec_int_def abs_if split: if_splits)
  then show ?thesis by (simp add: int_txt_def snprintf_def)
qed

lemma digit_prim: "is_digit c \<Longrightarrow> c \<in> prim_start"
proof -
  assume "is_digit c"
  then have "(of_char c :: nat) \<in> of_char ` prim_start"
    by (auto simp: is_digit_def prim_start_def) presburger
  then show "c \<in> prim_start" by (auto simp: inj_image_mem_iff)
qed

lemma dec_int_prim: "prim_text (dec_int i)"
proof -
  have d: "prim_text (dec_nat n) \<and> list_all is_digit (dec_nat n)" for n
    using dec_nat_digits [of n] dec_nat_nonempty [of n] digit_prim [OF dec_nat_hd]
    by (auto simp: prim_text_def list_all_iff is_digit_def prim_end_def)
  then show ?thesis
    using d [of "nat (- i)"] by (auto simp: dec_int_def prim_text_def prim_start_def prim_end_def)
qed

lemma number_doc:
  assumes "tree_doc t (JLit (dec_int i)) q d" "- (2 ^ 31) \<le> i" "i < 2 ^ 31" "bits = 32 \<or> bits = 64"
  shows "doc_type d = JSMN_PRIMITIVE \<and> doc_span d = (int q, int q + int (length (dec_int i)))
    \<and> strtoul bits (drop q t) = (nat (i mod 2 ^ bits), length (dec_int i))"
proof -
  have d: "d = DPrim (int q) (int (q + length (dec_int i)))" "here t q (dec_int i)" "sep (drop (q + length (dec_int i)) t)"
    using prim_doc [OF assms(1)] dec_int_prim [of i] by (auto simp: prim_text_def)
  obtain r where r: "drop q t = dec_int i @ r" using d(2) by (auto simp: here_def)
  then have "r = drop (q + length (dec_int i)) t"
    using drop_drop [of "length (dec_int i)" q t] by (simp add: add.commute)
  then have "strtoul bits (drop q t) = (nat (i mod 2 ^ bits), length (dec_int i))"
    unfolding r using d(3) assms(2-4) by (intro strtoul_dec) auto
  then show ?thesis using d(1) by simp
qed

lemma number_tree:
  assumes "at_tree c (JObj ms)" "map_of ms key = Some (JLit (int_txt i))" "- (2 ^ 31) \<le> i" "i < 2 ^ 31"
    "bits = 32 \<or> bits = 64"
  shows "\<exists>k. json_obj_get_val_tok c key JSMN_PRIMITIVE = Some k
    \<and> strtoul bits (drop (nat (tk_start (tokens c ! k))) (js c)) = (nat (i mod 2 ^ bits), length (dec_int i))
    \<and> tk_end (tokens c ! k) = tk_start (tokens c ! k) + int (length (dec_int i))"
proof -
  have t: "int_txt i = dec_int i" using assms(3,4) by (intro int_txt_dec) auto
  obtain k d q where k: "\<And>ty. json_obj_get_val_tok c key ty = (if doc_type d = ty then Some (Suc k) else None)"
    "tree_doc (js c) (JLit (dec_int i)) q d" "(tk_start (tokens c ! Suc k), tk_end (tokens c ! Suc k)) = doc_span d"
    using get_val_tree [OF assms(1), of key] assms(2) t by auto
  show ?thesis
    using k(1,3) number_doc [OF k(2) assms(3-5)] by (intro exI [of _ "Suc k"]) auto
qed

lemma sint_word_mod:
  fixes i :: int
  assumes "- (2 ^ 31) \<le> i" "i < 2 ^ 31"
  shows "sint (word_of_nat (nat (i mod 2 ^ 32)) :: u32) = i" "sint (word_of_nat (nat (i mod 2 ^ 64)) :: 64 word) = i"
proof -
  have "(word_of_nat (nat (i mod 2 ^ 32)) :: u32) = word_of_int i"
    "(word_of_nat (nat (i mod 2 ^ 64)) :: 64 word) = word_of_int i"
    by (simp_all add: of_nat_nat word_of_int_eq_iff take_bit_eq_mod)
  then show "sint (word_of_nat (nat (i mod 2 ^ 32)) :: u32) = i" "sint (word_of_nat (nat (i mod 2 ^ 64)) :: 64 word) = i"
    using assms by (simp_all add: sint_sbintrunc' signed_take_bit_int_eq_self)
qed

lemma get_int_tree:
  assumes "at_tree c (JObj ms)" "map_of ms key = Some (JLit (int_txt i))" "- (2 ^ 31) \<le> i" "i < 2 ^ 31"
  shows "json_obj_get_int c key = Some i" "json_obj_get_int64 c key = Some i"
  using number_tree [OF assms, of 32] number_tree [OF assms, of 64] sint_word_mod [OF assms(3,4)]
  by (auto simp: json_obj_get_int_def json_tok_to_int_def json_obj_get_int64_def json_tok_to_int64_def)

lemma get_bool_digit_tree:
  assumes "at_tree c (JObj ms)" "map_of ms key = Some (JLit (int_txt (if b then 1 else 0)))"
  shows "json_obj_get_bool c key = Some b"
proof -
  have n: "int_txt (if b then 1 else 0) = (if b then ''1'' else ''0'')"
    by (simp add: int_txt_def snprintf_def dec_int_def dec_nat.simps hex_digit_def)
  obtain k d q where k: "\<And>ty. json_obj_get_val_tok c key ty = (if doc_type d = ty then Some (Suc k) else None)"
    "tree_doc (js c) (JLit (if b then ''1'' else ''0'')) q d"
    "(tk_start (tokens c ! Suc k), tk_end (tokens c ! Suc k)) = doc_span d"
    using get_val_tree [OF assms(1), of key] assms(2) n by auto
  have "d = DPrim (int q) (int (q + 1)) \<and> here (js c) q (if b then ''1'' else ''0'')"
    using prim_doc [OF k(2)] by (auto simp: prim_start_def split: if_splits)
  then show ?thesis
    using k(1,3) here_take [of "js c" q "if b then ''1'' else ''0''"]
    by (auto simp: json_obj_get_bool_def json_tok_to_bool_def token_matches_str_def split: if_splits)
qed

lemma get_none_tree:
  assumes "at_tree c (JObj ms)" "map_of ms key = None"
  shows "json_obj_get_val_tok c key ty = None" "json_obj_get_string c key sz = None"
    "json_obj_get_int c key = None" "json_obj_get_int64 c key = None"
  using get_val_tree [OF assms(1), of key] assms(2)
  by (simp_all add: json_obj_get_string_def json_obj_get_int_def json_obj_get_int64_def)

text \<open>An object that was printed as it was received.\<close>

lemma get_object_text_tree:
  assumes "at_tree c (JObj ms)" "map_of ms key = Some (JLit a)" "hd a = CHR ''{''" "a \<noteq> []"
  shows "json_obj_get_object_strlen c key = Some (int (length a))"
    "int (length a) < sz \<Longrightarrow> json_obj_get_object_str c key sz = Some a"
proof -
  obtain k d q where k: "\<And>ty. json_obj_get_val_tok c key ty = (if doc_type d = ty then Some (Suc k) else None)"
    "tree_doc (js c) (JLit a) q d" "(tk_start (tokens c ! Suc k), tk_end (tokens c ! Suc k)) = doc_span d"
    using get_val_tree [OF assms(1), of key] assms(2) by auto
  have j: "json_value a q d" "here (js c) q a" using k(2) by (auto elim: tree_litE)
  have "doc_type d = JSMN_OBJECT \<and> doc_span d = (int q, int (q + length a))"
    using j(1) assms(3,4) by cases (auto simp: prim_text_def prim_start_def)
  then show "json_obj_get_object_strlen c key = Some (int (length a))"
    "int (length a) < sz \<Longrightarrow> json_obj_get_object_str c key sz = Some a"
    using k(1,3) here_take [OF j(2)]
    by (simp_all add: json_obj_get_object_strlen_def tok_len_def json_obj_get_object_str_def json_tok_to_string_def
        substr_def)
qed

lemma arr_get_object_end:
  assumes "at_tree c (JArr vs)" "length vs \<le> n"
  shows "json_arr_get_object c n = None"
proof -
  obtain p d where d: "at_doc c d" "tree_doc (js c) (JArr vs) p d" using assms(1) by (auto simp: at_tree_def)
  have "tk_size (tokens c ! cur c) = int (length vs)" by (rule arr_size_tree [OF d])
  then show ?thesis
    using assms(2) by (simp add: json_arr_get_object_def json_arr_get_val_tok_def json_arr_search_def Let_def)
qed

lemma arr_tokens_tree: "at_tree c (JArr vs) \<Longrightarrow> length vs < length (tokens c)"
proof -
  assume "at_tree c (JArr vs)"
  then obtain p s e ds where d: "at_doc c (DArr s e ds)" "length ds = length vs"
    by (auto simp: at_tree_def elim!: tree_arrE dest: list_all2_lengthD)
  have l: "length ds \<le> length (enc_elems i j ds)" for i j
  proof (induction ds arbitrary: j)
    case (Cons d ds)
    obtain m where "length (enc (int i) j d) = Suc m" using enc_pos [of "int i" j d] gr0_implies_Suc by blast
    then show ?case using Cons.IH [of "j + length (enc (int i) j d)"] by simp
  qed simp
  obtain pre par post where "tokens c = pre @ enc par (cur c) (DArr s e ds) @ post"
    using d(1) by (auto simp: at_doc_def)
  then show ?thesis using d(2) l [of "cur c" "cur c + 1"] by simp
qed

text \<open>What the operations of the generator print are texts of the grammar.\<close>

lemma is_json_null: "is_json ''null''"
proof -
  have "prim_text ''null''" by (simp add: prim_text_def prim_start_def prim_end_def)
  then show ?thesis using value_prim by (fastforce simp: is_json_def)
qed

lemma is_json_txt [simp]:
  "str_text x \<Longrightarrow> is_json (quoted x)" "is_json (bool_txt b)" "is_json (dec_int i)"
proof -
  show "str_text x \<Longrightarrow> is_json (quoted x)"
    using value_str by (fastforce simp: is_json_def quoted_def)
  have "prim_text (bool_txt b)" by (simp add: bool_txt_def prim_text_def prim_start_def prim_end_def)
  then show "is_json (bool_txt b)" using value_prim by (fastforce simp: is_json_def)
  show "is_json (dec_int i)" using value_prim [OF dec_int_prim] by (fastforce simp: is_json_def)
qed

subsection \<open>Documents made with the generator\<close>

text \<open>
  A client of the generator builds a document with its operations: members and elements are set,
  a nested object or array is opened, filled and closed. \<open>gen_member\<close> and \<open>gen_elem\<close> make the
  calls for a given document, in the order of its members and elements. A long string is given
  in pieces.
\<close>

datatype gen_doc =
  GNull | GBool bool | GInt int | GFloat u32 | GStr "string option"
| GLong "string option" "string option list" | GObj "(string \<times> gen_doc) list" | GArr "gen_doc list"

definition gen_pieces :: "string option list \<Rightarrow> json_gen_str \<Rightarrow> json_gen_str" where
  "gen_pieces xs j = snd (json_gen_end_long_string (fold (\<lambda>x j. snd (json_gen_add_to_long_string x j)) xs j))"

fun gen_member :: "string \<Rightarrow> gen_doc \<Rightarrow> json_gen_str \<Rightarrow> json_gen_str"
  and gen_members :: "(string \<times> gen_doc) list \<Rightarrow> json_gen_str \<Rightarrow> json_gen_str"
  and gen_elem :: "gen_doc \<Rightarrow> json_gen_str \<Rightarrow> json_gen_str"
  and gen_elems :: "gen_doc list \<Rightarrow> json_gen_str \<Rightarrow> json_gen_str" where
  "gen_member k GNull j = snd (json_gen_obj_set_null k j)"
| "gen_member k (GBool b) j = snd (json_gen_obj_set_bool k b j)"
| "gen_member k (GInt i) j = snd (json_gen_obj_set_int k i j)"
| "gen_member k (GFloat v) j = snd (json_gen_obj_set_float k v j)"
| "gen_member k (GStr x) j = snd (json_gen_obj_set_string k x j)"
| "gen_member k (GLong x xs) j = gen_pieces xs (snd (json_gen_obj_start_long_string k x j))"
| "gen_member k (GObj ms) j = snd (json_gen_pop_object (gen_members ms (snd (json_gen_push_object k j))))"
| "gen_member k (GArr vs) j = snd (json_gen_pop_array (gen_elems vs (snd (json_gen_push_array k j))))"
| "gen_members [] j = j"
| "gen_members ((k, v) # ms) j = gen_members ms (gen_member k v j)"
| "gen_elem GNull j = snd (json_gen_arr_set_null j)"
| "gen_elem (GBool b) j = snd (json_gen_arr_set_bool b j)"
| "gen_elem (GInt i) j = snd (json_gen_arr_set_int i j)"
| "gen_elem (GFloat v) j = snd (json_gen_arr_set_float v j)"
| "gen_elem (GStr x) j = snd (json_gen_arr_set_string x j)"
| "gen_elem (GLong x xs) j = gen_pieces xs (snd (json_gen_arr_start_long_string x j))"
| "gen_elem (GObj ms) j = snd (json_gen_end_object (gen_members ms (snd (json_gen_start_object j))))"
| "gen_elem (GArr vs) j = snd (json_gen_end_array (gen_elems vs (snd (json_gen_start_array j))))"
| "gen_elems [] j = j"
| "gen_elems (v # vs) j = gen_elems vs (gen_elem v j)"

definition long_txt :: "string option \<Rightarrow> string option list \<Rightarrow> string" where
  "long_txt x xs = concat (map str_opt (x # xs))"

fun tree_of :: "gen_doc \<Rightarrow> jtree" where
  "tree_of GNull = JLit ''null''"
| "tree_of (GBool b) = JLit (bool_txt b)"
| "tree_of (GInt i) = JLit (int_txt i)"
| "tree_of (GFloat v) = JLit (float_txt v)"
| "tree_of (GStr x) = JLit (quoted (str_opt x))"
| "tree_of (GLong x xs) = JLit (quoted (long_txt x xs))"
| "tree_of (GObj ms) = JObj (map (\<lambda>(k, v). (k, tree_of v)) ms)"
| "tree_of (GArr vs) = JArr (map tree_of vs)"

text \<open>
  The generator copies keys and strings as they are: the caller has to escape them. Numbers are
  \<open>int\<close>s of C, and a \<open>float\<close> has to be one that is printed as a number.
\<close>

fun well_escaped :: "gen_doc \<Rightarrow> bool" where
  "well_escaped (GInt i) \<longleftrightarrow> - (2 ^ 31) \<le> i \<and> i < 2 ^ 31"
| "well_escaped (GFloat v) \<longleftrightarrow> prim_text (float_txt v)"
| "well_escaped (GStr x) \<longleftrightarrow> str_text (str_opt x)"
| "well_escaped (GLong x xs) \<longleftrightarrow> str_text (long_txt x xs)"
| "well_escaped (GObj ms) \<longleftrightarrow> list_all (\<lambda>(k, v). str_text k \<and> well_escaped v) ms"
| "well_escaped (GArr vs) \<longleftrightarrow> list_all well_escaped vs"
| "well_escaped _ \<longleftrightarrow> True"

text \<open>The operations append the print of the tree.\<close>

lemma gen_pieces_of:
  "gen_pieces xs (json_of cap T c) = json_of cap (T @ concat (map str_opt xs) @ [CHR 0x22]) c"
proof -
  have "fold (\<lambda>x j. snd (json_gen_add_to_long_string x j)) xs (json_of cap T c)
      = json_of cap (T @ concat (map str_opt xs)) c"
    by (induction xs arbitrary: T) (simp_all add: json_gen_add_to_long_string_def json_of_add)
  then show ?thesis by (simp add: gen_pieces_def json_gen_end_long_string_def json_of_add)
qed

lemma json_of_start_long [json_rules]:
  "snd (json_gen_obj_start_long_string k x (json_of cap T c))
     = json_of cap (T @ comma_txt c @ name_txt k @ [CHR 0x22] @ str_opt x) True"
  "snd (json_gen_arr_start_long_string x (json_of cap T c))
     = json_of cap (T @ comma_txt c @ [CHR 0x22] @ str_opt x) True"
  by (simp_all add: json_gen_obj_start_long_string_def json_gen_arr_start_long_string_def
      json_gen_set_long_string_def json_rules json_of_add)

lemma joined_comma: "comma_txt c @ joined (x # xs) = comma_txt c @ x @ comma_txt (xs \<noteq> []) @ joined xs"
  by (simp add: joined_Cons comma_txt_def)

abbreviation gen_texts :: "(string \<times> gen_doc) list \<Rightarrow> string list" where
  "gen_texts ms \<equiv> map (\<lambda>m. name_txt (fst m) @ jprint (tree_of (snd m))) ms"

lemma gen_of_state:
  "j = json_of cap T c \<Longrightarrow> gen_member k v j = json_of cap (T @ comma_txt c @ name_txt k @ jprint (tree_of v)) True"
  "j = json_of cap T c \<Longrightarrow> gen_members ms j
     = json_of cap (T @ comma_txt (c \<and> ms \<noteq> []) @ joined (gen_texts ms)) (c \<or> ms \<noteq> [])"
  "j = json_of cap T c \<Longrightarrow> gen_elem v j = json_of cap (T @ comma_txt c @ jprint (tree_of v)) True"
  "j = json_of cap T c \<Longrightarrow> gen_elems vs j
     = json_of cap (T @ comma_txt (c \<and> vs \<noteq> []) @ joined (map (\<lambda>v. jprint (tree_of v)) vs)) (c \<or> vs \<noteq> [])"
proof (induction k v j and ms j and v j and vs j arbitrary: T c and T c and T c and T c
    rule: gen_member_gen_members_gen_elem_gen_elems.induct)
qed (simp_all add: json_rules gen_pieces_of long_txt_def quoted_def joined_Cons comma_txt_def
  comp_def case_prod_beta)

lemmas gen_of = gen_of_state [OF refl]

lemma tree_of_printable: "well_escaped v \<Longrightarrow> printable (tree_of v)"
proof (induction v rule: tree_of.induct)
  case (3 i)
  then show ?case by (auto intro!: printable_lit simp: int_txt_dec)
next
  case (4 v)
  then have "is_json (float_txt v)" using value_prim by (fastforce simp: is_json_def)
  then show ?case by (simp add: printable_lit)
next
  case (7 ms)
  then show ?case by (auto intro!: printable_obj simp: list_all_iff) blast
next
  case (8 vs)
  then show ?case by (auto intro!: printable_arr simp: list_all_iff)
qed (auto intro!: printable_lit simp: is_json_null)

subsection \<open>Properties\<close>

text \<open>C9. The reader accepts what the generator writes. Take any object or array made with the
  generator's operations (nested as deep as one likes) whose keys and strings the caller has escaped as JSON
  demands and whose floats print as numbers. Running the operations without a buffer gives
  the size that is needed; with a buffer of that size or more the same operations write a text that
  \<open>json_parse_start\<close> accepts, and the context it returns stands at the first token and shows exactly the
  members and elements that were written.\<close>
theorem generated_text_parses:
  assumes "well_escaped v" "(\<exists>ms. v = GObj ms) \<or> (\<exists>vs. v = GArr vs)"
    "fst (json_gen_str_end (gen_elem v (json_gen_str_start False 0 False))) \<le> sz"
  shows "\<exists>txt c. json_gen_str_end (gen_elem v (json_gen_str_start True sz False)) = (int (length txt) + 1, Some txt, [])
    \<and> parse_text True txt = Some c \<and> js c = txt \<and> cur c = 0 \<and> at_tree c (tree_of v)"
proof -
  let ?T = "jprint (tree_of v)"
  have "fst (json_gen_str_end (gen_elem v (json_of None [] False))) = int (length ?T) + 1"
    by (simp add: gen_of json_rules comma_txt_def)
  then have sz: "int (length ?T) + 1 \<le> sz" using assms(3) by (simp add: json_rules)
  define n where "n = nat (sz - 1)"
  have n: "sz = int n + 1" "length ?T \<le> n" using sz by (auto simp: n_def)
  have w: "json_gen_str_end (gen_elem v (json_gen_str_start True sz False)) = (int (length ?T) + 1, Some ?T, [])"
    using n(2) by (simp add: n(1) gen_of json_rules comma_txt_def)
  have "\<forall>w. tree_of v \<noteq> JLit w" using assms(2) by auto
  from parse_tree [OF tree_of_printable [OF assms(1)] this] w show ?thesis by blast
qed

text \<open>Without the escapes the text can be refused: a string that holds a quote.\<close>

lemma unescaped_quote_refused:
  "snd (json_gen_str_end (gen_elem (GArr [GStr (Some [CHR 0x22])]) (json_gen_str_start True 10 False)))
     = (Some [CHR ''['', CHR 0x22, CHR 0x22, CHR 0x22, CHR '']''], [])
   \<and> parse_text True [CHR ''['', CHR 0x22, CHR 0x22, CHR 0x22, CHR '']''] = None"
  by code_simp

text \<open>C3. Values written with the generator are read back. In a context that shows an object, the
  accessors return for every key the value of its first member: the string, the Boolean value, the
  32-bit number, or a context that shows the object or the array (from which leaving leads back); for
  a key the object does not have they return nothing.\<close>
theorem printed_values_read_back:
  assumes "at_tree c (JObj ms)"
  shows "(map_of ms key = None \<longrightarrow> json_obj_get_val_tok c key ty = None)
    \<and> (\<forall>x. map_of ms key = Some (JLit (quoted x)) \<and> int (length x) < sz \<longrightarrow> json_obj_get_string c key sz = Some x)
    \<and> (\<forall>b. map_of ms key = Some (JLit (bool_txt b)) \<longrightarrow> json_obj_get_bool c key = Some b)
    \<and> (\<forall>i. map_of ms key = Some (JLit (int_txt i)) \<and> - (2 ^ 31) \<le> i \<and> i < 2 ^ 31 \<longrightarrow> json_obj_get_int c key = Some i)
    \<and> (\<forall>us. map_of ms key = Some (JObj us) \<longrightarrow> (\<exists>c'. json_obj_get_object c key = Some c'
         \<and> at_tree c' (JObj us) \<and> json_obj_leave_object c' = Some c))
    \<and> (\<forall>vs. map_of ms key = Some (JArr vs) \<longrightarrow> (\<exists>c'. json_obj_get_array c key = Some (int (length vs), c')
         \<and> at_tree c' (JArr vs) \<and> json_obj_leave_array c' = Some c))"
proof (intro conjI allI impI)
  show "map_of ms key = None \<Longrightarrow> json_obj_get_val_tok c key ty = None"
    using get_val_tree [OF assms, of key] by simp
qed (use get_string_tree [OF assms] get_bool_tree [OF assms] get_int_tree(1) [OF assms]
    get_object_tree [OF assms] get_array_tree [OF assms] in blast)+

definition ex_tree :: jtree where
  "ex_tree = JObj [(''a'', JObj [(''b'', JLit (int_txt (- 7)))]), (''c'', JLit (quoted ''x''))]"

lemma ex_tree_printable: "printable ex_tree"
  unfolding ex_tree_def
  by (rule printable_obj) (auto intro!: printable_obj printable_lit simp: int_txt_dec)

definition ex_gen :: gen_doc where
  "ex_gen = GObj [(''a'', GObj [(''b'', GInt (- 7))]), (''c'', GStr (Some ''x'')), (''d'', GArr [GNull, GBool True])]"

theorem generated_text_parses_witness:
  "\<exists>c. json_gen_str_end (gen_elem ex_gen (json_gen_str_start True 50 False))
      = (39, Some ''{\"a\":{\"b\":-7},\"c\":\"x\",\"d\":[null,true]}'', [])
    \<and> parse_text True ''{\"a\":{\"b\":-7},\"c\":\"x\",\"d\":[null,true]}'' = Some c \<and> at_tree c (tree_of ex_gen)"
proof -
  have "fst (json_gen_str_end (gen_elem ex_gen (json_gen_str_start False 0 False))) \<le> 50" by code_simp
  moreover have "json_gen_str_end (gen_elem ex_gen (json_gen_str_start True 50 False))
      = (39, Some ''{\"a\":{\"b\":-7},\"c\":\"x\",\"d\":[null,true]}'', [])" by code_simp
  ultimately show ?thesis
    using generated_text_parses [of ex_gen 50] by (auto simp: ex_gen_def)
qed

theorem printed_values_read_back_witness:
  "\<exists>c d. parse_text True (jprint ex_tree) = Some c \<and> json_obj_get_string c ''c'' 2 = Some ''x''
     \<and> json_obj_get_object c ''a'' = Some d \<and> json_obj_get_int d ''b'' = Some (- 7)
     \<and> json_obj_get_bool d ''c'' = None"
proof -
  obtain c where c: "parse_text True (jprint ex_tree) = Some c" "at_tree c ex_tree"
    using parse_tree [OF ex_tree_printable] by (auto simp: ex_tree_def)
  note t = printed_values_read_back [OF c(2) [unfolded ex_tree_def]]
  obtain d where d: "json_obj_get_object c ''a'' = Some d" "at_tree d (JObj [(''b'', JLit (int_txt (- 7)))])"
    using t [of "''a''"] by auto
  have "json_obj_get_string c ''c'' 2 = Some ''x''" using t [of "''c''" _ 2] by auto
  moreover have "json_obj_get_int d ''b'' = Some (- 7)" "json_obj_get_bool d ''c'' = None"
    using printed_values_read_back [OF d(2), of "''b''"]
      printed_values_read_back [OF d(2), of "''c''" JSMN_PRIMITIVE]
    by (auto simp: json_obj_get_bool_def)
  ultimately show ?thesis using c d by blast
qed

end
