(* ===== verification/Rm_Schedule_Reload.thy ===== *)
theory Rm_Schedule_Reload
  imports Rm_Schedule_Json Json_Round
begin

text \<open>
  Schedules survive a restart. What \<open>esp_rmaker_schedule_report_params\<close> publishes and the
  parameter storage keeps is the text of \<open>schedules_doc\<close>; at the next start the write callback gets
  it back with the source \<open>ESP_RMAKER_REQ_SRC_INIT\<close>. The generator, the tokenizer and the reader are
  the modelled ones, so no assumption about them is left.
\<close>

subsection \<open>What can be stored\<close>

definition storable :: "rm_sched \<Rightarrow> bool" where
  \<comment> \<open>texts that need no escape in a JSON string and fit their buffers, and an action\<close>
  "storable r \<longleftrightarrow>
     str_text (rs_name r) \<and> rs_name r \<noteq> [] \<and> length (rs_name r) \<le> MAX_NAME_LEN
     \<and> str_text (rs_id r) \<and> rs_id r \<noteq> [] \<and> length (rs_id r) \<le> MAX_ID_LEN
     \<and> (\<forall>t. rs_info r = Some t \<longrightarrow> str_text t \<and> t \<noteq> [] \<and> length t \<le> MAX_INFO_LEN)
     \<and> (\<exists>a. rs_action r = Some a \<and> is_json a \<and> a \<noteq> [] \<and> hd a = CHR ''{'')"

lemma is_json_int [simp]: "- (2 ^ 63) \<le> i \<Longrightarrow> i < 2 ^ 63 \<Longrightarrow> is_json (int_txt i)"
  by (simp add: int_txt_dec)

lemma uint_small [simp]:
  "uint (x :: u8) < 2147483648" "uint (y :: u16) < 2147483648"
  "uint (x :: u8) < 9223372036854775808" "uint (y :: u16) < 9223372036854775808"
  using uint_lt2p [of x] uint_lt2p [of y] by simp_all

lemma uint_above [simp]:
  "- 2147483648 \<le> uint (x :: 'a::len word)" "- 9223372036854775808 \<le> uint (x :: 'a::len word)"
  by (rule order_trans [OF _ uint_ge_0], simp)+

lemma int_of_int64_range: "- (2 ^ 31) \<le> int_of_int64 i" "int_of_int64 i < 2 ^ 31"
  using sint_lt [of "word_of_int i :: u32"] sint_ge [of "word_of_int i :: u32"]
  by (simp_all add: int_of_int64_def)

lemma int_of_int64_wide: "- (2 ^ 63) \<le> int_of_int64 i" "int_of_int64 i < 2 ^ 63"
  using int_of_int64_range [of i] by simp_all

lemma trigger_printable: "printable (JObj (trigger_members tr))"
  using int_of_int64_wide [of "rt_next tr"]
  by (rule_tac printable_obj)
     (auto simp: trigger_members_def int_member_def split: trigger_type.splits if_splits intro!: printable_lit is_json_int)

lemma sched_printable: "storable r \<Longrightarrow> printable (sched_doc r)"
  unfolding sched_doc_def storable_def
  using sint_lt [of "rs_flags r"] sint_ge [of "rs_flags r"]
  by (rule_tac printable_obj)
     (auto simp: int_member_def intro!: printable_lit printable_arr trigger_printable is_json_int)

lemma schedules_printable:
  "\<forall>r \<in> set (schedule_list (sched_data s)). storable (rs_heap s r) \<Longrightarrow> printable (schedules_doc s)"
  unfolding schedules_doc_def by (rule printable_arr) (auto intro: sched_printable)

subsection \<open>The trigger is read back\<close>

lemma int_of_int64_idem [simp]: "int_of_int64 (int_of_int64 i) = int_of_int64 i"
  by (simp add: int_of_int64_def)

lemma trigger_reload:
  assumes "at_tree b (JObj (trigger_members tr))"
  shows "trigger_members (read_trigger b) = trigger_members tr"
proof -
  note def = trigger_members_def int_member_def
  note int = get_int_tree(1) [OF assms] and int64 = get_int_tree(2) [OF assms]
    and none = get_none_tree(3,4) [OF assms] and bool = get_bool_digit_tree [OF assms, of _ "rt_every_year tr"]
  have ts: "int_of_int64 (int_or 0 (json_obj_get_int64 b ''ts'')) = int_of_int64 (rt_next tr)"
    if "map_of (trigger_members tr) ''ts'' \<noteq> None"
  proof -
    have "map_of (trigger_members tr) ''ts'' = Some (JLit (int_txt (int_of_int64 (rt_next tr))))"
      using that by (auto simp: def split: trigger_type.splits if_splits)
    then show ?thesis using int64 int_of_int64_range by (simp add: int_or_def)
  qed
  show ?thesis
  proof (cases "rt_type tr")
    case TRIGGER_TYPE_RELATIVE
    moreover have "json_obj_get_int b ''rsec'' = Some (uint (rt_relative_seconds tr))"
      using TRIGGER_TYPE_RELATIVE by (intro int) (simp_all add: def)
    ultimately show ?thesis using ts by (simp add: read_trigger_def def Let_def)
  next
    case TRIGGER_TYPE_DAYS_OF_WEEK
    moreover have "json_obj_get_int b ''m'' = Some (uint (rt_minutes tr))"
      "json_obj_get_int b ''d'' = Some (uint (rt_repeat_days tr))"
      using TRIGGER_TYPE_DAYS_OF_WEEK by (intro int; simp add: def)+
    moreover have "json_obj_get_int b ''rsec'' = None" "json_obj_get_int b ''dd'' = None"
      using TRIGGER_TYPE_DAYS_OF_WEEK by (intro none; simp add: def)+
    ultimately show ?thesis using ts by (simp add: read_trigger_def def Let_def int_or_def [of 0 "Some _"])
  next
    case TRIGGER_TYPE_DATE
    moreover have "json_obj_get_int b ''m'' = Some (uint (rt_minutes tr))"
      "json_obj_get_int b ''dd'' = Some (uint (rt_day tr))"
      "json_obj_get_int b ''mm'' = Some (uint (rt_repeat_months tr))"
      "json_obj_get_int b ''yy'' = Some (uint (rt_year tr))"
      using TRIGGER_TYPE_DATE by (intro int; simp add: def)+
    moreover have "json_obj_get_int b ''rsec'' = None"
      using TRIGGER_TYPE_DATE by (intro none; simp add: def)+
    moreover have "json_obj_get_bool b ''r'' = Some (rt_every_year tr)"
      using TRIGGER_TYPE_DATE by (intro bool) (simp add: def)
    ultimately show ?thesis using ts by (simp add: read_trigger_def def Let_def int_or_def [of 0 "Some _"])
  next
    case TRIGGER_TYPE_INVALID
    moreover have "json_obj_get_int b ''m'' = Some (uint (rt_minutes tr))"
      using TRIGGER_TYPE_INVALID by (intro int; simp add: def)+
    moreover have "json_obj_get_int b ''rsec'' = None" "json_obj_get_int b ''d'' = None" "json_obj_get_int b ''dd'' = None"
      using TRIGGER_TYPE_INVALID by (intro none; simp add: def)+
    ultimately show ?thesis by (simp add: read_trigger_def def Let_def int_or_def [of 0 "Some _"])
  qed
qed

subsection \<open>The other members\<close>

abbreviation (input) sched_members :: "rm_sched \<Rightarrow> (string \<times> jtree) list" where
  "sched_members r \<equiv> [(''name'', lit (Some (rs_name r))), (''id'', lit (Some (rs_id r))),
       (''enabled'', JLit (bool_txt (rs_enabled r)))]
     @ (if rs_info r \<noteq> None then [(''info'', lit (rs_info r))] else [])
     @ (if rs_flags r \<noteq> 0 then [int_member ''flags'' (sint (rs_flags r))] else [])
     @ [(''action'', JLit (str_opt (rs_action r))),
        (''triggers'', JArr [JObj (trigger_members (rs_trigger r))])]"

lemma sched_docI:
  assumes "rs_name x = rs_name r" "rs_id x = rs_id r" "rs_enabled x = rs_enabled r" "rs_info x = rs_info r"
    "rs_flags x = rs_flags r" "rs_action x = rs_action r" "trigger_members (rs_trigger x) = trigger_members (rs_trigger r)"
  shows "sched_doc x = sched_doc r"
  by (simp add: sched_doc_def assms)

lemma sched_values:
  assumes "at_tree b (sched_doc r)" "storable r"
  shows "get_string_or d b ''id'' MAX_ID_LEN = rs_id r" "get_string_or d b ''name'' MAX_NAME_LEN = rs_name r"
    "json_obj_get_bool b ''enabled'' = Some (rs_enabled r)"
    "json_obj_get_string b ''info'' (int MAX_INFO_LEN + 1) = rs_info r"
    "json_obj_get_int b ''flags'' = (if rs_flags r = 0 then None else Some (sint (rs_flags r)))"
proof -
  have t: "at_tree b (JObj (sched_members r))" using assms(1) by (simp add: sched_doc_def)
  note st = assms(2) [unfolded storable_def]
  have "json_obj_get_string b ''id'' (int MAX_ID_LEN + 1) = Some (rs_id r)"
    by (rule get_string_tree [OF t]) (use st in auto)
  moreover have "json_obj_get_string b ''name'' (int MAX_NAME_LEN + 1) = Some (rs_name r)"
    by (rule get_string_tree [OF t]) (use st in auto)
  ultimately show "get_string_or d b ''id'' MAX_ID_LEN = rs_id r" "get_string_or d b ''name'' MAX_NAME_LEN = rs_name r"
    by (simp_all add: get_string_or_def)
  show "json_obj_get_bool b ''enabled'' = Some (rs_enabled r)" by (rule get_bool_tree [OF t]) simp
  show "json_obj_get_string b ''info'' (int MAX_INFO_LEN + 1) = rs_info r"
  proof (cases "rs_info r")
    case None
    then show ?thesis using get_none_tree(2) [OF t, of "''info''"] by (simp add: int_member_def)
  next
    case (Some i)
    have "json_obj_get_string b ''info'' (int MAX_INFO_LEN + 1) = Some i"
      by (rule get_string_tree [OF t]) (use st Some in auto)
    then show ?thesis using Some by simp
  qed
  show "json_obj_get_int b ''flags'' = (if rs_flags r = 0 then None else Some (sint (rs_flags r)))"
  proof (cases "rs_flags r = 0")
    case True
    then show ?thesis using get_none_tree(3) [OF t, of "''flags''"] by simp
  next
    case False
    have "json_obj_get_int b ''flags'' = Some (sint (rs_flags r))"
      by (rule get_int_tree(1) [OF t]) (use False sint_lt [of "rs_flags r"] sint_ge [of "rs_flags r"] in \<open>simp_all add: int_member_def\<close>)
    then show ?thesis using False by simp
  qed
qed

lemma sched_trigger_read:
  assumes "at_tree b (sched_doc r)"
  shows "\<exists>t. esp_rmaker_schedule_parse_trigger b t0 = (b, t) \<and> trigger_members t = trigger_members (rs_trigger r)"
proof -
  have t: "at_tree b (JObj (sched_members r))" using assms by (simp add: sched_doc_def)
  have m: "map_of (sched_members r) ''triggers'' = Some (JArr [JObj (trigger_members (rs_trigger r))])"
    by (simp add: int_member_def)
  obtain k where k: "json_obj_get_array b ''triggers'' = Some (1, b\<lparr>cur := k\<rparr>)"
    "at_tree (b\<lparr>cur := k\<rparr>) (JArr [JObj (trigger_members (rs_trigger r))])"
    "json_obj_leave_array (b\<lparr>cur := k\<rparr>) = Some b"
    using get_array_tree [OF t m] by auto
  obtain j where j: "json_arr_get_object (b\<lparr>cur := k\<rparr>) 0 = Some (b\<lparr>cur := j\<rparr>)"
    "at_tree (b\<lparr>cur := j\<rparr>) (JObj (trigger_members (rs_trigger r)))"
    "json_arr_leave_object (b\<lparr>cur := j\<rparr>) = Some (b\<lparr>cur := k\<rparr>)"
    using arr_get_object_tree [OF k(2), of 0] by auto
  show ?thesis
    using k j trigger_reload [OF j(2)] by (simp add: esp_rmaker_schedule_parse_trigger_def or_stay_def)
qed

lemma sched_action_read:
  assumes "at_tree b (sched_doc r)" "storable r" "mem_ok s = []"
  shows "\<exists>n. snd (esp_rmaker_schedule_parse_action b k s)
     = upd_rs k (\<lambda>x. x\<lparr>rs_action_len := n, rs_action := rs_action r\<rparr>) s"
proof -
  have t: "at_tree b (JObj (sched_members r))" using assms(1) by (simp add: sched_doc_def)
  obtain a where a: "rs_action r = Some a" "a \<noteq> []" "hd a = CHR ''{''" using assms(2) by (auto simp: storable_def)
  have m: "map_of (sched_members r) ''action'' = Some (JLit a)" by (simp add: int_member_def a)
  show ?thesis
    using get_object_text_tree [OF t m a(3,2)] a(1,2) assms(3)
    by (simp add: esp_rmaker_schedule_parse_action_def Let_def upd_rs_def) (auto simp: fun_upd_def)
qed

text \<open>The new schedule has the fields of the old one.\<close>

lemma element_fields:
  assumes "at_tree b (sched_doc r)" "storable r" "mem_ok s = []" "rs_heap s k = rm_sched0\<lparr>rs_id := i, rs_name := nm, rs_index := x\<rparr>"
  shows "\<exists>t n. esp_rmaker_schedule_parse_trigger b (rs_trigger (rs_heap (snd (esp_rmaker_schedule_parse_action b k s)) k)) = (b, t)
     \<and> trigger_members t = trigger_members (rs_trigger r)
     \<and> esp_rmaker_schedule_parse_info_and_flags b k
         (upd_rs k (rs_trigger_update (\<lambda>_. t)) (snd (esp_rmaker_schedule_parse_action b k s)))
       = upd_rs k (\<lambda>_. rm_sched0\<lparr>rs_id := i, rs_name := nm, rs_index := x, rs_action_len := n, rs_action := rs_action r,
           rs_trigger := t, rs_info := rs_info r, rs_flags := rs_flags r\<rparr>) s"
proof -
  obtain n where n: "snd (esp_rmaker_schedule_parse_action b k s)
      = upd_rs k (\<lambda>x. x\<lparr>rs_action_len := n, rs_action := rs_action r\<rparr>) s"
    using sched_action_read [OF assms(1-3)] by blast
  obtain t where t: "esp_rmaker_schedule_parse_trigger b (rs_trigger (rs_heap (snd (esp_rmaker_schedule_parse_action b k s)) k)) = (b, t)"
      "trigger_members t = trigger_members (rs_trigger r)"
    using sched_trigger_read [OF assms(1)] by blast
  have info: "\<And>u. rs_info r = Some u \<Longrightarrow> u \<noteq> []" using assms(2) by (simp add: storable_def)
  have "esp_rmaker_schedule_parse_info_and_flags b k
         (upd_rs k (rs_trigger_update (\<lambda>_. t)) (snd (esp_rmaker_schedule_parse_action b k s)))
       = upd_rs k (\<lambda>_. rm_sched0\<lparr>rs_id := i, rs_name := nm, rs_index := x, rs_action_len := n, rs_action := rs_action r,
           rs_trigger := t, rs_info := rs_info r, rs_flags := rs_flags r\<rparr>) s"
    unfolding n esp_rmaker_schedule_parse_info_and_flags_def sched_values(4,5) [OF assms(1,2)]
    using assms(3) info by (cases "rs_info r") (simp_all add: upd_rs_def assms(4) Let_def rm_sched0_def)
  then show ?thesis using t by blast
qed

subsection \<open>The schedule is added\<close>

definition waiting :: "'a core_scheme \<Rightarrow> bool" where
  \<comment> \<open>the service is enabled, there is memory, and the clock has not been set\<close>
  "waiting s \<longleftrightarrow> schedule_priv_data s \<noteq> None \<and> mem_ok s = [] \<and>
     (case sync_state (sched_data s) of TIME_SYNC_NOT_STARTED \<Rightarrow> fst (ask s) \<le> REF_TIME
      | TIME_SYNC_STARTED \<Rightarrow> True | TIME_SYNC_DONE \<Rightarrow> False)"

lemma sched_data_upd:
  "schedule_priv_data s \<noteq> None \<Longrightarrow> sched_data (upd_sched_data f s) = f (sched_data s)"
  by (auto simp: sched_data_def upd_sched_data_def)

lemma fst_ask: "fst (ask s) = (case inputs s of [] \<Rightarrow> 0 | x # _ \<Rightarrow> x)"
  by (simp add: ask_def split: list.split)

lemma mem_ok_ask [simp]: "mem_ok (snd (ask s)) = mem_ok s"
  by (simp add: ask_def split: list.split)

lemma enable_waiting:
  assumes "waiting s"
  shows "waiting (snd (esp_rmaker_schedule_operation_enable lc k s))
    \<and> rs_heap (snd (esp_rmaker_schedule_operation_enable lc k s)) = (rs_heap s)(k := (rs_heap s k)\<lparr>rs_enabled := True\<rparr>)
    \<and> schedule_list (sched_data (snd (esp_rmaker_schedule_operation_enable lc k s))) = schedule_list (sched_data s)
    \<and> total_schedules (sched_data (snd (esp_rmaker_schedule_operation_enable lc k s))) = total_schedules (sched_data s)
    \<and> next_ref (snd (esp_rmaker_schedule_operation_enable lc k s)) = next_ref s"
proof -
  let ?s = "upd_rs k (rs_enabled_update (\<lambda>_. True)) s"
  have w: "schedule_priv_data s \<noteq> None" "mem_ok s = []" using assms by (auto simp: waiting_def)
  have sd: "sched_data ?s = sched_data s" "schedule_priv_data ?s = schedule_priv_data s" "mem_ok ?s = []"
    "rs_heap ?s = (rs_heap s)(k := (rs_heap s k)\<lparr>rs_enabled := True\<rparr>)" "next_ref ?s = next_ref s"
    "fst (ask ?s) = fst (ask s)"
    using w by (simp_all add: upd_rs_def sched_data_def fst_ask)
  consider "sync_state (sched_data s) = TIME_SYNC_NOT_STARTED" "fst (ask s) \<le> REF_TIME"
    | "sync_state (sched_data s) = TIME_SYNC_STARTED"
    using assms by (auto simp: waiting_def split: time_sync_state.splits)
  then show ?thesis
  proof cases
    case 1
    define u where "u = emit (Os (RtosTimerCreate ''esp_rmaker_schedule'' (TIME_SYNC_DELAY * 1000))) (snd (ask ?s))"
    have u: "schedule_priv_data u = schedule_priv_data s" "mem_ok u = []" "rs_heap u = rs_heap ?s" "next_ref u = next_ref s"
      using sd by (simp_all add: u_def)
    have "esp_rmaker_schedule_operation_enable lc k s
        = (ESP_FAIL, upd_sched_data (sync_state_update (\<lambda>_. TIME_SYNC_STARTED))
            (snd (esp_rmaker_schedule_timesync_timer_start (upd_sched_data (time_sync_timer_update (\<lambda>_. True)) u))))"
      using 1 sd u by (simp add: esp_rmaker_schedule_operation_enable_def esp_rmaker_time_check_def Let_def split_beta
        esp_rmaker_schedule_timesync_timer_init_def u_def)
    then show ?thesis
      using w(1) u sd(4)
      by (auto simp: esp_rmaker_schedule_timesync_timer_start_def sync_timer_call_def waiting_def
          upd_sched_data_def sched_data_def)
  next
    case 2
    then have "esp_rmaker_schedule_operation_enable lc k s = (ESP_FAIL, ?s)"
      using sd by (simp add: esp_rmaker_schedule_operation_enable_def)
    then show ?thesis using 2 w sd by (simp add: waiting_def)
  qed
qed

lemma create_waiting:
  assumes "mem_ok s = []" "ec_name c \<noteq> []"
  shows "\<exists>h. fst (esp_schedule_create (Some c) s) = Some h \<and> mem_ok (snd (esp_schedule_create (Some c) s)) = []
     \<and> rs_heap (snd (esp_schedule_create (Some c) s)) = rs_heap s
     \<and> schedule_priv_data (snd (esp_schedule_create (Some c) s)) = schedule_priv_data s
     \<and> inputs (snd (esp_schedule_create (Some c) s)) = inputs s
     \<and> next_ref s \<le> next_ref (snd (esp_schedule_create (Some c) s))"
  using assms
  by (simp add: esp_schedule_create_def esp_schedule_set_def esp_schedule_create_timer_def upd_es_def Let_def)


text \<open>One more schedule.\<close>

lemma perform_waiting:
  assumes "waiting s" "total_schedules (sched_data s) < MAX_SCHEDULES" "rs_id (rs_heap s k) \<noteq> []"
    "esp_rmaker_schedule_get_schedule_from_id (rs_id (rs_heap s k)) s = None"
    "s' = snd (esp_rmaker_schedule_perform_operation lc k OPERATION_ADD en s)"
  shows "\<exists>h. waiting s'
    \<and> schedule_list (sched_data s') = schedule_list (sched_data s) @ [k]
    \<and> total_schedules (sched_data s') = total_schedules (sched_data s) + 1 \<and> next_ref s \<le> next_ref s'
    \<and> rs_heap s' = (rs_heap s)(k := (rs_heap s k)\<lparr>rs_handle := h, rs_enabled := en \<or> rs_enabled (rs_heap s k)\<rparr>)"
proof -
  let ?c = "esp_rmaker_schedule_prepare_config (rs_heap s k)"
  define u where "u = snd (esp_schedule_create (Some ?c) s)"
  have w: "schedule_priv_data s \<noteq> None" "mem_ok s = []" using assms(1) by (auto simp: waiting_def)
  have "ec_name ?c \<noteq> []"
    using assms(3) by (simp add: esp_rmaker_schedule_prepare_config_def Let_def strlcpy_def MAX_SCHEDULE_NAME_LEN_def)
  from create_waiting [OF w(2) this]
  obtain h where h: "esp_schedule_create (Some ?c) s = (Some h, u)" "mem_ok u = []" "rs_heap u = rs_heap s"
    "schedule_priv_data u = schedule_priv_data s" "inputs u = inputs s" "next_ref s \<le> next_ref u"
    by (auto simp: u_def prod_eq_iff)
  define v where "v = upd_rs k (rs_handle_update (\<lambda>_. Some h)) u"
  have v: "mem_ok v = []" "schedule_priv_data v = schedule_priv_data s" "inputs v = inputs s" "next_ref v = next_ref u"
    "rs_heap v = (rs_heap s)(k := (rs_heap s k)\<lparr>rs_handle := Some h\<rparr>)"
    using h by (simp_all add: v_def upd_rs_def)
  have "same_id v i = same_id s i" for i by (rule ext) (simp add: same_id_def v(5))
  then have find: "esp_rmaker_schedule_get_schedule_from_id (rs_id (rs_heap v k)) v = None"
    using assms(4) v(2,5) by (simp add: esp_rmaker_schedule_get_schedule_from_id_def sched_data_def)
  define x where "x = upd_sched_data (\<lambda>d. d\<lparr>schedule_list := schedule_list d @ [k],
                 total_schedules := total_schedules d + 1\<rparr>) v"
  have x: "snd (esp_rmaker_schedule_operation_add k s) = x"
    using h(1) find by (simp add: esp_rmaker_schedule_operation_add_def esp_rmaker_schedule_add_def
        esp_rmaker_schedule_add_to_list_def x_def v_def [symmetric])
  have wx: "waiting x" "schedule_list (sched_data x) = schedule_list (sched_data s) @ [k]"
      "total_schedules (sched_data x) = total_schedules (sched_data s) + 1" "rs_heap x = rs_heap v" "next_ref x = next_ref u"
    using assms(1) w(1) v by (auto simp: x_def waiting_def sched_data_def upd_sched_data_def fst_ask split: time_sync_state.splits)
  have s': "s' = (if en then snd (esp_rmaker_schedule_operation_enable lc k x) else x)"
    using assms(2) x by (simp add: assms(5) esp_rmaker_schedule_perform_operation_def split_beta)
  show ?thesis
    using enable_waiting [OF wx(1), of lc k] wx h(6) v(5) unfolding s' by (intro exI [of _ "Some h"]) auto
qed

subsection \<open>The loop\<close>

text \<open>The schedules \<open>rs\<close> are those of the list, in their order, as far as the document shows them.\<close>

definition loaded :: "rm_sched list \<Rightarrow> 'a core_scheme \<Rightarrow> bool" where
  "loaded rs s \<longleftrightarrow> waiting s \<and> total_schedules (sched_data s) = int (length rs)
     \<and> list_all2 (\<lambda>r k. sched_doc (rs_heap s k) = sched_doc r \<and> rs_id (rs_heap s k) = rs_id r \<and> k < next_ref s)
         rs (schedule_list (sched_data s))"

lemma loaded_find:
  assumes "loaded rs s" "\<forall>r \<in> set rs. storable r" "length i \<le> MAX_ID_LEN" "i \<notin> rs_id ` set rs"
  shows "esp_rmaker_schedule_get_schedule_from_id i s = None"
proof -
  have "\<not> same_id s i k" if k: "k \<in> set (schedule_list (sched_data s))" for k
  proof -
    obtain j where j: "j < length (schedule_list (sched_data s))" "schedule_list (sched_data s) ! j = k"
      using k by (auto simp: in_set_conv_nth)
    then have "rs ! j \<in> set rs" "rs_id (rs_heap s k) = rs_id (rs ! j)"
      using assms(1) by (auto simp: loaded_def list_all2_conv_all_nth)
    then show ?thesis
      using assms(2-4) by (auto simp: same_id_def strncmp_eq_short storable_def MAX_ID_LEN_def)
  qed
  then show ?thesis by (auto simp: esp_rmaker_schedule_get_schedule_from_id_def find_None_iff)
qed

lemma loaded_frame:
  assumes "loaded rs s" "waiting s'" "next_ref s \<le> next_ref s'"
    "schedule_list (sched_data s') = schedule_list (sched_data s)"
    "total_schedules (sched_data s') = total_schedules (sched_data s)"
    "\<And>j. j < next_ref s \<Longrightarrow> rs_heap s' j = rs_heap s j"
  shows "loaded rs s'"
  using assms by (fastforce simp: loaded_def elim!: list_all2_mono)

lemma element_loaded:
  assumes "loaded rs s" "\<forall>r \<in> set rs. storable r" "storable r" "rs_id r \<notin> rs_id ` set rs"
    "int (length rs) < MAX_SCHEDULES" "at_tree b (sched_doc r)"
    "parse_element lc ESP_RMAKER_REQ_SRC_INIT b i en s = (b', i', en', s')"
  shows "b' = b \<and> loaded (rs @ [r]) s'"
proof -
  let ?k = "next_ref s"
  have w: "waiting s" "schedule_priv_data s \<noteq> None" "mem_ok s = []"
    using assms(1) by (auto simp: loaded_def waiting_def)
  have id: "rs_id r \<noteq> []" "length (rs_id r) \<le> MAX_ID_LEN" "rs_name r \<noteq> []" "length (rs_name r) \<le> MAX_NAME_LEN"
    using assms(3) by (auto simp: storable_def)
  note v = sched_values [OF assms(6,3)]
  have found: "esp_rmaker_schedule_get_schedule_from_id (rs_id r) s = None"
    by (rule loaded_find [OF assms(1,2) id(2) assms(4)])
  define x where "x = sched_index (sched_data s)"
  define u where "u = upd_sched_data (\<lambda>d. d\<lparr>sched_index := sched_index d + 1\<rparr>)
     (s\<lparr>next_ref := ?k + 1, rs_heap := (rs_heap s)(?k := rm_sched0\<lparr>rs_id := rs_id r, rs_name := rs_name r, rs_index := x\<rparr>)\<rparr>)"
  have fc: "esp_rmaker_schedule_find_or_create b (rs_id r) OPERATION_ADD s = (Some ?k, u)"
    using found id w(3) v(2) by (simp add: esp_rmaker_schedule_find_or_create_def Let_def u_def x_def strlcpy_id)
  have u: "mem_ok u = []" "rs_heap u ?k = rm_sched0\<lparr>rs_id := rs_id r, rs_name := rs_name r, rs_index := x\<rparr>"
    "next_ref u = ?k + 1" "\<And>j. j < ?k \<Longrightarrow> rs_heap u j = rs_heap s j"
    using w by (simp_all add: u_def upd_sched_data_def)
  obtain t n where tn: "esp_rmaker_schedule_parse_trigger b (rs_trigger (rs_heap (snd (esp_rmaker_schedule_parse_action b ?k u)) ?k)) = (b, t)"
    "trigger_members t = trigger_members (rs_trigger r)"
    and e: "esp_rmaker_schedule_parse_info_and_flags b ?k
         (upd_rs ?k (rs_trigger_update (\<lambda>_. t)) (snd (esp_rmaker_schedule_parse_action b ?k u)))
       = upd_rs ?k (\<lambda>_. rm_sched0\<lparr>rs_id := rs_id r, rs_name := rs_name r, rs_index := x, rs_action_len := n,
           rs_action := rs_action r, rs_trigger := t, rs_info := rs_info r, rs_flags := rs_flags r\<rparr>) u"
    using element_fields [OF assms(6,3) u(1,2)] by blast
  let ?new = "rm_sched0\<lparr>rs_id := rs_id r, rs_name := rs_name r, rs_index := x, rs_action_len := n,
           rs_action := rs_action r, rs_trigger := t, rs_info := rs_info r, rs_flags := rs_flags r\<rparr>"
  define y where "y = upd_rs ?k (\<lambda>_. ?new) u"
  have y: "rs_heap y ?k = ?new" "next_ref y = ?k + 1" "\<And>j. j < ?k \<Longrightarrow> rs_heap y j = rs_heap s j"
    "schedule_list (sched_data y) = schedule_list (sched_data s)"
    "total_schedules (sched_data y) = total_schedules (sched_data s)" "waiting y"
    using u(3,4) w by (auto simp: y_def upd_rs_def u_def upd_sched_data_def sched_data_def waiting_def fst_ask
        split: time_sync_state.splits)
  have ly: "loaded rs y" by (rule loaded_frame [OF assms(1)]) (use y in auto)
  define z where "z = snd (esp_rmaker_schedule_perform_operation lc ?k OPERATION_ADD (rs_enabled r) y)"
  have "parse_element lc ESP_RMAKER_REQ_SRC_INIT b i en s = (b, rs_id r, rs_enabled r, z)"
    using id(1) by (simp add: parse_element_def v(1,3) fc tn(1) e [folded y_def] z_def Let_def split_beta)
  then have out: "b' = b" "s' = z" using assms(7) by simp_all
  have fy: "esp_rmaker_schedule_get_schedule_from_id (rs_id (rs_heap y ?k)) y = None"
    using loaded_find [OF ly assms(2) id(2) assms(4)] by (simp add: y(1))
  obtain h where z: "waiting z" "schedule_list (sched_data z) = schedule_list (sched_data s) @ [?k]"
    "total_schedules (sched_data z) = total_schedules (sched_data s) + 1" "?k + 1 \<le> next_ref z"
    "rs_heap z = (rs_heap y)(?k := ?new\<lparr>rs_handle := h, rs_enabled := rs_enabled r \<or> rs_enabled ?new\<rparr>)"
    using perform_waiting [OF y(6) _ _ fy z_def] assms(1,5) id(1) y(1,2,4,5) by (auto simp: loaded_def)
  have doc: "sched_doc (rs_heap z ?k) = sched_doc r"
    by (rule sched_docI) (simp_all add: z(5) tn(2) rm_sched0_def)
  have "list_all2 (\<lambda>r k. sched_doc (rs_heap z k) = sched_doc r \<and> rs_id (rs_heap z k) = rs_id r \<and> k < next_ref z)
      rs (schedule_list (sched_data s))"
    using assms(1) y(3) z(4,5) by (fastforce simp: loaded_def elim!: list_all2_mono)
  then have "loaded (rs @ [r]) z"
    using z doc assms(1) by (simp add: loaded_def list_all2_appendI)
  then show ?thesis using out by simp
qed

lemma elements_loaded:
  assumes "at_tree c (JArr (map sched_doc rs))" "\<forall>r \<in> set rs. storable r" "distinct (map rs_id rs)"
    "int (length rs) \<le> MAX_SCHEDULES" "loaded (take n rs) s" "length rs \<le> n + f"
  shows "loaded rs (parse_elements f lc ESP_RMAKER_REQ_SRC_INIT n c i en s)"
  using assms(5,6)
proof (induction f arbitrary: n i en s)
  case 0
  then show ?case by simp
next
  case (Suc f)
  show ?case
  proof (cases "n < length rs")
    case False
    then have "json_arr_get_object c n = None" by (intro arr_get_object_end [OF assms(1)]) simp
    then show ?thesis using Suc.prems False by simp
  next
    case True
    let ?r = "rs ! n"
    have d: "map sched_doc rs ! n = JObj (sched_members ?r)" using True by (simp add: sched_doc_def)
    obtain b where b: "json_arr_get_object c n = Some b" "at_tree b (sched_doc ?r)" "json_arr_leave_object b = Some c"
      using arr_get_object_tree [OF assms(1) _ d] True by (auto simp: sched_doc_def)
    obtain b' i' en' s' where p: "parse_element lc ESP_RMAKER_REQ_SRC_INIT b i en s = (b', i', en', s')"
      by (metis prod_cases4)
    have "rs_id ?r \<notin> rs_id ` set (take n rs)"
      using assms(3) True by (auto simp: distinct_conv_nth in_set_conv_nth)
    then have e: "b' = b \<and> loaded (take n rs @ [?r]) s'"
      using assms(2,4) True by (intro element_loaded [OF Suc.prems(1) _ _ _ _ b(2) p]) (auto dest: in_set_takeD)
    then have "loaded (take (n + 1) rs) s'" using True by (simp add: take_Suc_conv_app_nth)
    then have "loaded rs (parse_elements f lc ESP_RMAKER_REQ_SRC_INIT (n + 1) c i' en' s')"
      using Suc.prems(2) by (intro Suc.IH) simp_all
    then show ?thesis using b p e by (simp add: or_stay_def)
  qed
qed

subsection \<open>Property\<close>

text \<open>C2. Schedules survive a restart. Let the node have at most ten schedules with different
  identifiers, each with an action and with texts that fit and need no escapes. If a start that has
  memory and whose clock is not set yet gets back the text that was reported, through the tokenizer
  and the accessors, then every schedule is in the list again, in the same order, and the node would
  report the same text.\<close>
theorem schedules_survive_restart:
  assumes "fst (esp_rmaker_schedule_get_params s) = Some t"
    "\<forall>k \<in> set (schedule_list (sched_data s)). storable (rs_heap s k)"
    "distinct (map (\<lambda>k. rs_id (rs_heap s k)) (schedule_list (sched_data s)))"
    "int (length (schedule_list (sched_data s))) \<le> MAX_SCHEDULES"
    "waiting u" "schedule_list (sched_data u) = []" "total_schedules (sched_data u) = 0"
    "v = snd (esp_rmaker_schedule_parse_json lc (parse_text True) t ESP_RMAKER_REQ_SRC_INIT u)"
  shows "map (\<lambda>k. rs_id (rs_heap v k)) (schedule_list (sched_data v))
      = map (\<lambda>k. rs_id (rs_heap s k)) (schedule_list (sched_data s))
    \<and> schedules_doc v = schedules_doc s \<and> fst (esp_rmaker_schedule_get_params v) = Some t"
proof -
  let ?rs = "map (rs_heap s) (schedule_list (sched_data s))"
  have t: "t = jprint (schedules_doc s)"
    using assms(1) by (auto simp: schedule_params_text split: if_splits)
  have d: "schedules_doc s = JArr (map sched_doc ?rs)" by (simp add: schedules_doc_def)
  obtain c where c: "parse_text True t = Some c" "at_tree c (JArr (map sched_doc ?rs))"
    using parse_tree [OF schedules_printable [OF assms(2)]] unfolding t d by auto
  have "loaded (take 0 ?rs) u" using assms(5-7) by (simp add: loaded_def)
  then have l: "loaded ?rs v"
    unfolding assms(8) esp_rmaker_schedule_parse_json_def c(1) option.case snd_conv
    using arr_tokens_tree [OF c(2)] assms(2-4) by (intro elements_loaded [OF c(2)]) (auto simp: comp_def)
  then have "map (\<lambda>k. sched_doc (rs_heap v k)) (schedule_list (sched_data v)) = map sched_doc ?rs"
    "map (\<lambda>k. rs_id (rs_heap v k)) (schedule_list (sched_data v)) = map rs_id ?rs"
    by (auto simp: loaded_def list_all2_conv_all_nth intro!: nth_equalityI)
  moreover from this(1) have doc: "schedules_doc v = schedules_doc s" by (simp add: schedules_doc_def comp_def)
  moreover have "fst (alloc v)" using l by (simp add: loaded_def waiting_def)
  ultimately show ?thesis
    unfolding schedule_params_text t doc by (simp add: comp_def)
qed

definition ex_stored :: core where
  "ex_stored = ex_core\<lparr>mem_ok := [], schedule_priv_data := Some (sched_priv0\<lparr>schedule_list := [7], total_schedules := 1\<rparr>),
     rs_heap := (\<lambda>_. rm_sched0)(7 := rm_sched0\<lparr>rs_id := ''a1'', rs_name := ''Night'', rs_enabled := True,
       rs_action := Some ''{\"Light\":{\"Power\":false}}'',
       rs_trigger := rm_trigger0\<lparr>rt_type := TRIGGER_TYPE_DAYS_OF_WEEK, rt_minutes := 1380, rt_repeat_days := 31\<rparr>\<rparr>)\<rparr>"

definition ex_started :: core where
  "ex_started = ex_core\<lparr>schedule_priv_data := Some sched_priv0, mem_ok := [], inputs := [5]\<rparr>"

lemma ex_action_json: "is_json ''{\"Light\":{\"Power\":false}}''"
proof -
  have "is_json (jprint (JObj [(''Light'', JObj [(''Power'', JLit (bool_txt False))])]))"
    by (rule printable_is_json) (auto intro!: printable_obj printable_lit)
  then show ?thesis by (simp add: joined_def name_txt_def bool_txt_def)
qed

theorem schedules_survive_restart_witness:
  "\<exists>t. fst (esp_rmaker_schedule_get_params ex_stored) = Some t
     \<and> (let v = snd (esp_rmaker_schedule_parse_json (zone 0) (parse_text True) t ESP_RMAKER_REQ_SRC_INIT ex_started)
        in map (\<lambda>k. rs_id (rs_heap v k)) (schedule_list (sched_data v)) = [''a1'']
           \<and> fst (esp_rmaker_schedule_get_params v) = Some t)"
proof -
  have l: "schedule_list (sched_data ex_stored) = [7]" by (simp add: ex_stored_def sched_data_def)
  have st: "storable (rs_heap ex_stored 7)"
    by (simp add: ex_stored_def storable_def ex_action_json MAX_NAME_LEN_def MAX_ID_LEN_def rm_sched0_def)
  have id: "rs_id (rs_heap ex_stored 7) = ''a1''" by (simp add: ex_stored_def)
  obtain t where t: "fst (esp_rmaker_schedule_get_params ex_stored) = Some t"
    unfolding schedule_params_text by (simp add: ex_stored_def)
  have w: "waiting ex_started" "schedule_list (sched_data ex_started) = []" "total_schedules (sched_data ex_started) = 0"
    by (simp_all add: ex_started_def waiting_def sched_data_def sched_priv0_def REF_TIME_def)
  show ?thesis
    using schedules_survive_restart [OF t _ _ _ w refl, of "zone 0"] t l st id
    by (simp add: MAX_SCHEDULES_def Let_def)
qed

end
