(* ===== verification/Esp_Schedule_Nvs.thy ===== *)
theory Esp_Schedule_Nvs
  imports Esp_Schedule "HOL-Library.Sublist" "HOL-Library.AList"
begin

text \<open>
  The storage of the schedule engine, \<open>esp_schedule/src/esp_schedule_nvs.c\<close>, and the operations
  of \<open>esp_schedule.c\<close> with the storage switched on. The program runs the engine without it
  (\<open>esp_schedule_init(false, ...)\<close>); \<open>storage_off_same\<close> shows that these operations then are
  those of \<open>Esp_Schedule\<close>.

  The NVS driver of the SDK is an argument: a record of the functions the code calls, over a
  store of any type. \<open>nvs_laws\<close> states what its documentation promises, through the content the
  driver holds at a place (a partition and a namespace); every call may fail, and a failing one
  changes nothing (clearing a namespace may stop half way). The code never calls
  \<open>nvs_commit\<close>: the content is the driver's, of which the SDK only promises to flush
  committed values. A blob is the image of an \<open>esp_schedule_t\<close>, with the pointers it had when it
  was written. An access past the end of \<open>handle_list\<close> has no result (\<open>None\<close>).
\<close>

subsection \<open>The driver\<close>

datatype nvs_open_mode = NVS_READONLY | NVS_READWRITE

record 'n nvs_driver =
  drv_open :: "string option \<Rightarrow> string \<Rightarrow> nvs_open_mode \<Rightarrow> 'n \<Rightarrow> esp_err \<times> nat \<times> 'n"
  drv_get_blob :: "nat \<Rightarrow> string \<Rightarrow> 'n \<Rightarrow> esp_err \<times> esp_sched \<times> 'n"
  drv_set_blob :: "nat \<Rightarrow> string \<Rightarrow> esp_sched \<Rightarrow> 'n \<Rightarrow> esp_err \<times> 'n"
  drv_get_u8 :: "nat \<Rightarrow> string \<Rightarrow> 'n \<Rightarrow> esp_err \<times> u8 \<times> 'n"
  drv_set_u8 :: "nat \<Rightarrow> string \<Rightarrow> u8 \<Rightarrow> 'n \<Rightarrow> esp_err \<times> 'n"
  drv_erase_key :: "nat \<Rightarrow> string \<Rightarrow> 'n \<Rightarrow> esp_err \<times> 'n"
  drv_erase_all :: "nat \<Rightarrow> 'n \<Rightarrow> esp_err \<times> 'n"
  drv_close :: "nat \<Rightarrow> 'n \<Rightarrow> 'n"
  drv_entries :: "string option \<Rightarrow> string \<Rightarrow> 'n \<Rightarrow> string list"
    \<comment> \<open>the keys that \<open>nvs_entry_find\<close> and \<open>nvs_entry_next\<close> yield for blobs\<close>

definition ESP_ERR_NVS_NOT_FOUND :: esp_err where "ESP_ERR_NVS_NOT_FOUND = 0x1102"

definition ESP_SCHEDULE_NVS_NAMESPACE :: string where "ESP_SCHEDULE_NVS_NAMESPACE = ''schd''"

definition ESP_SCHEDULE_COUNT_KEY :: string where "ESP_SCHEDULE_COUNT_KEY = ''schd_count''"

text \<open>The module's static variables and the store.\<close>

record 'n esn = core +
  nvs_partition :: "string option" \<comment> \<open>\<open>esp_schedule_nvs_partition\<close>\<close>
  nvs_enabled :: bool
  nvs_store :: 'n

subsection \<open>The operations of the storage\<close>

text \<open>The part of \<open>esp_schedule_nvs_add\<close> that talks to the driver.\<close>

definition nvs_add :: "'n nvs_driver \<Rightarrow> string option \<Rightarrow> esp_sched \<Rightarrow> 'n \<Rightarrow> esp_err \<times> 'n" where
  "nvs_add d p schedule n =
     (let (err, nvs_handle, n) = drv_open d p ESP_SCHEDULE_NVS_NAMESPACE NVS_READWRITE n
      in if err \<noteq> ESP_OK then (err, n)
         else
           let (err, _, n) = drv_get_blob d nvs_handle (es_name schedule) n
           in if err \<noteq> ESP_OK \<and> err \<noteq> ESP_ERR_NVS_NOT_FOUND then (err, drv_close d nvs_handle n)
              else
                let editing_schedule = (err = ESP_OK);
                    (err, n) = drv_set_blob d nvs_handle (es_name schedule) schedule n
                in if err \<noteq> ESP_OK then (err, drv_close d nvs_handle n)
                   else if editing_schedule then (ESP_OK, drv_close d nvs_handle n)
                   else
                     let (err, schedule_count, n) = drv_get_u8 d nvs_handle ESP_SCHEDULE_COUNT_KEY n
                     in if err \<noteq> ESP_OK then (err, drv_close d nvs_handle n)
                        else
                          let (err, n) = drv_set_u8 d nvs_handle ESP_SCHEDULE_COUNT_KEY (schedule_count + 1) n
                          in if err \<noteq> ESP_OK then (err, drv_close d nvs_handle n)
                             else (ESP_OK, drv_close d nvs_handle n))"

definition nvs_remove_all :: "'n nvs_driver \<Rightarrow> string option \<Rightarrow> 'n \<Rightarrow> esp_err \<times> 'n" where
  "nvs_remove_all d p n =
     (let (err, nvs_handle, n) = drv_open d p ESP_SCHEDULE_NVS_NAMESPACE NVS_READWRITE n
      in if err \<noteq> ESP_OK then (err, n)
         else
           let (err, n) = drv_erase_all d nvs_handle n
           in if err \<noteq> ESP_OK then (err, drv_close d nvs_handle n)
              else
                let (err, n) = drv_set_u8 d nvs_handle ESP_SCHEDULE_COUNT_KEY 0 n
                in if err \<noteq> ESP_OK then (err, drv_close d nvs_handle n)
                   else (ESP_OK, drv_close d nvs_handle n))"

definition nvs_remove :: "'n nvs_driver \<Rightarrow> string option \<Rightarrow> esp_sched \<Rightarrow> 'n \<Rightarrow> esp_err \<times> 'n" where
  "nvs_remove d p schedule n =
     (let (err, nvs_handle, n) = drv_open d p ESP_SCHEDULE_NVS_NAMESPACE NVS_READWRITE n
      in if err \<noteq> ESP_OK then (err, n)
         else
           let (err, n) = drv_erase_key d nvs_handle (es_name schedule) n
           in if err \<noteq> ESP_OK then (err, drv_close d nvs_handle n)
              else
                let (err, schedule_count, n) = drv_get_u8 d nvs_handle ESP_SCHEDULE_COUNT_KEY n
                in if err \<noteq> ESP_OK then (err, drv_close d nvs_handle n)
                   else
                     let (err, n) = drv_set_u8 d nvs_handle ESP_SCHEDULE_COUNT_KEY (schedule_count - 1) n
                     in if err \<noteq> ESP_OK then (err, drv_close d nvs_handle n)
                        else (ESP_OK, drv_close d nvs_handle n))"

definition nvs_get_count :: "'n nvs_driver \<Rightarrow> string option \<Rightarrow> 'n \<Rightarrow> u8 \<times> 'n" where
  "nvs_get_count d p n =
     (let (err, nvs_handle, n) = drv_open d p ESP_SCHEDULE_NVS_NAMESPACE NVS_READWRITE n
      in if err \<noteq> ESP_OK then (0, n)
         else
           let (err, schedule_count, n) = drv_get_u8 d nvs_handle ESP_SCHEDULE_COUNT_KEY n
           in if err \<noteq> ESP_OK then (0, drv_close d nvs_handle n)
              else (schedule_count, drv_close d nvs_handle n))"

definition in_store :: "('n \<Rightarrow> 'r \<times> 'n) \<Rightarrow> ('n, 'z) esn_scheme \<Rightarrow> 'r \<times> ('n, 'z) esn_scheme" where
  "in_store f s = (let (r, n) = f (nvs_store s) in (r, s\<lparr>nvs_store := n\<rparr>))"

definition esp_schedule_nvs_add ::
  "'n nvs_driver \<Rightarrow> nat \<Rightarrow> ('n, 'z) esn_scheme \<Rightarrow> esp_err \<times> ('n, 'z) esn_scheme" where
  "esp_schedule_nvs_add d h s =
     (if \<not> nvs_enabled s then (ESP_ERR_INVALID_STATE, s)
      else in_store (nvs_add d (nvs_partition s) (es_heap s h)) s)"

definition esp_schedule_nvs_remove_all ::
  "'n nvs_driver \<Rightarrow> ('n, 'z) esn_scheme \<Rightarrow> esp_err \<times> ('n, 'z) esn_scheme" where
  "esp_schedule_nvs_remove_all d s =
     (if \<not> nvs_enabled s then (ESP_ERR_INVALID_STATE, s)
      else in_store (nvs_remove_all d (nvs_partition s)) s)"

definition esp_schedule_nvs_remove ::
  "'n nvs_driver \<Rightarrow> nat \<Rightarrow> ('n, 'z) esn_scheme \<Rightarrow> esp_err \<times> ('n, 'z) esn_scheme" where
  "esp_schedule_nvs_remove d h s =
     (if \<not> nvs_enabled s then (ESP_ERR_INVALID_STATE, s)
      else in_store (nvs_remove d (nvs_partition s) (es_heap s h)) s)"

definition esp_schedule_nvs_get_count ::
  "'n nvs_driver \<Rightarrow> ('n, 'z) esn_scheme \<Rightarrow> u8 \<times> ('n, 'z) esn_scheme" where
  "esp_schedule_nvs_get_count d s =
     (if \<not> nvs_enabled s then (0, s) else in_store (nvs_get_count d (nvs_partition s)) s)"

definition esp_schedule_nvs_get ::
  "'n nvs_driver \<Rightarrow> string \<Rightarrow> ('n, 'z) esn_scheme \<Rightarrow> nat option \<times> ('n, 'z) esn_scheme" where
  "esp_schedule_nvs_get d nvs_key s =
     (if \<not> nvs_enabled s then (None, s)
      else
        let (err, nvs_handle, n) =
              drv_open d (nvs_partition s) ESP_SCHEDULE_NVS_NAMESPACE NVS_READONLY (nvs_store s);
            s = s\<lparr>nvs_store := n\<rparr>
        in if err \<noteq> ESP_OK then (None, s)
           else
             let (err, _, n) = drv_get_blob d nvs_handle nvs_key (nvs_store s);
                 s = s\<lparr>nvs_store := n\<rparr>
             in if err \<noteq> ESP_OK then (None, s\<lparr>nvs_store := drv_close d nvs_handle (nvs_store s)\<rparr>)
                else
                  let (ok, s) = alloc s
                  in if \<not> ok then (None, s\<lparr>nvs_store := drv_close d nvs_handle (nvs_store s)\<rparr>)
                     else
                       let h = next_ref s; s = s\<lparr>next_ref := h + 1\<rparr>;
                           (err, schedule, n) = drv_get_blob d nvs_handle nvs_key (nvs_store s);
                           s = s\<lparr>nvs_store := drv_close d nvs_handle n\<rparr>
                       in if err \<noteq> ESP_OK then (None, s)
                          else (Some h, s\<lparr>es_heap := (es_heap s)(h := schedule)\<rparr>))"

text \<open>
  The loop over the entries: \<open>cap\<close> is the number of cells of \<open>handle_list\<close>, \<open>hs\<close> the handles
  stored so far. The cell is written before the handle is tested.
\<close>

fun load_entries ::
  "'n nvs_driver \<Rightarrow> nat \<Rightarrow> string list \<Rightarrow> nat list \<Rightarrow> ('n, 'z) esn_scheme
     \<Rightarrow> (nat list \<times> ('n, 'z) esn_scheme) option" where
  "load_entries d cap [] hs s = Some (hs, s)"
| "load_entries d cap (k # ks) hs s =
     (let (handle, s) = esp_schedule_nvs_get d k s
      in if cap \<le> length hs then None
         else load_entries d cap ks (case handle of None \<Rightarrow> hs | Some h \<Rightarrow> hs @ [h]) s)"

text \<open>The result is the list, \<open>*schedule_count\<close> and the state; the argument \<open>n0\<close> is its old value.\<close>

definition esp_schedule_nvs_get_all ::
  "'n nvs_driver \<Rightarrow> u8 \<Rightarrow> ('n, 'z) esn_scheme
     \<Rightarrow> (nat list option \<times> u8 \<times> ('n, 'z) esn_scheme) option" where
  "esp_schedule_nvs_get_all d n0 s =
     (if \<not> nvs_enabled s then Some (None, n0, s)
      else
        let (nb, s) = esp_schedule_nvs_get_count d s
        in if nb = 0 then Some (None, nb, s)
           else
             let (ok, s) = alloc s
             in if \<not> ok then Some (None, 0, s)
                else
                  let ks = drv_entries d (nvs_partition s) ESP_SCHEDULE_NVS_NAMESPACE (nvs_store s)
                  in if ks = [] then Some (None, nb, s)
                     else case load_entries d (unat nb) ks [] s of
                            None \<Rightarrow> None
                          | Some (hs, s) \<Rightarrow> Some (Some hs, word_of_nat (length hs), s))"

definition esp_schedule_nvs_is_enabled :: "('n, 'z) esn_scheme \<Rightarrow> bool" where
  "esp_schedule_nvs_is_enabled s = nvs_enabled s"

definition esp_schedule_nvs_init ::
  "string option \<Rightarrow> ('n, 'z) esn_scheme \<Rightarrow> esp_err \<times> ('n, 'z) esn_scheme" where
  "esp_schedule_nvs_init part s =
     (if nvs_enabled s then (ESP_OK, s)
      else
        let (ok, s) = alloc s;
            s = s\<lparr>nvs_partition :=
              (if ok then Some (case part of Some p \<Rightarrow> p | None \<Rightarrow> ''nvs'') else None)\<rparr>
        in if nvs_partition s = None then (ESP_ERR_NO_MEM, s)
           else (ESP_OK, s\<lparr>nvs_enabled := True\<rparr>))"

subsection \<open>The operations of the engine with the storage\<close>

definition create_timer_stored ::
  "libc \<Rightarrow> nat \<Rightarrow> ('n, 'z) esn_scheme \<Rightarrow> ('n, 'z) esn_scheme" where
  "create_timer_stored lc h s =
     (let s = (if esp_schedule_nvs_is_enabled s then
                 let (diff, s) = esp_schedule_get_next_schedule_time_diff lc h s
                 in upd_es h (es_time_diff_update (\<lambda>_. diff)) s
               else s)
      in esp_schedule_create_timer h s)"

definition set_stored ::
  "'n nvs_driver \<Rightarrow> nat \<Rightarrow> esp_config \<Rightarrow> ('n, 'z) esn_scheme \<Rightarrow> esp_err \<times> ('n, 'z) esn_scheme" where
  "set_stored d h c s =
     (let (_, s) = esp_schedule_set h c s; (_, s) = esp_schedule_nvs_add d h s in (ESP_OK, s))"

definition edit_stored ::
  "'n nvs_driver \<Rightarrow> nat option \<Rightarrow> esp_config option \<Rightarrow> ('n, 'z) esn_scheme
     \<Rightarrow> esp_err \<times> ('n, 'z) esn_scheme" where
  "edit_stored d handle schedule_config s =
     (case (handle, schedule_config) of
        (Some h, Some c) \<Rightarrow>
          if \<not> strncmp_eq (es_name (es_heap s h)) (ec_name c) (MAX_SCHEDULE_NAME_LEN + 1)
          then (ESP_FAIL, s)
          else
            let s = (if et_type (es_trigger (es_heap s h)) = ESP_SCHEDULE_TYPE_RELATIVE
                     then upd_trigger h (et_next_utc_update (\<lambda>_. 0)) s else s);
                (_, s) = set_stored d h c s
            in (ESP_OK, s)
      | _ \<Rightarrow> (ESP_ERR_INVALID_ARG, s))"

definition delete_stored ::
  "'n nvs_driver \<Rightarrow> nat option \<Rightarrow> ('n, 'z) esn_scheme \<Rightarrow> esp_err \<times> ('n, 'z) esn_scheme" where
  "delete_stored d handle s =
     (case handle of None \<Rightarrow> (ESP_ERR_INVALID_ARG, s)
      | Some h \<Rightarrow>
          let s = (if es_timer (es_heap s h)
                   then esp_schedule_delete_timer h (esp_schedule_stop_timer h s) else s);
              (_, s) = esp_schedule_nvs_remove d h s
          in (ESP_OK, s))"

definition create_stored ::
  "libc \<Rightarrow> 'n nvs_driver \<Rightarrow> esp_config option \<Rightarrow> ('n, 'z) esn_scheme
     \<Rightarrow> nat option \<times> ('n, 'z) esn_scheme" where
  "create_stored lc d schedule_config s =
     (case schedule_config of None \<Rightarrow> (None, s)
      | Some c \<Rightarrow>
          if length (ec_name c) \<le> 0 then (None, s)
          else
            let (ok, s) = alloc s
            in if \<not> ok then (None, s)
               else
                 let h = next_ref s;
                     s = s\<lparr>next_ref := h + 1, es_heap := (es_heap s)
                       (h := esp_sched0\<lparr>es_name := strlcpy (ec_name c) (MAX_SCHEDULE_NAME_LEN + 1)\<rparr>)\<rparr>;
                     (_, s) = set_stored d h c s
                 in (Some h, create_timer_stored lc h s))"

text \<open>
  The loop of \<open>esp_schedule_init\<close>: an expired schedule is deleted and the last handle takes its
  place. The array keeps its cells, \<open>hs\<close> are the first \<open>*schedule_count\<close> of them.
\<close>

function start_loaded ::
  "libc \<Rightarrow> (('n, 'z) esn_ext) es_callbacks \<Rightarrow> 'n nvs_driver \<Rightarrow> nat list \<Rightarrow> nat
     \<Rightarrow> ('n, 'z) esn_scheme \<Rightarrow> nat list \<times> ('n, 'z) esn_scheme" where
  "start_loaded lc cbs d hs i s =
     (if length hs \<le> i then (hs, s)
      else
        let h = hs ! i;
            s = upd_es h (\<lambda>e. e\<lparr>es_trigger_cb := None, es_timer := False\<rparr>) s;
            (expired, s) = esp_schedule_is_expired lc h s
        in if expired then
             let (_, s) = delete_stored d (Some h) s
             in start_loaded lc cbs d (butlast (hs[i := last hs])) i s
           else
             let s = create_timer_stored lc h s
             in start_loaded lc cbs d hs (i + 1) (esp_schedule_start_timer lc cbs h s))"
  by auto
termination
  by (relation "measure (\<lambda>(lc, cbs, d, hs, i, s). length hs - i)") auto

definition init_stored ::
  "libc \<Rightarrow> (('n, 'z) esn_ext) es_callbacks \<Rightarrow> 'n nvs_driver \<Rightarrow> bool \<Rightarrow> string option \<Rightarrow> u8
     \<Rightarrow> ('n, 'z) esn_scheme \<Rightarrow> (nat list option \<times> u8 \<times> ('n, 'z) esn_scheme) option" where
  "init_stored lc cbs d enable_nvs part n0 s =
     (let s = esp_schedule_init s
      in if \<not> enable_nvs then Some (None, n0, s)
         else
           let (_, s) = esp_schedule_nvs_init part s
           in case esp_schedule_nvs_get_all d 0 s of
                None \<Rightarrow> None
              | Some (None, nb, s) \<Rightarrow> Some (None, nb, s)
              | Some (Some hs, _, s) \<Rightarrow>
                  let (hs, s) = start_loaded lc cbs d hs 0 s
                  in Some (Some hs, word_of_nat (length hs), s))"

subsection \<open>What the driver promises\<close>

datatype nvs_value = NvsBlob esp_sched | NvsU8 u8

text \<open>The partition and the namespace, and the keys with their values that are stored there.\<close>

type_synonym nvs_place = "string option \<times> string"
type_synonym nvs_content = "string \<Rightarrow> nvs_value option"

definition blobs :: "nvs_content \<Rightarrow> string set" where
  "blobs c = {k. \<exists>b. c k = Some (NvsBlob b)}"

text \<open>
  The driver \<open>d\<close> is correct for the content \<open>view\<close> and the table \<open>opened\<close> of its handles: a
  call answers \<open>ESP_OK\<close> only if it did what it says, and \<open>ESP_ERR_NVS_NOT_FOUND\<close> to a read only
  if there is no value of that type; otherwise nothing changes.
\<close>

definition reads_at :: "('n \<Rightarrow> nvs_place \<Rightarrow> nvs_content) \<Rightarrow> ('n \<Rightarrow> nat \<Rightarrow> nvs_place option) \<Rightarrow>
    (nat \<Rightarrow> string \<Rightarrow> 'n \<Rightarrow> esp_err \<times> 'v \<times> 'n) \<Rightarrow> ('v \<Rightarrow> nvs_value) \<Rightarrow> bool" where
  "reads_at view opened rd mk \<longleftrightarrow>
     (\<forall>h k n err v n'. rd h k n = (err, v, n') \<longrightarrow> view n' = view n \<and> opened n' = opened n \<and>
        (\<forall>a. opened n h = Some a \<longrightarrow>
           (err = ESP_OK \<longrightarrow> view n a k = Some (mk v)) \<and>
           (err = ESP_ERR_NVS_NOT_FOUND \<longrightarrow> (\<nexists>v. view n a k = Some (mk v)))))"

definition writes_at :: "('n \<Rightarrow> nvs_place \<Rightarrow> nvs_content) \<Rightarrow> ('n \<Rightarrow> nat \<Rightarrow> nvs_place option) \<Rightarrow>
    (nat \<Rightarrow> string \<Rightarrow> 'n \<Rightarrow> esp_err \<times> 'n) \<Rightarrow> nvs_value option \<Rightarrow> bool" where
  "writes_at view opened wr v \<longleftrightarrow>
     (\<forall>h k n err n' a. wr h k n = (err, n') \<longrightarrow> opened n h = Some a \<longrightarrow> opened n' = opened n \<and>
        view n' = (if err = ESP_OK then (view n)(a := (view n a)(k := v)) else view n))"

definition nvs_laws ::
  "'n nvs_driver \<Rightarrow> ('n \<Rightarrow> nvs_place \<Rightarrow> nvs_content) \<Rightarrow> ('n \<Rightarrow> nat \<Rightarrow> nvs_place option) \<Rightarrow> bool" where
  "nvs_laws d view opened \<longleftrightarrow>
     (\<forall>p ns m n err h n'. drv_open d p ns m n = (err, h, n') \<longrightarrow>
        view n' = view n \<and> (err = ESP_OK \<longrightarrow> opened n' h = Some (p, ns))) \<and>
     reads_at view opened (drv_get_blob d) NvsBlob \<and> reads_at view opened (drv_get_u8 d) NvsU8 \<and>
     (\<forall>b. writes_at view opened (\<lambda>h k. drv_set_blob d h k b) (Some (NvsBlob b))) \<and>
     (\<forall>c. writes_at view opened (\<lambda>h k. drv_set_u8 d h k c) (Some (NvsU8 c))) \<and>
     writes_at view opened (drv_erase_key d) None \<and>
     (\<forall>h k n n' a. drv_erase_key d h k n = (ESP_OK, n') \<longrightarrow> opened n h = Some a \<longrightarrow> view n a k \<noteq> None) \<and>
     (\<forall>h n err n' a. drv_erase_all d h n = (err, n') \<longrightarrow> opened n h = Some a \<longrightarrow> opened n' = opened n \<and>
        (err = ESP_OK \<longrightarrow> view n' = (view n)(a := Map.empty))) \<and>
     (\<forall>h n. view (drv_close d h n) = view n) \<and>
     (\<forall>p ns n. distinct (drv_entries d p ns n) \<and> set (drv_entries d p ns n) = blobs (view n (p, ns)))"

lemma nvs_openD:
  assumes "nvs_laws d view opened" "drv_open d p ns m n = (err, h, n')"
  shows "view n' = view n" "err = ESP_OK \<Longrightarrow> opened n' h = Some (p, ns)"
  using assms unfolding nvs_laws_def by metis+

lemma reads_atD:
  assumes "reads_at view opened rd mk" "rd h k n = (err, v, n')"
  shows "view n' = view n" "opened n' = opened n"
    "opened n h = Some a \<Longrightarrow> err = ESP_OK \<Longrightarrow> view n a k = Some (mk v)"
    "opened n h = Some a \<Longrightarrow> err = ESP_ERR_NVS_NOT_FOUND \<Longrightarrow> view n a k \<noteq> Some (mk w)"
  using assms unfolding reads_at_def by metis+

lemma nvs_readD:
  assumes "nvs_laws d view opened"
  shows "reads_at view opened (drv_get_blob d) NvsBlob" "reads_at view opened (drv_get_u8 d) NvsU8"
  using assms unfolding nvs_laws_def by auto

lemma nvs_writeD:
  assumes "nvs_laws d view opened" "opened n h = Some a"
  shows "drv_set_blob d h k b n = (err, n') \<Longrightarrow> opened n' = opened n \<and>
      view n' = (if err = ESP_OK then (view n)(a := (view n a)(k \<mapsto> NvsBlob b)) else view n)"
    "drv_set_u8 d h k c n = (err, n') \<Longrightarrow> opened n' = opened n \<and>
      view n' = (if err = ESP_OK then (view n)(a := (view n a)(k \<mapsto> NvsU8 c)) else view n)"
    "drv_erase_key d h k n = (err, n') \<Longrightarrow> opened n' = opened n \<and> (err = ESP_OK \<longrightarrow> view n a k \<noteq> None) \<and>
      view n' = (if err = ESP_OK then (view n)(a := (view n a)(k := None)) else view n)"
    "drv_erase_all d h n = (err, n') \<Longrightarrow> opened n' = opened n \<and>
      (err = ESP_OK \<longrightarrow> view n' = (view n)(a := Map.empty))"
  using assms unfolding nvs_laws_def writes_at_def by metis+

lemma nvs_closeD: "nvs_laws d view opened \<Longrightarrow> view (drv_close d h n) = view n"
  unfolding nvs_laws_def by blast

lemma nvs_entriesD:
  "nvs_laws d view opened \<Longrightarrow> distinct (drv_entries d p ns n)"
  "nvs_laws d view opened \<Longrightarrow> set (drv_entries d p ns n) = blobs (view n (p, ns))"
  unfolding nvs_laws_def by blast+

subsection \<open>What an operation leaves in the store\<close>

abbreviation (input) schd :: "string option \<Rightarrow> nvs_place" where
  "schd p \<equiv> (p, ESP_SCHEDULE_NVS_NAMESPACE)"

text \<open>
  What adding leaves at the place: the schedule is written before the count is read, so that an
  error in the second half leaves a schedule that is not counted.
\<close>

definition add_left :: "nvs_content \<Rightarrow> esp_sched \<Rightarrow> esp_err \<Rightarrow> nvs_content \<Rightarrow> bool" where
  "add_left c e err c' \<longleftrightarrow>
     (let c1 = c(es_name e \<mapsto> NvsBlob e)
      in if err = ESP_OK then
           (if es_name e \<in> blobs c then c' = c1
            else \<exists>n. c1 ESP_SCHEDULE_COUNT_KEY = Some (NvsU8 n)
                   \<and> c' = c1(ESP_SCHEDULE_COUNT_KEY \<mapsto> NvsU8 (n + 1)))
         else c' = c \<or> c' = c1)"

lemma nvs_add_left:
  assumes laws: "nvs_laws d view opened" and run: "nvs_add d p e n = (err, n')"
  shows "add_left (view n (schd p)) e err (view n' (schd p)) \<and> (\<forall>a. a \<noteq> schd p \<longrightarrow> view n' a = view n a)"
proof -
  let ?a = "schd p"
  obtain e1 h n1 where o: "drv_open d p ESP_SCHEDULE_NVS_NAMESPACE NVS_READWRITE n = (e1, h, n1)"
    by (metis prod_cases3)
  obtain e2 b n2 where g: "drv_get_blob d h (es_name e) n1 = (e2, b, n2)" by (metis prod_cases3)
  obtain e3 n3 where w: "drv_set_blob d h (es_name e) e n2 = (e3, n3)" by fastforce
  obtain e4 c n4 where gc: "drv_get_u8 d h ESP_SCHEDULE_COUNT_KEY n3 = (e4, c, n4)" by (metis prod_cases3)
  obtain e5 n5 where wc: "drv_set_u8 d h ESP_SCHEDULE_COUNT_KEY (c + 1) n4 = (e5, n5)" by fastforce
  note oD = nvs_openD [OF laws o]
  note gD = reads_atD [OF nvs_readD(1) [OF laws] g]
  note gcD = reads_atD [OF nvs_readD(2) [OF laws] gc]
  note cl = nvs_closeD [OF laws]
  have nf: "ESP_ERR_NVS_NOT_FOUND \<noteq> ESP_OK" by (simp add: ESP_ERR_NVS_NOT_FOUND_def)
  consider "e1 \<noteq> ESP_OK" | "e1 = ESP_OK" "e2 \<noteq> ESP_OK" "e2 \<noteq> ESP_ERR_NVS_NOT_FOUND"
    | "e1 = ESP_OK" "e2 = ESP_OK \<or> e2 = ESP_ERR_NVS_NOT_FOUND" by blast
  then show ?thesis
  proof cases
    case 3
    then have a1: "opened n1 h = Some ?a" "opened n2 h = Some ?a" using oD gD by auto
    note wD = nvs_writeD(1) [OF laws a1(2) w]
    have a3: "opened n3 h = Some ?a" "opened n4 h = Some ?a" using wD gcD a1 by auto
    note wcD = nvs_writeD(2) [OF laws a3(2) wc]
    have old: "es_name e \<in> blobs (view n ?a) \<longleftrightarrow> e2 = ESP_OK"
      using 3 gD(3) [OF a1(1)] gD(4) [OF a1(1)] oD(1) nf by (auto simp: blobs_def)
    show ?thesis
      using run 3 wD wcD oD(1) gD(1) gcD(1) gcD(3) [OF a3(1)] cl old nf
      by (auto simp: nvs_add_def o g w gc wc add_left_def Let_def split: if_splits)
  qed (use run oD(1) gD(1) cl nf in \<open>auto simp: nvs_add_def o g add_left_def\<close>)
qed

definition remove_left :: "nvs_content \<Rightarrow> string \<Rightarrow> esp_err \<Rightarrow> nvs_content \<Rightarrow> bool" where
  "remove_left c k err c' \<longleftrightarrow>
     (let c1 = c(k := None)
      in if err = ESP_OK then
           c k \<noteq> None \<and> (\<exists>n. c1 ESP_SCHEDULE_COUNT_KEY = Some (NvsU8 n)
                            \<and> c' = c1(ESP_SCHEDULE_COUNT_KEY \<mapsto> NvsU8 (n - 1)))
         else c' = c \<or> c' = c1)"

lemma nvs_remove_left:
  assumes laws: "nvs_laws d view opened" and run: "nvs_remove d p e n = (err, n')"
  shows "remove_left (view n (schd p)) (es_name e) err (view n' (schd p))
    \<and> (\<forall>a. a \<noteq> schd p \<longrightarrow> view n' a = view n a)"
proof -
  let ?a = "schd p"
  obtain e1 h n1 where o: "drv_open d p ESP_SCHEDULE_NVS_NAMESPACE NVS_READWRITE n = (e1, h, n1)"
    by (metis prod_cases3)
  obtain e2 n2 where w: "drv_erase_key d h (es_name e) n1 = (e2, n2)" by fastforce
  obtain e3 c n3 where gc: "drv_get_u8 d h ESP_SCHEDULE_COUNT_KEY n2 = (e3, c, n3)" by (metis prod_cases3)
  obtain e4 n4 where wc: "drv_set_u8 d h ESP_SCHEDULE_COUNT_KEY (c - 1) n3 = (e4, n4)" by fastforce
  note oD = nvs_openD [OF laws o]
  note gcD = reads_atD [OF nvs_readD(2) [OF laws] gc]
  note cl = nvs_closeD [OF laws]
  show ?thesis
  proof (cases "e1 = ESP_OK")
    case True
    then have a1: "opened n1 h = Some ?a" using oD by auto
    note wD = nvs_writeD(3) [OF laws a1 w]
    have a3: "opened n2 h = Some ?a" "opened n3 h = Some ?a" using wD gcD a1 by auto
    note wcD = nvs_writeD(2) [OF laws a3(2) wc]
    show ?thesis
      using run True wD wcD oD(1) gcD(1) gcD(3) [OF a3(1)] cl
      by (auto simp: nvs_remove_def o w gc wc remove_left_def Let_def split: if_splits)
  qed (use run oD(1) in \<open>auto simp: nvs_remove_def o remove_left_def Let_def\<close>)
qed

lemma nvs_remove_all_left:
  assumes laws: "nvs_laws d view opened" and run: "nvs_remove_all d p n = (ESP_OK, n')"
  shows "view n' = (view n)(schd p := [ESP_SCHEDULE_COUNT_KEY \<mapsto> NvsU8 0])"
proof -
  let ?a = "schd p"
  obtain e1 h n1 where o: "drv_open d p ESP_SCHEDULE_NVS_NAMESPACE NVS_READWRITE n = (e1, h, n1)"
    by (metis prod_cases3)
  obtain e2 n2 where w: "drv_erase_all d h n1 = (e2, n2)" by fastforce
  obtain e3 n3 where wc: "drv_set_u8 d h ESP_SCHEDULE_COUNT_KEY 0 n2 = (e3, n3)" by fastforce
  have oks: "e1 = ESP_OK" "e2 = ESP_OK" "e3 = ESP_OK" "n' = drv_close d h n3"
    using run by (auto simp: nvs_remove_all_def o w wc split: if_splits)
  note oD = nvs_openD [OF laws o]
  note wD = nvs_writeD(4) [OF laws oD(2) [OF oks(1)] w]
  have "opened n2 h = Some ?a" using wD oD(2) oks(1) by simp
  note wcD = nvs_writeD(2) [OF laws this wc]
  show ?thesis using wD wcD oD(1) oks nvs_closeD [OF laws] by auto
qed

lemma nvs_count_read:
  assumes laws: "nvs_laws d view opened" and run: "nvs_get_count d p n = (c, n')"
  shows "view n' = view n"
    "c \<noteq> 0 \<Longrightarrow> view n (schd p) ESP_SCHEDULE_COUNT_KEY = Some (NvsU8 c)"
proof -
  obtain e1 h n1 where o: "drv_open d p ESP_SCHEDULE_NVS_NAMESPACE NVS_READWRITE n = (e1, h, n1)"
    by (metis prod_cases3)
  obtain e2 c2 n2 where gc: "drv_get_u8 d h ESP_SCHEDULE_COUNT_KEY n1 = (e2, c2, n2)" by (metis prod_cases3)
  note D = nvs_openD [OF laws o] reads_atD [OF nvs_readD(2) [OF laws] gc] nvs_closeD [OF laws]
  show "view n' = view n" "c \<noteq> 0 \<Longrightarrow> view n (schd p) ESP_SCHEDULE_COUNT_KEY = Some (NvsU8 c)"
    using run D by (auto simp: nvs_get_count_def o gc split: if_splits)
qed

subsection \<open>The count\<close>

text \<open>What \<open>esp_schedule_nvs_get_all\<close> relies on: the count is the number of stored schedules.\<close>

definition counted :: "nvs_content \<Rightarrow> bool" where
  "counted c \<longleftrightarrow> finite (blobs c)
     \<and> (\<exists>n. c ESP_SCHEDULE_COUNT_KEY = Some (NvsU8 n) \<and> unat n = card (blobs c))"

lemma blobs_upd:
  "blobs (c(k \<mapsto> NvsBlob b)) = insert k (blobs c)" "blobs (c(k \<mapsto> NvsU8 v)) = blobs c - {k}"
  "blobs (c(k := None)) = blobs c - {k}"
  by (auto simp: blobs_def)

lemma counted_empty: "counted [ESP_SCHEDULE_COUNT_KEY \<mapsto> NvsU8 0]"
  by (auto simp: counted_def blobs_def)

lemma unat_succ_u8: "unat (n :: u8) < 255 \<Longrightarrow> unat (n + 1) = unat n + 1"
  by (simp add: unat_word_ariths)

lemma unat_pred_u8: "0 < unat (n :: u8) \<Longrightarrow> unat (n - 1) = unat n - 1"
  by (simp add: unat_minus_one unat_gt_0)

lemma counted_add:
  assumes "counted c" "add_left c e ESP_OK c'" "es_name e \<noteq> ESP_SCHEDULE_COUNT_KEY"
    "card (blobs c) < 255"
  shows "counted c'" "blobs c' = insert (es_name e) (blobs c)" "c' (es_name e) = Some (NvsBlob e)"
    "k \<noteq> es_name e \<Longrightarrow> k \<noteq> ESP_SCHEDULE_COUNT_KEY \<Longrightarrow> c' k = c k"
proof -
  obtain n where n: "finite (blobs c)" "c ESP_SCHEDULE_COUNT_KEY = Some (NvsU8 n)" "unat n = card (blobs c)"
    using assms(1) unfolding counted_def by blast
  have nb: "ESP_SCHEDULE_COUNT_KEY \<notin> insert (es_name e) (blobs c)"
    using n(2) assms(3) by (auto simp: blobs_def)
  show "counted c'" "blobs c' = insert (es_name e) (blobs c)" "c' (es_name e) = Some (NvsBlob e)"
    "k \<noteq> es_name e \<Longrightarrow> k \<noteq> ESP_SCHEDULE_COUNT_KEY \<Longrightarrow> c' k = c k"
    using assms(2-4) n nb unat_succ_u8 [of n]
    by (auto simp: add_left_def counted_def blobs_upd insert_absorb Let_def split: if_splits)
qed

lemma counted_remove:
  assumes "counted c" "remove_left c k ESP_OK c'" "k \<in> blobs c"
  shows "counted c'" "blobs c' = blobs c - {k}" "j \<noteq> k \<Longrightarrow> j \<noteq> ESP_SCHEDULE_COUNT_KEY \<Longrightarrow> c' j = c j"
proof -
  obtain n where n: "finite (blobs c)" "c ESP_SCHEDULE_COUNT_KEY = Some (NvsU8 n)" "unat n = card (blobs c)"
    using assms(1) unfolding counted_def by blast
  have nb: "ESP_SCHEDULE_COUNT_KEY \<notin> blobs c" using n(2) by (auto simp: blobs_def)
  have pos: "0 < card (blobs c)" using n(1) assms(3) card_gt_0_iff by blast
  have k: "k \<noteq> ESP_SCHEDULE_COUNT_KEY" using nb assms(3) by blast
  show "counted c'" "blobs c' = blobs c - {k}" "j \<noteq> k \<Longrightarrow> j \<noteq> ESP_SCHEDULE_COUNT_KEY \<Longrightarrow> c' j = c j"
    using assms(2,3) n nb k pos unat_pred_u8 [of n]
    by (auto simp: remove_left_def counted_def blobs_upd Let_def)
qed

subsection \<open>Loading the schedules\<close>

text \<open>The content that the module works on.\<close>

definition content :: "('n \<Rightarrow> nvs_place \<Rightarrow> nvs_content) \<Rightarrow> ('n, 'z) esn_scheme \<Rightarrow> nvs_content" where
  "content view s = view (nvs_store s) (nvs_partition s, ESP_SCHEDULE_NVS_NAMESPACE)"

lemma esn_alloc [simp]:
  "nvs_partition (snd (alloc s)) = nvs_partition s" "nvs_enabled (snd (alloc s)) = nvs_enabled s"
  "nvs_store (snd (alloc s)) = nvs_store s"
  by (simp_all add: alloc_def split: list.split)

text \<open>A driver whose reads do not fail.\<close>

definition nvs_reliable ::
  "'n nvs_driver \<Rightarrow> ('n \<Rightarrow> nvs_place \<Rightarrow> nvs_content) \<Rightarrow> ('n \<Rightarrow> nat \<Rightarrow> nvs_place option) \<Rightarrow> bool" where
  "nvs_reliable d view opened \<longleftrightarrow>
     (\<forall>p ns m n. fst (drv_open d p ns m n) = ESP_OK) \<and>
     (\<forall>h k n a b. opened n h = Some a \<longrightarrow> view n a k = Some (NvsBlob b) \<longrightarrow>
        fst (drv_get_blob d h k n) = ESP_OK) \<and>
     (\<forall>h k n a c. opened n h = Some a \<longrightarrow> view n a k = Some (NvsU8 c) \<longrightarrow>
        fst (drv_get_u8 d h k n) = ESP_OK)"

lemma nvs_count_reliable:
  assumes laws: "nvs_laws d view opened" and rel: "nvs_reliable d view opened"
    and v: "view n (schd p) ESP_SCHEDULE_COUNT_KEY = Some (NvsU8 v)"
    and run: "nvs_get_count d p n = (c, n')"
  shows "c = v"
proof -
  obtain e1 h n1 where o: "drv_open d p ESP_SCHEDULE_NVS_NAMESPACE NVS_READWRITE n = (e1, h, n1)"
    by (metis prod_cases3)
  obtain e2 c2 n2 where gc: "drv_get_u8 d h ESP_SCHEDULE_COUNT_KEY n1 = (e2, c2, n2)" by (metis prod_cases3)
  have e1: "e1 = ESP_OK" using rel o unfolding nvs_reliable_def by (metis fst_conv)
  have at1: "opened n1 h = Some (schd p)" "view n1 = view n" using nvs_openD [OF laws o] e1 by simp_all
  then have e2: "e2 = ESP_OK" using rel v gc unfolding nvs_reliable_def by (metis fst_conv)
  then have "c2 = v" using reads_atD(3) [OF nvs_readD(2) [OF laws] gc at1(1)] at1 v by simp
  then show ?thesis using run e1 e2 by (simp add: nvs_get_count_def o gc)
qed

text \<open>What reading keeps: the content, and the objects that exist already.\<close>

definition only_loads :: "('n \<Rightarrow> nvs_place \<Rightarrow> nvs_content) \<Rightarrow> ('n, 'z) esn_scheme \<Rightarrow> ('n, 'z) esn_scheme \<Rightarrow> bool" where
  "only_loads view s s' \<longleftrightarrow> view (nvs_store s') = view (nvs_store s) \<and> nvs_partition s' = nvs_partition s
     \<and> nvs_enabled s' = nvs_enabled s \<and> next_ref s \<le> next_ref s'
     \<and> (\<forall>j < next_ref s. es_heap s' j = es_heap s j) \<and> (mem_ok s = [] \<longrightarrow> mem_ok s' = [])"

lemma only_loads_trans: "only_loads view s t \<Longrightarrow> only_loads view t u \<Longrightarrow> only_loads view s u"
  by (auto simp: only_loads_def)

lemma only_loads_content: "only_loads view s t \<Longrightarrow> content view t = content view s"
  by (simp add: only_loads_def content_def)

lemma only_loads_alloc: "only_loads view s (snd (alloc s))"
  by (auto simp: only_loads_def alloc_def split: list.split)

lemma nvs_get_loads:
  assumes laws: "nvs_laws d view opened" and run: "esp_schedule_nvs_get d k s = (r, s')"
  shows "only_loads view s s'"
    "r = Some h \<Longrightarrow> next_ref s \<le> h \<and> h < next_ref s' \<and> content view s k = Some (NvsBlob (es_heap s' h))"
proof -
  obtain e1 hd n1 where o: "drv_open d (nvs_partition s) ESP_SCHEDULE_NVS_NAMESPACE NVS_READONLY
      (nvs_store s) = (e1, hd, n1)" by (metis prod_cases3)
  obtain e2 b2 n2 where g: "drv_get_blob d hd k n1 = (e2, b2, n2)" by (metis prod_cases3)
  obtain e3 b3 n3 where g3: "drv_get_blob d hd k n2 = (e3, b3, n3)" by (metis prod_cases3)
  have views: "view n1 = view (nvs_store s)" "view n2 = view (nvs_store s)" "view n3 = view (nvs_store s)"
    using nvs_openD(1) [OF laws o] reads_atD(1) [OF nvs_readD(1) [OF laws] g]
      reads_atD(1) [OF nvs_readD(1) [OF laws] g3] by simp_all
  have read: "content view s k = Some (NvsBlob b3)" if "e1 = ESP_OK" "e3 = ESP_OK"
    using nvs_openD(2) [OF laws o that(1)] reads_atD(2) [OF nvs_readD(1) [OF laws] g] views that(2)
      reads_atD(3) [OF nvs_readD(1) [OF laws] g3] by (simp add: content_def)
  note cl = nvs_closeD [OF laws]
  obtain ok t where a: "alloc (s\<lparr>nvs_store := n2\<rparr>) = (ok, t)" by fastforce
  have t: "t = snd (alloc (s\<lparr>nvs_store := n2\<rparr>))" using a by simp
  have ts: "nvs_store t = n2" "nvs_partition t = nvs_partition s" "nvs_enabled t = nvs_enabled s"
    "next_ref t = next_ref s" "es_heap t = es_heap s" "mem_ok s = [] \<Longrightarrow> mem_ok t = []"
    unfolding t by (simp_all add: alloc_def split: list.split)
  have split: "(r, s') = (if \<not> nvs_enabled s then (None, s) else if e1 \<noteq> ESP_OK then (None, s\<lparr>nvs_store := n1\<rparr>)
      else if e2 \<noteq> ESP_OK then (None, s\<lparr>nvs_store := drv_close d hd n2\<rparr>)
      else if \<not> ok then (None, t\<lparr>nvs_store := drv_close d hd n2\<rparr>)
      else if e3 \<noteq> ESP_OK then (None, t\<lparr>next_ref := next_ref s + 1, nvs_store := drv_close d hd n3\<rparr>)
      else (Some (next_ref s), t\<lparr>next_ref := next_ref s + 1, nvs_store := drv_close d hd n3,
        es_heap := (es_heap s)(next_ref s := b3)\<rparr>))"
    unfolding run [symmetric] esp_schedule_nvs_get_def using ts
    by (cases "nvs_enabled s"; cases "e1 = ESP_OK"; cases "e2 = ESP_OK"; simp add: o g g3 a Let_def)
  show "only_loads view s s'"
    using split views ts cl by (auto simp: only_loads_def split: if_splits)
  show "r = Some h \<Longrightarrow> next_ref s \<le> h \<and> h < next_ref s' \<and> content view s k = Some (NvsBlob (es_heap s' h))"
    using split read by (auto split: if_splits)
qed

lemma nvs_get_succeeds:
  assumes laws: "nvs_laws d view opened" and rel: "nvs_reliable d view opened"
    and "nvs_enabled s" "mem_ok s = []" "k \<in> blobs (content view s)"
  shows "fst (esp_schedule_nvs_get d k s) \<noteq> None"
proof -
  obtain e1 hd n1 where o: "drv_open d (nvs_partition s) ESP_SCHEDULE_NVS_NAMESPACE NVS_READONLY
      (nvs_store s) = (e1, hd, n1)" by (metis prod_cases3)
  obtain e2 b2 n2 where g: "drv_get_blob d hd k n1 = (e2, b2, n2)" by (metis prod_cases3)
  obtain e3 b3 n3 where g3: "drv_get_blob d hd k n2 = (e3, b3, n3)" by (metis prod_cases3)
  obtain b where b: "view (nvs_store s) (schd (nvs_partition s)) k = Some (NvsBlob b)"
    using assms(5) by (auto simp: blobs_def content_def)
  have e1: "e1 = ESP_OK" using rel o unfolding nvs_reliable_def by (metis fst_conv)
  have at1: "opened n1 hd = Some (schd (nvs_partition s))" "view n1 = view (nvs_store s)"
    using nvs_openD [OF laws o] e1 by simp_all
  have at2: "opened n2 hd = Some (schd (nvs_partition s))" "view n2 = view (nvs_store s)"
    using reads_atD(1,2) [OF nvs_readD(1) [OF laws] g] at1 by simp_all
  have ok: "fst (drv_get_blob d hd k m) = ESP_OK"
    if "opened m hd = Some (schd (nvs_partition s))" "view m = view (nvs_store s)" for m
    using rel that b unfolding nvs_reliable_def by metis
  show ?thesis
    using ok [OF at1] ok [OF at2] e1 assms(3,4)
    by (simp add: esp_schedule_nvs_get_def o g g3 alloc_def Let_def)
qed

text \<open>
  The handles that the loop adds are new objects, which hold the schedules stored under a part
  \<open>js\<close> of the keys, in order; if no read fails it is all of them.
\<close>

lemma load_entries_ok:
  assumes laws: "nvs_laws d view opened"
  shows "length ks + length hs \<le> cap \<Longrightarrow> \<exists>new js s'. load_entries d cap ks hs s = Some (hs @ new, s')
    \<and> only_loads view s s' \<and> subseq js ks
    \<and> map (\<lambda>h. Some (NvsBlob (es_heap s' h))) new = map (content view s) js
    \<and> distinct new \<and> (\<forall>h \<in> set new. next_ref s \<le> h \<and> h < next_ref s')
    \<and> (nvs_reliable d view opened \<and> nvs_enabled s \<and> mem_ok s = [] \<and> set ks \<subseteq> blobs (content view s)
         \<longrightarrow> js = ks)"
proof (induction ks arbitrary: hs s)
  case Nil
  then show ?case by (auto simp: only_loads_def)
next
  case (Cons k ks)
  obtain r t where g: "esp_schedule_nvs_get d k s = (r, t)" by fastforce
  note L = nvs_get_loads [OF laws g]
  define more where "more = (case r of None \<Rightarrow> [] | Some h \<Rightarrow> [h])"
  have "length ks + length (hs @ more) \<le> cap" using Cons.prems by (simp add: more_def split: option.split)
  from Cons.IH [OF this, of t] obtain new js s' where IH:
    "load_entries d cap ks (hs @ more) t = Some ((hs @ more) @ new, s')" "only_loads view t s'"
    "subseq js ks" "map (\<lambda>h. Some (NvsBlob (es_heap s' h))) new = map (content view t) js" "distinct new"
    "\<forall>h \<in> set new. next_ref t \<le> h \<and> h < next_ref s'"
    "nvs_reliable d view opened \<and> nvs_enabled t \<and> mem_ok t = [] \<and> set ks \<subseteq> blobs (content view t) \<longrightarrow> js = ks"
    by blast
  have step: "load_entries d cap (k # ks) hs s = Some (hs @ more @ new, s')"
    using Cons.prems IH(1) by (simp add: g more_def split: option.splits)
  have loads: "only_loads view s s'" using L(1) IH(2) by (rule only_loads_trans)
  have cont: "content view t = content view s" by (rule only_loads_content [OF L(1)])
  define js' where "js' = (if r = None then js else k # js)"
  have "subseq js' (k # ks)" using IH(3) by (auto simp: js'_def)
  moreover have "map (\<lambda>h. Some (NvsBlob (es_heap s' h))) (more @ new) = map (content view s) js'"
    using IH(2,4) L(2) cont by (auto simp: js'_def more_def only_loads_def split: option.splits)
  moreover have "distinct (more @ new)"
    using IH(5,6) L(2) by (auto simp: more_def split: option.splits)
  moreover have "\<forall>h \<in> set (more @ new). next_ref s \<le> h \<and> h < next_ref s'"
    using IH(2,6) L by (auto simp: more_def only_loads_def split: option.splits)
  moreover have "nvs_reliable d view opened \<and> nvs_enabled s \<and> mem_ok s = [] \<and>
      set (k # ks) \<subseteq> blobs (content view s) \<longrightarrow> js' = k # ks"
    using IH(7) L(1) cont nvs_get_succeeds [OF laws, of s k] g
    by (auto simp: js'_def only_loads_def)
  ultimately show ?case using step loads by blast
qed

text \<open>
  What the successful calls of the module have stored, as a map from names to schedules. Clearing
  the namespace is the first of them: only it creates the count. The count is a byte, and the key
  of the count must not be the name of a schedule.
\<close>

inductive stored_as :: "'n nvs_driver \<Rightarrow> string option \<Rightarrow> (string \<Rightarrow> esp_sched option) \<Rightarrow> 'n \<Rightarrow> bool"
  for d :: "'n nvs_driver" and p :: "string option" where
  cleared: "nvs_remove_all d p n = (ESP_OK, n') \<Longrightarrow> stored_as d p Map.empty n'"
| added: "stored_as d p m n \<Longrightarrow> nvs_add d p e n = (ESP_OK, n') \<Longrightarrow> es_name e \<noteq> ESP_SCHEDULE_COUNT_KEY
    \<Longrightarrow> card (dom m) < 255 \<Longrightarrow> stored_as d p (m(es_name e \<mapsto> e)) n'"
| removed: "stored_as d p m n \<Longrightarrow> nvs_remove d p e n = (ESP_OK, n') \<Longrightarrow> es_name e \<in> dom m
    \<Longrightarrow> stored_as d p (m(es_name e := None)) n'"

definition blob_map :: "nvs_content \<Rightarrow> string \<Rightarrow> esp_sched option" where
  "blob_map c k = (case c k of Some (NvsBlob b) \<Rightarrow> Some b | _ \<Rightarrow> None)"

lemma dom_blob_map: "dom (blob_map c) = blobs c"
  by (auto simp: blob_map_def blobs_def split: option.splits nvs_value.splits)

lemma blob_map_none: "k \<notin> blobs c \<Longrightarrow> blob_map c k = None"
  using dom_blob_map [of c] by blast

lemma blob_map_cong: "c k = c' k \<Longrightarrow> blob_map c k = blob_map c' k"
  by (simp add: blob_map_def)

lemma counted_key: "counted c \<Longrightarrow> ESP_SCHEDULE_COUNT_KEY \<notin> blobs c"
  by (auto simp: counted_def blobs_def)

lemma stored_as_content:
  assumes "nvs_laws d view opened" "stored_as d p m n"
  shows "counted (view n (schd p)) \<and> blob_map (view n (schd p)) = m"
  using assms(2)
proof induction
  case (cleared n n')
  have "blob_map [ESP_SCHEDULE_COUNT_KEY \<mapsto> NvsU8 0] = Map.empty" by (auto simp: blob_map_def)
  then show ?case using nvs_remove_all_left [OF assms(1) cleared] counted_empty by (simp del: fun_upd_apply add: fun_upd_same)
next
  case (added m n e n')
  let ?c = "view n (schd p)" and ?c' = "view n' (schd p)"
  have dm: "dom m = blobs ?c" using added.IH dom_blob_map by metis
  have left: "add_left ?c e ESP_OK ?c'" using nvs_add_left [OF assms(1) added.hyps(2)] by simp
  have c: "counted ?c" "card (blobs ?c) < 255" using added.IH added.hyps(4) dm by simp_all
  note C = counted_add [OF c(1) left added.hyps(3) c(2)]
  have m: "m = blob_map ?c" using added.IH by simp
  have "blob_map ?c' k = (m(es_name e \<mapsto> e)) k" for k
    using C(3) blob_map_cong [of ?c' k ?c, OF C(4) [of k]] blob_map_none [OF counted_key [OF C(1)]]
      blob_map_none [OF counted_key [OF c(1)]] added.hyps(3) unfolding m
    by (cases "k = ESP_SCHEDULE_COUNT_KEY"; cases "k = es_name e") (auto simp: blob_map_def)
  then show ?case using C(1) by auto
next
  case (removed m n e n')
  let ?c = "view n (schd p)" and ?c' = "view n' (schd p)"
  have dm: "dom m = blobs ?c" using removed.IH dom_blob_map by metis
  have left: "remove_left ?c (es_name e) ESP_OK ?c'" using nvs_remove_left [OF assms(1) removed.hyps(2)] by simp
  have c: "counted ?c" "es_name e \<in> blobs ?c" using removed.IH removed.hyps(3) dm by simp_all
  note C = counted_remove [OF c(1) left c(2)]
  have m: "m = blob_map ?c" using removed.IH by simp
  have "blob_map ?c' k = (m(es_name e := None)) k" for k
    using blob_map_cong [of ?c' k ?c, OF C(3) [of k]] blob_map_none [OF counted_key [OF C(1)]] C(2)
      blob_map_none [OF counted_key [OF c(1)]] blob_map_none [of "es_name e" ?c'] unfolding m
    by (cases "k = ESP_SCHEDULE_COUNT_KEY"; cases "k = es_name e") auto
  then show ?case using C(1) by auto
qed

lemma nvs_get_count_loads:
  assumes laws: "nvs_laws d view opened" and run: "esp_schedule_nvs_get_count d s = (nb, t)"
  shows "only_loads view s t" "mem_ok t = mem_ok s"
    "nb \<noteq> 0 \<Longrightarrow> content view s ESP_SCHEDULE_COUNT_KEY = Some (NvsU8 nb)"
    "nvs_reliable d view opened \<Longrightarrow> nvs_enabled s \<Longrightarrow>
       content view s ESP_SCHEDULE_COUNT_KEY = Some (NvsU8 n) \<Longrightarrow> nb = n"
proof -
  obtain v n' where c: "nvs_get_count d (nvs_partition s) (nvs_store s) = (v, n')" by fastforce
  note C = nvs_count_read [OF laws c]
  have eq: "(nb, t) = (if nvs_enabled s then (v, s\<lparr>nvs_store := n'\<rparr>) else (0, s))"
    using run by (simp add: esp_schedule_nvs_get_count_def in_store_def c split: if_splits)
  show "only_loads view s t" "mem_ok t = mem_ok s"
    "nb \<noteq> 0 \<Longrightarrow> content view s ESP_SCHEDULE_COUNT_KEY = Some (NvsU8 nb)"
    using eq C by (auto simp: only_loads_def content_def split: if_splits)
  show "nb = n" if "nvs_reliable d view opened" "nvs_enabled s"
    "content view s ESP_SCHEDULE_COUNT_KEY = Some (NvsU8 n)"
    using eq that nvs_count_reliable [OF laws that(1) _ c] by (simp add: content_def)
qed

text \<open>A state whose store is the result of such calls loses no schedule.\<close>

lemma get_all_loads:
  assumes laws: "nvs_laws d view opened" and en: "nvs_enabled s" and c: "counted (content view s)"
  shows "\<exists>l n s'. esp_schedule_nvs_get_all d n0 s = Some (l, n, s') \<and> only_loads view s s' \<and>
    (\<forall>hs. l = Some hs \<longrightarrow> unat n = length hs \<and> distinct hs \<and>
       (\<exists>js. distinct js \<and> set js \<subseteq> blobs (content view s)
          \<and> map (\<lambda>h. Some (NvsBlob (es_heap s' h))) hs = map (content view s) js
          \<and> (nvs_reliable d view opened \<and> mem_ok s = [] \<longrightarrow> set js = blobs (content view s)))) \<and>
    (nvs_reliable d view opened \<and> mem_ok s = [] \<and> blobs (content view s) \<noteq> {} \<longrightarrow> l \<noteq> None)"
proof -
  obtain n where n: "finite (blobs (content view s))" "unat n = card (blobs (content view s))"
    "content view s ESP_SCHEDULE_COUNT_KEY = Some (NvsU8 n)"
    using c unfolding counted_def by blast
  obtain nb s1 where gc: "esp_schedule_nvs_get_count d s = (nb, s1)" by fastforce
  note G = nvs_get_count_loads [OF laws gc]
  obtain ok s2 where a: "alloc s1 = (ok, s2)" by fastforce
  have L2: "only_loads view s s2"
    using only_loads_trans [OF G(1) only_loads_alloc] a by (metis snd_conv)
  define ks where "ks = drv_entries d (nvs_partition s2) ESP_SCHEDULE_NVS_NAMESPACE (nvs_store s2)"
  have ks: "distinct ks" "set ks = blobs (content view s)"
    using nvs_entriesD [OF laws] only_loads_content [OF L2] by (auto simp: ks_def content_def)
  have get: "esp_schedule_nvs_get_all d n0 s = (if nb = 0 then Some (None, nb, s1)
      else if \<not> ok then Some (None, 0, s2) else if ks = [] then Some (None, nb, s2)
      else case load_entries d (unat nb) ks [] s2 of None \<Rightarrow> None
        | Some (hs, s) \<Rightarrow> Some (Some hs, word_of_nat (length hs), s))"
    using en by (simp add: esp_schedule_nvs_get_all_def gc a ks_def)
  show ?thesis
  proof (cases "nb = 0 \<or> \<not> ok \<or> ks = []")
    case True
    have "l = None" if "esp_schedule_nvs_get_all d n0 s = Some (l, m, s')" for l m s'
      using that True get by (auto split: if_splits)
    moreover have "\<exists>m s'. esp_schedule_nvs_get_all d n0 s = Some (None, m, s') \<and> only_loads view s s'"
      using True get G(1) L2 by auto
    moreover have "\<not> (nvs_reliable d view opened \<and> mem_ok s = [] \<and> blobs (content view s) \<noteq> {})"
      using True G(2) G(4) [OF _ en n(3)] n ks a by (auto simp: alloc_def unat_eq_0 card_gt_0_iff)
    ultimately show ?thesis by blast
  next
    case False
    then have nb: "nb = n" using G(3) n(3) by auto
    have len: "length ks = unat n" using ks n(2) distinct_card by metis
    obtain new js s' where ld: "load_entries d (unat nb) ks [] s2 = Some ([] @ new, s')"
      "only_loads view s2 s'" "subseq js ks"
      "map (\<lambda>h. Some (NvsBlob (es_heap s' h))) new = map (content view s2) js" "distinct new"
      "nvs_reliable d view opened \<and> nvs_enabled s2 \<and> mem_ok s2 = [] \<and> set ks \<subseteq> blobs (content view s2)
         \<longrightarrow> js = ks"
      using load_entries_ok [OF laws, of ks "[]" "unat nb" s2] len nb by auto
    have "length new \<le> unat nb"
      using ld(3,4) len nb list_emb_length map_eq_imp_length_eq by metis
    then have cnt: "unat (word_of_nat (length new) :: u8) = length new"
      using unsigned_less [of nb, where 'a = nat] by (simp add: unat_of_nat take_bit_nat_eq_self)
    have "js = ks" if "nvs_reliable d view opened \<and> mem_ok s = []"
      using that ld(6) L2 en ks only_loads_content [OF L2] by (simp add: only_loads_def)
    moreover have "distinct js" "set js \<subseteq> set ks"
      using ld(3) ks(1) by (auto simp: subseq_conv_nths dest: in_set_nthsD)
    ultimately show ?thesis
      using get False ld(1,4,5) cnt ks only_loads_content [OF L2] only_loads_trans [OF L2 ld(2)]
      by auto
  qed
qed

text \<open>Without a count there is nothing to restore, and the count is never created.\<close>

definition uncounted :: "nvs_content \<Rightarrow> bool" where
  "uncounted c \<longleftrightarrow> (\<forall>n. c ESP_SCHEDULE_COUNT_KEY \<noteq> Some (NvsU8 n))"

lemma uncounted_left:
  "add_left c e err c' \<Longrightarrow> uncounted c \<Longrightarrow> uncounted c'"
  "remove_left c k err c' \<Longrightarrow> uncounted c \<Longrightarrow> uncounted c'"
  by (auto simp: add_left_def remove_left_def uncounted_def Let_def split: if_splits)

lemma esn_frame [simp]:
  "nvs_store (emit e s) = nvs_store s" "nvs_partition (emit e s) = nvs_partition s"
  "nvs_store (snd (ask s)) = nvs_store s" "nvs_partition (snd (ask s)) = nvs_partition s"
  "nvs_store (upd_es h f s) = nvs_store s" "nvs_partition (upd_es h f s) = nvs_partition s"
  "nvs_store (x_timer h c s) = nvs_store s" "nvs_partition (x_timer h c s) = nvs_partition s"
  "nvs_enabled (emit e s) = nvs_enabled s" "nvs_enabled (upd_es h f s) = nvs_enabled s"
  "nvs_enabled (x_timer h c s) = nvs_enabled s"
  by (simp_all add: emit_def ask_def upd_es_def x_timer_def split: list.split)

lemma esn_create_timer [simp]:
  "nvs_store (esp_schedule_create_timer h s) = nvs_store s"
  "nvs_partition (esp_schedule_create_timer h s) = nvs_partition s"
  "nvs_store (create_timer_stored lc h s) = nvs_store s"
  "nvs_partition (create_timer_stored lc h s) = nvs_partition s"
  by (simp_all add: create_timer_stored_def esp_schedule_create_timer_def upd_trigger_def
      esp_schedule_get_next_schedule_time_diff_def Let_def case_prod_beta)

lemma content_same:
  "nvs_store t = nvs_store s \<Longrightarrow> nvs_partition t = nvs_partition s \<Longrightarrow> content view t = content view s"
  by (simp add: content_def)

lemma uncounted_nvs:
  assumes "nvs_laws d view opened" "uncounted (content view s)"
  shows "uncounted (content view (snd (esp_schedule_nvs_add d h s)))"
    "nvs_partition (snd (esp_schedule_nvs_add d h s)) = nvs_partition s"
    "uncounted (content view (snd (esp_schedule_nvs_remove d h s)))"
    "nvs_partition (snd (esp_schedule_nvs_remove d h s)) = nvs_partition s"
  using assms uncounted_left nvs_add_left [OF assms(1)] nvs_remove_left [OF assms(1)]
  by (auto simp: esp_schedule_nvs_add_def esp_schedule_nvs_remove_def in_store_def content_def
      split: prod.split) blast+

datatype es_op =
  EsCreate "esp_config option" | EsEdit "nat option" "esp_config option" | EsDelete "nat option"

primrec es_run :: "libc \<Rightarrow> 'n nvs_driver \<Rightarrow> es_op list \<Rightarrow> ('n, 'z) esn_scheme \<Rightarrow> ('n, 'z) esn_scheme" where
  "es_run lc d [] s = s"
| "es_run lc d (op # ops) s = es_run lc d ops
     (case op of EsCreate c \<Rightarrow> snd (create_stored lc d c s) | EsEdit h c \<Rightarrow> snd (edit_stored d h c s)
      | EsDelete h \<Rightarrow> snd (delete_stored d h s))"

definition place_uncounted :: "('n \<Rightarrow> nvs_place \<Rightarrow> nvs_content) \<Rightarrow> string option \<Rightarrow> ('n, 'z) esn_scheme \<Rightarrow> bool" where
  "place_uncounted view p s \<longleftrightarrow> nvs_partition s = p \<and> uncounted (content view s)"

lemma place_uncountedI:
  "place_uncounted view p s \<Longrightarrow> nvs_store t = nvs_store s \<Longrightarrow> nvs_partition t = nvs_partition s
     \<Longrightarrow> place_uncounted view p t"
  by (auto simp: place_uncounted_def content_def)

lemma place_uncounted_nvs:
  assumes "nvs_laws d view opened" "place_uncounted view p s"
  shows "place_uncounted view p (snd (esp_schedule_nvs_add d h s))"
    "place_uncounted view p (snd (esp_schedule_nvs_remove d h s))"
  using assms uncounted_nvs [OF assms(1), of s h] by (auto simp: place_uncounted_def)

lemma set_stored_uncounted:
  assumes "nvs_laws d view opened" "place_uncounted view p s"
  shows "place_uncounted view p (snd (set_stored d h c s))"
proof -
  have "place_uncounted view p (snd (esp_schedule_set h c s))"
    by (rule place_uncountedI [OF assms(2)]) (simp_all add: esp_schedule_set_def)
  from place_uncounted_nvs(1) [OF assms(1) this] show ?thesis
    by (simp add: set_stored_def case_prod_beta Let_def)
qed

lemma operation_uncounted:
  assumes laws: "nvs_laws d view opened" and u: "place_uncounted view p s"
  shows "place_uncounted view p (snd (create_stored lc d c s))"
    "place_uncounted view p (snd (edit_stored d h c s))"
    "place_uncounted view p (snd (delete_stored d h s))"
proof -
  note I = place_uncountedI [OF u] and S = set_stored_uncounted [OF laws]
  show "place_uncounted view p (snd (create_stored lc d c s))"
  proof (cases "\<exists>c'. c = Some c' \<and> ec_name c' \<noteq> [] \<and> fst (alloc s)")
    case True
    then obtain c' where c': "c = Some c'" "ec_name c' \<noteq> []" "fst (alloc s)" by blast
    let ?t = "snd (alloc s)"
    let ?t' = "?t\<lparr>next_ref := next_ref ?t + 1, es_heap := (es_heap ?t)(next_ref ?t :=
      esp_sched0\<lparr>es_name := strlcpy (ec_name c') (MAX_SCHEDULE_NAME_LEN + 1)\<rparr>)\<rparr>"
    have "place_uncounted view p (snd (set_stored d (next_ref ?t) c' ?t'))"
      by (rule S [OF I]) simp_all
    then have "place_uncounted view p (create_timer_stored lc (next_ref ?t) (snd (set_stored d (next_ref ?t) c' ?t')))"
      by (rule place_uncountedI) simp_all
    then show ?thesis using c' by (simp add: create_stored_def Let_def case_prod_beta)
  next
    case False
    have "place_uncounted view p (snd (alloc s))" by (rule I) simp_all
    then show ?thesis using False u
      by (auto simp: create_stored_def Let_def case_prod_beta split: option.split)
  qed
  have "place_uncounted view p (upd_es i f s)" for i f by (rule I) simp_all
  then show "place_uncounted view p (snd (edit_stored d h c s))"
    using u
    by (simp add: S edit_stored_def upd_trigger_def Let_def case_prod_beta split: option.split)
  have "place_uncounted view p (x_timer i b' (x_timer i b s))" for i b b' by (rule I) simp_all
  then show "place_uncounted view p (snd (delete_stored d h s))"
    using u
    by (simp add: place_uncounted_nvs(2) [OF laws] delete_stored_def esp_schedule_delete_timer_def esp_schedule_stop_timer_def
        Let_def case_prod_beta split: option.split)
qed

lemma es_run_uncounted:
  "nvs_laws d view opened \<Longrightarrow> place_uncounted view p s \<Longrightarrow> place_uncounted view p (es_run lc d ops s)"
  by (induction ops arbitrary: s) (simp_all add: operation_uncounted split: es_op.split)

lemma esn_init [simp]: "nvs_store (esp_schedule_init s) = nvs_store s" "nvs_enabled (esp_schedule_init s) = nvs_enabled s"
  by (simp_all add: esp_schedule_init_def call_def emits_def ask_def emit_def case_prod_beta Let_def
      split: list.split)

lemma get_all_uncounted:
  assumes laws: "nvs_laws d view opened" and u: "uncounted (content view s)"
  shows "\<exists>t. esp_schedule_nvs_get_all d 0 s = Some (None, 0, t)"
proof -
  obtain nb t where g: "esp_schedule_nvs_get_count d s = (nb, t)" by fastforce
  have "nb = 0" using nvs_get_count_loads(3) [OF laws g] u by (auto simp: uncounted_def)
  then show ?thesis by (simp add: esp_schedule_nvs_get_all_def g)
qed

text \<open>The content at the partition is counted and is the map \<open>m\<close>.\<close>

definition stored_at ::
  "('n \<Rightarrow> nvs_place \<Rightarrow> nvs_content) \<Rightarrow> string option \<Rightarrow> (string \<Rightarrow> esp_sched option)
     \<Rightarrow> ('n, 'z) esn_scheme \<Rightarrow> bool" where
  "stored_at view p m s \<longleftrightarrow> nvs_partition s = p \<and> counted (content view s) \<and> blob_map (content view s) = m"

subsection \<open>A driver in memory\<close>

text \<open>
  A driver that keeps the values in an association list and never fails: the laws can hold, and
  the theorems can be run. A handle is the position of its place in the list of opened ones.
\<close>

record ram_nvs =
  ram_opened :: "nvs_place list"
  ram_data :: "((nvs_place \<times> string) \<times> nvs_value) list"

definition ram_view :: "ram_nvs \<Rightarrow> nvs_place \<Rightarrow> nvs_content" where
  "ram_view n a k = map_of (ram_data n) (a, k)"

definition ram_at :: "ram_nvs \<Rightarrow> nat \<Rightarrow> nvs_place option" where
  "ram_at n h = (if h < length (ram_opened n) then Some (ram_opened n ! h) else None)"

definition ram_put :: "nat \<Rightarrow> string \<Rightarrow> nvs_value \<Rightarrow> ram_nvs \<Rightarrow> esp_err \<times> ram_nvs" where
  "ram_put h k v n = (case ram_at n h of None \<Rightarrow> (ESP_FAIL, n)
     | Some a \<Rightarrow> (ESP_OK, n\<lparr>ram_data := AList.update (a, k) v (ram_data n)\<rparr>))"

definition ram_driver :: "ram_nvs nvs_driver" where
  "ram_driver = \<lparr>
     drv_open = (\<lambda>p ns m n. (ESP_OK, length (ram_opened n), n\<lparr>ram_opened := ram_opened n @ [(p, ns)]\<rparr>)),
     drv_get_blob = (\<lambda>h k n. case ram_at n h of None \<Rightarrow> (ESP_FAIL, esp_sched0, n)
       | Some a \<Rightarrow> (case ram_view n a k of Some (NvsBlob b) \<Rightarrow> (ESP_OK, b, n)
                   | _ \<Rightarrow> (ESP_ERR_NVS_NOT_FOUND, esp_sched0, n))),
     drv_set_blob = (\<lambda>h k b. ram_put h k (NvsBlob b)),
     drv_get_u8 = (\<lambda>h k n. case ram_at n h of None \<Rightarrow> (ESP_FAIL, 0, n)
       | Some a \<Rightarrow> (case ram_view n a k of Some (NvsU8 c) \<Rightarrow> (ESP_OK, c, n)
                   | _ \<Rightarrow> (ESP_ERR_NVS_NOT_FOUND, 0, n))),
     drv_set_u8 = (\<lambda>h k c. ram_put h k (NvsU8 c)),
     drv_erase_key = (\<lambda>h k n. case ram_at n h of None \<Rightarrow> (ESP_FAIL, n)
       | Some a \<Rightarrow> (if ram_view n a k = None then (ESP_ERR_NVS_NOT_FOUND, n)
                   else (ESP_OK, n\<lparr>ram_data := AList.delete (a, k) (ram_data n)\<rparr>))),
     drv_erase_all = (\<lambda>h n. case ram_at n h of None \<Rightarrow> (ESP_FAIL, n)
       | Some a \<Rightarrow> (ESP_OK, n\<lparr>ram_data := filter (\<lambda>e. fst (fst e) \<noteq> a) (ram_data n)\<rparr>)),
     drv_close = (\<lambda>h n. n),
     drv_entries = (\<lambda>p ns n. filter (\<lambda>k. case ram_view n (p, ns) k of Some (NvsBlob b) \<Rightarrow> True | _ \<Rightarrow> False)
       (remdups (map (snd \<circ> fst) (ram_data n))))\<rparr>"

lemma ram_put_writes: "writes_at ram_view ram_at (\<lambda>h k. ram_put h k v) (Some v)"
  by (auto simp: writes_at_def ram_put_def ram_view_def ram_at_def fun_eq_iff update_conv'
      split: if_splits)

lemma not_found_nonzero: "ESP_ERR_NVS_NOT_FOUND \<noteq> ESP_OK" "ESP_ERR_NVS_NOT_FOUND \<noteq> ESP_FAIL"
  by (simp_all add: ESP_ERR_NVS_NOT_FOUND_def)

lemma ram_laws: "nvs_laws ram_driver ram_view ram_at"
proof -
  have r: "reads_at ram_view ram_at (drv_get_blob ram_driver) NvsBlob"
    "reads_at ram_view ram_at (drv_get_u8 ram_driver) NvsU8"
    using not_found_nonzero
    by (auto simp: reads_at_def ram_driver_def split: option.splits nvs_value.splits)
  have e: "writes_at ram_view ram_at (drv_erase_key ram_driver) None"
    using not_found_nonzero
    by (auto simp: writes_at_def ram_driver_def ram_view_def ram_at_def fun_eq_iff delete_conv'
        split: if_splits)
  have a: "map_of (filter (\<lambda>e. fst (fst e) \<noteq> a) xs) (b, k) = (if b = a then None else map_of xs (b, k))"
    for a b k and xs :: "((nvs_place \<times> string) \<times> nvs_value) list" by (induction xs) auto
  have mem: "k \<in> set (map (snd \<circ> fst) (ram_data n))" if "ram_view n a k = Some v" for a k v n
    using map_of_SomeD [OF that [unfolded ram_view_def]] by (force simp: image_iff)
  have en: "set (drv_entries ram_driver p ns n) = blobs (ram_view n (p, ns))" for p ns n
    using mem [of n "(p, ns)"]
    by (auto simp del: set_map simp: ram_driver_def blobs_def split: option.splits nvs_value.splits)
      (metis nvs_value.exhaust)
  show ?thesis
    unfolding nvs_laws_def using r e en ram_put_writes not_found_nonzero
    by (auto simp: ram_driver_def ram_view_def ram_at_def fun_eq_iff nth_append a
        split: if_splits)
qed

lemma ram_reliable: "nvs_reliable ram_driver ram_view ram_at"
  by (auto simp: nvs_reliable_def ram_driver_def)

text \<open>Two schedules, one of them stored again and the other removed.\<close>

definition ex_stored_a :: esp_sched where
  "ex_stored_a = esp_sched0\<lparr>es_name := ''a'', es_priv := 1\<rparr>"

definition ex_stored_b :: esp_sched where
  "ex_stored_b = esp_sched0\<lparr>es_name := ''b''\<rparr>"

definition ex_nvs :: ram_nvs where
  "ex_nvs = snd (nvs_remove ram_driver (Some ''nvs'') ex_stored_b
     (snd (nvs_add ram_driver (Some ''nvs'') ex_stored_a
       (snd (nvs_add ram_driver (Some ''nvs'') ex_stored_b
         (snd (nvs_remove_all ram_driver (Some ''nvs'') \<lparr>ram_opened = [], ram_data = []\<rparr>)))))))"

definition ex_esn :: "ram_nvs \<Rightarrow> ram_nvs esn" where
  "ex_esn n = core.extend ex_core \<lparr>nvs_partition = Some ''nvs'', nvs_enabled = True, nvs_store = n\<rparr>"

lemma ex_esn_simps:
  "nvs_store (ex_esn n) = n" "nvs_partition (ex_esn n) = Some ''nvs''" "nvs_enabled (ex_esn n)"
  "mem_ok (ex_esn n) = []"
  by (simp_all add: ex_esn_def core.defs ex_core_def rm.defs ex_rm_def rm_init_def plat.defs)

lemma ex_nvs_stored: "stored_as ram_driver (Some ''nvs'') [''a'' \<mapsto> ex_stored_a] ex_nvs"
proof -
  let ?d = "ram_driver" and ?p = "Some ''nvs''"
  define n1 where "n1 = snd (nvs_remove_all ?d ?p \<lparr>ram_opened = [], ram_data = []\<rparr>)"
  define n2 where "n2 = snd (nvs_add ?d ?p ex_stored_b n1)"
  define n3 where "n3 = snd (nvs_add ?d ?p ex_stored_a n2)"
  note run = nvs_remove_all_def nvs_add_def nvs_remove_def ram_driver_def ram_put_def ram_at_def ram_view_def
    ESP_SCHEDULE_NVS_NAMESPACE_def ESP_SCHEDULE_COUNT_KEY_def ESP_ERR_NVS_NOT_FOUND_def
    ex_stored_a_def ex_stored_b_def esp_sched0_def
  have "nvs_remove_all ?d ?p \<lparr>ram_opened = [], ram_data = []\<rparr> = (ESP_OK, n1)"
    by (simp add: n1_def run)
  then have s1: "stored_as ?d ?p Map.empty n1" by (rule stored_as.cleared)
  have "nvs_add ?d ?p ex_stored_b n1 = (ESP_OK, n2)" by (simp add: n2_def n1_def run)
  from stored_as.added [OF s1 this] have s2: "stored_as ?d ?p [''b'' \<mapsto> ex_stored_b] n2"
    by (simp add: ex_stored_b_def ESP_SCHEDULE_COUNT_KEY_def)
  have "nvs_add ?d ?p ex_stored_a n2 = (ESP_OK, n3)" by (simp add: n3_def n2_def n1_def run)
  from stored_as.added [OF s2 this] have s3: "stored_as ?d ?p [''b'' \<mapsto> ex_stored_b, ''a'' \<mapsto> ex_stored_a] n3"
    by (simp add: ex_stored_a_def ESP_SCHEDULE_COUNT_KEY_def)
  have "nvs_remove ?d ?p ex_stored_b n3 = (ESP_OK, ex_nvs)"
    by (simp add: ex_nvs_def n3_def n2_def n1_def run)
  moreover have m: "[''b'' \<mapsto> ex_stored_b, ''a'' \<mapsto> ex_stored_a](es_name ex_stored_b := None)
      = [''a'' \<mapsto> ex_stored_a]" "es_name ex_stored_b \<in> dom [''b'' \<mapsto> ex_stored_b, ''a'' \<mapsto> ex_stored_a]"
    by (auto simp: ex_stored_b_def fun_eq_iff)
  ultimately show ?thesis using stored_as.removed [OF s3, of ex_stored_b ex_nvs] by metis
qed

subsection \<open>The properties\<close>

text \<open>C21. What has been stored is what is loaded: if the calls of the module, from the one that
  cleared the namespace, all succeeded and add up to the map \<open>m\<close> of names to schedules, then
  \<open>esp_schedule_nvs_get_all\<close> stays inside its list, gives as many handles as it reports, and
  every handle is a new object with a stored schedule, none of them twice. If neither a read nor
  an allocation fails, all of \<open>m\<close> is there. The store is left as it was.
\<close>

theorem stored_schedules_loaded:
  assumes "nvs_laws d view opened" "stored_as d p m (nvs_store s)" "nvs_enabled s" "nvs_partition s = p"
  shows "\<exists>l n s'. esp_schedule_nvs_get_all d n0 s = Some (l, n, s') \<and> stored_at view p m s' \<and>
    (\<forall>hs. l = Some hs \<longrightarrow> unat n = length hs \<and> distinct hs \<and>
       (\<exists>js. distinct js \<and> set js \<subseteq> dom m \<and> map (\<lambda>h. Some (es_heap s' h)) hs = map m js
          \<and> (nvs_reliable d view opened \<and> mem_ok s = [] \<longrightarrow> set js = dom m))) \<and>
    (nvs_reliable d view opened \<and> mem_ok s = [] \<and> m \<noteq> Map.empty \<longrightarrow> l \<noteq> None)"
proof -
  have c: "counted (content view s)" and m: "blob_map (content view s) = m"
    using stored_as_content [OF assms(1,2)] assms(4) by (simp_all add: content_def)
  have dm: "dom m = blobs (content view s)" using m dom_blob_map by metis
  have at: "stored_at view p m t" if "only_loads view s t" for t
    using c m assms(4) only_loads_content [OF that] that by (simp add: stored_at_def only_loads_def)
  have read: "map (\<lambda>h. Some (f h)) hs = map m js"
    if "map (\<lambda>h. Some (NvsBlob (f h))) hs = map (content view s) js" for f hs js
    using that unfolding m [symmetric]
    by (auto simp: list_eq_iff_nth_eq blob_map_def dest: map_eq_imp_length_eq split: option.split nvs_value.split)
  obtain l n s' where R: "esp_schedule_nvs_get_all d n0 s = Some (l, n, s')" "only_loads view s s'"
    "\<And>hs. l = Some hs \<Longrightarrow> unat n = length hs \<and> distinct hs \<and> (\<exists>js. distinct js \<and> set js \<subseteq> dom m
       \<and> map (\<lambda>h. Some (NvsBlob (es_heap s' h))) hs = map (content view s) js
       \<and> (nvs_reliable d view opened \<and> mem_ok s = [] \<longrightarrow> set js = dom m))"
    "nvs_reliable d view opened \<and> mem_ok s = [] \<and> dom m \<noteq> {} \<longrightarrow> l \<noteq> None"
    using get_all_loads [OF assms(1,3) c, of n0] unfolding dm by blast
  show ?thesis
    using R(1) at [OF R(2)] R(4) R(3) read [of "es_heap s'"] by (intro exI conjI) (blast | auto)+
qed

theorem stored_schedules_loaded_witness:
  "\<exists>l n s'. esp_schedule_nvs_get_all ram_driver 0 (ex_esn ex_nvs) = Some (l, n, s')
     \<and> stored_at ram_view (Some ''nvs'') [''a'' \<mapsto> ex_stored_a] s'
     \<and> (\<exists>h. l = Some [h] \<and> es_heap s' h = ex_stored_a)"
proof -
  have s: "stored_as ram_driver (Some ''nvs'') [''a'' \<mapsto> ex_stored_a] (nvs_store (ex_esn ex_nvs))"
    using ex_nvs_stored by (simp add: ex_esn_simps)
  have e: "nvs_enabled (ex_esn ex_nvs)" "nvs_partition (ex_esn ex_nvs) = Some ''nvs''"
    "mem_ok (ex_esn ex_nvs) = []"
    by (simp_all add: ex_esn_simps)
  let ?m = "[''a'' \<mapsto> ex_stored_a]" and ?ok = "nvs_reliable ram_driver ram_view ram_at \<and> mem_ok (ex_esn ex_nvs) = []"
  have m: "?m \<noteq> Map.empty" "dom ?m = {''a''}" and ok: ?ok using ram_reliable e(3) by simp_all
  obtain l n s' where r: "esp_schedule_nvs_get_all ram_driver 0 (ex_esn ex_nvs) = Some (l, n, s')"
    "stored_at ram_view (Some ''nvs'') ?m s'"
    "\<forall>hs. l = Some hs \<longrightarrow> unat n = length hs \<and> distinct hs \<and>
       (\<exists>js. distinct js \<and> set js \<subseteq> dom ?m \<and> map (\<lambda>h. Some (es_heap s' h)) hs = map ?m js
          \<and> (?ok \<longrightarrow> set js = dom ?m))"
    "nvs_reliable ram_driver ram_view ram_at \<and> mem_ok (ex_esn ex_nvs) = [] \<and> ?m \<noteq> Map.empty \<longrightarrow> l \<noteq> None"
    using stored_schedules_loaded [OF ram_laws s e(1,2), of 0] by (elim exE conjE) (rule that)
  obtain hs where l: "l = Some hs" using r(4) ok m(1) by blast
  obtain js where hs: "distinct js" "set js \<subseteq> dom ?m" "map (\<lambda>h. Some (es_heap s' h)) hs = map ?m js"
    "?ok \<longrightarrow> set js = dom ?m"
    using r(3) [THEN spec, THEN mp, OF l] by (elim exE conjE) (rule that)
  have "set js = {''a''}" using hs(4) [THEN mp, OF ok] m(2) by simp
  with hs(1) have "js = [''a'']" by (cases js; cases "tl js") auto
  with hs(3) have "\<exists>h. hs = [h] \<and> es_heap s' h = ex_stored_a" by auto
  then show ?thesis using r(1,2) l by blast
qed

text \<open>C35. On a device where the namespace of the schedules has no count, no schedule survives a
  restart: whatever schedules are created, edited and deleted with the storage switched on, the
  count is never written, and \<open>esp_schedule_init\<close> after the restart restores nothing, although
  the schedules are in the store. Only \<open>esp_schedule_nvs_remove_all\<close> writes a first count, and
  no code calls it.
\<close>

theorem never_restored:
  assumes "nvs_laws d view opened" "nvs_partition s = Some (case part of None \<Rightarrow> ''nvs'' | Some q \<Rightarrow> q)"
    and "\<forall>n. content view s ESP_SCHEDULE_COUNT_KEY \<noteq> Some (NvsU8 n)"
    and "nvs_store t = nvs_store (es_run lc d ops s)" "\<not> nvs_enabled t"
  shows "\<exists>u. init_stored lc cbs d True part n0 t = Some (None, 0, u)"
proof -
  let ?p = "nvs_partition s" and ?t = "esp_schedule_init t"
  have "place_uncounted view ?p s" using assms(3) by (simp add: place_uncounted_def uncounted_def)
  then have "place_uncounted view ?p (es_run lc d ops s)" by (rule es_run_uncounted [OF assms(1)])
  then have u: "uncounted (view (nvs_store ?t) (schd ?p))"
    using assms(4) by (auto simp: place_uncounted_def content_def)
  obtain e v where i: "esp_schedule_nvs_init part ?t = (e, v)" by fastforce
  have "nvs_store v = nvs_store ?t" "nvs_enabled v \<Longrightarrow> nvs_partition v = ?p"
    using i assms(2,5) by (auto simp: esp_schedule_nvs_init_def Let_def case_prod_beta split: if_splits option.splits)
  then have "nvs_enabled v \<Longrightarrow> uncounted (content view v)" using u by (simp add: content_def)
  then have "\<exists>w. esp_schedule_nvs_get_all d 0 v = Some (None, 0, w)"
    using get_all_uncounted [OF assms(1), of v]
    by (cases "nvs_enabled v") (blast, simp add: esp_schedule_nvs_get_all_def)
  then show ?thesis by (auto simp: init_stored_def i Let_def)
qed

theorem never_restored_witness:
  "\<forall>cbs. \<exists>u. init_stored (zone 0) cbs ram_driver True None 0
     ((es_run (zone 0) ram_driver [EsCreate (Some (esp_config0\<lparr>ec_name := ''a''\<rparr>))]
        (ex_esn \<lparr>ram_opened = [], ram_data = []\<rparr>))\<lparr>nvs_enabled := False, nvs_partition := None\<rparr>)
     = Some (None, 0, u)"
  using never_restored [OF ram_laws, of "ex_esn \<lparr>ram_opened = [], ram_data = []\<rparr>" None
      "(es_run (zone 0) ram_driver [EsCreate (Some (esp_config0\<lparr>ec_name := ''a''\<rparr>))]
        (ex_esn \<lparr>ram_opened = [], ram_data = []\<rparr>))\<lparr>nvs_enabled := False, nvs_partition := None\<rparr>"
      "zone 0" "[EsCreate (Some (esp_config0\<lparr>ec_name := ''a''\<rparr>))]"]
  by (simp add: ex_esn_simps content_def ram_view_def del: es_run.simps)

subsection \<open>More schedules than the count\<close>

text \<open>
  When the count is too small, \<open>handle_list\<close> is too: the handle after the last cell is written
  past its end. \<open>nvs_add_left\<close> shows how the store gets there: the schedule is written, and then
  reading or writing the count fails.
\<close>

lemma load_entries_overflow:
  assumes "nvs_laws d view opened" "nvs_reliable d view opened"
  shows "nvs_enabled s \<Longrightarrow> mem_ok s = [] \<Longrightarrow> set ks \<subseteq> blobs (content view s) \<Longrightarrow> cap < length hs + length ks
    \<Longrightarrow> length hs \<le> cap \<Longrightarrow> load_entries d cap ks hs s = None"
proof (induction ks arbitrary: hs s)
  case (Cons k ks)
  obtain r t where g: "esp_schedule_nvs_get d k s = (r, t)" by fastforce
  obtain h where r: "r = Some h" using nvs_get_succeeds [OF assms Cons.prems(1,2), of k] Cons.prems(3) g by auto
  have L: "only_loads view s t" by (rule nvs_get_loads(1) [OF assms(1) g])
  have "nvs_enabled t" "mem_ok t = []" using L Cons.prems(1,2) by (simp_all add: only_loads_def)
  moreover have "set ks \<subseteq> blobs (content view t)" using L Cons.prems(3) by (simp add: only_loads_content)
  ultimately show ?case using Cons.IH [of t "hs @ [h]"] Cons.prems(4,5) by (simp add: g r)
qed simp

lemma uncounted_schedule_overflows:
  assumes laws: "nvs_laws d view opened" and rel: "nvs_reliable d view opened"
    and en: "nvs_enabled s" and mem: "mem_ok s = []"
    and n: "content view s ESP_SCHEDULE_COUNT_KEY = Some (NvsU8 n)" "n \<noteq> 0"
    and few: "unat n < card (blobs (content view s))"
  shows "esp_schedule_nvs_get_all d n0 s = None"
proof -
  obtain nb t where g: "esp_schedule_nvs_get_count d s = (nb, t)" by fastforce
  note G = nvs_get_count_loads [OF laws g]
  have nb: "nb = n" by (rule G(4) [OF rel en n(1)])
  have t: "nvs_enabled t" "mem_ok t = []" "content view t = content view s"
    using G(1,2) en mem by (simp_all add: only_loads_def only_loads_content [OF G(1)])
  let ?ks = "drv_entries d (nvs_partition t) ESP_SCHEDULE_NVS_NAMESPACE (nvs_store t)"
  have ks: "set ?ks = blobs (content view s)" "length ?ks = card (blobs (content view s))"
    using nvs_entriesD(2) [OF laws, of "nvs_partition t" ESP_SCHEDULE_NVS_NAMESPACE "nvs_store t"] t(3)
      distinct_card [OF nvs_entriesD(1) [OF laws, of "nvs_partition t" ESP_SCHEDULE_NVS_NAMESPACE "nvs_store t"]]
    by (simp_all add: content_def)
  have "load_entries d (unat n) ?ks [] t = None"
    by (rule load_entries_overflow [OF laws rel t(1,2)]) (use ks t(3) few in simp_all)
  moreover have "?ks \<noteq> []" using ks few by auto
  ultimately show ?thesis using en n(2) nb t(2) by (simp add: esp_schedule_nvs_get_all_def g alloc_def)
qed

subsection \<open>The engine without its storage\<close>

text \<open>The program's case: with the storage off, the operations are those of \<open>Esp_Schedule\<close>.\<close>

lemma off_add: "\<not> nvs_enabled s \<Longrightarrow> esp_schedule_nvs_add d h s = (ESP_ERR_INVALID_STATE, s)"
  by (simp add: esp_schedule_nvs_add_def)

lemma off_set: "\<not> nvs_enabled s \<Longrightarrow> set_stored d h c s = esp_schedule_set h c s"
  by (simp add: set_stored_def esp_schedule_set_def off_add)

lemma off_timer: "\<not> nvs_enabled s \<Longrightarrow> create_timer_stored lc h s = esp_schedule_create_timer h s"
  by (simp add: create_timer_stored_def esp_schedule_nvs_is_enabled_def)

lemma storage_off_same:
  assumes "\<not> nvs_enabled s"
  shows "create_stored lc d c s = esp_schedule_create c s" "edit_stored d h c s = esp_schedule_edit h c s"
    "delete_stored d h s = esp_schedule_delete h s"
    "init_stored lc cbs d False part n0 s = Some (None, n0, esp_schedule_init s)"
proof -
  show "create_stored lc d c s = esp_schedule_create c s"
    using assms by (auto simp: create_stored_def esp_schedule_create_def Let_def case_prod_beta off_set
        off_timer esp_schedule_set_def split: option.split)
  show "edit_stored d h c s = esp_schedule_edit h c s"
    using assms by (auto simp: edit_stored_def esp_schedule_edit_def upd_trigger_def off_set Let_def split: option.split)
  show "delete_stored d h s = esp_schedule_delete h s"
    using assms by (auto simp: delete_stored_def esp_schedule_delete_def esp_schedule_nvs_remove_def
        esp_schedule_delete_timer_def esp_schedule_stop_timer_def Let_def split: option.split)
  show "init_stored lc cbs d False part n0 s = Some (None, n0, esp_schedule_init s)"
    by (simp add: init_stored_def Let_def)
qed

end
