(* ===== verification/Rm_Local_Ctrl.thy ===== *)
theory Rm_Local_Ctrl
  imports Rm_Core_State Rm_Node_Config
begin

text \<open>
  Control over the local network, \<open>esp_rainmaker/src/core/esp_rmaker_local_ctrl.c\<close>: the two
  handlers that the SDK's \<open>esp_local_ctrl\<close> calls for its properties, and the start of the
  service, which waits for a running provisioning. It is compiled under
  \<open>CONFIG_ESP_RMAKER_LOCAL_CTRL_ENABLE\<close> only.

  A handler gets arrays of \<open>props_count\<close> elements; an access past the end of \<open>prop_values\<close> has
  no result (\<open>None\<close>). What \<open>json_parse_start\<close> makes of the received data, \<open>parse\<close>, is an
  argument, as for the parameters.
\<close>

record lc_prop =
  lp_name :: string
  lp_type :: u32
  lp_flags :: u32

definition PROP_TYPE_NODE_CONFIG :: u32 where "PROP_TYPE_NODE_CONFIG = 1"
definition PROP_TYPE_NODE_PARAMS :: u32 where "PROP_TYPE_NODE_PARAMS = 2"
definition PROP_FLAG_READONLY :: u32 where "PROP_FLAG_READONLY = 1"

text \<open>\<open>lv_free\<close> tells whether \<open>free_fn\<close> is set: the value then owns its data.\<close>

record lc_val =
  lv_data :: "string option"
  lv_size :: nat
  lv_free :: bool

definition lc_unset :: lc_val where
  "lc_unset = \<lparr>lv_data = None, lv_size = 0, lv_free = False\<rparr>"

subsection \<open>Reading properties\<close>

text \<open>One turn of the loop: the error and, if the type is known, what the property reads.\<close>

definition read_prop :: "lc_prop \<Rightarrow> 'a rm_scheme \<Rightarrow> esp_err \<times> string option \<times> 'a rm_scheme" where
  "read_prop p s =
     (if lp_type p = PROP_TYPE_NODE_CONFIG then
        let (node_config, s) = esp_rmaker_get_node_config s
        in (if node_config = None then ESP_ERR_NO_MEM else ESP_OK, node_config, s)
      else if lp_type p = PROP_TYPE_NODE_PARAMS then
        let (node_params, s) = esp_rmaker_get_node_params s
        in (if node_params = None then ESP_ERR_NO_MEM else ESP_OK, node_params, s)
      else (ESP_OK, None, s))"

definition owned :: "string \<Rightarrow> lc_val" where
  "owned t = \<lparr>lv_data = Some t, lv_size = length t, lv_free = True\<rparr>"

text \<open>
  The first loop, from index \<open>i\<close> on: it gives the error, the index at which it stops (\<open>i++\<close> is
  executed before the condition sees the error) and the values.
\<close>

fun read_loop ::
  "lc_prop list \<Rightarrow> nat \<Rightarrow> lc_val list \<Rightarrow> 'a rm_scheme \<Rightarrow> (esp_err \<times> nat \<times> lc_val list \<times> 'a rm_scheme) option"
  where
  "read_loop [] i vals s = Some (ESP_OK, i, vals, s)"
| "read_loop (p # ps) i vals s =
     (let (ret, txt, s) = read_prop p s
      in if ret \<noteq> ESP_OK then Some (ret, i + 1, vals, s)
         else case txt of
                None \<Rightarrow> read_loop ps (i + 1) vals s
              | Some t \<Rightarrow> if length vals \<le> i then None
                          else read_loop ps (i + 1) (vals[i := owned t]) s)"

text \<open>The second loop, over the indices \<open>ks\<close>.\<close>

fun free_loop :: "nat list \<Rightarrow> lc_val list \<Rightarrow> lc_val list option" where
  "free_loop [] vals = Some vals"
| "free_loop (k # ks) vals =
     (if length vals \<le> k then None
      else free_loop ks (if lv_free (vals ! k) then vals[k := lc_unset] else vals))"

definition get_property_values ::
  "lc_prop list \<Rightarrow> lc_val list \<Rightarrow> 'a rm_scheme \<Rightarrow> (esp_err \<times> lc_val list \<times> 'a rm_scheme) option" where
  "get_property_values props prop_values s =
     (case read_loop props 0 prop_values s of
        None \<Rightarrow> None
      | Some (ret, i, vals, s) \<Rightarrow>
          if ret \<noteq> ESP_OK then
            case free_loop [0..<i + 1] vals of None \<Rightarrow> None | Some vals \<Rightarrow> Some (ret, vals, s)
          else Some (ret, vals, s))"

subsection \<open>Writing properties\<close>

definition read_only :: "lc_prop \<Rightarrow> bool" where
  "read_only p \<longleftrightarrow> and (lp_flags p) PROP_FLAG_READONLY \<noteq> 0"

fun write_loop ::
  "(string \<Rightarrow> u32 \<times> nat) \<Rightarrow> ('a rm_scheme) write_fn \<Rightarrow> (lc_val \<Rightarrow> jparse_ctx option)
     \<Rightarrow> (lc_prop \<times> lc_val) list \<Rightarrow> 'a rm_scheme \<Rightarrow> esp_err \<times> 'a rm_scheme" where
  "write_loop strtof invoke parse [] s = (ESP_OK, s)"
| "write_loop strtof invoke parse ((p, v) # pvs) s =
     (if lp_type p = PROP_TYPE_NODE_PARAMS then
        let (ret, s) = esp_rmaker_handle_set_params strtof invoke (parse v) ESP_RMAKER_REQ_SRC_LOCAL s
        in if ret \<noteq> ESP_OK then (ret, s) else write_loop strtof invoke parse pvs s
      else write_loop strtof invoke parse pvs s)"

definition set_property_values ::
  "(string \<Rightarrow> u32 \<times> nat) \<Rightarrow> ('a rm_scheme) write_fn \<Rightarrow> (lc_val \<Rightarrow> jparse_ctx option)
     \<Rightarrow> lc_prop list \<Rightarrow> lc_val list \<Rightarrow> 'a rm_scheme \<Rightarrow> esp_err \<times> 'a rm_scheme" where
  "set_property_values strtof invoke parse props prop_values s =
     (if \<exists>p \<in> set props. read_only p then (ESP_ERR_INVALID_ARG, s)
      else write_loop strtof invoke parse (zip props prop_values) s)"

subsection \<open>Starting the service\<close>

text \<open>
  The static variables, and whether the handler is registered for the two provisioning events
  (both are registered and unregistered together).
\<close>

record lctl = core +
  g_serv_name :: "string option"
  wait_for_wifi_prov :: bool
  prov_handler :: bool

text \<open>\<open>ESP_ERROR_CHECK\<close> aborts on an error.\<close>

definition checked :: "effect \<Rightarrow> 'a lctl_scheme \<Rightarrow> 'a lctl_scheme" where
  "checked c s = (let (err, s) = call c s in if err \<noteq> ESP_OK then emit (Os Abort) s else s)"

definition start_service :: "string option \<Rightarrow> 'a lctl_scheme \<Rightarrow> esp_err \<times> 'a lctl_scheme" where
  \<comment> \<open>\<open>__esp_rmaker_start_local_ctrl_service\<close>\<close>
  "start_service serv_name s =
     (case serv_name of None \<Rightarrow> (ESP_ERR_INVALID_ARG, s)
      | Some n \<Rightarrow>
          let s = emits [App ''mdns_init'' [], Net (WifiCall (''mdns_hostname_set '' @ n) [])] s;
              s = checked (App ''esp_local_ctrl_start'' [10]) s;
              s = checked (App ''esp_local_ctrl_add_property'' [1, 1]) s
          in (ESP_OK, checked (App ''esp_local_ctrl_add_property'' [2, 0]) s))"

datatype prov_event = PROV_START | PROV_DEINIT | PROV_OTHER | NOT_PROV

definition esp_rmaker_local_ctrl_prov_event_handler :: "prov_event \<Rightarrow> 'a lctl_scheme \<Rightarrow> 'a lctl_scheme" where
  "esp_rmaker_local_ctrl_prov_event_handler ev s =
     (case ev of
        PROV_START \<Rightarrow> s\<lparr>wait_for_wifi_prov := True\<rparr>
      | PROV_DEINIT \<Rightarrow>
          let s = (if wait_for_wifi_prov s then
                     let s = s\<lparr>wait_for_wifi_prov := False\<rparr>
                     in if g_serv_name s \<noteq> None then
                          (snd (start_service (g_serv_name s) s))\<lparr>g_serv_name := None\<rparr>
                        else s
                   else s);
              s = emits [Net (EventUnregister ''WIFI_PROV_EVENT'' ''WIFI_PROV_START'' ''local_ctrl''),
                Net (EventUnregister ''WIFI_PROV_EVENT'' ''WIFI_PROV_DEINIT'' ''local_ctrl'')] s
          in s\<lparr>prov_handler := False\<rparr>
      | _ \<Rightarrow> s)"

definition esp_rmaker_init_local_ctrl_service :: "'a lctl_scheme \<Rightarrow> esp_err \<times> 'a lctl_scheme" where
  "esp_rmaker_init_local_ctrl_service s =
     (ESP_OK, (emits [Net (EventRegister ''WIFI_PROV_EVENT'' ''WIFI_PROV_START'' ''local_ctrl''),
        Net (EventRegister ''WIFI_PROV_EVENT'' ''WIFI_PROV_DEINIT'' ''local_ctrl'')] s)\<lparr>prov_handler := True\<rparr>)"

text \<open>The copy of a service name that is \<open>NULL\<close> is a fault, which ends in an abort.\<close>

definition esp_rmaker_start_local_ctrl_service ::
  "string option \<Rightarrow> 'a lctl_scheme \<Rightarrow> esp_err \<times> 'a lctl_scheme" where
  "esp_rmaker_start_local_ctrl_service serv_name s =
     (if \<not> wait_for_wifi_prov s then start_service serv_name s
      else case serv_name of None \<Rightarrow> (ESP_FAIL, emit (Os Abort) s)
      | Some n \<Rightarrow>
          let (ok, s) = alloc s; s = s\<lparr>g_serv_name := (if ok then Some n else None)\<rparr>
          in if g_serv_name s \<noteq> None then (ESP_OK, s) else (ESP_ERR_NO_MEM, s))"

subsection \<open>What a read answers\<close>

text \<open>
  The reference: the properties are read in order up to the first that fails; the result is its
  error, what was read before it, and the state.
\<close>

fun read_all :: "lc_prop list \<Rightarrow> 'a rm_scheme \<Rightarrow> esp_err \<times> string option list \<times> 'a rm_scheme" where
  "read_all [] s = (ESP_OK, [], s)"
| "read_all (p # ps) s =
     (let (ret, txt, s) = read_prop p s
      in if ret \<noteq> ESP_OK then (ret, [], s)
         else let (ret, txts, s) = read_all ps s in (ret, txt # txts, s))"

definition val_of :: "string option \<Rightarrow> lc_val" where
  "val_of txt = (case txt of None \<Rightarrow> lc_unset | Some t \<Rightarrow> owned t)"

lemma read_all_length:
  "read_all ps s = (ret, txts, s') \<Longrightarrow> (if ret = ESP_OK then length txts = length ps else length txts < length ps)"
proof (induction ps arbitrary: s ret txts s')
  case (Cons p ps)
  obtain r t u where p: "read_prop p s = (r, t, u)" by (metis prod_cases3)
  obtain r' ts u' where a: "read_all ps u = (r', ts, u')" by (metis prod_cases3)
  show ?case using Cons.prems Cons.IH [OF a] by (auto simp: p a split: if_splits)
qed simp

lemma read_loop_all:
  assumes "read_all ps s = (ret, txts, s')"
  shows "read_loop ps (length pre) (pre @ replicate (length ps) lc_unset) s =
    Some (ret, length pre + length txts + (if ret = ESP_OK then 0 else 1),
          pre @ map val_of txts @ replicate (length ps - length txts) lc_unset, s')"
  using assms
proof (induction ps arbitrary: pre s ret txts s')
  case (Cons p ps)
  obtain r t u where p: "read_prop p s = (r, t, u)" by (metis prod_cases3)
  show ?case
  proof (cases "r = ESP_OK")
    case True
    obtain r' ts u' where a: "read_all ps u = (r', ts, u')" by (metis prod_cases3)
    have c: "ret = r'" "txts = t # ts" "s' = u'" using Cons.prems True by (simp_all add: p a)
    have "read_loop (p # ps) (length pre) (pre @ replicate (length (p # ps)) lc_unset) s
        = read_loop ps (length (pre @ [val_of t])) ((pre @ [val_of t]) @ replicate (length ps) lc_unset) u"
      using True by (simp add: p val_of_def list_update_append split: option.split)
    then show ?thesis using Cons.IH [OF a, of "pre @ [val_of t]"] by (simp add: c)
  next
    case False
    then show ?thesis using Cons.prems by (auto simp: p)
  qed
qed simp

lemma free_loop_values:
  "(\<forall>v \<in> set vals. lv_free v \<or> v = lc_unset) \<Longrightarrow> free_loop [length pre..<length pre + length vals]
     (pre @ vals @ rest) = Some (pre @ replicate (length vals) lc_unset @ rest)"
proof (induction vals arbitrary: pre)
  case (Cons v vals)
  have upt: "[length pre..<length pre + length (v # vals)] = length pre # [Suc (length pre)..<Suc (length pre) + length vals]"
    by (simp add: upt_conv_Cons del: upt_Suc)
  have "free_loop [length pre..<length pre + length (v # vals)] (pre @ (v # vals) @ rest)
      = free_loop [length (pre @ [lc_unset])..<length (pre @ [lc_unset]) + length vals]
          ((pre @ [lc_unset]) @ vals @ rest)"
    unfolding upt using Cons.prems by (auto simp: list_update_append lc_unset_def simp del: upt_Suc)
  then show ?case using Cons.IH [of "pre @ [lc_unset]"] Cons.prems by simp
qed simp

lemma free_loop_append: "free_loop (ks @ ns) vals = Option.bind (free_loop ks vals) (free_loop ns)"
  by (induction ks arbitrary: vals) auto

text \<open>C36. Reading properties over the local network, for zeroed values: if every property can be
  read, the answer owns a text with its length for each property of a known type, and nothing
  for the others. If one fails, the values read before it are freed again and its error is the
  answer, unless it is the last one of the request: then the loop that frees, which goes up to
  and including the index after the failed property, reads past the end of the array.
\<close>

theorem local_values_read:
  "get_property_values props (replicate (length props) lc_unset) s =
     (let (ret, txts, s') = read_all props s
      in if ret = ESP_OK then Some (ESP_OK, map val_of txts, s')
         else if length txts + 1 < length props then Some (ret, replicate (length props) lc_unset, s')
         else None)"
proof -
  obtain ret txts s' where r: "read_all props s = (ret, txts, s')" by (metis prod_cases3)
  note L = read_all_length [OF r] and R = read_loop_all [OF r, of "[]"]
  show ?thesis
  proof (cases "ret = ESP_OK")
    case True
    then show ?thesis using L R by (simp add: get_property_values_def r)
  next
    case False
    let ?n = "length txts" and ?rest = "replicate (length props - length txts) lc_unset"
    have "free_loop [0..<?n] (map val_of txts @ ?rest) = Some (replicate ?n lc_unset @ ?rest)"
      using free_loop_values [of "map val_of txts" "[]" ?rest]
      by (auto simp: val_of_def owned_def split: option.split)
    moreover have "[0..<?n + 2] = [0..<?n] @ [?n, ?n + 1]" by (simp add: upt_conv_Cons)
    moreover have "replicate ?n lc_unset @ ?rest = replicate (length props) lc_unset"
      using L False by (simp add: replicate_add [symmetric])
    ultimately have "free_loop [0..<?n + 2] (map val_of txts @ ?rest) =
        (if ?n + 1 < length props then Some (replicate (length props) lc_unset) else None)"
      using L False by (simp add: free_loop_append lc_unset_def)
    then show ?thesis using R False by (simp add: get_property_values_def r)
  qed
qed

subsection \<open>Writing is all or nothing for a read-only property\<close>

lemma read_only_untouched:
  "p \<in> set props \<Longrightarrow> read_only p \<Longrightarrow>
     set_property_values strtof invoke parse props vals s = (ESP_ERR_INVALID_ARG, s)"
  by (auto simp: set_property_values_def)

subsection \<open>The service waits for the provisioning\<close>

datatype lc_event = LcProv prov_event | LcStart string

definition lc_do :: "lc_event \<Rightarrow> 'a lctl_scheme \<Rightarrow> 'a lctl_scheme" where
  "lc_do e s = (case e of
       LcProv ev \<Rightarrow> if prov_handler s then esp_rmaker_local_ctrl_prov_event_handler ev s else s
     | LcStart n \<Rightarrow> snd (esp_rmaker_start_local_ctrl_service (Some n) s))"

definition lc_starts :: "'a lctl_scheme \<Rightarrow> nat" where
  "lc_starts s = length (filter ((=) (App ''esp_local_ctrl_start'' [10])) (trace s))"

definition waiting_event :: "lc_event \<Rightarrow> bool" where
  "waiting_event e = (case e of LcProv PROV_DEINIT \<Rightarrow> False | _ \<Rightarrow> True)"

lemma waiting_defers:
  assumes "wait_for_wifi_prov s" "waiting_event e"
  shows "wait_for_wifi_prov (lc_do e s)" "lc_starts (lc_do e s) = lc_starts s"
  using assms
  by (auto simp: lc_do_def waiting_event_def lc_starts_def esp_rmaker_start_local_ctrl_service_def
      esp_rmaker_local_ctrl_prov_event_handler_def Let_def case_prod_beta alloc_def
      split: lc_event.split prov_event.splits list.split)

lemma waiting_run:
  "wait_for_wifi_prov s \<Longrightarrow> list_all waiting_event es \<Longrightarrow>
     wait_for_wifi_prov (fold lc_do es s) \<and> lc_starts (fold lc_do es s) = lc_starts s"
  by (induction es arbitrary: s) (simp_all add: waiting_defers)

end
