(* ===== verification/Rbuf.thy ===== *)
theory Rbuf
  imports Platform
begin

text \<open>
  The byte ring buffer of the diagnostics store,
  \<open>esp-insights/components/rtc_store/src/rbuf.c\<close>, a copy of the byte buffer of the SDK's
  \<open>esp_ringbuf\<close>. Pointers are offsets from \<open>pucHead\<close>, the storage is a list of bytes. The flags
  other than \<open>rbBUFFER_FULL_FLAG\<close> never change: the buffer is a byte buffer over static storage.

  The two binary semaphores are part of the buffer. A blocking call tries, again and again while
  its time lasts, to take a semaphore and then to do its work; \<open>gaps\<close> is what the other tasks do
  to the buffer before each of its attempts, and ends when the time is over. With a waiting time
  of 0, the only one in the program, nobody else acts and every gap is the identity.
\<close>

record rbuf =
  rb_size :: nat
  rb_full :: bool
  rb_acquire :: nat
  rb_write :: nat
  rb_read :: nat
  rb_free :: nat
  rb_waiting :: int \<comment> \<open>\<open>xItemsWaiting\<close>\<close>
  rb_mem :: "u8 list"
  rb_tx :: bool \<comment> \<open>\<open>xTransSemHandle\<close> can be taken\<close>
  rb_rx :: bool \<comment> \<open>\<open>xRecvSemHandle\<close> can be taken\<close>

subsection \<open>The operations inside the critical section\<close>

definition prvCheckItemFitsByteBuffer :: "rbuf \<Rightarrow> nat \<Rightarrow> bool" where
  "prvCheckItemFitsByteBuffer rb xItemSize =
     (if rb_acquire rb = rb_free rb then \<not> rb_full rb
      else if rb_acquire rb < rb_free rb then xItemSize \<le> rb_free rb - rb_acquire rb
      else xItemSize \<le> rb_size rb - (rb_acquire rb - rb_free rb))"

definition memcpy_at :: "u8 list \<Rightarrow> nat \<Rightarrow> u8 list \<Rightarrow> u8 list" where
  "memcpy_at mem off bs = take off mem @ bs @ drop (off + length bs) mem"

text \<open>
  The parts of \<open>prvCopyItemByteBuf\<close>: a \<open>memcpy\<close> to the acquire pointer, and what follows the copy.
\<close>

definition copy_bytes :: "rbuf \<Rightarrow> u8 list \<Rightarrow> rbuf" where
  "copy_bytes rb bs = rb\<lparr>rb_mem := memcpy_at (rb_mem rb) (rb_acquire rb) bs,
     rb_waiting := rb_waiting rb + int (length bs)\<rparr>"

definition copy_end :: "rbuf \<Rightarrow> rbuf" where
  "copy_end rb =
     (let rb = (if rb_acquire rb = rb_size rb then rb\<lparr>rb_acquire := 0\<rparr> else rb);
          rb = (if rb_acquire rb = rb_free rb then rb\<lparr>rb_full := True\<rparr> else rb)
      in rb\<lparr>rb_write := rb_acquire rb\<rparr>)"

definition prvCopyItemByteBuf :: "rbuf \<Rightarrow> u8 list \<Rightarrow> rbuf" where
  "prvCopyItemByteBuf rb item =
     (let xRemLen = rb_size rb - rb_acquire rb;
          (rb, item) =
            (if xRemLen < length item
             then ((copy_bytes rb (take xRemLen item))\<lparr>rb_acquire := 0\<rparr>, drop xRemLen item)
             else (rb, item));
          rb = copy_bytes rb item
      in copy_end (rb\<lparr>rb_acquire := rb_acquire rb + length item\<rparr>))"

text \<open>The result is the offset of the data and its length.\<close>

definition prvGetItemByteBuf :: "nat \<Rightarrow> rbuf \<Rightarrow> (nat \<times> nat) \<times> rbuf" where
  "prvGetItemByteBuf xMaxSize rb =
     (let ret = rb_read rb
      in if rb_write rb < rb_read rb \<or> rb_full rb then
           let n = rb_size rb - rb_read rb
           in if xMaxSize = 0 \<or> n \<le> xMaxSize then
                ((ret, n), rb\<lparr>rb_waiting := rb_waiting rb - int n, rb_read := 0\<rparr>)
              else ((ret, xMaxSize), rb\<lparr>rb_waiting := rb_waiting rb - int xMaxSize,
                                       rb_read := rb_read rb + xMaxSize\<rparr>)
         else
           let n = rb_write rb - rb_read rb
           in if xMaxSize = 0 \<or> n \<le> xMaxSize then
                ((ret, n), rb\<lparr>rb_waiting := rb_waiting rb - int n, rb_read := rb_write rb\<rparr>)
              else ((ret, xMaxSize), rb\<lparr>rb_waiting := rb_waiting rb - int xMaxSize,
                                       rb_read := rb_read rb + xMaxSize\<rparr>))"

definition prvReturnItemByteBuf :: "rbuf \<Rightarrow> rbuf" where
  "prvReturnItemByteBuf rb =
     (let rb = rb\<lparr>rb_free := rb_read rb\<rparr> in if rb_full rb then rb\<lparr>rb_full := False\<rparr> else rb)"

definition prvGetCurMaxSizeByteBuf :: "rbuf \<Rightarrow> int" where
  "prvGetCurMaxSizeByteBuf rb =
     (if rb_full rb then 0
      else let xFreeSize = int (rb_free rb) - int (rb_acquire rb)
           in if xFreeSize \<le> 0 then xFreeSize + int (rb_size rb) else xFreeSize)"

definition prvGetFreeSize :: "rbuf \<Rightarrow> int" where
  "prvGetFreeSize rb =
     (if rb_full rb then 0
      else let xFreeSize = int (rb_free rb) - int (rb_acquire rb)
           in if xFreeSize \<le> 0 then xFreeSize + int (rb_size rb) else xFreeSize)"

definition prvCheckItemAvail :: "rbuf \<Rightarrow> bool" where
  "prvCheckItemAvail rb =
     (if rb_read rb \<noteq> rb_free rb then False
      else 0 < rb_waiting rb \<and> (rb_read rb \<noteq> rb_write rb \<or> rb_full rb))"

subsection \<open>The public operations\<close>

definition prvInitializeNewRingbuffer :: "nat \<Rightarrow> u8 list \<Rightarrow> rbuf" where
  "prvInitializeNewRingbuffer xBufferSize storage =
     \<lparr>rb_size = xBufferSize, rb_full = False, rb_acquire = 0, rb_write = 0, rb_read = 0, rb_free = 0,
      rb_waiting = 0, rb_mem = storage, rb_tx = True, rb_rx = False\<rparr>"

definition rbuf_create :: "nat \<Rightarrow> u8 list \<Rightarrow> 'a plat_scheme \<Rightarrow> rbuf option \<times> 'a plat_scheme" where
  "rbuf_create xBufferSize storage s =
     (let (ok, s) = alloc s
      in if \<not> ok then (None, s)
         else let (tx, s) = alloc s; (rx, s) = alloc s
              in if \<not> tx \<or> \<not> rx then (None, s)
                 else (Some (prvInitializeNewRingbuffer xBufferSize storage), s))"

text \<open>The loop of \<open>rbuf_send\<close>: whether the item was sent, and whether to give the semaphore back.\<close>

fun send_attempts :: "(rbuf \<Rightarrow> rbuf) list \<Rightarrow> u8 list \<Rightarrow> rbuf \<Rightarrow> bool \<times> bool \<times> rbuf" where
  "send_attempts [] item rb = (False, False, rb)"
| "send_attempts (gap # gaps) item rb =
     (let rb = gap rb
      in if \<not> rb_tx rb then (False, False, rb)
         else
           let rb = rb\<lparr>rb_tx := False\<rparr>
           in if prvCheckItemFitsByteBuffer rb (length item) then
                let rb = prvCopyItemByteBuf rb item in (True, 0 < prvGetFreeSize rb, rb)
              else send_attempts gaps item rb)"

definition rbuf_send :: "(rbuf \<Rightarrow> rbuf) list \<Rightarrow> u8 list \<Rightarrow> rbuf \<Rightarrow> bool \<times> rbuf" where
  "rbuf_send gaps item rb =
     (if rb_size rb < length item then (False, rb)
      else if item = [] then (True, rb)
      else
        let (xReturn, xReturnSemaphore, rb) = send_attempts gaps item rb;
            rb = (if xReturn then rb\<lparr>rb_rx := True\<rparr> else rb);
            rb = (if xReturnSemaphore then rb\<lparr>rb_tx := True\<rparr> else rb)
        in (xReturn, rb))"

fun receive_attempts ::
  "(rbuf \<Rightarrow> rbuf) list \<Rightarrow> nat \<Rightarrow> rbuf \<Rightarrow> (nat \<times> nat) option \<times> rbuf" where
  "receive_attempts [] xMaxSize rb = (None, rb)"
| "receive_attempts (gap # gaps) xMaxSize rb =
     (let rb = gap rb
      in if \<not> rb_rx rb then (None, rb)
         else
           let rb = rb\<lparr>rb_rx := False\<rparr>
           in if prvCheckItemAvail rb then
                let (item, rb) = prvGetItemByteBuf xMaxSize rb
                in (Some item, if 0 < rb_waiting rb then rb\<lparr>rb_rx := True\<rparr> else rb)
              else receive_attempts gaps xMaxSize rb)"

definition rbuf_receive :: "(rbuf \<Rightarrow> rbuf) list \<Rightarrow> rbuf \<Rightarrow> (nat \<times> nat) option \<times> rbuf" where
  "rbuf_receive gaps rb = receive_attempts gaps 0 rb"

definition rbuf_receive_upto :: "(rbuf \<Rightarrow> rbuf) list \<Rightarrow> nat \<Rightarrow> rbuf \<Rightarrow> (nat \<times> nat) option \<times> rbuf" where
  "rbuf_receive_upto gaps xMaxSize rb =
     (if xMaxSize = 0 then (None, rb) else receive_attempts gaps xMaxSize rb)"

definition rbuf_return_item :: "rbuf \<Rightarrow> rbuf" where
  "rbuf_return_item rb = (prvReturnItemByteBuf rb)\<lparr>rb_tx := True\<rparr>"

definition rbuf_get_cur_free_size :: "rbuf \<Rightarrow> nat" where
  "rbuf_get_cur_free_size rb = nat (prvGetCurMaxSizeByteBuf rb)"

text \<open>The five values of \<open>rbuf_get_info\<close>: free, read, write, acquire and the items waiting.\<close>

definition rbuf_get_info :: "rbuf \<Rightarrow> nat \<times> nat \<times> nat \<times> nat \<times> int" where
  "rbuf_get_info rb = (rb_free rb, rb_read rb, rb_write rb, rb_acquire rb, rb_waiting rb)"

subsection \<open>The queue of bytes that the buffer implements\<close>

text \<open>
  From \<open>pucFree\<close> on, around the end of the storage, lie the bytes that are out (received and not
  yet returned) and then the bytes that wait.
\<close>

definition wrap :: "nat \<Rightarrow> nat \<Rightarrow> nat" where
  "wrap n i = (if i < n then i else i - n)"

definition holds :: "rbuf \<Rightarrow> u8 list \<Rightarrow> u8 list \<Rightarrow> bool" where
  "holds rb out q \<longleftrightarrow>
     length (rb_mem rb) = rb_size rb \<and> rb_free rb < rb_size rb \<and>
     length out + length q \<le> rb_size rb \<and>
     rb_read rb = wrap (rb_size rb) (rb_free rb + length out) \<and>
     rb_write rb = wrap (rb_size rb) (rb_free rb + length out + length q) \<and>
     rb_acquire rb = rb_write rb \<and> rb_waiting rb = int (length q) \<and>
     (rb_full rb \<longleftrightarrow> length out + length q = rb_size rb) \<and>
     (\<forall>i < length out + length q. rb_mem rb ! wrap (rb_size rb) (rb_free rb + i) = (out @ q) ! i)"

lemma holds_init: "0 < n \<Longrightarrow> length mem = n \<Longrightarrow> holds (prvInitializeNewRingbuffer n mem) [] []"
  by (simp add: holds_def prvInitializeNewRingbuffer_def wrap_def)

lemma holds_sem: "holds (rb\<lparr>rb_tx := a\<rparr>) out q = holds rb out q" "holds (rb\<lparr>rb_rx := a\<rparr>) out q = holds rb out q"
  by (simp_all add: holds_def wrap_def)

lemma holds_free_size:
  assumes "holds rb out q"
  shows "prvGetFreeSize rb = int (rb_size rb - length out - length q)"
    "rbuf_get_cur_free_size rb = rb_size rb - length out - length q"
  using assms
  by (auto simp: holds_def prvGetFreeSize_def rbuf_get_cur_free_size_def prvGetCurMaxSizeByteBuf_def wrap_def
      Let_def split: if_splits)

lemma holds_fits:
  assumes "holds rb out q" "n \<le> rb_size rb" "0 < n"
  shows "prvCheckItemFitsByteBuffer rb n \<longleftrightarrow> n \<le> rb_size rb - length out - length q"
  using assms by (auto simp: holds_def prvCheckItemFitsByteBuffer_def wrap_def split: if_splits)

lemma holds_avail: "holds rb out q \<Longrightarrow> prvCheckItemAvail rb \<longleftrightarrow> out = [] \<and> q \<noteq> []"
  by (cases "q = []") (auto simp: holds_def prvCheckItemAvail_def wrap_def simp flip: length_greater_0_conv split: if_splits)

subsection \<open>Writing\<close>

lemma memcpy_at:
  assumes "off + length bs \<le> length mem"
  shows "length (memcpy_at mem off bs) = length mem"
    "j < length mem \<Longrightarrow> memcpy_at mem off bs ! j = (if off \<le> j \<and> j < off + length bs then bs ! (j - off) else mem ! j)"
  using assms by (auto simp: memcpy_at_def nth_append min_def)

text \<open>The storage after a copy: the item lies at the ring positions from \<open>a\<close> on, the rest is as before.\<close>

definition ring_copy :: "u8 list \<Rightarrow> nat \<Rightarrow> u8 list \<Rightarrow> u8 list" where
  "ring_copy mem a item =
     (let n = length mem - a
      in if n < length item then memcpy_at (memcpy_at mem a (take n item)) 0 (drop n item)
         else memcpy_at mem a item)"

lemma ring_copy:
  assumes "a < length mem" "length item \<le> length mem" "i < length mem"
  shows "length (ring_copy mem a item) = length mem"
    "ring_copy mem a item ! wrap (length mem) (a + i)
     = (if i < length item then item ! i else mem ! wrap (length mem) (a + i))"
  using assms by (auto simp: ring_copy_def memcpy_at wrap_def Let_def)

lemma copy_end_fields:
  "rb_acquire rb \<le> rb_size rb \<Longrightarrow> copy_end rb = rb\<lparr>rb_acquire := wrap (rb_size rb) (rb_acquire rb),
     rb_full := rb_full rb \<or> wrap (rb_size rb) (rb_acquire rb) = rb_free rb,
     rb_write := wrap (rb_size rb) (rb_acquire rb)\<rparr>"
  by (auto simp: copy_end_def wrap_def Let_def)

lemma copy_fields:
  assumes "rb_acquire rb < rb_size rb" "length (rb_mem rb) = rb_size rb" "length item \<le> rb_size rb"
  shows "prvCopyItemByteBuf rb item = rb\<lparr>rb_mem := ring_copy (rb_mem rb) (rb_acquire rb) item,
     rb_waiting := rb_waiting rb + int (length item),
     rb_acquire := wrap (rb_size rb) (rb_acquire rb + length item),
     rb_full := rb_full rb \<or> wrap (rb_size rb) (rb_acquire rb + length item) = rb_free rb,
     rb_write := wrap (rb_size rb) (rb_acquire rb + length item)\<rparr>"
proof (cases "rb_size rb - rb_acquire rb < length item")
  case True
  then have "wrap (rb_size rb) (rb_acquire rb + length item) = length item - (rb_size rb - rb_acquire rb)"
    "wrap (rb_size rb) (length item - (rb_size rb - rb_acquire rb)) = length item - (rb_size rb - rb_acquire rb)"
    using assms by (auto simp: wrap_def)
  then show ?thesis using True assms
    by (simp add: prvCopyItemByteBuf_def copy_bytes_def copy_end_fields ring_copy_def Let_def)
next
  case False
  then show ?thesis using assms
    by (simp add: prvCopyItemByteBuf_def copy_bytes_def copy_end_fields ring_copy_def Let_def)
qed

lemma copy_keeps [simp]:
  "rb_size (prvCopyItemByteBuf rb item) = rb_size rb" "rb_tx (prvCopyItemByteBuf rb item) = rb_tx rb"
  "rb_rx (prvCopyItemByteBuf rb item) = rb_rx rb" "rb_free (prvCopyItemByteBuf rb item) = rb_free rb"
  "rb_read (prvCopyItemByteBuf rb item) = rb_read rb"
proof -
  have "rb_size (copy_end rb) = rb_size rb" "rb_tx (copy_end rb) = rb_tx rb" "rb_rx (copy_end rb) = rb_rx rb"
    "rb_free (copy_end rb) = rb_free rb" "rb_read (copy_end rb) = rb_read rb" for rb
    by (simp_all add: copy_end_def Let_def)
  then show "rb_size (prvCopyItemByteBuf rb item) = rb_size rb" "rb_tx (prvCopyItemByteBuf rb item) = rb_tx rb"
    "rb_rx (prvCopyItemByteBuf rb item) = rb_rx rb" "rb_free (prvCopyItemByteBuf rb item) = rb_free rb"
    "rb_read (prvCopyItemByteBuf rb item) = rb_read rb"
    by (simp_all add: prvCopyItemByteBuf_def copy_bytes_def Let_def)
qed

lemma wrap_less: "i < 2 * n \<Longrightarrow> 0 < n \<Longrightarrow> wrap n i < n"
  by (auto simp: wrap_def)

lemma holds_copy:
  assumes h: "holds rb out q" and fit: "length item \<le> rb_size rb - length out - length q" and ne: "item \<noteq> []"
  shows "holds (prvCopyItemByteBuf rb item) out (q @ item)"
proof -
  let ?n = "rb_size rb" and ?f = "rb_free rb" and ?u = "length out + length q" and ?a = "rb_acquire rb"
  have b: "length (rb_mem rb) = ?n" "?f < ?n" "?u + length item \<le> ?n" "?a = wrap ?n (?f + ?u)" "0 < length item"
    using h fit ne by (auto simp: holds_def add.assoc)
  have a: "?a < ?n" using b by (auto simp: wrap_def)
  have full: "rb_full rb \<or> wrap ?n (?a + length item) = ?f \<longleftrightarrow> ?u + length item = ?n"
    using h b by (auto simp: holds_def wrap_def)
  have wr: "wrap ?n (?a + length item) = wrap ?n (?f + (?u + length item))"
    using b by (auto simp: wrap_def)
  have mem: "ring_copy (rb_mem rb) ?a item ! wrap ?n (?f + i) = (out @ q @ item) ! i" if i: "i < ?u + length item" for i
  proof (cases "i < ?u")
    case True
    have w: "wrap ?n (?a + (?n - ?u + i)) = wrap ?n (?f + i)" using b True by (auto simp: wrap_def)
    have "?n - ?u + i < ?n" "\<not> ?n - ?u + i < length item" "length item \<le> ?n" using b(3,5) True by linarith+
    then have "ring_copy (rb_mem rb) ?a item ! wrap ?n (?a + (?n - ?u + i)) = rb_mem rb ! wrap ?n (?a + (?n - ?u + i))"
      using ring_copy(2) [of ?a "rb_mem rb" item "?n - ?u + i"] a unfolding b(1) by presburger
    moreover have "rb_mem rb ! wrap ?n (?f + i) = (out @ q) ! i" using h True by (simp add: holds_def)
    moreover have "(out @ q) ! i = ((out @ q) @ item) ! i" using True nth_append [of "out @ q" item i] by simp
    ultimately show ?thesis using w by simp
  next
    case False
    have w: "wrap ?n (?a + (i - ?u)) = wrap ?n (?f + i)" using b False i by (auto simp: wrap_def)
    have "i - ?u < ?n" "i - ?u < length item" "length item \<le> ?n" using b(3) False i by linarith+
    then have "ring_copy (rb_mem rb) ?a item ! wrap ?n (?a + (i - ?u)) = item ! (i - ?u)"
      using ring_copy(2) [of ?a "rb_mem rb" item "i - ?u"] a unfolding b(1) by presburger
    moreover have "((out @ q) @ item) ! i = item ! (i - ?u)" using False nth_append [of "out @ q" item i] by simp
    ultimately show ?thesis using w by simp
  qed
  have len: "length (ring_copy (rb_mem rb) ?a item) = ?n"
    using ring_copy(1) [of ?a "rb_mem rb" item 0] a b by simp
  have cf: "rb_waiting rb = int (length q)" "rb_read rb = wrap ?n (?f + length out)"
    using h by (simp_all add: holds_def)
  have eq: "prvCopyItemByteBuf rb item = rb\<lparr>rb_mem := ring_copy (rb_mem rb) ?a item,
     rb_waiting := rb_waiting rb + int (length item), rb_acquire := wrap ?n (?a + length item),
     rb_full := rb_full rb \<or> wrap ?n (?a + length item) = ?f, rb_write := wrap ?n (?a + length item)\<rparr>"
    by (rule copy_fields) (use a b in simp_all)
  show ?thesis
    unfolding eq holds_def using b(2,3) cf mem len full wr by (simp add: add.assoc)
qed

subsection \<open>Reading\<close>

text \<open>How much is read at once: the bytes up to the end of the storage, and at most \<open>m\<close> if it is not 0.\<close>

definition chunk :: "rbuf \<Rightarrow> u8 list \<Rightarrow> nat \<Rightarrow> nat" where
  "chunk rb q m = (let n = min (length q) (rb_size rb - rb_read rb) in if m = 0 then n else min m n)"

lemma holds_get:
  assumes h: "holds rb [] q" and ne: "q \<noteq> []"
  shows "fst (prvGetItemByteBuf m rb) = (rb_read rb, chunk rb q m)"
    "holds (snd (prvGetItemByteBuf m rb)) (take (chunk rb q m) q) (drop (chunk rb q m) q)"
    "take (chunk rb q m) (drop (rb_read rb) (rb_mem rb)) = take (chunk rb q m) q"
    "0 < chunk rb q m" "rb_mem (snd (prvGetItemByteBuf m rb)) = rb_mem rb"
    "rb_waiting (snd (prvGetItemByteBuf m rb)) = int (length q - chunk rb q m)"
    "rb_size (snd (prvGetItemByteBuf m rb)) = rb_size rb" "rb_tx (snd (prvGetItemByteBuf m rb)) = rb_tx rb"
    "rb_free (snd (prvGetItemByteBuf m rb)) = rb_free rb"
proof -
  let ?n = "rb_size rb" and ?k = "chunk rb q m"
  have b: "length (rb_mem rb) = ?n" "rb_free rb < ?n" "length q \<le> ?n" "rb_read rb = rb_free rb"
    "rb_write rb = wrap ?n (rb_free rb + length q)" "0 < length q" "rb_waiting rb = int (length q)"
    "rb_full rb \<longleftrightarrow> length q = ?n"
    using h ne by (auto simp: holds_def wrap_def)
  have get: "prvGetItemByteBuf m rb = ((rb_read rb, ?k), rb\<lparr>rb_waiting := rb_waiting rb - int ?k,
      rb_read := wrap ?n (rb_read rb + ?k)\<rparr>)"
  proof (cases "rb_write rb < rb_read rb \<or> rb_full rb")
    case True
    then have "?n - rb_read rb \<le> length q" using b(2,4,5,8) by (cases "rb_free rb + length q < ?n") (auto simp: wrap_def)
    then have "min (length q) (?n - rb_read rb) = ?n - rb_read rb" "wrap ?n ?n = 0"
      "i < ?n - rb_read rb \<Longrightarrow> wrap ?n (rb_read rb + i) = rb_read rb + i" for i
      by (auto simp: wrap_def)
    then show ?thesis using True b(2,4) by (auto simp: prvGetItemByteBuf_def chunk_def Let_def min_def)
  next
    case False
    then have w: "rb_write rb = rb_read rb + length q" "rb_read rb + length q < ?n"
    proof -
      have "\<not> wrap ?n (rb_free rb + length q) < rb_free rb" "length q \<noteq> ?n" using False b(4,5,8) by simp_all
      then have "rb_free rb + length q < ?n" using b(2,3) unfolding wrap_def by presburger
      then show "rb_write rb = rb_read rb + length q" "rb_read rb + length q < ?n"
        using b(4,5) by (simp_all add: wrap_def)
    qed
    then have "min (length q) (?n - rb_read rb) = length q" "i \<le> length q \<Longrightarrow> wrap ?n (rb_read rb + i) = rb_read rb + i" for i
      by (auto simp: wrap_def)
    then show ?thesis using False w by (auto simp: prvGetItemByteBuf_def chunk_def Let_def min_def)
  qed
  have k: "0 < ?k" "?k \<le> length q" "rb_free rb + ?k \<le> ?n" using b by (auto simp: chunk_def Let_def)
  show "fst (prvGetItemByteBuf m rb) = (rb_read rb, ?k)" "0 < ?k"
    "rb_mem (snd (prvGetItemByteBuf m rb)) = rb_mem rb"
    "rb_waiting (snd (prvGetItemByteBuf m rb)) = int (length q - ?k)"
    "rb_size (snd (prvGetItemByteBuf m rb)) = ?n" "rb_tx (snd (prvGetItemByteBuf m rb)) = rb_tx rb"
    "rb_free (snd (prvGetItemByteBuf m rb)) = rb_free rb"
    using b k by (simp_all add: get of_nat_diff)
  show "holds (snd (prvGetItemByteBuf m rb)) (take ?k q) (drop ?k q)"
  proof -
    have q: "length (take ?k q) = ?k" "length (drop ?k q) = length q - ?k" using k(2) by simp_all
    have "rb_acquire rb = wrap ?n (rb_free rb + length q)"
      "\<forall>i < length q. rb_mem rb ! wrap ?n (rb_free rb + i) = q ! i"
      using h by (simp_all add: holds_def)
    then show ?thesis using b(1-5,7,8) k(2) unfolding get holds_def q by (simp add: of_nat_diff)
  qed
  have "rb_mem rb ! (rb_free rb + i) = q ! i" if "i < ?k" for i
  proof -
    have "rb_mem rb ! wrap ?n (rb_free rb + i) = ([] @ q) ! i"
      using h that k(2) unfolding holds_def by simp
    then show ?thesis using that k(3) by (simp add: wrap_def)
  qed
  then show "take ?k (drop (rb_read rb) (rb_mem rb)) = take ?k q"
    using b(1,4) k(2,3) by (intro nth_equalityI) simp_all
qed

lemma holds_return:
  assumes "holds rb out q" "out = [] \<longrightarrow> length q < rb_size rb"
  shows "holds (prvReturnItemByteBuf rb) [] q"
proof -
  let ?n = "rb_size rb" and ?o = "length out"
  have b: "rb_free rb < ?n" "?o + length q \<le> ?n" "rb_read rb = wrap ?n (rb_free rb + ?o)"
    using assms(1) by (auto simp: holds_def)
  have nf: "length q < ?n" using assms(2) b by (cases "out = []") (auto simp flip: length_greater_0_conv)
  have mem: "rb_mem rb ! wrap ?n (rb_read rb + i) = q ! i" if "i < length q" for i
  proof -
    have "wrap ?n (rb_read rb + i) = wrap ?n (rb_free rb + (?o + i))" using b that by (auto simp: wrap_def)
    moreover have "rb_mem rb ! wrap ?n (rb_free rb + (?o + i)) = (out @ q) ! (?o + i)"
      using assms(1) that unfolding holds_def by (meson nat_add_left_cancel_less)
    ultimately show ?thesis by simp
  qed
  have "rb_read rb < ?n" "rb_write rb = wrap ?n (rb_read rb + length q)"
    using assms(1) b by (auto simp: holds_def wrap_def)
  then show ?thesis using assms(1) mem nf by (auto simp: holds_def prvReturnItemByteBuf_def wrap_def [of _ "_ + 0"] Let_def)
      (auto simp: wrap_def)
qed

subsection \<open>The operations without waiting\<close>

text \<open>A call whose waiting time is 0 makes one attempt, or some more within the same tick.\<close>

abbreviation no_wait :: "nat \<Rightarrow> (rbuf \<Rightarrow> rbuf) list" where
  "no_wait k \<equiv> replicate (Suc k) (\<lambda>rb. rb)"

lemma send_attempts_taken: "send_attempts (replicate k (\<lambda>rb. rb)) item (rb\<lparr>rb_tx := False\<rparr>) = (False, False, rb\<lparr>rb_tx := False\<rparr>)"
  by (cases k) simp_all

lemma receive_attempts_taken: "receive_attempts (replicate k (\<lambda>rb. rb)) m (rb\<lparr>rb_rx := False\<rparr>) = (None, rb\<lparr>rb_rx := False\<rparr>)"
  by (cases k) simp_all

lemma send_holds:
  assumes h: "holds rb out q" and run: "rbuf_send (no_wait k) item rb = (r, rb')"
  shows "r \<longleftrightarrow> item = [] \<or> (rb_tx rb \<and> length item \<le> rb_size rb - length out - length q)"
    "holds rb' out (if r then q @ item else q)" "rb_size rb' = rb_size rb"
    "r \<and> item \<noteq> [] \<Longrightarrow> rb_rx rb'"
    "rb_tx rb' \<longleftrightarrow> rb_tx rb \<and> (item = [] \<or> rb_size rb < length item
       \<or> length item < rb_size rb - length out - length q)"
proof -
  consider "rb_size rb < length item" | "item = []" | "item \<noteq> []" "length item \<le> rb_size rb" "\<not> rb_tx rb"
    | "item \<noteq> []" "length item \<le> rb_size rb" "rb_tx rb" "rb_size rb - length out - length q < length item"
    | "item \<noteq> []" "length item \<le> rb_size rb" "rb_tx rb" "length item \<le> rb_size rb - length out - length q"
    by linarith
  then have "(r \<longleftrightarrow> item = [] \<or> (rb_tx rb \<and> length item \<le> rb_size rb - length out - length q)) \<and>
    holds rb' out (if r then q @ item else q) \<and> rb_size rb' = rb_size rb \<and> (r \<and> item \<noteq> [] \<longrightarrow> rb_rx rb') \<and>
    (rb_tx rb' \<longleftrightarrow> rb_tx rb \<and> (item = [] \<or> rb_size rb < length item
       \<or> length item < rb_size rb - length out - length q))"
  proof cases
    case 4
    have "\<not> prvCheckItemFitsByteBuffer (rb\<lparr>rb_tx := False\<rparr>) (length item)"
      using holds_fits [of "rb\<lparr>rb_tx := False\<rparr>" out q "length item"] h 4 by (simp add: holds_sem)
    then have "rb' = rb\<lparr>rb_tx := False\<rparr>" "\<not> r" using run 4 by (simp_all add: rbuf_send_def send_attempts_taken)
    then show ?thesis using 4 h by (simp add: holds_sem)
  next
    case 5
    let ?rb = "rb\<lparr>rb_tx := False\<rparr>" and ?c = "prvCopyItemByteBuf (rb\<lparr>rb_tx := False\<rparr>) item"
    have hb: "holds ?rb out q" using h by (simp add: holds_sem)
    have fits: "prvCheckItemFitsByteBuffer ?rb (length item)" using holds_fits [OF hb, of "length item"] 5 by simp
    have c: "holds ?c out (q @ item)" using holds_copy [OF hb] 5 by simp
    have f: "prvGetFreeSize ?c = int (rb_size rb - length out - length q - length item)"
      using holds_free_size(1) [OF c] by simp
    have tx: "rb_tx ?c = False" by simp
    show ?thesis using run 5 fits c f tx by (auto simp: rbuf_send_def holds_sem Let_def split: if_splits)
  qed (use run h in \<open>auto simp: rbuf_send_def\<close>)
  then show "r \<longleftrightarrow> item = [] \<or> (rb_tx rb \<and> length item \<le> rb_size rb - length out - length q)"
    "holds rb' out (if r then q @ item else q)" "rb_size rb' = rb_size rb" "r \<and> item \<noteq> [] \<Longrightarrow> rb_rx rb'"
    "rb_tx rb' \<longleftrightarrow> rb_tx rb \<and> (item = [] \<or> rb_size rb < length item
       \<or> length item < rb_size rb - length out - length q)"
    by blast+
qed

lemma receive_holds:
  assumes h: "holds rb out q" and run: "receive_attempts (no_wait k) m rb = (r, rb')"
  shows "r = None \<longleftrightarrow> \<not> (rb_rx rb \<and> out = [] \<and> q \<noteq> [])" "r = None \<Longrightarrow> holds rb' out q"
    "r = Some (off, n) \<Longrightarrow> n = chunk rb q m \<and> 0 < n \<and> off = rb_read rb
       \<and> take n (drop off (rb_mem rb')) = take n q \<and> holds rb' (take n q) (drop n q)
       \<and> (rb_rx rb' \<longleftrightarrow> n < length q)"
    "rb_size rb' = rb_size rb" "rb_tx rb' = rb_tx rb" "rb_free rb' = rb_free rb" "rb_mem rb' = rb_mem rb"
proof -
  let ?rb = "rb\<lparr>rb_rx := False\<rparr>"
  have hb: "holds ?rb out q" using h by (simp add: holds_sem)
  have ch: "chunk ?rb q m = chunk rb q m" by (simp add: chunk_def)
  have "(r = None \<longleftrightarrow> \<not> (rb_rx rb \<and> out = [] \<and> q \<noteq> [])) \<and> (r = None \<longrightarrow> holds rb' out q) \<and>
    (\<forall>off n. r = Some (off, n) \<longrightarrow> n = chunk rb q m \<and> 0 < n \<and> off = rb_read rb
       \<and> take n (drop off (rb_mem rb')) = take n q \<and> holds rb' (take n q) (drop n q)
       \<and> (rb_rx rb' \<longleftrightarrow> n < length q)) \<and> rb_size rb' = rb_size rb \<and> rb_tx rb' = rb_tx rb
    \<and> rb_free rb' = rb_free rb \<and> rb_mem rb' = rb_mem rb"
  proof (cases "rb_rx rb \<and> out = [] \<and> q \<noteq> []")
    case True
    then have hq: "holds ?rb [] q" "q \<noteq> []" using hb by simp_all
    note G = holds_get [OF hq, of m, unfolded ch]
    have rx: "rb_rx (snd (prvGetItemByteBuf m ?rb)) = False" by (simp add: prvGetItemByteBuf_def Let_def)
    obtain g t where gt: "prvGetItemByteBuf m ?rb = (g, t)" by fastforce
    have "prvCheckItemAvail ?rb" using holds_avail [OF hb] True by simp
    then have "r = Some g" "rb' = (if 0 < rb_waiting t then t\<lparr>rb_rx := True\<rparr> else t)"
      using run True gt by (simp_all add: Let_def)
    moreover have "0 < rb_waiting t \<longleftrightarrow> chunk rb q m < length q" using G(6) gt by simp
    ultimately show ?thesis using G rx gt True by (auto simp: holds_sem)
  next
    case False
    then have "r = None" "rb' = rb \<or> rb' = ?rb"
      using run holds_avail [OF hb] by (auto simp: receive_attempts_taken split: if_splits)
    then show ?thesis using False h hb by auto
  qed
  then show "r = None \<longleftrightarrow> \<not> (rb_rx rb \<and> out = [] \<and> q \<noteq> [])" "r = None \<Longrightarrow> holds rb' out q"
    "r = Some (off, n) \<Longrightarrow> n = chunk rb q m \<and> 0 < n \<and> off = rb_read rb
       \<and> take n (drop off (rb_mem rb')) = take n q \<and> holds rb' (take n q) (drop n q)
       \<and> (rb_rx rb' \<longleftrightarrow> n < length q)"
    "rb_size rb' = rb_size rb" "rb_tx rb' = rb_tx rb" "rb_free rb' = rb_free rb" "rb_mem rb' = rb_mem rb"
    by blast+
qed

lemma return_holds:
  assumes "holds rb out q" "out = [] \<longrightarrow> length q < rb_size rb"
  shows "holds (rbuf_return_item rb) [] q" "rb_tx (rbuf_return_item rb)"
    "rb_size (rbuf_return_item rb) = rb_size rb" "rb_rx (rbuf_return_item rb) = rb_rx rb"
    "rb_mem (rbuf_return_item rb) = rb_mem rb" "rb_read (rbuf_return_item rb) = rb_read rb"
    "rb_acquire (rbuf_return_item rb) = rb_acquire rb"
  using holds_return [OF assms]
  by (simp_all add: rbuf_return_item_def holds_sem) (simp_all add: prvReturnItemByteBuf_def Let_def)

text \<open>C14. The ring buffer is a queue of bytes with a bound. While \<open>out\<close> is out and \<open>q\<close> waits, a send
  without waiting succeeds exactly if there is room for all of the item and the semaphore of the
  writers can be taken, and then appends it; otherwise the queue is as it was. A receive succeeds
  exactly if nothing is out, something waits and the semaphore of the readers can be taken; it
  points at the longest part of the front of the queue that lies in one piece, or at as much of it as was
  asked for. Returning frees what is out, and the free size is what neither waits nor is out.\<close>

theorem ring_buffer_refines:
  assumes h: "holds rb out q"
  shows "(\<forall>k item r rb'. rbuf_send (no_wait k) item rb = (r, rb') \<longrightarrow>
      (r \<longleftrightarrow> item = [] \<or> (rb_tx rb \<and> length item \<le> rb_size rb - length out - length q)) \<and>
      holds rb' out (if r then q @ item else q)) \<and>
    (\<forall>k m r rb'. (if m = 0 then rbuf_receive (no_wait k) rb else rbuf_receive_upto (no_wait k) m rb) = (r, rb') \<longrightarrow>
      (case r of None \<Rightarrow> \<not> (rb_rx rb \<and> out = [] \<and> q \<noteq> []) \<and> holds rb' out q
       | Some (off, n) \<Rightarrow> rb_rx rb \<and> out = [] \<and> n = chunk rb q m \<and> 0 < n \<and>
           take n (drop off (rb_mem rb')) = take n q \<and> holds rb' (take n q) (drop n q))) \<and>
    (out \<noteq> [] \<longrightarrow> holds (rbuf_return_item rb) [] q) \<and>
    rbuf_get_cur_free_size rb = rb_size rb - length out - length q"
proof (intro conjI allI impI)
  fix k item r rb'
  assume "rbuf_send (no_wait k) item rb = (r, rb')"
  from send_holds [OF h this] show "r \<longleftrightarrow> item = [] \<or> (rb_tx rb \<and> length item \<le> rb_size rb - length out - length q)"
    "holds rb' out (if r then q @ item else q)" by blast+
next
  fix k m r rb'
  assume "(if m = 0 then rbuf_receive (no_wait k) rb else rbuf_receive_upto (no_wait k) m rb) = (r, rb')"
  then have "receive_attempts (no_wait k) m rb = (r, rb')"
    by (auto simp: rbuf_receive_def rbuf_receive_upto_def split: if_splits)
  note R = receive_holds [OF h this]
  show "case r of None \<Rightarrow> \<not> (rb_rx rb \<and> out = [] \<and> q \<noteq> []) \<and> holds rb' out q
       | Some (off, n) \<Rightarrow> rb_rx rb \<and> out = [] \<and> n = chunk rb q m \<and> 0 < n \<and>
           take n (drop off (rb_mem rb')) = take n q \<and> holds rb' (take n q) (drop n q)"
    using R(1-3) by (cases r) auto
qed (use return_holds [OF h] holds_free_size [OF h] in auto)

theorem ring_buffer_refines_witness:
  "holds (snd (rbuf_send (no_wait 0) [7, 8] (prvInitializeNewRingbuffer 3 [0, 0, 0]))) [] [7, 8]"
proof -
  let ?rb = "prvInitializeNewRingbuffer 3 [0, 0, 0]"
  obtain r rb' where run: "rbuf_send (no_wait 0) [7, 8] ?rb = (r, rb')" by fastforce
  have h: "holds ?rb [] []" by (rule holds_init) simp_all
  have "rb_tx ?rb" "rb_size ?rb = 3" by (simp_all add: prvInitializeNewRingbuffer_def)
  then show ?thesis
    using ring_buffer_refines [OF h, THEN conjunct1, THEN spec, THEN spec, THEN spec, THEN spec, THEN mp, OF run] run
    by (auto split: if_splits)
qed

end
