(* ===== verification/Rtc_Store.thy ===== *)
theory Rtc_Store
  imports Rbuf Prelude
begin

text \<open>
  The store of the diagnostics data in RTC memory,
  \<open>esp-insights/components/rtc_store/src/rtc_store.c\<close>: two ring buffers, for critical data, of
  which what does not fit is dropped, and for other data, of which the oldest is overwritten.
  Only the store's lengths and bytes survive a restart; the ring buffer is rebuilt from them.

  The sizes are the ones of the configuration and are arguments (\<open>rb_size\<close>). A taken lock is a
  flag; a caller that waits for a taken lock for ever has no result (\<open>None\<close>). The parts of the
  storage that a record occupies are bytes; the header of a non-critical record is 8 of them: the
  address of its group and its length, little endian.
\<close>

text \<open>\<open>rbuf_data_t\<close> with its \<open>data_store_t\<close>: the buffer and the size are those of the ring buffer.\<close>

record rtc_chan =
  rc_rb :: rbuf
  rc_locked :: bool
  rc_offset :: nat \<comment> \<open>\<open>store->read_offset\<close>\<close>
  rc_len :: nat \<comment> \<open>\<open>store->len\<close>\<close>

record rtc_priv =
  rp_init :: bool
  rp_critical :: rtc_chan
  rp_non_critical :: rtc_chan

datatype rtc_event =
  RTC_STORE_EVENT_CRITICAL_DATA_LOW_MEM | RTC_STORE_EVENT_CRITICAL_DATA_WRITE_FAIL
  | RTC_STORE_EVENT_NON_CRITICAL_DATA_LOW_MEM | RTC_STORE_EVENT_NON_CRITICAL_DATA_WRITE_FAIL

definition rtc_store_read_complete :: "nat \<Rightarrow> rtc_chan \<Rightarrow> rtc_chan" where
  "rtc_store_read_complete n c = c\<lparr>rc_len := rc_len c - n, rc_offset := rb_read (rc_rb c)\<rparr>"

definition rtc_store_write_complete :: "nat \<Rightarrow> rtc_chan \<Rightarrow> rtc_chan" where
  "rtc_store_write_complete n c = c\<lparr>rc_len := rc_len c + n\<rparr>"

definition now :: "(rbuf \<Rightarrow> rbuf) list" where
  "now = [\<lambda>rb. rb]" \<comment> \<open>a waiting time of 0\<close>

text \<open>The zeros of \<open>dummy_buf\<close>, 32 at a time.\<close>

function fill_dummy :: "nat \<Rightarrow> rbuf \<Rightarrow> rbuf" where
  "fill_dummy n rb =
     (if n = 0 then rb
      else if 32 \<le> n then fill_dummy (n - 32) (snd (rbuf_send now (replicate 32 0) rb))
      else snd (rbuf_send now (replicate n 0) rb))"
  by auto
termination
  by (relation "measure fst") auto

declare fill_dummy.simps [simp del]

text \<open>
  The received data is a piece of the storage; it is read when it is sent again. Where the data is
  longer than its distance from the start, the \<open>memcpy\<close> of the source and its target overlap, which C
  leaves undefined; the model copies as \<open>memmove\<close> does.
\<close>

definition piece :: "rbuf \<Rightarrow> nat \<times> nat \<Rightarrow> u8 list" where
  "piece rb d = take (snd d) (drop (fst d) (rb_mem rb))"

definition returned :: "(nat \<times> nat) option \<Rightarrow> rbuf \<Rightarrow> rbuf" where
  "returned d rb = (if d = None then rb else rbuf_return_item rb)"

definition rtc_store_records_align :: "nat \<Rightarrow> rtc_chan \<Rightarrow> rtc_chan" where
  "rtc_store_records_align dummy_data_len c =
     (let (data, rb) = rbuf_receive now (rc_rb c);
          rb = fill_dummy dummy_data_len (returned data rb);
          (dummy_data, rb) = rbuf_receive now rb;
          rb = returned dummy_data rb;
          rb = (case data of None \<Rightarrow> rb | Some d \<Rightarrow> snd (rbuf_send now (piece rb d) rb))
      in c\<lparr>rc_rb := rb, rc_offset := 0\<rparr>)"

text \<open>The critical write, between taking and giving the lock; \<open>mark\<close> is the reporting watermark.\<close>

definition critical_write :: "nat \<Rightarrow> u8 list \<Rightarrow> rtc_chan \<Rightarrow> esp_err \<times> rtc_event list \<times> rtc_chan" where
  "critical_write mark data c =
     (let write_size = rb_size (rc_rb c) - rb_write (rc_rb c);
          c = (if write_size < rbuf_get_cur_free_size (rc_rb c) \<and> write_size < length data
               then rtc_store_records_align write_size c else c);
          (sent, rb) = rbuf_send now data (rc_rb c);
          c = c\<lparr>rc_rb := rb\<rparr>;
          (ret, evs, c) =
            (if sent then (ESP_OK, [], rtc_store_write_complete (length data) c)
             else (ESP_FAIL, [RTC_STORE_EVENT_CRITICAL_DATA_WRITE_FAIL], c))
      in (ret, evs @ (if rbuf_get_cur_free_size (rc_rb c) < mark
                      then [RTC_STORE_EVENT_CRITICAL_DATA_LOW_MEM] else []), c))"

definition rtc_store_critical_data_write ::
  "nat \<Rightarrow> u8 list option \<Rightarrow> rtc_priv \<Rightarrow> (esp_err \<times> rtc_event list \<times> rtc_priv) option" where
  "rtc_store_critical_data_write mark data p =
     (if data = None \<or> data = Some [] then Some (ESP_ERR_INVALID_ARG, [], p)
      else if \<not> rp_init p then Some (ESP_ERR_INVALID_STATE, [], p)
      else if rc_locked (rp_critical p) then None
      else let (ret, evs, c) = critical_write mark (the data) (rp_critical p)
           in Some (ret, evs, p\<lparr>rp_critical := c\<rparr>))"

text \<open>The header of a record of another than critical data, and the length in it.\<close>

definition le32 :: "u32 \<Rightarrow> u8 list" where
  "le32 w = map (\<lambda>i. ucast (drop_bit (8 * i) w)) [0, 1, 2, 3]"

definition of_le32 :: "u8 list \<Rightarrow> u32" where
  "of_le32 bs = or (ucast (bs ! 0)) (or (push_bit 8 (ucast (bs ! 1)))
     (or (push_bit 16 (ucast (bs ! 2))) (push_bit 24 (ucast (bs ! 3)))))"

definition hdr_len :: "u8 list \<Rightarrow> nat" where
  "hdr_len bs = unat (of_le32 (take 4 (drop 4 bs)))"

text \<open>The loop that makes room; it need not end.\<close>

partial_function (option) make_room :: "nat \<Rightarrow> rtc_chan \<Rightarrow> rtc_chan option" where
  "make_room req_free c =
     (if req_free \<le> rbuf_get_cur_free_size (rc_rb c) then Some c
      else
        let header = take 8 (drop (rc_offset c) (rb_mem (rc_rb c)));
            (data, rb) = rbuf_receive_upto now (8 + hdr_len header) (rc_rb c)
        in case data of
             None \<Rightarrow> make_room req_free (c\<lparr>rc_rb := rb\<rparr>)
           | Some d \<Rightarrow> make_room req_free
               (rtc_store_read_complete (snd d) (c\<lparr>rc_rb := rbuf_return_item rb\<rparr>)))"

definition non_critical_write ::
  "nat \<Rightarrow> u32 \<Rightarrow> u8 list \<Rightarrow> rtc_chan \<Rightarrow> (esp_err \<times> rtc_event list \<times> rtc_chan) option" where
  "non_critical_write mark dg data c =
     (let req_free = 8 + length data
      in case make_room req_free c of None \<Rightarrow> None
         | Some c \<Rightarrow>
             let write_size = rb_size (rc_rb c) - rb_write (rc_rb c);
                 c = (if write_size < req_free then rtc_store_records_align write_size c else c);
                 rb = snd (rbuf_send now (le32 dg @ le32 (word_of_nat (length data))) (rc_rb c));
                 rb = snd (rbuf_send now data rb);
                 c = rtc_store_write_complete req_free (c\<lparr>rc_rb := rb\<rparr>)
             in Some (ESP_OK, if rbuf_get_cur_free_size (rc_rb c) < mark
                              then [RTC_STORE_EVENT_NON_CRITICAL_DATA_LOW_MEM] else [], c))"

text \<open>\<open>in_drom\<close> tells which addresses are in the flash data segment.\<close>

definition rtc_store_non_critical_data_write ::
  "(u32 \<Rightarrow> bool) \<Rightarrow> nat \<Rightarrow> u32 \<Rightarrow> u8 list option \<Rightarrow> rtc_priv
     \<Rightarrow> (esp_err \<times> rtc_event list \<times> rtc_priv) option" where
  "rtc_store_non_critical_data_write in_drom mark dg data p =
     (if dg = 0 \<or> data = None \<or> data = Some [] then Some (ESP_ERR_INVALID_ARG, [], p)
      else if \<not> in_drom dg then Some (ESP_ERR_INVALID_ARG, [], p)
      else if \<not> rp_init p then Some (ESP_ERR_INVALID_STATE, [], p)
      else if rc_locked (rp_non_critical p) then Some (ESP_FAIL, [], p)
      else case non_critical_write mark dg (the data) (rp_non_critical p) of
             None \<Rightarrow> None
           | Some (ret, evs, c) \<Rightarrow> Some (ret, evs, p\<lparr>rp_non_critical := c\<rparr>))"

subsection \<open>Reading and releasing\<close>

text \<open>Both on a channel of the initialised store; the result is the offset and the size of the data.\<close>

definition rtc_store_data_read_and_lock :: "bool \<Rightarrow> rtc_chan \<Rightarrow> ((nat \<times> nat) option \<times> rtc_chan) option" where
  "rtc_store_data_read_and_lock init c =
     (if \<not> init then Some (None, c)
      else if rc_locked c then None
      else
        let n = (if rb_size (rc_rb c) < rc_offset c + rc_len c then rb_size (rc_rb c) - rc_offset c else rc_len c)
        in if n \<noteq> 0 then Some (Some (rc_offset c, n), c\<lparr>rc_locked := True\<rparr>)
           else Some (None, c\<lparr>rc_locked := False\<rparr>))"

definition rtc_store_data_release_and_unlock :: "bool \<Rightarrow> nat \<Rightarrow> rtc_chan \<Rightarrow> esp_err \<times> rtc_chan" where
  "rtc_store_data_release_and_unlock init n c =
     (if \<not> init then (ESP_ERR_INVALID_STATE, c)
      else
        let (data, rb) = rbuf_receive_upto now n (rc_rb c);
            c = (case data of None \<Rightarrow> c\<lparr>rc_rb := rb\<rparr>
                 | Some d \<Rightarrow> rtc_store_read_complete (snd d) (c\<lparr>rc_rb := rbuf_return_item rb\<rparr>))
        in (ESP_OK, c\<lparr>rc_locked := False\<rparr>))"

definition rtc_store_data_release :: "bool \<Rightarrow> nat \<Rightarrow> rtc_chan \<Rightarrow> (esp_err \<times> rtc_chan) option" where
  "rtc_store_data_release init n c =
     (if \<not> init then Some (ESP_ERR_INVALID_STATE, c)
      else case rtc_store_data_read_and_lock init c of
             None \<Rightarrow> None
           | Some (None, c) \<Rightarrow> Some (ESP_OK, c)
           | Some (Some _, c) \<Rightarrow> Some (ESP_OK, snd (rtc_store_data_release_and_unlock init n c)))"

subsection \<open>The start\<close>

datatype reset_reason = ESP_RST_UNKNOWN | ESP_RST_POWERON | ESP_RST_BROWNOUT | ESP_RST_OTHER

text \<open>
  What RTC memory holds of a channel (\<open>len\<close>, \<open>read_offset\<close> and the bytes) decides what is kept.
  A copy that would read past the buffer has no result.
\<close>

definition kept_data ::
  "reset_reason \<Rightarrow> nat \<Rightarrow> nat \<Rightarrow> u8 list \<Rightarrow> 'a plat_scheme \<Rightarrow> (u8 list option \<times> 'a plat_scheme) option" where
  "kept_data reason len read_offset buf s =
     (if reason \<noteq> ESP_RST_OTHER then Some (None, s)
      else if \<not> (0 < len \<and> len \<le> length buf) then Some (None, s)
      else
        let (ok, s) = alloc s
        in if \<not> ok then Some (None, s)
           else if length buf < read_offset then None
           else
             let a_part_len = (if length buf < read_offset + len then length buf - read_offset else len)
             in Some (Some (take a_part_len (drop read_offset buf) @ take (len - a_part_len) buf), s))"

definition rtc_store_rbuf_init ::
  "reset_reason \<Rightarrow> nat \<Rightarrow> nat \<Rightarrow> u8 list \<Rightarrow> 'a plat_scheme
     \<Rightarrow> (esp_err \<times> rtc_chan option \<times> 'a plat_scheme) option" where
  "rtc_store_rbuf_init reason len read_offset buf s =
     (let (ok, s) = alloc s
      in if \<not> ok then Some (ESP_ERR_NO_MEM, None, s)
         else case kept_data reason len read_offset buf s of
                None \<Rightarrow> None
              | Some (tmp_buf, s) \<Rightarrow>
                  let buf = (if tmp_buf = None then replicate (length buf) 0 else buf);
                      (ringbuf, s) = rbuf_create (length buf) buf s
                  in case ringbuf of
                       None \<Rightarrow> Some (ESP_ERR_NO_MEM, None, s)
                     | Some rb \<Rightarrow>
                         let rb = (case tmp_buf of None \<Rightarrow> rb | Some t \<Rightarrow> snd (rbuf_send now t rb))
                         in Some (ESP_OK, Some \<lparr>rc_rb = rb, rc_locked = False, rc_offset = 0,
                              rc_len = (if tmp_buf = None then 0 else len)\<rparr>, s))"

definition rtc_store_init ::
  "reset_reason \<Rightarrow> nat \<times> nat \<times> u8 list \<Rightarrow> nat \<times> nat \<times> u8 list \<Rightarrow> rtc_priv \<Rightarrow> 'a plat_scheme
     \<Rightarrow> (esp_err \<times> rtc_priv \<times> 'a plat_scheme) option" where
  "rtc_store_init reason critical non_critical p s =
     (if rp_init p then Some (ESP_ERR_INVALID_STATE, p, s)
      else case rtc_store_rbuf_init reason (fst critical) (fst (snd critical)) (snd (snd critical)) s of
             None \<Rightarrow> None
           | Some (err, None, s) \<Rightarrow> Some (err, p, s)
           | Some (err, Some c, s) \<Rightarrow>
               (case rtc_store_rbuf_init reason (fst non_critical) (fst (snd non_critical))
                  (snd (snd non_critical)) s of
                  None \<Rightarrow> None
                | Some (err, None, s) \<Rightarrow> Some (err, p, s)
                | Some (err, Some nc, s) \<Rightarrow>
                    Some (ESP_OK, \<lparr>rp_init = True, rp_critical = c, rp_non_critical = nc\<rparr>, s)))"

text \<open>The freeing of the ring buffers and locks is not shown, nor what RTC memory holds after a failed start.\<close>

definition rtc_store_deinit :: "rtc_priv \<Rightarrow> rtc_priv" where
  "rtc_store_deinit p = p\<lparr>rp_init := False\<rparr>"

subsection \<open>The invariant of a channel\<close>

text \<open>The bytes \<open>q\<close> are stored, none is out, the lengths of the store agree with the ring buffer, readers
  find the semaphore when there is something to read, and writers when there is nothing.\<close>

definition chan_ok :: "rtc_chan \<Rightarrow> u8 list \<Rightarrow> bool" where
  "chan_ok c q \<longleftrightarrow> holds (rc_rb c) [] q \<and> rc_len c = length q \<and> rc_offset c = rb_read (rc_rb c)
     \<and> (q \<noteq> [] \<longrightarrow> rb_rx (rc_rb c)) \<and> (q = [] \<longrightarrow> rb_tx (rc_rb c))"

lemma now_no_wait: "now = no_wait 0"
  by (simp add: now_def)

lemma holds_read_free: "holds rb [] q \<Longrightarrow> rb_read rb = rb_free rb \<and> rb_read rb < rb_size rb"
  by (auto simp: holds_def wrap_def)

lemma holds_write: "holds rb out q \<Longrightarrow> rb_acquire rb = rb_write rb \<and> rb_write rb < rb_size rb"
  using wrap_less [of "rb_free rb + length out + length q" "rb_size rb"] by (simp add: holds_def)

text \<open>A send that stays before the end of the storage writes one piece and leaves what is before it.\<close>

lemma send_piece:
  assumes "rbuf_send now item rb = (True, rb')" "holds rb [] q" "item \<noteq> []"
    "rb_acquire rb + length item \<le> rb_size rb"
  shows "rb_mem rb' = memcpy_at (rb_mem rb) (rb_acquire rb) item"
    "rb_acquire rb' = wrap (rb_size rb) (rb_acquire rb + length item)"
    "rb_read rb' = rb_read rb" "rb_free rb' = rb_free rb"
proof -
  have b: "rb_acquire rb < rb_size rb" "length (rb_mem rb) = rb_size rb"
    using assms(2) by (auto simp: holds_def wrap_def)
  have f: "prvCopyItemByteBuf (rb\<lparr>rb_tx := False\<rparr>) item = (rb\<lparr>rb_tx := False\<rparr>)
    \<lparr>rb_mem := ring_copy (rb_mem rb) (rb_acquire rb) item, rb_waiting := rb_waiting rb + int (length item),
     rb_acquire := wrap (rb_size rb) (rb_acquire rb + length item),
     rb_full := rb_full rb \<or> wrap (rb_size rb) (rb_acquire rb + length item) = rb_free rb,
     rb_write := wrap (rb_size rb) (rb_acquire rb + length item)\<rparr>"
    using copy_fields [of "rb\<lparr>rb_tx := False\<rparr>" item] b assms(4) by simp
  have r: "rb' = (prvCopyItemByteBuf (rb\<lparr>rb_tx := False\<rparr>) item)\<lparr>rb_rx := True\<rparr>
    \<or> rb' = (prvCopyItemByteBuf (rb\<lparr>rb_tx := False\<rparr>) item)\<lparr>rb_rx := True, rb_tx := True\<rparr>"
    using assms(1,3) by (auto simp: rbuf_send_def now_def Let_def split: if_splits)
  have m: "ring_copy (rb_mem rb) (rb_acquire rb) item = memcpy_at (rb_mem rb) (rb_acquire rb) item"
    using assms(4) b by (auto simp: ring_copy_def Let_def)
  show "rb_mem rb' = memcpy_at (rb_mem rb) (rb_acquire rb) item"
    "rb_acquire rb' = wrap (rb_size rb) (rb_acquire rb + length item)"
    "rb_read rb' = rb_read rb" "rb_free rb' = rb_free rb"
    using r unfolding f m by auto
qed

lemma memcpy_at_prefix: "off \<le> length mem \<Longrightarrow> k \<le> off \<Longrightarrow> take k (memcpy_at mem off bs) = take k mem"
  by (simp add: memcpy_at_def min_absorb1)

lemma memcpy_at_piece: "off + length bs \<le> length mem \<Longrightarrow> take (length bs) (drop off (memcpy_at mem off bs)) = bs"
  by (simp add: memcpy_at_def)

subsection \<open>Moving the data to the start of the buffer\<close>

lemma fill_dummy_holds:
  assumes "holds rb [] q" "rb_tx rb" "length q + n < rb_size rb" "rb_acquire rb + n \<le> rb_size rb"
  shows "holds (fill_dummy n rb) [] (q @ replicate n 0) \<and> rb_tx (fill_dummy n rb)
    \<and> rb_size (fill_dummy n rb) = rb_size rb \<and> (0 < n \<longrightarrow> rb_rx (fill_dummy n rb))
    \<and> rb_read (fill_dummy n rb) = rb_read rb
    \<and> take (rb_acquire rb) (rb_mem (fill_dummy n rb)) = take (rb_acquire rb) (rb_mem rb)"
  using assms
proof (induction n rb arbitrary: q rule: fill_dummy.induct)
  case (1 n rb)
  show ?case
  proof (cases "n = 0")
    case True
    then show ?thesis using "1.prems" by (simp add: fill_dummy.simps)
  next
    case False
    define k where "k = min 32 n"
    have k: "0 < k" "k \<le> n" using False by (simp_all add: k_def)
    obtain r t where s: "rbuf_send now (replicate k 0) rb = (r, t)" by fastforce
    note S = send_holds [OF "1.prems"(1) s [unfolded now_no_wait]]
    have r: "r" using S(1) "1.prems"(2,3) k by simp
    have t: "holds t [] (q @ replicate k 0)" "rb_tx t" "rb_size t = rb_size rb" "rb_rx t"
      using S(2-5) r "1.prems"(2,3) k by auto
    have b: "length (rb_mem rb) = rb_size rb" using "1.prems"(1) by (simp add: holds_def)
    have sT: "rbuf_send now (replicate k 0) rb = (True, t)" using s r by simp
    note P = send_piece [OF sT "1.prems"(1)]
    have p: "rb_mem t = memcpy_at (rb_mem rb) (rb_acquire rb) (replicate k 0)"
      "rb_acquire t = wrap (rb_size rb) (rb_acquire rb + k)" "rb_read t = rb_read rb"
      using P k "1.prems"(4) by auto
    have pre: "take (rb_acquire rb) (rb_mem t) = take (rb_acquire rb) (rb_mem rb)"
      using p(1) memcpy_at_prefix "1.prems"(4) b by simp
    show ?thesis
    proof (cases "k = n")
      case True
      then have "fill_dummy n rb = t"
        using False s by (subst fill_dummy.simps) (auto simp: k_def fill_dummy.simps [of 0] min_def split: if_splits)
      then show ?thesis using t p(3) pre True by simp
    next
      case False
      then have n: "k = 32" "32 \<le> n" "32 < n" by (auto simp: k_def min_def split: if_splits)
      have a: "rb_acquire t = rb_acquire rb + 32" using p(2) n "1.prems"(4) by (simp add: wrap_def)
      have eq: "fill_dummy n rb = fill_dummy (n - 32) t"
        using n s by (subst fill_dummy.simps) simp
      have "snd (rbuf_send now (replicate 32 0) rb) = t" using s n(1) by simp
      note IH = "1.IH" [OF _ n(2), unfolded this, of "q @ replicate 32 0"]
      have "holds (fill_dummy (n - 32) t) [] ((q @ replicate 32 0) @ replicate (n - 32) 0)
        \<and> rb_tx (fill_dummy (n - 32) t) \<and> rb_size (fill_dummy (n - 32) t) = rb_size t
        \<and> (0 < n - 32 \<longrightarrow> rb_rx (fill_dummy (n - 32) t)) \<and> rb_read (fill_dummy (n - 32) t) = rb_read t
        \<and> take (rb_acquire t) (rb_mem (fill_dummy (n - 32) t)) = take (rb_acquire t) (rb_mem t)"
        by (rule IH) (use t n a "1.prems"(3,4) in auto)
      moreover have "replicate 32 0 @ replicate (n - 32) 0 = replicate n (0 :: u8)"
        using n(2) by (simp add: replicate_add [symmetric])
      moreover have "take (rb_acquire rb) xs = take (rb_acquire rb) (take (rb_acquire t) xs)" for xs :: "u8 list"
        using a by (simp add: min_absorb1)
      ultimately show ?thesis unfolding eq using t(3) p(3) pre n(3) by (metis append.assoc zero_less_diff)
    qed
  qed
qed

text \<open>Where there is more room than behind the write pointer, the data does not wrap around.\<close>

lemma unwrapped:
  assumes "holds rb [] q" "rb_size rb - rb_write rb < rb_size rb - length q"
  shows "rb_write rb = rb_read rb + length q" "0 < rb_read rb" "rb_write rb < rb_size rb" "length q < rb_size rb"
  using assms by (auto simp: holds_def wrap_def split: if_splits)

text \<open>All of the data is received and returned; its bytes stay where they are.\<close>

lemma align_received:
  assumes h: "holds rb [] q" and sem: "q \<noteq> [] \<longrightarrow> rb_rx rb" "q = [] \<longrightarrow> rb_tx rb"
    and room: "rb_size rb - rb_write rb < rb_size rb - length q"
    and run: "rbuf_receive now rb = (data, rb1)"
  shows "data = (if q = [] then None else Some (rb_read rb, length q))"
    "holds (returned data rb1) [] []" "rb_tx (returned data rb1)" "rb_size (returned data rb1) = rb_size rb"
    "rb_mem (returned data rb1) = rb_mem rb" "rb_read (returned data rb1) = rb_write rb"
    "take (length q) (drop (rb_read rb) (rb_mem rb)) = q"
proof -
  note w = unwrapped [OF h room] and fr = holds_read_free [OF h]
  note R1 = receive_holds [OF h run [unfolded rbuf_receive_def now_no_wait]]
  show d: "data = (if q = [] then None else Some (rb_read rb, length q))"
  proof (cases "q = []")
    case True
    then show ?thesis using R1(1) by simp
  next
    case False
    then obtain off n where o: "data = Some (off, n)" using R1(1) sem by (cases data) auto
    then show ?thesis using R1(3) [OF o] False w(1,3) by (simp add: chunk_def)
  qed
  have "holds (returned data rb1) [] [] \<and> rb_tx (returned data rb1) \<and> rb_size (returned data rb1) = rb_size rb
    \<and> rb_mem (returned data rb1) = rb_mem rb \<and> rb_read (returned data rb1) = rb_write rb"
  proof (cases "q = []")
    case True
    then have "returned data rb1 = rb1" "holds rb1 [] []" using d R1(2) by (simp_all add: returned_def)
    then show ?thesis using True R1(4-7) sem fr w(1) holds_read_free [of rb1 "[]"] by simp
  next
    case False
    then have h1: "holds rb1 q []" using R1(3) [of "rb_read rb" "length q"] d by simp
    then have "rb_read rb1 = rb_write rb" using R1(4,6) fr w(1,3) by (simp add: holds_def wrap_def)
    then show ?thesis using return_holds [OF h1] False d R1(4,7) by (simp add: returned_def)
  qed
  then show "holds (returned data rb1) [] []" "rb_tx (returned data rb1)" "rb_size (returned data rb1) = rb_size rb"
    "rb_mem (returned data rb1) = rb_mem rb" "rb_read (returned data rb1) = rb_write rb" by blast+
  show "take (length q) (drop (rb_read rb) (rb_mem rb)) = q"
    using R1(3) [of "rb_read rb" "length q"] d R1(7) by (cases "q = []") auto
qed

text \<open>The dummy data brings an empty buffer's pointers back to the start of the storage.\<close>

lemma dummy_out:
  assumes h: "holds rb [] []" and tx: "rb_tx rb" and w: "0 < rb_read rb"
    and run: "rbuf_receive now (fill_dummy (rb_size rb - rb_read rb) rb) = (dd, rb1)"
  shows "holds (returned dd rb1) [] []" "rb_tx (returned dd rb1)" "rb_size (returned dd rb1) = rb_size rb"
    "rb_read (returned dd rb1) = 0" "take (rb_read rb) (rb_mem (returned dd rb1)) = take (rb_read rb) (rb_mem rb)"
proof -
  let ?n = "rb_size rb" and ?w = "rb_read rb" and ?rb = "fill_dummy (rb_size rb - rb_read rb) rb"
  have wn: "?w < ?n" using holds_read_free [OF h] by simp
  have a: "rb_acquire rb = ?w" using h by (simp add: holds_def wrap_def)
  have F: "holds ?rb [] (replicate (?n - ?w) 0)" "rb_tx ?rb" "rb_size ?rb = ?n" "rb_rx ?rb" "rb_read ?rb = ?w"
      "take ?w (rb_mem ?rb) = take ?w (rb_mem rb)"
    using fill_dummy_holds [OF h tx, of "?n - ?w"] w wn a by auto
  note R = receive_holds [OF F(1) run [unfolded rbuf_receive_def now_no_wait]]
  obtain off n where dd: "dd = Some (off, n)" using R(1) F(4) wn by (cases dd) auto
  have n: "n = ?n - ?w" using R(3) [OF dd] F(3,5) by (simp add: chunk_def)
  have h1: "holds rb1 (replicate (?n - ?w) 0) []" using R(3) [OF dd] n by simp
  have ne: "replicate (?n - ?w) (0 :: u8) \<noteq> []" using wn by simp
  have "rb_free ?rb = ?w" using holds_read_free [OF F(1)] F(5) by simp
  then have "rb_read rb1 = 0" using h1 R(4,6) F(3) wn by (simp add: holds_def wrap_def)
  then show "holds (returned dd rb1) [] []" "rb_tx (returned dd rb1)" "rb_size (returned dd rb1) = ?n"
    "rb_read (returned dd rb1) = 0" "take ?w (rb_mem (returned dd rb1)) = take ?w (rb_mem rb)"
    using return_holds [OF h1] ne R(4,7) F(3,6) by (simp_all add: dd returned_def)
qed

lemma align_ok:
  assumes ok: "chan_ok c q"
    and room: "rb_size (rc_rb c) - rb_write (rc_rb c) < rb_size (rc_rb c) - length q"
    and a: "a = rtc_store_records_align (rb_size (rc_rb c) - rb_write (rc_rb c)) c"
  shows "chan_ok a q" "rb_tx (rc_rb a)" "rb_read (rc_rb a) = 0" "rb_size (rc_rb a) = rb_size (rc_rb c)"
    "rc_locked a = rc_locked c"
proof -
  let ?rb = "rc_rb c" and ?n = "rb_size (rc_rb c)" and ?r = "rb_read (rc_rb c)"
  have h: "holds ?rb [] q" and sem: "q \<noteq> [] \<longrightarrow> rb_rx ?rb" "q = [] \<longrightarrow> rb_tx ?rb" and len: "rc_len c = length q"
    using ok by (simp_all add: chan_ok_def)
  note w = unwrapped [OF h room]
  obtain data rb1 where r1: "rbuf_receive now ?rb = (data, rb1)" by fastforce
  note A = align_received [OF h sem room r1]
  obtain dd rb4 where r4: "rbuf_receive now (fill_dummy (?n - rb_write ?rb) (returned data rb1)) = (dd, rb4)"
    by fastforce
  have "0 < rb_read (returned data rb1)" using A(6) w(1,2) by simp
  note D = dummy_out [OF A(2,3) this, unfolded A(4,6), OF r4]
  define rb5 where "rb5 = returned dd rb4"
  have n5: "rb_size rb5 = ?n" using D(3) by (simp add: rb5_def)
  define rb6 where "rb6 = (case data of None \<Rightarrow> rb5 | Some d \<Rightarrow> snd (rbuf_send now (piece rb5 d) rb5))"
  have al: "a = c\<lparr>rc_rb := rb6, rc_offset := 0\<rparr>"
    unfolding a rtc_store_records_align_def rb6_def rb5_def by (simp add: r1 r4 Let_def)
  have "holds rb6 [] q \<and> rb_tx rb6 \<and> rb_read rb6 = 0 \<and> rb_size rb6 = ?n \<and> (q \<noteq> [] \<longrightarrow> rb_rx rb6)"
  proof (cases "q = []")
    case True
    then show ?thesis using A(1) D n5 by (simp add: rb6_def rb5_def)
  next
    case False
    have "take (length q) (drop ?r (rb_mem rb5)) = take (length q) (drop ?r (rb_mem ?rb))"
      using D(5) A(5) w(1) by (metis rb5_def take_drop add.commute)
    then have pc: "piece rb5 (?r, length q) = q" using A(7) by (simp add: piece_def)
    obtain r t where s: "rbuf_send now q rb5 = (r, t)" by fastforce
    have h5: "holds rb5 [] []" "rb_tx rb5" "rb_read rb5 = 0" using D by (simp_all add: rb5_def)
    note S = send_holds [OF h5(1) s [unfolded now_no_wait]]
    have r: "r" using S(1) h5(2) n5 w(4) by simp
    have sT: "rbuf_send now q rb5 = (True, t)" using s r by simp
    have "rb_free rb5 = 0" using holds_read_free [OF h5(1)] h5(3) by simp
    then have "rb_acquire rb5 = 0" using h5(1) by (simp add: holds_def wrap_def)
    then have "rb_read t = 0" using send_piece(3) [OF sT h5(1) False] h5(3) w(4) n5 by simp
    moreover have "rb6 = t" using A(1) False pc s by (simp add: rb6_def)
    ultimately show ?thesis using S(2-5) r h5 False w(4) n5 by auto
  qed
  then show "chan_ok a q" "rb_tx (rc_rb a)" "rb_read (rc_rb a) = 0" "rb_size (rc_rb a) = ?n"
    "rc_locked a = rc_locked c"
    using len by (simp_all add: al chan_ok_def)
qed

subsection \<open>Critical data\<close>

text \<open>
  A critical record is stored in one piece or not at all. One that would fit is dropped only after
  an earlier failure has left the semaphore of the writers taken, and the data was not moved.
\<close>

lemma critical_write_ok:
  assumes ok: "chan_ok c q" and ne: "data \<noteq> []" and run: "critical_write mark data c = (ret, evs, c')"
  shows "ret = ESP_OK \<Longrightarrow> chan_ok c' (q @ data) \<and> length data \<le> rb_size (rc_rb c) - length q
      \<and> (\<exists>off. take (length data) (drop off (rb_mem (rc_rb c'))) = data)"
    "ret \<noteq> ESP_OK \<Longrightarrow> chan_ok c' q \<and> (rb_size (rc_rb c) - length q < length data \<or> \<not> rb_tx (rc_rb c))"
proof -
  let ?n = "rb_size (rc_rb c)" and ?ws = "rb_size (rc_rb c) - rb_write (rc_rb c)"
  have free: "rbuf_get_cur_free_size (rc_rb c) = ?n - length q"
    using holds_free_size(2) ok by (auto simp: chan_ok_def)
  define a where "a = (if ?ws < ?n - length q \<and> ?ws < length data then rtc_store_records_align ?ws c else c)"
  have A: "chan_ok a q" "rb_size (rc_rb a) = ?n" "rb_tx (rc_rb c) \<longrightarrow> rb_tx (rc_rb a)"
    using align_ok [OF ok _ refl] ok by (auto simp: a_def)
  have room: "rb_acquire (rc_rb a) + length data \<le> ?n" if "length data \<le> ?n - length q"
  proof (cases "?ws < ?n - length q \<and> ?ws < length data")
    case True
    then have "holds (rc_rb a) [] q" "rb_read (rc_rb a) = 0"
      using align_ok [OF ok _ refl] A(1) by (auto simp: a_def chan_ok_def)
    moreover from this have "rb_free (rc_rb a) = 0" using holds_read_free by metis
    moreover have "length q < ?n" using True by linarith
    ultimately have "rb_acquire (rc_rb a) = length q" using A(2) by (simp add: holds_def wrap_def)
    then show ?thesis using that \<open>length q < ?n\<close> by linarith
  next
    case False
    then have "length data \<le> ?ws" using that by linarith
    moreover have "rb_acquire (rc_rb c) = rb_write (rc_rb c)" "rb_write (rc_rb c) \<le> ?n"
      using ok by (auto simp: chan_ok_def holds_def wrap_def)
    ultimately show ?thesis using False by (auto simp: a_def)
  qed
  obtain r t where s: "rbuf_send now data (rc_rb a) = (r, t)" by fastforce
  have h: "holds (rc_rb a) [] q" using A(1) by (simp add: chan_ok_def)
  note S = send_holds [OF h s [unfolded now_no_wait]]
  have c': "c' = (if r then rtc_store_write_complete (length data) (a\<lparr>rc_rb := t\<rparr>) else a\<lparr>rc_rb := t\<rparr>)"
    and ret: "ret = (if r then ESP_OK else ESP_FAIL)"
    using run s free by (auto simp: critical_write_def Let_def a_def split: if_splits)
  show "chan_ok c' (q @ data) \<and> length data \<le> ?n - length q
      \<and> (\<exists>off. take (length data) (drop off (rb_mem (rc_rb c'))) = data)" if "ret = ESP_OK"
  proof -
    have r: r using that ret by (simp split: if_splits)
    have fits: "length data \<le> ?n - length q" using S(1) r ne A(2) by simp
    have sT: "rbuf_send now data (rc_rb a) = (True, t)" using s r by simp
    note P = send_piece [OF sT h ne, unfolded A(2), OF room [OF fits]]
    have "rb_acquire (rc_rb a) + length data \<le> length (rb_mem (rc_rb a))"
      using room [OF fits] h A(2) by (simp add: holds_def)
    then have "take (length data) (drop (rb_acquire (rc_rb a)) (rb_mem t)) = data"
      using P(1) memcpy_at_piece by simp
    then show ?thesis using A(1) S(2,4) r ne P(3) fits c' by (auto simp: chan_ok_def rtc_store_write_complete_def)
  qed
  show "chan_ok c' q \<and> (?n - length q < length data \<or> \<not> rb_tx (rc_rb c))" if "ret \<noteq> ESP_OK"
  proof -
    have r: "\<not> r" using that ret by (simp split: if_splits)
    have no: "?n - length q < length data \<or> \<not> rb_tx (rc_rb c)" using S(1) r A(2,3) by auto
    have same: "rb_rx t = rb_rx (rc_rb a)" "rb_read t = rb_read (rc_rb a)"
      using s r ne by (auto simp: rbuf_send_def now_def Let_def split: if_splits)
    have tx: "q = [] \<longrightarrow> rb_tx t" using S(1,5) r A(1,2) ne by (cases q) (simp_all add: chan_ok_def not_le)
    show ?thesis using no A(1) S(2) r same tx c' by (auto simp: chan_ok_def)
  qed
qed

subsection \<open>Other data: a queue of records\<close>

type_synonym nc_record = "u32 \<times> u8 list"

definition enc :: "nc_record \<Rightarrow> u8 list" where
  "enc r = le32 (fst r) @ le32 (word_of_nat (length (snd r))) @ snd r"

definition encs :: "nc_record list \<Rightarrow> u8 list" where
  "encs rs = concat (map enc rs)"

lemma encs_simps [simp]: "encs [] = []" "encs (r # rs) = enc r @ encs rs" "encs (rs @ rs') = encs rs @ encs rs'"
  by (simp_all add: encs_def)

lemma encs_split: "encs (take k rs) @ encs (drop k rs) = encs rs"
  unfolding encs_simps(3) [symmetric] append_take_drop_id ..

lemma length_le32 [simp]: "length (le32 w) = 4"
  by (simp add: le32_def)

lemma length_enc [simp]: "length (enc r) = 8 + length (snd r)"
  by (simp add: enc_def)

lemma le32_inverse: "of_le32 (le32 w) = w"
proof (rule bit_word_eqI)
  fix n assume "n < LENGTH(32)"
  then consider "n < 8" | "8 \<le> n" "n < 16" | "16 \<le> n" "n < 24" | "24 \<le> n" "n < 32" by fastforce
  then show "bit (of_le32 (le32 w)) n = bit w n"
    by cases (auto simp: of_le32_def le32_def bit_simps)
qed

lemma hdr_len_enc: "length (snd r) < 2 ^ 32 \<Longrightarrow> hdr_len (take 8 (enc r @ bs)) = length (snd r)"
proof -
  assume a: "length (snd r) < 2 ^ 32"
  have "take 4 (drop 4 (take 8 (enc r @ bs))) = le32 (word_of_nat (length (snd r)))"
    by (simp add: enc_def)
  then show ?thesis using a by (simp add: hdr_len_def le32_inverse unat_of_nat take_bit_nat_eq_self)
qed

text \<open>Pieces of the lengths \<open>ls\<close> from \<open>p\<close> on, none of which wraps around the end \<open>n\<close>.\<close>

fun in_one_piece :: "nat \<Rightarrow> nat \<Rightarrow> nat list \<Rightarrow> bool" where
  "in_one_piece n p [] = True"
| "in_one_piece n p (l # ls) = (p + l \<le> n \<and> in_one_piece n (wrap n (p + l)) ls)"

lemma in_one_piece_short: "p + sum_list ls \<le> n \<Longrightarrow> in_one_piece n p ls"
  by (induction ls arbitrary: p) (auto simp: wrap_def)

lemma in_one_piece_append:
  "p < n \<Longrightarrow> sum_list ls \<le> n \<Longrightarrow>
   in_one_piece n p (ls @ [l]) \<longleftrightarrow> in_one_piece n p ls \<and> wrap n (p + sum_list ls) + l \<le> n"
proof (induction ls arbitrary: p)
  case Nil
  then show ?case by (simp add: wrap_def)
next
  case (Cons k ls)
  show ?case
  proof (cases "p + k \<le> n")
    case True
    then have "wrap n (p + k) < n" "sum_list ls \<le> n" "wrap n (wrap n (p + k) + sum_list ls) = wrap n (p + (k + sum_list ls))"
      using Cons.prems by (auto simp: wrap_def)
    then show ?thesis using Cons.IH True by simp
  qed simp
qed

text \<open>
  The channel holds the records: their bytes are stored, no record wraps around the end, and the
  writers find their semaphore unless the buffer is full.
\<close>

definition framed :: "rtc_chan \<Rightarrow> nc_record list \<Rightarrow> bool" where
  "framed c rs \<longleftrightarrow> chan_ok c (encs rs) \<and> (length (encs rs) < rb_size (rc_rb c) \<longrightarrow> rb_tx (rc_rb c))
     \<and> (\<forall>r \<in> set rs. length (snd r) < 2 ^ 32)
     \<and> in_one_piece (rb_size (rc_rb c)) (rb_read (rc_rb c)) (map (\<lambda>r. length (enc r)) rs)"

lemma framed_locked: "framed (c\<lparr>rc_locked := b\<rparr>) rs = framed c rs"
  by (simp add: framed_def chan_ok_def)

lemma sum_list_encs: "sum_list (map (\<lambda>r. length (enc r)) rs) = length (encs rs)"
  by (simp add: encs_def length_concat comp_def)

text \<open>What the storage holds at the read offset, and what receiving and returning \<open>m\<close> bytes does.\<close>

lemma take_stored:
  assumes h: "holds rb [] q" and k: "k \<le> length q" "rb_read rb + k \<le> rb_size rb"
  shows "take k (drop (rb_read rb) (rb_mem rb)) = take k q"
proof (rule nth_equalityI)
  have f: "rb_read rb = rb_free rb" "rb_read rb < rb_size rb" and len: "length (rb_mem rb) = rb_size rb"
    using holds_read_free [OF h] h by (simp_all add: holds_def)
  then show "length (take k (drop (rb_read rb) (rb_mem rb))) = length (take k q)" using k by simp
  fix i assume "i < length (take k (drop (rb_read rb) (rb_mem rb)))"
  then have i: "i < k" by simp
  then have "rb_mem rb ! wrap (rb_size rb) (rb_free rb + i) = ([] @ q) ! i"
    using h k unfolding holds_def by simp
  then show "take k (drop (rb_read rb) (rb_mem rb)) ! i = take k q ! i"
    using i k f len by (simp add: wrap_def)
qed

definition release :: "nat \<Rightarrow> rtc_chan \<Rightarrow> rtc_chan" where
  "release m c = (let (data, rb) = rbuf_receive_upto now m (rc_rb c)
     in case data of None \<Rightarrow> c\<lparr>rc_rb := rb\<rparr>
        | Some d \<Rightarrow> rtc_store_read_complete (snd d) (c\<lparr>rc_rb := rbuf_return_item rb\<rparr>))"

lemma release_ok:
  assumes ok: "chan_ok c q" and ne: "q \<noteq> []" and m: "0 < m"
  defines "k \<equiv> chunk (rc_rb c) q m"
  shows "chan_ok (release m c) (drop k q)" "rb_tx (rc_rb (release m c))"
    "rb_size (rc_rb (release m c)) = rb_size (rc_rb c)" "rc_locked (release m c) = rc_locked c"
    "rb_read (rc_rb (release m c)) = wrap (rb_size (rc_rb c)) (rb_read (rc_rb c) + k)" "0 < k"
proof -
  let ?rb = "rc_rb c" and ?n = "rb_size (rc_rb c)"
  have h: "holds ?rb [] q" and rx: "rb_rx ?rb" and len: "rc_len c = length q"
    using ok ne by (simp_all add: chan_ok_def)
  obtain data t where run: "rbuf_receive_upto now m ?rb = (data, t)" by fastforce
  then have "receive_attempts (no_wait 0) m ?rb = (data, t)" using m by (simp add: rbuf_receive_upto_def now_no_wait)
  note R = receive_holds [OF h this]
  obtain off k' where d: "data = Some (off, k')" using R(1) rx ne by (cases data) auto
  have kk: "k' = k" "0 < k" and ht: "holds t (take k q) (drop k q)" and rxt: "rb_rx t \<longleftrightarrow> k < length q"
    using R(3) [OF d] unfolding k_def by metis+
  have out: "take k q \<noteq> []" using kk ne by simp
  note T = return_holds [OF ht, simplified out, simplified]
  have rd: "rb_read t = wrap ?n (rb_read ?rb + k)"
  proof -
    have "k \<le> length q" by (auto simp: k_def chunk_def Let_def)
    then show ?thesis using ht R(4,6) holds_read_free [OF h] by (simp add: holds_def min_absorb2)
  qed
  have rel: "release m c = rtc_store_read_complete k (c\<lparr>rc_rb := rbuf_return_item t\<rparr>)"
    by (simp add: release_def run d kk)
  show "chan_ok (release m c) (drop k q)" "rb_tx (rc_rb (release m c))"
    "rb_size (rc_rb (release m c)) = ?n" "rc_locked (release m c) = rc_locked c"
    "rb_read (rc_rb (release m c)) = wrap ?n (rb_read ?rb + k)" "0 < k"
    using T R(4) rxt rd len kk by (auto simp: rel rtc_store_read_complete_def chan_ok_def)
qed

text \<open>Whole records come out of the front.\<close>

lemma chunk_record:
  assumes "framed c (r # rs)"
  shows "chunk (rc_rb c) (encs (r # rs)) (length (enc r)) = length (enc r)"
    "take (length (enc r)) (drop (rc_offset c) (rb_mem (rc_rb c))) = enc r"
proof -
  have h: "holds (rc_rb c) [] (enc r @ encs rs)" and o: "rc_offset c = rb_read (rc_rb c)"
    and b: "rb_read (rc_rb c) + length (enc r) \<le> rb_size (rc_rb c)"
    using assms by (simp_all add: framed_def chan_ok_def)
  then show "chunk (rc_rb c) (encs (r # rs)) (length (enc r)) = length (enc r)" by (simp add: chunk_def Let_def)
  show "take (length (enc r)) (drop (rc_offset c) (rb_mem (rc_rb c))) = enc r"
    using take_stored [OF h _ b] o by simp
qed

lemma release_framed:
  assumes f: "framed c (r # rs)"
  shows "framed (release (length (enc r)) c) rs" "rb_size (rc_rb (release (length (enc r)) c)) = rb_size (rc_rb c)"
    "rc_locked (release (length (enc r)) c) = rc_locked c"
proof -
  have ok: "chan_ok c (encs (r # rs))" "encs (r # rs) \<noteq> []" "0 < length (enc r)"
    using f by (auto simp: framed_def simp flip: length_greater_0_conv)
  note R = release_ok [OF ok, unfolded chunk_record(1) [OF f]]
  show "framed (release (length (enc r)) c) rs" "rb_size (rc_rb (release (length (enc r)) c)) = rb_size (rc_rb c)"
    "rc_locked (release (length (enc r)) c) = rc_locked c"
    using R f by (simp_all add: framed_def)
qed

lemma make_room_unfold:
  "\<not> req_free \<le> rbuf_get_cur_free_size (rc_rb c) \<Longrightarrow> make_room req_free c
     = make_room req_free (release (8 + hdr_len (take 8 (drop (rc_offset c) (rb_mem (rc_rb c))))) c)"
  by (subst make_room.simps) (simp add: release_def Let_def split: prod.split option.split)

lemma make_room_step:
  assumes f: "framed c (r # rs)" and full: "\<not> req_free \<le> rbuf_get_cur_free_size (rc_rb c)"
  shows "make_room req_free c = make_room req_free (release (length (enc r)) c)"
proof -
  have len: "length (snd r) < 2 ^ 32" using f by (simp add: framed_def)
  have "take 8 (drop (rc_offset c) (rb_mem (rc_rb c))) = take 8 (enc r @ [])"
    using arg_cong [OF chunk_record(2) [OF f], of "take 8"] by (simp add: min_def)
  then have hdr: "8 + hdr_len (take 8 (drop (rc_offset c) (rb_mem (rc_rb c)))) = length (enc r)"
    using hdr_len_enc [OF len, of "[]"] by simp
  show ?thesis unfolding make_room_unfold [OF full] hdr ..
qed

text \<open>The abstract room making: the fewest of the oldest records go.\<close>

fun keep_newest :: "nat \<Rightarrow> nc_record list \<Rightarrow> nc_record list" where
  "keep_newest room [] = []"
| "keep_newest room (r # rs) = (if length (encs (r # rs)) \<le> room then r # rs else keep_newest room rs)"

lemma keep_newest_room: "length (encs (keep_newest room rs)) \<le> room"
  by (induction rs) auto

lemma keep_newest_suffix: "\<exists>k \<le> length rs. keep_newest room rs = drop k rs
    \<and> (\<forall>j < k. room < length (encs (drop j rs)))"
proof (induction rs)
  case (Cons r rs)
  show ?case
  proof (cases "length (encs (r # rs)) \<le> room")
    case True
    then show ?thesis by (intro exI [of _ 0]) simp
  next
    case False
    obtain k where "k \<le> length rs" "keep_newest room rs = drop k rs" "\<forall>j < k. room < length (encs (drop j rs))"
      using Cons by blast
    then show ?thesis using False by (intro exI [of _ "Suc k"]) (auto simp: less_Suc_eq_0_disj)
  qed
qed simp

lemma make_room_ok:
  assumes "framed c rs" "req_free \<le> rb_size (rc_rb c)" "0 < req_free"
  shows "\<exists>c'. make_room req_free c = Some c' \<and> framed c' (keep_newest (rb_size (rc_rb c) - req_free) rs)
    \<and> rb_size (rc_rb c') = rb_size (rc_rb c) \<and> rc_locked c' = rc_locked c"
  using assms
proof (induction rs arbitrary: c)
  case Nil
  then have "rbuf_get_cur_free_size (rc_rb c) = rb_size (rc_rb c)"
    using holds_free_size(2) [of "rc_rb c" "[]" "[]"] by (simp add: framed_def chan_ok_def)
  then show ?case using Nil by (subst make_room.simps) simp
next
  case (Cons r rs)
  let ?n = "rb_size (rc_rb c)"
  have "holds (rc_rb c) [] (encs (r # rs))" using Cons.prems(1) by (simp add: framed_def chan_ok_def)
  then have free: "rbuf_get_cur_free_size (rc_rb c) = ?n - length (encs (r # rs))"
    "length (encs (r # rs)) \<le> ?n"
    using holds_free_size(2) [of "rc_rb c" "[]" "encs (r # rs)"] by (simp, simp add: holds_def)
  show ?case
  proof (cases "req_free \<le> rbuf_get_cur_free_size (rc_rb c)")
    case True
    then have "length (encs (r # rs)) \<le> ?n - req_free" using free by linarith
    then show ?thesis using True Cons.prems by (subst make_room.simps) simp
  next
    case False
    then have "\<not> length (encs (r # rs)) \<le> ?n - req_free" using free Cons.prems(2) by linarith
    then show ?thesis
      using Cons.IH [OF release_framed(1) [OF Cons.prems(1)]] release_framed(2,3) [OF Cons.prems(1)] Cons.prems(2,3)
        make_room_step [OF Cons.prems(1) False] by simp
  qed
qed

text \<open>Moving the data to the front does not break the records.\<close>

lemma align_framed:
  assumes f: "framed c rs"
    and room: "rb_size (rc_rb c) - rb_write (rc_rb c) < rb_size (rc_rb c) - length (encs rs)"
    and a: "a = rtc_store_records_align (rb_size (rc_rb c) - rb_write (rc_rb c)) c"
  shows "framed a rs" "rb_size (rc_rb a) = rb_size (rc_rb c)" "rc_locked a = rc_locked c"
    "rb_acquire (rc_rb a) = length (encs rs)"
proof -
  have ok: "chan_ok c (encs rs)" using f by (simp add: framed_def)
  note A = align_ok [OF ok room a]
  have lt: "length (encs rs) < rb_size (rc_rb c)" using room by linarith
  have "in_one_piece (rb_size (rc_rb a)) 0 (map (\<lambda>r. length (enc r)) rs)"
    by (rule in_one_piece_short) (unfold sum_list_encs, use lt A(4) in simp)
  then show "framed a rs" using A f by (simp add: framed_def)
  show "rb_size (rc_rb a) = rb_size (rc_rb c)" "rc_locked a = rc_locked c" using A by simp_all
  have h: "holds (rc_rb a) [] (encs rs)" using A(1) by (simp add: chan_ok_def)
  have "rb_free (rc_rb a) = 0" using holds_read_free [OF h] A(3) by simp
  then show "rb_acquire (rc_rb a) = length (encs rs)" using h lt A(4) by (simp add: holds_def wrap_def)
qed

text \<open>The two sends of a record into a place with room for both.\<close>

lemma send_record:
  assumes f: "framed c rs" and rec: "snd r \<noteq> []" "length (snd r) < 2 ^ 32"
    and room: "rb_acquire (rc_rb c) + length (enc r) \<le> rb_size (rc_rb c)"
      "length (encs rs) + length (enc r) \<le> rb_size (rc_rb c)"
    and s: "rbuf_send now (le32 (fst r) @ le32 (word_of_nat (length (snd r)))) (rc_rb c) = (b1, t1)"
      "rbuf_send now (snd r) t1 = (b2, t2)"
  shows "framed (rtc_store_write_complete (8 + length (snd r)) (c\<lparr>rc_rb := t2\<rparr>)) (rs @ [r])"
    "rb_size t2 = rb_size (rc_rb c)" "b1" "b2"
proof -
  let ?n = "rb_size (rc_rb c)" and ?h = "le32 (fst r) @ le32 (word_of_nat (length (snd r)) :: u32)"
  have h: "holds (rc_rb c) [] (encs rs)" and ok: "chan_ok c (encs rs)" using f by (simp_all add: framed_def chan_ok_def)
  have len: "length ?h = 8" "?h \<noteq> []" by (simp_all flip: length_greater_0_conv)
  have fits: "length ?h < ?n - length (encs rs)" "length (snd r) \<le> ?n - length (encs rs) - 8" "0 < length (snd r)"
  proof -
    show pos: "0 < length (snd r)" using rec(1) by simp
    then show "length ?h < ?n - length (encs rs)" "length (snd r) \<le> ?n - length (encs rs) - 8"
      using room(2) by (simp_all only: len length_enc)
  qed
  have tx: "rb_tx (rc_rb c)" using f fits(1) by (simp add: framed_def)
  note S1 = send_holds [OF h s(1) [unfolded now_no_wait]]
  have "length ?h \<le> ?n - length ([] :: u8 list) - length (encs rs)" using fits(1) by simp
  then show b1: b1 using S1(1) tx by blast
  have t1: "holds t1 [] (encs rs @ ?h)" "rb_size t1 = ?n" "rb_tx t1"
    using S1(2,3,5) b1 tx fits(1) len(2) by auto
  note P1 = send_piece [OF s(1) [unfolded b1 [THEN iffD2 [OF eq_True]]] h len(2)]
  note S2 = send_holds [OF t1(1) s(2) [unfolded now_no_wait]]
  show b2: b2 using S2(1) t1(2,3) fits(2) len(1) by simp
  have acq: "rb_acquire t1 = rb_acquire (rc_rb c) + 8" "rb_read t1 = rb_read (rc_rb c)"
  proof -
    have "rb_acquire (rc_rb c) + 8 < ?n" using room(1) fits(3) unfolding length_enc by linarith
    then show "rb_acquire t1 = rb_acquire (rc_rb c) + 8" "rb_read t1 = rb_read (rc_rb c)"
      using P1 len(1) by (simp_all add: wrap_def)
  qed
  have "rb_read t2 = rb_read t1"
    by (rule send_piece(3) [OF s(2) [unfolded b2 [THEN iffD2 [OF eq_True]]] t1(1) rec(1)])
      (use acq room(1) t1(2) in simp)
  then have t2: "holds t2 [] (encs rs @ enc r)" "rb_size t2 = ?n" "rb_rx t2" "rb_read t2 = rb_read (rc_rb c)"
    "length (encs (rs @ [r])) < ?n \<longrightarrow> rb_tx t2"
    using S2(2-5) b2 t1(2,3) acq(2) rec(1) len(1) by (auto simp: enc_def)
  show "rb_size t2 = ?n" by (rule t2(2))
  have "rb_read (rc_rb c) < ?n" "wrap ?n (rb_read (rc_rb c) + length (encs rs)) = rb_acquire (rc_rb c)"
    using holds_read_free [OF h] h by (simp_all add: holds_def)
  then have "in_one_piece ?n (rb_read (rc_rb c)) (map (\<lambda>r. length (enc r)) (rs @ [r]))"
    using f room in_one_piece_append [of "rb_read (rc_rb c)" ?n "map (\<lambda>r. length (enc r)) rs" "length (enc r)"]
    unfolding sum_list_encs framed_def by simp
  then show "framed (rtc_store_write_complete (8 + length (snd r)) (c\<lparr>rc_rb := t2\<rparr>)) (rs @ [r])"
    using f t2 rec ok len(2) by (simp add: framed_def rtc_store_write_complete_def chan_ok_def enc_def)
qed

lemma non_critical_write_ok:
  assumes f: "framed c rs" and data: "data \<noteq> []" "length data < 2 ^ 32" "8 + length data \<le> rb_size (rc_rb c)"
  shows "\<exists>evs c'. non_critical_write mark dg data c = Some (ESP_OK, evs, c')
    \<and> framed c' (keep_newest (rb_size (rc_rb c) - (8 + length data)) rs @ [(dg, data)])
    \<and> rb_size (rc_rb c') = rb_size (rc_rb c) \<and> rc_locked c' = rc_locked c"
proof -
  let ?n = "rb_size (rc_rb c)" and ?req = "8 + length data"
  let ?rs = "keep_newest (?n - ?req) rs"
  have "0 < ?req" by simp
  from make_room_ok [OF f data(3) this] obtain c1 where c1: "make_room ?req c = Some c1" "framed c1 ?rs"
    "rb_size (rc_rb c1) = ?n" "rc_locked c1 = rc_locked c" by blast
  let ?ws = "?n - rb_write (rc_rb c1)"
  define c2 where "c2 = (if ?ws < ?req then rtc_store_records_align ?ws c1 else c1)"
  have le: "length (encs ?rs) \<le> ?n - ?req" by (rule keep_newest_room)
  have "rb_acquire (rc_rb c1) = rb_write (rc_rb c1)" "rb_write (rc_rb c1) \<le> ?n"
    using holds_write [of "rc_rb c1" "[]" "encs ?rs"] c1(2,3) by (simp_all add: framed_def chan_ok_def)
  then have c2: "framed c2 ?rs" "rb_size (rc_rb c2) = ?n" "rc_locked c2 = rc_locked c"
    "rb_acquire (rc_rb c2) + ?req \<le> ?n"
  proof -
    assume w: "rb_acquire (rc_rb c1) = rb_write (rc_rb c1)" "rb_write (rc_rb c1) \<le> ?n"
    have "framed c2 ?rs \<and> rb_size (rc_rb c2) = ?n \<and> rc_locked c2 = rc_locked c \<and> rb_acquire (rc_rb c2) + ?req \<le> ?n"
    proof (cases "?ws < ?req")
      case True
      then have "?ws < ?n - length (encs ?rs)" "length (encs ?rs) + ?req \<le> ?n" using le data(3) by linarith+
      then show ?thesis using align_framed [OF c1(2) _ refl] c1(3,4) True by (simp add: c2_def)
    next
      case False
      then show ?thesis using c1 w data(3) by (simp add: c2_def)
    qed
    then show "framed c2 ?rs" "rb_size (rc_rb c2) = ?n" "rc_locked c2 = rc_locked c"
      "rb_acquire (rc_rb c2) + ?req \<le> ?n" by blast+
  qed
  obtain b1 t1 where s1: "rbuf_send now (le32 dg @ le32 (word_of_nat (length data))) (rc_rb c2) = (b1, t1)" by fastforce
  obtain b2 t2 where s2: "rbuf_send now data t1 = (b2, t2)" by fastforce
  have "length (encs ?rs) + ?req \<le> ?n" using le data(3) by linarith
  then have room: "rb_acquire (rc_rb c2) + length (enc (dg, data)) \<le> rb_size (rc_rb c2)"
    "length (encs ?rs) + length (enc (dg, data)) \<le> rb_size (rc_rb c2)"
    using c2(2,4) by simp_all
  have d: "snd (dg, data) \<noteq> []" "length (snd (dg, data)) < 2 ^ 32" using data by simp_all
  have sr: "framed (rtc_store_write_complete ?req (c2\<lparr>rc_rb := t2\<rparr>)) (?rs @ [(dg, data)])" "rb_size t2 = ?n"
    using send_record(1,2) [OF c2(1) d room, unfolded fst_conv snd_conv, OF s1 s2] c2(2) by simp_all
  show ?thesis
    unfolding non_critical_write_def
    using sr c1(1,3) c2(3) by (simp add: s1 s2 Let_def c2_def [symmetric] rtc_store_write_complete_def)
qed

subsection \<open>A record that cannot fit\<close>

lemma release_any:
  assumes ok: "chan_ok c q" and m: "0 < m"
  shows "\<exists>q'. chan_ok (release m c) q' \<and> rb_size (rc_rb (release m c)) = rb_size (rc_rb c)"
proof (cases "q = []")
  case True
  have h: "holds (rc_rb c) [] []" using ok True by (simp add: chan_ok_def)
  obtain data t where run: "rbuf_receive_upto now m (rc_rb c) = (data, t)" by fastforce
  then have "receive_attempts (no_wait 0) m (rc_rb c) = (data, t)" using m by (simp add: rbuf_receive_upto_def now_no_wait)
  note R = receive_holds [OF h this]
  have d: "data = None" "holds t [] []" using R(1,2) by simp_all
  then have rel: "release m c = c\<lparr>rc_rb := t\<rparr>" by (simp add: release_def run)
  have "chan_ok (release m c) [] \<and> rb_size (rc_rb (release m c)) = rb_size (rc_rb c)"
    unfolding rel using d(2) R(4-6) ok True holds_read_free [OF h] holds_read_free [OF d(2)] by (simp add: chan_ok_def)
  then show ?thesis by blast
next
  case False
  then show ?thesis using release_ok [OF ok False m] by blast
qed

lemma make_room_enough:
  assumes "make_room req_free c = Some c'" "chan_ok c q"
  shows "req_free \<le> rb_size (rc_rb c)"
proof -
  let ?P = "\<lambda>req_free (c :: rtc_chan). \<forall>q. chan_ok c q \<longrightarrow> req_free \<le> rb_size (rc_rb c)"
  have "?P req_free c"
  proof (rule make_room.raw_induct [where P = "\<lambda>req_free c _. ?P req_free c", OF _ assms(1)], intro allI impI)
    fix mk :: "nat \<Rightarrow> rtc_chan \<Rightarrow> rtc_chan option" and c y :: rtc_chan and req_free q
    let ?m = "8 + hdr_len (take 8 (drop (rc_offset c) (rb_mem (rc_rb c))))"
    assume IH: "\<And>req_free (c :: rtc_chan) y. mk req_free c = Some y \<Longrightarrow> ?P req_free c" and ok: "chan_ok c q"
      and run: "(if req_free \<le> rbuf_get_cur_free_size (rc_rb c) then Some c
        else let header = take 8 (drop (rc_offset c) (rb_mem (rc_rb c)));
                 (data, rb) = rbuf_receive_upto now (8 + hdr_len header) (rc_rb c)
             in case data of None \<Rightarrow> mk req_free (c\<lparr>rc_rb := rb\<rparr>)
                | Some d \<Rightarrow> mk req_free (rtc_store_read_complete (snd d) (c\<lparr>rc_rb := rbuf_return_item rb\<rparr>))) = Some y"
    show "req_free \<le> rb_size (rc_rb c)"
    proof (cases "req_free \<le> rbuf_get_cur_free_size (rc_rb c)")
      case True
      then show ?thesis using ok holds_free_size(2) [of "rc_rb c" "[]" q] by (simp add: chan_ok_def)
    next
      case False
      then have "mk req_free (release ?m c) = Some y"
        using run by (auto simp: release_def Let_def split: prod.splits option.splits)
      then have "?P req_free (release ?m c)" by (rule IH)
      then show ?thesis using release_any [OF ok, of ?m] by auto
    qed
  qed
  then show ?thesis using assms(2) by blast
qed

lemma oversized_hangs:
  assumes "chan_ok c q" "rb_size (rc_rb c) < 8 + length data"
  shows "non_critical_write mark dg data c = None"
proof (cases "make_room (8 + length data) c")
  case (Some c')
  then show ?thesis using make_room_enough [OF Some assms(1)] assms(2) by simp
qed (simp add: non_critical_write_def)

subsection \<open>What a reader gets\<close>

lemma first_piece:
  "in_one_piece n p ls \<Longrightarrow> p < n \<Longrightarrow> \<exists>k \<le> length ls. min (sum_list ls) (n - p) = sum_list (take k ls)"
proof (induction ls arbitrary: p)
  case (Cons l ls)
  show ?case
  proof (cases "p + l < n")
    case True
    have "in_one_piece n (p + l) ls" using Cons.prems(1) True by (simp add: wrap_def)
    from Cons.IH [OF this True] obtain k
      where k: "k \<le> length ls" "min (sum_list ls) (n - (p + l)) = sum_list (take k ls)" by blast
    have "min (l + sum_list ls) (n - p) = l + min (sum_list ls) (n - (p + l))" using True by linarith
    then show ?thesis using k by (intro exI [of _ "Suc k"]) simp
  next
    case False
    then have "n - p = l" using Cons.prems by auto
    then show ?thesis by (intro exI [of _ 1]) simp
  qed
qed simp

lemma in_one_piece_drop:
  "in_one_piece n p ls \<Longrightarrow> p < n \<Longrightarrow> p + sum_list (take j ls) \<le> n
   \<Longrightarrow> in_one_piece n (wrap n (p + sum_list (take j ls))) (drop j ls)"
proof (induction ls arbitrary: p j)
  case (Cons l ls)
  show ?case
  proof (cases j)
    case (Suc i)
    have "wrap n (p + l) < n" "wrap n (p + l) + sum_list (take i ls) \<le> n"
      "wrap n (wrap n (p + l) + sum_list (take i ls)) = wrap n (p + (l + sum_list (take i ls)))"
    proof -
      have "p + (l + sum_list (take i ls)) \<le> n" using Cons.prems Suc by simp
      then have "p + l = n \<longrightarrow> sum_list (take i ls) = 0" by linarith
      then show "wrap n (p + l) < n" "wrap n (p + l) + sum_list (take i ls) \<le> n"
        "wrap n (wrap n (p + l) + sum_list (take i ls)) = wrap n (p + (l + sum_list (take i ls)))"
        using Cons.prems Suc by (auto simp: wrap_def simp del: sum_list_eq_0_iff)
    qed
    then show ?thesis using Cons.IH [of "wrap n (p + l)" i] Cons.prems Suc by simp
  qed (use Cons.prems in \<open>simp add: wrap_def\<close>)
qed simp

lemma sum_encs_take: "sum_list (take k (map (\<lambda>r. length (enc r)) rs)) = length (encs (take k rs))"
  unfolding take_map sum_list_encs ..

lemma read_whole_records:
  assumes f: "framed c rs" and run: "rtc_store_data_read_and_lock True c = Some (d, c')"
  shows "\<exists>k \<le> length rs. (d = None \<longrightarrow> rs = [] \<and> c' = c) \<and>
    (d \<noteq> None \<longrightarrow> 0 < k \<and> piece (rc_rb c) (the d) = encs (take k rs) \<and> snd (the d) = length (encs (take k rs))
       \<and> c' = c\<lparr>rc_locked := True\<rparr>) \<and> rb_read (rc_rb c) + length (encs (take k rs)) \<le> rb_size (rc_rb c)"
proof -
  let ?n = "rb_size (rc_rb c)" and ?p = "rb_read (rc_rb c)"
  have h: "holds (rc_rb c) [] (encs rs)" and ch: "rc_offset c = ?p" "rc_len c = length (encs rs)"
    and pc: "in_one_piece ?n ?p (map (\<lambda>r. length (enc r)) rs)"
    using f by (simp_all add: framed_def chan_ok_def)
  have p: "?p < ?n" using holds_read_free [OF h] by simp
  obtain k where k: "k \<le> length rs" "min (length (encs rs)) (?n - ?p) = length (encs (take k rs))"
    using first_piece [OF pc p] unfolding sum_encs_take sum_list_encs by auto
  let ?m = "length (encs (take k rs))"
  have m: "?m = (if ?n < rc_offset c + rc_len c then ?n - rc_offset c else rc_len c)"
    unfolding k(2) [symmetric] using p ch by auto
  have le: "?m \<le> length (encs rs)" "?p + ?m \<le> ?n" using k(2) p by linarith+
  have "take ?m (encs rs) = encs (take k rs)"
    using arg_cong [OF encs_split [of k rs], of "take ?m"] by simp
  then have piece: "piece (rc_rb c) (?p, ?m) = encs (take k rs)"
    using take_stored [OF h le] by (simp add: piece_def)
  have z: "?m = 0 \<longleftrightarrow> rs = []"
  proof
    assume "?m = 0"
    then have "length (encs rs) = 0" using k(2) p by linarith
    then show "rs = []" by (cases rs) simp_all
  qed simp
  have "\<not> rc_locked c" using run by (auto simp: rtc_store_data_read_and_lock_def)
  then have r: "d = (if ?m = 0 then None else Some (?p, ?m))" "c' = (if ?m = 0 then c else c\<lparr>rc_locked := True\<rparr>)"
    using run ch(1) unfolding rtc_store_data_read_and_lock_def m [symmetric] Let_def by (auto split: if_splits)
  moreover have "rs \<noteq> [] \<longrightarrow> 0 < k" using z by (cases k) simp_all
  ultimately show ?thesis using k(1) z piece le(2) by (intro exI [of _ k]) auto
qed

lemma release_records:
  assumes f: "framed c rs" and j: "j \<le> length rs" "rb_read (rc_rb c) + length (encs (take j rs)) \<le> rb_size (rc_rb c)"
    and run: "rtc_store_data_release_and_unlock True (length (encs (take j rs))) c = (err, c')"
  shows "err = ESP_OK \<and> framed c' (drop j rs) \<and> \<not> rc_locked c' \<and> rb_size (rc_rb c') = rb_size (rc_rb c)"
proof -
  let ?m = "length (encs (take j rs))" and ?n = "rb_size (rc_rb c)" and ?p = "rb_read (rc_rb c)"
  have c': "c' = (release ?m c)\<lparr>rc_locked := False\<rparr>" "err = ESP_OK"
    using run by (auto simp: rtc_store_data_release_and_unlock_def release_def Let_def split: prod.splits)
  have e: "encs rs = encs (take j rs) @ encs (drop j rs)"
    by (rule encs_split [symmetric])
  have "framed (release ?m c) (drop j rs) \<and> rb_size (rc_rb (release ?m c)) = ?n"
  proof (cases "?m = 0")
    case True
    then have "take j rs = []" by (cases "take j rs") simp_all
    then have "drop j rs = rs" by auto
    then show ?thesis using f True by (simp add: release_def rbuf_receive_upto_def)
  next
    case False
    have ok: "chan_ok c (encs rs)" "encs rs \<noteq> []" "0 < ?m" using f e False by (auto simp: framed_def)
    have k: "chunk (rc_rb c) (encs rs) ?m = ?m" 
    proof -
      have "?m \<le> length (encs rs)" "?m \<le> ?n - ?p" using j(2) e by (simp, linarith)
      then show ?thesis using False by (simp add: chunk_def Let_def)
    qed
    note R = release_ok [OF ok, unfolded k]
    have "holds (rc_rb c) [] (encs rs)" using ok by (simp add: chan_ok_def)
    then have "?p < ?n" using holds_read_free by blast
    then have "in_one_piece ?n (wrap ?n (?p + ?m)) (map (\<lambda>r. length (enc r)) (drop j rs))"
      using in_one_piece_drop [of ?n ?p "map (\<lambda>r. length (enc r)) rs" j] f j(2)
      unfolding sum_encs_take by (simp add: framed_def drop_map)
    then show ?thesis using R f e by (auto simp: framed_def dest: in_set_dropD)
  qed
  then show ?thesis by (simp add: c' framed_locked)
qed

subsection \<open>A restart\<close>

text \<open>What RTC memory holds of a channel is, read from the offset on, its data.\<close>

lemma stored_around:
  assumes h: "holds rb [] q" and p: "rb_read rb = off" and n: "n = length (rb_mem rb)"
    and a: "a = (if n < off + length q then n - off else length q)"
  shows "take a (drop off (rb_mem rb)) @ take (length q - a) (rb_mem rb) = q"
proof (rule nth_equalityI)
  let ?m = "rb_mem rb"
  have off: "off < n" "rb_free rb = off" and len: "rb_size rb = n" "length q \<le> n"
    using holds_read_free [OF h] h p n by (simp_all add: holds_def)
  have nth: "?m ! wrap n (off + i) = q ! i" if "i < length q" for i
    using h that off(2) len by (simp add: holds_def)
  have b: "a \<le> length q" "off + a \<le> n" "length q - a \<le> n" "a < length q \<Longrightarrow> off + a = n"
    using off(1) len a by auto
  have la: "length (take a (drop off ?m)) = a" "length (take (length q - a) ?m) = length q - a"
    using b n by simp_all
  show eq: "length (take a (drop off ?m) @ take (length q - a) ?m) = length q" unfolding length_append la using b by simp
  fix i assume "i < length (take a (drop off ?m) @ take (length q - a) ?m)"
  then have i: "i < length q" unfolding eq .
  show "(take a (drop off ?m) @ take (length q - a) ?m) ! i = q ! i"
  proof (cases "i < a")
    case True
    then show ?thesis using nth [OF i] b(2) n unfolding nth_append la by (simp add: wrap_def)
  next
    case False
    then have "off + a = n" using b(4) i by linarith
    then have "wrap n (off + i) = i - a" using False by (auto simp: wrap_def)
    then show ?thesis using nth [OF i] False i unfolding nth_append la by simp
  qed
qed

lemma kept_stored:
  assumes ok: "chan_ok c q" and q: "q \<noteq> []"
  shows "kept_data ESP_RST_OTHER (rc_len c) (rc_offset c) (rb_mem (rc_rb c)) s
    = Some (if fst (alloc s) then Some q else None, snd (alloc s))"
proof -
  let ?m = "rb_mem (rc_rb c)"
  define a where "a = (if length ?m < rc_offset c + length q then length ?m - rc_offset c else length q)"
  have h: "holds (rc_rb c) [] q" and ch: "rc_len c = length q" "rb_read (rc_rb c) = rc_offset c"
    using ok by (simp_all add: chan_ok_def)
  have b: "rc_offset c < length ?m" "length q \<le> length ?m" "0 < length q"
    using holds_read_free [OF h] h ch(2) q by (simp_all add: holds_def)
  have st: "take a (drop (rc_offset c) ?m) @ take (length q - a) ?m = q"
    by (rule stored_around [OF h ch(2) refl a_def])
  show ?thesis
    unfolding kept_data_def ch(1) Let_def a_def [symmetric] st using b by (simp split: prod.split)
qed

text \<open>A fresh ring buffer, with the kept data sent into it.\<close>

definition fresh_chan :: "u8 list \<Rightarrow> u8 list \<Rightarrow> rtc_chan" where
  "fresh_chan buf t = \<lparr>rc_rb = snd (rbuf_send now t (prvInitializeNewRingbuffer (length buf) buf)), rc_locked = False,
     rc_offset = 0, rc_len = length t\<rparr>"

lemma fresh_chan:
  assumes "0 < length buf" "length q \<le> length buf"
  shows "chan_ok (fresh_chan buf q) q" "rb_read (rc_rb (fresh_chan buf q)) = 0"
    "rb_size (rc_rb (fresh_chan buf q)) = length buf" "\<not> rc_locked (fresh_chan buf q)"
    "length q < length buf \<longrightarrow> rb_tx (rc_rb (fresh_chan buf q))"
proof -
  let ?rb = "prvInitializeNewRingbuffer (length buf) buf"
  have f: "rb_size ?rb = length buf" "rb_tx ?rb" "rb_read ?rb = 0" "rb_acquire ?rb = 0"
    by (simp_all add: prvInitializeNewRingbuffer_def)
  have h: "holds ?rb [] []" by (rule holds_init) (use assms in simp_all)
  obtain r t where s: "rbuf_send now q ?rb = (r, t)" by fastforce
  note S = send_holds [OF h s [unfolded now_no_wait]]
  have r: r using S(1) f assms(2) by simp
  have rd: "rb_read t = 0"
  proof (cases "q = []")
    case True
    then show ?thesis using s f by (simp add: rbuf_send_def)
  next
    case False
    then show ?thesis using send_piece(3) [OF s [unfolded r [THEN iffD2 [OF eq_True]]] h False] f assms(2) by simp
  qed
  have c: "fresh_chan buf q = \<lparr>rc_rb = t, rc_locked = False, rc_offset = 0, rc_len = length q\<rparr>"
    by (simp add: fresh_chan_def s)
  have "holds t [] q" "rb_size t = length buf" "q \<noteq> [] \<longrightarrow> rb_rx t" "length q < length buf \<longrightarrow> rb_tx t"
    using S(2-5) r f by auto
  then show "chan_ok (fresh_chan buf q) q" "rb_read (rc_rb (fresh_chan buf q)) = 0"
    "rb_size (rc_rb (fresh_chan buf q)) = length buf" "\<not> rc_locked (fresh_chan buf q)"
    "length q < length buf \<longrightarrow> rb_tx (rc_rb (fresh_chan buf q))"
    using rd assms by (simp_all add: c chan_ok_def)
qed

lemma rbuf_init_kept:
  assumes ok: "chan_ok c q"
    and run: "rtc_store_rbuf_init ESP_RST_OTHER (rc_len c) (rc_offset c) (rb_mem (rc_rb c)) s = Some (err, r, s')"
  shows "(err = ESP_ERR_NO_MEM \<and> r = None) \<or>
    (err = ESP_OK \<and> (\<exists>buf. length buf = rb_size (rc_rb c) \<and> (r = Some (fresh_chan buf q) \<or> r = Some (fresh_chan buf []))))"
proof -
  let ?buf = "rb_mem (rc_rb c)"
  have len: "length ?buf = rb_size (rc_rb c)" "rc_len c = length q" using ok by (simp_all add: chan_ok_def holds_def)
  obtain b s1 where a: "alloc s = (b, s1)" by fastforce
  have k: "kept_data ESP_RST_OTHER (rc_len c) (rc_offset c) ?buf s1
      = (if q = [] then Some (None, s1) else Some (if fst (alloc s1) then Some q else None, snd (alloc s1)))"
  proof (cases "q = []")
    case False
    show ?thesis unfolding kept_stored [OF ok False] by (simp add: False)
  qed (simp add: kept_data_def len(2))
  have create: "rbuf_create n m s = (x, s2) \<Longrightarrow> x = None \<or> x = Some (prvInitializeNewRingbuffer n m)" for n m x s2
    and s :: "'a plat_scheme"
    by (auto simp: rbuf_create_def Let_def split: prod.splits if_splits)
  show ?thesis
  proof (cases b)
    case False
    then show ?thesis using run by (simp add: rtc_store_rbuf_init_def a)
  next
    case True
    obtain t s2 where t: "kept_data ESP_RST_OTHER (rc_len c) (rc_offset c) ?buf s1 = Some (t, s2)"
      "t = None \<or> t = Some q" using k by (cases "q = []") auto
    let ?b = "if t = None then replicate (length ?buf) 0 else ?buf"
    obtain x s3 where x: "rbuf_create (length ?b) ?b s2 = (x, s3)" by fastforce
    have lb: "length ?b = rb_size (rc_rb c)" using len by simp
    have run': "Some (err, r, s') = (case x of None \<Rightarrow> Some (ESP_ERR_NO_MEM, None, s3)
      | Some rb \<Rightarrow> Some (ESP_OK, Some \<lparr>rc_rb = (case t of None \<Rightarrow> rb | Some t \<Rightarrow> snd (rbuf_send now t rb)),
          rc_locked = False, rc_offset = 0, rc_len = (if t = None then 0 else rc_len c)\<rparr>, s3))"
      using run True t(1) x by (cases x) (simp_all add: rtc_store_rbuf_init_def a Let_def)
    show ?thesis
    proof (cases x)
      case None
      then show ?thesis using run' by simp
    next
      case (Some rb)
      then have rb: "rb = prvInitializeNewRingbuffer (length ?b) ?b" using create [OF x] by simp
      have "rbuf_send now [] rb = (True, rb)" by (simp add: rbuf_send_def)
      then have "r = Some (fresh_chan ?b (if t = None then [] else q))" "err = ESP_OK"
        using run' Some t(2) rb len(2) by (auto simp: fresh_chan_def)
      then show ?thesis using lb by (cases "t = None") (rule disjI2, rule conjI, simp, rule exI [of _ ?b], force)+
    qed
  qed
qed

lemma rbuf_init_total:
  assumes ok: "chan_ok c q"
  shows "rtc_store_rbuf_init ESP_RST_OTHER (rc_len c) (rc_offset c) (rb_mem (rc_rb c)) s \<noteq> None"
proof -
  have "kept_data ESP_RST_OTHER (rc_len c) (rc_offset c) (rb_mem (rc_rb c)) s' \<noteq> None" for s' :: "'a plat_scheme"
  proof (cases "q = []")
    case True
    then show ?thesis using ok by (simp add: kept_data_def chan_ok_def)
  next
    case False
    show ?thesis unfolding kept_stored [OF ok False] by simp
  qed
  then have kept: "\<exists>t s''. kept_data ESP_RST_OTHER (rc_len c) (rc_offset c) (rb_mem (rc_rb c)) s' = Some (t, s'')"
    for s' :: "'a plat_scheme" by auto
  obtain b s1 where a: "alloc s = (b, s1)" by fastforce
  obtain t s2 where "kept_data ESP_RST_OTHER (rc_len c) (rc_offset c) (rb_mem (rc_rb c)) s1 = Some (t, s2)"
    using kept by blast
  then show ?thesis by (simp add: rtc_store_rbuf_init_def a Let_def split: prod.split option.split)
qed

lemma rbuf_init_enough_memory:
  assumes ok: "chan_ok c q" and mem: "mem_ok s = []"
  shows "\<exists>buf. length buf = rb_size (rc_rb c) \<and>
    rtc_store_rbuf_init ESP_RST_OTHER (rc_len c) (rc_offset c) (rb_mem (rc_rb c)) s = Some (ESP_OK, Some (fresh_chan buf q), s)"
proof -
  let ?buf = "rb_mem (rc_rb c)"
  have len: "length ?buf = rb_size (rc_rb c)" "rc_len c = length q" using ok by (simp_all add: chan_ok_def holds_def)
  have create: "rbuf_create n m s = (Some (prvInitializeNewRingbuffer n m), s)" for n m
    using mem by (simp add: rbuf_create_def)
  show ?thesis
  proof (cases "q = []")
    case True
    then have "kept_data ESP_RST_OTHER (rc_len c) (rc_offset c) ?buf s = Some (None, s)" by (simp add: kept_data_def len)
    then show ?thesis using True mem len
      by (intro exI [of _ "replicate (length ?buf) 0"]) (simp add: rtc_store_rbuf_init_def create fresh_chan_def rbuf_send_def)
  next
    case False
    then show ?thesis using mem len kept_stored [OF ok False, of s]
      by (intro exI [of _ ?buf]) (simp add: rtc_store_rbuf_init_def create fresh_chan_def)
  qed
qed

lemma fresh_framed:
  assumes "length buf = rb_size (rc_rb c)" "framed c rs"
  shows "framed (fresh_chan buf (encs rs)) rs" "framed (fresh_chan buf []) []"
proof -
  have b: "0 < length buf" "length (encs rs) \<le> length buf"
    using assms by (auto simp: framed_def chan_ok_def holds_def)
  have "in_one_piece (length buf) 0 (map (\<lambda>r. length (enc r)) rs)"
    by (rule in_one_piece_short) (unfold sum_list_encs, use b in simp)
  then show "framed (fresh_chan buf (encs rs)) rs"
    using fresh_chan [OF b] assms(2) by (simp add: framed_def)
  show "framed (fresh_chan buf []) []" using fresh_chan [of buf "[]"] b(1) by (simp add: framed_def)
qed

subsection \<open>The properties\<close>

text \<open>C13. A diagnostics record that is not critical is always stored: the fewest of the oldest records go to
  make room for it, all the others stay in order and it comes last. This holds for every group in
  the flash data, when the lock is free and the record with its header fits the buffer at all.\<close>

theorem newest_records_kept:
  assumes "rp_init p" "\<not> rc_locked (rp_non_critical p)" "framed (rp_non_critical p) rs" "dg \<noteq> 0" "in_drom dg"
    "data \<noteq> []" "length data < 2 ^ 32" "8 + length data \<le> rb_size (rc_rb (rp_non_critical p))"
  shows "\<exists>evs p' k. rtc_store_non_critical_data_write in_drom mark dg (Some data) p = Some (ESP_OK, evs, p')
    \<and> framed (rp_non_critical p') (drop k rs @ [(dg, data)]) \<and> k \<le> length rs
    \<and> (\<forall>j < k. rb_size (rc_rb (rp_non_critical p)) < length (encs (drop j rs @ [(dg, data)])))
    \<and> \<not> rc_locked (rp_non_critical p') \<and> rp_critical p' = rp_critical p"
proof -
  let ?c = "rp_non_critical p" and ?req = "8 + length data"
  obtain evs c' where c': "non_critical_write mark dg data ?c = Some (ESP_OK, evs, c')"
    "framed c' (keep_newest (rb_size (rc_rb ?c) - ?req) rs @ [(dg, data)])" "rc_locked c' = rc_locked ?c"
    using non_critical_write_ok [OF assms(3,6-8)] by blast
  obtain k where k: "k \<le> length rs" "keep_newest (rb_size (rc_rb ?c) - ?req) rs = drop k rs"
    "\<forall>j < k. rb_size (rc_rb ?c) - ?req < length (encs (drop j rs))"
    using keep_newest_suffix by blast
  have "\<forall>j < k. rb_size (rc_rb ?c) < length (encs (drop j rs @ [(dg, data)]))" using k(3) by fastforce
  then show ?thesis using c' k assms
    by (intro exI [of _ evs] exI [of _ "p\<lparr>rp_non_critical := c'\<rparr>"] exI [of _ k])
      (simp add: rtc_store_non_critical_data_write_def)
qed

definition example_chan :: rtc_chan where
  "example_chan = fresh_chan (replicate 20 0) (encs [(5, [1, 2])])"

lemma example_framed: "framed example_chan [(5, [1, 2])]" "\<not> rc_locked example_chan"
  "rb_size (rc_rb example_chan) = 20" "chan_ok example_chan (encs [(5, [1, 2])])"
proof -
  have b: "0 < length (replicate 20 0 :: u8 list)" "length (encs [(5, [1, 2])]) \<le> length (replicate 20 0 :: u8 list)"
    by simp_all
  note F = fresh_chan [OF b, folded example_chan_def]
  show "framed example_chan [(5, [1, 2])]" using F by (simp add: framed_def)
  show "\<not> rc_locked example_chan" "rb_size (rc_rb example_chan) = 20" "chan_ok example_chan (encs [(5, [1, 2])])"
    using F by simp_all
qed

abbreviation example_store :: rtc_priv where
  "example_store \<equiv> \<lparr>rp_init = True, rp_critical = example_chan, rp_non_critical = example_chan\<rparr>"

theorem newest_records_kept_witness:
  "\<exists>evs p'. rtc_store_non_critical_data_write (\<lambda>a. 4 \<le> a) 10 7 (Some [3, 4, 5]) example_store = Some (ESP_OK, evs, p')
    \<and> framed (rp_non_critical p') [(7, [3, 4, 5])]"
proof -
  obtain evs p' k where w: "rtc_store_non_critical_data_write (\<lambda>a. 4 \<le> a) 10 7 (Some [3, 4, 5]) example_store = Some (ESP_OK, evs, p')"
    "framed (rp_non_critical p') (drop k [(5, [1, 2])] @ [(7, [3, 4, 5])])" "k \<le> 1"
    using newest_records_kept [of example_store "[(5, [1, 2])]" 7 "\<lambda>a. 4 \<le> a" "[3, 4, 5]" 10] example_framed by auto
  have "k \<noteq> 0"
  proof
    assume "k = 0"
    then have "holds (rc_rb (rp_non_critical p')) [] (encs [(5, [1, 2]), (7, [3, 4, 5])])"
      using w(2) by (simp add: framed_def chan_ok_def)
    then have "21 \<le> rb_size (rc_rb (rp_non_critical p'))" by (simp add: holds_def)
    moreover have "rb_size (rc_rb (rp_non_critical p')) = 20"
      using non_critical_write_ok [OF example_framed(1), of "[3, 4, 5]" 10 7] example_framed(2,3) w(1)
      by (auto simp: rtc_store_non_critical_data_write_def)
    ultimately show False by simp
  qed
  then show ?thesis using w by (cases k) auto
qed

text \<open>C34. A record that is longer than the buffer, header included, is never refused: the loop that makes room
  throws away everything that is stored and then goes on for ever, with the lock taken, while the
  storing function would only have to compare the two lengths.\<close>

theorem oversized_record_hangs:
  assumes "rp_init p" "\<not> rc_locked (rp_non_critical p)" "chan_ok (rp_non_critical p) q" "dg \<noteq> 0" "in_drom dg"
    "data \<noteq> []" "rb_size (rc_rb (rp_non_critical p)) < 8 + length data"
  shows "rtc_store_non_critical_data_write in_drom mark dg (Some data) p = None"
  using assms oversized_hangs [OF assms(3,7)] by (simp add: rtc_store_non_critical_data_write_def)

theorem oversized_record_hangs_witness:
  "rtc_store_non_critical_data_write (\<lambda>a. 4 \<le> a) 10 7 (Some (replicate 13 0)) example_store = None"
  by (rule oversized_record_hangs [of _ "encs [(5, [1, 2])]"])
    (simp_all add: example_framed(2,3) example_framed(4) [simplified])

text \<open>C33. A reader gets a whole number of records, the oldest ones, and at least one if there is any; it holds
  the lock exactly if it got something. Releasing the length of the first \<open>j\<close> of them removes
  exactly these and gives the lock back, also for none and for less than what was read.\<close>

theorem records_read_back:
  assumes "framed c rs" "\<not> rc_locked c"
  shows "\<exists>d c' k. rtc_store_data_read_and_lock True c = Some (d, c') \<and> k \<le> length rs
    \<and> (d = None \<longrightarrow> rs = [] \<and> c' = c)
    \<and> (d \<noteq> None \<longrightarrow> 0 < k \<and> piece (rc_rb c) (the d) = encs (take k rs) \<and> rc_locked c')
    \<and> (\<forall>j \<le> k. \<exists>c''. rtc_store_data_release_and_unlock True (length (encs (take j rs))) c' = (ESP_OK, c'')
         \<and> framed c'' (drop j rs) \<and> \<not> rc_locked c'')"
proof -
  obtain d c' where run: "rtc_store_data_read_and_lock True c = Some (d, c')"
    using assms(2) by (cases "rtc_store_data_read_and_lock True c") (auto simp: rtc_store_data_read_and_lock_def Let_def split: if_splits)
  obtain k where k: "k \<le> length rs" "d = None \<longrightarrow> rs = [] \<and> c' = c"
    "d \<noteq> None \<longrightarrow> 0 < k \<and> piece (rc_rb c) (the d) = encs (take k rs) \<and> snd (the d) = length (encs (take k rs))
       \<and> c' = c\<lparr>rc_locked := True\<rparr>"
    "rb_read (rc_rb c) + length (encs (take k rs)) \<le> rb_size (rc_rb c)"
    using read_whole_records [OF assms(1) run] by blast
  have c': "framed c' rs" "rc_rb c' = rc_rb c" using k(2,3) assms(1) by (cases d; auto simp: framed_locked)+
  have "\<exists>c''. rtc_store_data_release_and_unlock True (length (encs (take j rs))) c' = (ESP_OK, c'')
         \<and> framed c'' (drop j rs) \<and> \<not> rc_locked c''" if "j \<le> k" for j
  proof -
    have "encs (take k rs) = encs (take j rs) @ encs (drop j (take k rs))"
      using encs_split [of j "take k rs"] that by (simp add: min_absorb1)
    then have j: "j \<le> length rs" "rb_read (rc_rb c') + length (encs (take j rs)) \<le> rb_size (rc_rb c')"
      using k(1,4) that c'(2) by simp_all
    obtain err c'' where "rtc_store_data_release_and_unlock True (length (encs (take j rs))) c' = (err, c'')" by fastforce
    then show ?thesis using release_records [OF c'(1) j] by blast
  qed
  then show ?thesis using run k by (intro exI [of _ d] exI [of _ c'] exI [of _ k]) auto
qed

theorem records_read_back_witness:
  "\<exists>d c'. rtc_store_data_read_and_lock True example_chan = Some (Some d, c') \<and> rc_locked c'
    \<and> piece (rc_rb example_chan) d = enc (5, [1, 2])"
proof -
  obtain d c' k where "rtc_store_data_read_and_lock True example_chan = Some (d, c')" "k \<le> 1"
    "d = None \<longrightarrow> [(5 :: u32, [1, 2 :: u8])] = [] \<and> c' = example_chan"
    "d \<noteq> None \<longrightarrow> 0 < k \<and> piece (rc_rb example_chan) (the d) = encs (take k [(5, [1, 2])]) \<and> rc_locked c'"
    using records_read_back [OF example_framed(1,2)] by auto
  then show ?thesis by (cases d; cases k) auto
qed

text \<open>C32. What is stored survives a restart that is not a loss of power: the records that RTC memory holds, also
  around the end of the buffer, are the ones of the new channel, unless memory runs out; then either
  the start fails or the store starts empty.\<close>

theorem records_survive_restart:
  assumes "framed c rs"
  shows "\<exists>err r s'. rtc_store_rbuf_init ESP_RST_OTHER (rc_len c) (rc_offset c) (rb_mem (rc_rb c)) s = Some (err, r, s')
    \<and> (case r of None \<Rightarrow> err = ESP_ERR_NO_MEM \<and> mem_ok s \<noteq> []
       | Some c' \<Rightarrow> err = ESP_OK \<and> \<not> rc_locked c' \<and> (framed c' rs \<or> (framed c' [] \<and> mem_ok s \<noteq> [])))"
proof -
  have ok: "chan_ok c (encs rs)" using assms by (simp add: framed_def)
  obtain err r s' where run: "rtc_store_rbuf_init ESP_RST_OTHER (rc_len c) (rc_offset c) (rb_mem (rc_rb c)) s = Some (err, r, s')"
    using rbuf_init_total [OF ok, of s] by auto
  have mem: "mem_ok s = [] \<longrightarrow> err = ESP_OK \<and> (\<exists>buf. length buf = rb_size (rc_rb c) \<and> r = Some (fresh_chan buf (encs rs)))"
    using rbuf_init_enough_memory [OF ok, of s] run by auto
  have unlocked: "\<not> rc_locked (fresh_chan buf q)" for buf q by (simp add: fresh_chan_def)
  show ?thesis
    using rbuf_init_kept [OF ok run] mem run fresh_framed [OF _ assms] unlocked
    by (cases "mem_ok s = []") (fastforce split: option.split)+
qed

theorem records_survive_restart_witness:
  "\<exists>c' s'. rtc_store_rbuf_init ESP_RST_OTHER (rc_len example_chan) (rc_offset example_chan)
      (rb_mem (rc_rb example_chan)) \<lparr>trace = [], inputs = [], mem_ok = []\<rparr> = Some (ESP_OK, Some c', s')
    \<and> framed c' [(5, [1, 2])]"
  using records_survive_restart [OF example_framed(1), of "\<lparr>trace = [], inputs = [], mem_ok = []\<rparr>"]
  by (auto split: option.splits)

end
