(* ===== verification/Spec2Isabelle.thy ===== *)
theory Spec2Isabelle
  imports Rm_Node Rm_Frame App_Deliver App_Wifi Json_Parser Rm_Node_Config Rm_Timezone
    Rm_Agent Rm_Schedule_Inv Rm_Schedule_Time Rm_Schedule_Json Rm_Ota_Inv Mqtt_Glue
    Rm_Claim_Props App_Boot Rm_Schedule_Reload
    Esp_Schedule_Nvs Rm_Local_Ctrl Rtc_Store
begin

text \<open>
  A verification development of the WS38 dimmer firmware: a single-live-wire wall dimmer on an
  ESP32-C3 that is controlled by three wall buttons, by a second microcontroller on a UART and by
  the ESP RainMaker cloud.

  \<^bold>\<open>The parts and how they interact.\<close> The application (\<open>projects/single_live_wire_switch\<close>)
  keeps the brightness and the on/off state (\<open>bri_ctrl.c\<close>). Wall buttons (\<open>app_button.c\<close>),
  the cloud's write callback (\<open>app_rainmaker.c\<close>) and the dimmer's own reports (\<open>app_uart.c\<close>)
  change that state; every change is sent to the dimmer by a send task that shares a buffer and a
  flag with its callers (\<open>app_uart.c\<close>), and is reported to the cloud through the parameter API
  of the RainMaker library (\<open>esp_rainmaker/src/core\<close>). Because the device steals its supply
  from a single live wire, the Wi-Fi is only started when the supply allows it (\<open>ic2_ctrl.c\<close>),
  reconnected in slowing phases (\<open>app_event.c\<close>), and a power lock keeps the chip out of sleep
  while it talks (\<open>app_main.c\<close>).

  \<^bold>\<open>How state and effects are modelled.\<close> The state is one extensible record: \<open>plat\<close> (what
  was called and what the SDK will answer), extended by \<open>rm\<close> (the library's objects), by
  \<open>lib\<close> and \<open>core\<close> (the rest of the library's static variables) and by \<open>app\<close> (the
  application). Functions of the library are polymorphic in the record's extension,
  so that the application's state is visibly untouched by them. A C function is a function on
  the state, with its C result; a \<open>NULL\<close> pointer is \<open>None\<close>; an error code is an \<open>int\<close>.
  Calls into the SDK (FreeRTOS, ESP-IDF drivers, Wi-Fi, MQTT, NVS) are recorded in \<open>trace\<close> in
  program order, and their answers are read from a stream that is an argument of the run, so a
  theorem holds for every behaviour of the SDK it does not name. Heap objects of the library are
  named by references into maps, because chains and back pointers share them.

  \<^bold>\<open>The theories.\<close>
  \<^item> \<open>Prelude\<close>, \<open>Platform\<close>: machine integers, C strings, list lemmas; the SDK boundary.
  \<^item> \<open>Json_Gen\<close> (\<open>json_generator.c\<close>): the generator, with the length pass, the overflow and
    the flush callback. Its lemmas relate a buffer to the text it has been given
    (\<open>json_stream_append\<close>).
  \<^item> \<open>Json_Parser\<close> (\<open>json_parser.c\<close>): the accessors over a token array; a reference document
    type with its token encoding shows what a lookup finds and that leaving undoes entering.
  \<^item> \<open>Jsmn\<close> (\<open>jsmn.h\<close>, with parent links and strict): the tokenizer, which returns on every
    text, and the invariant of its tokens; \<open>Jsmn_Doc\<close>: on a text of the JSON grammar the tokens
    are those of the document; \<open>Json_Round\<close>: a document made with the generator's operations, its strings
    escaped by the caller as JSON demands (the generator does not), is read back as it was written.
  \<^item> \<open>Rm_State\<close>, \<open>Rm_Param\<close>, \<open>Rm_Device\<close>, \<open>Rm_Node\<close>, \<open>Rm_Standard\<close>,
    \<open>Rm_Node_Config\<close>: the object model of the library (\<open>esp_rmaker_param.c\<close>,
    \<open>esp_rmaker_device.c\<close>, \<open>esp_rmaker_node.c\<close>, \<open>src/standard_types\<close>,
    \<open>esp_rmaker_node_config.c\<close>). The documents that are published are compared with a printed
    reference tree; names stay unique within their owner. \<open>Keyed_Chain\<close> is the interface of
    the linked chains and is interpreted for parameters, devices and attributes; \<open>Rm_Frame\<close>
    collects what the library calls leave alone.
  \<^item> \<open>Rm_Reset\<close> (\<open>utils.c\<close>, \<open>esp_rmaker_system_service.c\<close>): delayed reboot and reset.
  \<^item> \<open>Rm_Tz_Table\<close>, \<open>Rm_Timezone\<close> (\<open>timezone.c\<close>): the time zone table is sorted for the
    comparison function, so its binary search is exact.
  \<^item> \<open>Rm_Work_Queue\<close> (\<open>work_queue.c\<close>): the queue of FreeRTOS is an argument with the laws of
    the locale \<open>fifo_queue\<close>; the component refines a list with a life cycle, and the later
    theories use that abstract value.
  \<^item> \<open>Rm_Core_State\<close>, \<open>Rm_Mapping\<close>, \<open>Rm_Core\<close>, \<open>Rm_Agent\<close> (\<open>factory.c\<close>,
    \<open>esp_rmaker_client_data.c\<close>, \<open>esp_rmaker_mqtt.c\<close>, \<open>esp_rmaker_user_mapping.c\<close>,
    \<open>esp_rmaker_core.c\<close>): initialisation, the task and deinitialisation of the agent, with every
    failure exit; \<open>Rm_Agent\<close> proves what each of them leaves behind.
  \<^item> \<open>Rm_Time\<close> (\<open>time.c\<close>, \<open>esp_rmaker_time_service.c\<close>): the clock and the time zone.
  \<^item> \<open>C_Time\<close>, \<open>Esp_Schedule\<close> (\<open>esp_schedule.c\<close>): the C library's broken-down time, and
    the schedule engine on top of it. The time zone is an argument; \<open>zone off\<close> is a concrete
    one, for which the calendar is defined and its laws are proved. The engine's client promises
    the laws of the locale \<open>timestamp_client\<close>.
  \<^item> \<open>Rm_Schedule\<close> (\<open>esp_rmaker_schedule.c\<close>): the schedules of the node, which interpret
    that locale; \<open>Rm_Schedule_Inv\<close> proves the invariant of all operations, \<open>Rm_Schedule_Time\<close>
    when a schedule's timer goes off, \<open>Rm_Schedule_Json\<close> what is reported, and
    \<open>Rm_Schedule_Reload\<close> that the reported text restores the schedules at the next start.
  \<^item> \<open>Esp_Schedule_Nvs\<close> (\<open>esp_schedule_nvs.c\<close>): the engine's own storage, over any NVS
    driver that keeps its documented laws (\<open>nvs_laws\<close>, which a driver in memory satisfies). The
    program leaves it off (\<open>storage_off_same\<close>); the storage refines a map from names to
    schedules once its namespace has been cleared, which nothing does (\<open>never_restored\<close>).
  \<^item> \<open>Rm_Local_Ctrl\<close> (\<open>esp_rmaker_local_ctrl.c\<close>): reading and writing the node over the
    local network, and a start that waits for the provisioning to end.
  \<^item> \<open>Rm_Ota\<close>, \<open>Rm_Ota_Inv\<close> (\<open>src/ota\<close>): firmware updates, requested by a parameter or
    by a topic; \<open>Rm_Ota_Inv\<close> proves that requests never overlap and how an update can end.
  \<^item> \<open>Mqtt_Glue\<close> (\<open>esp-mqtt-glue.c\<close>): the table of subscriptions as a bounded multiset, and
    the reassembly of messages that arrive in fragments.
  \<^item> \<open>Rm_Claim\<close>, \<open>Rm_Claim_Props\<close> (\<open>esp_rmaker_claim.c\<close>): assisted claiming, a state machine
    that a provisioning client drives; the order of its steps, its fragments and their bounds. A
    fragment that leaves its array overwrites what lies behind it: its effect is the argument \<open>ce_wild\<close>, about
    which nothing is assumed, so the order of the steps is proved for clients that stay inside.
  \<^item> \<open>Rbuf\<close> (\<open>rbuf.c\<close>), \<open>Rtc_Store\<close> (\<open>rtc_store.c\<close>): the store of diagnostics data in RTC
    memory. The ring buffer refines a bounded queue of bytes (\<open>holds\<close>); on top of it the store
    holds whole records (\<open>framed\<close>), overwrites the oldest, hands them to a reader and finds them
    again after a restart.
  \<^item> \<open>App_State\<close>, \<open>App_Power\<close>, \<open>App_Led\<close>, \<open>App_Bri\<close>: the application's variables, the
    power lock, the indicator and the dimmer.
  \<^item> \<open>App_Rainmaker\<close>, \<open>App_Event\<close>: the cloud callbacks and the connection strategy.
  \<^item> \<open>App_Uart\<close>, \<open>App_Link\<close>, \<open>App_World\<close>, \<open>App_Deliver\<close>: the UART link. Requests
    (\<open>req_step\<close>) and send tasks (\<open>task_step\<close>) are cut at every access to the variables they share;
    \<open>link_step\<close> interleaves any number of them with everything else that reaches the link, under the
    contract of the locale \<open>link_client\<close>, which is interpreted for each of those operations. A frame
    is complete in every interleaving, its checksum right when no two of them use the buffer at
    a time (\<open>torn_frame_sent\<close> is a run with a wrong one). Undisturbed calls and tasks are \<open>send_bri_ctrl_info\<close>
    and \<open>send_step\<close>, in which \<open>App_Deliver\<close> states what is delivered and what is lost.
  \<^item> \<open>App_Button\<close>, \<open>App_Adc\<close>, \<open>App_Wifi\<close>: the buttons, the supply monitor, Wi-Fi start,
    provisioning and the reset button.
  \<^item> \<open>App_Main\<close>, \<open>App_Boot\<close>: the start of the device (\<open>app_main\<close>, \<open>app_rainmaker_init\<close>), which
    composes all the components, and what it guarantees. The start is cut at the call of
    \<open>esp_rmaker_start\<close>: the task of the work queue, which that call creates, has a higher priority
    than the main task and runs before the main task goes on. Most of \<open>App_Boot\<close> shows that no part of
    the start, the restored schedules included, touches the agent's own state.

  \<^bold>\<open>Bounds and fuel.\<close> \<open>json_gen_add_loop\<close> runs with fuel \<open>length + 2\<close>: every round but
  the last two consumes a character. \<open>send_run\<close> takes the number of steps of the send task as an
  argument and the delivery theorem names a number that is enough. \<open>jsmn_close_walk\<close> runs with the
  number of tokens as fuel: a parent comes before its child, so it never runs out (\<open>jsmn_returns\<close>).
  \<open>parse_elements\<close> runs with the
  number of tokens as fuel, which \<open>parse_elements_fuel\<close> shows to be enough for every token array
  whose sizes count tokens. \<open>esp_rmaker_handle_work_queue\<close> and \<open>make_room\<close>, which need not end, are partial
  functions; \<open>work_queue_drains\<close>, \<open>make_room_ok\<close> and \<open>make_room_enough\<close> show when they do. All other loops are structural
  recursions or functions with a termination proof.

  \<^bold>\<open>Not modelled.\<close> Console output; the SDK itself; generated protobuf code and mbedTLS
  (messages are given unpacked; for the agent's task a whole claim is one effect with an answer,
  and self claiming is not compiled); the call of the local control service by the agent, which
  is not in the configuration; the console, which only prints and forwards to modelled functions; the diagnostics, apart from their store, and the \<open>esp-qcloud\<close> component, which this application is not built
  with; the vendored lwIP tree under \<open>patch\<close>.
\<close>

end
